(* ===== verification/Shop_Prelude.thy ===== *)
theory Shop_Prelude
  imports Main "HOL-Library.Word" "HOL-Library.Signed_Division" "HOL-Library.Sublist"
begin

text \<open>
  Prelude of the shop development: the Go values every component uses and the lemmas they
  share.

  \<^item> \<open>int64\<close> is a 64-bit two's complement integer. Go's \<open>int64\<close> and, on the 64-bit
    targets the server is built for, Go's \<open>int\<close> are both this type; \<open>+\<close>, \<open>-\<close> and
    \<open>*\<close> wrap around, \<open>go_div\<close> truncates towards zero and the signed comparisons
    \<open><s\<close> and \<open>\<le>s\<close> are the language's \<open><\<close> and \<open><=\<close>.
  \<^item> \<open>gotime\<close> is an instant (\<open>time.Time\<close> in UTC) in nanoseconds since 1 January of
    year 1; the zero time is 0. Every \<open>time.Now()\<close> a function evaluates is an argument
    of its definition.
  \<^item> \<open>outcome\<close> is the result of a call: a value, a returned error, or a panic.
  \<^item> strings are byte strings, as in Go. \<open>trim_space\<close> is \<open>strings.TrimSpace\<close> on
    UTF-8 bytes. \<open>go_to_upper\<close> and \<open>go_to_lower\<close> are exact on ASCII and take the
    Unicode case table as an argument for other strings.
\<close>

section \<open>Named collections\<close>

named_theorems i64 \<open>signed readings of 64-bit comparisons and bounds\<close>
named_theorems outcome_simps \<open>unfolding of outcome combinators\<close>

section \<open>Integers and instants\<close>

type_synonym int64 = "64 word"
type_synonym gotime = int

definition MaxInt64 :: int64 where "MaxInt64 = 9223372036854775807"
definition MinInt64 :: int64 where "MinInt64 = - 9223372036854775808"

definition in_int64 :: "int \<Rightarrow> bool" where
  "in_int64 k \<longleftrightarrow> - (2 ^ 63) \<le> k \<and> k < 2 ^ 63"

definition IsZeroTime :: "gotime \<Rightarrow> bool" where "IsZeroTime t \<longleftrightarrow> t = 0"

lemmas word_signed [i64] = word_sless_alt word_sle_eq

lemma sint_MaxInt64 [simp]: "sint MaxInt64 = 2 ^ 63 - 1"
  by (simp add: MaxInt64_def)

lemma sint_MinInt64 [simp]: "sint MinInt64 = - (2 ^ 63)"
  by (simp add: MinInt64_def)

lemma sint_in_int64 [simp]: "in_int64 (sint (x :: int64))"
  using sint_ge [of x] sint_lt [of x] by (simp add: in_int64_def)

lemma sint_upper: "sint (x :: int64) \<le> 9223372036854775807"
  using sint_lt [of x] by simp

lemma sint_lower: "- 9223372036854775808 \<le> sint (x :: int64)"
  using sint_ge [of x] by simp

lemma signed_take_bit_in_range: "in_int64 k \<Longrightarrow> signed_take_bit 63 k = k"
  by (rule signed_take_bit_int_eq_self) (simp_all add: in_int64_def)

lemma sint_plus: "sint (a + b :: int64) = signed_take_bit 63 (sint a + sint b)"
  by (simp add: sint_word_ariths)

lemma sint_minus: "sint (a - b :: int64) = signed_take_bit 63 (sint a - sint b)"
  by (simp add: sint_word_ariths)

lemma sint_times: "sint (a * b :: int64) = signed_take_bit 63 (sint a * sint b)"
  by (simp add: sint_word_ariths)

lemma sint_plus_exact: "in_int64 (sint a + sint b) \<Longrightarrow> sint (a + b :: int64) = sint a + sint b"
  by (simp add: sint_plus signed_take_bit_in_range)

lemma sint_minus_exact: "in_int64 (sint a - sint b) \<Longrightarrow> sint (a - b :: int64) = sint a - sint b"
  by (simp add: sint_minus signed_take_bit_in_range)

lemma sint_times_exact: "in_int64 (sint a * sint b) \<Longrightarrow> sint (a * b :: int64) = sint a * sint b"
  by (simp add: sint_times signed_take_bit_in_range)

lemma sint_plus_cases:
  fixes a b :: int64
  shows "sint (a + b) = sint a + sint b \<or>
         (0 < sint b \<and> 2 ^ 63 \<le> sint a + sint b \<and> sint (a + b) = sint a + sint b - 2 ^ 64) \<or>
         (sint b < 0 \<and> sint a + sint b < - (2 ^ 63) \<and> sint (a + b) = sint a + sint b + 2 ^ 64)"
proof -
  let ?k = "sint a + sint b"
  have ab: "- (2 ^ 63) \<le> sint a" "sint a < 2 ^ 63" "- (2 ^ 63) \<le> sint b" "sint b < 2 ^ 63"
    using sint_ge [of a] sint_lt [of a] sint_ge [of b] sint_lt [of b] by simp_all
  consider "in_int64 ?k" | "2 ^ 63 \<le> ?k" | "?k < - (2 ^ 63)"
    unfolding in_int64_def by linarith
  then show ?thesis
  proof cases
    case 1
    then show ?thesis by (simp add: sint_plus_exact)
  next
    case 2
    have "sint (a + b) = signed_take_bit 63 (?k - 2 ^ 64)"
      by (simp add: sint_plus signed_take_bit_eq_take_bit_shift take_bit_eq_mod)
        (simp add: mod_eq_dvd_iff algebra_simps)
    then show ?thesis
      using 2 ab by (simp add: signed_take_bit_in_range in_int64_def)
  next
    case 3
    have "sint (a + b) = signed_take_bit 63 (?k + 2 ^ 64)"
      by (simp add: sint_plus signed_take_bit_eq_take_bit_shift take_bit_eq_mod)
        (simp add: mod_eq_dvd_iff algebra_simps)
    then show ?thesis
      using 3 ab by (simp add: signed_take_bit_in_range in_int64_def)
  qed
qed

lemma sint_of_int: "in_int64 k \<Longrightarrow> sint (word_of_int k :: int64) = k"
  by (simp add: sint_sbintrunc' signed_take_bit_in_range)


text \<open>Go's integer division truncates; the only quotient that wraps is \<open>MinInt64 / -1\<close>.\<close>

definition go_div :: "int64 \<Rightarrow> int64 \<Rightarrow> int64" where
  "go_div a b = word_of_int (sint a sdiv sint b)"

lemma sint_go_div: "sint (go_div a b) = signed_take_bit 63 (sint a sdiv sint b)"
  by (simp add: go_div_def sint_sbintrunc')

lemma le_div_iff_mult: "0 < q \<Longrightarrow> a \<le> b div q \<longleftrightarrow> a * q \<le> (b :: int)"
proof
  assume q: "0 < q" and "a \<le> b div q"
  then have "a * q \<le> b div q * q" by (simp add: mult_right_mono)
  also have "\<dots> \<le> b" using pos_mod_sign [OF q, of b] by (simp add: minus_mod_eq_div_mult [symmetric])
  finally show "a * q \<le> b" .
next
  assume q: "0 < q" and le: "a * q \<le> b"
  show "a \<le> b div q" using zdiv_mono1 [OF le q] q by simp
qed

lemma sdiv_nonneg_int: "0 \<le> (k :: int) \<Longrightarrow> 0 < l \<Longrightarrow> k sdiv l = k div l"
  by (cases "k = 0") (simp_all add: signed_divide_int_def)

lemma sdiv_abs_le: "0 < (l :: int) \<Longrightarrow> \<bar>k sdiv l\<bar> \<le> \<bar>k\<bar>"
proof -
  assume l: "0 < l"
  then have "\<bar>k\<bar> div l \<le> \<bar>k\<bar>" using zdiv_mono2 [of "\<bar>k\<bar>" 1 l] by simp
  then show ?thesis
    using l by (simp add: signed_divide_int_def abs_mult sgn_if pos_imp_zdiv_nonneg_iff)
      (simp add: abs_if split: if_splits)
qed

lemma sint_go_div_pos: "0 < sint b \<Longrightarrow> sint (go_div a b) = sint a sdiv sint b"
proof -
  assume b: "0 < sint b"
  have "in_int64 (sint a sdiv sint b)"
  proof (cases "sint a < 0")
    case True
    then have "sint a sdiv sint b \<le> 0"
      using b by (simp add: signed_divide_int_def sgn_if pos_imp_zdiv_nonneg_iff)
    then show ?thesis
      using sdiv_abs_le [OF b, of "sint a"] sint_lower [of a] True by (simp add: in_int64_def)
  next
    case False
    then show ?thesis
      using sdiv_abs_le [OF b, of "sint a"] sint_upper [of a] by (auto simp: in_int64_def abs_le_iff)
  qed
  then show ?thesis by (simp add: sint_go_div signed_take_bit_in_range)
qed

section \<open>Outcomes of calls\<close>

text \<open>
  Errors keep the text of the source: \<open>Err\<close> is \<open>errors.New\<close> (or a formatted
  error without arguments), \<open>ErrWith\<close> a formatted error with the arguments that are
  strings, \<open>AppErr\<close> an \<open>apperror.Error\<close> with its code, and \<open>Wrap\<close> is
  \<open>fmt.Errorf("...: %w", err)\<close> with the prefix it adds, \<open>Around\<close> the same with text on both
  sides of the wrapped error, \<open>AppWrap\<close> is \<open>apperror.Wrap\<close>. \<open>MissingPrice\<close> is \<open>*pricing.MissingUnitPriceError\<close> with
  the variant, the currency and the product type when it is known. \<open>Panics\<close> is a Go panic
  that nothing in the call recovers.
\<close>

datatype app_code =
    NotFound | Conflict | Validation | Unauthorized | Forbidden | RateLimited | Internal
  | ForbiddenPrivateField | UnknownFieldCode | FieldValidationFailed | CartValidationFailed

datatype gerror =
    Err string
  | ErrWith string "string list"
  | AppErr app_code string
  | Wrap string gerror
  | Around string gerror string
  | AppWrap app_code string gerror
  | MissingPrice string string "string option"

datatype 'a outcome = Ok 'a | Fail gerror | Panics string

fun bindO :: "'a outcome \<Rightarrow> ('a \<Rightarrow> 'b outcome) \<Rightarrow> 'b outcome" where
  "bindO (Ok x) f = f x"
| "bindO (Fail e) f = Fail e"
| "bindO (Panics p) f = Panics p"

text \<open>\<open>if err != nil { return ..., wrap(err) }\<close>: a panic is not an error value.\<close>

fun mapErr :: "(gerror \<Rightarrow> gerror) \<Rightarrow> 'a outcome \<Rightarrow> 'a outcome" where
  "mapErr w (Ok x) = Ok x"
| "mapErr w (Fail e) = Fail (w e)"
| "mapErr w (Panics p) = Panics p"

fun isOk :: "'a outcome \<Rightarrow> bool" where
  "isOk (Ok _) = True"
| "isOk _ = False"

text \<open>\<open>err.Error()\<close>; the arguments of a formatted error follow its text.\<close>

fun app_code_name :: "app_code \<Rightarrow> string" where
  "app_code_name Validation = ''validation''"
| "app_code_name NotFound = ''not_found''"
| "app_code_name Conflict = ''conflict''"
| "app_code_name Unauthorized = ''unauthorized''"
| "app_code_name Forbidden = ''forbidden''"
| "app_code_name RateLimited = ''rate_limited''"
| "app_code_name Internal = ''internal''"
| "app_code_name ForbiddenPrivateField = ''forbidden_private_field''"
| "app_code_name UnknownFieldCode = ''unknown_field_code''"
| "app_code_name FieldValidationFailed = ''field_validation_failed''"
| "app_code_name CartValidationFailed = ''cart_validation_failed''"

fun err_text :: "gerror \<Rightarrow> string" where
  "err_text (Err s) = s"
| "err_text (ErrWith s args) = s @ concat args"
| "err_text (AppErr c s) = app_code_name c @ '': '' @ s"
| "err_text (Wrap p e) = p @ '': '' @ err_text e"
| "err_text (Around p e s) = p @ err_text e @ s"
| "err_text (AppWrap c s e) = app_code_name c @ '': '' @ s @ '': '' @ err_text e"
| "err_text (MissingPrice v c t) = ''no price for variant '' @ v @ '' in '' @ c"

text \<open>\<open>errors.Is\<close>: does the chain of wrapped errors reach the sentinel \<open>t\<close>?\<close>

fun err_is :: "gerror \<Rightarrow> gerror \<Rightarrow> bool" where
  "err_is t (Wrap p e) = (Wrap p e = t \<or> err_is t e)"
| "err_is t (Around p e s) = (Around p e s = t \<or> err_is t e)"
| "err_is t (AppWrap c s e) = (AppWrap c s e = t \<or> err_is t e)"
| "err_is t e = (e = t)"

text \<open>\<open>errors.As\<close> for an \<open>*apperror.Error\<close>: the message of the first one in the chain.\<close>

fun app_message :: "gerror \<Rightarrow> string option" where
  "app_message (AppErr c s) = Some s"
| "app_message (AppWrap c s e) = Some s"
| "app_message (Wrap p e) = app_message e"
| "app_message (Around p e s) = app_message e"
| "app_message _ = None"

text \<open>The answer of a repository: an error or a value.\<close>

fun of_res :: "gerror + 'a \<Rightarrow> 'a outcome" where
  "of_res (Inl e) = Fail e"
| "of_res (Inr x) = Ok x"

lemma of_res_iff [simp]: "of_res r = Ok x \<longleftrightarrow> r = Inr x" "of_res r \<noteq> Panics p"
  by (cases r; auto)+

text \<open>\<open>check b e\<close> is the guard \<open>if b { return e }\<close>.\<close>

definition check :: "bool \<Rightarrow> gerror \<Rightarrow> unit outcome" where
  "check bad e = (if bad then Fail e else Ok ())"

lemma bindO_Ok_iff [simp]: "bindO m f = Ok y \<longleftrightarrow> (\<exists>x. m = Ok x \<and> f x = Ok y)"
  by (cases m) auto

lemma bindO_Panics_iff [simp]: "bindO m f = Panics p \<longleftrightarrow> m = Panics p \<or> (\<exists>x. m = Ok x \<and> f x = Panics p)"
  by (cases m) auto

lemma bindO_assoc [outcome_simps]: "bindO (bindO m f) g = bindO m (\<lambda>x. bindO (f x) g)"
  by (cases m) auto

lemma bindO_Ok_right [outcome_simps]: "bindO m Ok = m"
  by (cases m) auto

lemma mapErr_Ok_iff [simp]: "mapErr w m = Ok x \<longleftrightarrow> m = Ok x"
  by (cases m) auto

lemma mapErr_Panics_iff [simp]: "mapErr w m = Panics p \<longleftrightarrow> m = Panics p"
  by (cases m) auto

lemma check_simps [simp, outcome_simps]:
  "check b e = Ok u \<longleftrightarrow> \<not> b"
  "check b e = Fail e' \<longleftrightarrow> b \<and> e' = e"
  "check b e \<noteq> Panics p"
  by (auto simp: check_def)

lemma bindO_check [outcome_simps]: "bindO (check b e) f = (if b then Fail e else f ())"
  by (simp add: check_def)

lemma isOk_iff: "isOk m \<longleftrightarrow> (\<exists>x. m = Ok x)"
  by (cases m) auto

lemma outcome_cases3: "(\<And>x. m = Ok x \<Longrightarrow> P) \<Longrightarrow> (\<And>e. m = Fail e \<Longrightarrow> P) \<Longrightarrow> (\<And>p. m = Panics p \<Longrightarrow> P) \<Longrightarrow> P"
  by (cases m) auto

text \<open>
  \<open>post m Q\<close>: the call \<open>m\<close> does not panic, and its value, if it returns one,
  satisfies \<open>Q\<close>. The rules follow the shape of the code.
\<close>

definition post :: "'a outcome \<Rightarrow> ('a \<Rightarrow> bool) \<Rightarrow> bool" where
  "post m Q \<longleftrightarrow> (case m of Ok x \<Rightarrow> Q x | Fail _ \<Rightarrow> True | Panics _ \<Rightarrow> False)"

named_theorems post_intro \<open>rules for outcomes that do not panic\<close>

lemma post_simps [simp]: "post (Ok x) Q = Q x" "post (Fail e) Q" "\<not> post (Panics p) Q"
  by (simp_all add: post_def)

lemma postI: "(\<And>x. m = Ok x \<Longrightarrow> Q x) \<Longrightarrow> (\<And>p. m \<noteq> Panics p) \<Longrightarrow> post m Q"
  by (cases m) auto

lemma post_bind [post_intro]: "post m P \<Longrightarrow> (\<And>x. m = Ok x \<Longrightarrow> P x \<Longrightarrow> post (f x) Q) \<Longrightarrow> post (bindO m f) Q"
  by (cases m) auto

lemma post_of_res [simp]: "post (of_res r) Q \<longleftrightarrow> (\<forall>x. r = Inr x \<longrightarrow> Q x)"
  by (cases r) auto

lemma post_mapErr [simp]: "post (mapErr w m) Q = post m Q"
  by (cases m) auto

lemma post_if [post_intro]: "(b \<Longrightarrow> post m Q) \<Longrightarrow> (\<not> b \<Longrightarrow> post n Q) \<Longrightarrow> post (if b then m else n) Q"
  by simp

lemma post_mono: "post m P \<Longrightarrow> (\<And>x. m = Ok x \<Longrightarrow> P x \<Longrightarrow> Q x) \<Longrightarrow> post m Q"
  by (cases m) auto

lemma post_not_Panics: "post m Q \<Longrightarrow> m \<noteq> Panics p"
  by auto

lemma post_Ok: "post m Q \<Longrightarrow> m = Ok x \<Longrightarrow> Q x"
  by simp

section \<open>Dynamic values\<close>

text \<open>
  Values of the dynamic type \<open>interface{}\<close> as the code stores them in its maps. A Go map that the code iterates
  over is an association list with distinct keys, its order being the order of the iteration;
  \<open>MOther\<close> is a value of any other type, by its type name.
\<close>

datatype meta_val =
    MNil
  | MStr string
  | MStrMap "(string \<times> string) list"
  | MAnyMap "(string \<times> meta_val) list"
  | MOther string

type_synonym meta = "string \<Rightarrow> meta_val option"

section \<open>Strings\<close>

definition byte_val :: "char \<Rightarrow> nat" where "byte_val c = of_char c"

definition is_upper_letter :: "char \<Rightarrow> bool" where
  "is_upper_letter c \<longleftrightarrow> 65 \<le> byte_val c \<and> byte_val c \<le> 90"

definition is_lower_letter :: "char \<Rightarrow> bool" where
  "is_lower_letter c \<longleftrightarrow> 97 \<le> byte_val c \<and> byte_val c \<le> 122"

definition is_digit_char :: "char \<Rightarrow> bool" where
  "is_digit_char c \<longleftrightarrow> 48 \<le> byte_val c \<and> byte_val c \<le> 57"

definition is_ascii :: "string \<Rightarrow> bool" where
  "is_ascii s \<longleftrightarrow> (\<forall>c \<in> set s. byte_val c < 128)"

definition upper_char :: "char \<Rightarrow> char" where
  "upper_char c = (if is_lower_letter c then char_of (byte_val c - 32) else c)"

definition lower_char :: "char \<Rightarrow> char" where
  "lower_char c = (if is_upper_letter c then char_of (byte_val c + 32) else c)"

text \<open>\<open>strings.ToUpper\<close> and \<open>strings.ToLower\<close>; \<open>uni\<close> is the Unicode mapping.\<close>

definition go_to_upper :: "(string \<Rightarrow> string) \<Rightarrow> string \<Rightarrow> string" where
  "go_to_upper uni s = (if is_ascii s then map upper_char s else uni s)"

definition go_to_lower :: "(string \<Rightarrow> string) \<Rightarrow> string \<Rightarrow> string" where
  "go_to_lower uni s = (if is_ascii s then map lower_char s else uni s)"

text \<open>\<open>strings.EqualFold\<close>; \<open>ufold\<close> compares strings that are not ASCII.\<close>

definition go_equal_fold :: "(string \<Rightarrow> string \<Rightarrow> bool) \<Rightarrow> string \<Rightarrow> string \<Rightarrow> bool" where
  "go_equal_fold ufold s t \<longleftrightarrow>
     (if is_ascii s \<and> is_ascii t then map lower_char s = map lower_char t else ufold s t)"

text \<open>\<open>%d\<close> and \<open>strconv.Itoa\<close>.\<close>

fun nat_decimal :: "nat \<Rightarrow> string" where
  "nat_decimal n =
     (if n < 10 then [char_of (48 + n)] else nat_decimal (n div 10) @ [char_of (48 + n mod 10)])"

declare nat_decimal.simps [simp del]

definition go_itoa :: "int64 \<Rightarrow> string" where
  "go_itoa k = (if sint k < 0 then ''-'' @ nat_decimal (nat (- sint k)) else nat_decimal (nat (sint k)))"

text \<open>The UTF-8 encodings of the code points for which \<open>unicode.IsSpace\<close> holds.\<close>

definition space_codes :: "string list" where
  "space_codes =
    [[CHR 0x09], [CHR 0x0A], [CHR 0x0B], [CHR 0x0C], [CHR 0x0D], [CHR 0x20],
     [CHR 0xC2, CHR 0x85], [CHR 0xC2, CHR 0xA0], [CHR 0xE1, CHR 0x9A, CHR 0x80],
     [CHR 0xE2, CHR 0x80, CHR 0x80], [CHR 0xE2, CHR 0x80, CHR 0x81],
     [CHR 0xE2, CHR 0x80, CHR 0x82], [CHR 0xE2, CHR 0x80, CHR 0x83],
     [CHR 0xE2, CHR 0x80, CHR 0x84], [CHR 0xE2, CHR 0x80, CHR 0x85],
     [CHR 0xE2, CHR 0x80, CHR 0x86], [CHR 0xE2, CHR 0x80, CHR 0x87],
     [CHR 0xE2, CHR 0x80, CHR 0x88], [CHR 0xE2, CHR 0x80, CHR 0x89],
     [CHR 0xE2, CHR 0x80, CHR 0x8A], [CHR 0xE2, CHR 0x80, CHR 0xA8],
     [CHR 0xE2, CHR 0x80, CHR 0xA9], [CHR 0xE2, CHR 0x80, CHR 0xAF],
     [CHR 0xE2, CHR 0x81, CHR 0x9F], [CHR 0xE3, CHR 0x80, CHR 0x80]]"

fun strip_code :: "string list \<Rightarrow> string \<Rightarrow> string option" where
  "strip_code [] s = None"
| "strip_code (p # ps) s =
     (if p \<noteq> [] \<and> prefix p s then Some (drop (length p) s) else strip_code ps s)"

lemma strip_code_shorter: "strip_code ps s = Some s' \<Longrightarrow> length s' < length s"
  by (induction ps) (auto split: if_splits dest: prefix_length_le simp: prefix_def)

function trim_codes :: "string list \<Rightarrow> string \<Rightarrow> string" where
  "trim_codes ps s = (case strip_code ps s of None \<Rightarrow> s | Some s' \<Rightarrow> trim_codes ps s')"
  by pat_completeness auto
termination
  by (relation "measure (\<lambda>(ps, s). length s)") (auto dest: strip_code_shorter)

declare trim_codes.simps [simp del]

definition trim_left :: "string \<Rightarrow> string" where "trim_left s = trim_codes space_codes s"

definition trim_right :: "string \<Rightarrow> string" where
  "trim_right s = rev (trim_codes (map rev space_codes) (rev s))"

definition trim_space :: "string \<Rightarrow> string" where "trim_space s = trim_right (trim_left s)"

lemma strip_code_None_iff:
  "strip_code ps s = None \<longleftrightarrow> (\<forall>p \<in> set ps. p \<noteq> [] \<longrightarrow> \<not> prefix p s)"
  by (induction ps) auto

lemma trim_codes_stop: "strip_code ps (trim_codes ps s) = None"
proof (induction ps s rule: trim_codes.induct)
  case (1 ps s)
  show ?case
  proof (cases "strip_code ps s")
    case None
    then show ?thesis by (simp add: trim_codes.simps [of ps s])
  next
    case (Some s')
    with "1.IH" [OF Some] show ?thesis by (simp add: trim_codes.simps [of ps s])
  qed
qed

lemma trim_codes_id: "strip_code ps s = None \<Longrightarrow> trim_codes ps s = s"
  by (simp add: trim_codes.simps)

lemma strip_code_suffix: "strip_code ps s = Some s' \<Longrightarrow> suffix s' s"
  by (induction ps) (auto split: if_splits simp: suffix_drop)

lemma trim_codes_suffix: "suffix (trim_codes ps s) s"
proof (induction ps s rule: trim_codes.induct)
  case (1 ps s)
  show ?case
  proof (cases "strip_code ps s")
    case None
    then show ?thesis by (simp add: trim_codes.simps [of ps s])
  next
    case (Some s')
    with "1.IH" [OF Some] show ?thesis
      by (auto simp: trim_codes.simps [of ps s] dest: strip_code_suffix intro: suffix_order.trans)
  qed
qed

lemma strip_code_prefix_None: "strip_code ps s = None \<Longrightarrow> prefix t s \<Longrightarrow> strip_code ps t = None"
  by (auto simp: strip_code_None_iff intro: prefix_order.trans)

lemma trim_right_prefix: "prefix (trim_right s) s"
  using trim_codes_suffix [of "map rev space_codes" "rev s"]
  by (simp add: trim_right_def suffix_to_prefix)

text \<open>Text keeps at least its first byte when no space encoding can contain that byte.\<close>

lemma trim_right_nonempty:
  assumes "\<forall>p \<in> set space_codes. c \<notin> set p"
  shows "trim_right (c # xs) \<noteq> []"
proof -
  have keep: "c \<in> set (trim_codes ps s)" if "c \<in> set s" "\<forall>p \<in> set ps. c \<notin> set p" for ps s
    using that
  proof (induction ps s rule: trim_codes.induct)
    case (1 ps s)
    show ?case
    proof (cases "strip_code ps s")
      case None
      then show ?thesis using "1.prems" by (simp add: trim_codes.simps [of ps s])
    next
      case (Some s')
      have "\<exists>p \<in> set ps. s = p @ s'"
        using Some by (induction ps) (auto split: if_splits simp: prefix_def)
      then have "c \<in> set s'" using "1.prems" by auto
      then show ?thesis using "1.IH" [OF Some] "1.prems"(2) Some by (simp add: trim_codes.simps [of ps s])
    qed
  qed
  have "c \<in> set (trim_codes (map rev space_codes) (rev (c # xs)))"
    by (rule keep) (use assms in auto)
  then show ?thesis by (auto simp: trim_right_def)
qed

lemma trim_space_nonempty:
  assumes "\<forall>p \<in> set space_codes. c \<notin> set p"
  shows "trim_space (c # xs) \<noteq> []"
proof -
  have "\<not> prefix p (c # xs)" if "p \<in> set space_codes" "p \<noteq> []" for p
    using assms that by (cases p) auto
  then have "strip_code space_codes (c # xs) = None" by (auto simp: strip_code_None_iff)
  then show ?thesis
    using trim_right_nonempty [OF assms] by (simp add: trim_space_def trim_left_def trim_codes_id)
qed

lemma trim_right_idem [simp]: "trim_right (trim_right s) = trim_right s"
  by (simp add: trim_right_def trim_codes_id trim_codes_stop)

lemma trim_left_trim_space [simp]: "trim_left (trim_space s) = trim_space s"
proof -
  have "strip_code space_codes (trim_space s) = None"
    using strip_code_prefix_None [OF trim_codes_stop trim_right_prefix]
    by (simp add: trim_space_def trim_left_def)
  then show ?thesis by (simp add: trim_left_def trim_codes_id)
qed

lemma trim_space_idem [simp]: "trim_space (trim_space s) = trim_space s"
proof -
  have "trim_space (trim_space s) = trim_right (trim_space s)"
    by (simp only: trim_space_def [of "trim_space s"] trim_left_trim_space)
  then show ?thesis by (simp add: trim_space_def)
qed

lemma trim_space_Nil [simp]: "trim_space [] = []"
  by (simp add: trim_space_def trim_left_def trim_right_def trim_codes.simps space_codes_def)

text \<open>Upper-case ASCII text is its own trimmed and upper-cased form.\<close>

lemma space_codes_heads:
  "\<forall>p \<in> set space_codes. p \<noteq> [] \<and> \<not> is_upper_letter (hd p) \<and> \<not> is_upper_letter (last p)"
  by (simp add: space_codes_def is_upper_letter_def byte_val_def)

lemma strip_code_upper:
  assumes "\<forall>c \<in> set s. is_upper_letter c" "\<forall>p \<in> set ps. p \<noteq> [] \<longrightarrow> \<not> is_upper_letter (hd p)"
  shows "strip_code ps s = None"
proof -
  have "\<not> prefix p s" if "p \<in> set ps" "p \<noteq> []" for p
  proof
    assume "prefix p s"
    then have "hd p \<in> set s" using that(2) by (auto simp: prefix_def)
    then show False using assms that by blast
  qed
  then show ?thesis by (auto simp: strip_code_None_iff)
qed

lemma trim_space_upper: "\<forall>c \<in> set s. is_upper_letter c \<Longrightarrow> trim_space s = s"
proof -
  assume up: "\<forall>c \<in> set s. is_upper_letter c"
  have "strip_code space_codes s = None"
    by (rule strip_code_upper [OF up]) (use space_codes_heads in blast)
  moreover have "strip_code (map rev space_codes) (rev s) = None"
    by (rule strip_code_upper) (use up space_codes_heads in \<open>auto simp: hd_rev\<close>)
  ultimately show ?thesis
    by (simp add: trim_space_def trim_left_def trim_right_def trim_codes_id)
qed

lemma go_to_upper_upper: "\<forall>c \<in> set s. is_upper_letter c \<Longrightarrow> go_to_upper uni s = s"
proof -
  assume up: "\<forall>c \<in> set s. is_upper_letter c"
  then have "is_ascii s" by (auto simp: is_ascii_def is_upper_letter_def)
  moreover have "map upper_char s = s"
    using up by (intro map_idI) (auto simp: upper_char_def is_lower_letter_def is_upper_letter_def)
  ultimately show ?thesis by (simp add: go_to_upper_def)
qed

end
