(* ===== verification/Money.thy ===== *)
theory Money
  imports Shop_Prelude
begin

text \<open>
  Monetary values (\<open>internal/domain/shared/money.go\<close>): an amount in the smallest
  currency unit and a currency code. Addition and multiplication come wrapping
  (\<open>Add\<close>, \<open>Mul\<close>) and checked (\<open>AddChecked\<close>, \<open>MulChecked\<close>); binary
  operations panic on a currency mismatch. The lemmas say when the checked operations
  succeed and that they are exact then. The locale \<open>money_sum\<close> is the contract of the
  checked summation loops that orders, invoices and returns each have a copy of.
\<close>

section \<open>Money values\<close>

definition IsValidCurrency :: "string \<Rightarrow> bool" where
  "IsValidCurrency code \<longleftrightarrow> length code = 3 \<and> list_all is_upper_letter code"

record money =
  m_amount :: int64
  m_currency :: string

text \<open>The zero value \<open>Money{}\<close>.\<close>

definition money_zero_value :: money where
  "money_zero_value = \<lparr>m_amount = 0, m_currency = []\<rparr>"

definition NewMoney :: "int64 \<Rightarrow> string \<Rightarrow> money outcome" where
  "NewMoney amount currency =
     (if \<not> IsValidCurrency currency
      then Fail (ErrWith ''money: invalid currency code'' [currency])
      else Ok \<lparr>m_amount = amount, m_currency = currency\<rparr>)"

definition Zero :: "string \<Rightarrow> money outcome" where
  "Zero currency =
     (if \<not> IsValidCurrency currency
      then Fail (ErrWith ''money: invalid currency code'' [currency])
      else Ok \<lparr>m_amount = 0, m_currency = currency\<rparr>)"

definition MustNewMoney :: "int64 \<Rightarrow> string \<Rightarrow> money outcome" where
  "MustNewMoney amount currency =
     (case NewMoney amount currency of
        Fail e \<Rightarrow> Panics ''money: invalid currency code''
      | m \<Rightarrow> m)"

definition MustZero :: "string \<Rightarrow> money outcome" where
  "MustZero currency =
     (case Zero currency of
        Fail e \<Rightarrow> Panics ''money: invalid currency code''
      | m \<Rightarrow> m)"

definition mustMatch :: "money \<Rightarrow> money \<Rightarrow> unit outcome" where
  "mustMatch m other =
     (if m_currency m \<noteq> m_currency other then Panics ''money: currency mismatch'' else Ok ())"

definition Add :: "money \<Rightarrow> money \<Rightarrow> money outcome" where
  "Add m other = bindO (mustMatch m other) (\<lambda>_.
     Ok \<lparr>m_amount = m_amount m + m_amount other, m_currency = m_currency m\<rparr>)"

definition AddChecked :: "money \<Rightarrow> money \<Rightarrow> money outcome" where
  "AddChecked m other = bindO (mustMatch m other) (\<lambda>_.
     let sum = m_amount m + m_amount other in
     if (0 <s m_amount other \<and> sum <s m_amount m) \<or>
        (m_amount other <s 0 \<and> m_amount m <s sum)
     then Fail (Err ''money: addition overflow'')
     else Ok \<lparr>m_amount = sum, m_currency = m_currency m\<rparr>)"

definition Sub :: "money \<Rightarrow> money \<Rightarrow> money outcome" where
  "Sub m other = bindO (mustMatch m other) (\<lambda>_.
     Ok \<lparr>m_amount = m_amount m - m_amount other, m_currency = m_currency m\<rparr>)"

definition Mul :: "money \<Rightarrow> int64 \<Rightarrow> money" where
  "Mul m qty = \<lparr>m_amount = m_amount m * qty, m_currency = m_currency m\<rparr>"

definition MulChecked :: "money \<Rightarrow> int64 \<Rightarrow> money outcome" where
  "MulChecked m qty =
     (if qty \<noteq> 0 \<and> (go_div MaxInt64 qty <s m_amount m \<or> m_amount m <s go_div MinInt64 qty)
      then Fail (Err ''money: multiplication overflow'')
      else Ok \<lparr>m_amount = m_amount m * qty, m_currency = m_currency m\<rparr>)"

definition IsZero :: "money \<Rightarrow> bool" where "IsZero m \<longleftrightarrow> m_amount m = 0"
definition IsPositive :: "money \<Rightarrow> bool" where "IsPositive m \<longleftrightarrow> 0 <s m_amount m"
definition IsNegative :: "money \<Rightarrow> bool" where "IsNegative m \<longleftrightarrow> m_amount m <s 0"

definition Equal :: "money \<Rightarrow> money \<Rightarrow> bool" where
  "Equal m other \<longleftrightarrow> m_amount m = m_amount other \<and> m_currency m = m_currency other"

text \<open>\<open>cents m\<close> is the amount read as a mathematical integer.\<close>

abbreviation cents :: "money \<Rightarrow> int" where "cents m \<equiv> sint (m_amount m)"

section \<open>Lemmas\<close>

lemma Equal_iff [simp]: "Equal m m' \<longleftrightarrow> m = m'"
  by (cases m; cases m') (simp add: Equal_def)

lemma IsPositive_iff: "IsPositive m \<longleftrightarrow> 0 < cents m"
  by (simp add: IsPositive_def i64)

lemma IsNegative_iff: "IsNegative m \<longleftrightarrow> cents m < 0"
  by (simp add: IsNegative_def i64)

lemma Zero_Ok_iff: "Zero c = Ok z \<longleftrightarrow> IsValidCurrency c \<and> z = \<lparr>m_amount = 0, m_currency = c\<rparr>"
  by (auto simp: Zero_def)

lemma NewMoney_Ok_iff:
  "NewMoney a c = Ok m \<longleftrightarrow> IsValidCurrency c \<and> m = \<lparr>m_amount = a, m_currency = c\<rparr>"
  by (auto simp: NewMoney_def)

lemma mustMatch_simps [simp]:
  "mustMatch m n = Ok u \<longleftrightarrow> m_currency m = m_currency n"
  "mustMatch m n \<noteq> Fail e"
  by (auto simp: mustMatch_def)

lemma Add_match: "m_currency m = m_currency n \<Longrightarrow>
    Add m n = Ok \<lparr>m_amount = m_amount m + m_amount n, m_currency = m_currency m\<rparr>"
  by (simp add: Add_def mustMatch_def)

lemma Sub_match: "m_currency m = m_currency n \<Longrightarrow>
    Sub m n = Ok \<lparr>m_amount = m_amount m - m_amount n, m_currency = m_currency m\<rparr>"
  by (simp add: Sub_def mustMatch_def)

lemma Add_mismatch: "m_currency m \<noteq> m_currency n \<Longrightarrow> Add m n = Panics ''money: currency mismatch''"
  by (simp add: Add_def mustMatch_def)

lemma Sub_mismatch: "m_currency m \<noteq> m_currency n \<Longrightarrow> Sub m n = Panics ''money: currency mismatch''"
  by (simp add: Sub_def mustMatch_def)

text \<open>The wrapped sum of two 64-bit values is off by a multiple of \<open>2 ^ 64\<close>.\<close>

text \<open>
  \<open>AddChecked\<close>: the overflow test (\<open>sum\<close> on the wrong side of the left operand) is
  exact: it accepts a sum if and only if the mathematical sum fits in 64 bits.
\<close>

lemma AddChecked_eq:
  assumes "m_currency m = m_currency n"
  shows "AddChecked m n =
    (if in_int64 (cents m + cents n)
     then Ok \<lparr>m_amount = m_amount m + m_amount n, m_currency = m_currency m\<rparr>
     else Fail (Err ''money: addition overflow''))"
proof -
  have "(0 < cents n \<and> sint (m_amount m + m_amount n) < cents m) \<or>
        (cents n < 0 \<and> cents m < sint (m_amount m + m_amount n)) \<longleftrightarrow>
        \<not> in_int64 (cents m + cents n)"
  proof (cases "in_int64 (cents m + cents n)")
    case True
    then show ?thesis by (simp add: sint_plus_exact)
  next
    case False
    have "- (2 ^ 63) \<le> cents n" "cents n < 2 ^ 63"
      using sint_ge [of "m_amount n"] sint_lt [of "m_amount n"] by simp_all
    moreover have "sint (m_amount m + m_amount n) \<noteq> cents m + cents n"
      using False by (metis sint_in_int64)
    ultimately show ?thesis
      using False sint_plus_cases [of "m_amount m" "m_amount n"] by auto
  qed
  then show ?thesis
    using assms by (simp add: AddChecked_def mustMatch_def Let_def i64)
qed

lemma AddChecked_Ok_iff:
  "AddChecked m n = Ok t \<longleftrightarrow>
     m_currency m = m_currency n \<and> in_int64 (cents m + cents n) \<and>
     t = \<lparr>m_amount = m_amount m + m_amount n, m_currency = m_currency m\<rparr>"
proof (cases "m_currency m = m_currency n")
  case True
  then show ?thesis by (auto simp: AddChecked_eq)
next
  case False
  then show ?thesis by (auto simp: AddChecked_def)
qed

lemma AddChecked_cents: "AddChecked m n = Ok t \<Longrightarrow> cents t = cents m + cents n"
  by (auto simp: AddChecked_Ok_iff sint_plus_exact)

lemma trunc_quotient_bound:
  fixes q a :: int
  assumes "0 < q"
  shows "a \<le> (2 ^ 63 - 1) sdiv q \<longleftrightarrow> a * q < 2 ^ 63"
    and "(- (2 ^ 63)) sdiv q \<le> a \<longleftrightarrow> - (2 ^ 63) \<le> a * q"
proof -
  have "(2 ^ 63 - 1) sdiv q = (2 ^ 63 - 1) div q"
    using assms by (simp add: signed_divide_int_def)
  moreover have "k \<le> 9223372036854775807 \<longleftrightarrow> k < 9223372036854775808" for k :: int
    by arith
  ultimately show "a \<le> (2 ^ 63 - 1) sdiv q \<longleftrightarrow> a * q < 2 ^ 63"
    using assms by (simp add: le_div_iff_mult)
  have "(- (2 ^ 63)) sdiv q = - (2 ^ 63 div q)"
    using assms by (simp add: signed_divide_int_def)
  moreover have "- a \<le> 2 ^ 63 div q \<longleftrightarrow> - a * q \<le> 2 ^ 63" for a :: int
    using assms by (simp add: le_div_iff_mult)
  ultimately show "(- (2 ^ 63)) sdiv q \<le> a \<longleftrightarrow> - (2 ^ 63) \<le> a * q"
    by (simp add: minus_le_iff)
qed

text \<open>
  \<open>MulChecked\<close> is exact when the factor is not negative. For a negative factor the
  test compares against quotients of the wrong sign, see \<open>MulChecked_negative\<close> below.
\<close>

lemma MulChecked_eq:
  assumes "0 \<le> sint q"
  shows "MulChecked m q =
    (if in_int64 (cents m * sint q)
     then Ok \<lparr>m_amount = m_amount m * q, m_currency = m_currency m\<rparr>
     else Fail (Err ''money: multiplication overflow''))"
proof (cases "q = 0")
  case True
  then show ?thesis by (simp add: MulChecked_def in_int64_def)
next
  case False
  then have q: "0 < sint q" using assms by (simp add: order.strict_iff_order signed_eq_0_iff)
  have "sint (go_div MaxInt64 q) < cents m \<longleftrightarrow> \<not> cents m * sint q < 2 ^ 63"
    using trunc_quotient_bound(1) [OF q, of "cents m"] by (simp add: sint_go_div_pos [OF q] not_le [symmetric])
  moreover have "cents m < sint (go_div MinInt64 q) \<longleftrightarrow> \<not> - (2 ^ 63) \<le> cents m * sint q"
    using trunc_quotient_bound(2) [OF q, of "cents m"] by (simp add: sint_go_div_pos [OF q] not_le [symmetric])
  ultimately show ?thesis
    using False by (auto simp: MulChecked_def i64 in_int64_def)
qed

lemma MulChecked_Ok_iff:
  "0 \<le> sint q \<Longrightarrow> MulChecked m q = Ok t \<longleftrightarrow>
     in_int64 (cents m * sint q) \<and> t = \<lparr>m_amount = m_amount m * q, m_currency = m_currency m\<rparr>"
  by (auto simp: MulChecked_eq)

lemma MulChecked_cents: "0 \<le> sint q \<Longrightarrow> MulChecked m q = Ok t \<Longrightarrow> cents t = cents m * sint q"
  by (auto simp: MulChecked_Ok_iff sint_times_exact)

lemma MulChecked_currency: "MulChecked m q = Ok t \<Longrightarrow> m_currency t = m_currency m"
  by (auto simp: MulChecked_def split: if_splits)

lemma MulChecked_not_Panics [simp]: "MulChecked m q \<noteq> Panics p"
  by (simp add: MulChecked_def)

lemma NewMoney_post: "post (NewMoney a cur) (\<lambda>d. m_currency d = cur)"
  by (simp add: NewMoney_def)

lemma Zero_post: "post (Zero cur) (\<lambda>d. m_currency d = cur)"
  by (simp add: Zero_def)

lemma MulChecked_post: "post (MulChecked m q) (\<lambda>d. m_currency d = m_currency m)"
  by (rule postI) (auto dest: MulChecked_currency)

lemma AddChecked_post: "m_currency m = m_currency n \<Longrightarrow> post (AddChecked m n) (\<lambda>t. m_currency t = m_currency m)"
  by (simp add: AddChecked_eq)

section \<open>The contract of the checked totals\<close>

text \<open>
  Orders, invoices and returns each sum \<open>unit price * quantity\<close> over their lines with
  \<open>MulChecked\<close> and \<open>AddChecked\<close>. The contract is one loop step; the theorem is
  that the loop's result is the exact sum over the integers, and that on well-formed lines
  it fails only when that sum does not fit.
\<close>

locale money_sum =
  fixes price :: "'i \<Rightarrow> money"
    and qty :: "'i \<Rightarrow> int64"
    and sum_from :: "string \<Rightarrow> money \<Rightarrow> 'i list \<Rightarrow> money outcome"
  assumes sum_Nil: "sum_from cur acc [] = Ok acc"
    and sum_Cons: "m_currency acc = cur \<Longrightarrow> m_currency (price i) = cur \<Longrightarrow>
      sum_from cur acc (i # is) =
        bindO (MulChecked (price i) (qty i)) (\<lambda>lt.
        bindO (AddChecked acc lt) (\<lambda>acc'. sum_from cur acc' is))"
    and sum_mismatch: "m_currency acc = cur \<Longrightarrow> m_currency (price i) \<noteq> cur \<Longrightarrow>
      sum_from cur acc (i # is) \<noteq> Ok t"
begin

definition line_cents :: "'i \<Rightarrow> int" where "line_cents i = cents (price i) * sint (qty i)"

definition sum_cents :: "'i list \<Rightarrow> int" where "sum_cents is = (\<Sum>i\<leftarrow>is. line_cents i)"

definition good_lines :: "string \<Rightarrow> 'i list \<Rightarrow> bool" where
  "good_lines cur is \<longleftrightarrow>
     (\<forall>i \<in> set is. m_currency (price i) = cur \<and> 0 \<le> cents (price i) \<and> 0 < sint (qty i))"

lemma sum_currencies:
  "sum_from cur acc is = Ok t \<Longrightarrow> m_currency acc = cur \<Longrightarrow> i \<in> set is \<Longrightarrow> m_currency (price i) = cur"
proof (induction "is" arbitrary: acc)
  case Nil
  then show ?case by simp
next
  case (Cons j js)
  have j: "m_currency (price j) = cur"
    using Cons.prems(1,2) sum_mismatch by blast
  then obtain lt acc' where "AddChecked acc lt = Ok acc'" "sum_from cur acc' js = Ok t"
    using Cons.prems(1,2) sum_Cons by auto
  then show ?case
    using Cons.IH [of acc'] Cons.prems(2,3) j by (auto simp: AddChecked_Ok_iff)
qed

lemma sum_exact:
  "sum_from cur acc is = Ok t \<Longrightarrow> m_currency acc = cur \<Longrightarrow> \<forall>i \<in> set is. 0 \<le> sint (qty i) \<Longrightarrow>
   cents t = cents acc + sum_cents is \<and> m_currency t = cur"
proof (induction "is" arbitrary: acc)
  case Nil
  then show ?case by (simp add: sum_Nil sum_cents_def)
next
  case (Cons j js)
  have j: "m_currency (price j) = cur"
    using Cons.prems(1,2) sum_mismatch by blast
  then obtain lt acc' where lt: "MulChecked (price j) (qty j) = Ok lt"
    and acc': "AddChecked acc lt = Ok acc'" and rest: "sum_from cur acc' js = Ok t"
    using Cons.prems(1,2) sum_Cons by auto
  have "cents acc' = cents acc + line_cents j" "m_currency acc' = cur"
    using acc' lt Cons.prems(2,3) by (auto simp: AddChecked_cents MulChecked_cents line_cents_def)
      (auto simp: AddChecked_Ok_iff)
  then show ?case
    using Cons.IH [OF rest] Cons.prems(3) by (simp add: sum_cents_def)
qed

lemma line_cents_nonneg: "good_lines cur is \<Longrightarrow> i \<in> set is \<Longrightarrow> 0 \<le> line_cents i"
  by (auto simp: good_lines_def line_cents_def)

lemma sum_cents_nonneg: "good_lines cur is \<Longrightarrow> 0 \<le> sum_cents is"
  unfolding sum_cents_def by (rule sum_list_nonneg) (auto dest: line_cents_nonneg)

lemma sum_succeeds:
  "good_lines cur is \<Longrightarrow> m_currency acc = cur \<Longrightarrow> 0 \<le> cents acc \<Longrightarrow>
   cents acc + sum_cents is < 2 ^ 63 \<Longrightarrow> \<exists>t. sum_from cur acc is = Ok t"
proof (induction "is" arbitrary: acc)
  case Nil
  then show ?case by (simp add: sum_Nil)
next
  case (Cons j js)
  from Cons.prems(1) have js: "good_lines cur js" and j: "m_currency (price j) = cur"
    and q: "0 \<le> sint (qty j)" by (auto simp: good_lines_def)
  have pos: "0 \<le> line_cents j" "0 \<le> sum_cents js"
    using Cons.prems(1) js by (auto intro: line_cents_nonneg sum_cents_nonneg)
  have total: "cents acc + line_cents j + sum_cents js < 2 ^ 63"
    using Cons.prems(4) by (simp add: sum_cents_def)
  define lt where "lt = \<lparr>m_amount = m_amount (price j) * qty j, m_currency = cur\<rparr>"
  have lt: "MulChecked (price j) (qty j) = Ok lt"
    using j q pos total Cons.prems(3)
    by (simp add: MulChecked_eq lt_def in_int64_def line_cents_def)
  have "cents lt = line_cents j"
    using MulChecked_cents [OF q lt] by (simp add: line_cents_def)
  then have "in_int64 (cents acc + cents lt)"
    using pos total Cons.prems(3) by (simp add: in_int64_def)
  then obtain acc' where acc': "AddChecked acc lt = Ok acc'"
    using Cons.prems(2) by (simp add: AddChecked_eq lt_def)
  have "cents acc' = cents acc + line_cents j" "m_currency acc' = cur"
    using AddChecked_cents [OF acc'] acc' Cons.prems(2) \<open>cents lt = line_cents j\<close>
    by (auto simp: AddChecked_Ok_iff)
  then have "\<exists>t. sum_from cur acc' js = Ok t"
    using Cons.IH [OF js] pos total Cons.prems(3) by simp
  then show ?case
    using lt acc' j Cons.prems(2) by (simp add: sum_Cons)
qed

lemma sum_Ok_iff:
  assumes "good_lines cur is" "m_currency acc = cur" "cents acc = 0"
  shows "(\<exists>t. sum_from cur acc is = Ok t) \<longleftrightarrow> sum_cents is < 2 ^ 63"
proof
  assume "\<exists>t. sum_from cur acc is = Ok t"
  then obtain t where "sum_from cur acc is = Ok t" ..
  then have "cents t = sum_cents is"
    using sum_exact [of cur acc "is" t] assms by (force simp: good_lines_def)
  then show "sum_cents is < 2 ^ 63" using sint_lt [of "m_amount t"] by simp
next
  assume "sum_cents is < 2 ^ 63"
  then show "\<exists>t. sum_from cur acc is = Ok t" using sum_succeeds assms by simp
qed

end

section \<open>Properties\<close>

text \<open>\<open>AddChecked\<close> returns a value exactly when the currencies agree and the
  mathematical sum of the two amounts fits in an \<open>int64\<close>, and the value is that sum in
  that currency. Its overflow test neither misses an overflow nor refuses a sum that fits.\<close>

lemma AddChecked_exact:
  "AddChecked m n = Ok t \<longleftrightarrow>
     m_currency m = m_currency n \<and> in_int64 (cents m + cents n) \<and>
     m_currency t = m_currency m \<and> cents t = cents m + cents n"
proof
  assume "AddChecked m n = Ok t"
  then show "m_currency m = m_currency n \<and> in_int64 (cents m + cents n) \<and>
     m_currency t = m_currency m \<and> cents t = cents m + cents n"
    by (auto simp: AddChecked_Ok_iff sint_plus_exact)
next
  assume r: "m_currency m = m_currency n \<and> in_int64 (cents m + cents n) \<and>
     m_currency t = m_currency m \<and> cents t = cents m + cents n"
  then have "sint (m_amount t) = sint (m_amount m + m_amount n)" by (simp add: sint_plus_exact)
  then have "m_amount t = m_amount m + m_amount n" by (simp only: signed_word_eqI)
  then show "AddChecked m n = Ok t"
    using r by (cases t) (simp add: AddChecked_Ok_iff)
qed

text \<open>For a non-negative quantity \<open>MulChecked\<close> returns a value exactly when the
  mathematical product fits in an \<open>int64\<close>, and the value is that product.\<close>

lemma MulChecked_exact:
  assumes "0 \<le> sint q"
  shows "MulChecked m q = Ok t \<longleftrightarrow>
     in_int64 (cents m * sint q) \<and> m_currency t = m_currency m \<and> cents t = cents m * sint q"
proof
  assume "MulChecked m q = Ok t"
  then show "in_int64 (cents m * sint q) \<and> m_currency t = m_currency m \<and> cents t = cents m * sint q"
    using assms by (auto simp: MulChecked_Ok_iff sint_times_exact)
next
  assume r: "in_int64 (cents m * sint q) \<and> m_currency t = m_currency m \<and> cents t = cents m * sint q"
  then have "sint (m_amount t) = sint (m_amount m * q)" by (simp add: sint_times_exact)
  then have "m_amount t = m_amount m * q" by (simp only: signed_word_eqI)
  then show "MulChecked m q = Ok t"
    using r assms by (cases t) (simp add: MulChecked_Ok_iff)
qed

lemma MulChecked_exact_witness:
  "MulChecked \<lparr>m_amount = 1299, m_currency = ''EUR''\<rparr> 3 =
     Ok \<lparr>m_amount = 3897, m_currency = ''EUR''\<rparr>"
  using MulChecked_exact [of 3 "\<lparr>m_amount = 1299, m_currency = ''EUR''\<rparr>"
      "\<lparr>m_amount = 3897, m_currency = ''EUR''\<rparr>"]
  by (simp add: in_int64_def)

text \<open>With a negative quantity the overflow test of \<open>MulChecked\<close> is wrong in both
  directions: it refuses \<open>5 * (-1)\<close>, which fits, and it accepts
  \<open>MinInt64 * (-1)\<close>, which does not fit and wraps to \<open>MinInt64\<close>.\<close>

lemma MulChecked_negative:
  "MulChecked \<lparr>m_amount = 5, m_currency = c\<rparr> (- 1) = Fail (Err ''money: multiplication overflow'') \<and>
   MulChecked \<lparr>m_amount = MinInt64, m_currency = c\<rparr> (- 1) = Ok \<lparr>m_amount = MinInt64, m_currency = c\<rparr> \<and>
   \<not> in_int64 (sint MinInt64 * - 1)"
  by (simp add: MulChecked_def go_div_def i64 MinInt64_def MaxInt64_def in_int64_def)

end
