(* ===== verification/Lifecycle.thy ===== *)
theory Lifecycle
  imports Shop_Prelude
begin

text \<open>
  The contract that carts, orders, payments, shipments, returns and assignments share: an
  entity has a status, its operations may fail and then leave it unchanged, and a successful
  operation keeps the status or moves it along an edge of a graph without cycles. The locale
  \<open>lifecycle\<close> derives from it what holds of every history: no status that was left is
  entered again, and a status without outgoing edges is final.
\<close>

text \<open>Running a list of operations; a failed or panicking one changes nothing.\<close>

fun run_ops :: "('op \<Rightarrow> 'e \<Rightarrow> 'e outcome) \<Rightarrow> 'op list \<Rightarrow> 'e \<Rightarrow> 'e" where
  "run_ops ap [] e = e"
| "run_ops ap (x # xs) e = (case ap x e of Ok e' \<Rightarrow> run_ops ap xs e' | _ \<Rightarrow> run_ops ap xs e)"

lemma run_ops_append: "run_ops ap (xs @ ys) e = run_ops ap ys (run_ops ap xs e)"
  by (induction xs arbitrary: e) (auto split: outcome.splits)

lemma run_ops_induct:
  assumes "P e" "\<And>x e e'. P e \<Longrightarrow> ap x e = Ok e' \<Longrightarrow> P e'"
  shows "P (run_ops ap xs e)"
  using assms(1)
proof (induction xs arbitrary: e)
  case (Cons x xs)
  then show ?case using assms(2) by (cases "ap x e") auto
qed simp

locale lifecycle =
  fixes stat :: "'e \<Rightarrow> 's"
    and ap :: "'op \<Rightarrow> 'e \<Rightarrow> 'e outcome"
    and edge :: "'s \<Rightarrow> 's \<Rightarrow> bool"
    and rank :: "'s \<Rightarrow> nat"
  assumes ap_edge: "ap x e = Ok e' \<Longrightarrow> stat e' = stat e \<or> edge (stat e) (stat e')"
    and edge_rank: "edge s t \<Longrightarrow> rank s < rank t"
begin

lemma run_edges: "edge\<^sup>*\<^sup>* (stat e) (stat (run_ops ap xs e))"
proof (rule run_ops_induct [where P = "\<lambda>d. edge\<^sup>*\<^sup>* (stat e) (stat d)"])
  show "edge\<^sup>*\<^sup>* (stat e) (stat e)" by simp
next
  fix x d d'
  assume "edge\<^sup>*\<^sup>* (stat e) (stat d)" "ap x d = Ok d'"
  then show "edge\<^sup>*\<^sup>* (stat e) (stat d')"
    by (metis ap_edge rtranclp.rtrancl_into_rtrancl)
qed

lemma edges_rank: "edge\<^sup>*\<^sup>* s t \<Longrightarrow> s = t \<or> rank s < rank t"
  by (induction rule: rtranclp_induct) (auto dest: edge_rank)

lemma no_return:
  assumes "stat (run_ops ap (xs @ ys) e) = stat e"
  shows "stat (run_ops ap xs e) = stat e"
proof -
  have "edge\<^sup>*\<^sup>* (stat e) (stat (run_ops ap xs e))"
    and "edge\<^sup>*\<^sup>* (stat (run_ops ap xs e)) (stat e)"
    using run_edges [of e xs] run_edges [of "run_ops ap xs e" ys] assms by (simp_all add: run_ops_append)
  then show ?thesis by (metis edges_rank less_asym)
qed

lemma final_status:
  assumes "\<And>t. \<not> edge (stat e) t"
  shows "stat (run_ops ap xs e) = stat e"
  using run_edges [of e xs] assms by (metis converse_rtranclpE)

end

end
