(* ===== verification/Registry.thy ===== *)
theory Registry
  imports Shop_Prelude
begin

text \<open>
  The contract of the provider registries: \<open>payment.ProviderRegistry\<close> and
  \<open>shipping.ProviderRegistry\<close> are two copies of a map from methods to providers with the
  list of methods in registration order. What \<open>Resolve\<close> may rely on (the list holds
  exactly the keys of the map, without repetition) is proved here once.
\<close>

text \<open>Registering providers one after the other; a registration that panics ends the setup.\<close>

fun register_all :: "('p \<Rightarrow> 'r \<Rightarrow> 'r outcome) \<Rightarrow> 'p list \<Rightarrow> 'r \<Rightarrow> 'r outcome" where
  "register_all reg [] r = Ok r"
| "register_all reg (p # ps) r = bindO (reg p r) (register_all reg ps)"

locale provider_registry =
  fixes reg :: "'p \<Rightarrow> 'r \<Rightarrow> 'r outcome"
    and look :: "'r \<Rightarrow> 'm \<Rightarrow> 'p option"
    and ord :: "'r \<Rightarrow> 'm list"
    and meth :: "'p \<Rightarrow> 'm"
    and valid :: "'m \<Rightarrow> bool"
    and none :: 'r
  assumes look_none: "look none m = None"
    and ord_none: "ord none = []"
    and reg_Ok: "reg p r = Ok r' \<Longrightarrow> valid (meth p) \<and> look r (meth p) = None \<and>
        ord r' = ord r @ [meth p] \<and> look r' m = (if m = meth p then Some p else look r m)"
begin

definition consistent :: "'r \<Rightarrow> bool" where
  "consistent r \<longleftrightarrow> distinct (ord r) \<and> (\<forall>m. m \<in> set (ord r) \<longleftrightarrow> look r m \<noteq> None) \<and>
     (\<forall>m p. look r m = Some p \<longrightarrow> meth p = m \<and> valid m)"

lemma consistent_none: "consistent none"
  by (simp add: consistent_def look_none ord_none)

lemma consistent_reg: "reg p r = Ok r' \<Longrightarrow> consistent r \<Longrightarrow> consistent r'"
proof -
  assume r: "reg p r = Ok r'" and c: "consistent r"
  have look: "look r' m = (if m = meth p then Some p else look r m)" for m
    using reg_Ok [OF r] by blast
  have "valid (meth p)" "look r (meth p) = None" "ord r' = ord r @ [meth p]"
    using reg_Ok [OF r] by blast+
  then show ?thesis using c by (auto simp: consistent_def look)
qed

lemma consistent_all: "register_all reg ps r = Ok r' \<Longrightarrow> consistent r \<Longrightarrow> consistent r'"
  by (induction ps arbitrary: r) (auto dest: consistent_reg)

lemma ord_all: "register_all reg ps r = Ok r' \<Longrightarrow> ord r' = ord r @ map meth ps"
  by (induction ps arbitrary: r) (auto dest: reg_Ok)

lemma look_reg_keep: "reg q r = Ok r' \<Longrightarrow> look r m = Some p \<Longrightarrow> look r' m = Some p"
proof -
  assume r: "reg q r = Ok r'" and l: "look r m = Some p"
  have "look r (meth q) = None" and "look r' m = (if m = meth q then Some q else look r m)"
    using reg_Ok [OF r] by blast+
  then show ?thesis using l by auto
qed

lemma look_all_keep: "register_all reg qs r = Ok r' \<Longrightarrow> look r m = Some p \<Longrightarrow> look r' m = Some p"
  by (induction qs arbitrary: r) (auto dest: look_reg_keep)

lemma look_all_mem: "register_all reg qs r = Ok r' \<Longrightarrow> p \<in> set qs \<Longrightarrow> look r' (meth p) = Some p"
proof (induction qs arbitrary: r)
  case (Cons q qs)
  from Cons.prems(1) obtain s where s: "reg q r = Ok s" "register_all reg qs s = Ok r'" by auto
  show ?case
  proof (cases "p = q")
    case True
    from reg_Ok [OF s(1)] have "look s (meth q) = Some q" by simp
    then show ?thesis using look_all_keep [OF s(2)] True by blast
  next
    case False
    then show ?thesis using Cons.IH [OF s(2)] Cons.prems(2) by simp
  qed
qed simp

lemma look_all:
  assumes r: "register_all reg ps none = Ok r"
  shows "look r m = find (\<lambda>p. meth p = m) ps"
proof (cases "find (\<lambda>p. meth p = m) ps")
  case None
  have "consistent r" using consistent_all [OF r consistent_none] .
  moreover have "m \<notin> set (ord r)"
    using ord_all [OF r] None by (auto simp: ord_none find_None_iff)
  ultimately show ?thesis using None by (simp add: consistent_def)
next
  case (Some p)
  then have "p \<in> set ps" "meth p = m" by (auto simp: find_Some_iff)
  then show ?thesis using look_all_mem [OF r] Some by auto
qed

end

end
