(* ===== verification/Cart.thy ===== *)
theory Cart
  imports Money Lifecycle
begin

text \<open>
  The cart aggregate (\<open>internal/domain/cart/cart.go\<close>, \<open>item.go\<close>): its status
  machine, its lines and the coupon. An operation that returns an error has not assigned any
  field yet, so a \<open>Fail\<close> stands for the unchanged cart. Each operation takes the clock
  readings its body makes, in order.
\<close>

section \<open>Lines\<close>

record cart_item =
  ci_VariantID :: string
  ci_Quantity :: int64
  ci_UnitPrice :: money
  ci_CreatedAt :: gotime
  ci_UpdatedAt :: gotime
  ci_AssignmentParentProductID :: string
  ci_AssignmentParentUnitID :: string
  ci_AssignmentDeferred :: bool

definition NewCartItem :: "gotime \<Rightarrow> string \<Rightarrow> int64 \<Rightarrow> money \<Rightarrow> cart_item outcome" where
  "NewCartItem now variantID quantity unitPrice =
     (if variantID = [] then Fail (Err ''cart item: variant id must not be empty'')
      else if quantity \<le>s 0 then Fail (Err ''cart item: quantity must be positive'')
      else if IsNegative unitPrice then Fail (Err ''cart item: unit price must be non-negative'')
      else Ok \<lparr>ci_VariantID = variantID, ci_Quantity = quantity, ci_UnitPrice = unitPrice,
               ci_CreatedAt = now, ci_UpdatedAt = now, ci_AssignmentParentProductID = [],
               ci_AssignmentParentUnitID = [], ci_AssignmentDeferred = False\<rparr>)"

definition CartItem_LineTotal :: "cart_item \<Rightarrow> money outcome" where
  "CartItem_LineTotal i = MulChecked (ci_UnitPrice i) (ci_Quantity i)"

definition AssignmentParent :: "cart_item \<Rightarrow> string" where
  "AssignmentParent i = trim_space (ci_AssignmentParentProductID i)"

definition AssignmentUnit :: "cart_item \<Rightarrow> string" where
  "AssignmentUnit i = trim_space (ci_AssignmentParentUnitID i)"

definition HasStoredAssignment :: "cart_item \<Rightarrow> bool" where
  "HasStoredAssignment i \<longleftrightarrow>
     ci_AssignmentDeferred i \<or> AssignmentParent i \<noteq> [] \<or> AssignmentUnit i \<noteq> []"

section \<open>The cart\<close>

datatype cart_status =
    CartStatusActive | CartStatusCheckedOut | CartStatusAbandoned | CartStatusOther string

fun CartStatus_IsValid :: "cart_status \<Rightarrow> bool" where
  "CartStatus_IsValid (CartStatusOther _) = False"
| "CartStatus_IsValid _ = True"

record cart =
  c_ID :: string
  c_CustomerID :: string
  c_status :: cart_status
  c_Currency :: string
  c_CouponCode :: string
  c_MergedGuestID :: string
  c_Version :: int64
  c_Items :: "cart_item list"
  c_CreatedAt :: gotime
  c_UpdatedAt :: gotime
  c_RecoveryEmailSentAt :: "gotime option"

definition NewCart :: "gotime \<Rightarrow> string \<Rightarrow> string \<Rightarrow> cart outcome" where
  "NewCart now cartID currency =
     (if cartID = [] then Fail (Err ''cart: id must not be empty'')
      else if \<not> IsValidCurrency currency then Fail (Err ''cart: invalid currency code'')
      else Ok \<lparr>c_ID = cartID, c_CustomerID = [], c_status = CartStatusActive, c_Currency = currency,
               c_CouponCode = [], c_MergedGuestID = [], c_Version = 1, c_Items = [],
               c_CreatedAt = now, c_UpdatedAt = now, c_RecoveryEmailSentAt = None\<rparr>)"

definition SetCustomerID :: "gotime \<Rightarrow> cart \<Rightarrow> string \<Rightarrow> cart outcome" where
  "SetCustomerID now c customerID =
     (if customerID = [] then Fail (Err ''cart: customer id must not be empty'')
      else Ok (c\<lparr>c_CustomerID := customerID, c_UpdatedAt := now\<rparr>))"

definition IsActive :: "cart \<Rightarrow> bool" where "IsActive c \<longleftrightarrow> c_status c = CartStatusActive"

definition Cart_Checkout :: "gotime \<Rightarrow> cart \<Rightarrow> cart outcome" where
  "Cart_Checkout now c =
     (if c_status c \<noteq> CartStatusActive then Fail (Err ''cart: only active carts can be checked out'')
      else Ok (c\<lparr>c_status := CartStatusCheckedOut, c_UpdatedAt := now\<rparr>))"

definition Cart_Abandon :: "gotime \<Rightarrow> cart \<Rightarrow> cart outcome" where
  "Cart_Abandon now c =
     (if c_status c \<noteq> CartStatusActive then Fail (Err ''cart: only active carts can be abandoned'')
      else Ok (c\<lparr>c_status := CartStatusAbandoned, c_UpdatedAt := now\<rparr>))"

definition Cart_SetStatusFromDB :: "cart \<Rightarrow> cart_status \<Rightarrow> cart outcome" where
  "Cart_SetStatusFromDB c s =
     (if \<not> CartStatus_IsValid s then Fail (Err ''cart: invalid status from database'')
      else Ok (c\<lparr>c_status := s\<rparr>))"

text \<open>
  The index loops \<open>for i := range c.Items\<close> act on the first line with the variant and
  leave the loop there; \<open>None\<close> is the loop that ends without finding one.
\<close>

fun update_first :: "string \<Rightarrow> (cart_item \<Rightarrow> cart_item) \<Rightarrow> cart_item list \<Rightarrow> cart_item list option" where
  "update_first v f [] = None"
| "update_first v f (i # is) =
     (if ci_VariantID i = v then Some (f i # is) else map_option ((#) i) (update_first v f is))"

fun remove_first :: "string \<Rightarrow> cart_item list \<Rightarrow> cart_item list option" where
  "remove_first v [] = None"
| "remove_first v (i # is) =
     (if ci_VariantID i = v then Some is else map_option ((#) i) (remove_first v is))"

text \<open>\<open>AddItem\<close> reads the clock twice: for the line, then for the cart.\<close>

definition AddItem :: "gotime \<Rightarrow> gotime \<Rightarrow> cart \<Rightarrow> string \<Rightarrow> int64 \<Rightarrow> money \<Rightarrow> cart outcome" where
  "AddItem t1 t2 c variantID quantity unitPrice =
     (if \<not> IsActive c then Fail (Err ''cart: cannot modify non-active cart'')
      else if variantID = [] then Fail (Err ''cart: variant id must not be empty'')
      else if quantity \<le>s 0 then Fail (Err ''cart: quantity must be positive'')
      else if m_currency unitPrice \<noteq> c_Currency c
        then Fail (Err ''cart: item currency must match cart currency'')
      else case update_first variantID
             (\<lambda>i. i\<lparr>ci_Quantity := ci_Quantity i + quantity, ci_UnitPrice := unitPrice,
                    ci_UpdatedAt := t1\<rparr>) (c_Items c) of
             Some items \<Rightarrow> Ok (c\<lparr>c_Items := items, c_UpdatedAt := t2\<rparr>)
           | None \<Rightarrow> bindO (NewCartItem t1 variantID quantity unitPrice) (\<lambda>item.
               Ok (c\<lparr>c_Items := c_Items c @ [item], c_UpdatedAt := t2\<rparr>)))"

definition UpdateItemQuantity :: "gotime \<Rightarrow> gotime \<Rightarrow> cart \<Rightarrow> string \<Rightarrow> int64 \<Rightarrow> cart outcome" where
  "UpdateItemQuantity t1 t2 c variantID quantity =
     (if \<not> IsActive c then Fail (Err ''cart: cannot modify non-active cart'')
      else if quantity \<le>s 0 then Fail (Err ''cart: quantity must be positive'')
      else case update_first variantID
             (\<lambda>i. i\<lparr>ci_Quantity := quantity, ci_UpdatedAt := t1\<rparr>) (c_Items c) of
             Some items \<Rightarrow> Ok (c\<lparr>c_Items := items, c_UpdatedAt := t2\<rparr>)
           | None \<Rightarrow> Fail (Err ''cart: item not found''))"

definition SetItemAssignment :: "cart \<Rightarrow> string \<Rightarrow> string \<Rightarrow> string \<Rightarrow> bool \<Rightarrow> cart" where
  "SetItemAssignment c variantID parentProductID parentUnitID deferred =
     (case update_first variantID
        (\<lambda>i. i\<lparr>ci_AssignmentParentProductID := trim_space parentProductID,
               ci_AssignmentParentUnitID := trim_space parentUnitID,
               ci_AssignmentDeferred := deferred\<rparr>) (c_Items c) of
        Some items \<Rightarrow> c\<lparr>c_Items := items\<rparr>
      | None \<Rightarrow> c)"

definition RemoveItem :: "gotime \<Rightarrow> cart \<Rightarrow> string \<Rightarrow> cart outcome" where
  "RemoveItem now c variantID =
     (if \<not> IsActive c then Fail (Err ''cart: cannot modify non-active cart'')
      else case remove_first variantID (c_Items c) of
             Some items \<Rightarrow> Ok (c\<lparr>c_Items := items, c_UpdatedAt := now\<rparr>)
           | None \<Rightarrow> Fail (Err ''cart: item not found''))"

definition ItemCount :: "cart \<Rightarrow> nat" where "ItemCount c = length (c_Items c)"

fun total_quantity_from :: "int64 \<Rightarrow> cart_item list \<Rightarrow> int64" where
  "total_quantity_from acc [] = acc"
| "total_quantity_from acc (i # is) = total_quantity_from (acc + ci_Quantity i) is"

definition TotalQuantity :: "cart \<Rightarrow> int64" where
  "TotalQuantity c = total_quantity_from 0 (c_Items c)"

definition ApplyCoupon :: "gotime \<Rightarrow> cart \<Rightarrow> string \<Rightarrow> cart outcome" where
  "ApplyCoupon now c code =
     (if \<not> IsActive c then Fail (Err ''cart: cannot modify non-active cart'')
      else if code = [] then Fail (Err ''cart: coupon code must not be empty'')
      else if code = c_CouponCode c then Ok c
      else Ok (c\<lparr>c_CouponCode := code, c_UpdatedAt := now\<rparr>))"

definition RemoveCoupon :: "gotime \<Rightarrow> cart \<Rightarrow> cart outcome" where
  "RemoveCoupon now c =
     (if \<not> IsActive c then Fail (Err ''cart: cannot modify non-active cart'')
      else if c_CouponCode c = [] then Ok c
      else Ok (c\<lparr>c_CouponCode := [], c_UpdatedAt := now\<rparr>))"

section \<open>Invariant\<close>

text \<open>
  What the operations keep: every line has a variant id and at most one line carries a given
  variant; every line is priced in the cart's currency. Quantities are positive as long as
  no addition overflows, which \<open>quantities_ok\<close> states separately.
\<close>

definition cart_wf :: "cart \<Rightarrow> bool" where
  "cart_wf c \<longleftrightarrow> c_ID c \<noteq> [] \<and> IsValidCurrency (c_Currency c) \<and>
     distinct (map ci_VariantID (c_Items c)) \<and>
     (\<forall>i \<in> set (c_Items c). ci_VariantID i \<noteq> [] \<and> m_currency (ci_UnitPrice i) = c_Currency c)"

definition quantities_ok :: "cart \<Rightarrow> bool" where
  "quantities_ok c \<longleftrightarrow> (\<forall>i \<in> set (c_Items c). 0 < sint (ci_Quantity i))"

text \<open>The quantity of a variant, 0 when the cart has no line for it.\<close>

definition qty_of :: "cart \<Rightarrow> string \<Rightarrow> int64" where
  "qty_of c v = (case find (\<lambda>i. ci_VariantID i = v) (c_Items c) of
     None \<Rightarrow> 0 | Some i \<Rightarrow> ci_Quantity i)"

lemma update_first_None_iff: "update_first v f is = None \<longleftrightarrow> v \<notin> ci_VariantID ` set is"
  by (induction "is") auto

lemma remove_first_None_iff: "remove_first v is = None \<longleftrightarrow> v \<notin> ci_VariantID ` set is"
  by (induction "is") auto

lemma update_first_Some_split:
  "update_first v f is = Some js \<Longrightarrow>
     \<exists>xs i ys. is = xs @ i # ys \<and> js = xs @ f i # ys \<and> ci_VariantID i = v \<and>
       v \<notin> ci_VariantID ` set xs"
proof (induction "is" arbitrary: js)
  case Nil
  then show ?case by simp
next
  case (Cons j rest)
  show ?case
  proof (cases "ci_VariantID j = v")
    case True
    with Cons.prems show ?thesis by (intro exI [of _ "[]"]) auto
  next
    case False
    with Cons.prems obtain ks where ks: "update_first v f rest = Some ks" "js = j # ks" by auto
    from Cons.IH [OF ks(1)] obtain xs i ys where
      "rest = xs @ i # ys" "ks = xs @ f i # ys" "ci_VariantID i = v" "v \<notin> ci_VariantID ` set xs"
      by blast
    with False ks(2) show ?thesis by (intro exI [of _ "j # xs"]) auto
  qed
qed

lemma remove_first_Some_split:
  "remove_first v is = Some js \<Longrightarrow>
     \<exists>xs i ys. is = xs @ i # ys \<and> js = xs @ ys \<and> ci_VariantID i = v \<and> v \<notin> ci_VariantID ` set xs"
proof (induction "is" arbitrary: js)
  case Nil
  then show ?case by simp
next
  case (Cons j rest)
  show ?case
  proof (cases "ci_VariantID j = v")
    case True
    with Cons.prems show ?thesis by (intro exI [of _ "[]"]) auto
  next
    case False
    with Cons.prems obtain ks where ks: "remove_first v rest = Some ks" "js = j # ks" by auto
    from Cons.IH [OF ks(1)] obtain xs i ys where
      "rest = xs @ i # ys" "ks = xs @ ys" "ci_VariantID i = v" "v \<notin> ci_VariantID ` set xs"
      by blast
    with False ks(2) show ?thesis by (intro exI [of _ "j # xs"]) auto
  qed
qed

lemma update_first_map:
  assumes "update_first v f is = Some js" "\<And>i. ci_VariantID (f i) = ci_VariantID i"
  shows "map ci_VariantID js = map ci_VariantID is"
  using update_first_Some_split [OF assms(1)] assms(2) by auto

lemma update_first_set:
  "update_first v f is = Some js \<Longrightarrow> j \<in> set js \<Longrightarrow> j \<in> set is \<or> (\<exists>i \<in> set is. ci_VariantID i = v \<and> j = f i)"
  using update_first_Some_split [of v f "is" js] by fastforce

lemma find_update_first:
  assumes "update_first v f is = Some js" "\<And>i. ci_VariantID (f i) = ci_VariantID i"
  shows "find (\<lambda>i. ci_VariantID i = w) js =
    (if w = v then map_option f (find (\<lambda>i. ci_VariantID i = v) is)
     else find (\<lambda>i. ci_VariantID i = w) is)"
  using assms(1)
proof (induction "is" arbitrary: js)
  case Nil
  then show ?case by simp
next
  case (Cons i rest)
  show ?case
  proof (cases "ci_VariantID i = v")
    case True
    with Cons.prems show ?thesis by (auto simp: assms(2))
  next
    case False
    with Cons.prems obtain ks where "update_first v f rest = Some ks" "js = i # ks" by auto
    with Cons.IH False show ?thesis by auto
  qed
qed

lemma find_snoc:
  "find P (xs @ [x]) = (case find P xs of Some y \<Rightarrow> Some y | None \<Rightarrow> if P x then Some x else None)"
  by (induction xs) auto

lemma find_variant_None: "v \<notin> ci_VariantID ` set is \<Longrightarrow> find (\<lambda>i. ci_VariantID i = v) is = None"
  by (auto simp: find_None_iff)

lemma find_remove_first:
  assumes "remove_first v is = Some js" "distinct (map ci_VariantID is)"
  shows "find (\<lambda>i. ci_VariantID i = w) js =
    (if w = v then None else find (\<lambda>i. ci_VariantID i = w) is)"
  using assms
proof (induction "is" arbitrary: js)
  case Nil
  then show ?case by simp
next
  case (Cons i rest)
  show ?case
  proof (cases "ci_VariantID i = v")
    case True
    with Cons.prems show ?thesis by (auto intro!: find_variant_None)
  next
    case False
    with Cons.prems obtain ks where "remove_first v rest = Some ks" "js = i # ks" by auto
    with Cons.IH Cons.prems(2) False show ?thesis by auto
  qed
qed

section \<open>Every operation keeps the invariant\<close>

text \<open>The operations as data, so that histories of a cart can be quantified over.\<close>

datatype cart_op =
    OpSetCustomer gotime string
  | OpCheckout gotime
  | OpAbandon gotime
  | OpAdd gotime gotime string int64 money
  | OpUpdate gotime gotime string int64
  | OpAssign string string string bool
  | OpRemove gotime string
  | OpApplyCoupon gotime string
  | OpRemoveCoupon gotime

fun cart_apply :: "cart_op \<Rightarrow> cart \<Rightarrow> cart outcome" where
  "cart_apply (OpSetCustomer t s) c = SetCustomerID t c s"
| "cart_apply (OpCheckout t) c = Cart_Checkout t c"
| "cart_apply (OpAbandon t) c = Cart_Abandon t c"
| "cart_apply (OpAdd t1 t2 v q p) c = AddItem t1 t2 c v q p"
| "cart_apply (OpUpdate t1 t2 v q) c = UpdateItemQuantity t1 t2 c v q"
| "cart_apply (OpAssign v pp pu d) c = Ok (SetItemAssignment c v pp pu d)"
| "cart_apply (OpRemove t v) c = RemoveItem t c v"
| "cart_apply (OpApplyCoupon t s) c = ApplyCoupon t c s"
| "cart_apply (OpRemoveCoupon t) c = RemoveCoupon t c"

text \<open>A failed operation leaves the cart as it was.\<close>

abbreviation cart_run :: "cart_op list \<Rightarrow> cart \<Rightarrow> cart" where
  "cart_run \<equiv> run_ops cart_apply"

lemmas cart_defs = SetCustomerID_def Cart_Checkout_def Cart_Abandon_def AddItem_def
  UpdateItemQuantity_def SetItemAssignment_def RemoveItem_def ApplyCoupon_def RemoveCoupon_def
  IsActive_def

lemma NewCart_wf: "NewCart t i cur = Ok c \<Longrightarrow> cart_wf c \<and> quantities_ok c"
  by (auto simp: NewCart_def cart_wf_def quantities_ok_def split: if_splits)

lemma update_first_wf:
  assumes "update_first v f (c_Items c) = Some js" "cart_wf c" "\<And>i. ci_VariantID (f i) = ci_VariantID i"
    and "\<And>i. m_currency (ci_UnitPrice i) = c_Currency c \<Longrightarrow> m_currency (ci_UnitPrice (f i)) = c_Currency c"
  shows "cart_wf (c\<lparr>c_Items := js\<rparr>)" "cart_wf (c\<lparr>c_Items := js, c_UpdatedAt := t\<rparr>)"
proof -
  have "ci_VariantID j \<noteq> [] \<and> m_currency (ci_UnitPrice j) = c_Currency c" if "j \<in> set js" for j
    using update_first_set [OF assms(1) that] assms(2-4) by (auto simp: cart_wf_def)
  moreover have "distinct (map ci_VariantID js)"
    using update_first_map [OF assms(1,3)] assms(2) by (simp add: cart_wf_def)
  ultimately show "cart_wf (c\<lparr>c_Items := js\<rparr>)" "cart_wf (c\<lparr>c_Items := js, c_UpdatedAt := t\<rparr>)"
    using assms(2) by (simp_all add: cart_wf_def)
qed

lemma AddItem_wf: "AddItem t1 t2 c v q p = Ok c' \<Longrightarrow> cart_wf c \<Longrightarrow> cart_wf c'"
proof -
  assume r: "AddItem t1 t2 c v q p = Ok c'" and wf: "cart_wf c"
  let ?f = "\<lambda>i. i\<lparr>ci_Quantity := ci_Quantity i + q, ci_UnitPrice := p, ci_UpdatedAt := t1\<rparr>"
  have cur: "m_currency p = c_Currency c" and v: "v \<noteq> []"
    using r by (auto simp: AddItem_def split: if_splits)
  show "cart_wf c'"
  proof (cases "update_first v ?f (c_Items c)")
    case None
    with r cur v obtain i where "NewCartItem t1 v q p = Ok i"
      and c': "c' = c\<lparr>c_Items := c_Items c @ [i], c_UpdatedAt := t2\<rparr>"
      by (auto simp: AddItem_def split: if_splits)
    then have "ci_VariantID i = v" "ci_UnitPrice i = p"
      by (auto simp: NewCartItem_def split: if_splits)
    then show ?thesis
      using wf None cur v c' by (auto simp: cart_wf_def update_first_None_iff)
  next
    case (Some js)
    then have "c' = c\<lparr>c_Items := js, c_UpdatedAt := t2\<rparr>"
      using r by (auto simp: AddItem_def split: if_splits)
    then show ?thesis using update_first_wf(2) [OF Some wf] cur by simp
  qed
qed

lemma UpdateItemQuantity_wf: "UpdateItemQuantity t1 t2 c v q = Ok c' \<Longrightarrow> cart_wf c \<Longrightarrow> cart_wf c'"
  by (auto simp: UpdateItemQuantity_def split: if_splits option.splits intro: update_first_wf)

lemma SetItemAssignment_wf: "cart_wf c \<Longrightarrow> cart_wf (SetItemAssignment c v pp pu d)"
  by (auto simp: SetItemAssignment_def split: option.splits intro: update_first_wf)

lemma RemoveItem_wf: "RemoveItem t c v = Ok c' \<Longrightarrow> cart_wf c \<Longrightarrow> cart_wf c'"
  by (auto simp: RemoveItem_def cart_wf_def split: if_splits option.splits
      dest!: remove_first_Some_split)

lemma cart_apply_wf: "cart_apply x c = Ok c' \<Longrightarrow> cart_wf c \<Longrightarrow> cart_wf c'"
proof (cases x)
  case (OpAdd t1 t2 v q p)
  then show "cart_apply x c = Ok c' \<Longrightarrow> cart_wf c \<Longrightarrow> cart_wf c'" by (auto intro: AddItem_wf)
next
  case (OpUpdate t1 t2 v q)
  then show "cart_apply x c = Ok c' \<Longrightarrow> cart_wf c \<Longrightarrow> cart_wf c'"
    by (auto intro: UpdateItemQuantity_wf)
next
  case (OpRemove t v)
  then show "cart_apply x c = Ok c' \<Longrightarrow> cart_wf c \<Longrightarrow> cart_wf c'" by (auto intro: RemoveItem_wf)
next
  case (OpAssign v pp pu d)
  then show "cart_apply x c = Ok c' \<Longrightarrow> cart_wf c \<Longrightarrow> cart_wf c'"
    by (auto intro: SetItemAssignment_wf)
qed (auto simp: cart_defs cart_wf_def split: if_splits)

lemma cart_apply_identity:
  "cart_apply x c = Ok c' \<Longrightarrow> c_ID c' = c_ID c \<and> c_Currency c' = c_Currency c"
  by (cases x) (auto simp: cart_defs split: if_splits option.splits)

fun cart_edge :: "cart_status \<Rightarrow> cart_status \<Rightarrow> bool" where
  "cart_edge CartStatusActive CartStatusCheckedOut = True"
| "cart_edge CartStatusActive CartStatusAbandoned = True"
| "cart_edge _ _ = False"

interpretation cart_life: lifecycle c_status cart_apply cart_edge
    "\<lambda>s. if s = CartStatusActive then 0 else 1"
proof
  fix x c c'
  show "cart_apply x c = Ok c' \<Longrightarrow> c_status c' = c_status c \<or> cart_edge (c_status c) (c_status c')"
    by (cases x) (auto simp: cart_defs split: if_splits option.splits)
qed (auto elim: cart_edge.elims)

lemma cart_run_wf: "cart_wf c \<Longrightarrow> cart_wf (cart_run xs c)"
  by (rule run_ops_induct) (auto intro: cart_apply_wf)

lemma cart_apply_inactive_items:
  "cart_apply x c = Ok c' \<Longrightarrow> \<not> IsActive c \<Longrightarrow>
     map (\<lambda>i. (ci_VariantID i, ci_Quantity i, ci_UnitPrice i)) (c_Items c') =
       map (\<lambda>i. (ci_VariantID i, ci_Quantity i, ci_UnitPrice i)) (c_Items c) \<and>
     c_CouponCode c' = c_CouponCode c \<and> c_status c' = c_status c"
  by (cases x) (auto simp: cart_defs split: if_splits option.splits dest!: update_first_Some_split)

lemma cart_run_inactive:
  "\<not> IsActive c \<Longrightarrow>
     map (\<lambda>i. (ci_VariantID i, ci_Quantity i, ci_UnitPrice i)) (c_Items (cart_run xs c)) =
       map (\<lambda>i. (ci_VariantID i, ci_Quantity i, ci_UnitPrice i)) (c_Items c) \<and>
     c_CouponCode (cart_run xs c) = c_CouponCode c \<and> c_status (cart_run xs c) = c_status c"
proof (rule run_ops_induct)
  fix x d d'
  assume c: "\<not> IsActive c" and ap: "cart_apply x d = Ok d'"
    and d: "map (\<lambda>i. (ci_VariantID i, ci_Quantity i, ci_UnitPrice i)) (c_Items d) =
       map (\<lambda>i. (ci_VariantID i, ci_Quantity i, ci_UnitPrice i)) (c_Items c) \<and>
     c_CouponCode d = c_CouponCode c \<and> c_status d = c_status c"
  then have "\<not> IsActive d" by (simp add: IsActive_def)
  from cart_apply_inactive_items [OF ap this] d
  show "map (\<lambda>i. (ci_VariantID i, ci_Quantity i, ci_UnitPrice i)) (c_Items d') =
       map (\<lambda>i. (ci_VariantID i, ci_Quantity i, ci_UnitPrice i)) (c_Items c) \<and>
     c_CouponCode d' = c_CouponCode c \<and> c_status d' = c_status c" by simp
qed simp

lemma qty_of_update:
  assumes "update_first v f (c_Items c) = Some js" "\<And>i. ci_VariantID (f i) = ci_VariantID i"
    and "\<And>i. ci_Quantity (f i) = g (ci_Quantity i)"
  shows "qty_of (c\<lparr>c_Items := js, c_UpdatedAt := t\<rparr>) w = (if w = v then g (qty_of c v) else qty_of c w)"
proof -
  have "v \<in> ci_VariantID ` set (c_Items c)"
    using assms(1) update_first_None_iff [of v f "c_Items c"] by auto
  then have "find (\<lambda>i. ci_VariantID i = v) (c_Items c) \<noteq> None" by (auto simp: find_None_iff)
  then show ?thesis
    using find_update_first [OF assms(1,2), of w] by (auto simp: qty_of_def assms(3))
qed

lemma AddItem_qty_of:
  assumes "AddItem t1 t2 c v q p = Ok c'"
  shows "qty_of c' w = (if w = v then qty_of c v + q else qty_of c w)"
proof -
  let ?f = "\<lambda>i. i\<lparr>ci_Quantity := ci_Quantity i + q, ci_UnitPrice := p, ci_UpdatedAt := t1\<rparr>"
  show ?thesis
  proof (cases "update_first v ?f (c_Items c)")
    case None
    with assms obtain i where i: "NewCartItem t1 v q p = Ok i"
      and c': "c' = c\<lparr>c_Items := c_Items c @ [i], c_UpdatedAt := t2\<rparr>"
      by (auto simp: AddItem_def split: if_splits)
    then have "ci_VariantID i = v" "ci_Quantity i = q"
      by (auto simp: NewCartItem_def split: if_splits)
    moreover have "find (\<lambda>i. ci_VariantID i = v) (c_Items c) = None"
      using None by (intro find_variant_None) (simp add: update_first_None_iff)
    ultimately show ?thesis
      using c' by (auto simp: qty_of_def find_snoc split: option.splits)
  next
    case (Some js)
    then have "c' = c\<lparr>c_Items := js, c_UpdatedAt := t2\<rparr>"
      using assms by (auto simp: AddItem_def split: if_splits)
    then show ?thesis using qty_of_update [OF Some, of "\<lambda>k. k + q" t2 w] by simp
  qed
qed

lemma RemoveItem_qty_of:
  assumes "RemoveItem t c v = Ok c'" "cart_wf c"
  shows "qty_of c' w = (if w = v then 0 else qty_of c w)"
proof -
  from assms(1) obtain js where js: "remove_first v (c_Items c) = Some js"
    and c': "c' = c\<lparr>c_Items := js, c_UpdatedAt := t\<rparr>"
    by (auto simp: RemoveItem_def split: if_splits option.splits)
  show ?thesis
    using find_remove_first [OF js, of w] assms(2) c' by (auto simp: qty_of_def cart_wf_def)
qed

section \<open>Properties\<close>

text \<open>An empty cart for the witnesses.\<close>

definition demo_cart :: cart where
  "demo_cart = \<lparr>c_ID = ''c'', c_CustomerID = [], c_status = CartStatusActive, c_Currency = ''EUR'',
     c_CouponCode = [], c_MergedGuestID = [], c_Version = 1, c_Items = [],
     c_CreatedAt = 1, c_UpdatedAt = 1, c_RecoveryEmailSentAt = None\<rparr>"

text \<open>C36: whatever sequence of operations a new cart goes through, failed ones included, its
  lines have distinct, non-empty variant ids and prices in the cart's currency, and its id and
  currency are the ones it was created with.\<close>

theorem cart_history_wf:
  assumes "NewCart t cid cur = Ok c"
  shows "cart_wf (cart_run xs c) \<and> c_ID (cart_run xs c) = cid \<and> c_Currency (cart_run xs c) = cur"
proof -
  have start: "cart_wf c" "c_ID c = cid" "c_Currency c = cur"
    using assms NewCart_wf [OF assms] by (auto simp: NewCart_def split: if_splits)
  have "c_ID (cart_run xs d) = c_ID d \<and> c_Currency (cart_run xs d) = c_Currency d" for d
    by (rule run_ops_induct) (auto dest: cart_apply_identity)
  then show ?thesis using start cart_run_wf by simp
qed

theorem cart_history_wf_witness:
  "cart_wf (cart_run [OpAdd 2 2 ''v1'' 2 \<lparr>m_amount = 500, m_currency = ''EUR''\<rparr>, OpCheckout 3,
                      OpRemove 4 ''v1''] demo_cart) \<and> NewCart 1 ''c'' ''EUR'' = Ok demo_cart"
proof -
  have new: "NewCart 1 ''c'' ''EUR'' = Ok demo_cart"
    by (simp add: NewCart_def IsValidCurrency_def is_upper_letter_def byte_val_def demo_cart_def)
  show ?thesis using cart_history_wf [OF new] new by blast
qed

text \<open>A successful \<open>AddItem\<close> adds the quantity to that variant (creating the line or
  merging into it) and changes no other variant; a successful \<open>RemoveItem\<close> on a
  well-formed cart takes exactly that variant out.\<close>

lemma cart_quantities:
  "(AddItem t1 t2 c v q p = Ok c' \<longrightarrow>
      qty_of c' w = (if w = v then qty_of c v + q else qty_of c w)) \<and>
   (RemoveItem t1 c v = Ok c' \<and> cart_wf c \<longrightarrow>
      qty_of c' w = (if w = v then 0 else qty_of c w))"
  using AddItem_qty_of RemoveItem_qty_of by blast

lemma cart_quantities_witness:
  "(case AddItem 2 2 demo_cart ''v1'' 2 \<lparr>m_amount = 500, m_currency = ''EUR''\<rparr> of
      Ok c' \<Rightarrow> qty_of c' ''v1'' = 2 \<and> (case RemoveItem 3 c' ''v1'' of
        Ok d \<Rightarrow> qty_of d ''v1'' = 0 | _ \<Rightarrow> False)
    | _ \<Rightarrow> False)"
proof -
  let ?p = "\<lparr>m_amount = 500, m_currency = ''EUR''\<rparr>"
  obtain c' where c': "AddItem 2 2 demo_cart ''v1'' 2 ?p = Ok c'" and wf: "cart_wf c'"
    and has: "\<exists>d. RemoveItem 3 c' ''v1'' = Ok d"
    by (simp add: AddItem_def RemoveItem_def IsActive_def demo_cart_def NewCartItem_def IsNegative_def
        i64 cart_wf_def IsValidCurrency_def is_upper_letter_def byte_val_def)
  then obtain d where d: "RemoveItem 3 c' ''v1'' = Ok d" by blast
  have "qty_of demo_cart ''v1'' = 0" by (simp add: qty_of_def demo_cart_def)
  then show ?thesis
    using cart_quantities [of 2 2 demo_cart "''v1''" 2 ?p c' "''v1''"] c'
      cart_quantities [of 3 3 c' "''v1''" 2 ?p d "''v1''"] d wf by simp
qed

text \<open>A cart that is not active is frozen: no later operation changes its lines'
  variants, quantities and prices, its coupon or its status, so checked-out and abandoned are
  terminal.\<close>

lemma inactive_cart_frozen:
  assumes "\<not> IsActive c"
  shows "map (\<lambda>i. (ci_VariantID i, ci_Quantity i, ci_UnitPrice i)) (c_Items (cart_run xs c)) =
           map (\<lambda>i. (ci_VariantID i, ci_Quantity i, ci_UnitPrice i)) (c_Items c) \<and>
         c_CouponCode (cart_run xs c) = c_CouponCode c \<and>
         c_status (cart_run xs c) = c_status c"
  using cart_run_inactive [OF assms] .

lemma inactive_cart_frozen_witness:
  "c_status (cart_run [OpAbandon 5, OpAdd 6 6 ''v1'' 2 \<lparr>m_amount = 500, m_currency = ''EUR''\<rparr>]
     (demo_cart\<lparr>c_status := CartStatusCheckedOut\<rparr>)) = CartStatusCheckedOut"
  using inactive_cart_frozen [of "demo_cart\<lparr>c_status := CartStatusCheckedOut\<rparr>"]
  by (simp add: IsActive_def del: run_ops.simps)

text \<open>The price guard of \<open>NewItem\<close> covers only a line's creation: adding a variant
  with a negative price is refused when the cart has no line for it, and accepted (the line
  then carries the negative price) when it has one.\<close>

lemma AddItem_merge_skips_price_guard:
  "let neg = \<lparr>m_amount = - 500, m_currency = ''EUR''\<rparr>;
       pos = \<lparr>m_amount = 500, m_currency = ''EUR''\<rparr> in
   AddItem 2 2 demo_cart ''v1'' 1 neg = Fail (Err ''cart item: unit price must be non-negative'') \<and>
   (case AddItem 2 2 demo_cart ''v1'' 1 pos of
      Ok c \<Rightarrow> (case AddItem 3 3 c ''v1'' 1 neg of
                Ok d \<Rightarrow> map ci_UnitPrice (c_Items d) = [neg] | _ \<Rightarrow> False)
    | _ \<Rightarrow> False)"
  by (simp add: AddItem_def IsActive_def demo_cart_def NewCartItem_def IsNegative_def i64 Let_def)

end
