(* ===== verification/Orders.thy ===== *)
theory Orders
  imports Money Lifecycle
begin

text \<open>
  The order aggregate (\<open>internal/domain/order/order.go\<close>, \<open>item.go\<close>) and the
  service that changes its status (\<open>internal/application/order/status_service.go\<close>,
  \<open>publish_paid.go\<close>). \<open>net/mail\<close>'s address parser is the parameter
  \<open>parse_ok\<close>, the Unicode case table the parameter \<open>uni\<close>, the order
  repository and the event bus are arguments of the service.
\<close>

section \<open>Lines\<close>

record order_item =
  oi_VariantID :: string
  oi_SKU :: string
  oi_Name :: string
  oi_Quantity :: int64
  oi_UnitPrice :: money
  oi_Restockable :: bool
  oi_CreatedAt :: gotime

definition NewOrderItem ::
    "gotime \<Rightarrow> string \<Rightarrow> string \<Rightarrow> string \<Rightarrow> int64 \<Rightarrow> money \<Rightarrow> order_item outcome" where
  "NewOrderItem now variantID sku name quantity unitPrice =
     (if variantID = [] then Fail (Err ''order item: variant id must not be empty'')
      else if sku = [] then Fail (Err ''order item: sku must not be empty'')
      else if name = [] then Fail (Err ''order item: name must not be empty'')
      else if quantity \<le>s 0 then Fail (Err ''order item: quantity must be positive'')
      else if IsNegative unitPrice then Fail (Err ''order item: unit price must be non-negative'')
      else Ok \<lparr>oi_VariantID = variantID, oi_SKU = sku, oi_Name = name, oi_Quantity = quantity,
               oi_UnitPrice = unitPrice, oi_Restockable = True, oi_CreatedAt = now\<rparr>)"

definition OrderItem_LineTotal :: "order_item \<Rightarrow> money outcome" where
  "OrderItem_LineTotal i = MulChecked (oi_UnitPrice i) (oi_Quantity i)"

fun order_total_from :: "money \<Rightarrow> order_item list \<Rightarrow> money outcome" where
  "order_total_from acc [] = Ok acc"
| "order_total_from acc (i # is) =
     bindO (OrderItem_LineTotal i) (\<lambda>lt.
     bindO (AddChecked acc lt) (\<lambda>acc'. order_total_from acc' is))"

definition Order_computeTotal :: "order_item list \<Rightarrow> string \<Rightarrow> money outcome" where
  "Order_computeTotal items currency = bindO (Zero currency) (\<lambda>z. order_total_from z items)"

section \<open>The order\<close>

datatype order_status =
    OrderStatusPending | OrderStatusConfirmed | OrderStatusPaid
  | OrderStatusCancelled | OrderStatusFailed | OrderStatusOther string

fun OrderStatus_IsValid :: "order_status \<Rightarrow> bool" where
  "OrderStatus_IsValid (OrderStatusOther _) = False"
| "OrderStatus_IsValid _ = True"

definition order_status_of_string :: "string \<Rightarrow> order_status" where
  "order_status_of_string s =
     (if s = ''pending'' then OrderStatusPending
      else if s = ''confirmed'' then OrderStatusConfirmed
      else if s = ''paid'' then OrderStatusPaid
      else if s = ''cancelled'' then OrderStatusCancelled
      else if s = ''failed'' then OrderStatusFailed
      else OrderStatusOther s)"

fun order_status_string :: "order_status \<Rightarrow> string" where
  "order_status_string OrderStatusPending = ''pending''"
| "order_status_string OrderStatusConfirmed = ''confirmed''"
| "order_status_string OrderStatusPaid = ''paid''"
| "order_status_string OrderStatusCancelled = ''cancelled''"
| "order_status_string OrderStatusFailed = ''failed''"
| "order_status_string (OrderStatusOther s) = s"

record order =
  o_ID :: string
  o_CustomerID :: string
  o_ContactEmail :: string
  o_status :: order_status
  o_Currency :: string
  o_items :: "order_item list"
  o_TotalAmount :: money
  o_StoreCreditApplied :: money
  o_DestinationCountry :: string
  o_TaxAmount :: money
  o_CreatedAt :: gotime
  o_UpdatedAt :: gotime

text \<open>The loop over the \<open>seen\<close> set.\<close>

fun has_dup_variant :: "string list \<Rightarrow> order_item list \<Rightarrow> bool" where
  "has_dup_variant seen [] = False"
| "has_dup_variant seen (i # is) =
     (if oi_VariantID i \<in> set seen then True else has_dup_variant (oi_VariantID i # seen) is)"

definition NewOrder ::
    "(string \<Rightarrow> string) \<Rightarrow> (string \<Rightarrow> bool) \<Rightarrow> gotime \<Rightarrow> string \<Rightarrow> string \<Rightarrow> string \<Rightarrow> string \<Rightarrow>
     order_item list \<Rightarrow> order outcome" where
  "NewOrder uni parse_ok now orderID customerID0 contactEmail0 currency items =
     (let customerID = trim_space customerID0;
          contactEmail = go_to_lower uni (trim_space contactEmail0) in
      if orderID = [] then Fail (Err ''order: id must not be empty'')
      else if customerID = [] \<and> contactEmail = []
        then Fail (Err ''order: contact email must not be empty for guest orders'')
      else if contactEmail \<noteq> [] \<and> \<not> parse_ok contactEmail
        then Fail (Err ''order: invalid contact email'')
      else if \<not> IsValidCurrency currency then Fail (Err ''order: invalid currency code'')
      else if items = [] then Fail (Err ''order: must contain at least one item'')
      else if has_dup_variant [] items then Fail (Err ''order: duplicate variant id'')
      else if list_ex (\<lambda>i. m_currency (oi_UnitPrice i) \<noteq> currency) items
        then Fail (Err ''order: item currency mismatch'')
      else bindO (Order_computeTotal items currency) (\<lambda>t.
           bindO (Zero currency) (\<lambda>taxZero.
           Ok \<lparr>o_ID = orderID, o_CustomerID = customerID, o_ContactEmail = contactEmail,
               o_status = OrderStatusPending, o_Currency = currency, o_items = items,
               o_TotalAmount = t, o_StoreCreditApplied = taxZero, o_DestinationCountry = [],
               o_TaxAmount = taxZero, o_CreatedAt = now, o_UpdatedAt = now\<rparr>)))"

definition Order_ApplyStoreCredit :: "gotime \<Rightarrow> order \<Rightarrow> money \<Rightarrow> order outcome" where
  "Order_ApplyStoreCredit now o1 amount =
     (if m_currency amount \<noteq> o_Currency o1 then Fail (Err ''order: store credit currency mismatch'')
      else if IsNegative amount then Fail (Err ''order: store credit must be non-negative'')
      else if m_amount (o_TotalAmount o1) <s m_amount amount
        then Fail (Err ''order: store credit exceeds order total'')
      else Ok (o1\<lparr>o_StoreCreditApplied := amount, o_UpdatedAt := now\<rparr>))"

definition PayableAmount :: "order \<Rightarrow> money outcome" where
  "PayableAmount o1 =
     bindO (Add (o_TotalAmount o1) (o_TaxAmount o1)) (\<lambda>due. Sub due (o_StoreCreditApplied o1))"

text \<open>
  The range loop of the source decodes runes; a multi-byte rune exceeds \<open>'Z'\<close> and so
  does each of its bytes, so testing bytes gives the same answer.
\<close>

definition ValidateDestinationCountry :: "(string \<Rightarrow> string) \<Rightarrow> string \<Rightarrow> string outcome" where
  "ValidateDestinationCountry uni code0 =
     (let code = go_to_upper uni (trim_space code0) in
      if code = [] then Fail (Err ''order: destination country must not be empty'')
      else if length code \<noteq> 2
        then Fail (Err ''order: destination country must be a 2-letter ISO code'')
      else if list_ex (\<lambda>r. byte_val r < 65 \<or> 90 < byte_val r) code
        then Fail (Err ''order: destination country must be a 2-letter ISO code'')
      else Ok code)"

definition SetTaxSnapshot :: "(string \<Rightarrow> string) \<Rightarrow> order \<Rightarrow> string \<Rightarrow> money \<Rightarrow> order outcome" where
  "SetTaxSnapshot uni o1 destinationCountry taxAmount =
     bindO (ValidateDestinationCountry uni destinationCountry) (\<lambda>normalized.
     if m_currency taxAmount \<noteq> o_Currency o1 then Fail (Err ''order: tax amount currency mismatch'')
     else if IsNegative taxAmount then Fail (Err ''order: tax amount must be non-negative'')
     else Ok (o1\<lparr>o_DestinationCountry := normalized, o_TaxAmount := taxAmount\<rparr>))"

definition Confirm :: "gotime \<Rightarrow> order \<Rightarrow> order outcome" where
  "Confirm now o1 =
     (if o_status o1 \<noteq> OrderStatusPending then Fail (Err ''order: can only confirm a pending order'')
      else Ok (o1\<lparr>o_status := OrderStatusConfirmed, o_UpdatedAt := now\<rparr>))"

definition MarkPaid :: "gotime \<Rightarrow> order \<Rightarrow> order outcome" where
  "MarkPaid now o1 =
     (if o_status o1 \<noteq> OrderStatusConfirmed
      then Fail (Err ''order: can only mark a confirmed order as paid'')
      else Ok (o1\<lparr>o_status := OrderStatusPaid, o_UpdatedAt := now\<rparr>))"

definition Order_Cancel :: "gotime \<Rightarrow> order \<Rightarrow> order outcome" where
  "Order_Cancel now o1 =
     (if o_status o1 \<noteq> OrderStatusPending \<and> o_status o1 \<noteq> OrderStatusConfirmed
      then Fail (Err ''order: can only cancel a pending or confirmed order'')
      else Ok (o1\<lparr>o_status := OrderStatusCancelled, o_UpdatedAt := now\<rparr>))"

definition Order_Fail :: "gotime \<Rightarrow> order \<Rightarrow> order outcome" where
  "Order_Fail now o1 =
     (if o_status o1 \<noteq> OrderStatusPending then Fail (Err ''order: can only fail a pending order'')
      else Ok (o1\<lparr>o_status := OrderStatusFailed, o_UpdatedAt := now\<rparr>))"

definition Order_SetStatusFromDB :: "order \<Rightarrow> string \<Rightarrow> order outcome" where
  "Order_SetStatusFromDB o1 s =
     (if \<not> OrderStatus_IsValid (order_status_of_string s)
      then Fail (ErrWith ''order: invalid status from db: '' [s])
      else Ok (o1\<lparr>o_status := order_status_of_string s\<rparr>))"

definition Order_SetItemsFromDB :: "order \<Rightarrow> order_item list \<Rightarrow> order outcome" where
  "Order_SetItemsFromDB o1 items =
     bindO (Order_computeTotal items (o_Currency o1)) (\<lambda>t.
     if \<not> Equal t (o_TotalAmount o1)
     then Fail (Err ''order: items total does not match order header'')
     else Ok (o1\<lparr>o_items := items\<rparr>))"

definition LinkToCustomer :: "gotime \<Rightarrow> order \<Rightarrow> string \<Rightarrow> order outcome" where
  "LinkToCustomer now o1 customerID0 =
     (let customerID = trim_space customerID0 in
      if customerID = [] then Fail (Err ''order: customer id must not be empty'')
      else if o_CustomerID o1 \<noteq> [] then Fail (Err ''order: already linked to a customer'')
      else Ok (o1\<lparr>o_CustomerID := customerID, o_UpdatedAt := now\<rparr>))"

section \<open>The status service\<close>

definition ApplyStatusTransition :: "gotime \<Rightarrow> order \<Rightarrow> order_status \<Rightarrow> order outcome" where
  "ApplyStatusTransition now o1 next =
     (case next of
        OrderStatusConfirmed \<Rightarrow> Confirm now o1
      | OrderStatusPaid \<Rightarrow> MarkPaid now o1
      | OrderStatusCancelled \<Rightarrow> Order_Cancel now o1
      | OrderStatusFailed \<Rightarrow> Order_Fail now o1
      | _ \<Rightarrow> Fail (Err ''unsupported target status''))"

text \<open>
  The effects of the service in the order it performs them: the write of the order, and the
  message handed to the bus (order id, old and new status).
\<close>

datatype status_effect =
    UpdateStatus order
  | PublishOrderPaid string string string

definition PublishPaid ::
    "bool \<Rightarrow> (status_effect \<Rightarrow> gerror option) \<Rightarrow> string \<Rightarrow> string \<Rightarrow> string \<Rightarrow>
     gerror option \<times> status_effect list" where
  "PublishPaid has_bus bus orderID0 oldStatus newStatus0 =
     (if \<not> has_bus then (None, [])
      else let orderID = trim_space orderID0 in
        if orderID = [] then (Some (Err ''order: publish paid: order id must not be empty''), [])
        else let newStatus = (if trim_space newStatus0 = [] then ''paid'' else newStatus0);
                 e = PublishOrderPaid orderID oldStatus newStatus
             in (bus e, [e]))"

text \<open>The answer of \<open>ApplyStatus\<close> on success: order, previous status, changed.\<close>

type_synonym status_reply = "order \<times> order_status \<times> bool"

definition ApplyStatus ::
    "bool \<Rightarrow> (status_effect \<Rightarrow> gerror option) \<Rightarrow> (string \<Rightarrow> order option outcome) \<Rightarrow>
     (order \<Rightarrow> unit outcome) \<Rightarrow> gotime \<Rightarrow> string \<Rightarrow> order_status \<Rightarrow>
     status_reply outcome \<times> status_effect list" where
  "ApplyStatus has_bus bus find_by_id update_status now orderID next =
     (if orderID = [] then (Fail (AppErr Validation ''order id must not be empty''), [])
      else if \<not> OrderStatus_IsValid next then (Fail (AppErr Validation ''invalid order status''), [])
      else case find_by_id orderID of
        Fail e \<Rightarrow> (Fail e, [])
      | Panics p \<Rightarrow> (Panics p, [])
      | Ok None \<Rightarrow> (Fail (AppErr NotFound ''order not found''), [])
      | Ok (Some o1) \<Rightarrow>
          let previous = o_status o1;
              publish = snd (PublishPaid has_bus bus (o_ID o1) (order_status_string previous)
                               (order_status_string next)) in
          if previous = next then
            (Ok (o1, previous, False), if next = OrderStatusPaid then publish else [])
          else case ApplyStatusTransition now o1 next of
            Fail e \<Rightarrow> (Fail (AppErr Validation (err_text e)), [])
          | Panics p \<Rightarrow> (Panics p, [])
          | Ok o2 \<Rightarrow>
              (case update_status o2 of
                 Fail e \<Rightarrow> (Fail e, [UpdateStatus o2])
               | Panics p \<Rightarrow> (Panics p, [UpdateStatus o2])
               | Ok _ \<Rightarrow> (Ok (o2, previous, True),
                   UpdateStatus o2 # (if next = OrderStatusPaid then publish else []))))"

section \<open>Totals\<close>

interpretation ord_sum: money_sum oi_UnitPrice oi_Quantity "\<lambda>cur. order_total_from"
proof
  fix cur :: string and acc t :: money and i :: order_item and "is" :: "order_item list"
  show "order_total_from acc [] = Ok acc" by simp
  show "order_total_from acc (i # is) =
      bindO (MulChecked (oi_UnitPrice i) (oi_Quantity i)) (\<lambda>lt.
      bindO (AddChecked acc lt) (\<lambda>acc'. order_total_from acc' is))"
    by (simp add: OrderItem_LineTotal_def)
  assume "m_currency acc = cur" "m_currency (oi_UnitPrice i) \<noteq> cur"
  then show "order_total_from acc (i # is) \<noteq> Ok t"
    by (auto simp: OrderItem_LineTotal_def AddChecked_Ok_iff dest!: MulChecked_currency)
qed

abbreviation order_items_cents :: "order_item list \<Rightarrow> int" where
  "order_items_cents items \<equiv> (\<Sum>i\<leftarrow>items. cents (oi_UnitPrice i) * sint (oi_Quantity i))"

lemma ord_sum_cents: "ord_sum.sum_cents items = order_items_cents items"
  by (simp add: ord_sum.sum_cents_def ord_sum.line_cents_def)

text \<open>What \<open>NewItem\<close> guarantees of a line.\<close>

definition order_item_ok :: "order_item \<Rightarrow> bool" where
  "order_item_ok i \<longleftrightarrow> 0 < sint (oi_Quantity i) \<and> 0 \<le> cents (oi_UnitPrice i)"

lemma NewOrderItem_ok: "NewOrderItem now v s n q p = Ok i \<Longrightarrow> order_item_ok i"
  by (auto simp: NewOrderItem_def order_item_ok_def i64 IsNegative_iff not_le not_less split: if_splits)

lemma order_total_Ok_iff:
  assumes "\<forall>i \<in> set items. order_item_ok i \<and> m_currency (oi_UnitPrice i) = cur"
    and "IsValidCurrency cur"
  shows "(\<exists>t. Order_computeTotal items cur = Ok t) \<longleftrightarrow> order_items_cents items < 2 ^ 63"
  using ord_sum.sum_Ok_iff [of cur items "\<lparr>m_amount = 0, m_currency = cur\<rparr>"] assms
  by (auto simp: Order_computeTotal_def Zero_Ok_iff ord_sum.good_lines_def order_item_ok_def ord_sum_cents)

lemma order_total_exact:
  assumes "Order_computeTotal items cur = Ok t" "\<forall>i \<in> set items. order_item_ok i"
  shows "cents t = order_items_cents items \<and> m_currency t = cur"
  using ord_sum.sum_exact [where cur = cur and acc = "\<lparr>m_amount = 0, m_currency = cur\<rparr>" and t = t] assms
  by (auto simp: Order_computeTotal_def Zero_Ok_iff order_item_ok_def ord_sum_cents less_imp_le)

lemma order_items_cents_nonneg: "\<forall>i \<in> set items. order_item_ok i \<Longrightarrow> 0 \<le> order_items_cents items"
  by (rule sum_list_nonneg) (auto simp: order_item_ok_def)

lemma has_dup_variant_iff:
  "has_dup_variant seen items \<longleftrightarrow>
     \<not> distinct (map oi_VariantID items) \<or> set seen \<inter> oi_VariantID ` set items \<noteq> {}"
  by (induction items arbitrary: seen) auto

section \<open>The invariant of an order and its status graph\<close>

definition order_wf :: "order \<Rightarrow> bool" where
  "order_wf o1 \<longleftrightarrow>
     m_currency (o_TotalAmount o1) = o_Currency o1 \<and>
     m_currency (o_TaxAmount o1) = o_Currency o1 \<and>
     m_currency (o_StoreCreditApplied o1) = o_Currency o1 \<and>
     0 \<le> cents (o_StoreCreditApplied o1) \<and>
     cents (o_StoreCreditApplied o1) \<le> cents (o_TotalAmount o1) \<and>
     0 \<le> cents (o_TaxAmount o1) \<and>
     cents (o_TotalAmount o1) = order_items_cents (o_items o1)"

datatype order_op =
    OpApplyCredit gotime money
  | OpTaxSnapshot string money
  | OpConfirm gotime
  | OpMarkPaid gotime
  | OpCancelOrder gotime
  | OpFailOrder gotime
  | OpLink gotime string
  | OpTransition gotime order_status

fun order_apply :: "(string \<Rightarrow> string) \<Rightarrow> order_op \<Rightarrow> order \<Rightarrow> order outcome" where
  "order_apply uni (OpApplyCredit t m) o1 = Order_ApplyStoreCredit t o1 m"
| "order_apply uni (OpTaxSnapshot d m) o1 = SetTaxSnapshot uni o1 d m"
| "order_apply uni (OpConfirm t) o1 = Confirm t o1"
| "order_apply uni (OpMarkPaid t) o1 = MarkPaid t o1"
| "order_apply uni (OpCancelOrder t) o1 = Order_Cancel t o1"
| "order_apply uni (OpFailOrder t) o1 = Order_Fail t o1"
| "order_apply uni (OpLink t c) o1 = LinkToCustomer t o1 c"
| "order_apply uni (OpTransition t s) o1 = ApplyStatusTransition t o1 s"

lemmas order_defs = Order_ApplyStoreCredit_def SetTaxSnapshot_def Confirm_def MarkPaid_def
  Order_Cancel_def Order_Fail_def LinkToCustomer_def ApplyStatusTransition_def

fun order_edge :: "order_status \<Rightarrow> order_status \<Rightarrow> bool" where
  "order_edge OrderStatusPending OrderStatusConfirmed = True"
| "order_edge OrderStatusPending OrderStatusCancelled = True"
| "order_edge OrderStatusPending OrderStatusFailed = True"
| "order_edge OrderStatusConfirmed OrderStatusPaid = True"
| "order_edge OrderStatusConfirmed OrderStatusCancelled = True"
| "order_edge _ _ = False"

fun order_rank :: "order_status \<Rightarrow> nat" where
  "order_rank OrderStatusPending = 0"
| "order_rank OrderStatusConfirmed = 1"
| "order_rank _ = 2"

lemma ApplyStatusTransition_Ok:
  "ApplyStatusTransition t o1 s = Ok o2 \<Longrightarrow>
     order_edge (o_status o1) s \<and> o2 = o1\<lparr>o_status := s, o_UpdatedAt := t\<rparr>"
  by (cases s) (auto simp: ApplyStatusTransition_def Confirm_def MarkPaid_def Order_Cancel_def
      Order_Fail_def split: if_splits)

lemma order_apply_edge:
  "order_apply uni x o1 = Ok o2 \<Longrightarrow> o_status o2 = o_status o1 \<or> order_edge (o_status o1) (o_status o2)"
proof (cases x)
  case (OpTransition t s)
  then show "order_apply uni x o1 = Ok o2 \<Longrightarrow> ?thesis" by (auto dest: ApplyStatusTransition_Ok)
qed (auto simp: order_defs Let_def split: if_splits)

interpretation order_life: lifecycle o_status "order_apply uni" order_edge order_rank for uni
proof
  show "order_apply uni x o1 = Ok o2 \<Longrightarrow>
      o_status o2 = o_status o1 \<or> order_edge (o_status o1) (o_status o2)" for x o1 o2
    by (rule order_apply_edge)
qed (auto elim: order_edge.elims)

lemma NewOrder_wf:
  assumes "NewOrder uni parse_ok now oid cid email cur items = Ok o1" "\<forall>i \<in> set items. order_item_ok i"
  shows "order_wf o1"
proof -
  obtain t where "Order_computeTotal items cur = Ok t"
    and "o_TotalAmount o1 = t" "o_Currency o1 = cur" "o_items o1 = items"
    and "o_TaxAmount o1 = \<lparr>m_amount = 0, m_currency = cur\<rparr>"
      "o_StoreCreditApplied o1 = \<lparr>m_amount = 0, m_currency = cur\<rparr>"
    using assms(1) by (auto simp: NewOrder_def Let_def Zero_Ok_iff split: if_splits)
  then show ?thesis
    using order_total_exact [OF _ assms(2)] order_items_cents_nonneg [OF assms(2)]
    by (auto simp: order_wf_def)
qed

lemma order_apply_wf: "order_apply uni x o1 = Ok o2 \<Longrightarrow> order_wf o1 \<Longrightarrow> order_wf o2"
proof (cases x)
  case (OpTransition t s)
  then show "order_apply uni x o1 = Ok o2 \<Longrightarrow> order_wf o1 \<Longrightarrow> ?thesis"
    by (auto dest!: ApplyStatusTransition_Ok simp: order_wf_def)
qed (auto simp: order_defs order_wf_def Let_def IsNegative_iff i64 not_less split: if_splits)

lemma order_apply_fixed:
  "order_apply uni x o1 = Ok o2 \<Longrightarrow>
     o_ID o2 = o_ID o1 \<and> o_items o2 = o_items o1 \<and> o_TotalAmount o2 = o_TotalAmount o1 \<and>
     o_Currency o2 = o_Currency o1"
proof (cases x)
  case (OpTransition t s)
  then show "order_apply uni x o1 = Ok o2 \<Longrightarrow> ?thesis" by (auto dest!: ApplyStatusTransition_Ok)
qed (auto simp: order_defs Let_def split: if_splits)

lemma order_run_wf: "order_wf o1 \<Longrightarrow> order_wf (run_ops (order_apply uni) xs o1)"
  by (rule run_ops_induct) (auto intro: order_apply_wf)

lemma order_run_fixed:
  "o_ID (run_ops (order_apply uni) xs o1) = o_ID o1 \<and>
   o_items (run_ops (order_apply uni) xs o1) = o_items o1 \<and>
   o_TotalAmount (run_ops (order_apply uni) xs o1) = o_TotalAmount o1 \<and>
   o_Currency (run_ops (order_apply uni) xs o1) = o_Currency o1"
  by (rule run_ops_induct) (auto dest: order_apply_fixed)

text \<open>
  \<open>PayableAmount\<close> adds and subtracts without overflow checks. Its intermediate sum may
  wrap; the result is right as soon as the amount due itself fits.
\<close>

lemma PayableAmount_wf:
  assumes "order_wf o1"
  shows "\<exists>p. PayableAmount o1 = Ok p \<and> m_currency p = o_Currency o1 \<and>
    (in_int64 (cents (o_TotalAmount o1) + cents (o_TaxAmount o1) - cents (o_StoreCreditApplied o1)) \<longrightarrow>
     cents p = cents (o_TotalAmount o1) + cents (o_TaxAmount o1) - cents (o_StoreCreditApplied o1))"
proof -
  let ?a = "m_amount (o_TotalAmount o1)" and ?b = "m_amount (o_TaxAmount o1)"
    and ?c = "m_amount (o_StoreCreditApplied o1)"
  let ?k = "sint ?a + sint ?b - sint ?c"
  have "word_of_int ?k = ?a + ?b - ?c" by simp
  then have "in_int64 ?k \<Longrightarrow> sint (?a + ?b - ?c) = ?k" using sint_of_int [of ?k] by simp
  then show ?thesis
    using assms by (auto simp: order_wf_def PayableAmount_def Add_match Sub_match)
qed

section \<open>Properties\<close>

text \<open>A line and an order for the witnesses.\<close>

definition demo_order_item :: order_item where
  "demo_order_item = \<lparr>oi_VariantID = ''v1'', oi_SKU = ''s1'', oi_Name = ''n1'', oi_Quantity = 3,
     oi_UnitPrice = \<lparr>m_amount = 250, m_currency = ''EUR''\<rparr>, oi_Restockable = True, oi_CreatedAt = 1\<rparr>"

definition demo_order :: order where
  "demo_order = \<lparr>o_ID = ''o1'', o_CustomerID = ''c1'', o_ContactEmail = [],
     o_status = OrderStatusPending, o_Currency = ''EUR'', o_items = [demo_order_item],
     o_TotalAmount = \<lparr>m_amount = 750, m_currency = ''EUR''\<rparr>,
     o_StoreCreditApplied = \<lparr>m_amount = 0, m_currency = ''EUR''\<rparr>, o_DestinationCountry = [],
     o_TaxAmount = \<lparr>m_amount = 0, m_currency = ''EUR''\<rparr>, o_CreatedAt = 1, o_UpdatedAt = 1\<rparr>"

lemma EUR_valid [simp]: "IsValidCurrency ''EUR''"
  by (simp add: IsValidCurrency_def is_upper_letter_def byte_val_def)

lemma trim_space_c1 [simp]: "trim_space ''c1'' = ''c1''"
  by (simp add: trim_space_def trim_left_def trim_right_def trim_codes.simps space_codes_def)

text \<open>C28: for lines as \<open>NewItem\<close> makes them, \<open>NewOrder\<close> succeeds exactly when the
  id is set, the buyer is identified by a customer id or a parseable contact email, the
  currency code is valid, there is at least one line, no variant appears twice, every line is
  in the order's currency and the exact total fits in 64 bits; the new order is pending and
  its total is that exact sum.\<close>

theorem NewOrder_exact:
  assumes "\<forall>i \<in> set items. order_item_ok i"
  shows "((\<exists>o1. NewOrder uni parse_ok now oid cid email cur items = Ok o1) \<longleftrightarrow>
      oid \<noteq> [] \<and> (trim_space cid \<noteq> [] \<or> go_to_lower uni (trim_space email) \<noteq> []) \<and>
      (go_to_lower uni (trim_space email) \<noteq> [] \<longrightarrow> parse_ok (go_to_lower uni (trim_space email))) \<and>
      IsValidCurrency cur \<and> items \<noteq> [] \<and> distinct (map oi_VariantID items) \<and>
      (\<forall>i \<in> set items. m_currency (oi_UnitPrice i) = cur) \<and> order_items_cents items < 2 ^ 63) \<and>
    (\<forall>o1. NewOrder uni parse_ok now oid cid email cur items = Ok o1 \<longrightarrow>
      o_status o1 = OrderStatusPending \<and> o_items o1 = items \<and>
      cents (o_TotalAmount o1) = order_items_cents items \<and> m_currency (o_TotalAmount o1) = cur)"
  using order_total_Ok_iff [of items cur] order_total_exact [OF _ assms, of cur] assms
  by (auto simp: NewOrder_def Let_def has_dup_variant_iff list_ex_iff Zero_Ok_iff split: if_splits)

theorem NewOrder_exact_witness:
  "\<exists>o1. NewOrder (\<lambda>s. s) (\<lambda>_. True) 1 ''o1'' ''c1'' [] ''EUR'' [demo_order_item] = Ok o1 \<and>
     cents (o_TotalAmount o1) = 750"
proof -
  have "\<forall>i \<in> set [demo_order_item]. order_item_ok i"
    by (simp add: demo_order_item_def order_item_ok_def)
  from NewOrder_exact [OF this, of "\<lambda>s. s" "\<lambda>_. True" 1 "''o1''" "''c1''" "[]" "''EUR''"]
  show ?thesis by (simp add: demo_order_item_def go_to_lower_def is_ascii_def) blast
qed

text \<open>C26: whatever operations an order goes through (failed ones included), its lines, total
  and currency stay what \<open>NewOrder\<close> computed, the store credit stays between zero and the
  line total, \<open>PayableAmount\<close> never panics, and it is exactly total plus tax minus credit,
  hence not negative, whenever that amount fits in 64 bits.\<close>

theorem order_history_payable:
  assumes "NewOrder uni parse_ok now oid cid email cur items = Ok o1"
    and "\<forall>i \<in> set items. order_item_ok i"
  shows "let o2 = run_ops (order_apply uni) xs o1;
             due = cents (o_TotalAmount o2) + cents (o_TaxAmount o2) - cents (o_StoreCreditApplied o2) in
    o_items o2 = items \<and> o_TotalAmount o2 = o_TotalAmount o1 \<and> o_Currency o2 = o_Currency o1 \<and>
    0 \<le> cents (o_StoreCreditApplied o2) \<and>
    cents (o_StoreCreditApplied o2) \<le> order_items_cents items \<and> 0 \<le> due \<and>
    (\<exists>p. PayableAmount o2 = Ok p \<and> (due < 2 ^ 63 \<longrightarrow> cents p = due))"
proof -
  let ?o2 = "run_ops (order_apply uni) xs o1"
  have wf: "order_wf ?o2" using order_run_wf NewOrder_wf [OF assms] by blast
  have fixed: "o_items ?o2 = items" "o_TotalAmount ?o2 = o_TotalAmount o1" "o_Currency ?o2 = o_Currency o1"
    using order_run_fixed [of uni xs o1] assms(1)
    by (auto simp: NewOrder_def Let_def split: if_splits)
  obtain p where p: "PayableAmount ?o2 = Ok p" and
    exact: "in_int64 (cents (o_TotalAmount ?o2) + cents (o_TaxAmount ?o2) - cents (o_StoreCreditApplied ?o2)) \<Longrightarrow>
      cents p = cents (o_TotalAmount ?o2) + cents (o_TaxAmount ?o2) - cents (o_StoreCreditApplied ?o2)"
    using PayableAmount_wf [OF wf] by blast
  from wf have "0 \<le> cents (o_TotalAmount ?o2) + cents (o_TaxAmount ?o2) - cents (o_StoreCreditApplied ?o2)"
    by (simp add: order_wf_def)
  then show ?thesis
    using wf p fixed exact by (auto simp: Let_def order_wf_def in_int64_def)
qed

theorem order_history_payable_witness:
  "\<exists>o1. NewOrder (\<lambda>s. s) (\<lambda>_. True) 1 ''o1'' ''c1'' [] ''EUR'' [demo_order_item] = Ok o1 \<and>
     isOk (PayableAmount (run_ops (order_apply (\<lambda>s. s))
       [OpApplyCredit 2 \<lparr>m_amount = 900, m_currency = ''EUR''\<rparr>, OpConfirm 3,
        OpApplyCredit 4 \<lparr>m_amount = 200, m_currency = ''EUR''\<rparr>] o1))"
proof -
  have ok: "\<forall>i \<in> set [demo_order_item]. order_item_ok i"
    by (simp add: demo_order_item_def order_item_ok_def)
  have new: "NewOrder (\<lambda>s. s) (\<lambda>_. True) 1 ''o1'' ''c1'' [] ''EUR'' [demo_order_item] = Ok demo_order"
    by (simp add: NewOrder_def demo_order_item_def demo_order_def go_to_lower_def is_ascii_def
        Order_computeTotal_def Zero_def OrderItem_LineTotal_def MulChecked_def AddChecked_def
        mustMatch_def go_div_def MaxInt64_def MinInt64_def i64 signed_divide_int_def)
  show ?thesis
    using order_history_payable [OF new ok] new by (auto simp: Let_def isOk_iff simp del: run_ops.simps)
qed

text \<open>An order's status only moves along pending to confirmed, cancelled or failed, and
  confirmed to paid or cancelled: over any sequence of operations a status that was left never
  comes back, and paid, cancelled and failed are final.\<close>

lemma order_status_lifecycle:
  "order_edge\<^sup>*\<^sup>* (o_status o1) (o_status (run_ops (order_apply uni) xs o1)) \<and>
   (o_status (run_ops (order_apply uni) (xs @ ys) o1) = o_status o1 \<longrightarrow>
      o_status (run_ops (order_apply uni) xs o1) = o_status o1) \<and>
   (o_status o1 \<in> {OrderStatusPaid, OrderStatusCancelled, OrderStatusFailed} \<longrightarrow>
      o_status (run_ops (order_apply uni) xs o1) = o_status o1)"
proof (intro conjI impI)
  show "order_edge\<^sup>*\<^sup>* (o_status o1) (o_status (run_ops (order_apply uni) xs o1))"
    by (rule order_life.run_edges)
  show "o_status (run_ops (order_apply uni) (xs @ ys) o1) = o_status o1 \<Longrightarrow>
      o_status (run_ops (order_apply uni) xs o1) = o_status o1"
    by (rule order_life.no_return)
  assume "o_status o1 \<in> {OrderStatusPaid, OrderStatusCancelled, OrderStatusFailed}"
  then have "\<not> order_edge (o_status o1) t" for t by auto
  then show "o_status (run_ops (order_apply uni) xs o1) = o_status o1"
    by (rule order_life.final_status)
qed

lemma order_status_lifecycle_witness:
  "o_status (run_ops (order_apply (\<lambda>s. s)) [OpCancelOrder 5, OpConfirm 6, OpFailOrder 7]
     (demo_order\<lparr>o_status := OrderStatusPaid\<rparr>)) = OrderStatusPaid"
  using order_status_lifecycle [of "demo_order\<lparr>o_status := OrderStatusPaid\<rparr>" "\<lambda>s. s"
      "[OpCancelOrder 5, OpConfirm 6, OpFailOrder 7]" "[]"]
  by (simp del: run_ops.simps)

text \<open>C38: \<open>ApplyStatus\<close> reports a change only for an order it found, moved along a legal
  edge to the requested status and stored successfully; it publishes \<open>order.paid\<close> only
  for an order that is stored as paid, either now or already before the call, and nothing at
  all when the store refuses the write.\<close>

theorem ApplyStatus_correct:
  assumes "ApplyStatus has_bus bus find_by_id update_status now oid next = (r, effs)"
  shows "(\<forall>o2 prev. r = Ok (o2, prev, True) \<longrightarrow>
      (\<exists>o1. find_by_id oid = Ok (Some o1) \<and> prev = o_status o1 \<and> order_edge prev next \<and>
         o2 = o1\<lparr>o_status := next, o_UpdatedAt := now\<rparr> \<and> update_status o2 = Ok () \<and>
         hd effs = UpdateStatus o2)) \<and>
    (\<forall>i a b. PublishOrderPaid i a b \<in> set effs \<longrightarrow>
      next = OrderStatusPaid \<and> b = ''paid'' \<and>
      ((\<exists>o1. r = Ok (o1, OrderStatusPaid, False) \<and> find_by_id oid = Ok (Some o1) \<and>
             a = ''paid'' \<and> effs = [PublishOrderPaid i a b]) \<or>
       (\<exists>o2. r = Ok (o2, OrderStatusConfirmed, True) \<and> a = ''confirmed'' \<and>
             effs = [UpdateStatus o2, PublishOrderPaid i a b] \<and> update_status o2 = Ok ())))"
proof -
  have paid: "order_edge s OrderStatusPaid \<Longrightarrow> s = OrderStatusConfirmed" for s by (cases s) auto
  have trim: "trim_space ''paid'' \<noteq> []"
    by (simp add: trim_space_def trim_left_def trim_right_def trim_codes.simps space_codes_def)
  show ?thesis
    using assms trim
    by (auto simp: ApplyStatus_def PublishPaid_def Let_def split: if_splits outcome.splits option.splits
        dest!: ApplyStatusTransition_Ok dest: paid)
qed

theorem ApplyStatus_correct_witness:
  "ApplyStatus True (\<lambda>_. None) (\<lambda>_. Ok (Some demo_order)) (\<lambda>_. Ok ()) 9 ''o1'' OrderStatusConfirmed =
     (Ok (demo_order\<lparr>o_status := OrderStatusConfirmed, o_UpdatedAt := 9\<rparr>, OrderStatusPending, True),
      [UpdateStatus (demo_order\<lparr>o_status := OrderStatusConfirmed, o_UpdatedAt := 9\<rparr>)]) \<and>
   order_edge OrderStatusPending OrderStatusConfirmed"
proof -
  let ?o2 = "demo_order\<lparr>o_status := OrderStatusConfirmed, o_UpdatedAt := 9\<rparr>"
  have run: "ApplyStatus True (\<lambda>_. None) (\<lambda>_. Ok (Some demo_order)) (\<lambda>_. Ok ()) 9 ''o1'' OrderStatusConfirmed =
     (Ok (?o2, OrderStatusPending, True), [UpdateStatus ?o2])"
    by (simp add: ApplyStatus_def ApplyStatusTransition_def Confirm_def demo_order_def Let_def)
  show ?thesis using ApplyStatus_correct [OF run] run by blast
qed

text \<open>A country code \<open>ValidateDestinationCountry\<close> accepts is two upper-case ASCII
  letters, and validating it again returns it unchanged.\<close>

lemma ValidateDestinationCountry_canonical:
  assumes "ValidateDestinationCountry uni raw = Ok code"
  shows "length code = 2 \<and> list_all is_upper_letter code \<and>
    ValidateDestinationCountry uni' code = Ok code"
proof -
  from assms have len: "length code = 2" and up: "\<forall>c \<in> set code. is_upper_letter c"
    by (auto simp: ValidateDestinationCountry_def Let_def list_ex_iff is_upper_letter_def split: if_splits)
  have "trim_space code = code" using trim_space_upper [OF up] .
  moreover have "go_to_upper uni' code = code" using go_to_upper_upper [OF up] .
  moreover have "code \<noteq> []" using len by auto
  ultimately show ?thesis
    using len up by (auto simp: ValidateDestinationCountry_def Let_def list_ex_iff list_all_iff is_upper_letter_def)
qed

lemma ValidateDestinationCountry_canonical_witness:
  "ValidateDestinationCountry (\<lambda>s. s) ''DE'' = Ok ''DE''"
proof -
  have "ValidateDestinationCountry (\<lambda>s. s) ''DE '' = Ok ''DE''"
    by (simp add: ValidateDestinationCountry_def go_to_upper_def is_ascii_def byte_val_def upper_char_def
        is_lower_letter_def trim_space_def trim_left_def trim_right_def trim_codes.simps space_codes_def)
  then show ?thesis using ValidateDestinationCountry_canonical by blast
qed

end
