(* ===== verification/Payments.thy ===== *)
theory Payments
  imports Money Lifecycle Registry
begin

text \<open>
  Payments: the payment aggregate (\<open>internal/domain/payment/payment.go\<close>) and the
  registry of payment providers (\<open>registry.go\<close>). A provider is opaque; its
  \<open>Method()\<close> is the parameter \<open>pmeth\<close>.
\<close>

section \<open>Payments\<close>

datatype payment_status =
    PayPending | PayCompleted | PayFailed | PayRefunded | PayStatusOther string

fun PaymentStatus_IsValid :: "payment_status \<Rightarrow> bool" where
  "PaymentStatus_IsValid (PayStatusOther _) = False"
| "PaymentStatus_IsValid _ = True"

definition payment_status_of_string :: "string \<Rightarrow> payment_status" where
  "payment_status_of_string s =
     (if s = ''pending'' then PayPending
      else if s = ''completed'' then PayCompleted
      else if s = ''failed'' then PayFailed
      else if s = ''refunded'' then PayRefunded
      else PayStatusOther s)"

datatype payment_method = MethodManual | MethodStripe | PayMethodOther string

fun PaymentMethod_IsValid :: "payment_method \<Rightarrow> bool" where
  "PaymentMethod_IsValid (PayMethodOther _) = False"
| "PaymentMethod_IsValid _ = True"

definition payment_method_of_string :: "string \<Rightarrow> payment_method" where
  "payment_method_of_string s =
     (if s = ''manual'' then MethodManual
      else if s = ''stripe'' then MethodStripe
      else PayMethodOther s)"

fun payment_method_string :: "payment_method \<Rightarrow> string" where
  "payment_method_string MethodManual = ''manual''"
| "payment_method_string MethodStripe = ''stripe''"
| "payment_method_string (PayMethodOther s) = s"

record payment =
  p_ID :: string
  p_OrderID :: string
  p_Method :: payment_method
  p_status :: payment_status
  p_Amount :: money
  p_ProviderRef :: string
  p_CreatedAt :: gotime
  p_UpdatedAt :: gotime

definition NewPayment ::
    "gotime \<Rightarrow> string \<Rightarrow> string \<Rightarrow> payment_method \<Rightarrow> money \<Rightarrow> payment outcome" where
  "NewPayment now payID orderID meth amount =
     (if payID = [] then Fail (Err ''payment: id must not be empty'')
      else if orderID = [] then Fail (Err ''payment: order id must not be empty'')
      else if \<not> PaymentMethod_IsValid meth then Fail (Err ''payment: invalid payment method'')
      else if \<not> IsPositive amount then Fail (Err ''payment: amount must be positive'')
      else Ok \<lparr>p_ID = payID, p_OrderID = orderID, p_Method = meth, p_status = PayPending,
               p_Amount = amount, p_ProviderRef = [], p_CreatedAt = now, p_UpdatedAt = now\<rparr>)"

definition Payment_Complete :: "gotime \<Rightarrow> payment \<Rightarrow> string \<Rightarrow> payment outcome" where
  "Payment_Complete now p providerRef =
     (if p_status p \<noteq> PayPending then Fail (Err ''payment: can only complete a pending payment'')
      else Ok (p\<lparr>p_status := PayCompleted, p_ProviderRef := providerRef, p_UpdatedAt := now\<rparr>))"

definition Payment_Fail :: "gotime \<Rightarrow> payment \<Rightarrow> payment outcome" where
  "Payment_Fail now p =
     (if p_status p \<noteq> PayPending then Fail (Err ''payment: can only fail a pending payment'')
      else Ok (p\<lparr>p_status := PayFailed, p_UpdatedAt := now\<rparr>))"

definition Payment_Refund :: "gotime \<Rightarrow> payment \<Rightarrow> payment outcome" where
  "Payment_Refund now p =
     (if p_status p \<noteq> PayCompleted then Fail (Err ''payment: can only refund a completed payment'')
      else Ok (p\<lparr>p_status := PayRefunded, p_UpdatedAt := now\<rparr>))"

definition Payment_setStatusFromDB :: "payment \<Rightarrow> string \<Rightarrow> payment outcome" where
  "Payment_setStatusFromDB p s =
     (if \<not> PaymentStatus_IsValid (payment_status_of_string s)
      then Fail (ErrWith ''payment: invalid status from db: '' [s])
      else Ok (p\<lparr>p_status := payment_status_of_string s\<rparr>))"

definition NewPaymentFromDB ::
    "string \<Rightarrow> string \<Rightarrow> payment_method \<Rightarrow> string \<Rightarrow> money \<Rightarrow> string \<Rightarrow> gotime \<Rightarrow> gotime \<Rightarrow>
     payment outcome" where
  "NewPaymentFromDB payID orderID meth st amount providerRef createdAt updatedAt =
     (let s = payment_status_of_string st in
      if \<not> PaymentStatus_IsValid s then Fail (ErrWith ''payment: invalid status from db: '' [st])
      else if \<not> PaymentMethod_IsValid meth
        then Fail (ErrWith ''payment: invalid method from db: '' [payment_method_string meth])
      else Ok \<lparr>p_ID = payID, p_OrderID = orderID, p_Method = meth, p_status = s,
               p_Amount = amount, p_ProviderRef = providerRef, p_CreatedAt = createdAt,
               p_UpdatedAt = updatedAt\<rparr>)"

section \<open>The provider registry\<close>

text \<open>\<open>None\<close> is a nil registry, and a nil provider.\<close>

record 'p payment_registry =
  pr_providers :: "payment_method \<Rightarrow> 'p option"
  pr_order :: "payment_method list"

definition NewPaymentRegistry :: "'p payment_registry" where
  "NewPaymentRegistry = \<lparr>pr_providers = (\<lambda>_. None), pr_order = []\<rparr>"

definition PaymentRegistry_Register ::
    "('p \<Rightarrow> payment_method) \<Rightarrow> 'p option \<Rightarrow> 'p payment_registry option \<Rightarrow>
     'p payment_registry outcome" where
  "PaymentRegistry_Register pmeth prov reg =
     (case reg of
        None \<Rightarrow> Panics ''payment: registry must not be nil''
      | Some r \<Rightarrow>
        (case prov of
           None \<Rightarrow> Panics ''payment: provider must not be nil''
         | Some p \<Rightarrow>
             if pmeth p = PayMethodOther [] \<or> \<not> PaymentMethod_IsValid (pmeth p)
             then Panics ''payment: invalid provider method''
             else if pr_providers r (pmeth p) \<noteq> None
             then Panics ''payment: provider already registered for method''
             else Ok (r\<lparr>pr_providers := (pr_providers r)(pmeth p \<mapsto> p),
                        pr_order := pr_order r @ [pmeth p]\<rparr>)))"

definition PaymentRegistry_Get ::
    "'p payment_registry option \<Rightarrow> payment_method \<Rightarrow> 'p option" where
  "PaymentRegistry_Get reg meth =
     (case reg of None \<Rightarrow> None | Some r \<Rightarrow> pr_providers r meth)"

definition PaymentRegistry_Methods :: "'p payment_registry option \<Rightarrow> payment_method list" where
  "PaymentRegistry_Methods reg = (case reg of None \<Rightarrow> [] | Some r \<Rightarrow> pr_order r)"

definition PaymentRegistry_Len :: "'p payment_registry option \<Rightarrow> nat" where
  "PaymentRegistry_Len reg = (case reg of None \<Rightarrow> 0 | Some r \<Rightarrow> length (pr_order r))"

definition PaymentRegistry_DefaultMethod :: "'p payment_registry option \<Rightarrow> payment_method" where
  "PaymentRegistry_DefaultMethod reg =
     (case reg of
        None \<Rightarrow> PayMethodOther []
      | Some r \<Rightarrow>
          if pr_order r = [] then PayMethodOther []
          else if pr_providers r MethodManual \<noteq> None then MethodManual
          else hd (pr_order r))"

definition PaymentRegistry_Resolve :: "'p payment_registry option \<Rightarrow> string \<Rightarrow> 'p outcome" where
  "PaymentRegistry_Resolve reg methodName =
     (if PaymentRegistry_Len reg = 0 then Fail (Err ''payment: no providers configured'')
      else let m0 = payment_method_of_string methodName;
               m = (if m0 = PayMethodOther [] then PaymentRegistry_DefaultMethod reg else m0)
           in case PaymentRegistry_Get reg m of
                None \<Rightarrow> Fail (ErrWith ''payment: method is unavailable'' [methodName])
              | Some p \<Rightarrow> Ok p)"

text \<open>The refunder is the provider's optional second interface, the parameter \<open>as_refunder\<close>.\<close>

definition PaymentRegistry_Refunder ::
    "('p \<Rightarrow> 'f option) \<Rightarrow> 'p payment_registry option \<Rightarrow> payment_method \<Rightarrow> 'f option" where
  "PaymentRegistry_Refunder as_refunder reg meth =
     (case PaymentRegistry_Get reg meth of None \<Rightarrow> None | Some p \<Rightarrow> as_refunder p)"

section \<open>Lemmas\<close>

datatype payment_op = OpComplete gotime string | OpFailPay gotime | OpRefund gotime

fun payment_apply :: "payment_op \<Rightarrow> payment \<Rightarrow> payment outcome" where
  "payment_apply (OpComplete t r) p = Payment_Complete t p r"
| "payment_apply (OpFailPay t) p = Payment_Fail t p"
| "payment_apply (OpRefund t) p = Payment_Refund t p"

lemmas payment_defs = Payment_Complete_def Payment_Fail_def Payment_Refund_def

fun payment_edge :: "payment_status \<Rightarrow> payment_status \<Rightarrow> bool" where
  "payment_edge PayPending PayCompleted = True"
| "payment_edge PayPending PayFailed = True"
| "payment_edge PayCompleted PayRefunded = True"
| "payment_edge _ _ = False"

fun payment_rank :: "payment_status \<Rightarrow> nat" where
  "payment_rank PayPending = 0"
| "payment_rank PayCompleted = 1"
| "payment_rank _ = 2"

interpretation payment_life: lifecycle p_status payment_apply payment_edge payment_rank
proof
  show "payment_apply x p = Ok q \<Longrightarrow> p_status q = p_status p \<or> payment_edge (p_status p) (p_status q)" for x p q
    by (cases x) (auto simp: payment_defs split: if_splits)
qed (auto elim: payment_edge.elims)

lemma payment_apply_fixed:
  "payment_apply x p = Ok q \<Longrightarrow> p_Amount q = p_Amount p \<and> p_OrderID q = p_OrderID p \<and> p_Method q = p_Method p"
  by (cases x) (auto simp: payment_defs split: if_splits)

lemma payment_run_fixed:
  "p_Amount (run_ops payment_apply xs p) = p_Amount p \<and>
   p_OrderID (run_ops payment_apply xs p) = p_OrderID p \<and>
   p_Method (run_ops payment_apply xs p) = p_Method p"
  by (rule run_ops_induct) (auto dest: payment_apply_fixed)

text \<open>How often a history refunds the payment.\<close>

fun refunds :: "payment_op list \<Rightarrow> payment \<Rightarrow> nat" where
  "refunds [] p = 0"
| "refunds (x # xs) p =
     (case payment_apply x p of
        Ok q \<Rightarrow> (if p_status q = PayRefunded then 1 else 0) + refunds xs q
      | _ \<Rightarrow> refunds xs p)"

lemma refunds_final:
  "p_status p \<in> {PayFailed, PayRefunded} \<Longrightarrow> refunds xs p = 0"
  by (induction xs arbitrary: p) (auto simp: payment_defs split: outcome.splits elim!: payment_apply.elims split: if_splits)

lemma refunds_le1: "refunds xs p \<le> 1"
proof (induction xs arbitrary: p)
  case (Cons x xs)
  show ?case
  proof (cases "payment_apply x p")
    case (Ok q)
    then show ?thesis using Cons.IH [of q] refunds_final [of q xs] by auto
  qed (use Cons.IH [of p] in auto)
qed simp

interpretation pay_reg: provider_registry
  "\<lambda>p r. PaymentRegistry_Register pmeth (Some p) (Some r)" "\<lambda>r. PaymentRegistry_Get (Some r)" pr_order
  pmeth PaymentMethod_IsValid NewPaymentRegistry for pmeth
proof
  show "PaymentRegistry_Register pmeth (Some p) (Some r) = Ok r' \<Longrightarrow>
      PaymentMethod_IsValid (pmeth p) \<and> PaymentRegistry_Get (Some r) (pmeth p) = None \<and>
      pr_order r' = pr_order r @ [pmeth p] \<and>
      PaymentRegistry_Get (Some r') m = (if m = pmeth p then Some p else PaymentRegistry_Get (Some r) m)"
    for p r r' m
    by (auto simp: PaymentRegistry_Register_def PaymentRegistry_Get_def split: if_splits)
qed (simp_all add: NewPaymentRegistry_def PaymentRegistry_Get_def)

lemma payment_method_of_string_Nil: "payment_method_of_string s = PayMethodOther [] \<longleftrightarrow> s = []"
  by (auto simp: payment_method_of_string_def)

section \<open>Properties\<close>

text \<open>Over any sequence of operations a payment keeps its amount, order and method, its
  status follows pending to completed or failed and completed to refunded without ever
  returning to a status it left, and it is refunded at most once; a failed or refunded payment
  is never refunded again.\<close>

lemma payment_lifecycle:
  assumes "NewPayment now pid oid meth amount = Ok p"
  shows "let q = run_ops payment_apply xs p in
    0 < cents (p_Amount q) \<and> p_Amount q = amount \<and> p_OrderID q = oid \<and> p_Method q = meth \<and>
    payment_edge\<^sup>*\<^sup>* PayPending (p_status q) \<and> refunds xs p \<le> 1 \<and>
    (p_status q \<in> {PayFailed, PayRefunded} \<longrightarrow>
       p_status (run_ops payment_apply ys q) = p_status q \<and> refunds ys q = 0)"
proof -
  let ?q = "run_ops payment_apply xs p"
  have new: "0 < cents amount" "p_Amount p = amount" "p_OrderID p = oid" "p_Method p = meth"
    "p_status p = PayPending"
    using assms by (auto simp: NewPayment_def IsPositive_iff split: if_splits)
  have "p_status (run_ops payment_apply ys ?q) = p_status ?q"
    if "p_status ?q \<in> {PayFailed, PayRefunded}"
    by (rule payment_life.final_status) (use that in auto)
  then show ?thesis
    using new payment_run_fixed [of xs p] payment_life.run_edges [of p xs] refunds_le1 refunds_final
    by (auto simp: Let_def)
qed

lemma payment_lifecycle_witness:
  "\<exists>p. NewPayment 1 ''p1'' ''o1'' MethodStripe \<lparr>m_amount = 990, m_currency = ''EUR''\<rparr> = Ok p \<and>
     refunds [OpComplete 2 ''ch'', OpRefund 3, OpRefund 4] p \<le> 1"
proof -
  obtain p where new: "NewPayment 1 ''p1'' ''o1'' MethodStripe \<lparr>m_amount = 990, m_currency = ''EUR''\<rparr> = Ok p"
    by (simp add: NewPayment_def IsPositive_def i64)
  show ?thesis
    using payment_lifecycle [OF new, of "[OpComplete 2 ''ch'', OpRefund 3, OpRefund 4]" "[]"] new
    by (auto simp: Let_def simp del: run_ops.simps refunds.simps)
qed

text \<open>After any successful registrations, \<open>Resolve\<close> with a method name returns the
  provider registered for that method and fails if there is none; without a name it returns
  the manual provider when there is one and otherwise the first registered one, so it always
  succeeds once a provider is registered.\<close>

lemma payment_Resolve_correct:
  assumes "register_all (\<lambda>p r. PaymentRegistry_Register pmeth (Some p) (Some r)) ps NewPaymentRegistry = Ok r"
  shows "PaymentRegistry_Resolve (Some r) s =
    (if ps = [] then Fail (Err ''payment: no providers configured'')
     else if s \<noteq> [] then
       (case find (\<lambda>p. pmeth p = payment_method_of_string s) ps of
          None \<Rightarrow> Fail (ErrWith ''payment: method is unavailable'' [s]) | Some p \<Rightarrow> Ok p)
     else (case find (\<lambda>p. pmeth p = MethodManual) ps of None \<Rightarrow> Ok (hd ps) | Some p \<Rightarrow> Ok p))"
proof -
  have look: "PaymentRegistry_Get (Some r) m = find (\<lambda>p. pmeth p = m) ps" for m
    using pay_reg.look_all [OF assms] .
  have ord: "pr_order r = map pmeth ps"
    using pay_reg.ord_all [OF assms] by (simp add: NewPaymentRegistry_def)
  have first: "find (\<lambda>p. pmeth p = pmeth (hd ps)) ps = Some (hd ps)" if "ps \<noteq> []"
    using that by (cases ps) auto
  show ?thesis
    using look first
    by (cases ps) (auto simp: PaymentRegistry_Resolve_def PaymentRegistry_Len_def Let_def ord
        PaymentRegistry_DefaultMethod_def payment_method_of_string_Nil PaymentRegistry_Get_def
        split: option.splits if_splits)
qed

lemma payment_Resolve_correct_witness:
  "\<exists>r. register_all (\<lambda>p r. PaymentRegistry_Register (\<lambda>m. m) (Some p) (Some r)) [MethodStripe, MethodManual]
        NewPaymentRegistry = Ok r \<and>
     PaymentRegistry_Resolve (Some r) [] = Ok MethodManual \<and>
     PaymentRegistry_Resolve (Some r) ''stripe'' = Ok MethodStripe"
proof -
  let ?reg = "\<lambda>p r. PaymentRegistry_Register (\<lambda>m. m) (Some p) (Some r)"
  obtain r where r: "register_all ?reg [MethodStripe, MethodManual] NewPaymentRegistry = Ok r"
    by (simp add: PaymentRegistry_Register_def NewPaymentRegistry_def)
  show ?thesis
    using payment_Resolve_correct [OF r, of "[]"] payment_Resolve_correct [OF r, of "''stripe''"] r
    by (simp add: payment_method_of_string_def del: register_all.simps)
qed

end
