(* ===== verification/Shipping.thy ===== *)
theory Shipping
  imports Orders Registry
begin

text \<open>
  Shipping: the shipment aggregate (\<open>internal/domain/shipping/shipment.go\<close>), zones and
  the zone rate calculator (\<open>zone.go\<close>, \<open>zone_rate.go\<close>), the provider registry
  (\<open>registry.go\<close>) and the shipment status service
  (\<open>internal/application/shipping/status_service.go\<close>, \<open>normalize.go\<close>).
  Weights are \<open>float64\<close>: their type is a type variable and the floating-point
  comparison, sum and product are arguments.
\<close>

section \<open>Shipments\<close>

datatype shipping_status =
    ShipPending | ShipShipped | ShipDelivered | ShipCancelled | ShipStatusOther string

fun ShippingStatus_IsValid :: "shipping_status \<Rightarrow> bool" where
  "ShippingStatus_IsValid (ShipStatusOther _) = False"
| "ShippingStatus_IsValid _ = True"

definition shipping_status_of_string :: "string \<Rightarrow> shipping_status" where
  "shipping_status_of_string s =
     (if s = ''pending'' then ShipPending
      else if s = ''shipped'' then ShipShipped
      else if s = ''delivered'' then ShipDelivered
      else if s = ''cancelled'' then ShipCancelled
      else ShipStatusOther s)"

datatype shipping_method = MethodFlatRate | MethodWeightBased | MethodFreeShipping | ShipMethodOther string

fun ShippingMethod_IsValid :: "shipping_method \<Rightarrow> bool" where
  "ShippingMethod_IsValid (ShipMethodOther _) = False"
| "ShippingMethod_IsValid _ = True"

definition shipping_method_of_string :: "string \<Rightarrow> shipping_method" where
  "shipping_method_of_string s =
     (if s = ''flat_rate'' then MethodFlatRate
      else if s = ''weight_based'' then MethodWeightBased
      else if s = ''free_shipping'' then MethodFreeShipping
      else ShipMethodOther s)"

fun shipping_method_string :: "shipping_method \<Rightarrow> string" where
  "shipping_method_string MethodFlatRate = ''flat_rate''"
| "shipping_method_string MethodWeightBased = ''weight_based''"
| "shipping_method_string MethodFreeShipping = ''free_shipping''"
| "shipping_method_string (ShipMethodOther s) = s"

record shipment =
  s_ID :: string
  s_OrderID :: string
  s_Method :: shipping_method
  s_status :: shipping_status
  s_Cost :: money
  s_TrackingNumber :: string
  s_ProviderRef :: string
  s_CreatedAt :: gotime
  s_UpdatedAt :: gotime

definition NewShipment ::
    "gotime \<Rightarrow> string \<Rightarrow> string \<Rightarrow> shipping_method \<Rightarrow> money \<Rightarrow> shipment outcome" where
  "NewShipment now shipID orderID meth cost =
     (if shipID = [] then Fail (Err ''shipping: id must not be empty'')
      else if orderID = [] then Fail (Err ''shipping: order id must not be empty'')
      else if \<not> ShippingMethod_IsValid meth then Fail (Err ''shipping: invalid shipping method'')
      else if m_amount cost <s 0 then Fail (Err ''shipping: cost must not be negative'')
      else Ok \<lparr>s_ID = shipID, s_OrderID = orderID, s_Method = meth, s_status = ShipPending,
               s_Cost = cost, s_TrackingNumber = [], s_ProviderRef = [],
               s_CreatedAt = now, s_UpdatedAt = now\<rparr>)"

definition Ship :: "gotime \<Rightarrow> shipment \<Rightarrow> string \<Rightarrow> string \<Rightarrow> shipment outcome" where
  "Ship now s trackingNumber providerRef =
     (if s_status s \<noteq> ShipPending then Fail (Err ''shipping: can only ship a pending shipment'')
      else Ok (s\<lparr>s_status := ShipShipped, s_TrackingNumber := trackingNumber,
                 s_ProviderRef := providerRef, s_UpdatedAt := now\<rparr>))"

definition Deliver :: "gotime \<Rightarrow> shipment \<Rightarrow> shipment outcome" where
  "Deliver now s =
     (if s_status s \<noteq> ShipShipped then Fail (Err ''shipping: can only deliver a shipped shipment'')
      else Ok (s\<lparr>s_status := ShipDelivered, s_UpdatedAt := now\<rparr>))"

definition Shipment_Cancel :: "gotime \<Rightarrow> shipment \<Rightarrow> shipment outcome" where
  "Shipment_Cancel now s =
     (if s_status s \<noteq> ShipPending then Fail (Err ''shipping: can only cancel a pending shipment'')
      else Ok (s\<lparr>s_status := ShipCancelled, s_UpdatedAt := now\<rparr>))"

definition Shipment_setStatusFromDB :: "shipment \<Rightarrow> string \<Rightarrow> shipment outcome" where
  "Shipment_setStatusFromDB s st =
     (if \<not> ShippingStatus_IsValid (shipping_status_of_string st)
      then Fail (ErrWith ''shipping: invalid status from db: '' [st])
      else Ok (s\<lparr>s_status := shipping_status_of_string st\<rparr>))"

definition NewShipmentFromDB ::
    "string \<Rightarrow> string \<Rightarrow> shipping_method \<Rightarrow> string \<Rightarrow> money \<Rightarrow> string \<Rightarrow> string \<Rightarrow> gotime \<Rightarrow> gotime \<Rightarrow>
     shipment outcome" where
  "NewShipmentFromDB shipID orderID meth status cost trackingNumber providerRef createdAt updatedAt =
     (let st = shipping_status_of_string status in
      if \<not> ShippingStatus_IsValid st then Fail (ErrWith ''shipping: invalid status from db: '' [status])
      else if \<not> ShippingMethod_IsValid meth
        then Fail (ErrWith ''shipping: invalid method from db: '' [shipping_method_string meth])
      else Ok \<lparr>s_ID = shipID, s_OrderID = orderID, s_Method = meth, s_status = st, s_Cost = cost,
               s_TrackingNumber = trackingNumber, s_ProviderRef = providerRef,
               s_CreatedAt = createdAt, s_UpdatedAt = updatedAt\<rparr>)"

section \<open>The provider registry\<close>

record 'p shipping_registry =
  sr_providers :: "shipping_method \<Rightarrow> 'p option"
  sr_order :: "shipping_method list"

definition NewShippingRegistry :: "'p shipping_registry" where
  "NewShippingRegistry = \<lparr>sr_providers = (\<lambda>_. None), sr_order = []\<rparr>"

definition ShippingRegistry_Register ::
    "('p \<Rightarrow> shipping_method) \<Rightarrow> 'p option \<Rightarrow> 'p shipping_registry option \<Rightarrow>
     'p shipping_registry outcome" where
  "ShippingRegistry_Register smeth prov reg =
     (case reg of
        None \<Rightarrow> Panics ''shipping: registry must not be nil''
      | Some r \<Rightarrow>
        (case prov of
           None \<Rightarrow> Panics ''shipping: provider must not be nil''
         | Some p \<Rightarrow>
             if smeth p = ShipMethodOther [] \<or> \<not> ShippingMethod_IsValid (smeth p)
             then Panics ''shipping: invalid provider method''
             else if sr_providers r (smeth p) \<noteq> None
             then Panics ''shipping: provider already registered for method''
             else Ok (r\<lparr>sr_providers := (sr_providers r)(smeth p \<mapsto> p),
                        sr_order := sr_order r @ [smeth p]\<rparr>)))"

definition ShippingRegistry_Get ::
    "'p shipping_registry option \<Rightarrow> shipping_method \<Rightarrow> 'p option" where
  "ShippingRegistry_Get reg meth =
     (case reg of None \<Rightarrow> None | Some r \<Rightarrow> sr_providers r meth)"

text \<open>\<open>out\<close> gets the map's value for each listed method, nil (\<open>None\<close>) if it has none.\<close>

definition ShippingRegistry_Providers :: "'p shipping_registry option \<Rightarrow> 'p option list" where
  "ShippingRegistry_Providers reg =
     (case reg of None \<Rightarrow> [] | Some r \<Rightarrow> map (sr_providers r) (sr_order r))"

definition ShippingRegistry_Len :: "'p shipping_registry option \<Rightarrow> nat" where
  "ShippingRegistry_Len reg = (case reg of None \<Rightarrow> 0 | Some r \<Rightarrow> length (sr_order r))"

definition ShippingRegistry_DefaultMethod :: "'p shipping_registry option \<Rightarrow> shipping_method" where
  "ShippingRegistry_DefaultMethod reg =
     (case reg of
        None \<Rightarrow> ShipMethodOther []
      | Some r \<Rightarrow>
          if sr_order r = [] then ShipMethodOther []
          else if sr_providers r MethodFlatRate \<noteq> None then MethodFlatRate
          else hd (sr_order r))"

definition ShippingRegistry_Resolve :: "'p shipping_registry option \<Rightarrow> string \<Rightarrow> 'p outcome" where
  "ShippingRegistry_Resolve reg methodName =
     (if ShippingRegistry_Len reg = 0 then Fail (Err ''shipping: no providers configured'')
      else let m0 = shipping_method_of_string methodName;
               m = (if m0 = ShipMethodOther [] then ShippingRegistry_DefaultMethod reg else m0)
           in case ShippingRegistry_Get reg m of
                None \<Rightarrow> Fail (ErrWith ''shipping: method is unavailable'' [methodName])
              | Some p \<Rightarrow> Ok p)"

section \<open>Zones and rates\<close>

record zone =
  z_ID :: string
  z_Name :: string
  z_Countries :: "string list"
  z_Priority :: int64
  z_Active :: bool
  z_FreeShippingThreshold :: money
  z_CreatedAt :: gotime
  z_UpdatedAt :: gotime

fun normalize_countries :: "(string \<Rightarrow> string) \<Rightarrow> string list \<Rightarrow> string list outcome" where
  "normalize_countries uni [] = Ok []"
| "normalize_countries uni (c # cs) =
     (if length c \<noteq> 2 then Fail (ErrWith ''shipping: country code must be 2 characters: '' [c])
      else bindO (normalize_countries uni cs) (\<lambda>ns. Ok (go_to_upper uni c # ns)))"

definition NewZone ::
    "(string \<Rightarrow> string) \<Rightarrow> gotime \<Rightarrow> string \<Rightarrow> string \<Rightarrow> string list \<Rightarrow> int64 \<Rightarrow> zone outcome" where
  "NewZone uni now zoneID name countries priority =
     (if zoneID = [] then Fail (Err ''shipping: zone id must not be empty'')
      else if name = [] then Fail (Err ''shipping: zone name must not be empty'')
      else if countries = [] then Fail (Err ''shipping: zone must have at least one country'')
      else bindO (normalize_countries uni countries) (\<lambda>normalized.
        Ok \<lparr>z_ID = zoneID, z_Name = name, z_Countries = normalized, z_Priority = priority,
            z_Active = True, z_FreeShippingThreshold = money_zero_value,
            z_CreatedAt = now, z_UpdatedAt = now\<rparr>))"

record 'w rate_tier =
  rt_ID :: string
  rt_ZoneID :: string
  rt_MinWeight :: 'w
  rt_MaxWeight :: 'w
  rt_Price :: money

text \<open>\<open>lt\<close> is \<open><\<close> on \<open>float64\<close> and \<open>z\<close> the constant 0.\<close>

definition NewRateTier ::
    "('w \<Rightarrow> 'w \<Rightarrow> bool) \<Rightarrow> 'w \<Rightarrow> string \<Rightarrow> string \<Rightarrow> 'w \<Rightarrow> 'w \<Rightarrow> money \<Rightarrow> 'w rate_tier outcome" where
  "NewRateTier lt z tierID zoneID minWeight maxWeight price =
     (if tierID = [] then Fail (Err ''shipping: rate tier id must not be empty'')
      else if zoneID = [] then Fail (Err ''shipping: rate tier zone id must not be empty'')
      else if lt minWeight z then Fail (Err ''shipping: min weight must not be negative'')
      else if lt maxWeight z then Fail (Err ''shipping: max weight must not be negative'')
      else if lt z maxWeight \<and> lt maxWeight minWeight
        then Fail (Err ''shipping: max weight must be >= min weight'')
      else if m_amount price <s 0 then Fail (Err ''shipping: price must not be negative'')
      else Ok \<lparr>rt_ID = tierID, rt_ZoneID = zoneID, rt_MinWeight = minWeight,
               rt_MaxWeight = maxWeight, rt_Price = price\<rparr>)"

definition zoneContainsCountry :: "zone \<Rightarrow> string \<Rightarrow> bool" where
  "zoneContainsCountry z country \<longleftrightarrow> list_ex (\<lambda>c. c = country) (z_Countries z)"

text \<open>The loop of \<open>resolveZone\<close>; the accumulator is \<open>best\<close>, nil as \<open>None\<close>.\<close>

fun resolve_zone_from :: "string \<Rightarrow> zone option \<Rightarrow> zone list \<Rightarrow> zone option" where
  "resolve_zone_from country best [] = best"
| "resolve_zone_from country best (z # zs) =
     (if \<not> z_Active z then resolve_zone_from country best zs
      else if \<not> zoneContainsCountry z country then resolve_zone_from country best zs
      else if (case best of None \<Rightarrow> True | Some b \<Rightarrow> z_Priority b <s z_Priority z)
      then resolve_zone_from country (Some z) zs
      else resolve_zone_from country best zs)"

definition resolveZone :: "zone list \<Rightarrow> string \<Rightarrow> zone option" where
  "resolveZone zones country = resolve_zone_from country None zones"

fun match_tier_from ::
    "('w \<Rightarrow> 'w \<Rightarrow> bool) \<Rightarrow> 'w \<Rightarrow> 'w \<Rightarrow> 'w rate_tier option \<Rightarrow> 'w rate_tier list \<Rightarrow> 'w rate_tier option" where
  "match_tier_from lt z weight best [] = best"
| "match_tier_from lt z weight best (t # ts) =
     (if lt weight (rt_MinWeight t) then match_tier_from lt z weight best ts
      else if lt z (rt_MaxWeight t) \<and> lt (rt_MaxWeight t) weight then match_tier_from lt z weight best ts
      else if (case best of None \<Rightarrow> True | Some b \<Rightarrow> lt (rt_MinWeight b) (rt_MinWeight t))
      then match_tier_from lt z weight (Some t) ts
      else match_tier_from lt z weight best ts)"

definition matchTier ::
    "('w \<Rightarrow> 'w \<Rightarrow> bool) \<Rightarrow> 'w \<Rightarrow> 'w rate_tier list \<Rightarrow> 'w \<Rightarrow> 'w rate_tier option" where
  "matchTier lt z tiers weight = match_tier_from lt z weight None tiers"

record 'w rate_request_item =
  rri_Weight :: 'w
  rri_Quantity :: int64

text \<open>\<open>fplus\<close> is floating-point \<open>+\<close>, \<open>fscale w q\<close> is \<open>w * float64(q)\<close>.\<close>

fun sum_weights_from ::
    "('w \<Rightarrow> 'w \<Rightarrow> 'w) \<Rightarrow> ('w \<Rightarrow> int64 \<Rightarrow> 'w) \<Rightarrow> 'w \<Rightarrow> 'w rate_request_item list \<Rightarrow> 'w" where
  "sum_weights_from fplus fscale acc [] = acc"
| "sum_weights_from fplus fscale acc (i # is) =
     sum_weights_from fplus fscale (fplus acc (fscale (rri_Weight i) (rri_Quantity i))) is"

record 'w rate_request =
  rr_Country :: string
  rr_Currency :: string
  rr_Items :: "'w rate_request_item list"
  rr_Subtotal :: money

record shipping_rate =
  sra_ProviderRef :: string
  sra_Cost :: money
  sra_Label :: string

definition qualifiesForFreeShipping ::
    "(string \<Rightarrow> string \<Rightarrow> bool) \<Rightarrow> zone \<Rightarrow> money \<Rightarrow> string \<Rightarrow> bool" where
  "qualifiesForFreeShipping ufold z subtotal currency =
     (if m_amount (z_FreeShippingThreshold z) \<le>s 0 then False
      else if \<not> go_equal_fold ufold (m_currency (z_FreeShippingThreshold z)) currency then False
      else if \<not> go_equal_fold ufold (m_currency subtotal) currency then False
      else m_amount (z_FreeShippingThreshold z) \<le>s m_amount subtotal)"

text \<open>
  \<open>list_zones\<close> and \<open>list_tiers\<close> are the repository; \<open>wfmt\<close> prints a weight.
\<close>

definition CalculateRate ::
    "(string \<Rightarrow> string) \<Rightarrow> (string \<Rightarrow> string \<Rightarrow> bool) \<Rightarrow> ('w \<Rightarrow> 'w \<Rightarrow> bool) \<Rightarrow> 'w \<Rightarrow> ('w \<Rightarrow> 'w \<Rightarrow> 'w) \<Rightarrow>
     ('w \<Rightarrow> int64 \<Rightarrow> 'w) \<Rightarrow> ('w \<Rightarrow> string) \<Rightarrow> zone list outcome \<Rightarrow> (string \<Rightarrow> 'w rate_tier list outcome) \<Rightarrow>
     'w rate_request \<Rightarrow> shipping_rate list outcome" where
  "CalculateRate uni ufold lt z fplus fscale wfmt list_zones list_tiers req =
     (if rr_Country req = [] then Fail (Err ''shipping: country is required'')
      else if rr_Currency req = [] then Fail (Err ''shipping: currency is required'')
      else
        let country = go_to_upper uni (rr_Country req);
            currency = go_to_upper uni (rr_Currency req) in
        bindO (mapErr (Wrap ''shipping: list zones'') list_zones) (\<lambda>zones.
        case resolveZone zones country of
          None \<Rightarrow> Fail (ErrWith ''shipping: no zone available for country '' [country])
        | Some zn \<Rightarrow>
            let totalWeight = sum_weights_from fplus fscale z (rr_Items req) in
            bindO (mapErr (Wrap ''shipping: list rate tiers'') (list_tiers (z_ID zn))) (\<lambda>tiers.
            case matchTier lt z tiers totalWeight of
              None \<Rightarrow> Fail (ErrWith ''shipping: no rate tier for weight '' [wfmt totalWeight])
            | Some tier \<Rightarrow>
                if \<not> go_equal_fold ufold (m_currency (rt_Price tier)) currency
                then Fail (ErrWith ''shipping: rate currency does not match requested ''
                             [m_currency (rt_Price tier), currency])
                else
                  let rates = [\<lparr>sra_ProviderRef = ''zone:'' @ z_ID zn @ '':tier:'' @ rt_ID tier,
                                sra_Cost = rt_Price tier,
                                sra_Label = z_Name zn @ '' Shipping''\<rparr>] in
                  if qualifiesForFreeShipping ufold zn (rr_Subtotal req) currency
                  then bindO (MustZero currency) (\<lambda>free.
                    Ok (rates @ [\<lparr>sra_ProviderRef = ''zone:'' @ z_ID zn @ '':free'',
                          sra_Cost = free,
                          sra_Label = ''Free shipping (orders over '' @
                            go_itoa (m_amount (z_FreeShippingThreshold zn)) @ '' '' @
                            m_currency (z_FreeShippingThreshold zn) @ '')''\<rparr>]))
                  else Ok rates)))"

section \<open>The shipment status service\<close>

abbreviation ErrOrderIDRequired :: gerror where
  "ErrOrderIDRequired \<equiv> Err ''order id must not be empty''"
abbreviation ErrTrackingRequired :: gerror where
  "ErrTrackingRequired \<equiv> Err ''tracking number must not be empty''"
abbreviation ErrTrackingAmendNotSupported :: gerror where
  "ErrTrackingAmendNotSupported \<equiv> Err ''tracking amend not supported''"
abbreviation ErrOrderNotFulfillable :: gerror where
  "ErrOrderNotFulfillable \<equiv> Err ''order cannot be fulfilled''"

text \<open>
  The service's collaborators: the shipment repository's two operations, the order lookup
  (\<open>None\<close> when it is not configured) and whether an event bus is configured.
\<close>

record ship_env =
  se_find :: "string \<Rightarrow> gerror + shipment option"
  se_update :: "shipment \<Rightarrow> gotime \<Rightarrow> gerror option"
  se_orders :: "(string \<Rightarrow> gerror + order option) option"
  se_bus :: bool

text \<open>
  The trace of effects: writes of a shipment (with the \<open>updated_at\<close> they require the
  row to have) and published events (name, shipment, old and new status).
\<close>

datatype ship_effect =
    ShipWrite shipment gotime
  | ShipEvent string shipment shipping_status shipping_status

record ship_result =
  sres_Shipment :: "shipment option"
  sres_PreviousStatus :: shipping_status
  sres_Changed :: bool

text \<open>The zero value \<open>StatusResult{}\<close>.\<close>

definition ship_result_zero :: ship_result where
  "ship_result_zero =
     \<lparr>sres_Shipment = None, sres_PreviousStatus = ShipStatusOther [], sres_Changed = False\<rparr>"

type_synonym ship_reply = "ship_result \<times> gerror option \<times> ship_effect list"

definition FindByOrderID :: "ship_env \<Rightarrow> string \<Rightarrow> gerror + shipment" where
  "FindByOrderID env orderID0 =
     (let orderID = trim_space orderID0 in
      if orderID = [] then Inl (AppWrap Validation (err_text ErrOrderIDRequired) ErrOrderIDRequired)
      else case se_find env orderID of
        Inl e \<Rightarrow> Inl e
      | Inr None \<Rightarrow> Inl (AppErr NotFound ''shipment not found'')
      | Inr (Some sh) \<Rightarrow> Inr sh)"

definition sameShippedIdentity :: "string \<Rightarrow> string \<Rightarrow> string \<Rightarrow> string \<Rightarrow> bool" where
  "sameShippedIdentity storedTracking storedProviderRef tracking providerRef =
     (if storedTracking \<noteq> tracking then False
      else if providerRef = [] then True
      else storedProviderRef = providerRef)"

definition requireFulfillableOrder :: "ship_env \<Rightarrow> string \<Rightarrow> gerror option" where
  "requireFulfillableOrder env orderID =
     (case se_orders env of
        None \<Rightarrow> None
      | Some find_order \<Rightarrow>
          (case find_order orderID of
             Inl e \<Rightarrow> Some e
           | Inr None \<Rightarrow> Some (AppErr NotFound ''order not found'')
           | Inr (Some o1) \<Rightarrow>
               if o_status o1 = OrderStatusCancelled \<or> o_status o1 = OrderStatusFailed
               then Some (AppWrap Validation (err_text ErrOrderNotFulfillable) ErrOrderNotFulfillable)
               else None))"

definition publishStatus ::
    "ship_env \<Rightarrow> shipment \<Rightarrow> shipping_status \<Rightarrow> shipping_status \<Rightarrow> ship_effect list" where
  "publishStatus env sh oldStatus newStatus =
     (if \<not> se_bus env then []
      else case newStatus of
        ShipShipped \<Rightarrow> [ShipEvent ''shipment.shipped'' sh oldStatus newStatus]
      | ShipDelivered \<Rightarrow> [ShipEvent ''shipment.delivered'' sh oldStatus newStatus]
      | ShipCancelled \<Rightarrow> [ShipEvent ''shipment.cancelled'' sh oldStatus newStatus]
      | _ \<Rightarrow> [])"

text \<open>The transitions passed in are \<open>Ship\<close>, \<open>Deliver\<close> and \<open>Cancel\<close>, which do not panic.\<close>

definition applyLoaded ::
    "ship_env \<Rightarrow> shipment \<Rightarrow> shipping_status \<Rightarrow> shipping_status \<Rightarrow> (shipment \<Rightarrow> shipment outcome) \<Rightarrow>
     ship_reply" where
  "applyLoaded env sh previous next transition =
     (let unchanged = \<lparr>sres_Shipment = Some sh, sres_PreviousStatus = previous, sres_Changed = False\<rparr> in
      case transition sh of
        Ok working \<Rightarrow>
          (case se_update env working (s_UpdatedAt sh) of
             Some e \<Rightarrow> (unchanged, Some e, [ShipWrite working (s_UpdatedAt sh)])
           | None \<Rightarrow>
               (\<lparr>sres_Shipment = Some working, sres_PreviousStatus = previous, sres_Changed = True\<rparr>,
                None,
                ShipWrite working (s_UpdatedAt sh) # publishStatus env working previous next))
      | Fail e \<Rightarrow> (unchanged, Some (AppErr Validation (err_text e)), [])
      | Panics p \<Rightarrow> (unchanged, Some (Err p), []))"

definition MarkShipped :: "ship_env \<Rightarrow> gotime \<Rightarrow> string \<Rightarrow> string \<Rightarrow> string \<Rightarrow> ship_reply" where
  "MarkShipped env now orderID trackingNumber0 providerRef0 =
     (let trackingNumber = trim_space trackingNumber0;
          providerRef = trim_space providerRef0 in
      if trackingNumber = []
      then (ship_result_zero,
            Some (AppWrap Validation (err_text ErrTrackingRequired) ErrTrackingRequired), [])
      else case FindByOrderID env orderID of
        Inl e \<Rightarrow> (ship_result_zero, Some e, [])
      | Inr sh \<Rightarrow>
          let previous = s_status sh;
              unchanged = \<lparr>sres_Shipment = Some sh, sres_PreviousStatus = previous, sres_Changed = False\<rparr> in
          if previous = ShipShipped then
            if \<not> sameShippedIdentity (s_TrackingNumber sh) (s_ProviderRef sh) trackingNumber providerRef
            then (ship_result_zero,
                  Some (AppWrap Validation (err_text ErrTrackingAmendNotSupported)
                          ErrTrackingAmendNotSupported), [])
            else (case requireFulfillableOrder env orderID of
                Some e \<Rightarrow>
                  if err_is ErrOrderNotFulfillable e then (unchanged, None, [])
                  else (unchanged, Some e, [])
              | None \<Rightarrow> (unchanged, None, publishStatus env sh previous ShipShipped))
          else (case requireFulfillableOrder env orderID of
              Some e \<Rightarrow> (ship_result_zero, Some e, [])
            | None \<Rightarrow> applyLoaded env sh previous ShipShipped
                        (\<lambda>working. Ship now working trackingNumber providerRef)))"

definition MarkDelivered :: "ship_env \<Rightarrow> gotime \<Rightarrow> string \<Rightarrow> ship_reply" where
  "MarkDelivered env now orderID =
     (case FindByOrderID env orderID of
        Inl e \<Rightarrow> (ship_result_zero, Some e, [])
      | Inr sh \<Rightarrow>
          let previous = s_status sh in
          if previous = ShipDelivered
          then (\<lparr>sres_Shipment = Some sh, sres_PreviousStatus = previous, sres_Changed = False\<rparr>, None, [])
          else (case requireFulfillableOrder env orderID of
              Some e \<Rightarrow> (ship_result_zero, Some e, [])
            | None \<Rightarrow> applyLoaded env sh previous ShipDelivered (Deliver now)))"

definition ship_apply_status ::
    "ship_env \<Rightarrow> string \<Rightarrow> shipping_status \<Rightarrow> (shipment \<Rightarrow> shipment outcome) \<Rightarrow> ship_reply" where
  "ship_apply_status env orderID next transition =
     (case FindByOrderID env orderID of
        Inl e \<Rightarrow> (ship_result_zero, Some e, [])
      | Inr sh \<Rightarrow>
          let previous = s_status sh in
          if previous = next
          then (\<lparr>sres_Shipment = Some sh, sres_PreviousStatus = previous, sres_Changed = False\<rparr>, None, [])
          else applyLoaded env sh previous next transition)"

definition ShipService_Cancel :: "ship_env \<Rightarrow> gotime \<Rightarrow> string \<Rightarrow> ship_reply" where
  "ShipService_Cancel env now orderID = ship_apply_status env orderID ShipCancelled (Shipment_Cancel now)"

definition NormalizeStatus ::
    "(string \<Rightarrow> string) \<Rightarrow> (string \<Rightarrow> string) \<Rightarrow> string \<Rightarrow> shipping_status outcome" where
  "NormalizeStatus uni_up uni_low raw0 =
     (let raw = trim_space raw0 in
      if raw = [] then Fail (Err ''empty status'')
      else let up = go_to_upper uni_up raw in
        if up = ''SHIPPED'' \<or> up = ''SHIP'' then Ok ShipShipped
        else if up = ''DELIVERED'' \<or> up = ''DELIVERY'' then Ok ShipDelivered
        else if up = ''CANCELLED'' \<or> up = ''CANCELED'' then Ok ShipCancelled
        else let status = shipping_status_of_string (go_to_lower uni_low raw) in
          if status = ShipShipped \<or> status = ShipDelivered \<or> status = ShipCancelled then Ok status
          else Fail (Err ''invalid status''))"

section \<open>Lemmas\<close>

datatype shipment_op = OpShip gotime string string | OpDeliver gotime | OpCancelShip gotime

fun shipment_apply :: "shipment_op \<Rightarrow> shipment \<Rightarrow> shipment outcome" where
  "shipment_apply (OpShip t n r) s = Ship t s n r"
| "shipment_apply (OpDeliver t) s = Deliver t s"
| "shipment_apply (OpCancelShip t) s = Shipment_Cancel t s"

lemmas shipment_defs = Ship_def Deliver_def Shipment_Cancel_def

fun shipment_edge :: "shipping_status \<Rightarrow> shipping_status \<Rightarrow> bool" where
  "shipment_edge ShipPending ShipShipped = True"
| "shipment_edge ShipPending ShipCancelled = True"
| "shipment_edge ShipShipped ShipDelivered = True"
| "shipment_edge _ _ = False"

fun shipment_rank :: "shipping_status \<Rightarrow> nat" where
  "shipment_rank ShipPending = 0"
| "shipment_rank ShipShipped = 1"
| "shipment_rank _ = 2"

interpretation shipment_life: lifecycle s_status shipment_apply shipment_edge shipment_rank
proof
  show "shipment_apply x p = Ok q \<Longrightarrow> s_status q = s_status p \<or> shipment_edge (s_status p) (s_status q)" for x p q
    by (cases x) (auto simp: shipment_defs split: if_splits)
qed (auto elim: shipment_edge.elims)

text \<open>Once shipped, the tracking data are fixed.\<close>

lemma shipment_apply_tracking:
  "shipment_apply x p = Ok q \<Longrightarrow> s_status p \<in> {ShipShipped, ShipDelivered} \<Longrightarrow>
     s_status q \<in> {ShipShipped, ShipDelivered} \<and>
     s_TrackingNumber q = s_TrackingNumber p \<and> s_ProviderRef q = s_ProviderRef p"
  by (cases x) (auto simp: shipment_defs split: if_splits)

lemma shipment_run_tracking:
  assumes "s_status p \<in> {ShipShipped, ShipDelivered}"
  shows "s_status (run_ops shipment_apply xs p) \<in> {ShipShipped, ShipDelivered} \<and>
    s_TrackingNumber (run_ops shipment_apply xs p) = s_TrackingNumber p \<and>
    s_ProviderRef (run_ops shipment_apply xs p) = s_ProviderRef p"
  by (rule run_ops_induct) (use assms in \<open>auto dest: shipment_apply_tracking\<close>)

interpretation ship_reg: provider_registry
  "\<lambda>p r. ShippingRegistry_Register smeth (Some p) (Some r)" "\<lambda>r. ShippingRegistry_Get (Some r)" sr_order
  smeth ShippingMethod_IsValid NewShippingRegistry for smeth
proof
  show "ShippingRegistry_Register smeth (Some p) (Some r) = Ok r' \<Longrightarrow>
      ShippingMethod_IsValid (smeth p) \<and> ShippingRegistry_Get (Some r) (smeth p) = None \<and>
      sr_order r' = sr_order r @ [smeth p] \<and>
      ShippingRegistry_Get (Some r') m = (if m = smeth p then Some p else ShippingRegistry_Get (Some r) m)"
    for p r r' m
    by (auto simp: ShippingRegistry_Register_def ShippingRegistry_Get_def split: if_splits)
qed (simp_all add: NewShippingRegistry_def ShippingRegistry_Get_def)

text \<open>
  The selection loops of \<open>resolveZone\<close> and \<open>matchTier\<close> have one shape: skip what
  does not qualify, replace the best so far by what is strictly better.
\<close>

locale pick_best =
  fixes ok :: "'a \<Rightarrow> bool"
    and better :: "'a \<Rightarrow> 'a \<Rightarrow> bool"
    and pick :: "'a option \<Rightarrow> 'a list \<Rightarrow> 'a option"
  assumes pick_Nil: "pick b [] = b"
    and pick_Cons: "pick b (x # xs) =
      (if ok x \<and> (case b of None \<Rightarrow> True | Some y \<Rightarrow> better x y) then pick (Some x) xs else pick b xs)"
begin

lemma pick_None_iff: "pick b xs = None \<longleftrightarrow> b = None \<and> (\<forall>x \<in> set xs. \<not> ok x)"
  by (induction xs arbitrary: b) (auto simp: pick_Nil pick_Cons)

lemma pick_member: "pick b xs = Some y \<Longrightarrow> b = Some y \<or> (y \<in> set xs \<and> ok y)"
  by (induction xs arbitrary: b) (auto simp: pick_Nil pick_Cons split: if_splits)

lemma pick_best_of:
  assumes trans: "\<And>x y z. better x y \<Longrightarrow> better y z \<Longrightarrow> better x z" and irrefl: "\<And>x. \<not> better x x"
  shows "pick b xs = Some y \<Longrightarrow> x \<in> set xs \<Longrightarrow> ok x \<Longrightarrow> \<not> better x y"
    and "pick (Some c) xs = Some y \<Longrightarrow> c = y \<or> better y c"
proof -
  have up: "pick (Some c) xs = Some y \<Longrightarrow> c = y \<or> better y c" for c xs
    by (induction xs arbitrary: c) (auto simp: pick_Nil pick_Cons intro: trans split: if_splits)
  then show "pick (Some c) xs = Some y \<Longrightarrow> c = y \<or> better y c" .
  show "pick b xs = Some y \<Longrightarrow> x \<in> set xs \<Longrightarrow> ok x \<Longrightarrow> \<not> better x y"
  proof (induction xs arbitrary: b)
    case (Cons z zs)
    show ?case
    proof (cases "x \<in> set zs")
      case True
      then show ?thesis using Cons by (auto simp: pick_Cons split: if_splits)
    next
      case False
      then have x: "x = z" using Cons.prems(2) by simp
      show ?thesis
      proof (cases "case b of None \<Rightarrow> True | Some c \<Rightarrow> better z c")
        case True
        then have "pick (Some z) zs = Some y" using Cons.prems x by (simp add: pick_Cons)
        from up [OF this] show ?thesis using x trans irrefl by blast
      next
        case no: False
        then obtain c where c: "b = Some c" "\<not> better z c" by (cases b) auto
        then have "pick (Some c) zs = Some y" using Cons.prems x by (simp add: pick_Cons)
        from up [OF this] show ?thesis using x c trans by blast
      qed
    qed
  qed simp
qed

end

interpretation zone_pick: pick_best "\<lambda>z. z_Active z \<and> zoneContainsCountry z country"
  "\<lambda>z b. z_Priority b <s z_Priority z" "resolve_zone_from country" for country
  by unfold_locales (auto split: option.splits)

interpretation tier_pick: pick_best
  "\<lambda>t. \<not> lt weight (rt_MinWeight t) \<and> \<not> (lt z (rt_MaxWeight t) \<and> lt (rt_MaxWeight t) weight)"
  "\<lambda>t b. lt (rt_MinWeight b) (rt_MinWeight t)" "match_tier_from lt z weight" for lt z weight
  by unfold_locales (auto split: option.splits)

lemma resolveZone_best:
  assumes "resolveZone zones country = Some z"
  shows "z \<in> set zones \<and> z_Active z \<and> country \<in> set (z_Countries z) \<and>
    (\<forall>y \<in> set zones. z_Active y \<and> country \<in> set (z_Countries y) \<longrightarrow>
       sint (z_Priority y) \<le> sint (z_Priority z))"
proof -
  have r: "resolve_zone_from country None zones = Some z" using assms by (simp add: resolveZone_def)
  have "z \<in> set zones \<and> z_Active z \<and> country \<in> set (z_Countries z)"
    using zone_pick.pick_member [OF r] by (auto simp: zoneContainsCountry_def list_ex_iff)
  moreover have "\<not> z_Priority z <s z_Priority y"
    if "y \<in> set zones" "z_Active y" "zoneContainsCountry y country" for y
    by (rule zone_pick.pick_best_of(1) [OF _ _ r]) (use that in \<open>auto simp: i64\<close>)
  ultimately show ?thesis by (auto simp: i64 zoneContainsCountry_def list_ex_iff not_less)
qed

lemma resolveZone_None_iff:
  "resolveZone zones country = None \<longleftrightarrow>
     (\<forall>y \<in> set zones. \<not> (z_Active y \<and> country \<in> set (z_Countries y)))"
  by (auto simp: resolveZone_def zone_pick.pick_None_iff zoneContainsCountry_def list_ex_iff)

lemma matchTier_best:
  assumes "matchTier lt z tiers w = Some t" "transp lt" "irreflp lt"
  shows "t \<in> set tiers \<and> \<not> lt w (rt_MinWeight t) \<and> \<not> (lt z (rt_MaxWeight t) \<and> lt (rt_MaxWeight t) w) \<and>
    (\<forall>u \<in> set tiers. \<not> lt w (rt_MinWeight u) \<and> \<not> (lt z (rt_MaxWeight u) \<and> lt (rt_MaxWeight u) w) \<longrightarrow>
       \<not> lt (rt_MinWeight t) (rt_MinWeight u))"
proof -
  have r: "match_tier_from lt z w None tiers = Some t" using assms(1) by (simp add: matchTier_def)
  have "\<not> lt (rt_MinWeight t) (rt_MinWeight u)"
    if "u \<in> set tiers" "\<not> lt w (rt_MinWeight u)" "\<not> (lt z (rt_MaxWeight u) \<and> lt (rt_MaxWeight u) w)" for u
    by (rule tier_pick.pick_best_of(1) [OF _ _ r]) (use that assms(2,3) in \<open>auto dest: transpD irreflpD\<close>)
  then show ?thesis using tier_pick.pick_member [OF r] by auto
qed

section \<open>Properties\<close>

definition demo_shipment :: shipment where
  "demo_shipment = \<lparr>s_ID = ''s1'', s_OrderID = ''o1'', s_Method = MethodFlatRate, s_status = ShipPending,
     s_Cost = \<lparr>m_amount = 499, m_currency = ''EUR''\<rparr>, s_TrackingNumber = [], s_ProviderRef = [],
     s_CreatedAt = 1, s_UpdatedAt = 1\<rparr>"

definition demo_zone :: zone where
  "demo_zone = \<lparr>z_ID = ''z1'', z_Name = ''EU'', z_Countries = [''DE''], z_Priority = 1, z_Active = True,
     z_FreeShippingThreshold = \<lparr>m_amount = 5000, m_currency = ''EUR''\<rparr>, z_CreatedAt = 1, z_UpdatedAt = 1\<rparr>"

text \<open>Over any sequence of operations a shipment's status follows pending to shipped or
  cancelled and shipped to delivered, delivered and cancelled are final, and once it is
  shipped its tracking number and provider reference never change.\<close>

lemma shipment_lifecycle:
  "shipment_edge\<^sup>*\<^sup>* (s_status p) (s_status (run_ops shipment_apply xs p)) \<and>
   (s_status p \<in> {ShipDelivered, ShipCancelled} \<longrightarrow>
      s_status (run_ops shipment_apply xs p) = s_status p) \<and>
   (s_status p \<in> {ShipShipped, ShipDelivered} \<longrightarrow>
      s_TrackingNumber (run_ops shipment_apply xs p) = s_TrackingNumber p \<and>
      s_ProviderRef (run_ops shipment_apply xs p) = s_ProviderRef p)"
proof (intro conjI impI)
  show "shipment_edge\<^sup>*\<^sup>* (s_status p) (s_status (run_ops shipment_apply xs p))"
    by (rule shipment_life.run_edges)
  show "s_status (run_ops shipment_apply xs p) = s_status p" if "s_status p \<in> {ShipDelivered, ShipCancelled}"
    by (rule shipment_life.final_status) (use that in auto)
qed (use shipment_run_tracking in blast)+

lemma shipment_lifecycle_witness:
  "s_TrackingNumber (run_ops shipment_apply [OpShip 2 ''T2'' [], OpDeliver 3]
     (demo_shipment\<lparr>s_status := ShipShipped, s_TrackingNumber := ''T1''\<rparr>)) = ''T1''"
  using shipment_lifecycle [of "demo_shipment\<lparr>s_status := ShipShipped, s_TrackingNumber := ''T1''\<rparr>"
      "[OpShip 2 ''T2'' [], OpDeliver 3]"]
  by (simp del: run_ops.simps)

text \<open>When the zone rate calculator answers, the rate comes from an active zone for the
  country whose priority no other such zone exceeds, and from a tier of that zone that covers
  the weight and whose minimum weight no other covering tier exceeds; a second, free rate is
  offered exactly when the subtotal reaches the zone's positive threshold in the requested
  currency, and it costs zero. The floating-point \<open><\<close> is transitive and irreflexive.\<close>

lemma CalculateRate_correct:
  assumes "CalculateRate uni ufold lt z fplus fscale wfmt (Ok zones) list_tiers req = Ok rates"
    and "transp lt" and "irreflp lt"
  shows "\<exists>zn tiers tier. let country = go_to_upper uni (rr_Country req);
      cur = go_to_upper uni (rr_Currency req); w = sum_weights_from fplus fscale z (rr_Items req) in
    zn \<in> set zones \<and> z_Active zn \<and> country \<in> set (z_Countries zn) \<and>
    (\<forall>y \<in> set zones. z_Active y \<and> country \<in> set (z_Countries y) \<longrightarrow>
       sint (z_Priority y) \<le> sint (z_Priority zn)) \<and>
    list_tiers (z_ID zn) = Ok tiers \<and> tier \<in> set tiers \<and>
    \<not> lt w (rt_MinWeight tier) \<and> \<not> (lt z (rt_MaxWeight tier) \<and> lt (rt_MaxWeight tier) w) \<and>
    (\<forall>u \<in> set tiers. \<not> lt w (rt_MinWeight u) \<and> \<not> (lt z (rt_MaxWeight u) \<and> lt (rt_MaxWeight u) w) \<longrightarrow>
       \<not> lt (rt_MinWeight tier) (rt_MinWeight u)) \<and>
    go_equal_fold ufold (m_currency (rt_Price tier)) cur \<and>
    map sra_Cost rates = rt_Price tier #
      (if 0 < cents (z_FreeShippingThreshold zn) \<and>
          go_equal_fold ufold (m_currency (z_FreeShippingThreshold zn)) cur \<and>
          go_equal_fold ufold (m_currency (rr_Subtotal req)) cur \<and>
          cents (z_FreeShippingThreshold zn) \<le> cents (rr_Subtotal req)
       then [\<lparr>m_amount = 0, m_currency = cur\<rparr>] else [])"
proof -
  define country cur w where "country = go_to_upper uni (rr_Country req)"
    and "cur = go_to_upper uni (rr_Currency req)" and "w = sum_weights_from fplus fscale z (rr_Items req)"
  have free: "qualifiesForFreeShipping ufold y m c \<longleftrightarrow> 0 < cents (z_FreeShippingThreshold y) \<and>
      go_equal_fold ufold (m_currency (z_FreeShippingThreshold y)) c \<and>
      go_equal_fold ufold (m_currency m) c \<and> cents (z_FreeShippingThreshold y) \<le> cents m" for y m c
    by (auto simp: qualifiesForFreeShipping_def i64 not_le)
  have zero: "MustZero cur = Ok fr \<Longrightarrow> fr = \<lparr>m_amount = 0, m_currency = cur\<rparr>" for fr
    by (auto simp: MustZero_def Zero_def split: if_splits)
  obtain zn tiers tier where zn: "resolveZone zones country = Some zn"
    and tiers: "list_tiers (z_ID zn) = Ok tiers" and tier: "matchTier lt z tiers w = Some tier"
    and cur: "go_equal_fold ufold (m_currency (rt_Price tier)) cur"
    and rates: "map sra_Cost rates = rt_Price tier #
      (if qualifiesForFreeShipping ufold zn (rr_Subtotal req) cur
       then [\<lparr>m_amount = 0, m_currency = cur\<rparr>] else [])"
    using assms(1) zero
    by (fastforce simp: CalculateRate_def Let_def country_def [symmetric] cur_def [symmetric] w_def [symmetric]
        split: if_splits option.splits)
  show ?thesis
    using resolveZone_best [OF zn] matchTier_best [OF tier assms(2,3)] tiers cur rates
    unfolding Let_def country_def [symmetric] cur_def [symmetric] w_def [symmetric] free
    by - (rule exI [of _ zn], rule exI [of _ tiers], rule exI [of _ tier], elim conjE, intro conjI, assumption+)
qed

lemma CalculateRate_correct_witness:
  "\<exists>rates. CalculateRate (\<lambda>s. s) (=) (<) (0 :: nat) (+) (\<lambda>w q. w * unat q) (\<lambda>_. []) (Ok [demo_zone])
      (\<lambda>_. Ok [\<lparr>rt_ID = ''t'', rt_ZoneID = ''z1'', rt_MinWeight = 0, rt_MaxWeight = 10,
                rt_Price = \<lparr>m_amount = 499, m_currency = ''EUR''\<rparr>\<rparr>])
      \<lparr>rr_Country = ''DE'', rr_Currency = ''EUR'', rr_Items = [\<lparr>rri_Weight = 2, rri_Quantity = 3\<rparr>],
       rr_Subtotal = \<lparr>m_amount = 6000, m_currency = ''EUR''\<rparr>\<rparr> = Ok rates \<and>
    map sra_Cost rates = [\<lparr>m_amount = 499, m_currency = ''EUR''\<rparr>, \<lparr>m_amount = 0, m_currency = ''EUR''\<rparr>]"
proof -
  have up: "go_to_upper (\<lambda>s. s) ''DE'' = ''DE''" "go_to_upper (\<lambda>s. s) ''EUR'' = ''EUR''"
    by (simp_all add: go_to_upper_upper is_upper_letter_def byte_val_def)
  have eq: "go_equal_fold (=) s s" for s by (simp add: go_equal_fold_def)
  obtain rates where r: "CalculateRate (\<lambda>s. s) (=) (<) (0 :: nat) (+) (\<lambda>w q. w * unat q) (\<lambda>_. []) (Ok [demo_zone])
      (\<lambda>_. Ok [\<lparr>rt_ID = ''t'', rt_ZoneID = ''z1'', rt_MinWeight = 0, rt_MaxWeight = 10,
                rt_Price = \<lparr>m_amount = 499, m_currency = ''EUR''\<rparr>\<rparr>])
      \<lparr>rr_Country = ''DE'', rr_Currency = ''EUR'', rr_Items = [\<lparr>rri_Weight = 2, rri_Quantity = 3\<rparr>],
       rr_Subtotal = \<lparr>m_amount = 6000, m_currency = ''EUR''\<rparr>\<rparr> = Ok rates"
    by (simp add: CalculateRate_def resolveZone_def demo_zone_def zoneContainsCountry_def matchTier_def
        qualifiesForFreeShipping_def up eq MustZero_def Zero_def Let_def i64)
  from CalculateRate_correct [OF r] show ?thesis
    using r by (auto simp: Let_def demo_zone_def up eq)
qed

text \<open>C37: \<open>MarkShipped\<close> reports a change only for a pending shipment with a non-empty
  tracking number, of an order that is not cancelled or failed (when orders are configured),
  written under the version it was read with; a call on a shipped shipment writes nothing, and
  every shipment.shipped event it publishes carries the shipment as stored.\<close>

theorem MarkShipped_correct:
  assumes "MarkShipped env now oid tracking ref = (res, err, effs)"
  shows "(sres_Changed res \<longrightarrow>
      (\<exists>sh sh'. se_find env (trim_space oid) = Inr (Some sh) \<and> s_status sh = ShipPending \<and>
         sh' = sh\<lparr>s_status := ShipShipped, s_TrackingNumber := trim_space tracking,
                  s_ProviderRef := trim_space ref, s_UpdatedAt := now\<rparr> \<and>
         trim_space tracking \<noteq> [] \<and> sres_Shipment res = Some sh' \<and> err = None \<and>
         se_update env sh' (s_UpdatedAt sh) = None \<and> hd effs = ShipWrite sh' (s_UpdatedAt sh) \<and>
         (\<forall>look. se_orders env = Some look \<longrightarrow>
            (\<exists>o1. look oid = Inr (Some o1) \<and> o_status o1 \<notin> {OrderStatusCancelled, OrderStatusFailed})))) \<and>
    (\<forall>sh. se_find env (trim_space oid) = Inr (Some sh) \<and> s_status sh \<noteq> ShipPending \<longrightarrow>
      \<not> sres_Changed res \<and> (\<forall>s t. ShipWrite s t \<notin> set effs)) \<and>
    (\<forall>n sh old new. ShipEvent n sh old new \<in> set effs \<longrightarrow>
      n = ''shipment.shipped'' \<and> sres_Shipment res = Some sh \<and> s_status sh = ShipShipped \<and> err = None)"
  using assms
  by (auto simp: MarkShipped_def Let_def FindByOrderID_def applyLoaded_def Ship_def publishStatus_def
      ship_result_zero_def requireFulfillableOrder_def
      split: if_splits sum.splits option.splits)

theorem MarkShipped_correct_witness:
  "\<exists>res effs. MarkShipped \<lparr>se_find = (\<lambda>_. Inr (Some demo_shipment)), se_update = (\<lambda>_ _. None),
       se_orders = Some (\<lambda>_. Inr (Some demo_order)), se_bus = True\<rparr> 5 ''o1'' ''c1'' [] = (res, None, effs) \<and>
     sres_Changed res \<and> hd effs =
       ShipWrite (demo_shipment\<lparr>s_status := ShipShipped, s_TrackingNumber := ''c1'', s_UpdatedAt := 5\<rparr>) 1"
proof -
  let ?env = "\<lparr>se_find = (\<lambda>_. Inr (Some demo_shipment)), se_update = (\<lambda>_ _. None),
       se_orders = Some (\<lambda>_. Inr (Some demo_order)), se_bus = True\<rparr>"
  have o1: "trim_space ''o1'' = ''o1''"
    by (simp add: trim_space_def trim_left_def trim_right_def trim_codes.simps space_codes_def)
  obtain res effs where r: "MarkShipped ?env 5 ''o1'' ''c1'' [] = (res, None, effs)" and "sres_Changed res"
    by (simp add: MarkShipped_def FindByOrderID_def requireFulfillableOrder_def applyLoaded_def Ship_def o1
        demo_shipment_def demo_order_def Let_def)
  then show ?thesis
    using MarkShipped_correct [OF r] by (auto simp: demo_shipment_def)
qed

end
