(* ===== verification/Invoices.thy ===== *)
theory Invoices
  imports Orders
begin

text \<open>
  Invoices and credit notes (\<open>internal/domain/invoice/invoice.go\<close>, \<open>item.go\<close>,
  \<open>credit_note.go\<close>) and the service that invoices a paid order
  (\<open>internal/application/invoice/service.go\<close>). Repositories, the PDF renderer and the
  storage are arguments.
\<close>

section \<open>Lines\<close>

record invoice_item =
  ii_VariantID :: string
  ii_SKU :: string
  ii_Name :: string
  ii_Quantity :: int64
  ii_UnitPrice :: money

definition validateItemFields :: "string \<Rightarrow> string \<Rightarrow> string \<Rightarrow> int64 \<Rightarrow> money \<Rightarrow> unit outcome" where
  "validateItemFields variantID sku name quantity unitPrice =
     (if variantID = [] then Fail (Err ''invoice item: variant id must not be empty'')
      else if sku = [] then Fail (Err ''invoice item: sku must not be empty'')
      else if name = [] then Fail (Err ''invoice item: name must not be empty'')
      else if quantity \<le>s 0 then Fail (Err ''invoice item: quantity must be positive'')
      else if IsNegative unitPrice then Fail (Err ''invoice item: unit price must be non-negative'')
      else Ok ())"

definition NewInvoiceItem ::
    "string \<Rightarrow> string \<Rightarrow> string \<Rightarrow> int64 \<Rightarrow> money \<Rightarrow> invoice_item outcome" where
  "NewInvoiceItem variantID sku name quantity unitPrice =
     bindO (validateItemFields variantID sku name quantity unitPrice) (\<lambda>_.
     Ok \<lparr>ii_VariantID = variantID, ii_SKU = sku, ii_Name = name, ii_Quantity = quantity,
         ii_UnitPrice = unitPrice\<rparr>)"

definition InvoiceItem_Validate :: "invoice_item \<Rightarrow> string \<Rightarrow> unit outcome" where
  "InvoiceItem_Validate it currency =
     bindO (validateItemFields (ii_VariantID it) (ii_SKU it) (ii_Name it) (ii_Quantity it)
              (ii_UnitPrice it)) (\<lambda>_.
     if m_currency (ii_UnitPrice it) \<noteq> currency
     then Fail (Err ''invoice item: currency mismatch'') else Ok ())"

definition InvoiceItem_LineTotal :: "invoice_item \<Rightarrow> money outcome" where
  "InvoiceItem_LineTotal it = MulChecked (ii_UnitPrice it) (ii_Quantity it)"

fun subtotal_from :: "string \<Rightarrow> money \<Rightarrow> invoice_item list \<Rightarrow> money outcome" where
  "subtotal_from currency acc [] = Ok acc"
| "subtotal_from currency acc (i # is) =
     (if m_currency (ii_UnitPrice i) \<noteq> currency
      then Fail (ErrWith ''invoice: item currency does not match''
                   [ii_VariantID i, m_currency (ii_UnitPrice i), currency])
      else bindO (InvoiceItem_LineTotal i) (\<lambda>lt.
           bindO (AddChecked acc lt) (\<lambda>acc'. subtotal_from currency acc' is)))"

definition computeSubtotal :: "invoice_item list \<Rightarrow> string \<Rightarrow> money outcome" where
  "computeSubtotal items currency = bindO (Zero currency) (\<lambda>z. subtotal_from currency z items)"

section \<open>Invoices\<close>

datatype invoice_status = InvoiceStatusIssued | InvoiceStatusOther string

definition InvoiceStatus_IsValid :: "invoice_status \<Rightarrow> bool" where
  "InvoiceStatus_IsValid s \<longleftrightarrow> s = InvoiceStatusIssued"

definition invoice_status_of_string :: "string \<Rightarrow> invoice_status" where
  "invoice_status_of_string s =
     (if s = ''issued'' then InvoiceStatusIssued else InvoiceStatusOther s)"

record invoice =
  inv_id :: string
  inv_number :: int64
  inv_orderID :: string
  inv_customerID :: string
  inv_status :: invoice_status
  inv_currency :: string
  inv_items :: "invoice_item list"
  inv_subtotal :: money
  inv_tax :: money
  inv_total :: money
  inv_createdAt :: gotime

fun validate_items :: "string \<Rightarrow> invoice_item list \<Rightarrow> unit outcome" where
  "validate_items currency [] = Ok ()"
| "validate_items currency (i # is) =
     bindO (mapErr (Wrap ''invoice: invalid item'') (InvoiceItem_Validate i currency)) (\<lambda>_.
     validate_items currency is)"

definition NewInvoice ::
    "gotime \<Rightarrow> string \<Rightarrow> string \<Rightarrow> string \<Rightarrow> string \<Rightarrow> invoice_item list \<Rightarrow> money \<Rightarrow> invoice outcome" where
  "NewInvoice now invID orderID customerID currency items taxAmount =
     (if invID = [] then Fail (Err ''invoice: id must not be empty'')
      else if orderID = [] then Fail (Err ''invoice: order id must not be empty'')
      else if \<not> IsValidCurrency currency then Fail (Err ''invoice: invalid currency code'')
      else if items = [] then Fail (Err ''invoice: must contain at least one item'')
      else if m_currency taxAmount \<noteq> currency then Fail (Err ''invoice: tax amount currency mismatch'')
      else if IsNegative taxAmount then Fail (Err ''invoice: tax amount must be non-negative'')
      else bindO (validate_items currency items) (\<lambda>_.
        bindO (computeSubtotal items currency) (\<lambda>subtotal.
        bindO (mapErr (\<lambda>_. Err ''invoice: total overflow'') (AddChecked subtotal taxAmount)) (\<lambda>tot.
        Ok \<lparr>inv_id = invID, inv_number = 0, inv_orderID = orderID, inv_customerID = customerID,
            inv_status = InvoiceStatusIssued, inv_currency = currency, inv_items = items,
            inv_subtotal = subtotal, inv_tax = taxAmount, inv_total = tot, inv_createdAt = now\<rparr>))))"

definition NewInvoiceFromDB ::
    "string \<Rightarrow> int64 \<Rightarrow> string \<Rightarrow> string \<Rightarrow> string \<Rightarrow> money \<Rightarrow> money \<Rightarrow> money \<Rightarrow> gotime \<Rightarrow> invoice" where
  "NewInvoiceFromDB invID number orderID customerID currency subtotal tax tot createdAt =
     \<lparr>inv_id = invID, inv_number = number, inv_orderID = orderID, inv_customerID = customerID,
      inv_status = InvoiceStatusOther [], inv_currency = currency, inv_items = [],
      inv_subtotal = subtotal, inv_tax = tax, inv_total = tot, inv_createdAt = createdAt\<rparr>"

definition SetInvoiceNumberFromDB :: "invoice \<Rightarrow> int64 \<Rightarrow> invoice" where
  "SetInvoiceNumberFromDB iv n = iv\<lparr>inv_number := n\<rparr>"

definition Invoice_SetStatusFromDB :: "invoice \<Rightarrow> string \<Rightarrow> invoice outcome" where
  "Invoice_SetStatusFromDB iv s =
     (if \<not> InvoiceStatus_IsValid (invoice_status_of_string s)
      then Fail (ErrWith ''invoice: invalid status from db: '' [s])
      else Ok (iv\<lparr>inv_status := invoice_status_of_string s\<rparr>))"

text \<open>The deferred \<open>recover\<close> turns the panic of a currency mismatch into an error.\<close>

definition header_total :: "money \<Rightarrow> money \<Rightarrow> money outcome" where
  "header_total subtotal tax =
     (case AddChecked subtotal tax of
        Ok t \<Rightarrow> Ok t
      | Fail e \<Rightarrow> Fail (Err ''invoice: header total overflow during validation'')
      | Panics p \<Rightarrow> Fail (ErrWith ''invoice: SetItemsFromDB: subtotal.AddChecked panicked: '' [p]))"

definition Invoice_SetItemsFromDB :: "invoice \<Rightarrow> invoice_item list \<Rightarrow> invoice outcome" where
  "Invoice_SetItemsFromDB iv items =
     (if items = [] then Fail (Err ''invoice: items must not be empty'')
      else bindO (validate_items (inv_currency iv) items) (\<lambda>_.
        bindO (computeSubtotal items (inv_currency iv)) (\<lambda>subtotal.
        if \<not> Equal subtotal (inv_subtotal iv)
        then Fail (Err ''invoice: items subtotal does not match invoice header'')
        else bindO (header_total subtotal (inv_tax iv)) (\<lambda>expectedTotal.
          if \<not> Equal expectedTotal (inv_total iv)
          then Fail (Err ''invoice: subtotal + tax does not equal total'')
          else Ok (iv\<lparr>inv_items := items\<rparr>)))))"

section \<open>Credit notes\<close>

record credit_note =
  cn_ID :: string
  cn_CreditNoteNumber :: int64
  cn_InvoiceID :: string
  cn_OrderID :: string
  cn_CustomerID :: string
  cn_Reason :: string
  cn_Currency :: string
  cn_items :: "invoice_item list"
  cn_SubtotalAmount :: money
  cn_TaxAmount :: money
  cn_TotalAmount :: money
  cn_CreatedAt :: gotime

definition NewCreditNote ::
    "gotime \<Rightarrow> string \<Rightarrow> string \<Rightarrow> string \<Rightarrow> string \<Rightarrow> string \<Rightarrow> string \<Rightarrow> invoice_item list \<Rightarrow> money \<Rightarrow>
     credit_note outcome" where
  "NewCreditNote now noteID invoiceID orderID customerID reason currency items taxAmount =
     (if noteID = [] then Fail (Err ''credit note: id must not be empty'')
      else if invoiceID = [] then Fail (Err ''credit note: invoice id must not be empty'')
      else if orderID = [] then Fail (Err ''credit note: order id must not be empty'')
      else if customerID = [] then Fail (Err ''credit note: customer id must not be empty'')
      else if reason = [] then Fail (Err ''credit note: reason must not be empty'')
      else if \<not> IsValidCurrency currency then Fail (Err ''credit note: invalid currency code'')
      else if items = [] then Fail (Err ''credit note: must contain at least one item'')
      else if m_currency taxAmount \<noteq> currency
        then Fail (Err ''credit note: tax amount currency mismatch'')
      else if IsNegative taxAmount then Fail (Err ''credit note: tax amount must be non-negative'')
      else if list_ex (\<lambda>i. m_currency (ii_UnitPrice i) \<noteq> currency) items
        then Fail (Err ''credit note: item currency mismatch'')
      else bindO (computeSubtotal items currency) (\<lambda>subtotal.
        bindO (mapErr (\<lambda>_. Err ''credit note: total overflow'') (AddChecked subtotal taxAmount)) (\<lambda>tot.
        Ok \<lparr>cn_ID = noteID, cn_CreditNoteNumber = 0, cn_InvoiceID = invoiceID, cn_OrderID = orderID,
            cn_CustomerID = customerID, cn_Reason = reason, cn_Currency = currency,
            cn_items = items, cn_SubtotalAmount = subtotal, cn_TaxAmount = taxAmount,
            cn_TotalAmount = tot, cn_CreatedAt = now\<rparr>)))"

definition CreditNote_SetItemsFromDB :: "credit_note \<Rightarrow> invoice_item list \<Rightarrow> credit_note outcome" where
  "CreditNote_SetItemsFromDB cn items =
     bindO (computeSubtotal items (cn_Currency cn)) (\<lambda>subtotal.
     if \<not> Equal subtotal (cn_SubtotalAmount cn)
     then Fail (Err ''credit note: items subtotal does not match header'')
     else Ok (cn\<lparr>cn_items := items\<rparr>))"

section \<open>Invoicing a paid order\<close>

record invoice_env =
  ie_find_order :: "string \<Rightarrow> gerror + order option"
  ie_find_invoice :: "string \<Rightarrow> gerror + invoice option"
  ie_save :: "invoice \<Rightarrow> gerror + int64"
  ie_render :: "invoice \<Rightarrow> gerror + string"
  ie_store :: "string \<Rightarrow> string \<Rightarrow> gerror option"

datatype invoice_effect =
    SaveInvoice invoice
  | StorePDF string string
  | InvoiceCreated string int64 string string string

fun convert_items :: "order_item list \<Rightarrow> invoice_item list outcome" where
  "convert_items [] = Ok []"
| "convert_items (oi # ois) =
     bindO (mapErr (Wrap ''invoice: convert item'')
       (NewInvoiceItem (oi_VariantID oi) (oi_SKU oi) (oi_Name oi) (oi_Quantity oi) (oi_UnitPrice oi)))
       (\<lambda>ii. bindO (convert_items ois) (\<lambda>iis. Ok (ii # iis)))"

text \<open>\<open>Save\<close> assigns the invoice number; a failed publication is only logged.\<close>

definition GenerateFromOrder ::
    "invoice_env \<Rightarrow> string \<Rightarrow> gotime \<Rightarrow> string \<Rightarrow> money \<Rightarrow>
     (invoice \<times> string) outcome \<times> invoice_effect list" where
  "GenerateFromOrder env newID now orderID taxAmount =
     (if orderID = [] then (Fail (AppErr Validation ''order id must not be empty''), [])
      else case ie_find_order env orderID of
        Inl e \<Rightarrow> (Fail (Wrap ''invoice: find order'' e), [])
      | Inr None \<Rightarrow> (Fail (AppErr NotFound ''order not found''), [])
      | Inr (Some ord) \<Rightarrow>
        if o_status ord \<noteq> OrderStatusPaid
        then (Fail (AppErr Validation ''order must be paid before invoicing''), [])
        else (case ie_find_invoice env orderID of
          Inl e \<Rightarrow> (Fail (Wrap ''invoice: check existing'' e), [])
        | Inr (Some _) \<Rightarrow> (Fail (AppErr Conflict ''invoice already exists for this order''), [])
        | Inr None \<Rightarrow>
          (case bindO (convert_items (o_items ord)) (\<lambda>iis.
                 mapErr (Wrap ''invoice: create'')
                   (NewInvoice now newID orderID (o_CustomerID ord) (o_Currency ord) iis taxAmount)) of
            Fail e \<Rightarrow> (Fail e, [])
          | Panics p \<Rightarrow> (Panics p, [])
          | Ok inv0 \<Rightarrow>
            (case ie_save env inv0 of
              Inl e \<Rightarrow> (Fail (Wrap ''invoice: save'' e), [SaveInvoice inv0])
            | Inr n \<Rightarrow>
              let iv = SetInvoiceNumberFromDB inv0 n in
              (case ie_render env iv of
                Inl e \<Rightarrow> (Fail (Wrap ''invoice: render pdf'' e), [SaveInvoice inv0])
              | Inr pdf \<Rightarrow>
                let path = ''invoices/'' @ inv_id iv @ ''/invoice-'' @ go_itoa (inv_number iv) @ ''.pdf'' in
                (case ie_store env path pdf of
                  Some e \<Rightarrow> (Fail (Wrap ''invoice: store pdf'' e), [SaveInvoice inv0, StorePDF path pdf])
                | None \<Rightarrow> (Ok (iv, path),
                    [SaveInvoice inv0, StorePDF path pdf,
                     InvoiceCreated (inv_id iv) (inv_number iv) (inv_orderID iv)
                       (inv_customerID iv) (inv_currency iv)])))))))"

section \<open>Lemmas\<close>

interpretation inv_sum: money_sum ii_UnitPrice ii_Quantity subtotal_from
proof
  fix cur :: string and acc t :: money and i :: invoice_item and "is" :: "invoice_item list"
  show "subtotal_from cur acc [] = Ok acc" by simp
  show "m_currency (ii_UnitPrice i) = cur \<Longrightarrow> subtotal_from cur acc (i # is) =
      bindO (MulChecked (ii_UnitPrice i) (ii_Quantity i)) (\<lambda>lt.
      bindO (AddChecked acc lt) (\<lambda>acc'. subtotal_from cur acc' is))"
    by (simp add: InvoiceItem_LineTotal_def)
  show "m_currency (ii_UnitPrice i) \<noteq> cur \<Longrightarrow> subtotal_from cur acc (i # is) \<noteq> Ok t" by simp
qed

abbreviation invoice_items_cents :: "invoice_item list \<Rightarrow> int" where
  "invoice_items_cents items \<equiv> (\<Sum>i\<leftarrow>items. cents (ii_UnitPrice i) * sint (ii_Quantity i))"

lemma inv_sum_cents: "inv_sum.sum_cents items = invoice_items_cents items"
  by (simp add: inv_sum.sum_cents_def inv_sum.line_cents_def)

definition invoice_item_ok :: "string \<Rightarrow> invoice_item \<Rightarrow> bool" where
  "invoice_item_ok cur i \<longleftrightarrow> ii_VariantID i \<noteq> [] \<and> ii_SKU i \<noteq> [] \<and> ii_Name i \<noteq> [] \<and>
     0 < sint (ii_Quantity i) \<and> 0 \<le> cents (ii_UnitPrice i) \<and> m_currency (ii_UnitPrice i) = cur"

lemma validateItemFields_Ok_iff:
  "validateItemFields v s n q p = Ok u \<longleftrightarrow> v \<noteq> [] \<and> s \<noteq> [] \<and> n \<noteq> [] \<and> 0 < sint q \<and> 0 \<le> cents p"
  by (auto simp: validateItemFields_def i64 IsNegative_iff not_le not_less)

lemma InvoiceItem_Validate_Ok_iff: "InvoiceItem_Validate i cur = Ok u \<longleftrightarrow> invoice_item_ok cur i"
  by (auto simp: InvoiceItem_Validate_def validateItemFields_Ok_iff invoice_item_ok_def)

lemma validate_items_Ok_iff: "validate_items cur items = Ok u \<longleftrightarrow> (\<forall>i \<in> set items. invoice_item_ok cur i)"
  by (induction items) (auto simp: InvoiceItem_Validate_Ok_iff)

lemma validate_items_not_Panics [simp]: "validate_items cur items \<noteq> Panics p"
proof (induction items)
  case (Cons i "is")
  have "InvoiceItem_Validate i cur \<noteq> Panics q" for q
    by (auto simp: InvoiceItem_Validate_def validateItemFields_def)
  then show ?case using Cons by (cases "InvoiceItem_Validate i cur") auto
qed simp

lemma computeSubtotal_Ok_iff:
  assumes "\<forall>i \<in> set items. invoice_item_ok cur i" "IsValidCurrency cur"
  shows "(\<exists>t. computeSubtotal items cur = Ok t) \<longleftrightarrow> invoice_items_cents items < 2 ^ 63"
  using inv_sum.sum_Ok_iff [of cur items "\<lparr>m_amount = 0, m_currency = cur\<rparr>"] assms
  by (auto simp: computeSubtotal_def Zero_Ok_iff inv_sum.good_lines_def invoice_item_ok_def inv_sum_cents)

lemma computeSubtotal_exact:
  assumes "computeSubtotal items cur = Ok t" "\<forall>i \<in> set items. 0 \<le> sint (ii_Quantity i)"
  shows "cents t = invoice_items_cents items \<and> m_currency t = cur"
  using inv_sum.sum_exact [where cur = cur and acc = "\<lparr>m_amount = 0, m_currency = cur\<rparr>" and t = t] assms
  by (auto simp: computeSubtotal_def Zero_Ok_iff inv_sum_cents)

lemma subtotal_from_not_Panics: "m_currency acc = cur \<Longrightarrow> subtotal_from cur acc items \<noteq> Panics p"
proof (induction items arbitrary: acc)
  case (Cons i "is")
  show ?case
  proof (cases "m_currency (ii_UnitPrice i) = cur")
    case True
    show ?thesis
    proof (cases "InvoiceItem_LineTotal i")
      case (Ok lt)
      then have cur: "m_currency lt = cur"
        using True by (auto simp: InvoiceItem_LineTotal_def dest: MulChecked_currency)
      then show ?thesis
        using Ok True Cons by (simp add: AddChecked_eq)
    qed (use True in \<open>auto simp: InvoiceItem_LineTotal_def\<close>)
  qed simp
qed simp

lemma computeSubtotal_not_Panics [simp]: "computeSubtotal items cur \<noteq> Panics p"
proof (cases "Zero cur")
  case (Ok z)
  then have "m_currency z = cur" by (auto simp: Zero_Ok_iff)
  then show ?thesis using Ok by (simp add: computeSubtotal_def subtotal_from_not_Panics)
next
  case (Panics q)
  then show ?thesis by (auto simp: Zero_def split: if_splits)
qed (simp add: computeSubtotal_def)

lemma header_total_Ok_iff: "header_total s t = Ok r \<longleftrightarrow> AddChecked s t = Ok r"
  by (auto simp: header_total_def split: outcome.splits)

lemma NewInvoice_parts:
  assumes "NewInvoice now iid oid cid cur items tax = Ok iv"
  shows "\<exists>sub tot. validate_items cur items = Ok () \<and> computeSubtotal items cur = Ok sub \<and>
     AddChecked sub tax = Ok tot \<and> items \<noteq> [] \<and> iid \<noteq> [] \<and> oid \<noteq> [] \<and> IsValidCurrency cur \<and>
     m_currency tax = cur \<and> 0 \<le> cents tax \<and>
     iv = \<lparr>inv_id = iid, inv_number = 0, inv_orderID = oid, inv_customerID = cid,
            inv_status = InvoiceStatusIssued, inv_currency = cur, inv_items = items,
            inv_subtotal = sub, inv_tax = tax, inv_total = tot, inv_createdAt = now\<rparr>"
  using assms by (auto simp: NewInvoice_def IsNegative_iff not_less split: if_splits)

lemma convert_items_Ok_iff:
  "convert_items ois = Ok iis \<longleftrightarrow>
     (\<forall>oi \<in> set ois. oi_VariantID oi \<noteq> [] \<and> oi_SKU oi \<noteq> [] \<and> oi_Name oi \<noteq> [] \<and> order_item_ok oi) \<and>
     iis = map (\<lambda>oi. \<lparr>ii_VariantID = oi_VariantID oi, ii_SKU = oi_SKU oi, ii_Name = oi_Name oi,
                      ii_Quantity = oi_Quantity oi, ii_UnitPrice = oi_UnitPrice oi\<rparr>) ois"
proof (induction ois arbitrary: iis)
  case (Cons oi ois)
  then show ?case
    by (auto simp: NewInvoiceItem_def validateItemFields_Ok_iff order_item_ok_def)
qed auto

lemma invoice_cents_of_order:
  "convert_items ois = Ok iis \<Longrightarrow> invoice_items_cents iis = order_items_cents ois"
  by (simp add: convert_items_Ok_iff comp_def)

section \<open>Properties\<close>

definition demo_invoice_item :: invoice_item where
  "demo_invoice_item = \<lparr>ii_VariantID = ''v1'', ii_SKU = ''s1'', ii_Name = ''n1'', ii_Quantity = 3,
     ii_UnitPrice = \<lparr>m_amount = 250, m_currency = ''EUR''\<rparr>\<rparr>"

definition demo_invoice :: invoice where
  "demo_invoice = \<lparr>inv_id = ''i1'', inv_number = 0, inv_orderID = ''o1'', inv_customerID = [],
     inv_status = InvoiceStatusIssued, inv_currency = ''EUR'', inv_items = [demo_invoice_item],
     inv_subtotal = \<lparr>m_amount = 750, m_currency = ''EUR''\<rparr>,
     inv_tax = \<lparr>m_amount = 150, m_currency = ''EUR''\<rparr>,
     inv_total = \<lparr>m_amount = 900, m_currency = ''EUR''\<rparr>, inv_createdAt = 1\<rparr>"

lemma demo_invoice_subtotal:
  "computeSubtotal [demo_invoice_item] ''EUR'' = Ok \<lparr>m_amount = 750, m_currency = ''EUR''\<rparr>"
  by (simp add: demo_invoice_item_def computeSubtotal_def Zero_def InvoiceItem_LineTotal_def
      MulChecked_def AddChecked_def mustMatch_def go_div_def MaxInt64_def MinInt64_def i64
      signed_divide_int_def)

lemma demo_invoice_total:
  "AddChecked \<lparr>m_amount = 750, m_currency = ''EUR''\<rparr> \<lparr>m_amount = 150, m_currency = ''EUR''\<rparr> =
     Ok \<lparr>m_amount = 900, m_currency = ''EUR''\<rparr>"
  by (simp add: AddChecked_def mustMatch_def i64)

lemma demo_invoice_new:
  "NewInvoice 1 ''i1'' ''o1'' [] ''EUR'' [demo_invoice_item] \<lparr>m_amount = 150, m_currency = ''EUR''\<rparr> =
     Ok demo_invoice"
proof -
  have "validate_items ''EUR'' [demo_invoice_item] = Ok ()"
    by (simp add: demo_invoice_item_def InvoiceItem_Validate_def validateItemFields_def IsNegative_def i64)
  then show ?thesis
    by (simp add: NewInvoice_def demo_invoice_def demo_invoice_subtotal demo_invoice_total IsNegative_def i64)
qed

text \<open>An invoice's subtotal is the exact sum of its lines and its total is exactly
  subtotal plus tax, both in its currency and not negative; the invoice keeps all its lines.\<close>

lemma NewInvoice_totals:
  assumes "NewInvoice now iid oid cid cur items tax = Ok iv"
  shows "inv_items iv = items \<and> cents (inv_subtotal iv) = invoice_items_cents items \<and>
    cents (inv_total iv) = invoice_items_cents items + cents tax \<and> 0 \<le> cents (inv_total iv) \<and>
    m_currency (inv_subtotal iv) = cur \<and> m_currency (inv_tax iv) = cur \<and> m_currency (inv_total iv) = cur"
proof -
  obtain sub tot where ok: "\<forall>i \<in> set items. invoice_item_ok cur i" and sub: "computeSubtotal items cur = Ok sub"
    and tot: "AddChecked sub tax = Ok tot" and tax: "m_currency tax = cur" "0 \<le> cents tax"
    and iv: "iv = \<lparr>inv_id = iid, inv_number = 0, inv_orderID = oid, inv_customerID = cid,
            inv_status = InvoiceStatusIssued, inv_currency = cur, inv_items = items,
            inv_subtotal = sub, inv_tax = tax, inv_total = tot, inv_createdAt = now\<rparr>"
    using NewInvoice_parts [OF assms] validate_items_Ok_iff by blast
  have "cents sub = invoice_items_cents items" "m_currency sub = cur"
    using computeSubtotal_exact [OF sub] ok by (auto simp: invoice_item_ok_def less_imp_le)
  moreover have "0 \<le> invoice_items_cents items"
    using ok by (intro sum_list_nonneg) (auto simp: invoice_item_ok_def)
  moreover have "m_currency tot = m_currency sub" "cents tot = cents sub + cents tax"
    using tot by (auto simp: AddChecked_Ok_iff sint_plus_exact)
  ultimately show ?thesis using tax iv by auto
qed

lemma NewInvoice_totals_witness:
  "cents (inv_total demo_invoice) = 900 \<and>
   NewInvoice 1 ''i1'' ''o1'' [] ''EUR'' [demo_invoice_item] \<lparr>m_amount = 150, m_currency = ''EUR''\<rparr> =
     Ok demo_invoice"
  using NewInvoice_totals [OF demo_invoice_new] demo_invoice_new
  by (simp add: demo_invoice_item_def)

text \<open>An invoice written to the database and read back is the same invoice: rebuilding the
  header of a new invoice and restoring its status and its lines gives it back, with the number
  the database assigned; and restoring lines into any header never panics.\<close>

lemma invoice_db_roundtrip:
  "(NewInvoice now iid oid cid cur items tax = Ok iv \<longrightarrow>
      bindO (Invoice_SetStatusFromDB
               (NewInvoiceFromDB (inv_id iv) n (inv_orderID iv) (inv_customerID iv) (inv_currency iv)
                 (inv_subtotal iv) (inv_tax iv) (inv_total iv) (inv_createdAt iv)) ''issued'')
        (\<lambda>h. Invoice_SetItemsFromDB h (inv_items iv)) =
      Ok (SetInvoiceNumberFromDB iv n)) \<and>
   Invoice_SetItemsFromDB h items' \<noteq> Panics p"
proof (intro conjI impI)
  assume "NewInvoice now iid oid cid cur items tax = Ok iv"
  then show "bindO (Invoice_SetStatusFromDB
               (NewInvoiceFromDB (inv_id iv) n (inv_orderID iv) (inv_customerID iv) (inv_currency iv)
                 (inv_subtotal iv) (inv_tax iv) (inv_total iv) (inv_createdAt iv)) ''issued'')
        (\<lambda>h. Invoice_SetItemsFromDB h (inv_items iv)) =
      Ok (SetInvoiceNumberFromDB iv n)"
    by (auto dest!: NewInvoice_parts simp: Invoice_SetStatusFromDB_def NewInvoiceFromDB_def
        invoice_status_of_string_def InvoiceStatus_IsValid_def Invoice_SetItemsFromDB_def
        SetInvoiceNumberFromDB_def header_total_def)
next
  show "Invoice_SetItemsFromDB h items' \<noteq> Panics p"
    by (cases "validate_items (inv_currency h) items'"; cases "computeSubtotal items' (inv_currency h)")
      (auto simp: Invoice_SetItemsFromDB_def header_total_def split: outcome.splits)
qed

lemma invoice_db_roundtrip_witness:
  "bindO (Invoice_SetStatusFromDB
       (NewInvoiceFromDB ''i1'' 7 ''o1'' [] ''EUR'' \<lparr>m_amount = 750, m_currency = ''EUR''\<rparr>
          \<lparr>m_amount = 150, m_currency = ''EUR''\<rparr> \<lparr>m_amount = 900, m_currency = ''EUR''\<rparr> 1) ''issued'')
     (\<lambda>h. Invoice_SetItemsFromDB h [demo_invoice_item]) = Ok (demo_invoice\<lparr>inv_number := 7\<rparr>)"
  using invoice_db_roundtrip [of 1 "''i1''" "''o1''" "[]" "''EUR''" "[demo_invoice_item]"
      "\<lparr>m_amount = 150, m_currency = ''EUR''\<rparr>" demo_invoice 7] demo_invoice_new
  by (simp add: demo_invoice_def SetInvoiceNumberFromDB_def)

text \<open>C39: \<open>GenerateFromOrder\<close> saves an invoice only for an order that was found, is
  paid and has no invoice yet; the saved invoice is in the order's currency, bills the order's
  lines, and its subtotal is the exact sum of the order's lines. The created event goes out only
  after the invoice is saved and its PDF stored.\<close>

theorem GenerateFromOrder_correct:
  assumes "GenerateFromOrder env newID now oid tax = (r, effs)"
  shows "(\<forall>iv. SaveInvoice iv \<in> set effs \<longrightarrow>
      (\<exists>ord. ie_find_order env oid = Inr (Some ord) \<and> o_status ord = OrderStatusPaid \<and>
         ie_find_invoice env oid = Inr None \<and> hd effs = SaveInvoice iv \<and>
         inv_orderID iv = oid \<and> inv_currency iv = o_Currency ord \<and>
         map ii_VariantID (inv_items iv) = map oi_VariantID (o_items ord) \<and>
         cents (inv_subtotal iv) = order_items_cents (o_items ord) \<and>
         cents (inv_total iv) = order_items_cents (o_items ord) + cents tax)) \<and>
    (\<forall>i n o' c cur. InvoiceCreated i n o' c cur \<in> set effs \<longrightarrow>
      (\<exists>iv path pdf. r = Ok (iv, path) \<and> n = inv_number iv \<and> ie_store env path pdf = None \<and>
         ie_save env (iv\<lparr>inv_number := 0\<rparr>) = Inr n \<and>
         effs = [SaveInvoice (iv\<lparr>inv_number := 0\<rparr>), StorePDF path pdf, InvoiceCreated i n o' c cur]))"
proof -
  have saved: "inv_orderID iv = oid \<and> inv_currency iv = o_Currency ord \<and> iv\<lparr>inv_number := 0\<rparr> = iv \<and>
         map ii_VariantID (inv_items iv) = map oi_VariantID (o_items ord) \<and>
         cents (inv_subtotal iv) = order_items_cents (o_items ord) \<and>
         cents (inv_total iv) = order_items_cents (o_items ord) + cents tax"
    if conv: "convert_items (o_items ord) = Ok iis"
      and new: "NewInvoice now newID oid (o_CustomerID ord) (o_Currency ord) iis tax = Ok iv" for ord iis iv
  proof -
    obtain sub tot where ok: "\<forall>i \<in> set iis. invoice_item_ok (o_Currency ord) i"
      and sub: "computeSubtotal iis (o_Currency ord) = Ok sub" and tot: "AddChecked sub tax = Ok tot"
      and iv: "iv = \<lparr>inv_id = newID, inv_number = 0, inv_orderID = oid, inv_customerID = o_CustomerID ord,
            inv_status = InvoiceStatusIssued, inv_currency = o_Currency ord, inv_items = iis,
            inv_subtotal = sub, inv_tax = tax, inv_total = tot, inv_createdAt = now\<rparr>"
      using NewInvoice_parts [OF new] validate_items_Ok_iff by blast
    have "cents sub = invoice_items_cents iis"
      using computeSubtotal_exact [OF sub] ok by (auto simp: invoice_item_ok_def less_imp_le)
    moreover have "map ii_VariantID iis = map oi_VariantID (o_items ord)"
      using conv by (simp add: convert_items_Ok_iff comp_def)
    ultimately show ?thesis
      using iv tot invoice_cents_of_order [OF conv] by (simp add: AddChecked_cents)
  qed
  show ?thesis
    using assms
    by (auto simp: GenerateFromOrder_def SetInvoiceNumberFromDB_def Let_def dest!: saved
        split: if_splits sum.splits option.splits outcome.splits)
qed

theorem GenerateFromOrder_correct_witness:
  "\<exists>r effs. GenerateFromOrder \<lparr>ie_find_order = (\<lambda>_. Inr (Some (demo_order\<lparr>o_status := OrderStatusPaid\<rparr>))),
      ie_find_invoice = (\<lambda>_. Inr None), ie_save = (\<lambda>_. Inr 7), ie_render = (\<lambda>_. Inr ''pdf''),
      ie_store = (\<lambda>_ _. None)\<rparr> ''i1'' 1 ''o1'' \<lparr>m_amount = 150, m_currency = ''EUR''\<rparr> = (r, effs) \<and>
    SaveInvoice (demo_invoice\<lparr>inv_customerID := ''c1''\<rparr>) \<in> set effs \<and>
    cents (inv_subtotal demo_invoice) = order_items_cents (o_items demo_order)"
proof -
  let ?env = "\<lparr>ie_find_order = (\<lambda>_. Inr (Some (demo_order\<lparr>o_status := OrderStatusPaid\<rparr>))),
      ie_find_invoice = (\<lambda>_. Inr None), ie_save = (\<lambda>_. Inr 7), ie_render = (\<lambda>_. Inr ''pdf''),
      ie_store = (\<lambda>_ _. None)\<rparr>"
  have conv: "convert_items (o_items demo_order) = Ok [demo_invoice_item]"
    by (simp add: demo_order_def demo_order_item_def demo_invoice_item_def NewInvoiceItem_def
        validateItemFields_def IsNegative_def i64)
  have new: "NewInvoice 1 ''i1'' ''o1'' ''c1'' ''EUR'' [demo_invoice_item] \<lparr>m_amount = 150, m_currency = ''EUR''\<rparr> =
     Ok (demo_invoice\<lparr>inv_customerID := ''c1''\<rparr>)"
    using demo_invoice_new by (auto simp: NewInvoice_def demo_invoice_def split: if_splits)
  obtain r effs where g: "GenerateFromOrder ?env ''i1'' 1 ''o1'' \<lparr>m_amount = 150, m_currency = ''EUR''\<rparr> = (r, effs)"
    by fastforce
  have mem: "SaveInvoice (demo_invoice\<lparr>inv_customerID := ''c1''\<rparr>) \<in> set effs"
    using g conv new by (auto simp: GenerateFromOrder_def demo_order_def Let_def)
  then have "cents (inv_subtotal demo_invoice) = order_items_cents (o_items demo_order)"
    using GenerateFromOrder_correct [OF g] by (auto simp: demo_invoice_def)
  then show ?thesis using g mem by blast
qed

text \<open>A guest order can be invoiced but the invoice cannot be corrected: \<open>NewInvoice\<close>
  accepts an empty customer id, and \<open>NewCreditNote\<close> refuses every credit note with an
  empty customer id, whatever the other arguments are.\<close>

lemma guest_invoice_without_credit_note:
  "NewInvoice 1 ''i1'' ''o1'' [] ''EUR'' [demo_invoice_item] \<lparr>m_amount = 150, m_currency = ''EUR''\<rparr> =
     Ok demo_invoice \<and> inv_customerID demo_invoice = [] \<and>
   \<not> isOk (NewCreditNote now nid iid oid [] reason cur items tax)"
  using demo_invoice_new by (simp add: NewCreditNote_def demo_invoice_def)

end
