(* ===== verification/Returns.thy ===== *)
theory Returns
  imports Money Lifecycle
begin

text \<open>
  Returns (\<open>internal/domain/returns/return.go\<close>, \<open>item.go\<close>): the authorization of
  a return, its status machine with the stored status used for conditional writes, the
  restock and refund marks, and the refund total.
\<close>

section \<open>Lines\<close>

record return_item =
  ri_VariantID :: string
  ri_SKU :: string
  ri_Name :: string
  ri_Quantity :: int64
  ri_UnitPrice :: money
  ri_CreatedAt :: gotime

definition NewReturnItem ::
    "gotime \<Rightarrow> string \<Rightarrow> string \<Rightarrow> string \<Rightarrow> int64 \<Rightarrow> money \<Rightarrow> return_item outcome" where
  "NewReturnItem now variantID sku name quantity unitPrice =
     (if variantID = [] then Fail (Err ''return item: variant id must not be empty'')
      else if sku = [] then Fail (Err ''return item: sku must not be empty'')
      else if name = [] then Fail (Err ''return item: name must not be empty'')
      else if quantity \<le>s 0 then Fail (Err ''return item: quantity must be positive'')
      else if IsNegative unitPrice then Fail (Err ''return item: unit price must not be negative'')
      else Ok \<lparr>ri_VariantID = variantID, ri_SKU = sku, ri_Name = name, ri_Quantity = quantity,
               ri_UnitPrice = unitPrice, ri_CreatedAt = now\<rparr>)"

definition ReturnItem_LineTotal :: "return_item \<Rightarrow> money outcome" where
  "ReturnItem_LineTotal i = MulChecked (ri_UnitPrice i) (ri_Quantity i)"

section \<open>The return\<close>

datatype return_status =
    RetRequested | RetApproved | RetReceived | RetRefunded | RetRejected | RetCancelled
  | RetStatusOther string

fun ReturnStatus_IsValid :: "return_status \<Rightarrow> bool" where
  "ReturnStatus_IsValid (RetStatusOther _) = False"
| "ReturnStatus_IsValid _ = True"

fun ReturnStatus_IsTerminal :: "return_status \<Rightarrow> bool" where
  "ReturnStatus_IsTerminal RetRefunded = True"
| "ReturnStatus_IsTerminal RetRejected = True"
| "ReturnStatus_IsTerminal RetCancelled = True"
| "ReturnStatus_IsTerminal _ = False"

definition return_status_of_string :: "string \<Rightarrow> return_status" where
  "return_status_of_string s =
     (if s = ''requested'' then RetRequested
      else if s = ''approved'' then RetApproved
      else if s = ''received'' then RetReceived
      else if s = ''refunded'' then RetRefunded
      else if s = ''rejected'' then RetRejected
      else if s = ''cancelled'' then RetCancelled
      else RetStatusOther s)"

record return_auth =
  r_ID :: string
  r_OrderID :: string
  r_CustomerID :: string
  r_Reason :: string
  r_status :: return_status
  r_storedStatus :: return_status
  r_Currency :: string
  r_items :: "return_item list"
  r_RestockedAt :: "gotime option"
  r_RefundedAt :: "gotime option"
  r_CreatedAt :: gotime
  r_UpdatedAt :: gotime

text \<open>One loop checks each line's currency, then whether its variant was seen before.\<close>

fun check_return_items :: "string \<Rightarrow> string list \<Rightarrow> return_item list \<Rightarrow> unit outcome" where
  "check_return_items currency seen [] = Ok ()"
| "check_return_items currency seen (i # is) =
     (if m_currency (ri_UnitPrice i) \<noteq> currency then Fail (Err ''return: item currency mismatch'')
      else if ri_VariantID i \<in> set seen then Fail (Err ''return: duplicate variant id'')
      else check_return_items currency (ri_VariantID i # seen) is)"

definition NewReturn ::
    "gotime \<Rightarrow> string \<Rightarrow> string \<Rightarrow> string \<Rightarrow> string \<Rightarrow> string \<Rightarrow> return_item list \<Rightarrow> return_auth outcome" where
  "NewReturn now retID orderID customerID reason currency items =
     (if retID = [] then Fail (Err ''return: id must not be empty'')
      else if orderID = [] then Fail (Err ''return: order id must not be empty'')
      else if reason = [] then Fail (Err ''return: reason must not be empty'')
      else if \<not> IsValidCurrency currency then Fail (Err ''return: invalid currency code'')
      else if items = [] then Fail (Err ''return: must contain at least one item'')
      else bindO (check_return_items currency [] items) (\<lambda>_.
        Ok \<lparr>r_ID = retID, r_OrderID = orderID, r_CustomerID = customerID, r_Reason = reason,
            r_status = RetRequested, r_storedStatus = RetRequested, r_Currency = currency,
            r_items = items, r_RestockedAt = None, r_RefundedAt = None,
            r_CreatedAt = now, r_UpdatedAt = now\<rparr>))"

definition AcceptStoredStatus :: "return_auth \<Rightarrow> return_auth" where
  "AcceptStoredStatus r = r\<lparr>r_storedStatus := r_status r\<rparr>"

fun return_total_from :: "money \<Rightarrow> return_item list \<Rightarrow> money outcome" where
  "return_total_from acc [] = Ok acc"
| "return_total_from acc (i # is) =
     bindO (ReturnItem_LineTotal i) (\<lambda>line.
     bindO (AddChecked acc line) (\<lambda>acc'. return_total_from acc' is))"

definition Return_TotalAmount :: "return_auth \<Rightarrow> money outcome" where
  "Return_TotalAmount r = bindO (Zero (r_Currency r)) (\<lambda>z. return_total_from z (r_items r))"

definition touch :: "gotime \<Rightarrow> return_auth \<Rightarrow> return_auth" where
  "touch now r = r\<lparr>r_UpdatedAt := now\<rparr>"

definition Approve :: "gotime \<Rightarrow> return_auth \<Rightarrow> return_auth outcome" where
  "Approve now r =
     (if r_status r \<noteq> RetRequested then Fail (Err ''return: can only approve a requested return'')
      else Ok (touch now (r\<lparr>r_status := RetApproved\<rparr>)))"

definition Reject :: "gotime \<Rightarrow> return_auth \<Rightarrow> return_auth outcome" where
  "Reject now r =
     (if r_status r \<noteq> RetRequested then Fail (Err ''return: can only reject a requested return'')
      else Ok (touch now (r\<lparr>r_status := RetRejected\<rparr>)))"

definition Return_Cancel :: "gotime \<Rightarrow> return_auth \<Rightarrow> return_auth outcome" where
  "Return_Cancel now r =
     (if r_status r \<noteq> RetRequested then Fail (Err ''return: can only cancel a requested return'')
      else Ok (touch now (r\<lparr>r_status := RetCancelled\<rparr>)))"

definition MarkReceived :: "gotime \<Rightarrow> return_auth \<Rightarrow> return_auth outcome" where
  "MarkReceived now r =
     (if r_status r \<noteq> RetApproved then Fail (Err ''return: can only receive an approved return'')
      else Ok (touch now (r\<lparr>r_status := RetReceived\<rparr>)))"

definition RecordRestocked :: "gotime \<Rightarrow> return_auth \<Rightarrow> gotime \<Rightarrow> return_auth outcome" where
  "RecordRestocked now r restockedAt =
     (if r_status r \<noteq> RetReceived
      then Fail (Err ''return: can only record restock for a received return'')
      else if r_RestockedAt r \<noteq> None then Ok r
      else if IsZeroTime restockedAt then Fail (Err ''return: restocked_at must not be zero'')
      else Ok (touch now (r\<lparr>r_RestockedAt := Some restockedAt\<rparr>)))"

definition MarkRefunded :: "gotime \<Rightarrow> return_auth \<Rightarrow> gotime \<Rightarrow> return_auth outcome" where
  "MarkRefunded now r refundedAt =
     (if r_status r \<noteq> RetReceived then Fail (Err ''return: can only refund a received return'')
      else if IsZeroTime refundedAt then Fail (Err ''return: refunded_at must not be zero'')
      else Ok (touch now (r\<lparr>r_status := RetRefunded, r_RefundedAt := Some refundedAt\<rparr>)))"

definition Return_SetStatusFromDB :: "return_auth \<Rightarrow> string \<Rightarrow> return_auth outcome" where
  "Return_SetStatusFromDB r s =
     (if \<not> ReturnStatus_IsValid (return_status_of_string s)
      then Fail (ErrWith ''return: invalid status from db: '' [s])
      else Ok (r\<lparr>r_status := return_status_of_string s, r_storedStatus := return_status_of_string s\<rparr>))"

definition Return_SetItemsFromDB :: "return_auth \<Rightarrow> return_item list \<Rightarrow> return_auth outcome" where
  "Return_SetItemsFromDB r items =
     (if items = [] then Fail (Err ''return: items must not be empty'')
      else if list_ex (\<lambda>i. m_currency (ri_UnitPrice i) \<noteq> r_Currency r) items
      then Fail (Err ''return: item currency mismatch'')
      else Ok (r\<lparr>r_items := items\<rparr>))"

section \<open>Lemmas\<close>

interpretation ret_sum: money_sum ri_UnitPrice ri_Quantity "\<lambda>cur. return_total_from"
proof
  fix cur :: string and acc t :: money and i :: return_item and "is" :: "return_item list"
  show "return_total_from acc [] = Ok acc" by simp
  show "return_total_from acc (i # is) =
      bindO (MulChecked (ri_UnitPrice i) (ri_Quantity i)) (\<lambda>lt.
      bindO (AddChecked acc lt) (\<lambda>acc'. return_total_from acc' is))"
    by (simp add: ReturnItem_LineTotal_def)
  assume "m_currency acc = cur" "m_currency (ri_UnitPrice i) \<noteq> cur"
  then show "return_total_from acc (i # is) \<noteq> Ok t"
    by (auto simp: ReturnItem_LineTotal_def AddChecked_Ok_iff dest!: MulChecked_currency)
qed

abbreviation return_items_cents :: "return_item list \<Rightarrow> int" where
  "return_items_cents items \<equiv> (\<Sum>i\<leftarrow>items. cents (ri_UnitPrice i) * sint (ri_Quantity i))"

lemma ret_sum_cents: "ret_sum.sum_cents items = return_items_cents items"
  by (simp add: ret_sum.sum_cents_def ret_sum.line_cents_def)

text \<open>What \<open>NewItem\<close> guarantees of a line.\<close>

definition return_item_ok :: "return_item \<Rightarrow> bool" where
  "return_item_ok i \<longleftrightarrow> 0 < sint (ri_Quantity i) \<and> 0 \<le> cents (ri_UnitPrice i)"

lemma NewReturnItem_ok: "NewReturnItem now v s n q p = Ok i \<Longrightarrow> return_item_ok i"
  by (auto simp: NewReturnItem_def return_item_ok_def i64 IsNegative_iff not_le not_less split: if_splits)

lemma check_return_items_Ok_iff:
  "check_return_items cur seen items = Ok u \<longleftrightarrow>
     (\<forall>i \<in> set items. m_currency (ri_UnitPrice i) = cur \<and> ri_VariantID i \<notin> set seen) \<and>
     distinct (map ri_VariantID items)"
proof (induction items arbitrary: seen)
  case (Cons a items)
  show ?case
  proof (cases "m_currency (ri_UnitPrice a) = cur \<and> ri_VariantID a \<notin> set seen")
    case True
    then have step: "check_return_items cur seen (a # items) = check_return_items cur (ri_VariantID a # seen) items"
      by simp
    have "ri_VariantID a \<notin> ri_VariantID ` set items \<longleftrightarrow> (\<forall>i \<in> set items. ri_VariantID i \<noteq> ri_VariantID a)"
      unfolding image_iff by (metis (no_types))
    then show ?thesis using True unfolding step Cons.IH by auto
  qed auto
qed simp

datatype return_op =
    OpApprove gotime
  | OpReject gotime
  | OpCancelReturn gotime
  | OpReceive gotime
  | OpRestock gotime gotime
  | OpRefundReturn gotime gotime
  | OpAccept

fun return_apply :: "return_op \<Rightarrow> return_auth \<Rightarrow> return_auth outcome" where
  "return_apply (OpApprove t) r = Approve t r"
| "return_apply (OpReject t) r = Reject t r"
| "return_apply (OpCancelReturn t) r = Return_Cancel t r"
| "return_apply (OpReceive t) r = MarkReceived t r"
| "return_apply (OpRestock t a) r = RecordRestocked t r a"
| "return_apply (OpRefundReturn t a) r = MarkRefunded t r a"
| "return_apply OpAccept r = Ok (AcceptStoredStatus r)"

lemmas return_defs = Approve_def Reject_def Return_Cancel_def MarkReceived_def RecordRestocked_def
  MarkRefunded_def AcceptStoredStatus_def touch_def

fun return_edge :: "return_status \<Rightarrow> return_status \<Rightarrow> bool" where
  "return_edge RetRequested RetApproved = True"
| "return_edge RetRequested RetRejected = True"
| "return_edge RetRequested RetCancelled = True"
| "return_edge RetApproved RetReceived = True"
| "return_edge RetReceived RetRefunded = True"
| "return_edge _ _ = False"

fun return_rank :: "return_status \<Rightarrow> nat" where
  "return_rank RetRequested = 0"
| "return_rank RetApproved = 1"
| "return_rank RetReceived = 2"
| "return_rank _ = 3"

interpretation return_life: lifecycle r_status return_apply return_edge return_rank
proof
  show "return_apply x p = Ok q \<Longrightarrow> r_status q = r_status p \<or> return_edge (r_status p) (r_status q)" for x p q
    by (cases x) (auto simp: return_defs split: if_splits)
qed (auto elim: return_edge.elims)

text \<open>
  The marks agree with the status: a restock time only on a received or refunded return, a
  refund time exactly on a refunded one; the stored status lags behind along the status graph.
\<close>

definition return_wf :: "return_auth \<Rightarrow> bool" where
  "return_wf r \<longleftrightarrow>
     (r_RestockedAt r \<noteq> None \<longrightarrow> r_status r \<in> {RetReceived, RetRefunded}) \<and>
     (r_RefundedAt r \<noteq> None \<longleftrightarrow> r_status r = RetRefunded) \<and>
     r_RestockedAt r \<noteq> Some 0 \<and> r_RefundedAt r \<noteq> Some 0 \<and>
     return_edge\<^sup>*\<^sup>* (r_storedStatus r) (r_status r)"

lemma NewReturn_wf: "NewReturn now i oid cid reason cur items = Ok r \<Longrightarrow> return_wf r"
  by (auto simp: NewReturn_def return_wf_def split: if_splits)

lemma return_apply_stored:
  assumes "return_apply x p = Ok q" "return_edge\<^sup>*\<^sup>* (r_storedStatus p) (r_status p)"
  shows "return_edge\<^sup>*\<^sup>* (r_storedStatus q) (r_status q)"
proof (cases "x = OpAccept")
  case True
  then show ?thesis using assms(1) by (auto simp: AcceptStoredStatus_def)
next
  case False
  then have "r_storedStatus q = r_storedStatus p"
    using assms(1) by (cases x) (auto simp: return_defs split: if_splits)
  moreover have "r_status q = r_status p \<or> return_edge (r_status p) (r_status q)"
    using return_life.ap_edge [OF assms(1)] .
  ultimately show ?thesis using assms(2) by (auto intro: rtranclp.rtrancl_into_rtrancl)
qed

lemma return_apply_wf: "return_apply x p = Ok q \<Longrightarrow> return_wf p \<Longrightarrow> return_wf q"
proof -
  assume ap: "return_apply x p = Ok q" and wf: "return_wf p"
  have "return_edge\<^sup>*\<^sup>* (r_storedStatus q) (r_status q)"
    using return_apply_stored [OF ap] wf by (simp add: return_wf_def)
  then show ?thesis
    using ap wf by (cases x) (auto simp: return_defs return_wf_def IsZeroTime_def split: if_splits)
qed

lemma return_run_wf: "return_wf r \<Longrightarrow> return_wf (run_ops return_apply xs r)"
  by (rule run_ops_induct) (auto intro: return_apply_wf)

lemma return_apply_restocked:
  "return_apply x p = Ok q \<Longrightarrow> r_RestockedAt p = Some t \<Longrightarrow> r_RestockedAt q = Some t"
  by (cases x) (auto simp: return_defs split: if_splits)

lemma return_run_restocked:
  "r_RestockedAt r = Some t \<Longrightarrow> r_RestockedAt (run_ops return_apply xs r) = Some t"
  by (rule run_ops_induct) (auto dest: return_apply_restocked)

lemma return_run_items:
  "r_items (run_ops return_apply xs r) = r_items r \<and> r_Currency (run_ops return_apply xs r) = r_Currency r"
proof (rule run_ops_induct)
  fix x p q
  assume "r_items p = r_items r \<and> r_Currency p = r_Currency r" "return_apply x p = Ok q"
  then show "r_items q = r_items r \<and> r_Currency q = r_Currency r"
    by (cases x) (auto simp: return_defs split: if_splits)
qed simp

lemma Return_TotalAmount_Ok_iff:
  assumes "\<forall>i \<in> set (r_items r). return_item_ok i \<and> m_currency (ri_UnitPrice i) = r_Currency r"
    and "IsValidCurrency (r_Currency r)"
  shows "(\<exists>t. Return_TotalAmount r = Ok t) \<longleftrightarrow> return_items_cents (r_items r) < 2 ^ 63"
  using ret_sum.sum_Ok_iff [of "r_Currency r" "r_items r" "\<lparr>m_amount = 0, m_currency = r_Currency r\<rparr>"] assms
  by (auto simp: Return_TotalAmount_def Zero_Ok_iff ret_sum.good_lines_def return_item_ok_def ret_sum_cents)

lemma Return_TotalAmount_exact:
  assumes "Return_TotalAmount r = Ok t" "\<forall>i \<in> set (r_items r). return_item_ok i"
  shows "cents t = return_items_cents (r_items r) \<and> m_currency t = r_Currency r"
  using ret_sum.sum_exact [where cur = "r_Currency r"
      and acc = "\<lparr>m_amount = 0, m_currency = r_Currency r\<rparr>" and t = t] assms
  by (auto simp: Return_TotalAmount_def Zero_Ok_iff return_item_ok_def ret_sum_cents less_imp_le)

section \<open>Properties\<close>

definition demo_return_item :: return_item where
  "demo_return_item = \<lparr>ri_VariantID = ''v1'', ri_SKU = ''s1'', ri_Name = ''n1'', ri_Quantity = 2,
     ri_UnitPrice = \<lparr>m_amount = 250, m_currency = ''EUR''\<rparr>, ri_CreatedAt = 1\<rparr>"

definition demo_return :: return_auth where
  "demo_return = \<lparr>r_ID = ''r1'', r_OrderID = ''o1'', r_CustomerID = ''c1'', r_Reason = ''x'',
     r_status = RetRequested, r_storedStatus = RetRequested, r_Currency = ''EUR'',
     r_items = [demo_return_item], r_RestockedAt = None, r_RefundedAt = None,
     r_CreatedAt = 1, r_UpdatedAt = 1\<rparr>"

lemma demo_return_new: "NewReturn 1 ''r1'' ''o1'' ''c1'' ''x'' ''EUR'' [demo_return_item] = Ok demo_return"
  by (simp add: NewReturn_def IsValidCurrency_def is_upper_letter_def byte_val_def demo_return_item_def
      demo_return_def)

text \<open>Over any sequence of operations a return moves only along requested to approved to
  received to refunded, with rejected and cancelled as exits of requested; terminal states are
  exactly those it cannot leave; a restock time appears only once the return is received, a
  refund time exactly when it is refunded, and the status last stored always leads to the
  current one along that graph.\<close>

lemma return_lifecycle:
  assumes "NewReturn now i oid cid reason cur items = Ok r"
  shows "let q = run_ops return_apply xs r in
    return_edge\<^sup>*\<^sup>* RetRequested (r_status q) \<and>
    (ReturnStatus_IsTerminal (r_status q) \<longleftrightarrow> (\<forall>s. \<not> return_edge (r_status q) s)) \<and>
    (ReturnStatus_IsTerminal (r_status q) \<longrightarrow> r_status (run_ops return_apply ys q) = r_status q) \<and>
    (r_RestockedAt q \<noteq> None \<longrightarrow> r_status q \<in> {RetReceived, RetRefunded}) \<and>
    (r_RefundedAt q \<noteq> None \<longleftrightarrow> r_status q = RetRefunded) \<and>
    return_edge\<^sup>*\<^sup>* (r_storedStatus q) (r_status q)"
proof -
  let ?q = "run_ops return_apply xs r"
  have start: "r_status r = RetRequested"
    using assms by (auto simp: NewReturn_def split: if_splits)
  have path: "return_edge\<^sup>*\<^sup>* RetRequested (r_status ?q)"
    using return_life.run_edges [of r xs] start by simp
  have wf: "return_wf ?q" using return_run_wf NewReturn_wf [OF assms] by blast
  have "r_status ?q \<noteq> RetStatusOther s" for s
  proof
    assume "r_status ?q = RetStatusOther s"
    with path show False by (cases rule: rtranclp.cases) (auto elim: return_edge.elims)
  qed
  then have fin: "ReturnStatus_IsTerminal (r_status ?q) \<longleftrightarrow> (\<forall>s. \<not> return_edge (r_status ?q) s)"
    by (cases "r_status ?q") (auto intro: exI [of _ RetApproved] exI [of _ RetReceived] exI [of _ RetRefunded])
  moreover have "r_status (run_ops return_apply ys ?q) = r_status ?q"
    if "ReturnStatus_IsTerminal (r_status ?q)"
    by (rule return_life.final_status) (use that fin in blast)
  ultimately show ?thesis
    using wf path unfolding Let_def return_wf_def by blast
qed

lemma return_lifecycle_witness:
  "return_edge\<^sup>*\<^sup>* RetRequested (r_status (run_ops return_apply
     [OpApprove 2, OpReject 3, OpReceive 4, OpRestock 5 5, OpAccept, OpRefundReturn 6 6] demo_return))"
  using return_lifecycle [OF demo_return_new] by (simp add: Let_def del: run_ops.simps)

text \<open>Restocking is recorded once: after a restock time is set no operation changes or
  clears it, and recording again succeeds without effect.\<close>

lemma restock_recorded_once:
  assumes "r_RestockedAt r = Some t"
  shows "r_RestockedAt (run_ops return_apply xs r) = Some t \<and>
    (r_status r = RetReceived \<longrightarrow> RecordRestocked now r t' = Ok r)"
  using return_run_restocked [OF assms] assms by (simp add: RecordRestocked_def)

lemma restock_recorded_once_witness:
  "r_RestockedAt (run_ops return_apply [OpRestock 8 8, OpRefundReturn 9 9]
     (demo_return\<lparr>r_status := RetReceived, r_RestockedAt := Some 5\<rparr>)) = Some 5"
  using restock_recorded_once [of "demo_return\<lparr>r_status := RetReceived, r_RestockedAt := Some 5\<rparr>" 5]
  by (simp del: run_ops.simps)

text \<open>C27: for lines as \<open>NewItem\<close> makes them, the refund total of a return, at any point
  of its history, exists exactly when the sum of price times quantity fits in 64 bits, and it
  is that sum.\<close>

theorem return_total_exact:
  assumes "NewReturn now i oid cid reason cur items = Ok r" "\<forall>i \<in> set items. return_item_ok i"
  shows "((\<exists>t. Return_TotalAmount (run_ops return_apply xs r) = Ok t) \<longleftrightarrow> return_items_cents items < 2 ^ 63) \<and>
    (\<forall>t. Return_TotalAmount (run_ops return_apply xs r) = Ok t \<longrightarrow>
       cents t = return_items_cents items \<and> m_currency t = cur)"
proof -
  let ?q = "run_ops return_apply xs r"
  have q: "r_items ?q = items" "r_Currency ?q = cur"
    and ok: "IsValidCurrency cur" "\<forall>i \<in> set items. m_currency (ri_UnitPrice i) = cur"
    using return_run_items [of xs r] assms(1)
    by (auto simp: NewReturn_def check_return_items_Ok_iff split: if_splits)
  show ?thesis
    using Return_TotalAmount_Ok_iff [of ?q] Return_TotalAmount_exact [of ?q] q ok assms(2) by auto
qed

theorem return_total_exact_witness:
  "\<exists>t. Return_TotalAmount (run_ops return_apply [OpApprove 2, OpReceive 3] demo_return) = Ok t \<and> cents t = 500"
proof -
  have ok: "\<forall>i \<in> set [demo_return_item]. return_item_ok i"
    by (simp add: demo_return_item_def return_item_ok_def)
  from return_total_exact [OF demo_return_new ok, of "[OpApprove 2, OpReceive 3]"]
  show ?thesis by (auto simp: demo_return_item_def simp del: run_ops.simps)
qed

end
