(* ===== verification/Catalog.thy ===== *)
theory Catalog
  imports Shop_Prelude
begin

text \<open>
  The catalog domain (\<open>internal/domain/catalog\<close>): products with their type, pricing
  mode, stock mode and order-line explosion (\<open>product.go\<close>, \<open>pricing_mode.go\<close>,
  \<open>stock_mode.go\<close>, \<open>explode_order_lines.go\<close>, \<open>tax_class.go\<close>), variants,
  bundle components and grouped members (\<open>variant.go\<close>, \<open>bundle_component.go\<close>,
  \<open>grouped_member.go\<close>), the purchase assignment of a request
  (\<open>assignment_context.go\<close>) and the four visibility axes (\<open>visibility.go\<close>).
\<close>

section \<open>Types and modes\<close>

datatype product_status =
    ProductStatusDraft | ProductStatusActive | ProductStatusArchived | ProductStatusOther string

fun ProductStatus_IsValid :: "product_status \<Rightarrow> bool" where
  "ProductStatus_IsValid (ProductStatusOther _) = False"
| "ProductStatus_IsValid _ = True"

datatype product_type =
    TypeSimple | TypeVirtual | TypeBundle | TypeGrouped | TypeConfigurable | TypeDownloadable
  | TypeOther string

fun product_type_string :: "product_type \<Rightarrow> string" where
  "product_type_string TypeSimple = ''simple''"
| "product_type_string TypeVirtual = ''virtual''"
| "product_type_string TypeBundle = ''bundle''"
| "product_type_string TypeGrouped = ''grouped''"
| "product_type_string TypeConfigurable = ''configurable''"
| "product_type_string TypeDownloadable = ''downloadable''"
| "product_type_string (TypeOther s) = s"

definition AllTypes :: "product_type list" where
  "AllTypes = [TypeSimple, TypeVirtual, TypeBundle, TypeGrouped, TypeConfigurable, TypeDownloadable]"

definition Type_IsValid :: "product_type \<Rightarrow> bool" where
  "Type_IsValid t \<longleftrightarrow> list_ex (\<lambda>allowed. t = allowed) AllTypes"

fun RequiresPhysicalShipping :: "product_type \<Rightarrow> bool" where
  "RequiresPhysicalShipping TypeVirtual = False"
| "RequiresPhysicalShipping TypeDownloadable = False"
| "RequiresPhysicalShipping _ = True"

definition AnyRequiresPhysicalShipping :: "product_type list \<Rightarrow> bool" where
  "AnyRequiresPhysicalShipping types =
     (if types = [] then True else list_ex RequiresPhysicalShipping types)"

fun TaxClassCode :: "product_type \<Rightarrow> string" where
  "TaxClassCode TypeDownloadable = ''digital''"
| "TaxClassCode _ = ''standard''"

datatype pricing_mode = PricingModeFixed | PricingModeDynamic | PricingModeOther string

definition AllPricingModes :: "pricing_mode list" where
  "AllPricingModes = [PricingModeFixed, PricingModeDynamic]"

definition PricingMode_IsValid :: "pricing_mode \<Rightarrow> bool" where
  "PricingMode_IsValid m \<longleftrightarrow> list_ex (\<lambda>allowed. m = allowed) AllPricingModes"

definition pricing_mode_of_string :: "string \<Rightarrow> pricing_mode" where
  "pricing_mode_of_string s =
     (if s = ''fixed'' then PricingModeFixed
      else if s = ''dynamic'' then PricingModeDynamic else PricingModeOther s)"

datatype stock_mode = StockModeFixed | StockModeDynamic | StockModeOther string

definition AllStockModes :: "stock_mode list" where
  "AllStockModes = [StockModeFixed, StockModeDynamic]"

definition StockMode_IsValid :: "stock_mode \<Rightarrow> bool" where
  "StockMode_IsValid m \<longleftrightarrow> list_ex (\<lambda>allowed. m = allowed) AllStockModes"

definition stock_mode_of_string :: "string \<Rightarrow> stock_mode" where
  "stock_mode_of_string s =
     (if s = ''fixed'' then StockModeFixed
      else if s = ''dynamic'' then StockModeDynamic else StockModeOther s)"

section \<open>Visibility modes\<close>

datatype visibility_mode =
    VisibilityModeAuto | VisibilityModeVisible | VisibilityModeHidden | VisibilityModeOther string

definition AllVisibilityModes :: "visibility_mode list" where
  "AllVisibilityModes = [VisibilityModeAuto, VisibilityModeVisible, VisibilityModeHidden]"

definition VisibilityMode_IsValid :: "visibility_mode \<Rightarrow> bool" where
  "VisibilityMode_IsValid m \<longleftrightarrow> list_ex (\<lambda>allowed. m = allowed) AllVisibilityModes"

record visibility_axes =
  va_Catalog :: visibility_mode
  va_Search :: visibility_mode
  va_Individually :: visibility_mode
  va_Purchasable :: visibility_mode

definition DefaultVisibilityAxes :: visibility_axes where
  "DefaultVisibilityAxes = \<lparr>va_Catalog = VisibilityModeAuto, va_Search = VisibilityModeAuto,
     va_Individually = VisibilityModeAuto, va_Purchasable = VisibilityModeAuto\<rparr>"

definition VisibilityAxes_Validate :: "visibility_axes \<Rightarrow> unit outcome" where
  "VisibilityAxes_Validate a =
     (if list_ex (\<lambda>m. \<not> VisibilityMode_IsValid m)
           [va_Catalog a, va_Search a, va_Individually a, va_Purchasable a]
      then Fail (Err ''invalid visibility mode'') else Ok ())"

section \<open>Products\<close>

record product =
  pd_ID :: string
  pd_Name :: string
  pd_Slug :: string
  pd_Description :: string
  pd_Status :: product_status
  pd_Type :: product_type
  pd_PricingMode :: pricing_mode
  pd_StockMode :: stock_mode
  pd_ExplodeOrderLines :: bool
  pd_RequiresLinkedParent :: bool
  pd_VisibilityModes :: visibility_axes
  pd_Attributes :: meta
  pd_CreatedAt :: gotime
  pd_UpdatedAt :: gotime

definition NewProduct :: "gotime \<Rightarrow> string \<Rightarrow> string \<Rightarrow> string \<Rightarrow> product outcome" where
  "NewProduct now prodID name slug =
     (if prodID = [] then Fail (Err ''product id must not be empty'')
      else if name = [] then Fail (Err ''product name must not be empty'')
      else if slug = [] then Fail (Err ''product slug must not be empty'')
      else Ok \<lparr>pd_ID = prodID, pd_Name = name, pd_Slug = slug, pd_Description = [],
               pd_Status = ProductStatusDraft, pd_Type = TypeSimple,
               pd_PricingMode = PricingModeFixed, pd_StockMode = StockModeFixed,
               pd_ExplodeOrderLines = False, pd_RequiresLinkedParent = False,
               pd_VisibilityModes = DefaultVisibilityAxes, pd_Attributes = (\<lambda>_. None),
               pd_CreatedAt = now, pd_UpdatedAt = now\<rparr>)"

definition explodeOrderLinesAllowed :: "product \<Rightarrow> bool" where
  "explodeOrderLinesAllowed p \<longleftrightarrow> pd_Type p = TypeBundle \<and> pd_PricingMode p = PricingModeDynamic \<and>
     pd_StockMode p = StockModeDynamic"

text \<open>A nil receiver is \<open>None\<close>.\<close>

definition Product_Validate :: "product option \<Rightarrow> unit outcome" where
  "Product_Validate rcv =
     (case rcv of
        None \<Rightarrow> Fail (Err ''product must not be nil'')
      | Some p \<Rightarrow>
          if \<not> Type_IsValid (pd_Type p) then Fail (Err ''invalid product type'')
          else if \<not> PricingMode_IsValid (pd_PricingMode p) then Fail (Err ''invalid pricing mode'')
          else if pd_PricingMode p = PricingModeDynamic \<and> pd_Type p \<noteq> TypeBundle
            then Fail (Err ''pricing mode dynamic is only allowed for bundle products'')
          else if \<not> StockMode_IsValid (pd_StockMode p) then Fail (Err ''invalid stock mode'')
          else if pd_StockMode p = StockModeDynamic \<and> pd_Type p \<noteq> TypeBundle
            then Fail (Err ''stock mode dynamic is only allowed for bundle products'')
          else if pd_ExplodeOrderLines p \<and> \<not> explodeOrderLinesAllowed p
            then Fail (Err ''explode order lines is only allowed for a bundle with dynamic pricing and dynamic stock'')
          else VisibilityAxes_Validate (pd_VisibilityModes p))"

definition ApplyPricingMode :: "product option \<Rightarrow> string \<Rightarrow> bool \<Rightarrow> product outcome" where
  "ApplyPricingMode rcv raw present =
     (case rcv of
        None \<Rightarrow> Fail (Err ''product must not be nil'')
      | Some p \<Rightarrow>
          if present then
            (let mode = pricing_mode_of_string (trim_space raw) in
             if \<not> PricingMode_IsValid mode then Fail (Err ''invalid pricing mode'')
             else if mode = PricingModeDynamic \<and> pd_Type p \<noteq> TypeBundle
               then Fail (Err ''pricing mode dynamic is only allowed for bundle products'')
             else Ok (p\<lparr>pd_PricingMode := mode\<rparr>))
          else if pd_Type p \<noteq> TypeBundle \<or> \<not> PricingMode_IsValid (pd_PricingMode p)
            then Ok (p\<lparr>pd_PricingMode := PricingModeFixed\<rparr>)
          else Ok p)"

definition ApplyStockMode :: "product option \<Rightarrow> string \<Rightarrow> bool \<Rightarrow> product outcome" where
  "ApplyStockMode rcv raw present =
     (case rcv of
        None \<Rightarrow> Fail (Err ''product must not be nil'')
      | Some p \<Rightarrow>
          if present then
            (let mode = stock_mode_of_string (trim_space raw) in
             if \<not> StockMode_IsValid mode then Fail (Err ''invalid stock mode'')
             else if mode = StockModeDynamic \<and> pd_Type p \<noteq> TypeBundle
               then Fail (Err ''stock mode dynamic is only allowed for bundle products'')
             else Ok (p\<lparr>pd_StockMode := mode\<rparr>))
          else if pd_Type p \<noteq> TypeBundle \<or> \<not> StockMode_IsValid (pd_StockMode p)
            then Ok (p\<lparr>pd_StockMode := StockModeFixed\<rparr>)
          else Ok p)"

definition ApplyExplodeOrderLines :: "product option \<Rightarrow> bool \<Rightarrow> bool \<Rightarrow> product outcome" where
  "ApplyExplodeOrderLines rcv flag present =
     (case rcv of
        None \<Rightarrow> Fail (Err ''product must not be nil'')
      | Some p \<Rightarrow>
          if present then
            (if flag \<and> \<not> explodeOrderLinesAllowed p
             then Fail (Err ''explode order lines is only allowed for a bundle with dynamic pricing and dynamic stock'')
             else Ok (p\<lparr>pd_ExplodeOrderLines := flag\<rparr>))
          else if \<not> explodeOrderLinesAllowed p then Ok (p\<lparr>pd_ExplodeOrderLines := False\<rparr>)
          else Ok p)"

section \<open>Variants, bundle components and grouped members\<close>

text \<open>The weight is a \<open>float64\<close>; its type is a type variable and its zero an argument.\<close>

record 'w variant =
  v_ID :: string
  v_ProductID :: string
  v_SKU :: string
  v_Name :: string
  v_Weight :: 'w
  v_Attributes :: meta
  v_CreatedAt :: gotime
  v_UpdatedAt :: gotime

definition NewVariant :: "'w \<Rightarrow> gotime \<Rightarrow> string \<Rightarrow> string \<Rightarrow> string \<Rightarrow> 'w variant outcome" where
  "NewVariant zero now varID productID sku =
     (if varID = [] then Fail (Err ''variant id must not be empty'')
      else if productID = [] then Fail (Err ''variant product_id must not be empty'')
      else if sku = [] then Fail (Err ''variant sku must not be empty'')
      else Ok \<lparr>v_ID = varID, v_ProductID = productID, v_SKU = sku, v_Name = [], v_Weight = zero,
               v_Attributes = (\<lambda>_. None), v_CreatedAt = now, v_UpdatedAt = now\<rparr>)"

record bundle_component =
  bc_BundleProductID :: string
  bc_ComponentProductID :: string
  bc_Quantity :: int64
  bc_Required :: bool
  bc_CreatedAt :: gotime

fun IsBundleComponentLeafType :: "product_type \<Rightarrow> bool" where
  "IsBundleComponentLeafType TypeSimple = True"
| "IsBundleComponentLeafType TypeVirtual = True"
| "IsBundleComponentLeafType TypeDownloadable = True"
| "IsBundleComponentLeafType _ = False"

definition BundleComponent_Validate :: "bundle_component option \<Rightarrow> unit outcome" where
  "BundleComponent_Validate rcv =
     (case rcv of
        None \<Rightarrow> Fail (Err ''bundle component must not be nil'')
      | Some c \<Rightarrow>
          let bundleID = trim_space (bc_BundleProductID c);
              componentID = trim_space (bc_ComponentProductID c) in
          if bundleID = [] then Fail (Err ''bundle product id must not be empty'')
          else if componentID = [] then Fail (Err ''component product id must not be empty'')
          else if bc_Quantity c <s 1 then Fail (Err ''quantity must be at least 1'')
          else if 9999 <s bc_Quantity c then Fail (Err ''quantity must not exceed 9999'')
          else if bundleID = componentID
            then Fail (Err ''bundle product cannot reference itself as a component'')
          else Ok ())"

definition NewBundleComponent :: "string \<Rightarrow> string \<Rightarrow> int64 \<Rightarrow> bundle_component outcome" where
  "NewBundleComponent bundleID componentID quantity =
     (let c = \<lparr>bc_BundleProductID = trim_space bundleID, bc_ComponentProductID = trim_space componentID,
               bc_Quantity = quantity, bc_Required = True, bc_CreatedAt = 0\<rparr> in
      bindO (BundleComponent_Validate (Some c)) (\<lambda>_. Ok c))"

definition BundleComponent_ValidateComposition ::
    "bundle_component option \<Rightarrow> product_type \<Rightarrow> product_type \<Rightarrow> unit outcome" where
  "BundleComponent_ValidateComposition rcv bundleType componentType =
     bindO (BundleComponent_Validate rcv) (\<lambda>_.
     if bundleType \<noteq> TypeBundle
     then Fail (Err ''only products with type bundle can have bundle components'')
     else if \<not> IsBundleComponentLeafType componentType
     then Fail (Err ''a bundle component product must have type simple, virtual, or downloadable'')
     else Ok ())"

record grouped_member =
  gm_GroupProductID :: string
  gm_MemberProductID :: string
  gm_CreatedAt :: gotime

fun IsGroupedMemberLeafType :: "product_type \<Rightarrow> bool" where
  "IsGroupedMemberLeafType TypeSimple = True"
| "IsGroupedMemberLeafType TypeVirtual = True"
| "IsGroupedMemberLeafType TypeDownloadable = True"
| "IsGroupedMemberLeafType _ = False"

definition GroupedMember_Validate :: "grouped_member option \<Rightarrow> unit outcome" where
  "GroupedMember_Validate rcv =
     (case rcv of
        None \<Rightarrow> Fail (Err ''grouped member must not be nil'')
      | Some m \<Rightarrow>
          let groupID = trim_space (gm_GroupProductID m);
              memberID = trim_space (gm_MemberProductID m) in
          if groupID = [] then Fail (Err ''group product id must not be empty'')
          else if memberID = [] then Fail (Err ''member product id must not be empty'')
          else if groupID = memberID
            then Fail (Err ''grouped product cannot reference itself as a member'')
          else Ok ())"

definition NewGroupedMember :: "string \<Rightarrow> string \<Rightarrow> grouped_member outcome" where
  "NewGroupedMember groupID memberID =
     (let m = \<lparr>gm_GroupProductID = trim_space groupID, gm_MemberProductID = trim_space memberID,
               gm_CreatedAt = 0\<rparr> in
      bindO (GroupedMember_Validate (Some m)) (\<lambda>_. Ok m))"

definition GroupedMember_ValidateComposition ::
    "grouped_member option \<Rightarrow> product_type \<Rightarrow> product_type \<Rightarrow> unit outcome" where
  "GroupedMember_ValidateComposition rcv groupType memberType =
     bindO (GroupedMember_Validate rcv) (\<lambda>_.
     if groupType \<noteq> TypeGrouped
     then Fail (Err ''only products with type grouped can have grouped members'')
     else if \<not> IsGroupedMemberLeafType memberType
     then Fail (Err ''a grouped member product must have type simple, virtual, or downloadable'')
     else Ok ())"

section \<open>The purchase assignment of a request\<close>

record assignment_context =
  ac_ParentProductID :: string
  ac_ParentUnitID :: string
  ac_Deferred :: bool

definition assignment_context_zero :: assignment_context where
  "assignment_context_zero = \<lparr>ac_ParentProductID = [], ac_ParentUnitID = [], ac_Deferred = False\<rparr>"

definition AssignmentContext_Empty :: "assignment_context \<Rightarrow> bool" where
  "AssignmentContext_Empty a \<longleftrightarrow> \<not> ac_Deferred a \<and> trim_space (ac_ParentProductID a) = [] \<and>
     trim_space (ac_ParentUnitID a) = []"

text \<open>
  The values of \<open>context.Context\<close> this package sets: the request's assignment, the
  assignments by variant, and the read scope (\<open>read_scope.go\<close>). A nil context is \<open>None\<close>.
\<close>

record req_ctx =
  rc_assignment :: "assignment_context option"
  rc_purchases :: "(string \<Rightarrow> assignment_context option) option"
  rc_includeNonActive :: bool
  rc_bypassVisibility :: bool

definition background :: req_ctx where
  "background = \<lparr>rc_assignment = None, rc_purchases = None, rc_includeNonActive = False, rc_bypassVisibility = False\<rparr>"

text \<open>The functions of the read scope do not accept a nil context.\<close>

definition WithIncludeNonActiveProducts :: "req_ctx \<Rightarrow> req_ctx" where
  "WithIncludeNonActiveProducts ctx = ctx\<lparr>rc_includeNonActive := True\<rparr>"

definition IncludeNonActiveProducts :: "req_ctx \<Rightarrow> bool" where
  "IncludeNonActiveProducts ctx \<longleftrightarrow> rc_includeNonActive ctx"

definition WithBypassProductVisibility :: "req_ctx \<Rightarrow> req_ctx" where
  "WithBypassProductVisibility ctx = ctx\<lparr>rc_bypassVisibility := True\<rparr>"

definition BypassProductVisibility :: "req_ctx \<Rightarrow> bool" where
  "BypassProductVisibility ctx \<longleftrightarrow> rc_bypassVisibility ctx"

definition WithOperatorProductReadScope :: "req_ctx \<Rightarrow> req_ctx" where
  "WithOperatorProductReadScope ctx = WithBypassProductVisibility (WithIncludeNonActiveProducts ctx)"

definition ActiveForPurchase :: "product option \<Rightarrow> bool" where
  "ActiveForPurchase p0 \<longleftrightarrow> (case p0 of None \<Rightarrow> False | Some p \<Rightarrow> pd_Status p = ProductStatusActive)"

definition trim_assignment :: "assignment_context \<Rightarrow> assignment_context" where
  "trim_assignment ac = ac\<lparr>ac_ParentProductID := trim_space (ac_ParentProductID ac),
     ac_ParentUnitID := trim_space (ac_ParentUnitID ac)\<rparr>"

definition WithAssignmentContext :: "req_ctx option \<Rightarrow> assignment_context \<Rightarrow> req_ctx option" where
  "WithAssignmentContext ctx ac =
     (let c = (case ctx of None \<Rightarrow> background | Some c \<Rightarrow> c)
      in Some (c\<lparr>rc_assignment := Some (trim_assignment ac)\<rparr>))"

definition AssignmentContextFrom :: "req_ctx option \<Rightarrow> assignment_context" where
  "AssignmentContextFrom ctx =
     (case ctx of
        None \<Rightarrow> assignment_context_zero
      | Some c \<Rightarrow> (case rc_assignment c of
          None \<Rightarrow> assignment_context_zero
        | Some ac \<Rightarrow> trim_assignment ac))"

definition ResolvePurchaseAssignment :: "req_ctx option \<Rightarrow> assignment_context \<Rightarrow> assignment_context" where
  "ResolvePurchaseAssignment ctx line =
     (if \<not> AssignmentContext_Empty line then line else AssignmentContextFrom ctx)"

definition WithPurchaseAssignments ::
    "req_ctx option \<Rightarrow> (string \<Rightarrow> assignment_context option) \<Rightarrow> req_ctx option" where
  "WithPurchaseAssignments ctx byVariant =
     (let c = (case ctx of None \<Rightarrow> background | Some c \<Rightarrow> c)
      in Some (c\<lparr>rc_purchases := Some (\<lambda>v. map_option trim_assignment (byVariant v))\<rparr>))"

definition PurchaseAssignmentForVariant :: "req_ctx option \<Rightarrow> string \<Rightarrow> assignment_context option" where
  "PurchaseAssignmentForVariant ctx variantID =
     (case ctx of
        None \<Rightarrow> None
      | Some c \<Rightarrow>
          if variantID = [] then None
          else (case rc_purchases c of None \<Rightarrow> None | Some byVariant \<Rightarrow> byVariant variantID))"

text \<open>The function reads only the product's flag; a nil product is \<open>None\<close>.\<close>

definition LinkedParentBlocksPurchase :: "bool option \<Rightarrow> assignment_context \<Rightarrow> bool" where
  "LinkedParentBlocksPurchase requires assignment \<longleftrightarrow>
     requires = Some True \<and> AssignmentContext_Empty assignment"

section \<open>Visibility\<close>

record visibility =
  vis_InCatalog :: bool
  vis_InSearch :: bool
  vis_Individually :: bool
  vis_Purchasable :: bool

record visibility_inputs =
  vi_QuantityPositive :: bool
  vi_HasPrice :: bool
  vi_HasStoreAssignment :: bool
  vi_HasCategory :: bool
  vi_RequiresLinkedParent :: bool
  vi_MissingDownloadableFile :: bool
  vi_Assignment :: assignment_context

text \<open>\<open>VisibilityOptions\<close> has the single field \<open>RequireCategory\<close>.\<close>

definition AutoBasis :: "product_status \<Rightarrow> visibility_inputs \<Rightarrow> bool \<Rightarrow> bool" where
  "AutoBasis status inp requireCategory =
     (if status \<noteq> ProductStatusActive then False
      else if \<not> vi_QuantityPositive inp then False
      else if \<not> vi_HasPrice inp then False
      else if \<not> vi_HasStoreAssignment inp then False
      else if requireCategory \<and> \<not> vi_HasCategory inp then False
      else True)"

definition AutoBasisInputFailureCodes :: "visibility_inputs \<Rightarrow> bool \<Rightarrow> string list" where
  "AutoBasisInputFailureCodes inp requireCategory =
     (if \<not> vi_QuantityPositive inp then [''no_stock''] else []) @
     (if \<not> vi_HasPrice inp then [''no_price''] else []) @
     (if \<not> vi_HasStoreAssignment inp then [''no_store_assignment''] else []) @
     (if requireCategory \<and> \<not> vi_HasCategory inp then [''no_category''] else [])"

definition AutoBasisFailureCodes :: "product_status \<Rightarrow> visibility_inputs \<Rightarrow> bool \<Rightarrow> string list" where
  "AutoBasisFailureCodes status inp requireCategory =
     (if status \<noteq> ProductStatusActive then [''status_inactive''] else []) @
     AutoBasisInputFailureCodes inp requireCategory"

fun ResolveAxis :: "visibility_mode \<Rightarrow> bool \<Rightarrow> bool" where
  "ResolveAxis VisibilityModeAuto auto_basis = auto_basis"
| "ResolveAxis VisibilityModeVisible auto_basis = True"
| "ResolveAxis VisibilityModeHidden auto_basis = False"
| "ResolveAxis (VisibilityModeOther _) auto_basis = False"

definition EffectiveAxis :: "visibility_mode \<Rightarrow> product_status \<Rightarrow> bool \<Rightarrow> bool" where
  "EffectiveAxis mode status auto_basis =
     (if status \<noteq> ProductStatusActive then False else ResolveAxis mode auto_basis)"

record axis_explanation =
  ax_Mode :: visibility_mode
  ax_Override :: bool
  ax_Resolved :: bool
  ax_Effective :: bool
  ax_FailureCodes :: "string list"

definition ExplainAxis ::
    "visibility_mode \<Rightarrow> product_status \<Rightarrow> bool \<Rightarrow> string list \<Rightarrow> axis_explanation" where
  "ExplainAxis mode status auto_basis failureCodes =
     \<lparr>ax_Mode = mode, ax_Override = (mode \<noteq> VisibilityModeAuto),
      ax_Resolved = ResolveAxis mode auto_basis, ax_Effective = EffectiveAxis mode status auto_basis,
      ax_FailureCodes = (if mode = VisibilityModeAuto \<and> \<not> auto_basis then failureCodes else [])\<rparr>"

definition linkedParentBlocksPurchase :: "visibility_inputs \<Rightarrow> bool" where
  "linkedParentBlocksPurchase inp =
     LinkedParentBlocksPurchase (Some (vi_RequiresLinkedParent inp)) (vi_Assignment inp)"

definition missingDownloadableFileBlocksPurchase :: "visibility_inputs \<Rightarrow> bool" where
  "missingDownloadableFileBlocksPurchase inp = vi_MissingDownloadableFile inp"

definition block_axis :: "bool \<Rightarrow> string \<Rightarrow> axis_explanation \<Rightarrow> axis_explanation" where
  "block_axis blocked code x =
     (if blocked
      then x\<lparr>ax_Resolved := False, ax_Effective := False, ax_FailureCodes := ax_FailureCodes x @ [code]\<rparr>
      else x)"

definition explainPurchasableAxis ::
    "visibility_mode \<Rightarrow> product_status \<Rightarrow> bool \<Rightarrow> string list \<Rightarrow> visibility_inputs \<Rightarrow> axis_explanation" where
  "explainPurchasableAxis mode status auto_basis failureCodes inp =
     block_axis (missingDownloadableFileBlocksPurchase inp) ''no_downloadable_file''
       (block_axis (linkedParentBlocksPurchase inp) ''requires_linked_parent''
         (ExplainAxis mode status auto_basis failureCodes))"

record axes_explanation =
  axs_Catalog :: axis_explanation
  axs_Search :: axis_explanation
  axs_Individually :: axis_explanation
  axs_Purchasable :: axis_explanation

definition ExplainAxes ::
    "visibility_axes \<Rightarrow> product_status \<Rightarrow> visibility_inputs \<Rightarrow> bool \<Rightarrow>
     bool \<times> string list \<times> axes_explanation" where
  "ExplainAxes axes status inp requireCategory =
     (let auto_basis = AutoBasis status inp requireCategory;
          codes = AutoBasisFailureCodes status inp requireCategory in
      (auto_basis, codes,
       \<lparr>axs_Catalog = ExplainAxis (va_Catalog axes) status auto_basis codes,
        axs_Search = ExplainAxis (va_Search axes) status auto_basis codes,
        axs_Individually = ExplainAxis (va_Individually axes) status auto_basis codes,
        axs_Purchasable = explainPurchasableAxis (va_Purchasable axes) status auto_basis codes inp\<rparr>))"

definition Axes_Resolve :: "visibility_axes \<Rightarrow> product_status \<Rightarrow> visibility_inputs \<Rightarrow> bool \<Rightarrow> visibility" where
  "Axes_Resolve a status inp requireCategory =
     (let auto_basis = AutoBasis status inp requireCategory;
          p0 = ResolveAxis (va_Purchasable a) auto_basis;
          p1 = (if linkedParentBlocksPurchase inp then False else p0);
          p2 = (if missingDownloadableFileBlocksPurchase inp then False else p1) in
      \<lparr>vis_InCatalog = ResolveAxis (va_Catalog a) auto_basis,
       vis_InSearch = ResolveAxis (va_Search a) auto_basis,
       vis_Individually = ResolveAxis (va_Individually a) auto_basis,
       vis_Purchasable = p2\<rparr>)"

definition Product_Visibility :: "product \<Rightarrow> visibility_inputs \<Rightarrow> bool \<Rightarrow> visibility" where
  "Product_Visibility p inp requireCategory =
     Axes_Resolve (pd_VisibilityModes p) (pd_Status p)
       (inp\<lparr>vi_RequiresLinkedParent := pd_RequiresLinkedParent p\<rparr>) requireCategory"

section \<open>Lemmas\<close>

lemma Type_IsValid_iff: "Type_IsValid t \<longleftrightarrow> (\<forall>s. t \<noteq> TypeOther s)"
  by (cases t) (simp_all add: Type_IsValid_def AllTypes_def)

lemma PricingMode_IsValid_iff: "PricingMode_IsValid m \<longleftrightarrow> m = PricingModeFixed \<or> m = PricingModeDynamic"
  by (auto simp: PricingMode_IsValid_def AllPricingModes_def)

lemma StockMode_IsValid_iff: "StockMode_IsValid m \<longleftrightarrow> m = StockModeFixed \<or> m = StockModeDynamic"
  by (auto simp: StockMode_IsValid_def AllStockModes_def)

lemmas mode_valid = Type_IsValid_iff PricingMode_IsValid_iff StockMode_IsValid_iff

lemma Product_Validate_Ok_iff:
  "Product_Validate (Some p) = Ok u \<longleftrightarrow>
     Type_IsValid (pd_Type p) \<and> PricingMode_IsValid (pd_PricingMode p) \<and> StockMode_IsValid (pd_StockMode p) \<and>
     (pd_PricingMode p = PricingModeDynamic \<longrightarrow> pd_Type p = TypeBundle) \<and>
     (pd_StockMode p = StockModeDynamic \<longrightarrow> pd_Type p = TypeBundle) \<and>
     (pd_ExplodeOrderLines p \<longrightarrow> explodeOrderLinesAllowed p) \<and>
     VisibilityAxes_Validate (pd_VisibilityModes p) = Ok ()"
  by (auto simp: Product_Validate_def)

lemma ApplyPricingMode_Ok:
  "ApplyPricingMode (Some p) raw present = Ok q \<Longrightarrow>
     \<exists>m. q = p\<lparr>pd_PricingMode := m\<rparr> \<and> PricingMode_IsValid m \<and> (m = PricingModeDynamic \<longrightarrow> pd_Type p = TypeBundle)"
  by (cases present)
    (auto simp: ApplyPricingMode_def PricingMode_IsValid_iff Let_def split: if_splits
      intro: exI [of _ "pd_PricingMode p"])

lemma ApplyStockMode_Ok:
  "ApplyStockMode (Some p) raw present = Ok q \<Longrightarrow>
     \<exists>m. q = p\<lparr>pd_StockMode := m\<rparr> \<and> StockMode_IsValid m \<and> (m = StockModeDynamic \<longrightarrow> pd_Type p = TypeBundle)"
  by (cases present)
    (auto simp: ApplyStockMode_def StockMode_IsValid_iff Let_def split: if_splits
      intro: exI [of _ "pd_StockMode p"])

lemma ApplyExplodeOrderLines_Ok:
  "ApplyExplodeOrderLines (Some p) flag present = Ok q \<Longrightarrow>
     \<exists>b. q = p\<lparr>pd_ExplodeOrderLines := b\<rparr> \<and> (b \<longrightarrow> explodeOrderLinesAllowed p)"
  by (cases present)
    (auto simp: ApplyExplodeOrderLines_def split: if_splits intro: exI [of _ "pd_ExplodeOrderLines p"])

lemma AutoBasisFailureCodes_Nil_iff:
  "AutoBasisFailureCodes status inp rc = [] \<longleftrightarrow> AutoBasis status inp rc"
  by (auto simp: AutoBasisFailureCodes_def AutoBasisInputFailureCodes_def AutoBasis_def)

lemma AssignmentContext_Empty_trim [simp]:
  "AssignmentContext_Empty (trim_assignment ac) \<longleftrightarrow> AssignmentContext_Empty ac"
  by (simp add: AssignmentContext_Empty_def trim_assignment_def)

lemma trim_assignment_idem [simp]: "trim_assignment (trim_assignment ac) = trim_assignment ac"
  by (simp add: trim_assignment_def)

section \<open>Properties\<close>

text \<open>An admin update that sets the type, then the pricing mode, the stock mode and the
  explosion flag with any request values (present or omitted) either fails or leaves a product
  that validates: dynamic modes only on bundles, explosion only with both modes dynamic.\<close>

lemma product_modes_stay_valid:
  assumes "ApplyPricingMode (Some p) rawP presP = Ok p1" and "ApplyStockMode (Some p1) rawS presS = Ok p2"
    and "ApplyExplodeOrderLines (Some p2) flag presE = Ok p3"
    and "Type_IsValid (pd_Type p)" and "VisibilityAxes_Validate (pd_VisibilityModes p) = Ok ()"
  shows "Product_Validate (Some p3) = Ok () \<and> pd_Type p3 = pd_Type p"
proof -
  obtain m where m: "p1 = p\<lparr>pd_PricingMode := m\<rparr>" "PricingMode_IsValid m"
    "m = PricingModeDynamic \<longrightarrow> pd_Type p = TypeBundle"
    using ApplyPricingMode_Ok [OF assms(1)] by blast
  obtain s where s: "p2 = p1\<lparr>pd_StockMode := s\<rparr>" "StockMode_IsValid s"
    "s = StockModeDynamic \<longrightarrow> pd_Type p1 = TypeBundle"
    using ApplyStockMode_Ok [OF assms(2)] by blast
  obtain b where b: "p3 = p2\<lparr>pd_ExplodeOrderLines := b\<rparr>" "b \<longrightarrow> explodeOrderLinesAllowed p2"
    using ApplyExplodeOrderLines_Ok [OF assms(3)] by blast
  show ?thesis using m s b assms(4,5) by (simp add: Product_Validate_Ok_iff explodeOrderLinesAllowed_def)
qed

definition demo_bundle :: product where
  "demo_bundle = \<lparr>pd_ID = ''p1'', pd_Name = ''kit'', pd_Slug = ''kit'', pd_Description = [],
     pd_Status = ProductStatusActive, pd_Type = TypeBundle, pd_PricingMode = PricingModeDynamic,
     pd_StockMode = StockModeFixed, pd_ExplodeOrderLines = True, pd_RequiresLinkedParent = False,
     pd_VisibilityModes = DefaultVisibilityAxes, pd_Attributes = (\<lambda>_. None), pd_CreatedAt = 1, pd_UpdatedAt = 1\<rparr>"

lemma product_modes_stay_valid_witness:
  "\<exists>p1 p2 p3. ApplyPricingMode (Some demo_bundle) [] False = Ok p1 \<and> ApplyStockMode (Some p1) [] False = Ok p2 \<and>
     ApplyExplodeOrderLines (Some p2) False False = Ok p3 \<and> Product_Validate (Some p3) = Ok ()"
proof -
  have r: "ApplyPricingMode (Some demo_bundle) [] False = Ok demo_bundle"
    "ApplyStockMode (Some demo_bundle) [] False = Ok demo_bundle"
    "ApplyExplodeOrderLines (Some demo_bundle) False False = Ok (demo_bundle\<lparr>pd_ExplodeOrderLines := False\<rparr>)"
    "Type_IsValid (pd_Type demo_bundle)" "VisibilityAxes_Validate (pd_VisibilityModes demo_bundle) = Ok ()"
    by (simp_all add: demo_bundle_def ApplyPricingMode_def ApplyStockMode_def ApplyExplodeOrderLines_def
        mode_valid explodeOrderLinesAllowed_def VisibilityAxes_Validate_def DefaultVisibilityAxes_def
        VisibilityMode_IsValid_def AllVisibilityModes_def)
  from product_modes_stay_valid [OF r] r show ?thesis by blast
qed

text \<open>The admin explanation agrees with the storefront: the failure codes are empty exactly
  when the automatic rule shows the product; for an active product each axis is explained as
  effective exactly when the resolver shows it, and nothing is effective for any other product;
  and an axis in automatic mode that is not shown, like a blocked purchase, always comes with at
  least one failure code.\<close>

lemma visibility_explained:
  "let (auto_basis, codes, ex) = ExplainAxes axes status inp rc; v = Axes_Resolve axes status inp rc in
    (codes = [] \<longleftrightarrow> auto_basis) \<and> auto_basis = AutoBasis status inp rc \<and>
    (ax_Effective (axs_Catalog ex) \<longleftrightarrow> status = ProductStatusActive \<and> vis_InCatalog v) \<and>
    (ax_Effective (axs_Search ex) \<longleftrightarrow> status = ProductStatusActive \<and> vis_InSearch v) \<and>
    (ax_Effective (axs_Individually ex) \<longleftrightarrow> status = ProductStatusActive \<and> vis_Individually v) \<and>
    (ax_Effective (axs_Purchasable ex) \<longleftrightarrow> status = ProductStatusActive \<and> vis_Purchasable v) \<and>
    (va_Catalog axes = VisibilityModeAuto \<and> \<not> vis_InCatalog v \<longrightarrow> ax_FailureCodes (axs_Catalog ex) \<noteq> []) \<and>
    (va_Purchasable axes \<in> {VisibilityModeAuto, VisibilityModeVisible} \<and> \<not> vis_Purchasable v \<longrightarrow>
       ax_FailureCodes (axs_Purchasable ex) \<noteq> [])"
  using AutoBasisFailureCodes_Nil_iff [of status inp rc]
  by (auto simp: ExplainAxes_def Axes_Resolve_def Let_def ExplainAxis_def EffectiveAxis_def
      explainPurchasableAxis_def block_axis_def)

lemma visibility_explained_witness:
  "let inp = \<lparr>vi_QuantityPositive = False, vi_HasPrice = True, vi_HasStoreAssignment = True,
       vi_HasCategory = False, vi_RequiresLinkedParent = True, vi_MissingDownloadableFile = False,
       vi_Assignment = assignment_context_zero\<rparr> in
   ax_FailureCodes (axs_Catalog (snd (snd (ExplainAxes DefaultVisibilityAxes ProductStatusActive inp True)))) \<noteq> []"
  using visibility_explained [of DefaultVisibilityAxes ProductStatusActive
      "\<lparr>vi_QuantityPositive = False, vi_HasPrice = True, vi_HasStoreAssignment = True,
       vi_HasCategory = False, vi_RequiresLinkedParent = True, vi_MissingDownloadableFile = False,
       vi_Assignment = assignment_context_zero\<rparr>" True]
  by (simp add: Let_def ExplainAxes_def Axes_Resolve_def DefaultVisibilityAxes_def AutoBasis_def)

text \<open>The linked-parent gate follows the request: a product that requires a linked parent is
  purchasable only if the line's assignment, or else the request's, is not empty; storing an
  assignment in the request context and reading it back gives it with its ids trimmed, never
  changes whether it is empty, and one variant's assignment is never applied to another.\<close>

lemma linked_parent_gate:
  "AssignmentContextFrom (WithAssignmentContext ctx ac) = trim_assignment ac \<and>
   (AssignmentContext_Empty (AssignmentContextFrom (WithAssignmentContext ctx ac)) \<longleftrightarrow> AssignmentContext_Empty ac) \<and>
   PurchaseAssignmentForVariant (WithPurchaseAssignments ctx byv) v =
     (if v = [] then None else map_option trim_assignment (byv v)) \<and>
   (vis_Purchasable (Product_Visibility p
      (inp\<lparr>vi_Assignment := ResolvePurchaseAssignment (WithAssignmentContext ctx ac) line\<rparr>) rc) \<longrightarrow>
    \<not> pd_RequiresLinkedParent p \<or> \<not> AssignmentContext_Empty line \<or> \<not> AssignmentContext_Empty ac)"
  by (auto simp: AssignmentContextFrom_def WithAssignmentContext_def PurchaseAssignmentForVariant_def
      WithPurchaseAssignments_def Product_Visibility_def Axes_Resolve_def linkedParentBlocksPurchase_def
      LinkedParentBlocksPurchase_def ResolvePurchaseAssignment_def Let_def split: if_splits)

lemma linked_parent_gate_witness:
  "vis_Purchasable (Product_Visibility (demo_bundle\<lparr>pd_RequiresLinkedParent := True\<rparr>)
     \<lparr>vi_QuantityPositive = True, vi_HasPrice = True, vi_HasStoreAssignment = True,
      vi_HasCategory = False, vi_RequiresLinkedParent = False, vi_MissingDownloadableFile = False,
      vi_Assignment = ResolvePurchaseAssignment (WithAssignmentContext None assignment_context_zero)
        assignment_context_zero\<rparr> False) = False"
  using linked_parent_gate [where ctx = None and ac = assignment_context_zero
      and p = "demo_bundle\<lparr>pd_RequiresLinkedParent := True\<rparr>"
      and line = assignment_context_zero and rc = False and inp =
      "\<lparr>vi_QuantityPositive = True, vi_HasPrice = True, vi_HasStoreAssignment = True,
      vi_HasCategory = False, vi_RequiresLinkedParent = False, vi_MissingDownloadableFile = False,
      vi_Assignment = assignment_context_zero\<rparr>"]
  by (auto simp: AssignmentContext_Empty_def assignment_context_zero_def)

end
