(* ===== verification/Pricing.thy ===== *)
theory Pricing
  imports Money
begin

text \<open>
  The pricing context and its pipeline (\<open>internal/domain/pricing\<close>: \<open>context.go\<close>,
  \<open>adjustment.go\<close>, \<open>finalize_step.go\<close>, \<open>pipeline.go\<close>, \<open>price.go\<close>,
  \<open>price_snapshot.go\<close>). A step is a function from contexts to outcomes; a step that
  fails ends the pipeline and the callers drop the half-changed context, so \<open>Fail\<close>
  carries no context. \<open>Meta\<close> is a map to dynamically typed values.
\<close>

section \<open>Adjustments, items and the context\<close>

datatype adjustment_type = AdjustmentDiscount | AdjustmentTax | AdjustmentFee | AdjustmentOther string

fun AdjustmentType_IsValid :: "adjustment_type \<Rightarrow> bool" where
  "AdjustmentType_IsValid (AdjustmentOther _) = False"
| "AdjustmentType_IsValid _ = True"

record adjustment =
  adj_Type :: adjustment_type
  adj_Code :: string
  adj_Description :: string
  adj_Amount :: money
  adj_Included :: bool
  adj_Meta :: meta

definition NewAdjustment :: "adjustment_type \<Rightarrow> string \<Rightarrow> money \<Rightarrow> adjustment outcome" where
  "NewAdjustment typ code amount =
     (if \<not> AdjustmentType_IsValid typ then Fail (Err ''adjustment: invalid type'')
      else if trim_space code = [] then Fail (Err ''adjustment code must not be empty'')
      else Ok \<lparr>adj_Type = typ, adj_Code = code, adj_Description = [], adj_Amount = amount,
               adj_Included = False, adj_Meta = (\<lambda>_. None)\<rparr>)"

record pricing_item =
  pi_VariantID :: string
  pi_Quantity :: int64
  pi_UnitPrice :: money
  pi_Total :: money
  pi_Adjustments :: "adjustment list"

definition NewPricingItem :: "string \<Rightarrow> int64 \<Rightarrow> money \<Rightarrow> pricing_item outcome" where
  "NewPricingItem variantID qty unitPrice =
     (if variantID = [] then Fail (Err ''pricing item: variant id must not be empty'')
      else if qty \<le>s 0 then Fail (Err ''pricing item: quantity must be greater than zero'')
      else bindO (mapErr (Wrap ''pricing item: compute total'') (MulChecked unitPrice qty)) (\<lambda>tot.
        Ok \<lparr>pi_VariantID = variantID, pi_Quantity = qty, pi_UnitPrice = unitPrice,
            pi_Total = tot, pi_Adjustments = []\<rparr>))"

record pricing_context =
  pc_Currency :: string
  pc_Items :: "pricing_item list"
  pc_Subtotal :: money
  pc_DiscountsTotal :: money
  pc_TaxTotal :: money
  pc_FeesTotal :: money
  pc_GrandTotal :: money
  pc_Adjustments :: "adjustment list"
  pc_Meta :: meta

definition NewPricingContext :: "string \<Rightarrow> pricing_context outcome" where
  "NewPricingContext currency =
     bindO (mapErr (Wrap ''pricing context'') (Zero currency)) (\<lambda>z.
     Ok \<lparr>pc_Currency = currency, pc_Items = [], pc_Subtotal = z, pc_DiscountsTotal = z,
         pc_TaxTotal = z, pc_FeesTotal = z, pc_GrandTotal = z, pc_Adjustments = [],
         pc_Meta = (\<lambda>_. None)\<rparr>)"

section \<open>Stored prices\<close>

record price =
  pr_ID :: string
  pr_VariantID :: string
  pr_StoreID :: string
  pr_Amount :: money
  pr_CreatedAt :: gotime

definition NewPrice :: "gotime \<Rightarrow> string \<Rightarrow> string \<Rightarrow> string \<Rightarrow> money \<Rightarrow> price outcome" where
  "NewPrice now priceID variantID storeID amount =
     (if priceID = [] then Fail (Err ''price id must not be empty'')
      else if variantID = [] then Fail (Err ''price variant_id must not be empty'')
      else if m_currency amount = [] then Fail (Err ''price amount must have a valid currency'')
      else if IsNegative amount then Fail (Err ''price amount must be non-negative'')
      else Ok \<lparr>pr_ID = priceID, pr_VariantID = variantID, pr_StoreID = storeID,
               pr_Amount = amount, pr_CreatedAt = now\<rparr>)"

record price_snapshot =
  ps_ID :: string
  ps_VariantID :: string
  ps_StoreID :: string
  ps_Amount :: money
  ps_RecordedAt :: gotime

definition NewPriceSnapshot :: "gotime \<Rightarrow> string \<Rightarrow> string \<Rightarrow> string \<Rightarrow> money \<Rightarrow> price_snapshot outcome" where
  "NewPriceSnapshot now snapID variantID storeID amount =
     (if snapID = [] then Fail (Err ''price snapshot id must not be empty'')
      else if variantID = [] then Fail (Err ''price snapshot variant_id must not be empty'')
      else if m_currency amount = [] then Fail (Err ''price snapshot amount must have a valid currency'')
      else if IsNegative amount then Fail (Err ''price snapshot amount must be non-negative'')
      else Ok \<lparr>ps_ID = snapID, ps_VariantID = variantID, ps_StoreID = storeID,
               ps_Amount = amount, ps_RecordedAt = now\<rparr>)"

section \<open>The finalize step\<close>

fun add_totals :: "money \<Rightarrow> pricing_item list \<Rightarrow> money outcome" where
  "add_totals subtotal [] = Ok subtotal"
| "add_totals subtotal (i # is) = bindO (Add subtotal (pi_Total i)) (\<lambda>s. add_totals s is)"

text \<open>The accumulators are (discounts, taxes, fees); an unknown type adds to none.\<close>

definition add_adjustment :: "money \<times> money \<times> money \<Rightarrow> adjustment \<Rightarrow> (money \<times> money \<times> money) outcome" where
  "add_adjustment acc adj =
     (case acc of (discounts, taxes, fees) \<Rightarrow>
       (case adj_Type adj of
          AdjustmentDiscount \<Rightarrow> bindO (Add discounts (adj_Amount adj)) (\<lambda>d. Ok (d, taxes, fees))
        | AdjustmentTax \<Rightarrow> bindO (Add taxes (adj_Amount adj)) (\<lambda>t. Ok (discounts, t, fees))
        | AdjustmentFee \<Rightarrow> bindO (Add fees (adj_Amount adj)) (\<lambda>f. Ok (discounts, taxes, f))
        | AdjustmentOther _ \<Rightarrow> Ok acc))"

fun add_adjustments ::
    "money \<times> money \<times> money \<Rightarrow> adjustment list \<Rightarrow> (money \<times> money \<times> money) outcome" where
  "add_adjustments acc [] = Ok acc"
| "add_adjustments acc (a # as) = bindO (add_adjustment acc a) (\<lambda>acc'. add_adjustments acc' as)"

fun add_item_adjustments ::
    "money \<times> money \<times> money \<Rightarrow> pricing_item list \<Rightarrow> (money \<times> money \<times> money) outcome" where
  "add_item_adjustments acc [] = Ok acc"
| "add_item_adjustments acc (i # is) =
     bindO (add_adjustments acc (pi_Adjustments i)) (\<lambda>acc'. add_item_adjustments acc' is)"

definition FinalizeStep_Apply :: "pricing_context \<Rightarrow> pricing_context outcome" where
  "FinalizeStep_Apply pctx =
     bindO (MustZero (pc_Currency pctx)) (\<lambda>zero.
     bindO (add_totals zero (pc_Items pctx)) (\<lambda>subtotal.
     bindO (add_item_adjustments (zero, zero, zero) (pc_Items pctx)) (\<lambda>acc.
     bindO (add_adjustments acc (pc_Adjustments pctx)) (\<lambda>(discounts, taxes, fees).
     bindO (Sub subtotal discounts) (\<lambda>g1.
     bindO (Add g1 taxes) (\<lambda>g2.
     bindO (Add g2 fees) (\<lambda>g3.
     Ok (pctx\<lparr>pc_Subtotal := subtotal, pc_DiscountsTotal := discounts, pc_TaxTotal := taxes,
              pc_FeesTotal := fees, pc_GrandTotal := g3\<rparr>))))))))"

section \<open>The pipeline\<close>

record pricing_step =
  st_name :: string
  st_apply :: "pricing_context \<Rightarrow> pricing_context outcome"

fun Pipeline_Execute :: "pricing_step list \<Rightarrow> pricing_context \<Rightarrow> pricing_context outcome" where
  "Pipeline_Execute [] pctx = Ok pctx"
| "Pipeline_Execute (step # steps) pctx =
     (case st_apply step pctx of
        Ok pctx' \<Rightarrow> Pipeline_Execute steps pctx'
      | Fail e \<Rightarrow> Fail (Wrap (''pipeline: step '' @ st_name step) e)
      | Panics p \<Rightarrow> Panics p)"

section \<open>Lemmas\<close>

text \<open>What every step relies on and keeps: all amounts are in the context's currency.\<close>

definition adjs_in :: "string \<Rightarrow> adjustment list \<Rightarrow> bool" where
  "adjs_in cur as \<longleftrightarrow> (\<forall>a \<in> set as. m_currency (adj_Amount a) = cur)"

definition item_in :: "string \<Rightarrow> pricing_item \<Rightarrow> bool" where
  "item_in cur i \<longleftrightarrow> m_currency (pi_UnitPrice i) = cur \<and> m_currency (pi_Total i) = cur \<and>
     adjs_in cur (pi_Adjustments i)"

definition pctx_ok :: "pricing_context \<Rightarrow> bool" where
  "pctx_ok c \<longleftrightarrow> IsValidCurrency (pc_Currency c) \<and> (\<forall>i \<in> set (pc_Items c). item_in (pc_Currency c) i) \<and>
     adjs_in (pc_Currency c) (pc_Adjustments c)"

text \<open>The sum of the adjustments of a type, in 64-bit and in integer arithmetic.\<close>

definition adj_sum :: "adjustment_type \<Rightarrow> adjustment list \<Rightarrow> int64" where
  "adj_sum t as = (\<Sum>a\<leftarrow>filter (\<lambda>a. adj_Type a = t) as. m_amount (adj_Amount a))"

definition adj_cents :: "adjustment_type \<Rightarrow> adjustment list \<Rightarrow> int" where
  "adj_cents t as = (\<Sum>a\<leftarrow>filter (\<lambda>a. adj_Type a = t) as. cents (adj_Amount a))"

definition all_adjs :: "pricing_context \<Rightarrow> adjustment list" where
  "all_adjs c = concat (map pi_Adjustments (pc_Items c)) @ pc_Adjustments c"

lemma MustZero_valid: "IsValidCurrency cur \<Longrightarrow> MustZero cur = Ok \<lparr>m_amount = 0, m_currency = cur\<rparr>"
  by (simp add: MustZero_def Zero_def)

lemma adj_sum_append: "adj_sum t (as @ bs) = adj_sum t as + adj_sum t bs"
  by (simp add: adj_sum_def)

lemma word_of_int_sum_list: "word_of_int (\<Sum>x\<leftarrow>xs. f x) = (\<Sum>x\<leftarrow>xs. word_of_int (f x))"
  by (induction xs) simp_all

lemma adj_sum_cents: "adj_sum t as = word_of_int (adj_cents t as)"
  by (simp add: adj_sum_def adj_cents_def word_of_int_sum_list)

lemma add_totals_Ok:
  "\<forall>i \<in> set is. m_currency (pi_Total i) = cur \<Longrightarrow>
   add_totals \<lparr>m_amount = a, m_currency = cur\<rparr> is =
     Ok \<lparr>m_amount = a + (\<Sum>i\<leftarrow>is. m_amount (pi_Total i)), m_currency = cur\<rparr>"
  by (induction "is" arbitrary: a) (simp_all add: Add_match add.assoc)

abbreviation in_cur :: "string \<Rightarrow> int64 \<Rightarrow> money" where
  "in_cur cur a \<equiv> \<lparr>m_amount = a, m_currency = cur\<rparr>"

lemma add_adjustments_Ok:
  "adjs_in cur as \<Longrightarrow> add_adjustments (in_cur cur d, in_cur cur t, in_cur cur f) as =
     Ok (in_cur cur (d + adj_sum AdjustmentDiscount as), in_cur cur (t + adj_sum AdjustmentTax as),
         in_cur cur (f + adj_sum AdjustmentFee as))"
proof (induction as arbitrary: d t f)
  case Nil
  then show ?case by (simp add: adj_sum_def)
next
  case (Cons a as)
  then have "m_currency (adj_Amount a) = cur" "adjs_in cur as" by (auto simp: adjs_in_def)
  then show ?case
    using Cons.IH by (cases "adj_Type a") (simp_all add: add_adjustment_def Add_match adj_sum_def add.assoc)
qed

lemma add_item_adjustments_Ok:
  "\<forall>i \<in> set is. adjs_in cur (pi_Adjustments i) \<Longrightarrow>
   add_item_adjustments (in_cur cur d, in_cur cur t, in_cur cur f) is =
     Ok (in_cur cur (d + adj_sum AdjustmentDiscount (concat (map pi_Adjustments is))),
         in_cur cur (t + adj_sum AdjustmentTax (concat (map pi_Adjustments is))),
         in_cur cur (f + adj_sum AdjustmentFee (concat (map pi_Adjustments is))))"
proof (induction "is" arbitrary: d t f)
  case Nil
  then show ?case by (simp add: adj_sum_def)
next
  case (Cons i "is")
  then show ?case by (simp add: add_adjustments_Ok adj_sum_append add.assoc)
qed

text \<open>On a well-formed context the finalize step succeeds, with the totals in 64-bit arithmetic.\<close>

lemma FinalizeStep_Ok:
  assumes "pctx_ok c"
  shows "FinalizeStep_Apply c = Ok (c\<lparr>
    pc_Subtotal := in_cur (pc_Currency c) (\<Sum>i\<leftarrow>pc_Items c. m_amount (pi_Total i)),
    pc_DiscountsTotal := in_cur (pc_Currency c) (adj_sum AdjustmentDiscount (all_adjs c)),
    pc_TaxTotal := in_cur (pc_Currency c) (adj_sum AdjustmentTax (all_adjs c)),
    pc_FeesTotal := in_cur (pc_Currency c) (adj_sum AdjustmentFee (all_adjs c)),
    pc_GrandTotal := in_cur (pc_Currency c)
      ((\<Sum>i\<leftarrow>pc_Items c. m_amount (pi_Total i)) - adj_sum AdjustmentDiscount (all_adjs c) +
       adj_sum AdjustmentTax (all_adjs c) + adj_sum AdjustmentFee (all_adjs c))\<rparr>)"
  using assms
  by (simp add: FinalizeStep_Apply_def pctx_ok_def item_in_def MustZero_valid add_totals_Ok
      add_item_adjustments_Ok add_adjustments_Ok Sub_match Add_match all_adjs_def adj_sum_append)

lemma FinalizeStep_keeps:
  "FinalizeStep_Apply c = Ok c' \<Longrightarrow> pc_Items c' = pc_Items c \<and> pc_Adjustments c' = pc_Adjustments c \<and>
     pc_Currency c' = pc_Currency c"
  by (auto simp: FinalizeStep_Apply_def split: prod.splits)

text \<open>The contract of a pipeline step: what it keeps of the context.\<close>

locale step_contract =
  fixes inv :: "pricing_context \<Rightarrow> bool"
    and good :: "pricing_step \<Rightarrow> bool"
  assumes step_keeps: "good s \<Longrightarrow> inv c \<Longrightarrow> st_apply s c = Ok c' \<Longrightarrow> inv c'"
    and step_safe: "good s \<Longrightarrow> inv c \<Longrightarrow> st_apply s c \<noteq> Panics p"
begin

lemma pipeline_keeps:
  "\<forall>s \<in> set steps. good s \<Longrightarrow> inv c \<Longrightarrow> Pipeline_Execute steps c = Ok c' \<Longrightarrow> inv c'"
  by (induction steps arbitrary: c) (auto split: outcome.splits dest: step_keeps)

lemma pipeline_safe:
  "\<forall>s \<in> set steps. good s \<Longrightarrow> inv c \<Longrightarrow> Pipeline_Execute steps c \<noteq> Panics p"
  by (induction steps arbitrary: c) (auto split: outcome.splits dest: step_keeps step_safe)

end

text \<open>Steps that keep the context in one currency and never panic on such a context.\<close>

definition currency_safe :: "pricing_step \<Rightarrow> bool" where
  "currency_safe s \<longleftrightarrow> (\<forall>c. pctx_ok c \<longrightarrow>
     (case st_apply s c of Ok c' \<Rightarrow> pctx_ok c' \<and> pc_Currency c' = pc_Currency c
                         | Fail _ \<Rightarrow> True | Panics _ \<Rightarrow> False))"

interpretation price_steps: step_contract "\<lambda>c. pctx_ok c \<and> pc_Currency c = cur" currency_safe for cur
proof
  fix s c c' p
  assume s: "currency_safe s" and c: "pctx_ok c \<and> pc_Currency c = cur"
  then have step: "case st_apply s c of Ok d \<Rightarrow> pctx_ok d \<and> pc_Currency d = pc_Currency c
      | Fail _ \<Rightarrow> True | Panics _ \<Rightarrow> False"
    unfolding currency_safe_def by blast
  show "st_apply s c = Ok c' \<Longrightarrow> pctx_ok c' \<and> pc_Currency c' = cur" using step c by simp
  show "st_apply s c \<noteq> Panics p" using step by auto
qed

definition FinalizeStep :: pricing_step where
  "FinalizeStep = \<lparr>st_name = ''finalize'', st_apply = FinalizeStep_Apply\<rparr>"

lemma FinalizeStep_safe: "currency_safe FinalizeStep"
proof -
  have "\<exists>c'. FinalizeStep_Apply c = Ok c' \<and> pctx_ok c' \<and> pc_Currency c' = pc_Currency c" if c: "pctx_ok c" for c
  proof -
    obtain c' where c': "FinalizeStep_Apply c = Ok c'" using FinalizeStep_Ok [OF c] by blast
    from FinalizeStep_keeps [OF c'] c have "pctx_ok c' \<and> pc_Currency c' = pc_Currency c"
      by (simp add: pctx_ok_def)
    with c' show ?thesis by blast
  qed
  then show ?thesis by (fastforce simp: currency_safe_def FinalizeStep_def)
qed

lemma Pipeline_Execute_append:
  "Pipeline_Execute (ss @ ts) c = bindO (Pipeline_Execute ss c) (Pipeline_Execute ts)"
  by (induction ss arbitrary: c) (auto split: outcome.splits)

section \<open>Properties\<close>

definition demo_pctx :: pricing_context where
  "demo_pctx = \<lparr>pc_Currency = ''EUR'',
     pc_Items = [\<lparr>pi_VariantID = ''v1'', pi_Quantity = 2, pi_UnitPrice = in_cur ''EUR'' 500,
       pi_Total = in_cur ''EUR'' 1000,
       pi_Adjustments = [\<lparr>adj_Type = AdjustmentDiscount, adj_Code = ''p'', adj_Description = [],
         adj_Amount = in_cur ''EUR'' 100, adj_Included = False, adj_Meta = (\<lambda>_. None)\<rparr>]\<rparr>],
     pc_Subtotal = in_cur ''EUR'' 0, pc_DiscountsTotal = in_cur ''EUR'' 0, pc_TaxTotal = in_cur ''EUR'' 0,
     pc_FeesTotal = in_cur ''EUR'' 0, pc_GrandTotal = in_cur ''EUR'' 0, pc_Adjustments = [],
     pc_Meta = (\<lambda>_. None)\<rparr>"

lemma demo_pctx_ok: "pctx_ok demo_pctx"
  by (simp add: demo_pctx_def pctx_ok_def item_in_def adjs_in_def IsValidCurrency_def
      is_upper_letter_def byte_val_def)

text \<open>C25: on a context whose amounts are all in its currency the finalize step succeeds, keeps
  lines and adjustments, and the grand total is the line totals minus discounts plus taxes plus
  fees over lines and context; it is exact whenever the mathematical result fits in 64 bits,
  even if an intermediate sum wraps; and applying the step again changes nothing.\<close>

theorem FinalizeStep_correct:
  assumes "pctx_ok c"
  shows "\<exists>c'. FinalizeStep_Apply c = Ok c' \<and> FinalizeStep_Apply c' = Ok c' \<and>
    pc_Items c' = pc_Items c \<and> pc_Adjustments c' = pc_Adjustments c \<and>
    m_currency (pc_GrandTotal c') = pc_Currency c \<and>
    (let grand = (\<Sum>i\<leftarrow>pc_Items c. cents (pi_Total i)) - adj_cents AdjustmentDiscount (all_adjs c) +
                 adj_cents AdjustmentTax (all_adjs c) + adj_cents AdjustmentFee (all_adjs c) in
     in_int64 grand \<longrightarrow> cents (pc_GrandTotal c') = grand)"
proof -
  define sub where "sub = (\<Sum>i\<leftarrow>pc_Items c. m_amount (pi_Total i))"
  have sub: "sub = word_of_int (\<Sum>i\<leftarrow>pc_Items c. cents (pi_Total i))"
    by (simp add: sub_def word_of_int_sum_list)
  obtain c' where c': "FinalizeStep_Apply c = Ok c'" and keep: "pc_Items c' = pc_Items c"
      "pc_Adjustments c' = pc_Adjustments c" "pc_Currency c' = pc_Currency c"
    and grand: "pc_GrandTotal c' = in_cur (pc_Currency c) (sub - adj_sum AdjustmentDiscount (all_adjs c) +
       adj_sum AdjustmentTax (all_adjs c) + adj_sum AdjustmentFee (all_adjs c))"
    using FinalizeStep_Ok [OF assms] by (simp add: sub_def)
  have "pctx_ok c'" "all_adjs c' = all_adjs c" using assms keep by (simp_all add: pctx_ok_def all_adjs_def)
  then have "FinalizeStep_Apply c' = Ok c'"
    using FinalizeStep_Ok [OF assms] FinalizeStep_Ok [of c'] c' keep by simp
  moreover define grand where "grand = (\<Sum>i\<leftarrow>pc_Items c. cents (pi_Total i)) -
      adj_cents AdjustmentDiscount (all_adjs c) + adj_cents AdjustmentTax (all_adjs c) +
      adj_cents AdjustmentFee (all_adjs c)"
  moreover have "m_amount (pc_GrandTotal c') = word_of_int grand"
    by (simp add: grand sub adj_sum_cents grand_def)
  then have "in_int64 grand \<Longrightarrow> cents (pc_GrandTotal c') = grand" by (simp only: sint_of_int)
  ultimately show ?thesis using c' keep grand unfolding Let_def by auto
qed

theorem FinalizeStep_correct_witness:
  "\<exists>c'. FinalizeStep_Apply demo_pctx = Ok c' \<and> cents (pc_GrandTotal c') = 900"
  using FinalizeStep_correct [OF demo_pctx_ok]
  by (auto simp: Let_def demo_pctx_def all_adjs_def adj_cents_def in_int64_def)

text \<open>The pipeline runs its steps in order and stops at the first error, which it reports
  with that step's name: a failing run is a succeeding run of some steps followed by one that
  fails, and none of the later steps matter.\<close>

lemma Pipeline_first_error:
  "Pipeline_Execute steps c = Fail e \<longleftrightarrow>
     (\<exists>ss s ts c' e'. steps = ss @ s # ts \<and> Pipeline_Execute ss c = Ok c' \<and> st_apply s c' = Fail e' \<and>
        e = Wrap (''pipeline: step '' @ st_name s) e')"
proof
  show "Pipeline_Execute steps c = Fail e \<Longrightarrow> \<exists>ss s ts c' e'. steps = ss @ s # ts \<and>
      Pipeline_Execute ss c = Ok c' \<and> st_apply s c' = Fail e' \<and>
      e = Wrap (''pipeline: step '' @ st_name s) e'"
  proof (induction steps arbitrary: c)
    case (Cons s steps)
    show ?case
    proof (cases "st_apply s c")
      case (Ok c1)
      with Cons.prems have "Pipeline_Execute steps c1 = Fail e" by simp
      from Cons.IH [OF this] obtain ss s' ts c' e' where "steps = ss @ s' # ts"
        "Pipeline_Execute ss c1 = Ok c'" "st_apply s' c' = Fail e'" "e = Wrap (''pipeline: step '' @ st_name s') e'"
        by blast
      then show ?thesis using Ok by - (rule exI [of _ "s # ss"], rule exI [of _ s'], rule exI [of _ ts], auto)
    next
      case (Fail e')
      then show ?thesis using Cons.prems by - (rule exI [of _ "[]"], rule exI [of _ s], auto)
    qed (use Cons.prems in simp)
  qed simp
qed (auto simp: Pipeline_Execute_append)

end
