(* ===== verification/Tax.thy ===== *)
theory Tax
  imports Pricing Catalog
begin

text \<open>
  Tax: rates, classes and the tax of a price (\<open>internal/domain/tax\<close>:
  \<open>tax_rate.go\<close>, \<open>tax_class.go\<close>, \<open>calculate.go\<close>), the per-line rate table
  calculator and the normalisation of the tax classes of a cart
  (\<open>internal/application/pricing\<close>: \<open>rate_table_calculator.go\<close>, \<open>tax_step.go\<close>,
  \<open>tax_classes.go\<close>). The rate repository, the UUID test and the printing of a
  percentage are arguments.
\<close>

section \<open>Rates and classes\<close>

definition NewTaxClass :: "string \<Rightarrow> string outcome" where
  "NewTaxClass code = (if code = [] then Fail (Err ''tax class code must not be empty'') else Ok code)"

definition IsKnownClass :: "string \<Rightarrow> bool" where
  "IsKnownClass code \<longleftrightarrow> code = ''standard'' \<or> code = ''digital'' \<or> code = ''reduced'' \<or> code = ''zero''"

datatype tax_mode = ModeExclusive | ModeInclusive | TaxModeOther string

fun TaxMode_IsValid :: "tax_mode \<Rightarrow> bool" where
  "TaxMode_IsValid (TaxModeOther _) = False"
| "TaxMode_IsValid _ = True"

definition tax_mode_of_string :: "string \<Rightarrow> tax_mode" where
  "tax_mode_of_string s =
     (if s = ''exclusive'' then ModeExclusive
      else if s = ''inclusive'' then ModeInclusive else TaxModeOther s)"

record tax_rate =
  tr_ID :: string
  tr_Country :: string
  tr_Class :: string
  tr_StoreID :: string
  tr_Rate :: int64

text \<open>The regular expression \<open>^[A-Z]{2}$\<close>.\<close>

definition country_code_ok :: "string \<Rightarrow> bool" where
  "country_code_ok s \<longleftrightarrow> length s = 2 \<and> list_all is_upper_letter s"

definition NewTaxRate ::
    "(string \<Rightarrow> bool) \<Rightarrow> string \<Rightarrow> string \<Rightarrow> string \<Rightarrow> string \<Rightarrow> int64 \<Rightarrow> tax_rate outcome" where
  "NewTaxRate uuid_ok rateID country cls storeID rate =
     (if rateID = [] then Fail (Err ''tax rate id must not be empty'')
      else if \<not> uuid_ok rateID then Fail (Err ''tax rate id must be a valid UUID'')
      else if \<not> country_code_ok country
        then Fail (ErrWith ''tax rate: invalid country code: '' [country])
      else if cls = [] then Fail (Err ''tax rate class must not be empty'')
      else if rate <s 0 then Fail (Err ''tax rate must not be negative'')
      else Ok \<lparr>tr_ID = rateID, tr_Country = country, tr_Class = cls, tr_StoreID = storeID,
               tr_Rate = rate\<rparr>)"

definition MissingRateFailsClosed :: "string \<Rightarrow> tax_rate option \<Rightarrow> bool" where
  "MissingRateFailsClosed cls rate =
     (if cls \<noteq> ''digital'' then False
      else case rate of None \<Rightarrow> True | Some r \<Rightarrow> tr_Rate r = 0)"

section \<open>The tax of a price\<close>

definition go_abs :: "int64 \<Rightarrow> int64" where "go_abs a = (if a <s 0 then - a else a)"

definition Tax_Calculate :: "money \<Rightarrow> tax_rate \<Rightarrow> tax_mode \<Rightarrow> money outcome" where
  "Tax_Calculate price rate mode =
     (if \<not> TaxMode_IsValid mode then Fail (Err ''tax: invalid mode'')
      else
        let amount = m_amount price; currency = m_currency price in
        case mode of
          ModeExclusive \<Rightarrow>
            if tr_Rate rate \<noteq> 0 \<and> go_div MaxInt64 (tr_Rate rate) <s go_abs amount
            then Fail (Err ''tax: exclusive calculation overflow'')
            else NewMoney (go_div (amount * tr_Rate rate) 10000) currency
        | ModeInclusive \<Rightarrow>
            if go_div MaxInt64 10000 <s go_abs amount
            then Fail (Err ''tax: inclusive calculation overflow'')
            else if 10000 + tr_Rate rate = 0 then Panics ''integer divide by zero''
            else NewMoney (amount - go_div (amount * 10000) (10000 + tr_Rate rate)) currency
        | TaxModeOther _ \<Rightarrow> NewMoney 0 currency)"

section \<open>The tax classes of a cart\<close>

definition coerceTaxClasses :: "meta_val option \<Rightarrow> (string \<times> string) list option outcome" where
  "coerceTaxClasses raw =
     (case raw of
        None \<Rightarrow> Ok None
      | Some MNil \<Rightarrow> Ok None
      | Some (MStrMap v) \<Rightarrow> Ok (Some v)
      | Some (MAnyMap v) \<Rightarrow>
          (case find (\<lambda>kv. case snd kv of MStr _ \<Rightarrow> False | _ \<Rightarrow> True) v of
             Some kv \<Rightarrow> Fail (AppErr Validation (''tax_classes: value must be a string for variant '' @ fst kv))
           | None \<Rightarrow> Ok (Some (map (\<lambda>kv. (fst kv, case snd kv of MStr s \<Rightarrow> s | _ \<Rightarrow> [])) v)))
      | Some _ \<Rightarrow> Fail (AppErr Validation ''tax_classes: must be map[string]string''))"

record line_tax_class =
  ltc_VariantID :: string
  ltc_ProductType :: product_type

fun check_classes :: "(string \<times> string) list \<Rightarrow> unit outcome" where
  "check_classes [] = Ok ()"
| "check_classes ((vid, cls) # kvs) =
     (if cls = [] then Fail (AppErr Validation (''tax_classes: empty class is not a valid override for variant '' @ vid))
      else if \<not> IsKnownClass cls
        then Fail (AppErr Validation (''tax_classes: unknown class '' @ cls @ '' for variant '' @ vid))
      else check_classes kvs)"

fun fill_classes :: "(string \<times> string) list \<Rightarrow> line_tax_class list \<Rightarrow> (string \<times> string) list" where
  "fill_classes classes [] = classes"
| "fill_classes classes (l # ls) =
     (if ltc_VariantID l = [] then fill_classes classes ls
      else if map_of classes (ltc_VariantID l) \<noteq> None then fill_classes classes ls
      else fill_classes (classes @ [(ltc_VariantID l, TaxClassCode (ltc_ProductType l))]) ls)"

definition EnsureTaxClasses :: "meta option \<Rightarrow> line_tax_class list \<Rightarrow> meta outcome" where
  "EnsureTaxClasses meta_opt lines =
     (case meta_opt of
        None \<Rightarrow> Fail (AppErr Validation ''tax_classes: meta must not be nil'')
      | Some m \<Rightarrow>
          bindO (coerceTaxClasses (m ''tax_classes'')) (\<lambda>c.
          let classes = (case c of None \<Rightarrow> [] | Some v \<Rightarrow> v) in
          bindO (check_classes classes) (\<lambda>_.
          Ok (m(''tax_classes'' \<mapsto> MStrMap (fill_classes classes lines))))))"

definition TaxClassesFromMeta :: "meta option \<Rightarrow> (string \<times> string) list option" where
  "TaxClassesFromMeta meta_opt =
     (case meta_opt of
        None \<Rightarrow> None
      | Some m \<Rightarrow> (case coerceTaxClasses (m ''tax_classes'') of Ok c \<Rightarrow> c | _ \<Rightarrow> None))"

section \<open>The rate table calculator\<close>

definition metaString :: "meta \<Rightarrow> string \<Rightarrow> string outcome" where
  "metaString m key =
     (case m key of
        None \<Rightarrow> Fail (ErrWith ''missing required meta key '' [key])
      | Some (MStr s) \<Rightarrow> Ok s
      | Some _ \<Rightarrow> Fail (ErrWith ''meta key must be a string '' [key]))"

definition optionalMetaString :: "meta \<Rightarrow> string \<Rightarrow> string outcome" where
  "optionalMetaString m key =
     (case m key of
        None \<Rightarrow> Ok []
      | Some (MStr s) \<Rightarrow> Ok s
      | Some _ \<Rightarrow> Fail (ErrWith ''meta key must be a string '' [key]))"

text \<open>The rate repository answers a country, class and store with a row, nothing or an error.\<close>

type_synonym rate_repo = "string \<Rightarrow> string \<Rightarrow> string \<Rightarrow> gerror + tax_rate option"

definition find_rate :: "rate_repo \<Rightarrow> string \<Rightarrow> string \<Rightarrow> string \<Rightarrow> string \<Rightarrow> tax_rate option outcome" where
  "find_rate rates country cls storeID vid =
     (case rates country cls storeID of
        Inl e \<Rightarrow> Fail (Wrap (''tax calculator: variant '' @ vid) e)
      | Inr (Some r) \<Rightarrow> Ok (Some r)
      | Inr None \<Rightarrow>
          if storeID = [] then Ok None
          else (case rates country cls [] of
                  Inl e \<Rightarrow> Fail (Wrap (''tax calculator: variant '' @ vid @ '' (fallback)'') e)
                | Inr r \<Rightarrow> Ok r))"

definition line_class :: "string \<Rightarrow> (string \<times> string) list option \<Rightarrow> string \<Rightarrow> string" where
  "line_class defaultClass classes vid =
     (case classes of
        None \<Rightarrow> defaultClass
      | Some cs \<Rightarrow> (case map_of cs vid of None \<Rightarrow> defaultClass | Some cls \<Rightarrow> cls))"

text \<open>The adjustment of a line; \<open>pct\<close> prints a rate as \<open>%.2f\<close> percent.\<close>

definition tax_adjustment ::
    "(int64 \<Rightarrow> string) \<Rightarrow> string \<Rightarrow> tax_rate \<Rightarrow> tax_mode \<Rightarrow> money \<Rightarrow> adjustment outcome" where
  "tax_adjustment pct vid r mode taxAmount =
     bindO (mapErr (Wrap (''tax calculator: adjustment: variant '' @ vid))
              (NewAdjustment AdjustmentTax (''tax.'' @ tr_Country r @ ''.'' @ tr_Class r) taxAmount)) (\<lambda>adj0.
     let adj = adj0\<lparr>adj_Description := ''VAT '' @ pct (tr_Rate r) @ ''% ('' @ tr_Country r @ '')''\<rparr> in
     Ok (if mode = ModeInclusive then adj\<lparr>adj_Included := True\<rparr> else adj))"

text \<open>The body of the loop over the items.\<close>

definition tax_item ::
    "rate_repo \<Rightarrow> (int64 \<Rightarrow> string) \<Rightarrow> string \<Rightarrow> (string \<times> string) list option \<Rightarrow> string \<Rightarrow> string \<Rightarrow> tax_mode \<Rightarrow>
     pricing_item \<Rightarrow> pricing_item outcome" where
  "tax_item rates pct defaultClass classes country storeID mode item =
     (let cls = line_class defaultClass classes (pi_VariantID item) in
      bindO (find_rate rates country cls storeID (pi_VariantID item)) (\<lambda>rate.
      if MissingRateFailsClosed cls rate
      then Fail (AppErr Validation (''tax calculator: refusing 0% VAT for variant '' @ pi_VariantID item))
      else case rate of
        None \<Rightarrow> Ok item
      | Some r \<Rightarrow>
          if tr_Rate r = 0 then Ok item
          else
            bindO (mapErr (Wrap (''tax calculator: variant '' @ pi_VariantID item))
                     (Tax_Calculate (pi_Total item) r mode)) (\<lambda>taxAmount.
            bindO (tax_adjustment pct (pi_VariantID item) r mode taxAmount) (\<lambda>adj.
            bindO (if mode = ModeInclusive then Sub (pi_Total item) taxAmount else Ok (pi_Total item)) (\<lambda>tot.
            Ok (item\<lparr>pi_Total := tot, pi_Adjustments := pi_Adjustments item @ [adj]\<rparr>))))))"

fun tax_items :: "(pricing_item \<Rightarrow> pricing_item outcome) \<Rightarrow> pricing_item list \<Rightarrow> pricing_item list outcome" where
  "tax_items f [] = Ok []"
| "tax_items f (i # is) = bindO (f i) (\<lambda>j. bindO (tax_items f is) (\<lambda>js. Ok (j # js)))"

definition RateTable_Calculate ::
    "rate_repo \<Rightarrow> (int64 \<Rightarrow> string) \<Rightarrow> string \<Rightarrow> pricing_context \<Rightarrow> pricing_context outcome" where
  "RateTable_Calculate rates pct defaultClass pctx =
     (let m = pc_Meta pctx in
      if m ''tax_country'' = None \<and> m ''tax_mode'' = None then Ok pctx
      else
        bindO (mapErr (Wrap ''tax calculator'') (metaString m ''tax_country'')) (\<lambda>country.
        bindO (mapErr (Wrap ''tax calculator'') (metaString m ''tax_mode'')) (\<lambda>modeStr.
        let mode = tax_mode_of_string modeStr in
        if \<not> TaxMode_IsValid mode then Fail (ErrWith ''tax calculator: invalid tax_mode: '' [modeStr])
        else
          bindO (mapErr (Wrap ''tax calculator'') (optionalMetaString m ''store_id'')) (\<lambda>storeID.
          bindO (mapErr (Wrap ''tax calculator'') (coerceTaxClasses (m ''tax_classes''))) (\<lambda>classes.
          bindO (tax_items (tax_item rates pct defaultClass classes country storeID mode) (pc_Items pctx)) (\<lambda>items.
          Ok (pctx\<lparr>pc_Items := items\<rparr>)))))))"

text \<open>A step without a calculator does nothing.\<close>

definition TaxStep_Apply ::
    "(pricing_context \<Rightarrow> pricing_context outcome) option \<Rightarrow> pricing_context \<Rightarrow> pricing_context outcome" where
  "TaxStep_Apply calc pctx = (case calc of None \<Rightarrow> Ok pctx | Some f \<Rightarrow> f pctx)"

definition TaxStep :: "rate_repo \<Rightarrow> (int64 \<Rightarrow> string) \<Rightarrow> string \<Rightarrow> pricing_step" where
  "TaxStep rates pct defaultClass =
     \<lparr>st_name = ''tax'', st_apply = TaxStep_Apply (Some (RateTable_Calculate rates pct defaultClass))\<rparr>"

section \<open>Lemmas\<close>

lemma sint_go_abs: "a \<noteq> MinInt64 \<Longrightarrow> sint (go_abs a) = \<bar>sint a\<bar>"
proof -
  assume a: "a \<noteq> MinInt64"
  then have "sint a \<noteq> - (2 ^ 63)" by (metis sint_MinInt64 signed_word_eqI)
  then have "in_int64 (0 - sint a)" using sint_ge [of a] sint_lt [of a] by (simp add: in_int64_def)
  then have "sint (- a) = - sint a" using sint_minus_exact [of 0 a] by simp
  then show ?thesis by (simp add: go_abs_def i64)
qed

lemma over_quotient_iff:
  assumes "0 < sint q" "a \<noteq> MinInt64"
  shows "go_div MaxInt64 q <s go_abs a \<longleftrightarrow> 2 ^ 63 \<le> \<bar>sint a\<bar> * sint q"
proof -
  have "sint (go_div MaxInt64 q) = (2 ^ 63 - 1) div sint q"
    using assms(1) by (simp add: sint_go_div_pos sdiv_nonneg_int)
  then have "\<not> go_div MaxInt64 q <s go_abs a \<longleftrightarrow> \<bar>sint a\<bar> \<le> (2 ^ 63 - 1) div sint q"
    using assms(2) by (simp add: i64 sint_go_abs not_less)
  then have "\<not> go_div MaxInt64 q <s go_abs a \<longleftrightarrow> \<bar>sint a\<bar> * sint q \<le> 2 ^ 63 - 1"
    using le_div_iff_mult [OF assms(1)] by simp
  then show ?thesis by linarith
qed

lemma sdiv_neg: "(- k) sdiv l = - (k sdiv (l :: int))"
  by (simp add: signed_divide_int_def sgn_mult)

text \<open>Truncating division by a larger divisor than the factor keeps sign and does not grow.\<close>

lemma sdiv_scaled_bounds:
  assumes "0 \<le> (a :: int)" "0 < q" "q \<le> r"
  shows "0 \<le> (a * q) sdiv r" "(a * q) sdiv r \<le> a"
proof -
  have eq: "(a * q) sdiv r = (a * q) div r" using assms by (intro sdiv_nonneg_int) auto
  show "0 \<le> (a * q) sdiv r" using assms by (simp add: eq pos_imp_zdiv_nonneg_iff)
  have "a * q \<le> a * r" using assms by (simp add: mult_left_mono)
  then have "(a * q) div r \<le> (a * r) div r" using assms by (intro zdiv_mono1) auto
  then show "(a * q) sdiv r \<le> a" using assms eq by simp
qed

lemma in_int64_abs: "\<bar>k\<bar> < 2 ^ 63 \<Longrightarrow> in_int64 k"
  by (auto simp: in_int64_def abs_less_iff)

lemma Tax_exclusive:
  assumes "0 \<le> sint (tr_Rate r)" "m_amount price \<noteq> MinInt64" "IsValidCurrency (m_currency price)"
  shows "Tax_Calculate price r ModeExclusive =
    (if 2 ^ 63 \<le> \<bar>cents price\<bar> * sint (tr_Rate r) then Fail (Err ''tax: exclusive calculation overflow'')
     else Ok \<lparr>m_amount = word_of_int ((cents price * sint (tr_Rate r)) sdiv 10000), m_currency = m_currency price\<rparr>)"
proof -
  have "sint (m_amount price * tr_Rate r) = cents price * sint (tr_Rate r)"
    if "\<bar>cents price\<bar> * sint (tr_Rate r) < 2 ^ 63"
    using that assms(1) by (intro sint_times_exact in_int64_abs) (simp add: abs_mult)
  moreover have "0 < sint (tr_Rate r)" if "tr_Rate r \<noteq> 0"
    using that assms(1) by (simp add: order.strict_iff_order signed_eq_0_iff)
  ultimately show ?thesis
    using assms over_quotient_iff [of "tr_Rate r" "m_amount price"]
    by (cases "tr_Rate r = 0") (auto simp: Tax_Calculate_def Let_def NewMoney_def go_div_def)
qed

lemma Tax_inclusive:
  assumes "0 \<le> sint (tr_Rate r)" "sint (tr_Rate r) < 2 ^ 63 - 10000" "m_amount price \<noteq> MinInt64"
    and "IsValidCurrency (m_currency price)"
  shows "Tax_Calculate price r ModeInclusive =
    (if 2 ^ 63 \<le> \<bar>cents price\<bar> * 10000 then Fail (Err ''tax: inclusive calculation overflow'')
     else Ok \<lparr>m_amount = m_amount price - word_of_int ((cents price * 10000) sdiv (10000 + sint (tr_Rate r))),
              m_currency = m_currency price\<rparr>)"
proof -
  have d: "sint (10000 + tr_Rate r) = 10000 + sint (tr_Rate r)"
    using assms(1,2) sint_plus_exact [of 10000 "tr_Rate r"] by (simp add: in_int64_def)
  then have "10000 + tr_Rate r \<noteq> 0" using assms(1) by (metis add_pos_nonneg order_less_irrefl sint_0 zero_less_numeral)
  moreover have "sint (m_amount price * 10000) = cents price * 10000" if "\<bar>cents price\<bar> * 10000 < 2 ^ 63"
    using that sint_times_exact [of "m_amount price" 10000] by (simp add: in_int64_abs abs_mult)
  moreover have "go_div MaxInt64 10000 <s go_abs (m_amount price) \<longleftrightarrow> 2 ^ 63 \<le> \<bar>cents price\<bar> * 10000"
    using over_quotient_iff [of 10000 "m_amount price"] assms(3) by simp
  ultimately show ?thesis
    using assms(4) d by (auto simp: Tax_Calculate_def Let_def NewMoney_def go_div_def)
qed

lemma Tax_Calculate_currency: "Tax_Calculate p r mode = Ok t \<Longrightarrow> m_currency t = m_currency p"
  by (auto simp: Tax_Calculate_def Let_def NewMoney_def split: if_splits tax_mode.splits)

lemma NewAdjustment_Ok: "NewAdjustment typ code amount = Ok a \<Longrightarrow> adj_Type a = typ \<and> adj_Amount a = amount"
  by (auto simp: NewAdjustment_def split: if_splits)

text \<open>What the loop body does to one line.\<close>

text \<open>The tax of an amount over the integers, rounded towards zero.\<close>

definition tax_cents :: "bool \<Rightarrow> int \<Rightarrow> int \<Rightarrow> int" where
  "tax_cents inclusive amount rate =
     (if inclusive then amount - (amount * 10000) sdiv (10000 + rate) else (amount * rate) sdiv 10000)"

lemma exclusive_exact:
  assumes "0 \<le> sint r" "\<bar>sint p\<bar> * sint r < 2 ^ 63"
  shows "sint (word_of_int ((sint p * sint r) sdiv 10000) :: int64) = (sint p * sint r) sdiv 10000"
proof (rule sint_of_int [OF in_int64_abs])
  have "\<bar>(sint p * sint r) sdiv 10000\<bar> \<le> \<bar>sint p * sint r\<bar>" by (rule sdiv_abs_le) simp
  also have "\<dots> = \<bar>sint p\<bar> * sint r" using assms(1) by (simp add: abs_mult)
  finally show "\<bar>(sint p * sint r) sdiv 10000\<bar> < 2 ^ 63" using assms(2) by linarith
qed

lemma net_bounds:
  fixes rate p :: int
  assumes "0 \<le> rate"
  shows "0 \<le> p \<Longrightarrow> 0 \<le> (p * 10000) sdiv (10000 + rate) \<and> (p * 10000) sdiv (10000 + rate) \<le> p"
    "p < 0 \<Longrightarrow> p \<le> (p * 10000) sdiv (10000 + rate) \<and> (p * 10000) sdiv (10000 + rate) \<le> 0"
proof -
  show "0 \<le> p \<Longrightarrow> 0 \<le> (p * 10000) sdiv (10000 + rate) \<and> (p * 10000) sdiv (10000 + rate) \<le> p"
    using sdiv_scaled_bounds [of p 10000 "10000 + rate"] assms by simp
  have "(p * 10000) sdiv (10000 + rate) = - (((- p) * 10000) sdiv (10000 + rate))" by simp
  then show "p < 0 \<Longrightarrow> p \<le> (p * 10000) sdiv (10000 + rate) \<and> (p * 10000) sdiv (10000 + rate) \<le> 0"
    using sdiv_scaled_bounds [of "- p" 10000 "10000 + rate"] assms by simp
qed

lemma inclusive_exact:
  assumes "0 \<le> rate"
  shows "sint (p - word_of_int ((sint p * 10000) sdiv (10000 + rate)) :: int64) = sint p - (sint p * 10000) sdiv (10000 + rate)"
proof -
  let ?net = "(sint p * 10000) sdiv (10000 + rate)"
  have "in_int64 ?net" "in_int64 (sint p - ?net)"
    using net_bounds [OF assms, of "sint p"] sint_upper [of p] sint_lower [of p]
    by (cases "sint p < 0"; simp add: in_int64_def)+
  then show ?thesis using sint_minus_exact [of p "word_of_int ?net"] sint_of_int [of ?net] by simp
qed

lemma Tax_Calculate_Ok:
  assumes "Tax_Calculate p r mode = Ok t" "0 \<le> sint (tr_Rate r)" "sint (tr_Rate r) < 2 ^ 63 - 10000" "m_amount p \<noteq> MinInt64"
    and "IsValidCurrency (m_currency p)" "mode = ModeInclusive \<or> mode = ModeExclusive"
  shows "cents t = tax_cents (mode = ModeInclusive) (cents p) (sint (tr_Rate r)) \<and> m_currency t = m_currency p"
proof (cases "mode = ModeInclusive")
  case True
  then show ?thesis
    using assms(1) inclusive_exact [OF assms(2), of "m_amount p"] unfolding Tax_inclusive [OF assms(2-5), folded True]
    by (auto simp: tax_cents_def split: if_splits)
next
  case False
  then have mode: "mode = ModeExclusive" using assms(6) by simp
  show ?thesis
    using assms(1) exclusive_exact [OF assms(2), of "m_amount p"] False unfolding Tax_exclusive [OF assms(2,4,5), folded mode]
    by (auto simp: tax_cents_def not_le split: if_splits)
qed

definition taxed :: "tax_mode \<Rightarrow> pricing_item \<Rightarrow> pricing_item \<Rightarrow> bool" where
  "taxed mode i j \<longleftrightarrow> (\<exists>a r. Tax_Calculate (pi_Total i) r mode = Ok (adj_Amount a) \<and> tr_Rate r \<noteq> 0 \<and>
     adj_Type a = AdjustmentTax \<and> adj_Included a = (mode = ModeInclusive) \<and>
     j = i\<lparr>pi_Total := pi_Total j, pi_Adjustments := pi_Adjustments i @ [a]\<rparr> \<and>
     (if mode = ModeInclusive then Sub (pi_Total i) (adj_Amount a) = Ok (pi_Total j)
      else pi_Total j = pi_Total i))"

lemma tax_adjustment_Ok:
  "tax_adjustment pct vid r mode t = Ok a \<Longrightarrow>
     adj_Type a = AdjustmentTax \<and> adj_Amount a = t \<and> adj_Included a = (mode = ModeInclusive)"
  by (auto simp: tax_adjustment_def NewAdjustment_def Let_def split: if_splits)

lemma tax_adjustment_safe: "tax_adjustment pct vid r mode t \<noteq> Panics p"
  by (simp add: tax_adjustment_def NewAdjustment_def Let_def)

lemma Sub_currency: "Sub m n = Ok t \<Longrightarrow> m_currency t = m_currency m"
  by (auto simp: Sub_def)

lemma tax_item_Ok:
  assumes "tax_item rates pct dc classes country storeID mode i = Ok j"
  shows "taxed mode i j \<or> (j = i \<and> line_class dc classes (pi_VariantID i) \<noteq> ''digital'')"
proof -
  let ?cls = "line_class dc classes (pi_VariantID i)"
  obtain rate where rate: "find_rate rates country ?cls storeID (pi_VariantID i) = Ok rate"
    and open_: "\<not> MissingRateFailsClosed ?cls rate"
    using assms by (auto simp: tax_item_def Let_def split: if_splits)
  show ?thesis
  proof (cases "case rate of None \<Rightarrow> True | Some r \<Rightarrow> tr_Rate r = 0")
    case True
    then have "j = i" using assms rate open_ by (auto simp: tax_item_def Let_def split: option.splits)
    moreover have "?cls \<noteq> ''digital''"
      using True open_ by (auto simp: MissingRateFailsClosed_def split: option.splits)
    ultimately show ?thesis by blast
  next
    case False
    then obtain r where r: "rate = Some r" "tr_Rate r \<noteq> 0" by (cases rate) auto
    with assms rate open_ obtain t a tot where t: "Tax_Calculate (pi_Total i) r mode = Ok t"
      and a: "tax_adjustment pct (pi_VariantID i) r mode t = Ok a"
      and tot: "(if mode = ModeInclusive then Sub (pi_Total i) t else Ok (pi_Total i)) = Ok tot"
      and j: "j = i\<lparr>pi_Total := tot, pi_Adjustments := pi_Adjustments i @ [a]\<rparr>"
      unfolding tax_item_def Let_def by auto
    have "adj_Type a = AdjustmentTax" "adj_Amount a = t" "adj_Included a = (mode = ModeInclusive)"
      using tax_adjustment_Ok [OF a] by auto
    then have "taxed mode i j"
      unfolding taxed_def using t r tot j by (intro exI [of _ a] exI [of _ r]) auto
    then show ?thesis ..
  qed
qed

lemma tax_items_list_all2: "tax_items f is = Ok js \<longleftrightarrow> list_all2 (\<lambda>i j. f i = Ok j) is js"
  by (induction "is" arbitrary: js) (auto simp: list_all2_Cons1)

lemma taxed_in: "taxed mode i j \<Longrightarrow> item_in cur i \<Longrightarrow> item_in cur j"
proof -
  assume t: "taxed mode i j" and i: "item_in cur i"
  then obtain a r where a: "Tax_Calculate (pi_Total i) r mode = Ok (adj_Amount a)"
    and j: "j = i\<lparr>pi_Total := pi_Total j, pi_Adjustments := pi_Adjustments i @ [a]\<rparr>"
    and tot: "if mode = ModeInclusive then Sub (pi_Total i) (adj_Amount a) = Ok (pi_Total j)
      else pi_Total j = pi_Total i"
    unfolding taxed_def by blast
  have "m_currency (adj_Amount a) = cur" using Tax_Calculate_currency [OF a] i by (simp add: item_in_def)
  moreover have "m_currency (pi_Total j) = cur"
    using tot i by (auto simp: item_in_def dest: Sub_currency split: if_splits)
  moreover have "pi_UnitPrice j = pi_UnitPrice i" "pi_Adjustments j = pi_Adjustments i @ [a]"
    by (subst j, simp)+
  ultimately show ?thesis using i by (auto simp: item_in_def adjs_in_def)
qed

text \<open>The rates a repository may hold: what \<open>NewTaxRate\<close> admits, short of overflow.\<close>

definition sane_rates :: "rate_repo \<Rightarrow> bool" where
  "sane_rates rates \<longleftrightarrow> (\<forall>c k s r. rates c k s = Inr (Some r) \<longrightarrow>
     0 \<le> sint (tr_Rate r) \<and> sint (tr_Rate r) < 2 ^ 63 - 10000)"

lemma find_rate_sane:
  "find_rate rates c k s v = Ok (Some r) \<Longrightarrow> sane_rates rates \<Longrightarrow>
     0 \<le> sint (tr_Rate r) \<and> sint (tr_Rate r) < 2 ^ 63 - 10000"
  by (auto simp: find_rate_def sane_rates_def split: sum.splits option.splits if_splits)

lemma Tax_Calculate_safe:
  assumes "0 \<le> sint (tr_Rate r)" "sint (tr_Rate r) < 2 ^ 63 - 10000"
  shows "Tax_Calculate p r mode \<noteq> Panics e"
proof -
  have "sint (10000 + tr_Rate r) = 10000 + sint (tr_Rate r)"
    using assms sint_plus_exact [of 10000 "tr_Rate r"] by (simp add: in_int64_def)
  then have "10000 + tr_Rate r \<noteq> 0" using assms(1) by (metis add_pos_nonneg order_less_irrefl sint_0 zero_less_numeral)
  then show ?thesis by (auto simp: Tax_Calculate_def Let_def NewMoney_def split: tax_mode.splits)
qed

lemma tax_item_safe:
  assumes "sane_rates rates"
  shows "tax_item rates pct dc classes country storeID mode i \<noteq> Panics e"
proof -
  let ?cls = "line_class dc classes (pi_VariantID i)"
  have fr: "find_rate rates country ?cls storeID (pi_VariantID i) \<noteq> Panics p" for p
    by (auto simp: find_rate_def split: sum.splits option.splits)
  show ?thesis
  proof (cases "find_rate rates country ?cls storeID (pi_VariantID i)")
    case (Ok rate)
    show ?thesis
    proof (cases rate)
      case None
      then show ?thesis using Ok by (auto simp: tax_item_def Let_def)
    next
      case (Some r)
      from Tax_Calculate_safe [of r] find_rate_sane [OF Ok [unfolded Some] assms]
      have tc: "Tax_Calculate (pi_Total i) r mode \<noteq> Panics p" for p by blast
      show ?thesis
      proof (cases "Tax_Calculate (pi_Total i) r mode")
        case t: (Ok t)
        have "Sub (pi_Total i) t \<noteq> Panics p" for p
          using Tax_Calculate_currency [OF t] by (simp add: Sub_match)
        then show ?thesis
          using Ok Some t tax_adjustment_safe [of pct "pi_VariantID i" r mode t]
          by (cases "tax_adjustment pct (pi_VariantID i) r mode t"; cases "Sub (pi_Total i) t")
            (auto simp: tax_item_def Let_def)
      qed (use Ok Some tc in \<open>auto simp: tax_item_def Let_def\<close>)
    qed
  qed (use fr in \<open>auto simp: tax_item_def Let_def\<close>)
qed

lemma tax_items_safe: "(\<And>i p. f i \<noteq> Panics p) \<Longrightarrow> tax_items f is \<noteq> Panics p"
proof (induction "is")
  case (Cons i "is")
  then show ?case by (cases "f i"; cases "tax_items f is") auto
qed simp

lemma metaString_safe [simp]: "metaString m k \<noteq> Panics p"
  by (simp add: metaString_def split: option.splits meta_val.splits)

lemma optionalMetaString_safe [simp]: "optionalMetaString m k \<noteq> Panics p"
  by (simp add: optionalMetaString_def split: option.splits meta_val.splits)

lemma coerceTaxClasses_safe [simp]: "coerceTaxClasses m \<noteq> Panics p"
  by (simp add: coerceTaxClasses_def split: option.splits meta_val.splits)

lemma RateTable_Calculate_safe:
  assumes "sane_rates rates"
  shows "RateTable_Calculate rates pct dc c \<noteq> Panics p"
proof -
  have it: "tax_items (tax_item rates pct dc classes country storeID mode) is \<noteq> Panics q"
    for classes country storeID mode "is" q
    by (rule tax_items_safe) (rule tax_item_safe [OF assms])
  show ?thesis by (auto simp: RateTable_Calculate_def Let_def it)
qed

lemma RateTable_Calculate_Ok:
  assumes "RateTable_Calculate rates pct dc c = Ok c'" "pc_Meta c ''tax_mode'' = Some (MStr modeStr)"
  shows "\<exists>classes. coerceTaxClasses (pc_Meta c ''tax_classes'') = Ok classes \<and>
    c' = c\<lparr>pc_Items := pc_Items c'\<rparr> \<and> list_all2 (\<lambda>i j. taxed (tax_mode_of_string modeStr) i j \<or>
      (j = i \<and> line_class dc classes (pi_VariantID i) \<noteq> ''digital'')) (pc_Items c) (pc_Items c')"
proof -
  from assms obtain country storeID classes js where
    cl: "coerceTaxClasses (pc_Meta c ''tax_classes'') = Ok classes"
    and js: "tax_items (tax_item rates pct dc classes country storeID (tax_mode_of_string modeStr)) (pc_Items c) = Ok js"
    and c': "c' = c\<lparr>pc_Items := js\<rparr>"
    by (auto simp: RateTable_Calculate_def Let_def metaString_def split: if_splits)
  have "list_all2 (\<lambda>i j. taxed (tax_mode_of_string modeStr) i j \<or>
      (j = i \<and> line_class dc classes (pi_VariantID i) \<noteq> ''digital'')) (pc_Items c) js"
    by (rule list_all2_mono [OF js [unfolded tax_items_list_all2]]) (rule tax_item_Ok)
  then show ?thesis using cl c' by auto
qed

lemma TaxStep_safe:
  assumes "sane_rates rates"
  shows "currency_safe (TaxStep rates pct dc)"
proof -
  have "case RateTable_Calculate rates pct dc c of Ok c' \<Rightarrow> pctx_ok c' \<and> pc_Currency c' = pc_Currency c
      | Fail _ \<Rightarrow> True | Panics _ \<Rightarrow> False" if ok: "pctx_ok c" for c
  proof (cases "RateTable_Calculate rates pct dc c")
    case (Ok c')
    show ?thesis
    proof (cases "pc_Meta c ''tax_country'' = None \<and> pc_Meta c ''tax_mode'' = None")
      case True
      then show ?thesis using Ok ok by (simp add: RateTable_Calculate_def Let_def)
    next
      case False
      then obtain modeStr where "pc_Meta c ''tax_mode'' = Some (MStr modeStr)"
        using Ok by (auto simp: RateTable_Calculate_def Let_def metaString_def split: option.splits meta_val.splits if_splits)
      from RateTable_Calculate_Ok [OF Ok this] have c': "c' = c\<lparr>pc_Items := pc_Items c'\<rparr>"
        and all: "list_all2 (\<lambda>i j. taxed (tax_mode_of_string modeStr) i j \<or> j = i) (pc_Items c) (pc_Items c')"
        by (auto elim!: list_all2_mono)
      have "\<forall>j \<in> set (pc_Items c'). item_in (pc_Currency c) j"
        using all ok taxed_in by (fastforce simp: pctx_ok_def list_all2_conv_all_nth in_set_conv_nth)
      moreover have "pc_Currency c' = pc_Currency c" "pc_Adjustments c' = pc_Adjustments c"
        by (subst c', simp)+
      ultimately show ?thesis using Ok ok by (simp add: pctx_ok_def)
    qed
  qed (use RateTable_Calculate_safe [OF assms] in auto)
  then show ?thesis by (simp add: currency_safe_def TaxStep_def TaxStep_Apply_def)
qed

text \<open>The classes an update adds.\<close>

lemma fill_classes_keeps: "map_of cs v = Some k \<Longrightarrow> map_of (fill_classes cs ls) v = Some k"
  by (induction ls arbitrary: cs) (auto simp: map_of_append map_add_Some_iff)

lemma fill_classes_covers:
  "l \<in> set ls \<Longrightarrow> ltc_VariantID l \<noteq> [] \<Longrightarrow> map_of (fill_classes cs ls) (ltc_VariantID l) \<noteq> None"
proof (induction ls arbitrary: cs)
  case (Cons m ms)
  show ?case
  proof (cases "l \<in> set ms")
    case True
    then show ?thesis using Cons by simp
  next
    case False
    then have "l = m" using Cons.prems(1) by simp
    moreover have "map_of (fill_classes (cs @ [(ltc_VariantID m, t)]) ms) (ltc_VariantID m) \<noteq> None"
      if "map_of cs (ltc_VariantID m) = None" for t
      using fill_classes_keeps [of "cs @ [(ltc_VariantID m, t)]" "ltc_VariantID m" t ms] that
      by (simp add: map_add_def)
    ultimately show ?thesis
      using Cons.prems(2) fill_classes_keeps [of cs "ltc_VariantID m" _ ms] by auto
  qed
qed simp

lemma TaxClassCode_known: "IsKnownClass (TaxClassCode t)"
  by (cases t) (simp_all add: IsKnownClass_def)

lemma check_classes_Ok_iff:
  "check_classes cs = Ok u \<longleftrightarrow> (\<forall>kv \<in> set cs. IsKnownClass (snd kv))"
  by (induction cs rule: check_classes.induct) (auto simp: IsKnownClass_def)

lemma fill_classes_known:
  "\<forall>kv \<in> set cs. IsKnownClass (snd kv) \<Longrightarrow> \<forall>kv \<in> set (fill_classes cs ls). IsKnownClass (snd kv)"
proof (induction ls arbitrary: cs)
  case (Cons l ls)
  show ?case
    using Cons.IH [of "cs @ [(ltc_VariantID l, TaxClassCode (ltc_ProductType l))]"] Cons.IH [of cs] Cons.prems
    by (simp add: TaxClassCode_known)
qed simp

lemma fill_classes_done:
  "\<forall>l \<in> set ls. ltc_VariantID l \<noteq> [] \<longrightarrow> map_of cs (ltc_VariantID l) \<noteq> None \<Longrightarrow> fill_classes cs ls = cs"
  by (induction ls) auto

section \<open>Properties\<close>

definition demo_rate :: tax_rate where
  "demo_rate = \<lparr>tr_ID = ''t'', tr_Country = ''DE'', tr_Class = ''standard'', tr_StoreID = [], tr_Rate = 1900\<rparr>"

text \<open>C24: for a rate that is not negative (and small enough that 10000 + rate does not wrap) and
  any amount but the smallest 64-bit one, in a valid currency, the tax is computed exactly or refused.
  Exclusive: it is refused exactly when the magnitude of amount times rate reaches 2^63 (a product of
  -2^63, which would fit, is refused too), else it is the product divided by 10000 and rounded towards
  zero. Inclusive: it is refused exactly when the magnitude of amount times 10000 reaches 2^63; else it is
  the amount less the net price, amount * 10000 / (10000 + rate) rounded towards zero, and a price that
  is not negative has a tax between zero and itself. The tax keeps the currency of the price.\<close>

theorem Tax_Calculate_exact:
  assumes "0 \<le> sint (tr_Rate r)" "sint (tr_Rate r) < 2 ^ 63 - 10000" "m_amount p \<noteq> MinInt64"
    and "IsValidCurrency (m_currency p)"
  shows "((\<exists>t. Tax_Calculate p r ModeExclusive = Ok t) \<longleftrightarrow> \<bar>cents p\<bar> * sint (tr_Rate r) < 2 ^ 63) \<and>
    (\<forall>t. Tax_Calculate p r ModeExclusive = Ok t \<longrightarrow>
       cents t = (cents p * sint (tr_Rate r)) sdiv 10000 \<and> m_currency t = m_currency p) \<and>
    ((\<exists>t. Tax_Calculate p r ModeInclusive = Ok t) \<longleftrightarrow> \<bar>cents p\<bar> * 10000 < 2 ^ 63) \<and>
    (\<forall>t. Tax_Calculate p r ModeInclusive = Ok t \<longrightarrow>
       cents t = cents p - (cents p * 10000) sdiv (10000 + sint (tr_Rate r)) \<and>
       (0 \<le> cents p \<longrightarrow> 0 \<le> cents t \<and> cents t \<le> cents p) \<and> m_currency t = m_currency p)"
  unfolding Tax_exclusive [OF assms(1,3,4)] Tax_inclusive [OF assms]
  using exclusive_exact [OF assms(1)] inclusive_exact [OF assms(1)] net_bounds [OF assms(1), of "cents p"] by (auto simp: not_le)

theorem Tax_Calculate_exact_witness:
  "Tax_Calculate \<lparr>m_amount = 1190, m_currency = ''EUR''\<rparr> demo_rate ModeInclusive =
     Ok \<lparr>m_amount = 190, m_currency = ''EUR''\<rparr>"
proof -
  let ?p = "\<lparr>m_amount = 1190, m_currency = ''EUR''\<rparr> :: money"
  have h: "0 \<le> sint (tr_Rate demo_rate)" "sint (tr_Rate demo_rate) < 2 ^ 63 - 10000" "m_amount ?p \<noteq> MinInt64"
    "IsValidCurrency (m_currency ?p)"
    by (simp_all add: demo_rate_def MinInt64_def IsValidCurrency_def is_upper_letter_def byte_val_def)
  from Tax_Calculate_exact [OF h] obtain t where t: "Tax_Calculate ?p demo_rate ModeInclusive = Ok t"
    and "cents t = 190" "m_currency t = ''EUR''"
    by (auto simp: demo_rate_def signed_divide_int_def)
  then have "m_amount t = 190" using signed_word_eqI [of "m_amount t" 190] by simp
  then show ?thesis using t \<open>m_currency t = ''EUR''\<close> by (cases t) simp
qed

text \<open>The smallest 64-bit amount slips through the overflow test, since its negation wraps.\<close>

lemma Tax_Calculate_MinInt64:
  "Tax_Calculate \<lparr>m_amount = MinInt64, m_currency = ''EUR''\<rparr> demo_rate ModeExclusive =
     Ok \<lparr>m_amount = 0, m_currency = ''EUR''\<rparr>"
  by (simp add: Tax_Calculate_def Let_def demo_rate_def go_abs_def go_div_def MinInt64_def MaxInt64_def i64
      signed_divide_int_def NewMoney_def IsValidCurrency_def is_upper_letter_def byte_val_def)

text \<open>The rate that the table holds for a country, a class and a store; the row of no store is the fallback.\<close>

definition stored_rate :: "rate_repo \<Rightarrow> string \<Rightarrow> string \<Rightarrow> string \<Rightarrow> tax_rate option" where
  "stored_rate rates country cls store =
     (case (rates country cls store, rates country cls []) of
        (Inr (Some r), _) \<Rightarrow> Some r
      | (Inr None, Inr r) \<Rightarrow> if store = [] then None else r
      | _ \<Rightarrow> None)"

text \<open>A line taxed at a rate: the one adjustment that is added and the total that is left.\<close>

definition line_taxed :: "bool \<Rightarrow> tax_rate \<Rightarrow> pricing_item \<Rightarrow> pricing_item \<Rightarrow> bool" where
  "line_taxed inclusive r i j \<longleftrightarrow>
     (let tax = tax_cents inclusive (cents (pi_Total i)) (sint (tr_Rate r)) in
      \<exists>a. j = i\<lparr>pi_Total := pi_Total j, pi_Adjustments := pi_Adjustments i @ [a]\<rparr> \<and>
        adj_Type a = AdjustmentTax \<and> adj_Code a = ''tax.'' @ tr_Country r @ ''.'' @ tr_Class r \<and> adj_Included a = inclusive \<and>
        cents (adj_Amount a) = tax \<and> m_currency (adj_Amount a) = m_currency (pi_Total i) \<and>
        cents (pi_Total j) = (if inclusive then cents (pi_Total i) - tax else cents (pi_Total i)) \<and>
        m_currency (pi_Total j) = m_currency (pi_Total i))"

lemma tax_item_line:
  assumes run: "tax_item rates pct dc classes country store mode i = Ok j" and sane: "sane_rates rates"
    and i: "m_amount (pi_Total i) \<noteq> MinInt64" "IsValidCurrency (m_currency (pi_Total i))"
    and mode: "mode = ModeInclusive \<or> mode = ModeExclusive"
  shows "case stored_rate rates country (line_class dc classes (pi_VariantID i)) store of
      None \<Rightarrow> j = i \<and> line_class dc classes (pi_VariantID i) \<noteq> ''digital''
    | Some r \<Rightarrow> if sint (tr_Rate r) = 0 then j = i \<and> line_class dc classes (pi_VariantID i) \<noteq> ''digital''
        else line_taxed (mode = ModeInclusive) r i j"
proof -
  let ?cls = "line_class dc classes (pi_VariantID i)"
  obtain rate where rate: "find_rate rates country ?cls store (pi_VariantID i) = Ok rate"
    and open_: "\<not> MissingRateFailsClosed ?cls rate"
    using run by (auto simp: tax_item_def Let_def split: if_splits)
  have stored: "stored_rate rates country ?cls store = rate"
    using rate by (auto simp: find_rate_def stored_rate_def split: sum.splits option.splits if_splits)
  show ?thesis
  proof (cases "case rate of None \<Rightarrow> True | Some r \<Rightarrow> tr_Rate r = 0")
    case True
    then have "j = i" using run rate open_ by (auto simp: tax_item_def Let_def split: option.splits)
    moreover have "?cls \<noteq> ''digital''"
      using True open_ by (auto simp: MissingRateFailsClosed_def split: option.splits)
    ultimately show ?thesis using True by (auto simp: stored split: option.splits)
  next
    case False
    then obtain r where r: "rate = Some r" "tr_Rate r \<noteq> 0" by (cases rate) auto
    with run rate open_ obtain t a tot where t: "Tax_Calculate (pi_Total i) r mode = Ok t"
      and a: "tax_adjustment pct (pi_VariantID i) r mode t = Ok a"
      and tot: "(if mode = ModeInclusive then Sub (pi_Total i) t else Ok (pi_Total i)) = Ok tot"
      and j: "j = i\<lparr>pi_Total := tot, pi_Adjustments := pi_Adjustments i @ [a]\<rparr>"
      unfolding tax_item_def Let_def by auto
    have rates: "0 \<le> sint (tr_Rate r)" "sint (tr_Rate r) < 2 ^ 63 - 10000"
      using find_rate_sane [OF rate [unfolded r(1)] sane] by simp_all
    note exact = Tax_Calculate_Ok [OF t rates i mode]
    have adj: "adj_Type a = AdjustmentTax" "adj_Amount a = t" "adj_Included a = (mode = ModeInclusive)"
      "adj_Code a = ''tax.'' @ tr_Country r @ ''.'' @ tr_Class r"
      using a by (auto simp: tax_adjustment_def NewAdjustment_def Let_def split: if_splits)
    have left: "cents tot = (if mode = ModeInclusive then cents (pi_Total i) - cents t else cents (pi_Total i)) \<and>
        m_currency tot = m_currency (pi_Total i)"
    proof (cases "mode = ModeInclusive")
      case True
      then have sub: "tot = in_cur (m_currency (pi_Total i)) (m_amount (pi_Total i) - m_amount t)"
        using tot exact by (cases "pi_Total i"; cases t) (simp add: Sub_match)
      have "in_int64 (cents (pi_Total i) - cents t)"
        using exact True net_bounds [OF rates(1), of "cents (pi_Total i)"] sint_upper [of "m_amount (pi_Total i)"]
          sint_lower [of "m_amount (pi_Total i)"]
        by (cases "cents (pi_Total i) < 0") (simp_all add: tax_cents_def in_int64_def)
      then show ?thesis using True sub sint_minus_exact [of "m_amount (pi_Total i)" "m_amount t"] by simp
    qed (use tot in simp)
    have "line_taxed (mode = ModeInclusive) r i j"
      unfolding line_taxed_def Let_def using exact adj left j by (intro exI [of _ a]) auto
    moreover have "sint (tr_Rate r) \<noteq> 0" using r(2) by (simp add: signed_eq_0_iff)
    ultimately show ?thesis by (simp add: stored r(1))
  qed
qed

text \<open>C35: every line is taxed at the rate the table holds for it. When the rate table calculator succeeds
  with a tax mode set, on line totals in a valid currency above the smallest 64-bit number and with rates
  that are not negative (and small enough that 10000 + rate does not wrap), each line is handled by
  the row of the destination country, the line's tax class (its override, or else the default class) and
  the store, or without one by the row of no store. With no row, or with a rate of zero, the line is
  unchanged and its class is not digital. Else it gets exactly one more adjustment, a tax under the
  code of the row: in exclusive mode the total times the rate over 10000, and the total is kept; in
  inclusive mode what the total exceeds the net price by, marked as included and taken out of the
  total. Both are rounded towards zero. Nothing else in the context changes.\<close>

theorem RateTable_Calculate_correct:
  assumes "RateTable_Calculate rates pct dc c = Ok c'" "pc_Meta c ''tax_mode'' = Some (MStr modeStr)"
    "pc_Meta c ''tax_country'' = Some (MStr country)" "sane_rates rates"
    "\<forall>i \<in> set (pc_Items c). m_amount (pi_Total i) \<noteq> MinInt64 \<and> IsValidCurrency (m_currency (pi_Total i))"
  shows "\<exists>overrides. coerceTaxClasses (pc_Meta c ''tax_classes'') = Ok overrides \<and>
    c' = c\<lparr>pc_Items := pc_Items c'\<rparr> \<and>
    list_all2 (\<lambda>i j.
      let cls = (case overrides of None \<Rightarrow> dc | Some cs \<Rightarrow> (case map_of cs (pi_VariantID i) of None \<Rightarrow> dc | Some cls \<Rightarrow> cls));
          store = (case pc_Meta c ''store_id'' of Some (MStr s) \<Rightarrow> s | _ \<Rightarrow> []) in
      case stored_rate rates country cls store of
        None \<Rightarrow> j = i \<and> cls \<noteq> ''digital''
      | Some r \<Rightarrow> if sint (tr_Rate r) = 0 then j = i \<and> cls \<noteq> ''digital'' else line_taxed (modeStr = ''inclusive'') r i j)
      (pc_Items c) (pc_Items c')"
proof -
  let ?mode = "tax_mode_of_string modeStr" and ?store = "case pc_Meta c ''store_id'' of Some (MStr s) \<Rightarrow> s | _ \<Rightarrow> []"
  have mode: "?mode = ModeInclusive \<longleftrightarrow> modeStr = ''inclusive''"
    by (auto simp: tax_mode_of_string_def)
  from assms(1-3) obtain store classes js where cl: "coerceTaxClasses (pc_Meta c ''tax_classes'') = Ok classes"
      and store: "optionalMetaString (pc_Meta c) ''store_id'' = Ok store" and valid: "TaxMode_IsValid ?mode"
      and js: "tax_items (tax_item rates pct dc classes country store ?mode) (pc_Items c) = Ok js" and c': "c' = c\<lparr>pc_Items := js\<rparr>"
    by (auto simp: RateTable_Calculate_def Let_def metaString_def split: if_splits)
  have st: "?store = store" using store by (auto simp: optionalMetaString_def split: option.splits meta_val.splits)
  have "?mode = ModeInclusive \<or> ?mode = ModeExclusive" using valid by (cases ?mode) simp_all
  note line = tax_item_line [OF _ assms(4) _ _ this, of pct dc classes country store]
  have "list_all2 (\<lambda>i j. case stored_rate rates country (line_class dc classes (pi_VariantID i)) store of
        None \<Rightarrow> j = i \<and> line_class dc classes (pi_VariantID i) \<noteq> ''digital''
      | Some r \<Rightarrow> if sint (tr_Rate r) = 0 then j = i \<and> line_class dc classes (pi_VariantID i) \<noteq> ''digital''
          else line_taxed (modeStr = ''inclusive'') r i j) (pc_Items c) js"
  proof (rule list.rel_mono_strong [OF js [unfolded tax_items_list_all2]])
    fix i j
    assume "i \<in> set (pc_Items c)" and run: "tax_item rates pct dc classes country store ?mode i = Ok j"
    with assms(5) have "m_amount (pi_Total i) \<noteq> MinInt64" "IsValidCurrency (m_currency (pi_Total i))" by simp_all
    from line [OF run this, unfolded mode]
    show "case stored_rate rates country (line_class dc classes (pi_VariantID i)) store of
        None \<Rightarrow> j = i \<and> line_class dc classes (pi_VariantID i) \<noteq> ''digital''
      | Some r \<Rightarrow> if sint (tr_Rate r) = 0 then j = i \<and> line_class dc classes (pi_VariantID i) \<noteq> ''digital''
          else line_taxed (modeStr = ''inclusive'') r i j" .
  qed
  then show ?thesis using cl c' by (intro exI [of _ classes]) (simp add: st Let_def flip: line_class_def)
qed

theorem RateTable_Calculate_correct_witness:
  "let c = demo_pctx\<lparr>pc_Meta := [''tax_country'' \<mapsto> MStr ''DE'', ''tax_mode'' \<mapsto> MStr ''inclusive'']\<rparr> in
   \<exists>c'. RateTable_Calculate (\<lambda>_ _ _. Inr (Some demo_rate)) (\<lambda>_. []) ''digital'' c = Ok c' \<and>
     list_all2 (line_taxed True demo_rate) (pc_Items c) (pc_Items c') \<and>
     map (cents \<circ> pi_Total) (pc_Items c) = [1000] \<and> map (cents \<circ> pi_Total) (pc_Items c') = [840]"
proof -
  define c where "c = demo_pctx\<lparr>pc_Meta := [''tax_country'' \<mapsto> MStr ''DE'', ''tax_mode'' \<mapsto> MStr ''inclusive'']\<rparr>"
  have m: "pc_Meta c ''tax_mode'' = Some (MStr ''inclusive'')" "pc_Meta c ''tax_country'' = Some (MStr ''DE'')"
    by (simp_all add: c_def)
  have nz: "trim_space (CHR ''t'' # xs) \<noteq> []" for xs
  proof -
    have "trim_left (CHR ''t'' # xs) = CHR ''t'' # xs"
      by (simp add: trim_left_def trim_codes.simps space_codes_def)
    moreover have "trim_right (CHR ''t'' # xs) \<noteq> []" by (rule trim_right_nonempty) (simp add: space_codes_def)
    ultimately show ?thesis by (simp add: trim_space_def)
  qed
  have t: "Tax_Calculate (in_cur ''EUR'' 1000) demo_rate ModeInclusive = Ok (in_cur ''EUR'' 160)"
    by (simp add: Tax_Calculate_def Let_def demo_rate_def go_abs_def go_div_def MaxInt64_def i64
      signed_divide_int_def NewMoney_def IsValidCurrency_def is_upper_letter_def byte_val_def)
  obtain a where a: "tax_adjustment (\<lambda>_. []) ''v1'' demo_rate ModeInclusive (in_cur ''EUR'' 160) = Ok a"
    using nz by (simp add: tax_adjustment_def NewAdjustment_def Let_def)
  have sub: "Sub (in_cur ''EUR'' 1000) (in_cur ''EUR'' 160) = Ok (in_cur ''EUR'' 840)" by (simp add: Sub_match)
  have "tr_Rate demo_rate \<noteq> 0" by (simp add: demo_rate_def)
  obtain i where items: "pc_Items demo_pctx = [i]" "pi_VariantID i = ''v1''" "pi_Total i = in_cur ''EUR'' 1000"
    by (simp add: demo_pctx_def)
  with \<open>tr_Rate demo_rate \<noteq> 0\<close> obtain j where
    j: "tax_item (\<lambda>_ _ _. Inr (Some demo_rate)) (\<lambda>_. []) ''digital'' None ''DE'' [] ModeInclusive i = Ok j"
    using t a sub by (simp add: tax_item_def line_class_def find_rate_def MissingRateFailsClosed_def Let_def)
  obtain c' where r: "RateTable_Calculate (\<lambda>_ _ _. Inr (Some demo_rate)) (\<lambda>_. []) ''digital'' c = Ok c'"
    using j by (simp add: c_def RateTable_Calculate_def Let_def metaString_def
        optionalMetaString_def coerceTaxClasses_def tax_mode_of_string_def items)
  have none: "coerceTaxClasses (pc_Meta c ''tax_classes'') = Ok None"
    by (simp add: c_def coerceTaxClasses_def)
  have sane: "sane_rates (\<lambda>_ _ _. Inr (Some demo_rate))" by (simp add: sane_rates_def demo_rate_def)
  have c_items: "pc_Items c = [i]" by (simp add: c_def items)
  have "\<forall>i \<in> set (pc_Items c). m_amount (pi_Total i) \<noteq> MinInt64 \<and> IsValidCurrency (m_currency (pi_Total i))"
    by (simp add: c_items items MinInt64_def IsValidCurrency_def is_upper_letter_def byte_val_def)
  from RateTable_Calculate_correct [OF r m sane this] none
  have taxed: "list_all2 (line_taxed True demo_rate) (pc_Items c) (pc_Items c')"
    by (simp add: stored_rate_def demo_rate_def)
  then obtain k where "pc_Items c' = [k]" "line_taxed True demo_rate i k"
    by (auto simp: c_items list_all2_Cons1)
  then have "map (cents \<circ> pi_Total) (pc_Items c') = [840]"
    by (auto simp: line_taxed_def Let_def tax_cents_def items demo_rate_def signed_divide_int_def)
  then show ?thesis using r taxed unfolding Let_def c_def [symmetric] by (auto simp: c_items items)
qed

text \<open>\<open>EnsureTaxClasses\<close> ends with a string map in which every line has a class,
  every class is a known one and every class given before is kept; lines without one get the class
  of their product type; running it again changes nothing.\<close>

lemma EnsureTaxClasses_correct:
  assumes "EnsureTaxClasses (Some m) lines = Ok m'"
  shows "\<exists>given classes. m' ''tax_classes'' = Some (MStrMap classes) \<and>
    coerceTaxClasses (m ''tax_classes'') = Ok given \<and> (\<forall>k. k \<noteq> ''tax_classes'' \<longrightarrow> m' k = m k) \<and>
    (\<forall>kv \<in> set classes. IsKnownClass (snd kv)) \<and>
    (\<forall>l \<in> set lines. ltc_VariantID l \<noteq> [] \<longrightarrow> map_of classes (ltc_VariantID l) \<noteq> None) \<and>
    (\<forall>g v cls. given = Some g \<and> map_of g v = Some cls \<longrightarrow> map_of classes v = Some cls) \<and>
    EnsureTaxClasses (Some m') lines = Ok m'"
proof -
  from assms obtain given where given: "coerceTaxClasses (m ''tax_classes'') = Ok given"
    and ok: "check_classes (case given of None \<Rightarrow> [] | Some v \<Rightarrow> v) = Ok ()"
    and m': "m' = m(''tax_classes'' \<mapsto> MStrMap (fill_classes (case given of None \<Rightarrow> [] | Some v \<Rightarrow> v) lines))"
    by (auto simp: EnsureTaxClasses_def Let_def)
  let ?cs = "case given of None \<Rightarrow> [] | Some v \<Rightarrow> v"
  let ?full = "fill_classes ?cs lines"
  have known: "\<forall>kv \<in> set ?full. IsKnownClass (snd kv)"
    using fill_classes_known ok unfolding check_classes_Ok_iff by blast
  have cover: "\<forall>l \<in> set lines. ltc_VariantID l \<noteq> [] \<longrightarrow> map_of ?full (ltc_VariantID l) \<noteq> None"
    using fill_classes_covers by blast
  have "EnsureTaxClasses (Some m') lines = Ok m'"
    using known fill_classes_done [OF cover] unfolding check_classes_Ok_iff [symmetric]
    by (simp add: EnsureTaxClasses_def m' coerceTaxClasses_def Let_def check_classes_Ok_iff)
  moreover have "map_of g v = Some cls \<Longrightarrow> given = Some g \<Longrightarrow> map_of ?full v = Some cls" for g v cls
    by (rule fill_classes_keeps) simp
  ultimately show ?thesis
    using given known cover m' by (intro exI [of _ given] exI [of _ ?full]) auto
qed

lemma EnsureTaxClasses_correct_witness:
  "\<exists>m'. EnsureTaxClasses (Some [''tax_classes'' \<mapsto> MStrMap [(''v1'', ''zero'')]])
      [\<lparr>ltc_VariantID = ''v1'', ltc_ProductType = TypeDownloadable\<rparr>,
       \<lparr>ltc_VariantID = ''v2'', ltc_ProductType = TypeDownloadable\<rparr>] = Ok m' \<and>
     (\<exists>cs. m' ''tax_classes'' = Some (MStrMap cs) \<and> map_of cs ''v1'' = Some ''zero'')"
proof -
  obtain m' where r: "EnsureTaxClasses (Some [''tax_classes'' \<mapsto> MStrMap [(''v1'', ''zero'')]])
      [\<lparr>ltc_VariantID = ''v1'', ltc_ProductType = TypeDownloadable\<rparr>,
       \<lparr>ltc_VariantID = ''v2'', ltc_ProductType = TypeDownloadable\<rparr>] = Ok m'"
    by (simp add: EnsureTaxClasses_def coerceTaxClasses_def IsKnownClass_def)
  from EnsureTaxClasses_correct [OF r] r show ?thesis by (auto simp: coerceTaxClasses_def)
qed

end
