(* ===== verification/Promotions.thy ===== *)
theory Promotions
  imports Pricing Lifecycle
begin

text \<open>
  Promotions and coupons (\<open>internal/domain/promotion\<close>: \<open>promotion.go\<close>,
  \<open>coupon.go\<close>, \<open>evaluator_registry.go\<close>) and the two pricing steps that apply them
  (\<open>internal/application/pricing\<close>: \<open>catalog_promotion_step.go\<close>,
  \<open>cart_promotion_step.go\<close>). JSON decoding, the promotion and coupon repositories, the
  UUID test and the plugin evaluators are arguments; an evaluator is taken to be a function of
  its arguments that does not change the line it is given.
\<close>

section \<open>Promotions and coupons\<close>

datatype promotion_type = PromoTypeCatalog | PromoTypeCart | PromoTypeOther string

fun PromotionType_IsValid :: "promotion_type \<Rightarrow> bool" where
  "PromotionType_IsValid (PromoTypeOther _) = False"
| "PromotionType_IsValid _ = True"

record promotion =
  pm_ID :: string
  pm_Name :: string
  pm_Type :: promotion_type
  pm_Priority :: int64
  pm_Active :: bool
  pm_StartAt :: "gotime option"
  pm_EndAt :: "gotime option"
  pm_Conditions :: string
  pm_Actions :: string
  pm_CouponBound :: bool
  pm_CreatedAt :: gotime
  pm_UpdatedAt :: gotime

definition NewPromotion ::
    "(string \<Rightarrow> bool) \<Rightarrow> gotime \<Rightarrow> string \<Rightarrow> string \<Rightarrow> promotion_type \<Rightarrow> promotion outcome" where
  "NewPromotion uuid_ok now promoID name typ =
     (if promoID = [] then Fail (Err ''promotion: id must not be empty'')
      else if \<not> uuid_ok promoID then Fail (Err ''promotion: id must be a valid UUID'')
      else if name = [] then Fail (Err ''promotion: name must not be empty'')
      else if \<not> PromotionType_IsValid typ then Fail (Err ''promotion: invalid type'')
      else Ok \<lparr>pm_ID = promoID, pm_Name = name, pm_Type = typ, pm_Priority = 0, pm_Active = True,
               pm_StartAt = None, pm_EndAt = None, pm_Conditions = ''[]'', pm_Actions = ''[]'',
               pm_CouponBound = False, pm_CreatedAt = now, pm_UpdatedAt = now\<rparr>)"

definition IsEligible :: "promotion \<Rightarrow> gotime \<Rightarrow> bool" where
  "IsEligible p now =
     (if \<not> pm_Active p then False
      else if (case pm_StartAt p of None \<Rightarrow> False | Some t \<Rightarrow> now < t) then False
      else if (case pm_EndAt p of None \<Rightarrow> False | Some t \<Rightarrow> t < now) then False
      else True)"

record coupon =
  cp_ID :: string
  cp_Code :: string
  cp_PromotionID :: string
  cp_UsageLimit :: int64
  cp_UsageCount :: int64
  cp_Active :: bool
  cp_CreatedAt :: gotime
  cp_UpdatedAt :: gotime

text \<open>The regular expression \<open>^[A-Z0-9][A-Z0-9\-]{1,48}[A-Z0-9]$\<close>.\<close>

definition coupon_char :: "char \<Rightarrow> bool" where
  "coupon_char c \<longleftrightarrow> is_upper_letter c \<or> is_digit_char c"

definition coupon_code_ok :: "string \<Rightarrow> bool" where
  "coupon_code_ok s \<longleftrightarrow> 3 \<le> length s \<and> length s \<le> 50 \<and> coupon_char (hd s) \<and> coupon_char (last s) \<and>
     list_all (\<lambda>c. coupon_char c \<or> c = CHR ''-'') s"

definition NewCoupon ::
    "(string \<Rightarrow> bool) \<Rightarrow> gotime \<Rightarrow> string \<Rightarrow> string \<Rightarrow> string \<Rightarrow> coupon outcome" where
  "NewCoupon uuid_ok now couponID code promotionID =
     (if couponID = [] then Fail (Err ''coupon: id must not be empty'')
      else if \<not> uuid_ok couponID then Fail (Err ''coupon: id must be a valid UUID'')
      else if \<not> coupon_code_ok code then Fail (ErrWith ''coupon: invalid code format: '' [code])
      else if promotionID = [] then Fail (Err ''coupon: promotion id must not be empty'')
      else if \<not> uuid_ok promotionID then Fail (Err ''coupon: promotion id must be a valid UUID'')
      else Ok \<lparr>cp_ID = couponID, cp_Code = code, cp_PromotionID = promotionID, cp_UsageLimit = 0,
               cp_UsageCount = 0, cp_Active = True, cp_CreatedAt = now, cp_UpdatedAt = now\<rparr>)"

definition CanRedeem :: "coupon \<Rightarrow> bool" where
  "CanRedeem c =
     (if \<not> cp_Active c then False
      else if 0 <s cp_UsageLimit c \<and> cp_UsageLimit c \<le>s cp_UsageCount c then False
      else True)"

definition Redeem :: "gotime \<Rightarrow> coupon \<Rightarrow> coupon outcome" where
  "Redeem now c =
     (if \<not> CanRedeem c then Fail (ErrWith ''coupon: cannot redeem'' [cp_Code c])
      else Ok (c\<lparr>cp_UsageCount := cp_UsageCount c + 1, cp_UpdatedAt := now\<rparr>))"

section \<open>The evaluator registry\<close>

type_synonym catalog_condition_eval = "string \<Rightarrow> pricing_item \<Rightarrow> bool outcome"
type_synonym catalog_action_eval = "string \<Rightarrow> pricing_item \<Rightarrow> string \<Rightarrow> money outcome"
type_synonym cart_condition_eval = "string \<Rightarrow> money \<Rightarrow> bool outcome"
type_synonym cart_action_eval = "string \<Rightarrow> money \<Rightarrow> string \<Rightarrow> money outcome"

text \<open>Each map goes from a rule type to the registrant and its evaluator.\<close>

record evaluator_registry =
  er_catalogConditions :: "string \<Rightarrow> (string \<times> catalog_condition_eval) option"
  er_catalogActions :: "string \<Rightarrow> (string \<times> catalog_action_eval) option"
  er_cartConditions :: "string \<Rightarrow> (string \<times> cart_condition_eval) option"
  er_cartActions :: "string \<Rightarrow> (string \<times> cart_action_eval) option"

definition NewEvaluatorRegistry :: evaluator_registry where
  "NewEvaluatorRegistry = \<lparr>er_catalogConditions = (\<lambda>_. None), er_catalogActions = (\<lambda>_. None),
     er_cartConditions = (\<lambda>_. None), er_cartActions = (\<lambda>_. None)\<rparr>"

text \<open>
  The four register methods have one body over different maps; \<open>kind\<close> is the word in
  their error texts, a nil evaluator is \<open>None\<close>.
\<close>

definition register_rule ::
    "string \<Rightarrow> string \<Rightarrow> string \<Rightarrow> 'e option \<Rightarrow> (string \<Rightarrow> (string \<times> 'e) option) \<Rightarrow>
     (string \<Rightarrow> (string \<times> 'e) option) outcome" where
  "register_rule kind ruleType0 registrant0 ev m =
     (let ruleType = trim_space ruleType0; registrant = trim_space registrant0 in
      if ruleType = [] then Fail (Err ''promotion: rule type must not be empty'')
      else if registrant = [] then Fail (Err ''promotion: registrant must not be empty'')
      else case ev of
        None \<Rightarrow> Fail (Err (''promotion: '' @ kind @ '' evaluator must not be nil''))
      | Some f \<Rightarrow>
          if m ruleType \<noteq> None
          then Fail (ErrWith (''promotion: '' @ kind @ '' already registered'') [ruleType])
          else Ok (m(ruleType \<mapsto> (registrant, f))))"

definition RegisterCatalogCondition ::
    "evaluator_registry option \<Rightarrow> string \<Rightarrow> string \<Rightarrow> catalog_condition_eval option \<Rightarrow> evaluator_registry outcome" where
  "RegisterCatalogCondition reg ruleType registrant ev =
     (case reg of
        None \<Rightarrow> Fail (Err ''promotion: registry must not be nil'')
      | Some r \<Rightarrow> bindO (register_rule ''catalog condition'' ruleType registrant ev (er_catalogConditions r))
          (\<lambda>m. Ok (r\<lparr>er_catalogConditions := m\<rparr>)))"

definition RegisterCatalogAction ::
    "evaluator_registry option \<Rightarrow> string \<Rightarrow> string \<Rightarrow> catalog_action_eval option \<Rightarrow> evaluator_registry outcome" where
  "RegisterCatalogAction reg ruleType registrant ev =
     (case reg of
        None \<Rightarrow> Fail (Err ''promotion: registry must not be nil'')
      | Some r \<Rightarrow> bindO (register_rule ''catalog action'' ruleType registrant ev (er_catalogActions r))
          (\<lambda>m. Ok (r\<lparr>er_catalogActions := m\<rparr>)))"

definition RegisterCartCondition ::
    "evaluator_registry option \<Rightarrow> string \<Rightarrow> string \<Rightarrow> cart_condition_eval option \<Rightarrow> evaluator_registry outcome" where
  "RegisterCartCondition reg ruleType registrant ev =
     (case reg of
        None \<Rightarrow> Fail (Err ''promotion: registry must not be nil'')
      | Some r \<Rightarrow> bindO (register_rule ''cart condition'' ruleType registrant ev (er_cartConditions r))
          (\<lambda>m. Ok (r\<lparr>er_cartConditions := m\<rparr>)))"

definition RegisterCartAction ::
    "evaluator_registry option \<Rightarrow> string \<Rightarrow> string \<Rightarrow> cart_action_eval option \<Rightarrow> evaluator_registry outcome" where
  "RegisterCartAction reg ruleType registrant ev =
     (case reg of
        None \<Rightarrow> Fail (Err ''promotion: registry must not be nil'')
      | Some r \<Rightarrow> bindO (register_rule ''cart action'' ruleType registrant ev (er_cartActions r))
          (\<lambda>m. Ok (r\<lparr>er_cartActions := m\<rparr>)))"

definition HasCatalogCondition :: "evaluator_registry option \<Rightarrow> string \<Rightarrow> bool" where
  "HasCatalogCondition reg ruleType =
     (case reg of None \<Rightarrow> False | Some r \<Rightarrow> er_catalogConditions r (trim_space ruleType) \<noteq> None)"

definition HasCatalogAction :: "evaluator_registry option \<Rightarrow> string \<Rightarrow> bool" where
  "HasCatalogAction reg ruleType =
     (case reg of None \<Rightarrow> False | Some r \<Rightarrow> er_catalogActions r (trim_space ruleType) \<noteq> None)"

definition HasCartCondition :: "evaluator_registry option \<Rightarrow> string \<Rightarrow> bool" where
  "HasCartCondition reg ruleType =
     (case reg of None \<Rightarrow> False | Some r \<Rightarrow> er_cartConditions r (trim_space ruleType) \<noteq> None)"

definition HasCartAction :: "evaluator_registry option \<Rightarrow> string \<Rightarrow> bool" where
  "HasCartAction reg ruleType =
     (case reg of None \<Rightarrow> False | Some r \<Rightarrow> er_cartActions r (trim_space ruleType) \<noteq> None)"

definition EvalCatalogCondition ::
    "evaluator_registry option \<Rightarrow> string \<Rightarrow> string \<Rightarrow> pricing_item \<Rightarrow> bool outcome" where
  "EvalCatalogCondition reg ruleType config item =
     (case reg of
        None \<Rightarrow> Fail (ErrWith ''promotion: catalog condition: no registry configured'' [ruleType])
      | Some r \<Rightarrow> (case er_catalogConditions r (trim_space ruleType) of
          None \<Rightarrow> Fail (ErrWith ''promotion: catalog condition: not registered'' [ruleType])
        | Some (_, f) \<Rightarrow> f config item))"

definition EvalCatalogAction ::
    "evaluator_registry option \<Rightarrow> string \<Rightarrow> string \<Rightarrow> pricing_item \<Rightarrow> string \<Rightarrow> money outcome" where
  "EvalCatalogAction reg ruleType config item currency =
     (case reg of
        None \<Rightarrow> Fail (ErrWith ''promotion: catalog action: no registry configured'' [ruleType])
      | Some r \<Rightarrow> (case er_catalogActions r (trim_space ruleType) of
          None \<Rightarrow> Fail (ErrWith ''promotion: catalog action: not registered'' [ruleType])
        | Some (_, f) \<Rightarrow> f config item currency))"

definition EvalCartCondition ::
    "evaluator_registry option \<Rightarrow> string \<Rightarrow> string \<Rightarrow> money \<Rightarrow> bool outcome" where
  "EvalCartCondition reg ruleType config subtotal =
     (case reg of
        None \<Rightarrow> Fail (ErrWith ''promotion: cart condition: no registry configured'' [ruleType])
      | Some r \<Rightarrow> (case er_cartConditions r (trim_space ruleType) of
          None \<Rightarrow> Fail (ErrWith ''promotion: cart condition: not registered'' [ruleType])
        | Some (_, f) \<Rightarrow> f config subtotal))"

definition EvalCartAction ::
    "evaluator_registry option \<Rightarrow> string \<Rightarrow> string \<Rightarrow> money \<Rightarrow> string \<Rightarrow> money outcome" where
  "EvalCartAction reg ruleType config subtotal currency =
     (case reg of
        None \<Rightarrow> Fail (ErrWith ''promotion: cart action: no registry configured'' [ruleType])
      | Some r \<Rightarrow> (case er_cartActions r (trim_space ruleType) of
          None \<Rightarrow> Fail (ErrWith ''promotion: cart action: not registered'' [ruleType])
        | Some (_, f) \<Rightarrow> f config subtotal currency))"

section \<open>Decoding rules\<close>

record condition_config =
  cc_Type :: string
  cc_Value :: int64

record action_config =
  acf_Type :: string
  acf_Percentage :: int64
  acf_Amount :: int64
  acf_Tiers :: "(int64 \<times> int64) list"
  acf_BuyQty :: int64
  acf_GetQty :: int64

text \<open>\<open>json.Unmarshal\<close> into the two configuration types.\<close>

record json_decoder =
  jd_condition :: "string \<Rightarrow> gerror + condition_config"
  jd_action :: "string \<Rightarrow> gerror + action_config"

definition absent :: "string \<Rightarrow> bool" where "absent data \<longleftrightarrow> data = [] \<or> data = ''null''"

record rule_condition =
  rcd_typ :: string
  rcd_value :: int64
  rcd_raw :: string
  rcd_usePlugin :: bool

definition builtin_condition :: "string \<Rightarrow> int64 \<Rightarrow> rule_condition" where
  "builtin_condition typ k = \<lparr>rcd_typ = typ, rcd_value = k, rcd_raw = [], rcd_usePlugin = False\<rparr>"

definition decodeCatalogCondition ::
    "json_decoder \<Rightarrow> string \<Rightarrow> evaluator_registry option \<Rightarrow> rule_condition outcome" where
  "decodeCatalogCondition json data reg =
     (if absent data then Ok (builtin_condition ''always'' 0)
      else case jd_condition json data of
        Inl e \<Rightarrow> Fail (Wrap ''decode'' e)
      | Inr cfg \<Rightarrow>
          if cc_Type cfg = ''always'' then Ok (builtin_condition (cc_Type cfg) 0)
          else if cc_Type cfg = ''min_quantity'' then
            (if cc_Value cfg \<le>s 0 then Fail (Err ''min_quantity value must be positive'')
             else Ok (builtin_condition (cc_Type cfg) (cc_Value cfg)))
          else if reg \<noteq> None \<and> HasCatalogCondition reg (cc_Type cfg)
            then Ok \<lparr>rcd_typ = cc_Type cfg, rcd_value = 0, rcd_raw = data, rcd_usePlugin = True\<rparr>
          else Fail (ErrWith ''unknown condition type: '' [cc_Type cfg]))"

definition catalog_matches ::
    "rule_condition \<Rightarrow> pricing_item \<Rightarrow> evaluator_registry option \<Rightarrow> bool outcome" where
  "catalog_matches c item reg =
     (if rcd_usePlugin c then EvalCatalogCondition reg (rcd_typ c) (rcd_raw c) item
      else if rcd_typ c = ''always'' then Ok True
      else if rcd_typ c = ''min_quantity'' then Ok (rcd_value c \<le>s pi_Quantity item)
      else Ok False)"

definition decodeCartCondition ::
    "json_decoder \<Rightarrow> string \<Rightarrow> evaluator_registry option \<Rightarrow> rule_condition outcome" where
  "decodeCartCondition json data reg =
     (if absent data then Fail (Err ''condition config is required'')
      else case jd_condition json data of
        Inl e \<Rightarrow> Fail (Wrap ''decode'' e)
      | Inr cfg \<Rightarrow>
          if cc_Type cfg = ''min_cart_total'' then
            (if cc_Value cfg \<le>s 0 then Fail (Err ''min_cart_total value must be positive'')
             else Ok (builtin_condition (cc_Type cfg) (cc_Value cfg)))
          else if reg \<noteq> None \<and> HasCartCondition reg (cc_Type cfg)
            then Ok \<lparr>rcd_typ = cc_Type cfg, rcd_value = 0, rcd_raw = data, rcd_usePlugin = True\<rparr>
          else Fail (ErrWith ''unknown cart condition type: '' [cc_Type cfg]))"

definition cart_matches ::
    "rule_condition \<Rightarrow> money \<Rightarrow> evaluator_registry option \<Rightarrow> bool outcome" where
  "cart_matches c subtotal reg =
     (if rcd_usePlugin c then EvalCartCondition reg (rcd_typ c) (rcd_raw c) subtotal
      else if rcd_typ c = ''min_cart_total'' then Ok (rcd_value c \<le>s m_amount subtotal)
      else Ok False)"

record rule_action =
  rac_typ :: string
  rac_percentage :: int64
  rac_amount :: int64
  rac_tiers :: "(int64 \<times> int64) list"
  rac_buyQty :: int64
  rac_getQty :: int64
  rac_raw :: string
  rac_usePlugin :: bool

definition action_of :: "string \<Rightarrow> rule_action" where
  "action_of typ = \<lparr>rac_typ = typ, rac_percentage = 0, rac_amount = 0, rac_tiers = [],
     rac_buyQty = 0, rac_getQty = 0, rac_raw = [], rac_usePlugin = False\<rparr>"

text \<open>Tiers are (minimum quantity, percentage); the loop requires strictly rising minimums.\<close>

fun check_tiers :: "int64 \<Rightarrow> (int64 \<times> int64) list \<Rightarrow> unit outcome" where
  "check_tiers prev [] = Ok ()"
| "check_tiers prev ((minQty, pct) # ts) =
     (if minQty \<le>s 0 then Fail (Err ''tier min_qty must be positive'')
      else if minQty \<le>s prev then Fail (Err ''tier min_qty values must be strictly increasing'')
      else if pct \<le>s 0 \<or> 100 <s pct then Fail (Err ''tier percentage must be 1-100'')
      else check_tiers minQty ts)"

definition decodeCatalogAction ::
    "json_decoder \<Rightarrow> string \<Rightarrow> evaluator_registry option \<Rightarrow> rule_action outcome" where
  "decodeCatalogAction json data reg =
     (if absent data then Fail (Err ''action config is required'')
      else case jd_action json data of
        Inl e \<Rightarrow> Fail (Wrap ''decode'' e)
      | Inr cfg \<Rightarrow>
          let a = action_of (acf_Type cfg) in
          if acf_Type cfg = ''percentage'' then
            (if acf_Percentage cfg \<le>s 0 \<or> 100 <s acf_Percentage cfg
             then Fail (Err ''percentage must be 1-100'')
             else Ok (a\<lparr>rac_percentage := acf_Percentage cfg\<rparr>))
          else if acf_Type cfg = ''fixed'' then
            (if acf_Amount cfg \<le>s 0 then Fail (Err ''fixed amount must be positive'')
             else Ok (a\<lparr>rac_amount := acf_Amount cfg\<rparr>))
          else if acf_Type cfg = ''tiered'' then
            (if acf_Tiers cfg = [] then Fail (Err ''tiered action requires at least one tier'')
             else bindO (check_tiers 0 (acf_Tiers cfg)) (\<lambda>_. Ok (a\<lparr>rac_tiers := acf_Tiers cfg\<rparr>)))
          else if acf_Type cfg = ''buy_x_get_y'' then
            (if acf_BuyQty cfg \<le>s 0 then Fail (Err ''buy_qty must be positive'')
             else if acf_GetQty cfg \<le>s 0 then Fail (Err ''get_qty must be positive'')
             else Ok (a\<lparr>rac_buyQty := acf_BuyQty cfg, rac_getQty := acf_GetQty cfg\<rparr>))
          else if reg \<noteq> None \<and> HasCatalogAction reg (acf_Type cfg)
            then Ok (a\<lparr>rac_raw := data, rac_usePlugin := True\<rparr>)
          else Fail (ErrWith ''unknown action type: '' [acf_Type cfg]))"

fun tier_percentage_from :: "int64 \<Rightarrow> (int64 \<times> int64) list \<Rightarrow> int64 \<Rightarrow> int64" where
  "tier_percentage_from matched [] qty = matched"
| "tier_percentage_from matched ((minQty, pct) # ts) qty =
     tier_percentage_from (if minQty \<le>s qty then pct else matched) ts qty"

definition tierPercentage :: "rule_action \<Rightarrow> int64 \<Rightarrow> int64" where
  "tierPercentage a qty = tier_percentage_from 0 (rac_tiers a) qty"

definition catalog_compute ::
    "rule_action \<Rightarrow> pricing_item \<Rightarrow> string \<Rightarrow> evaluator_registry option \<Rightarrow> money outcome" where
  "catalog_compute a item currency reg =
     (if rac_usePlugin a then EvalCatalogAction reg (rac_typ a) (rac_raw a) item currency
      else if rac_typ a = ''percentage'' then
        NewMoney (go_div (m_amount (pi_Total item) * rac_percentage a) 100) currency
      else if rac_typ a = ''fixed'' then
        bindO (NewMoney (rac_amount a) currency) (\<lambda>perItem.
        bindO (MulChecked perItem (pi_Quantity item)) (\<lambda>discount.
        if m_amount (pi_Total item) <s m_amount discount then Ok (pi_Total item) else Ok discount))
      else if rac_typ a = ''tiered'' then
        (let pct = tierPercentage a (pi_Quantity item) in
         if pct = 0 then Zero currency
         else NewMoney (go_div (m_amount (pi_Total item) * pct) 100) currency)
      else if rac_typ a = ''buy_x_get_y'' then
        (let bundle = rac_buyQty a + rac_getQty a in
         if bundle = 0 then Panics ''integer divide by zero''
         else
           let sets = go_div (pi_Quantity item) bundle in
           if sets = 0 then Zero currency
           else
             let freeItems = sets * rac_getQty a;
                 raw = m_amount (pi_UnitPrice item) * freeItems in
             NewMoney (if m_amount (pi_Total item) <s raw then m_amount (pi_Total item) else raw) currency)
      else Fail (ErrWith ''unsupported action: '' [rac_typ a]))"

definition decodeCartAction ::
    "json_decoder \<Rightarrow> string \<Rightarrow> evaluator_registry option \<Rightarrow> rule_action outcome" where
  "decodeCartAction json data reg =
     (if absent data then Fail (Err ''action config is required'')
      else case jd_action json data of
        Inl e \<Rightarrow> Fail (Wrap ''decode'' e)
      | Inr cfg \<Rightarrow>
          let a = action_of (acf_Type cfg) in
          if acf_Type cfg = ''percentage'' then
            (if acf_Percentage cfg \<le>s 0 \<or> 100 <s acf_Percentage cfg
             then Fail (Err ''percentage must be 1-100'')
             else Ok (a\<lparr>rac_percentage := acf_Percentage cfg\<rparr>))
          else if acf_Type cfg = ''fixed'' then
            (if acf_Amount cfg \<le>s 0 then Fail (Err ''fixed amount must be positive'')
             else Ok (a\<lparr>rac_amount := acf_Amount cfg\<rparr>))
          else if reg \<noteq> None \<and> HasCartAction reg (acf_Type cfg)
            then Ok (a\<lparr>rac_raw := data, rac_usePlugin := True\<rparr>)
          else Fail (ErrWith ''unknown cart action type: '' [acf_Type cfg]))"

definition cart_compute ::
    "rule_action \<Rightarrow> money \<Rightarrow> string \<Rightarrow> evaluator_registry option \<Rightarrow> money outcome" where
  "cart_compute a subtotal currency reg =
     (if rac_usePlugin a then EvalCartAction reg (rac_typ a) (rac_raw a) subtotal currency
      else if rac_typ a = ''percentage'' then
        NewMoney (go_div (m_amount subtotal * rac_percentage a) 100) currency
      else if rac_typ a = ''fixed'' then
        bindO (NewMoney (rac_amount a) currency) (\<lambda>discount.
        if m_amount subtotal <s m_amount discount then Ok subtotal else Ok discount)
      else Fail (ErrWith ''unsupported cart action: '' [rac_typ a]))"

section \<open>The promotion steps\<close>

record promo_env =
  pe_list :: "promotion_type \<Rightarrow> gerror + promotion list"
  pe_coupon :: "string \<Rightarrow> gerror + coupon option"
  pe_registry :: "evaluator_registry option"
  pe_json :: json_decoder

text \<open>\<open>couponCode, _ := Meta["coupon_code"].(string)\<close>: empty unless it is a string.\<close>

definition coupon_code_of :: "meta \<Rightarrow> string" where
  "coupon_code_of m = (case m ''coupon_code'' of Some (MStr s) \<Rightarrow> s | _ \<Rightarrow> [])"

text \<open>The guards at the head of both loops: does the promotion apply to this request?\<close>

definition promo_applies ::
    "promo_env \<Rightarrow> string \<Rightarrow> gotime \<Rightarrow> string \<Rightarrow> promotion \<Rightarrow> bool outcome" where
  "promo_applies env label now couponCode p =
     (if \<not> IsEligible p now then Ok False
      else if \<not> pm_CouponBound p then Ok True
      else if couponCode = [] then Ok False
      else case pe_coupon env couponCode of
        Inl e \<Rightarrow> Fail (Wrap (label @ '': coupon lookup'') e)
      | Inr None \<Rightarrow> Ok False
      | Inr (Some c) \<Rightarrow> Ok (cp_PromotionID c = pm_ID p \<and> CanRedeem c))"

text \<open>One promotion on one line: the body of the inner loop.\<close>

definition catalog_promo_item ::
    "promo_env \<Rightarrow> string \<Rightarrow> promotion \<Rightarrow> rule_condition \<Rightarrow> rule_action \<Rightarrow> pricing_item \<Rightarrow> pricing_item outcome" where
  "catalog_promo_item env currency p cond act item =
     bindO (mapErr (Wrap (''catalog promotions: condition: '' @ pm_Name p)) (catalog_matches cond item (pe_registry env))) (\<lambda>ok.
     if \<not> ok then Ok item
     else
       bindO (mapErr (Wrap (''catalog promotions: compute: '' @ pm_Name p))
                (catalog_compute act item currency (pe_registry env))) (\<lambda>discount.
       if IsZero discount then Ok item
       else
         bindO (mapErr (Wrap (''catalog promotions: adjustment: '' @ pm_Name p))
                  (NewAdjustment AdjustmentDiscount (''promo.'' @ pm_ID p) discount)) (\<lambda>adj.
         Ok (item\<lparr>pi_Adjustments := pi_Adjustments item @ [adj\<lparr>adj_Description := pm_Name p\<rparr>]\<rparr>))))"

fun map_items :: "('a \<Rightarrow> 'a outcome) \<Rightarrow> 'a list \<Rightarrow> 'a list outcome" where
  "map_items f [] = Ok []"
| "map_items f (i # is) = bindO (f i) (\<lambda>j. bindO (map_items f is) (\<lambda>js. Ok (j # js)))"

fun catalog_promos ::
    "promo_env \<Rightarrow> gotime \<Rightarrow> string \<Rightarrow> string \<Rightarrow> promotion list \<Rightarrow> pricing_item list \<Rightarrow> pricing_item list outcome" where
  "catalog_promos env now couponCode currency [] items = Ok items"
| "catalog_promos env now couponCode currency (p # ps) items =
     bindO (promo_applies env ''catalog promotions'' now couponCode p) (\<lambda>applies.
     if \<not> applies then catalog_promos env now couponCode currency ps items
     else
       bindO (mapErr (Wrap (''catalog promotions: conditions: '' @ pm_Name p))
                (decodeCatalogCondition (pe_json env) (pm_Conditions p) (pe_registry env))) (\<lambda>cond.
       bindO (mapErr (Wrap (''catalog promotions: actions: '' @ pm_Name p))
                (decodeCatalogAction (pe_json env) (pm_Actions p) (pe_registry env))) (\<lambda>act.
       bindO (map_items (catalog_promo_item env currency p cond act) items) (\<lambda>items'.
       catalog_promos env now couponCode currency ps items'))))"

definition CatalogPromotionStep_Apply ::
    "promo_env \<Rightarrow> gotime \<Rightarrow> pricing_context \<Rightarrow> pricing_context outcome" where
  "CatalogPromotionStep_Apply env now pctx =
     (case pe_list env PromoTypeCatalog of
        Inl e \<Rightarrow> Fail (Wrap ''catalog promotions: list'' e)
      | Inr [] \<Rightarrow> Ok pctx
      | Inr promos \<Rightarrow>
          bindO (catalog_promos env now (coupon_code_of (pc_Meta pctx)) (pc_Currency pctx) promos (pc_Items pctx))
            (\<lambda>items. Ok (pctx\<lparr>pc_Items := items\<rparr>)))"

fun net_from :: "money \<Rightarrow> adjustment list \<Rightarrow> money outcome" where
  "net_from net [] = Ok net"
| "net_from net (a # as) =
     (if adj_Type a = AdjustmentDiscount then bindO (Sub net (adj_Amount a)) (\<lambda>n. net_from n as)
      else net_from net as)"

definition itemNetTotal :: "pricing_item \<Rightarrow> money outcome" where
  "itemNetTotal item = net_from (pi_Total item) (pi_Adjustments item)"

fun net_subtotal :: "money \<Rightarrow> pricing_item list \<Rightarrow> money outcome" where
  "net_subtotal acc [] = Ok acc"
| "net_subtotal acc (i # is) =
     bindO (itemNetTotal i) (\<lambda>n. bindO (Add acc n) (\<lambda>acc'. net_subtotal acc' is))"

fun cart_promos ::
    "promo_env \<Rightarrow> gotime \<Rightarrow> string \<Rightarrow> string \<Rightarrow> money \<Rightarrow> promotion list \<Rightarrow> adjustment list \<Rightarrow> adjustment list outcome" where
  "cart_promos env now couponCode currency subtotal [] adjs = Ok adjs"
| "cart_promos env now couponCode currency subtotal (p # ps) adjs =
     bindO (promo_applies env ''cart promotions'' now couponCode p) (\<lambda>applies.
     if \<not> applies then cart_promos env now couponCode currency subtotal ps adjs
     else
       bindO (mapErr (Wrap (''cart promotions: conditions: '' @ pm_Name p))
                (decodeCartCondition (pe_json env) (pm_Conditions p) (pe_registry env))) (\<lambda>cond.
       bindO (mapErr (Wrap (''cart promotions: condition: '' @ pm_Name p))
                (cart_matches cond subtotal (pe_registry env))) (\<lambda>ok.
       if \<not> ok then cart_promos env now couponCode currency subtotal ps adjs
       else
         bindO (mapErr (Wrap (''cart promotions: actions: '' @ pm_Name p))
                  (decodeCartAction (pe_json env) (pm_Actions p) (pe_registry env))) (\<lambda>act.
         bindO (mapErr (Wrap (''cart promotions: compute: '' @ pm_Name p))
                  (cart_compute act subtotal currency (pe_registry env))) (\<lambda>discount.
         if IsZero discount then cart_promos env now couponCode currency subtotal ps adjs
         else
           bindO (mapErr (Wrap (''cart promotions: adjustment: '' @ pm_Name p))
                    (NewAdjustment AdjustmentDiscount (''promo.'' @ pm_ID p) discount)) (\<lambda>adj.
           cart_promos env now couponCode currency subtotal ps
             (adjs @ [adj\<lparr>adj_Description := pm_Name p\<rparr>])))))))"

definition CartPromotionStep_Apply ::
    "promo_env \<Rightarrow> gotime \<Rightarrow> pricing_context \<Rightarrow> pricing_context outcome" where
  "CartPromotionStep_Apply env now pctx =
     (case pe_list env PromoTypeCart of
        Inl e \<Rightarrow> Fail (Wrap ''cart promotions: list'' e)
      | Inr [] \<Rightarrow> Ok pctx
      | Inr promos \<Rightarrow>
          bindO (MustZero (pc_Currency pctx)) (\<lambda>z.
          bindO (net_subtotal z (pc_Items pctx)) (\<lambda>subtotal.
          bindO (cart_promos env now (coupon_code_of (pc_Meta pctx)) (pc_Currency pctx) subtotal promos
                   (pc_Adjustments pctx)) (\<lambda>adjs.
          Ok (pctx\<lparr>pc_Adjustments := adjs\<rparr>)))))"

definition CatalogPromotionStep :: "promo_env \<Rightarrow> gotime \<Rightarrow> pricing_step" where
  "CatalogPromotionStep env now =
     \<lparr>st_name = ''catalog_promotions'', st_apply = CatalogPromotionStep_Apply env now\<rparr>"

definition CartPromotionStep :: "promo_env \<Rightarrow> gotime \<Rightarrow> pricing_step" where
  "CartPromotionStep env now = \<lparr>st_name = ''cart_promotions'', st_apply = CartPromotionStep_Apply env now\<rparr>"

section \<open>Lemmas on built-in discounts\<close>

text \<open>A line as \<open>NewPricingItem\<close> builds it from a price that is not negative.\<close>

definition sane_line :: "string \<Rightarrow> pricing_item \<Rightarrow> bool" where
  "sane_line cur i \<longleftrightarrow> IsValidCurrency cur \<and> m_currency (pi_Total i) = cur \<and> 0 < sint (pi_Quantity i) \<and>
     0 \<le> cents (pi_UnitPrice i) \<and> cents (pi_Total i) = cents (pi_UnitPrice i) * sint (pi_Quantity i)"

lemma NewPricingItem_sane:
  assumes "NewPricingItem v q p = Ok i" "IsValidCurrency (m_currency p)" "0 \<le> cents p"
  shows "sane_line (m_currency p) i"
proof -
  from assms(1) obtain t where q: "\<not> q \<le>s 0" and t: "MulChecked p q = Ok t"
    and i: "i = \<lparr>pi_VariantID = v, pi_Quantity = q, pi_UnitPrice = p, pi_Total = t, pi_Adjustments = []\<rparr>"
    by (auto simp: NewPricingItem_def split: if_splits)
  from q have "0 < sint q" by (simp add: i64 not_le)
  then show ?thesis
    using MulChecked_cents [OF _ t] MulChecked_currency [OF t] assms(2,3) by (simp add: sane_line_def i)
qed

text \<open>The built-in actions that the decoder lets through.\<close>

definition builtin_action :: "rule_action \<Rightarrow> bool" where
  "builtin_action a \<longleftrightarrow> \<not> rac_usePlugin a \<and>
     (rac_typ a = ''percentage'' \<and> 0 < sint (rac_percentage a) \<and> sint (rac_percentage a) \<le> 100 \<or>
      rac_typ a = ''fixed'' \<and> 0 < sint (rac_amount a) \<or>
      rac_typ a = ''tiered'' \<and> check_tiers 0 (rac_tiers a) = Ok () \<or>
      rac_typ a = ''buy_x_get_y'' \<and> 0 < sint (rac_buyQty a) \<and> 0 < sint (rac_getQty a))"

lemma decodeCatalogAction_builtin:
  "decodeCatalogAction json data reg = Ok a \<Longrightarrow> \<not> rac_usePlugin a \<Longrightarrow> builtin_action a"
  by (auto simp: decodeCatalogAction_def builtin_action_def action_of_def Let_def i64 not_le not_less
      split: if_splits sum.splits)

lemma decodeCartAction_builtin:
  "decodeCartAction json data reg = Ok a \<Longrightarrow> \<not> rac_usePlugin a \<Longrightarrow>
     builtin_action a \<and> (rac_typ a = ''percentage'' \<or> rac_typ a = ''fixed'')"
  by (auto simp: decodeCartAction_def builtin_action_def action_of_def Let_def i64 not_le not_less
      split: if_splits sum.splits)

text \<open>Which percentage a tier table grants: that of the largest minimum the quantity reaches.\<close>

definition tier_applies :: "(int64 \<times> int64) list \<Rightarrow> int64 \<Rightarrow> int64 \<Rightarrow> bool" where
  "tier_applies ts q pct \<longleftrightarrow>
     (\<exists>m. (m, pct) \<in> set ts \<and> sint m \<le> sint q \<and> (\<forall>(m', _) \<in> set ts. sint m' \<le> sint q \<longrightarrow> sint m' \<le> sint m)) \<or>
     ((\<forall>(m', _) \<in> set ts. sint q < sint m') \<and> pct = 0)"

lemma check_tiers_bounds:
  "check_tiers prev ts = Ok u \<Longrightarrow> (m, pct) \<in> set ts \<Longrightarrow>
     sint prev < sint m \<and> 0 < sint pct \<and> sint pct \<le> 100"
  by (induction prev ts rule: check_tiers.induct) (fastforce simp: i64 not_le not_less split: if_splits)+

lemma tier_percentage_applies:
  assumes "check_tiers prev ts = Ok u"
  shows "tier_applies ts q (tier_percentage_from matched ts q) \<or>
    ((\<forall>(m', _) \<in> set ts. sint q < sint m') \<and> tier_percentage_from matched ts q = matched)"
  using assms
proof (induction prev ts arbitrary: matched rule: check_tiers.induct)
  case (2 prev m p ts)
  then have ts: "check_tiers m ts = Ok u" by (auto split: if_splits)
  have above: "(m', p') \<in> set ts \<Longrightarrow> sint m < sint m'" for m' p'
    using check_tiers_bounds [OF ts] by blast
  have "\<not> m \<le>s 0" "\<not> m \<le>s prev" "\<not> (p \<le>s 0 \<or> 100 <s p)" using "2.prems" by (auto split: if_splits)
  note IH = "2.IH" [OF this ts, of "if m \<le>s q then p else matched"]
  show ?case
  proof (cases "tier_applies ts q (tier_percentage_from (if m \<le>s q then p else matched) ts q) \<and>
      (\<exists>(m', _) \<in> set ts. sint m' \<le> sint q)")
    case True
    then obtain m1 where m1: "(m1, tier_percentage_from (if m \<le>s q then p else matched) ts q) \<in> set ts"
      "sint m1 \<le> sint q" "\<forall>(m', _) \<in> set ts. sint m' \<le> sint q \<longrightarrow> sint m' \<le> sint m1"
      by (fastforce simp: tier_applies_def)
    then have "tier_applies ((m, p) # ts) q (tier_percentage_from matched ((m, p) # ts) q)"
      using above [OF m1(1)] unfolding tier_applies_def by (intro disjI1 exI [of _ m1]) auto
    then show ?thesis ..
  next
    case False
    then have none: "\<forall>(m', _) \<in> set ts. sint q < sint m'"
      using IH by (fastforce simp: tier_applies_def not_le)
    have step: "tier_percentage_from r ts q = r" for r
      using none by (induction ts) (auto simp: i64 not_le)
    show ?thesis
    proof (cases "m \<le>s q")
      case True
      then have "tier_applies ((m, p) # ts) q p"
        using none unfolding tier_applies_def by (intro disjI1 exI [of _ m]) (auto simp: i64)
      then show ?thesis using True step by simp
    next
      case False
      then show ?thesis using none step by (auto simp: i64 not_le)
    qed
  qed
qed simp

lemma tierPercentage_applies:
  "check_tiers 0 (rac_tiers a) = Ok u \<Longrightarrow> tier_applies (rac_tiers a) q (tierPercentage a q)"
  using tier_percentage_applies [of 0 "rac_tiers a" u q 0] by (auto simp: tierPercentage_def tier_applies_def)

lemma tier_applies_bounds:
  "tier_applies ts q pct \<Longrightarrow> check_tiers 0 ts = Ok u \<Longrightarrow> 0 \<le> sint pct \<and> sint pct \<le> 100"
  using check_tiers_bounds [of 0 ts u] by (fastforce simp: tier_applies_def)

text \<open>The discount in cents that a built-in action grants on a line, over the integers.\<close>

definition line_discount :: "rule_action \<Rightarrow> pricing_item \<Rightarrow> int \<Rightarrow> bool" where
  "line_discount a i k \<longleftrightarrow>
     (if rac_typ a = ''percentage'' then k = cents (pi_Total i) * sint (rac_percentage a) div 100
      else if rac_typ a = ''fixed'' then k = min (cents (pi_Total i)) (sint (rac_amount a) * sint (pi_Quantity i))
      else if rac_typ a = ''tiered'' then
        (\<exists>pct. tier_applies (rac_tiers a) (pi_Quantity i) pct \<and> k = cents (pi_Total i) * sint pct div 100)
      else k = cents (pi_UnitPrice i) *
             (sint (pi_Quantity i) div (sint (rac_buyQty a) + sint (rac_getQty a)) * sint (rac_getQty a)))"

text \<open>No overflow in the scaled total, nor in the size of a buy-x-get-y bundle.\<close>

definition discount_fits :: "rule_action \<Rightarrow> pricing_item \<Rightarrow> bool" where
  "discount_fits a i \<longleftrightarrow> cents (pi_Total i) * 100 < 2 ^ 63 \<and>
     in_int64 (sint (rac_buyQty a) + sint (rac_getQty a))"

lemma percent_exact:
  assumes "0 \<le> sint t" "sint t * 100 < 2 ^ 63" "0 \<le> sint p" "sint p \<le> 100"
  shows "sint (go_div (t * p) 100) = sint t * sint p div 100" "sint t * sint p div 100 \<le> sint t"
    "0 \<le> sint t * sint p div 100"
proof -
  have le: "sint t * sint p \<le> sint t * 100" using assms by (simp add: mult_left_mono)
  have nn: "0 \<le> sint t * sint p" using assms by simp
  have "sint t * sint p < 2 ^ 63" using le assms(2) by linarith
  moreover have "- (2 ^ 63) \<le> sint t * sint p" by (rule order_trans [OF _ nn]) simp
  ultimately have "in_int64 (sint t * sint p)" by (simp only: in_int64_def simp_thms)
  then have "sint (t * p) = sint t * sint p" by (rule sint_times_exact)
  then show "sint (go_div (t * p) 100) = sint t * sint p div 100"
    using sint_go_div_pos [of 100 "t * p"] nn by (simp add: sdiv_nonneg_int)
  show "sint t * sint p div 100 \<le> sint t" using zdiv_mono1 [OF le, of 100] by simp
  show "0 \<le> sint t * sint p div 100" using nn by (simp add: pos_imp_zdiv_nonneg_iff)
qed

lemma free_items_bound:
  "0 < b \<Longrightarrow> 0 < g \<Longrightarrow> 0 \<le> q \<Longrightarrow> q div (b + g) * g \<le> (q :: int)"
proof -
  assume bg: "0 < b" "0 < g" and q: "0 \<le> q"
  then have nn: "0 \<le> q div (b + g)" by (simp add: pos_imp_zdiv_nonneg_iff)
  have "q div (b + g) * g \<le> q div (b + g) * (b + g)" using bg nn by (intro mult_left_mono) auto
  also have "\<dots> \<le> q" using le_div_iff_mult [of "b + g" "q div (b + g)" q] bg by simp
  finally show ?thesis .
qed

lemma compute_percentage:
  assumes "builtin_action a" "rac_typ a = ''percentage''" "sane_line cur i" "discount_fits a i"
  shows "\<exists>d. catalog_compute a i cur reg = Ok d \<and> m_currency d = cur \<and> 0 \<le> cents d \<and>
    cents d \<le> cents (pi_Total i) \<and> line_discount a i (cents d)"
proof -
  have p: "0 \<le> sint (rac_percentage a)" "sint (rac_percentage a) \<le> 100"
    using assms(1,2) by (auto simp: builtin_action_def)
  have t: "0 \<le> cents (pi_Total i)" using assms(3) by (simp add: sane_line_def)
  note e = percent_exact [OF t _ p]
  show ?thesis
    using assms e by (auto simp: catalog_compute_def builtin_action_def NewMoney_def sane_line_def
        line_discount_def discount_fits_def)
qed

lemma compute_tiered:
  assumes "builtin_action a" "rac_typ a = ''tiered''" "sane_line cur i" "discount_fits a i"
  shows "\<exists>d. catalog_compute a i cur reg = Ok d \<and> m_currency d = cur \<and> 0 \<le> cents d \<and>
    cents d \<le> cents (pi_Total i) \<and> line_discount a i (cents d)"
proof -
  define pct where "pct = tierPercentage a (pi_Quantity i)"
  have ct: "check_tiers 0 (rac_tiers a) = Ok ()" using assms(1,2) by (simp add: builtin_action_def)
  have ap: "tier_applies (rac_tiers a) (pi_Quantity i) pct"
    unfolding pct_def by (rule tierPercentage_applies [OF ct])
  note p = tier_applies_bounds [OF ap ct]
  have t: "0 \<le> cents (pi_Total i)" using assms(3) by (simp add: sane_line_def)
  note e = percent_exact [OF t _ conjunct1 [OF p] conjunct2 [OF p]]
  have cur: "IsValidCurrency cur" using assms(3) by (simp add: sane_line_def)
  have fits: "cents (pi_Total i) * 100 < 2 ^ 63" using assms(4) by (simp add: discount_fits_def)
  show ?thesis
  proof (cases "pct = 0")
    case True
    then have "line_discount a i 0" using ap assms(2) by (auto simp: line_discount_def)
    then show ?thesis
      using True assms(1,2) cur t
      by (simp add: catalog_compute_def builtin_action_def Zero_def pct_def [symmetric])
  next
    case False
    then have "catalog_compute a i cur reg = Ok (in_cur cur (go_div (m_amount (pi_Total i) * pct) 100))"
      using assms(1,2) cur by (simp add: catalog_compute_def builtin_action_def NewMoney_def pct_def [symmetric])
    then show ?thesis using e [OF fits] ap assms(2) by (auto simp: line_discount_def)
  qed
qed

lemma compute_bundle:
  assumes "builtin_action a" "rac_typ a = ''buy_x_get_y''" "sane_line cur i" "discount_fits a i"
  shows "\<exists>d. catalog_compute a i cur reg = Ok d \<and> m_currency d = cur \<and> 0 \<le> cents d \<and>
    cents d \<le> cents (pi_Total i) \<and> line_discount a i (cents d)"
proof -
  let ?b = "sint (rac_buyQty a)" and ?g = "sint (rac_getQty a)" and ?q = "sint (pi_Quantity i)"
  let ?u = "cents (pi_UnitPrice i)" and ?t = "cents (pi_Total i)"
  let ?free = "?q div (?b + ?g) * ?g"
  have bg: "0 < ?b" "0 < ?g" using assms(1,2) by (auto simp: builtin_action_def)
  have q: "0 < ?q" and u: "0 \<le> ?u" and t: "?t = ?u * ?q" and cur: "IsValidCurrency cur"
    using assms(3) by (auto simp: sane_line_def)
  have bun: "sint (rac_buyQty a + rac_getQty a) = ?b + ?g"
    using assms(4) by (simp add: discount_fits_def sint_plus_exact)
  have nz: "rac_buyQty a + rac_getQty a \<noteq> 0" using bun bg by (metis add_pos_pos less_irrefl sint_0)
  define sets where "sets = go_div (pi_Quantity i) (rac_buyQty a + rac_getQty a)"
  have sets: "sint sets = ?q div (?b + ?g)"
    unfolding sets_def using sint_go_div_pos [of "rac_buyQty a + rac_getQty a" "pi_Quantity i"] bun bg q
    by (simp add: sdiv_nonneg_int)
  have free0: "0 \<le> ?free" using bg q by (simp add: pos_imp_zdiv_nonneg_iff)
  have free1: "?free \<le> ?q" using free_items_bound [OF bg] q by simp
  have freeE: "sint (sets * rac_getQty a) = ?free"
    using sint_times_exact [of sets "rac_getQty a"] free0 free1 sint_upper [of "pi_Quantity i"] sets
    by (simp add: in_int64_def)
  have raw1: "?u * ?free \<le> ?t" unfolding t using free1 u by (rule mult_left_mono)
  have raw0: "0 \<le> ?u * ?free" using u free0 by (rule mult_nonneg_nonneg)
  have rawE: "sint (m_amount (pi_UnitPrice i) * (sets * rac_getQty a)) = ?u * ?free"
  proof -
    have "?u * ?free < 2 ^ 63" using raw1 sint_upper [of "m_amount (pi_Total i)"] by simp
    moreover have "- (2 ^ 63) \<le> ?u * ?free" by (rule order_trans [OF _ raw0]) simp
    ultimately have "in_int64 (?u * ?free)" by (simp only: in_int64_def simp_thms)
    then show ?thesis using sint_times_exact [of "m_amount (pi_UnitPrice i)" "sets * rac_getQty a"] freeE by simp
  qed
  have notless: "\<not> m_amount (pi_Total i) <s m_amount (pi_UnitPrice i) * (sets * rac_getQty a)"
    using raw1 rawE by (simp add: i64)
  have rule: "line_discount a i (?u * ?free)" using assms(2) by (simp add: line_discount_def)
  show ?thesis
  proof (cases "sets = 0")
    case True
    then have f0: "?free = 0" using freeE by simp
    have "line_discount a i 0" using rule by (simp only: f0 mult_zero_right)
    moreover have "0 \<le> cents (pi_Total i)" using raw0 raw1 by (rule order_trans)
    moreover have "catalog_compute a i cur reg = Ok (in_cur cur 0)"
      using assms(1,2) cur nz True
      by (simp add: catalog_compute_def builtin_action_def Zero_def Let_def sets_def [symmetric])
    ultimately show ?thesis by simp
  next
    case False
    have "catalog_compute a i cur reg = Ok (in_cur cur (m_amount (pi_UnitPrice i) * (sets * rac_getQty a)))"
      using assms(1,2) cur nz False notless
      by (simp add: catalog_compute_def builtin_action_def NewMoney_def Let_def sets_def [symmetric])
    then show ?thesis using rule raw0 raw1 rawE by simp
  qed
qed

lemma compute_fixed:
  assumes "builtin_action a" "rac_typ a = ''fixed''" "sane_line cur i"
  shows "case catalog_compute a i cur reg of
      Ok d \<Rightarrow> m_currency d = cur \<and> 0 \<le> cents d \<and> cents d \<le> cents (pi_Total i) \<and> line_discount a i (cents d)
    | Fail _ \<Rightarrow> 2 ^ 63 \<le> sint (rac_amount a) * sint (pi_Quantity i)
    | Panics _ \<Rightarrow> False"
proof -
  let ?m = "in_cur cur (rac_amount a)"
  have a0: "0 < sint (rac_amount a)" and q: "0 < sint (pi_Quantity i)" and cur: "IsValidCurrency cur"
    and t: "m_currency (pi_Total i) = cur" "0 \<le> cents (pi_Total i)"
    using assms by (auto simp: builtin_action_def sane_line_def)
  have unf: "catalog_compute a i cur reg = bindO (MulChecked ?m (pi_Quantity i))
      (\<lambda>d. if m_amount (pi_Total i) <s m_amount d then Ok (pi_Total i) else Ok d)"
    using assms(1,2) cur by (simp add: catalog_compute_def builtin_action_def NewMoney_def)
  show ?thesis
  proof (cases "MulChecked ?m (pi_Quantity i)")
    case (Ok d)
    have "cents d = sint (rac_amount a) * sint (pi_Quantity i)" "m_currency d = cur"
      using MulChecked_cents [OF _ Ok] MulChecked_currency [OF Ok] q by simp_all
    moreover then have "0 < cents d" using a0 q by simp
    ultimately show ?thesis using Ok t unf assms(2) by (simp add: line_discount_def i64)
  next
    case (Fail e)
    have "\<not> in_int64 (sint (rac_amount a) * sint (pi_Quantity i))"
      using Fail q MulChecked_eq [where m = ?m and q = "pi_Quantity i"] by (auto split: if_splits)
    moreover have "- (2 ^ 63) \<le> sint (rac_amount a) * sint (pi_Quantity i)"
      by (rule order_trans [of _ 0]) (use a0 q in simp_all)
    ultimately have "2 ^ 63 \<le> sint (rac_amount a) * sint (pi_Quantity i)"
      by (simp add: in_int64_def)
    then show ?thesis using Fail unf by simp
  qed simp
qed

lemma catalog_compute_builtin:
  assumes "builtin_action a" "sane_line cur i" "discount_fits a i"
  shows "case catalog_compute a i cur reg of
      Ok d \<Rightarrow> m_currency d = cur \<and> 0 \<le> cents d \<and> cents d \<le> cents (pi_Total i) \<and> line_discount a i (cents d)
    | Fail _ \<Rightarrow> rac_typ a = ''fixed'' \<and> 2 ^ 63 \<le> sint (rac_amount a) * sint (pi_Quantity i)
    | Panics _ \<Rightarrow> False"
proof -
  consider "rac_typ a = ''percentage''" | "rac_typ a = ''fixed''" | "rac_typ a = ''tiered''"
    | "rac_typ a = ''buy_x_get_y''" using assms(1) by (auto simp: builtin_action_def)
  then show ?thesis
  proof cases
    case 1
    then show ?thesis using compute_percentage [OF assms(1) 1 assms(2,3), of reg] by auto
  next
    case 2
    then show ?thesis using compute_fixed [OF assms(1) 2 assms(2), of reg] by (simp split: outcome.splits)
  next
    case 3
    then show ?thesis using compute_tiered [OF assms(1) 3 assms(2,3), of reg] by auto
  next
    case 4
    then show ?thesis using compute_bundle [OF assms(1) 4 assms(2,3), of reg] by auto
  qed
qed

lemma cart_compute_builtin:
  assumes "builtin_action a" "rac_typ a = ''percentage'' \<or> rac_typ a = ''fixed''" "IsValidCurrency cur"
    "m_currency t = cur" "0 < cents t" "cents t * 100 < 2 ^ 63"
  shows "\<exists>d. cart_compute a t cur reg = Ok d \<and> m_currency d = cur \<and> 0 \<le> cents d \<and> cents d \<le> cents t"
proof (cases "rac_typ a = ''percentage''")
  case True
  have p: "0 \<le> sint (rac_percentage a)" "sint (rac_percentage a) \<le> 100"
    using assms(1) True by (auto simp: builtin_action_def)
  have t: "0 \<le> cents t" using assms(5) by simp
  show ?thesis
    using True assms percent_exact [OF t assms(6) p]
    by (auto simp: cart_compute_def builtin_action_def NewMoney_def)
next
  case False
  then show ?thesis
    using assms by (auto simp: cart_compute_def builtin_action_def NewMoney_def i64)
qed

section \<open>Lemmas on the promotion steps\<close>

definition promo_in_force :: "promo_env \<Rightarrow> gotime \<Rightarrow> string \<Rightarrow> promotion \<Rightarrow> bool" where
  "promo_in_force env now code p \<longleftrightarrow> IsEligible p now \<and>
     (pm_CouponBound p \<longrightarrow> code \<noteq> [] \<and> (case pe_coupon env code of
        Inr (Some c) \<Rightarrow> cp_PromotionID c = pm_ID p \<and> CanRedeem c | _ \<Rightarrow> False))"

lemma promo_applies_Ok: "promo_applies env label now code p = Ok b \<Longrightarrow> b = promo_in_force env now code p"
  by (auto simp: promo_applies_def promo_in_force_def split: if_splits sum.splits option.splits)

definition granted_adjustment :: "promotion \<Rightarrow> money \<Rightarrow> adjustment" where
  "granted_adjustment p d = \<lparr>adj_Type = AdjustmentDiscount, adj_Code = ''promo.'' @ pm_ID p,
     adj_Description = pm_Name p, adj_Amount = d, adj_Included = False, adj_Meta = (\<lambda>_. None)\<rparr>"

definition with_adjs :: "adjustment list \<Rightarrow> pricing_item \<Rightarrow> pricing_item" where
  "with_adjs as i = i\<lparr>pi_Adjustments := pi_Adjustments i @ as\<rparr>"

lemma with_adjs_simps [simp]:
  "with_adjs [] i = i" "with_adjs bs (with_adjs as i) = with_adjs (as @ bs) i"
  "pi_Quantity (with_adjs as i) = pi_Quantity i" "pi_Total (with_adjs as i) = pi_Total i"
  "pi_UnitPrice (with_adjs as i) = pi_UnitPrice i"
  "pi_Adjustments (with_adjs as i) = pi_Adjustments i @ as"
  by (simp_all add: with_adjs_def)

lemma NewAdjustment_granted:
  "NewAdjustment AdjustmentDiscount code d = Ok adj \<Longrightarrow>
     adj\<lparr>adj_Description := n\<rparr> = \<lparr>adj_Type = AdjustmentDiscount, adj_Code = code,
       adj_Description = n, adj_Amount = d, adj_Included = False, adj_Meta = (\<lambda>_. None)\<rparr>"
  by (auto simp: NewAdjustment_def split: if_splits)

lemma decodeCatalogCondition_None: "decodeCatalogCondition json data None = Ok c \<Longrightarrow> \<not> rcd_usePlugin c"
  by (auto simp: decodeCatalogCondition_def builtin_condition_def split: if_splits sum.splits)

lemma decodeCatalogAction_None: "decodeCatalogAction json data None = Ok a \<Longrightarrow> \<not> rac_usePlugin a"
  by (auto simp: decodeCatalogAction_def action_of_def Let_def split: if_splits sum.splits)

lemma decodeCartAction_None: "decodeCartAction json data None = Ok a \<Longrightarrow> \<not> rac_usePlugin a"
  by (auto simp: decodeCartAction_def action_of_def Let_def split: if_splits sum.splits)

lemma decodeCartCondition_None:
  "decodeCartCondition json data None = Ok c \<Longrightarrow> cart_matches c t None = Ok True \<Longrightarrow> 0 < cents t"
  by (auto simp: decodeCartCondition_def builtin_condition_def cart_matches_def i64 not_le
      split: if_splits sum.splits)

text \<open>The subtotal the cart rules see: line totals less the discounts already on the lines.\<close>

lemma net_from_Ok:
  "adjs_in cur as \<Longrightarrow> net_from (in_cur cur n) as = Ok (in_cur cur (n - adj_sum AdjustmentDiscount as))"
proof (induction as arbitrary: n)
  case Nil
  then show ?case by (simp add: adj_sum_def)
next
  case (Cons a as)
  then have "m_currency (adj_Amount a) = cur" "adjs_in cur as" by (auto simp: adjs_in_def)
  then show ?case using Cons.IH by (simp add: Sub_match adj_sum_def algebra_simps)
qed

lemma itemNetTotal_Ok:
  "item_in cur i \<Longrightarrow>
     itemNetTotal i = Ok (in_cur cur (m_amount (pi_Total i) - adj_sum AdjustmentDiscount (pi_Adjustments i)))"
  by (cases "pi_Total i") (simp add: itemNetTotal_def item_in_def net_from_Ok)

definition net_of :: "pricing_item list \<Rightarrow> int64" where
  "net_of is = (\<Sum>i\<leftarrow>is. m_amount (pi_Total i)) - adj_sum AdjustmentDiscount (concat (map pi_Adjustments is))"

lemma net_subtotal_Ok:
  "\<forall>i \<in> set is. item_in cur i \<Longrightarrow> net_subtotal (in_cur cur n) is = Ok (in_cur cur (n + net_of is))"
proof (induction "is" arbitrary: n)
  case Nil
  then show ?case by (simp add: net_of_def adj_sum_def)
next
  case (Cons i "is")
  have "net_of (i # is) = m_amount (pi_Total i) - adj_sum AdjustmentDiscount (pi_Adjustments i) + net_of is"
    by (simp add: net_of_def adj_sum_append algebra_simps)
  then show ?case using Cons by (simp add: itemNetTotal_Ok [of cur] Add_match add.assoc)
qed

section \<open>Both steps keep the context in its currency\<close>

text \<open>Registered evaluators do not panic and answer in the currency they are asked for.\<close>

definition sane_evaluators :: "evaluator_registry option \<Rightarrow> bool" where
  "sane_evaluators reg \<longleftrightarrow> (\<forall>r. reg = Some r \<longrightarrow>
     (\<forall>k x f. er_catalogConditions r k = Some (x, f) \<longrightarrow> (\<forall>cfg i. post (f cfg i) (\<lambda>_. True))) \<and>
     (\<forall>k x f. er_catalogActions r k = Some (x, f) \<longrightarrow>
        (\<forall>cfg i cur. post (f cfg i cur) (\<lambda>d. m_currency d = cur))) \<and>
     (\<forall>k x f. er_cartConditions r k = Some (x, f) \<longrightarrow> (\<forall>cfg t. post (f cfg t) (\<lambda>_. True))) \<and>
     (\<forall>k x f. er_cartActions r k = Some (x, f) \<longrightarrow>
        (\<forall>cfg t cur. post (f cfg t cur) (\<lambda>d. m_currency d = cur))))"

lemma eval_post:
  assumes "sane_evaluators reg"
  shows "post (EvalCatalogCondition reg k cfg i) (\<lambda>_. True)"
    "post (EvalCatalogAction reg k cfg i cur) (\<lambda>d. m_currency d = cur)"
    "post (EvalCartCondition reg k cfg t) (\<lambda>_. True)"
    "post (EvalCartAction reg k cfg t cur) (\<lambda>d. m_currency d = cur)"
  using assms
  by (auto simp: sane_evaluators_def EvalCatalogCondition_def EvalCatalogAction_def EvalCartCondition_def
      EvalCartAction_def split: option.splits)

lemma sum_of_positives_nonzero: "0 < sint (a :: int64) \<Longrightarrow> 0 < sint b \<Longrightarrow> a + b \<noteq> 0"
proof
  assume a: "0 < sint a" and b: "0 < sint b" and z: "a + b = 0"
  have "in_int64 (sint 0 - sint b)" using sint_upper [of b] b by (simp add: in_int64_def)
  then have "sint (0 - b) = - sint b" using sint_minus_exact [of 0 b] by simp
  moreover have "a = 0 - b" using z by (simp add: eq_neg_iff_add_eq_0)
  ultimately show False using a b by simp
qed

lemma catalog_compute_post:
  assumes "rac_usePlugin a \<or> builtin_action a" "item_in cur i" "sane_evaluators reg"
  shows "post (catalog_compute a i cur reg) (\<lambda>d. m_currency d = cur)"
proof (cases "rac_usePlugin a")
  case True
  then show ?thesis by (simp add: catalog_compute_def eval_post [OF assms(3)])
next
  case False
  have "rac_typ a = ''buy_x_get_y'' \<Longrightarrow> rac_buyQty a + rac_getQty a \<noteq> 0"
    using assms(1) False by (auto simp: builtin_action_def dest: sum_of_positives_nonzero)
  moreover have "m_currency (pi_Total i) = cur" using assms(2) by (simp add: item_in_def)
  ultimately show ?thesis
    using False unfolding catalog_compute_def Let_def
    by (auto intro!: post_if post_bind [OF NewMoney_post] NewMoney_post Zero_post
        post_bind [OF MulChecked_post])
qed

lemma cart_compute_post:
  assumes "m_currency t = cur" "sane_evaluators reg"
  shows "post (cart_compute a t cur reg) (\<lambda>d. m_currency d = cur)"
  using assms unfolding cart_compute_def
  by (auto intro!: post_if post_bind [OF NewMoney_post] NewMoney_post eval_post)

lemma check_tiers_safe: "check_tiers prev ts \<noteq> Panics p"
  by (induction prev ts rule: check_tiers.induct) auto

lemma decodeCatalogAction_post: "post (decodeCatalogAction json data reg) (\<lambda>a. rac_usePlugin a \<or> builtin_action a)"
proof (rule postI)
  show "decodeCatalogAction json data reg \<noteq> Panics p" for p
    by (auto simp: decodeCatalogAction_def Let_def check_tiers_safe split: sum.splits)
qed (use decodeCatalogAction_builtin in blast)

lemma decode_posts:
  "post (decodeCatalogCondition json data reg) (\<lambda>_. True)"
  "post (decodeCartCondition json data reg) (\<lambda>_. True)"
  "post (decodeCartAction json data reg) (\<lambda>_. True)"
  by (auto simp: decodeCatalogCondition_def decodeCartCondition_def decodeCartAction_def Let_def split: sum.splits)

lemma matches_posts:
  assumes "sane_evaluators reg"
  shows "post (catalog_matches c i reg) (\<lambda>_. True)" "post (cart_matches c t reg) (\<lambda>_. True)"
  using eval_post [OF assms] by (auto simp: catalog_matches_def cart_matches_def)

lemma promo_applies_post: "post (promo_applies env l now code p) (\<lambda>_. True)"
  by (auto simp: promo_applies_def split: sum.splits option.splits)

lemma NewAdjustment_post: "post (NewAdjustment typ code d) (\<lambda>a. adj_Amount a = d)"
  by (simp add: NewAdjustment_def)

lemma catalog_promo_item_post:
  assumes "rac_usePlugin act \<or> builtin_action act" "item_in cur i" "sane_evaluators (pe_registry env)"
  shows "post (catalog_promo_item env cur p cond act i) (item_in cur)"
  unfolding catalog_promo_item_def
proof (intro post_bind post_if)
  show "post (mapErr (Wrap (''catalog promotions: condition: '' @ pm_Name p))
      (catalog_matches cond i (pe_registry env))) (\<lambda>_. True)"
    using matches_posts [OF assms(3)] by simp
  show "post (mapErr (Wrap (''catalog promotions: compute: '' @ pm_Name p))
      (catalog_compute act i cur (pe_registry env))) (\<lambda>d. m_currency d = cur)"
    using catalog_compute_post [OF assms] by simp
  show "post (mapErr (Wrap (''catalog promotions: adjustment: '' @ pm_Name p))
      (NewAdjustment AdjustmentDiscount (''promo.'' @ pm_ID p) d)) (\<lambda>a. adj_Amount a = d)" for d
    using NewAdjustment_post by simp
qed (use assms(2) in \<open>simp_all add: item_in_def adjs_in_def\<close>)

lemma map_items_post:
  "\<forall>i \<in> set is. P i \<Longrightarrow> (\<And>i. P i \<Longrightarrow> post (f i) P) \<Longrightarrow> post (map_items f is) (\<lambda>js. \<forall>j \<in> set js. P j)"
proof (induction "is")
  case (Cons i "is")
  have "post (f i) P" "post (map_items f is) (\<lambda>js. \<forall>j \<in> set js. P j)" using Cons by simp_all
  then show ?case by (auto intro!: post_bind elim: post_bind)
qed simp

lemma catalog_promos_post:
  assumes "\<forall>i \<in> set is. item_in cur i" "sane_evaluators (pe_registry env)"
  shows "post (catalog_promos env now code cur ps is) (\<lambda>js. \<forall>j \<in> set js. item_in cur j)"
  using assms(1)
proof (induction ps arbitrary: "is")
  case (Cons p ps)
  have items: "post (map_items (catalog_promo_item env cur p cond act) is) (\<lambda>js. \<forall>j \<in> set js. item_in cur j)"
    if "rac_usePlugin act \<or> builtin_action act" for cond act
    using Cons.prems by (rule map_items_post) (rule catalog_promo_item_post [OF that _ assms(2)])
  show ?case
    unfolding catalog_promos.simps
  proof (intro post_bind post_if)
    show "post (mapErr (Wrap (''catalog promotions: actions: '' @ pm_Name p))
        (decodeCatalogAction (pe_json env) (pm_Actions p) (pe_registry env)))
        (\<lambda>a. rac_usePlugin a \<or> builtin_action a)"
      using decodeCatalogAction_post by simp
    show "post (promo_applies env ''catalog promotions'' now code p) (\<lambda>_. True)" by (rule promo_applies_post)
    show "post (mapErr (Wrap (''catalog promotions: conditions: '' @ pm_Name p))
        (decodeCatalogCondition (pe_json env) (pm_Conditions p) (pe_registry env))) (\<lambda>_. True)"
      using decode_posts by simp
    show "rac_usePlugin act \<or> builtin_action act \<Longrightarrow> post (map_items (catalog_promo_item env cur p cond act) is)
        (\<lambda>js. \<forall>j \<in> set js. item_in cur j)" for act cond
      by (rule items)
  qed (use Cons in simp_all)
qed simp

lemma cart_promos_post:
  assumes "adjs_in cur adjs" "m_currency sub = cur" "sane_evaluators (pe_registry env)"
  shows "post (cart_promos env now code cur sub ps adjs) (adjs_in cur)"
  using assms(1)
proof (induction ps arbitrary: adjs)
  case (Cons p ps)
  show ?case
    unfolding cart_promos.simps
  proof (intro post_bind post_if)
    show "post (mapErr (Wrap (''cart promotions: compute: '' @ pm_Name p))
        (cart_compute act sub cur (pe_registry env))) (\<lambda>d. m_currency d = cur)" for act
      using cart_compute_post [OF assms(2,3)] by simp
    show "post (mapErr (Wrap (''cart promotions: adjustment: '' @ pm_Name p))
        (NewAdjustment AdjustmentDiscount (''promo.'' @ pm_ID p) d)) (\<lambda>a. adj_Amount a = d)" for d
      using NewAdjustment_post by simp
    show "post (promo_applies env ''cart promotions'' now code p) (\<lambda>_. True)" by (rule promo_applies_post)
    show "post (mapErr (Wrap (''cart promotions: conditions: '' @ pm_Name p))
        (decodeCartCondition (pe_json env) (pm_Conditions p) (pe_registry env))) (\<lambda>_. True)"
      "post (mapErr (Wrap (''cart promotions: actions: '' @ pm_Name p))
        (decodeCartAction (pe_json env) (pm_Actions p) (pe_registry env))) (\<lambda>_. True)"
      using decode_posts by simp_all
    show "post (mapErr (Wrap (''cart promotions: condition: '' @ pm_Name p))
        (cart_matches cond sub (pe_registry env))) (\<lambda>_. True)" for cond
      using matches_posts [OF assms(3)] by simp
  qed (use Cons in \<open>simp_all add: adjs_in_def\<close>)
qed simp

lemma currency_safe_post:
  "currency_safe s \<longleftrightarrow> (\<forall>c. pctx_ok c \<longrightarrow> post (st_apply s c) (\<lambda>c'. pctx_ok c' \<and> pc_Currency c' = pc_Currency c))"
  by (simp add: currency_safe_def post_def)

lemma CatalogPromotionStep_safe:
  assumes "sane_evaluators (pe_registry env)"
  shows "currency_safe (CatalogPromotionStep env now)"
proof -
  have "post (CatalogPromotionStep_Apply env now c) (\<lambda>c'. pctx_ok c' \<and> pc_Currency c' = pc_Currency c)"
    if c: "pctx_ok c" for c
  proof -
    have "\<forall>i \<in> set (pc_Items c). item_in (pc_Currency c) i" using c by (simp add: pctx_ok_def)
    note promos = catalog_promos_post [OF this assms]
    show ?thesis
      unfolding CatalogPromotionStep_Apply_def using c
      by (auto split: sum.splits list.splits intro!: post_bind [OF promos] simp: pctx_ok_def
          simp del: catalog_promos.simps)
  qed
  then show ?thesis by (simp add: currency_safe_post CatalogPromotionStep_def)
qed

lemma CartPromotionStep_safe:
  assumes "sane_evaluators (pe_registry env)"
  shows "currency_safe (CartPromotionStep env now)"
proof -
  have "post (CartPromotionStep_Apply env now c) (\<lambda>c'. pctx_ok c' \<and> pc_Currency c' = pc_Currency c)"
    if c: "pctx_ok c" for c
  proof -
    have items: "\<forall>i \<in> set (pc_Items c). item_in (pc_Currency c) i" and cur: "IsValidCurrency (pc_Currency c)"
      and adjs: "adjs_in (pc_Currency c) (pc_Adjustments c)" using c by (simp_all add: pctx_ok_def)
    have "post (cart_promos env now code (pc_Currency c) (in_cur (pc_Currency c) n) ps (pc_Adjustments c))
        (adjs_in (pc_Currency c))" for code n ps
      using cart_promos_post [OF adjs _ assms] by simp
    note promos = post_bind [OF this]
    show ?thesis
      unfolding CartPromotionStep_Apply_def using c
      by (auto split: sum.splits list.splits intro!: promos simp: MustZero_valid [OF cur]
          net_subtotal_Ok [OF items] pctx_ok_def simp del: cart_promos.simps)
  qed
  then show ?thesis by (simp add: currency_safe_post CartPromotionStep_def)
qed

section \<open>The rules as they are stored\<close>

text \<open>
  What the configuration of a promotion says, over the integers and apart from the code that
  evaluates it: the condition a line or a cart has to meet, and the discount in cents.
\<close>

definition line_condition :: "json_decoder \<Rightarrow> string \<Rightarrow> pricing_item \<Rightarrow> bool" where
  "line_condition json data i \<longleftrightarrow> absent data \<or> (case jd_condition json data of
     Inl _ \<Rightarrow> False
   | Inr cfg \<Rightarrow> cc_Type cfg = ''always'' \<or> (cc_Type cfg = ''min_quantity'' \<and> sint (cc_Value cfg) \<le> sint (pi_Quantity i)))"

text \<open>The percentage of the last tier whose minimum is reached, none if there is no such tier.\<close>

definition tier_percent :: "(int64 \<times> int64) list \<Rightarrow> int \<Rightarrow> int" where
  "tier_percent ts q = (let reached = filter (\<lambda>(m, _). sint m \<le> q) ts in if reached = [] then 0 else sint (snd (last reached)))"

definition config_discount :: "action_config \<Rightarrow> pricing_item \<Rightarrow> int" where
  "config_discount cfg i =
     (let total = cents (pi_Total i); q = sint (pi_Quantity i) in
      if acf_Type cfg = ''percentage'' then total * sint (acf_Percentage cfg) div 100
      else if acf_Type cfg = ''fixed'' then min total (sint (acf_Amount cfg) * q)
      else if acf_Type cfg = ''tiered'' then total * tier_percent (acf_Tiers cfg) q div 100
      else cents (pi_UnitPrice i) * (q div (sint (acf_BuyQty cfg) + sint (acf_GetQty cfg)) * sint (acf_GetQty cfg)))"

definition line_grant :: "json_decoder \<Rightarrow> string \<Rightarrow> pricing_item \<Rightarrow> promotion \<Rightarrow> adjustment list" where
  "line_grant json cur i p = (case jd_action json (pm_Actions p) of
     Inl _ \<Rightarrow> []
   | Inr cfg \<Rightarrow> if line_condition json (pm_Conditions p) i \<and> config_discount cfg i \<noteq> 0
       then [granted_adjustment p (in_cur cur (word_of_int (config_discount cfg i)))] else [])"

definition line_grants :: "promo_env \<Rightarrow> gotime \<Rightarrow> string \<Rightarrow> string \<Rightarrow> promotion list \<Rightarrow> pricing_item \<Rightarrow> adjustment list" where
  "line_grants env now code cur ps i = concat (map (line_grant (pe_json env) cur i) (filter (promo_in_force env now code) ps))"

text \<open>No rule of a plugin.\<close>

definition builtin_line_rules :: "json_decoder \<Rightarrow> promotion \<Rightarrow> bool" where
  "builtin_line_rules json p \<longleftrightarrow>
     (\<forall>cfg. jd_condition json (pm_Conditions p) = Inr cfg \<longrightarrow> cc_Type cfg \<in> {''always'', ''min_quantity''}) \<and>
     (\<forall>cfg. jd_action json (pm_Actions p) = Inr cfg \<longrightarrow>
        acf_Type cfg \<in> {''percentage'', ''fixed'', ''tiered'', ''buy_x_get_y''} \<and>
        in_int64 (sint (acf_BuyQty cfg) + sint (acf_GetQty cfg)))"

lemma decode_builtin:
  assumes "builtin_line_rules json p"
  shows "decodeCatalogCondition json (pm_Conditions p) reg = decodeCatalogCondition json (pm_Conditions p) None"
    "decodeCatalogAction json (pm_Actions p) reg = decodeCatalogAction json (pm_Actions p) None"
  using assms
  by (auto simp: builtin_line_rules_def decodeCatalogCondition_def decodeCatalogAction_def Let_def split: sum.splits)

lemma last_tier: "sint (tier_percentage_from matched ts q) =
   (let reached = filter (\<lambda>(m, _). sint m \<le> sint q) ts in if reached = [] then sint matched else sint (snd (last reached)))"
  by (induction ts arbitrary: matched) (auto simp: i64 Let_def split: if_splits)

lemma tier_functional:
  assumes "check_tiers prev ts = Ok u" "(m, p) \<in> set ts" "(m, p') \<in> set ts"
  shows "p = p'"
  using assms
proof (induction prev ts rule: check_tiers.induct)
  case (2 prev m1 p1 ts)
  then have ts: "check_tiers m1 ts = Ok u" by (auto split: if_splits)
  have "(m1, x) \<notin> set ts" for x using check_tiers_bounds [OF ts] by blast
  then show ?case using 2 ts by (auto split: if_splits)
qed simp

lemma tier_applies_percent:
  assumes ct: "check_tiers 0 ts = Ok u" and ap: "tier_applies ts q pct"
  shows "sint pct = tier_percent ts (sint q)"
proof -
  let ?t = "tier_percentage_from 0 ts q"
  have at: "tier_applies ts q ?t" using tier_percentage_applies [OF ct, of q 0] by (auto simp: tier_applies_def)
  have "pct = ?t"
  proof (cases "\<forall>(m', _) \<in> set ts. sint q < sint m'")
    case True
    then show ?thesis using ap at unfolding tier_applies_def by (force simp: not_le)
  next
    case False
    then obtain m where m: "(m, pct) \<in> set ts" "sint m \<le> sint q" "\<forall>(m', _) \<in> set ts. sint m' \<le> sint q \<longrightarrow> sint m' \<le> sint m"
      using ap unfolding tier_applies_def by blast
    obtain m1 where m1: "(m1, ?t) \<in> set ts" "sint m1 \<le> sint q" "\<forall>(m', _) \<in> set ts. sint m' \<le> sint q \<longrightarrow> sint m' \<le> sint m1"
      using at False unfolding tier_applies_def by blast
    have "sint m1 \<le> sint m" "sint m \<le> sint m1"
      using bspec [OF m(3) m1(1)] bspec [OF m1(3) m(1)] m(2) m1(2) by simp_all
    then have "sint m = sint m1" by (rule order_antisym [rotated])
    then have "m = m1" by (rule signed_word_eqI)
    then show ?thesis using tier_functional [OF ct] m(1) m1(1) by blast
  qed
  then show ?thesis using last_tier [of 0 ts q] by (simp add: tier_percent_def Let_def)
qed

text \<open>The decoded action grants what its configuration says.\<close>

lemma decoded_action:
  assumes "decodeCatalogAction json data None = Ok a"
  obtains cfg where "jd_action json data = Inr cfg" "\<And>k. line_discount a i k \<Longrightarrow> k = config_discount cfg i"
    "in_int64 (sint (acf_BuyQty cfg) + sint (acf_GetQty cfg)) \<Longrightarrow> in_int64 (sint (rac_buyQty a) + sint (rac_getQty a))"
proof -
  obtain cfg where cfg: "jd_action json data = Inr cfg" using assms by (auto simp: decodeCatalogAction_def split: if_splits sum.splits)
  have small: "in_int64 0" by (simp add: in_int64_def)
  show ?thesis
  proof (rule that [OF cfg])
    fix k assume k: "line_discount a i k"
    show "k = config_discount cfg i"
    proof (cases "acf_Type cfg = ''tiered''")
      case True
      then have "check_tiers 0 (acf_Tiers cfg) = Ok ()" "rac_tiers a = acf_Tiers cfg" "rac_typ a = ''tiered''"
        using assms cfg by (auto simp: decodeCatalogAction_def action_of_def Let_def split: if_splits)
      then show ?thesis using k True tier_applies_percent by (auto simp: line_discount_def config_discount_def Let_def)
    next
      case False
      then show ?thesis using assms cfg k
        by (auto simp: decodeCatalogAction_def action_of_def line_discount_def config_discount_def Let_def split: if_splits)
    qed
  next
    assume "in_int64 (sint (acf_BuyQty cfg) + sint (acf_GetQty cfg))"
    then show "in_int64 (sint (rac_buyQty a) + sint (rac_getQty a))"
      using assms cfg small by (auto simp: decodeCatalogAction_def action_of_def Let_def split: if_splits)
  qed
qed

lemma decoded_condition:
  "decodeCatalogCondition json data None = Ok c \<Longrightarrow> catalog_matches c i None = Ok (line_condition json data i)"
  by (auto simp: decodeCatalogCondition_def builtin_condition_def catalog_matches_def line_condition_def i64 split: if_splits sum.splits)

text \<open>What the step grants on a line is what the stored rules say.\<close>

definition lines_fit :: "string \<Rightarrow> pricing_item list \<Rightarrow> bool" where
  "lines_fit cur is \<longleftrightarrow> (\<forall>i \<in> set is. sane_line cur i \<and> cents (pi_Total i) * 100 < 2 ^ 63)"

lemma line_grant_with_adjs [simp]:
  "line_condition json data (with_adjs as i) = line_condition json data i"
  "config_discount cfg (with_adjs as i) = config_discount cfg i"
  "line_grant json cur (with_adjs as i) = line_grant json cur i"
proof -
  show c: "line_condition json data (with_adjs as i) = line_condition json data i" for data
    by (simp add: line_condition_def split: sum.splits)
  show d: "config_discount cfg (with_adjs as i) = config_discount cfg i" for cfg
    by (simp add: config_discount_def Let_def)
  show "line_grant json cur (with_adjs as i) = line_grant json cur i"
    by (rule ext) (simp add: line_grant_def c d split: sum.splits)
qed

definition within_line :: "pricing_item \<Rightarrow> adjustment list \<Rightarrow> bool" where
  "within_line i as \<longleftrightarrow> (\<forall>a \<in> set as. 0 < cents (adj_Amount a) \<and> cents (adj_Amount a) \<le> cents (pi_Total i))"

lemma catalog_promo_item_grants:
  assumes run: "catalog_promo_item env cur p cond act i = Ok j"
    and cond: "decodeCatalogCondition (pe_json env) (pm_Conditions p) None = Ok cond"
    and act: "decodeCatalogAction (pe_json env) (pm_Actions p) None = Ok act"
    and p: "builtin_line_rules (pe_json env) p" and i: "sane_line cur i" "cents (pi_Total i) * 100 < 2 ^ 63"
  shows "j = with_adjs (line_grant (pe_json env) cur i p) i \<and> within_line i (line_grant (pe_json env) cur i p)"
proof -
  have plain: "\<not> rcd_usePlugin cond" "\<not> rac_usePlugin act"
    using decodeCatalogCondition_None [OF cond] decodeCatalogAction_None [OF act] by simp_all
  have reg: "catalog_matches cond i (pe_registry env) = catalog_matches cond i None"
    "catalog_compute act i cur (pe_registry env) = catalog_compute act i cur None"
    using plain by (simp_all add: catalog_matches_def catalog_compute_def)
  obtain cfg where cfg: "jd_action (pe_json env) (pm_Actions p) = Inr cfg" "\<And>k. line_discount act i k \<Longrightarrow> k = config_discount cfg i"
    "in_int64 (sint (acf_BuyQty cfg) + sint (acf_GetQty cfg)) \<Longrightarrow> in_int64 (sint (rac_buyQty act) + sint (rac_getQty act))"
    using decoded_action [OF act] by blast
  have fits: "discount_fits act i" using p cfg(1,3) i(2) by (auto simp: discount_fits_def builtin_line_rules_def)
  note exact = catalog_compute_builtin [OF decodeCatalogAction_builtin [OF act plain(2)] i(1) fits, of None]
  show ?thesis
  proof (cases "line_condition (pe_json env) (pm_Conditions p) i")
    case False
    then show ?thesis using run reg(1) decoded_condition [OF cond, of i] cfg(1)
      by (simp add: catalog_promo_item_def line_grant_def within_line_def)
  next
    case True
    then obtain d where d: "catalog_compute act i cur None = Ok d"
        and rest: "(if IsZero d then Ok i else bindO (mapErr (Wrap (''catalog promotions: adjustment: '' @ pm_Name p))
          (NewAdjustment AdjustmentDiscount (''promo.'' @ pm_ID p) d)) (\<lambda>adj.
          Ok (i\<lparr>pi_Adjustments := pi_Adjustments i @ [adj\<lparr>adj_Description := pm_Name p\<rparr>]\<rparr>))) = Ok j"
      using run reg decoded_condition [OF cond, of i] by (auto simp: catalog_promo_item_def)
    have k: "m_currency d = cur" "cents d = config_discount cfg i" "0 \<le> cents d" "cents d \<le> cents (pi_Total i)"
      using exact d cfg(2) by auto
    then have d': "d = in_cur cur (word_of_int (config_discount cfg i))" by (cases d) (simp flip: k(2))
    have z: "IsZero d \<longleftrightarrow> config_discount cfg i = 0" unfolding k(2) [symmetric] by (simp add: IsZero_def signed_eq_0_iff)
    show ?thesis
    proof (cases "IsZero d")
      case True
      then show ?thesis using rest z cfg(1) by (simp add: line_grant_def within_line_def)
    next
      case False
      then obtain adj where adj: "NewAdjustment AdjustmentDiscount (''promo.'' @ pm_ID p) d = Ok adj"
        and j: "j = i\<lparr>pi_Adjustments := pi_Adjustments i @ [adj\<lparr>adj_Description := pm_Name p\<rparr>]\<rparr>"
        using rest by auto
      have "line_grant (pe_json env) cur i p = [granted_adjustment p d]"
        using False z cfg(1) \<open>line_condition (pe_json env) (pm_Conditions p) i\<close> by (simp add: line_grant_def flip: d')
      moreover have "0 < cents d" using k(2,3) False z by linarith
      ultimately show ?thesis
        using j NewAdjustment_granted [OF adj, of "pm_Name p"] k(4) by (simp add: with_adjs_def granted_adjustment_def within_line_def)
    qed
  qed
qed

lemma map_items_on: "map_items f is = Ok js \<Longrightarrow> (\<And>i j. i \<in> set is \<Longrightarrow> f i = Ok j \<Longrightarrow> j = g i \<and> P i) \<Longrightarrow> js = map g is \<and> (\<forall>i \<in> set is. P i)"
  by (induction "is" arbitrary: js) auto

lemma catalog_promos_grants:
  assumes "catalog_promos env now code cur ps is = Ok js" "\<forall>p \<in> set ps. builtin_line_rules (pe_json env) p" "lines_fit cur is"
  shows "js = map (\<lambda>i. with_adjs (line_grants env now code cur ps i) i) is \<and>
    (\<forall>i \<in> set is. within_line i (line_grants env now code cur ps i))"
  using assms
proof (induction ps arbitrary: "is")
  case Nil
  then show ?case by (simp add: line_grants_def within_line_def)
next
  case (Cons p ps)
  show ?case
  proof (cases "promo_in_force env now code p")
    case False
    then have "catalog_promos env now code cur ps is = Ok js"
      using Cons.prems(1) promo_applies_Ok by fastforce
    then show ?thesis using Cons False by (simp add: line_grants_def)
  next
    case True
    have p: "builtin_line_rules (pe_json env) p" using Cons.prems(2) by simp
    obtain cond act is1 where
      cond: "decodeCatalogCondition (pe_json env) (pm_Conditions p) None = Ok cond"
      and act: "decodeCatalogAction (pe_json env) (pm_Actions p) None = Ok act"
      and is1: "map_items (catalog_promo_item env cur p cond act) is = Ok is1"
      and rest: "catalog_promos env now code cur ps is1 = Ok js"
      using True Cons.prems(1) promo_applies_Ok unfolding decode_builtin [OF p, of "pe_registry env", symmetric] by (fastforce split: if_splits)
    let ?g = "\<lambda>i. with_adjs (line_grant (pe_json env) cur i p) i"
    have here: "is1 = map ?g is \<and> (\<forall>i \<in> set is. within_line i (line_grant (pe_json env) cur i p))"
      by (rule map_items_on [OF is1], rule catalog_promo_item_grants [OF _ cond act p]) (use Cons.prems(3) in \<open>auto simp: lines_fit_def\<close>)
    have "sane_line cur (with_adjs as i) = sane_line cur i" for as i by (simp add: sane_line_def)
    then have "lines_fit cur is1" using Cons.prems(3) here by (auto simp: lines_fit_def)
    from Cons.IH [OF rest _ this] Cons.prems(2) here
    have "js = map (\<lambda>i. with_adjs (line_grants env now code cur ps i) i) (map ?g is)"
      "\<forall>i \<in> set is. within_line i (line_grants env now code cur ps i)"
      by (auto simp: line_grants_def within_line_def)
    then show ?thesis using here True by (auto simp: line_grants_def o_def within_line_def)
  qed
qed

text \<open>The same for the rules of a cart.\<close>

definition cart_condition :: "json_decoder \<Rightarrow> string \<Rightarrow> int \<Rightarrow> bool" where
  "cart_condition json data net \<longleftrightarrow> (case jd_condition json data of
     Inl _ \<Rightarrow> False
   | Inr cfg \<Rightarrow> sint (cc_Value cfg) \<le> net)"

definition cart_discount :: "action_config \<Rightarrow> int \<Rightarrow> int" where
  "cart_discount cfg net =
     (if acf_Type cfg = ''percentage'' then net * sint (acf_Percentage cfg) div 100 else min net (sint (acf_Amount cfg)))"

definition cart_grant :: "json_decoder \<Rightarrow> string \<Rightarrow> int \<Rightarrow> promotion \<Rightarrow> adjustment list" where
  "cart_grant json cur net p = (case jd_action json (pm_Actions p) of
     Inl _ \<Rightarrow> []
   | Inr cfg \<Rightarrow> if cart_condition json (pm_Conditions p) net \<and> cart_discount cfg net \<noteq> 0
       then [granted_adjustment p (in_cur cur (word_of_int (cart_discount cfg net)))] else [])"

definition cart_grants :: "promo_env \<Rightarrow> gotime \<Rightarrow> string \<Rightarrow> string \<Rightarrow> promotion list \<Rightarrow> int \<Rightarrow> adjustment list" where
  "cart_grants env now code cur ps net = concat (map (cart_grant (pe_json env) cur net) (filter (promo_in_force env now code) ps))"

definition builtin_cart_rules :: "json_decoder \<Rightarrow> promotion \<Rightarrow> bool" where
  "builtin_cart_rules json p \<longleftrightarrow>
     (\<forall>cfg. jd_condition json (pm_Conditions p) = Inr cfg \<longrightarrow> cc_Type cfg = ''min_cart_total'') \<and>
     (\<forall>cfg. jd_action json (pm_Actions p) = Inr cfg \<longrightarrow> acf_Type cfg \<in> {''percentage'', ''fixed''})"

lemma decode_builtin_cart:
  assumes "builtin_cart_rules json p"
  shows "decodeCartCondition json (pm_Conditions p) reg = decodeCartCondition json (pm_Conditions p) None"
    "decodeCartAction json (pm_Actions p) reg = decodeCartAction json (pm_Actions p) None"
  using assms
  by (auto simp: builtin_cart_rules_def decodeCartCondition_def decodeCartAction_def Let_def split: sum.splits)

lemma decoded_cart_condition:
  "decodeCartCondition json data None = Ok c \<Longrightarrow> cart_matches c sub None = Ok (cart_condition json data (cents sub)) \<and> \<not> rcd_usePlugin c \<and>
    (cart_condition json data (cents sub) \<longrightarrow> 0 < cents sub)"
  by (auto simp: decodeCartCondition_def builtin_condition_def cart_matches_def cart_condition_def i64 not_le split: if_splits sum.splits)

lemma decoded_cart_action:
  assumes act: "decodeCartAction json data None = Ok a" and cur: "IsValidCurrency cur" "m_currency sub = cur"
    and fits: "0 < cents sub" "cents sub * 100 < 2 ^ 63"
  obtains cfg where "jd_action json data = Inr cfg" "cart_compute a sub cur None = Ok (in_cur cur (word_of_int (cart_discount cfg (cents sub))))"
    "0 \<le> cart_discount cfg (cents sub)" "cart_discount cfg (cents sub) \<le> cents sub"
proof -
  obtain cfg where cfg: "jd_action json data = Inr cfg" using act by (auto simp: decodeCartAction_def split: if_splits sum.splits)
  let ?k = "cart_discount cfg (cents sub)"
  have "cart_compute a sub cur None = Ok (in_cur cur (word_of_int ?k)) \<and> 0 \<le> ?k \<and> ?k \<le> cents sub"
  proof (cases "acf_Type cfg = ''percentage''")
    case True
    then have p: "0 < sint (acf_Percentage cfg)" "sint (acf_Percentage cfg) \<le> 100" and a: "a = (action_of ''percentage'')\<lparr>rac_percentage := acf_Percentage cfg\<rparr>"
      using act cfg by (auto simp: decodeCartAction_def Let_def i64 not_le not_less split: if_splits)
    have t: "0 \<le> cents sub" using fits(1) by simp
    note e = percent_exact [OF t fits(2) order_less_imp_le [OF p(1)] p(2)]
    have "go_div (m_amount sub * acf_Percentage cfg) 100 = word_of_int ?k"
      using True by (simp add: cart_discount_def flip: e(1))
    then show ?thesis using True a e(2,3) cur by (simp add: cart_compute_def action_of_def NewMoney_def cart_discount_def)
  next
    case False
    then have f: "0 < sint (acf_Amount cfg)" and a: "a = (action_of ''fixed'')\<lparr>rac_amount := acf_Amount cfg\<rparr>"
      using act cfg by (auto simp: decodeCartAction_def Let_def i64 not_le not_less split: if_splits)
    have sub: "sub = in_cur cur (m_amount sub)" using cur(2) by (cases sub) simp
    show ?thesis using False a f fits(1) cur sub
      by (auto simp: cart_compute_def action_of_def NewMoney_def cart_discount_def i64 min_def)
  qed
  then show ?thesis using that cfg by blast
qed

definition within_net :: "int \<Rightarrow> adjustment list \<Rightarrow> bool" where
  "within_net net as \<longleftrightarrow> (\<forall>a \<in> set as. 0 < cents (adj_Amount a) \<and> cents (adj_Amount a) \<le> net)"

lemma cart_promos_grants:
  assumes "cart_promos env now code cur sub ps adjs = Ok adjs'" "\<forall>p \<in> set ps. builtin_cart_rules (pe_json env) p"
    and cur: "IsValidCurrency cur" "m_currency sub = cur" and fits: "cents sub * 100 < 2 ^ 63"
  shows "adjs' = adjs @ cart_grants env now code cur ps (cents sub) \<and> within_net (cents sub) (cart_grants env now code cur ps (cents sub))"
  using assms(1,2)
proof (induction ps arbitrary: adjs)
  case Nil
  then show ?case by (simp add: cart_grants_def within_net_def)
next
  case (Cons p ps)
  let ?json = "pe_json env" and ?net = "cents sub"
  let ?g = "cart_grant ?json cur ?net p"
  have p: "builtin_cart_rules ?json p" using Cons.prems(2) by simp
  have "cart_promos env now code cur sub ps (adjs @ (if promo_in_force env now code p then ?g else [])) = Ok adjs' \<and>
      (promo_in_force env now code p \<longrightarrow> within_net ?net ?g)"
  proof (cases "promo_in_force env now code p")
    case False
    then have "cart_promos env now code cur sub ps adjs = Ok adjs'"
      using Cons.prems(1) promo_applies_Ok by fastforce
    then show ?thesis using False by simp
  next
    case True
    obtain cond ok where cond: "decodeCartCondition ?json (pm_Conditions p) None = Ok cond"
      and ok: "cart_matches cond sub (pe_registry env) = Ok ok"
      and rest: "if ok then bindO (decodeCartAction ?json (pm_Actions p) None) (\<lambda>act.
        bindO (cart_compute act sub cur (pe_registry env)) (\<lambda>d.
        if IsZero d then cart_promos env now code cur sub ps adjs
        else bindO (NewAdjustment AdjustmentDiscount (''promo.'' @ pm_ID p) d) (\<lambda>adj.
          cart_promos env now code cur sub ps (adjs @ [adj\<lparr>adj_Description := pm_Name p\<rparr>])))) = Ok adjs'
        else cart_promos env now code cur sub ps adjs = Ok adjs'"
      using True Cons.prems(1) promo_applies_Ok unfolding decode_builtin_cart [OF p, of "pe_registry env", symmetric]
      by (fastforce split: if_splits)
    note c = decoded_cart_condition [OF cond, of sub]
    have "cart_matches cond sub (pe_registry env) = cart_matches cond sub None" using c by (simp add: cart_matches_def)
    then have met: "ok = cart_condition ?json (pm_Conditions p) ?net" using c ok by simp
    show ?thesis
    proof (cases ok)
      case False
      then have "?g = []" using met by (simp add: cart_grant_def split: sum.splits)
      then show ?thesis using rest False True by (simp add: within_net_def)
    next
      case matched: True
      then have pos: "0 < ?net" using met c by blast
      from rest matched obtain act where act: "decodeCartAction ?json (pm_Actions p) None = Ok act" by auto
      obtain cfg where cfg: "jd_action ?json (pm_Actions p) = Inr cfg"
          "cart_compute act sub cur None = Ok (in_cur cur (word_of_int (cart_discount cfg ?net)))"
          "0 \<le> cart_discount cfg ?net" "cart_discount cfg ?net \<le> ?net"
        by (rule decoded_cart_action [OF act cur pos fits])
      let ?d = "in_cur cur (word_of_int (cart_discount cfg ?net))"
      have "cart_compute act sub cur (pe_registry env) = Ok ?d"
        using cfg(2) decodeCartAction_None [OF act] by (simp add: cart_compute_def)
      then have go: "if IsZero ?d then cart_promos env now code cur sub ps adjs = Ok adjs'
        else bindO (NewAdjustment AdjustmentDiscount (''promo.'' @ pm_ID p) ?d) (\<lambda>adj.
          cart_promos env now code cur sub ps (adjs @ [adj\<lparr>adj_Description := pm_Name p\<rparr>])) = Ok adjs'"
        using rest matched act by (simp split: if_splits)
      have "in_int64 (cart_discount cfg ?net)"
        using cfg(3,4) sint_upper [of "m_amount sub"] by (simp add: in_int64_def)
      then have k: "sint (word_of_int (cart_discount cfg ?net) :: int64) = cart_discount cfg ?net" by (rule sint_of_int)
      then have z: "IsZero ?d \<longleftrightarrow> cart_discount cfg ?net = 0"
        by (metis IsZero_def money.select_convs(1) of_int_0 sint_0)
      show ?thesis
      proof (cases "IsZero ?d")
        case True
        then have "?g = []" using z cfg(1) by (simp add: cart_grant_def)
        then show ?thesis using go True \<open>promo_in_force env now code p\<close> by (simp add: within_net_def)
      next
        case False
        then have g: "?g = [granted_adjustment p ?d]" using z cfg(1) matched met by (simp add: cart_grant_def)
        obtain adj where adj: "NewAdjustment AdjustmentDiscount (''promo.'' @ pm_ID p) ?d = Ok adj"
          and tail: "cart_promos env now code cur sub ps (adjs @ [adj\<lparr>adj_Description := pm_Name p\<rparr>]) = Ok adjs'"
          using go False by auto
        have "adj\<lparr>adj_Description := pm_Name p\<rparr> = granted_adjustment p ?d"
          using NewAdjustment_granted [OF adj, of "pm_Name p"] by (simp add: granted_adjustment_def)
        moreover have "within_net ?net [granted_adjustment p ?d]"
          using cfg(3,4) k z False by (simp add: within_net_def granted_adjustment_def)
        ultimately show ?thesis using tail g \<open>promo_in_force env now code p\<close> by simp
      qed
    qed
  qed
  then show ?case using Cons.IH Cons.prems(2) by (fastforce simp: cart_grants_def within_net_def)
qed

section \<open>Properties\<close>

definition demo_item :: "int64 \<Rightarrow> int64 \<Rightarrow> pricing_item" where
  "demo_item qty unit = \<lparr>pi_VariantID = ''v1'', pi_Quantity = qty, pi_UnitPrice = in_cur ''EUR'' unit,
     pi_Total = in_cur ''EUR'' (qty * unit), pi_Adjustments = []\<rparr>"

definition demo_json :: json_decoder where
  "demo_json = \<lparr>jd_condition = (\<lambda>s. if s = ''min'' then Inr \<lparr>cc_Type = ''min_cart_total'', cc_Value = 500\<rparr>
       else Inr \<lparr>cc_Type = ''always'', cc_Value = 0\<rparr>),
     jd_action = (\<lambda>s. Inr \<lparr>acf_Type = s, acf_Percentage = 10, acf_Amount = 1000,
       acf_Tiers = [(2, 5), (5, 10)], acf_BuyQty = 2, acf_GetQty = 1\<rparr>)\<rparr>"

definition demo_promo :: "string \<Rightarrow> promotion_type \<Rightarrow> string \<Rightarrow> string \<Rightarrow> promotion" where
  "demo_promo x typ cond act = \<lparr>pm_ID = x, pm_Name = x, pm_Type = typ, pm_Priority = 0, pm_Active = True,
     pm_StartAt = None, pm_EndAt = None, pm_Conditions = cond, pm_Actions = act,
     pm_CouponBound = False, pm_CreatedAt = 0, pm_UpdatedAt = 0\<rparr>"

definition demo_env :: "promotion list \<Rightarrow> promo_env" where
  "demo_env ps = \<lparr>pe_list = (\<lambda>t. Inr (filter (\<lambda>p. pm_Type p = t) ps)), pe_coupon = (\<lambda>_. Inr None),
     pe_registry = None, pe_json = demo_json\<rparr>"

lemma IsValidCurrency_EUR: "IsValidCurrency ''EUR''"
  by (simp add: IsValidCurrency_def is_upper_letter_def byte_val_def)

text \<open>On a line of a positive quantity and a price that is not negative, whose total is their product
  and has room for two more digits in 64 bits, a catalog action that was decoded without a plugin (and
  whose bundle of bought and free units fits in 64 bits) grants exactly the discount its rule describes
  (percentage rounded down, fixed amount per unit capped at the line total, the
  percentage of the highest tier reached, the price of the free units of all complete bundles),
  in the requested currency and between zero and the line total; it never panics, and the only
  failure is a fixed amount whose product with the quantity does not fit in 64 bits.\<close>

lemma catalog_compute_correct:
  assumes "decodeCatalogAction json data reg = Ok a" "\<not> rac_usePlugin a" "sane_line cur i" "discount_fits a i"
  shows "case catalog_compute a i cur reg of
      Ok d \<Rightarrow> m_currency d = cur \<and> 0 \<le> cents d \<and> cents d \<le> cents (pi_Total i) \<and> line_discount a i (cents d)
    | Fail _ \<Rightarrow> rac_typ a = ''fixed'' \<and> 2 ^ 63 \<le> sint (rac_amount a) * sint (pi_Quantity i)
    | Panics _ \<Rightarrow> False"
  by (rule catalog_compute_builtin [OF decodeCatalogAction_builtin [OF assms(1,2)] assms(3,4)])

lemma catalog_compute_correct_witness:
  "\<exists>a. decodeCatalogAction demo_json ''buy_x_get_y'' None = Ok a \<and>
     (case catalog_compute a (demo_item 7 500) ''EUR'' None of
        Ok d \<Rightarrow> line_discount a (demo_item 7 500) (cents d) \<and> cents d = 1000 | _ \<Rightarrow> False)"
proof -
  obtain a where a: "decodeCatalogAction demo_json ''buy_x_get_y'' None = Ok a" "rac_typ a = ''buy_x_get_y''"
    "rac_buyQty a = 2" "rac_getQty a = 1" "\<not> rac_usePlugin a"
    by (simp add: decodeCatalogAction_def demo_json_def absent_def action_of_def i64)
  have "sane_line ''EUR'' (demo_item 7 500)" "discount_fits a (demo_item 7 500)"
    using a by (simp_all add: sane_line_def demo_item_def IsValidCurrency_EUR discount_fits_def in_int64_def)
  from catalog_compute_correct [OF a(1,5) this] show ?thesis
    using a by (auto simp: line_discount_def demo_item_def split: outcome.splits)
qed

text \<open>C30: the catalog promotion step grants what the stored rules say. Suppose that the rules of the
  listed promotions are built-in ones (whatever the plugins registered; a bundle of bought and free units
  fits in 64 bits) and that every line has a positive quantity, a price that is not negative and a
  total that is their product and has room for two more digits in 64 bits. Then a step that succeeds
  changes nothing but the adjustments of the lines: after those it had, each line receives one discount
  for every listed promotion that is in force for the request, whose stored condition the line meets
  and whose stored action comes to an amount other than zero, in the order of the list, and the amount
  is that of the action's formula over the integers, positive and at most the line total.\<close>

theorem CatalogPromotionStep_correct:
  assumes "CatalogPromotionStep_Apply env now c = Ok c'" "pe_list env PromoTypeCatalog = Inr promos"
    "\<forall>p \<in> set promos. builtin_line_rules (pe_json env) p" "lines_fit (pc_Currency c) (pc_Items c)"
  shows "c' = c\<lparr>pc_Items := map (\<lambda>i. i\<lparr>pi_Adjustments := pi_Adjustments i @
        line_grants env now (coupon_code_of (pc_Meta c)) (pc_Currency c) promos i\<rparr>) (pc_Items c)\<rparr> \<and>
    (\<forall>i \<in> set (pc_Items c). within_line i (line_grants env now (coupon_code_of (pc_Meta c)) (pc_Currency c) promos i))"
proof (cases promos)
  case Nil
  then show ?thesis
    using assms(1,2) by (simp add: CatalogPromotionStep_Apply_def line_grants_def within_line_def)
next
  case (Cons p ps)
  then obtain items where "catalog_promos env now (coupon_code_of (pc_Meta c)) (pc_Currency c) promos (pc_Items c) = Ok items"
    and "c' = c\<lparr>pc_Items := items\<rparr>"
    using assms(1,2) by (auto simp: CatalogPromotionStep_Apply_def simp del: catalog_promos.simps)
  then show ?thesis using catalog_promos_grants [OF _ assms(3,4)] by (simp add: with_adjs_def)
qed

definition demo_shop :: "int64 \<Rightarrow> int64 \<Rightarrow> pricing_context" where
  "demo_shop qty unit = demo_pctx\<lparr>pc_Items := [demo_item qty unit]\<rparr>"

lemma NewAdjustment_promo:
  "NewAdjustment AdjustmentDiscount (CHR ''p'' # xs) d = Ok \<lparr>adj_Type = AdjustmentDiscount,
     adj_Code = CHR ''p'' # xs, adj_Description = [], adj_Amount = d, adj_Included = False, adj_Meta = (\<lambda>_. None)\<rparr>"
  using trim_space_nonempty [of "CHR ''p''" xs] by (simp add: NewAdjustment_def space_codes_def)

lemmas promo_eval = CatalogPromotionStep_Apply_def CartPromotionStep_Apply_def promo_applies_def IsEligible_def
  demo_promo_def demo_env_def demo_json_def demo_shop_def demo_pctx_def demo_item_def decodeCatalogCondition_def
  decodeCartCondition_def absent_def builtin_condition_def decodeCatalogAction_def decodeCartAction_def
  action_of_def i64 catalog_promo_item_def catalog_matches_def cart_matches_def catalog_compute_def
  cart_compute_def tierPercentage_def NewMoney_def IsValidCurrency_EUR NewAdjustment_promo go_div_def
  Let_def IsZero_def coupon_code_of_def

theorem CatalogPromotionStep_correct_witness:
  "\<exists>c'. CatalogPromotionStep_Apply (demo_env [demo_promo ''p'' PromoTypeCatalog ''all'' ''tiered'']) 5 (demo_shop 3 500) = Ok c' \<and>
     pc_Items c' = [demo_item 3 500\<lparr>pi_Adjustments :=
       [granted_adjustment (demo_promo ''p'' PromoTypeCatalog ''all'' ''tiered'') (in_cur ''EUR'' 75)]\<rparr>]"
proof -
  let ?p = "demo_promo ''p'' PromoTypeCatalog ''all'' ''tiered''"
  let ?e = "demo_env [?p]"
  have list: "pe_list ?e PromoTypeCatalog = Inr [?p]" by (simp add: demo_env_def demo_promo_def)
  have "\<exists>c'. CatalogPromotionStep_Apply ?e 5 (demo_shop 3 500) = Ok c'"
    by (simp add: promo_eval)
  then obtain c' where c': "CatalogPromotionStep_Apply ?e 5 (demo_shop 3 500) = Ok c'" by blast
  have rules: "\<forall>p \<in> set [?p]. builtin_line_rules (pe_json ?e) p"
    by (simp add: builtin_line_rules_def demo_promo_def demo_env_def demo_json_def in_int64_def)
  have fit: "lines_fit (pc_Currency (demo_shop 3 500)) (pc_Items (demo_shop 3 500))"
    by (simp add: lines_fit_def sane_line_def demo_shop_def demo_pctx_def demo_item_def IsValidCurrency_EUR)
  from CatalogPromotionStep_correct [OF c' list rules fit, THEN conjunct1]
  have "pc_Items c' = map (\<lambda>i. i\<lparr>pi_Adjustments := pi_Adjustments i @ line_grants ?e 5 [] ''EUR'' [?p] i\<rparr>)
      [demo_item 3 500]"
    by (simp add: demo_shop_def demo_pctx_def coupon_code_of_def)
  moreover have "line_grants ?e 5 [] ''EUR'' [?p] (demo_item 3 500) = [granted_adjustment ?p (in_cur ''EUR'' 75)]"
    by (simp add: line_grants_def line_grant_def line_condition_def config_discount_def tier_percent_def promo_in_force_def IsEligible_def
        demo_promo_def demo_env_def demo_json_def demo_item_def Let_def)
  ultimately have "pc_Items c' = [demo_item 3 500\<lparr>pi_Adjustments := [granted_adjustment ?p (in_cur ''EUR'' 75)]\<rparr>]"
    by (simp add: demo_item_def)
  with c' show ?thesis by blast
qed

text \<open>C31: the cart promotion step grants what the stored rules say. Suppose that the rules of the listed
  promotions are built-in ones, whatever the plugins registered, and that a hundred times the net
  subtotal (the line totals less the discounts on the lines, summed in 64 bits) fits in 64 bits. Then
  a step that succeeds on a context of one valid currency changes nothing but the adjustments of the
  context: after those that were there it appends one discount for every listed promotion in force whose
  stored threshold the net subtotal reaches and whose stored action comes to an amount other than
  zero, in the order of the list: the percentage of that subtotal rounded down, or the fixed amount
  but no more than the subtotal. Each is positive and at most the net subtotal.\<close>

theorem CartPromotionStep_correct:
  assumes "CartPromotionStep_Apply env now c = Ok c'" "pe_list env PromoTypeCart = Inr promos"
    "\<forall>p \<in> set promos. builtin_cart_rules (pe_json env) p" "pctx_ok c" "sint (net_of (pc_Items c)) * 100 < 2 ^ 63"
  shows "c' = c\<lparr>pc_Adjustments := pc_Adjustments c @
      cart_grants env now (coupon_code_of (pc_Meta c)) (pc_Currency c) promos (sint (net_of (pc_Items c)))\<rparr> \<and>
    within_net (sint (net_of (pc_Items c)))
      (cart_grants env now (coupon_code_of (pc_Meta c)) (pc_Currency c) promos (sint (net_of (pc_Items c))))"
proof -
  let ?net = "in_cur (pc_Currency c) (net_of (pc_Items c))"
  let ?code = "coupon_code_of (pc_Meta c)"
  have cur: "IsValidCurrency (pc_Currency c)" and items: "\<forall>i \<in> set (pc_Items c). item_in (pc_Currency c) i"
    using assms(4) by (simp_all add: pctx_ok_def)
  show ?thesis
  proof (cases promos)
    case Nil
    then show ?thesis using assms(1,2) by (simp add: CartPromotionStep_Apply_def cart_grants_def within_net_def)
  next
    case (Cons p ps)
    then obtain adjs where run: "cart_promos env now ?code (pc_Currency c) ?net promos (pc_Adjustments c) = Ok adjs"
      and "c' = c\<lparr>pc_Adjustments := adjs\<rparr>"
      using assms(1,2) by (auto simp: CartPromotionStep_Apply_def MustZero_valid [OF cur] net_subtotal_Ok [OF items]
          simp del: cart_promos.simps)
    then show ?thesis using cart_promos_grants [OF run assms(3) cur] assms(5) by simp
  qed
qed

lemma adjustments_updated: "pc_Adjustments (c\<lparr>pc_Adjustments := as\<rparr>) = as"
  by simp

theorem CartPromotionStep_correct_witness:
  "\<exists>c'. CartPromotionStep_Apply (demo_env [demo_promo ''p'' PromoTypeCart ''min'' ''fixed'']) 5 (demo_shop 3 500) = Ok c' \<and>
     pc_Adjustments c' = [granted_adjustment (demo_promo ''p'' PromoTypeCart ''min'' ''fixed'') (in_cur ''EUR'' 1000)]"
proof -
  let ?p = "demo_promo ''p'' PromoTypeCart ''min'' ''fixed''"
  let ?e = "demo_env [?p]"
  let ?c = "demo_shop 3 500"
  have list: "pe_list ?e PromoTypeCart = Inr [?p]" by (simp add: demo_env_def demo_promo_def)
  have rules: "\<forall>p \<in> set [?p]. builtin_cart_rules (pe_json ?e) p"
    by (simp add: builtin_cart_rules_def demo_promo_def demo_env_def demo_json_def)
  have ok: "pctx_ok ?c"
    by (simp add: demo_shop_def demo_pctx_def demo_item_def pctx_ok_def item_in_def adjs_in_def IsValidCurrency_EUR)
  have net: "net_of (pc_Items ?c) = 1500"
    by (simp add: demo_shop_def demo_item_def net_of_def adj_sum_def)
  have "\<exists>c'. CartPromotionStep_Apply ?e 5 ?c = Ok c'"
    by (simp add: promo_eval MustZero_valid [OF IsValidCurrency_EUR] itemNetTotal_def Add_def mustMatch_def)
  then obtain c' where c': "CartPromotionStep_Apply ?e 5 ?c = Ok c'" by blast
  have cp: "cart_grants ?e 5 [] ''EUR'' [?p] 1500 = [granted_adjustment ?p (in_cur ''EUR'' 1000)]"
    by (simp add: cart_grants_def cart_grant_def cart_condition_def cart_discount_def promo_in_force_def IsEligible_def
        demo_promo_def demo_env_def demo_json_def)
  have c: "pc_Currency ?c = ''EUR''" "pc_Adjustments ?c = []" "coupon_code_of (pc_Meta ?c) = []"
    by (simp_all add: demo_shop_def demo_pctx_def coupon_code_of_def)
  have small: "sint (net_of (pc_Items ?c)) = 1500" by (simp add: net)
  then have "sint (net_of (pc_Items ?c)) * 100 < 2 ^ 63" by simp
  from conjunct1 [OF CartPromotionStep_correct [OF c' list rules ok this]]
  have "pc_Adjustments c' = [granted_adjustment ?p (in_cur ''EUR'' 1000)]"
    by (simp only: c small adjustments_updated append_Nil cp)
  with c' show ?thesis by blast
qed

text \<open>Each discount is capped at the line total, not at what earlier promotions have left of
  it: two fixed promotions on one line of 10.00 both grant 10.00, and the finalize step reports
  a negative grand total.\<close>

lemma stacked_promotions_negative:
  "\<exists>c' c''. CatalogPromotionStep_Apply
       (demo_env [demo_promo ''p'' PromoTypeCatalog ''all'' ''fixed'', demo_promo ''q'' PromoTypeCatalog ''all'' ''fixed''])
       5 (demo_shop 1 1000) = Ok c' \<and>
     FinalizeStep_Apply c' = Ok c'' \<and> cents (pc_Subtotal c'') = 1000 \<and> cents (pc_GrandTotal c'') = -1000"
  by (simp add: promo_eval FinalizeStep_Apply_def MustZero_valid [OF IsValidCurrency_EUR] Add_def Sub_def
      mustMatch_def add_adjustment_def MulChecked_def MaxInt64_def MinInt64_def)

section \<open>Coupons\<close>

text \<open>However often a coupon with a usage limit is redeemed, its usage count rises by one
  with each attempt until it reaches the limit and never beyond, an inactive coupon is not
  counted at all, and it can be redeemed again exactly while it is active and below the limit.\<close>

lemma coupon_usage_limit:
  assumes "0 < sint (cp_UsageLimit c)" "0 \<le> sint (cp_UsageCount c)" "sint (cp_UsageCount c) \<le> sint (cp_UsageLimit c)"
  shows "sint (cp_UsageCount (run_ops Redeem ts c)) =
      (if cp_Active c then min (sint (cp_UsageCount c) + int (length ts)) (sint (cp_UsageLimit c))
       else sint (cp_UsageCount c)) \<and>
    (CanRedeem (run_ops Redeem ts c) \<longleftrightarrow>
       cp_Active c \<and> sint (cp_UsageCount c) + int (length ts) < sint (cp_UsageLimit c))"
  using assms
proof (induction ts arbitrary: c)
  case Nil
  then show ?case by (auto simp: CanRedeem_def i64)
next
  case (Cons t ts)
  show ?case
  proof (cases "CanRedeem c")
    case False
    then have "Redeem t c = Fail (ErrWith ''coupon: cannot redeem'' [cp_Code c])" by (simp add: Redeem_def)
    then show ?thesis using Cons.IH [OF Cons.prems] False Cons.prems by (auto simp: CanRedeem_def i64)
  next
    case True
    then have act: "cp_Active c" and lt: "sint (cp_UsageCount c) < sint (cp_UsageLimit c)"
      using Cons.prems by (auto simp: CanRedeem_def i64 split: if_splits)
    let ?c = "c\<lparr>cp_UsageCount := cp_UsageCount c + 1, cp_UpdatedAt := t\<rparr>"
    have "in_int64 (sint (cp_UsageCount c) + sint (1 :: int64))"
      using Cons.prems lt sint_upper [of "cp_UsageLimit c"] by (simp add: in_int64_def)
    then have "sint (cp_UsageCount c + 1) = sint (cp_UsageCount c) + 1"
      using sint_plus_exact by simp
    then show ?thesis
      using Cons.IH [of ?c] Cons.prems True act lt by (auto simp: Redeem_def)
  qed
qed

lemma coupon_usage_limit_witness:
  "sint (cp_UsageCount (run_ops Redeem [1, 2, 3, 4] \<lparr>cp_ID = ''c'', cp_Code = ''SAVE'', cp_PromotionID = ''p'',
     cp_UsageLimit = 3, cp_UsageCount = 1, cp_Active = True, cp_CreatedAt = 0, cp_UpdatedAt = 0\<rparr>)) = 3"
  using coupon_usage_limit [of "\<lparr>cp_ID = ''c'', cp_Code = ''SAVE'', cp_PromotionID = ''p'',
     cp_UsageLimit = 3, cp_UsageCount = 1, cp_Active = True, cp_CreatedAt = 0, cp_UpdatedAt = 0\<rparr>" "[1, 2, 3, 4]"]
  by (simp del: run_ops.simps)

end
