(* ===== verification/UnitPrices.thy ===== *)
theory UnitPrices
  imports Catalog Pricing
begin

text \<open>
  Unit prices and the base step of the pricing pipeline
  (\<open>internal/application/pricing/unit_price.go\<close>, \<open>base_price_step.go\<close>) with the walk
  over the required components of a bundle they share with the stock code
  (\<open>internal/application/catalog/required_leaf.go\<close>). Repositories are records of functions
  that answer with an error or a value; a nil repository is \<open>None\<close>. The price cache of a
  request is a partial map that the calls thread through (its mutex orders concurrent calls;
  the model runs them one after the other).
\<close>

section \<open>Repositories\<close>

record price_repo =
  prr_find :: "string \<Rightarrow> string \<Rightarrow> string \<Rightarrow> gerror + price option"
  prr_find_many :: "string list \<Rightarrow> string \<Rightarrow> string \<Rightarrow> gerror + (string \<Rightarrow> price option) option"

record 'w variant_repo =
  vr_find :: "string \<Rightarrow> gerror + 'w variant option"
  vr_list :: "string list \<Rightarrow> int64 \<Rightarrow> gerror + (string \<Rightarrow> 'w variant list)"

text \<open>The optional batch read of a product repository is an optional field.\<close>

record product_repo =
  pq_find :: "req_ctx \<Rightarrow> string \<Rightarrow> gerror + product option"
  pq_list :: "(req_ctx \<Rightarrow> string list \<Rightarrow> gerror + (string \<Rightarrow> product option) option) option"

type_synonym component_repo = "string \<Rightarrow> gerror + bundle_component list"

record 'w price_sources =
  us_Prices :: "price_repo option"
  us_Variants :: "'w variant_repo option"
  us_Products :: "product_repo option"
  us_Components :: "component_repo option"

section \<open>The required components of a bundle\<close>

definition BundleCannotBeReservedMessage :: string where
  "BundleCannotBeReservedMessage = ''bundle cannot be reserved''"

definition RequiresLinkedParentNotPurchasableMessage :: string where
  "RequiresLinkedParentNotPurchasableMessage = ''product requires a linked parent and is not purchasable''"

definition MaxBundleRequiredComponents :: nat where "MaxBundleRequiredComponents = 50"

definition BundleCustomerError :: "gerror \<Rightarrow> gerror" where
  "BundleCustomerError detail =
     (if app_message detail = Some BundleCannotBeReservedMessage then detail
      else AppWrap Validation BundleCannotBeReservedMessage detail)"

definition bundle_error :: "string \<Rightarrow> gerror" where
  "bundle_error detail = BundleCustomerError (AppErr Validation detail)"

record 'w required_leaf =
  rl_Component :: bundle_component
  rl_Product :: product
  rl_Variant :: "'w variant"

text \<open>\<open>loadProductsByID\<close>: the batch read when there is one, else one read per distinct id.\<close>

fun load_each ::
    "(string \<Rightarrow> gerror + product option) \<Rightarrow> string list \<Rightarrow> (string \<Rightarrow> product option) \<Rightarrow> string list \<Rightarrow>
     (string \<Rightarrow> product option) outcome" where
  "load_each find_product seen byID [] = Ok byID"
| "load_each find_product seen byID (x # xs) =
     (if x \<in> set seen then load_each find_product seen byID xs
      else bindO (mapErr (Wrap (''bundle component '' @ x)) (of_res (find_product x))) (\<lambda>p.
        load_each find_product (x # seen) (case p of None \<Rightarrow> byID | Some q \<Rightarrow> byID(x \<mapsto> q)) xs))"

definition loadProductsByID ::
    "req_ctx \<Rightarrow> product_repo \<Rightarrow> string list \<Rightarrow> (string \<Rightarrow> product option) outcome" where
  "loadProductsByID ctx products ids =
     (case pq_list products of
        Some lister \<Rightarrow> bindO (mapErr (Wrap ''bundle components'') (of_res (lister ctx ids)))
          (\<lambda>byID. Ok (case byID of None \<Rightarrow> (\<lambda>_. None) | Some m \<Rightarrow> m))
      | None \<Rightarrow> load_each (pq_find products ctx) [] (\<lambda>_. None) ids)"

fun required_of :: "bundle_component list \<Rightarrow> bundle_component list outcome" where
  "required_of [] = Ok []"
| "required_of (c # cs) =
     (if \<not> bc_Required c then required_of cs
      else if bc_Quantity c <s 1
        then Fail (bundle_error (''dynamic bundle component '' @ bc_ComponentProductID c @ '' has invalid quantity''))
      else bindO (required_of cs) (\<lambda>r. Ok (c # r)))"

fun check_leaves ::
    "req_ctx \<Rightarrow> (string \<Rightarrow> product option) \<Rightarrow> bundle_component list \<Rightarrow> unit outcome" where
  "check_leaves ctx byID [] = Ok ()"
| "check_leaves ctx byID (c # cs) =
     (case byID (bc_ComponentProductID c) of
        None \<Rightarrow> Fail (bundle_error (''dynamic bundle component '' @ bc_ComponentProductID c @ '' was not found''))
      | Some p \<Rightarrow>
          if \<not> IncludeNonActiveProducts ctx \<and> pd_Status p \<noteq> ProductStatusActive
          then Fail (bundle_error (''dynamic bundle component '' @ bc_ComponentProductID c @ '' is not active''))
          else if \<not> IsBundleComponentLeafType (pd_Type p)
          then Fail (bundle_error (''dynamic bundle component '' @ bc_ComponentProductID c @
                 '' must be a simple, virtual, or downloadable product''))
          else if LinkedParentBlocksPurchase (Some (pd_RequiresLinkedParent p)) (AssignmentContextFrom (Some ctx))
          then Fail (AppErr Validation RequiresLinkedParentNotPurchasableMessage)
          else check_leaves ctx byID cs)"

text \<open>The last loop; every id in it was found by the loop before.\<close>

fun make_leaves ::
    "(string \<Rightarrow> product option) \<Rightarrow> (string \<Rightarrow> 'w variant list) \<Rightarrow> bundle_component list \<Rightarrow>
     'w required_leaf list outcome" where
  "make_leaves byID found [] = Ok []"
| "make_leaves byID found (c # cs) =
     (case (found (bc_ComponentProductID c), byID (bc_ComponentProductID c)) of
        ([v], Some p) \<Rightarrow> bindO (make_leaves byID found cs)
          (\<lambda>ls. Ok (\<lparr>rl_Component = c, rl_Product = p, rl_Variant = v\<rparr> # ls))
      | _ \<Rightarrow> Fail (bundle_error (''dynamic bundle component '' @ bc_ComponentProductID c @
                 '' must have exactly one variant'')))"

definition RequiredLeafVariants ::
    "req_ctx \<Rightarrow> product_repo option \<Rightarrow> 'w variant_repo option \<Rightarrow> component_repo option \<Rightarrow> string \<Rightarrow>
     'w required_leaf list outcome" where
  "RequiredLeafVariants ctx products variants components bundleID =
     (case (products, variants) of
        (Some ps, Some vs) \<Rightarrow>
          (case components of
             None \<Rightarrow> Fail (AppErr Validation ''bundle component repository is required'')
           | Some cs \<Rightarrow>
               bindO (mapErr (Wrap (''bundle '' @ bundleID @ '' components'')) (of_res (cs bundleID))) (\<lambda>rows.
               bindO (required_of rows) (\<lambda>required.
               if required = []
               then Fail (bundle_error (''dynamic bundle '' @ bundleID @ '' has no required components''))
               else if MaxBundleRequiredComponents < length required
               then Fail (bundle_error (''dynamic bundle '' @ bundleID @ '' has too many required components''))
               else
                 let productIDs = map bc_ComponentProductID required in
                 bindO (loadProductsByID (WithIncludeNonActiveProducts ctx) ps productIDs) (\<lambda>byID.
                 bindO (check_leaves ctx byID required) (\<lambda>_.
                 bindO (mapErr (Wrap (''bundle '' @ bundleID @ '' component variants'')) (of_res (vr_list vs productIDs 2))) (\<lambda>found.
                 make_leaves byID found required))))))
      | _ \<Rightarrow> Fail (AppErr Validation ''catalog repositories are required''))"

section \<open>Unit prices\<close>

definition lookupStoredUnitPrice :: "price_repo \<Rightarrow> string \<Rightarrow> string \<Rightarrow> string \<Rightarrow> money outcome" where
  "lookupStoredUnitPrice prices variantID currency storeID =
     bindO (mapErr (Wrap (''variant '' @ variantID)) (of_res (prr_find prices variantID currency storeID))) (\<lambda>price.
     bindO (if price = None \<and> storeID \<noteq> []
            then mapErr (Wrap (''variant '' @ variantID @ '' (fallback)'')) (of_res (prr_find prices variantID currency []))
            else Ok price) (\<lambda>price'.
     case price' of
       None \<Rightarrow> Fail (MissingPrice variantID currency None)
     | Some p \<Rightarrow> Ok (pr_Amount p)))"

fun fill_global ::
    "price_repo \<Rightarrow> string \<Rightarrow> (string \<Rightarrow> price option) \<Rightarrow> string list \<Rightarrow> (string \<Rightarrow> price option) outcome" where
  "fill_global prices currency priced [] = Ok priced"
| "fill_global prices currency priced (v # vs) =
     (if priced v \<noteq> None then fill_global prices currency priced vs
      else bindO (of_res (prr_find prices v currency [])) (\<lambda>global.
        fill_global prices currency (case global of None \<Rightarrow> priced | Some p \<Rightarrow> priced(v \<mapsto> p)) vs))"

definition lookupComponentPrices ::
    "price_repo \<Rightarrow> string list \<Rightarrow> string \<Rightarrow> string \<Rightarrow> (string \<Rightarrow> price option) outcome" where
  "lookupComponentPrices prices variantIDs currency storeID =
     bindO (of_res (prr_find_many prices variantIDs currency storeID)) (\<lambda>found.
     let priced = (case found of None \<Rightarrow> (\<lambda>_. None) | Some m \<Rightarrow> m) in
     if storeID = [] then Ok priced else fill_global prices currency priced variantIDs)"

fun sum_leaves ::
    "string \<Rightarrow> string \<Rightarrow> (string \<Rightarrow> price option) \<Rightarrow> money \<Rightarrow> 'w required_leaf list \<Rightarrow> money outcome" where
  "sum_leaves bundleID currency priced acc [] = Ok acc"
| "sum_leaves bundleID currency priced acc (l # ls) =
     (let cid = bc_ComponentProductID (rl_Component l) in
      case priced (v_ID (rl_Variant l)) of
        None \<Rightarrow> Fail (bundle_error (''dynamic bundle component '' @ cid @ '' has no price in '' @ currency))
      | Some p \<Rightarrow>
          if m_currency (pr_Amount p) \<noteq> currency
          then Fail (bundle_error (''bundle component '' @ cid @ '' currency '' @ m_currency (pr_Amount p) @
                 '' does not match '' @ currency))
          else
            bindO (mapErr (\<lambda>e. bundle_error (''bundle component '' @ cid @ '': '' @ err_text e))
                     (MulChecked (pr_Amount p) (bc_Quantity (rl_Component l)))) (\<lambda>line.
            bindO (mapErr (\<lambda>e. bundle_error (''bundle '' @ bundleID @ '': '' @ err_text e))
                     (AddChecked acc line)) (\<lambda>acc'.
            sum_leaves bundleID currency priced acc' ls)))"

definition resolveDynamicBundleUnitPrice ::
    "req_ctx \<Rightarrow> 'w price_sources \<Rightarrow> price_repo \<Rightarrow> string \<Rightarrow> string \<Rightarrow> string \<Rightarrow> money outcome" where
  "resolveDynamicBundleUnitPrice ctx src prices bundleID currency storeID =
     bindO (RequiredLeafVariants ctx (us_Products src) (us_Variants src) (us_Components src) bundleID) (\<lambda>leaves.
     bindO (mapErr (Wrap ''bundle prices'')
              (lookupComponentPrices prices (map (\<lambda>l. v_ID (rl_Variant l)) leaves) currency storeID)) (\<lambda>priced.
     bindO (mapErr (\<lambda>e. bundle_error (''bundle '' @ bundleID @ '' currency: '' @ err_text e)) (NewMoney 0 currency)) (\<lambda>z.
     sum_leaves bundleID currency priced z leaves)))"

fun set_missing_type :: "string \<Rightarrow> gerror \<Rightarrow> gerror" where
  "set_missing_type t (MissingPrice v c _) = MissingPrice v c (Some t)"
| "set_missing_type t (Wrap p e) = Wrap p (set_missing_type t e)"
| "set_missing_type t (Around p e s) = Around p (set_missing_type t e) s"
| "set_missing_type t (AppWrap k m e) = AppWrap k m (set_missing_type t e)"
| "set_missing_type t e = e"

definition resolveUnitPriceUncached ::
    "req_ctx \<Rightarrow> 'w price_sources \<Rightarrow> string \<Rightarrow> string \<Rightarrow> string \<Rightarrow> money outcome" where
  "resolveUnitPriceUncached ctx0 src variantID currency storeID =
     (let ctx = (case PurchaseAssignmentForVariant (Some ctx0) variantID of
           None \<Rightarrow> ctx0 | Some ac \<Rightarrow> the (WithAssignmentContext (Some ctx0) ac)) in
      case us_Prices src of
        None \<Rightarrow> Fail (AppErr Internal ''price repository is required'')
      | Some prices \<Rightarrow>
         (case (us_Variants src, us_Products src) of
            (Some variants, Some products) \<Rightarrow>
              bindO (mapErr (Wrap (''variant '' @ variantID)) (of_res (vr_find variants variantID))) (\<lambda>found.
              case found of
                None \<Rightarrow> Fail (AppErr NotFound (''variant '' @ variantID @ '' not found''))
              | Some v \<Rightarrow>
                  bindO (mapErr (Wrap (''product '' @ v_ProductID v)) (of_res (pq_find products ctx (v_ProductID v)))) (\<lambda>prod.
                  case prod of
                    None \<Rightarrow> Fail (AppErr NotFound (''product '' @ v_ProductID v @ '' not found''))
                  | Some p \<Rightarrow>
                      if pd_Type p = TypeGrouped then Fail (AppErr Validation ''grouped products cannot be priced'')
                      else if pd_Type p = TypeBundle \<and> pd_PricingMode p = PricingModeDynamic
                      then resolveDynamicBundleUnitPrice ctx src prices (pd_ID p) currency storeID
                      else mapErr (set_missing_type (product_type_string (pd_Type p)))
                             (lookupStoredUnitPrice prices variantID currency storeID)))
          | _ \<Rightarrow> Fail (AppErr Validation ''catalog repositories are required to resolve a unit price'')))"

type_synonym price_cache = "string \<times> string \<times> string \<Rightarrow> money outcome option"

definition ResolveUnitPrice ::
    "req_ctx \<Rightarrow> 'w price_sources \<Rightarrow> price_cache option \<Rightarrow> string \<Rightarrow> string \<Rightarrow> string \<Rightarrow>
     money outcome \<times> price_cache option" where
  "ResolveUnitPrice ctx src cache variantID currency storeID =
     (let key = (variantID, currency, storeID) in
      case cache of
        None \<Rightarrow> (resolveUnitPriceUncached ctx src variantID currency storeID, None)
      | Some m \<Rightarrow> (case m key of
          Some r \<Rightarrow> (r, cache)
        | None \<Rightarrow> let r = resolveUnitPriceUncached ctx src variantID currency storeID
                  in (r, Some (m(key \<mapsto> r)))))"

section \<open>The base step\<close>

text \<open>\<open>storeID, _ := Meta["store_id"].(string)\<close>\<close>

definition store_id_of :: "meta \<Rightarrow> string" where
  "store_id_of m = (case m ''store_id'' of Some (MStr s) \<Rightarrow> s | _ \<Rightarrow> [])"

definition base_item :: "money outcome \<Rightarrow> pricing_item \<Rightarrow> pricing_item outcome" where
  "base_item resolved item =
     bindO (mapErr (Wrap ''base price'') resolved) (\<lambda>amount.
     bindO (mapErr (Wrap (''base price: variant '' @ pi_VariantID item)) (MulChecked amount (pi_Quantity item))) (\<lambda>t.
     Ok (item\<lparr>pi_UnitPrice := amount, pi_Total := t\<rparr>)))"

text \<open>The legacy step, which only tests construct, reads the stored row and nothing else.\<close>

definition item_price ::
    "bool \<Rightarrow> req_ctx \<Rightarrow> 'w price_sources \<Rightarrow> price_cache option \<Rightarrow> string \<Rightarrow> string \<Rightarrow> string \<Rightarrow>
     money outcome \<times> price_cache option" where
  "item_price legacy ctx src cache variantID currency storeID =
     (if legacy then
        (case us_Prices src of
           None \<Rightarrow> Panics ''nil pointer dereference''
         | Some prices \<Rightarrow> lookupStoredUnitPrice prices variantID currency storeID, cache)
      else ResolveUnitPrice ctx src cache variantID currency storeID)"

fun base_items ::
    "bool \<Rightarrow> req_ctx \<Rightarrow> 'w price_sources \<Rightarrow> string \<Rightarrow> string \<Rightarrow> price_cache option \<Rightarrow> pricing_item list \<Rightarrow>
     pricing_item list outcome \<times> price_cache option" where
  "base_items legacy ctx src currency storeID cache [] = (Ok [], cache)"
| "base_items legacy ctx src currency storeID cache (i # is) =
     (case item_price legacy ctx src cache (pi_VariantID i) currency storeID of (r, cache1) \<Rightarrow>
       (case base_item r i of
          Ok j \<Rightarrow> (case base_items legacy ctx src currency storeID cache1 is of (rest, cache2) \<Rightarrow>
                    (bindO rest (\<lambda>js. Ok (j # js)), cache2))
        | Fail e \<Rightarrow> (Fail e, cache1)
        | Panics p \<Rightarrow> (Panics p, cache1)))"

definition BasePriceStep_Apply ::
    "bool \<Rightarrow> req_ctx \<Rightarrow> 'w price_sources \<Rightarrow> price_cache option \<Rightarrow> pricing_context \<Rightarrow>
     pricing_context outcome \<times> price_cache option" where
  "BasePriceStep_Apply legacy ctx src cache pctx =
     (case base_items legacy ctx src (pc_Currency pctx) (store_id_of (pc_Meta pctx)) cache (pc_Items pctx) of (r, cache') \<Rightarrow>
       (bindO r (\<lambda>items. Ok (pctx\<lparr>pc_Items := items\<rparr>)), cache'))"

definition BasePriceStep :: "req_ctx \<Rightarrow> 'w price_sources \<Rightarrow> price_cache option \<Rightarrow> pricing_step" where
  "BasePriceStep ctx src cache = \<lparr>st_name = ''base'', st_apply = (\<lambda>c. fst (BasePriceStep_Apply False ctx src cache c))\<rparr>"

section \<open>Lemmas\<close>

lemma required_of_Ok:
  "required_of rows = Ok r \<Longrightarrow> r = filter bc_Required rows \<and> (\<forall>c \<in> set r. 1 \<le> sint (bc_Quantity c))"
  by (induction rows arbitrary: r) (fastforce simp: i64 split: if_splits)+

text \<open>What the walk guarantees of one required component.\<close>

definition sellable_leaf :: "req_ctx \<Rightarrow> product \<Rightarrow> bool" where
  "sellable_leaf ctx p \<longleftrightarrow> (IncludeNonActiveProducts ctx \<or> pd_Status p = ProductStatusActive) \<and>
     IsBundleComponentLeafType (pd_Type p) \<and>
     \<not> LinkedParentBlocksPurchase (Some (pd_RequiresLinkedParent p)) (AssignmentContextFrom (Some ctx))"

lemma check_leaves_Ok:
  "check_leaves ctx byID cs = Ok u \<longleftrightarrow>
     (\<forall>c \<in> set cs. \<exists>p. byID (bc_ComponentProductID c) = Some p \<and> sellable_leaf ctx p)"
  by (induction cs) (auto simp: sellable_leaf_def split: option.splits)

lemma make_leaves_Ok:
  "make_leaves byID found cs = Ok ls \<Longrightarrow> map rl_Component ls = cs \<and>
     (\<forall>l \<in> set ls. byID (bc_ComponentProductID (rl_Component l)) = Some (rl_Product l) \<and>
        found (bc_ComponentProductID (rl_Component l)) = [rl_Variant l])"
  by (induction cs arbitrary: ls) (auto split: list.splits option.splits)

text \<open>What the repositories hold of one product of a batch of ids, read in one call or one by one.\<close>

definition product_held :: "product_repo \<Rightarrow> req_ctx \<Rightarrow> string list \<Rightarrow> string \<Rightarrow> product \<Rightarrow> bool" where
  "product_held ps ctx ids x p \<longleftrightarrow>
     (case pq_list ps of
        Some batch \<Rightarrow> (\<exists>m. batch ctx ids = Inr (Some m) \<and> m x = Some p)
      | None \<Rightarrow> pq_find ps ctx x = Inr (Some p))"

text \<open>The component \<open>c\<close> of a bundle whose required components have the given ids may be sold as the
  variant \<open>v\<close>: its own product is one for sale, of a type without children, and \<open>v\<close> is the one
  variant of that product.\<close>

definition bundle_leaf ::
    "req_ctx \<Rightarrow> product_repo \<Rightarrow> 'w variant_repo \<Rightarrow> string list \<Rightarrow> bundle_component \<Rightarrow> 'w variant \<Rightarrow> bool" where
  "bundle_leaf ctx ps vs ids c v \<longleftrightarrow> 1 \<le> sint (bc_Quantity c) \<and>
     (\<exists>p. product_held ps (ctx\<lparr>rc_includeNonActive := True\<rparr>) ids (bc_ComponentProductID c) p \<and>
        (pd_Status p = ProductStatusActive \<or> rc_includeNonActive ctx) \<and>
        pd_Type p \<in> {TypeSimple, TypeVirtual, TypeDownloadable} \<and>
        (pd_RequiresLinkedParent p \<longrightarrow> (\<exists>ac. rc_assignment ctx = Some ac \<and>
           (ac_Deferred ac \<or> trim_space (ac_ParentProductID ac) \<noteq> [] \<or> trim_space (ac_ParentUnitID ac) \<noteq> [])))) \<and>
     (\<exists>found. vr_list vs ids 2 = Inr found \<and> found (bc_ComponentProductID c) = [v])"

lemma load_each_Ok:
  "load_each f seen byID xs = Ok m \<Longrightarrow> m x = Some p \<Longrightarrow> byID x = Some p \<or> f x = Inr (Some p)"
proof (induction xs arbitrary: seen byID)
  case (Cons y ys)
  show ?case
  proof (cases "y \<in> set seen")
    case False
    then obtain q where q: "f y = Inr q"
      and rest: "load_each f (y # seen) (case q of None \<Rightarrow> byID | Some r \<Rightarrow> byID(y \<mapsto> r)) ys = Ok m"
      using Cons.prems(1) by auto
    show ?thesis using Cons.IH [OF rest Cons.prems(2)] q by (cases q) (auto split: if_splits)
  qed (use Cons in auto)
qed simp

lemma loadProductsByID_held:
  "loadProductsByID ctx ps ids = Ok byID \<Longrightarrow> byID x = Some p \<Longrightarrow> product_held ps ctx ids x p"
  by (auto simp: loadProductsByID_def product_held_def dest: load_each_Ok split: option.splits)

lemma sellable_leaf_spec:
  "sellable_leaf ctx p \<Longrightarrow> (pd_Status p = ProductStatusActive \<or> rc_includeNonActive ctx) \<and>
     pd_Type p \<in> {TypeSimple, TypeVirtual, TypeDownloadable} \<and>
     (pd_RequiresLinkedParent p \<longrightarrow> (\<exists>ac. rc_assignment ctx = Some ac \<and>
        (ac_Deferred ac \<or> trim_space (ac_ParentProductID ac) \<noteq> [] \<or> trim_space (ac_ParentUnitID ac) \<noteq> [])))"
  by (cases "pd_Type p"; cases "rc_assignment ctx")
    (auto simp: sellable_leaf_def IncludeNonActiveProducts_def LinkedParentBlocksPurchase_def AssignmentContextFrom_def
      AssignmentContext_Empty_def assignment_context_zero_def trim_assignment_def)

lemma RequiredLeafVariants_Ok:
  assumes "RequiredLeafVariants ctx products variants components b = Ok ls"
  shows "\<exists>ps vs cs rows. products = Some ps \<and> variants = Some vs \<and> components = Some cs \<and> cs b = Inr rows \<and>
    map rl_Component ls = filter bc_Required rows \<and> ls \<noteq> [] \<and> length ls \<le> MaxBundleRequiredComponents \<and>
    (\<forall>l \<in> set ls. bundle_leaf ctx ps vs (map bc_ComponentProductID (filter bc_Required rows)) (rl_Component l) (rl_Variant l))"
proof -
  from assms obtain ps vs cs rows req byID found where repos: "products = Some ps" "variants = Some vs"
    and comp: "components = Some cs" "cs b = Inr rows"
    and req: "required_of rows = Ok req" "req \<noteq> []" "length req \<le> MaxBundleRequiredComponents"
    and load: "loadProductsByID (WithIncludeNonActiveProducts ctx) ps (map bc_ComponentProductID req) = Ok byID"
    and chk: "check_leaves ctx byID req = Ok ()"
    and found: "vr_list vs (map bc_ComponentProductID req) 2 = Inr found" and mk: "make_leaves byID found req = Ok ls"
    by (auto simp: RequiredLeafVariants_def Let_def split: option.splits if_splits)
  note m = make_leaves_Ok [OF mk]
  have "bundle_leaf ctx ps vs (map bc_ComponentProductID req) (rl_Component l) (rl_Variant l)" if "l \<in> set ls" for l
  proof -
    have "rl_Component l \<in> set req" using m that by (metis image_eqI image_set)
    moreover have at: "byID (bc_ComponentProductID (rl_Component l)) = Some (rl_Product l)"
      "found (bc_ComponentProductID (rl_Component l)) = [rl_Variant l]" using m that by blast+
    ultimately have "1 \<le> sint (bc_Quantity (rl_Component l))" "sellable_leaf ctx (rl_Product l)"
      using chk required_of_Ok [OF req(1)] by (auto simp: check_leaves_Ok)
    then show ?thesis
      using sellable_leaf_spec loadProductsByID_held [OF load at(1)] found at(2)
      unfolding bundle_leaf_def WithIncludeNonActiveProducts_def by blast
  qed
  moreover have "length ls = length req" using m by (metis length_map)
  ultimately show ?thesis using repos comp m req required_of_Ok [OF req(1)] by auto
qed

text \<open>Where a component's price comes from: the store's row, else the global row.\<close>

definition component_price ::
    "price_repo \<Rightarrow> (string \<Rightarrow> price option) option \<Rightarrow> string \<Rightarrow> string \<Rightarrow> string \<Rightarrow> price \<Rightarrow> bool" where
  "component_price prices found currency storeID v p \<longleftrightarrow>
     (let own = (case found of None \<Rightarrow> None | Some m \<Rightarrow> m v) in
      own = Some p \<or> (own = None \<and> storeID \<noteq> [] \<and> prr_find prices v currency [] = Inr (Some p)))"

lemma fill_global_Ok:
  "fill_global prices currency priced vs = Ok m \<Longrightarrow> m v = Some p \<Longrightarrow>
     priced v = Some p \<or> (priced v = None \<and> prr_find prices v currency [] = Inr (Some p))"
proof (induction vs arbitrary: priced)
  case (Cons x xs)
  show ?case
  proof (cases "priced x")
    case None
    then obtain g where g: "prr_find prices x currency [] = Inr g"
      and rest: "fill_global prices currency (case g of None \<Rightarrow> priced | Some q \<Rightarrow> priced(x \<mapsto> q)) xs = Ok m"
      using Cons.prems(1) by auto
    show ?thesis
      using Cons.IH [OF rest Cons.prems(2)] None g by (cases g) (auto split: if_splits)
  qed (use Cons in auto)
qed simp

lemma lookupComponentPrices_Ok:
  assumes "lookupComponentPrices prices vs currency storeID = Ok m"
  shows "\<exists>found. prr_find_many prices vs currency storeID = Inr found \<and>
    (\<forall>v p. m v = Some p \<longrightarrow> component_price prices found currency storeID v p)"
proof -
  from assms obtain found where f: "prr_find_many prices vs currency storeID = Inr found"
    and m: "(if storeID = [] then Ok (case found of None \<Rightarrow> (\<lambda>_. None) | Some m \<Rightarrow> m)
             else fill_global prices currency (case found of None \<Rightarrow> (\<lambda>_. None) | Some m \<Rightarrow> m) vs) = Ok m"
    by (auto simp: lookupComponentPrices_def Let_def)
  have "component_price prices found currency storeID v p" if "m v = Some p" for v p
    using m that fill_global_Ok [of prices currency _ vs m v p]
    by (auto simp: component_price_def Let_def split: if_splits option.splits)
  then show ?thesis using f by blast
qed

definition leaf_cents :: "(string \<Rightarrow> price option) \<Rightarrow> 'w required_leaf \<Rightarrow> int" where
  "leaf_cents priced l = cents (pr_Amount (the (priced (v_ID (rl_Variant l))))) * sint (bc_Quantity (rl_Component l))"

lemma sum_leaves_Ok:
  "sum_leaves b cur priced acc ls = Ok m \<Longrightarrow> m_currency acc = cur \<Longrightarrow>
   (\<And>l. l \<in> set ls \<Longrightarrow> 0 \<le> sint (bc_Quantity (rl_Component l))) \<Longrightarrow>
     m_currency m = cur \<and> cents m = cents acc + (\<Sum>l\<leftarrow>ls. leaf_cents priced l) \<and>
     (\<forall>l \<in> set ls. \<exists>p. priced (v_ID (rl_Variant l)) = Some p \<and> m_currency (pr_Amount p) = cur)"
proof (induction ls arbitrary: acc)
  case (Cons l ls)
  from Cons.prems(1) obtain p line acc' where p: "priced (v_ID (rl_Variant l)) = Some p" "m_currency (pr_Amount p) = cur"
    and line: "MulChecked (pr_Amount p) (bc_Quantity (rl_Component l)) = Ok line"
    and acc': "AddChecked acc line = Ok acc'" and rest: "sum_leaves b cur priced acc' ls = Ok m"
    by (auto simp: Let_def split: option.splits if_splits)
  have "m_currency acc' = cur" using acc' Cons.prems(2) by (simp add: AddChecked_Ok_iff)
  moreover have "cents acc' = cents acc + leaf_cents priced l"
    using AddChecked_cents [OF acc'] MulChecked_cents [OF _ line] Cons.prems(3) p by (simp add: leaf_cents_def)
  ultimately show ?case using Cons.IH [OF rest] Cons.prems(3) p by auto
qed simp

lemma sum_leaves_safe: "m_currency acc = cur \<Longrightarrow> post (sum_leaves b cur priced acc ls) (\<lambda>m. m_currency m = cur)"
proof (induction ls arbitrary: acc)
  case (Cons l ls)
  show ?case
  proof (cases "priced (v_ID (rl_Variant l))")
    case (Some p)
    have mul: "post (mapErr w (MulChecked (pr_Amount p) q)) (\<lambda>t. m_currency t = cur)"
      if "m_currency (pr_Amount p) = cur" for w q
      using MulChecked_post [of "pr_Amount p" q] that by simp
    have add: "post (mapErr w (AddChecked acc line)) (\<lambda>t. m_currency t = cur)" if "m_currency line = cur" for w line
      using AddChecked_post [of acc line] that Cons.prems by simp
    show ?thesis
      unfolding sum_leaves.simps Let_def Some option.case
      by (rule post_if, simp, rule post_bind [OF mul], simp, rule post_bind [OF add], assumption,
          rule Cons.IH, assumption)
  qed (simp add: Let_def)
qed simp

text \<open>Repositories whose price rows are in the currency they are asked for, as their interface says.\<close>

definition sane_prices :: "price_repo \<Rightarrow> bool" where
  "sane_prices prices \<longleftrightarrow>
     (\<forall>v cur store p. prr_find prices v cur store = Inr (Some p) \<longrightarrow> m_currency (pr_Amount p) = cur)"

lemma lookupStoredUnitPrice_post:
  "sane_prices prices \<Longrightarrow> post (lookupStoredUnitPrice prices v cur store) (\<lambda>m. m_currency m = cur)"
  by (rule postI) (auto simp: lookupStoredUnitPrice_def sane_prices_def split: option.splits if_splits)

lemma required_of_safe: "required_of rows \<noteq> Panics p"
  by (induction rows) auto

lemma load_each_safe: "load_each f seen byID xs \<noteq> Panics p"
  by (induction f seen byID xs rule: load_each.induct) auto

lemma check_leaves_safe: "check_leaves ctx byID cs \<noteq> Panics p"
  by (induction cs) (auto split: option.splits)

lemma make_leaves_safe: "make_leaves byID found cs \<noteq> Panics p"
  by (induction cs) (auto split: list.splits option.splits)

lemma fill_global_safe: "fill_global prices cur priced vs \<noteq> Panics p"
  by (induction vs arbitrary: priced) auto

lemma RequiredLeafVariants_safe: "RequiredLeafVariants ctx ps vs cs b \<noteq> Panics p"
  by (auto simp: RequiredLeafVariants_def loadProductsByID_def Let_def required_of_safe load_each_safe
      check_leaves_safe make_leaves_safe split: option.splits)

lemma resolveDynamicBundleUnitPrice_post:
  "post (resolveDynamicBundleUnitPrice ctx src prices b cur store) (\<lambda>m. m_currency m = cur)"
proof (rule postI)
  have "lookupComponentPrices prices vs cur store \<noteq> Panics p" for vs p
    by (auto simp: lookupComponentPrices_def Let_def fill_global_safe)
  moreover have "sum_leaves b cur priced \<lparr>m_amount = 0, m_currency = cur\<rparr> ls \<noteq> Panics p" for priced p
      and ls :: "'a required_leaf list"
    by (rule post_not_Panics [OF sum_leaves_safe]) simp
  ultimately show "resolveDynamicBundleUnitPrice ctx src prices b cur store \<noteq> Panics p" for p
    by (auto simp: resolveDynamicBundleUnitPrice_def RequiredLeafVariants_safe NewMoney_def)
  show "m_currency m = cur" if "resolveDynamicBundleUnitPrice ctx src prices b cur store = Ok m" for m
    using that post_Ok [OF sum_leaves_safe, of "\<lparr>m_amount = 0, m_currency = cur\<rparr>" cur b]
    by (auto simp: resolveDynamicBundleUnitPrice_def NewMoney_def split: if_splits)
qed

lemma resolveUnitPriceUncached_post:
  assumes "\<forall>prices. us_Prices src = Some prices \<longrightarrow> sane_prices prices"
  shows "post (resolveUnitPriceUncached ctx src v cur store) (\<lambda>m. m_currency m = cur)"
  using assms lookupStoredUnitPrice_post resolveDynamicBundleUnitPrice_post
  by (auto simp: resolveUnitPriceUncached_def Let_def split: option.splits
      intro!: post_bind [where P = "\<lambda>_. True"])

text \<open>A cache that holds nothing but answers of \<open>resolveUnitPriceUncached\<close>.\<close>

definition cache_ok :: "req_ctx \<Rightarrow> 'w price_sources \<Rightarrow> price_cache option \<Rightarrow> bool" where
  "cache_ok ctx src cache \<longleftrightarrow> (\<forall>m v cur store r. cache = Some m \<longrightarrow> m (v, cur, store) = Some r \<longrightarrow>
     r = resolveUnitPriceUncached ctx src v cur store)"

lemma ResolveUnitPrice_cached:
  assumes "cache_ok ctx src cache"
  shows "fst (ResolveUnitPrice ctx src cache v cur store) = resolveUnitPriceUncached ctx src v cur store \<and>
    cache_ok ctx src (snd (ResolveUnitPrice ctx src cache v cur store))"
  using assms by (auto simp: ResolveUnitPrice_def cache_ok_def Let_def split: option.splits)

lemma item_price_False [simp]: "item_price False = ResolveUnitPrice"
  by (intro ext) (simp add: item_price_def)

text \<open>One line of the base step, without the cache.\<close>

definition priced_item :: "req_ctx \<Rightarrow> 'w price_sources \<Rightarrow> string \<Rightarrow> string \<Rightarrow> pricing_item \<Rightarrow> pricing_item outcome" where
  "priced_item ctx src cur store i = base_item (resolveUnitPriceUncached ctx src (pi_VariantID i) cur store) i"

fun priced_items ::
    "req_ctx \<Rightarrow> 'w price_sources \<Rightarrow> string \<Rightarrow> string \<Rightarrow> pricing_item list \<Rightarrow> pricing_item list outcome" where
  "priced_items ctx src cur store [] = Ok []"
| "priced_items ctx src cur store (i # is) =
     bindO (priced_item ctx src cur store i) (\<lambda>j. bindO (priced_items ctx src cur store is) (\<lambda>js. Ok (j # js)))"

lemma base_items_cached:
  "cache_ok ctx src cache \<Longrightarrow> fst (base_items False ctx src cur store cache is) = priced_items ctx src cur store is \<and>
     cache_ok ctx src (snd (base_items False ctx src cur store cache is))"
proof (induction "is" arbitrary: cache)
  case (Cons i "is")
  obtain r cache1 where r: "ResolveUnitPrice ctx src cache (pi_VariantID i) cur store = (r, cache1)" by fastforce
  have eq: "r = resolveUnitPriceUncached ctx src (pi_VariantID i) cur store" and c1: "cache_ok ctx src cache1"
    using ResolveUnitPrice_cached [OF Cons.prems, of "pi_VariantID i" cur store] r by simp_all
  obtain rest cache2 where b: "base_items False ctx src cur store cache1 is = (rest, cache2)" by fastforce
  show ?case
    using Cons.IH [OF c1] b r eq c1
    by (auto simp: priced_item_def split: outcome.splits)
qed simp

lemma priced_items_list_all2:
  "priced_items ctx src cur store is = Ok js \<longleftrightarrow> list_all2 (\<lambda>i j. priced_item ctx src cur store i = Ok j) is js"
  by (induction "is" arbitrary: js) (auto simp: list_all2_Cons1)

lemma priced_item_post:
  assumes "\<forall>prices. us_Prices src = Some prices \<longrightarrow> sane_prices prices" "adjs_in cur (pi_Adjustments i)"
  shows "post (priced_item ctx src cur store i) (item_in cur)"
  unfolding priced_item_def base_item_def
proof (intro post_bind)
  show "post (mapErr (Wrap ''base price'') (resolveUnitPriceUncached ctx src (pi_VariantID i) cur store))
      (\<lambda>m. m_currency m = cur)"
    using resolveUnitPriceUncached_post [OF assms(1)] by simp
  show "post (mapErr (Wrap (''base price: variant '' @ pi_VariantID i)) (MulChecked amount (pi_Quantity i)))
      (\<lambda>t. m_currency t = m_currency amount)" for amount
    using MulChecked_post by simp
qed (use assms(2) in \<open>simp add: item_in_def\<close>)

lemma priced_items_post:
  assumes "\<forall>prices. us_Prices src = Some prices \<longrightarrow> sane_prices prices" "\<forall>i \<in> set is. adjs_in cur (pi_Adjustments i)"
  shows "post (priced_items ctx src cur store is) (\<lambda>js. \<forall>j \<in> set js. item_in cur j)"
  using assms(2)
proof (induction "is")
  case (Cons i "is")
  then show ?case using priced_item_post [OF assms(1)] by (auto intro!: post_bind)
qed simp

lemma BasePriceStep_safe:
  assumes "\<forall>prices. us_Prices src = Some prices \<longrightarrow> sane_prices prices" "cache_ok ctx src cache"
  shows "currency_safe (BasePriceStep ctx src cache)"
proof -
  have "post (fst (BasePriceStep_Apply False ctx src cache c)) (\<lambda>c'. pctx_ok c' \<and> pc_Currency c' = pc_Currency c)"
    if c: "pctx_ok c" for c
  proof -
    have "\<forall>i \<in> set (pc_Items c). adjs_in (pc_Currency c) (pi_Adjustments i)"
      using c by (auto simp: pctx_ok_def item_in_def)
    note items = priced_items_post [OF assms(1) this]
    show ?thesis
      using base_items_cached [OF assms(2), of "pc_Currency c" "store_id_of (pc_Meta c)" "pc_Items c"] c
      by (auto simp: BasePriceStep_Apply_def pctx_ok_def split: prod.splits intro!: post_bind [OF items])
  qed
  then show ?thesis by (simp add: currency_safe_def BasePriceStep_def post_def)
qed

section \<open>Properties\<close>

definition demo_component :: "string \<Rightarrow> int64 \<Rightarrow> bool \<Rightarrow> bundle_component" where
  "demo_component cid q req = \<lparr>bc_BundleProductID = ''b'', bc_ComponentProductID = cid, bc_Quantity = q,
     bc_Required = req, bc_CreatedAt = 0\<rparr>"

definition demo_product :: "string \<Rightarrow> product_type \<Rightarrow> pricing_mode \<Rightarrow> product" where
  "demo_product x t mode = \<lparr>pd_ID = x, pd_Name = x, pd_Slug = x, pd_Description = [], pd_Status = ProductStatusActive,
     pd_Type = t, pd_PricingMode = mode, pd_StockMode = StockModeFixed, pd_ExplodeOrderLines = False,
     pd_RequiresLinkedParent = False, pd_VisibilityModes = DefaultVisibilityAxes, pd_Attributes = (\<lambda>_. None),
     pd_CreatedAt = 0, pd_UpdatedAt = 0\<rparr>"

definition demo_variant :: "string \<Rightarrow> nat variant" where
  "demo_variant x = \<lparr>v_ID = CHR ''v'' # x, v_ProductID = x, v_SKU = x, v_Name = x, v_Weight = 0,
     v_Attributes = (\<lambda>_. None), v_CreatedAt = 0, v_UpdatedAt = 0\<rparr>"

text \<open>A global price row of 300 for every variant and none in any store.\<close>

definition demo_prices :: price_repo where
  "demo_prices = \<lparr>prr_find = (\<lambda>v cur store. Inr (if store = [] then
       Some \<lparr>pr_ID = v, pr_VariantID = v, pr_StoreID = [], pr_Amount = in_cur cur 300, pr_CreatedAt = 0\<rparr> else None)),
     prr_find_many = (\<lambda>vs cur store. Inr None)\<rparr>"

definition demo_sources :: "nat price_sources" where
  "demo_sources = \<lparr>us_Prices = Some demo_prices,
     us_Variants = Some \<lparr>vr_find = (\<lambda>v. Inr (Some (demo_variant (drop 1 v)))),
       vr_list = (\<lambda>ids n. Inr (\<lambda>x. if x \<in> set ids then [demo_variant x] else []))\<rparr>,
     us_Products = Some \<lparr>pq_find = (\<lambda>ctx x. Inr (Some (if x = ''b'' then demo_product x TypeBundle PricingModeDynamic
         else demo_product x TypeSimple PricingModeFixed))), pq_list = None\<rparr>,
     us_Components = Some (\<lambda>b. Inr [demo_component ''x'' 2 True, demo_component ''y'' 9 False, demo_component ''z'' 1 True])\<rparr>"

text \<open>Two variants with rows of their own: \<open>vx\<close> has a row in the store \<open>s1\<close> that hides its global row, \<open>vz\<close>
  has a global row only.\<close>

definition demo_leaf_prices :: price_repo where
  "demo_leaf_prices =
     (let row = (\<lambda>v s n. \<lparr>pr_ID = v, pr_VariantID = v, pr_StoreID = s, pr_Amount = in_cur ''EUR'' n, pr_CreatedAt = 0\<rparr>) in
      \<lparr>prr_find = (\<lambda>v cur s. Inr (if s \<noteq> [] then None else if v = ''vx'' then Some (row v [] 300)
          else if v = ''vz'' then Some (row v [] 500) else None)),
       prr_find_many = (\<lambda>vs cur s. Inr (Some (\<lambda>v. if v = ''vx'' \<and> s = ''s1'' then Some (row v s 250) else None)))\<rparr>)"

text \<open>C32: when a dynamic bundle is priced, the price is exactly the sum, over the required components
  of the bundle and no others, of the component's quantity times the unit price of the component's
  own variant. There are between 1 and 50 such components, with quantities of 1 or more. Of each one,
  the product that the repository holds under the component's product id is active (unless the
  request reads inactive products), simple, virtual or downloadable, and needs no linked parent
  unless the request carries an assignment; the variant that is priced is the one variant listed
  for that product. A variant's unit price is the row of the batch read for the store or else, in a
  store, its global row. Every row is in the requested currency.\<close>

theorem dynamic_bundle_price_exact:
  fixes src :: "'w price_sources"
  assumes "resolveDynamicBundleUnitPrice ctx src prices b cur store = Ok m"
  shows "\<exists>ps vs cs rows. us_Products src = Some ps \<and> us_Variants src = Some vs \<and> us_Components src = Some cs \<and> cs b = Inr rows \<and>
    (let required = filter bc_Required rows; ids = map bc_ComponentProductID required in
     1 \<le> length required \<and> length required \<le> 50 \<and>
     (\<exists>leaves found row. list_all2 (bundle_leaf ctx ps vs ids) required leaves \<and>
        prr_find_many prices (map v_ID leaves) cur store = Inr found \<and>
        (\<forall>v \<in> v_ID ` set leaves. component_price prices found cur store v (row v) \<and> m_currency (pr_Amount (row v)) = cur) \<and>
        m_currency m = cur \<and>
        cents m = (\<Sum>(c, v)\<leftarrow>zip required leaves. cents (pr_Amount (row (v_ID v))) * sint (bc_Quantity c))))"
proof -
  from assms obtain ls pm where
    ls: "RequiredLeafVariants ctx (us_Products src) (us_Variants src) (us_Components src) b = Ok ls"
    and pm: "lookupComponentPrices prices (map (\<lambda>l. v_ID (rl_Variant l)) ls) cur store = Ok pm"
    and sum: "sum_leaves b cur pm \<lparr>m_amount = 0, m_currency = cur\<rparr> ls = Ok m"
    by (auto simp: resolveDynamicBundleUnitPrice_def NewMoney_def split: if_splits)
  from RequiredLeafVariants_Ok [OF ls] obtain ps vs cs rows where repos: "us_Products src = Some ps" "us_Variants src = Some vs"
      "us_Components src = Some cs" "cs b = Inr rows"
    and comps: "map rl_Component ls = filter bc_Required rows" and req: "ls \<noteq> []" "length ls \<le> MaxBundleRequiredComponents"
    and held: "\<forall>l \<in> set ls. bundle_leaf ctx ps vs (map bc_ComponentProductID (filter bc_Required rows)) (rl_Component l) (rl_Variant l)"
    by (elim exE conjE) (rule that)
  note leaf = held [folded comps]
  have len: "length (filter bc_Required rows) = length ls" using comps by (metis length_map)
  from lookupComponentPrices_Ok [OF pm] obtain found where
    found: "prr_find_many prices (map (\<lambda>l. v_ID (rl_Variant l)) ls) cur store = Inr found"
    and cp: "\<forall>v p. pm v = Some p \<longrightarrow> component_price prices found cur store v p" by blast
  have nonneg: "l \<in> set ls \<Longrightarrow> 0 \<le> sint (bc_Quantity (rl_Component l))" for l
    using leaf by (force simp: bundle_leaf_def)
  have total: "m_currency m = cur" "cents m = (\<Sum>l\<leftarrow>ls. leaf_cents pm l)"
      "\<forall>l \<in> set ls. \<exists>p. pm (v_ID (rl_Variant l)) = Some p \<and> m_currency (pr_Amount p) = cur"
    using sum_leaves_Ok [OF sum _ nonneg] by simp_all
  have "\<forall>v \<in> v_ID ` set (map rl_Variant ls). component_price prices found cur store v (the (pm v)) \<and>
      m_currency (pr_Amount (the (pm v))) = cur"
    using cp total(3) by force
  moreover have "list_all2 (bundle_leaf ctx ps vs (map bc_ComponentProductID (map rl_Component ls))) (map rl_Component ls) (map rl_Variant ls)"
    using leaf by (simp add: list_all2_conv_all_nth)
  moreover have "cents m = (\<Sum>(c, v)\<leftarrow>zip (map rl_Component ls) (map rl_Variant ls). cents (pr_Amount (the (pm (v_ID v)))) * sint (bc_Quantity c))"
    unfolding total(2) leaf_cents_def by (simp add: zip_map_map zip_same_conv_map comp_def)
  ultimately show ?thesis
    using repos req found total(1) unfolding Let_def MaxBundleRequiredComponents_def
    by - (rule exI [of _ ps], rule exI [of _ vs], rule exI [of _ cs], rule exI [of _ rows],
        intro conjI exI [of _ "map rl_Variant ls"] exI [of _ found] exI [of _ "\<lambda>v. the (pm v)"],
        simp_all add: comps len comp_def Suc_le_eq flip: length_greater_0_conv)
qed

lemma demo_bundle_price:
  "resolveDynamicBundleUnitPrice background demo_sources demo_leaf_prices ''b'' ''EUR'' ''s1'' = Ok (in_cur ''EUR'' 1000)"
  by (simp add: resolveDynamicBundleUnitPrice_def RequiredLeafVariants_def demo_sources_def demo_component_def
      loadProductsByID_def demo_product_def LinkedParentBlocksPurchase_def IncludeNonActiveProducts_def
      background_def demo_variant_def lookupComponentPrices_def demo_leaf_prices_def NewMoney_def IsValidCurrency_def
      is_upper_letter_def byte_val_def MaxBundleRequiredComponents_def Let_def i64 MulChecked_def AddChecked_def
      mustMatch_def go_div_def MaxInt64_def MinInt64_def)

theorem dynamic_bundle_price_exact_witness:
  "resolveDynamicBundleUnitPrice background demo_sources demo_leaf_prices ''b'' ''EUR'' ''s1'' = Ok (in_cur ''EUR'' 1000) \<and>
   (\<exists>row :: string \<Rightarrow> price. cents (pr_Amount (row ''vx'')) = 250 \<and> cents (pr_Amount (row ''vz'')) = 500 \<and>
      1000 = cents (pr_Amount (row ''vx'')) * 2 + cents (pr_Amount (row ''vz'')) * 1)"
proof -
  have rows: "us_Components demo_sources = Some cs \<Longrightarrow> cs ''b'' = Inr rows \<Longrightarrow>
      filter bc_Required rows = [demo_component ''x'' 2 True, demo_component ''z'' 1 True]" for cs rows
    by (auto simp: demo_sources_def demo_component_def)
  have cid: "bc_ComponentProductID (demo_component x q req) = x" for x q req by (simp add: demo_component_def)
  have leaf: "us_Variants demo_sources = Some vs \<Longrightarrow> x \<in> set ids \<Longrightarrow>
      bundle_leaf ctx ps vs ids (demo_component x q req) v \<Longrightarrow> v = demo_variant x" for vs ids ctx ps x q req v
    by (auto simp: demo_sources_def bundle_leaf_def demo_component_def)
  from dynamic_bundle_price_exact [OF demo_bundle_price, unfolded Let_def] obtain ps vs cs rows leaves found row
    where repos: "us_Variants demo_sources = Some vs" "us_Components demo_sources = Some cs" "cs ''b'' = Inr rows"
      and l: "list_all2 (bundle_leaf background ps vs (map bc_ComponentProductID (filter bc_Required rows))) (filter bc_Required rows) leaves"
      and f: "prr_find_many demo_leaf_prices (map v_ID leaves) ''EUR'' ''s1'' = Inr found"
      and r: "\<forall>v \<in> v_ID ` set leaves. component_price demo_leaf_prices found ''EUR'' ''s1'' v (row v) \<and>
          m_currency (pr_Amount (row v)) = ''EUR''"
      and m: "cents (in_cur ''EUR'' 1000) =
        (\<Sum>(c, v)\<leftarrow>zip (filter bc_Required rows) leaves. cents (pr_Amount (row (v_ID v))) * sint (bc_Quantity c))"
    by (elim exE conjE) (rule that)
  have leaves: "leaves = [demo_variant ''x'', demo_variant ''z'']"
    using l unfolding rows [OF repos(2,3)] by (auto simp: list_all2_Cons1 cid intro!: leaf [OF repos(1)])
  have "component_price demo_leaf_prices found ''EUR'' ''s1'' ''vx'' (row ''vx'')"
      "component_price demo_leaf_prices found ''EUR'' ''s1'' ''vz'' (row ''vz'')"
    using r by (simp_all add: leaves demo_variant_def)
  then have "cents (pr_Amount (row ''vx'')) = 250 \<and> cents (pr_Amount (row ''vz'')) = 500"
    using f by (auto simp: component_price_def demo_leaf_prices_def Let_def dest!: sym [of _ "row _"])
  moreover have "1000 = cents (pr_Amount (row ''vx'')) * 2 + cents (pr_Amount (row ''vz'')) * 1"
    using m unfolding leaves rows [OF repos(2,3)] by (simp add: demo_component_def demo_variant_def)
  ultimately show ?thesis using demo_bundle_price by blast
qed

text \<open>C33: the production base step gives every line the unit price that is resolved for its variant in the
  context's currency and store, and the exact product of that price and the line's quantity as
  its total; it changes nothing else, a grouped product is always refused, and the request's
  price cache, as long as it only holds resolved prices, has no influence on the outcome and
  still only holds resolved prices afterwards.\<close>

theorem BasePriceStep_correct:
  assumes "cache_ok ctx src cache" "\<forall>i \<in> set (pc_Items c). 0 \<le> sint (pi_Quantity i)"
  shows "cache_ok ctx src (snd (BasePriceStep_Apply False ctx src cache c)) \<and>
    fst (BasePriceStep_Apply False ctx src cache c) = fst (BasePriceStep_Apply False ctx src None c) \<and>
    (\<forall>c'. fst (BasePriceStep_Apply False ctx src cache c) = Ok c' \<longrightarrow>
       c' = c\<lparr>pc_Items := pc_Items c'\<rparr> \<and>
       list_all2 (\<lambda>i j. \<exists>m t. resolveUnitPriceUncached ctx src (pi_VariantID i) (pc_Currency c) (store_id_of (pc_Meta c)) = Ok m \<and>
         j = i\<lparr>pi_UnitPrice := m, pi_Total := t\<rparr> \<and> m_currency t = m_currency m \<and>
         cents t = cents m * sint (pi_Quantity i)) (pc_Items c) (pc_Items c')) \<and>
    (\<forall>i \<in> set (pc_Items c). \<forall>vs ps v p. us_Variants src = Some vs \<and> us_Products src = Some ps \<and>
       vr_find vs (pi_VariantID i) = Inr (Some v) \<and> (\<forall>ctx'. pq_find ps ctx' (v_ProductID v) = Inr (Some p)) \<and>
       pd_Type p = TypeGrouped \<longrightarrow> \<not> isOk (fst (BasePriceStep_Apply False ctx src cache c)))"
proof -
  let ?cur = "pc_Currency c" and ?store = "store_id_of (pc_Meta c)"
  let ?items = "priced_items ctx src ?cur ?store (pc_Items c)"
  have none: "cache_ok ctx src None" by (simp add: cache_ok_def)
  have eq: "fst (BasePriceStep_Apply False ctx src ch c) = bindO ?items (\<lambda>items. Ok (c\<lparr>pc_Items := items\<rparr>))"
    if "cache_ok ctx src ch" for ch
    using base_items_cached [OF that, of ?cur ?store "pc_Items c"]
    by (auto simp: BasePriceStep_Apply_def split: prod.splits)
  have cache: "cache_ok ctx src (snd (BasePriceStep_Apply False ctx src cache c))"
    using base_items_cached [OF assms(1), of ?cur ?store "pc_Items c"]
    by (auto simp: BasePriceStep_Apply_def split: prod.splits)
  have line: "\<exists>m t. resolveUnitPriceUncached ctx src (pi_VariantID i) ?cur ?store = Ok m \<and>
      j = i\<lparr>pi_UnitPrice := m, pi_Total := t\<rparr> \<and> m_currency t = m_currency m \<and> cents t = cents m * sint (pi_Quantity i)"
    if "priced_item ctx src ?cur ?store i = Ok j" "0 \<le> sint (pi_Quantity i)" for i j
  proof -
    from that(1) obtain m t where "resolveUnitPriceUncached ctx src (pi_VariantID i) ?cur ?store = Ok m"
      "MulChecked m (pi_Quantity i) = Ok t" "j = i\<lparr>pi_UnitPrice := m, pi_Total := t\<rparr>"
      by (auto simp: priced_item_def base_item_def)
    then show ?thesis using MulChecked_cents [OF that(2)] MulChecked_currency by blast
  qed
  have ok: "c' = c\<lparr>pc_Items := pc_Items c'\<rparr> \<and>
      list_all2 (\<lambda>i j. \<exists>m t. resolveUnitPriceUncached ctx src (pi_VariantID i) ?cur ?store = Ok m \<and>
        j = i\<lparr>pi_UnitPrice := m, pi_Total := t\<rparr> \<and> m_currency t = m_currency m \<and>
        cents t = cents m * sint (pi_Quantity i)) (pc_Items c) (pc_Items c')"
    if "fst (BasePriceStep_Apply False ctx src cache c) = Ok c'" for c'
  proof -
    from that eq [OF assms(1)] obtain js where js: "?items = Ok js" and c': "c' = c\<lparr>pc_Items := js\<rparr>" by auto
    have "list_all2 (\<lambda>i j. \<exists>m t. resolveUnitPriceUncached ctx src (pi_VariantID i) ?cur ?store = Ok m \<and>
        j = i\<lparr>pi_UnitPrice := m, pi_Total := t\<rparr> \<and> m_currency t = m_currency m \<and>
        cents t = cents m * sint (pi_Quantity i)) (pc_Items c) js"
      by (rule list.rel_mono_strong [OF js [unfolded priced_items_list_all2]]) (use assms(2) line in blast)
    then show ?thesis using c' by simp
  qed
  have grouped: "\<not> isOk (fst (BasePriceStep_Apply False ctx src cache c))"
    if "i \<in> set (pc_Items c)" "us_Variants src = Some vs" "us_Products src = Some ps"
      "vr_find vs (pi_VariantID i) = Inr (Some v)" "\<forall>ctx'. pq_find ps ctx' (v_ProductID v) = Inr (Some p)"
      "pd_Type p = TypeGrouped" for i vs ps v p
  proof
    assume "isOk (fst (BasePriceStep_Apply False ctx src cache c))"
    then obtain c' where "fst (BasePriceStep_Apply False ctx src cache c) = Ok c'" by (auto simp: isOk_iff)
    from ok [OF this] that(1) obtain m where
      "resolveUnitPriceUncached ctx src (pi_VariantID i) ?cur ?store = Ok m"
      by (fastforce simp: list_all2_conv_all_nth in_set_conv_nth)
    then show False using that(2-6) by (auto simp: resolveUnitPriceUncached_def Let_def split: option.splits)
  qed
  show ?thesis
    apply (intro conjI)
       apply (rule cache)
      apply (simp only: eq [OF assms(1)] eq [OF none])
     apply (intro allI impI, erule ok)
    apply (intro ballI allI impI, elim conjE, rule grouped; assumption)
    done
qed

theorem BasePriceStep_correct_witness:
  "let c = demo_pctx\<lparr>pc_Items := [\<lparr>pi_VariantID = ''vx'', pi_Quantity = 3, pi_UnitPrice = in_cur ''EUR'' 0,
       pi_Total = in_cur ''EUR'' 0, pi_Adjustments = []\<rparr>]\<rparr> in
   \<exists>c'. fst (BasePriceStep_Apply False background demo_sources (Some (\<lambda>_. None)) c) = Ok c' \<and>
     map (\<lambda>i. (cents (pi_UnitPrice i), cents (pi_Total i))) (pc_Items c') = [(300, 900)]"
proof -
  let ?i = "\<lparr>pi_VariantID = ''vx'', pi_Quantity = 3, pi_UnitPrice = in_cur ''EUR'' 0,
       pi_Total = in_cur ''EUR'' 0, pi_Adjustments = []\<rparr>"
  let ?c = "demo_pctx\<lparr>pc_Items := [?i]\<rparr>"
  let ?s = "demo_sources"
  have res: "resolveUnitPriceUncached background ?s ''vx'' ''EUR'' [] = Ok (in_cur ''EUR'' 300)"
    by (simp add: resolveUnitPriceUncached_def PurchaseAssignmentForVariant_def background_def demo_sources_def
        demo_variant_def demo_product_def lookupStoredUnitPrice_def demo_prices_def)
  have cache: "cache_ok background ?s (Some (\<lambda>_. None))" by (simp add: cache_ok_def)
  have run: "fst (BasePriceStep_Apply False background ?s (Some (\<lambda>_. None)) ?c) =
      Ok (?c\<lparr>pc_Items := [?i\<lparr>pi_UnitPrice := in_cur ''EUR'' 300, pi_Total := in_cur ''EUR'' 900\<rparr>]\<rparr>)"
    using res by (simp add: BasePriceStep_Apply_def ResolveUnitPrice_def store_id_of_def demo_pctx_def base_item_def
        Let_def MulChecked_def i64 go_div_def MaxInt64_def MinInt64_def)
  have "\<forall>i \<in> set (pc_Items ?c). 0 \<le> sint (pi_Quantity i)" by simp
  note correct = BasePriceStep_correct [OF cache this]
  have "\<exists>j. pc_Items (?c\<lparr>pc_Items := [?i\<lparr>pi_UnitPrice := in_cur ''EUR'' 300, pi_Total := in_cur ''EUR'' 900\<rparr>]\<rparr>) = [j] \<and>
      cents (pi_Total j) = cents (pi_UnitPrice j) * 3"
    using correct [THEN conjunct2, THEN conjunct2, THEN conjunct1, rule_format, OF run] by simp
  then show ?thesis using run by (simp add: Let_def)
qed

end
