(* ===== verification/StepPositions.thy ===== *)
theory StepPositions
  imports Shop_Prelude
begin

text \<open>
  Where plugin steps go: \<open>internal/application/pricing/position.go\<close> and
  \<open>internal/application/checkout/position.go\<close>. Both parse a position such as
  \<open>before:tax\<close> and merge the registered plugin steps into a list of core steps; they differ
  in the modes they know, in their defaults and in what they do with a step whose anchor is not
  in the list. A step is a value of a type variable with a name function \<open>nm\<close>; a Go map that
  is iterated over is an association list in the order of the iteration.
\<close>

section \<open>Positions\<close>

datatype step_mode = StepPositionAfter | StepPositionBefore | StepPositionReplace

record 's step_registration =
  psr_Step :: "'s option"
  psr_Position :: string

text \<open>\<open>strings.SplitN(s, ":", 2)\<close>: nothing when there is no separator.\<close>

fun split_colon :: "string \<Rightarrow> (string \<times> string) option" where
  "split_colon [] = None"
| "split_colon (c # s) = (if c = CHR '':'' then Some ([], s)
     else map_option (\<lambda>(a, b). (c # a, b)) (split_colon s))"

definition resolve_anchor :: "string \<Rightarrow> (string \<times> string) list \<Rightarrow> string list \<Rightarrow> string \<Rightarrow> string outcome" where
  "resolve_anchor kind aliases catalog anchor0 =
     (let anchor1 = trim_space anchor0 in
      if anchor1 = [] then Fail (Err (kind @ '' anchor must not be empty''))
      else
        let anchor = (case map_of aliases anchor1 of Some mapped \<Rightarrow> mapped | None \<Rightarrow> anchor1) in
        if anchor \<in> set catalog then Ok anchor
        else Fail (ErrWith (kind @ '' anchor: unknown core step '') (anchor # catalog)))"

text \<open>The part after the shortcuts; \<open>modes\<close> are the modes the pipeline knows.\<close>

definition parse_anchored ::
    "string \<Rightarrow> (string \<times> step_mode) list \<Rightarrow> (string \<Rightarrow> string outcome) \<Rightarrow> string \<Rightarrow> (step_mode \<times> string) outcome" where
  "parse_anchored kind modes resolve position =
     (case split_colon position of
        None \<Rightarrow> Fail (ErrWith (kind @ '' position: no anchor'') [position])
      | Some (m, a) \<Rightarrow>
          (let anchor = trim_space a in
           case map_of modes (trim_space m) of
             None \<Rightarrow> Fail (ErrWith (kind @ '' position: unknown mode'') [position])
           | Some mode \<Rightarrow>
               if anchor = [] then Fail (ErrWith (kind @ '' position: anchor must not be empty'') [position])
               else bindO (resolve anchor) (\<lambda>resolved. Ok (mode, resolved))))"

definition pricing_CoreStepCatalog :: "string list" where
  "pricing_CoreStepCatalog = [''base'', ''catalog_promotions'', ''cart_promotions'', ''tax'', ''finalize'']"

definition pricing_anchorAliases :: "(string \<times> string) list" where
  "pricing_anchorAliases = [(''base_price'', ''base''), (''discounts'', ''catalog_promotions''),
     (''promotions'', ''cart_promotions''), (''taxes'', ''tax''), (''finalization'', ''finalize'')]"

definition pricing_ResolveAnchor :: "string \<Rightarrow> string outcome" where
  "pricing_ResolveAnchor = resolve_anchor ''pricing'' pricing_anchorAliases pricing_CoreStepCatalog"

definition pricing_ParseStepPosition :: "string \<Rightarrow> (step_mode \<times> string) outcome" where
  "pricing_ParseStepPosition position0 =
     (let trimmed = trim_space position0;
          position = (if trimmed = [] then ''after:base'' else trimmed) in
      parse_anchored ''pricing''
        [(''after'', StepPositionAfter), (''before'', StepPositionBefore), (''replace'', StepPositionReplace)]
        pricing_ResolveAnchor position)"

definition checkout_CoreStepCatalog :: "string list" where
  "checkout_CoreStepCatalog = [''validate_cart'', ''recalculate_pricing'', ''reserve_inventory'', ''create_order'',
     ''select_shipping'', ''initiate_payment'']"

definition checkout_anchorAliases :: "(string \<times> string) list" where
  "checkout_anchorAliases = [(''validate'', ''validate_cart''), (''pricing'', ''recalculate_pricing''),
     (''inventory'', ''reserve_inventory''), (''order'', ''create_order''), (''shipping'', ''select_shipping''),
     (''payment'', ''initiate_payment'')]"

definition checkout_ResolveAnchor :: "string \<Rightarrow> string outcome" where
  "checkout_ResolveAnchor = resolve_anchor ''checkout'' checkout_anchorAliases checkout_CoreStepCatalog"

definition checkout_ParseStepPosition :: "string \<Rightarrow> (step_mode \<times> string) outcome" where
  "checkout_ParseStepPosition position0 =
     (let trimmed = trim_space position0;
          position = (if trimmed = [] then ''end'' else trimmed) in
      if position = ''start'' then Ok (StepPositionBefore, hd checkout_CoreStepCatalog)
      else if position = ''end'' then Ok (StepPositionAfter, last checkout_CoreStepCatalog)
      else parse_anchored ''checkout'' [(''after'', StepPositionAfter), (''before'', StepPositionBefore)]
        checkout_ResolveAnchor position)"

section \<open>Merging\<close>

text \<open>\<open>batches[k] = append(batches[k], step)\<close>, with the keys in the order they were first used.\<close>

fun add_batch :: "'k \<Rightarrow> 's \<Rightarrow> ('k \<times> 's list) list \<Rightarrow> ('k \<times> 's list) list" where
  "add_batch k s [] = [(k, [s])]"
| "add_batch k s ((k', ss) # bs) = (if k = k' then (k', ss @ [s]) # bs else (k', ss) # add_batch k s bs)"

text \<open>The first loop of the pricing merge: replacements by anchor, and the other registrations.\<close>

fun pricing_collect ::
    "('s \<Rightarrow> string) \<Rightarrow> 's step_registration list \<Rightarrow> (string \<times> 's) list \<Rightarrow> 's step_registration list \<Rightarrow>
     ((string \<times> 's) list \<times> 's step_registration list) outcome" where
  "pricing_collect nm [] reps ins = Ok (reps, ins)"
| "pricing_collect nm (r # rs) reps ins =
     (case psr_Step r of
        None \<Rightarrow> Fail (Err ''pricing plugin step must not be nil'')
      | Some s \<Rightarrow>
          bindO (mapErr (Wrap (''pricing plugin step '' @ nm s)) (pricing_ParseStepPosition (psr_Position r)))
            (\<lambda>(mode, anchor).
            if mode = StepPositionReplace then
              (if map_of reps anchor \<noteq> None then Fail (ErrWith ''pricing replace: duplicate replacement'' [anchor])
               else pricing_collect nm rs (reps @ [(anchor, s)]) ins)
            else pricing_collect nm rs reps (ins @ [r])))"

text \<open>The core steps with their slot names, some replaced, and the replacements left over.\<close>

fun replace_core ::
    "('s \<Rightarrow> string) \<Rightarrow> (string \<times> 's) list \<Rightarrow> 's list \<Rightarrow> (string \<times> 's) list \<times> (string \<times> 's) list" where
  "replace_core nm reps [] = ([], reps)"
| "replace_core nm reps (c # cs) =
     (case map_of reps (nm c) of
        Some s \<Rightarrow> (case replace_core nm (filter (\<lambda>(a, _). a \<noteq> nm c) reps) cs of (p, left) \<Rightarrow> ((nm c, s) # p, left))
      | None \<Rightarrow> (case replace_core nm reps cs of (p, left) \<Rightarrow> ((nm c, c) # p, left)))"

fun pricing_batches ::
    "('s \<Rightarrow> string) \<Rightarrow> 's step_registration list \<Rightarrow> ((string \<times> bool) \<times> 's list) list \<Rightarrow>
     ((string \<times> bool) \<times> 's list) list outcome" where
  "pricing_batches nm [] bs = Ok bs"
| "pricing_batches nm (r # rs) bs =
     (case psr_Step r of
        None \<Rightarrow> Panics ''nil pointer dereference''
      | Some s \<Rightarrow>
          bindO (mapErr (Wrap (''pricing plugin step '' @ nm s)) (pricing_ParseStepPosition (psr_Position r)))
            (\<lambda>(mode, anchor). pricing_batches nm rs (add_batch (anchor, mode = StepPositionAfter) s bs)))"

text \<open>The inner loops over \<open>batchOrder\<close>.\<close>

fun emit_batches :: "bool \<Rightarrow> string \<Rightarrow> ((string \<times> bool) \<times> 's list) list \<Rightarrow> 's list" where
  "emit_batches aft anchor [] = []"
| "emit_batches aft anchor (((a, b), ss) # bs) =
     (if b \<noteq> aft \<or> a \<noteq> anchor then emit_batches aft anchor bs else ss @ emit_batches aft anchor bs)"

definition pricing_MergePluginSteps ::
    "('s \<Rightarrow> string) \<Rightarrow> 's list \<Rightarrow> 's step_registration list \<Rightarrow> 's list outcome" where
  "pricing_MergePluginSteps nm core plugins =
     (if plugins = [] then Ok core
      else bindO (pricing_collect nm plugins [] []) (\<lambda>(reps, ins).
        case replace_core nm reps core of (pipeline, left) \<Rightarrow>
          (case left of
             (anchor, _) # _ \<Rightarrow> Fail (ErrWith ''pricing replace: no core step with that name'' [anchor])
           | [] \<Rightarrow>
               if ins = [] then Ok (map snd pipeline)
               else bindO (pricing_batches nm ins []) (\<lambda>bs.
                 Ok (concat (map (\<lambda>(anchor, s). emit_batches False anchor bs @ s # emit_batches True anchor bs)
                       pipeline))))))"

fun checkout_batches ::
    "('s \<Rightarrow> string) \<Rightarrow> 's step_registration list \<Rightarrow> ((string \<times> bool) \<times> 's list) list \<Rightarrow>
     ((string \<times> bool) \<times> 's list) list outcome" where
  "checkout_batches nm [] bs = Ok bs"
| "checkout_batches nm (r # rs) bs =
     (case psr_Step r of
        None \<Rightarrow> Fail (Err ''checkout plugin step must not be nil'')
      | Some s \<Rightarrow>
          bindO (mapErr (Wrap (''checkout plugin step '' @ nm s)) (checkout_ParseStepPosition (psr_Position r)))
            (\<lambda>(mode, anchor). checkout_batches nm rs (add_batch (anchor, mode = StepPositionAfter) s bs)))"

definition batch_at :: "((string \<times> bool) \<times> 's list) list \<Rightarrow> string \<times> bool \<Rightarrow> 's list" where
  "batch_at bs k = (case map_of bs k of None \<Rightarrow> [] | Some ss \<Rightarrow> ss)"

text \<open>The output loop with its counter of emitted plugin steps.\<close>

fun checkout_emit ::
    "('s \<Rightarrow> string) \<Rightarrow> ((string \<times> bool) \<times> 's list) list \<Rightarrow> 's list \<Rightarrow> 's list \<times> nat" where
  "checkout_emit nm bs [] = ([], 0)"
| "checkout_emit nm bs (c # cs) =
     (case checkout_emit nm bs cs of (out, emitted) \<Rightarrow>
       (batch_at bs (nm c, False) @ c # batch_at bs (nm c, True) @ out,
        length (batch_at bs (nm c, False)) + length (batch_at bs (nm c, True)) + emitted))"

definition checkout_MergePluginSteps ::
    "('s \<Rightarrow> string) \<Rightarrow> 's list \<Rightarrow> 's step_registration list \<Rightarrow> 's list outcome" where
  "checkout_MergePluginSteps nm core plugins =
     (if plugins = [] then Ok core
      else bindO (checkout_batches nm plugins []) (\<lambda>bs.
        case checkout_emit nm bs core of (out, emitted) \<Rightarrow>
          if emitted < length plugins
          then Fail (Err ''checkout plugin steps: registration(s) target missing core step(s)'')
          else Ok out))"

section \<open>Lemmas\<close>

definition well_placed :: "(string \<Rightarrow> (step_mode \<times> string) outcome) \<Rightarrow> 's step_registration \<Rightarrow> bool" where
  "well_placed parse r \<longleftrightarrow> psr_Step r \<noteq> None \<and> isOk (parse (psr_Position r))"

text \<open>The steps registered for a place, in the order of registration.\<close>

definition steps_at ::
    "(string \<Rightarrow> (step_mode \<times> string) outcome) \<Rightarrow> 's step_registration list \<Rightarrow> step_mode \<Rightarrow> string \<Rightarrow> 's list" where
  "steps_at parse rs mode anchor =
     List.map_filter (\<lambda>r. if parse (psr_Position r) = Ok (mode, anchor) then psr_Step r else None) rs"

lemma steps_at_simps [simp]:
  "steps_at parse [] mode anchor = []"
  "steps_at parse (r # rs) mode anchor =
     (if parse (psr_Position r) = Ok (mode, anchor) then (case psr_Step r of None \<Rightarrow> [] | Some s \<Rightarrow> [s]) else []) @
     steps_at parse rs mode anchor"
  by (simp_all add: steps_at_def List.map_filter_def split: option.splits)

lemma steps_at_append [simp]:
  "steps_at parse (rs @ qs) mode anchor = steps_at parse rs mode anchor @ steps_at parse qs mode anchor"
  by (induction rs) auto

lemma batch_at_add: "batch_at (add_batch k s bs) k' = (if k' = k then batch_at bs k' @ [s] else batch_at bs k')"
  by (induction k s bs rule: add_batch.induct) (auto simp: batch_at_def)

lemma add_batch_keys: "fst ` set (add_batch k s bs) = insert k (fst ` set bs)"
  by (induction k s bs rule: add_batch.induct) auto

lemma add_batch_distinct: "distinct (map fst bs) \<Longrightarrow> distinct (map fst (add_batch k s bs))"
proof (induction k s bs rule: add_batch.induct)
  case (2 k s k' ss bs)
  then show ?case using add_batch_keys [of k s bs] by (cases "k = k'") auto
qed simp

lemma emit_batches_none: "(a, b) \<notin> fst ` set bs \<Longrightarrow> emit_batches b a bs = []"
proof (induction bs)
  case (Cons x bs)
  obtain k ss where "x = (k, ss)" by (cases x)
  moreover obtain a' b' where "k = (a', b')" by (cases k)
  ultimately have "x = ((a', b'), ss)" by simp
  then show ?case using Cons by (cases b; cases b') auto
qed simp

lemma emit_batches_at: "distinct (map fst bs) \<Longrightarrow> emit_batches b a bs = batch_at bs (a, b)"
proof (induction bs)
  case (Cons x bs)
  obtain k ss where "x = (k, ss)" by (cases x)
  moreover obtain a' b' where "k = (a', b')" by (cases k)
  ultimately have x: "x = ((a', b'), ss)" by simp
  then have "a' = a \<Longrightarrow> b' = b \<Longrightarrow> emit_batches b a bs = []"
    using Cons.prems by (intro emit_batches_none) simp
  then show ?case using Cons x by (cases b; cases b') (auto simp: batch_at_def)
qed (simp add: batch_at_def)

text \<open>The loop that sorts registrations into batches, common to both merges.\<close>

locale batch_loop =
  fixes parse :: "string \<Rightarrow> (step_mode \<times> string) outcome"
    and loop :: "'s step_registration list \<Rightarrow> ((string \<times> bool) \<times> 's list) list \<Rightarrow>
      ((string \<times> bool) \<times> 's list) list outcome"
  assumes loop_Nil: "loop [] bs = Ok bs"
    and loop_Cons: "loop (r # rs) bs = Ok bs' \<longleftrightarrow> (\<exists>s m a. psr_Step r = Some s \<and> parse (psr_Position r) = Ok (m, a) \<and>
      loop rs (add_batch (a, m = StepPositionAfter) s bs) = Ok bs')"
begin

lemma loop_Ok_iff: "(\<exists>bs'. loop rs bs = Ok bs') \<longleftrightarrow> (\<forall>r \<in> set rs. well_placed parse r)"
proof (induction rs arbitrary: bs)
  case (Cons r rs)
  show ?case
  proof (cases "well_placed parse r")
    case True
    then obtain s m a where "psr_Step r = Some s" "parse (psr_Position r) = Ok (m, a)"
      by (auto simp: well_placed_def isOk_iff)
    then have "(\<exists>bs'. loop (r # rs) bs = Ok bs') \<longleftrightarrow> (\<exists>bs'. loop rs (add_batch (a, m = StepPositionAfter) s bs) = Ok bs')"
      by (simp add: loop_Cons)
    then show ?thesis using True Cons.IH by simp
  next
    case False
    then show ?thesis by (auto simp: loop_Cons well_placed_def isOk_iff)
  qed
qed (simp add: loop_Nil)

lemma loop_distinct: "loop rs bs = Ok bs' \<Longrightarrow> distinct (map fst bs) \<Longrightarrow> distinct (map fst bs')"
  by (induction rs arbitrary: bs) (auto simp: loop_Nil loop_Cons add_batch_distinct)

lemma loop_after: "loop rs bs = Ok bs' \<Longrightarrow> batch_at bs' (a, True) = batch_at bs (a, True) @ steps_at parse rs StepPositionAfter a"
  by (induction rs arbitrary: bs) (auto simp: loop_Nil loop_Cons batch_at_add)

lemma loop_before:
  "loop rs bs = Ok bs' \<Longrightarrow> \<forall>r \<in> set rs. \<forall>x. parse (psr_Position r) \<noteq> Ok (StepPositionReplace, x) \<Longrightarrow>
   batch_at bs' (a, False) = batch_at bs (a, False) @ steps_at parse rs StepPositionBefore a"
proof (induction rs arbitrary: bs)
  case (Cons r rs)
  from Cons.prems(1) obtain s m x where s: "psr_Step r = Some s" "parse (psr_Position r) = Ok (m, x)"
    and rest: "loop rs (add_batch (x, m = StepPositionAfter) s bs) = Ok bs'" by (auto simp: loop_Cons)
  have "m \<noteq> StepPositionReplace" using Cons.prems(2) s by auto
  then show ?case using Cons.IH [OF rest] Cons.prems(2) s by (cases m) (auto simp: batch_at_add)
qed (simp add: loop_Nil)

end

interpretation pricing_loop: batch_loop pricing_ParseStepPosition "pricing_batches nm" for nm
  by unfold_locales (auto split: option.splits)

interpretation checkout_loop: batch_loop checkout_ParseStepPosition "checkout_batches nm" for nm
  by unfold_locales (auto split: option.splits)

lemma checkout_no_replace: "checkout_ParseStepPosition p \<noteq> Ok (StepPositionReplace, a)"
  by (auto simp: checkout_ParseStepPosition_def parse_anchored_def Let_def split: option.splits if_splits)

lemma checkout_emit_eq:
  "checkout_emit nm bs core =
     (concat (map (\<lambda>c. batch_at bs (nm c, False) @ c # batch_at bs (nm c, True)) core),
      \<Sum>c\<leftarrow>core. length (batch_at bs (nm c, False)) + length (batch_at bs (nm c, True)))"
  by (induction core) auto

lemma sum_indicator: "distinct (map nm core) \<Longrightarrow> (\<Sum>c\<leftarrow>core. if nm c = a then 1 else 0 :: nat) = (if a \<in> nm ` set core then 1 else 0)"
  by (induction core) auto

lemma filter_full: "\<not> length (filter P xs) < length xs \<longleftrightarrow> (\<forall>x \<in> set xs. P x)"
proof
  assume "\<not> length (filter P xs) < length xs"
  then show "\<forall>x \<in> set xs. P x" using length_filter_less by metis
qed (simp add: filter_True)

text \<open>How many registrations find their anchor among the core steps.\<close>

lemma placed_count:
  assumes "distinct (map nm core)" "\<forall>r \<in> set rs. well_placed checkout_ParseStepPosition r"
  shows "(\<Sum>c\<leftarrow>core. length (steps_at checkout_ParseStepPosition rs StepPositionBefore (nm c)) +
                   length (steps_at checkout_ParseStepPosition rs StepPositionAfter (nm c))) =
    length (filter (\<lambda>r. \<exists>m a. checkout_ParseStepPosition (psr_Position r) = Ok (m, a) \<and> a \<in> nm ` set core) rs)"
  using assms(2)
proof (induction rs)
  case (Cons r rs)
  then obtain s m a where s: "psr_Step r = Some s" and p: "checkout_ParseStepPosition (psr_Position r) = Ok (m, a)"
    by (auto simp: well_placed_def isOk_iff)
  have m: "m = StepPositionAfter \<or> m = StepPositionBefore"
    using p checkout_no_replace by (cases m) auto
  have "(\<Sum>c\<leftarrow>core. length (steps_at checkout_ParseStepPosition (r # rs) StepPositionBefore (nm c)) +
                   length (steps_at checkout_ParseStepPosition (r # rs) StepPositionAfter (nm c))) =
      (\<Sum>c\<leftarrow>core. (if nm c = a then 1 else 0) + (length (steps_at checkout_ParseStepPosition rs StepPositionBefore (nm c)) +
                   length (steps_at checkout_ParseStepPosition rs StepPositionAfter (nm c))))"
    using m s p by (intro arg_cong [where f = sum_list] map_cong) auto
  also have "\<dots> = (if a \<in> nm ` set core then 1 else 0) +
      length (filter (\<lambda>r. \<exists>m a. checkout_ParseStepPosition (psr_Position r) = Ok (m, a) \<and> a \<in> nm ` set core) rs)"
    using Cons by (simp add: sum_list_addf sum_indicator [OF assms(1)])
  finally show ?case using p by simp
qed simp

text \<open>The replacements among the registrations, by anchor.\<close>

definition replacements :: "'s step_registration list \<Rightarrow> (string \<times> 's) list" where
  "replacements rs = List.map_filter (\<lambda>r. case pricing_ParseStepPosition (psr_Position r) of
     Ok (StepPositionReplace, a) \<Rightarrow> map_option (Pair a) (psr_Step r) | _ \<Rightarrow> None) rs"

definition is_insert :: "'s step_registration \<Rightarrow> bool" where
  "is_insert r \<longleftrightarrow> (\<forall>a. pricing_ParseStepPosition (psr_Position r) \<noteq> Ok (StepPositionReplace, a))"

lemma replacements_Cons:
  "replacements (r # rs) = (case pricing_ParseStepPosition (psr_Position r) of
     Ok (StepPositionReplace, a) \<Rightarrow> (case psr_Step r of None \<Rightarrow> [] | Some s \<Rightarrow> [(a, s)]) | _ \<Rightarrow> []) @ replacements rs"
  by (auto simp: replacements_def List.map_filter_def split: outcome.splits step_mode.splits option.splits)

lemma pricing_collect_Ok:
  "distinct (map fst reps) \<Longrightarrow> pricing_collect nm rs reps ins = Ok (R, I) \<longleftrightarrow>
     (\<forall>r \<in> set rs. well_placed pricing_ParseStepPosition r) \<and> distinct (map fst (reps @ replacements rs)) \<and>
     R = reps @ replacements rs \<and> I = ins @ filter is_insert rs"
proof (induction rs arbitrary: reps ins)
  case Nil
  then show ?case by (auto simp: replacements_def List.map_filter_def)
next
  case (Cons r rs)
  show ?case
  proof (cases "well_placed pricing_ParseStepPosition r")
    case True
    then obtain s m a where s: "psr_Step r = Some s" and p: "pricing_ParseStepPosition (psr_Position r) = Ok (m, a)"
      by (auto simp: well_placed_def isOk_iff)
    show ?thesis
    proof (cases "m = StepPositionReplace")
      case rep: True
      have R: "replacements (r # rs) = (a, s) # replacements rs" and ni: "\<not> is_insert r"
        using s p rep by (simp_all add: replacements_Cons is_insert_def)
      show ?thesis
      proof (cases "map_of reps a")
        case None
        then have "a \<notin> fst ` set reps" by (simp add: map_of_eq_None_iff)
        then have "distinct (map fst (reps @ [(a, s)]))" using Cons.prems by simp
        from Cons.IH [OF this, of ins] show ?thesis using s p rep R ni None True by simp
      next
        case (Some t)
        then have "a \<in> fst ` set reps" by (metis domI dom_map_of_conv_image_fst)
        then show ?thesis using s p rep R Some by auto
      qed
    next
      case ins: False
      have R: "replacements (r # rs) = replacements rs" and i: "is_insert r"
        using s p ins by (cases m; simp add: replacements_Cons is_insert_def)+
      show ?thesis using Cons.IH [OF Cons.prems, of "ins @ [r]"] s p ins R i True by simp
    qed
  next
    case False
    then show ?thesis by (auto simp: well_placed_def isOk_iff split: option.splits)
  qed
qed

lemma steps_at_replace: "steps_at pricing_ParseStepPosition rs StepPositionReplace a = map snd (filter (\<lambda>(k, _). k = a) (replacements rs))"
proof (induction rs)
  case Nil
  then show ?case by (simp add: replacements_def List.map_filter_def)
next
  case (Cons r rs)
  then show ?case
    by (auto simp: replacements_Cons split: outcome.splits step_mode.splits option.splits)
qed

lemma keyed_unique: "distinct (map fst kvs) \<longleftrightarrow> (\<forall>a. length (map snd (filter (\<lambda>(k, _). k = a) kvs)) \<le> 1)"
proof (induction kvs)
  case (Cons kv kvs)
  obtain k v where kv: "kv = (k, v)" by (cases kv)
  have "k \<in> fst ` set kvs \<longleftrightarrow> filter (\<lambda>(k', _). k' = k) kvs \<noteq> []" by (force simp: filter_empty_conv)
  then have none: "k \<notin> fst ` set kvs \<longleftrightarrow> length (filter (\<lambda>(k', _). k' = k) kvs) = 0" by auto
  show ?case
  proof
    assume "distinct (map fst (kv # kvs))"
    then have k: "k \<notin> fst ` set kvs" and le: "\<forall>a. length (map snd (filter (\<lambda>(k', _). k' = a) kvs)) \<le> 1"
      using kv Cons.IH by auto
    show "\<forall>a. length (map snd (filter (\<lambda>(k', _). k' = a) (kv # kvs))) \<le> 1"
    proof
      fix a
      show "length (map snd (filter (\<lambda>(k', _). k' = a) (kv # kvs))) \<le> 1"
        using kv none k le by (cases "a = k") simp_all
    qed
  next
    assume all: "\<forall>a. length (map snd (filter (\<lambda>(k', _). k' = a) (kv # kvs))) \<le> 1"
    have "length (map snd (filter (\<lambda>(k', _). k' = a) kvs)) \<le> 1" for a
      using all [rule_format, of a] kv by (cases "k = a") simp_all
    moreover have "length (filter (\<lambda>(k', _). k' = k) kvs) = 0" using all [rule_format, of k] kv by simp
    ultimately show "distinct (map fst (kv # kvs))" using kv none Cons.IH by simp
  qed
qed simp

lemma replace_core_eq:
  "distinct (map nm core) \<Longrightarrow> replace_core nm reps core =
     (map (\<lambda>c. (nm c, case map_of reps (nm c) of None \<Rightarrow> c | Some s \<Rightarrow> s)) core,
      filter (\<lambda>(a, _). a \<notin> nm ` set core) reps)"
proof (induction core arbitrary: reps)
  case (Cons c core)
  have keep: "map_of (filter (\<lambda>(a, _). a \<noteq> nm c) reps) (nm d) = map_of reps (nm d)" if "d \<in> set core" for d
  proof -
    have "nm c \<notin> nm ` set core" using Cons.prems by simp
    then have "nm d \<noteq> nm c" using that by (metis image_eqI)
    then show ?thesis by (induction reps) auto
  qed
  have left: "filter (\<lambda>(a, _). a \<notin> nm ` set core) (filter (\<lambda>(a, _). a \<noteq> nm c) reps) =
      filter (\<lambda>(a, _). a \<notin> nm ` set (c # core)) reps"
    by (induction reps) auto
  show ?case
  proof (cases "map_of reps (nm c)")
    case None
    then have "nm c \<notin> fst ` set reps" by (simp add: map_of_eq_None_iff)
    then have "filter (\<lambda>(a, _). a \<noteq> nm c) reps = reps" by (force intro: filter_True)
    then show ?thesis using None Cons left by simp
  next
    case (Some s)
    then show ?thesis using Cons keep left by (simp cong: map_cong)
  qed
qed simp

lemma map_of_filtered: "map_of kvs a = (case map snd (filter (\<lambda>(k, _). k = a) kvs) of [] \<Rightarrow> None | s # _ \<Rightarrow> Some s)"
  by (induction kvs) auto

lemma pricing_merge_iff:
  assumes "distinct (map nm core)"
  shows "pricing_MergePluginSteps nm core plugins = Ok out \<longleftrightarrow>
    (\<forall>r \<in> set plugins. well_placed pricing_ParseStepPosition r) \<and>
    (\<forall>a. length (steps_at pricing_ParseStepPosition plugins StepPositionReplace a) \<le> 1 \<and>
         (steps_at pricing_ParseStepPosition plugins StepPositionReplace a \<noteq> [] \<longrightarrow> a \<in> nm ` set core)) \<and>
    out = concat (map (\<lambda>c. steps_at pricing_ParseStepPosition plugins StepPositionBefore (nm c) @
       (case steps_at pricing_ParseStepPosition plugins StepPositionReplace (nm c) of [] \<Rightarrow> c | s # _ \<Rightarrow> s) #
       steps_at pricing_ParseStepPosition plugins StepPositionAfter (nm c)) core)"
proof (cases "plugins = []")
  case True
  then show ?thesis by (auto simp: pricing_MergePluginSteps_def)
next
  case False
  let ?P = pricing_ParseStepPosition
  let ?R = "replacements plugins" and ?I = "filter is_insert plugins"
  let ?wp = "\<forall>r \<in> set plugins. well_placed ?P r"
  let ?slot = "\<lambda>c. case steps_at ?P plugins StepPositionReplace (nm c) of [] \<Rightarrow> c | s # _ \<Rightarrow> s"
  have uniq: "distinct (map fst ?R) \<longleftrightarrow> (\<forall>a. length (steps_at ?P plugins StepPositionReplace a) \<le> 1)"
    by (simp only: keyed_unique steps_at_replace)
  have slot: "(case map_of ?R (nm c) of None \<Rightarrow> c | Some s \<Rightarrow> s) = ?slot c" for c
    by (simp add: steps_at_replace map_of_filtered split: list.splits)
  have left: "filter (\<lambda>(a, _). a \<notin> nm ` set core) ?R = [] \<longleftrightarrow>
      (\<forall>a. steps_at ?P plugins StepPositionReplace a \<noteq> [] \<longrightarrow> a \<in> nm ` set core)"
    by (auto simp: steps_at_replace filter_empty_conv)
  have ins: "steps_at ?P ?I m a = (if m = StepPositionReplace then [] else steps_at ?P plugins m a)" for m a
    by (induction plugins) (auto simp: is_insert_def)
  have collect: "pricing_collect nm plugins [] [] = Ok (R, I) \<longleftrightarrow>
      ?wp \<and> distinct (map fst ?R) \<and> R = ?R \<and> I = ?I" for R I
    using pricing_collect_Ok [of "[]" nm plugins "[]" R I] by simp
  show ?thesis
  proof (cases "?wp \<and> distinct (map fst ?R) \<and> filter (\<lambda>(a, _). a \<notin> nm ` set core) ?R = []")
    case good: True
    then have c: "pricing_collect nm plugins [] [] = Ok (?R, ?I)" using collect by simp
    have "\<forall>r \<in> set ?I. well_placed ?P r" using good by simp
    then obtain bs where bs: "pricing_batches nm ?I [] = Ok bs"
      using pricing_loop.loop_Ok_iff [of nm ?I "[]"] by blast
    have dist: "distinct (map fst bs)" using pricing_loop.loop_distinct [OF bs] by simp
    have "\<forall>r \<in> set ?I. \<forall>x. ?P (psr_Position r) \<noteq> Ok (StepPositionReplace, x)" by (simp add: is_insert_def)
    then have emit: "emit_batches True a bs = steps_at ?P plugins StepPositionAfter a"
      "emit_batches False a bs = steps_at ?P plugins StepPositionBefore a" for a
      using emit_batches_at [OF dist] pricing_loop.loop_after [OF bs] pricing_loop.loop_before [OF bs]
      by (simp_all add: ins batch_at_def)
    have none: "?I = [] \<Longrightarrow> m \<noteq> StepPositionReplace \<Longrightarrow> steps_at ?P plugins m a = []" for m a
      using ins [of m a] by simp
    have "pricing_MergePluginSteps nm core plugins = Ok (concat (map (\<lambda>c.
        steps_at ?P plugins StepPositionBefore (nm c) @ ?slot c # steps_at ?P plugins StepPositionAfter (nm c)) core))"
      using False c good bs none
      by (cases "?I = []") (simp_all add: pricing_MergePluginSteps_def replace_core_eq [OF assms] slot emit o_def)
    then show ?thesis using good uniq left by auto
  next
    case bad: False
    have "pricing_MergePluginSteps nm core plugins \<noteq> Ok out"
      using False bad collect
      by (auto simp: pricing_MergePluginSteps_def replace_core_eq [OF assms] split: list.splits)
    then show ?thesis using bad uniq left by auto
  qed
qed

section \<open>Properties\<close>

text \<open>Merging plugin steps into the checkout workflow succeeds exactly when every registration
  has a step, a position that parses and an anchor among the core steps; the result is then the
  core steps in their order, each between the plugins registered before it and those registered
  after it, in the order of registration, so no plugin step is lost.\<close>

lemma checkout_merge_complete:
  assumes "distinct (map nm core)"
  shows "checkout_MergePluginSteps nm core plugins = Ok out \<longleftrightarrow>
    (\<forall>r \<in> set plugins. psr_Step r \<noteq> None \<and>
       (\<exists>m a. checkout_ParseStepPosition (psr_Position r) = Ok (m, a) \<and> a \<in> nm ` set core)) \<and>
    out = concat (map (\<lambda>c. steps_at checkout_ParseStepPosition plugins StepPositionBefore (nm c) @ c #
       steps_at checkout_ParseStepPosition plugins StepPositionAfter (nm c)) core)"
proof (cases "plugins = []")
  case True
  then show ?thesis by (auto simp: checkout_MergePluginSteps_def)
next
  case False
  let ?place = "\<lambda>r. \<exists>m a. checkout_ParseStepPosition (psr_Position r) = Ok (m, a) \<and> a \<in> nm ` set core"
  show ?thesis
  proof (cases "\<forall>r \<in> set plugins. well_placed checkout_ParseStepPosition r")
    case wp: True
    then obtain bs where bs: "checkout_batches nm plugins [] = Ok bs"
      using checkout_loop.loop_Ok_iff [of nm plugins "[]"] by blast
    have at1: "batch_at bs (a, True) = steps_at checkout_ParseStepPosition plugins StepPositionAfter a" for a
      using checkout_loop.loop_after [OF bs, of a] by (simp add: batch_at_def)
    have at2: "batch_at bs (a, False) = steps_at checkout_ParseStepPosition plugins StepPositionBefore a" for a
      using checkout_loop.loop_before [OF bs, of a] checkout_no_replace by (simp add: batch_at_def)
    have full: "\<not> length (filter ?place plugins) < length plugins \<longleftrightarrow> (\<forall>r \<in> set plugins. ?place r)"
      by (rule filter_full)
    have run: "checkout_MergePluginSteps nm core plugins =
        (if length (filter ?place plugins) < length plugins
         then Fail (Err ''checkout plugin steps: registration(s) target missing core step(s)'')
         else Ok (concat (map (\<lambda>c. steps_at checkout_ParseStepPosition plugins StepPositionBefore (nm c) @ c #
           steps_at checkout_ParseStepPosition plugins StepPositionAfter (nm c)) core)))"
      using False bs by (simp add: checkout_MergePluginSteps_def checkout_emit_eq at1 at2 placed_count [OF assms wp])
    have steps: "\<forall>r \<in> set plugins. psr_Step r \<noteq> None" using wp by (simp add: well_placed_def)
    show ?thesis
    proof (cases "\<forall>r \<in> set plugins. ?place r")
      case True
      then have "\<not> length (filter ?place plugins) < length plugins" using full by blast
      then have "checkout_MergePluginSteps nm core plugins =
          Ok (concat (map (\<lambda>c. steps_at checkout_ParseStepPosition plugins StepPositionBefore (nm c) @ c #
            steps_at checkout_ParseStepPosition plugins StepPositionAfter (nm c)) core))"
        using run by (simp only: if_False)
      then show ?thesis using True steps by auto
    next
      case nfull: False
      then have "length (filter ?place plugins) < length plugins" using full by blast
      then have "checkout_MergePluginSteps nm core plugins \<noteq> Ok out" using run by (simp only: if_True) simp
      then show ?thesis using nfull by blast
    qed
  next
    case nwp: False
    then have "\<not> (\<exists>bs. checkout_batches nm plugins [] = Ok bs)"
      using checkout_loop.loop_Ok_iff [of nm plugins "[]"] by blast
    then show ?thesis
      using False nwp by (auto simp: checkout_MergePluginSteps_def well_placed_def isOk_iff)
  qed
qed

lemma checkout_merge_complete_witness:
  "checkout_MergePluginSteps id [''validate_cart'', ''create_order'']
     [\<lparr>psr_Step = Some ''audit'', psr_Position = ''before:create_order''\<rparr>,
      \<lparr>psr_Step = Some ''gift'', psr_Position = ''start''\<rparr>] =
   Ok [''gift'', ''validate_cart'', ''audit'', ''create_order'']"
proof -
  have tl: "trim_space ''start'' = ''start''" "trim_space ''before:create_order'' = ''before:create_order''"
    "trim_space ''before'' = ''before''" "trim_space ''create_order'' = ''create_order''"
    by (simp_all add: trim_space_def trim_left_def trim_right_def trim_codes.simps space_codes_def)
  have p: "checkout_ParseStepPosition ''start'' = Ok (StepPositionBefore, ''validate_cart'')"
    "checkout_ParseStepPosition ''before:create_order'' = Ok (StepPositionBefore, ''create_order'')"
    using tl by (simp_all add: checkout_ParseStepPosition_def Let_def checkout_CoreStepCatalog_def parse_anchored_def
        checkout_ResolveAnchor_def resolve_anchor_def checkout_anchorAliases_def)
  have "distinct (map id [''validate_cart'', ''create_order''])" by simp
  from checkout_merge_complete [OF this] show ?thesis using p by simp
qed

text \<open>C34: merging plugin steps into the pricing pipeline succeeds exactly when every registration has
  a step and a position that parses, no core step is replaced twice and only core steps are
  replaced; the result is then the core steps in their order, replaced where a replacement is
  registered, each between the plugins registered before it and those registered after it.
  A before or after plugin whose anchor is not in the list is dropped without an error.\<close>

theorem pricing_merge_correct:
  assumes "distinct (map nm core)"
  shows "pricing_MergePluginSteps nm core plugins = Ok out \<longleftrightarrow>
    (\<forall>r \<in> set plugins. well_placed pricing_ParseStepPosition r) \<and>
    (\<forall>a. length (steps_at pricing_ParseStepPosition plugins StepPositionReplace a) \<le> 1 \<and>
         (steps_at pricing_ParseStepPosition plugins StepPositionReplace a \<noteq> [] \<longrightarrow> a \<in> nm ` set core)) \<and>
    out = concat (map (\<lambda>c. steps_at pricing_ParseStepPosition plugins StepPositionBefore (nm c) @
       (case steps_at pricing_ParseStepPosition plugins StepPositionReplace (nm c) of [] \<Rightarrow> c | s # _ \<Rightarrow> s) #
       steps_at pricing_ParseStepPosition plugins StepPositionAfter (nm c)) core)"
  using assms by (rule pricing_merge_iff)

theorem pricing_merge_correct_witness:
  "pricing_MergePluginSteps id [''base'', ''tax'']
     [\<lparr>psr_Step = Some ''vat'', psr_Position = ''replace:tax''\<rparr>, \<lparr>psr_Step = Some ''gift'', psr_Position = []\<rparr>] =
   Ok [''base'', ''gift'', ''vat'']"
proof -
  have tl: "trim_space ''replace:tax'' = ''replace:tax''" "trim_space ''replace'' = ''replace''"
    "trim_space ''tax'' = ''tax''" "trim_space ''base'' = ''base''" "trim_space ''after'' = ''after''"
    by (simp_all add: trim_space_def trim_left_def trim_right_def trim_codes.simps space_codes_def)
  have p: "pricing_ParseStepPosition ''replace:tax'' = Ok (StepPositionReplace, ''tax'')"
    "pricing_ParseStepPosition [] = Ok (StepPositionAfter, ''base'')"
    using tl by (simp_all add: pricing_ParseStepPosition_def Let_def pricing_CoreStepCatalog_def parse_anchored_def
        pricing_ResolveAnchor_def resolve_anchor_def pricing_anchorAliases_def)
  have "distinct (map id [''base'', ''tax''])" by simp
  from pricing_merge_correct [OF this] show ?thesis using p by (simp add: well_placed_def)
qed

text \<open>The pricing merge loses a plugin whose core step is not in the list.\<close>

lemma pricing_merge_drops_plugin:
  "pricing_MergePluginSteps id [''base''] [\<lparr>psr_Step = Some ''vat'', psr_Position = ''before:tax''\<rparr>] = Ok [''base'']"
proof -
  have "trim_space ''before:tax'' = ''before:tax''" "trim_space ''before'' = ''before''" "trim_space ''tax'' = ''tax''"
    by (simp_all add: trim_space_def trim_left_def trim_right_def trim_codes.simps space_codes_def)
  then show ?thesis
    by (simp add: pricing_MergePluginSteps_def pricing_ParseStepPosition_def Let_def pricing_CoreStepCatalog_def
        parse_anchored_def pricing_ResolveAnchor_def resolve_anchor_def pricing_anchorAliases_def)
qed

end
