(* ===== verification/Database.thy ===== *)
theory Database
  imports Shop_Prelude
begin

text \<open>
  What the Postgres adapters (\<open>internal/infrastructure/postgres\<close>) share. A table is a list
  of rows or a partial map from its key; a statement is the operation on the table that its SQL
  text describes. A statement may also fail for reasons of its own (connection, deadline): the
  argument \<open>flt\<close> gives the driver error of the statement with a label, if it has one. The
  locale \<open>db_refinement\<close> is the contract of a table owned by a component: operations keep an
  invariant and are, seen through an abstraction, steps of an abstract machine.
\<close>

type_synonym db_faults = "string \<Rightarrow> gerror option"

text \<open>\<open>context.Canceled\<close>, \<open>context.DeadlineExceeded\<close> and the test for either.\<close>

definition ContextCanceled :: gerror where "ContextCanceled = Err ''context canceled''"
definition DeadlineExceeded :: gerror where "DeadlineExceeded = Err ''context deadline exceeded''"

definition isContextError :: "gerror \<Rightarrow> bool" where
  "isContextError e \<longleftrightarrow> err_is ContextCanceled e \<or> err_is DeadlineExceeded e"

text \<open>The range of an \<open>INT\<close> column; a value outside it is a driver error.\<close>

definition int4 :: "int \<Rightarrow> bool" where "int4 k \<longleftrightarrow> - (2 ^ 31) \<le> k \<and> k < 2 ^ 31"

definition out_of_range :: gerror where "out_of_range = Err ''integer out of range''"

text \<open>\<open>id.IsValid\<close>: a version 4 UUID in either case.\<close>

definition hex_char :: "char \<Rightarrow> bool" where
  "hex_char c \<longleftrightarrow> is_digit_char c \<or> lower_char c \<in> set ''abcdef''"

fun uuid_groups :: "nat list \<Rightarrow> string \<Rightarrow> bool" where
  "uuid_groups [] s \<longleftrightarrow> s = []"
| "uuid_groups [n] s \<longleftrightarrow> length s = n \<and> list_all hex_char s"
| "uuid_groups (n # ns) s \<longleftrightarrow> n < length s \<and> list_all hex_char (take n s) \<and> s ! n = CHR ''-'' \<and>
     uuid_groups ns (drop (Suc n) s)"

definition uuid_valid :: "string \<Rightarrow> bool" where
  "uuid_valid s \<longleftrightarrow> uuid_groups [8, 4, 4, 4, 12] s \<and> s ! 14 = CHR ''4'' \<and> lower_char (s ! 19) \<in> set ''89ab''"

text \<open>The dash of the messages, in UTF-8.\<close>

definition em_dash :: string where "em_dash = [CHR 0xE2, CHR 0x80, CHR 0x94]"

text \<open>\<open>%q\<close>, for a text in which nothing needs an escape.\<close>

definition go_quote :: "string \<Rightarrow> string" where "go_quote s = [CHR 0x22] @ s @ [CHR 0x22]"

text \<open>Run the statement with this label; its error is wrapped with the label.\<close>

definition stmt :: "db_faults \<Rightarrow> string \<Rightarrow> unit outcome" where
  "stmt flt label = (case flt label of None \<Rightarrow> Ok () | Some e \<Rightarrow> Fail (Wrap label e))"

text \<open>
  A transaction with a deferred rollback: the body works on its own copy of the tables, which
  becomes the state when the body returns without an error (it has committed then).
\<close>

fun txn :: "'d \<Rightarrow> ('a \<times> 'd) outcome \<Rightarrow> 'a outcome \<times> 'd" where
  "txn d (Ok (x, d')) = (Ok x, d')"
| "txn d (Fail e) = (Fail e, d)"
| "txn d (Panics p) = (Panics p, d)"

lemma stmt_iff [simp]: "stmt flt l = Ok u \<longleftrightarrow> flt l = None" "stmt flt l \<noteq> Panics p"
  by (auto simp: stmt_def split: option.splits)

lemma txn_split: "P (txn d m) \<longleftrightarrow> (\<forall>x d'. m = Ok (x, d') \<longrightarrow> P (Ok x, d')) \<and>
    (\<forall>e. m = Fail e \<longrightarrow> P (Fail e, d)) \<and> (\<forall>p. m = Panics p \<longrightarrow> P (Panics p, d))"
  by (cases m) auto

text \<open>What holds before and of every committed state holds afterwards.\<close>

lemma txn_keeps: "Q d \<Longrightarrow> (\<And>x d'. m = Ok (x, d') \<Longrightarrow> Q d') \<Longrightarrow> Q (snd (txn d m))"
  by (cases m) auto

lemma txn_Ok: "txn d m = (Ok x, d') \<longleftrightarrow> m = Ok (x, d')"
  by (cases m) auto

lemma txn_Fail: "txn d m = (Fail e, d') \<longleftrightarrow> m = Fail e \<and> d' = d"
  by (cases m) auto

lemma txn_Panics: "txn d m = (Panics p, d') \<longleftrightarrow> m = Panics p \<and> d' = d"
  by (cases m) auto

text \<open>A list of operations, each with its own result, one after the other.\<close>

fun run_db :: "('o \<Rightarrow> 'd \<Rightarrow> 'r \<times> 'd) \<Rightarrow> 'o list \<Rightarrow> 'd \<Rightarrow> 'd" where
  "run_db step [] d = d"
| "run_db step (x # xs) d = run_db step xs (snd (step x d))"

lemma run_db_append: "run_db step (xs @ ys) d = run_db step ys (run_db step xs d)"
  by (induction xs arbitrary: d) auto

locale db_refinement =
  fixes step :: "'o \<Rightarrow> 'd \<Rightarrow> 'r \<times> 'd"
    and good :: "'o \<Rightarrow> bool"
    and inv :: "'d \<Rightarrow> bool"
    and absf :: "'d \<Rightarrow> 'a"
    and astep :: "'a \<Rightarrow> 'a \<Rightarrow> bool"
  assumes step_inv: "good x \<Longrightarrow> inv d \<Longrightarrow> inv (snd (step x d))"
    and step_abs: "good x \<Longrightarrow> inv d \<Longrightarrow> absf (snd (step x d)) = absf d \<or> astep (absf d) (absf (snd (step x d)))"
begin

lemma run_inv: "\<forall>x \<in> set xs. good x \<Longrightarrow> inv d \<Longrightarrow> inv (run_db step xs d)"
  by (induction xs arbitrary: d) (simp_all add: step_inv)

lemma run_abs: "\<forall>x \<in> set xs. good x \<Longrightarrow> inv d \<Longrightarrow> astep\<^sup>*\<^sup>* (absf d) (absf (run_db step xs d))"
proof (induction xs arbitrary: d)
  case (Cons x xs)
  then have "astep\<^sup>*\<^sup>* (absf d) (absf (snd (step x d)))"
    using step_abs [of x d] by auto
  moreover have "astep\<^sup>*\<^sup>* (absf (snd (step x d))) (absf (run_db step xs (snd (step x d))))"
    using Cons step_inv [of x d] by simp
  ultimately show ?case by simp
qed simp

text \<open>What every abstract step keeps holds of every run.\<close>

lemma run_abs_invariant:
  assumes "\<forall>x \<in> set xs. good x" "inv d" "P (absf d)" "\<And>a b. P a \<Longrightarrow> astep a b \<Longrightarrow> P b"
  shows "P (absf (run_db step xs d))"
  using run_abs [OF assms(1,2)] assms(3)
  by (induction rule: rtranclp_induct) (auto intro: assms(4))

end

end
