(* ===== verification/StoreCredit.thy ===== *)
theory StoreCredit
  imports Money Database
begin

text \<open>
  Store credit: the ledger entries (\<open>internal/domain/storecredit\<close>), the repository over the
  tables \<open>store_credit_accounts\<close> and \<open>store_credit_ledger\<close>
  (\<open>internal/infrastructure/postgres/store_credit_repo.go\<close>) and the service
  (\<open>internal/application/storecredit\<close>). The account row is locked from its read to the
  commit, so the transactions on one account run one after the other; \<open>ce_late\<close> is what other
  transactions committed between the idempotency check and that lock.
\<close>

section \<open>Ledger entries\<close>

datatype credit_kind = KindIssue | KindRedeem | KindOther string

definition Kind_IsValid :: "credit_kind \<Rightarrow> bool" where
  "Kind_IsValid k \<longleftrightarrow> k = KindIssue \<or> k = KindRedeem"

fun credit_kind_string :: "credit_kind \<Rightarrow> string" where
  "credit_kind_string KindIssue = ''issue''"
| "credit_kind_string KindRedeem = ''redeem''"
| "credit_kind_string (KindOther s) = s"

definition credit_kind_of_string :: "string \<Rightarrow> credit_kind" where
  "credit_kind_of_string s =
     (if s = ''issue'' then KindIssue else if s = ''redeem'' then KindRedeem else KindOther s)"

record credit_entry =
  cr_ID :: string
  cr_CustomerID :: string
  cr_Currency :: string
  cr_Amount :: money
  cr_Kind :: credit_kind
  cr_OrderID :: string
  cr_Note :: string
  cr_IdempotencyKey :: string
  cr_CreatedAt :: gotime

definition newEntry ::
    "gotime \<Rightarrow> string \<Rightarrow> string \<Rightarrow> money \<Rightarrow> credit_kind \<Rightarrow> string \<Rightarrow> string \<Rightarrow> credit_entry outcome" where
  "newEntry now eid customerID0 amount kind orderID note =
     (let customerID = trim_space customerID0 in
      if eid = [] then Fail (Err ''store credit: id must not be empty'')
      else if customerID = [] then Fail (Err ''store credit: customer id must not be empty'')
      else if \<not> Kind_IsValid kind then Fail (Err ''store credit: invalid kind'')
      else if m_currency amount = [] then Fail (Err ''store credit: amount must have a valid currency'')
      else if \<not> IsPositive amount then Fail (Err ''store credit: amount must be positive'')
      else Ok \<lparr>cr_ID = eid, cr_CustomerID = customerID, cr_Currency = m_currency amount, cr_Amount = amount,
        cr_Kind = kind, cr_OrderID = trim_space orderID, cr_Note = trim_space note, cr_IdempotencyKey = [],
        cr_CreatedAt = now\<rparr>)"

definition NewIssueEntry ::
    "gotime \<Rightarrow> string \<Rightarrow> string \<Rightarrow> money \<Rightarrow> string \<Rightarrow> string \<Rightarrow> credit_entry outcome" where
  "NewIssueEntry now eid customerID amount note key =
     bindO (newEntry now eid customerID amount KindIssue [] note)
       (\<lambda>e. Ok (e\<lparr>cr_IdempotencyKey := trim_space key\<rparr>))"

definition NewRedeemEntry :: "gotime \<Rightarrow> string \<Rightarrow> string \<Rightarrow> string \<Rightarrow> money \<Rightarrow> credit_entry outcome" where
  "NewRedeemEntry now eid customerID orderID0 amount =
     (let orderID = trim_space orderID0 in
      if orderID = [] then Fail (Err ''store credit: order id must not be empty for redeem'')
      else newEntry now eid customerID amount KindRedeem orderID [])"

section \<open>The tables\<close>

text \<open>The column \<open>updated_at\<close> of the accounts is written and never read; it is left out.\<close>

record ledger_row =
  lr_id :: string
  lr_customer :: string
  lr_currency :: string
  lr_amount :: int64
  lr_kind :: string
  lr_order :: "string option"
  lr_note :: string
  lr_key :: "string option"
  lr_created :: gotime

record credit_db =
  cd_accounts :: "string \<times> string \<Rightarrow> int64 option"
  cd_ledger :: "ledger_row list"

text \<open>What a call finds around it: driver errors, the referenced tables, other transactions.\<close>

record credit_env =
  ce_fault :: db_faults
  ce_customer :: "string \<Rightarrow> bool"
  ce_order :: "string \<Rightarrow> bool"
  ce_late :: "credit_db \<Rightarrow> credit_db"

definition ErrInsufficientBalance :: gerror where
  "ErrInsufficientBalance = Err ''store credit: insufficient balance''"

definition find_key :: "ledger_row list \<Rightarrow> string \<Rightarrow> string \<Rightarrow> ledger_row option" where
  "find_key rows customer key = List.find (\<lambda>r. lr_customer r = customer \<and> lr_key r = Some key) rows"

definition same_entry :: "ledger_row \<Rightarrow> credit_entry \<Rightarrow> bool" where
  "same_entry r e \<longleftrightarrow> lr_amount r = m_amount (cr_Amount e) \<and> lr_currency r = cr_Currency e \<and> lr_note r = cr_Note e"

definition replay :: "credit_entry \<Rightarrow> ledger_row \<Rightarrow> unit outcome" where
  "replay e r = (if same_entry r e then Ok () else Fail (AppErr Conflict ''store credit: idempotency key already used''))"

definition row_of_entry :: "credit_entry \<Rightarrow> ledger_row" where
  "row_of_entry e = \<lparr>lr_id = cr_ID e, lr_customer = cr_CustomerID e, lr_currency = cr_Currency e,
     lr_amount = m_amount (cr_Amount e), lr_kind = credit_kind_string (cr_Kind e),
     lr_order = (if cr_OrderID e = [] then None else Some (cr_OrderID e)), lr_note = cr_Note e,
     lr_key = (if cr_IdempotencyKey e = [] then None else Some (cr_IdempotencyKey e)),
     lr_created = cr_CreatedAt e\<rparr>"

text \<open>
  The insert into the ledger. A primary key that is taken and a missing order or customer are
  constraint errors; a taken idempotency key is settled by reading the winner's row over a
  connection of its own.
\<close>

definition insertLedger ::
    "credit_env \<Rightarrow> credit_db \<Rightarrow> credit_db \<Rightarrow> credit_entry \<Rightarrow> (unit \<times> credit_db) outcome" where
  "insertLedger env base db e =
     bindO (stmt (ce_fault env) ''store_credit_repo: insert ledger'') (\<lambda>_.
     if list_ex (\<lambda>r. lr_id r = cr_ID e) (cd_ledger db)
     then Fail (Wrap ''store_credit_repo: insert ledger'' (Err ''unique violation: primary key''))
     else if cr_IdempotencyKey e \<noteq> [] \<and> find_key (cd_ledger db) (cr_CustomerID e) (cr_IdempotencyKey e) \<noteq> None
     then bindO (stmt (ce_fault env) ''store_credit_repo: check idempotency race winner'') (\<lambda>_.
            case find_key (cd_ledger base) (cr_CustomerID e) (cr_IdempotencyKey e) of
              None \<Rightarrow> Fail (Wrap ''store_credit_repo: check idempotency race winner'' (Err ''sql: no rows in result set''))
            | Some r \<Rightarrow> bindO (replay e r) (\<lambda>_. Ok ((), base)))
     else if \<not> ce_customer env (cr_CustomerID e) \<or> (cr_OrderID e \<noteq> [] \<and> \<not> ce_order env (cr_OrderID e))
     then Fail (AppErr NotFound ''store credit: customer or order not found'')
     else bindO (stmt (ce_fault env) ''store_credit_repo: commit'') (\<lambda>_.
            Ok ((), db\<lparr>cd_ledger := cd_ledger db @ [row_of_entry e]\<rparr>)))"

text \<open>The transaction from the account row on, on the state \<open>base\<close>.\<close>

definition creditTx ::
    "credit_env \<Rightarrow> credit_db \<Rightarrow> credit_entry \<Rightarrow> int64 \<Rightarrow> (unit \<times> credit_db) outcome" where
  "creditTx env base e delta =
     (let key = (cr_CustomerID e, cr_Currency e) in
      bindO (stmt (ce_fault env) ''store_credit_repo: ensure account'') (\<lambda>_.
      if cd_accounts base key = None \<and> \<not> ce_customer env (cr_CustomerID e)
      then Fail (Wrap ''store_credit_repo: ensure account'' (Err ''foreign key violation''))
      else
        let balance = (case cd_accounts base key of None \<Rightarrow> 0 | Some b \<Rightarrow> b) in
        bindO (stmt (ce_fault env) ''store_credit_repo: lock account'') (\<lambda>_.
        if 0 <s delta \<and> MaxInt64 - delta <s balance
        then Fail (Err ''store_credit_repo: balance overflow'')
        else if balance + delta <s 0 then Fail ErrInsufficientBalance
        else
          bindO (stmt (ce_fault env) ''store_credit_repo: upsert account'') (\<lambda>_.
          insertLedger env base (base\<lparr>cd_accounts := (cd_accounts base)(key \<mapsto> balance + delta)\<rparr>) e))))"

definition applyEntry ::
    "credit_env \<Rightarrow> credit_db \<Rightarrow> credit_entry \<Rightarrow> int64 \<Rightarrow> unit outcome \<times> credit_db" where
  "applyEntry env db e delta =
     (let continue = (let base = ce_late env db in txn base (creditTx env base e delta)) in
      case stmt (ce_fault env) ''store_credit_repo: begin tx'' of
        Ok _ \<Rightarrow>
          (if cr_IdempotencyKey e \<noteq> [] then
             (case stmt (ce_fault env) ''store_credit_repo: check idempotency'' of
                Ok _ \<Rightarrow>
                  (case find_key (cd_ledger db) (cr_CustomerID e) (cr_IdempotencyKey e) of
                     Some r \<Rightarrow> (replay e r, db)
                   | None \<Rightarrow> continue)
              | Fail err \<Rightarrow> (Fail err, db)
              | Panics p \<Rightarrow> (Panics p, db))
           else continue)
      | Fail err \<Rightarrow> (Fail err, db)
      | Panics p \<Rightarrow> (Panics p, db))"

definition Repo_Issue ::
    "credit_env \<Rightarrow> gotime \<Rightarrow> string \<Rightarrow> credit_db \<Rightarrow> string \<Rightarrow> money \<Rightarrow> string \<Rightarrow> string \<Rightarrow>
     unit outcome \<times> credit_db" where
  "Repo_Issue env now eid db customerID amount note key =
     (case NewIssueEntry now eid customerID amount note key of
        Ok e \<Rightarrow> applyEntry env db e (m_amount amount)
      | Fail err \<Rightarrow> (Fail err, db)
      | Panics p \<Rightarrow> (Panics p, db))"

definition Repo_Redeem ::
    "credit_env \<Rightarrow> gotime \<Rightarrow> string \<Rightarrow> credit_db \<Rightarrow> string \<Rightarrow> string \<Rightarrow> money \<Rightarrow> unit outcome \<times> credit_db" where
  "Repo_Redeem env now eid db customerID orderID amount =
     (case NewRedeemEntry now eid customerID orderID amount of
        Ok e \<Rightarrow> applyEntry env db e (- m_amount amount)
      | Fail err \<Rightarrow> (Fail err, db)
      | Panics p \<Rightarrow> (Panics p, db))"

definition Repo_GetBalance ::
    "(string \<Rightarrow> string) \<Rightarrow> credit_env \<Rightarrow> credit_db \<Rightarrow> string \<Rightarrow> string \<Rightarrow> money outcome" where
  "Repo_GetBalance uni env db customerID0 currency0 =
     (let customerID = trim_space customerID0; currency = go_to_upper uni (trim_space currency0) in
      if customerID = [] \<or> currency = [] then Fail (Err ''store_credit_repo: customer id and currency required'')
      else bindO (stmt (ce_fault env) ''store_credit_repo: get balance'') (\<lambda>_.
        case cd_accounts db (customerID, currency) of
          None \<Rightarrow> Zero currency
        | Some b \<Rightarrow> NewMoney b currency))"

text \<open>Newest first; SQL leaves rows of the same instant in any order, here the later row first.\<close>

fun read_entries :: "ledger_row list \<Rightarrow> credit_entry list outcome" where
  "read_entries [] = Ok []"
| "read_entries (r # rs) =
     bindO (mapErr (Wrap ''store_credit_repo: reconstruct money'') (NewMoney (lr_amount r) (lr_currency r))) (\<lambda>m.
     bindO (read_entries rs) (\<lambda>es. Ok (\<lparr>cr_ID = lr_id r, cr_CustomerID = lr_customer r, cr_Currency = lr_currency r,
       cr_Amount = m, cr_Kind = credit_kind_of_string (lr_kind r),
       cr_OrderID = (case lr_order r of None \<Rightarrow> [] | Some x \<Rightarrow> x), cr_Note = lr_note r, cr_IdempotencyKey = [],
       cr_CreatedAt = lr_created r\<rparr> # es)))"

definition Repo_ListLedger ::
    "(string \<Rightarrow> string) \<Rightarrow> credit_env \<Rightarrow> credit_db \<Rightarrow> string \<Rightarrow> string \<Rightarrow> int64 \<Rightarrow> int64 \<Rightarrow> credit_entry list outcome" where
  "Repo_ListLedger uni env db customerID0 currency0 offset limit0 =
     (let customerID = trim_space customerID0; currency = go_to_upper uni (trim_space currency0) in
      if customerID = [] then Fail (Err ''store_credit_repo: customer id required'')
      else if offset <s 0 then Fail (Err ''store_credit_repo: offset must be >= 0'')
      else
        let limit = (if limit0 \<le>s 0 \<or> 100 <s limit0 then 100 else limit0);
            rows = filter (\<lambda>r. lr_customer r = customerID \<and> (currency = [] \<or> lr_currency r = currency)) (cd_ledger db) in
        bindO (stmt (ce_fault env) ''store_credit_repo: list ledger'') (\<lambda>_.
          read_entries (take (nat (sint limit)) (drop (nat (sint offset)) (rev (sort_key lr_created rows))))))"

section \<open>The service\<close>

definition defaultMaxIssueAmount :: int64 where "defaultMaxIssueAmount = 100000"

definition WithMaxIssueAmount :: "int64 \<Rightarrow> int64 \<Rightarrow> int64" where
  "WithMaxIssueAmount current max_amount = (if max_amount <s 0 then current else max_amount)"

type_synonym 'c customer_find = "string \<Rightarrow> gerror + 'c option"

definition ensureCustomer :: "'c customer_find \<Rightarrow> string \<Rightarrow> unit outcome" where
  "ensureCustomer customers customerID =
     bindO (mapErr (Wrap ''storecredit: find customer'') (of_res (customers customerID))) (\<lambda>c.
     case c of None \<Rightarrow> Fail (AppErr NotFound ''customer not found'') | Some _ \<Rightarrow> Ok ())"

definition Service_credit ::
    "'c customer_find \<Rightarrow> credit_env \<Rightarrow> gotime \<Rightarrow> string \<Rightarrow> credit_db \<Rightarrow> string \<Rightarrow> money \<Rightarrow> string \<Rightarrow> string \<Rightarrow> string \<Rightarrow>
     unit outcome \<times> credit_db" where
  "Service_credit customers env now eid db customerID amount note key op =
     (case ensureCustomer customers customerID of
        Ok _ \<Rightarrow> (case Repo_Issue env now eid db customerID amount note key of
                   (r, db') \<Rightarrow> (mapErr (Wrap (''storecredit: '' @ op)) r, db'))
      | Fail e \<Rightarrow> (Fail e, db)
      | Panics p \<Rightarrow> (Panics p, db))"

definition Service_Issue ::
    "int64 \<Rightarrow> 'c customer_find \<Rightarrow> credit_env \<Rightarrow> gotime \<Rightarrow> string \<Rightarrow> credit_db \<Rightarrow> string \<Rightarrow> money \<Rightarrow> string \<Rightarrow> string \<Rightarrow>
     unit outcome \<times> credit_db" where
  "Service_Issue maxIssue customers env now eid db customerID amount note key =
     (if 0 <s maxIssue \<and> maxIssue <s m_amount amount
      then (Fail (AppErr Validation ''amount exceeds maximum single issuance''), db)
      else Service_credit customers env now eid db customerID amount note key ''issue'')"

definition Service_Restore ::
    "'c customer_find \<Rightarrow> credit_env \<Rightarrow> gotime \<Rightarrow> string \<Rightarrow> credit_db \<Rightarrow> string \<Rightarrow> money \<Rightarrow> string \<Rightarrow> string \<Rightarrow>
     unit outcome \<times> credit_db" where
  "Service_Restore customers env now eid db customerID amount note key =
     Service_credit customers env now eid db customerID amount note key ''restore''"

definition Service_GetBalance ::
    "(string \<Rightarrow> string) \<Rightarrow> credit_env \<Rightarrow> credit_db \<Rightarrow> string \<Rightarrow> string \<Rightarrow> money outcome" where
  "Service_GetBalance uni env db customerID currency =
     mapErr (Wrap ''storecredit: get balance'') (Repo_GetBalance uni env db customerID currency)"

definition redeem_error :: "gerror \<Rightarrow> gerror" where
  "redeem_error e = (if err_is ErrInsufficientBalance e
     then AppErr Validation ''insufficient store credit balance'' else Wrap ''storecredit: redeem'' e)"

definition Service_Redeem ::
    "credit_env \<Rightarrow> gotime \<Rightarrow> string \<Rightarrow> credit_db \<Rightarrow> string \<Rightarrow> string \<Rightarrow> money \<Rightarrow> unit outcome \<times> credit_db" where
  "Service_Redeem env now eid db customerID orderID amount =
     (case Repo_Redeem env now eid db customerID orderID amount of (r, db') \<Rightarrow> (mapErr redeem_error r, db'))"

definition Service_ListLedger ::
    "(string \<Rightarrow> string) \<Rightarrow> credit_env \<Rightarrow> credit_db \<Rightarrow> string \<Rightarrow> string \<Rightarrow> int64 \<Rightarrow> int64 \<Rightarrow> credit_entry list outcome" where
  "Service_ListLedger uni env db customerID currency offset limit =
     mapErr (Wrap ''storecredit: list ledger'') (Repo_ListLedger uni env db customerID currency offset limit)"

section \<open>Lemmas\<close>

definition balance_of :: "credit_db \<Rightarrow> string \<times> string \<Rightarrow> int" where
  "balance_of db k = (case cd_accounts db k of None \<Rightarrow> 0 | Some b \<Rightarrow> sint b)"

definition signed_row :: "ledger_row \<Rightarrow> int" where
  "signed_row r = (if lr_kind r = ''issue'' then sint (lr_amount r) else - sint (lr_amount r))"

definition ledger_total :: "ledger_row list \<Rightarrow> string \<times> string \<Rightarrow> int" where
  "ledger_total rows k = (\<Sum>r\<leftarrow>filter (\<lambda>r. (lr_customer r, lr_currency r) = k) rows. signed_row r)"

definition keyed_rows :: "ledger_row list \<Rightarrow> string \<Rightarrow> string \<Rightarrow> ledger_row list" where
  "keyed_rows rows customer key = filter (\<lambda>r. lr_customer r = customer \<and> lr_key r = Some key) rows"

text \<open>The tables agree: every balance is the sum of its ledger rows and not negative.\<close>

definition credit_ok :: "credit_db \<Rightarrow> bool" where
  "credit_ok db \<longleftrightarrow> (\<forall>k. balance_of db k = ledger_total (cd_ledger db) k \<and> 0 \<le> balance_of db k) \<and>
     (\<forall>r \<in> set (cd_ledger db). 0 < sint (lr_amount r)) \<and>
     distinct (map lr_id (cd_ledger db)) \<and> (\<forall>c key. length (keyed_rows (cd_ledger db) c key) \<le> 1)"

lemma credit_okD:
  "credit_ok db \<Longrightarrow> balance_of db k = ledger_total (cd_ledger db) k"
  "credit_ok db \<Longrightarrow> 0 \<le> balance_of db k"
  unfolding credit_ok_def by blast+

definition no_credit :: credit_db where
  "no_credit = \<lparr>cd_accounts = (\<lambda>_. None), cd_ledger = []\<rparr>"

lemma no_credit_ok: "credit_ok no_credit"
  by (simp add: credit_ok_def no_credit_def balance_of_def ledger_total_def keyed_rows_def)

text \<open>The abstract machine: one balance changes by an amount and stays within range.\<close>

inductive credit_posting :: "(string \<times> string \<Rightarrow> int) \<Rightarrow> (string \<times> string \<Rightarrow> int) \<Rightarrow> bool" where
  posting: "x \<noteq> 0 \<Longrightarrow> 0 \<le> a k + x \<Longrightarrow> in_int64 (a k + x) \<Longrightarrow> credit_posting a (a(k := a k + x))"

text \<open>An entry with the change of the balance that goes with it.\<close>

definition entry_delta :: "credit_entry \<Rightarrow> int64 \<Rightarrow> bool" where
  "entry_delta e delta \<longleftrightarrow> 0 < cents (cr_Amount e) \<and> cr_Currency e = m_currency (cr_Amount e) \<and>
     ((cr_Kind e = KindIssue \<and> delta = m_amount (cr_Amount e)) \<or>
      (cr_Kind e = KindRedeem \<and> delta = - m_amount (cr_Amount e) \<and> cr_IdempotencyKey e = []))"

definition posted :: "credit_db \<Rightarrow> credit_entry \<Rightarrow> int64 \<Rightarrow> credit_db" where
  "posted base e delta = (let key = (cr_CustomerID e, cr_Currency e) in
     base\<lparr>cd_accounts := (cd_accounts base)(key \<mapsto> (case cd_accounts base key of None \<Rightarrow> 0 | Some b \<Rightarrow> b) + delta),
          cd_ledger := cd_ledger base @ [row_of_entry e]\<rparr>)"

definition may_post :: "credit_db \<Rightarrow> credit_entry \<Rightarrow> int64 \<Rightarrow> bool" where
  "may_post base e delta \<longleftrightarrow> (let b = (case cd_accounts base (cr_CustomerID e, cr_Currency e) of None \<Rightarrow> 0 | Some b \<Rightarrow> b) in
     \<not> (0 <s delta \<and> MaxInt64 - delta <s b) \<and> \<not> b + delta <s 0) \<and>
     cr_ID e \<notin> lr_id ` set (cd_ledger base) \<and>
     (cr_IdempotencyKey e \<noteq> [] \<longrightarrow> find_key (cd_ledger base) (cr_CustomerID e) (cr_IdempotencyKey e) = None)"

lemma creditTx_cases:
  "creditTx env base e delta = Ok (u, db') \<Longrightarrow> db' = base \<or> db' = posted base e delta \<and> may_post base e delta"
  by (auto simp: creditTx_def insertLedger_def Let_def posted_def may_post_def list_ex_iff
      split: if_splits option.splits)

lemma applyEntry_cases:
  assumes "applyEntry env db e delta = (r, db')"
  shows "db' = db \<or> db' = ce_late env db \<or>
    r = Ok () \<and> db' = posted (ce_late env db) e delta \<and> may_post (ce_late env db) e delta"
proof -
  have tx: "txn (ce_late env db) (creditTx env (ce_late env db) e delta) = (r, db') \<Longrightarrow> ?thesis"
    by (cases r) (auto simp: txn_Ok txn_Fail txn_Panics dest: creditTx_cases)
  show ?thesis
    using assms tx by (auto simp: applyEntry_def Let_def split: outcome.splits if_splits option.splits)
qed

lemma find_key_None: "find_key rows c key = None \<longleftrightarrow> keyed_rows rows c key = []"
  by (auto simp: find_key_def keyed_rows_def find_None_iff filter_empty_conv)

lemma sint_delta:
  assumes "entry_delta e delta"
  shows "sint delta = signed_row (row_of_entry e)"
proof -
  have "in_int64 (- sint (m_amount (cr_Amount e)))"
    using assms sint_upper [of "m_amount (cr_Amount e)"] by (auto simp: entry_delta_def in_int64_def)
  then have "sint (- m_amount (cr_Amount e)) = - sint (m_amount (cr_Amount e))"
    using sint_minus_exact [of 0 "m_amount (cr_Amount e)"] by simp
  then show ?thesis using assms by (auto simp: entry_delta_def signed_row_def row_of_entry_def)
qed

text \<open>The two guards are exactly the bounds of the mathematical sum.\<close>

lemma may_post_sum:
  assumes "may_post base e delta" "0 \<le> balance_of base (cr_CustomerID e, cr_Currency e)"
  shows "balance_of (posted base e delta) (cr_CustomerID e, cr_Currency e) =
      balance_of base (cr_CustomerID e, cr_Currency e) + sint delta \<and>
    0 \<le> balance_of base (cr_CustomerID e, cr_Currency e) + sint delta \<and>
    in_int64 (balance_of base (cr_CustomerID e, cr_Currency e) + sint delta)"
proof -
  define b where "b = (case cd_accounts base (cr_CustomerID e, cr_Currency e) of None \<Rightarrow> 0 | Some b \<Rightarrow> b)"
  have b: "balance_of base (cr_CustomerID e, cr_Currency e) = sint b"
    by (simp add: balance_of_def b_def split: option.splits)
  have g: "\<not> (0 <s delta \<and> MaxInt64 - delta <s b)" "\<not> b + delta <s 0"
    using assms(1) by (simp_all add: may_post_def Let_def b_def)
  have range: "in_int64 (sint b + sint delta)"
  proof (cases "0 < sint delta")
    case True
    have "in_int64 (sint MaxInt64 - sint delta)" using True sint_upper [of delta] by (simp add: in_int64_def)
    then have "sint (MaxInt64 - delta) = 2 ^ 63 - 1 - sint delta" using sint_minus_exact [of MaxInt64 delta] by simp
    then have "sint b \<le> 2 ^ 63 - 1 - sint delta" using g(1) True by (simp add: i64)
    then show ?thesis using assms(2) b True by (simp add: in_int64_def)
  next
    case False
    then show ?thesis using assms(2) b sint_upper [of b] sint_lower [of delta] by (simp add: in_int64_def)
  qed
  then have "sint (b + delta) = sint b + sint delta" by (rule sint_plus_exact)
  then show ?thesis
    using g(2) range b by (simp add: posted_def balance_of_def b_def Let_def i64)
qed

lemma posted_other:
  "k \<noteq> (cr_CustomerID e, cr_Currency e) \<Longrightarrow> balance_of (posted base e delta) k = balance_of base k"
  by (simp add: posted_def balance_of_def Let_def)

lemma posted_ledger:
  "ledger_total (cd_ledger (posted base e delta)) k =
     ledger_total (cd_ledger base) k + (if (cr_CustomerID e, cr_Currency e) = k then signed_row (row_of_entry e) else 0)"
  by (simp add: posted_def Let_def ledger_total_def row_of_entry_def)

lemma posted_ok:
  assumes ok: "credit_ok base" and e: "entry_delta e delta" and may: "may_post base e delta"
  shows "credit_ok (posted base e delta)"
proof -
  let ?k = "(cr_CustomerID e, cr_Currency e)"
  have nn: "0 \<le> balance_of base ?k" by (rule credit_okD [OF ok])
  note sum = may_post_sum [OF may nn]
  have bal: "balance_of (posted base e delta) k = ledger_total (cd_ledger (posted base e delta)) k \<and>
      0 \<le> balance_of (posted base e delta) k" for k
    using credit_okD [OF ok, of k] sum posted_other [of k e base delta] posted_ledger [of base e delta k] sint_delta [OF e]
    by (cases "k = ?k") auto
  have rows: "cd_ledger (posted base e delta) = cd_ledger base @ [row_of_entry e]" by (simp add: posted_def Let_def)
  have amt: "0 < sint (lr_amount (row_of_entry e))" using e by (simp add: entry_delta_def row_of_entry_def)
  have ids: "distinct (map lr_id (cd_ledger base @ [row_of_entry e]))"
    using ok may by (auto simp: credit_ok_def may_post_def row_of_entry_def)
  have keys: "length (keyed_rows (cd_ledger base @ [row_of_entry e]) c key) \<le> 1" for c key
  proof (cases "lr_customer (row_of_entry e) = c \<and> lr_key (row_of_entry e) = Some key")
    case True
    then have "cr_IdempotencyKey e \<noteq> []" "cr_CustomerID e = c" "cr_IdempotencyKey e = key"
      by (auto simp: row_of_entry_def split: if_splits)
    then have "keyed_rows (cd_ledger base) c key = []" using may by (auto simp: may_post_def find_key_None)
    then show ?thesis by (simp add: keyed_rows_def)
  next
    case False
    then show ?thesis using ok by (auto simp: credit_ok_def keyed_rows_def)
  qed
  have pos: "\<forall>r \<in> set (cd_ledger base @ [row_of_entry e]). 0 < sint (lr_amount r)"
    using ok amt by (auto simp: credit_ok_def)
  show ?thesis unfolding credit_ok_def rows using bal [unfolded rows] pos ids keys by blast
qed

lemma posted_posting:
  assumes ok: "credit_ok base" and e: "entry_delta e delta" and may: "may_post base e delta"
  shows "credit_posting (balance_of base) (balance_of (posted base e delta))"
proof -
  let ?k = "(cr_CustomerID e, cr_Currency e)"
  have nn: "0 \<le> balance_of base ?k" by (rule credit_okD [OF ok])
  have eq: "balance_of (posted base e delta) = (balance_of base)(?k := balance_of base ?k + sint delta)"
    using may_post_sum [OF may nn] posted_other by fastforce
  have "sint delta \<noteq> 0"
    using sint_delta [OF e] e by (auto simp: entry_delta_def signed_row_def row_of_entry_def)
  then show ?thesis unfolding eq using may_post_sum [OF may nn] by (intro posting) auto
qed

lemma NewIssueEntry_delta: "NewIssueEntry now eid c m nt key = Ok e \<Longrightarrow> entry_delta e (m_amount m)"
  by (auto simp: NewIssueEntry_def newEntry_def Let_def entry_delta_def IsPositive_iff split: if_splits)

lemma NewRedeemEntry_delta: "NewRedeemEntry now eid c oid m = Ok e \<Longrightarrow> entry_delta e (- m_amount m)"
  by (auto simp: NewRedeemEntry_def newEntry_def Let_def entry_delta_def IsPositive_iff split: if_splits)

text \<open>Operations of any callers; what other transactions commit meanwhile is such a history too.\<close>

datatype credit_op =
    CreditIssue credit_env gotime string string money string string
  | CreditRedeem credit_env gotime string string string money

fun credit_step :: "credit_op \<Rightarrow> credit_db \<Rightarrow> unit outcome \<times> credit_db" where
  "credit_step (CreditIssue env now eid c m nt key) db = Repo_Issue env now eid db c m nt key"
| "credit_step (CreditRedeem env now eid c oid m) db = Repo_Redeem env now eid db c oid m"

fun credit_op_env :: "credit_op \<Rightarrow> credit_env" where
  "credit_op_env (CreditIssue env now eid c m nt key) = env"
| "credit_op_env (CreditRedeem env now eid c oid m) = env"

definition fair_env :: "credit_env \<Rightarrow> bool" where
  "fair_env env \<longleftrightarrow> (\<forall>db. credit_ok db \<longrightarrow> credit_ok (ce_late env db) \<and>
     credit_posting\<^sup>*\<^sup>* (balance_of db) (balance_of (ce_late env db)) \<and>
     set (cd_ledger db) \<subseteq> set (cd_ledger (ce_late env db)))"

lemma credit_step_apply:
  "(\<exists>err. credit_step x db = (err, db)) \<or>
   (\<exists>e delta. entry_delta e delta \<and> credit_step x db = applyEntry (credit_op_env x) db e delta)"
proof (cases x)
  case (CreditIssue env now eid c m nt key)
  then show ?thesis
    using NewIssueEntry_delta [of now eid c m nt key]
    by (cases "NewIssueEntry now eid c m nt key") (auto simp: Repo_Issue_def)
next
  case (CreditRedeem env now eid c oid m)
  then show ?thesis
    using NewRedeemEntry_delta [of now eid c oid m]
    by (cases "NewRedeemEntry now eid c oid m") (auto simp: Repo_Redeem_def)
qed

lemma credit_step_cases:
  obtains "snd (credit_step x db) = db" | "snd (credit_step x db) = ce_late (credit_op_env x) db"
  | e delta where "entry_delta e delta" "may_post (ce_late (credit_op_env x) db) e delta"
      "credit_step x db = (Ok (), posted (ce_late (credit_op_env x) db) e delta)"
proof (cases "\<exists>err. credit_step x db = (err, db)")
  case True
  then show ?thesis using that(1) by force
next
  case False
  then obtain e delta where e: "entry_delta e delta" and st: "credit_step x db = applyEntry (credit_op_env x) db e delta"
    using credit_step_apply [of x db] by blast
  obtain r db' where "applyEntry (credit_op_env x) db e delta = (r, db')" by fastforce
  then show ?thesis using applyEntry_cases [of "credit_op_env x" db e delta r db'] st e that by auto
qed

interpretation credit_tables: db_refinement credit_step "\<lambda>x. fair_env (credit_op_env x)" credit_ok balance_of
    "credit_posting\<^sup>*\<^sup>*"
proof
  fix x db
  assume fair: "fair_env (credit_op_env x)" and ok: "credit_ok db"
  let ?base = "ce_late (credit_op_env x) db"
  have base: "credit_ok ?base" "credit_posting\<^sup>*\<^sup>* (balance_of db) (balance_of ?base)"
    using fair ok by (simp_all add: fair_env_def)
  have "credit_ok (snd (credit_step x db)) \<and>
      credit_posting\<^sup>*\<^sup>* (balance_of db) (balance_of (snd (credit_step x db)))"
  proof (cases rule: credit_step_cases [of x db])
    case (3 e delta)
    then show ?thesis
      using posted_ok [OF base(1) 3(1,2)] posted_posting [OF base(1) 3(1,2)] base(2) by simp
  qed (use base ok in simp_all)
  then show "credit_ok (snd (credit_step x db))"
    and "balance_of (snd (credit_step x db)) = balance_of db \<or>
      credit_posting\<^sup>*\<^sup>* (balance_of db) (balance_of (snd (credit_step x db)))" by simp_all
qed
text \<open>Rows of the ledger stay.\<close>

lemma credit_step_grows:
  assumes "fair_env (credit_op_env x)" "credit_ok db"
  shows "set (cd_ledger db) \<subseteq> set (cd_ledger (snd (credit_step x db)))"
proof -
  have late: "set (cd_ledger db) \<subseteq> set (cd_ledger (ce_late (credit_op_env x) db))"
    using assms by (simp add: fair_env_def)
  show ?thesis
    by (cases rule: credit_step_cases [of x db]) (use late in \<open>auto simp: posted_def Let_def\<close>)
qed

lemma credit_run_grows:
  "\<forall>x \<in> set xs. fair_env (credit_op_env x) \<Longrightarrow> credit_ok db \<Longrightarrow>
   set (cd_ledger db) \<subseteq> set (cd_ledger (run_db credit_step xs db))"
proof (induction xs arbitrary: db)
  case (Cons x xs)
  then have "set (cd_ledger (snd (credit_step x db))) \<subseteq> set (cd_ledger (run_db credit_step xs (snd (credit_step x db))))"
    using credit_tables.step_inv [of x db] by simp
  then show ?case using credit_step_grows [of x db] Cons.prems by auto
qed simp

lemma find_key_Some:
  "find_key rows c key = Some r \<Longrightarrow> r \<in> set rows \<and> lr_customer r = c \<and> lr_key r = Some key"
  by (auto simp: find_key_def find_Some_iff)

lemma find_key_unique:
  assumes "length (keyed_rows rows c key) \<le> 1" "r \<in> set rows" "lr_customer r = c" "lr_key r = Some key"
  shows "find_key rows c key = Some r"
proof -
  have r: "r \<in> set (keyed_rows rows c key)" using assms by (simp add: keyed_rows_def)
  then obtain q where q: "find_key rows c key = Some q" using find_key_None [of rows c key] by fastforce
  then have "q \<in> set (keyed_rows rows c key)" using find_key_Some by (fastforce simp: keyed_rows_def)
  then have "q = r" using r assms(1) by (cases "keyed_rows rows c key") auto
  then show ?thesis using q by simp
qed

definition recorded :: "credit_db \<Rightarrow> credit_entry \<Rightarrow> bool" where
  "recorded db e \<longleftrightarrow> (\<exists>r \<in> set (cd_ledger db). lr_customer r = cr_CustomerID e \<and>
     lr_key r = Some (cr_IdempotencyKey e) \<and> same_entry r e)"

lemma replay_Ok [simp]: "replay e r = Ok u \<longleftrightarrow> same_entry r e"
  by (simp add: replay_def)

lemma creditTx_recorded:
  "creditTx env base e delta = Ok (u, db') \<Longrightarrow> cr_IdempotencyKey e \<noteq> [] \<Longrightarrow> cr_Currency e = m_currency (cr_Amount e) \<Longrightarrow>
   recorded db' e"
  by (auto simp: creditTx_def insertLedger_def Let_def recorded_def row_of_entry_def same_entry_def
      split: if_splits option.splits dest!: find_key_Some)

lemma applyEntry_recorded:
  assumes "applyEntry env db e delta = (Ok u, db')" "cr_IdempotencyKey e \<noteq> []" "cr_Currency e = m_currency (cr_Amount e)"
  shows "recorded db' e"
proof (cases "find_key (cd_ledger db) (cr_CustomerID e) (cr_IdempotencyKey e)")
  case (Some r)
  then show ?thesis
    using assms find_key_Some [OF Some]
    by (auto simp: applyEntry_def Let_def recorded_def split: outcome.splits)
next
  case None
  then have "txn (ce_late env db) (creditTx env (ce_late env db) e delta) = (Ok u, db')"
    using assms by (auto simp: applyEntry_def Let_def split: outcome.splits)
  then show ?thesis using creditTx_recorded assms by (auto simp: txn_Ok)
qed

lemma stmt_quiet: "flt = (\<lambda>_. None) \<Longrightarrow> stmt flt l = Ok ()"
  by (simp add: stmt_def)
section \<open>Properties\<close>

text \<open>C9: whatever issues and redemptions run, concurrent ones and ones that fail at any statement
  included, every balance is the sum of the account's issues less its redemptions and never
  negative, an idempotency key is used by at most one row of a customer, and the balances as a
  whole have moved by postings only: one balance at a time, within 64 bits.\<close>

theorem store_credit_ledger:
  assumes "\<forall>x \<in> set ops. fair_env (credit_op_env x)"
  shows "let db = run_db credit_step ops no_credit in
    (\<forall>k. balance_of db k = ledger_total (cd_ledger db) k \<and> 0 \<le> balance_of db k) \<and>
    (\<forall>c key. length (keyed_rows (cd_ledger db) c key) \<le> 1) \<and>
    credit_posting\<^sup>*\<^sup>* (\<lambda>_. 0) (balance_of db)"
proof -
  have ok: "credit_ok (run_db credit_step ops no_credit)"
    by (rule credit_tables.run_inv [OF assms no_credit_ok])
  have "(credit_posting\<^sup>*\<^sup>*)\<^sup>*\<^sup>* (balance_of no_credit) (balance_of (run_db credit_step ops no_credit))"
    by (rule credit_tables.run_abs [OF assms no_credit_ok])
  moreover have "balance_of no_credit = (\<lambda>_. 0)" by (simp add: balance_of_def no_credit_def fun_eq_iff)
  ultimately show ?thesis
    using ok credit_okD [OF ok] unfolding credit_ok_def Let_def by (simp only: rtranclp_idemp) blast
qed

definition quiet_env :: credit_env where
  "quiet_env = \<lparr>ce_fault = (\<lambda>_. None), ce_customer = (\<lambda>_. True), ce_order = (\<lambda>_. True), ce_late = id\<rparr>"

lemma quiet_fair: "fair_env quiet_env"
  by (simp add: fair_env_def quiet_env_def)

definition eur :: "int64 \<Rightarrow> money" where "eur a = \<lparr>m_amount = a, m_currency = ''EUR''\<rparr>"

lemma trim_c1: "trim_space ''c1'' = ''c1''" "trim_space ''o1'' = ''o1''" "trim_space ''k'' = ''k''"
  by (simp_all add: trim_space_def trim_left_def trim_right_def trim_codes.simps space_codes_def)

lemmas credit_eval = Repo_Issue_def Repo_Redeem_def NewIssueEntry_def NewRedeemEntry_def newEntry_def Kind_IsValid_def
  eur_def IsPositive_def i64 trim_c1 applyEntry_def creditTx_def insertLedger_def quiet_env_def stmt_def find_key_def
  replay_def same_entry_def row_of_entry_def no_credit_def balance_of_def MaxInt64_def Let_def

theorem store_credit_ledger_witness:
  "balance_of (run_db credit_step [CreditIssue quiet_env 1 ''e1'' ''c1'' (eur 500) [] ''k'',
      CreditIssue quiet_env 2 ''e2'' ''c1'' (eur 500) [] ''k'', CreditRedeem quiet_env 3 ''e3'' ''c1'' ''o1'' (eur 200)]
      no_credit) (''c1'', ''EUR'') = 300 \<and>
   ledger_total (cd_ledger (run_db credit_step [CreditIssue quiet_env 1 ''e1'' ''c1'' (eur 500) [] ''k'',
      CreditIssue quiet_env 2 ''e2'' ''c1'' (eur 500) [] ''k'', CreditRedeem quiet_env 3 ''e3'' ''c1'' ''o1'' (eur 200)]
      no_credit)) (''c1'', ''EUR'') = 300"
proof -
  let ?ops = "[CreditIssue quiet_env 1 ''e1'' ''c1'' (eur 500) [] ''k'',
      CreditIssue quiet_env 2 ''e2'' ''c1'' (eur 500) [] ''k'', CreditRedeem quiet_env 3 ''e3'' ''c1'' ''o1'' (eur 200)]"
  have "\<forall>x \<in> set ?ops. fair_env (credit_op_env x)" by (simp add: quiet_fair)
  note eq = store_credit_ledger [OF this, unfolded Let_def, THEN conjunct1, rule_format, of "(''c1'', ''EUR'')", THEN conjunct1]
  have "balance_of (run_db credit_step ?ops no_credit) (''c1'', ''EUR'') = 300" by (simp add: credit_eval)
  then show ?thesis using eq by simp
qed

text \<open>C21: redeeming store credit is exact: without driver errors, for a known customer and order and
  a positive amount, the balance is checked as a mathematical number. When it covers the amount the
  account loses exactly the amount and no other account changes; otherwise the customer is told
  that the balance is insufficient and nothing changes.\<close>

theorem Service_Redeem_exact:
  assumes ok: "credit_ok db" and quiet: "ce_fault env = (\<lambda>_. None)" "ce_late env = id"
    and known: "ce_customer env (trim_space c)" "ce_order env (trim_space oid)"
    and given: "trim_space c \<noteq> []" "trim_space oid \<noteq> []" "m_currency m \<noteq> []" "0 < cents m"
    and fresh: "eid \<noteq> []" "eid \<notin> lr_id ` set (cd_ledger db)"
  shows "let k = (trim_space c, m_currency m) in
    if cents m \<le> balance_of db k
    then \<exists>db'. Service_Redeem env now eid db c oid m = (Ok (), db') \<and>
           balance_of db' = (balance_of db)(k := balance_of db k - cents m)
    else Service_Redeem env now eid db c oid m =
           (Fail (AppErr Validation ''insufficient store credit balance''), db)"
proof -
  define e where "e = \<lparr>cr_ID = eid, cr_CustomerID = trim_space c, cr_Currency = m_currency m, cr_Amount = m,
    cr_Kind = KindRedeem, cr_OrderID = trim_space oid, cr_Note = [], cr_IdempotencyKey = [], cr_CreatedAt = now\<rparr>"
  define b where "b = (case cd_accounts db (trim_space c, m_currency m) of None \<Rightarrow> 0 | Some b \<Rightarrow> b)"
  have e: "NewRedeemEntry now eid c oid m = Ok e"
    using given fresh(1) by (simp add: NewRedeemEntry_def newEntry_def Let_def Kind_IsValid_def IsPositive_iff e_def)
  have delta: "entry_delta e (- m_amount m)" by (rule NewRedeemEntry_delta [OF e])
  have neg: "sint (- m_amount m) = - cents m" using sint_delta [OF delta] by (simp add: signed_row_def row_of_entry_def e_def)
  have bal: "balance_of db (trim_space c, m_currency m) = sint b" "0 \<le> sint b"
    using credit_okD [OF ok, of "(trim_space c, m_currency m)"] by (simp_all add: balance_of_def b_def split: option.splits)
  have "in_int64 (sint b - cents m)"
    using bal(2) given(4) sint_upper [of b] sint_upper [of "m_amount m"] by (simp add: in_int64_def)
  then have sum: "sint (b - m_amount m) = sint b - cents m" by (rule sint_minus_exact)
  have tx: "creditTx env db e (- m_amount m) =
      (if cents m \<le> sint b then Ok ((), posted db e (- m_amount m)) else Fail ErrInsufficientBalance)"
    using known fresh sum neg given(4) quiet
    by (auto simp: creditTx_def insertLedger_def Let_def b_def [symmetric] e_def stmt_def i64 posted_def
        list_ex_iff image_iff)
  have run: "Service_Redeem env now eid db c oid m =
      (if cents m \<le> sint b then (Ok (), posted db e (- m_amount m))
       else (Fail (AppErr Validation ''insufficient store credit balance''), db))"
    using quiet e tx
    by (simp add: Service_Redeem_def Repo_Redeem_def applyEntry_def stmt_def e_def redeem_error_def ErrInsufficientBalance_def)
  show ?thesis
  proof (cases "cents m \<le> sint b")
    case True
    then have "may_post db e (- m_amount m)"
      using sum neg given(4) fresh by (auto simp: may_post_def Let_def e_def b_def [symmetric] i64)
    from may_post_sum [OF this] credit_okD(2) [OF ok]
    have "balance_of (posted db e (- m_amount m)) (trim_space c, m_currency m) = balance_of db (trim_space c, m_currency m) - cents m"
      by (simp add: e_def neg)
    then have "balance_of (posted db e (- m_amount m)) = (balance_of db)((trim_space c, m_currency m) :=
        balance_of db (trim_space c, m_currency m) - cents m)"
      using posted_other [of _ e db "- m_amount m"] by (fastforce simp: e_def)
    then show ?thesis using True run bal(1) by (simp add: Let_def)
  next
    case False
    then show ?thesis using run bal(1) by (simp add: Let_def)
  qed
qed

theorem Service_Redeem_exact_witness:
  "Service_Redeem quiet_env 7 ''e1'' no_credit ''c1'' ''o1'' (eur 5) =
     (Fail (AppErr Validation ''insufficient store credit balance''), no_credit)"
  using Service_Redeem_exact [OF no_credit_ok, where env = quiet_env and c = "''c1''" and oid = "''o1''" and m = "eur 5" and
    eid = "''e1''" and now = 7]
  by (simp add: quiet_env_def trim_c1 eur_def no_credit_def balance_of_def)

text \<open>C22: a key is credited once: after an issue with an idempotency key has succeeded, and whatever
  happened since, an issue with the same customer and key changes nothing; it answers with
  success when it asks for the same amount, currency and note, and with a conflict otherwise.\<close>

theorem Issue_once:
  assumes ok: "credit_ok db" and fair: "fair_env env" "\<forall>x \<in> set ops. fair_env (credit_op_env x)"
    and first: "Repo_Issue env now eid db c m nt key = (Ok (), db1)" and key: "trim_space key \<noteq> []"
    and again: "NewIssueEntry now' eid' c' m' nt' key' = Ok e'" "trim_space c' = trim_space c" "trim_space key' = trim_space key"
    and quiet: "ce_fault env' = (\<lambda>_. None)"
  shows "let db2 = run_db credit_step ops db1 in
    Repo_Issue env' now' eid' db2 c' m' nt' key' =
      (if m' = m \<and> trim_space nt' = trim_space nt then Ok ()
       else Fail (AppErr Conflict ''store credit: idempotency key already used''), db2)"
proof -
  let ?x = "CreditIssue env now eid c m nt key"
  let ?db2 = "run_db credit_step ops db1"
  obtain e where e: "NewIssueEntry now eid c m nt key = Ok e" and run: "applyEntry env db e (m_amount m) = (Ok (), db1)"
    using first by (cases "NewIssueEntry now eid c m nt key") (auto simp: Repo_Issue_def)
  have fields: "cr_CustomerID e = trim_space c" "cr_IdempotencyKey e = trim_space key" "cr_Amount e = m"
      "cr_Currency e = m_currency m" "cr_Note e = trim_space nt"
    using e by (auto simp: NewIssueEntry_def newEntry_def Let_def split: if_splits)
  have fields': "cr_CustomerID e' = trim_space c" "cr_IdempotencyKey e' = trim_space key" "cr_Amount e' = m'"
      "cr_Currency e' = m_currency m'" "cr_Note e' = trim_space nt'"
    using again by (auto simp: NewIssueEntry_def newEntry_def Let_def split: if_splits)
  have "recorded db1 e" by (rule applyEntry_recorded [OF run]) (simp_all add: fields key)
  then obtain r where r: "r \<in> set (cd_ledger db1)" "lr_customer r = trim_space c" "lr_key r = Some (trim_space key)"
      and same: "same_entry r e" by (auto simp: recorded_def fields)
  have ok1: "credit_ok db1" using credit_tables.step_inv [of ?x db] fair ok first by simp
  have "r \<in> set (cd_ledger ?db2)" using credit_run_grows [OF fair(2) ok1] r(1) by blast
  moreover have "length (keyed_rows (cd_ledger ?db2) (trim_space c) (trim_space key)) \<le> 1"
    using credit_tables.run_inv [OF fair(2) ok1] unfolding credit_ok_def by blast
  ultimately have "find_key (cd_ledger ?db2) (trim_space c) (trim_space key) = Some r"
    using r find_key_unique by blast
  then have "Repo_Issue env' now' eid' ?db2 c' m' nt' key' = (replay e' r, ?db2)"
    using again quiet key by (simp add: Repo_Issue_def applyEntry_def stmt_def fields')
  moreover have "same_entry r e' \<longleftrightarrow> m' = m \<and> trim_space nt' = trim_space nt"
    using same fields fields' by (auto simp: same_entry_def)
  ultimately show ?thesis by (simp add: Let_def replay_def)
qed

theorem Issue_once_witness:
  "\<exists>db1. Repo_Issue quiet_env 1 ''e1'' no_credit ''c1'' (eur 500) [] ''k'' = (Ok (), db1) \<and>
     Repo_Issue quiet_env 2 ''e2'' db1 ''c1'' (eur 500) [] ''k'' = (Ok (), db1) \<and>
     Repo_Issue quiet_env 2 ''e2'' db1 ''c1'' (eur 700) [] ''k'' =
       (Fail (AppErr Conflict ''store credit: idempotency key already used''), db1)"
proof -
  have "\<exists>db1. Repo_Issue quiet_env 1 ''e1'' no_credit ''c1'' (eur 500) [] ''k'' = (Ok (), db1)"
    by (simp add: credit_eval)
  then obtain db1 where first: "Repo_Issue quiet_env 1 ''e1'' no_credit ''c1'' (eur 500) [] ''k'' = (Ok (), db1)" by blast
  have e: "\<exists>e. NewIssueEntry 2 ''e2'' ''c1'' (eur a) [] ''k'' = Ok e" if "0 < sint a" for a
    using that by (simp add: credit_eval)
  have key: "trim_space ''k'' \<noteq> []" by (simp add: trim_c1)
  have quiet: "ce_fault quiet_env = (\<lambda>_. None)" by (simp add: quiet_env_def)
  have again: "Repo_Issue quiet_env 2 ''e2'' db1 ''c1'' (eur a) [] ''k'' =
      (if eur a = eur 500 then Ok () else Fail (AppErr Conflict ''store credit: idempotency key already used''), db1)"
    if "0 < sint a" for a
    using Issue_once [OF no_credit_ok quiet_fair _ first key _ refl refl quiet, where ops = "[]" and now' = 2 and
      eid' = "''e2''" and m' = "eur a" and nt' = "[]"] e [OF that]
    by auto
  have "eur 700 \<noteq> eur 500" by (simp add: eur_def)
  then show ?thesis using first again [of 500] again [of 700] by auto
qed

end
