(* ===== verification/Inventory.thy ===== *)
theory Inventory
  imports UnitPrices Database
begin

text \<open>
  Stock and reservations: the entries (\<open>internal/domain/inventory\<close>), the repositories over
  the tables \<open>stock\<close> and \<open>reservations\<close>
  (\<open>internal/infrastructure/postgres/reservation_repo.go\<close>, \<open>stock_repo.go\<close>), the expiry
  sweep and the quantity that can be sold (\<open>internal/application/inventory\<close>). The columns
  are 32-bit integers, kept here as integers with a range check where they are written.
\<close>

section \<open>Entries\<close>

record stock_entry =
  se_VariantID :: string
  se_Quantity :: int64
  se_UpdatedAt :: gotime

definition NewStockEntry :: "gotime \<Rightarrow> string \<Rightarrow> int64 \<Rightarrow> stock_entry outcome" where
  "NewStockEntry now variantID quantity =
     (if variantID = [] then Fail (Err ''stock: variant id must not be empty'')
      else if quantity <s 0 then Fail (Err ''stock: quantity must not be negative'')
      else Ok \<lparr>se_VariantID = variantID, se_Quantity = quantity, se_UpdatedAt = now\<rparr>)"

definition IsAvailable :: "stock_entry \<Rightarrow> bool" where
  "IsAvailable s \<longleftrightarrow> 0 <s se_Quantity s"

definition HasStock :: "stock_entry \<Rightarrow> int64 \<Rightarrow> bool" where
  "HasStock s needed \<longleftrightarrow> \<not> needed <s 0 \<and> needed \<le>s se_Quantity s"

datatype reservation_status = ReservationActive | ReservationReleased | ReservationConfirmed | ReservationOther string

definition ReservationStatus_IsValid :: "reservation_status \<Rightarrow> bool" where
  "ReservationStatus_IsValid s \<longleftrightarrow> s = ReservationActive \<or> s = ReservationReleased \<or> s = ReservationConfirmed"

record reservation =
  rv_ID :: string
  rv_VariantID :: string
  rv_Quantity :: int64
  rv_Status :: reservation_status
  rv_ExpiresAt :: gotime
  rv_CreatedAt :: gotime

definition NewReservation :: "gotime \<Rightarrow> string \<Rightarrow> string \<Rightarrow> int64 \<Rightarrow> gotime \<Rightarrow> reservation outcome" where
  "NewReservation now rid variantID quantity expiresAt =
     (if rid = [] then Fail (Err ''reservation: id must not be empty'')
      else if variantID = [] then Fail (Err ''reservation: variant id must not be empty'')
      else if quantity \<le>s 0 then Fail (Err ''reservation: quantity must be positive'')
      else if IsZeroTime expiresAt then Fail (Err ''reservation: expires_at must not be zero'')
      else Ok \<lparr>rv_ID = rid, rv_VariantID = variantID, rv_Quantity = quantity, rv_Status = ReservationActive,
        rv_ExpiresAt = expiresAt, rv_CreatedAt = now\<rparr>)"

definition Reservation_IsExpired :: "reservation \<Rightarrow> gotime \<Rightarrow> bool" where
  "Reservation_IsExpired r now \<longleftrightarrow> \<not> now < rv_ExpiresAt r"

record inventory_list_item =
  il_VariantID :: string
  il_Quantity :: int64
  il_Reserved :: int64

definition Available :: "inventory_list_item \<Rightarrow> int64" where
  "Available i = (let available = il_Quantity i - il_Reserved i in if available <s 0 then 0 else available)"

section \<open>The tables\<close>

record res_row =
  rr_id :: string
  rr_variant :: string
  rr_quantity :: int
  rr_status :: reservation_status
  rr_expires :: gotime
  rr_created :: gotime

record stock_db =
  sd_stock :: "string \<Rightarrow> (int \<times> gotime) option"
  sd_reservations :: "res_row list"

definition reserveTx :: "db_faults \<Rightarrow> gotime \<Rightarrow> reservation \<Rightarrow> stock_db \<Rightarrow> (unit \<times> stock_db) outcome" where
  "reserveTx flt now res db =
     (let q = sint (rv_Quantity res) in
      bindO (stmt flt ''reservation_repo: begin tx'') (\<lambda>_.
      bindO (stmt flt ''reservation_repo: decrement stock'') (\<lambda>_.
      if \<not> int4 q then Fail (Wrap ''reservation_repo: decrement stock'' out_of_range)
      else case sd_stock db (rv_VariantID res) of
        None \<Rightarrow> Fail (AppErr Conflict ''insufficient stock'')
      | Some (have_q, _) \<Rightarrow>
          if have_q < q then Fail (AppErr Conflict ''insufficient stock'')
          else if \<not> int4 (have_q - q) then Fail (Wrap ''reservation_repo: decrement stock'' out_of_range)
          else
            bindO (stmt flt ''reservation_repo: insert reservation'') (\<lambda>_.
            if q \<le> 0 then Fail (Wrap ''reservation_repo: insert reservation'' (Err ''check violation: quantity''))
            else if list_ex (\<lambda>r. rr_id r = rv_ID res) (sd_reservations db)
            then Fail (Wrap ''reservation_repo: insert reservation'' (Err ''unique violation: primary key''))
            else
              bindO (stmt flt ''reservation_repo: commit'') (\<lambda>_.
              Ok ((), \<lparr>sd_stock = (sd_stock db)(rv_VariantID res \<mapsto> (have_q - q, now)),
                 sd_reservations = sd_reservations db @
                   [\<lparr>rr_id = rv_ID res, rr_variant = rv_VariantID res, rr_quantity = q, rr_status = rv_Status res,
                     rr_expires = rv_ExpiresAt res, rr_created = rv_CreatedAt res\<rparr>]\<rparr>))))))"

definition Reserve ::
    "db_faults \<Rightarrow> gotime \<Rightarrow> stock_db \<Rightarrow> reservation option \<Rightarrow> unit outcome \<times> stock_db" where
  "Reserve flt now db res0 =
     (case res0 of
        None \<Rightarrow> (Fail (Err ''reservation_repo: reserve: reservation must not be nil''), db)
      | Some res \<Rightarrow>
          if rv_Status res \<noteq> ReservationActive
          then (Fail (Err ''reservation_repo: reserve: status must be active''), db)
          else txn db (reserveTx flt now res db))"

definition find_active :: "stock_db \<Rightarrow> string \<Rightarrow> res_row option" where
  "find_active db rid = List.find (\<lambda>r. rr_id r = rid \<and> rr_status r = ReservationActive) (sd_reservations db)"

definition set_row_status :: "reservation_status \<Rightarrow> string list \<Rightarrow> stock_db \<Rightarrow> stock_db" where
  "set_row_status st ids db = db\<lparr>sd_reservations :=
     map (\<lambda>r. if rr_id r \<in> set ids then r\<lparr>rr_status := st\<rparr> else r) (sd_reservations db)\<rparr>"

text \<open>\<open>UPDATE stock SET quantity = quantity + $1\<close>, with the number of rows it touched.\<close>

definition restore_stock :: "gotime \<Rightarrow> string \<Rightarrow> int \<Rightarrow> stock_db \<Rightarrow> (bool \<times> stock_db) outcome" where
  "restore_stock now variantID q db =
     (case sd_stock db variantID of
        None \<Rightarrow> Ok (False, db)
      | Some (have_q, _) \<Rightarrow>
          if \<not> int4 (have_q + q) then Fail (Wrap ''reservation_repo: restore stock'' out_of_range)
          else Ok (True, db\<lparr>sd_stock := (sd_stock db)(variantID \<mapsto> (have_q + q, now))\<rparr>))"

definition releaseTx :: "db_faults \<Rightarrow> gotime \<Rightarrow> string \<Rightarrow> stock_db \<Rightarrow> (unit \<times> stock_db) outcome" where
  "releaseTx flt now rid db =
     bindO (stmt flt ''reservation_repo: begin tx'') (\<lambda>_.
     bindO (stmt flt ''reservation_repo: update reservation'') (\<lambda>_.
     case find_active db rid of
       None \<Rightarrow> Fail (AppErr NotFound ''reservation not found or not active'')
     | Some r \<Rightarrow>
         bindO (stmt flt ''reservation_repo: restore stock'') (\<lambda>_.
         bindO (restore_stock now (rr_variant r) (rr_quantity r) (set_row_status ReservationReleased [rid] db)) (\<lambda>(_, db').
         bindO (stmt flt ''reservation_repo: commit'') (\<lambda>_. Ok ((), db'))))))"

definition Repo_Release :: "db_faults \<Rightarrow> gotime \<Rightarrow> stock_db \<Rightarrow> string \<Rightarrow> unit outcome \<times> stock_db" where
  "Repo_Release flt now db rid =
     (if rid = [] then (Fail (Err ''reservation_repo: release: empty reservation id''), db)
      else if \<not> uuid_valid rid then (Fail (AppErr NotFound ''reservation not found or not active''), db)
      else txn db (releaseTx flt now rid db))"

definition Repo_Confirm :: "db_faults \<Rightarrow> stock_db \<Rightarrow> string \<Rightarrow> unit outcome \<times> stock_db" where
  "Repo_Confirm flt db rid =
     (if rid = [] then (Fail (Err ''reservation_repo: confirm: empty reservation id''), db)
      else if \<not> uuid_valid rid then (Fail (AppErr NotFound ''reservation not found or not active''), db)
      else txn db (bindO (stmt flt ''reservation_repo: confirm'') (\<lambda>_.
        case find_active db rid of
          None \<Rightarrow> Fail (AppErr NotFound ''reservation not found or not active'')
        | Some r \<Rightarrow> Ok ((), set_row_status ReservationConfirmed [rid] db))))"

text \<open>\<open>Scan\<close> of a row into the domain type.\<close>

definition reservation_of_row :: "res_row \<Rightarrow> reservation" where
  "reservation_of_row r = \<lparr>rv_ID = rr_id r, rv_VariantID = rr_variant r, rv_Quantity = word_of_int (rr_quantity r),
     rv_Status = rr_status r, rv_ExpiresAt = rr_expires r, rv_CreatedAt = rr_created r\<rparr>"

definition Repo_FindByID :: "db_faults \<Rightarrow> stock_db \<Rightarrow> string \<Rightarrow> reservation option outcome" where
  "Repo_FindByID flt db rid =
     (if rid = [] then Fail (Err ''reservation_repo: find: empty id'')
      else if \<not> uuid_valid rid then Ok None
      else bindO (stmt flt ''reservation_repo: find'') (\<lambda>_.
        Ok (map_option reservation_of_row (List.find (\<lambda>r. rr_id r = rid) (sd_reservations db)))))"

definition ListActiveByVariantID :: "db_faults \<Rightarrow> stock_db \<Rightarrow> string \<Rightarrow> reservation list outcome" where
  "ListActiveByVariantID flt db variantID =
     (if variantID = [] then Fail (Err ''reservation_repo: list active: empty variant id'')
      else bindO (stmt flt ''reservation_repo: list active'') (\<lambda>_.
        Ok (map reservation_of_row (sort_key rr_created
          (filter (\<lambda>r. rr_variant r = variantID \<and> rr_status r = ReservationActive) (sd_reservations db))))))"

section \<open>The expiry sweep\<close>

record released_reservation =
  rl_VariantID :: string
  rl_Quantity :: int64

fun restore_all ::
    "db_faults \<Rightarrow> gotime \<Rightarrow> res_row list \<Rightarrow> stock_db \<Rightarrow> (released_reservation list \<times> string list \<times> stock_db) outcome" where
  "restore_all flt now [] db = Ok ([], [], db)"
| "restore_all flt now (r # rs) db =
     bindO (stmt flt ''reservation_repo: restore stock'') (\<lambda>_.
     bindO (restore_stock now (rr_variant r) (rr_quantity r) db) (\<lambda>(touched, db1).
     bindO (restore_all flt now rs db1) (\<lambda>(released, orphaned, db2).
     Ok (\<lparr>rl_VariantID = rr_variant r, rl_Quantity = word_of_int (rr_quantity r)\<rparr> # released,
         (if touched then orphaned else rr_id r # orphaned), db2))))"

text \<open>
  One batch: the first \<open>limit\<close> expired rows by expiry time that no other transaction has locked.
\<close>

definition expired_rows :: "(string \<Rightarrow> bool) \<Rightarrow> gotime \<Rightarrow> stock_db \<Rightarrow> res_row list" where
  "expired_rows locked cutoff db =
     sort_key rr_expires (filter (\<lambda>r. rr_status r = ReservationActive \<and> rr_expires r < cutoff \<and> \<not> locked (rr_id r))
       (sd_reservations db))"

definition batchTx ::
    "db_faults \<Rightarrow> (string \<Rightarrow> bool) \<Rightarrow> gotime \<Rightarrow> gotime \<Rightarrow> int64 \<Rightarrow> stock_db \<Rightarrow>
     ((released_reservation list \<times> string list) \<times> stock_db) outcome" where
  "batchTx flt locked now cutoff limit db =
     bindO (stmt flt ''reservation_repo: begin tx'') (\<lambda>_.
     bindO (stmt flt ''reservation_repo: set statement_timeout'') (\<lambda>_.
     bindO (stmt flt ''reservation_repo: select expired batch'') (\<lambda>_.
     if limit <s 0 then Fail (Wrap ''reservation_repo: select expired batch'' (Err ''LIMIT must not be negative''))
     else
       let restores = take (nat (sint limit)) (expired_rows locked cutoff db) in
       if restores = [] then Ok (([], []), db)
       else
         bindO (stmt flt ''reservation_repo: release expired batch'') (\<lambda>_.
         bindO (restore_all flt now restores (set_row_status ReservationReleased (map rr_id restores) db))
           (\<lambda>(released, orphaned, db').
         bindO (stmt flt ''reservation_repo: commit'') (\<lambda>_. Ok ((released, orphaned), db')))))))"

definition releaseExpiredBatch ::
    "db_faults \<Rightarrow> (string \<Rightarrow> bool) \<Rightarrow> gotime \<Rightarrow> gotime \<Rightarrow> int64 \<Rightarrow> stock_db \<Rightarrow>
     (released_reservation list \<times> string list) outcome \<times> stock_db" where
  "releaseExpiredBatch flt locked now cutoff limit db = txn db (batchTx flt locked now cutoff limit db)"

text \<open>
  What the sweep finds in its \<open>k\<close>-th round: a context that is done, driver errors, rows that
  others have locked, the time.
\<close>

record sweep_env =
  sw_done :: "nat \<Rightarrow> bool"
  sw_fault :: "nat \<Rightarrow> db_faults"
  sw_locked :: "nat \<Rightarrow> string \<Rightarrow> bool"
  sw_now :: "nat \<Rightarrow> gotime"

text \<open>The error of a sweep (no statement of a batch panics): an orphan warning with the count and the first ids, or another error.\<close>

datatype sweep_error = Orphaned nat "string list" | SweepFailed gerror

partial_function (option) sweep_loop ::
    "sweep_env \<Rightarrow> gotime \<Rightarrow> int64 \<Rightarrow> nat \<Rightarrow> released_reservation list \<Rightarrow> string list \<Rightarrow> stock_db \<Rightarrow>
     (released_reservation list \<times> string list \<times> gerror option \<times> stock_db) option" where
  "sweep_loop env cutoff batchSize k released orphaned db =
     (if sw_done env k then Some (released, orphaned, None, db)
      else case releaseExpiredBatch (sw_fault env k) (sw_locked env k) (sw_now env k) cutoff batchSize db of
        (Ok (batch, batchOrphaned), db') \<Rightarrow>
          (if int (length batch) < sint batchSize then Some (released @ batch, orphaned @ batchOrphaned, None, db')
           else sweep_loop env cutoff batchSize (Suc k) (released @ batch) (orphaned @ batchOrphaned) db')
      | (Fail e, db') \<Rightarrow>
          (if isContextError e then Some (released, orphaned, None, db')
           else Some (released, orphaned, Some e, db'))
      | (Panics p, db') \<Rightarrow> Some (released, orphaned, Some (Err p), db'))"

definition ReleaseExpiredBefore ::
    "sweep_env \<Rightarrow> int64 \<Rightarrow> gotime \<Rightarrow> stock_db \<Rightarrow>
     (released_reservation list \<times> sweep_error option \<times> stock_db) option" where
  "ReleaseExpiredBefore env batchSize cutoff db =
     map_option (\<lambda>(released, orphaned, err, db').
        (released,
         (case err of
            Some e \<Rightarrow> Some (SweepFailed e)
          | None \<Rightarrow> if orphaned \<noteq> [] then Some (Orphaned (length orphaned) (take 20 orphaned)) else None), db'))
       (sweep_loop env cutoff batchSize 0 [] [] db)"

section \<open>The stock repository\<close>

definition GetStock :: "db_faults \<Rightarrow> stock_db \<Rightarrow> string \<Rightarrow> stock_entry outcome" where
  "GetStock flt db variantID =
     (if variantID = [] then Fail (Err ''stock_repo: get stock: empty variantID'')
      else bindO (stmt flt ''stock_repo: get stock'') (\<lambda>_.
        case sd_stock db variantID of
          None \<Rightarrow> Ok \<lparr>se_VariantID = variantID, se_Quantity = 0, se_UpdatedAt = 0\<rparr>
        | Some (q, t) \<Rightarrow> Ok \<lparr>se_VariantID = variantID, se_Quantity = word_of_int q, se_UpdatedAt = t\<rparr>))"

text \<open>
  The upsert checks the range and the sign of the column, and that the variant exists (foreign key).
\<close>

definition put_stock :: "(string \<Rightarrow> bool) \<Rightarrow> stock_entry \<Rightarrow> stock_db \<Rightarrow> stock_db outcome" where
  "put_stock variants e db =
     (let q = sint (se_Quantity e) in
      if \<not> int4 q then Fail out_of_range
      else if q < 0 then Fail (Err ''check violation: quantity'')
      else if \<not> variants (se_VariantID e) then Fail (Err ''foreign key violation'')
      else Ok (db\<lparr>sd_stock := (sd_stock db)(se_VariantID e \<mapsto> (q, se_UpdatedAt e))\<rparr>))"

definition SetStock ::
    "db_faults \<Rightarrow> (string \<Rightarrow> bool) \<Rightarrow> stock_db \<Rightarrow> stock_entry option \<Rightarrow> unit outcome \<times> stock_db" where
  "SetStock flt variants db e0 =
     (case e0 of
        None \<Rightarrow> (Fail (Err ''stock_repo: set stock: entry must not be nil''), db)
      | Some e \<Rightarrow> txn db (bindO (stmt flt ''stock_repo: set stock'') (\<lambda>_.
          bindO (mapErr (Wrap ''stock_repo: set stock'') (put_stock variants e db)) (\<lambda>db'. Ok ((), db')))))"

text \<open>One statement for the last entry of every variant; the map's order does not matter to it.\<close>

fun put_stocks :: "(string \<Rightarrow> bool) \<Rightarrow> stock_entry list \<Rightarrow> stock_db \<Rightarrow> stock_db outcome" where
  "put_stocks variants [] db = Ok db"
| "put_stocks variants (e # es) db = bindO (put_stock variants e db) (put_stocks variants es)"

fun last_entries :: "stock_entry list \<Rightarrow> stock_entry list" where
  "last_entries [] = []"
| "last_entries (e # es) =
     (if list_ex (\<lambda>f. se_VariantID f = se_VariantID e) es then last_entries es else e # last_entries es)"

definition SetStocks ::
    "db_faults \<Rightarrow> (string \<Rightarrow> bool) \<Rightarrow> stock_db \<Rightarrow> stock_entry list \<Rightarrow> unit outcome \<times> stock_db" where
  "SetStocks flt variants db entries =
     (if entries = [] then (Ok (), db)
      else txn db (bindO (stmt flt ''stock_repo: set stocks'') (\<lambda>_.
        bindO (mapErr (Wrap ''stock_repo: set stocks'') (put_stocks variants (last_entries entries) db))
          (\<lambda>db'. Ok ((), db')))))"

text \<open>
  The admin view of a variant: on hand is the stock row, reserved is what active reservations that
  have not expired hold. The joined labels of product and variant are left out.
\<close>

definition GetInventoryItem ::
    "db_faults \<Rightarrow> (string \<Rightarrow> bool) \<Rightarrow> gotime \<Rightarrow> stock_db \<Rightarrow> string \<Rightarrow> inventory_list_item outcome" where
  "GetInventoryItem flt variants now db variantID =
     (if variantID = [] then Fail (Err ''stock_repo: get inventory item: empty variantID'')
      else bindO (stmt flt ''stock_repo: get inventory item'') (\<lambda>_.
        if \<not> variants variantID then Fail (ErrWith ''stock_repo: variant not found'' [variantID])
        else Ok \<lparr>il_VariantID = variantID,
          il_Quantity = word_of_int (case sd_stock db variantID of None \<Rightarrow> 0 | Some (q, _) \<Rightarrow> q),
          il_Reserved = word_of_int (\<Sum>r\<leftarrow>filter (\<lambda>r. rr_variant r = variantID \<and>
            rr_status r = ReservationActive \<and> now < rr_expires r) (sd_reservations db). rr_quantity r)\<rparr>))"

section \<open>The quantity that can be sold\<close>

definition MaxDigitalBundleLineQty :: int64 where "MaxDigitalBundleLineQty = 100"

text \<open>\<open>ListByProductID\<close> of the variant repository is an argument of its own.\<close>

record 'w qty_sources =
  qs_Stock :: "(string \<Rightarrow> stock_entry outcome) option"
  qs_Variants :: "'w variant_repo option"
  qs_ListByProductID :: "string \<Rightarrow> gerror + 'w variant list"
  qs_Products :: "product_repo option"
  qs_Components :: "component_repo option"

fun kits_loop ::
    "(string \<Rightarrow> stock_entry outcome) \<Rightarrow> 'w required_leaf list \<Rightarrow> int64 \<Rightarrow> bool \<Rightarrow> (int64 \<times> bool) outcome" where
  "kits_loop stock [] minKits gated = Ok (minKits, gated)"
| "kits_loop stock (l # ls) minKits gated =
     (let cid = bc_ComponentProductID (rl_Component l); t = pd_Type (rl_Product l) in
      if t = TypeVirtual \<or> t = TypeDownloadable then kits_loop stock ls minKits gated
      else if t = TypeSimple then
        bindO (mapErr (Wrap (''bundle component '' @ cid @ '' stock'')) (stock (v_ID (rl_Variant l)))) (\<lambda>entry.
        if bc_Quantity (rl_Component l) <s 1
        then Fail (bundle_error (''dynamic bundle component '' @ cid @ '' has invalid quantity''))
        else
          let kits0 = go_div (se_Quantity entry) (bc_Quantity (rl_Component l));
              kits = (if kits0 <s 0 then 0 else kits0) in
          kits_loop stock ls (if kits <s minKits then kits else minKits) True)
      else Fail (bundle_error (''dynamic bundle component '' @ cid @
             '' must be a simple, virtual, or downloadable product'')))"

definition dynamicBundleAvailableQty :: "req_ctx \<Rightarrow> 'w qty_sources \<Rightarrow> string \<Rightarrow> int64 outcome" where
  "dynamicBundleAvailableQty ctx src bundleID =
     bindO (RequiredLeafVariants ctx (qs_Products src) (qs_Variants src) (qs_Components src) bundleID) (\<lambda>leaves.
     case qs_Stock src of
       None \<Rightarrow> Panics ''nil pointer dereference''
     | Some stock \<Rightarrow> bindO (kits_loop stock leaves MaxInt64 False) (\<lambda>(minKits, gated).
         Ok (if \<not> gated then MaxDigitalBundleLineQty else minKits)))"

definition ResolveAvailableQty :: "req_ctx \<Rightarrow> 'w qty_sources \<Rightarrow> string \<Rightarrow> string \<Rightarrow> int64 outcome" where
  "ResolveAvailableQty ctx src productID0 variantID0 =
     (case (qs_Stock src, qs_Variants src, qs_Products src) of
        (Some stock, Some variants, Some products) \<Rightarrow>
          (let productID1 = trim_space productID0; variantID = trim_space variantID0 in
           if productID1 = [] \<and> variantID = [] then Fail (AppErr Validation ''product or variant id is required'')
           else
             bindO (if variantID = [] then Ok productID1
                    else bindO (mapErr (Wrap (''variant '' @ variantID)) (of_res (vr_find variants variantID))) (\<lambda>found.
                      case found of
                        None \<Rightarrow> Fail (AppErr NotFound (''variant '' @ variantID @ '' not found''))
                      | Some v \<Rightarrow>
                          if productID1 \<noteq> [] \<and> productID1 \<noteq> v_ProductID v
                          then Fail (AppErr Validation ''variant does not belong to product'')
                          else Ok (v_ProductID v))) (\<lambda>productID.
             bindO (mapErr (Wrap (''product '' @ productID)) (of_res (pq_find products ctx productID))) (\<lambda>prod.
             case prod of
               None \<Rightarrow> Fail (AppErr NotFound (''product '' @ productID @ '' not found''))
             | Some p \<Rightarrow>
                 if pd_Type p = TypeGrouped then Ok 0
                 else if pd_Type p = TypeBundle \<and> pd_StockMode p = StockModeDynamic
                 then dynamicBundleAvailableQty ctx src (pd_ID p)
                 else
                   bindO (if variantID \<noteq> [] then Ok (Some variantID)
                          else bindO (mapErr (Wrap (''product '' @ productID @ '' variants''))
                                 (of_res (qs_ListByProductID src (pd_ID p))))
                                 (\<lambda>vs. Ok (case vs of [] \<Rightarrow> None | v # _ \<Rightarrow> Some (v_ID v)))) (\<lambda>stockVariantID.
                   case stockVariantID of
                     None \<Rightarrow> Ok 0
                   | Some x \<Rightarrow>
                       bindO (mapErr (Wrap (''variant '' @ x @ '' stock'')) (stock x)) (\<lambda>entry.
                       Ok (se_Quantity entry))))))
      | _ \<Rightarrow> Fail (AppErr Validation ''catalog repositories are required to resolve available quantity''))"

text \<open>\<open>apperror.Is\<close>: the code of the first application error in the chain.\<close>

fun app_code_of :: "gerror \<Rightarrow> app_code option" where
  "app_code_of (AppErr c s) = Some c"
| "app_code_of (AppWrap c s e) = Some c"
| "app_code_of (Wrap p e) = app_code_of e"
| "app_code_of (Around p e s) = app_code_of e"
| "app_code_of _ = None"

definition qty_error :: "gerror \<Rightarrow> gerror" where
  "qty_error e =
     (if app_message e = Some BundleCannotBeReservedMessage then e
      else if app_code_of e = Some Validation \<or> app_code_of e = Some NotFound then
        (case app_message e of
           Some m \<Rightarrow> if m \<noteq> [] then AppErr Validation m else AppWrap Validation ''available quantity'' e
         | None \<Rightarrow> AppWrap Validation ''available quantity'' e)
      else e)"

definition RejectQtyAboveAvailable ::
    "req_ctx \<Rightarrow> 'w qty_sources \<Rightarrow> string \<Rightarrow> string \<Rightarrow> int64 \<Rightarrow> unit outcome" where
  "RejectQtyAboveAvailable ctx src productID variantID lineQty =
     (if lineQty <s 1 then Fail (AppErr Validation ''quantity must be positive'')
      else bindO (mapErr qty_error (ResolveAvailableQty ctx src productID variantID)) (\<lambda>available.
        if available <s lineQty then Fail (AppErr Validation (''only '' @ go_itoa available @ '' available''))
        else Ok ()))"

section \<open>Lemmas\<close>

definition held :: "reservation_status \<Rightarrow> string \<Rightarrow> stock_db \<Rightarrow> int" where
  "held st v db = (\<Sum>r\<leftarrow>filter (\<lambda>r. rr_variant r = v \<and> rr_status r = st) (sd_reservations db). rr_quantity r)"

definition stock_ok :: "stock_db \<Rightarrow> bool" where
  "stock_ok db \<longleftrightarrow> (\<forall>v q t. sd_stock db v = Some (q, t) \<longrightarrow> 0 \<le> q \<and> int4 q) \<and>
     distinct (map rr_id (sd_reservations db)) \<and> (\<forall>r \<in> set (sd_reservations db). 0 < rr_quantity r)"

text \<open>
  The abstract inventory: for every variant the units on hand (if it has a stock row), the units
  that active reservations hold and the units that were confirmed.
\<close>

type_synonym units = "string \<Rightarrow> int option \<times> int \<times> int"

definition units_of :: "stock_db \<Rightarrow> units" where
  "units_of db v = (map_option fst (sd_stock db v), held ReservationActive v db, held ReservationConfirmed v db)"

inductive unit_move :: "units \<Rightarrow> units \<Rightarrow> bool" where
  take_units: "a v = (Some h, x, y) \<Longrightarrow> 0 < q \<Longrightarrow> q \<le> h \<Longrightarrow> unit_move a (a(v := (Some (h - q), x + q, y)))"
| give_back: "a v = (Some h, x, y) \<Longrightarrow> 0 < q \<Longrightarrow> unit_move a (a(v := (Some (h + q), x - q, y)))"
| lose_units: "a v = (None, x, y) \<Longrightarrow> 0 < q \<Longrightarrow> unit_move a (a(v := (None, x - q, y)))"
| confirm_units: "a v = (h, x, y) \<Longrightarrow> 0 < q \<Longrightarrow> unit_move a (a(v := (h, x - q, y + q)))"

inductive unit_set :: "units \<Rightarrow> units \<Rightarrow> bool" where
  set_level: "a v = (h, x, y) \<Longrightarrow> 0 \<le> h' \<Longrightarrow> unit_set a (a(v := (Some h', x, y)))"

lemma held_map:
  "held st v (db\<lparr>sd_stock := s\<rparr>) = held st v db"
  by (simp add: held_def)

lemma status_list:
  assumes "distinct (map rr_id rows)" "r \<in> set rows" "rr_status r = ReservationActive" "st \<noteq> ReservationActive"
  shows "(\<Sum>q\<leftarrow>filter (\<lambda>q. rr_variant q = v \<and> rr_status q = st')
      (map (\<lambda>q. if rr_id q \<in> set [rr_id r] then q\<lparr>rr_status := st\<rparr> else q) rows). rr_quantity q) =
    (\<Sum>q\<leftarrow>filter (\<lambda>q. rr_variant q = v \<and> rr_status q = st') rows. rr_quantity q) +
    (if rr_variant r = v then (if st' = st then rr_quantity r else if st' = ReservationActive then - rr_quantity r else 0) else 0)"
  using assms
proof (induction rows)
  case (Cons q rows)
  show ?case
  proof (cases "rr_id q = rr_id r")
    case True
    then have q: "q = r" using Cons.prems by auto
    have "map (\<lambda>q. if rr_id q \<in> set [rr_id r] then q\<lparr>rr_status := st\<rparr> else q) rows = rows"
      using Cons.prems(1) q by (intro map_idI) (auto simp: image_iff)
    then show ?thesis using q Cons.prems(3,4) by auto
  next
    case False
    then have "r \<in> set rows" using Cons.prems(2) by auto
    then show ?thesis using Cons.IH Cons.prems False by auto
  qed
qed simp

lemma held_status:
  assumes "stock_ok db" "r \<in> set (sd_reservations db)" "rr_status r = ReservationActive" "st \<noteq> ReservationActive"
  shows "held st' v (set_row_status st [rr_id r] db) = held st' v db +
    (if rr_variant r = v then (if st' = st then rr_quantity r else if st' = ReservationActive then - rr_quantity r else 0) else 0)"
  using status_list [OF _ assms(2,3,4), of v st'] assms(1) by (simp add: held_def set_row_status_def stock_ok_def)

lemma set_row_status_ok: "stock_ok db \<Longrightarrow> stock_ok (set_row_status st ids db)"
proof -
  assume ok: "stock_ok db"
  have "map rr_id (sd_reservations (set_row_status st ids db)) = map rr_id (sd_reservations db)"
    by (simp add: set_row_status_def)
  then show ?thesis using ok by (auto simp: stock_ok_def set_row_status_def simp del: map_map)
qed

lemma set_row_status_Cons:
  "set_row_status st (x # xs) db = set_row_status st xs (set_row_status st [x] db)"
  by (simp add: set_row_status_def o_def)

lemma restore_status:
  "restore_stock now v q (set_row_status st ids db) =
     (case restore_stock now v q db of Ok (t, db') \<Rightarrow> Ok (t, set_row_status st ids db') | Fail e \<Rightarrow> Fail e | Panics p \<Rightarrow> Panics p)"
  by (auto simp: restore_stock_def set_row_status_def split: option.splits)

text \<open>Releasing one active reservation.\<close>

lemma release_one:
  assumes ok: "stock_ok db" and r: "r \<in> set (sd_reservations db)" "rr_status r = ReservationActive"
    and res: "restore_stock now (rr_variant r) (rr_quantity r) (set_row_status ReservationReleased [rr_id r] db) = Ok (t, db1)"
  shows "stock_ok db1 \<and> unit_move (units_of db) (units_of db1) \<and>
    sd_reservations db1 = sd_reservations (set_row_status ReservationReleased [rr_id r] db)"
proof -
  let ?S = "set_row_status ReservationReleased [rr_id r] db"
  have S: "stock_ok ?S" by (rule set_row_status_ok [OF ok])
  have st: "sd_stock ?S = sd_stock db" by (simp add: set_row_status_def)
  have q: "0 < rr_quantity r" using ok r(1) by (simp add: stock_ok_def)
  note h = held_status [OF ok r, of ReservationReleased]
  show ?thesis
  proof (cases "sd_stock db (rr_variant r)")
    case None
    then have db1: "db1 = ?S" using res st by (simp add: restore_stock_def)
    have "units_of ?S = (units_of db)(rr_variant r := (None, held ReservationActive (rr_variant r) db - rr_quantity r,
        held ReservationConfirmed (rr_variant r) db))"
      using None h by (auto simp: units_of_def st fun_eq_iff)
    then show ?thesis using S db1 q None lose_units [of "units_of db" "rr_variant r"] by (simp add: units_of_def)
  next
    case (Some p)
    obtain hq tq where p: "p = (hq, tq)" by fastforce
    have db1: "db1 = ?S\<lparr>sd_stock := (sd_stock db)(rr_variant r \<mapsto> (hq + rr_quantity r, now))\<rparr>" and fit: "int4 (hq + rr_quantity r)"
      using res st Some p by (auto simp: restore_stock_def split: if_splits)
    have "units_of db1 = (units_of db)(rr_variant r := (Some (hq + rr_quantity r),
        held ReservationActive (rr_variant r) db - rr_quantity r, held ReservationConfirmed (rr_variant r) db))"
      using Some p h by (auto simp: units_of_def db1 held_map fun_eq_iff)
    moreover have "stock_ok db1"
      using S ok Some p fit q by (fastforce simp: stock_ok_def db1 st split: if_splits)
    ultimately show ?thesis
      using q Some p db1 give_back [of "units_of db" "rr_variant r" hq] by (simp add: units_of_def)
  qed
qed

text \<open>Releasing a batch is releasing its rows one by one.\<close>

definition active_rows :: "stock_db \<Rightarrow> res_row list \<Rightarrow> bool" where
  "active_rows db rs \<longleftrightarrow> distinct (map rr_id rs) \<and>
     (\<forall>r \<in> set rs. r \<in> set (sd_reservations db) \<and> rr_status r = ReservationActive)"

lemma active_rows_rest:
  assumes "active_rows db (r # rs)" "sd_reservations db1 = sd_reservations (set_row_status st [rr_id r] db)"
  shows "active_rows db1 rs"
proof -
  have "q \<in> set (sd_reservations db1)" if "q \<in> set rs" for q
  proof -
    have "q \<in> set (sd_reservations db)" "rr_id q \<noteq> rr_id r"
      using assms(1) that by (auto simp: active_rows_def image_iff)
    then show ?thesis by (force simp: assms(2) set_row_status_def image_iff)
  qed
  then show ?thesis using assms(1) by (simp add: active_rows_def)
qed

lemma restore_all_step:
  assumes "restore_all flt now (r # rs) db = Ok (released, orphaned, db')"
  obtains t S1 rel orph where "restore_stock now (rr_variant r) (rr_quantity r) db = Ok (t, S1)"
    "restore_all flt now rs S1 = Ok (rel, orph, db')" "length released = Suc (length rel)"
proof -
  from assms obtain t S1 where one: "restore_stock now (rr_variant r) (rr_quantity r) db = Ok (t, S1)"
    by (cases "restore_stock now (rr_variant r) (rr_quantity r) db")
      (auto simp: bindO_Ok_iff simp del: stmt_iff)
  with assms obtain rel orph d where two: "restore_all flt now rs S1 = Ok (rel, orph, d)"
    by (cases "restore_all flt now rs S1") (auto simp: bindO_Ok_iff)
  from assms one two have "d = db'" "length released = Suc (length rel)" by (auto simp: bindO_Ok_iff)
  with one two show thesis by (auto intro: that)
qed

lemma restore_all_moves:
  "stock_ok db \<Longrightarrow> active_rows db rs \<Longrightarrow>
   restore_all flt now rs (set_row_status ReservationReleased (map rr_id rs) db) = Ok (released, orphaned, db') \<Longrightarrow>
   stock_ok db' \<and> unit_move\<^sup>*\<^sup>* (units_of db) (units_of db') \<and> length released = length rs \<and>
   sd_reservations db' = sd_reservations (set_row_status ReservationReleased (map rr_id rs) db)"
proof (induction rs arbitrary: db released orphaned)
  case Nil
  then show ?case by (simp add: set_row_status_def)
next
  case (Cons r rs)
  let ?S = "set_row_status ReservationReleased [rr_id r] db"
  have split: "set_row_status ReservationReleased (map rr_id (r # rs)) db =
      set_row_status ReservationReleased (map rr_id rs) ?S"
    using set_row_status_Cons [of ReservationReleased "rr_id r" "map rr_id rs" db] by (simp only: list.map)
  have whole: "restore_all flt now (r # rs) (set_row_status ReservationReleased (map rr_id rs) ?S) = Ok (released, orphaned, db')"
    using Cons.prems(3) split by (simp only:)
  obtain t S1 rel orph where first: "restore_stock now (rr_variant r) (rr_quantity r)
        (set_row_status ReservationReleased (map rr_id rs) ?S) = Ok (t, S1)"
    and second: "restore_all flt now rs S1 = Ok (rel, orph, db')" and len: "length released = Suc (length rel)"
    using restore_all_step [OF whole] by metis
  obtain db1 where one: "restore_stock now (rr_variant r) (rr_quantity r) ?S = Ok (t, db1)"
    and S1: "S1 = set_row_status ReservationReleased (map rr_id rs) db1"
    using first by (cases "restore_stock now (rr_variant r) (rr_quantity r) ?S") (auto simp: restore_status)
  note rest = second [unfolded S1]
  have r: "r \<in> set (sd_reservations db)" "rr_status r = ReservationActive"
    using Cons.prems(2) by (auto simp: active_rows_def)
  note step = release_one [OF Cons.prems(1) r one]
  have "active_rows db1 rs"
    using active_rows_rest [OF Cons.prems(2)] step by blast
  from Cons.IH [OF _ this rest] step
  have "stock_ok db'" "unit_move\<^sup>*\<^sup>* (units_of db1) (units_of db')" "length rel = length rs"
    and res: "sd_reservations db' = sd_reservations (set_row_status ReservationReleased (map rr_id rs) db1)" by auto
  moreover have "unit_move (units_of db) (units_of db1)" using step by blast
  moreover have "sd_reservations db' = sd_reservations (set_row_status ReservationReleased (map rr_id (r # rs)) db)"
    unfolding split using res step by (simp add: set_row_status_def)
  ultimately show ?case using len by (auto intro: converse_rtranclp_into_rtranclp)
qed

lemma expired_rows_active:
  assumes "stock_ok db"
  shows "active_rows db (take n (expired_rows locked cutoff db))"
proof -
  let ?P = "\<lambda>r. rr_status r = ReservationActive \<and> rr_expires r < cutoff \<and> \<not> locked (rr_id r)"
  have "inj_on rr_id (set (sd_reservations db))" "distinct (sd_reservations db)"
    using assms by (simp_all add: stock_ok_def distinct_map)
  then have "distinct (map rr_id (expired_rows locked cutoff db))"
    by (auto simp: expired_rows_def distinct_map intro: inj_on_subset)
  then have "distinct (take n (map rr_id (expired_rows locked cutoff db)))" by (rule distinct_take)
  then show ?thesis
    by (auto simp: active_rows_def take_map expired_rows_def dest: in_set_takeD)
qed

lemma batchTx_Ok:
  assumes "batchTx flt locked now cutoff limit db = Ok ((released, orphaned), db')" "stock_ok db"
  shows "stock_ok db' \<and> unit_move\<^sup>*\<^sup>* (units_of db) (units_of db') \<and> 0 \<le> sint limit \<and>
    (let rs = take (nat (sint limit)) (expired_rows locked cutoff db) in
     length released = length rs \<and>
     sd_reservations db' = sd_reservations (set_row_status ReservationReleased (map rr_id rs) db))"
proof -
  let ?rs = "take (nat (sint limit)) (expired_rows locked cutoff db)"
  have lim: "0 \<le> sint limit" using assms(1) by (auto simp: batchTx_def i64 split: if_splits)
  show ?thesis
  proof (cases "?rs = []")
    case True
    then show ?thesis using assms lim by (auto simp: batchTx_def Let_def set_row_status_def split: if_splits)
  next
    case False
    then have "restore_all flt now ?rs (set_row_status ReservationReleased (map rr_id ?rs) db) = Ok (released, orphaned, db')"
      using assms(1) by (auto simp: batchTx_def Let_def split: if_splits)
    from restore_all_moves [OF assms(2) expired_rows_active [OF assms(2)] this] lim show ?thesis
      by (simp add: Let_def)
  qed
qed

text \<open>The other operations.\<close>

lemma reserveTx_shape:
  assumes "reserveTx flt now res db = Ok (u, db')"
  obtains hq t where "sd_stock db (rv_VariantID res) = Some (hq, t)" "0 < sint (rv_Quantity res)" "sint (rv_Quantity res) \<le> hq"
    "int4 (hq - sint (rv_Quantity res))" "rv_ID res \<notin> rr_id ` set (sd_reservations db)"
    "db' = \<lparr>sd_stock = (sd_stock db)(rv_VariantID res \<mapsto> (hq - sint (rv_Quantity res), now)),
       sd_reservations = sd_reservations db @ [\<lparr>rr_id = rv_ID res, rr_variant = rv_VariantID res,
         rr_quantity = sint (rv_Quantity res), rr_status = rv_Status res, rr_expires = rv_ExpiresAt res,
         rr_created = rv_CreatedAt res\<rparr>]\<rparr>"
  using assms by (force simp: reserveTx_def Let_def list_ex_iff split: option.splits if_splits)

lemma reserveTx_Ok:
  assumes "reserveTx flt now res db = Ok (u, db')" "stock_ok db" "rv_Status res = ReservationActive"
  shows "stock_ok db' \<and> unit_move (units_of db) (units_of db')"
proof -
  from reserveTx_shape [OF assms(1)] obtain hq t where hq: "sd_stock db (rv_VariantID res) = Some (hq, t)" and q: "0 < sint (rv_Quantity res)" "sint (rv_Quantity res) \<le> hq"
    and fit: "int4 (hq - sint (rv_Quantity res))" and fresh: "rv_ID res \<notin> rr_id ` set (sd_reservations db)"
    and db': "db' = \<lparr>sd_stock = (sd_stock db)(rv_VariantID res \<mapsto> (hq - sint (rv_Quantity res), now)),
       sd_reservations = sd_reservations db @ [\<lparr>rr_id = rv_ID res, rr_variant = rv_VariantID res,
         rr_quantity = sint (rv_Quantity res), rr_status = rv_Status res, rr_expires = rv_ExpiresAt res,
         rr_created = rv_CreatedAt res\<rparr>]\<rparr>"
    by metis
  have "units_of db' = (units_of db)(rv_VariantID res := (Some (hq - sint (rv_Quantity res)),
      held ReservationActive (rv_VariantID res) db + sint (rv_Quantity res), held ReservationConfirmed (rv_VariantID res) db))"
    using hq assms(3) by (auto simp: units_of_def held_def db' fun_eq_iff)
  then have "unit_move (units_of db) (units_of db')"
    using take_units [of "units_of db" "rv_VariantID res" hq] hq q by (simp add: units_of_def)
  moreover have "stock_ok db'"
    using assms(2) q fit fresh by (auto simp: stock_ok_def db' image_iff split: if_splits)
  ultimately show ?thesis by simp
qed

lemma find_active_Some:
  "find_active db rid = Some r \<Longrightarrow> r \<in> set (sd_reservations db) \<and> rr_id r = rid \<and> rr_status r = ReservationActive"
  by (auto simp: find_active_def find_Some_iff)

lemma releaseTx_Ok:
  assumes "releaseTx flt now rid db = Ok (u, db')" "stock_ok db"
  shows "stock_ok db' \<and> unit_move (units_of db) (units_of db')"
proof -
  obtain r t where r: "find_active db rid = Some r"
    and res: "restore_stock now (rr_variant r) (rr_quantity r) (set_row_status ReservationReleased [rid] db) = Ok (t, db')"
    using assms(1) by (auto simp: releaseTx_def split: option.splits)
  from find_active_Some [OF r] release_one [OF assms(2), of r now t db'] res show ?thesis by auto
qed

lemma confirm_one:
  assumes r: "find_active db rid = Some r" and ok: "stock_ok db"
  shows "unit_move (units_of db) (units_of (set_row_status ReservationConfirmed [rid] db))"
proof -
  let ?v = "rr_variant r" and ?D = "set_row_status ReservationConfirmed [rid] db"
  from find_active_Some [OF r] have mem: "r \<in> set (sd_reservations db)" "rr_status r = ReservationActive" "rr_id r = rid" by auto
  note h = held_status [OF ok mem(1,2), of ReservationConfirmed, unfolded mem(3)]
  have "units_of ?D = (units_of db)(?v := (map_option fst (sd_stock db ?v), held ReservationActive ?v db - rr_quantity r,
      held ReservationConfirmed ?v db + rr_quantity r))"
    using h by (auto simp: units_of_def set_row_status_def fun_eq_iff)
  moreover have "0 < rr_quantity r" using ok mem by (simp add: stock_ok_def)
  ultimately show ?thesis using confirm_units [of "units_of db" ?v] by (simp add: units_of_def)
qed

lemma put_stock_Ok:
  assumes "put_stock variants e db = Ok db'" "stock_ok db"
  shows "stock_ok db' \<and> unit_set (units_of db) (units_of db')"
proof -
  let ?v = "se_VariantID e" and ?q = "sint (se_Quantity e)"
  have db': "db' = db\<lparr>sd_stock := (sd_stock db)(?v \<mapsto> (?q, se_UpdatedAt e))\<rparr>" "0 \<le> ?q" "int4 ?q"
    using assms(1) by (auto simp: put_stock_def Let_def split: if_splits)
  have "units_of db' = (units_of db)(?v := (Some ?q, held ReservationActive ?v db, held ReservationConfirmed ?v db))"
    by (auto simp: units_of_def db' held_map fun_eq_iff)
  then show ?thesis
    using set_level [of "units_of db" ?v _ _ _ ?q] db' assms(2) by (auto simp: units_of_def stock_ok_def split: if_splits)
qed

lemma put_stocks_Ok:
  "put_stocks variants es db = Ok db' \<Longrightarrow> stock_ok db \<Longrightarrow> stock_ok db' \<and> unit_set\<^sup>*\<^sup>* (units_of db) (units_of db')"
proof (induction es arbitrary: db)
  case (Cons e es)
  then obtain db1 where e: "put_stock variants e db = Ok db1" and es: "put_stocks variants es db1 = Ok db'" by auto
  from put_stock_Ok [OF e Cons.prems(2)] Cons.IH [OF es] show ?case by (auto intro: converse_rtranclp_into_rtranclp)
qed simp

section \<open>Histories\<close>

datatype stock_op =
    OpReserve db_faults gotime "reservation option"
  | OpRelease db_faults gotime string
  | OpConfirm db_faults string
  | OpBatch db_faults "string \<Rightarrow> bool" gotime gotime int64
  | OpSet db_faults "string \<Rightarrow> bool" "stock_entry option"
  | OpSets db_faults "string \<Rightarrow> bool" "stock_entry list"

fun stock_step :: "stock_op \<Rightarrow> stock_db \<Rightarrow> unit outcome \<times> stock_db" where
  "stock_step (OpReserve flt now res) db = Reserve flt now db res"
| "stock_step (OpRelease flt now rid) db = Repo_Release flt now db rid"
| "stock_step (OpConfirm flt rid) db = Repo_Confirm flt db rid"
| "stock_step (OpBatch flt locked now cutoff limit) db =
     (case releaseExpiredBatch flt locked now cutoff limit db of (r, db') \<Rightarrow> (bindO r (\<lambda>_. Ok ()), db'))"
| "stock_step (OpSet flt variants e) db = SetStock flt variants db e"
| "stock_step (OpSets flt variants es) db = SetStocks flt variants db es"

fun sets_level :: "stock_op \<Rightarrow> bool" where
  "sets_level (OpSet _ _ _) = True"
| "sets_level (OpSets _ _ _) = True"
| "sets_level _ = False"

text \<open>What an operation may do to the abstract inventory.\<close>

definition moved :: "(units \<Rightarrow> units \<Rightarrow> bool) \<Rightarrow> stock_db \<Rightarrow> stock_db \<Rightarrow> bool" where
  "moved st db db' \<longleftrightarrow> stock_ok db' \<and> st\<^sup>*\<^sup>* (units_of db) (units_of db')"

lemma moved_refl: "stock_ok db \<Longrightarrow> moved st db db"
  by (simp add: moved_def)

lemma moved_one: "stock_ok db' \<Longrightarrow> st (units_of db) (units_of db') \<Longrightarrow> moved st db db'"
  by (simp add: moved_def)

lemma stock_move:
  assumes "\<not> sets_level x" "stock_ok db"
  shows "moved unit_move db (snd (stock_step x db))"
proof (cases x)
  case (OpReserve flt now res)
  show ?thesis
  proof (cases res)
    case (Some q)
    have "moved unit_move db (snd (txn db (reserveTx flt now q db)))" if "rv_Status q = ReservationActive"
      by (rule txn_keeps) (use assms(2) reserveTx_Ok [OF _ assms(2) that] in \<open>auto intro: moved_refl moved_one\<close>)
    then show ?thesis using OpReserve Some moved_refl [OF assms(2)] by (simp add: Reserve_def)
  qed (use OpReserve moved_refl [OF assms(2)] in \<open>simp add: Reserve_def\<close>)
next
  case (OpRelease flt now rid)
  have "moved unit_move db (snd (txn db (releaseTx flt now rid db)))"
    by (rule txn_keeps) (use assms(2) releaseTx_Ok [OF _ assms(2)] in \<open>auto intro: moved_refl moved_one\<close>)
  then show ?thesis using OpRelease moved_refl [OF assms(2)] by (simp add: Repo_Release_def)
next
  case (OpConfirm flt rid)
  have "moved unit_move db (snd (txn db (bindO (stmt flt ''reservation_repo: confirm'') (\<lambda>_.
      case find_active db rid of None \<Rightarrow> Fail (AppErr NotFound ''reservation not found or not active'')
        | Some r \<Rightarrow> Ok ((), set_row_status ReservationConfirmed [rid] db)))))"
    by (rule txn_keeps)
      (use assms(2) confirm_one [OF _ assms(2)] set_row_status_ok [OF assms(2)] in
        \<open>auto intro: moved_refl moved_one split: option.splits\<close>)
  then show ?thesis using OpConfirm moved_refl [OF assms(2)] by (simp add: Repo_Confirm_def)
next
  case (OpBatch flt locked now cutoff limit)
  have "moved unit_move db (snd (txn db (batchTx flt locked now cutoff limit db)))"
    by (rule txn_keeps)
      (use assms(2) batchTx_Ok [OF _ assms(2)] in \<open>auto intro: moved_refl simp: moved_def\<close>)
  then show ?thesis using OpBatch
    by (cases "txn db (batchTx flt locked now cutoff limit db)") (simp add: releaseExpiredBatch_def)
qed (use assms(1) in simp_all)

lemma stock_level:
  assumes "sets_level x" "stock_ok db"
  shows "moved unit_set db (snd (stock_step x db))"
proof (cases x)
  case (OpSet flt variants e)
  show ?thesis
  proof (cases e)
    case (Some q)
    have "moved unit_set db (snd (txn db (bindO (stmt flt ''stock_repo: set stock'') (\<lambda>_.
        bindO (mapErr (Wrap ''stock_repo: set stock'') (put_stock variants q db)) (\<lambda>db'. Ok ((), db'))))))"
      by (rule txn_keeps) (use assms(2) put_stock_Ok [OF _ assms(2)] in \<open>auto intro: moved_refl moved_one\<close>)
    then show ?thesis using OpSet Some by (simp add: SetStock_def)
  qed (use OpSet moved_refl [OF assms(2)] in \<open>simp add: SetStock_def\<close>)
next
  case (OpSets flt variants es)
  have "moved unit_set db (snd (txn db (bindO (stmt flt ''stock_repo: set stocks'') (\<lambda>_.
      bindO (mapErr (Wrap ''stock_repo: set stocks'') (put_stocks variants (last_entries es) db)) (\<lambda>db'. Ok ((), db'))))))"
    by (rule txn_keeps) (use assms(2) put_stocks_Ok [OF _ assms(2)] in \<open>auto intro: moved_refl simp: moved_def\<close>)
  then show ?thesis using OpSets moved_refl [OF assms(2)] by (simp add: SetStocks_def)
qed (use assms(1) in simp_all)

interpretation inventory_all: db_refinement stock_step "\<lambda>_. True" stock_ok units_of
    "(\<lambda>a b. unit_move a b \<or> unit_set a b)\<^sup>*\<^sup>*"
proof
  fix x db
  assume ok: "stock_ok db"
  have "moved unit_move db (snd (stock_step x db)) \<or> moved unit_set db (snd (stock_step x db))"
    using stock_move [OF _ ok] stock_level [OF _ ok] by blast
  moreover have "unit_move\<^sup>*\<^sup>* a b \<Longrightarrow> (\<lambda>a b. unit_move a b \<or> unit_set a b)\<^sup>*\<^sup>* a b"
      "unit_set\<^sup>*\<^sup>* a b \<Longrightarrow> (\<lambda>a b. unit_move a b \<or> unit_set a b)\<^sup>*\<^sup>* a b" for a b
    by (erule rtranclp_mono [THEN predicate2D, rotated], blast)+
  ultimately show "stock_ok (snd (stock_step x db))"
    and "units_of (snd (stock_step x db)) = units_of db \<or>
      (\<lambda>a b. unit_move a b \<or> unit_set a b)\<^sup>*\<^sup>* (units_of db) (units_of (snd (stock_step x db)))"
    by (auto simp: moved_def)
qed

interpretation inventory_moves: db_refinement stock_step "\<lambda>x. \<not> sets_level x" stock_ok units_of "unit_move\<^sup>*\<^sup>*"
  by unfold_locales (use stock_move in \<open>auto simp: moved_def\<close>)

text \<open>Moves keep the sum of the units of a variant that has a stock row.\<close>

fun unit_sum :: "int option \<times> int \<times> int \<Rightarrow> int" where
  "unit_sum (h, x, y) = (case h of None \<Rightarrow> 0 | Some n \<Rightarrow> n) + x + y"

lemma unit_move_sum: "unit_move a b \<Longrightarrow> fst (a v) \<noteq> None \<Longrightarrow> fst (b v) \<noteq> None \<and> unit_sum (b v) = unit_sum (a v)"
  by (induction rule: unit_move.induct) auto

lemma unit_moves_sum: "unit_move\<^sup>*\<^sup>* a b \<Longrightarrow> fst (a v) \<noteq> None \<Longrightarrow> fst (b v) \<noteq> None \<and> unit_sum (b v) = unit_sum (a v)"
  by (induction rule: rtranclp_induct) (auto dest: unit_move_sum)

lemma held_nonneg: "stock_ok db \<Longrightarrow> 0 \<le> held st v db"
  unfolding held_def by (rule sum_list_nonneg) (auto simp: stock_ok_def intro: less_imp_le)

section \<open>The sweep\<close>

definition due :: "gotime \<Rightarrow> stock_db \<Rightarrow> res_row list" where
  "due cutoff db = filter (\<lambda>r. rr_status r = ReservationActive \<and> rr_expires r < cutoff) (sd_reservations db)"

definition quiet :: "sweep_env \<Rightarrow> bool" where
  "quiet env \<longleftrightarrow> (\<forall>k. \<not> sw_done env k \<and> (\<forall>l. sw_fault env k l = None) \<and> (\<forall>r. \<not> sw_locked env k r))"

lemma moved_trans: "moved st a b \<Longrightarrow> moved st b c \<Longrightarrow> moved st a c"
  unfolding moved_def by (blast intro: rtranclp_trans)

lemma expired_rows_due:
  "length (expired_rows locked cutoff db) \<le> length (due cutoff db)"
  "set (expired_rows locked cutoff db) \<subseteq> set (due cutoff db)"
  "\<forall>r. \<not> locked r \<Longrightarrow> length (expired_rows locked cutoff db) = length (due cutoff db)"
proof -
  have f: "filter (\<lambda>r. rr_status r = ReservationActive \<and> rr_expires r < cutoff \<and> \<not> locked (rr_id r)) (sd_reservations db) =
      filter (\<lambda>r. \<not> locked (rr_id r)) (due cutoff db)"
    by (simp add: due_def conj_ac)
  show "length (expired_rows locked cutoff db) \<le> length (due cutoff db)"
    "set (expired_rows locked cutoff db) \<subseteq> set (due cutoff db)"
    "\<forall>r. \<not> locked r \<Longrightarrow> length (expired_rows locked cutoff db) = length (due cutoff db)"
    unfolding expired_rows_def f by (auto simp: length_filter_le)
qed

lemma due_release:
  assumes "stock_ok db" "active_rows db rs" "set rs \<subseteq> set (due cutoff db)"
    and db': "sd_reservations db' = sd_reservations (set_row_status ReservationReleased (map rr_id rs) db)"
  shows "length (due cutoff db') + length rs = length (due cutoff db)"
proof -
  have inj: "inj_on rr_id (set (sd_reservations db))" and dist: "distinct (sd_reservations db)"
    using assms(1) by (simp_all add: stock_ok_def distinct_map)
  have "due cutoff db' = filter (\<lambda>r. rr_id r \<notin> set (map rr_id rs)) (due cutoff db)"
  proof -
    have "filter (\<lambda>r. rr_status r = ReservationActive \<and> rr_expires r < cutoff)
          (map (\<lambda>r. if rr_id r \<in> X then r\<lparr>rr_status := ReservationReleased\<rparr> else r) xs) =
        filter (\<lambda>r. rr_id r \<notin> X) (filter (\<lambda>r. rr_status r = ReservationActive \<and> rr_expires r < cutoff) xs)" for X xs
      by (induction xs) auto
    then show ?thesis unfolding due_def db' by (simp add: set_row_status_def del: set_map)
  qed
  moreover have "length (filter (\<lambda>r. rr_id r \<in> set (map rr_id rs)) (due cutoff db)) = length rs"
  proof -
    have sub: "set rs \<subseteq> set (sd_reservations db)" using assms(2) by (auto simp: active_rows_def)
    have "set (filter (\<lambda>r. rr_id r \<in> set (map rr_id rs)) (due cutoff db)) = set rs"
    proof (intro equalityI subsetI)
      fix r assume "r \<in> set (filter (\<lambda>r. rr_id r \<in> set (map rr_id rs)) (due cutoff db))"
      then obtain q where "r \<in> set (sd_reservations db)" "q \<in> set rs" "rr_id r = rr_id q" by (auto simp: due_def)
      then show "r \<in> set rs" using inj_onD [OF inj] sub by blast
    qed (use assms(3) in auto)
    moreover have "distinct (filter (\<lambda>r. rr_id r \<in> set (map rr_id rs)) (due cutoff db))"
      using dist by (simp add: due_def)
    moreover have "distinct rs" using assms(2) by (simp add: active_rows_def distinct_map)
    ultimately show ?thesis by (metis distinct_card)
  qed
  ultimately show ?thesis
    using sum_length_filter_compl [of "\<lambda>r. rr_id r \<in> set (map rr_id rs)" "due cutoff db"] by simp
qed

lemma batch_due:
  assumes "batchTx flt locked now cutoff limit db = Ok ((released, orphaned), db')" "stock_ok db"
  shows "length (due cutoff db') + length released = length (due cutoff db)"
    and "(\<forall>r. \<not> locked r) \<Longrightarrow> int (length released) < sint limit \<Longrightarrow> due cutoff db' = []"
proof -
  let ?rs = "take (nat (sint limit)) (expired_rows locked cutoff db)"
  note b = batchTx_Ok [OF assms, unfolded Let_def]
  have "set ?rs \<subseteq> set (due cutoff db)"
    using expired_rows_due(2) [of locked cutoff db] by (auto dest: in_set_takeD)
  from due_release [OF assms(2) expired_rows_active [OF assms(2)] this, of db'] b
  show *: "length (due cutoff db') + length released = length (due cutoff db)" by simp
  assume "\<forall>r. \<not> locked r" and short: "int (length released) < sint limit"
  then have "length released = length (due cutoff db)"
    using b expired_rows_due(3) [of locked cutoff db] by (auto simp: min_def split: if_splits)
  then show "due cutoff db' = []" using * by simp
qed

lemma restore_all_Fail:
  "(\<And>l. stmt flt l = Ok ()) \<Longrightarrow> restore_all flt now rs db = Fail e \<Longrightarrow> e = Wrap ''reservation_repo: restore stock'' out_of_range"
proof (induction rs arbitrary: db)
  case (Cons r rs)
  show ?case
  proof (cases "restore_stock now (rr_variant r) (rr_quantity r) db")
    case (Ok p)
    obtain t db1 where p: "p = (t, db1)" by fastforce
    show ?thesis using Cons Ok p by (cases "restore_all flt now rs db1") (auto simp del: stmt_iff)
  qed (use Cons.prems in \<open>auto simp: restore_stock_def simp del: stmt_iff split: option.splits if_splits\<close>)
qed simp

lemma batch_Fail:
  assumes "\<forall>l. flt l = None" "batchTx flt locked now cutoff limit db = Fail e"
  shows "\<not> isContextError e"
proof -
  have s: "stmt flt l = Ok ()" for l using assms(1) by (simp add: stmt_def)
  let ?rs = "take (nat (sint limit)) (expired_rows locked cutoff db)"
  let ?db = "set_row_status ReservationReleased (map rr_id ?rs) db"
  have "e = Wrap ''reservation_repo: select expired batch'' (Err ''LIMIT must not be negative'') \<or>
      e = Wrap ''reservation_repo: restore stock'' out_of_range"
  proof (cases "limit <s 0 \<or> ?rs = []")
    case True
    then show ?thesis using assms(2) by (auto simp: batchTx_def s Let_def split: if_splits)
  next
    case False
    then show ?thesis
      using assms(2) restore_all_Fail [OF s, of now ?rs ?db]
      by (cases "restore_all flt now ?rs ?db") (auto simp: batchTx_def s Let_def)
  qed
  then show ?thesis by (auto simp: isContextError_def ContextCanceled_def DeadlineExceeded_def out_of_range_def)
qed

lemma sweep_loop_returns:
  assumes "stock_ok db" "0 < sint batchSize"
  shows "\<exists>rel orph err db'. sweep_loop env cutoff batchSize k released orphaned db = Some (rel, orph, err, db') \<and>
    moved unit_move db db' \<and> length rel + length (due cutoff db') = length released + length (due cutoff db) \<and>
    (quiet env \<and> err = None \<longrightarrow> due cutoff db' = [])"
  using assms(1)
proof (induction "length (due cutoff db)" arbitrary: k released orphaned db rule: less_induct)
  case less
  let ?b = "batchTx (sw_fault env k) (sw_locked env k) (sw_now env k) cutoff batchSize db"
  note unfold = sweep_loop.simps [of env cutoff batchSize k released orphaned db]
  note idle = moved_refl [OF less.prems, of unit_move]
  show ?case
  proof (cases "sw_done env k")
    case True
    then show ?thesis using idle unfold by (auto simp: quiet_def)
  next
    case False
    show ?thesis
    proof (cases ?b)
      case (Ok p)
      obtain batch orph db1 where p: "p = ((batch, orph), db1)" by (metis surj_pair)
      note ok = Ok [unfolded p]
      have m: "moved unit_move db db1" using batchTx_Ok [OF ok less.prems] by (simp add: moved_def)
      note d = batch_due [OF ok less.prems]
      have run: "releaseExpiredBatch (sw_fault env k) (sw_locked env k) (sw_now env k) cutoff batchSize db = (Ok (batch, orph), db1)"
        by (simp add: releaseExpiredBatch_def ok)
      show ?thesis
      proof (cases "int (length batch) < sint batchSize")
        case True
        then show ?thesis using False run unfold m d by (simp add: quiet_def)
      next
        case more: False
        then have "length (due cutoff db1) < length (due cutoff db)" using d(1) assms(2) by linarith
        from less.hyps [OF this, of "Suc k" "released @ batch" "orphaned @ orph"] m
        obtain rel orph' err db' where "sweep_loop env cutoff batchSize (Suc k) (released @ batch) (orphaned @ orph) db1 =
            Some (rel, orph', err, db')" and r: "moved unit_move db1 db'"
          "length rel + length (due cutoff db') = length (released @ batch) + length (due cutoff db1)"
          "quiet env \<and> err = None \<longrightarrow> due cutoff db' = []" by (auto simp: moved_def)
        then show ?thesis using False more run unfold d(1) moved_trans [OF m r(1)] by simp
      qed
    next
      case (Fail e)
      have "quiet env \<Longrightarrow> \<not> isContextError e" using batch_Fail [OF _ Fail] by (simp add: quiet_def)
      then show ?thesis using False Fail idle unfold by (auto simp: releaseExpiredBatch_def)
    next
      case (Panics q)
      then show ?thesis using False idle unfold by (auto simp: releaseExpiredBatch_def)
    qed
  qed
qed

section \<open>Properties\<close>

text \<open>C10: Units are conserved. Whatever sequence of reservations, releases, confirmations and
  expiry batches runs, with driver errors anywhere, a variant with a stock row keeps its row, its
  level never falls below zero, and the units on hand, held by active reservations and confirmed
  add up to what they were: no reservation is given back twice and none oversells.\<close>

theorem stock_conserved:
  assumes "\<forall>x \<in> set xs. \<not> sets_level x" "stock_ok db" "sd_stock db v = Some (h, t)"
  shows "\<exists>h' t'. sd_stock (run_db stock_step xs db) v = Some (h', t') \<and> 0 \<le> h' \<and>
    h' + held ReservationActive v (run_db stock_step xs db) + held ReservationConfirmed v (run_db stock_step xs db) =
    h + held ReservationActive v db + held ReservationConfirmed v db"
proof -
  let ?d = "run_db stock_step xs db"
  have "unit_move\<^sup>*\<^sup>* (units_of db) (units_of ?d)"
    using inventory_moves.run_abs [OF assms(1,2)] by simp
  from unit_moves_sum [OF this, of v] assms(3)
  have *: "sd_stock ?d v \<noteq> None" "unit_sum (units_of ?d v) = unit_sum (units_of db v)" by (simp_all add: units_of_def)
  then obtain h' t' where s: "sd_stock ?d v = Some (h', t')" by auto
  moreover have "0 \<le> h'" using inventory_moves.run_inv [OF assms(1,2)] s by (auto simp: stock_ok_def)
  ultimately show ?thesis using * assms(3) by (simp add: units_of_def)
qed

text \<open>C15: The expiry sweep always returns when its batch size is positive: every full batch
  shrinks the set of due reservations, so the loop stops; it releases each due reservation at most
  once, what it did is a sequence of moves of the abstract inventory, and without interference and
  without an error other than the orphan warning nothing due is left.\<close>

theorem sweep_returns:
  assumes "stock_ok db" "0 < sint batchSize"
  shows "\<exists>released err db'. ReleaseExpiredBefore env batchSize cutoff db = Some (released, err, db') \<and>
    moved unit_move db db' \<and> length released + length (due cutoff db') = length (due cutoff db) \<and>
    (quiet env \<and> (\<forall>e. err \<noteq> Some (SweepFailed e)) \<longrightarrow> due cutoff db' = [])"
proof -
  from sweep_loop_returns [OF assms, of env cutoff 0 "[]" "[]"]
  obtain rel orph err db' where run: "sweep_loop env cutoff batchSize 0 [] [] db = Some (rel, orph, err, db')"
    and r: "moved unit_move db db'" "length rel + length (due cutoff db') = length (due cutoff db)"
      "quiet env \<and> err = None \<longrightarrow> due cutoff db' = []" by auto
  show ?thesis
    using r by (cases err) (simp_all add: ReleaseExpiredBefore_def run)
qed
lemma sint_kits:
  assumes "\<not> c <s (1 :: int64)"
  shows "sint (if go_div a c <s 0 then 0 else go_div a c) = max 0 (sint a) div sint c"
proof -
  have c: "0 < sint c" using assms by (simp add: i64)
  note d = sint_go_div_pos [OF c, of a]
  show ?thesis
  proof (cases "0 \<le> sint a")
    case True
    then show ?thesis using c d by (simp add: i64 sdiv_nonneg_int not_less pos_imp_zdiv_nonneg_iff)
  next
    case False
    then have "sint (go_div a c) \<le> 0" using c d by (simp add: signed_divide_int_def sgn_if pos_imp_zdiv_nonneg_iff)
    then show ?thesis using False by (auto simp: i64)
  qed
qed

text \<open>The leaf \<open>l\<close> of a bundle has stock for \<open>k\<close> kits.\<close>

definition kits_fit :: "(string \<Rightarrow> stock_entry outcome) \<Rightarrow> int \<Rightarrow> 'w required_leaf \<Rightarrow> bool" where
  "kits_fit stock k l \<longleftrightarrow> pd_Type (rl_Product l) = TypeSimple \<longrightarrow>
     (\<exists>e. stock (v_ID (rl_Variant l)) = Ok e \<and> k * sint (bc_Quantity (rl_Component l)) \<le> max 0 (sint (se_Quantity e)))"

lemma kits_loop_exact:
  "kits_loop stock ls m gated = Ok (m', gated') \<Longrightarrow> 0 \<le> sint m \<Longrightarrow>
   (gated' \<longleftrightarrow> gated \<or> (\<exists>l \<in> set ls. pd_Type (rl_Product l) = TypeSimple)) \<and> 0 \<le> sint m' \<and>
   (\<forall>k. k \<le> sint m' \<longleftrightarrow> k \<le> sint m \<and> (\<forall>l \<in> set ls. kits_fit stock k l))"
proof (induction ls arbitrary: m gated)
  case (Cons l ls)
  show ?case
  proof (cases "pd_Type (rl_Product l) = TypeSimple")
    case False
    then have "kits_loop stock ls m gated = Ok (m', gated')"
      using Cons.prems(1) by (auto simp: Let_def split: if_splits)
    from Cons.IH [OF this Cons.prems(2)] False show ?thesis by (auto simp: kits_fit_def)
  next
    case True
    obtain e where e: "stock (v_ID (rl_Variant l)) = Ok e" and c: "\<not> bc_Quantity (rl_Component l) <s 1"
      using Cons.prems(1) True by (auto simp: Let_def split: if_splits)
    define kits where "kits = (if go_div (se_Quantity e) (bc_Quantity (rl_Component l)) <s 0 then 0
        else go_div (se_Quantity e) (bc_Quantity (rl_Component l)))"
    have run: "kits_loop stock ls (if kits <s m then kits else m) True = Ok (m', gated')"
      using Cons.prems(1) True e c by (simp add: Let_def kits_def [symmetric] cong: if_cong split del: if_split)
    have s: "sint kits = max 0 (sint (se_Quantity e)) div sint (bc_Quantity (rl_Component l))"
      unfolding kits_def by (rule sint_kits [OF c])
    have c0: "0 < sint (bc_Quantity (rl_Component l))" using c by (simp add: i64)
    then have k: "k \<le> sint kits \<longleftrightarrow> kits_fit stock k l" for k
      using True e by (simp add: kits_fit_def s le_div_iff_mult)
    have "0 \<le> sint kits" using c0 by (simp add: s pos_imp_zdiv_nonneg_iff)
    then have m: "0 \<le> sint (if kits <s m then kits else m)" "\<And>k. k \<le> sint (if kits <s m then kits else m) \<longleftrightarrow> k \<le> sint m \<and> kits_fit stock k l"
      using Cons.prems(2) by (auto simp: i64 k [symmetric])
    from Cons.IH [OF run m(1)] m(2) True show ?thesis by auto
  qed
qed simp

text \<open>C23: A dynamic bundle can be sold exactly as often as its parts allow. When the available
  quantity of a bundle resolves and some part is a stocked (simple) product, \<open>k\<close> kits are within
  it exactly when every stocked part has \<open>k\<close> times its quantity per kit on hand; a bundle of
  digital parts alone is capped at 100.\<close>

theorem bundle_qty_exact:
  assumes "dynamicBundleAvailableQty ctx src b = Ok q"
    "RequiredLeafVariants ctx (qs_Products src) (qs_Variants src) (qs_Components src) b = Ok leaves"
    "qs_Stock src = Some stock"
  shows "if \<exists>l \<in> set leaves. pd_Type (rl_Product l) = TypeSimple
    then \<forall>k. k \<le> sint q \<longleftrightarrow> k \<le> sint MaxInt64 \<and> (\<forall>l \<in> set leaves. kits_fit stock k l)
    else q = 100"
proof -
  obtain m g where run: "kits_loop stock leaves MaxInt64 False = Ok (m, g)"
    and q: "q = (if \<not> g then MaxDigitalBundleLineQty else m)"
    using assms by (auto simp: dynamicBundleAvailableQty_def)
  from kits_loop_exact [OF run] q show ?thesis by (auto simp: MaxDigitalBundleLineQty_def)
qed

section \<open>Witnesses\<close>

definition demo_stock :: stock_db where
  "demo_stock = \<lparr>sd_stock = [''v'' \<mapsto> (10, 0)], sd_reservations = []\<rparr>"

definition demo_reservation :: "string \<Rightarrow> int64 \<Rightarrow> gotime \<Rightarrow> reservation" where
  "demo_reservation rid q e = \<lparr>rv_ID = rid, rv_VariantID = ''v'', rv_Quantity = q, rv_Status = ReservationActive,
     rv_ExpiresAt = e, rv_CreatedAt = 0\<rparr>"

lemma demo_stock_ok: "stock_ok demo_stock"
  by (simp add: stock_ok_def demo_stock_def int4_def)

lemma stmt_none: "stmt (\<lambda>_. None) l = Ok ()"
  by (simp add: stmt_def)

lemmas stock_eval = stock_step.simps Reserve_def reserveTx_def demo_stock_def demo_reservation_def int4_def stmt_none
  releaseExpiredBatch_def batchTx_def expired_rows_def set_row_status_def restore_stock_def i64

text \<open>Two reservations, of which one has expired when the batch runs.\<close>

abbreviation demo_ops :: "stock_op list" where
  "demo_ops \<equiv> [OpReserve (\<lambda>_. None) 1 (Some (demo_reservation ''r1'' 4 5)),
     OpReserve (\<lambda>_. None) 2 (Some (demo_reservation ''r2'' 3 50)),
     OpBatch (\<lambda>_. None) (\<lambda>_. False) 9 9 500]"

lemma demo_run:
  "run_db stock_step demo_ops demo_stock = \<lparr>sd_stock = [''v'' \<mapsto> (7, 9)], sd_reservations =
     [\<lparr>rr_id = ''r1'', rr_variant = ''v'', rr_quantity = 4, rr_status = ReservationReleased, rr_expires = 5, rr_created = 0\<rparr>,
      \<lparr>rr_id = ''r2'', rr_variant = ''v'', rr_quantity = 3, rr_status = ReservationActive, rr_expires = 50, rr_created = 0\<rparr>]\<rparr>"
  by (simp add: stock_eval Let_def)

theorem stock_conserved_witness:
  "held ReservationActive ''v'' (run_db stock_step demo_ops demo_stock) = 3 \<and>
   (\<exists>h t. sd_stock (run_db stock_step demo_ops demo_stock) ''v'' = Some (h, t) \<and> h + 3 = 10)"
proof -
  have "held ReservationActive ''v'' (run_db stock_step demo_ops demo_stock) = 3"
    "held ReservationConfirmed ''v'' (run_db stock_step demo_ops demo_stock) = 0"
    "held st ''v'' demo_stock = 0" for st
    by (simp_all only: demo_run) (simp_all add: held_def demo_stock_def)
  then show ?thesis
    using stock_conserved [OF _ demo_stock_ok, of demo_ops "''v''" 10 0]
    by (simp add: demo_stock_def del: run_db.simps)
qed

theorem sweep_returns_witness:
  "\<exists>released err db'. ReleaseExpiredBefore \<lparr>sw_done = (\<lambda>_. False), sw_fault = (\<lambda>_ _. None), sw_locked = (\<lambda>_ _. False),
     sw_now = (\<lambda>_. 60)\<rparr> 1 60 (run_db stock_step demo_ops demo_stock) = Some (released, err, db') \<and>
     length released + length (due 60 db') = 1"
proof -
  have ok: "stock_ok (run_db stock_step demo_ops demo_stock)"
    by (simp only: demo_run) (simp add: stock_ok_def int4_def)
  have d: "length (due 60 (run_db stock_step demo_ops demo_stock)) = 1"
    by (simp only: demo_run) (simp add: due_def)
  have one: "0 < sint (1 :: int64)" by simp
  show ?thesis
    using sweep_returns [OF ok one, of "\<lparr>sw_done = (\<lambda>_. False), sw_fault = (\<lambda>_ _. None), sw_locked = (\<lambda>_ _. False),
      sw_now = (\<lambda>_. 60)\<rparr>" 60] unfolding d by blast
qed

definition demo_qty_sources :: "nat qty_sources" where
  "demo_qty_sources = \<lparr>qs_Stock = Some (\<lambda>v. Ok \<lparr>se_VariantID = v, se_Quantity = (if v = ''vx'' then 7 else 5), se_UpdatedAt = 0\<rparr>),
     qs_Variants = us_Variants demo_sources, qs_ListByProductID = (\<lambda>_. Inr []), qs_Products = us_Products demo_sources,
     qs_Components = us_Components demo_sources\<rparr>"

lemma demo_leaves:
  "RequiredLeafVariants background (us_Products demo_sources) (us_Variants demo_sources) (us_Components demo_sources) ''b'' =
   Ok (map (\<lambda>(x, n). \<lparr>rl_Component = demo_component x n True, rl_Product = demo_product x TypeSimple PricingModeFixed,
     rl_Variant = demo_variant x\<rparr>) [(''x'', 2), (''z'', 1)])"
  by (simp add: RequiredLeafVariants_def demo_sources_def demo_component_def loadProductsByID_def demo_product_def
      LinkedParentBlocksPurchase_def IncludeNonActiveProducts_def background_def demo_variant_def
      MaxBundleRequiredComponents_def Let_def i64)

text \<open>Seven of the part that a kit takes twice and five of the one it takes once make three kits.\<close>

theorem bundle_qty_exact_witness:
  "dynamicBundleAvailableQty background demo_qty_sources ''b'' = Ok 3 \<and>
   kits_fit (\<lambda>v. Ok \<lparr>se_VariantID = v, se_Quantity = (if v = ''vx'' then 7 else 5), se_UpdatedAt = 0\<rparr>) 3
     \<lparr>rl_Component = demo_component ''x'' 2 True, rl_Product = demo_product ''x'' TypeSimple PricingModeFixed,
      rl_Variant = demo_variant ''x''\<rparr>"
proof -
  let ?s = "demo_qty_sources"
  have leaves: "RequiredLeafVariants background (qs_Products ?s) (qs_Variants ?s) (qs_Components ?s) ''b'' =
     Ok (map (\<lambda>(x, n). \<lparr>rl_Component = demo_component x n True, rl_Product = demo_product x TypeSimple PricingModeFixed,
       rl_Variant = demo_variant x\<rparr>) [(''x'', 2), (''z'', 1)])"
    using demo_leaves by (simp add: demo_qty_sources_def)
  have stock: "qs_Stock ?s = Some (\<lambda>v. Ok \<lparr>se_VariantID = v, se_Quantity = (if v = ''vx'' then 7 else 5), se_UpdatedAt = 0\<rparr>)"
    by (simp add: demo_qty_sources_def)
  have run: "dynamicBundleAvailableQty background ?s ''b'' = Ok 3"
  proof -
    have "kits_loop (\<lambda>v. Ok \<lparr>se_VariantID = v, se_Quantity = (if v = ''vx'' then 7 else 5), se_UpdatedAt = 0\<rparr>)
        (map (\<lambda>(x, n). \<lparr>rl_Component = demo_component x n True, rl_Product = demo_product x TypeSimple PricingModeFixed,
          rl_Variant = demo_variant x\<rparr>) [(''x'', 2), (''z'', 1)]) MaxInt64 False = Ok (3, True)"
      by (simp add: demo_component_def demo_product_def demo_variant_def Let_def go_div_def MaxInt64_def i64)
    then show ?thesis by (simp only: dynamicBundleAvailableQty_def leaves stock bindO.simps option.simps split_conv) simp
  qed
  from bundle_qty_exact [OF run leaves stock] run show ?thesis by (auto simp: demo_product_def dest: spec [of _ 3])
qed

section \<open>Two views of the same stock\<close>

text \<open>
  The admin view subtracts the units of active reservations from the stock level, from which
  \<open>Reserve\<close> has already taken them: with 10 on hand and 4 reserved it shows 2, although
  the shop still accepts a reservation of 6.
\<close>

lemma Available_counts_twice:
  "let db = snd (Reserve (\<lambda>_. None) 1 demo_stock (Some (demo_reservation ''r1'' 4 50))) in
   bindO (GetInventoryItem (\<lambda>_. None) (\<lambda>_. True) 2 db ''v'') (\<lambda>i. Ok (Available i)) = Ok 2 \<and>
   fst (Reserve (\<lambda>_. None) 2 db (Some (demo_reservation ''r2'' 6 50))) = Ok ()"
  by (simp add: stock_eval Let_def GetInventoryItem_def Available_def)

text \<open>
  An expired reservation holds its units until the sweep has run: a reservation of the full level
  fails after the expiry and succeeds after the sweep.
\<close>

lemma expired_still_held:
  "let db = snd (Reserve (\<lambda>_. None) 1 demo_stock (Some (demo_reservation ''r1'' 4 5))) in
   \<not> isOk (fst (Reserve (\<lambda>_. None) 9 db (Some (demo_reservation ''r2'' 10 50)))) \<and>
   isOk (fst (Reserve (\<lambda>_. None) 9 (snd (releaseExpiredBatch (\<lambda>_. None) (\<lambda>_. False) 9 9 500 db))
     (Some (demo_reservation ''r2'' 10 50))))"
  by (simp add: stock_eval Let_def)

end
