(* ===== verification/Jobs.thy ===== *)
theory Jobs
  imports Database
begin

text \<open>
  Background jobs: \<open>internal/domain/jobs\<close> (job, worker), the queue in the table \<open>jobs\<close>
  (\<open>internal/infrastructure/postgres/job_queue.go\<close>) and the admin service
  (\<open>internal/application/jobs\<close>). An operation of several statements outside a transaction
  sees what other sessions did between them: \<open>qe_other\<close>. Ids are compared as texts. Logging
  is left out; the metrics are part of the result of the worker.
\<close>

section \<open>Jobs\<close>

datatype job_status =
    StatusPending | StatusProcessing | StatusDone | StatusFailed | StatusCancelled | StatusUnknown string

fun job_status_text :: "job_status \<Rightarrow> string" where
  "job_status_text StatusPending = ''pending''"
| "job_status_text StatusProcessing = ''processing''"
| "job_status_text StatusDone = ''done''"
| "job_status_text StatusFailed = ''failed''"
| "job_status_text StatusCancelled = ''cancelled''"
| "job_status_text (StatusUnknown s) = s"

text \<open>The check constraint of the column (migrations 017 and 067).\<close>

fun known_status :: "job_status \<Rightarrow> bool" where
  "known_status (StatusUnknown s) = False"
| "known_status _ = True"

definition DefaultMaxRetries :: int64 where "DefaultMaxRetries = 3"

text \<open>The payload is a Go map (\<open>'p\<close>), \<open>None\<close> the nil map.\<close>

record 'p job =
  jb_ID :: string
  jb_Type :: string
  jb_Payload :: "'p option"
  jb_Status :: job_status
  jb_Attempts :: int64
  jb_MaxRetries :: int64
  jb_RunAt :: gotime
  jb_CreatedAt :: gotime
  jb_UpdatedAt :: gotime

text \<open>\<open>encoding/json\<close> on payloads, and the empty map.\<close>

record 'p json =
  js_marshal :: "'p option \<Rightarrow> gerror + string"
  js_unmarshal :: "string \<Rightarrow> gerror + 'p option"
  js_empty :: 'p

definition NewJob :: "'p json \<Rightarrow> gotime \<Rightarrow> string \<Rightarrow> string \<Rightarrow> 'p option \<Rightarrow> 'p job outcome" where
  "NewJob json now jid jobType payload =
     (if jid = [] then Fail (Err ''job id is required'')
      else if jobType = [] then Fail (Err ''job type is required'')
      else Ok \<lparr>jb_ID = jid, jb_Type = jobType,
        jb_Payload = Some (case payload of None \<Rightarrow> js_empty json | Some p \<Rightarrow> p),
        jb_Status = StatusPending, jb_Attempts = 0, jb_MaxRetries = DefaultMaxRetries,
        jb_RunAt = now, jb_CreatedAt = now, jb_UpdatedAt = now\<rparr>)"

section \<open>The queue\<close>

record job_row =
  jr_id :: string
  jr_type :: string
  jr_payload :: string
  jr_status :: job_status
  jr_attempts :: int
  jr_max :: int
  jr_run_at :: gotime
  jr_created :: gotime
  jr_updated :: gotime
  jr_error :: "string option"

type_synonym job_db = "job_row list"

text \<open>What one call meets: driver errors, rows locked by others, the database clock, other sessions, jitter.\<close>

record queue_env =
  qe_fault :: db_faults
  qe_locked :: "string \<Rightarrow> bool"
  qe_now :: gotime
  qe_other :: "nat \<Rightarrow> job_db \<Rightarrow> job_db"
  qe_jitter :: "int \<Rightarrow> int"

definition has_row :: "(job_row \<Rightarrow> bool) \<Rightarrow> job_db \<Rightarrow> bool" where
  "has_row P db = list_ex P db"

definition set_rows :: "(job_row \<Rightarrow> bool) \<Rightarrow> (job_row \<Rightarrow> job_row) \<Rightarrow> job_db \<Rightarrow> job_db" where
  "set_rows P f db = map (\<lambda>r. if P r then f r else r) db"

definition is_job :: "string \<Rightarrow> job_status \<Rightarrow> job_row \<Rightarrow> bool" where
  "is_job jid st r \<longleftrightarrow> jr_id r = jid \<and> jr_status r = st"

definition Enqueue :: "'p json \<Rightarrow> queue_env \<Rightarrow> job_db \<Rightarrow> 'p job \<Rightarrow> unit outcome \<times> job_db" where
  "Enqueue json env db j = txn db
     (bindO (mapErr (Wrap ''job_queue: marshal payload'') (of_res (js_marshal json (jb_Payload j)))) (\<lambda>payload.
      bindO (stmt (qe_fault env) ''job_queue: enqueue'') (\<lambda>_.
      if \<not> int4 (sint (jb_Attempts j)) \<or> \<not> int4 (sint (jb_MaxRetries j))
      then Fail (Wrap ''job_queue: enqueue'' out_of_range)
      else if \<not> known_status (jb_Status j) then Fail (Wrap ''job_queue: enqueue'' (Err ''check violation: status''))
      else if has_row (\<lambda>r. jr_id r = jb_ID j) db then Fail (AppErr Conflict ''job already enqueued'')
      else Ok ((), db @ [\<lparr>jr_id = jb_ID j, jr_type = jb_Type j, jr_payload = payload, jr_status = jb_Status j,
        jr_attempts = sint (jb_Attempts j), jr_max = sint (jb_MaxRetries j), jr_run_at = jb_RunAt j,
        jr_created = jb_CreatedAt j, jr_updated = jb_UpdatedAt j, jr_error = None\<rparr>]))))"

text \<open>The oldest pending row that is due and not locked.\<close>

definition next_job :: "queue_env \<Rightarrow> job_db \<Rightarrow> job_row option" where
  "next_job env db =
     (case sort_key jr_created (filter (\<lambda>r. jr_status r = StatusPending \<and> jr_run_at r \<le> qe_now env \<and>
         \<not> qe_locked env (jr_id r)) db) of [] \<Rightarrow> None | r # _ \<Rightarrow> Some r)"

definition dequeueTx :: "'p json \<Rightarrow> queue_env \<Rightarrow> job_db \<Rightarrow> ('p job option \<times> job_db) outcome" where
  "dequeueTx json env db =
     bindO (stmt (qe_fault env) ''job_queue: begin tx'') (\<lambda>_.
     bindO (stmt (qe_fault env) ''job_queue: dequeue select'') (\<lambda>_.
     case next_job env db of
       None \<Rightarrow> Ok (None, db)
     | Some r \<Rightarrow>
         bindO (if jr_payload r = [] then Ok None
                else mapErr (Wrap ''job_queue: unmarshal payload'') (of_res (js_unmarshal json (jr_payload r)))) (\<lambda>payload.
         bindO (stmt (qe_fault env) ''job_queue: dequeue update'') (\<lambda>_.
         if \<not> int4 (jr_attempts r + 1) then Fail (Wrap ''job_queue: dequeue update'' out_of_range)
         else
           bindO (stmt (qe_fault env) ''job_queue: dequeue commit'') (\<lambda>_.
           Ok (Some \<lparr>jb_ID = jr_id r, jb_Type = jr_type r,
                 jb_Payload = Some (case payload of None \<Rightarrow> js_empty json | Some p \<Rightarrow> p),
                 jb_Status = StatusProcessing, jb_Attempts = word_of_int (jr_attempts r) + 1,
                 jb_MaxRetries = word_of_int (jr_max r), jb_RunAt = jr_run_at r, jb_CreatedAt = jr_created r,
                 jb_UpdatedAt = jr_updated r\<rparr>,
               set_rows (\<lambda>q. jr_id q = jr_id r)
                 (\<lambda>q. q\<lparr>jr_status := StatusProcessing, jr_attempts := jr_attempts q + 1, jr_updated := qe_now env\<rparr>) db))))))"

definition Dequeue :: "'p json \<Rightarrow> queue_env \<Rightarrow> job_db \<Rightarrow> 'p job option outcome \<times> job_db" where
  "Dequeue json env db = txn db (dequeueTx json env db)"

definition not_processing :: "string \<Rightarrow> gerror" where
  "not_processing jid = ErrWith ''job_queue: job %s not found or not processing'' [jid]"

definition Queue_Complete :: "queue_env \<Rightarrow> job_db \<Rightarrow> string \<Rightarrow> unit outcome \<times> job_db" where
  "Queue_Complete env db jid = txn db
     (bindO (stmt (qe_fault env) ''job_queue: complete'') (\<lambda>_.
      if \<not> has_row (is_job jid StatusProcessing) db then Fail (not_processing jid)
      else Ok ((), set_rows (is_job jid StatusProcessing)
        (\<lambda>r. r\<lparr>jr_status := StatusDone, jr_updated := qe_now env\<rparr>) db)))"

text \<open>
  Nanoseconds. The power and the cap are exact in a float; \<open>jitter\<close> is the randomised rounding of
  the capped delay \<open>d\<close> to \<open>d\<close> plus or minus a quarter.
\<close>

definition backoffBase :: int where "backoffBase = 5000000000"
definition backoffMax :: int where "backoffMax = 300000000000"

definition retryDelay :: "(int \<Rightarrow> int) \<Rightarrow> int \<Rightarrow> int" where
  "retryDelay jitter attempt =
     (let delay = (if attempt < 0 then backoffBase div 2 ^ nat (- attempt) else backoffBase * 2 ^ nat attempt)
      in jitter (if backoffMax < delay then backoffMax else delay))"

text \<open>\<open>COALESCE($2, last_error)\<close>.\<close>

definition coalesce :: "'a option \<Rightarrow> 'a option \<Rightarrow> 'a option" where
  "coalesce a b = (case a of None \<Rightarrow> b | Some _ \<Rightarrow> a)"

definition Queue_Fail :: "queue_env \<Rightarrow> job_db \<Rightarrow> string \<Rightarrow> gerror option \<Rightarrow> unit outcome \<times> job_db" where
  "Queue_Fail env db jid jobErr =
     (let lastErr = map_option err_text jobErr;
          spent = (\<lambda>r. is_job jid StatusProcessing r \<and> jr_max r \<le> jr_attempts r);
          again = (\<lambda>r. is_job jid StatusProcessing r \<and> jr_attempts r < jr_max r) in
      case stmt (qe_fault env) ''job_queue: fail permanent'' of Fail e \<Rightarrow> (Fail e, db) | _ \<Rightarrow>
      if has_row spent db
      then (Ok (), set_rows spent (\<lambda>r. r\<lparr>jr_status := StatusFailed, jr_updated := qe_now env,
             jr_error := coalesce lastErr (jr_error r)\<rparr>) db)
      else
        let db1 = qe_other env 0 db in
        case stmt (qe_fault env) ''job_queue: fail lookup'' of Fail e \<Rightarrow> (Fail e, db1) | _ \<Rightarrow>
        case List.find again db1 of
          None \<Rightarrow> (Fail (not_processing jid), db1)
        | Some q \<Rightarrow>
            let delay = retryDelay (qe_jitter env) (jr_attempts q - 1); db2 = qe_other env 1 db1 in
            case stmt (qe_fault env) ''job_queue: fail retry'' of Fail e \<Rightarrow> (Fail e, db2) | _ \<Rightarrow>
            if \<not> has_row again db2 then (Fail (not_processing jid), db2)
            else (Ok (), set_rows again (\<lambda>r. r\<lparr>jr_status := StatusPending,
                   jr_run_at := qe_now env + delay div 1000000 * 1000000, jr_updated := qe_now env,
                   jr_error := coalesce lastErr (jr_error r)\<rparr>) db2))"

section \<open>Reading the queue\<close>

record job_filter =
  jf_Type :: string
  jf_Status :: "job_status option"
  jf_Limit :: int64
  jf_Offset :: int64

record job_summary =
  sm_ID :: string
  sm_Type :: string
  sm_Status :: job_status
  sm_Attempts :: int64
  sm_MaxRetries :: int64
  sm_RunAt :: gotime
  sm_CreatedAt :: gotime
  sm_UpdatedAt :: gotime

definition summary_of :: "job_row \<Rightarrow> job_summary" where
  "summary_of r = \<lparr>sm_ID = jr_id r, sm_Type = jr_type r, sm_Status = jr_status r,
     sm_Attempts = word_of_int (jr_attempts r), sm_MaxRetries = word_of_int (jr_max r), sm_RunAt = jr_run_at r,
     sm_CreatedAt = jr_created r, sm_UpdatedAt = jr_updated r\<rparr>"

text \<open>Most recent first; ids that compare later come first among rows of the same instant.\<close>

definition job_before :: "job_row \<Rightarrow> job_row \<Rightarrow> bool" where
  "job_before a b \<longleftrightarrow> jr_created b < jr_created a \<or>
     (jr_created a = jr_created b \<and> ord_class.lexordp_eq (map byte_val (jr_id b)) (map byte_val (jr_id a)))"

fun insert_job :: "job_row \<Rightarrow> job_row list \<Rightarrow> job_row list" where
  "insert_job r [] = [r]"
| "insert_job r (q # qs) = (if job_before r q then r # q # qs else q # insert_job r qs)"

definition Queue_List :: "queue_env \<Rightarrow> job_db \<Rightarrow> job_filter \<Rightarrow> job_summary list outcome" where
  "Queue_List env db f =
     bindO (stmt (qe_fault env) ''job_queue: list'') (\<lambda>_.
     if jf_Limit f <s 0 \<or> jf_Offset f <s 0 then Fail (Wrap ''job_queue: list'' (Err ''LIMIT and OFFSET must not be negative''))
     else Ok (map summary_of (take (nat (sint (jf_Limit f))) (drop (nat (sint (jf_Offset f)))
       (foldr insert_job (filter (\<lambda>r. (jf_Type f = [] \<or> jr_type r = jf_Type f) \<and>
          (jf_Status f = None \<or> jf_Status f = Some (jr_status r))) db) [])))))"

record 'p job_detail =
  dt_Summary :: job_summary
  dt_Payload :: "'p option"
  dt_LastError :: string

definition Queue_Get :: "'p json \<Rightarrow> queue_env \<Rightarrow> job_db \<Rightarrow> string \<Rightarrow> 'p job_detail option outcome" where
  "Queue_Get json env db jid =
     bindO (stmt (qe_fault env) ''job_queue: get'') (\<lambda>_.
     case List.find (\<lambda>r. jr_id r = jid) db of
       None \<Rightarrow> Ok None
     | Some r \<Rightarrow>
         bindO (mapErr (Wrap ''job_queue: get unmarshal payload'') (of_res (js_unmarshal json (jr_payload r)))) (\<lambda>payload.
         Ok (Some \<lparr>dt_Summary = summary_of r, dt_Payload = payload,
           dt_LastError = (case jr_error r of None \<Rightarrow> [] | Some s \<Rightarrow> s)\<rparr>)))"

definition count_status :: "job_row list \<Rightarrow> job_status \<Rightarrow> nat option" where
  "count_status rows st = (let n = length (filter (\<lambda>r. jr_status r = st) rows) in if n = 0 then None else Some n)"

definition Queue_CountsByStatus :: "queue_env \<Rightarrow> job_db \<Rightarrow> (job_status \<Rightarrow> nat option) outcome" where
  "Queue_CountsByStatus env db =
     bindO (stmt (qe_fault env) ''job_queue: counts by status'') (\<lambda>_. Ok (count_status db))"

definition Queue_CountsByType :: "queue_env \<Rightarrow> job_db \<Rightarrow> string \<Rightarrow> (job_status \<Rightarrow> nat option) outcome" where
  "Queue_CountsByType env db jobType =
     (if trim_space jobType = [] then Fail (Err ''job_queue: counts by type: job type required'')
      else bindO (stmt (qe_fault env) ''job_queue: counts by type'')
        (\<lambda>_. Ok (count_status (filter (\<lambda>r. jr_type r = jobType) db))))"

section \<open>Corrections by an administrator\<close>

definition transitionStatus ::
    "queue_env \<Rightarrow> job_db \<Rightarrow> string \<Rightarrow> job_status \<Rightarrow> (job_row \<Rightarrow> job_row) \<Rightarrow> (job_status \<Rightarrow> string) \<Rightarrow>
     unit outcome \<times> job_db" where
  "transitionStatus env db jid fromStatus upd conflictMessage =
     (case stmt (qe_fault env) ''job_queue: transition lookup'' of Fail e \<Rightarrow> (Fail e, db) | _ \<Rightarrow>
      case List.find (\<lambda>r. jr_id r = jid) db of
        None \<Rightarrow> (Fail (AppErr NotFound ''job not found''), db)
      | Some r \<Rightarrow>
          if jr_status r \<noteq> fromStatus then (Fail (AppErr Conflict (conflictMessage (jr_status r))), db)
          else
            let db1 = qe_other env 0 db in
            case stmt (qe_fault env) ''job_queue: transition update'' of Fail e \<Rightarrow> (Fail e, db1) | _ \<Rightarrow>
            if \<not> has_row (is_job jid fromStatus) db1
            then (Fail (AppErr Conflict ''job status changed concurrently; please retry''), db1)
            else (Ok (), set_rows (is_job jid fromStatus) upd db1))"

definition Queue_Retry :: "queue_env \<Rightarrow> job_db \<Rightarrow> string \<Rightarrow> unit outcome \<times> job_db" where
  "Queue_Retry env db jid = transitionStatus env db jid StatusFailed
     (\<lambda>r. r\<lparr>jr_status := StatusPending, jr_attempts := 0, jr_run_at := qe_now env, jr_updated := qe_now env\<rparr>)
     (\<lambda>st. ''job is '' @ job_status_text st @ '', not failed '' @ em_dash @ '' only a failed job can be retried'')"

definition Queue_Cancel :: "queue_env \<Rightarrow> job_db \<Rightarrow> string \<Rightarrow> unit outcome \<times> job_db" where
  "Queue_Cancel env db jid = transitionStatus env db jid StatusPending
     (\<lambda>r. r\<lparr>jr_status := StatusCancelled, jr_updated := qe_now env\<rparr>)
     (\<lambda>st. if st = StatusProcessing
        then ''job is currently processing and cannot be cancelled '' @ em_dash @
          '' there is no in-flight cancellation; wait for it to complete or fail, then retry if needed''
        else ''job is '' @ job_status_text st @ '', not pending '' @ em_dash @ '' only a pending job can be cancelled'')"

text \<open>The application service bounds pages and refuses empty ids.\<close>

definition maxListLimit :: int64 where "maxListLimit = 100"
definition defaultListLimit :: int64 where "defaultListLimit = 20"
definition maxListOffset :: int64 where "maxListOffset = 100000"

definition bounded_filter :: "job_filter \<Rightarrow> job_filter" where
  "bounded_filter f = f\<lparr>
     jf_Limit := (if jf_Limit f \<le>s 0 then defaultListLimit else if maxListLimit <s jf_Limit f then maxListLimit else jf_Limit f),
     jf_Offset := (if jf_Offset f <s 0 then 0 else if maxListOffset <s jf_Offset f then maxListOffset else jf_Offset f)\<rparr>"

definition Jobs_List :: "queue_env \<Rightarrow> job_db \<Rightarrow> job_filter \<Rightarrow> job_summary list outcome" where
  "Jobs_List env db f = Queue_List env db (bounded_filter f)"

definition Jobs_Get :: "'p json \<Rightarrow> queue_env \<Rightarrow> job_db \<Rightarrow> string \<Rightarrow> 'p job_detail option outcome" where
  "Jobs_Get json env db jid = (if jid = [] then Fail (Err ''jobs: get: empty id'') else Queue_Get json env db jid)"

definition Jobs_CountsByType :: "queue_env \<Rightarrow> job_db \<Rightarrow> string \<Rightarrow> (job_status \<Rightarrow> nat option) outcome" where
  "Jobs_CountsByType env db jobType =
     (if trim_space jobType = [] then Fail (Err ''jobs: counts by type: empty type'')
      else Queue_CountsByType env db jobType)"

definition Jobs_Retry :: "queue_env \<Rightarrow> job_db \<Rightarrow> string \<Rightarrow> unit outcome \<times> job_db" where
  "Jobs_Retry env db jid = (if jid = [] then (Fail (Err ''jobs: retry: empty id''), db) else Queue_Retry env db jid)"

definition Jobs_Cancel :: "queue_env \<Rightarrow> job_db \<Rightarrow> string \<Rightarrow> unit outcome \<times> job_db" where
  "Jobs_Cancel env db jid = (if jid = [] then (Fail (Err ''jobs: cancel: empty id''), db) else Queue_Cancel env db jid)"

section \<open>The worker\<close>

text \<open>A handler may use the queue itself, so it maps the table too.\<close>

type_synonym 'p handler = "'p job \<Rightarrow> job_db \<Rightarrow> unit outcome \<times> job_db"
type_synonym 'p handlers = "string \<Rightarrow> 'p handler option"

definition Worker_Register :: "'p handlers \<Rightarrow> string \<Rightarrow> 'p handler \<Rightarrow> 'p handlers outcome" where
  "Worker_Register hs jobType h =
     (if hs jobType \<noteq> None then Panics (''jobs.Worker: duplicate handler for type '' @ jobType)
      else Ok (hs(jobType := Some h)))"

text \<open>A panic of the handler becomes an error.\<close>

definition safeHandle :: "'p handler \<Rightarrow> 'p job \<Rightarrow> job_db \<Rightarrow> unit outcome \<times> job_db" where
  "safeHandle h j db =
     (case h j db of
        (Panics p, db') \<Rightarrow> (Fail (Err (''job handler panic: '' @ p)), db')
      | (r, db') \<Rightarrow> (r, db'))"

datatype job_metric = JobFailure string | JobResult string bool

definition unknownJobType :: string where "unknownJobType = ''unknown''"

text \<open>An error of \<open>Fail\<close> is only logged.\<close>

definition recordFail :: "queue_env \<Rightarrow> job_db \<Rightarrow> string \<Rightarrow> gerror \<Rightarrow> job_db" where
  "recordFail env db jid e = snd (Queue_Fail env db jid (Some e))"

definition recordComplete :: "queue_env \<Rightarrow> job_db \<Rightarrow> string \<Rightarrow> string \<Rightarrow> job_metric list \<times> job_db" where
  "recordComplete env db jid jobType =
     (case Queue_Complete env db jid of
        (Ok _, db') \<Rightarrow> ([JobResult jobType True], db')
      | (_, db') \<Rightarrow> ([JobFailure jobType, JobResult jobType False], db'))"

text \<open>
  One poll: whether a job was dequeued, the metrics, the table. \<open>env\<close> is what \<open>Dequeue\<close> meets,
  \<open>env'\<close> what recording the outcome meets. (\<open>Dequeue\<close> itself does not panic.)
\<close>

definition processNext ::
    "'p json \<Rightarrow> queue_env \<Rightarrow> queue_env \<Rightarrow> 'p handlers \<Rightarrow> job_db \<Rightarrow> bool \<times> job_metric list \<times> job_db" where
  "processNext json env env' hs db =
     (case Dequeue json env db of
        (Ok (Some j), db1) \<Rightarrow>
          (case hs (jb_Type j) of
             None \<Rightarrow> (True, [JobFailure unknownJobType, JobResult unknownJobType False],
               recordFail env' db1 (jb_ID j) (ErrWith ''no handler registered for job type %q'' [jb_Type j]))
           | Some h \<Rightarrow>
               (case safeHandle h j db1 of
                  (Fail e, db2) \<Rightarrow> (True, [JobFailure (jb_Type j), JobResult (jb_Type j) False], recordFail env' db2 (jb_ID j) e)
                | (_, db2) \<Rightarrow> (case recordComplete env' db2 (jb_ID j) (jb_Type j) of (ms, db3) \<Rightarrow> (True, ms, db3))))
      | (_, db1) \<Rightarrow> (False, [], db1))"

section \<open>The lifecycle of a job\<close>

text \<open>
  The abstract queue: for every id the status, the attempts so far and the limit.
\<close>

type_synonym job_view = "string \<Rightarrow> (job_status \<times> int \<times> int) option"

definition job_core :: "job_row \<Rightarrow> job_status \<times> int \<times> int" where
  "job_core r = (jr_status r, jr_attempts r, jr_max r)"

definition job_map :: "job_db \<Rightarrow> job_view" where
  "job_map db i = map_option job_core (List.find (\<lambda>r. jr_id r = i) db)"

inductive job_step :: "job_view \<Rightarrow> job_view \<Rightarrow> bool" where
  enter: "a i = None \<Longrightarrow> 1 \<le> m \<Longrightarrow> job_step a (a(i \<mapsto> (StatusPending, 0, m)))"
| claim: "a i = Some (StatusPending, n, m) \<Longrightarrow> n < m \<Longrightarrow> job_step a (a(i \<mapsto> (StatusProcessing, n + 1, m)))"
| finish: "a i = Some (StatusProcessing, n, m) \<Longrightarrow> job_step a (a(i \<mapsto> (StatusDone, n, m)))"
| again: "a i = Some (StatusProcessing, n, m) \<Longrightarrow> n < m \<Longrightarrow> job_step a (a(i \<mapsto> (StatusPending, n, m)))"
| give_up: "a i = Some (StatusProcessing, n, m) \<Longrightarrow> m \<le> n \<Longrightarrow> job_step a (a(i \<mapsto> (StatusFailed, n, m)))"
| reset: "a i = Some (StatusFailed, n, m) \<Longrightarrow> job_step a (a(i \<mapsto> (StatusPending, 0, m)))"
| cancel: "a i = Some (StatusPending, n, m) \<Longrightarrow> job_step a (a(i \<mapsto> (StatusCancelled, n, m)))"

definition row_ok :: "job_row \<Rightarrow> bool" where
  "row_ok r \<longleftrightarrow> known_status (jr_status r) \<and> 0 \<le> jr_attempts r \<and> jr_attempts r \<le> jr_max r \<and> 1 \<le> jr_max r \<and>
     int4 (jr_max r) \<and> (jr_status r = StatusPending \<longrightarrow> jr_attempts r < jr_max r)"

definition jobs_ok :: "job_db \<Rightarrow> bool" where
  "jobs_ok db \<longleftrightarrow> distinct (map jr_id db) \<and> (\<forall>r \<in> set db. row_ok r)"

definition job_moved :: "job_db \<Rightarrow> job_db \<Rightarrow> bool" where
  "job_moved db db' \<longleftrightarrow> jobs_ok db' \<and> job_step\<^sup>*\<^sup>* (job_map db) (job_map db')"

lemma job_moved_refl: "jobs_ok db \<Longrightarrow> job_moved db db"
  by (simp add: job_moved_def)

lemma job_moved_trans: "job_moved a b \<Longrightarrow> job_moved b c \<Longrightarrow> job_moved a c"
  unfolding job_moved_def by (blast intro: rtranclp_trans)

lemma job_moved_ok: "job_moved a b \<Longrightarrow> jobs_ok b"
  by (simp add: job_moved_def)

lemma find_by_id:
  "distinct (map jr_id db) \<Longrightarrow> List.find (\<lambda>r. jr_id r = i) db = Some q \<longleftrightarrow> q \<in> set db \<and> jr_id q = i"
proof (induction db)
  case (Cons r db)
  then show ?case by (auto simp: image_iff)
qed simp

lemma job_map_Some: "jobs_ok db \<Longrightarrow> job_map db i = Some c \<longleftrightarrow> (\<exists>q \<in> set db. jr_id q = i \<and> c = job_core q)"
  by (auto simp: job_map_def jobs_ok_def find_by_id)

lemma job_map_None: "job_map db i = None \<longleftrightarrow> i \<notin> jr_id ` set db"
  by (auto simp: job_map_def find_None_iff)

lemma job_map_eqI:
  assumes "jobs_ok db" "\<And>i c. a i = Some c \<longleftrightarrow> (\<exists>q \<in> set db. jr_id q = i \<and> c = job_core q)"
  shows "job_map db = a"
proof
  fix i
  show "job_map db i = a i"
  proof (cases "a i")
    case None
    have "i \<notin> jr_id ` set db"
    proof
      assume "i \<in> jr_id ` set db"
      then obtain q where "q \<in> set db" "jr_id q = i" by auto
      then show False using assms(2) [of i "job_core q"] None by auto
    qed
    then show ?thesis using None by (simp add: job_map_None)
  next
    case (Some c)
    then show ?thesis using assms(2) [of i c] job_map_Some [OF assms(1)] by simp
  qed
qed

text \<open>Updating the one row that meets a condition.\<close>

lemma set_one:
  assumes ok: "jobs_ok db" and r: "r \<in> set db" "P r" and only: "\<And>q. P q \<Longrightarrow> jr_id q = jr_id r"
    and f: "jr_id (f r) = jr_id r" "row_ok (f r)"
  shows "jobs_ok (set_rows P f db)" "job_map (set_rows P f db) = (job_map db)(jr_id r \<mapsto> job_core (f r))"
    "job_map db (jr_id r) = Some (job_core r)" "set (set_rows P f db) = insert (f r) (set db - {r})"
proof -
  have dist: "distinct (map jr_id db)" and inj: "inj_on jr_id (set db)"
    using ok by (simp_all add: jobs_ok_def distinct_map)
  have P: "q \<in> set db \<Longrightarrow> P q \<longleftrightarrow> q = r" for q
    using only r inj by (metis inj_onD)
  have eq: "set_rows P f db = map (\<lambda>q. if q = r then f r else q) db"
    unfolding set_rows_def by (rule map_cong) (auto simp: P)
  have ids: "map jr_id (set_rows P f db) = map jr_id db"
    unfolding eq by (simp add: f)
  show set: "set (set_rows P f db) = insert (f r) (set db - {r})"
    unfolding eq using r(1) by auto
  show ok': "jobs_ok (set_rows P f db)"
    using ok f(2) unfolding jobs_ok_def ids set by auto
  show "job_map db (jr_id r) = Some (job_core r)"
    using job_map_Some [OF ok] r(1) by auto
  show "job_map (set_rows P f db) = (job_map db)(jr_id r \<mapsto> job_core (f r))"
  proof (rule job_map_eqI [OF ok'])
    fix i c
    show "((job_map db)(jr_id r \<mapsto> job_core (f r))) i = Some c \<longleftrightarrow> (\<exists>q \<in> set (set_rows P f db). jr_id q = i \<and> c = job_core q)"
    proof (cases "i = jr_id r")
      case True
      have "q \<in> set db - {r} \<Longrightarrow> jr_id q \<noteq> i" for q using inj r(1) True by (auto dest: inj_onD)
      then show ?thesis unfolding set using True f(1) by auto
    next
      case False
      then show ?thesis unfolding set using job_map_Some [OF ok, of i c] f(1) by auto
    qed
  qed
qed

lemma set_one_moved:
  assumes "jobs_ok db" "r \<in> set db" "P r" "\<And>q. P q \<Longrightarrow> jr_id q = jr_id r" "jr_id (f r) = jr_id r" "row_ok (f r)"
    and "job_map db (jr_id r) = Some (job_core r) \<Longrightarrow> job_step (job_map db) ((job_map db)(jr_id r \<mapsto> job_core (f r)))"
  shows "job_moved db (set_rows P f db)"
proof -
  note one = set_one [where P = P and f = f and db = db and r = r, OF assms(1-3) _ assms(5,6)]
  have only: "\<And>q. P q \<Longrightarrow> jr_id q = jr_id r" by (rule assms(4))
  from assms(7) [OF one(3) [OF only]] show ?thesis
    using one(1,2) [OF only] by (simp add: job_moved_def r_into_rtranclp)
qed

section \<open>The operations\<close>

definition fresh_job :: "'p job \<Rightarrow> bool" where
  "fresh_job j \<longleftrightarrow> jb_Status j = StatusPending \<and> jb_Attempts j = 0 \<and> 1 \<le> sint (jb_MaxRetries j)"

lemma NewJob_fresh: "NewJob json now jid ty p = Ok j \<Longrightarrow> fresh_job j"
  by (auto simp: NewJob_def fresh_job_def DefaultMaxRetries_def split: if_splits)

text \<open>Other sessions are fair when what they do is a sequence of steps.\<close>

definition fair_env :: "queue_env \<Rightarrow> bool" where
  "fair_env env \<longleftrightarrow> (\<forall>k d. jobs_ok d \<longrightarrow> job_moved d (qe_other env k d))"

lemma Enqueue_moved:
  assumes ok: "jobs_ok db" and fresh: "fresh_job j"
  shows "job_moved db (snd (Enqueue json env db j))"
  unfolding Enqueue_def
proof (rule txn_keeps [where Q = "job_moved db"])
  show "job_moved db db" by (rule job_moved_refl [OF ok])
next
  fix u db'
  assume "bindO (mapErr (Wrap ''job_queue: marshal payload'') (of_res (js_marshal json (jb_Payload j)))) (\<lambda>payload.
      bindO (stmt (qe_fault env) ''job_queue: enqueue'') (\<lambda>_.
      if \<not> int4 (sint (jb_Attempts j)) \<or> \<not> int4 (sint (jb_MaxRetries j))
      then Fail (Wrap ''job_queue: enqueue'' out_of_range)
      else if \<not> known_status (jb_Status j) then Fail (Wrap ''job_queue: enqueue'' (Err ''check violation: status''))
      else if has_row (\<lambda>r. jr_id r = jb_ID j) db then Fail (AppErr Conflict ''job already enqueued'')
      else Ok ((), db @ [\<lparr>jr_id = jb_ID j, jr_type = jb_Type j, jr_payload = payload, jr_status = jb_Status j,
        jr_attempts = sint (jb_Attempts j), jr_max = sint (jb_MaxRetries j), jr_run_at = jb_RunAt j,
        jr_created = jb_CreatedAt j, jr_updated = jb_UpdatedAt j, jr_error = None\<rparr>]))) = Ok (u, db')"
  then obtain r where db': "db' = db @ [r]" and r: "jr_id r = jb_ID j" "job_core r = (StatusPending, 0, sint (jb_MaxRetries j))"
    and fit: "int4 (sint (jb_MaxRetries j))" and new: "\<forall>q \<in> set db. jr_id q \<noteq> jb_ID j"
    using fresh by (auto simp: job_core_def fresh_job_def has_row_def list_ex_iff image_iff split: if_splits)
  have "row_ok r" using r fit fresh by (auto simp: job_core_def row_ok_def fresh_job_def)
  then have ok': "jobs_ok db'" using ok new r by (auto simp: jobs_ok_def db' image_iff)
  have "job_map db' = (job_map db)(jb_ID j \<mapsto> job_core r)"
  proof (rule job_map_eqI [OF ok'])
    fix i c
    show "((job_map db)(jb_ID j \<mapsto> job_core r)) i = Some c \<longleftrightarrow> (\<exists>q \<in> set db'. jr_id q = i \<and> c = job_core q)"
      using job_map_Some [OF ok, of i c] new r(1) by (auto simp: db')
  qed
  moreover have "job_map db (jb_ID j) = None" using new by (auto simp: job_map_None)
  ultimately show "job_moved db db'"
    using ok' r fresh enter [of "job_map db" "jb_ID j" "sint (jb_MaxRetries j)"]
    by (simp add: job_moved_def fresh_job_def r_into_rtranclp)
qed

lemma next_job_Some:
  assumes "next_job env db = Some r"
  shows "r \<in> set db \<and> jr_status r = StatusPending \<and> jr_run_at r \<le> qe_now env"
proof -
  let ?f = "filter (\<lambda>r. jr_status r = StatusPending \<and> jr_run_at r \<le> qe_now env \<and> \<not> qe_locked env (jr_id r)) db"
  obtain rest where "sort_key jr_created ?f = r # rest"
    using assms by (auto simp: next_job_def split: list.splits)
  then have "r \<in> set (sort_key jr_created ?f)" by simp
  then show ?thesis by simp
qed

lemma claim_moved:
  assumes "jobs_ok db" "r \<in> set db" "jr_status r = StatusPending"
  shows "job_moved db (set_rows (\<lambda>q. jr_id q = jr_id r)
    (\<lambda>q. q\<lparr>jr_status := StatusProcessing, jr_attempts := jr_attempts q + 1, jr_updated := now\<rparr>) db)"
proof -
  have "row_ok r" using assms by (simp add: jobs_ok_def)
  then show ?thesis
    using assms by (intro set_one_moved [where r = r]) (auto simp: row_ok_def job_core_def intro: claim)
qed

lemma Dequeue_moved: "jobs_ok db \<Longrightarrow> job_moved db (snd (Dequeue json env db))"
  unfolding Dequeue_def
  by (rule txn_keeps [where Q = "job_moved db"])
    (auto simp: dequeueTx_def intro: job_moved_refl claim_moved dest: next_job_Some split: option.splits if_splits)

lemma is_job_row:
  assumes "has_row (is_job jid st) db"
  obtains r where "r \<in> set db" "jr_id r = jid" "jr_status r = st"
  using assms by (auto simp: has_row_def list_ex_iff is_job_def)

lemma Complete_moved:
  assumes ok: "jobs_ok db"
  shows "job_moved db (snd (Queue_Complete env db jid))"
proof -
  have "job_moved db (set_rows (is_job jid StatusProcessing) (\<lambda>r. r\<lparr>jr_status := StatusDone, jr_updated := now\<rparr>) db)"
    if "has_row (is_job jid StatusProcessing) db" for now
  proof -
    from that obtain r where r: "r \<in> set db" "jr_id r = jid" "jr_status r = StatusProcessing" by (rule is_job_row)
    have "row_ok r" using ok r by (simp add: jobs_ok_def)
    then show ?thesis
      using ok r by (intro set_one_moved [where r = r]) (auto simp: row_ok_def job_core_def is_job_def intro: finish)
  qed
  then show ?thesis
    unfolding Queue_Complete_def
    by (intro txn_keeps [where Q = "job_moved db"]) (auto intro: job_moved_refl [OF ok] split: if_splits)
qed

lemma spent_moved:
  assumes ok: "jobs_ok db" and "has_row (\<lambda>r. is_job jid StatusProcessing r \<and> jr_max r \<le> jr_attempts r) db"
  shows "job_moved db (set_rows (\<lambda>r. is_job jid StatusProcessing r \<and> jr_max r \<le> jr_attempts r)
    (\<lambda>r. r\<lparr>jr_status := StatusFailed, jr_updated := now, jr_error := coalesce e (jr_error r)\<rparr>) db)"
proof -
  from assms(2) obtain r where r: "r \<in> set db" "jr_id r = jid" "jr_status r = StatusProcessing" "jr_max r \<le> jr_attempts r"
    by (auto simp: has_row_def list_ex_iff is_job_def)
  have "row_ok r" using ok r by (simp add: jobs_ok_def)
  then show ?thesis
    using ok r by (intro set_one_moved [where r = r]) (auto simp: row_ok_def job_core_def is_job_def intro: give_up)
qed

lemma again_moved:
  assumes ok: "jobs_ok db" and "has_row (\<lambda>r. is_job jid StatusProcessing r \<and> jr_attempts r < jr_max r) db"
  shows "job_moved db (set_rows (\<lambda>r. is_job jid StatusProcessing r \<and> jr_attempts r < jr_max r)
    (\<lambda>r. r\<lparr>jr_status := StatusPending, jr_run_at := t, jr_updated := now, jr_error := coalesce e (jr_error r)\<rparr>) db)"
proof -
  from assms(2) obtain r where r: "r \<in> set db" "jr_id r = jid" "jr_status r = StatusProcessing" "jr_attempts r < jr_max r"
    by (auto simp: has_row_def list_ex_iff is_job_def)
  have "row_ok r" using ok r by (simp add: jobs_ok_def)
  then show ?thesis
    using ok r by (intro set_one_moved [where r = r]) (auto simp: row_ok_def job_core_def is_job_def intro: again)
qed

lemma Fail_moved:
  assumes ok: "jobs_ok db" and fair: "fair_env env"
  shows "job_moved db (snd (Queue_Fail env db jid e))"
proof -
  let ?db1 = "qe_other env 0 db"
  let ?db2 = "qe_other env 1 ?db1"
  have m1: "job_moved db ?db1" using fair ok by (simp add: fair_env_def)
  then have m2: "job_moved db ?db2"
    using fair by (meson fair_env_def job_moved_def job_moved_trans)
  have ok2: "jobs_ok ?db2" using m2 by (rule job_moved_ok)
  show ?thesis
    using job_moved_refl [OF ok] spent_moved [OF ok] m1 m2 job_moved_trans [OF m2 again_moved [OF ok2]]
    by (auto simp: Queue_Fail_def Let_def split: outcome.splits option.splits)
qed

lemma transition_moved:
  assumes ok: "jobs_ok db" and fair: "fair_env env"
    and step: "\<And>d. jobs_ok d \<Longrightarrow> has_row (is_job jid st) d \<Longrightarrow> job_moved d (set_rows (is_job jid st) upd d)"
  shows "job_moved db (snd (transitionStatus env db jid st upd msg))"
proof -
  have m1: "job_moved db (qe_other env 0 db)" using fair ok by (simp add: fair_env_def)
  show ?thesis
    using job_moved_refl [OF ok] m1 job_moved_trans [OF m1 step [OF job_moved_ok [OF m1]]]
    by (auto simp: transitionStatus_def Let_def split: outcome.splits option.splits)
qed

lemma Retry_moved:
  assumes "jobs_ok db" "fair_env env"
  shows "job_moved db (snd (Queue_Retry env db jid))"
  unfolding Queue_Retry_def
proof (rule transition_moved [OF assms])
  fix d assume ok: "jobs_ok d" and "has_row (is_job jid StatusFailed) d"
  then obtain r where r: "r \<in> set d" "jr_id r = jid" "jr_status r = StatusFailed" by (auto elim: is_job_row)
  then have "row_ok r" using ok by (simp add: jobs_ok_def)
  then show "job_moved d (set_rows (is_job jid StatusFailed) (\<lambda>r. r\<lparr>jr_status := StatusPending, jr_attempts := 0,
      jr_run_at := qe_now env, jr_updated := qe_now env\<rparr>) d)"
    using ok r by (intro set_one_moved [where r = r]) (auto simp: row_ok_def job_core_def is_job_def intro: reset)
qed

lemma Cancel_moved:
  assumes "jobs_ok db" "fair_env env"
  shows "job_moved db (snd (Queue_Cancel env db jid))"
  unfolding Queue_Cancel_def
proof (rule transition_moved [OF assms])
  fix d assume ok: "jobs_ok d" and "has_row (is_job jid StatusPending) d"
  then obtain r where r: "r \<in> set d" "jr_id r = jid" "jr_status r = StatusPending" by (auto elim: is_job_row)
  then have "row_ok r" using ok by (simp add: jobs_ok_def)
  then show "job_moved d (set_rows (is_job jid StatusPending) (\<lambda>r. r\<lparr>jr_status := StatusCancelled, jr_updated := qe_now env\<rparr>) d)"
    using ok r by (intro set_one_moved [where r = r]) (auto simp: row_ok_def job_core_def is_job_def intro: cancel)
qed

lemma txn_id_snd: "txn d m = (r, d') \<Longrightarrow> d' = snd (txn d m)"
  by simp

lemma safeHandle_snd: "snd (safeHandle h j db) = snd (h j db)"
  by (simp add: safeHandle_def split: prod.splits outcome.splits)

text \<open>A handler is fair when its own use of the queue is.\<close>

definition fair_handlers :: "'p handlers \<Rightarrow> bool" where
  "fair_handlers hs \<longleftrightarrow> (\<forall>t h j d. hs t = Some h \<longrightarrow> jobs_ok d \<longrightarrow> job_moved d (snd (h j d)))"

lemma recordComplete_snd: "snd (recordComplete env db jid ty) = snd (Queue_Complete env db jid)"
  by (simp add: recordComplete_def split: prod.splits outcome.splits)

lemma processNext_moved:
  assumes ok: "jobs_ok db" and fair: "fair_env env'" "fair_handlers hs"
  shows "job_moved db (snd (snd (processNext json env env' hs db)))"
proof -
  obtain r db1 where d: "Dequeue json env db = (r, db1)" by fastforce
  have m1: "job_moved db db1" using Dequeue_moved [OF ok, of json env] d by simp
  have ok1: "jobs_ok db1" by (rule job_moved_ok [OF m1])
  show ?thesis
  proof (cases "\<exists>j. r = Ok (Some j)")
    case False
    then have "snd (snd (processNext json env env' hs db)) = db1"
      using d by (auto simp: processNext_def split: outcome.splits option.splits)
    then show ?thesis using m1 by simp
  next
    case True
    then obtain j where j: "r = Ok (Some j)" by blast
    show ?thesis
    proof (cases "hs (jb_Type j)")
      case None
      then show ?thesis using d j job_moved_trans [OF m1 Fail_moved [OF ok1 fair(1)]]
        by (simp add: processNext_def recordFail_def)
    next
      case (Some h)
      obtain res db2 where h: "safeHandle h j db1 = (res, db2)" by fastforce
      have "job_moved db1 db2"
        using fair(2) Some ok1 safeHandle_snd [of h j db1] h by (auto simp: fair_handlers_def)
      note m2 = job_moved_trans [OF m1 this]
      have ok2: "jobs_ok db2" by (rule job_moved_ok [OF m2])
      note f = job_moved_trans [OF m2 Fail_moved [OF ok2 fair(1)]] and c = job_moved_trans [OF m2 Complete_moved [OF ok2]]
      have "snd (snd (processNext json env env' hs db)) =
          (case res of Fail e \<Rightarrow> recordFail env' db2 (jb_ID j) e | _ \<Rightarrow> snd (recordComplete env' db2 (jb_ID j) (jb_Type j)))"
        using d j Some h by (auto simp: processNext_def split: outcome.splits prod.splits)
      then show ?thesis using f c by (auto simp: recordFail_def recordComplete_snd split: outcome.splits)
    qed
  qed
qed

section \<open>Histories\<close>

datatype 'p job_op =
    OpEnqueue queue_env "'p job"
  | OpDequeue queue_env
  | OpComplete queue_env string
  | OpFail queue_env string "gerror option"
  | OpRetry queue_env string
  | OpCancel queue_env string
  | OpPoll queue_env queue_env "'p handlers"

fun job_op_step :: "'p json \<Rightarrow> 'p job_op \<Rightarrow> job_db \<Rightarrow> unit outcome \<times> job_db" where
  "job_op_step json (OpEnqueue env j) db = Enqueue json env db j"
| "job_op_step json (OpDequeue env) db = (Ok (), snd (Dequeue json env db))"
| "job_op_step json (OpComplete env jid) db = Queue_Complete env db jid"
| "job_op_step json (OpFail env jid e) db = Queue_Fail env db jid e"
| "job_op_step json (OpRetry env jid) db = Jobs_Retry env db jid"
| "job_op_step json (OpCancel env jid) db = Jobs_Cancel env db jid"
| "job_op_step json (OpPoll env env' hs) db = (Ok (), snd (snd (processNext json env env' hs db)))"

fun good_op :: "'p job_op \<Rightarrow> bool" where
  "good_op (OpEnqueue env j) = fresh_job j"
| "good_op (OpFail env jid e) = fair_env env"
| "good_op (OpRetry env jid) = fair_env env"
| "good_op (OpCancel env jid) = fair_env env"
| "good_op (OpPoll env env' hs) = (fair_env env' \<and> fair_handlers hs)"
| "good_op _ = True"

lemma op_moved: "good_op x \<Longrightarrow> jobs_ok db \<Longrightarrow> job_moved db (snd (job_op_step json x db))"
  by (cases x) (simp_all add: Enqueue_moved Dequeue_moved Complete_moved Fail_moved Retry_moved Cancel_moved
      processNext_moved Jobs_Retry_def Jobs_Cancel_def job_moved_refl)

interpretation job_queue: db_refinement "job_op_step json" good_op jobs_ok job_map "job_step\<^sup>*\<^sup>*"
  by unfold_locales (use op_moved in \<open>auto simp: job_moved_def\<close>)

inductive_cases job_step_cases: "job_step a b"

lemma done_stays: "job_step a b \<Longrightarrow> a i = Some (st, n, m) \<Longrightarrow> st = StatusDone \<or> st = StatusCancelled \<Longrightarrow> b i = a i"
  by (erule job_step_cases) auto

lemma dones_stay:
  "job_step\<^sup>*\<^sup>* a b \<Longrightarrow> a i = Some (st, n, m) \<Longrightarrow> st = StatusDone \<or> st = StatusCancelled \<Longrightarrow> b i = a i"
proof (induction rule: rtranclp_induct)
  case (step b c)
  then have "b i = a i" by blast
  then show ?case using done_stays [OF step.hyps(2), of i st n m] step.prems by simp
qed simp

text \<open>C16: The queue implements the job lifecycle. Under any sequence of enqueues of new jobs, polls,
  completions, failures, retries and cancellations, with driver errors and with fair sessions
  interleaved between the statements, each job moves along the abstract machine only (pending,
  processing, then done, back to pending, or failed; failed back to pending with no attempts;
  pending to cancelled); a job never has more attempts than its limit, and a job that is done or
  cancelled stays so.\<close>

theorem job_lifecycle:
  assumes "\<forall>x \<in> set xs. good_op x" "jobs_ok db"
  shows "job_step\<^sup>*\<^sup>* (job_map db) (job_map (run_db (job_op_step json) xs db)) \<and>
    (\<forall>r \<in> set (run_db (job_op_step json) xs db). 0 \<le> jr_attempts r \<and> jr_attempts r \<le> jr_max r) \<and>
    (\<forall>i st n m. job_map db i = Some (st, n, m) \<and> (st = StatusDone \<or> st = StatusCancelled) \<longrightarrow>
      job_map (run_db (job_op_step json) xs db) i = Some (st, n, m))"
proof -
  have steps: "job_step\<^sup>*\<^sup>* (job_map db) (job_map (run_db (job_op_step json) xs db))"
    using job_queue.run_abs [OF assms, of json] by simp
  moreover have "jobs_ok (run_db (job_op_step json) xs db)" by (rule job_queue.run_inv [OF assms])
  ultimately show ?thesis using dones_stay [OF steps] by (simp add: jobs_ok_def row_ok_def)
qed

section \<open>Jobs that were claimed\<close>

text \<open>
  A job that is processing is only ever left by \<open>Complete\<close> or \<open>Fail\<close> with its id. When the
  worker stops in between, or the call fails, no later poll, retry or cancellation touches it.
\<close>

fun leaves_claims :: "'p job_op \<Rightarrow> bool" where
  "leaves_claims (OpComplete _ _) = False"
| "leaves_claims (OpFail _ _ _) = False"
| "leaves_claims (OpPoll _ _ _) = False"
| "leaves_claims (OpRetry env _) = (\<forall>k d. qe_other env k d = d)"
| "leaves_claims (OpCancel env _) = (\<forall>k d. qe_other env k d = d)"
| "leaves_claims _ = True"

lemma set_rows_keeps: "r \<in> set db \<Longrightarrow> \<not> P r \<Longrightarrow> r \<in> set (set_rows P f db)"
  by (force simp: set_rows_def image_iff)

lemma claim_stays:
  assumes "jobs_ok db" "r \<in> set db" "jr_status r = StatusProcessing" "leaves_claims x"
  shows "r \<in> set (snd (job_op_step json x db))"
proof (cases x)
  case (OpEnqueue env j)
  show ?thesis unfolding OpEnqueue job_op_step.simps Enqueue_def
    by (rule txn_keeps [where Q = "\<lambda>d. r \<in> set d"]) (use assms(2) in \<open>auto split: if_splits\<close>)
next
  case (OpDequeue env)
  have "r \<in> set (snd (txn db (dequeueTx json env db)))"
  proof (rule txn_keeps [where Q = "\<lambda>d. r \<in> set d"])
    fix u d assume run: "dequeueTx json env db = Ok (u, d)"
    show "r \<in> set d"
    proof (cases "next_job env db")
      case None
      then show ?thesis using run assms(2) by (auto simp: dequeueTx_def)
    next
      case (Some q)
      then have q: "q \<in> set db" "jr_status q = StatusPending" using next_job_Some by auto
      have "jr_id r \<noteq> jr_id q"
        using assms(1-3) q by (metis distinct_map inj_onD job_status.distinct(1) jobs_ok_def)
      then show ?thesis using run Some assms(2) by (auto simp: dequeueTx_def intro: set_rows_keeps split: if_splits)
    qed
  qed (rule assms(2))
  then show ?thesis by (simp add: OpDequeue Dequeue_def)
next
  case (OpRetry env jid)
  have "\<not> is_job jid StatusFailed r" using assms(3) by (simp add: is_job_def)
  then show ?thesis using assms OpRetry set_rows_keeps [OF assms(2)]
    by (auto simp: Jobs_Retry_def Queue_Retry_def transitionStatus_def Let_def split: outcome.splits option.splits)
next
  case (OpCancel env jid)
  have "\<not> is_job jid StatusPending r" using assms(3) by (simp add: is_job_def)
  then show ?thesis using assms OpCancel set_rows_keeps [OF assms(2)]
    by (auto simp: Jobs_Cancel_def Queue_Cancel_def transitionStatus_def Let_def split: outcome.splits option.splits)
qed (use assms(4) in simp_all)

lemma claimed_job_stuck:
  assumes "\<forall>x \<in> set xs. leaves_claims x \<and> good_op x" "jobs_ok db" "r \<in> set db" "jr_status r = StatusProcessing"
  shows "r \<in> set (run_db (job_op_step json) xs db)"
  using assms
proof (induction xs arbitrary: db)
  case (Cons x xs)
  have "jobs_ok (snd (job_op_step json x db))"
    by (rule job_moved_ok [OF op_moved]) (use Cons.prems in auto)
  moreover have "r \<in> set (snd (job_op_step json x db))"
    by (rule claim_stays [OF Cons.prems(2,3,4)]) (use Cons.prems(1) in simp)
  moreover have "\<forall>x \<in> set xs. leaves_claims x \<and> good_op x" using Cons.prems(1) by simp
  ultimately show ?case using Cons.IH Cons.prems(4) by (simp only: run_db.simps)
qed simp

section \<open>Draining the queue\<close>

text \<open>
  A calm call: no driver errors, no locks, no other session, and a jitter of at most a quarter.
\<close>

definition calm :: "queue_env \<Rightarrow> bool" where
  "calm env \<longleftrightarrow> (\<forall>l. qe_fault env l = None) \<and> (\<forall>i. \<not> qe_locked env i) \<and> (\<forall>k d. qe_other env k d = d) \<and>
     (\<forall>d \<ge> 0. 4 * qe_jitter env d \<le> 5 * d)"

definition longestDelay :: int where "longestDelay = 375000000000"

lemma retryDelay_bound:
  assumes "\<forall>d \<ge> 0. 4 * jitter d \<le> 5 * d"
  shows "retryDelay jitter n div 1000000 * 1000000 \<le> longestDelay"
proof -
  define d where "d = (if n < 0 then backoffBase div 2 ^ nat (- n) else backoffBase * 2 ^ nat n)"
  define c where "c = (if backoffMax < d then backoffMax else d)"
  have "0 \<le> d" by (simp add: d_def backoffBase_def pos_imp_zdiv_nonneg_iff)
  then have "0 \<le> c" "c \<le> backoffMax" by (auto simp: c_def backoffMax_def)
  then have "4 * jitter c \<le> 5 * 300000000000" using assms by (force simp: backoffMax_def)
  then have "jitter c \<le> longestDelay" by (simp add: longestDelay_def)
  moreover have "jitter c div 1000000 * 1000000 \<le> jitter c"
    by (simp add: minus_mod_eq_div_mult [symmetric])
  moreover have "retryDelay jitter n = jitter c" by (simp add: retryDelay_def c_def d_def Let_def)
  ultimately show ?thesis by simp
qed

definition readable :: "'p json \<Rightarrow> job_db \<Rightarrow> bool" where
  "readable json db \<longleftrightarrow> (\<forall>r \<in> set db. jr_payload r = [] \<or> (\<exists>p. js_unmarshal json (jr_payload r) = Inr p))"

definition quiet_handlers :: "'p handlers \<Rightarrow> bool" where
  "quiet_handlers hs \<longleftrightarrow> (\<forall>t h j d. hs t = Some h \<longrightarrow> snd (h j d) = d)"

definition idle :: "job_db \<Rightarrow> bool" where
  "idle db \<longleftrightarrow> (\<forall>r \<in> set db. jr_status r \<noteq> StatusProcessing)"

definition due_by :: "gotime \<Rightarrow> job_db \<Rightarrow> bool" where
  "due_by t db \<longleftrightarrow> (\<forall>r \<in> set db. jr_status r = StatusPending \<longrightarrow> jr_run_at r \<le> t)"

definition weight :: "job_row \<Rightarrow> nat" where
  "weight r = (if jr_status r = StatusPending then nat (jr_max r - jr_attempts r) else 0)"

text \<open>The attempts that pending jobs may still take.\<close>

definition budget :: "job_db \<Rightarrow> nat" where
  "budget db = sum weight (set db)"

lemma calm_stmt: "calm env \<Longrightarrow> stmt (qe_fault env) l = Ok ()"
  by (simp add: calm_def stmt_def)

lemma set_rows_ids: "(\<And>r. jr_id (f r) = jr_id r) \<Longrightarrow> map jr_id (set_rows P f db) = map jr_id db"
  by (simp add: set_rows_def)

text \<open>What a poll leaves of the row it claimed.\<close>

definition settled :: "gotime \<Rightarrow> job_row \<Rightarrow> job_row \<Rightarrow> bool" where
  "settled t r q \<longleftrightarrow> jr_id q = jr_id r \<and> jr_payload q = jr_payload r \<and> jr_max q = jr_max r \<and>
     jr_attempts q = jr_attempts r + 1 \<and> jr_status q \<in> {StatusDone, StatusFailed, StatusPending} \<and>
     (jr_status q = StatusPending \<longrightarrow> jr_run_at q \<le> t)"

lemma settled_weight:
  assumes "settled t r q" "jr_status r = StatusPending" "jr_attempts r < jr_max r"
  shows "weight q < weight r"
  using assms by (auto simp: settled_def weight_def)

lemma budget_settled:
  assumes "jobs_ok db" "r \<in> set db" "jr_status r = StatusPending" "settled t r q" "set db' = insert q (set db - {r})"
  shows "budget db' < budget db"
proof -
  have r: "jr_attempts r < jr_max r" using assms(1-3) by (simp add: jobs_ok_def row_ok_def)
  have "q \<notin> set db - {r}"
    using assms(1,2,4) by (auto simp: jobs_ok_def distinct_map settled_def dest: inj_onD)
  then have "budget db' = weight q + sum weight (set db - {r})"
    by (simp add: budget_def assms(5))
  moreover have "budget db = weight r + sum weight (set db - {r})"
    unfolding budget_def using assms(2) by (simp add: sum.remove)
  ultimately show ?thesis using settled_weight [OF assms(4,3) r] by simp
qed

text \<open>The claim of a calm poll.\<close>

definition claimed :: "gotime \<Rightarrow> job_row \<Rightarrow> job_row" where
  "claimed now q = q\<lparr>jr_status := StatusProcessing, jr_attempts := jr_attempts q + 1, jr_updated := now\<rparr>"

lemma claimed_simps [simp]:
  "jr_id (claimed now q) = jr_id q" "jr_payload (claimed now q) = jr_payload q" "jr_max (claimed now q) = jr_max q"
  "jr_status (claimed now q) = StatusProcessing" "jr_attempts (claimed now q) = jr_attempts q + 1"
  by (simp_all add: claimed_def)

lemma calm_dequeue:
  assumes ok: "jobs_ok db" and calm: "calm env" and read: "readable json db" and r: "next_job env db = Some r"
  shows "\<exists>j. Dequeue json env db = (Ok (Some j), set_rows (\<lambda>q. jr_id q = jr_id r) (claimed (qe_now env)) db) \<and>
    jb_ID j = jr_id r"
proof -
  have mem: "r \<in> set db" "jr_status r = StatusPending" using next_job_Some [OF r] by auto
  have "row_ok r" using ok mem by (simp add: jobs_ok_def)
  then have fit: "int4 (jr_attempts r + 1)" using mem by (auto simp: row_ok_def int4_def)
  obtain payload where "(if jr_payload r = [] then Ok None
      else mapErr (Wrap ''job_queue: unmarshal payload'') (of_res (js_unmarshal json (jr_payload r)))) = Ok payload"
    using read mem by (cases "jr_payload r = []") (auto simp: readable_def)
  then show ?thesis
    using r fit by (simp add: Dequeue_def dequeueTx_def claimed_def [abs_def] calm_stmt [OF calm])
qed

lemma calm_complete:
  assumes ok: "jobs_ok db1" and calm: "calm env" and q: "q \<in> set db1" "jr_status q = StatusProcessing"
  shows "\<exists>f. Queue_Complete env db1 (jr_id q) = (Ok (), set_rows (is_job (jr_id q) StatusProcessing) f db1) \<and>
    (\<forall>r. jr_id (f r) = jr_id r) \<and> f q = q\<lparr>jr_status := StatusDone, jr_updated := qe_now env\<rparr>"
proof -
  have "has_row (is_job (jr_id q) StatusProcessing) db1"
    using q by (auto simp: has_row_def list_ex_iff is_job_def)
  then show ?thesis
    by (intro exI [of _ "\<lambda>r. r\<lparr>jr_status := StatusDone, jr_updated := qe_now env\<rparr>"])
      (simp add: Queue_Complete_def calm_stmt [OF calm])
qed

lemma calm_fail:
  assumes ok: "jobs_ok db1" and calm: "calm env" and q: "q \<in> set db1" "jr_status q = StatusProcessing"
  shows "\<exists>P f. snd (Queue_Fail env db1 (jr_id q) e) = set_rows P f db1 \<and> P q \<and> (\<forall>r. P r \<longrightarrow> jr_id r = jr_id q) \<and>
    (\<forall>r. jr_id (f r) = jr_id r) \<and> jr_payload (f q) = jr_payload q \<and> jr_max (f q) = jr_max q \<and>
    jr_attempts (f q) = jr_attempts q \<and>
    (if jr_max q \<le> jr_attempts q then jr_status (f q) = StatusFailed
     else jr_status (f q) = StatusPending \<and> jr_run_at (f q) \<le> qe_now env + longestDelay)"
proof -
  have other: "qe_other env k d = d" for k d using calm by (simp add: calm_def)
  let ?spent = "\<lambda>r. is_job (jr_id q) StatusProcessing r \<and> jr_max r \<le> jr_attempts r"
  let ?again = "\<lambda>r. is_job (jr_id q) StatusProcessing r \<and> jr_attempts r < jr_max r"
  have uniq: "r \<in> set db1 \<Longrightarrow> is_job (jr_id q) StatusProcessing r \<Longrightarrow> r = q" for r
    using ok q by (auto simp: jobs_ok_def distinct_map is_job_def dest: inj_onD)
  have self: "is_job (jr_id q) StatusProcessing q" using q by (simp add: is_job_def)
  show ?thesis
  proof (cases "jr_max q \<le> jr_attempts q")
    case True
    then have "has_row ?spent db1" using q self by (auto simp: has_row_def list_ex_iff)
    then show ?thesis
      using True self
      by (intro exI [of _ ?spent] exI [of _ "\<lambda>r. r\<lparr>jr_status := StatusFailed, jr_updated := qe_now env,
            jr_error := coalesce (map_option err_text e) (jr_error r)\<rparr>"])
        (auto simp: Queue_Fail_def is_job_def calm_stmt [OF calm])
  next
    case False
    then have no: "\<not> has_row ?spent db1" using uniq by (auto simp: has_row_def list_ex_iff)
    have yes: "has_row ?again db1" using q self False by (auto simp: has_row_def list_ex_iff)
    then obtain r where r: "List.find ?again db1 = Some r"
      by (cases "List.find ?again db1") (auto simp: find_None_iff has_row_def list_ex_iff)
    have b: "retryDelay (qe_jitter env) (jr_attempts r - 1) div 1000000 * 1000000 \<le> longestDelay"
      using calm by (intro retryDelay_bound) (simp add: calm_def)
    show ?thesis
      using False self no yes r b
      by (intro exI [of _ ?again] exI [of _ "\<lambda>p. p\<lparr>jr_status := StatusPending,
            jr_run_at := qe_now env + retryDelay (qe_jitter env) (jr_attempts r - 1) div 1000000 * 1000000,
            jr_updated := qe_now env, jr_error := coalesce (map_option err_text e) (jr_error p)\<rparr>"])
        (auto simp: Queue_Fail_def is_job_def other Let_def calm_stmt [OF calm])
  qed
qed

lemma calm_poll_some:
  assumes ok: "jobs_ok db" and idle: "idle db" and read: "readable json db"
    and calm: "calm env" "calm env'" and hs: "quiet_handlers hs" and r: "next_job env db = Some r"
  shows "\<exists>q. settled (qe_now env' + longestDelay) r q \<and>
    set (snd (snd (processNext json env env' hs db))) = insert q (set db - {r}) \<and>
    map jr_id (snd (snd (processNext json env env' hs db))) = map jr_id db"
proof -
  have mem: "r \<in> set db" "jr_status r = StatusPending" using next_job_Some [OF r] by auto
  have rok: "row_ok r" using ok mem by (simp add: jobs_ok_def)
  let ?c = "claimed (qe_now env)"
  let ?db1 = "set_rows (\<lambda>q. jr_id q = jr_id r) ?c db"
  obtain j where d: "Dequeue json env db = (Ok (Some j), ?db1)" and j: "jb_ID j = jr_id r"
    using calm_dequeue [OF ok calm(1) read r] by blast
  have c: "jr_id (?c q) = jr_id q" for q by simp
  have cok: "row_ok (?c r)" using rok mem by (auto simp: row_ok_def)
  note one = set_one [where P = "\<lambda>q. jr_id q = jr_id r" and f = ?c, OF ok mem(1) refl _ c cok]
  have ok1: "jobs_ok ?db1" and set1: "set ?db1 = insert (?c r) (set db - {r})" using one by auto
  have q: "?c r \<in> set ?db1" "jr_status (?c r) = StatusProcessing" using set1 by auto
  have new: "?c r \<notin> set db" using idle q(2) by (auto simp: idle_def)
  have ids1: "map jr_id ?db1 = map jr_id db" by (rule set_rows_ids) (rule c)
  have settle: "\<exists>p. settled (qe_now env' + longestDelay) r p \<and> set (set_rows P f ?db1) = insert p (set db - {r}) \<and>
      map jr_id (set_rows P f ?db1) = map jr_id db"
    if P: "P (?c r)" "\<And>p. P p \<Longrightarrow> jr_id p = jr_id (?c r)" and f: "\<And>p. jr_id (f p) = jr_id p"
      and s: "settled (qe_now env' + longestDelay) r (f (?c r))" "row_ok (f (?c r))" for P f
  proof -
    have "set (set_rows P f ?db1) = insert (f (?c r)) (set ?db1 - {?c r})"
      by (rule set_one(4) [where P = P and f = f, OF ok1 q(1) P(1) _ f s(2)]) (rule P(2))
    then have "set (set_rows P f ?db1) = insert (f (?c r)) (set db - {r})" using set1 new by auto
    moreover have "map jr_id (set_rows P f ?db1) = map jr_id db"
      using set_rows_ids [of f P ?db1] f ids1 by simp
    ultimately show ?thesis using s(1) by blast
  qed
  have complete: "\<exists>p. settled (qe_now env' + longestDelay) r p \<and>
      set (snd (Queue_Complete env' ?db1 (jr_id r))) = insert p (set db - {r}) \<and>
      map jr_id (snd (Queue_Complete env' ?db1 (jr_id r))) = map jr_id db"
  proof -
    obtain f where f: "Queue_Complete env' ?db1 (jr_id (?c r)) = (Ok (), set_rows (is_job (jr_id (?c r)) StatusProcessing) f ?db1)"
        "\<And>p. jr_id (f p) = jr_id p" "f (?c r) = (?c r)\<lparr>jr_status := StatusDone, jr_updated := qe_now env'\<rparr>"
      using calm_complete [OF ok1 calm(2) q] by blast
    have "settled (qe_now env' + longestDelay) r (f (?c r))" "row_ok (f (?c r))"
      using cok by (simp_all add: f(3) settled_def row_ok_def)
    note s = this
    have "is_job (jr_id (?c r)) StatusProcessing (?c r)"
      "\<And>p. is_job (jr_id (?c r)) StatusProcessing p \<Longrightarrow> jr_id p = jr_id (?c r)" by (simp_all add: is_job_def)
    from settle [where P = "is_job (jr_id (?c r)) StatusProcessing" and f = f, OF this f(2) s] show ?thesis using f(1) by simp
  qed
  have fail: "\<exists>p. settled (qe_now env' + longestDelay) r p \<and>
      set (snd (Queue_Fail env' ?db1 (jr_id r) e)) = insert p (set db - {r}) \<and>
      map jr_id (snd (Queue_Fail env' ?db1 (jr_id r) e)) = map jr_id db" for e
  proof -
    obtain P f where f: "snd (Queue_Fail env' ?db1 (jr_id (?c r)) e) = set_rows P f ?db1" "P (?c r)"
      "\<And>p. P p \<Longrightarrow> jr_id p = jr_id (?c r)" "\<And>p. jr_id (f p) = jr_id p"
      "jr_payload (f (?c r)) = jr_payload (?c r)" "jr_max (f (?c r)) = jr_max (?c r)" "jr_attempts (f (?c r)) = jr_attempts (?c r)"
      "if jr_max (?c r) \<le> jr_attempts (?c r) then jr_status (f (?c r)) = StatusFailed
       else jr_status (f (?c r)) = StatusPending \<and> jr_run_at (f (?c r)) \<le> qe_now env' + longestDelay"
      using calm_fail [OF ok1 calm(2) q] by blast
    have "settled (qe_now env' + longestDelay) r (f (?c r))"
      using f(4-8) by (auto simp: settled_def split: if_splits)
    moreover have "row_ok (f (?c r))"
      using cok f(4-8) by (auto simp: row_ok_def split: if_splits)
    ultimately show ?thesis using settle [where P = P and f = f, OF f(2-4)] f(1) by simp
  qed
  show ?thesis
  proof (cases "hs (jb_Type j)")
    case None
    then show ?thesis using d j fail by (simp add: processNext_def recordFail_def)
  next
    case (Some h)
    then have "snd (safeHandle h j ?db1) = ?db1" using hs by (simp add: safeHandle_snd quiet_handlers_def)
    then obtain res where h: "safeHandle h j ?db1 = (res, ?db1)" by (metis prod.collapse)
    have "snd (snd (processNext json env env' hs db)) =
        (case res of Fail e \<Rightarrow> recordFail env' ?db1 (jb_ID j) e | _ \<Rightarrow> snd (recordComplete env' ?db1 (jb_ID j) (jb_Type j)))"
      using d Some h by (auto simp: processNext_def split: outcome.splits prod.splits)
    then show ?thesis using complete fail j by (cases res) (auto simp: recordFail_def recordComplete_snd)
  qed
qed

lemma calm_poll_none:
  assumes "calm env" "next_job env db = None"
  shows "snd (snd (processNext json env env' hs db)) = db"
proof -
  have "Dequeue json env db = (Ok None, db)"
    using assms by (simp add: Dequeue_def dequeueTx_def calm_stmt)
  then show ?thesis by (simp add: processNext_def)
qed

lemma calm_next_None:
  assumes "calm env" "next_job env db = None" "due_by (qe_now env) db" "r \<in> set db"
  shows "jr_status r \<noteq> StatusPending"
proof
  assume p: "jr_status r = StatusPending"
  let ?f = "filter (\<lambda>r. jr_status r = StatusPending \<and> jr_run_at r \<le> qe_now env \<and> \<not> qe_locked env (jr_id r)) db"
  have "r \<in> set (sort_key jr_created ?f)" using assms p by (simp add: calm_def due_by_def)
  moreover have "sort_key jr_created ?f = []"
    using assms(2) by (simp add: next_job_def split: list.splits)
  ultimately show False by simp
qed

text \<open>What holds between calm polls.\<close>

definition resting :: "'p json \<Rightarrow> gotime \<Rightarrow> job_db \<Rightarrow> bool" where
  "resting json t db \<longleftrightarrow> jobs_ok db \<and> idle db \<and> readable json db \<and> due_by t db"

lemma calm_poll:
  assumes rest: "resting json t db" and calm: "calm env" "calm env'" and hs: "quiet_handlers hs"
    and time: "t \<le> qe_now env" "qe_now env \<le> qe_now env'"
  defines "db' \<equiv> snd (snd (processNext json env env' hs db))"
  shows "resting json (qe_now env' + longestDelay) db' \<and> map jr_id db' = map jr_id db \<and>
    (budget db' < budget db \<or> (db' = db \<and> (\<forall>r \<in> set db. jr_status r \<noteq> StatusPending)))"
proof -
  have ok: "jobs_ok db" "idle db" "readable json db" and due: "due_by (qe_now env) db"
    using rest time(1) by (auto simp: resting_def due_by_def)
  have late: "qe_now env \<le> qe_now env' + longestDelay" using time(2) by (simp add: longestDelay_def)
  show ?thesis
  proof (cases "next_job env db")
    case None
    have "db' = db" unfolding db'_def by (rule calm_poll_none [OF calm(1) None])
    then show ?thesis
      using ok due late calm_next_None [OF calm(1) None due] by (auto simp: resting_def due_by_def)
  next
    case (Some r)
    then have mem: "r \<in> set db" "jr_status r = StatusPending" using next_job_Some by auto
    have fair: "fair_env env'" using calm(2) by (simp add: fair_env_def calm_def job_moved_refl)
    have "fair_handlers hs" using hs by (auto simp: fair_handlers_def quiet_handlers_def job_moved_refl)
    then have ok': "jobs_ok db'"
      using processNext_moved [OF ok(1) fair] job_moved_ok unfolding db'_def by blast
    obtain q where q: "settled (qe_now env' + longestDelay) r q" and set: "set db' = insert q (set db - {r})"
      and ids: "map jr_id db' = map jr_id db"
      using calm_poll_some [OF ok calm hs Some] unfolding db'_def by blast
    have "resting json (qe_now env' + longestDelay) db'"
      using ok ok' due late q mem by (fastforce simp: resting_def idle_def readable_def due_by_def set settled_def)
    then show ?thesis using budget_settled [OF ok(1) mem q set] ids by blast
  qed
qed

text \<open>Polls one after the other, each with its own surroundings, and far enough apart.\<close>

fun run_polls :: "'p json \<Rightarrow> 'p handlers \<Rightarrow> (queue_env \<times> queue_env) list \<Rightarrow> job_db \<Rightarrow> job_db" where
  "run_polls json hs [] db = db"
| "run_polls json hs ((env, env') # ps) db = run_polls json hs ps (snd (snd (processNext json env env' hs db)))"

fun spaced :: "gotime \<Rightarrow> (queue_env \<times> queue_env) list \<Rightarrow> bool" where
  "spaced t [] \<longleftrightarrow> True"
| "spaced t ((env, env') # ps) \<longleftrightarrow> calm env \<and> calm env' \<and> t \<le> qe_now env \<and> qe_now env \<le> qe_now env' \<and>
     spaced (qe_now env' + longestDelay) ps"

lemma run_polls_drain:
  assumes "resting json t db" "quiet_handlers hs" "spaced t ps" "budget db \<le> length ps"
  shows "idle (run_polls json hs ps db) \<and> map jr_id (run_polls json hs ps db) = map jr_id db \<and>
    (\<forall>r \<in> set (run_polls json hs ps db). jr_status r \<noteq> StatusPending) \<and> jobs_ok (run_polls json hs ps db)"
  using assms
proof (induction ps arbitrary: t db)
  case Nil
  have "jr_status r \<noteq> StatusPending" if "r \<in> set db" for r
  proof
    assume p: "jr_status r = StatusPending"
    have "row_ok r" using Nil(1) that by (simp add: resting_def jobs_ok_def)
    then have "0 < weight r" using p by (simp add: weight_def row_ok_def)
    moreover have "weight r \<le> sum weight (set db)" using that by (intro member_le_sum) auto
    ultimately show False using Nil(4) by (simp add: budget_def)
  qed
  then show ?case using Nil(1) by (simp add: resting_def)
next
  case (Cons p ps)
  obtain env env' where p: "p = (env, env')" by fastforce
  let ?db = "snd (snd (processNext json env env' hs db))"
  have step: "resting json (qe_now env' + longestDelay) ?db" "map jr_id ?db = map jr_id db"
      "budget ?db < budget db \<or> (?db = db \<and> (\<forall>r \<in> set db. jr_status r \<noteq> StatusPending))"
    using calm_poll [OF Cons.prems(1) _ _ Cons.prems(2), of env env'] Cons.prems(3) by (auto simp: p)
  have "budget ?db \<le> length ps"
  proof (cases "budget ?db < budget db")
    case True
    then show ?thesis using Cons.prems(4) by simp
  next
    case False
    then have "?db = db" "\<forall>r \<in> set db. jr_status r \<noteq> StatusPending" using step(3) by auto
    then show ?thesis by (simp add: budget_def weight_def)
  qed
  from Cons.IH [OF step(1) Cons.prems(2) _ this] Cons.prems(3) step(2) show ?case by (simp add: p)
qed

text \<open>C17: The queue drains, when nothing is put into it. Suppose that no job is in progress, that the
  payload of every job is empty or can be decoded, that every pending job is due at the first poll, that
  no handler touches the jobs table itself (the handlers that enqueue jobs, such as the one of the cart
  recovery, are not covered), and that the worker polls calmly: no statement fails, and each poll is
  later than the longest back-off after the one before. Then, whatever the handlers answer (errors and
  panics included), as many polls as the pending jobs have attempts left bring every job to an
  end: no job is lost, and each is done, failed or cancelled.\<close>

theorem queue_drains:
  assumes "jobs_ok db" "idle db" "readable json db" "due_by t db" "quiet_handlers hs" "spaced t ps"
    "budget db \<le> length ps"
  shows "map jr_id (run_polls json hs ps db) = map jr_id db \<and>
    (\<forall>r \<in> set (run_polls json hs ps db). jr_status r \<in> {StatusDone, StatusFailed, StatusCancelled})"
proof -
  have "resting json t db" using assms(1-4) by (simp add: resting_def)
  from run_polls_drain [OF this assms(5-7)]
  have end_state: "map jr_id (run_polls json hs ps db) = map jr_id db" "jobs_ok (run_polls json hs ps db)"
    "\<forall>r \<in> set (run_polls json hs ps db). jr_status r \<noteq> StatusPending \<and> jr_status r \<noteq> StatusProcessing"
    by (auto simp: idle_def)
  then have "jr_status r \<in> {StatusDone, StatusFailed, StatusCancelled}" if "r \<in> set (run_polls json hs ps db)" for r
    using that by (cases "jr_status r") (auto simp: jobs_ok_def row_ok_def)
  then show ?thesis using end_state(1) by blast
qed

section \<open>Witnesses\<close>

definition demo_json :: "unit json" where
  "demo_json = \<lparr>js_marshal = (\<lambda>_. Inr ''{}''), js_unmarshal = (\<lambda>_. Inr (Some ())), js_empty = ()\<rparr>"

definition demo_queue_env :: "gotime \<Rightarrow> queue_env" where
  "demo_queue_env t = \<lparr>qe_fault = (\<lambda>_. None), qe_locked = (\<lambda>_. False), qe_now = t, qe_other = (\<lambda>_ d. d), qe_jitter = (\<lambda>d. d)\<rparr>"

definition demo_job :: "string \<Rightarrow> string \<Rightarrow> unit job" where
  "demo_job jid ty = \<lparr>jb_ID = jid, jb_Type = ty, jb_Payload = None, jb_Status = StatusPending, jb_Attempts = 0,
     jb_MaxRetries = 2, jb_RunAt = 0, jb_CreatedAt = 0, jb_UpdatedAt = 0\<rparr>"

definition demo_handlers :: "unit handlers" where
  "demo_handlers = [''mail'' \<mapsto> (\<lambda>j d. (Panics ''boom'', d))]"

lemma demo_calm: "calm (demo_queue_env t)"
  by (simp add: calm_def demo_queue_env_def)

lemma demo_fair: "fair_env (demo_queue_env t)"
  by (simp add: fair_env_def demo_queue_env_def job_moved_refl)

lemma demo_quiet: "quiet_handlers demo_handlers"
  by (auto simp: quiet_handlers_def demo_handlers_def split: if_splits)

lemma demo_queue_env_simps:
  "qe_now (demo_queue_env t) = t" "qe_locked (demo_queue_env t) i = False" "qe_other (demo_queue_env t) k d = d" "qe_jitter (demo_queue_env t) n = n"
  by (simp_all add: demo_queue_env_def)

lemma demo_stmt: "stmt (qe_fault (demo_queue_env t)) l = Ok ()"
  by (rule calm_stmt [OF demo_calm])

lemmas job_eval = Enqueue_def Dequeue_def dequeueTx_def next_job_def Queue_Complete_def Queue_Fail_def Jobs_Cancel_def
  Queue_Cancel_def transitionStatus_def set_rows_def has_row_def is_job_def processNext_def safeHandle_def recordFail_def
  recordComplete_def retryDelay_def backoffBase_def backoffMax_def coalesce_def

abbreviation demo_row :: "string \<Rightarrow> job_row" where
  "demo_row jid \<equiv> \<lparr>jr_id = jid, jr_type = ''mail'', jr_payload = ''{}'', jr_status = StatusPending, jr_attempts = 0,
     jr_max = 2, jr_run_at = 0, jr_created = 0, jr_updated = 0, jr_error = None\<rparr>"

text \<open>Two jobs enter, one is cancelled, and another cancellation of it is a conflict.\<close>

theorem job_lifecycle_witness:
  "job_step\<^sup>*\<^sup>* (job_map []) (job_map (run_db (job_op_step demo_json)
     [OpEnqueue (demo_queue_env 1) (demo_job ''a'' ''mail''), OpEnqueue (demo_queue_env 1) (demo_job ''b'' ''mail''),
      OpCancel (demo_queue_env 2) ''a'', OpDequeue (demo_queue_env 3)] [])) \<and>
   map jr_status (run_db (job_op_step demo_json)
     [OpEnqueue (demo_queue_env 1) (demo_job ''a'' ''mail''), OpEnqueue (demo_queue_env 1) (demo_job ''b'' ''mail''),
      OpCancel (demo_queue_env 2) ''a'', OpDequeue (demo_queue_env 3)] []) = [StatusCancelled, StatusProcessing]"
proof -
  let ?ops = "[OpEnqueue (demo_queue_env 1) (demo_job ''a'' ''mail''), OpEnqueue (demo_queue_env 1) (demo_job ''b'' ''mail''),
      OpCancel (demo_queue_env 2) ''a'', OpDequeue (demo_queue_env 3)]"
  have "\<forall>x \<in> set ?ops. good_op x" by (simp add: demo_fair fresh_job_def demo_job_def)
  moreover have "jobs_ok []" by (simp add: jobs_ok_def)
  ultimately have "job_step\<^sup>*\<^sup>* (job_map []) (job_map (run_db (job_op_step demo_json) ?ops []))"
    using job_lifecycle by blast
  moreover have "map jr_status (run_db (job_op_step demo_json) ?ops []) = [StatusCancelled, StatusProcessing]"
    by (simp add: job_eval demo_stmt demo_queue_env_simps demo_json_def demo_job_def int4_def Let_def)
  ultimately show ?thesis by blast
qed

text \<open>A job whose handler always panics ends as failed after its two attempts.\<close>

theorem queue_drains_witness:
  "jr_status (hd (run_polls demo_json demo_handlers
     [(demo_queue_env 1, demo_queue_env 1), (demo_queue_env 400000000000, demo_queue_env 400000000000)]
     [demo_row ''a''])) \<in> {StatusDone, StatusFailed, StatusCancelled}"
proof -
  let ?run = "run_polls demo_json demo_handlers
     [(demo_queue_env 1, demo_queue_env 1), (demo_queue_env 400000000000, demo_queue_env 400000000000)] [demo_row ''a'']"
  have "jobs_ok [demo_row ''a'']" "idle [demo_row ''a'']" "readable demo_json [demo_row ''a'']" "due_by 0 [demo_row ''a'']"
    by (simp_all add: jobs_ok_def row_ok_def int4_def idle_def readable_def demo_json_def due_by_def)
  moreover have "spaced 0 [(demo_queue_env 1, demo_queue_env 1), (demo_queue_env 400000000000, demo_queue_env 400000000000)]"
    by (simp add: demo_calm) (simp add: demo_queue_env_def longestDelay_def)
  moreover have "budget [demo_row ''a''] \<le> length [(demo_queue_env 1, demo_queue_env 1), (demo_queue_env 400000000000, demo_queue_env 400000000000)]"
    by (simp add: budget_def weight_def)
  ultimately have "map jr_id ?run = map jr_id [demo_row ''a''] \<and>
      (\<forall>r \<in> set ?run. jr_status r \<in> {StatusDone, StatusFailed, StatusCancelled})"
    using queue_drains [OF _ _ _ _ demo_quiet, of "[demo_row ''a'']" demo_json 0] by blast
  moreover from this have "?run \<noteq> []" by (metis list.map_disc_iff list.distinct(1))
  ultimately show ?thesis using hd_in_set by blast
qed

end
