(* ===== verification/Cron.thy ===== *)
theory Cron
  imports Database
begin

text \<open>
  The scheduler: cron expressions and their next run
  (\<open>internal/infrastructure/cron/scheduler.go\<close>, \<open>normalize.go\<close>), the ticks of the in-process
  scheduler, and the registry of tasks in the table \<open>scheduler_tasks\<close>
  (\<open>internal/infrastructure/postgres/scheduler_store.go\<close>, \<open>internal/application/scheduler\<close>).
  An instant is a number of nanoseconds since the zero time; the offset of the local zone is an
  argument. A result of type \<open>option\<close> is \<open>None\<close> when the call does not return: the loop over
  the values of a range adds a step that may wrap around.
\<close>

section \<open>Strings and numbers\<close>

text \<open>\<open>strings.Fields\<close>.\<close>

function fields_from :: "string \<Rightarrow> string \<Rightarrow> string list" where
  "fields_from cur s =
     (case s of
        [] \<Rightarrow> (if cur = [] then [] else [cur])
      | c # cs \<Rightarrow>
          (case strip_code space_codes s of
             Some s' \<Rightarrow> (if cur = [] then fields_from [] s' else cur # fields_from [] s')
           | None \<Rightarrow> fields_from (cur @ [c]) cs))"
  by pat_completeness auto
termination
  by (relation "measure (\<lambda>(cur, s). length s)") (auto dest!: strip_code_shorter)

declare fields_from.simps [simp del]

definition go_fields :: "string \<Rightarrow> string list" where "go_fields s = fields_from [] s"

text \<open>\<open>strings.Split\<close> and \<open>strings.SplitN(_, _, 2)\<close> at a character.\<close>

fun split_char :: "char \<Rightarrow> string \<Rightarrow> string list" where
  "split_char c [] = [[]]"
| "split_char c (x # xs) =
     (if x = c then [] # split_char c xs
      else case split_char c xs of p # ps \<Rightarrow> (x # p) # ps | [] \<Rightarrow> [[x]])"

definition before_char :: "char \<Rightarrow> string \<Rightarrow> string" where
  "before_char c s = takeWhile (\<lambda>x. x \<noteq> c) s"

definition after_char :: "char \<Rightarrow> string \<Rightarrow> string" where
  "after_char c s = drop 1 (dropWhile (\<lambda>x. x \<noteq> c) s)"

text \<open>\<open>strconv.Atoi\<close>: a sign, digits, in the range of an \<open>int\<close>.\<close>

definition digits_value :: "string \<Rightarrow> int" where
  "digits_value s = foldl (\<lambda>n c. 10 * n + (int (byte_val c) - 48)) 0 s"

definition go_atoi :: "string \<Rightarrow> int64 option" where
  "go_atoi s =
     (let (neg, ds) = (case s of c # r \<Rightarrow> if c = CHR ''-'' then (True, r) else if c = CHR ''+'' then (False, r) else (False, s)
                       | [] \<Rightarrow> (False, s));
          n = (if neg then - digits_value ds else digits_value ds) in
      if ds = [] \<or> \<not> list_all is_digit_char ds \<or> \<not> in_int64 n then None else Some (word_of_int n))"

section \<open>Cron expressions\<close>

text \<open>A call that may not return, and what follows it.\<close>

fun bindR :: "'a outcome option \<Rightarrow> ('a \<Rightarrow> 'b outcome option) \<Rightarrow> 'b outcome option" where
  "bindR None f = None"
| "bindR (Some (Ok x)) f = f x"
| "bindR (Some (Fail e)) f = Some (Fail e)"
| "bindR (Some (Panics p)) f = Some (Panics p)"

partial_function (option) range_loop :: "int64 \<Rightarrow> int64 \<Rightarrow> int64 \<Rightarrow> int64 list \<Rightarrow> int64 list option" where
  "range_loop v hi step result =
     (if v \<le>s hi then range_loop (v + step) hi step (result @ [v]) else Some result)"

definition parse_range :: "int64 \<Rightarrow> int64 \<Rightarrow> int64 \<Rightarrow> int64 \<Rightarrow> int64 \<Rightarrow> int64 list outcome option" where
  "parse_range mn mx step0 lo hi =
     (if lo <s mn \<or> mx <s hi \<or> hi <s lo
      then Some (Fail (ErrWith ''range %d-%d out of bounds [%d, %d]'' [go_itoa lo, go_itoa hi, go_itoa mn, go_itoa mx]))
      else map_option Ok (range_loop lo hi (if step0 = 0 then 1 else step0) []))"

definition parse_unstepped :: "string \<Rightarrow> int64 \<Rightarrow> int64 \<Rightarrow> int64 \<Rightarrow> int64 list outcome option" where
  "parse_unstepped part mn mx step =
     (if part = ''*'' then parse_range mn mx step mn mx
      else if CHR ''-'' \<in> set part then
        (case go_atoi (before_char (CHR ''-'') part) of
           None \<Rightarrow> Some (Fail (ErrWith ''invalid range start in %q'' [part]))
         | Some lo \<Rightarrow>
             (case go_atoi (after_char (CHR ''-'') part) of
                None \<Rightarrow> Some (Fail (ErrWith ''invalid range end in %q'' [part]))
              | Some hi \<Rightarrow> parse_range mn mx step lo hi))
      else
        (case go_atoi part of
           None \<Rightarrow> Some (Fail (ErrWith ''invalid value %q'' [part]))
         | Some n \<Rightarrow>
             if n <s mn \<or> mx <s n then Some (Fail (ErrWith ''value %d out of range [%d, %d]'' [go_itoa n, go_itoa mn, go_itoa mx]))
             else if 0 <s step then parse_range mn mx step n mx
             else Some (Ok [n])))"

definition parsePart :: "string \<Rightarrow> int64 \<Rightarrow> int64 \<Rightarrow> int64 list outcome option" where
  "parsePart part mn mx =
     (if CHR ''/'' \<in> set part then
        (case go_atoi (after_char (CHR ''/'') part) of
           None \<Rightarrow> Some (Fail (ErrWith ''invalid step in %q'' [part]))
         | Some s \<Rightarrow>
             if s \<le>s 0 then Some (Fail (ErrWith ''invalid step in %q'' [part]))
             else parse_unstepped (before_char (CHR ''/'') part) mn mx s)
      else parse_unstepped part mn mx 0)"

fun parse_parts :: "string list \<Rightarrow> int64 \<Rightarrow> int64 \<Rightarrow> int64 list \<Rightarrow> int64 list outcome option" where
  "parse_parts [] mn mx result = Some (Ok result)"
| "parse_parts (p # ps) mn mx result =
     bindR (parsePart p mn mx) (\<lambda>vals. parse_parts ps mn mx (result @ vals))"

definition parseField :: "string \<Rightarrow> int64 \<Rightarrow> int64 \<Rightarrow> int64 list outcome option" where
  "parseField field mn mx =
     bindR (parse_parts (split_char (CHR '','') field) mn mx []) (\<lambda>result.
     if result = [] then Some (Fail (Err ''empty field'')) else Some (Ok result))"

record cron_expr =
  ce_minute :: "int64 list"
  ce_hour :: "int64 list"
  ce_dayOfMonth :: "int64 list"
  ce_month :: "int64 list"
  ce_dayOfWeek :: "int64 list"
  ce_domWild :: bool
  ce_dowWild :: bool

definition wrapR :: "string \<Rightarrow> 'a outcome option \<Rightarrow> 'a outcome option" where
  "wrapR label r = map_option (mapErr (Wrap label)) r"

definition cron_parse :: "string \<Rightarrow> cron_expr outcome option" where
  "cron_parse spec =
     (case go_fields spec of
        [f0, f1, f2, f3, f4] \<Rightarrow>
          bindR (wrapR ''minute'' (parseField f0 0 59)) (\<lambda>minute.
          bindR (wrapR ''hour'' (parseField f1 0 23)) (\<lambda>hour.
          bindR (wrapR ''day-of-month'' (parseField f2 1 31)) (\<lambda>dom.
          bindR (wrapR ''month'' (parseField f3 1 12)) (\<lambda>month.
          bindR (wrapR ''day-of-week'' (parseField f4 0 6)) (\<lambda>dow.
          Some (Ok \<lparr>ce_minute = minute, ce_hour = hour, ce_dayOfMonth = dom, ce_month = month,
            ce_dayOfWeek = dow, ce_domWild = (f2 = ''*''), ce_dowWild = (f4 = ''*'')\<rparr>))))))
      | fs \<Rightarrow> Some (Fail (ErrWith ''expected 5 fields, got %d'' [nat_decimal (length fs)])))"

section \<open>Instants\<close>

text \<open>
  What the package \<open>time\<close> computes: the fields of an instant in the proleptic Gregorian calendar.
  Day 0 is the first of January of the year 1, a Monday.
\<close>

definition minute_ns :: int where "minute_ns = 60000000000"
definition day_ns :: int where "day_ns = 86400000000000"

definition leap_year :: "int \<Rightarrow> bool" where
  "leap_year y \<longleftrightarrow> y mod 4 = 0 \<and> (y mod 100 \<noteq> 0 \<or> y mod 400 = 0)"

definition month_lengths :: "int \<Rightarrow> int list" where
  "month_lengths y = [31, if leap_year y then 29 else 28, 31, 30, 31, 30, 31, 31, 30, 31, 30, 31]"

fun month_day :: "int \<Rightarrow> int list \<Rightarrow> int \<Rightarrow> int \<times> int" where
  "month_day m [] d = (m, d + 1)"
| "month_day m [n] d = (m, d + 1)"
| "month_day m (n # k # ns) d = (if d < n then (m, d + 1) else month_day (m + 1) (k # ns) (d - n))"

text \<open>The year of a day, and the number of the day in it.\<close>

definition year_day :: "int \<Rightarrow> int \<times> int" where
  "year_day d =
     (let n400 = d div 146097; d1 = d mod 146097;
          n100 = min 3 (d1 div 36524); d2 = d1 - 36524 * n100;
          n4 = d2 div 1461; d3 = d2 mod 1461;
          n1 = min 3 (d3 div 365) in
      (400 * n400 + 100 * n100 + 4 * n4 + n1 + 1, d3 - 365 * n1))"

record civil =
  cv_Minute :: int
  cv_Hour :: int
  cv_Day :: int
  cv_Month :: int
  cv_Weekday :: int

definition civil_of :: "(gotime \<Rightarrow> int) \<Rightarrow> gotime \<Rightarrow> civil" where
  "civil_of zone t =
     (let l = t + zone t; d = l div day_ns; (y, n) = year_day d; (m, k) = month_day 1 (month_lengths y) n in
      \<lparr>cv_Minute = l div minute_ns mod 60, cv_Hour = l div (60 * minute_ns) mod 24, cv_Day = k, cv_Month = m,
       cv_Weekday = (d + 1) mod 7\<rparr>)"

definition set_contains :: "int64 list \<Rightarrow> int \<Rightarrow> bool" where
  "set_contains s v \<longleftrightarrow> list_ex (\<lambda>x. sint x = v) s"

definition cron_matches :: "cron_expr \<Rightarrow> civil \<Rightarrow> bool" where
  "cron_matches c t \<longleftrightarrow>
     (if \<not> set_contains (ce_minute c) (cv_Minute t) \<or> \<not> set_contains (ce_hour c) (cv_Hour t) \<or>
         \<not> set_contains (ce_month c) (cv_Month t) then False
      else
        let domMatch = set_contains (ce_dayOfMonth c) (cv_Day t);
            dowMatch = set_contains (ce_dayOfWeek c) (cv_Weekday t) in
        if \<not> ce_domWild c \<and> \<not> ce_dowWild c then domMatch \<or> dowMatch else domMatch \<and> dowMatch)"

definition maxLookahead :: nat where "maxLookahead = 4 * 366 * 24 * 60"

primrec cron_scan :: "cron_expr \<Rightarrow> (gotime \<Rightarrow> int) \<Rightarrow> nat \<Rightarrow> gotime \<Rightarrow> gotime" where
  "cron_scan c zone 0 t = 0"
| "cron_scan c zone (Suc n) t =
     (if cron_matches c (civil_of zone t) then t else cron_scan c zone n (t + minute_ns))"

definition cron_next :: "cron_expr \<Rightarrow> (gotime \<Rightarrow> int) \<Rightarrow> gotime \<Rightarrow> gotime" where
  "cron_next c zone after = cron_scan c zone maxLookahead (after - after mod minute_ns + minute_ns)"

definition NextRun :: "(gotime \<Rightarrow> int) \<Rightarrow> string \<Rightarrow> gotime \<Rightarrow> gotime outcome option" where
  "NextRun zone spec after = bindR (cron_parse spec) (\<lambda>expr. Some (Ok (cron_next expr zone after)))"

section \<open>Shorthands\<close>

definition parseEverySpec :: "string \<Rightarrow> string outcome" where
  "parseEverySpec body =
     (if body = [] then Fail (Err ''invalid @every spec'')
      else
        let u = last body in
        case go_atoi (trim_space (butlast body)) of
          None \<Rightarrow> Fail (ErrWith ''invalid @every interval %q'' [body])
        | Some n \<Rightarrow>
            if n \<le>s 0 then Fail (ErrWith ''invalid @every interval %q'' [body])
            else if u = CHR ''m'' \<or> u = CHR ''M'' then
              if 60 \<le>s n then Fail (Err ''@every minutes must be less than 60'')
              else Ok (''*/'' @ go_itoa n @ '' * * * *'')
            else if u = CHR ''h'' \<or> u = CHR ''H'' then
              if 24 \<le>s n then Fail (Err ''@every hours must be less than 24'')
              else Ok (''0 */'' @ go_itoa n @ '' * * *'')
            else Fail (ErrWith ''unsupported @every unit %q (use m or h)'' [[u]]))"

definition NormalizeSpec :: "string \<Rightarrow> string outcome option" where
  "NormalizeSpec spec0 =
     (let spec = trim_space spec0 in
      if spec = [] then Some (Fail (Err ''cron spec must not be empty''))
      else if prefix ''@every '' spec then Some (parseEverySpec (trim_space (drop 7 spec)))
      else bindR (cron_parse spec) (\<lambda>_. Some (Ok spec)))"

section \<open>The in-process scheduler\<close>

text \<open>A task is a function on a world that it may change; it returns or panics.\<close>

record 'w cron_entry =
  en_name :: string
  en_spec :: string
  en_expr :: cron_expr
  en_fn :: "'w \<Rightarrow> string option \<times> 'w"

record 'w scheduler =
  sc_entries :: "'w cron_entry list"
  sc_stopped :: bool

definition Scheduler_Register ::
    "'w scheduler \<Rightarrow> string \<Rightarrow> string \<Rightarrow> ('w \<Rightarrow> string option \<times> 'w) option \<Rightarrow> 'w scheduler outcome option" where
  "Scheduler_Register s name spec fn0 =
     (if name = [] then Some (Panics ''cron: task name must not be empty'')
      else case fn0 of
        None \<Rightarrow> Some (Panics ''cron: task function must not be nil'')
      | Some fn \<Rightarrow>
          if list_ex (\<lambda>e. en_name e = name) (sc_entries s) then Some (Panics (''cron: duplicate task name: '' @ name))
          else case cron_parse spec of
            None \<Rightarrow> None
          | Some (Ok expr) \<Rightarrow> Some (Ok (s\<lparr>sc_entries := sc_entries s @
              [\<lparr>en_name = name, en_spec = spec, en_expr = expr, en_fn = fn\<rparr>]\<rparr>))
          | Some (Fail e) \<Rightarrow> Some (Panics (''cron: invalid spec '' @ go_quote spec @ '' for task '' @ go_quote name @ '': '' @ err_text e))
          | Some (Panics p) \<Rightarrow> Some (Panics p))"

definition Scheduler_Stop :: "'w scheduler \<Rightarrow> 'w scheduler" where
  "Scheduler_Stop s = s\<lparr>sc_stopped := True\<rparr>"

text \<open>What a tick does with a task that is due; \<open>Fire\<close> starts it in a goroutine.\<close>

datatype tick_event = CheckFailed "string list" | SkippedDisabled string | SkippedStopping string | Fire string

definition tick_entry :: "bool \<Rightarrow> (string \<Rightarrow> bool option) \<Rightarrow> 'w cron_entry \<Rightarrow> tick_event" where
  "tick_entry stopped enabled e =
     (if enabled (en_name e) = Some False then SkippedDisabled (en_name e)
      else if stopped then SkippedStopping (en_name e)
      else Fire (en_name e))"

definition tick ::
    "'w scheduler \<Rightarrow> (gotime \<Rightarrow> int) \<Rightarrow> (string list \<Rightarrow> gerror + (string \<Rightarrow> bool option)) option \<Rightarrow> gotime \<Rightarrow> tick_event list" where
  "tick s zone store t =
     (let matched = filter (\<lambda>e. cron_matches (en_expr e) (civil_of zone t)) (sc_entries s) in
      if matched = [] then []
      else
        let names = map en_name matched;
            (events, enabled) =
              (case store of
                 None \<Rightarrow> ([], \<lambda>_. None)
               | Some isEnabledBatch \<Rightarrow>
                   (case isEnabledBatch names of
                      Inl err \<Rightarrow> ([CheckFailed names], \<lambda>_. None)
                    | Inr m \<Rightarrow> ([], m))) in
        events @ map (tick_entry (sc_stopped s) enabled) matched)"

definition runCapturingPanic :: "'w cron_entry \<Rightarrow> 'w \<Rightarrow> unit outcome \<times> 'w" where
  "runCapturingPanic e w =
     (case en_fn e w of
        (None, w') \<Rightarrow> (Ok (), w')
      | (Some p, w') \<Rightarrow> (Fail (ErrWith ''task %q panicked: %v'' [en_name e, p]), w'))"

fun trigger_entries :: "bool \<Rightarrow> 'w cron_entry list \<Rightarrow> string \<Rightarrow> 'w \<Rightarrow> unit outcome \<times> 'w" where
  "trigger_entries stopped [] name w = (Fail (AppErr NotFound (''no scheduled task named '' @ go_quote name)), w)"
| "trigger_entries stopped (e # es) name w =
     (if en_name e = name
      then if stopped then (Fail (AppErr Conflict ''scheduler is shutting down; task not triggered''), w)
           else runCapturingPanic e w
      else trigger_entries stopped es name w)"

definition TriggerLocal :: "'w scheduler \<Rightarrow> string \<Rightarrow> 'w \<Rightarrow> unit outcome \<times> 'w" where
  "TriggerLocal s name w = trigger_entries (sc_stopped s) (sc_entries s) name w"

section \<open>The registry of tasks\<close>

record task_row =
  tr_name :: string
  tr_spec :: string
  tr_enabled :: bool
  tr_updated :: gotime

type_synonym task_db = "task_row list"

text \<open>A new row is enabled (the default of the column); an existing one keeps its flag.\<close>

definition upsert_task :: "gotime \<Rightarrow> string \<times> string \<Rightarrow> task_db \<Rightarrow> task_db" where
  "upsert_task now e db =
     (if list_ex (\<lambda>r. tr_name r = fst e) db
      then map (\<lambda>r. if tr_name r = fst e then r\<lparr>tr_spec := snd e, tr_updated := now\<rparr> else r) db
      else db @ [\<lparr>tr_name = fst e, tr_spec = snd e, tr_enabled = True, tr_updated = now\<rparr>])"

fun upsert_tasks :: "db_faults \<Rightarrow> gotime \<Rightarrow> (string \<times> string) list \<Rightarrow> task_db \<Rightarrow> task_db outcome" where
  "upsert_tasks flt now [] db = Ok db"
| "upsert_tasks flt now (e # es) db =
     bindO (stmt flt (''postgres: scheduler store: upsert registrations'')) (\<lambda>_.
     upsert_tasks flt now es (upsert_task now e db))"

definition UpsertRegistrations :: "db_faults \<Rightarrow> gotime \<Rightarrow> task_db \<Rightarrow> (string \<times> string) list \<Rightarrow> unit outcome \<times> task_db" where
  "UpsertRegistrations flt now db entries =
     (if entries = [] then (Ok (), db)
      else txn db
        (bindO (stmt flt ''postgres: scheduler store: upsert registrations: begin'') (\<lambda>_.
         bindO (upsert_tasks flt now entries db) (\<lambda>db'.
         case flt ''commit'' of Some e \<Rightarrow> Fail e | None \<Rightarrow> Ok ((), db')))))"

definition task_enabled :: "task_db \<Rightarrow> string \<Rightarrow> bool option" where
  "task_enabled db name = map_option tr_enabled (List.find (\<lambda>r. tr_name r = name) db)"

definition IsEnabledBatch :: "db_faults \<Rightarrow> task_db \<Rightarrow> string list \<Rightarrow> (string \<Rightarrow> bool option) outcome" where
  "IsEnabledBatch flt db names =
     (if names = [] then Ok (\<lambda>_. None)
      else bindO (stmt flt ''postgres: scheduler store: is enabled batch'') (\<lambda>_.
        Ok (\<lambda>name. if name \<in> set names then task_enabled db name else None)))"

definition SetEnabled :: "db_faults \<Rightarrow> gotime \<Rightarrow> task_db \<Rightarrow> string \<Rightarrow> bool \<Rightarrow> unit outcome \<times> task_db" where
  "SetEnabled flt now db name enabled = txn db
     (bindO (stmt flt ''postgres: scheduler store: set enabled'') (\<lambda>_.
      if \<not> list_ex (\<lambda>r. tr_name r = name) db then Fail (AppErr NotFound (''no scheduled task named '' @ go_quote name))
      else Ok ((), map (\<lambda>r. if tr_name r = name then r\<lparr>tr_enabled := enabled, tr_updated := now\<rparr> else r) db)))"

record catalog_entry =
  ct_Name :: string
  ct_Spec :: string
  ct_NextRun :: gotime
  ct_Enabled :: bool

definition catalog_entry_of :: "(gotime \<Rightarrow> int) \<Rightarrow> gotime \<Rightarrow> task_row \<Rightarrow> catalog_entry option" where
  "catalog_entry_of zone now r =
     map_option (\<lambda>n. \<lparr>ct_Name = tr_name r, ct_Spec = tr_spec r,
         ct_NextRun = (case n of Ok t \<Rightarrow> t | _ \<Rightarrow> 0), ct_Enabled = tr_enabled r\<rparr>)
       (NextRun zone (tr_spec r) now)"

text \<open>\<open>le\<close> is the order of names in the database's collation.\<close>

fun insert_task :: "(string \<Rightarrow> string \<Rightarrow> bool) \<Rightarrow> task_row \<Rightarrow> task_row list \<Rightarrow> task_row list" where
  "insert_task le r [] = [r]"
| "insert_task le r (q # qs) = (if le (tr_name r) (tr_name q) then r # q # qs else q # insert_task le r qs)"

definition Catalog_List ::
    "db_faults \<Rightarrow> (string \<Rightarrow> string \<Rightarrow> bool) \<Rightarrow> (gotime \<Rightarrow> int) \<Rightarrow> gotime \<Rightarrow> task_db \<Rightarrow> catalog_entry list outcome option" where
  "Catalog_List flt le zone now db =
     (case stmt flt ''postgres: scheduler store: list'' of
        Ok _ \<Rightarrow> map_option Ok (those (map (catalog_entry_of zone now) (foldr (insert_task le) db [])))
      | Fail e \<Rightarrow> Some (Fail e)
      | Panics p \<Rightarrow> Some (Panics p))"

text \<open>\<open>local\<close> is the scheduler of the process, when it embeds one.\<close>

definition Catalog_Trigger ::
    "db_faults \<Rightarrow> task_db \<Rightarrow> 'w scheduler option \<Rightarrow> string \<Rightarrow> 'w \<Rightarrow> unit outcome \<times> 'w" where
  "Catalog_Trigger flt db local_sched name w =
     (case stmt flt ''postgres: scheduler store: trigger lookup'' of
        Fail e \<Rightarrow> (Fail e, w)
      | Panics p \<Rightarrow> (Panics p, w)
      | Ok _ \<Rightarrow>
          if \<not> list_ex (\<lambda>r. tr_name r = name) db then (Fail (AppErr NotFound (''no scheduled task named '' @ go_quote name)), w)
          else case local_sched of
            None \<Rightarrow> (Fail (AppErr Conflict (''this server process has no embedded scheduler to trigger from '' @ em_dash @
              '' run with the scheduler embedded (dev mode) or use the standalone scheduler process'')), w)
          | Some s \<Rightarrow>
              (case TriggerLocal s name w of
                 (Fail (AppErr NotFound m), w') \<Rightarrow>
                   (Fail (AppErr Conflict (''task '' @ go_quote name @ '' is registered but not part of this process's local scheduler '' @
                     em_dash @ '' its embedded task set differs from whichever process registered it (running more than one '' @
                     ''embedded scheduler with different task sets is unsupported)'')), w')
               | r \<Rightarrow> r))"

definition Service_Trigger ::
    "db_faults \<Rightarrow> task_db \<Rightarrow> 'w scheduler option \<Rightarrow> string \<Rightarrow> 'w \<Rightarrow> unit outcome \<times> 'w" where
  "Service_Trigger flt db local_sched name w =
     (if name = [] then (Fail (Err ''scheduler: trigger: empty name''), w) else Catalog_Trigger flt db local_sched name w)"

definition Service_SetEnabled :: "db_faults \<Rightarrow> gotime \<Rightarrow> task_db \<Rightarrow> string \<Rightarrow> bool \<Rightarrow> unit outcome \<times> task_db" where
  "Service_SetEnabled flt now db name enabled =
     (if name = [] then (Fail (Err ''scheduler: set enabled: empty name''), db) else SetEnabled flt now db name enabled)"

section \<open>The loop over a range returns\<close>

lemma range_loop_stop: "sint hi < sint v \<Longrightarrow> range_loop v hi step acc = Some acc"
  by (subst range_loop.simps) (simp add: i64)

lemma range_loop_next: "sint v \<le> sint hi \<Longrightarrow> range_loop v hi step acc = range_loop (v + step) hi step (acc @ [v])"
  by (subst range_loop.simps) (simp add: i64)

lemma multiples_from:
  assumes "0 < (s::int)" "v \<le> h"
  shows "{x. v \<le> x \<and> x \<le> h \<and> s dvd x - v} = insert v {x. v + s \<le> x \<and> x \<le> h \<and> s dvd x - (v + s)}"
proof -
  have "s dvd x - v \<longleftrightarrow> s dvd x - (v + s)" for x
  proof -
    have "x - v = (x - (v + s)) + s" by simp
    then show ?thesis by (metis dvd_add_left_iff dvd_refl)
  qed
  moreover have "v + s \<le> x" if "s dvd x - v" "v \<le> x" "x \<noteq> v" for x
    using that assms(1) zdvd_imp_le [of s "x - v"] by simp
  ultimately show ?thesis using assms by auto
qed

lemma range_loop_exact:
  assumes "0 < sint step" "sint hi + sint step < 2 ^ 63"
  shows "\<exists>vals. range_loop v hi step acc = Some (acc @ vals) \<and>
    sint ` set vals = {x. sint v \<le> x \<and> x \<le> sint hi \<and> sint step dvd x - sint v}"
proof (induction "nat (sint hi + sint step - sint v)" arbitrary: v acc rule: less_induct)
  case less
  show ?case
  proof (cases "sint v \<le> sint hi")
    case False
    then have none: "{x. sint v \<le> x \<and> x \<le> sint hi \<and> sint step dvd x - sint v} = {}" by auto
    show ?thesis unfolding none using False range_loop_stop [of hi v step acc] by (intro exI [of _ "[]"]) simp
  next
    case True
    have "sint (v + step) = sint v + sint step"
      by (rule sint_plus_exact) (use True assms sint_lower [of v] in \<open>simp add: in_int64_def\<close>)
    note nx = this
    have "nat (sint hi + sint step - sint (v + step)) < nat (sint hi + sint step - sint v)"
      using True assms nx by simp
    from less.hyps [OF this, of "acc @ [v]"] obtain vals where
      "range_loop (v + step) hi step (acc @ [v]) = Some ((acc @ [v]) @ vals)"
      "sint ` set vals = {x. sint v + sint step \<le> x \<and> x \<le> sint hi \<and> sint step dvd x - (sint v + sint step)}"
      by (auto simp: nx)
    then show ?thesis
      using range_loop_next [OF True] multiples_from [OF assms(1) True] by (intro exI [of _ "v # vals"]) simp
  qed
qed

text \<open>A step that wraps around: every second value is negative, and the others go down.\<close>

lemma range_loop_huge:
  assumes hi: "0 \<le> sint hi" "sint hi \<le> 59" and step: "2 ^ 63 - 59 \<le> sint step" and v: "0 \<le> sint v"
  shows "\<exists>r. range_loop v hi step acc = Some r"
  using v
proof (induction "nat (sint v)" arbitrary: v acc rule: less_induct)
  case less
  let ?s = "sint step"
  have s: "?s < 2 ^ 63" using sint_lt [of step] by simp
  show ?case
  proof (cases "sint v \<le> sint hi")
    case False
    then show ?thesis using range_loop_stop by simp
  next
    case True
    note one = range_loop_next [OF True, of step acc]
    show ?thesis
    proof (cases "sint v + ?s < 2 ^ 63")
      case True
      have "sint (v + step) = sint v + ?s"
        by (rule sint_plus_exact) (use True less.prems step in \<open>simp add: in_int64_def\<close>)
      then have "sint hi < sint (v + step)" using hi step less.prems by simp
      then show ?thesis using one range_loop_stop by simp
    next
      case False
      have v1: "sint (v + step) = sint v + ?s - 2 ^ 64"
        using sint_plus_cases [of v step] False step sint_upper [of "v + step"] by simp
      have neg: "sint (v + step) < 0" using v1 True hi s by simp
      then have two: "range_loop (v + step) hi step (acc @ [v]) = range_loop (v + step + step) hi step ((acc @ [v]) @ [v + step])"
        using hi by (intro range_loop_next) simp
      have v2: "sint (v + step + step) = sint v + 2 * ?s - 2 ^ 64"
        using sint_plus_exact [of "v + step" step] v1 neg less.prems step s True hi by (simp add: in_int64_def)
      show ?thesis
      proof (cases "0 \<le> sint (v + step + step)")
        case True
        have "nat (sint (v + step + step)) < nat (sint v)" using True v2 s by simp
        from less.hyps [OF this True] show ?thesis using one two by simp
      next
        case False
        then have three: "range_loop (v + step + step) hi step ((acc @ [v]) @ [v + step]) =
            range_loop (v + step + step + step) hi step (((acc @ [v]) @ [v + step]) @ [v + step + step])"
          using hi by (intro range_loop_next) simp
        have "sint (v + step + step + step) = sint v + 3 * ?s - 2 ^ 64"
          using sint_plus_exact [of "v + step + step" step] v2 False less.prems step s by (simp add: in_int64_def)
        then have "sint hi < sint (v + step + step + step)" using less.prems step hi by simp
        then show ?thesis using one two three range_loop_stop by simp
      qed
    qed
  qed
qed

lemma range_loop_returns:
  assumes "0 \<le> sint v" "0 \<le> sint hi" "sint hi \<le> 59" "0 < sint step"
  shows "range_loop v hi step acc \<noteq> None"
proof (cases "sint hi + sint step < 2 ^ 63")
  case True
  then show ?thesis using range_loop_exact [OF assms(4) True, of v acc] by auto
next
  case False
  then show ?thesis using range_loop_huge [OF assms(2,3) _ assms(1), of step acc] assms(3) by auto
qed

text \<open>A call that returns, and does not panic.\<close>

definition settles :: "'a outcome option \<Rightarrow> bool" where
  "settles r \<longleftrightarrow> (\<exists>x. r = Some (Ok x)) \<or> (\<exists>e. r = Some (Fail e))"

lemma settles_simps [simp]: "settles (Some (Ok x))" "settles (Some (Fail e))" "settles (map_option Ok r) \<longleftrightarrow> r \<noteq> None"
  by (auto simp: settles_def)

lemma settles_bind: "settles r \<Longrightarrow> (\<And>x. r = Some (Ok x) \<Longrightarrow> settles (f x)) \<Longrightarrow> settles (bindR r f)"
  by (auto simp: settles_def)

lemma bindR_Ok: "bindR r f = Some (Ok y) \<longleftrightarrow> (\<exists>x. r = Some (Ok x) \<and> f x = Some (Ok y))"
proof (cases r)
  case (Some m)
  then show ?thesis by (cases m) auto
qed simp

lemma settles_wrap [simp]: "settles r \<Longrightarrow> settles (wrapR l r)"
  by (auto simp: settles_def wrapR_def)

lemma parse_range_settles:
  assumes "0 \<le> sint mn" "sint mx \<le> 59" "0 \<le> sint step"
  shows "settles (parse_range mn mx step lo hi)"
proof -
  have "range_loop lo hi (if step = 0 then 1 else step) [] \<noteq> None" if "sint mn \<le> sint lo" "sint hi \<le> sint mx" "sint lo \<le> sint hi"
  proof (rule range_loop_returns)
    show "0 < sint (if step = 0 then 1 else step)"
      using assms(3) by (auto simp: order.strict_iff_order signed_eq_0_iff)
  qed (use that assms in auto)
  then show ?thesis by (simp add: parse_range_def i64 not_less del: not_None_eq)
qed

lemma parsePart_settles:
  assumes "0 \<le> sint mn" "sint mx \<le> 59"
  shows "settles (parsePart part mn mx)"
proof -
  have "settles (parse_unstepped p mn mx step)" if "0 \<le> sint step" for p step
    using parse_range_settles [OF assms that] by (auto simp: parse_unstepped_def split: option.splits)
  then show ?thesis by (auto simp: parsePart_def i64 not_le split: option.splits)
qed

lemma parse_parts_settles: "0 \<le> sint mn \<Longrightarrow> sint mx \<le> 59 \<Longrightarrow> settles (parse_parts ps mn mx acc)"
proof (induction ps arbitrary: acc)
  case (Cons p ps)
  show ?case unfolding parse_parts.simps
    by (rule settles_bind) (use Cons parsePart_settles in auto)
qed simp

lemma parseField_settles: "0 \<le> sint mn \<Longrightarrow> sint mx \<le> 59 \<Longrightarrow> settles (parseField f mn mx)"
  unfolding parseField_def by (rule settles_bind) (use parse_parts_settles in auto)

section \<open>What an expression means\<close>

text \<open>
  The abstract syntax of a field: a list of values, ranges and stars, each with an optional step;
  how it is written, and the set of numbers it stands for.
\<close>

datatype part_syntax = Star | Single nat | Range nat nat

type_synonym field_syntax = "(part_syntax \<times> nat option) list"

fun render_base :: "part_syntax \<Rightarrow> string" where
  "render_base Star = ''*''"
| "render_base (Single n) = nat_decimal n"
| "render_base (Range a b) = nat_decimal a @ ''-'' @ nat_decimal b"

definition render_part :: "part_syntax \<times> nat option \<Rightarrow> string" where
  "render_part p = render_base (fst p) @ (case snd p of None \<Rightarrow> [] | Some k \<Rightarrow> ''/'' @ nat_decimal k)"

fun render_field :: "field_syntax \<Rightarrow> string" where
  "render_field [] = []"
| "render_field [p] = render_part p"
| "render_field (p # ps) = render_part p @ '','' @ render_field ps"

fun base_range :: "int \<Rightarrow> int \<Rightarrow> part_syntax \<times> nat option \<Rightarrow> int \<times> int" where
  "base_range mn mx (Star, s) = (mn, mx)"
| "base_range mn mx (Single n, s) = (int n, if s = None then int n else mx)"
| "base_range mn mx (Range a b, s) = (int a, int b)"

definition step_of :: "part_syntax \<times> nat option \<Rightarrow> int" where
  "step_of p = (case snd p of None \<Rightarrow> 1 | Some k \<Rightarrow> int k)"

definition part_set :: "int \<Rightarrow> int \<Rightarrow> part_syntax \<times> nat option \<Rightarrow> int set" where
  "part_set mn mx p = {x. fst (base_range mn mx p) \<le> x \<and> x \<le> snd (base_range mn mx p) \<and>
     step_of p dvd x - fst (base_range mn mx p)}"

definition field_set :: "int \<Rightarrow> int \<Rightarrow> field_syntax \<Rightarrow> int set" where
  "field_set mn mx ps = (\<Union>p \<in> set ps. part_set mn mx p)"

text \<open>In bounds, with a positive step that a range cannot wrap around.\<close>

definition part_ok :: "int \<Rightarrow> int \<Rightarrow> part_syntax \<times> nat option \<Rightarrow> bool" where
  "part_ok mn mx p \<longleftrightarrow> mn \<le> fst (base_range mn mx p) \<and> fst (base_range mn mx p) \<le> snd (base_range mn mx p) \<and>
     snd (base_range mn mx p) \<le> mx \<and> 0 < step_of p \<and> step_of p < 2 ^ 62"

definition field_ok :: "int \<Rightarrow> int \<Rightarrow> field_syntax \<Rightarrow> bool" where
  "field_ok mn mx ps \<longleftrightarrow> ps \<noteq> [] \<and> (\<forall>p \<in> set ps. part_ok mn mx p)"

subsection \<open>Digits\<close>

lemma digit_code: "d < 10 \<Longrightarrow> byte_val (char_of (48 + d) :: char) = 48 + d"
  by (simp add: byte_val_def)

lemma nat_decimal_digits: "\<forall>c \<in> set (nat_decimal n). is_digit_char c" "nat_decimal n \<noteq> []"
proof (induction n rule: nat_decimal.induct)
  case (1 n)
  { case 1
    show ?case using "1.IH"(1) by (subst nat_decimal.simps) (auto simp: is_digit_char_def digit_code)
  next
    case 2
    show ?case by (subst nat_decimal.simps) simp
  }
qed

lemma digits_value_snoc: "digits_value (s @ [c]) = 10 * digits_value s + (int (byte_val c) - 48)"
  by (simp add: digits_value_def)

lemma digits_value_decimal: "digits_value (nat_decimal n) = int n"
proof (induction n rule: nat_decimal.induct)
  case (1 n)
  show ?case
  proof (cases "n < 10")
    case True
    then show ?thesis by (subst nat_decimal.simps) (simp add: digits_value_def digit_code)
  next
    case False
    have "digits_value (nat_decimal n) = 10 * digits_value (nat_decimal (n div 10)) + int (n mod 10)"
      using False by (subst nat_decimal.simps) (simp add: digits_value_snoc digit_code)
    moreover have "int n = 10 * int (n div 10) + int (n mod 10)" by presburger
    ultimately show ?thesis using 1 False by simp
  qed
qed

lemma digit_chars:
  "is_digit_char c \<Longrightarrow> c \<noteq> CHR ''-'' \<and> c \<noteq> CHR ''+'' \<and> c \<noteq> CHR ''*'' \<and> c \<noteq> CHR ''/'' \<and> c \<noteq> CHR '',''"
  by (auto simp: is_digit_char_def byte_val_def)

lemma not_star: "nat_decimal n \<noteq> ''*''" "nat_decimal n @ c # cs \<noteq> ''*''"
proof -
  show "nat_decimal n \<noteq> ''*''"
  proof
    assume "nat_decimal n = ''*''"
    then have "is_digit_char (CHR ''*'')" using nat_decimal_digits(1) [of n] by (simp only:) simp
    then show False using digit_chars by blast
  qed
  show "nat_decimal n @ c # cs \<noteq> ''*''" using nat_decimal_digits(2) [of n] by (cases "nat_decimal n") auto
qed

lemma atoi_decimal:
  assumes "int n < 2 ^ 63"
  shows "go_atoi (nat_decimal n) = Some (word_of_int (int n))"
proof -
  obtain c cs where s: "nat_decimal n = c # cs" using nat_decimal_digits(2) by (cases "nat_decimal n") auto
  have "c \<noteq> CHR ''-''" "c \<noteq> CHR ''+''" using nat_decimal_digits(1) [of n] digit_chars s by auto
  moreover have "list_all is_digit_char (nat_decimal n)" using nat_decimal_digits(1) by (simp add: list_all_iff)
  ultimately show ?thesis
    using assms digits_value_decimal [of n] by (simp add: go_atoi_def s Let_def in_int64_def)
qed

subsection \<open>Characters of a rendered field\<close>

definition plain :: "char \<Rightarrow> bool" where
  "plain c \<longleftrightarrow> is_digit_char c \<or> c \<in> set ''*/-,''"

lemma render_base_chars: "\<forall>c \<in> set (render_base p). is_digit_char c \<or> c = CHR ''*'' \<or> c = CHR ''-''"
  using nat_decimal_digits(1) by (cases p) auto

lemma render_part_chars: "\<forall>c \<in> set (render_part p). plain c \<and> c \<noteq> CHR '',''" "render_part p \<noteq> []"
proof -
  have "\<forall>c \<in> set (render_base (fst p)). plain c \<and> c \<noteq> CHR '',''"
    using render_base_chars [of "fst p"] digit_chars by (auto simp: plain_def)
  moreover have "\<forall>c \<in> set (nat_decimal k). plain c \<and> c \<noteq> CHR '',''" for k
    using nat_decimal_digits(1) [of k] digit_chars by (auto simp: plain_def)
  ultimately show "\<forall>c \<in> set (render_part p). plain c \<and> c \<noteq> CHR '',''"
    by (auto simp: render_part_def plain_def split: option.splits)
  show "render_part p \<noteq> []"
    using nat_decimal_digits(2) by (cases "fst p") (auto simp: render_part_def)
qed

lemma render_field_plain: "\<forall>c \<in> set (render_field ps). plain c"
  by (induction ps rule: render_field.induct) (use render_part_chars(1) in \<open>auto simp: plain_def\<close>)

lemma render_field_Nil: "ps \<noteq> [] \<Longrightarrow> render_field ps \<noteq> []"
  by (cases ps rule: render_field.cases) (use render_part_chars(2) in auto)

lemma split_char_one: "c \<notin> set p \<Longrightarrow> split_char c p = [p]"
  by (induction p) auto

lemma split_char_first: "c \<notin> set p \<Longrightarrow> split_char c (p @ c # rest) = p # split_char c rest"
  by (induction p) auto

lemma split_render: "ps \<noteq> [] \<Longrightarrow> split_char (CHR '','') (render_field ps) = map render_part ps"
proof (induction ps rule: render_field.induct)
  case (2 p)
  then show ?case using render_part_chars(1) [of p] by (auto intro: split_char_one)
next
  case (3 p q ps)
  have "CHR '','' \<notin> set (render_part p)" using render_part_chars(1) by blast
  then show ?case using 3 split_char_first [of "CHR '',''" "render_part p"] by simp
qed simp

subsection \<open>Parsing what was rendered\<close>

lemma before_after:
  "c \<notin> set a \<Longrightarrow> before_char c (a @ c # b) = a" "c \<notin> set a \<Longrightarrow> after_char c (a @ c # b) = b"
  by (induction a) (auto simp: before_char_def after_char_def)

lemma sint_nat_small: "int n < 2 ^ 63 \<Longrightarrow> sint (word_of_int (int n) :: int64) = int n"
  by (rule sint_of_int) (simp add: in_int64_def)

lemma parse_range_exact:
  assumes "0 \<le> sint mn" "sint mx \<le> 59" "sint mn \<le> sint lo" "sint lo \<le> sint hi" "sint hi \<le> sint mx"
    "0 \<le> sint step" "sint step < 2 ^ 62"
  shows "\<exists>vals. parse_range mn mx step lo hi = Some (Ok vals) \<and>
    sint ` set vals = {x. sint lo \<le> x \<and> x \<le> sint hi \<and> (if step = 0 then 1 else sint step) dvd x - sint lo}"
proof -
  define s where "s = (if step = 0 then 1 else step)"
  have s: "0 < sint s" "sint s < 2 ^ 62" "sint s = (if step = 0 then 1 else sint step)"
    using assms(6,7) by (auto simp: s_def order.strict_iff_order signed_eq_0_iff)
  have "sint hi + sint s < 2 ^ 63" using s(2) assms(2,5) by simp
  from range_loop_exact [OF s(1) this, of lo "[]"] s(3) show ?thesis
    using assms by (auto simp: parse_range_def i64 s_def [symmetric])
qed

lemma parse_base_exact:
  fixes p :: "part_syntax \<times> nat option"
  assumes "0 \<le> sint mn" "sint mx \<le> 59" "part_ok (sint mn) (sint mx) p"
    and step: "if snd p = None then step = 0 else sint step = step_of p"
  shows "\<exists>vals. parse_unstepped (render_base (fst p)) mn mx step = Some (Ok vals) \<and> sint ` set vals = part_set (sint mn) (sint mx) p"
proof -
  obtain b s where p: "p = (b, s)" by fastforce
  have st: "0 \<le> sint step" "sint step < 2 ^ 62" "(if step = 0 then 1 else sint step) = step_of p" "step = 0 \<longleftrightarrow> s = None"
    using step assms(3) by (auto simp: part_ok_def step_of_def p split: option.splits)
  let ?lo = "fst (base_range (sint mn) (sint mx) p)" and ?hi = "snd (base_range (sint mn) (sint mx) p)"
  have range: "\<exists>vals. parse_range mn mx step lo hi = Some (Ok vals) \<and> sint ` set vals = part_set (sint mn) (sint mx) p"
    if "sint lo = ?lo" "sint hi = ?hi" for lo hi
    using parse_range_exact [OF assms(1,2), of lo hi step] that assms(3) st
    by (simp add: part_ok_def part_set_def)
  show ?thesis
  proof (cases b)
    case Star
    then show ?thesis using range [of mn mx] by (simp add: p parse_unstepped_def)
  next
    case (Single n)
    have n: "int n < 2 ^ 63" "sint mn \<le> int n" "int n \<le> sint mx"
      using assms(2,3) Single by (auto simp: part_ok_def p split: if_splits)
    have dash: "CHR ''-'' \<notin> set (nat_decimal n)" using nat_decimal_digits(1) digit_chars by blast
    note star = not_star(1) [of n]
    note v = sint_nat_small [OF n(1)]
    show ?thesis
    proof (cases s)
      case None
      then have "part_set (sint mn) (sint mx) p = {int n}" by (auto simp: part_set_def step_of_def p Single)
      then show ?thesis
        using None Single st(4) atoi_decimal [OF n(1)] dash star n v by (simp add: p parse_unstepped_def i64)
    next
      case (Some k)
      then have "0 <s step" using st(1,4) by (auto simp: i64 order.strict_iff_order signed_eq_0_iff)
      then show ?thesis
        using Some Single atoi_decimal [OF n(1)] dash star n v range [of "word_of_int (int n)" mx]
        by (simp add: p parse_unstepped_def i64)
    qed
  next
    case (Range a c)
    have ac: "int a < 2 ^ 63" "int c < 2 ^ 63" using assms(2,3) Range by (auto simp: part_ok_def p)
    have "CHR ''-'' \<notin> set (nat_decimal a)" using nat_decimal_digits(1) digit_chars by blast
    note ba = before_after [OF this, of "nat_decimal c"]
    show ?thesis
      using range [of "word_of_int (int a)" "word_of_int (int c)"] ba not_star(2) [of a] atoi_decimal [OF ac(1)] atoi_decimal [OF ac(2)]
        sint_nat_small [OF ac(1)] sint_nat_small [OF ac(2)]
      by (simp add: p Range parse_unstepped_def)
  qed
qed

lemma parsePart_exact:
  assumes "0 \<le> sint mn" "sint mx \<le> 59" "part_ok (sint mn) (sint mx) p"
  shows "\<exists>vals. parsePart (render_part p) mn mx = Some (Ok vals) \<and> sint ` set vals = part_set (sint mn) (sint mx) p"
proof -
  have slash: "CHR ''/'' \<notin> set (render_base (fst p))" using render_base_chars digit_chars by fastforce
  show ?thesis
  proof (cases "snd p")
    case None
    then show ?thesis using parse_base_exact [OF assms, of 0] slash by (simp add: parsePart_def render_part_def)
  next
    case (Some k)
    have k: "0 < int k" "int k < 2 ^ 62" using assms(3) Some by (simp_all add: part_ok_def step_of_def)
    then have a: "go_atoi (nat_decimal k) = Some (word_of_int (int k))" "sint (word_of_int (int k) :: int64) = int k"
      using atoi_decimal [of k] sint_nat_small [of k] by simp_all
    have "\<not> word_of_int (int k) \<le>s (0 :: int64)" using a(2) k(1) by (simp add: i64)
    then show ?thesis
      using parse_base_exact [OF assms, of "word_of_int (int k)"] Some a before_after [OF slash, of "nat_decimal k"]
      by (simp add: parsePart_def render_part_def step_of_def)
  qed
qed

lemma parse_parts_exact:
  assumes "0 \<le> sint mn" "sint mx \<le> 59"
  shows "\<forall>p \<in> set ps. part_ok (sint mn) (sint mx) p \<Longrightarrow>
    \<exists>vals. parse_parts (map render_part ps) mn mx acc = Some (Ok (acc @ vals)) \<and>
      sint ` set vals = field_set (sint mn) (sint mx) ps"
proof (induction ps arbitrary: acc)
  case Nil
  show ?case by (intro exI [of _ "[]"]) (simp add: field_set_def)
next
  case (Cons p ps)
  obtain v where v: "parsePart (render_part p) mn mx = Some (Ok v)" "sint ` set v = part_set (sint mn) (sint mx) p"
    using parsePart_exact [OF assms, of p] Cons.prems by auto
  obtain vs where vs: "parse_parts (map render_part ps) mn mx (acc @ v) = Some (Ok ((acc @ v) @ vs))"
      "sint ` set vs = field_set (sint mn) (sint mx) ps"
    using Cons.IH [of "acc @ v"] Cons.prems by auto
  show ?case using v vs by (intro exI [of _ "v @ vs"]) (simp add: field_set_def image_Un)
qed

lemma field_set_nonempty:
  assumes "field_ok mn mx ps"
  shows "field_set mn mx ps \<noteq> {}"
proof -
  obtain p where p: "p \<in> set ps" "part_ok mn mx p" using assms by (cases ps) (auto simp: field_ok_def)
  then have "fst (base_range mn mx p) \<in> part_set mn mx p" by (simp add: part_ok_def part_set_def)
  then show ?thesis using p(1) by (auto simp: field_set_def)
qed

lemma parseField_exact:
  assumes "0 \<le> sint mn" "sint mx \<le> 59" "field_ok (sint mn) (sint mx) ps"
  shows "\<exists>vals. parseField (render_field ps) mn mx = Some (Ok vals) \<and> sint ` set vals = field_set (sint mn) (sint mx) ps"
proof -
  obtain vals where v: "parse_parts (map render_part ps) mn mx [] = Some (Ok vals)"
      "sint ` set vals = field_set (sint mn) (sint mx) ps"
    using parse_parts_exact [OF assms(1,2), of ps "[]"] assms(3) by (auto simp: field_ok_def)
  have "vals \<noteq> []" using v(2) field_set_nonempty [OF assms(3)] by auto
  moreover have "split_char (CHR '','') (render_field ps) = map render_part ps"
    using assms(3) by (intro split_render) (simp add: field_ok_def)
  ultimately show ?thesis using v by (simp add: parseField_def)
qed

text \<open>An expression is five fields separated by spaces.\<close>

lemma plain_no_space: "plain c \<Longrightarrow> strip_code space_codes (c # cs) = None"
proof -
  assume c: "plain c"
  have "\<forall>p \<in> set space_codes. p \<noteq> [] \<and> \<not> plain (hd p)"
    by (simp add: space_codes_def plain_def is_digit_char_def byte_val_def)
  then show ?thesis using c by (auto simp: strip_code_None_iff prefix_Cons)
qed

lemma fields_from_plain:
  "\<forall>c \<in> set f. plain c \<Longrightarrow> fields_from cur (f @ rest) = fields_from (cur @ f) rest"
proof (induction f arbitrary: cur)
  case (Cons c f)
  have "fields_from cur (c # (f @ rest)) = fields_from (cur @ [c]) (f @ rest)"
    using plain_no_space [of c] Cons.prems by (subst fields_from.simps) simp
  then show ?case using Cons by simp
qed simp

lemma space_stripped: "strip_code space_codes (CHR 0x20 # s) = Some s"
  by (simp add: space_codes_def)

lemma fields_from_space: "f \<noteq> [] \<Longrightarrow> fields_from f (CHR 0x20 # rest) = f # fields_from [] rest"
  by (subst fields_from.simps) (simp add: space_stripped)

lemma fields_from_end: "f \<noteq> [] \<Longrightarrow> fields_from f [] = [f]"
  by (subst fields_from.simps) simp

lemma go_fields_five:
  assumes "\<forall>f \<in> {f0, f1, f2, f3, f4}. f \<noteq> [] \<and> (\<forall>c \<in> set f. plain c)"
  shows "go_fields (f0 @ '' '' @ f1 @ '' '' @ f2 @ '' '' @ f3 @ '' '' @ f4) = [f0, f1, f2, f3, f4]"
  using assms fields_from_plain [of f4 "[]" "[]"]
  by (simp add: go_fields_def fields_from_plain fields_from_space fields_from_end)

definition render_spec :: "field_syntax \<Rightarrow> field_syntax \<Rightarrow> field_syntax \<Rightarrow> field_syntax \<Rightarrow> field_syntax \<Rightarrow> string" where
  "render_spec m h dm mon dow = render_field m @ '' '' @ render_field h @ '' '' @ render_field dm @ '' '' @
     render_field mon @ '' '' @ render_field dow"

lemma render_star: "render_field ps = ''*'' \<longleftrightarrow> ps = [(Star, None)]"
proof
  assume star: "render_field ps = ''*''"
  show "ps = [(Star, None)]"
  proof (cases ps rule: render_field.cases)
    case (2 p)
    obtain b s where p: "p = (b, s)" by fastforce
    show ?thesis using star 2 p not_star by (cases b; cases s) (auto simp: render_part_def)
  next
    case (3 p q ps)
    then show ?thesis using star render_part_chars(2) [of p] by (auto simp: append_eq_Cons_conv)
  qed (use star in simp)
qed (simp add: render_part_def)

lemma set_contains_iff: "set_contains vals v \<longleftrightarrow> v \<in> sint ` set vals"
  by (auto simp: set_contains_def list_ex_iff)

text \<open>The fields that an instant must lie in; day of month and day of week are alternatives when both are given.\<close>

definition spec_matches ::
    "field_syntax \<Rightarrow> field_syntax \<Rightarrow> field_syntax \<Rightarrow> field_syntax \<Rightarrow> field_syntax \<Rightarrow> civil \<Rightarrow> bool" where
  "spec_matches m h dm mon dow t \<longleftrightarrow>
     cv_Minute t \<in> field_set 0 59 m \<and> cv_Hour t \<in> field_set 0 23 h \<and> cv_Month t \<in> field_set 1 12 mon \<and>
     (let d = cv_Day t \<in> field_set 1 31 dm; w = cv_Weekday t \<in> field_set 0 6 dow in
      if dm \<noteq> [(Star, None)] \<and> dow \<noteq> [(Star, None)] then d \<or> w else d \<and> w)"

lemma parse_spec:
  assumes "field_ok 0 59 m" "field_ok 0 23 h" "field_ok 1 31 dm" "field_ok 1 12 mon" "field_ok 0 6 dow"
  shows "\<exists>e. cron_parse (render_spec m h dm mon dow) = Some (Ok e) \<and>
    (\<forall>t. cron_matches e t \<longleftrightarrow> spec_matches m h dm mon dow t)"
proof -
  obtain vm where m: "parseField (render_field m) 0 59 = Some (Ok vm)" "sint ` set vm = field_set 0 59 m"
    using parseField_exact [of 0 59 m] assms(1) by auto
  obtain vh where h: "parseField (render_field h) 0 23 = Some (Ok vh)" "sint ` set vh = field_set 0 23 h"
    using parseField_exact [of 0 23 h] assms(2) by auto
  obtain vd where d: "parseField (render_field dm) 1 31 = Some (Ok vd)" "sint ` set vd = field_set 1 31 dm"
    using parseField_exact [of 1 31 dm] assms(3) by auto
  obtain vo where o: "parseField (render_field mon) 1 12 = Some (Ok vo)" "sint ` set vo = field_set 1 12 mon"
    using parseField_exact [of 1 12 mon] assms(4) by auto
  obtain vw where w: "parseField (render_field dow) 0 6 = Some (Ok vw)" "sint ` set vw = field_set 0 6 dow"
    using parseField_exact [of 0 6 dow] assms(5) by auto
  have "go_fields (render_spec m h dm mon dow) =
      [render_field m, render_field h, render_field dm, render_field mon, render_field dow]"
    unfolding render_spec_def
    by (rule go_fields_five) (use assms render_field_plain render_field_Nil in \<open>auto simp: field_ok_def\<close>)
  then show ?thesis
    using m(1) h(1) d(1) o(1) w(1)
    by (simp add: cron_parse_def wrapR_def cron_matches_def spec_matches_def set_contains_iff m(2) h(2) d(2) o(2) w(2)
        render_star Let_def) blast
qed

section \<open>The next run\<close>

lemma cron_scan_exact:
  assumes "0 < t"
  shows "(cron_scan c zone n t = 0 \<and> (\<forall>k < n. \<not> cron_matches c (civil_of zone (t + int k * minute_ns)))) \<or>
    (\<exists>k < n. cron_scan c zone n t = t + int k * minute_ns \<and> cron_matches c (civil_of zone (t + int k * minute_ns)) \<and>
       (\<forall>j < k. \<not> cron_matches c (civil_of zone (t + int j * minute_ns))))"
  using assms
proof (induction n arbitrary: t)
  case (Suc n)
  show ?case
  proof (cases "cron_matches c (civil_of zone t)")
    case True
    then show ?thesis by (intro disjI2 exI [of _ 0]) simp
  next
    case False
    have later: "t + minute_ns + int k * minute_ns = t + int (Suc k) * minute_ns" for k by (simp add: algebra_simps)
    have "0 < t + minute_ns" using Suc.prems by (simp add: minute_ns_def)
    from Suc.IH [OF this] show ?thesis
    proof
      assume none: "cron_scan c zone n (t + minute_ns) = 0 \<and>
        (\<forall>k < n. \<not> cron_matches c (civil_of zone (t + minute_ns + int k * minute_ns)))"
      have "\<not> cron_matches c (civil_of zone (t + int k * minute_ns))" if "k < Suc n" for k
        using that False none by (cases k) (simp_all add: later [symmetric] del: of_nat_Suc)
      then show ?thesis using none False by (intro disjI1) simp
    next
      assume "\<exists>k < n. cron_scan c zone n (t + minute_ns) = t + minute_ns + int k * minute_ns \<and>
        cron_matches c (civil_of zone (t + minute_ns + int k * minute_ns)) \<and>
        (\<forall>j < k. \<not> cron_matches c (civil_of zone (t + minute_ns + int j * minute_ns)))"
      then obtain k where k: "k < n" "cron_scan c zone n (t + minute_ns) = t + int (Suc k) * minute_ns"
        "cron_matches c (civil_of zone (t + int (Suc k) * minute_ns))"
        "\<forall>j < k. \<not> cron_matches c (civil_of zone (t + int (Suc j) * minute_ns))" unfolding later by blast
      have "\<not> cron_matches c (civil_of zone (t + int j * minute_ns))" if "j < Suc k" for j
        using that False k(4) by (cases j) (simp_all del: of_nat_Suc)
      then show ?thesis using k(1-3) False by (intro disjI2 exI [of _ "Suc k"]) (simp del: of_nat_Suc)
    qed
  qed
qed simp

text \<open>The minute marks after an instant.\<close>

definition mark :: "gotime \<Rightarrow> nat \<Rightarrow> gotime" where
  "mark after k = after - after mod minute_ns + minute_ns + int k * minute_ns"

lemma cron_next_exact:
  assumes "0 \<le> after"
  shows "(cron_next c zone after = 0 \<and> (\<forall>k < maxLookahead. \<not> cron_matches c (civil_of zone (mark after k)))) \<or>
    (\<exists>k < maxLookahead. cron_next c zone after = mark after k \<and> cron_matches c (civil_of zone (mark after k)) \<and>
       (\<forall>j < k. \<not> cron_matches c (civil_of zone (mark after j))))"
proof -
  have "0 < after - after mod minute_ns + minute_ns"
    using assms pos_mod_bound [of minute_ns after] by (simp add: minute_ns_def)
  from cron_scan_exact [OF this] show ?thesis unfolding cron_next_def mark_def .
qed

lemma mark_props:
  shows "after < mark after k" "mark after k mod minute_ns = 0"
  and "u mod minute_ns = 0 \<Longrightarrow> after < u \<Longrightarrow> \<exists>j. u = mark after j"
proof -
  have m: "mark after k = (after div minute_ns + 1 + int k) * minute_ns" for k
    by (simp add: mark_def minus_mod_eq_div_mult algebra_simps)
  show "mark after k mod minute_ns = 0" by (simp add: m)
  have "after mod minute_ns < minute_ns" by (rule pos_mod_bound) (simp add: minute_ns_def)
  then show "after < mark after k" by (simp add: mark_def minute_ns_def)
  assume "u mod minute_ns = 0" "after < u"
  then obtain q where q: "u = q * minute_ns" by (metis mod_0_imp_dvd dvd_def mult.commute)
  have "after div minute_ns < q"
  proof (rule ccontr)
    assume "\<not> after div minute_ns < q"
    then have "q * minute_ns \<le> after div minute_ns * minute_ns" by (intro mult_right_mono) (simp_all add: minute_ns_def)
    also have "\<dots> \<le> after" by (simp add: minus_mod_eq_div_mult [symmetric] minute_ns_def)
    finally show False using \<open>after < u\<close> q by simp
  qed
  then have "u = mark after (nat (q - after div minute_ns - 1))" by (simp add: m q)
  then show "\<exists>j. u = mark after j" by blast
qed

text \<open>C18: The next run is right. For every well-formed expression (values, ranges, stars, lists and
  steps in the bounds of their fields), in any time zone, the parsed text's next run is a minute
  mark strictly after the given instant that the expression matches, and no earlier mark matches;
  the zero time is only returned when none of the next 2,108,160 marks does. When both the day of
  the month and the day of the week are restricted, either may match.\<close>

theorem NextRun_correct:
  assumes "field_ok 0 59 m" "field_ok 0 23 h" "field_ok 1 31 dm" "field_ok 1 12 mon" "field_ok 0 6 dow" "0 \<le> after"
  shows "\<exists>t. NextRun zone (render_spec m h dm mon dow) after = Some (Ok t) \<and>
    (if t = 0 then \<forall>k < maxLookahead. \<not> spec_matches m h dm mon dow (civil_of zone (mark after k))
     else after < t \<and> t mod minute_ns = 0 \<and> spec_matches m h dm mon dow (civil_of zone t) \<and>
       (\<forall>u. after < u \<and> u < t \<and> u mod minute_ns = 0 \<longrightarrow> \<not> spec_matches m h dm mon dow (civil_of zone u)))"
proof -
  obtain e where e: "cron_parse (render_spec m h dm mon dow) = Some (Ok e)"
    and eq: "\<And>t. cron_matches e t \<longleftrightarrow> spec_matches m h dm mon dow t"
    using parse_spec [OF assms(1-5)] by blast
  have run: "NextRun zone (render_spec m h dm mon dow) after = Some (Ok (cron_next e zone after))"
    by (simp add: NextRun_def e)
  from cron_next_exact [OF assms(6), of e zone] show ?thesis
  proof
    assume "cron_next e zone after = 0 \<and> (\<forall>k < maxLookahead. \<not> cron_matches e (civil_of zone (mark after k)))"
    then show ?thesis using run by (simp add: eq)
  next
    assume "\<exists>k < maxLookahead. cron_next e zone after = mark after k \<and> cron_matches e (civil_of zone (mark after k)) \<and>
       (\<forall>j < k. \<not> cron_matches e (civil_of zone (mark after j)))"
    then obtain k where k: "cron_next e zone after = mark after k" "spec_matches m h dm mon dow (civil_of zone (mark after k))"
      "\<forall>j < k. \<not> spec_matches m h dm mon dow (civil_of zone (mark after j))" unfolding eq by blast
    have "\<not> spec_matches m h dm mon dow (civil_of zone u)"
      if u: "after < u" "u < mark after k" "u mod minute_ns = 0" for u
    proof -
      obtain j where j: "u = mark after j" using mark_props(3) [OF u(3,1)] by blast
      then have "j < k" using u(2) by (simp add: mark_def minute_ns_def)
      then show ?thesis using k(3) j by simp
    qed
    moreover have "mark after k \<noteq> 0" using mark_props(1) [of after k] assms(6) by simp
    ultimately show ?thesis using run k(1,2) mark_props(1,2) by simp
  qed
qed

section \<open>Shorthands and parsing return\<close>

lemma cron_parse_settles: "settles (cron_parse spec)"
proof -
  have fields: "settles (parseField f 0 59)" "settles (parseField f 0 23)" "settles (parseField f 1 31)"
    "settles (parseField f 1 12)" "settles (parseField f 0 6)" for f
    by (rule parseField_settles; simp)+
  have five: "settles (bindR (wrapR ''minute'' (parseField f0 0 59)) (\<lambda>minute.
      bindR (wrapR ''hour'' (parseField f1 0 23)) (\<lambda>hour. bindR (wrapR ''day-of-month'' (parseField f2 1 31)) (\<lambda>dm.
      bindR (wrapR ''month'' (parseField f3 1 12)) (\<lambda>month. bindR (wrapR ''day-of-week'' (parseField f4 0 6)) (\<lambda>dow.
      Some (Ok \<lparr>ce_minute = minute, ce_hour = hour, ce_dayOfMonth = dm, ce_month = month,
        ce_dayOfWeek = dow, ce_domWild = (f2 = ''*''), ce_dowWild = (f4 = ''*'')\<rparr>)))))))" for f0 f1 f2 f3 f4
    by (intro settles_bind settles_wrap fields settles_simps)
  show ?thesis unfolding cron_parse_def by (simp add: five split: list.splits)
qed

lemma itoa_decimal: "0 < sint n \<Longrightarrow> go_itoa n = nat_decimal (nat (sint n))"
  by (simp add: go_itoa_def)

lemma every_parses:
  assumes "parseEverySpec body = Ok s"
  shows "\<exists>e. cron_parse s = Some (Ok e)"
proof -
  let ?star = "[(Star, None)] :: field_syntax"
  have star: "field_ok 0 23 ?star" "field_ok 1 31 ?star" "field_ok 1 12 ?star" "field_ok 0 6 ?star"
    by (simp_all add: field_ok_def part_ok_def step_of_def)
  obtain n where n: "0 < sint n" and s: "(s = ''*/'' @ go_itoa n @ '' * * * *'' \<and> sint n < 60) \<or>
      (s = ''0 */'' @ go_itoa n @ '' * * *'' \<and> sint n < 24)"
    using assms by (auto simp: parseEverySpec_def Let_def i64 not_le split: if_splits option.splits)
  have step: "field_ok 0 59 [(Star, Some (nat (sint n)))]" "field_ok 0 23 [(Star, Some (nat (sint n)))]"
    using n s by (auto simp: field_ok_def part_ok_def step_of_def)
  have zero: "field_ok 0 59 [(Single 0, None)]" by (simp add: field_ok_def part_ok_def step_of_def)
  have dec0: "nat_decimal 0 = ''0''" by (subst nat_decimal.simps) (simp add: char_of_def bit_Suc_0_iff)
  have "s = render_spec [(Star, Some (nat (sint n)))] ?star ?star ?star ?star \<or>
      s = render_spec [(Single 0, None)] [(Star, Some (nat (sint n)))] ?star ?star ?star"
    using s itoa_decimal [OF n] by (auto simp: render_spec_def render_part_def dec0)
  then show ?thesis
    using parse_spec [OF step(1) star] parse_spec [OF zero step(2) star(2-4)] by blast
qed

text \<open>C19: Normalising a specification always returns, whatever the text, and so does parsing; a text
  that is accepted, be it an expression or a shorthand, becomes an expression that the scheduler
  parses, so registering it does not panic.\<close>

theorem NormalizeSpec_sound:
  "\<exists>r. NormalizeSpec spec = Some r \<and> (\<forall>p. r \<noteq> Panics p) \<and> (\<forall>s. r = Ok s \<longrightarrow> (\<exists>e. cron_parse s = Some (Ok e)))"
proof -
  have norm: "settles (NormalizeSpec spec)"
  proof -
    have "settles (Some (parseEverySpec b))" for b
      by (auto simp: settles_def parseEverySpec_def Let_def split: option.splits)
    moreover have "settles (bindR (cron_parse t) (\<lambda>_. Some (Ok t)))" for t
      by (intro settles_bind cron_parse_settles settles_simps)
    ultimately show ?thesis by (simp add: NormalizeSpec_def Let_def)
  qed
  moreover have "\<exists>e. cron_parse s = Some (Ok e)" if "NormalizeSpec spec = Some (Ok s)" for s
  proof (cases "prefix ''@every '' (trim_space spec)")
    case True
    then have "parseEverySpec (trim_space (drop 7 (trim_space spec))) = Ok s"
      using that by (simp add: NormalizeSpec_def Let_def split: if_splits)
    then show ?thesis by (rule every_parses)
  next
    case False
    then show ?thesis using that by (auto simp: NormalizeSpec_def Let_def bindR_Ok split: if_splits)
  qed
  ultimately show ?thesis by (auto simp: settles_def)
qed

section \<open>Disabled tasks\<close>

datatype task_op =
    OpUpsert db_faults gotime "(string \<times> string) list"
  | OpSetEnabled db_faults gotime string bool

fun task_op_step :: "task_op \<Rightarrow> task_db \<Rightarrow> unit outcome \<times> task_db" where
  "task_op_step (OpUpsert flt now entries) db = UpsertRegistrations flt now db entries"
| "task_op_step (OpSetEnabled flt now name enabled) db = Service_SetEnabled flt now db name enabled"

fun enables :: "string \<Rightarrow> task_op \<Rightarrow> bool" where
  "enables name (OpSetEnabled _ _ n enabled) = (n = name \<and> enabled)"
| "enables name _ = False"

lemma find_map_key:
  "(\<And>r. tr_name (f r) = tr_name r) \<Longrightarrow> (\<And>r. tr_enabled (f r) = g (tr_name r) (tr_enabled r)) \<Longrightarrow>
   task_enabled (map f db) name = map_option (g name) (task_enabled db name)"
  by (induction db) (auto simp: task_enabled_def)

lemma task_enabled_append: "task_enabled db name = Some b \<Longrightarrow> task_enabled (db @ rs) name = Some b"
  by (induction db) (auto simp: task_enabled_def)

lemma upsert_task_enabled: "task_enabled db name = Some b \<Longrightarrow> task_enabled (upsert_task now e db) name = Some b"
  using find_map_key [where f = "\<lambda>r. if tr_name r = fst e then r\<lparr>tr_spec := snd e, tr_updated := now\<rparr> else r" and
      g = "\<lambda>_ b. b" and db = db and name = name]
  by (auto simp: upsert_task_def task_enabled_append)

lemma upsert_tasks_enabled:
  "upsert_tasks flt now es db = Ok db' \<Longrightarrow> task_enabled db name = Some b \<Longrightarrow> task_enabled db' name = Some b"
  by (induction es arbitrary: db) (auto simp: upsert_task_enabled)

lemma set_enabled_map:
  "task_enabled (map (\<lambda>r. if tr_name r = n then r\<lparr>tr_enabled := v, tr_updated := now\<rparr> else r) db) name =
     map_option (\<lambda>b. if name = n then v else b) (task_enabled db name)"
  by (rule find_map_key) auto

lemma disabled_step:
  assumes "\<not> enables name x" "task_enabled db name = Some False"
  shows "task_enabled (snd (task_op_step x db)) name = Some False"
proof (cases x)
  case (OpUpsert flt now entries)
  have "task_enabled (snd (txn db
        (bindO (stmt flt ''postgres: scheduler store: upsert registrations: begin'') (\<lambda>_.
         bindO (upsert_tasks flt now entries db) (\<lambda>db'.
         case flt ''commit'' of Some e \<Rightarrow> Fail e | None \<Rightarrow> Ok ((), db')))))) name = Some False"
    by (rule txn_keeps) (use assms(2) upsert_tasks_enabled in \<open>auto split: option.splits\<close>)
  then show ?thesis using OpUpsert assms(2) by (simp add: UpsertRegistrations_def)
next
  case (OpSetEnabled flt now n enabled)
  have "task_enabled (snd (SetEnabled flt now db n enabled)) name = Some False"
    unfolding SetEnabled_def
    by (rule txn_keeps) (use assms OpSetEnabled in \<open>auto simp: set_enabled_map split: if_splits\<close>)
  then show ?thesis using OpSetEnabled assms(2) by (simp add: Service_SetEnabled_def)
qed

text \<open>The store of a tick is the table.\<close>

definition store_of :: "db_faults \<Rightarrow> task_db \<Rightarrow> string list \<Rightarrow> gerror + (string \<Rightarrow> bool option)" where
  "store_of flt db names = (case IsEnabledBatch flt db names of Ok m \<Rightarrow> Inr m | Fail e \<Rightarrow> Inl e | Panics p \<Rightarrow> Inl (Err p))"

text \<open>C20: A disabled task stays disabled. Once disabling a task has succeeded, and whatever processes
  register their tasks again and whatever other tasks are switched on or off, a tick that can
  read the registry never fires the task, until someone enables it; it is reported as skipped
  whenever it is due.\<close>

theorem disabled_never_fires:
  assumes "Service_SetEnabled flt now db name False = (Ok (), db1)" "\<forall>x \<in> set xs. \<not> enables name x"
    "flt' ''postgres: scheduler store: is enabled batch'' = None"
  shows "Fire name \<notin> set (tick s zone (Some (store_of flt' (run_db task_op_step xs db1))) t) \<and>
    ((\<exists>e \<in> set (sc_entries s). en_name e = name \<and> cron_matches (en_expr e) (civil_of zone t)) \<longrightarrow>
      SkippedDisabled name \<in> set (tick s zone (Some (store_of flt' (run_db task_op_step xs db1))) t))"
proof -
  have "task_enabled db1 name = Some False"
  proof -
    have run: "txn db (bindO (stmt flt ''postgres: scheduler store: set enabled'') (\<lambda>_.
      if \<not> list_ex (\<lambda>r. tr_name r = name) db then Fail (AppErr NotFound (''no scheduled task named '' @ go_quote name))
      else Ok ((), map (\<lambda>r. if tr_name r = name then r\<lparr>tr_enabled := False, tr_updated := now\<rparr> else r) db))) = (Ok (), db1)"
      using assms(1) by (auto simp: Service_SetEnabled_def SetEnabled_def split: if_splits)
    then have "list_ex (\<lambda>r. tr_name r = name) db"
      and db1: "db1 = map (\<lambda>r. if tr_name r = name then r\<lparr>tr_enabled := False, tr_updated := now\<rparr> else r) db"
      by (auto simp: txn_Ok split: if_splits)
    then have "task_enabled db name \<noteq> None" by (auto simp: task_enabled_def find_None_iff list_ex_iff)
    then show ?thesis by (auto simp: db1 set_enabled_map)
  qed
  then have off: "task_enabled (run_db task_op_step xs db1) name = Some False"
    using assms(2)
  proof (induction xs arbitrary: db1)
    case (Cons x xs)
    then show ?case using disabled_step [of name x db1] by simp
  qed simp
  have store: "store_of flt' d names = Inr (\<lambda>n. if n \<in> set names then task_enabled d n else None)" for d names
    using assms(3) by (auto simp: store_of_def IsEnabledBatch_def stmt_def fun_eq_iff)
  show ?thesis using off by (auto simp: tick_def Let_def store tick_entry_def filter_empty_conv split: if_splits)
qed

section \<open>Witnesses\<close>

abbreviation every_star :: field_syntax where "every_star \<equiv> [(Star, None)]"

lemma star_ok: "field_ok 0 59 every_star" "field_ok 0 23 every_star" "field_ok 1 31 every_star" "field_ok 1 12 every_star"
    "field_ok 0 6 every_star"
  by (simp_all add: field_ok_def part_ok_def step_of_def)

theorem NextRun_correct_witness:
  "\<exists>t. NextRun (\<lambda>_. 0) (render_spec [(Range 0 30, Some 15), (Single 40, None)] every_star every_star every_star every_star) 0 =
     Some (Ok t) \<and> (t = 0 \<or> t mod minute_ns = 0)"
proof -
  have "field_ok 0 59 [(Range 0 30, Some 15), (Single 40, None)]" by (simp add: field_ok_def part_ok_def step_of_def)
  from NextRun_correct [OF this star_ok(2-5), of 0 "\<lambda>_. 0"] show ?thesis by (metis order_refl)
qed

theorem NormalizeSpec_sound_witness:
  "NormalizeSpec ''@every 5m'' = Some (Ok ''*/5 * * * *'') \<and> (\<exists>e. cron_parse ''*/5 * * * *'' = Some (Ok e))"
proof -
  have "trim_space ''@every 5m'' = ''@every 5m''" "trim_space ''5m'' = ''5m''" "trim_space ''5'' = ''5''"
    by (simp_all add: trim_space_def trim_left_def trim_right_def trim_codes_id space_codes_def)
  moreover have "go_atoi ''5'' = Some 5"
    by (simp add: go_atoi_def digits_value_def byte_val_def is_digit_char_def in_int64_def)
  moreover have "go_itoa 5 = ''5''"
    by (simp add: go_itoa_def, subst nat_decimal.simps) (simp add: char_of_def bit_simps)
  ultimately have "NormalizeSpec ''@every 5m'' = Some (Ok ''*/5 * * * *'')"
    by (simp add: NormalizeSpec_def parseEverySpec_def Let_def i64)
  then show ?thesis using NormalizeSpec_sound [of "''@every 5m''"] by simp
qed
theorem disabled_never_fires_witness:
  "Fire ''sweep'' \<notin> set (tick \<lparr>sc_entries = [\<lparr>en_name = ''sweep'', en_spec = ''* * * * *'', en_expr = \<lparr>ce_minute = [0],
       ce_hour = [0], ce_dayOfMonth = [1], ce_month = [1], ce_dayOfWeek = [1], ce_domWild = True, ce_dowWild = True\<rparr>,
       en_fn = (\<lambda>w::unit. (None, w))\<rparr>], sc_stopped = False\<rparr> (\<lambda>_. 0)
     (Some (store_of (\<lambda>_. None) (run_db task_op_step [OpUpsert (\<lambda>_. None) 2 [(''sweep'', ''0 * * * *'')]]
       [\<lparr>tr_name = ''sweep'', tr_spec = ''* * * * *'', tr_enabled = False, tr_updated = 1\<rparr>]))) 0)"
proof -
  let ?db = "[\<lparr>tr_name = ''sweep'', tr_spec = ''* * * * *'', tr_enabled = True, tr_updated = 0\<rparr>]"
  have "Service_SetEnabled (\<lambda>_. None) 1 ?db ''sweep'' False =
      (Ok (), [\<lparr>tr_name = ''sweep'', tr_spec = ''* * * * *'', tr_enabled = False, tr_updated = 1\<rparr>])"
    by (simp add: Service_SetEnabled_def SetEnabled_def stmt_def)
  then show ?thesis
    by (rule disabled_never_fires [THEN conjunct1]) simp_all
qed

section \<open>Surprises\<close>

text \<open>A step near the largest integer wraps around and lands below the start of its range: this field,
  which starts at minute 2, also matches minute 0.\<close>

lemma step_wraps: "parsePart ''2/9223372036854775807'' 0 59 = Some (Ok [2, - 9223372036854775807, 0])"
proof -
  have atoi: "go_atoi ''2'' = Some 2" "go_atoi ''9223372036854775807'' = Some 9223372036854775807"
    by (simp_all add: go_atoi_def digits_value_def byte_val_def is_digit_char_def in_int64_def)
  have "range_loop 2 59 9223372036854775807 [] = Some [2, - 9223372036854775807, 0]"
    by (subst range_loop.simps, simp add: i64, subst range_loop.simps, simp add: i64,
        subst range_loop.simps, simp add: i64, subst range_loop.simps, simp add: i64)
  then show ?thesis
    by (simp add: parsePart_def after_char_def before_char_def parse_unstepped_def atoi i64 parse_range_def)
qed

text \<open>\<open>@every 45m\<close> becomes \<open>*/45\<close>, which matches the minutes 0 and 45: the gaps are 45 and 15 minutes.\<close>

lemma every_45: "parseEverySpec ''45m'' = Ok ''*/45 * * * *''" "field_set 0 59 [(Star, Some 45)] = {0, 45}"
proof -
  have "trim_space ''45'' = ''45''"
    by (simp add: trim_space_def trim_left_def trim_right_def trim_codes_id space_codes_def)
  moreover have "go_atoi ''45'' = Some 45"
    by (simp add: go_atoi_def digits_value_def byte_val_def is_digit_char_def in_int64_def)
  moreover have "go_itoa 45 = ''45''"
    by (simp add: go_itoa_def, subst nat_decimal.simps, subst nat_decimal.simps) (simp add: char_of_def bit_simps)
  ultimately show "parseEverySpec ''45m'' = Ok ''*/45 * * * *''"
    by (simp add: parseEverySpec_def Let_def i64)
  show "field_set 0 59 [(Star, Some 45)] = {0, 45}"
    by (auto simp: field_set_def part_set_def step_of_def dvd_def)
qed

end
