(* ===== verification/Effects.thy ===== *)
theory Effects
  imports Database
begin

text \<open>
  Actions: functions on a state that return an outcome, the rendering of code that changes its
  receiver, its arguments and the world while it may return an error or panic. What such code
  changed before it failed stays changed. A triple \<open>triple P m Q R\<close> says that from a state
  with \<open>P\<close> the action ends in \<open>Q\<close> when it returns and in \<open>R\<close> when it fails or panics.
\<close>

type_synonym ('a, 's) act = "'s \<Rightarrow> 'a outcome \<times> 's"

definition ret :: "'a \<Rightarrow> ('a, 's) act" where "ret x s = (Ok x, s)"

definition raise :: "gerror \<Rightarrow> ('a, 's) act" where "raise e s = (Fail e, s)"

definition lift :: "'a outcome \<Rightarrow> ('a, 's) act" where "lift r s = (r, s)"

definition bindW :: "('a, 's) act \<Rightarrow> ('a \<Rightarrow> ('b, 's) act) \<Rightarrow> ('b, 's) act" where
  "bindW m f s =
     (case m s of
        (Ok x, s') \<Rightarrow> f x s'
      | (Fail e, s') \<Rightarrow> (Fail e, s')
      | (Panics p, s') \<Rightarrow> (Panics p, s'))"

text \<open>What follows a call and what follows its error.\<close>

definition tryW :: "('a, 's) act \<Rightarrow> ('a \<Rightarrow> ('b, 's) act) \<Rightarrow> (gerror \<Rightarrow> ('b, 's) act) \<Rightarrow> ('b, 's) act" where
  "tryW m f g s =
     (case m s of
        (Ok x, s') \<Rightarrow> f x s'
      | (Fail e, s') \<Rightarrow> g e s'
      | (Panics p, s') \<Rightarrow> (Panics p, s'))"

definition wrapW :: "(gerror \<Rightarrow> gerror) \<Rightarrow> ('a, 's) act \<Rightarrow> ('a, 's) act" where
  "wrapW w m s = (case m s of (r, s') \<Rightarrow> (mapErr w r, s'))"

text \<open>A call whose error is only logged.\<close>

definition attempt :: "(unit, 's) act \<Rightarrow> (unit, 's) act" where
  "attempt m = tryW m ret (\<lambda>_. ret ())"

definition whenW :: "bool \<Rightarrow> (unit, 's) act \<Rightarrow> (unit, 's) act" where
  "whenW b m = (if b then m else ret ())"

text \<open>Actions on a part of the state.\<close>

definition on_fst :: "('a, 's) act \<Rightarrow> ('a, 's \<times> 'd) act" where
  "on_fst m s = (case m (fst s) of (r, c) \<Rightarrow> (r, (c, snd s)))"

definition on_snd :: "('a, 'd) act \<Rightarrow> ('a, 's \<times> 'd) act" where
  "on_snd m s = (case m (snd s) of (r, d) \<Rightarrow> (r, (fst s, d)))"

definition reads :: "('s \<Rightarrow> 'a) \<Rightarrow> ('a, 's) act" where "reads f s = (Ok (f s), s)"

definition modifies :: "('s \<Rightarrow> 's) \<Rightarrow> (unit, 's) act" where "modifies f s = (Ok (), f s)"

fun forW :: "('a \<Rightarrow> (unit, 's) act) \<Rightarrow> 'a list \<Rightarrow> (unit, 's) act" where
  "forW f [] = ret ()"
| "forW f (x # xs) = bindW (f x) (\<lambda>_. forW f xs)"

named_theorems act_simps \<open>evaluation of actions\<close>

lemmas act_defs [act_simps] = ret_def raise_def lift_def bindW_def tryW_def wrapW_def on_fst_def on_snd_def reads_def
  modifies_def attempt_def whenW_def

lemma bindW_Ok: "bindW m f s = (Ok y, t) \<longleftrightarrow> (\<exists>x s'. m s = (Ok x, s') \<and> f x s' = (Ok y, t))"
  by (auto simp: bindW_def split: prod.splits outcome.splits)

lemma wrapW_Ok: "wrapW w m s = (Ok y, t) \<longleftrightarrow> m s = (Ok y, t)"
  by (auto simp: wrapW_def split: prod.splits)

lemma ret_Ok: "ret x s = (Ok y, t) \<longleftrightarrow> y = x \<and> t = s"
  by (auto simp: ret_def)

lemma raise_Ok: "raise e s = (Ok y, t) \<longleftrightarrow> False"
  by (simp add: raise_def)

lemma lift_Ok: "lift r s = (Ok y, t) \<longleftrightarrow> r = Ok y \<and> t = s"
  by (auto simp: lift_def)

lemma reads_Ok: "reads f s = (Ok y, t) \<longleftrightarrow> y = f s \<and> t = s"
  by (auto simp: reads_def)

lemma modifies_Ok: "modifies f s = (Ok y, t) \<longleftrightarrow> t = f s"
  by (auto simp: modifies_def)

lemmas act_Ok = bindW_Ok wrapW_Ok ret_Ok raise_Ok lift_Ok reads_Ok modifies_Ok

lemma bind_ret [simp]: "bindW (ret x) f = f x" "bindW m ret = m"
  by (auto simp: fun_eq_iff bindW_def ret_def split: prod.splits outcome.splits)

lemma bind_unit: "bindW m (\<lambda>_. ret ()) = m"
  by (auto simp: fun_eq_iff bindW_def ret_def split: prod.splits outcome.splits)

lemma bind_assoc: "bindW (bindW m f) g = bindW m (\<lambda>x. bindW (f x) g)"
  by (auto simp: fun_eq_iff bindW_def split: prod.splits outcome.splits)

lemma forW_append: "forW f (xs @ ys) = bindW (forW f xs) (\<lambda>_. forW f ys)"
  by (induction xs) (simp_all add: bind_assoc)

section \<open>Triples\<close>

fun ends :: "('a \<Rightarrow> 's \<Rightarrow> bool) \<Rightarrow> ('s \<Rightarrow> bool) \<Rightarrow> 'a outcome \<times> 's \<Rightarrow> bool" where
  "ends Q R (Ok x, s) = Q x s"
| "ends Q R (Fail e, s) = R s"
| "ends Q R (Panics p, s) = R s"

definition triple :: "('s \<Rightarrow> bool) \<Rightarrow> ('a, 's) act \<Rightarrow> ('a \<Rightarrow> 's \<Rightarrow> bool) \<Rightarrow> ('s \<Rightarrow> bool) \<Rightarrow> bool" where
  "triple P m Q R \<longleftrightarrow> (\<forall>s. P s \<longrightarrow> ends Q R (m s))"

text \<open>What an action keeps, whether it returns or not.\<close>

abbreviation keeps :: "('s \<Rightarrow> bool) \<Rightarrow> ('a, 's) act \<Rightarrow> bool" where
  "keeps P m \<equiv> triple P m (\<lambda>_. P) P"

named_theorems triple_intro \<open>rules for triples\<close>

lemma outcome_pair_cases:
  "(\<And>x s. r = (Ok x, s) \<Longrightarrow> T) \<Longrightarrow> (\<And>e s. r = (Fail e, s) \<Longrightarrow> T) \<Longrightarrow> (\<And>p s. r = (Panics p, s) \<Longrightarrow> T) \<Longrightarrow> T"
  by (metis outcome.exhaust surj_pair)

lemma ends_same: "ends (\<lambda>_. P) P r = P (snd r)"
  by (cases r rule: outcome_pair_cases) auto

lemma ends_mono: "ends Q R r \<Longrightarrow> (\<And>x s. Q x s \<Longrightarrow> Q' x s) \<Longrightarrow> (\<And>s. R s \<Longrightarrow> R' s) \<Longrightarrow> ends Q' R' r"
  by (cases r rule: outcome_pair_cases) auto

lemma tripleI: "(\<And>s. P s \<Longrightarrow> ends Q R (m s)) \<Longrightarrow> triple P m Q R"
  by (simp add: triple_def)

lemma tripleD: "triple P m Q R \<Longrightarrow> P s \<Longrightarrow> ends Q R (m s)"
  by (simp add: triple_def)

lemma triple_Ok: "triple P m Q R \<Longrightarrow> P s \<Longrightarrow> m s = (Ok x, s') \<Longrightarrow> Q x s'"
  by (drule tripleD) auto

lemma keepsI: "(\<And>s. P s \<Longrightarrow> P (snd (m s))) \<Longrightarrow> keeps P m"
  by (simp add: triple_def ends_same)

lemma keepsD: "keeps P m \<Longrightarrow> P s \<Longrightarrow> P (snd (m s))"
  by (simp add: triple_def ends_same)

lemma triple_bind [triple_intro]:
  assumes "triple P m Q R" "\<And>x. triple (Q x) (f x) T R"
  shows "triple P (bindW m f) T R"
proof (rule tripleI)
  fix s assume "P s"
  with assms(1) have "ends Q R (m s)" by (rule tripleD)
  then show "ends T R (bindW m f s)"
    using assms(2) by (cases "m s" rule: outcome_pair_cases) (auto simp: bindW_def triple_def)
qed

lemma triple_tryW [triple_intro]:
  assumes "triple P m Q R" "\<And>x. triple (Q x) (f x) T R" "\<And>e. triple R (g e) T R"
  shows "triple P (tryW m f g) T R"
proof (rule tripleI)
  fix s assume "P s"
  with assms(1) have "ends Q R (m s)" by (rule tripleD)
  then show "ends T R (tryW m f g s)"
    using assms(2,3) by (cases "m s" rule: outcome_pair_cases) (auto simp: tryW_def triple_def)
qed

text \<open>The state in which the call failed, when that is less than what may be left behind.\<close>

lemma triple_tryW_at:
  assumes "triple P m Q S" "\<And>x. triple (Q x) (f x) T R" "\<And>e. triple S (g e) T R" "\<And>s. S s \<Longrightarrow> R s"
  shows "triple P (tryW m f g) T R"
proof (rule tripleI)
  fix s assume "P s"
  with assms(1) have "ends Q S (m s)" by (rule tripleD)
  then show "ends T R (tryW m f g s)"
    using assms(2-4) by (cases "m s" rule: outcome_pair_cases) (auto simp: tryW_def triple_def)
qed

lemma triple_wrapW [triple_intro]:
  assumes "triple P m Q R"
  shows "triple P (wrapW w m) Q R"
proof (rule tripleI)
  fix s assume "P s"
  with assms have "ends Q R (m s)" by (rule tripleD)
  then show "ends Q R (wrapW w m s)"
    by (cases "m s" rule: outcome_pair_cases) (auto simp: wrapW_def)
qed

lemma triple_ret [triple_intro]: "(\<And>s. P s \<Longrightarrow> Q x s) \<Longrightarrow> triple P (ret x) Q R"
  by (simp add: triple_def ret_def)

lemma triple_raise [triple_intro]: "(\<And>s. P s \<Longrightarrow> R s) \<Longrightarrow> triple P (raise e) Q R"
  by (simp add: triple_def raise_def)

lemma triple_lift [triple_intro]:
  "(\<And>x s. r = Ok x \<Longrightarrow> P s \<Longrightarrow> Q x s) \<Longrightarrow> (\<And>s. P s \<Longrightarrow> R s) \<Longrightarrow> triple P (lift r) Q R"
  by (rule tripleI) (cases r; simp add: lift_def)

lemma triple_reads [triple_intro]: "(\<And>s. P s \<Longrightarrow> Q (f s) s) \<Longrightarrow> triple P (reads f) Q R"
  by (simp add: triple_def reads_def)

lemma triple_modifies [triple_intro]: "(\<And>s. P s \<Longrightarrow> Q () (f s)) \<Longrightarrow> triple P (modifies f) Q R"
  by (simp add: triple_def modifies_def)

lemma triple_whenW [triple_intro]:
  "(b \<Longrightarrow> triple P m Q R) \<Longrightarrow> (\<And>s. \<not> b \<Longrightarrow> P s \<Longrightarrow> Q () s) \<Longrightarrow> triple P (whenW b m) Q R"
  by (auto simp: whenW_def intro: triple_ret)

lemma triple_attempt [triple_intro]: "triple P m (\<lambda>_. Q) Q \<Longrightarrow> triple P (attempt m) (\<lambda>_. Q) Q"
  unfolding attempt_def by (rule triple_tryW) (auto intro: triple_ret)

lemma triple_if [triple_intro]:
  "(b \<Longrightarrow> triple P m Q R) \<Longrightarrow> (\<not> b \<Longrightarrow> triple P n Q R) \<Longrightarrow> triple P (if b then m else n) Q R"
  by simp

lemma triple_forW [triple_intro]: "(\<And>x. x \<in> set xs \<Longrightarrow> triple P (f x) (\<lambda>_. P) P) \<Longrightarrow> triple P (forW f xs) (\<lambda>_. P) P"
  by (induction xs) (auto intro!: triple_intro)

lemma triple_weaken:
  assumes m: "triple P m Q R" and P: "\<And>s. P' s \<Longrightarrow> P s"
    and Q: "\<And>x s. Q x s \<Longrightarrow> Q' x s" and R: "\<And>s. R s \<Longrightarrow> R' s"
  shows "triple P' m Q' R'"
proof (rule tripleI)
  fix s assume "P' s"
  then have "ends Q R (m s)" by (intro tripleD [OF m] P)
  then show "ends Q' R' (m s)" by (rule ends_mono) (fact Q R)+
qed

lemma triple_pure [triple_intro]: "(A \<Longrightarrow> triple P m Q R) \<Longrightarrow> triple (\<lambda>s. A \<and> P s) m Q R"
  by (auto simp: triple_def)

text \<open>What the precondition implies may be used.\<close>

lemma triple_fact: "(\<And>s. P s \<Longrightarrow> A) \<Longrightarrow> (A \<Longrightarrow> triple P m Q R) \<Longrightarrow> triple P m Q R"
  by (auto simp: triple_def)

lemma triple_pre: "triple P m Q R \<Longrightarrow> (\<And>s. P' s \<Longrightarrow> P s) \<Longrightarrow> triple P' m Q R"
  by (rule triple_weaken)

lemma triple_world:
  "triple P m Q R \<Longrightarrow>
   triple (\<lambda>s. C (fst s) \<and> P (snd s)) (on_snd m) (\<lambda>x s. C (fst s) \<and> Q x (snd s)) (\<lambda>s. C (fst s) \<and> R (snd s))"
proof (rule tripleI)
  fix s
  assume m: "triple P m Q R" and s: "C (fst s) \<and> P (snd s)"
  then have "ends Q R (m (snd s))" by (auto dest: tripleD)
  then show "ends (\<lambda>x s. C (fst s) \<and> Q x (snd s)) (\<lambda>s. C (fst s) \<and> R (snd s)) (on_snd m s)"
    using s by (cases "m (snd s)" rule: outcome_pair_cases) (auto simp: on_snd_def)
qed

lemma triple_reads_pure:
  "(\<And>s. P s \<Longrightarrow> f s = v) \<Longrightarrow> triple P (k v) Q R \<Longrightarrow> triple P (bindW (reads f) k) Q R"
  by (auto simp: triple_def bindW_def reads_def)

section \<open>Errors apart from panics\<close>

text \<open>As a triple, with a condition \<open>R\<close> of the state an error leaves and \<open>S\<close> of the state a panic leaves.\<close>

fun ends3 :: "('a \<Rightarrow> 's \<Rightarrow> bool) \<Rightarrow> ('s \<Rightarrow> bool) \<Rightarrow> ('s \<Rightarrow> bool) \<Rightarrow> 'a outcome \<times> 's \<Rightarrow> bool" where
  "ends3 Q R S (Ok x, s) = Q x s"
| "ends3 Q R S (Fail e, s) = R s"
| "ends3 Q R S (Panics p, s) = S s"

definition quad :: "('s \<Rightarrow> bool) \<Rightarrow> ('a, 's) act \<Rightarrow> ('a \<Rightarrow> 's \<Rightarrow> bool) \<Rightarrow> ('s \<Rightarrow> bool) \<Rightarrow> ('s \<Rightarrow> bool) \<Rightarrow> bool" where
  "quad P m Q R S \<longleftrightarrow> (\<forall>s. P s \<longrightarrow> ends3 Q R S (m s))"

lemma quadI: "(\<And>s. P s \<Longrightarrow> ends3 Q R S (m s)) \<Longrightarrow> quad P m Q R S"
  by (simp add: quad_def)

lemma quadD: "quad P m Q R S \<Longrightarrow> P s \<Longrightarrow> ends3 Q R S (m s)"
  by (simp add: quad_def)

lemma ends3_mono:
  "ends3 Q R S r \<Longrightarrow> (\<And>x s. Q x s \<Longrightarrow> Q' x s) \<Longrightarrow> (\<And>s. R s \<Longrightarrow> R' s) \<Longrightarrow> (\<And>s. S s \<Longrightarrow> S' s) \<Longrightarrow> ends3 Q' R' S' r"
  by (cases r rule: outcome_pair_cases) auto

lemma quad_weaken:
  assumes m: "quad P m Q R S" and P: "\<And>s. P' s \<Longrightarrow> P s"
    and Q: "\<And>x s. Q x s \<Longrightarrow> Q' x s" and R: "\<And>s. R s \<Longrightarrow> R' s" and S: "\<And>s. S s \<Longrightarrow> S' s"
  shows "quad P' m Q' R' S'"
proof (rule quadI)
  fix s assume "P' s"
  then have "ends3 Q R S (m s)" by (intro quadD [OF m] P)
  then show "ends3 Q' R' S' (m s)" by (rule ends3_mono) (fact Q R S)+
qed

lemma quad_triple: "triple P m Q R \<Longrightarrow> quad P m Q R R"
proof (rule quadI)
  fix s assume "triple P m Q R" "P s"
  then have "ends Q R (m s)" by (rule tripleD)
  then show "ends3 Q R R (m s)" by (cases "m s" rule: outcome_pair_cases) auto
qed

lemma quad_bind:
  assumes "quad P m Q R S" "\<And>x. quad (Q x) (f x) T R S"
  shows "quad P (bindW m f) T R S"
proof (rule quadI)
  fix s assume "P s"
  with assms(1) have "ends3 Q R S (m s)" by (rule quadD)
  then show "ends3 T R S (bindW m f s)"
    using assms(2) by (cases "m s" rule: outcome_pair_cases) (auto simp: bindW_def quad_def)
qed

lemma quad_tryW:
  assumes "quad P m Q E S" "\<And>x. quad (Q x) (f x) T R S" "\<And>e. quad E (g e) T R S"
  shows "quad P (tryW m f g) T R S"
proof (rule quadI)
  fix s assume "P s"
  with assms(1) have "ends3 Q E S (m s)" by (rule quadD)
  then show "ends3 T R S (tryW m f g s)"
    using assms(2,3) by (cases "m s" rule: outcome_pair_cases) (auto simp: tryW_def quad_def)
qed

lemma quad_ret: "(\<And>s. P s \<Longrightarrow> Q x s) \<Longrightarrow> quad P (ret x) Q R S"
  by (simp add: quad_def ret_def)

lemma quad_raise: "(\<And>s. P s \<Longrightarrow> R s) \<Longrightarrow> quad P (raise e) Q R S"
  by (simp add: quad_def raise_def)

lemma quad_panic: "(\<And>s. P s \<Longrightarrow> S s) \<Longrightarrow> quad P (lift (Panics p)) Q R S"
  by (simp add: quad_def lift_def)

lemma quad_pure: "(A \<Longrightarrow> quad P m Q R S) \<Longrightarrow> quad (\<lambda>s. A \<and> P s) m Q R S"
  by (auto simp: quad_def)

lemma quad_fact: "(\<And>s. P s \<Longrightarrow> A) \<Longrightarrow> (A \<Longrightarrow> quad P m Q R S) \<Longrightarrow> quad P m Q R S"
  by (auto simp: quad_def)

lemma quad_reads_pure: "(\<And>s. P s \<Longrightarrow> f s = v) \<Longrightarrow> quad P (k v) Q R S \<Longrightarrow> quad P (bindW (reads f) k) Q R S"
  by (auto simp: quad_def bindW_def reads_def)

text \<open>A step that keeps its precondition and whose error is caught.\<close>

lemma quad_attempt: "keeps P m \<Longrightarrow> (\<And>s. P s \<Longrightarrow> S s) \<Longrightarrow> quad P (attempt m) (\<lambda>_. P) R S"
proof -
  assume m: "keeps P m" and S: "\<And>s. P s \<Longrightarrow> S s"
  have "quad P m (\<lambda>_. P) P S" by (rule quad_weaken [OF quad_triple [OF m]]) (auto intro: S)
  then show ?thesis unfolding attempt_def by (rule quad_tryW) (auto intro: quad_ret)
qed

text \<open>What an error of the action tells about it.\<close>

lemma quad_blame:
  assumes "quad P m Q R S"
  shows "quad P m Q (\<lambda>s. R s \<and> (\<exists>s0. P s0 \<and> (\<exists>e. fst (m s0) = Fail e))) S"
proof (rule quadI)
  fix s assume P: "P s"
  then have "ends3 Q R S (m s)" using assms by (simp add: quadD)
  then show "ends3 Q (\<lambda>s. R s \<and> (\<exists>s0. P s0 \<and> (\<exists>e. fst (m s0) = Fail e))) S (m s)"
    using P by (cases "m s" rule: outcome_pair_cases) force+
qed

text \<open>The rules for what is kept throughout.\<close>

named_theorems keeps_intro \<open>rules for what actions keep\<close>

lemma keeps_bind [keeps_intro]: "keeps P m \<Longrightarrow> (\<And>x. keeps P (f x)) \<Longrightarrow> keeps P (bindW m f)"
  by (rule triple_bind)

lemma keeps_tryW [keeps_intro]: "keeps P m \<Longrightarrow> (\<And>x. keeps P (f x)) \<Longrightarrow> (\<And>e. keeps P (g e)) \<Longrightarrow> keeps P (tryW m f g)"
  by (rule triple_tryW)

lemma keeps_pure [keeps_intro]: "keeps P (ret x)" "keeps P (raise e)" "keeps P (lift r)" "keeps P (reads h)"
  by (simp_all add: triple_ret triple_raise triple_lift triple_reads)

lemma keeps_option [keeps_intro]: "keeps P m \<Longrightarrow> (\<And>x. keeps P (f x)) \<Longrightarrow> keeps P (case r of None \<Rightarrow> m | Some x \<Rightarrow> f x)"
  by (cases r) simp_all

lemma keeps_if [keeps_intro]: "keeps P m \<Longrightarrow> keeps P n \<Longrightarrow> keeps P (if b then m else n)"
  by simp

lemmas keeps_wrapped [keeps_intro] = triple_wrapW [where Q = "\<lambda>_. P" and P = P and R = P for P]
  triple_attempt [where P = P and Q = P for P]

text \<open>An action on the world does not touch the other half of the state.\<close>

lemma triple_on_snd: "(\<And>s x. P s \<Longrightarrow> P (fst s, x)) \<Longrightarrow> keeps P (on_snd m)"
  by (rule keepsI) (auto simp: on_snd_def split: prod.splits)

end
