(* ===== verification/OrderRepo.thy ===== *)
theory OrderRepo
  imports Orders Database "HOL-Library.Multiset"
begin

text \<open>
  The order repository (\<open>internal/infrastructure/postgres/order_repo.go\<close>) as operations on the
  tables \<open>orders\<close> and \<open>order_items\<close> with the constraints of their migrations. \<open>pu\<close> is
  the database's reading of a UUID as its canonical text. A \<open>TIMESTAMPTZ\<close> keeps microseconds.
  The items of an order are read by their creation time; the order of the items of the same instant
  is the database's choice, the field \<open>od_ties\<close>: an arbitrary rearrangement of the rows that a query selects.
\<close>

section \<open>The tables\<close>

record order_row =
  ow_id :: string
  ow_customer :: string
  ow_email :: "string option"
  ow_status :: string
  ow_currency :: string
  ow_total :: int64
  ow_total_currency :: string
  ow_country :: "string option"
  ow_tax :: "int64 option"
  ow_credit :: int64
  ow_created :: gotime
  ow_updated :: gotime

record item_row =
  iw_order :: string
  iw_variant :: string
  iw_sku :: string
  iw_name :: string
  iw_quantity :: int
  iw_price :: int64
  iw_currency :: string
  iw_restockable :: bool
  iw_created :: gotime

record order_db =
  od_orders :: "order_row list"
  od_items :: "item_row list"
  od_ties :: "item_row list \<Rightarrow> item_row list"

type_synonym uuid_parse = "string \<Rightarrow> string option"

definition micro :: "gotime \<Rightarrow> gotime" where "micro t = t - t mod 1000"

definition invalid_uuid :: gerror where "invalid_uuid = Err ''invalid input syntax for type uuid''"

definition check_violation :: gerror where "check_violation = Err ''check violation''"

section \<open>Writing\<close>

definition order_row_of :: "(string \<Rightarrow> string) \<Rightarrow> string \<Rightarrow> order \<Rightarrow> order_row" where
  "order_row_of uni rid o1 =
     (let known = trim_space (o_DestinationCountry o1) \<noteq> [] in
      \<lparr>ow_id = rid, ow_customer = o_CustomerID o1, ow_email = Some (trim_space (o_ContactEmail o1)),
       ow_status = order_status_string (o_status o1), ow_currency = o_Currency o1,
       ow_total = m_amount (o_TotalAmount o1), ow_total_currency = m_currency (o_TotalAmount o1),
       ow_country = (if known then Some (go_to_upper uni (trim_space (o_DestinationCountry o1))) else None),
       ow_tax = (if known then Some (m_amount (o_TaxAmount o1)) else None),
       ow_credit = m_amount (o_StoreCreditApplied o1), ow_created = micro (o_CreatedAt o1), ow_updated = micro (o_UpdatedAt o1)\<rparr>)"

definition order_row_ok :: "order_row \<Rightarrow> bool" where
  "order_row_ok r \<longleftrightarrow> OrderStatus_IsValid (order_status_of_string (ow_status r)) \<and> 0 \<le>s ow_total r \<and>
     (case ow_country r of None \<Rightarrow> True | Some c \<Rightarrow> length c = 2) \<and>
     (case ow_tax r of None \<Rightarrow> True | Some t \<Rightarrow> 0 \<le>s t) \<and> 0 \<le>s ow_credit r \<and> ow_credit r \<le>s ow_total r"

definition item_row_of :: "string \<Rightarrow> order_item \<Rightarrow> item_row" where
  "item_row_of rid i = \<lparr>iw_order = rid, iw_variant = oi_VariantID i, iw_sku = oi_SKU i, iw_name = oi_Name i,
     iw_quantity = sint (oi_Quantity i), iw_price = m_amount (oi_UnitPrice i), iw_currency = m_currency (oi_UnitPrice i),
     iw_restockable = oi_Restockable i, iw_created = micro (oi_CreatedAt i)\<rparr>"

fun insert_items :: "db_faults \<Rightarrow> string \<Rightarrow> order_item list \<Rightarrow> item_row list \<Rightarrow> item_row list outcome" where
  "insert_items flt rid [] rows = Ok rows"
| "insert_items flt rid (i # is) rows =
     (let label = ''order_repo: insert item '' @ go_quote (oi_VariantID i); row = item_row_of rid i in
      bindO (stmt flt label) (\<lambda>_.
      if \<not> int4 (iw_quantity row) then Fail (Wrap label out_of_range)
      else if iw_quantity row \<le> 0 \<or> iw_price row <s 0 then Fail (Wrap label check_violation)
      else if list_ex (\<lambda>r. iw_order r = rid \<and> iw_variant r = oi_VariantID i) rows
        then Fail (Wrap label (Err ''unique violation: primary key''))
      else insert_items flt rid is (rows @ [row])))"

definition saveOn :: "uuid_parse \<Rightarrow> (string \<Rightarrow> string) \<Rightarrow> db_faults \<Rightarrow> order_db \<Rightarrow> order \<Rightarrow> (unit \<times> order_db) outcome" where
  "saveOn pu uni flt db o1 =
     bindO (stmt flt ''order_repo: insert order'') (\<lambda>_.
     case pu (o_ID o1) of
       None \<Rightarrow> Fail (Wrap ''order_repo: insert order'' invalid_uuid)
     | Some rid \<Rightarrow>
         let row = order_row_of uni rid o1 in
         if \<not> order_row_ok row then Fail (Wrap ''order_repo: insert order'' check_violation)
         else if list_ex (\<lambda>r. ow_id r = rid) (od_orders db)
           then Fail (Wrap ''order_repo: insert order'' (Err ''unique violation: primary key''))
         else if o_items o1 = [] then Ok ((), db\<lparr>od_orders := od_orders db @ [row]\<rparr>)
         else bindO (stmt flt ''order_repo: prepare item insert'') (\<lambda>_.
              bindO (insert_items flt rid (o_items o1) (od_items db)) (\<lambda>items.
              Ok ((), db\<lparr>od_orders := od_orders db @ [row], od_items := items\<rparr>))))"

definition OrderRepo_Save ::
    "uuid_parse \<Rightarrow> (string \<Rightarrow> string) \<Rightarrow> db_faults \<Rightarrow> order_db \<Rightarrow> order option \<Rightarrow> unit outcome \<times> order_db" where
  "OrderRepo_Save pu uni flt db o0 =
     (case o0 of
        None \<Rightarrow> (Fail (Err ''order_repo: save: order must not be nil''), db)
      | Some o1 \<Rightarrow> txn db
          (bindO (stmt flt ''order_repo: begin tx'') (\<lambda>_.
           bindO (saveOn pu uni flt db o1) (\<lambda>(_, db').
           bindO (stmt flt ''order_repo: commit'') (\<lambda>_. Ok ((), db'))))))"

section \<open>Reading\<close>

definition hydrateOrder :: "order_row \<Rightarrow> order outcome" where
  "hydrateOrder r =
     (let z = \<lparr>m_amount = 0, m_currency = []\<rparr>;
          o1 = \<lparr>o_ID = ow_id r, o_CustomerID = ow_customer r,
                o_ContactEmail = trim_space (case ow_email r of None \<Rightarrow> [] | Some e \<Rightarrow> e),
                o_status = OrderStatusOther [], o_Currency = ow_currency r, o_items = [], o_TotalAmount = z,
                o_StoreCreditApplied = z, o_DestinationCountry = trim_space (case ow_country r of None \<Rightarrow> [] | Some c \<Rightarrow> c),
                o_TaxAmount = z, o_CreatedAt = ow_created r, o_UpdatedAt = ow_updated r\<rparr> in
      bindO (Order_SetStatusFromDB o1 (ow_status r)) (\<lambda>o2.
      bindO (mapErr (Wrap ''order_repo: total money'') (NewMoney (ow_total r) (ow_total_currency r))) (\<lambda>total.
      bindO (case ow_tax r of
               Some t \<Rightarrow> mapErr (Wrap ''order_repo: tax money'') (NewMoney t (ow_total_currency r))
             | None \<Rightarrow> mapErr (Wrap ''order_repo: zero tax money'') (Zero (ow_total_currency r))) (\<lambda>tax.
      bindO (mapErr (Wrap ''order_repo: store credit money'') (NewMoney (ow_credit r) (ow_total_currency r))) (\<lambda>credit.
      Ok (o2\<lparr>o_TotalAmount := total, o_TaxAmount := tax, o_StoreCreditApplied := credit\<rparr>))))))"

fun scanItems :: "item_row list \<Rightarrow> order_item list outcome" where
  "scanItems [] = Ok []"
| "scanItems (r # rs) =
     bindO (mapErr (Wrap ''order_repo: item money'') (NewMoney (iw_price r) (iw_currency r))) (\<lambda>m.
     bindO (scanItems rs) (\<lambda>is.
     Ok (\<lparr>oi_VariantID = iw_variant r, oi_SKU = iw_sku r, oi_Name = iw_name r, oi_Quantity = word_of_int (iw_quantity r),
          oi_UnitPrice = m, oi_Restockable = iw_restockable r, oi_CreatedAt = iw_created r\<rparr> # is)))"

definition loadItems :: "db_faults \<Rightarrow> order_db \<Rightarrow> string \<Rightarrow> order_item list outcome" where
  "loadItems flt db rid =
     bindO (stmt flt ''order_repo: load items'') (\<lambda>_.
     scanItems (sort_key iw_created (od_ties db (filter (\<lambda>r. iw_order r = rid) (od_items db)))))"

definition OrderRepo_FindByID :: "uuid_parse \<Rightarrow> db_faults \<Rightarrow> order_db \<Rightarrow> string \<Rightarrow> order option outcome" where
  "OrderRepo_FindByID pu flt db oid =
     (if oid = [] then Fail (Err ''order_repo: find: empty id'')
      else bindO (stmt flt ''order_repo: find by id'') (\<lambda>_.
        case pu oid of
          None \<Rightarrow> Fail (AppErr Validation ''invalid order id'')
        | Some rid \<Rightarrow>
            (case List.find (\<lambda>r. ow_id r = rid) (od_orders db) of
               None \<Rightarrow> Ok None
             | Some r \<Rightarrow>
                 bindO (mapErr (Wrap ''order_repo: find by id'') (hydrateOrder r)) (\<lambda>o1.
                 bindO (loadItems flt db (o_ID o1)) (\<lambda>items.
                 bindO (mapErr (Wrap ''order_repo: set items'') (Order_SetItemsFromDB o1 items)) (\<lambda>o2.
                 Ok (Some o2)))))))"

section \<open>Changing the status and the owner\<close>

text \<open>\<open>UPDATE orders SET ... WHERE ...\<close>, with the number of rows it changed.\<close>

definition update_orders :: "(order_row \<Rightarrow> bool) \<Rightarrow> (order_row \<Rightarrow> order_row) \<Rightarrow> order_db \<Rightarrow> nat \<times> order_db" where
  "update_orders sel f db =
     (length (filter sel (od_orders db)), db\<lparr>od_orders := map (\<lambda>r. if sel r then f r else r) (od_orders db)\<rparr>)"

definition FailIfPending ::
    "uuid_parse \<Rightarrow> db_faults \<Rightarrow> gotime \<Rightarrow> order_db \<Rightarrow> string \<Rightarrow> bool outcome \<times> order_db" where
  "FailIfPending pu flt now db oid0 =
     (let oid = trim_space oid0 in
      if oid = [] then (Fail (Err ''order_repo: fail if pending: order id must not be empty''), db)
      else txn db
        (bindO (stmt flt ''order_repo: fail if pending'') (\<lambda>_.
         case pu oid of
           None \<Rightarrow> Fail (Wrap ''order_repo: fail if pending'' invalid_uuid)
         | Some rid \<Rightarrow>
             (case update_orders (\<lambda>r. ow_id r = rid \<and> ow_status r = ''pending'')
                     (\<lambda>r. r\<lparr>ow_status := ''failed'', ow_updated := micro now\<rparr>) db of
                (n, db') \<Rightarrow> Ok (n = 1, db')))))"

definition OrderRepo_UpdateStatus ::
    "uuid_parse \<Rightarrow> db_faults \<Rightarrow> order_db \<Rightarrow> order option \<Rightarrow> unit outcome \<times> order_db" where
  "OrderRepo_UpdateStatus pu flt db o0 =
     (case o0 of
        None \<Rightarrow> (Fail (Err ''order_repo: update status: order must not be nil''), db)
      | Some o1 \<Rightarrow> txn db
          (bindO (stmt flt ''order_repo: update status'') (\<lambda>_.
           case pu (o_ID o1) of
             None \<Rightarrow> Fail (Wrap ''order_repo: update status'' invalid_uuid)
           | Some rid \<Rightarrow>
               (case update_orders (\<lambda>r. ow_id r = rid)
                       (\<lambda>r. r\<lparr>ow_status := order_status_string (o_status o1), ow_updated := micro (o_UpdatedAt o1)\<rparr>) db of
                  (n, db') \<Rightarrow>
                    if 0 < n \<and> \<not> OrderStatus_IsValid (order_status_of_string (order_status_string (o_status o1)))
                    then Fail (Wrap ''order_repo: update status'' check_violation)
                    else if n = 0 then Fail (Err ''order_repo: update status: order not found'')
                    else Ok ((), db')))))"

definition OrderRepo_LinkToCustomer ::
    "uuid_parse \<Rightarrow> db_faults \<Rightarrow> order_db \<Rightarrow> order option \<Rightarrow> unit outcome \<times> order_db" where
  "OrderRepo_LinkToCustomer pu flt db o0 =
     (case o0 of
        None \<Rightarrow> (Fail (Err ''order_repo: link to customer: order must not be nil''), db)
      | Some o1 \<Rightarrow>
          let customerID = trim_space (o_CustomerID o1) in
          if customerID = [] then (Fail (Err ''order_repo: link to customer: empty customer id''), db)
          else txn db
            (bindO (stmt flt ''order_repo: link to customer'') (\<lambda>_.
             case pu (o_ID o1) of
               None \<Rightarrow> Fail (Wrap ''order_repo: link to customer'' invalid_uuid)
             | Some rid \<Rightarrow>
                 (case update_orders (\<lambda>r. ow_id r = rid \<and> ow_customer r = [])
                         (\<lambda>r. r\<lparr>ow_customer := customerID, ow_updated := micro (o_UpdatedAt o1)\<rparr>) db of
                    (n, db') \<Rightarrow>
                      if n = 0 then Fail (Err ''order_repo: link to customer: order not found or already linked'')
                      else Ok ((), db')))))"

text \<open>\<open>low\<close> is the database's \<open>LOWER\<close>.\<close>

definition LinkToCustomerByContactEmail ::
    "(string \<Rightarrow> string) \<Rightarrow> (string \<Rightarrow> string) \<Rightarrow> db_faults \<Rightarrow> order_db \<Rightarrow> string \<Rightarrow> string \<Rightarrow> gotime \<Rightarrow> nat outcome \<times> order_db" where
  "LinkToCustomerByContactEmail uni low flt db contactEmail customerID0 updatedAt =
     (let email = go_to_lower uni (trim_space contactEmail); customerID = trim_space customerID0 in
      if email = [] then (Fail (Err ''order_repo: link by contact email: empty email''), db)
      else if customerID = [] then (Fail (Err ''order_repo: link by contact email: empty customer id''), db)
      else txn db
        (bindO (stmt flt ''order_repo: link by contact email'') (\<lambda>_.
         Ok (update_orders (\<lambda>r. map_option low (ow_email r) = Some email \<and> ow_customer r = [])
              (\<lambda>r. r\<lparr>ow_customer := customerID, ow_updated := micro updatedAt\<rparr>) db))))"

section \<open>Lemmas\<close>

text \<open>
  Every item row belongs to an order row (the foreign key of \<open>order_items\<close>), ids are unique, and a
  query returns the rows it selects, each once.
\<close>

definition order_db_ok :: "order_db \<Rightarrow> bool" where
  "order_db_ok db \<longleftrightarrow> iw_order ` set (od_items db) \<subseteq> ow_id ` set (od_orders db) \<and> distinct (map ow_id (od_orders db)) \<and>
     (\<forall>rows. mset (od_ties db rows) = mset rows)"

definition stored_item :: "order_item \<Rightarrow> order_item" where
  "stored_item i = i\<lparr>oi_CreatedAt := micro (oi_CreatedAt i)\<rparr>"

text \<open>What the tables keep of an order.\<close>

definition stored_order :: "order \<Rightarrow> order" where
  "stored_order o1 = o1\<lparr>o_ContactEmail := trim_space (o_ContactEmail o1), o_items := map stored_item (o_items o1),
     o_CreatedAt := micro (o_CreatedAt o1), o_UpdatedAt := micro (o_UpdatedAt o1)\<rparr>"

definition country_ok :: "(string \<Rightarrow> string) \<Rightarrow> order \<Rightarrow> bool" where
  "country_ok uni o1 \<longleftrightarrow> o_DestinationCountry o1 = [] \<and> m_amount (o_TaxAmount o1) = 0 \<or>
     (\<exists>c. ValidateDestinationCountry uni c = Ok (o_DestinationCountry o1))"

definition order_built :: "(string \<Rightarrow> string) \<Rightarrow> order \<Rightarrow> bool" where
  "order_built uni o1 \<longleftrightarrow> IsValidCurrency (o_Currency o1) \<and>
     (\<forall>i \<in> set (o_items o1). m_currency (oi_UnitPrice i) = o_Currency o1) \<and> o_items o1 \<noteq> [] \<and>
     Order_computeTotal (o_items o1) (o_Currency o1) = Ok (o_TotalAmount o1) \<and>
     m_currency (o_TotalAmount o1) = o_Currency o1 \<and>
     m_currency (o_TaxAmount o1) = o_Currency o1 \<and> m_currency (o_StoreCreditApplied o1) = o_Currency o1 \<and>
     country_ok uni o1"

lemma computeTotal_currency: "Order_computeTotal items cur = Ok t \<Longrightarrow> m_currency t = cur"
proof -
  have "order_total_from acc is = Ok t \<Longrightarrow> m_currency t = m_currency acc" for acc "is"
    by (induction "is" arbitrary: acc) (auto simp: AddChecked_def mustMatch_def Let_def split: if_splits)
  then show "Order_computeTotal items cur = Ok t \<Longrightarrow> m_currency t = cur"
    by (auto simp: Order_computeTotal_def Zero_def split: if_splits)
qed

lemma NewOrder_built:
  assumes "NewOrder uni parse_ok now oid cid email cur items = Ok o1"
  shows "order_built uni o1"
proof -
  from assms obtain t where t: "Order_computeTotal items cur = Ok t" and cur: "IsValidCurrency cur" and items: "items \<noteq> []"
      "\<forall>i \<in> set items. m_currency (oi_UnitPrice i) = cur"
      and o1: "o_Currency o1 = cur" "o_items o1 = items" "o_TotalAmount o1 = t" "o_TaxAmount o1 = \<lparr>m_amount = 0, m_currency = cur\<rparr>"
        "o_StoreCreditApplied o1 = \<lparr>m_amount = 0, m_currency = cur\<rparr>" "o_DestinationCountry o1 = []"
    by (auto simp: NewOrder_def Let_def Zero_def list_ex_iff split: if_splits)
  then show ?thesis using computeTotal_currency [OF t] by (simp add: order_built_def country_ok_def)
qed

lemma order_built_cong:
  assumes "order_built uni o1" "o_Currency o2 = o_Currency o1" "o_items o2 = o_items o1" "o_TotalAmount o2 = o_TotalAmount o1"
    "m_currency (o_TaxAmount o2) = o_Currency o1" "m_currency (o_StoreCreditApplied o2) = o_Currency o1" "country_ok uni o2"
  shows "order_built uni o2"
  using assms by (simp add: order_built_def)

lemma country_ok_cong:
  "country_ok uni o1 \<Longrightarrow> o_DestinationCountry o2 = o_DestinationCountry o1 \<Longrightarrow> o_TaxAmount o2 = o_TaxAmount o1 \<Longrightarrow> country_ok uni o2"
  by (simp add: country_ok_def)

lemma order_link_fields:
  assumes "LinkToCustomer t o1 c = Ok o2"
  shows "o2 = o1\<lparr>o_CustomerID := trim_space c, o_UpdatedAt := t\<rparr>"
  using assms by (simp add: LinkToCustomer_def Let_def split: if_splits)
lemma order_apply_fields:
  assumes nt: "\<not> (\<exists>d m. x = OpTaxSnapshot d m)" and r: "order_apply uni x o1 = Ok o2"
  shows "o_Currency o2 = o_Currency o1 \<and> o_items o2 = o_items o1 \<and> o_TotalAmount o2 = o_TotalAmount o1 \<and>
      o_TaxAmount o2 = o_TaxAmount o1 \<and> o_DestinationCountry o2 = o_DestinationCountry o1 \<and>
      (o_StoreCreditApplied o2 = o_StoreCreditApplied o1 \<or> m_currency (o_StoreCreditApplied o2) = o_Currency o1)"
    using r nt by (cases x) (auto simp: Order_ApplyStoreCredit_def Confirm_def MarkPaid_def
  Order_Cancel_def Order_Fail_def ApplyStatusTransition_def dest!: order_link_fields split: if_splits order_status.splits)
lemma order_apply_built:
  assumes b: "order_built uni o1" and r: "order_apply uni x o1 = Ok o2"
  shows "order_built uni o2"
proof (cases "\<exists>d m. x = OpTaxSnapshot d m")
  case True
  then obtain d m where "SetTaxSnapshot uni o1 d m = Ok o2" using r by auto
  then obtain c where "ValidateDestinationCountry uni d = Ok c" "m_currency m = o_Currency o1"
      "o2 = o1\<lparr>o_DestinationCountry := c, o_TaxAmount := m\<rparr>"
    by (auto simp: SetTaxSnapshot_def split: if_splits)
  then show ?thesis using b by (intro order_built_cong [OF b]) (auto simp: order_built_def country_ok_def)
next
  case False
  note same = order_apply_fields [OF False r]
  have "country_ok uni o1" using b by (simp add: order_built_def)
  then have c: "country_ok uni o2" using same by (simp add: country_ok_def)
  have "m_currency (o_TaxAmount o1) = o_Currency o1" "m_currency (o_StoreCreditApplied o1) = o_Currency o1"
    using b by (simp_all add: order_built_def)
  then show ?thesis using same by (intro order_built_cong [OF b _ _ _ _ _ c]) (elim conjE disjE; simp)+
qed

lemma order_run_built: "order_built uni o1 \<Longrightarrow> order_built uni (run_ops (order_apply uni) xs o1)"
  by (induction xs arbitrary: o1) (auto dest: order_apply_built split: outcome.splits)


lemma insert_items_Ok:
  "insert_items flt rid is rows = Ok rows' \<Longrightarrow> rows' = rows @ map (item_row_of rid) is"
proof (induction "is" arbitrary: rows)
  case (Cons i "is")
  then have "insert_items flt rid is (rows @ [item_row_of rid i]) = Ok rows'"
    by (simp add: Let_def split: if_splits)
  from Cons.IH [OF this] show ?case by simp
qed simp

lemma insert_items_good: "insert_items flt rid is rows = Ok rows' \<Longrightarrow> \<forall>i \<in> set is. order_item_ok i"
proof (induction "is" arbitrary: rows)
  case (Cons i "is")
  then show ?case
    by (auto simp: Let_def item_row_of_def order_item_ok_def i64 not_less not_le split: if_splits)
qed simp

text \<open>What a row is read as.\<close>

definition item_of_row :: "item_row \<Rightarrow> order_item" where
  "item_of_row r = \<lparr>oi_VariantID = iw_variant r, oi_SKU = iw_sku r, oi_Name = iw_name r, oi_Quantity = word_of_int (iw_quantity r),
     oi_UnitPrice = \<lparr>m_amount = iw_price r, m_currency = iw_currency r\<rparr>, oi_Restockable = iw_restockable r, oi_CreatedAt = iw_created r\<rparr>"

lemma scanItems_rows: "\<forall>r \<in> set rows. IsValidCurrency (iw_currency r) \<Longrightarrow> scanItems rows = Ok (map item_of_row rows)"
  by (induction rows) (auto simp: item_of_row_def NewMoney_def)

lemma item_written: "item_of_row (item_row_of rid i) = stored_item i"
  by (simp add: item_of_row_def item_row_of_def stored_item_def)

text \<open>The total does not depend on the order of the lines.\<close>

lemma sum_list_rearranged:
  fixes f :: "'a \<Rightarrow> int"
  assumes "mset xs = mset ys"
  shows "sum_list (map f xs) = sum_list (map f ys)"
proof -
  have "mset (map f xs) = mset (map f ys)" using assms by simp
  then show ?thesis by (simp only: flip: sum_mset_sum_list)
qed

lemma computeTotal_rearranged:
  assumes "Order_computeTotal items cur = Ok t" "\<forall>i \<in> set items. order_item_ok i \<and> m_currency (oi_UnitPrice i) = cur"
    and "IsValidCurrency cur" "mset items' = mset (map stored_item items)"
  shows "Order_computeTotal items' cur = Ok t"
proof -
  have ok: "\<forall>i \<in> set items'. order_item_ok i \<and> m_currency (oi_UnitPrice i) = cur"
    using assms(2) mset_eq_setD [OF assms(4)] by (auto simp: stored_item_def order_item_ok_def)
  have "order_items_cents items' = order_items_cents (map stored_item items)"
    by (rule sum_list_rearranged [OF assms(4)])
  then have same: "order_items_cents items' = order_items_cents items"
    by (simp add: comp_def stored_item_def)
  obtain t' where t': "Order_computeTotal items' cur = Ok t'"
    using order_total_Ok_iff [OF assms(2,3)] order_total_Ok_iff [OF ok assms(3)] assms(1) same by auto
  have "cents t' = cents t \<and> m_currency t' = m_currency t"
    using order_total_exact [OF t'] order_total_exact [OF assms(1)] ok assms(2) same by auto
  then have "t' = t" by (cases t; cases t') (auto intro: signed_word_eqI)
  then show ?thesis using t' by simp
qed

lemma country_canonical:
  assumes "ValidateDestinationCountry uni c = Ok country"
  shows "trim_space country = country" "go_to_upper uni' country = country" "country \<noteq> []"
proof -
  have up: "\<forall>c \<in> set country. is_upper_letter c" and ne: "country \<noteq> []"
    using assms by (auto simp: ValidateDestinationCountry_def Let_def list_ex_iff is_upper_letter_def not_less split: if_splits)
  show "trim_space country = country" by (rule trim_space_upper [OF up])
  show "go_to_upper uni' country = country" by (rule go_to_upper_upper [OF up])
  show "country \<noteq> []" by (rule ne)
qed

text \<open>Reading the row that was written gives the order back, lines aside.\<close>

lemma hydrate_written:
  assumes b: "order_built uni o1" and ok: "order_row_ok (order_row_of uni rid o1)" and st: "OrderStatus_IsValid (o_status o1)"
  shows "hydrateOrder (order_row_of uni rid o1) = Ok ((stored_order o1)\<lparr>o_ID := rid, o_items := []\<rparr>)"
proof -
  have st': "order_status_of_string (order_status_string (o_status o1)) = o_status o1"
    using st by (cases "o_status o1") (auto simp: order_status_of_string_def)
  have cur: "IsValidCurrency (o_Currency o1)" "m_currency (o_TotalAmount o1) = o_Currency o1"
      "m_currency (o_TaxAmount o1) = o_Currency o1" "m_currency (o_StoreCreditApplied o1) = o_Currency o1"
    and c: "country_ok uni o1" using b by (simp_all add: order_built_def)
  show ?thesis
  proof (cases "o_DestinationCountry o1 = []")
    case True
    then have "m_amount (o_TaxAmount o1) = 0"
      using c country_canonical(3) by (force simp: country_ok_def)
    then have "o_TaxAmount o1 = \<lparr>m_amount = 0, m_currency = o_Currency o1\<rparr>" using cur by (cases "o_TaxAmount o1") simp
    then show ?thesis using True st st' cur
      by (simp add: hydrateOrder_def order_row_of_def Let_def Order_SetStatusFromDB_def NewMoney_def Zero_def stored_order_def)
  next
    case False
    then obtain x where "ValidateDestinationCountry uni x = Ok (o_DestinationCountry o1)" using c by (auto simp: country_ok_def)
    note canon = country_canonical [OF this]
    show ?thesis using False st st' cur canon
      by (simp add: hydrateOrder_def order_row_of_def Let_def Order_SetStatusFromDB_def NewMoney_def stored_order_def)
  qed
qed


lemma saveOn_Ok:
  assumes "saveOn pu uni flt db o1 = Ok (u, db')" and ne: "o_items o1 \<noteq> []"
  shows "\<exists>rid. pu (o_ID o1) = Some rid \<and> order_row_ok (order_row_of uni rid o1) \<and> rid \<notin> ow_id ` set (od_orders db) \<and>
     db' = db\<lparr>od_orders := od_orders db @ [order_row_of uni rid o1],
            od_items := od_items db @ map (item_row_of rid) (o_items o1)\<rparr> \<and> (\<forall>i \<in> set (o_items o1). order_item_ok i)"
proof -
  obtain rid items where ins: "insert_items flt rid (o_items o1) (od_items db) = Ok items" "pu (o_ID o1) = Some rid"
      "order_row_ok (order_row_of uni rid o1)" "rid \<notin> ow_id ` set (od_orders db)"
      "db' = db\<lparr>od_orders := od_orders db @ [order_row_of uni rid o1], od_items := items\<rparr>"
    using assms by (auto simp: saveOn_def Let_def list_ex_iff split: option.splits if_splits)
  then show ?thesis using insert_items_Ok [OF ins(1)] insert_items_good [OF ins(1)] by blast
qed

lemma order_row_of_id [simp]: "ow_id (order_row_of uni rid o1) = rid"
  by (simp add: order_row_of_def Let_def)

lemma find_appended: "rid \<notin> ow_id ` set rows \<Longrightarrow> ow_id r = rid \<Longrightarrow> List.find (\<lambda>r. ow_id r = rid) (rows @ [r]) = Some r"
  by (induction rows) auto

lemma loadItems_written:
  assumes db: "order_db_ok db" "rid \<notin> ow_id ` set (od_orders db)"
    and db': "od_items db' = od_items db @ map (item_row_of rid) items" "od_ties db' = od_ties db"
    and cur: "\<forall>i \<in> set items. IsValidCurrency (m_currency (oi_UnitPrice i))" and q: "flt ''order_repo: load items'' = None"
  shows "\<exists>items'. loadItems flt db' rid = Ok items' \<and> mset items' = mset (map stored_item items) \<and> sorted (map oi_CreatedAt items')"
proof -
  let ?new = "map (item_row_of rid) items"
  let ?read = "sort_key iw_created (od_ties db ?new)"
  have "filter (\<lambda>r. iw_order r = rid) (od_items db) = []"
    using db by (auto simp: order_db_ok_def filter_empty_conv)
  then have sel: "filter (\<lambda>r. iw_order r = rid) (od_items db') = ?new"
    unfolding db'(1) by (simp add: filter_id_conv item_row_of_def)
  have rows: "mset ?read = mset ?new" using db(1) by (simp add: order_db_ok_def)
  then have "\<forall>r \<in> set ?read. IsValidCurrency (iw_currency r)"
    using cur mset_eq_setD [OF rows] by (auto simp: item_row_of_def)
  from scanItems_rows [OF this] have "loadItems flt db' rid = Ok (map item_of_row ?read)"
    using q by (simp add: loadItems_def stmt_def sel db'(2))
  moreover have "mset (map item_of_row ?read) = mset (map stored_item items)"
    using rows by (metis (no_types, lifting) item_written map_eq_conv map_map comp_def mset_map)
  moreover have "sorted (map oi_CreatedAt (map item_of_row ?read))"
    using sorted_sort_key [of iw_created "od_ties db ?new"] by (simp add: comp_def item_of_row_def)
  ultimately show ?thesis by blast
qed

text \<open>C29: An order that was saved is read back as it was. For an order that \<open>NewOrder\<close> built and that
  went through any operations since, saved in tables that satisfy their foreign key, under an id that
  the database keeps as it is: reading it by its id returns the same order, every amount, line and status
  included; only the times lose their part below a microsecond, the e-mail its outer white space, and
  the lines come in the order of their creation times, those of the same instant in any order.\<close>

theorem order_saved_and_read:
  assumes new: "NewOrder uni parse_ok now oid cid email cur items = Ok o0"
    and o1: "o1 = run_ops (order_apply uni) ops o0" and st: "OrderStatus_IsValid (o_status o1)"
    and id: "pu (o_ID o1) = Some (o_ID o1)" "o_ID o1 \<noteq> []" and db: "order_db_ok db"
    and save: "OrderRepo_Save pu uni flt db (Some o1) = (Ok (), db')"
  shows "(\<exists>items'. mset items' = mset (map stored_item (o_items o1)) \<and> sorted (map oi_CreatedAt items') \<and>
      OrderRepo_FindByID pu (\<lambda>_. None) db' (o_ID o1) = Ok (Some ((stored_order o1)\<lparr>o_items := items'\<rparr>))) \<and> order_db_ok db'"
proof -
  let ?id = "o_ID o1" and ?row = "order_row_of uni (o_ID o1) o1"
  have b: "order_built uni o1" unfolding o1 by (intro order_run_built NewOrder_built [OF new])
  have ne: "o_items o1 \<noteq> []" and cur: "IsValidCurrency (o_Currency o1)" "\<forall>i \<in> set (o_items o1). m_currency (oi_UnitPrice i) = o_Currency o1"
    and total: "Order_computeTotal (o_items o1) (o_Currency o1) = Ok (o_TotalAmount o1)"
    using b by (auto simp: order_built_def)
  obtain u where "saveOn pu uni flt db o1 = Ok (u, db')" using save by (auto simp: OrderRepo_Save_def txn_Ok)
  from saveOn_Ok [OF this ne] id(1) have ok: "order_row_ok ?row" and new_id: "?id \<notin> ow_id ` set (od_orders db)"
    and db': "db' = db\<lparr>od_orders := od_orders db @ [?row], od_items := od_items db @ map (item_row_of ?id) (o_items o1)\<rparr>"
    and good: "\<forall>i \<in> set (o_items o1). order_item_ok i"
    by auto
  have find: "List.find (\<lambda>r. ow_id r = ?id) (od_orders db') = Some ?row"
    unfolding db' using find_appended [OF new_id] by simp
  note row = hydrate_written [OF b ok st]
  obtain items' where items: "loadItems (\<lambda>_. None) db' ?id = Ok items'" "mset items' = mset (map stored_item (o_items o1))"
      "sorted (map oi_CreatedAt items')"
    using loadItems_written [OF db new_id, of db' "o_items o1" "\<lambda>_. None"] cur by (auto simp: db')
  have "Order_computeTotal items' (o_Currency o1) = Ok (o_TotalAmount o1)"
    using computeTotal_rearranged [OF total _ cur(1) items(2)] good cur(2) by blast
  then have "Order_SetItemsFromDB ((stored_order o1)\<lparr>o_items := []\<rparr>) items' = Ok ((stored_order o1)\<lparr>o_items := items'\<rparr>)"
    by (simp add: Order_SetItemsFromDB_def stored_order_def Equal_def)
  then have "OrderRepo_FindByID pu (\<lambda>_. None) db' ?id = Ok (Some ((stored_order o1)\<lparr>o_items := items'\<rparr>))"
    using id find row items(1) by (simp add: OrderRepo_FindByID_def stmt_def stored_order_def)
  moreover have "order_db_ok db'"
    using db new_id by (auto simp: db' order_db_ok_def item_row_of_def)
  ultimately show ?thesis using items(2,3) by blast
qed

section \<open>Failing a pending order\<close>

definition row_at :: "order_db \<Rightarrow> string \<Rightarrow> order_row option" where
  "row_at db rid = List.find (\<lambda>r. ow_id r = rid) (od_orders db)"

lemma find_unique:
  "distinct (map ow_id rows) \<Longrightarrow> List.find (\<lambda>r. ow_id r = rid) rows = Some r \<longleftrightarrow> r \<in> set rows \<and> ow_id r = rid"
  by (induction rows) (auto simp: image_iff)

lemma row_at_iff: "order_db_ok db \<Longrightarrow> row_at db rid = Some r \<longleftrightarrow> r \<in> set (od_orders db) \<and> ow_id r = rid"
  unfolding row_at_def order_db_ok_def by (intro find_unique) blast

lemma find_map_rows:
  assumes "\<And>r. ow_id (f r) = ow_id r"
  shows "List.find (\<lambda>r. ow_id r = rid) (map f rows) = map_option f (List.find (\<lambda>r. ow_id r = rid) rows)"
  using assms by (induction rows) auto

lemma update_orders_row_at:
  assumes "\<And>r. ow_id (f r) = ow_id r"
  shows "row_at (snd (update_orders sel f db)) rid = map_option (\<lambda>r. if sel r then f r else r) (row_at db rid)"
  unfolding row_at_def update_orders_def using assms by (simp add: find_map_rows)

lemma update_orders_ok:
  assumes "\<And>r. ow_id (f r) = ow_id r" "order_db_ok db"
  shows "order_db_ok (snd (update_orders sel f db))"
proof -
  have "map ow_id (od_orders (snd (update_orders sel f db))) = map ow_id (od_orders db)"
    using assms(1) by (simp add: update_orders_def)
  then have ids: "ow_id ` set (od_orders (snd (update_orders sel f db))) = ow_id ` set (od_orders db)"
      "distinct (map ow_id (od_orders (snd (update_orders sel f db)))) = distinct (map ow_id (od_orders db))"
    by (metis set_map, metis)
  have "od_items (snd (update_orders sel f db)) = od_items db" "od_ties (snd (update_orders sel f db)) = od_ties db"
    by (simp_all add: update_orders_def)
  then show ?thesis using assms(2) ids by (simp add: order_db_ok_def)
qed

lemma one_row:
  assumes "distinct (map ow_id rows)"
  shows "length (filter (\<lambda>r. ow_id r = rid \<and> P r) rows) = 1 \<longleftrightarrow> (\<exists>r. List.find (\<lambda>r. ow_id r = rid) rows = Some r \<and> P r)"
  using assms
proof (induction rows)
  case (Cons q rows)
  show ?case
  proof (cases "ow_id q = rid")
    case True
    then have "filter (\<lambda>r. ow_id r = rid \<and> P r) rows = []"
      using Cons.prems by (auto simp: filter_empty_conv image_iff)
    then show ?thesis using True by simp
  next
    case False
    then show ?thesis using Cons by simp
  qed
qed simp

text \<open>What \<open>FailIfPending\<close> reports and does.\<close>

lemma FailIfPending_Ok:
  assumes db: "order_db_ok db" and run: "FailIfPending pu flt now db oid = (Ok b, db')"
    and id: "pu (trim_space oid) = Some rid"
  shows "b \<longleftrightarrow> (\<exists>r. row_at db rid = Some r \<and> ow_status r = ''pending'')"
    "row_at db' x = map_option (\<lambda>r. if ow_id r = rid \<and> ow_status r = ''pending''
       then r\<lparr>ow_status := ''failed'', ow_updated := micro now\<rparr> else r) (row_at db x)"
    "od_items db' = od_items db" "order_db_ok db'" "od_ties db' = od_ties db"
proof -
  let ?sel = "\<lambda>r. ow_id r = rid \<and> ow_status r = ''pending''"
  let ?f = "\<lambda>r. r\<lparr>ow_status := ''failed'', ow_updated := micro now\<rparr>"
  have run': "b = (length (filter ?sel (od_orders db)) = 1)" "db' = snd (update_orders ?sel ?f db)"
    using run id by (auto simp: FailIfPending_def Let_def txn_Ok update_orders_def split: if_splits)
  have "distinct (map ow_id (od_orders db))" using db by (simp add: order_db_ok_def)
  from one_row [OF this, where P = "\<lambda>r. ow_status r = ''pending''" and rid = rid]
  show "b \<longleftrightarrow> (\<exists>r. row_at db rid = Some r \<and> ow_status r = ''pending'')"
    by (simp only: run'(1) row_at_def)
  show "row_at db' x = map_option (\<lambda>r. if ?sel r then ?f r else r) (row_at db x)"
    unfolding run' by (intro update_orders_row_at) simp
  show "od_items db' = od_items db" "od_ties db' = od_ties db" by (simp_all add: run' update_orders_def)
  show "order_db_ok db'" unfolding run' by (intro update_orders_ok db) simp
qed

lemma FailIfPending_quiet:
  "trim_space oid \<noteq> [] \<Longrightarrow> pu (trim_space oid) = Some rid \<Longrightarrow> flt ''order_repo: fail if pending'' = None \<Longrightarrow>
   \<exists>b db'. FailIfPending pu flt now db oid = (Ok b, db')"
  by (simp add: FailIfPending_def Let_def stmt_def update_orders_def)

lemma hydrate_failed:
  "hydrateOrder r = Ok o1 \<Longrightarrow> hydrateOrder (r\<lparr>ow_status := ''failed'', ow_updated := t\<rparr>) =
     Ok (o1\<lparr>o_status := OrderStatusFailed, o_UpdatedAt := t\<rparr>)"
  by (auto simp: hydrateOrder_def Let_def Order_SetStatusFromDB_def order_status_of_string_def split: if_splits option.splits)

lemma hydrate_status: "hydrateOrder r = Ok o1 \<Longrightarrow> o_status o1 = order_status_of_string (ow_status r)"
  by (auto simp: hydrateOrder_def Let_def Order_SetStatusFromDB_def split: if_splits option.splits)

lemma hydrate_id: "hydrateOrder r = Ok o1 \<Longrightarrow> o_ID o1 = ow_id r"
  by (auto simp: hydrateOrder_def Let_def Order_SetStatusFromDB_def split: if_splits option.splits)

lemma SetItems_failed:
  "Order_SetItemsFromDB o1 items = Ok o2 \<Longrightarrow>
   Order_SetItemsFromDB (o1\<lparr>o_status := st, o_UpdatedAt := t\<rparr>) items = Ok (o2\<lparr>o_status := st, o_UpdatedAt := t\<rparr>)"
  by (auto simp: Order_SetItemsFromDB_def split: if_splits)

text \<open>After \<open>FailIfPending\<close> the order reads as before, failed; any other status is left alone.\<close>

lemma FindByID_after_fail:
  assumes db: "order_db_ok db" and read: "OrderRepo_FindByID pu flt db oid = Ok (Some o1)"
    and run: "FailIfPending pu flt' now db oid = (Ok b, db')" and tr: "trim_space oid = oid"
  shows "b \<longleftrightarrow> o_status o1 = OrderStatusPending"
    "OrderRepo_FindByID pu flt db' oid =
       Ok (Some (if b then o1\<lparr>o_status := OrderStatusFailed, o_UpdatedAt := micro now\<rparr> else o1))"
proof -
  from read obtain rid r h items where rid: "oid \<noteq> []" "flt ''order_repo: find by id'' = None" "pu oid = Some rid"
      and r: "row_at db rid = Some r" and h: "hydrateOrder r = Ok h" and items: "loadItems flt db (o_ID h) = Ok items"
      and o1: "Order_SetItemsFromDB h items = Ok o1"
    by (auto simp: OrderRepo_FindByID_def row_at_def split: if_splits option.splits)
  note eff = FailIfPending_Ok [OF db run, unfolded tr, OF rid(3)]
  have pending: "ow_status r = ''pending'' \<longleftrightarrow> o_status o1 = OrderStatusPending"
    using hydrate_status [OF h] o1 by (auto simp: Order_SetItemsFromDB_def order_status_of_string_def split: if_splits)
  then show b: "b \<longleftrightarrow> o_status o1 = OrderStatusPending" using eff(1) r by simp
  have same: "loadItems flt db' x = loadItems flt db x" for x by (simp add: loadItems_def eff(3,5))
  have idr: "ow_id r = rid" using row_at_iff [OF db] r by blast
  have row: "row_at db' rid = Some (if b then r\<lparr>ow_status := ''failed'', ow_updated := micro now\<rparr> else r)"
    using eff(2) [of rid] r b pending idr by simp
  show "OrderRepo_FindByID pu flt db' oid =
      Ok (Some (if b then o1\<lparr>o_status := OrderStatusFailed, o_UpdatedAt := micro now\<rparr> else o1))"
  proof (cases b)
    case True
    then show ?thesis
      using rid row hydrate_failed [OF h] items SetItems_failed [OF o1]
      by (simp add: OrderRepo_FindByID_def row_at_def stmt_def same)
  next
    case False
    then show ?thesis
      using rid row h items o1 by (simp add: OrderRepo_FindByID_def row_at_def stmt_def same)
  qed
qed

section \<open>A lost failure\<close>

text \<open>The write of the status service has no guard on the stored status: an order that was read as
  pending, failed in between (its store credit goes back then), and is confirmed from the copy that
  was read ends as confirmed.\<close>

lemma lost_failure:
  assumes db: "order_db_ok db" and read: "OrderRepo_FindByID pu (\<lambda>_. None) db oid = Ok (Some o1)"
    and tr: "trim_space oid = oid" "pu (o_ID o1) = pu oid"
    and failed: "FailIfPending pu (\<lambda>_. None) now db oid = (Ok True, db1)" and conf: "Confirm t o1 = Ok o2"
  shows "\<exists>db2 r. OrderRepo_UpdateStatus pu (\<lambda>_. None) db1 (Some o2) = (Ok (), db2) \<and>
    OrderRepo_FindByID pu (\<lambda>_. None) db1 oid = Ok (Some (o1\<lparr>o_status := OrderStatusFailed, o_UpdatedAt := micro now\<rparr>)) \<and>
    row_at db2 (the (pu oid)) = Some r \<and> ow_status r = ''confirmed''"
proof -
  from read obtain rid where rid: "pu oid = Some rid" by (auto simp: OrderRepo_FindByID_def split: if_splits option.splits)
  note after = FindByID_after_fail [OF db read failed tr(1)]
  obtain r1 where r1: "row_at db1 rid = Some r1" using after(2) rid
    by (auto simp: OrderRepo_FindByID_def row_at_def split: if_splits option.splits)
  have o2: "o_ID o2 = o_ID o1" "o_status o2 = OrderStatusConfirmed" using conf by (auto simp: Confirm_def split: if_splits)
  have ok1: "order_db_ok db1" using FailIfPending_Ok(4) [OF db failed] rid tr(1) by simp
  let ?f = "\<lambda>r. r\<lparr>ow_status := ''confirmed'', ow_updated := micro (o_UpdatedAt o2)\<rparr>"
  have "0 < fst (update_orders (\<lambda>r. ow_id r = rid) ?f db1)"
    using r1 row_at_iff [OF ok1] by (auto simp: update_orders_def filter_empty_conv)
  then have "OrderRepo_UpdateStatus pu (\<lambda>_. None) db1 (Some o2) = (Ok (), snd (update_orders (\<lambda>r. ow_id r = rid) ?f db1))"
    using rid tr(2) o2 by (simp add: OrderRepo_UpdateStatus_def stmt_def case_prod_beta order_status_of_string_def)
  moreover have "row_at (snd (update_orders (\<lambda>r. ow_id r = rid) ?f db1)) rid = Some (?f r1)"
    using update_orders_row_at [of ?f "\<lambda>r. ow_id r = rid" db1 rid] r1 row_at_iff [OF ok1, of rid r1] by simp
  ultimately show ?thesis using after rid by fastforce
qed

section \<open>Witnesses\<close>

text \<open>Two lines of the same instant, which this database reads in the opposite order.\<close>

definition other_order_item :: order_item where
  "other_order_item = demo_order_item\<lparr>oi_VariantID := ''v2''\<rparr>"

definition two_lines :: order where
  "two_lines = demo_order\<lparr>o_items := [demo_order_item, other_order_item],
     o_TotalAmount := \<lparr>m_amount = 2 * m_amount (o_TotalAmount demo_order), m_currency = ''EUR''\<rparr>\<rparr>"

definition backward_db :: order_db where
  "backward_db = \<lparr>od_orders = [], od_items = [], od_ties = rev\<rparr>"

theorem order_saved_and_read_witness:
  "\<exists>db' items'. OrderRepo_Save Some (\<lambda>s. s) (\<lambda>_. None) backward_db (Some two_lines) = (Ok (), db') \<and>
     mset items' = mset (map stored_item [demo_order_item, other_order_item]) \<and>
     OrderRepo_FindByID Some (\<lambda>_. None) db' ''o1'' = Ok (Some ((stored_order two_lines)\<lparr>o_items := items'\<rparr>))"
proof -
  have new: "NewOrder (\<lambda>s. s) (\<lambda>_. True) 1 ''o1'' ''c1'' [] ''EUR'' [demo_order_item, other_order_item] = Ok two_lines"
    by (simp add: NewOrder_def demo_order_item_def other_order_item_def two_lines_def demo_order_def go_to_lower_def is_ascii_def
        Order_computeTotal_def Zero_def OrderItem_LineTotal_def MulChecked_def AddChecked_def
        mustMatch_def go_div_def MaxInt64_def MinInt64_def i64 signed_divide_int_def)
  obtain db' where save: "OrderRepo_Save Some (\<lambda>s. s) (\<lambda>_. None) backward_db (Some two_lines) = (Ok (), db')"
    by (simp add: OrderRepo_Save_def saveOn_def Let_def stmt_def two_lines_def demo_order_def demo_order_item_def other_order_item_def
        order_row_of_def order_row_ok_def item_row_of_def order_status_of_string_def int4_def i64 backward_db_def)
  have facts: "o_ID two_lines = ''o1''" "OrderStatus_IsValid (o_status two_lines)" "order_db_ok backward_db"
      "o_items two_lines = [demo_order_item, other_order_item]"
    by (simp_all add: two_lines_def demo_order_def order_db_ok_def backward_db_def)
  then show ?thesis
    using order_saved_and_read [OF new, of two_lines "[]" Some backward_db "\<lambda>_. None" db'] save by auto
qed

end
