(* ===== verification/Checkout.thy ===== *)
theory Checkout
  imports Effects OrderRepo StoreCredit Payments Shipping Pricing Inventory Cart
begin

text \<open>
  The checkout workflow (\<open>internal/application/checkout\<close>: \<open>context.go\<close>, \<open>step.go\<close>,
  \<open>workflow.go\<close>, \<open>payment_failed.go\<close>) and the publication of the events of an order
  (\<open>internal/application/order\<close>). A step is an action on the checkout context and the world \<open>'d\<close>;
  repositories, services and the event bus are actions on the world. A context that is detached
  from the request has no rendering of its own: any action may fail. Metrics are part of the result;
  logging and tracing spans are left out.
\<close>

section \<open>The checkout context\<close>

record address =
  ad_FirstName :: string
  ad_LastName :: string
  ad_Street :: string
  ad_City :: string
  ad_Postcode :: string
  ad_Country :: string

definition Address_IsZero :: "address \<Rightarrow> bool" where
  "Address_IsZero a \<longleftrightarrow> ad_FirstName a = [] \<and> ad_LastName a = [] \<and> ad_Street a = [] \<and> ad_City a = [] \<and>
     ad_Postcode a = [] \<and> ad_Country a = []"

definition Address_Normalize :: "address \<Rightarrow> address" where
  "Address_Normalize a = \<lparr>ad_FirstName = trim_space (ad_FirstName a), ad_LastName = trim_space (ad_LastName a),
     ad_Street = trim_space (ad_Street a), ad_City = trim_space (ad_City a), ad_Postcode = trim_space (ad_Postcode a),
     ad_Country = trim_space (ad_Country a)\<rparr>"

record checkout_input =
  in_Address :: address
  in_ContactEmail :: string
  in_ShippingMethod :: string
  in_PaymentMethod :: string
  in_StoreCreditAmount :: int64

record reservation_hold =
  rh_ID :: string
  rh_VariantID :: string
  rh_Quantity :: int64
  rh_BundleProductID :: string

text \<open>
  The values the steps put into \<open>Meta\<close>, by their dynamic types; a map of quantities is a list with
  distinct keys, and \<open>CPlain\<close> holds the values that the pricing packages read.
\<close>

datatype 'w cmeta =
    CBool bool
  | CStr string
  | CStrs "string list"
  | CHolds "reservation_hold list"
  | CQty "(string \<times> int64) list"
  | CPricing pricing_context
  | CPayment payment
  | CShipment shipment
  | CVariants "string \<Rightarrow> 'w variant option"
  | CProducts "string \<Rightarrow> product option"
  | CAddress address
  | CPlain meta_val

record trace_entry =
  te_Step :: string
  te_Status :: string
  te_Err :: string

record 'w checkout_context =
  cx_CartID :: string
  cx_Cart :: "cart option"
  cx_CustomerID :: string
  cx_Currency :: string
  cx_Input :: checkout_input
  cx_Order :: "order option"
  cx_Meta :: "string \<Rightarrow> 'w cmeta option"
  cx_Trace :: "trace_entry list"

definition zero_address :: address where
  "zero_address = \<lparr>ad_FirstName = [], ad_LastName = [], ad_Street = [], ad_City = [], ad_Postcode = [], ad_Country = []\<rparr>"

definition NewContext :: "string \<Rightarrow> string \<Rightarrow> string \<Rightarrow> 'w checkout_context" where
  "NewContext cartID customerID currency =
     \<lparr>cx_CartID = cartID, cx_Cart = None, cx_CustomerID = customerID, cx_Currency = currency,
      cx_Input = \<lparr>in_Address = zero_address, in_ContactEmail = [], in_ShippingMethod = [], in_PaymentMethod = [],
        in_StoreCreditAmount = 0\<rparr>,
      cx_Order = None, cx_Meta = (\<lambda>_. None), cx_Trace = []\<rparr>"

definition SetMeta :: "string \<Rightarrow> 'w cmeta \<Rightarrow> 'w checkout_context \<Rightarrow> 'w checkout_context" where
  "SetMeta key v c = c\<lparr>cx_Meta := (cx_Meta c)(key \<mapsto> v)\<rparr>"

text \<open>\<open>v, ok := cctx.GetMeta(key)\<close> with \<open>v.(bool)\<close>, and the marker of a step that was done.\<close>

definition meta_true :: "'w checkout_context \<Rightarrow> string \<Rightarrow> bool" where
  "meta_true c key = (case cx_Meta c key of Some (CBool b) \<Rightarrow> b | _ \<Rightarrow> False)"

section \<open>Events\<close>

datatype checkout_event =
    StepStarted string string
  | StepCompleted string string
  | CheckoutFailed string string string
  | CheckoutCompleted string string
  | UnpaidFailed string string
  | OrderFailed string string string string
  | OrderPaid string string string string
  | OrderCreated string string string string string int64
  | StockUpdated string string string string int64
  | PaymentFailed string

fun event_name :: "checkout_event \<Rightarrow> string" where
  "event_name (StepStarted _ _) = ''checkout.step.started''"
| "event_name (StepCompleted _ _) = ''checkout.step.completed''"
| "event_name (CheckoutFailed _ _ _) = ''checkout.failed''"
| "event_name (CheckoutCompleted _ _) = ''checkout.completed''"
| "event_name (UnpaidFailed _ _) = ''checkout.unpaid_failed''"
| "event_name (OrderFailed _ _ _ _) = ''order.failed''"
| "event_name (OrderPaid _ _ _ _) = ''order.paid''"
| "event_name (OrderCreated _ _ _ _ _ _) = ''order.created''"
| "event_name (StockUpdated _ _ _ _ _) = ''inventory.stock_updated''"
| "event_name (PaymentFailed _) = ''payment.failed''"

text \<open>The synchronous part of \<open>Bus.Publish\<close>: the handlers in order, up to the first error.\<close>

fun Bus_Publish :: "(checkout_event \<Rightarrow> (unit, 'd) act) list \<Rightarrow> checkout_event \<Rightarrow> (unit, 'd) act" where
  "Bus_Publish [] evt = ret ()"
| "Bus_Publish (h # hs) evt = bindW (h evt) (\<lambda>_. Bus_Publish hs evt)"

type_synonym 'd bus = "checkout_event \<Rightarrow> (unit, 'd) act"

definition Publish_Failed :: "'d bus option \<Rightarrow> string \<Rightarrow> string \<Rightarrow> string \<Rightarrow> string \<Rightarrow> (unit, 'd) act" where
  "Publish_Failed bus0 source orderID0 oldStatus newStatus0 =
     (case bus0 of
        None \<Rightarrow> ret ()
      | Some bus \<Rightarrow>
          let orderID = trim_space orderID0 in
          if orderID = [] then raise (Err ''order: publish failed: order id must not be empty'')
          else bus (OrderFailed source orderID oldStatus
                 (if trim_space newStatus0 = [] then order_status_string OrderStatusFailed else newStatus0)))"

definition Publish_Paid :: "'d bus option \<Rightarrow> string \<Rightarrow> string \<Rightarrow> string \<Rightarrow> string \<Rightarrow> (unit, 'd) act" where
  "Publish_Paid bus0 source orderID0 oldStatus newStatus0 =
     (case bus0 of
        None \<Rightarrow> ret ()
      | Some bus \<Rightarrow>
          let orderID = trim_space orderID0 in
          if orderID = [] then raise (Err ''order: publish paid: order id must not be empty'')
          else bus (OrderPaid source orderID oldStatus
                 (if trim_space newStatus0 = [] then order_status_string OrderStatusPaid else newStatus0)))"

fun item_count :: "int64 \<Rightarrow> order_item list \<Rightarrow> int64" where
  "item_count n [] = n"
| "item_count n (i # is) = item_count (n + oi_Quantity i) is"

definition Publish_Created :: "'d bus option \<Rightarrow> string \<Rightarrow> order option \<Rightarrow> (unit, 'd) act" where
  "Publish_Created bus0 source o0 =
     (case (bus0, o0) of
        (Some bus, Some o1) \<Rightarrow>
          let orderID = trim_space (o_ID o1) in
          if orderID = [] then raise (Err ''order: publish created: order id must not be empty'')
          else bus (OrderCreated source orderID (o_CustomerID o1) (o_ContactEmail o1) (o_Currency o1) (item_count 0 (o_items o1)))
      | _ \<Rightarrow> ret ())"

section \<open>Workflow and steps\<close>

record ('w, 'd) checkout_step =
  sp_name :: string
  sp_run :: "req_ctx \<Rightarrow> (unit, 'w checkout_context \<times> 'd) act"

text \<open>\<open>unpaidOrderWriter\<close> and \<open>storeCreditIssuer\<close>.\<close>

record 'd unpaid_orders =
  uo_find :: "string \<Rightarrow> (order option, 'd) act"
  uo_fail :: "string \<Rightarrow> (bool, 'd) act"

type_synonym 'd credit_issuer = "string \<Rightarrow> money \<Rightarrow> string \<Rightarrow> string \<Rightarrow> (unit, 'd) act"

text \<open>\<open>wf_done\<close> is \<open>ctx.Err()\<close>, read between the steps.\<close>

record ('w, 'd) workflow =
  wf_steps :: "('w, 'd) checkout_step list"
  wf_bus :: "'d bus"
  wf_done :: "'d \<Rightarrow> gerror option"
  wf_orders :: "'d unpaid_orders option"
  wf_revoke :: "(string \<Rightarrow> (unit, 'd) act) option"
  wf_payments :: "(string \<Rightarrow> (payment option, 'd) act) option"
  wf_credits :: "'d credit_issuer option"

definition NewWorkflow ::
    "('w, 'd) checkout_step list \<Rightarrow> 'd bus option \<Rightarrow> bool \<Rightarrow> ('d \<Rightarrow> gerror option) \<Rightarrow> ('w, 'd) workflow outcome" where
  "NewWorkflow steps bus has_log done_err =
     (case bus of
        None \<Rightarrow> Panics ''checkout: bus must not be nil''
      | Some b \<Rightarrow>
          if \<not> has_log then Panics ''checkout: logger must not be nil''
          else Ok \<lparr>wf_steps = steps, wf_bus = b, wf_done = done_err, wf_orders = None, wf_revoke = None,
                   wf_payments = None, wf_credits = None\<rparr>)"

definition WithUnpaidOrderCompensation ::
    "'d unpaid_orders option \<Rightarrow> (string \<Rightarrow> (unit, 'd) act) option \<Rightarrow> (string \<Rightarrow> (payment option, 'd) act) option \<Rightarrow>
     'd credit_issuer option \<Rightarrow> ('w, 'd) workflow option \<Rightarrow> ('w, 'd) workflow option" where
  "WithUnpaidOrderCompensation orders revoke payments credits w =
     map_option (\<lambda>w. w\<lparr>wf_orders := orders, wf_revoke := revoke, wf_payments := payments, wf_credits := credits\<rparr>) w"

definition publishEvent :: "('w, 'd) workflow \<Rightarrow> checkout_event \<Rightarrow> (unit, 'w checkout_context \<times> 'd) act" where
  "publishEvent w evt = wrapW (Wrap (''checkout: publish '' @ event_name evt)) (on_snd (wf_bus w evt))"

section \<open>Compensation of an unpaid order\<close>

definition paymentFailedCreditKey :: "string \<Rightarrow> string" where
  "paymentFailedCreditKey orderID = ''checkout:payment-failed:'' @ orderID"

definition paymentFailedCreditNote :: "string \<Rightarrow> string" where
  "paymentFailedCreditNote orderID = ''checkout: restore store credit for failed payment ('' @ orderID @ '')''"

definition issueFailedPaymentCredit :: "'d credit_issuer option \<Rightarrow> string \<Rightarrow> string \<Rightarrow> money \<Rightarrow> (unit, 'd) act" where
  "issueFailedPaymentCredit credits customerID orderID applied =
     (case credits of
        None \<Rightarrow> ret ()
      | Some restore \<Rightarrow>
          if m_amount applied \<le>s 0 then ret ()
          else if trim_space customerID = [] then raise (Err ''checkout: restore store credit: customer id is empty'')
          else restore customerID applied (paymentFailedCreditNote orderID) (paymentFailedCreditKey orderID))"

definition paymentBlocksCompensation :: "payment option \<Rightarrow> bool" where
  "paymentBlocksCompensation py0 \<longleftrightarrow>
     (case py0 of
        None \<Rightarrow> False
      | Some py \<Rightarrow> p_status py = PayCompleted \<or> (p_status py = PayPending \<and> trim_space (p_ProviderRef py) \<noteq> []))"

definition paymentFromContext :: "'w checkout_context \<Rightarrow> payment option" where
  "paymentFromContext c = (case cx_Meta c ''payment'' of Some (CPayment py) \<Rightarrow> Some py | _ \<Rightarrow> None)"

definition skipUnpaidCompensation :: "('w, 'd) workflow \<Rightarrow> string \<Rightarrow> (bool, 'w checkout_context \<times> 'd) act" where
  "skipUnpaidCompensation w orderID =
     bindW (reads (\<lambda>s. paymentBlocksCompensation (paymentFromContext (fst s)))) (\<lambda>blocks.
     if blocks then ret True
     else case wf_payments w of
       None \<Rightarrow> ret False
     | Some lookup \<Rightarrow>
         bindW (wrapW (Wrap ''checkout: compensate lookup payment'') (on_snd (lookup orderID))) (\<lambda>py.
         ret (paymentBlocksCompensation py)))"

definition refundCompensatedCredit :: "('w, 'd) workflow \<Rightarrow> order \<Rightarrow> (unit, 'w checkout_context \<times> 'd) act" where
  "refundCompensatedCredit w o1 =
     (if wf_credits w = None \<or> m_amount (o_StoreCreditApplied o1) \<le>s 0 then ret ()
      else bindW (reads (\<lambda>s. trim_space (cx_CustomerID (fst s)))) (\<lambda>fromContext.
        let customerID = (if fromContext = [] then trim_space (o_CustomerID o1) else fromContext) in
        if customerID = [] then raise (Err ''checkout: compensate store credit: customer id is empty'')
        else on_snd (issueFailedPaymentCredit (wf_credits w) customerID (o_ID o1) (o_StoreCreditApplied o1))))"

text \<open>The error of a call as a value, and the error a call returns.\<close>

definition err_of :: "(unit, 's) act \<Rightarrow> (gerror option, 's) act" where
  "err_of m = tryW m (\<lambda>_. ret None) (\<lambda>e. ret (Some e))"

definition raise_opt :: "gerror option \<Rightarrow> (unit, 's) act" where
  "raise_opt r = (case r of None \<Rightarrow> ret () | Some e \<Rightarrow> raise e)"

definition created_order_id :: "'w checkout_context \<Rightarrow> string" where
  "created_order_id c = (case cx_Meta c ''created_order_id'' of Some (CStr s) \<Rightarrow> trim_space s | _ \<Rightarrow> [])"

definition compensateUnpaidOrder :: "('w, 'd) workflow \<Rightarrow> (unit, 'w checkout_context \<times> 'd) act" where
  "compensateUnpaidOrder w =
     (case wf_orders w of
        None \<Rightarrow> ret ()
      | Some orders \<Rightarrow>
          bindW (reads (\<lambda>s. created_order_id (fst s))) (\<lambda>orderID.
          if orderID = [] then ret ()
          else bindW (skipUnpaidCompensation w orderID) (\<lambda>skip.
          if skip then ret ()
          else bindW (wrapW (Wrap ''checkout: compensate persist order'') (on_snd (uo_fail orders orderID))) (\<lambda>changed.
          bindW (if changed
                 then attempt (on_snd (Publish_Failed (Some (wf_bus w)) ''checkout.workflow'' orderID
                        (order_status_string OrderStatusPending) (order_status_string OrderStatusFailed)))
                 else ret ()) (\<lambda>_.
          bindW (wrapW (Wrap ''checkout: compensate lookup order'') (on_snd (uo_find orders orderID))) (\<lambda>o0.
          case o0 of
            None \<Rightarrow> ret ()
          | Some o1 \<Rightarrow>
              bindW (modifies (\<lambda>(c, d). (c\<lparr>cx_Order := Some o1\<rparr>, d))) (\<lambda>_.
              if o_status o1 \<noteq> OrderStatusFailed then ret ()
              else bindW (reads (\<lambda>s. cx_CartID (fst s))) (\<lambda>cartID.
              bindW (publishEvent w (UnpaidFailed cartID orderID)) (\<lambda>_.
              bindW (err_of (refundCompensatedCredit w o1)) (\<lambda>creditErr.
              bindW (case wf_revoke w of
                       None \<Rightarrow> ret None
                     | Some revoke \<Rightarrow> err_of (on_snd (revoke orderID))) (\<lambda>revokeErr.
              case (creditErr, revokeErr) of
                (Some ce, Some re) \<Rightarrow>
                  raise (Around ''checkout: compensate store credit: '' ce ('' (revoke: '' @ err_text re @ '')''))
              | (Some ce, None) \<Rightarrow> raise (Wrap ''checkout: compensate store credit'' ce)
              | (None, _) \<Rightarrow> raise_opt revokeErr)))))))))))"

section \<open>Running the steps\<close>

definition trace_add :: "trace_entry \<Rightarrow> (unit, 'w checkout_context \<times> 'd) act" where
  "trace_add t = modifies (\<lambda>(c, d). (c\<lparr>cx_Trace := cx_Trace c @ [t]\<rparr>, d))"

definition step_failed :: "('w, 'd) workflow \<Rightarrow> string \<Rightarrow> gerror \<Rightarrow> (unit, 'w checkout_context \<times> 'd) act" where
  "step_failed w name e =
     bindW (trace_add \<lparr>te_Step = name, te_Status = ''error'', te_Err = err_text e\<rparr>) (\<lambda>_.
     if isContextError e then raise e
     else bindW (reads (\<lambda>s. cx_CartID (fst s))) (\<lambda>cartID.
       let failed = ''checkout: step '' @ go_quote name @ '' failed: '' in
       tryW (publishEvent w (CheckoutFailed cartID name (err_text e)))
         (\<lambda>_. raise (Around failed e []))
         (\<lambda>pubErr. raise (Around failed e ('' (publish: '' @ err_text pubErr @ '')'')))))"

fun exec_steps ::
    "('w, 'd) workflow \<Rightarrow> req_ctx \<Rightarrow> ('w, 'd) checkout_step list \<Rightarrow> (unit, 'w checkout_context \<times> 'd) act" where
  "exec_steps w ctx [] = ret ()"
| "exec_steps w ctx (st # sts) =
     bindW (reads (\<lambda>s. wf_done w (snd s))) (\<lambda>ended.
     bindW (raise_opt ended) (\<lambda>_.
     bindW (reads (\<lambda>s. cx_CartID (fst s))) (\<lambda>cartID.
     bindW (publishEvent w (StepStarted cartID (sp_name st))) (\<lambda>_.
     tryW (sp_run st ctx)
       (\<lambda>_. bindW (trace_add \<lparr>te_Step = sp_name st, te_Status = ''ok'', te_Err = []\<rparr>) (\<lambda>_.
            bindW (reads (\<lambda>s. cx_CartID (fst s))) (\<lambda>cartID'.
            bindW (publishEvent w (StepCompleted cartID' (sp_name st))) (\<lambda>_.
            exec_steps w ctx sts))))
       (\<lambda>e. step_failed w (sp_name st) e)))))"

datatype checkout_metric = OutcomeSuccess | OutcomeFailed | OutcomeSucceededEventFailed

text \<open>The loop and the final event; the value tells whether that event could not be published.\<close>

definition workflow_body :: "('w, 'd) workflow \<Rightarrow> req_ctx \<Rightarrow> (bool, 'w checkout_context \<times> 'd) act" where
  "workflow_body w ctx =
     bindW (exec_steps w ctx (wf_steps w)) (\<lambda>_.
     bindW (reads (\<lambda>s. CheckoutCompleted (cx_CartID (fst s)) (case cx_Order (fst s) of None \<Rightarrow> [] | Some o1 \<Rightarrow> o_ID o1))) (\<lambda>evt.
     tryW (publishEvent w evt) (\<lambda>_. ret False) (\<lambda>_. ret True)))"

text \<open>
  The deferred functions run last to first: the metric is recorded, then an error (not a panic) is
  compensated.
\<close>

definition Execute ::
    "('w, 'd) workflow \<Rightarrow> req_ctx \<Rightarrow> 'w checkout_context \<times> 'd \<Rightarrow>
     (unit outcome \<times> checkout_metric) \<times> 'w checkout_context \<times> 'd" where
  "Execute w ctx s =
     (case workflow_body w ctx s of
        (Ok eventFailed, s') \<Rightarrow> ((Ok (), if eventFailed then OutcomeSucceededEventFailed else OutcomeSuccess), s')
      | (Panics p, s') \<Rightarrow> ((Panics p, OutcomeFailed), s')
      | (Fail e, s') \<Rightarrow>
          (case compensateUnpaidOrder w s' of
             (Ok _, s'') \<Rightarrow> ((Fail e, OutcomeFailed), s'')
           | (Fail ce, s'') \<Rightarrow> ((Fail (Around [] e ('' (compensate: '' @ err_text ce @ '')'')), OutcomeFailed), s'')
           | (Panics p, s'') \<Rightarrow> ((Panics p, OutcomeFailed), s'')))"

text \<open>With a nil context only a request that has ended before the first step is an error.\<close>

definition Execute_nil :: "('w, 'd) workflow \<Rightarrow> 'd \<Rightarrow> unit outcome" where
  "Execute_nil w d =
     (case (wf_steps w, wf_done w d) of
        (_ # _, Some e) \<Rightarrow> Fail e
      | _ \<Rightarrow> Panics ''nil pointer dereference'')"

section \<open>The subscriber to failed payments\<close>

definition compensateFailedPayment ::
    "'d bus \<Rightarrow> 'd unpaid_orders option \<Rightarrow> 'd credit_issuer option \<Rightarrow> (string \<Rightarrow> (unit, 'd) act) option \<Rightarrow> string \<Rightarrow>
     (unit, 'd) act" where
  "compensateFailedPayment bus orders0 credits revoke0 orderID =
     bindW
       (case orders0 of
          None \<Rightarrow> ret (None, None)
        | Some orders \<Rightarrow>
            tryW (bindW (wrapW (Wrap ''checkout: payment.failed persist order'') (uo_fail orders orderID)) (\<lambda>changed.
                  bindW (wrapW (Wrap ''checkout: payment.failed lookup order'') (uo_find orders orderID)) (\<lambda>o0.
                  bindW (if changed
                         then attempt (Publish_Failed (Some bus) ''checkout.payment_failed'' orderID
                                (order_status_string OrderStatusPending) (order_status_string OrderStatusFailed))
                         else ret ()) (\<lambda>_. ret o0))))
              (\<lambda>o0. case o0 of
                 Some o1 \<Rightarrow>
                   if o_status o1 = OrderStatusFailed
                   then bindW (err_of (issueFailedPaymentCredit credits (trim_space (o_CustomerID o1)) (o_ID o1)
                          (o_StoreCreditApplied o1))) (\<lambda>ce. ret (None, ce))
                   else ret (None, None)
               | None \<Rightarrow> ret (None, None))
              (\<lambda>e. ret (Some e, None))) (\<lambda>(failErr, creditErr).
     bindW (case revoke0 of None \<Rightarrow> ret None | Some revoke \<Rightarrow> err_of (revoke orderID)) (\<lambda>revokeErr.
     case (failErr, creditErr, revokeErr) of
       (Some fe, Some ce, Some re) \<Rightarrow>
         raise (Around [] fe ('' (store credit: '' @ err_text ce @ ''; revoke: '' @ err_text re @ '')''))
     | (Some fe, Some ce, None) \<Rightarrow> raise (Around [] fe ('' (store credit: '' @ err_text ce @ '')''))
     | (Some fe, None, Some re) \<Rightarrow> raise (Around [] fe ('' (revoke: '' @ err_text re @ '')''))
     | (None, Some ce, Some re) \<Rightarrow>
         raise (Around ''checkout: payment.failed store credit: '' ce ('' (revoke: '' @ err_text re @ '')''))
     | (Some fe, None, None) \<Rightarrow> raise fe
     | (None, Some ce, None) \<Rightarrow> raise (Wrap ''checkout: payment.failed store credit'' ce)
     | (None, None, _) \<Rightarrow> raise_opt revokeErr))"

text \<open>The handler that \<open>RegisterPaymentFailedCompensation\<close> adds to the bus for its two events.\<close>

definition payment_failed_handler ::
    "'d bus \<Rightarrow> 'd unpaid_orders option \<Rightarrow> 'd credit_issuer option \<Rightarrow> (string \<Rightarrow> (unit, 'd) act) option \<Rightarrow> 'd bus" where
  "payment_failed_handler bus orders credits revoke evt =
     (let handle = (\<lambda>orderID0. let orderID = trim_space orderID0 in
            if orderID = [] then ret () else compensateFailedPayment bus orders credits revoke orderID) in
      case evt of
        PaymentFailed orderID \<Rightarrow> handle orderID
      | UnpaidFailed _ orderID \<Rightarrow> handle orderID
      | _ \<Rightarrow> ret ())"

end
