(* ===== verification/Compensation.thy ===== *)
theory Compensation
  imports Checkout
begin

text \<open>
  The store credit of an order whose checkout failed is given back once. The workflow compensates
  and publishes \<open>checkout.unpaid_failed\<close>; the subscriber of that event (and of
  \<open>payment.failed\<close>) gives the credit back too, under the same idempotency key. The locale
  \<open>unpaid_store\<close> is the contract that both rely on; it is interpreted on the order
  repository and the store credit service.
\<close>

section \<open>The contract\<close>

text \<open>
  What is known of a world: an invariant, and which of three facts hold for sure. The order's credit
  has been given back, the order is pending or failed, the order is failed.
\<close>

definition stands :: "('d \<Rightarrow> bool) \<Rightarrow> ('d \<Rightarrow> bool) \<Rightarrow> ('d \<Rightarrow> bool) \<Rightarrow> ('d \<Rightarrow> bool) \<Rightarrow> bool \<Rightarrow> bool \<Rightarrow> bool \<Rightarrow> 'd \<Rightarrow> bool" where
  "stands good settled unpaid failed b u f d \<longleftrightarrow> good d \<and> (b \<longrightarrow> settled d) \<and> (u \<longrightarrow> unpaid d) \<and> (f \<longrightarrow> failed d)"

text \<open>The events about one order's payment, and those that are not about payments.\<close>

fun own_event :: "string \<Rightarrow> checkout_event \<Rightarrow> bool" where
  "own_event oid (PaymentFailed x) \<longleftrightarrow> x = oid"
| "own_event oid (UnpaidFailed cart x) \<longleftrightarrow> x = oid"
| "own_event oid _ \<longleftrightarrow> True"

locale unpaid_store =
  fixes orders :: "'d unpaid_orders"
    and restore :: "'d credit_issuer"
    and oid cust :: string
    and amt :: money
    and good settled unpaid failed :: "'d \<Rightarrow> bool"
  assumes given: "good d \<Longrightarrow> oid \<noteq> [] \<and> cust \<noteq> [] \<and> trim_space cust = cust \<and> 0 < cents amt"
    and fail_law: "triple (stands good settled unpaid failed b u f) (uo_fail orders oid)
      (\<lambda>_. stands good settled unpaid failed b u (u \<or> f)) (stands good settled unpaid failed b u f)"
    and find_law: "triple (stands good settled unpaid failed b u f) (uo_find orders oid)
      (\<lambda>r d. stands good settled unpaid failed b u f d \<and>
        (\<exists>o1. r = Some o1 \<and> o_ID o1 = oid \<and> trim_space (o_CustomerID o1) = cust \<and> o_StoreCreditApplied o1 = amt \<and>
          (o_status o1 = OrderStatusFailed \<longleftrightarrow> failed d)))
      (stands good settled unpaid failed b u f)"
    and restore_law: "triple (stands good settled unpaid failed b u True)
      (restore cust amt (paymentFailedCreditNote oid) (paymentFailedCreditKey oid))
      (\<lambda>_. stands good settled unpaid failed True u True) (stands good settled unpaid failed b u True)"
begin

abbreviation known :: "bool \<Rightarrow> bool \<Rightarrow> bool \<Rightarrow> 'd \<Rightarrow> bool" where
  "known \<equiv> stands good settled unpaid failed"

text \<open>An action of the surroundings: it leaves the order, and what was given back, alone.\<close>

definition harmless :: "('a, 'd) act \<Rightarrow> bool" where
  "harmless m \<longleftrightarrow> (\<forall>b u f. keeps (known b u f) m)"

lemma harmless_ret [simp]: "harmless (ret x)"
  by (simp add: harmless_def triple_ret)

lemma harmlessD: "harmless m \<Longrightarrow> keeps (known b u f) m"
  unfolding harmless_def by blast

lemma Publish_Failed_harmless:
  "(\<And>evt. own_event oid evt \<Longrightarrow> harmless (bus evt)) \<Longrightarrow> harmless (Publish_Failed (Some bus) source x old new)"
  by (auto simp: harmless_def Publish_Failed_def Let_def intro: triple_raise)

lemma known_given: "known b u f d \<Longrightarrow> oid \<noteq> [] \<and> cust \<noteq> [] \<and> trim_space cust = cust \<and> 0 < cents amt"
  unfolding stands_def using given by blast

lemma issue_settles:
  "triple (known b u True) (issueFailedPaymentCredit (Some restore) cust oid amt) (\<lambda>_. known True u True) (known b u True)"
proof (rule triple_fact [OF known_given])
  assume "oid \<noteq> [] \<and> cust \<noteq> [] \<and> trim_space cust = cust \<and> 0 < cents amt"
  then have "issueFailedPaymentCredit (Some restore) cust oid amt = restore cust amt (paymentFailedCreditNote oid) (paymentFailedCreditKey oid)"
    by (simp add: issueFailedPaymentCredit_def i64)
  then show ?thesis using restore_law by simp
qed

lemma known_mono: "known b u f d \<Longrightarrow> (b' \<Longrightarrow> b) \<Longrightarrow> (u' \<Longrightarrow> u) \<Longrightarrow> (f' \<Longrightarrow> f) \<Longrightarrow> known b' u' f' d"
  by (auto simp: stands_def)

lemma known_learn: "known b u f d \<Longrightarrow> failed d \<Longrightarrow> known b u True d"
  by (simp add: stands_def)

definition read_failed :: "order option \<Rightarrow> bool" where
  "read_failed r \<longleftrightarrow> (\<exists>o1. r = Some o1 \<and> o_status o1 = OrderStatusFailed)"

definition read_ok :: "order option \<Rightarrow> bool" where
  "read_ok r \<longleftrightarrow> (\<exists>o1. r = Some o1 \<and> o_ID o1 = oid \<and> trim_space (o_CustomerID o1) = cust \<and> o_StoreCreditApplied o1 = amt)"

lemma find_reads:
  "triple (known b u f) (uo_find orders oid)
     (\<lambda>r d. (read_ok r \<and> (f \<longrightarrow> read_failed r)) \<and> known b u (read_failed r) d) (known b u f)"
  by (rule triple_weaken [OF find_law [of b u f]]) (auto simp: read_ok_def read_failed_def stands_def)

text \<open>The subscriber keeps what is known; when it succeeds on an unpaid order, the credit is back.\<close>

lemma fail_and_find:
  assumes bus: "\<And>evt. own_event oid evt \<Longrightarrow> harmless (bus evt)"
  shows "triple (known b u f)
    (bindW (wrapW w1 (uo_fail orders oid)) (\<lambda>changed.
     bindW (wrapW w2 (uo_find orders oid)) (\<lambda>o0.
     bindW (if changed then attempt (Publish_Failed (Some bus) src oid old new) else ret ()) (\<lambda>_. ret o0))))
    (\<lambda>r d. (read_ok r \<and> (u \<or> f \<longrightarrow> read_failed r)) \<and> known b u (read_failed r) d) (known b u f)"
proof (intro triple_bind triple_wrapW)
  show "triple (known b u f) (uo_fail orders oid) (\<lambda>_. known b u (u \<or> f)) (known b u f)"
    by (rule fail_law)
  show "triple (known b u (u \<or> f)) (uo_find orders oid)
     (\<lambda>r d. (read_ok r \<and> (u \<or> f \<longrightarrow> read_failed r)) \<and> known b u (read_failed r) d) (known b u f)"
    by (rule triple_weaken [OF find_reads [of b u "u \<or> f"]]) (auto elim: known_mono)
  fix changed r
  show "triple (\<lambda>d. (read_ok r \<and> (u \<or> f \<longrightarrow> read_failed r)) \<and> known b u (read_failed r) d)
      (if changed then attempt (Publish_Failed (Some bus) src oid old new) else ret ())
      (\<lambda>_ d. (read_ok r \<and> (u \<or> f \<longrightarrow> read_failed r)) \<and> known b u (read_failed r) d) (known b u f)"
  proof (rule triple_pure, goal_cases)
    case 1
    have "keeps (known b u (read_failed r)) (if changed then attempt (Publish_Failed (Some bus) src oid old new) else ret ())"
      by (intro triple_if triple_attempt harmlessD Publish_Failed_harmless bus triple_ret)
    then show ?case by (rule triple_weaken) (use 1 in \<open>auto elim: known_mono\<close>)
  qed
next
  show "triple (\<lambda>d. (read_ok r \<and> (u \<or> f \<longrightarrow> read_failed r)) \<and> known b u (read_failed r) d) (ret r)
      (\<lambda>r d. (read_ok r \<and> (u \<or> f \<longrightarrow> read_failed r)) \<and> known b u (read_failed r) d) (known b u f)" for r
    by (rule triple_ret)
qed

lemma err_of_keeps:
  "triple P m (\<lambda>_. Q) R \<Longrightarrow> triple P (err_of m) (\<lambda>r s. if r = None then Q s else R s) R"
  unfolding err_of_def by (rule triple_tryW) (auto intro: triple_ret)

lemma raise_opt_keeps: "(\<And>s. r = None \<Longrightarrow> P s \<Longrightarrow> Q () s) \<Longrightarrow> (\<And>s. P s \<Longrightarrow> R s) \<Longrightarrow> triple P (raise_opt r) Q R"
  by (cases r) (auto simp: raise_opt_def intro: triple_ret triple_raise)

lemma revoke_keeps:
  assumes "\<And>rv. revoke = Some rv \<Longrightarrow> harmless (rv oid)"
  shows "triple (known b u f) (case revoke of None \<Rightarrow> ret None | Some rv \<Rightarrow> err_of (rv oid)) (\<lambda>_. known b u f) (known b u f)"
proof (cases revoke)
  case (Some rv)
  have "triple (known b u f) (err_of (rv oid)) (\<lambda>r s. if r = None then known b u f s else known b u f s)
      (known b u f)"
    by (intro err_of_keeps harmlessD assms Some)
  then show ?thesis using Some by simp
qed (simp add: triple_ret)

lemma subscriber_settles:
  assumes bus: "\<And>evt. own_event oid evt \<Longrightarrow> harmless (bus evt)" and revoke: "\<And>rv. revoke = Some rv \<Longrightarrow> harmless (rv oid)"
  shows "triple (known b u f) (compensateFailedPayment bus (Some orders) (Some restore) revoke oid)
    (\<lambda>_. known (b \<or> u \<or> f) u (u \<or> f)) (known b u f)"
proof -
  define S where "S p = (case p of (fe, ce) \<Rightarrow>
    if fe = (None :: gerror option) \<and> ce = (None :: gerror option) then known (b \<or> u \<or> f) u (u \<or> f) else known b u f)" for p
  have S_known: "S p d \<Longrightarrow> known b u f d" for p d
    by (auto simp: S_def split: if_splits prod.splits elim: known_mono)
  have settle: "triple (\<lambda>d. (read_ok r \<and> (u \<or> f \<longrightarrow> read_failed r)) \<and> known b u (read_failed r) d)
      (case r of
         Some o1 \<Rightarrow>
           if o_status o1 = OrderStatusFailed
           then bindW (err_of (issueFailedPaymentCredit (Some restore) (trim_space (o_CustomerID o1)) (o_ID o1) (o_StoreCreditApplied o1)))
             (\<lambda>ce. ret (None, ce))
           else ret (None, None)
       | None \<Rightarrow> ret (None, None)) S (known b u f)" for r
  proof (rule triple_pure, goal_cases)
    case 1
    then obtain o1 where r: "r = Some o1" "o_ID o1 = oid" "trim_space (o_CustomerID o1) = cust" "o_StoreCreditApplied o1 = amt"
      by (auto simp: read_ok_def)
    show ?case
    proof (cases "o_status o1 = OrderStatusFailed")
      case True
      have "triple (known b u True) (err_of (issueFailedPaymentCredit (Some restore) cust oid amt))
          (\<lambda>r s. if r = None then known True u True s else known b u True s) (known b u f)"
        by (rule triple_weaken [OF err_of_keeps [OF issue_settles]]) (auto elim: known_mono split: if_splits)
      then have "triple (known b u True) (bindW (err_of (issueFailedPaymentCredit (Some restore) cust oid amt)) (\<lambda>ce. ret (None, ce)))
          S (known b u f)"
        by (rule triple_bind) (auto simp: S_def intro!: triple_ret elim: known_mono split: if_splits)
      then show ?thesis using True r by (simp add: read_failed_def)
    next
      case False
      then have "\<not> u \<and> \<not> f" using 1 r by (simp add: read_failed_def)
      then show ?thesis using False r by (auto simp: S_def read_failed_def intro!: triple_ret)
    qed
  qed
  show ?thesis
    unfolding compensateFailedPayment_def option.case
  proof (rule triple_bind)
    show "triple (known b u f)
      (tryW (bindW (wrapW (Wrap ''checkout: payment.failed persist order'') (uo_fail orders oid)) (\<lambda>changed.
             bindW (wrapW (Wrap ''checkout: payment.failed lookup order'') (uo_find orders oid)) (\<lambda>o0.
             bindW (if changed
                    then attempt (Publish_Failed (Some bus) ''checkout.payment_failed'' oid
                           (order_status_string OrderStatusPending) (order_status_string OrderStatusFailed))
                    else ret ()) (\<lambda>_. ret o0))))
         (\<lambda>o0. case o0 of
            Some o1 \<Rightarrow>
              if o_status o1 = OrderStatusFailed
              then bindW (err_of (issueFailedPaymentCredit (Some restore) (trim_space (o_CustomerID o1)) (o_ID o1)
                     (o_StoreCreditApplied o1))) (\<lambda>ce. ret (None, ce))
              else ret (None, None)
          | None \<Rightarrow> ret (None, None))
         (\<lambda>e. ret (Some e, None))) S (known b u f)"
      by (rule triple_tryW [OF fail_and_find [OF bus] settle]) (auto simp: S_def intro: triple_ret)
  next
    fix p :: "gerror option \<times> gerror option"
    obtain fe ce where p: "p = (fe, ce)" by fastforce
    have rk: "keeps (known b u f) (case revoke of None \<Rightarrow> ret None | Some rv \<Rightarrow> err_of (rv oid))" for b u f
      by (rule revoke_keeps) (rule revoke)
    have rev: "triple (S p) (case revoke of None \<Rightarrow> ret None | Some rv \<Rightarrow> err_of (rv oid)) (\<lambda>_. S p) (known b u f)"
      unfolding p S_def by (auto intro!: triple_weaken [OF rk] elim: known_mono)
    show "triple (S p)
       (case p of (failErr, creditErr) \<Rightarrow>
         bindW (case revoke of None \<Rightarrow> ret None | Some revoke \<Rightarrow> err_of (revoke oid)) (\<lambda>revokeErr.
         case (failErr, creditErr, revokeErr) of
           (Some fe, Some ce, Some re) \<Rightarrow>
             raise (Around [] fe ('' (store credit: '' @ err_text ce @ ''; revoke: '' @ err_text re @ '')''))
         | (Some fe, Some ce, None) \<Rightarrow> raise (Around [] fe ('' (store credit: '' @ err_text ce @ '')''))
         | (Some fe, None, Some re) \<Rightarrow> raise (Around [] fe ('' (revoke: '' @ err_text re @ '')''))
         | (None, Some ce, Some re) \<Rightarrow>
             raise (Around ''checkout: payment.failed store credit: '' ce ('' (revoke: '' @ err_text re @ '')''))
         | (Some fe, None, None) \<Rightarrow> raise fe
         | (None, Some ce, None) \<Rightarrow> raise (Wrap ''checkout: payment.failed store credit'' ce)
         | (None, None, _) \<Rightarrow> raise_opt revokeErr)) (\<lambda>_. known (b \<or> u \<or> f) u (u \<or> f)) (known b u f)"
      unfolding p prod.case
      by (rule triple_bind [OF rev [unfolded p]])
        (auto simp: S_def split: option.splits intro!: triple_raise raise_opt_keeps elim: known_mono)
  qed
qed

text \<open>The context of a checkout that created the order; with \<open>nb\<close> no payment blocks.\<close>

definition fits :: "bool \<Rightarrow> 'w checkout_context \<Rightarrow> bool" where
  "fits nb c \<longleftrightarrow> created_order_id c = oid \<and> trim_space (cx_CustomerID c) \<in> {[], cust} \<and>
     (nb \<longrightarrow> \<not> paymentBlocksCompensation (paymentFromContext c))"

abbreviation at_hand :: "bool \<Rightarrow> bool \<Rightarrow> bool \<Rightarrow> bool \<Rightarrow> 'w checkout_context \<times> 'd \<Rightarrow> bool" where
  "at_hand nb b u f s \<equiv> fits nb (fst s) \<and> known b u f (snd s)"

definition honest :: "bool \<Rightarrow> ('w, 'd) workflow \<Rightarrow> bool" where
  "honest nb w \<longleftrightarrow> wf_orders w = Some orders \<and> wf_credits w = Some restore \<and> (\<forall>evt. own_event oid evt \<longrightarrow> harmless (wf_bus w evt)) \<and>
     (\<forall>rv. wf_revoke w = Some rv \<longrightarrow> harmless (rv oid)) \<and>
     (\<forall>pay b u f. wf_payments w = Some pay \<longrightarrow>
        triple (known b u f) (pay oid) (\<lambda>py d. (nb \<longrightarrow> \<not> paymentBlocksCompensation py) \<and> known b u f d) (known b u f))"

lemma skip_only_blocked:
  assumes "honest nb w"
  shows "triple (at_hand nb b u f) (skipUnpaidCompensation w oid) (\<lambda>skip s. (nb \<longrightarrow> \<not> skip) \<and> at_hand nb b u f s) (at_hand nb b u f)"
  unfolding skipUnpaidCompensation_def
proof (rule triple_bind [where Q = "\<lambda>blocks s. (nb \<longrightarrow> \<not> blocks) \<and> at_hand nb b u f s"])
  show "triple (at_hand nb b u f) (reads (\<lambda>s. paymentBlocksCompensation (paymentFromContext (fst s))))
      (\<lambda>blocks s. (nb \<longrightarrow> \<not> blocks) \<and> at_hand nb b u f s) (at_hand nb b u f)"
    by (rule triple_reads) (auto simp: fits_def)
  fix blocks
  have pay: "triple (at_hand nb b u f) (bindW (wrapW wr (on_snd (lookup oid))) (\<lambda>py. ret (paymentBlocksCompensation py)))
      (\<lambda>skip s. (nb \<longrightarrow> \<not> skip) \<and> at_hand nb b u f s) (at_hand nb b u f)" if "wf_payments w = Some lookup" for lookup wr
  proof (rule triple_bind [OF triple_wrapW [OF triple_world]])
    show "triple (known b u f) (lookup oid) (\<lambda>py d. (nb \<longrightarrow> \<not> paymentBlocksCompensation py) \<and> known b u f d) (known b u f)"
      using assms that by (simp add: honest_def)
  qed (auto intro: triple_ret)
  show "triple (\<lambda>s. (nb \<longrightarrow> \<not> blocks) \<and> at_hand nb b u f s)
      (if blocks then ret True
       else case wf_payments w of None \<Rightarrow> ret False
            | Some lookup \<Rightarrow> bindW (wrapW (Wrap ''checkout: compensate lookup payment'') (on_snd (lookup oid)))
                (\<lambda>py. ret (paymentBlocksCompensation py)))
      (\<lambda>skip s. (nb \<longrightarrow> \<not> skip) \<and> at_hand nb b u f s) (at_hand nb b u f)"
    by (rule triple_pure) (auto split: option.split intro!: triple_ret pay)
qed

lemma refund_settles:
  assumes w: "honest nb w" and o1: "o_ID o1 = oid" "trim_space (o_CustomerID o1) = cust" "o_StoreCreditApplied o1 = amt"
  shows "triple (at_hand nb b u True) (refundCompensatedCredit w o1) (\<lambda>_. at_hand nb True u True) (at_hand nb b u True)"
proof (rule triple_fact)
  show "oid \<noteq> [] \<and> cust \<noteq> [] \<and> trim_space cust = cust \<and> 0 < cents amt" if "at_hand nb b u True s" for s
    using that known_given by blast
  assume given': "oid \<noteq> [] \<and> cust \<noteq> [] \<and> trim_space cust = cust \<and> 0 < cents amt"
  have credits: "wf_credits w = Some restore" using w by (simp add: honest_def)
  have positive: "\<not> m_amount amt \<le>s 0" using given' by (simp add: i64)
  show ?thesis
    unfolding refundCompensatedCredit_def o1 credits
    apply (simp only: option.distinct simp_thms positive if_False)
    apply (rule triple_bind [where Q = "\<lambda>c s. c \<in> {[], cust} \<and> at_hand nb b u True s"])
     apply (rule triple_reads, force simp: fits_def)
    apply (rule triple_pure)
    using given' triple_world [OF issue_settles, where C = "fits nb"]
    apply (auto simp: Let_def)
    done
qed

text \<open>An action on the world alone keeps what is at hand.\<close>

lemma at_hand_world: "triple (known b u f) m (\<lambda>_. known b' u' f') (known b u f) \<Longrightarrow>
  triple (at_hand nb b u f) (on_snd m) (\<lambda>_. at_hand nb b' u' f') (at_hand nb b u f)"
  by (rule triple_world)

lemma publish_at_hand: "honest nb w \<Longrightarrow> own_event oid evt \<Longrightarrow> keeps (at_hand nb b u f) (publishEvent w evt)"
  unfolding publishEvent_def by (intro triple_wrapW at_hand_world harmlessD) (simp add: honest_def)

lemma revoke_at_hand:
  assumes "honest nb w"
  shows "keeps (at_hand nb b u f) (case wf_revoke w of None \<Rightarrow> ret None | Some rv \<Rightarrow> err_of (on_snd (rv oid)))"
proof (cases "wf_revoke w")
  case (Some rv)
  have "triple (at_hand nb b u f) (err_of (on_snd (rv oid)))
      (\<lambda>r s. if r = None then at_hand nb b u f s else at_hand nb b u f s) (at_hand nb b u f)"
    by (intro err_of_keeps at_hand_world harmlessD) (use assms Some in \<open>simp add: honest_def\<close>)
  then show ?thesis using Some by simp
qed (simp add: triple_ret)

lemma closing_settles:
  assumes w: "honest nb w" and o1: "o_ID o1 = oid" "trim_space (o_CustomerID o1) = cust" "o_StoreCreditApplied o1 = amt"
  shows "triple (at_hand nb b u True)
    (bindW (err_of (refundCompensatedCredit w o1)) (\<lambda>creditErr.
     bindW (case wf_revoke w of None \<Rightarrow> ret None | Some revoke \<Rightarrow> err_of (on_snd (revoke oid))) (\<lambda>revokeErr.
     case (creditErr, revokeErr) of
       (Some ce, Some re) \<Rightarrow> raise (Around p ce (q re))
     | (Some ce, None) \<Rightarrow> raise (Wrap r ce)
     | (None, _) \<Rightarrow> raise_opt revokeErr)))
    (\<lambda>_. at_hand nb True u True) (at_hand nb b u True)"
proof (rule triple_bind)
  show "triple (at_hand nb b u True) (err_of (refundCompensatedCredit w o1))
      (\<lambda>r. at_hand nb (r = None \<or> b) u True) (at_hand nb b u True)"
    by (rule triple_weaken [OF err_of_keeps [OF refund_settles [OF w o1]]]) (auto simp: stands_def split: if_splits)
  fix creditErr :: "gerror option"
  have rev: "triple (at_hand nb (creditErr = None \<or> b) u True)
      (case wf_revoke w of None \<Rightarrow> ret None | Some revoke \<Rightarrow> err_of (on_snd (revoke oid)))
      (\<lambda>_. at_hand nb (creditErr = None \<or> b) u True) (at_hand nb b u True)"
    by (rule triple_weaken [OF revoke_at_hand [OF w, where b = "creditErr = None \<or> b"]]) (auto elim: known_mono)
  show "triple (at_hand nb (creditErr = None \<or> b) u True)
    (bindW (case wf_revoke w of None \<Rightarrow> ret None | Some revoke \<Rightarrow> err_of (on_snd (revoke oid))) (\<lambda>revokeErr.
     case (creditErr, revokeErr) of
       (Some ce, Some re) \<Rightarrow> raise (Around p ce (q re))
     | (Some ce, None) \<Rightarrow> raise (Wrap r ce)
     | (None, _) \<Rightarrow> raise_opt revokeErr)) (\<lambda>_. at_hand nb True u True) (at_hand nb b u True)"
    by (rule triple_bind [OF rev]) (auto split: option.split intro!: triple_raise raise_opt_keeps elim: known_mono)
qed

text \<open>What the compensation does with the order it reads.\<close>

lemma order_found_settles:
  assumes w: "honest nb w"
  shows "triple (\<lambda>s. (read_ok r \<and> (u \<or> f \<longrightarrow> read_failed r)) \<and> at_hand nb b u (read_failed r) s)
      (case r of
         None \<Rightarrow> ret ()
       | Some o1 \<Rightarrow>
           bindW (modifies (\<lambda>(c, d). (c\<lparr>cx_Order := Some o1\<rparr>, d))) (\<lambda>_.
           if o_status o1 \<noteq> OrderStatusFailed then ret ()
           else bindW (reads (\<lambda>s. cx_CartID (fst s))) (\<lambda>cartID.
           bindW (publishEvent w (UnpaidFailed cartID oid)) (\<lambda>_.
           bindW (err_of (refundCompensatedCredit w o1)) (\<lambda>creditErr.
           bindW (case wf_revoke w of None \<Rightarrow> ret None | Some revoke \<Rightarrow> err_of (on_snd (revoke oid))) (\<lambda>revokeErr.
           case (creditErr, revokeErr) of
             (Some ce, Some re) \<Rightarrow> raise (Around p1 ce (q re))
           | (Some ce, None) \<Rightarrow> raise (Wrap p2 ce)
           | (None, _) \<Rightarrow> raise_opt revokeErr)))))) 
    (\<lambda>_ s. at_hand nb b u f s \<and> (nb \<longrightarrow> known (b \<or> u \<or> f) u (u \<or> f) (snd s))) (at_hand nb b u f)"
    (is "triple _ _ ?Q ?R")
proof (rule triple_pure, goal_cases)
  case 1
  then obtain o1 where r: "r = Some o1" "o_ID o1 = oid" "trim_space (o_CustomerID o1) = cust" "o_StoreCreditApplied o1 = amt"
    by (auto simp: read_ok_def)
  have set_order: "triple (at_hand nb b u g) (modifies (\<lambda>(c, d). (c\<lparr>cx_Order := Some o1\<rparr>, d))) (\<lambda>_. at_hand nb b u g) ?R"
    for g by (rule triple_modifies) (auto simp: fits_def created_order_id_def paymentFromContext_def)
  show ?case
  proof (cases "o_status o1 = OrderStatusFailed")
    case failed: True
    have closing: "triple (at_hand nb b u True)
        (bindW (reads (\<lambda>s. cx_CartID (fst s))) (\<lambda>cartID.
         bindW (publishEvent w (UnpaidFailed cartID oid)) (\<lambda>_.
         bindW (err_of (refundCompensatedCredit w o1)) (\<lambda>creditErr.
         bindW (case wf_revoke w of None \<Rightarrow> ret None | Some revoke \<Rightarrow> err_of (on_snd (revoke oid))) (\<lambda>revokeErr.
         case (creditErr, revokeErr) of
           (Some ce, Some re) \<Rightarrow> raise (Around p1 ce (q re))
         | (Some ce, None) \<Rightarrow> raise (Wrap p2 ce)
         | (None, _) \<Rightarrow> raise_opt revokeErr))))) ?Q ?R"
    proof (rule triple_bind)
      show "triple (at_hand nb b u True) (reads (\<lambda>s. cx_CartID (fst s))) (\<lambda>_. at_hand nb b u True) ?R"
        by (rule triple_reads) simp
      fix cartID
      have "triple (at_hand nb b u True) (publishEvent w (UnpaidFailed cartID oid)) (\<lambda>_. at_hand nb b u True) ?R"
        by (rule triple_weaken [OF publish_at_hand [OF w, where f = True]]) (auto elim: known_mono)
      then show "triple (at_hand nb b u True)
        (bindW (publishEvent w (UnpaidFailed cartID oid)) (\<lambda>_.
         bindW (err_of (refundCompensatedCredit w o1)) (\<lambda>creditErr.
         bindW (case wf_revoke w of None \<Rightarrow> ret None | Some revoke \<Rightarrow> err_of (on_snd (revoke oid))) (\<lambda>revokeErr.
         case (creditErr, revokeErr) of
           (Some ce, Some re) \<Rightarrow> raise (Around p1 ce (q re))
         | (Some ce, None) \<Rightarrow> raise (Wrap p2 ce)
         | (None, _) \<Rightarrow> raise_opt revokeErr)))) ?Q ?R"
        by (rule triple_bind) (rule triple_weaken [OF closing_settles [OF w r(2-4)]]; auto elim: known_mono)
    qed
    show ?thesis
      using triple_bind [OF set_order [of True] closing] failed r by (simp add: read_failed_def)
  next
    case False
    then have "\<not> u \<and> \<not> f" using 1 r by (simp add: read_failed_def)
    then show ?thesis
      using triple_bind [OF set_order [of False], where T = ?Q and f = "\<lambda>_. ret ()"] False r
      by (force simp: read_failed_def elim: known_mono intro: triple_ret)
  qed
qed

text \<open>
  The workflow's compensation keeps what is known; when no payment blocks it and it reports no error,
  the order is failed and its credit is back if it was unpaid.
\<close>

lemma workflow_settles:
  assumes w: "honest nb w"
  shows "triple (at_hand nb b u f) (compensateUnpaidOrder w)
    (\<lambda>_ s. at_hand nb b u f s \<and> (nb \<longrightarrow> known (b \<or> u \<or> f) u (u \<or> f) (snd s))) (at_hand nb b u f)"
    (is "triple ?P _ ?Q ?R")
proof (rule triple_fact)
  show "oid \<noteq> []" if "?P s" for s using that known_given by blast
  assume oid: "oid \<noteq> []"
  have orders: "wf_orders w = Some orders" using w by (simp add: honest_def)
  have read: "triple (at_hand nb b u (u \<or> f)) (on_snd (uo_find orders oid))
      (\<lambda>r s. (read_ok r \<and> (u \<or> f \<longrightarrow> read_failed r)) \<and> at_hand nb b u (read_failed r) s) ?R"
    by (rule triple_weaken [OF triple_world [OF find_reads [of b u "u \<or> f"], where C = "fits nb"]]) (auto elim: known_mono)
  have publish: "triple (at_hand nb b u (u \<or> f))
      (if changed then attempt (on_snd (Publish_Failed (Some (wf_bus w)) src oid old new)) else ret ())
      (\<lambda>_. at_hand nb b u (u \<or> f)) ?R" for changed src old new
  proof (rule triple_weaken)
    show "keeps (at_hand nb b u (u \<or> f))
      (if changed then attempt (on_snd (Publish_Failed (Some (wf_bus w)) src oid old new)) else ret ())"
      by (intro triple_if triple_attempt triple_ret at_hand_world harmlessD Publish_Failed_harmless)
        (use w in \<open>auto simp: honest_def\<close>)
  qed (auto elim: known_mono)
  have fail: "triple ?P (on_snd (uo_fail orders oid)) (\<lambda>_. at_hand nb b u (u \<or> f)) ?R"
    by (rule at_hand_world [OF fail_law])
  have skipped: "triple (\<lambda>s. (nb \<longrightarrow> \<not> skip) \<and> at_hand nb b u f s) (if skip then ret () else m) ?Q ?R"
    if "triple ?P m ?Q ?R" for skip m
    by (rule triple_pure) (use that in \<open>auto intro: triple_ret\<close>)
  show ?thesis
    unfolding compensateUnpaidOrder_def orders option.case
    apply (rule triple_reads_pure [where v = oid], simp add: fits_def)
    apply (simp only: oid if_False)
    apply (rule triple_bind [OF skip_only_blocked [OF w] skipped])
    apply (rule triple_bind [OF triple_wrapW [OF fail]])
    apply (rule triple_bind [OF publish])
    apply (rule triple_bind [OF triple_wrapW [OF read]])
    apply (rule order_found_settles [OF w])
    done
qed

end

end
