(* ===== verification/CompensationDb.thy ===== *)
theory CompensationDb
  imports Compensation
begin

text \<open>
  The compensation of unpaid orders on the tables: the order repository and the store credit
  service as the stores that the workflow and the subscriber share. The numbers of the statements,
  \<open>sh_tick\<close>, pick what each finds around it: driver errors, the clock, other transactions.
\<close>

section \<open>The world\<close>

record 'x shop_db =
  sh_orders :: order_db
  sh_credit :: credit_db
  sh_tick :: nat
  sh_rest :: 'x

record 'c shop_env =
  se_fault :: "nat \<Rightarrow> db_faults"
  se_now :: "nat \<Rightarrow> gotime"
  se_credit :: "nat \<Rightarrow> credit_env"
  se_id :: "nat \<Rightarrow> string"
  se_customers :: "nat \<Rightarrow> 'c customer_find"

definition ticked :: "'x shop_db \<Rightarrow> 'x shop_db" where
  "ticked d = d\<lparr>sh_tick := Suc (sh_tick d)\<rparr>"

definition shop_orders :: "uuid_parse \<Rightarrow> 'c shop_env \<Rightarrow> 'x shop_db unpaid_orders" where
  "shop_orders pu env =
     \<lparr>uo_find = (\<lambda>oid d. (OrderRepo_FindByID pu (se_fault env (sh_tick d)) (sh_orders d) oid, ticked d)),
      uo_fail = (\<lambda>oid d.
        case FailIfPending pu (se_fault env (sh_tick d)) (se_now env (sh_tick d)) (sh_orders d) oid of
          (r, od) \<Rightarrow> (r, (ticked d)\<lparr>sh_orders := od\<rparr>))\<rparr>"

definition shop_restore :: "'c shop_env \<Rightarrow> 'x shop_db credit_issuer" where
  "shop_restore env customerID amount nt key d =
     (let n = sh_tick d in
      case Service_Restore (se_customers env n) (se_credit env n) (se_now env n) (se_id env n) (sh_credit d)
             customerID amount nt key of
        (r, cd) \<Rightarrow> (r, (ticked d)\<lparr>sh_credit := cd\<rparr>))"

section \<open>What holds of it\<close>

definition credit_key :: "string \<Rightarrow> string" where
  "credit_key oid = trim_space (paymentFailedCreditKey oid)"

definition order_status_at :: "string \<Rightarrow> 'x shop_db \<Rightarrow> string" where
  "order_status_at oid d = (case row_at (sh_orders d) oid of None \<Rightarrow> [] | Some r \<Rightarrow> ow_status r)"

definition restored_row :: "money \<Rightarrow> ledger_row \<Rightarrow> bool" where
  "restored_row amt r \<longleftrightarrow> lr_amount r = m_amount amt \<and> lr_currency r = m_currency amt \<and> lr_kind r = ''issue''"

text \<open>Other transactions may restore this order's credit too, but give nothing else under its key.\<close>

definition own_key :: "string \<Rightarrow> string \<Rightarrow> money \<Rightarrow> credit_env \<Rightarrow> bool" where
  "own_key oid cust amt env \<longleftrightarrow> fair_env env \<and>
     (\<forall>db. \<forall>r \<in> set (keyed_rows (cd_ledger (ce_late env db)) cust (credit_key oid)).
        r \<in> set (cd_ledger db) \<or> restored_row amt r)"

definition order_held :: "string \<Rightarrow> string \<Rightarrow> money \<Rightarrow> order_db \<Rightarrow> bool" where
  "order_held oid cust amt od \<longleftrightarrow> order_db_ok od \<and>
     (\<exists>r. row_at od oid = Some r \<and> trim_space (ow_customer r) = cust \<and> ow_credit r = m_amount amt \<and>
        ow_total_currency r = m_currency amt)"

definition credit_given :: "uuid_parse \<Rightarrow> string \<Rightarrow> string \<Rightarrow> money \<Rightarrow> bool" where
  "credit_given pu oid cust amt \<longleftrightarrow> oid \<noteq> [] \<and> trim_space oid = oid \<and> pu oid = Some oid \<and>
     cust \<noteq> [] \<and> trim_space cust = cust \<and> 0 < cents amt"

definition shop_good :: "uuid_parse \<Rightarrow> 'c shop_env \<Rightarrow> string \<Rightarrow> string \<Rightarrow> money \<Rightarrow> 'x shop_db \<Rightarrow> bool" where
  "shop_good pu env oid cust amt d \<longleftrightarrow> credit_given pu oid cust amt \<and> (\<forall>n. own_key oid cust amt (se_credit env n)) \<and>
     credit_ok (sh_credit d) \<and> order_held oid cust amt (sh_orders d) \<and>
     (\<forall>r \<in> set (keyed_rows (cd_ledger (sh_credit d)) cust (credit_key oid)).
        restored_row amt r \<and> order_status_at oid d = ''failed'')"

definition shop_settled :: "string \<Rightarrow> string \<Rightarrow> 'x shop_db \<Rightarrow> bool" where
  "shop_settled oid cust d \<longleftrightarrow> keyed_rows (cd_ledger (sh_credit d)) cust (credit_key oid) \<noteq> []"

definition shop_unpaid :: "string \<Rightarrow> 'x shop_db \<Rightarrow> bool" where
  "shop_unpaid oid d \<longleftrightarrow> order_status_at oid d \<in> {''pending'', ''failed''}"

definition shop_failed :: "string \<Rightarrow> 'x shop_db \<Rightarrow> bool" where
  "shop_failed oid d \<longleftrightarrow> order_status_at oid d = ''failed''"

abbreviation shop_stands :: "uuid_parse \<Rightarrow> 'c shop_env \<Rightarrow> string \<Rightarrow> string \<Rightarrow> money \<Rightarrow> bool \<Rightarrow> bool \<Rightarrow> bool \<Rightarrow> 'x shop_db \<Rightarrow> bool" where
  "shop_stands pu env oid cust amt \<equiv>
     stands (shop_good pu env oid cust amt) (shop_settled oid cust) (shop_unpaid oid) (shop_failed oid)"

lemma credit_key_nonempty: "credit_key oid \<noteq> []"
proof -
  have "\<forall>p \<in> set space_codes. CHR ''c'' \<notin> set p" by (simp add: space_codes_def)
  then show ?thesis by (simp add: credit_key_def paymentFailedCreditKey_def trim_space_nonempty)
qed

lemma same_tables:
  "sh_orders d' = sh_orders d \<Longrightarrow> sh_credit d' = sh_credit d \<Longrightarrow>
   shop_stands pu env oid cust amt b u f d' = shop_stands pu env oid cust amt b u f d"
  by (simp add: stands_def shop_good_def shop_settled_def shop_unpaid_def shop_failed_def order_status_at_def)

lemma same_tables_ticked [simp]:
  "sh_orders (ticked d) = sh_orders d" "sh_credit (ticked d) = sh_credit d"
  by (simp_all add: ticked_def)

section \<open>The laws\<close>

text \<open>The order's row before and after \<open>FailIfPending\<close>.\<close>

lemma held_after_fail:
  assumes held: "order_held oid cust amt od" and oid: "trim_space oid = oid" "pu oid = Some oid"
    and run: "FailIfPending pu flt now od oid = (Ok x, od')"
  shows "order_held oid cust amt od'"
    "ow_status (the (row_at od' oid)) =
       (if ow_status (the (row_at od oid)) = ''pending'' then ''failed'' else ow_status (the (row_at od oid)))"
proof -
  obtain r where ok: "order_db_ok od" and r: "row_at od oid = Some r" "trim_space (ow_customer r) = cust"
      "ow_credit r = m_amount amt" "ow_total_currency r = m_currency amt"
    using held by (auto simp: order_held_def)
  note eff = FailIfPending_Ok [OF ok run, unfolded oid, OF refl]
  have "ow_id r = oid" using row_at_iff [OF ok] r by blast
  then have "row_at od' oid = Some (if ow_status r = ''pending'' then r\<lparr>ow_status := ''failed'', ow_updated := micro now\<rparr> else r)"
    using eff(2) [of oid] r by simp
  then show "order_held oid cust amt od'"
    "ow_status (the (row_at od' oid)) =
       (if ow_status (the (row_at od oid)) = ''pending'' then ''failed'' else ow_status (the (row_at od oid)))"
    using eff(4) r by (auto simp: order_held_def)
qed

lemma order_status_held: "order_held oid cust amt (sh_orders d) \<Longrightarrow> order_status_at oid d = ow_status (the (row_at (sh_orders d) oid))"
  by (auto simp: order_status_at_def order_held_def)

lemma shop_fail_law:
  "triple (shop_stands pu env oid cust amt b u f) (uo_fail (shop_orders pu env) oid)
     (\<lambda>_. shop_stands pu env oid cust amt b u (u \<or> f)) (shop_stands pu env oid cust amt b u f)"
proof (rule tripleI)
  fix d :: "'x shop_db"
  assume d: "shop_stands pu env oid cust amt b u f d"
  let ?run = "FailIfPending pu (se_fault env (sh_tick d)) (se_now env (sh_tick d)) (sh_orders d) oid"
  obtain r od where run: "?run = (r, od)" by fastforce
  define d' where "d' = (ticked d)\<lparr>sh_orders := od\<rparr>"
  have oid: "trim_space oid = oid" "pu oid = Some oid" and held: "order_held oid cust amt (sh_orders d)"
    using d by (auto simp: stands_def shop_good_def credit_given_def)
  have eq: "uo_fail (shop_orders pu env) oid d = (r, d')"
    using run by (simp add: shop_orders_def d'_def)
  have same: "shop_stands pu env oid cust amt b u f d'" if "od = sh_orders d"
    using d that same_tables [of d' d pu env oid cust amt b u f] by (simp add: d'_def)
  show "ends (\<lambda>_. shop_stands pu env oid cust amt b u (u \<or> f)) (shop_stands pu env oid cust amt b u f)
      (uo_fail (shop_orders pu env) oid d)"
  proof (cases r)
    case (Ok x)
    note eff = held_after_fail [OF held oid run [unfolded Ok]]
    have parts: "sh_orders d' = od" "sh_credit d' = sh_credit d" by (simp_all add: d'_def)
    have "order_status_at oid d' = (if order_status_at oid d = ''pending'' then ''failed'' else order_status_at oid d)"
      using eff(2) order_status_held [OF held] order_status_held [of oid cust amt d'] eff(1) by (simp add: parts)
    then show ?thesis
      unfolding eq Ok using d eff(1)
      by (auto simp: stands_def shop_good_def shop_settled_def shop_unpaid_def shop_failed_def parts)
  next
    case (Fail e)
    then have "od = sh_orders d"
      using run by (auto simp: FailIfPending_def Let_def txn_Fail split: if_splits)
    then show ?thesis unfolding eq Fail using same by simp
  next
    case (Panics p)
    then have "od = sh_orders d"
      using run by (auto simp: FailIfPending_def Let_def txn_Panics split: if_splits)
    then show ?thesis unfolding eq Panics using same by simp
  qed
qed

lemma hydrate_fields:
  "hydrateOrder r = Ok o1 \<Longrightarrow> o_CustomerID o1 = ow_customer r \<and>
     o_StoreCreditApplied o1 = \<lparr>m_amount = ow_credit r, m_currency = ow_total_currency r\<rparr>"
  by (auto simp: hydrateOrder_def Let_def Order_SetStatusFromDB_def NewMoney_def split: if_splits option.splits)

text \<open>What is read of the order.\<close>

lemma find_held:
  assumes held: "order_held oid cust amt od" and pu: "pu oid = Some oid" and read: "OrderRepo_FindByID pu flt od oid = Ok ro"
  shows "\<exists>o1. ro = Some o1 \<and> o_ID o1 = oid \<and> trim_space (o_CustomerID o1) = cust \<and> o_StoreCreditApplied o1 = amt \<and>
    (o_status o1 = OrderStatusFailed \<longleftrightarrow> ow_status (the (row_at od oid)) = ''failed'')"
proof -
  obtain r where ok: "order_db_ok od" and r: "row_at od oid = Some r" "trim_space (ow_customer r) = cust"
      "ow_credit r = m_amount amt" "ow_total_currency r = m_currency amt"
    using held by (auto simp: order_held_def)
  have id: "ow_id r = oid" using row_at_iff [OF ok] r by blast
  obtain h items o1 where h: "hydrateOrder r = Ok h" and o1: "Order_SetItemsFromDB h items = Ok o1" "ro = Some o1"
    using read pu r(1) by (auto simp: OrderRepo_FindByID_def row_at_def split: if_splits)
  have "o_ID o1 = o_ID h" "o_CustomerID o1 = o_CustomerID h" "o_StoreCreditApplied o1 = o_StoreCreditApplied h"
      "o_status o1 = o_status h"
    using o1(1) by (auto simp: Order_SetItemsFromDB_def split: if_splits)
  moreover have "order_status_of_string s = OrderStatusFailed \<longleftrightarrow> s = ''failed''" for s
    by (auto simp: order_status_of_string_def)
  ultimately show ?thesis
    using o1(2) hydrate_fields [OF h] hydrate_id [OF h] hydrate_status [OF h] id r by (cases amt) simp
qed

lemma shop_find_law:
  "triple (shop_stands pu env oid cust amt b u f) (uo_find (shop_orders pu env) oid)
     (\<lambda>r d. shop_stands pu env oid cust amt b u f d \<and>
        (\<exists>o1. r = Some o1 \<and> o_ID o1 = oid \<and> trim_space (o_CustomerID o1) = cust \<and> o_StoreCreditApplied o1 = amt \<and>
          (o_status o1 = OrderStatusFailed \<longleftrightarrow> shop_failed oid d)))
     (shop_stands pu env oid cust amt b u f)" (is "triple _ _ ?Q ?R")
proof (rule tripleI)
  fix d :: "'a shop_db"
  assume d: "shop_stands pu env oid cust amt b u f d"
  let ?read = "OrderRepo_FindByID pu (se_fault env (sh_tick d)) (sh_orders d) oid"
  have eq: "uo_find (shop_orders pu env) oid d = (?read, ticked d)" by (simp add: shop_orders_def)
  have same: "shop_stands pu env oid cust amt b u f (ticked d)"
    using d same_tables [of "ticked d" d pu env oid cust amt b u f] by simp
  have pu: "pu oid = Some oid" and held: "order_held oid cust amt (sh_orders d)"
    using d by (auto simp: stands_def shop_good_def credit_given_def)
  have failed: "shop_failed oid (ticked d) \<longleftrightarrow> ow_status (the (row_at (sh_orders d) oid)) = ''failed''"
    using order_status_held [of oid cust amt "ticked d"] held by (simp add: shop_failed_def)
  show "ends ?Q ?R (uo_find (shop_orders pu env) oid d)"
  proof (cases ?read)
    case (Ok ro)
    from find_held [OF held pu Ok] show ?thesis unfolding eq Ok using same failed by simp
  qed (simp_all add: eq same)
qed

text \<open>The entry that \<open>Restore\<close> makes.\<close>

definition restore_entry :: "gotime \<Rightarrow> string \<Rightarrow> string \<Rightarrow> money \<Rightarrow> string \<Rightarrow> string \<Rightarrow> credit_entry" where
  "restore_entry now eid cust amt nt key = \<lparr>cr_ID = eid, cr_CustomerID = trim_space cust, cr_Currency = m_currency amt, cr_Amount = amt,
     cr_Kind = KindIssue, cr_OrderID = [], cr_Note = trim_space nt, cr_IdempotencyKey = trim_space key, cr_CreatedAt = now\<rparr>"

lemma NewIssueEntry_restore: "NewIssueEntry now eid c m nt key = Ok e \<Longrightarrow> e = restore_entry now eid c m nt key"
  by (auto simp: NewIssueEntry_def newEntry_def Let_def restore_entry_def split: if_splits)

lemma restore_steps:
  assumes "Service_Restore customers env now eid db c m nt key = (r, db')"
  shows "(r \<noteq> Ok () \<and> db' = db) \<or> (\<exists>r0. Repo_Issue env now eid db c m nt key = (r0, db') \<and> (r = Ok () \<longrightarrow> r0 = Ok ()))"
proof (cases "ensureCustomer customers c")
  case (Ok v)
  then obtain r0 where "Repo_Issue env now eid db c m nt key = (r0, db')" "r = mapErr (Wrap ''storecredit: restore'') r0"
    using assms by (auto simp: Service_Restore_def Service_credit_def split: prod.splits)
  then show ?thesis by (cases r0) auto
qed (use assms in \<open>auto simp: Service_Restore_def Service_credit_def\<close>)

lemma keyed_rows_mem: "q \<in> set (keyed_rows rows c key) \<longleftrightarrow> q \<in> set rows \<and> lr_customer q = c \<and> lr_key q = Some key"
  by (auto simp: keyed_rows_def)

text \<open>What \<open>Restore\<close> under the order's key does to the ledger.\<close>

lemma restore_effect:
  assumes own: "own_key oid cust amt env" and ok: "credit_ok db" and cust: "trim_space cust = cust"
    and run: "Service_Restore customers env now eid db cust amt nt (paymentFailedCreditKey oid) = (r, db')"
  shows "credit_ok db'" "set (cd_ledger db) \<subseteq> set (cd_ledger db')"
    "\<forall>q \<in> set (keyed_rows (cd_ledger db') cust (credit_key oid)). q \<in> set (cd_ledger db) \<or> restored_row amt q"
    "r = Ok () \<longrightarrow> keyed_rows (cd_ledger db') cust (credit_key oid) \<noteq> []"
proof -
  let ?key = "paymentFailedCreditKey oid"
  have fair: "fair_env env"
    and late: "\<And>q. q \<in> set (keyed_rows (cd_ledger (ce_late env db)) cust (credit_key oid)) \<Longrightarrow>
      q \<in> set (cd_ledger db) \<or> restored_row amt q"
    using own by (auto simp: own_key_def)
  have "credit_ok db' \<and> set (cd_ledger db) \<subseteq> set (cd_ledger db') \<and>
    (\<forall>q \<in> set (keyed_rows (cd_ledger db') cust (credit_key oid)). q \<in> set (cd_ledger db) \<or> restored_row amt q) \<and>
    (r = Ok () \<longrightarrow> keyed_rows (cd_ledger db') cust (credit_key oid) \<noteq> [])"
    using restore_steps [OF run]
  proof (elim disjE exE conjE)
    assume "r \<noteq> Ok ()" "db' = db"
    then show ?thesis using ok by (auto simp: keyed_rows_def)
  next
    fix r0
    assume issue: "Repo_Issue env now eid db cust amt nt ?key = (r0, db')" and r0: "r = Ok () \<longrightarrow> r0 = Ok ()"
    let ?x = "CreditIssue env now eid cust amt nt ?key"
    have step: "credit_ok db'" "set (cd_ledger db) \<subseteq> set (cd_ledger db')"
      using credit_tables.step_inv [of ?x db] credit_step_grows [of ?x db] fair ok issue by simp_all
    show ?thesis
    proof (cases "NewIssueEntry now eid cust amt nt ?key")
      case (Ok e)
      then have e: "e = restore_entry now eid cust amt nt ?key" and run': "applyEntry env db e (m_amount amt) = (r0, db')"
        using issue NewIssueEntry_restore by (auto simp: Repo_Issue_def)
      have new: "restored_row amt (row_of_entry e)"
        by (simp add: restored_row_def row_of_entry_def e restore_entry_def)
      have "set (cd_ledger db') \<subseteq> set (cd_ledger db) \<union> set (cd_ledger (ce_late env db)) \<union> {row_of_entry e}"
        using applyEntry_cases [OF run'] by (auto simp: posted_def Let_def)
      then have "q \<in> set (cd_ledger db) \<or> restored_row amt q" if "q \<in> set (keyed_rows (cd_ledger db') cust (credit_key oid))" for q
        using that late [of q] new unfolding keyed_rows_mem by blast
      moreover have "keyed_rows (cd_ledger db') cust (credit_key oid) \<noteq> []" if "r = Ok ()"
      proof -
        have "applyEntry env db e (m_amount amt) = (Ok (), db')" using run' r0 that by simp
        moreover have "cr_IdempotencyKey e = credit_key oid" "cr_Currency e = m_currency (cr_Amount e)" "cr_CustomerID e = cust"
          using cust by (simp_all add: e restore_entry_def credit_key_def)
        ultimately have "recorded db' e" using applyEntry_recorded credit_key_nonempty by metis
        then show ?thesis
          using cust by (auto simp: recorded_def keyed_rows_def filter_empty_conv e restore_entry_def credit_key_def)
      qed
      ultimately show ?thesis using step by blast
    next
      case (Fail err)
      then have "r0 \<noteq> Ok ()" "db' = db" using issue by (auto simp: Repo_Issue_def)
      then show ?thesis using r0 ok by (auto simp: keyed_rows_def)
    next
      case (Panics p)
      then have "r0 \<noteq> Ok ()" "db' = db" using issue by (auto simp: Repo_Issue_def)
      then show ?thesis using r0 ok by (auto simp: keyed_rows_def)
    qed
  qed
  then show "credit_ok db'" "set (cd_ledger db) \<subseteq> set (cd_ledger db')"
    "\<forall>q \<in> set (keyed_rows (cd_ledger db') cust (credit_key oid)). q \<in> set (cd_ledger db) \<or> restored_row amt q"
    "r = Ok () \<longrightarrow> keyed_rows (cd_ledger db') cust (credit_key oid) \<noteq> []" by blast+
qed

lemma keyed_rows_mono: "set rows \<subseteq> set rows' \<Longrightarrow> keyed_rows rows c key \<noteq> [] \<Longrightarrow> keyed_rows rows' c key \<noteq> []"
  by (auto simp: keyed_rows_def filter_empty_conv)

text \<open>A change of the ledger alone that only adds what \<open>Restore\<close> may add.\<close>

lemma ledger_grows_stands:
  assumes d: "shop_stands pu env oid cust amt b u f d" and orders: "sh_orders d' = sh_orders d"
    and ok: "credit_ok (sh_credit d')" and grows: "set (cd_ledger (sh_credit d)) \<subseteq> set (cd_ledger (sh_credit d'))"
    and rows: "\<forall>q \<in> set (keyed_rows (cd_ledger (sh_credit d')) cust (credit_key oid)).
      q \<in> set (cd_ledger (sh_credit d)) \<or> (f \<and> restored_row amt q)"
  shows "shop_stands pu env oid cust amt b u f d'"
proof -
  have st: "order_status_at oid d' = order_status_at oid d" by (simp add: order_status_at_def orders)
  have "restored_row amt q \<and> order_status_at oid d' = ''failed''"
    if q: "q \<in> set (keyed_rows (cd_ledger (sh_credit d')) cust (credit_key oid))" for q
  proof (cases "q \<in> set (cd_ledger (sh_credit d))")
    case True
    then have "q \<in> set (keyed_rows (cd_ledger (sh_credit d)) cust (credit_key oid))" using q by (simp add: keyed_rows_mem)
    then show ?thesis using d by (simp add: stands_def shop_good_def st)
  next
    case False
    then show ?thesis using rows q d by (auto simp: stands_def shop_failed_def st)
  qed
  then show ?thesis
    using d ok keyed_rows_mono [OF grows, of cust "credit_key oid"]
    by (auto simp: stands_def shop_good_def shop_settled_def shop_unpaid_def shop_failed_def st orders)
qed

lemma shop_restore_law:
  "triple (shop_stands pu env oid cust amt b u True)
     (shop_restore env cust amt (paymentFailedCreditNote oid) (paymentFailedCreditKey oid))
     (\<lambda>_. shop_stands pu env oid cust amt True u True) (shop_stands pu env oid cust amt b u True)" (is "triple _ ?m ?Q ?R")
proof (rule tripleI)
  fix d :: "'a shop_db"
  assume d: "shop_stands pu env oid cust amt b u True d"
  let ?n = "sh_tick d"
  obtain r cd where run: "Service_Restore (se_customers env ?n) (se_credit env ?n) (se_now env ?n) (se_id env ?n) (sh_credit d)
      cust amt (paymentFailedCreditNote oid) (paymentFailedCreditKey oid) = (r, cd)" by fastforce
  define d' where "d' = (ticked d)\<lparr>sh_credit := cd\<rparr>"
  have eq: "shop_restore env cust amt (paymentFailedCreditNote oid) (paymentFailedCreditKey oid) d = (r, d')"
    using run by (simp add: shop_restore_def Let_def d'_def)
  have parts: "sh_orders d' = sh_orders d" "sh_credit d' = cd" by (simp_all add: d'_def)
  have own: "own_key oid cust amt (se_credit env ?n)" "credit_ok (sh_credit d)" "trim_space cust = cust"
    using d by (auto simp: stands_def shop_good_def credit_given_def)
  note eff = restore_effect [OF own run]
  have stands: "shop_stands pu env oid cust amt b u True d'"
    by (rule ledger_grows_stands [OF d]) (use eff in \<open>auto simp: parts\<close>)
  moreover have "shop_stands pu env oid cust amt True u True d'" if "r = Ok ()"
    using stands eff(4) that by (simp add: stands_def shop_settled_def parts)
  ultimately show "ends ?Q ?R (?m d)"
    unfolding eq by (cases r) auto
qed

interpretation shop: unpaid_store "shop_orders pu env" "shop_restore env" oid cust amt "shop_good pu env oid cust amt"
    "shop_settled oid cust" "shop_unpaid oid" "shop_failed oid" for pu env oid cust amt
proof
  show "shop_good pu env oid cust amt d \<Longrightarrow> oid \<noteq> [] \<and> cust \<noteq> [] \<and> trim_space cust = cust \<and> 0 < cents amt" for d
    by (simp add: shop_good_def credit_given_def)
qed (rule shop_fail_law shop_find_law shop_restore_law)+

section \<open>Histories\<close>

text \<open>An action on what is neither an order nor store credit: payments, reservations, other subscribers.\<close>

definition on_rest :: "('a, 'x) act \<Rightarrow> ('a, 'x shop_db) act" where
  "on_rest m d = (case m (sh_rest d) of (r, x) \<Rightarrow> (r, d\<lparr>sh_rest := x\<rparr>))"

text \<open>
  The bus with the subscriber to failed payments, and other handlers \<open>low\<close>; the subscriber does
  nothing with the events that it publishes itself.
\<close>

definition shop_bus ::
    "'x bus \<Rightarrow> uuid_parse \<Rightarrow> 'c shop_env \<Rightarrow> (string \<Rightarrow> (unit, 'x) act) option \<Rightarrow> 'x shop_db bus" where
  "shop_bus low pu env revoke =
     Bus_Publish [payment_failed_handler (\<lambda>evt. on_rest (low evt)) (Some (shop_orders pu env)) (Some (shop_restore env))
                    (map_option (\<lambda>rv oid. on_rest (rv oid)) revoke),
                  \<lambda>evt. on_rest (low evt)]"

definition shop_workflow ::
    "'x bus \<Rightarrow> uuid_parse \<Rightarrow> 'c shop_env \<Rightarrow> (string \<Rightarrow> (unit, 'x) act) option \<Rightarrow>
     (string \<Rightarrow> (payment option, 'x) act) option \<Rightarrow> ('w, 'x shop_db) checkout_step list \<Rightarrow> ('w, 'x shop_db) workflow" where
  "shop_workflow low pu env revoke pays steps =
     \<lparr>wf_steps = steps, wf_bus = shop_bus low pu env revoke, wf_done = (\<lambda>_. None), wf_orders = Some (shop_orders pu env),
      wf_revoke = map_option (\<lambda>rv oid. on_rest (rv oid)) revoke, wf_payments = map_option (\<lambda>py oid. on_rest (py oid)) pays,
      wf_credits = Some (shop_restore env)\<rparr>"

datatype ('w, 'x) comp_op =
    CompensateCheckout "'w checkout_context"
  | PaymentEvent checkout_event
  | CreditWork credit_op
  | Elsewhere "'x \<Rightarrow> 'x"

fun comp_step :: "('w, 'x shop_db) workflow \<Rightarrow> ('w, 'x) comp_op \<Rightarrow> 'x shop_db \<Rightarrow> unit outcome \<times> 'x shop_db" where
  "comp_step w (CompensateCheckout c) d = (case compensateUnpaidOrder w (c, d) of (r, s) \<Rightarrow> (r, snd s))"
| "comp_step w (PaymentEvent evt) d = wf_bus w evt d"
| "comp_step w (CreditWork x) d = (case credit_step x (sh_credit d) of (r, cd) \<Rightarrow> (r, d\<lparr>sh_credit := cd\<rparr>))"
| "comp_step w (Elsewhere g) d = (Ok (), d\<lparr>sh_rest := g (sh_rest d)\<rparr>)"

abbreviation shop_harmless :: "uuid_parse \<Rightarrow> 'c shop_env \<Rightarrow> string \<Rightarrow> string \<Rightarrow> money \<Rightarrow> ('a, 'x shop_db) act \<Rightarrow> bool" where
  "shop_harmless pu env oid cust amt \<equiv>
     unpaid_store.harmless (shop_good pu env oid cust amt) (shop_settled oid cust) (shop_unpaid oid) (shop_failed oid)"

abbreviation shop_honest :: "uuid_parse \<Rightarrow> 'c shop_env \<Rightarrow> string \<Rightarrow> string \<Rightarrow> money \<Rightarrow> bool \<Rightarrow> ('w, 'x shop_db) workflow \<Rightarrow> bool" where
  "shop_honest pu env oid cust amt \<equiv>
     unpaid_store.honest (shop_orders pu env) (shop_restore env) oid (shop_good pu env oid cust amt) (shop_settled oid cust)
       (shop_unpaid oid) (shop_failed oid)"

lemma on_rest_stands: "keeps (shop_stands pu env oid cust amt b u f) (on_rest m)"
proof (rule keepsI)
  fix d :: "'a shop_db"
  assume d: "shop_stands pu env oid cust amt b u f d"
  have "shop_stands pu env oid cust amt b u f (d\<lparr>sh_rest := x\<rparr>)" for x
    using same_tables [of "d\<lparr>sh_rest := x\<rparr>" d pu env oid cust amt b u f] d by simp
  then show "shop_stands pu env oid cust amt b u f (snd (on_rest m d))"
    by (simp add: on_rest_def split: prod.split)
qed

lemma on_rest_harmless: "shop_harmless pu env oid cust amt (on_rest m)"
  unfolding shop.harmless_def by (simp add: on_rest_stands)

text \<open>The handler settles an event about the order and leaves the others alone.\<close>

definition shop_handler :: "'x bus \<Rightarrow> uuid_parse \<Rightarrow> 'c shop_env \<Rightarrow> (string \<Rightarrow> (unit, 'x) act) option \<Rightarrow> 'x shop_db bus" where
  "shop_handler low pu env revoke =
     payment_failed_handler (\<lambda>evt. on_rest (low evt)) (Some (shop_orders pu env)) (Some (shop_restore env))
       (map_option (\<lambda>rv oid. on_rest (rv oid)) revoke)"

lemma handler_compensates:
  "triple (shop_stands pu env oid cust amt b u f)
     (compensateFailedPayment (\<lambda>evt. on_rest (low evt)) (Some (shop_orders pu env)) (Some (shop_restore env))
       (map_option (\<lambda>rv oid. on_rest (rv oid)) revoke) oid)
     (\<lambda>_. shop_stands pu env oid cust amt (b \<or> u \<or> f) u (u \<or> f)) (shop_stands pu env oid cust amt b u f)"
  by (rule shop.subscriber_settles) (auto intro: on_rest_harmless)

lemma handler_settles:
  assumes evt: "evt = PaymentFailed oid \<or> evt = UnpaidFailed cart oid"
  shows "triple (shop_stands pu env oid cust amt b u f) (shop_handler low pu env revoke evt)
    (\<lambda>_. shop_stands pu env oid cust amt (b \<or> u \<or> f) u (u \<or> f)) (shop_stands pu env oid cust amt b u f)"
proof (rule triple_fact)
  show "oid \<noteq> [] \<and> trim_space oid = oid" if "shop_stands pu env oid cust amt b u f d" for d
    using that by (simp add: stands_def shop_good_def credit_given_def)
  assume "oid \<noteq> [] \<and> trim_space oid = oid"
  then show ?thesis
    using evt handler_compensates unfolding shop_handler_def payment_failed_handler_def by auto
qed

lemma handler_other: "(\<forall>x cart. evt \<noteq> PaymentFailed x \<and> evt \<noteq> UnpaidFailed cart x) \<Longrightarrow> shop_handler low pu env revoke evt = ret ()"
  by (cases evt) (auto simp: shop_handler_def payment_failed_handler_def)

lemma shop_bus_settles:
  assumes evt: "evt = PaymentFailed oid \<or> evt = UnpaidFailed cart oid"
  shows "triple (shop_stands pu env oid cust amt b u f) (shop_bus low pu env revoke evt)
    (\<lambda>_. shop_stands pu env oid cust amt (b \<or> u \<or> f) u (u \<or> f)) (shop_stands pu env oid cust amt b u f)"
  unfolding shop_bus_def Bus_Publish.simps shop_handler_def [symmetric] bind_unit
  by (rule triple_bind [OF handler_settles [OF evt]])
    (rule triple_weaken [OF on_rest_stands [where b = "b \<or> u \<or> f" and u = u and f = "u \<or> f"]]; auto simp: stands_def)

lemma shop_bus_harmless:
  assumes "own_event oid evt"
  shows "shop_harmless pu env oid cust amt (shop_bus low pu env revoke evt)"
proof (cases "\<exists>cart. evt = PaymentFailed oid \<or> evt = UnpaidFailed cart oid")
  case True
  then obtain cart where "evt = PaymentFailed oid \<or> evt = UnpaidFailed cart oid" by blast
  from shop_bus_settles [OF this] have "keeps (shop_stands pu env oid cust amt b u f) (shop_bus low pu env revoke evt)" for b u f
    by (rule triple_weaken) (auto simp: stands_def)
  then show ?thesis by (simp add: shop.harmless_def)
next
  case False
  then have "\<forall>x cart. evt \<noteq> PaymentFailed x \<and> evt \<noteq> UnpaidFailed cart x" using assms by (cases evt) auto
  then have "shop_bus low pu env revoke evt = on_rest (low evt)"
    unfolding shop_bus_def Bus_Publish.simps shop_handler_def [symmetric] by (simp add: handler_other bind_unit)
  then show ?thesis by (simp add: on_rest_harmless)
qed

definition never_blocks :: "string \<Rightarrow> (string \<Rightarrow> (payment option, 'x) act) option \<Rightarrow> bool" where
  "never_blocks oid pays \<longleftrightarrow>
     (\<forall>pay x py x'. pays = Some pay \<and> pay oid x = (Ok py, x') \<longrightarrow> \<not> paymentBlocksCompensation py)"

lemma shop_workflow_honest:
  assumes "nb \<longrightarrow> never_blocks oid pays"
  shows "shop_honest pu env oid cust amt nb (shop_workflow low pu env revoke pays steps)"
proof -
  have pay: "triple (shop_stands pu env oid cust amt b u f) (on_rest (pay oid))
      (\<lambda>py d. (nb \<longrightarrow> \<not> paymentBlocksCompensation py) \<and> shop_stands pu env oid cust amt b u f d)
      (shop_stands pu env oid cust amt b u f)" if "pays = Some pay" for pay b u f
  proof (rule tripleI)
    fix d :: "'a shop_db"
    assume d: "shop_stands pu env oid cust amt b u f d"
    obtain r x where run: "pay oid (sh_rest d) = (r, x)" by fastforce
    then have eq: "on_rest (pay oid) d = (r, d\<lparr>sh_rest := x\<rparr>)" by (simp add: on_rest_def)
    have same: "shop_stands pu env oid cust amt b u f (d\<lparr>sh_rest := x\<rparr>)"
      using keepsD [OF on_rest_stands d, of "pay oid"] eq by simp
    show "ends (\<lambda>py d. (nb \<longrightarrow> \<not> paymentBlocksCompensation py) \<and> shop_stands pu env oid cust amt b u f d)
        (shop_stands pu env oid cust amt b u f) (on_rest (pay oid) d)"
      using assms that same run unfolding eq never_blocks_def by (cases r) auto
  qed
  show ?thesis
    unfolding shop.honest_def shop_workflow_def using pay
    by (auto intro: on_rest_harmless shop_bus_harmless)
qed

text \<open>What an operation of a history is about, and what else may happen.\<close>

fun about_order :: "string \<Rightarrow> string \<Rightarrow> ('w, 'x) comp_op \<Rightarrow> bool" where
  "about_order oid cust (CompensateCheckout c) \<longleftrightarrow> created_order_id c = oid \<and> trim_space (cx_CustomerID c) \<in> {[], cust}"
| "about_order oid cust (PaymentEvent (PaymentFailed x)) \<longleftrightarrow> x = oid"
| "about_order oid cust (PaymentEvent (UnpaidFailed cart x)) \<longleftrightarrow> x = oid"
| "about_order oid cust _ \<longleftrightarrow> False"

fun beside_order :: "string \<Rightarrow> string \<Rightarrow> ('w, 'x) comp_op \<Rightarrow> bool" where
  "beside_order oid cust (CompensateCheckout c) \<longleftrightarrow> False"
| "beside_order oid cust (PaymentEvent evt) \<longleftrightarrow> own_event oid evt"
| "beside_order oid cust (CreditWork x) \<longleftrightarrow> fair_env (credit_op_env x) \<and>
     (\<forall>db. set (keyed_rows (cd_ledger (snd (credit_step x db))) cust (credit_key oid)) \<subseteq> set (cd_ledger db))"
| "beside_order oid cust (Elsewhere g) \<longleftrightarrow> True"

fun unblocked :: "string \<Rightarrow> (string \<Rightarrow> (payment option, 'x) act) option \<Rightarrow> ('w, 'x) comp_op \<Rightarrow> bool" where
  "unblocked oid pays (CompensateCheckout c) \<longleftrightarrow>
     \<not> paymentBlocksCompensation (paymentFromContext c) \<and> never_blocks oid pays"
| "unblocked oid pays _ \<longleftrightarrow> True"

lemma comp_step_keeps:
  assumes d: "shop_stands pu env oid cust amt False False False d" and op: "about_order oid cust op \<or> beside_order oid cust op"
  shows "shop_stands pu env oid cust amt False False False (snd (comp_step (shop_workflow low pu env revoke pays steps) op d))"
proof (cases op)
  case (CompensateCheckout c)
  then have "shop.fits oid cust False c" using op by (simp add: shop.fits_def)
  moreover have "keeps (\<lambda>s. shop.fits oid cust False (fst s) \<and> shop_stands pu env oid cust amt False False False (snd s))
      (compensateUnpaidOrder (shop_workflow low pu env revoke pays steps))"
    by (rule triple_weaken [OF shop.workflow_settles [OF shop_workflow_honest]]) auto
  ultimately show ?thesis
    using d keepsD CompensateCheckout by (fastforce split: prod.split)
next
  case (PaymentEvent evt)
  then have "own_event oid evt" using op by (cases evt) auto
  then have "keeps (shop_stands pu env oid cust amt False False False) (shop_bus low pu env revoke evt)"
    by (rule shop.harmlessD [OF shop_bus_harmless])
  from keepsD [OF this d] show ?thesis using PaymentEvent by (simp add: shop_workflow_def)
next
  case (CreditWork x)
  let ?d' = "snd (comp_step (shop_workflow low pu env revoke pays steps) op d)"
  have d': "sh_orders ?d' = sh_orders d" "sh_credit ?d' = snd (credit_step x (sh_credit d))"
    using CreditWork by (simp_all split: prod.split)
  have x: "fair_env (credit_op_env x)"
      "set (keyed_rows (cd_ledger (snd (credit_step x (sh_credit d)))) cust (credit_key oid)) \<subseteq> set (cd_ledger (sh_credit d))"
    using op CreditWork by auto
  have ok: "credit_ok (sh_credit d)" using d by (simp add: stands_def shop_good_def)
  show ?thesis
    by (rule ledger_grows_stands [OF d])
      (use d' x credit_tables.step_inv [OF x(1) ok] credit_step_grows [OF x(1) ok] in auto)
next
  case (Elsewhere g)
  then show ?thesis
    using same_tables [of "d\<lparr>sh_rest := g (sh_rest d)\<rparr>" d pu env oid cust amt False False False] d by simp
qed

lemma comp_run_keeps:
  "shop_stands pu env oid cust amt False False False d \<Longrightarrow> \<forall>op \<in> set ops. about_order oid cust op \<or> beside_order oid cust op \<Longrightarrow>
   shop_stands pu env oid cust amt False False False (run_db (comp_step (shop_workflow low pu env revoke pays steps)) ops d)"
  by (induction ops arbitrary: d) (simp_all add: comp_step_keeps)

text \<open>An operation about the order that reports success on an unpaid order has settled it.\<close>

lemma comp_step_settles:
  assumes d: "shop_stands pu env oid cust amt False False False d" and op: "about_order oid cust op" "unblocked oid pays op"
    and unpaid: "shop_unpaid oid d"
    and run: "comp_step (shop_workflow low pu env revoke pays steps) op d = (Ok (), d')"
  shows "shop_stands pu env oid cust amt True True True d'"
proof -
  have d: "shop_stands pu env oid cust amt False True False d" using d unpaid by (simp add: stands_def)
  show ?thesis
  proof (cases op)
    case (CompensateCheckout c)
    then have fits: "shop.fits oid cust True c" and pays: "True \<longrightarrow> never_blocks oid pays"
      using op by (simp_all add: shop.fits_def)
    obtain s where s: "compensateUnpaidOrder (shop_workflow low pu env revoke pays steps) (c, d) = (Ok (), s)" "d' = snd s"
      using run CompensateCheckout by (auto split: prod.splits)
    note settles = shop.workflow_settles [OF shop_workflow_honest [OF pays], where b = False and u = True and f = False]
    show ?thesis using triple_Ok [OF settles _ s(1)] fits d s(2) by simp
  next
    case (PaymentEvent evt)
    obtain cart where evt: "evt = PaymentFailed oid \<or> evt = UnpaidFailed cart oid"
      using op(1) PaymentEvent by (cases evt) auto
    have "shop_bus low pu env revoke evt d = (Ok (), d')" using run PaymentEvent by (simp add: shop_workflow_def)
    from triple_Ok [OF shop_bus_settles [OF evt] d this] show ?thesis by simp
  qed (use op in simp_all)
qed

lemma settled_once:
  assumes "shop_stands pu env oid cust amt b u f d"
  shows "keyed_rows (cd_ledger (sh_credit d)) cust (credit_key oid) = [] \<and> \<not> b \<or>
    (\<exists>r. keyed_rows (cd_ledger (sh_credit d)) cust (credit_key oid) = [r] \<and> restored_row amt r \<and> order_status_at oid d = ''failed'')"
proof -
  let ?rows = "keyed_rows (cd_ledger (sh_credit d)) cust (credit_key oid)"
  have "length ?rows \<le> 1" "b \<longrightarrow> ?rows \<noteq> []" "\<forall>r \<in> set ?rows. restored_row amt r \<and> order_status_at oid d = ''failed''"
    using assms unfolding stands_def shop_good_def credit_ok_def shop_settled_def by blast+
  then show ?thesis by (cases ?rows) auto
qed

text \<open>C2: The store credit of an unpaid order is given back exactly once. Whatever compensations of the
  order's checkout and events about its failed payment run, in any order and any number of times,
  with driver errors at any statement and other credit transactions in between, the ledger holds no
  row under the order's key, or one: an issue of exactly the credit applied to the order, and the
  order is failed. After an operation on an unpaid order that no payment blocks and that reports no
  error, it holds one.\<close>

theorem credit_restored_once:
  assumes given: "credit_given pu oid cust amt" "\<forall>n. own_key oid cust amt (se_credit env n)"
    and start: "credit_ok (sh_credit d0)" "order_held oid cust amt (sh_orders d0)"
      "keyed_rows (cd_ledger (sh_credit d0)) cust (credit_key oid) = []"
    and ops: "\<forall>op \<in> set ops. about_order oid cust op \<or> beside_order oid cust op"
  shows "let w = shop_workflow low pu env revoke pays steps; d = run_db (comp_step w) ops d0;
      once = (\<lambda>d. \<exists>r. keyed_rows (cd_ledger (sh_credit d)) cust (credit_key oid) = [r] \<and> restored_row amt r \<and>
        order_status_at oid d = ''failed'') in
    (keyed_rows (cd_ledger (sh_credit d)) cust (credit_key oid) = [] \<or> once d) \<and>
    (\<forall>op d'. about_order oid cust op \<and> unblocked oid pays op \<and> order_status_at oid d \<in> {''pending'', ''failed''} \<and>
       comp_step w op d = (Ok (), d') \<longrightarrow> once d')"
proof -
  have "shop_stands pu env oid cust amt False False False d0"
    using given start by (simp add: stands_def shop_good_def)
  from comp_run_keeps [OF this ops]
  have d: "shop_stands pu env oid cust amt False False False
      (run_db (comp_step (shop_workflow low pu env revoke pays steps)) ops d0)" .
  show ?thesis
    using settled_once [OF d] settled_once [OF comp_step_settles [OF d]] unfolding Let_def shop_unpaid_def by blast
qed

section \<open>Witnesses\<close>

definition demo_tables :: "unit shop_db" where
  "demo_tables = \<lparr>sh_orders = \<lparr>od_orders = [\<lparr>ow_id = ''o1'', ow_customer = ''c1'', ow_email = None, ow_status = ''pending'',
       ow_currency = ''EUR'', ow_total = 1000, ow_total_currency = ''EUR'', ow_country = None, ow_tax = None, ow_credit = 500,
       ow_created = 0, ow_updated = 0\<rparr>],
     od_items = [\<lparr>iw_order = ''o1'', iw_variant = ''v1'', iw_sku = ''s1'', iw_name = ''n'', iw_quantity = 1, iw_price = 1000,
       iw_currency = ''EUR'', iw_restockable = True, iw_created = 0\<rparr>], od_ties = (\<lambda>rows. rows)\<rparr>,
   sh_credit = no_credit, sh_tick = 0, sh_rest = ()\<rparr>"

definition demo_streams :: "unit shop_env" where
  "demo_streams = \<lparr>se_fault = (\<lambda>_ _. None), se_now = (\<lambda>_. 7), se_credit = (\<lambda>_. quiet_env), se_id = (\<lambda>_. ''e1''),
     se_customers = (\<lambda>_ _. Inr (Some ()))\<rparr>"

definition demo_workflow :: "(unit, unit shop_db) workflow" where
  "demo_workflow = shop_workflow (\<lambda>_. ret ()) Some demo_streams None None []"

lemma demo_read:
  "\<exists>o1. OrderRepo_FindByID Some (\<lambda>_. None)
     ((sh_orders demo_tables)\<lparr>od_orders := [(hd (od_orders (sh_orders demo_tables)))\<lparr>ow_status := ''failed'', ow_updated := t\<rparr>]\<rparr>) ''o1'' =
     Ok (Some o1) \<and> o_ID o1 = ''o1'' \<and> o_CustomerID o1 = ''c1'' \<and> o_StoreCreditApplied o1 = eur 500 \<and> o_status o1 = OrderStatusFailed"
  by (auto simp: demo_tables_def OrderRepo_FindByID_def stmt_def hydrateOrder_def Order_SetStatusFromDB_def order_status_of_string_def
     NewMoney_def IsValidCurrency_def Zero_def loadItems_def Order_SetItemsFromDB_def Order_computeTotal_def eur_def Let_def OrderItem_LineTotal_def MulChecked_def AddChecked_def Equal_def
        mustMatch_def go_div_def MaxInt64_def MinInt64_def i64 signed_divide_int_def trim_c1
        is_upper_letter_def byte_val_def)

lemma demo_fail: "FailIfPending Some (\<lambda>_. None) 7 (sh_orders demo_tables) ''o1'' =
  (Ok True, (sh_orders demo_tables)\<lparr>od_orders := [(hd (od_orders (sh_orders demo_tables)))\<lparr>ow_status := ''failed'', ow_updated := micro 7\<rparr>]\<rparr>)"
  by (simp add: demo_tables_def FailIfPending_def stmt_def update_orders_def trim_c1 Let_def)

lemma demo_restore: "fst (Service_Restore (\<lambda>_. Inr (Some ())) quiet_env 7 ''e1'' no_credit ''c1'' (eur 500) (paymentFailedCreditNote ''o1'') (paymentFailedCreditKey ''o1'')) = Ok ()"
  by (simp add: Service_Restore_def Service_credit_def ensureCustomer_def credit_eval)

lemma demo_event_ok:
  "fst (comp_step demo_workflow (PaymentEvent (PaymentFailed ''o1'')) demo_tables) = Ok ()"
proof -
  obtain o1 where read: "OrderRepo_FindByID Some (\<lambda>_. None)
     ((sh_orders demo_tables)\<lparr>od_orders := [(hd (od_orders (sh_orders demo_tables)))\<lparr>ow_status := ''failed'', ow_updated := micro 7\<rparr>]\<rparr>) ''o1'' = Ok (Some o1)"
     "o_ID o1 = ''o1''" "o_CustomerID o1 = ''c1''" "o_StoreCreditApplied o1 = eur 500" "o_status o1 = OrderStatusFailed"
    using demo_read [of "micro 7"] by auto
  obtain cd where restore: "Service_Restore (\<lambda>_. Inr (Some ())) quiet_env 7 ''e1'' no_credit ''c1'' (eur 500)
      (paymentFailedCreditNote ''o1'') (paymentFailedCreditKey ''o1'') = (Ok (), cd)"
    using demo_restore by (metis prod.collapse)
  have "sh_credit demo_tables = no_credit" by (simp add: demo_tables_def)
  then show ?thesis
    using read restore demo_fail
    by (simp add: demo_workflow_def shop_workflow_def shop_bus_def act_simps payment_failed_handler_def trim_c1 Let_def
      compensateFailedPayment_def shop_orders_def demo_streams_def ticked_def Publish_Failed_def on_rest_def issueFailedPaymentCredit_def
      err_of_def raise_opt_def shop_restore_def eur_def i64)
qed

lemma demo_world:
  "credit_given Some ''o1'' ''c1'' (eur 500)" "\<forall>n. own_key ''o1'' ''c1'' (eur 500) (se_credit demo_streams n)"
  "order_held ''o1'' ''c1'' (eur 500) (sh_orders demo_tables)" "credit_ok (sh_credit demo_tables)"
  "keyed_rows (cd_ledger (sh_credit demo_tables)) ''c1'' (credit_key ''o1'') = []"
proof -
  show "credit_given Some ''o1'' ''c1'' (eur 500)" by (simp add: credit_given_def trim_c1 eur_def)
  show "\<forall>n. own_key ''o1'' ''c1'' (eur 500) (se_credit demo_streams n)"
    using quiet_fair by (simp add: own_key_def demo_streams_def quiet_env_def keyed_rows_mem)
  show "order_held ''o1'' ''c1'' (eur 500) (sh_orders demo_tables)"
    by (simp add: order_held_def order_db_ok_def demo_tables_def row_at_def trim_c1 eur_def)
  show "credit_ok (sh_credit demo_tables)" "keyed_rows (cd_ledger (sh_credit demo_tables)) ''c1'' (credit_key ''o1'') = []"
    using no_credit_ok by (simp_all add: demo_tables_def no_credit_def keyed_rows_def)
qed

theorem credit_restored_once_witness:
  "\<exists>r d'. comp_step demo_workflow (PaymentEvent (PaymentFailed ''o1'')) demo_tables = (Ok (), d') \<and>
     keyed_rows (cd_ledger (sh_credit d')) ''c1'' (credit_key ''o1'') = [r] \<and> restored_row (eur 500) r \<and>
     order_status_at ''o1'' d' = ''failed''"
proof -
  obtain d' where run: "comp_step demo_workflow (PaymentEvent (PaymentFailed ''o1'')) demo_tables = (Ok (), d')"
    using demo_event_ok by (metis prod.collapse)
  have pending: "order_status_at ''o1'' demo_tables = ''pending''"
    by (simp add: order_status_at_def demo_tables_def row_at_def)
  note fact = credit_restored_once [OF demo_world(1,2,4,3,5), of "[]" "\<lambda>_. ret ()" None None "[] :: (unit, unit shop_db) checkout_step list",
    unfolded Let_def demo_workflow_def [symmetric], simplified, THEN conjunct2, rule_format,
    of "PaymentEvent (PaymentFailed ''o1'')" d']
  show ?thesis using fact run pending by auto
qed

end
