(* ===== verification/CheckoutRuns.thy ===== *)
theory CheckoutRuns
  imports CompensationDb
begin

text \<open>
  Runs of the checkout workflow: which steps ran and what the trace records of them, and what a
  failed run leaves behind.
\<close>

section \<open>The steps of a run\<close>

definition ok_entry :: "('w, 'd) checkout_step \<Rightarrow> trace_entry" where
  "ok_entry st = \<lparr>te_Step = sp_name st, te_Status = ''ok'', te_Err = []\<rparr>"

definition err_entry :: "('w, 'd) checkout_step \<Rightarrow> gerror \<Rightarrow> trace_entry" where
  "err_entry st e = \<lparr>te_Step = sp_name st, te_Status = ''error'', te_Err = err_text e\<rparr>"

definition with_entry :: "trace_entry \<Rightarrow> 'w checkout_context \<Rightarrow> 'w checkout_context" where
  "with_entry t c = c\<lparr>cx_Trace := cx_Trace c @ [t]\<rparr>"

text \<open>
  All of the steps ran and went well, each on the context the one before had left, and each was then
  recorded. Between two steps the world may change, as the events are published.
\<close>

inductive steps_ran :: "req_ctx \<Rightarrow> ('w, 'd) checkout_step list \<Rightarrow> 'w checkout_context \<Rightarrow> 'w checkout_context \<Rightarrow> bool" for ctx where
  ran_none: "steps_ran ctx [] c c"
| ran_next: "sp_run st ctx (c, d) = (Ok (), (c1, d1)) \<Longrightarrow> steps_ran ctx sts (with_entry (ok_entry st) c1) c' \<Longrightarrow> steps_ran ctx (st # sts) c c'"

text \<open>What one step leaves when it fails or panics.\<close>

definition step_broke :: "req_ctx \<Rightarrow> ('w, 'd) checkout_step \<Rightarrow> 'w checkout_context \<Rightarrow> 'w checkout_context \<Rightarrow> bool" where
  "step_broke ctx st c c' \<longleftrightarrow> (\<exists>d c1 d1.
     (\<exists>e. sp_run st ctx (c, d) = (Fail e, (c1, d1)) \<and> c' = with_entry (err_entry st e) c1) \<or>
     (\<exists>p. sp_run st ctx (c, d) = (Panics p, (c1, d1)) \<and> c' = c1))"

text \<open>The run ended early: some steps ran well, and at most one more broke.\<close>

definition broken_off :: "req_ctx \<Rightarrow> ('w, 'd) checkout_step list \<Rightarrow> 'w checkout_context \<Rightarrow> 'w checkout_context \<Rightarrow> bool" where
  "broken_off ctx sts c c' \<longleftrightarrow> (\<exists>k \<le> length sts. \<exists>c1. steps_ran ctx (take k sts) c c1 \<and>
     (c' = c1 \<or> k < length sts \<and> step_broke ctx (sts ! k) c1 c'))"

lemma broken_off_now: "broken_off ctx sts c c"
  unfolding broken_off_def by (intro exI [of _ 0]) (auto intro: ran_none)

lemma broken_off_here: "step_broke ctx st c c' \<Longrightarrow> broken_off ctx (st # sts) c c'"
  unfolding broken_off_def by (intro exI [of _ 0]) (auto intro: ran_none)

lemma broken_off_later:
  assumes "sp_run st ctx (c, d) = (Ok (), (c1, d1))" "broken_off ctx sts (with_entry (ok_entry st) c1) c'"
  shows "broken_off ctx (st # sts) c c'"
proof -
  obtain k c2 where k: "k \<le> length sts" "steps_ran ctx (take k sts) (with_entry (ok_entry st) c1) c2"
    "c' = c2 \<or> k < length sts \<and> step_broke ctx (sts ! k) c2 c'"
    using assms(2) unfolding broken_off_def by blast
  have "steps_ran ctx (take (Suc k) (st # sts)) c c2" using assms(1) k(2) by (auto intro: ran_next)
  then show ?thesis unfolding broken_off_def using k(1,3) by (intro exI [of _ "Suc k"]) auto
qed

lemma steps_ran_broken_off: "steps_ran ctx sts c c' \<Longrightarrow> broken_off ctx sts c c'"
  unfolding broken_off_def by (intro exI [of _ "length sts"]) auto

text \<open>Publishing and reading leave the context as it is.\<close>

abbreviation resting_at :: "'w checkout_context \<Rightarrow> 'w checkout_context \<times> 'd \<Rightarrow> bool" where "resting_at c s \<equiv> fst s = c"

lemma publish_context: "keeps (resting_at c) (publishEvent w evt)"
  unfolding publishEvent_def by (intro triple_wrapW triple_on_snd) simp

lemma reads_context: "keeps (resting_at c) (reads f)"
  by (rule triple_reads) simp

lemma trace_add_context: "triple (resting_at c) (trace_add t) (\<lambda>_. resting_at (with_entry t c)) R"
  unfolding trace_add_def with_entry_def by (rule triple_modifies) auto

lemma step_failed_context: "triple (resting_at c) (step_failed w (sp_name st) e) Q (resting_at (with_entry (err_entry st e) c))"
proof -
  let ?c = "with_entry (err_entry st e) c"
  have told: "triple (resting_at ?c) (bindW (reads (\<lambda>s. cx_CartID (fst s))) (\<lambda>cartID.
      tryW (publishEvent w (CheckoutFailed cartID (sp_name st) (err_text e))) (\<lambda>_. raise e1) (\<lambda>pubErr. raise (e2 pubErr)))) Q (resting_at ?c)" for e1 e2
    by (rule triple_bind [OF reads_context], rule triple_tryW [OF publish_context]) (auto intro: triple_raise)
  show ?thesis
    unfolding step_failed_def Let_def err_entry_def [symmetric]
    by (rule triple_bind [OF trace_add_context]) (intro triple_if triple_raise told)
qed

lemma exec_steps_run:
  "triple (resting_at c) (exec_steps w ctx sts) (\<lambda>_ s. steps_ran ctx sts c (fst s)) (\<lambda>s. broken_off ctx sts c (fst s))"
proof (induction sts arbitrary: c)
  case Nil
  then show ?case by (auto intro!: triple_ret ran_none)
next
  case (Cons st sts)
  let ?R = "\<lambda>s. broken_off ctx (st # sts) c (fst s)" and ?Q = "\<lambda>_ s. steps_ran ctx (st # sts) c (fst s)"
  have keep: "triple (resting_at c) m (\<lambda>_. resting_at c) ?R" if "keeps (resting_at c) m" for m :: "('x, 'a checkout_context \<times> 'b) act"
    by (rule triple_weaken [OF that]) (auto intro: broken_off_now)
  have ended: "keeps (resting_at c) (raise_opt ended)" for ended
    by (simp add: raise_opt_def triple_ret triple_raise split: option.split)
  have went: "triple (resting_at c1) (bindW (trace_add \<lparr>te_Step = sp_name st, te_Status = ''ok'', te_Err = []\<rparr>) (\<lambda>_.
      bindW (reads (\<lambda>s. cx_CartID (fst s))) (\<lambda>cartID'.
      bindW (publishEvent w (StepCompleted cartID' (sp_name st))) (\<lambda>_. exec_steps w ctx sts)))) ?Q ?R"
    if run: "sp_run st ctx (c, d) = (Ok (), (c1, d1))" for c1 d d1
  proof -
    let ?c = "with_entry (ok_entry st) c1"
    have later: "triple (resting_at ?c) m (\<lambda>_. resting_at ?c) ?R" if "keeps (resting_at ?c) m" for m :: "('x, 'a checkout_context \<times> 'b) act"
      by (rule triple_weaken [OF that]) (use run in \<open>auto intro: broken_off_later broken_off_now\<close>)
    have rest: "triple (resting_at ?c) (exec_steps w ctx sts) ?Q ?R"
      by (rule triple_weaken [OF Cons.IH]) (use run in \<open>auto intro: ran_next broken_off_later\<close>)
    show ?thesis
      unfolding ok_entry_def [symmetric]
      by (intro triple_bind [OF trace_add_context] triple_bind [OF later [OF reads_context]] triple_bind [OF later [OF publish_context]] rest)
  qed
  have failed: "triple (resting_at c1) (step_failed w (sp_name st) e) ?Q ?R" if "sp_run st ctx (c, d) = (Fail e, (c1, d1))" for c1 d d1 e
  proof -
    have "step_broke ctx st c (with_entry (err_entry st e) c1)" using that unfolding step_broke_def by blast
    then show ?thesis by (intro triple_weaken [OF step_failed_context]) (auto intro: broken_off_here)
  qed
  have "triple (resting_at c) (tryW (sp_run st ctx) (\<lambda>_. bindW (trace_add \<lparr>te_Step = sp_name st, te_Status = ''ok'', te_Err = []\<rparr>) (\<lambda>_.
      bindW (reads (\<lambda>s. cx_CartID (fst s))) (\<lambda>cartID'.
      bindW (publishEvent w (StepCompleted cartID' (sp_name st))) (\<lambda>_. exec_steps w ctx sts)))) (step_failed w (sp_name st))) ?Q ?R"
  proof (rule tripleI)
    fix s :: "'a checkout_context \<times> 'b" assume "resting_at c s"
    then obtain d where s: "s = (c, d)" by (cases s) simp
    show "ends ?Q ?R (tryW (sp_run st ctx) (\<lambda>_. bindW (trace_add \<lparr>te_Step = sp_name st, te_Status = ''ok'', te_Err = []\<rparr>) (\<lambda>_.
      bindW (reads (\<lambda>s. cx_CartID (fst s))) (\<lambda>cartID'.
      bindW (publishEvent w (StepCompleted cartID' (sp_name st))) (\<lambda>_. exec_steps w ctx sts)))) (step_failed w (sp_name st)) s)"
    proof (cases "sp_run st ctx (c, d)" rule: outcome_pair_cases)
      case (1 x s1)
      then obtain c1 d1 where run: "sp_run st ctx (c, d) = (Ok (), (c1, d1))" by (cases s1) auto
      from tripleD [OF went [OF run], of "(c1, d1)"] show ?thesis by (simp add: tryW_def s run)
    next
      case (2 e s1)
      then obtain c1 d1 where run: "sp_run st ctx (c, d) = (Fail e, (c1, d1))" by (cases s1) auto
      from tripleD [OF failed [OF run], of "(c1, d1)"] show ?thesis by (simp add: tryW_def s run)
    next
      case (3 p s1)
      obtain c1 d1 where s1: "s1 = (c1, d1)" by fastforce
      then have "step_broke ctx st c c1" using 3 by (auto simp: step_broke_def)
      then show ?thesis using 3 s1 by (auto simp: tryW_def s intro: broken_off_here)
    qed
  qed
  then show ?case
    unfolding exec_steps.simps
    by (intro triple_bind [OF keep [OF reads_context]] triple_bind [OF keep [OF ended]] triple_bind [OF keep [OF publish_context]])
qed

text \<open>The compensation replaces the order of the context by the one it read, and nothing else.\<close>

lemma compensation_context: "keeps (\<lambda>s. \<exists>o0. fst s = c\<lparr>cx_Order := o0\<rparr>) (compensateUnpaidOrder w)"
proof -
  let ?P = "\<lambda>s :: 'a checkout_context \<times> 'b. \<exists>o0. fst s = c\<lparr>cx_Order := o0\<rparr>"
  have world: "keeps ?P (on_snd m)" for m :: "('x, 'b) act" by (rule triple_on_snd) simp
  have publish: "keeps ?P (publishEvent w evt)" for evt unfolding publishEvent_def by (intro triple_wrapW world)
  have order: "keeps ?P (modifies (\<lambda>(c, d). (c\<lparr>cx_Order := Some o1\<rparr>, d)))" for o1
    by (rule triple_modifies) auto
  show ?thesis
    unfolding compensateUnpaidOrder_def skipUnpaidCompensation_def refundCompensatedCredit_def Let_def err_of_def raise_opt_def
    by (intro keeps_intro world order publish) (simp only: prod.case, intro keeps_intro)
qed

lemma body_run:
  "triple (resting_at c) (workflow_body w ctx) (\<lambda>_ s. steps_ran ctx (wf_steps w) c (fst s)) (\<lambda>s. broken_off ctx (wf_steps w) c (fst s))"
proof (unfold workflow_body_def, rule triple_bind [OF exec_steps_run])
  show "triple (\<lambda>s. steps_ran ctx (wf_steps w) c (fst s)) (bindW (reads (\<lambda>s. CheckoutCompleted (cx_CartID (fst s))
        (case cx_Order (fst s) of None \<Rightarrow> [] | Some o1 \<Rightarrow> o_ID o1))) (\<lambda>evt. tryW (publishEvent w evt) (\<lambda>_. ret False) (\<lambda>_. ret True)))
      (\<lambda>_ s. steps_ran ctx (wf_steps w) c (fst s)) (\<lambda>s. broken_off ctx (wf_steps w) c (fst s))"
  proof (rule tripleI)
    fix s :: "'a checkout_context \<times> 'b" assume s: "steps_ran ctx (wf_steps w) c (fst s)"
    have "keeps (resting_at (fst s)) (bindW (reads (\<lambda>s. CheckoutCompleted (cx_CartID (fst s))
        (case cx_Order (fst s) of None \<Rightarrow> [] | Some o1 \<Rightarrow> o_ID o1))) (\<lambda>evt. tryW (publishEvent w evt) (\<lambda>_. ret False) (\<lambda>_. ret True)))"
      by (intro keeps_intro publish_context)
    from tripleD [OF this, of s] s
    show "ends (\<lambda>_ s. steps_ran ctx (wf_steps w) c (fst s)) (\<lambda>s. broken_off ctx (wf_steps w) c (fst s))
      (bindW (reads (\<lambda>s. CheckoutCompleted (cx_CartID (fst s))
        (case cx_Order (fst s) of None \<Rightarrow> [] | Some o1 \<Rightarrow> o_ID o1))) (\<lambda>evt. tryW (publishEvent w evt) (\<lambda>_. ret False) (\<lambda>_. ret True)) s)"
      by (auto elim!: ends_mono intro: steps_ran_broken_off)
  qed
qed

text \<open>C40: A checkout runs its steps in order, each on what the one before left, up to the first that does
  not go well, and its trace says so. When the workflow reports success, every step of it ran and
  returned without an error, and the context is the one they left, with one entry for each
  appended to the trace after it. When it reports an error or panics, then for some number of steps
  this holds of just these first ones; at most one more ran, and it returned an error, which was
  recorded, or panicked; no other step touched the context, in which only the order is read anew
  by the compensation. The outcome that the metrics count is a failure in exactly that case.\<close>

theorem checkout_trace:
  assumes "Execute w ctx (c, d) = ((r, outcome), (c', d'))"
  shows "(r = Ok () \<longrightarrow> outcome \<noteq> OutcomeFailed \<and> steps_ran ctx (wf_steps w) c c') \<and>
    (r \<noteq> Ok () \<longrightarrow> outcome = OutcomeFailed \<and> (\<exists>c1 o0. broken_off ctx (wf_steps w) c c1 \<and> c' = c1\<lparr>cx_Order := o0\<rparr>))"
proof -
  have body: "ends (\<lambda>_ s. steps_ran ctx (wf_steps w) c (fst s)) (\<lambda>s. broken_off ctx (wf_steps w) c (fst s)) (workflow_body w ctx (c, d))"
    by (rule tripleD [OF body_run]) simp
  show ?thesis
  proof (cases "workflow_body w ctx (c, d)" rule: outcome_pair_cases)
    case (1 x s1)
    then show ?thesis using assms body by (cases x) (auto simp: Execute_def)
  next
    case (2 e s1)
    have "\<exists>o0. fst (snd (compensateUnpaidOrder w s1)) = (fst s1)\<lparr>cx_Order := o0\<rparr>"
      by (rule keepsD [OF compensation_context]) (rule exI [of _ "cx_Order (fst s1)"], simp)
    then show ?thesis
      using assms body 2 by (auto simp: Execute_def split: prod.splits outcome.splits)
  next
    case (3 p s1)
    then have "broken_off ctx (wf_steps w) c c'" "outcome = OutcomeFailed" "r = Panics p"
      using assms body by (auto simp: Execute_def)
    moreover have "c' = c'\<lparr>cx_Order := cx_Order c'\<rparr>" by simp
    ultimately show ?thesis by blast
  qed
qed

section \<open>A failed run\<close>

text \<open>C11: A failed checkout pays the store credit back. When the workflow stops with an error after the
  order was created, and no payment of the order completed or started, the error it reports is
  either the one it stopped with, and then the order is failed and exactly one issue of exactly the
  credit applied to it is in the ledger; or that error with the compensation's own error added.\<close>

theorem checkout_failure_settled:
  fixes s :: "'w checkout_context \<times> 'x shop_db"
  assumes given: "credit_given pu oid cust amt" "\<forall>n. own_key oid cust amt (se_credit env n)"
    and w: "w = shop_workflow low pu env revoke pays steps" and body: "workflow_body w ctx s = (Fail e, (c1, d1))"
    and order: "order_held oid cust amt (sh_orders d1)" "order_status_at oid d1 \<in> {''pending'', ''failed''}"
    and credit: "credit_ok (sh_credit d1)" "keyed_rows (cd_ledger (sh_credit d1)) cust (credit_key oid) = []"
    and op: "about_order oid cust (CompensateCheckout c1 :: ('w, 'x) comp_op)"
      "unblocked oid pays (CompensateCheckout c1 :: ('w, 'x) comp_op)"
    and run: "Execute w ctx s = ((r, outcome), (c2, d2))" and no_panic: "\<forall>p. r \<noteq> Panics p"
  shows "(r = Fail e \<and> order_status_at oid d2 = ''failed'' \<and>
      (\<exists>q. keyed_rows (cd_ledger (sh_credit d2)) cust (credit_key oid) = [q] \<and> restored_row amt q)) \<or>
    (\<exists>ce. r = Fail (Around [] e ('' (compensate: '' @ err_text ce @ '')'')))"
proof -
  have d1: "shop_stands pu env oid cust amt False False False d1"
    using given order credit by (simp add: stands_def shop_good_def)
  show ?thesis
  proof (cases "compensateUnpaidOrder w (c1, d1)" rule: outcome_pair_cases)
    case (1 x s2)
    then have "comp_step w (CompensateCheckout c1) d1 = (Ok (), snd s2)" by simp
    from settled_once [OF comp_step_settles [OF d1 op _ this [unfolded w]]] order
    show ?thesis using run body 1 by (auto simp: Execute_def shop_unpaid_def)
  next
    case (2 ce s2)
    then show ?thesis using run body by (auto simp: Execute_def)
  next
    case (3 p s2)
    then show ?thesis using run body no_panic by (auto simp: Execute_def)
  qed
qed

text \<open>A step that panics leaves a pending order as it is: the deferred compensation sees no error.\<close>

lemma panic_uncompensated:
  "workflow_body w ctx s = (Panics p, s') \<Longrightarrow> Execute w ctx s = ((Panics p, OutcomeFailed), s')"
  by (simp add: Execute_def)

section \<open>Witnesses\<close>

definition demo_step :: "(unit, unit shop_db) checkout_step" where
  "demo_step = \<lparr>sp_name = ''pay'', sp_run = (\<lambda>ctx. raise (Err ''declined''))\<rparr>"

definition demo_context :: "unit checkout_context" where
  "demo_context = SetMeta ''created_order_id'' (CStr ''o1'') (NewContext ''k1'' ''c1'' ''EUR'')"

definition demo_checkout :: "(unit, unit shop_db) workflow" where
  "demo_checkout = shop_workflow (\<lambda>_. ret ()) Some demo_streams None None [demo_step]"

lemma demo_fail_again: "FailIfPending Some (\<lambda>_. None) 7 
     ((sh_orders demo_tables)\<lparr>od_orders := [(hd (od_orders (sh_orders demo_tables)))\<lparr>ow_status := ''failed'', ow_updated := t\<rparr>]\<rparr>) ''o1'' =
  (Ok False, (sh_orders demo_tables)\<lparr>od_orders := [(hd (od_orders (sh_orders demo_tables)))\<lparr>ow_status := ''failed'', ow_updated := t\<rparr>]\<rparr>)"
  by (simp add: demo_tables_def FailIfPending_def stmt_def update_orders_def trim_c1 Let_def)

lemma demo_restore_twice: "\<exists>cd. Service_Restore (\<lambda>_. Inr (Some ())) quiet_env 7 ''e1'' no_credit ''c1'' (eur 500) (paymentFailedCreditNote ''o1'') (paymentFailedCreditKey ''o1'') = (Ok (), cd) \<and>
   Service_Restore (\<lambda>_. Inr (Some ())) quiet_env 7 ''e1'' cd ''c1'' (eur 500) (paymentFailedCreditNote ''o1'') (paymentFailedCreditKey ''o1'') = (Ok (), cd)"
  by (simp add: Service_Restore_def Service_credit_def ensureCustomer_def credit_eval credit_key_nonempty [unfolded credit_key_def])

lemma demo_body: "workflow_body demo_checkout background (demo_context, demo_tables) =
    (Fail (Around (''checkout: step '' @ go_quote ''pay'' @ '' failed: '') (Err ''declined'') []),
     (demo_context\<lparr>cx_Trace := [err_entry demo_step (Err ''declined'')]\<rparr>, demo_tables))"
  by (simp add: workflow_body_def demo_checkout_def shop_workflow_def shop_bus_def act_simps raise_opt_def publishEvent_def
    payment_failed_handler_def on_rest_def demo_step_def step_failed_def trace_add_def isContextError_def ContextCanceled_def
    DeadlineExceeded_def Let_def demo_context_def NewContext_def SetMeta_def err_entry_def)

lemma demo_compensated: "fst (compensateUnpaidOrder demo_checkout (demo_context\<lparr>cx_Trace := T\<rparr>, demo_tables)) = Ok ()"
proof -
  obtain o1 where read: "OrderRepo_FindByID Some (\<lambda>_. None)
     ((sh_orders demo_tables)\<lparr>od_orders := [(hd (od_orders (sh_orders demo_tables)))\<lparr>ow_status := ''failed'', ow_updated := micro 7\<rparr>]\<rparr>) ''o1'' = Ok (Some o1)"
     "o_ID o1 = ''o1''" "o_CustomerID o1 = ''c1''" "o_StoreCreditApplied o1 = eur 500" "o_status o1 = OrderStatusFailed"
    using demo_read [of "micro 7"] by auto
  obtain cd where restore: "Service_Restore (\<lambda>_. Inr (Some ())) quiet_env 7 ''e1'' no_credit ''c1'' (eur 500)
      (paymentFailedCreditNote ''o1'') (paymentFailedCreditKey ''o1'') = (Ok (), cd)"
     "Service_Restore (\<lambda>_. Inr (Some ())) quiet_env 7 ''e1'' cd ''c1'' (eur 500)
      (paymentFailedCreditNote ''o1'') (paymentFailedCreditKey ''o1'') = (Ok (), cd)"
    using demo_restore_twice by auto
  have "sh_credit demo_tables = no_credit" by (simp add: demo_tables_def)
  then show ?thesis
    using read restore demo_fail demo_fail_again
    by (simp add: demo_checkout_def shop_workflow_def shop_bus_def act_simps payment_failed_handler_def trim_c1 Let_def
      compensateUnpaidOrder_def compensateFailedPayment_def shop_orders_def demo_streams_def ticked_def Publish_Failed_def on_rest_def issueFailedPaymentCredit_def
      err_of_def raise_opt_def shop_restore_def eur_def i64 created_order_id_def demo_context_def NewContext_def SetMeta_def
      skipUnpaidCompensation_def paymentFromContext_def paymentBlocksCompensation_def publishEvent_def refundCompensatedCredit_def)
qed

theorem checkout_trace_witness:
  "\<exists>r outcome c1 d1. Execute demo_checkout background (demo_context, demo_tables) = ((r, outcome), (c1, d1)) \<and>
     outcome = OutcomeFailed \<and> cx_Trace c1 \<in> {[], [err_entry demo_step (Err ''declined'')]}"
proof -
  obtain r outcome c1 d1 where run: "Execute demo_checkout background (demo_context, demo_tables) = ((r, outcome), (c1, d1))"
    by (metis prod.collapse)
  have steps: "wf_steps demo_checkout = [demo_step]" by (simp add: demo_checkout_def shop_workflow_def)
  have "r \<noteq> Ok ()"
    using run demo_body by (auto simp: Execute_def split: prod.splits outcome.splits)
  then obtain c2 o0 where c2: "outcome = OutcomeFailed" "broken_off background [demo_step] demo_context c2" "c1 = c2\<lparr>cx_Order := o0\<rparr>"
    using checkout_trace [OF run] by (auto simp: steps)
  have "\<not> steps_ran background [demo_step] demo_context c" for c
    by (auto simp: demo_step_def raise_def elim: steps_ran.cases)
  then have "c2 = demo_context \<or> step_broke background demo_step demo_context c2"
    using c2(2) by (auto simp: broken_off_def le_Suc_eq elim: steps_ran.cases)
  then have "cx_Trace c2 \<in> {[], [err_entry demo_step (Err ''declined'')]}"
    by (auto simp: step_broke_def demo_step_def raise_def with_entry_def demo_context_def NewContext_def SetMeta_def)
  then show ?thesis using run c2(1,3) by auto
qed

theorem checkout_failure_settled_witness:
  "\<exists>c2 d2 q e. Execute demo_checkout background (demo_context, demo_tables) = ((Fail e, OutcomeFailed), (c2, d2)) \<and>
     order_status_at ''o1'' d2 = ''failed'' \<and> keyed_rows (cd_ledger (sh_credit d2)) ''c1'' (credit_key ''o1'') = [q] \<and>
     restored_row (eur 500) q"
proof -
  let ?e = "Around (''checkout: step '' @ go_quote ''pay'' @ '' failed: '') (Err ''declined'') []"
  let ?c1 = "demo_context\<lparr>cx_Trace := [err_entry demo_step (Err ''declined'')]\<rparr>"
  obtain c2 d2 where run: "Execute demo_checkout background (demo_context, demo_tables) = ((Fail ?e, OutcomeFailed), (c2, d2))"
    using demo_body demo_compensated [of "[err_entry demo_step (Err ''declined'')]"]
    by (cases "compensateUnpaidOrder demo_checkout (?c1, demo_tables)" rule: outcome_pair_cases) (auto simp: Execute_def)
  have op: "about_order ''o1'' ''c1'' (CompensateCheckout ?c1 :: (unit, unit) comp_op)"
      "unblocked ''o1'' None (CompensateCheckout ?c1 :: (unit, unit) comp_op)"
    by (simp_all add: created_order_id_def demo_context_def NewContext_def SetMeta_def trim_c1 paymentFromContext_def
        paymentBlocksCompensation_def never_blocks_def)
  have pending: "order_status_at ''o1'' demo_tables \<in> {''pending'', ''failed''}"
    by (simp add: order_status_at_def demo_tables_def row_at_def)
  have "?e \<noteq> Around [] ?e t" for t by simp
  then show ?thesis
    using checkout_failure_settled [OF demo_world(1,2) demo_checkout_def demo_body demo_world(3) pending demo_world(4,5) op run] run
    by auto
qed

end
