(* ===== verification/CheckoutReserve.thy ===== *)
theory CheckoutReserve
  imports Checkout
begin

text \<open>
  The step \<open>reserve_inventory\<close> of the checkout (\<open>reserve_inventory_step.go\<close>): the targets
  of a cart line, reservation of all of them with rollback, and the release of holds that
  \<open>create_order\<close> shares. Logging is left out. Lookups in the catalog do not change the world.
\<close>

section \<open>The step\<close>

record ('w, 'd) reserve_step =
  rs_reserve :: "reservation \<Rightarrow> (unit, 'd) act"
  rs_release :: "string \<Rightarrow> (unit, 'd) act"
  rs_products :: product_repo
  rs_variants :: "'w variant_repo"
  rs_components :: component_repo
  rs_ttl :: gotime
  rs_bus :: "'d bus option"
  rs_newID :: "(string, 'd) act"
  rs_now :: "(gotime, 'd) act"

definition ReservationTTL :: gotime where "ReservationTTL = 15 * 60 * 1000000000"

text \<open>A \<open>ReserveOption\<close>; nil arguments of the two options panic.\<close>

datatype 'd reserve_option = WithTTL gotime | WithStockEventPublishing "'d bus option" | WithLogger bool

fun apply_option :: "'d reserve_option \<Rightarrow> ('w, 'd) reserve_step \<Rightarrow> ('w, 'd) reserve_step outcome" where
  "apply_option (WithTTL ttl) st = Ok (st\<lparr>rs_ttl := ttl\<rparr>)"
| "apply_option (WithStockEventPublishing None) st = Panics ''checkout.WithStockEventPublishing: bus must not be nil''"
| "apply_option (WithStockEventPublishing (Some b)) st = Ok (st\<lparr>rs_bus := Some b\<rparr>)"
| "apply_option (WithLogger given) st = (if given then Ok st else Panics ''checkout.WithLogger: logger must not be nil'')"

fun apply_options :: "'d reserve_option list \<Rightarrow> ('w, 'd) reserve_step \<Rightarrow> ('w, 'd) reserve_step outcome" where
  "apply_options [] st = Ok st"
| "apply_options (x # xs) st = bindO (apply_option x st) (apply_options xs)"

definition NewReserveInventoryStep ::
    "((reservation \<Rightarrow> (unit, 'd) act) \<times> (string \<Rightarrow> (unit, 'd) act)) option \<Rightarrow> product_repo option \<Rightarrow>
     'w variant_repo option \<Rightarrow> component_repo option \<Rightarrow> (string, 'd) act \<Rightarrow> (gotime, 'd) act \<Rightarrow> 'd reserve_option list \<Rightarrow>
     ('w, 'd) reserve_step outcome" where
  "NewReserveInventoryStep reservations products variants components newID now opts =
     (case reservations of
        None \<Rightarrow> Panics ''checkout: reservations must not be nil''
      | Some (reserve, release) \<Rightarrow>
          (case products of
             None \<Rightarrow> Panics ''checkout: products must not be nil''
           | Some ps \<Rightarrow>
               (case variants of
                  None \<Rightarrow> Panics ''checkout: variants must not be nil''
                | Some vs \<Rightarrow>
                    (case components of
                       None \<Rightarrow> Panics ''checkout: bundle components must not be nil''
                     | Some cs \<Rightarrow> apply_options opts
                         \<lparr>rs_reserve = reserve, rs_release = release, rs_products = ps, rs_variants = vs, rs_components = cs,
                          rs_ttl = ReservationTTL, rs_bus = None, rs_newID = newID, rs_now = now\<rparr>))))"

section \<open>What earlier steps left in the context\<close>

definition cartVariantFromMeta :: "'w checkout_context \<Rightarrow> string \<Rightarrow> 'w variant option" where
  "cartVariantFromMeta c variantID = (case cx_Meta c ''cart_variants'' of Some (CVariants m) \<Rightarrow> m variantID | _ \<Rightarrow> None)"

definition cartProductFromMeta :: "'w checkout_context \<Rightarrow> string \<Rightarrow> product option" where
  "cartProductFromMeta c productID =
     (if productID = [] then None
      else case cx_Meta c ''cart_products'' of Some (CProducts m) \<Rightarrow> m productID | _ \<Rightarrow> None)"

definition reservationHoldsFromMeta :: "'w checkout_context \<Rightarrow> reservation_hold list" where
  "reservationHoldsFromMeta c = (case cx_Meta c ''reservation_holds'' of Some (CHolds hs) \<Rightarrow> hs | _ \<Rightarrow> [])"

definition reservedMetaTrue :: "'w checkout_context \<Rightarrow> bool" where
  "reservedMetaTrue c = meta_true c ''reserved''"

definition lineAssignment :: "cart_item \<Rightarrow> assignment_context" where
  "lineAssignment i = \<lparr>ac_ParentProductID = ci_AssignmentParentProductID i, ac_ParentUnitID = ci_AssignmentParentUnitID i,
     ac_Deferred = ci_AssignmentDeferred i\<rparr>"

definition linePurchaseContext :: "req_ctx \<Rightarrow> cart_item \<Rightarrow> req_ctx" where
  "linePurchaseContext ctx i = the (WithAssignmentContext (Some ctx) (ResolvePurchaseAssignment (Some ctx) (lineAssignment i)))"

section \<open>Stock events\<close>

definition publishCheckoutStockUpdated ::
    "'w variant_repo option \<Rightarrow> 'd bus option \<Rightarrow> string \<Rightarrow> int64 \<Rightarrow> string \<Rightarrow> (unit, 'w checkout_context \<times> 'd) act" where
  "publishCheckoutStockUpdated variants bus0 variantID delta source =
     (case bus0 of
        None \<Rightarrow> ret ()
      | Some bus \<Rightarrow>
          if variantID = [] \<or> delta = 0 then ret ()
          else bindW (reads (\<lambda>s. cartVariantFromMeta (fst s) variantID)) (\<lambda>known.
            case (case known of
                    Some v \<Rightarrow> Some v
                  | None \<Rightarrow> (case variants of
                        None \<Rightarrow> None
                      | Some vr \<Rightarrow> (case vr_find vr variantID of Inl e \<Rightarrow> None | Inr v \<Rightarrow> v))) of
              None \<Rightarrow> ret ()
            | Some v \<Rightarrow> attempt (on_snd (bus (StockUpdated source (v_ProductID v) (v_ID v) (v_SKU v) delta)))))"

definition publishCheckoutParentStockUpdated ::
    "'d bus option \<Rightarrow> string \<Rightarrow> string \<Rightarrow> (unit, 'w checkout_context \<times> 'd) act" where
  "publishCheckoutParentStockUpdated bus0 productID source =
     (case bus0 of
        None \<Rightarrow> ret ()
      | Some bus \<Rightarrow>
          if productID = [] then ret () else attempt (on_snd (bus (StockUpdated source productID [] [] 0))))"

section \<open>Releasing holds\<close>

text \<open>The holds that were not released, and the bundles of those that were.\<close>

fun release_each ::
    "(string \<Rightarrow> (unit, 'd) act) \<Rightarrow> 'w variant_repo option \<Rightarrow> 'd bus option \<Rightarrow> string \<Rightarrow> reservation_hold list \<Rightarrow>
     (reservation_hold list \<times> string list, 'w checkout_context \<times> 'd) act" where
  "release_each release variants bus source [] = ret ([], [])"
| "release_each release variants bus source (h # hs) =
     (if rh_ID h = [] then release_each release variants bus source hs
      else tryW (on_snd (release (rh_ID h)))
        (\<lambda>_. bindW (if rh_VariantID h \<noteq> [] \<and> rh_Quantity h \<noteq> 0
                   then publishCheckoutStockUpdated variants bus (rh_VariantID h) (rh_Quantity h) source else ret ()) (\<lambda>_.
             bindW (release_each release variants bus source hs) (\<lambda>(failed, parents).
             ret (failed, if rh_BundleProductID h = [] then parents else rh_BundleProductID h # parents))))
        (\<lambda>e. bindW (release_each release variants bus source hs) (\<lambda>(failed, parents). ret (h # failed, parents))))"

text \<open>Go visits the set of parents in any order; here each at its last hold.\<close>

definition releaseCheckoutHolds ::
    "(string \<Rightarrow> (unit, 'd) act) option \<Rightarrow> 'w variant_repo option \<Rightarrow> 'd bus option \<Rightarrow> string \<Rightarrow> reservation_hold list \<Rightarrow>
     (reservation_hold list, 'w checkout_context \<times> 'd) act" where
  "releaseCheckoutHolds release0 variants bus source holds =
     (case release0 of
        None \<Rightarrow> ret []
      | Some release \<Rightarrow>
          bindW (release_each release variants bus source holds) (\<lambda>(failed, parents).
          bindW (forW (\<lambda>p. publishCheckoutParentStockUpdated bus p source) (remdups parents)) (\<lambda>_. ret failed)))"

text \<open>A map of quantities: the list of its entries, with distinct keys.\<close>

fun add_qty :: "(string \<times> int64) list \<Rightarrow> string \<Rightarrow> int64 \<Rightarrow> (string \<times> int64) list" where
  "add_qty [] k q = [(k, q)]"
| "add_qty ((k', q') # m) k q = (if k' = k then (k', q' + q) # m else (k', q') # add_qty m k q)"

definition hold_qty :: "reservation_hold list \<Rightarrow> (string \<times> int64) list" where
  "hold_qty hs = fold (\<lambda>h m. add_qty m (rh_VariantID h) (rh_Quantity h)) hs []"

definition noteReservationRelease :: "reservation_hold list \<Rightarrow> 'w checkout_context \<Rightarrow> 'w checkout_context" where
  "noteReservationRelease failed c =
     (if \<not> reservedMetaTrue c \<and> reservationHoldsFromMeta c = [] then c
      else if failed = []
      then SetMeta ''reserved_variant_qty'' (CQty []) (SetMeta ''reservation_holds'' (CHolds [])
             (SetMeta ''reservations'' (CStrs []) (SetMeta ''reserved'' (CBool False) c)))
      else
        let ids = filter (\<lambda>x. x \<noteq> []) (map rh_ID failed);
            qty = hold_qty (filter (\<lambda>h. rh_VariantID h \<noteq> [] \<and> rh_Quantity h \<noteq> 0) failed);
            c' = SetMeta ''reservation_holds'' (CHolds failed) (SetMeta ''reservations'' (CStrs ids)
                   (SetMeta ''reserved'' (CBool False) c)) in
        if qty = [] then c' else SetMeta ''reserved_variant_qty'' (CQty qty) c')"

definition note_release :: "reservation_hold list \<Rightarrow> (unit, 'w checkout_context \<times> 'd) act" where
  "note_release failed = modifies (\<lambda>(c, d). (noteReservationRelease failed c, d))"

definition releaseReserved ::
    "('w, 'd) reserve_step \<Rightarrow> reservation_hold list \<Rightarrow> (reservation_hold list, 'w checkout_context \<times> 'd) act" where
  "releaseReserved st holds =
     bindW (releaseCheckoutHolds (Some (rs_release st)) (Some (rs_variants st)) (rs_bus st) ''checkout.reserve_inventory'' holds)
       (\<lambda>failed. bindW (note_release failed) (\<lambda>_. ret failed))"

definition still_held :: "nat \<Rightarrow> gerror" where
  "still_held n = Err (''reserve_inventory: '' @ nat_decimal n @ '' reservations from the previous attempt are still held'')"

definition releaseStaleHolds :: "('w, 'd) reserve_step \<Rightarrow> (unit, 'w checkout_context \<times> 'd) act" where
  "releaseStaleHolds st =
     bindW (reads (\<lambda>s. reservationHoldsFromMeta (fst s))) (\<lambda>holds.
     if holds = [] then ret ()
     else bindW (releaseReserved st holds) (\<lambda>failed.
       if failed \<noteq> [] then raise (still_held (length failed)) else ret ()))"

section \<open>Targets\<close>

record reserve_target =
  rt_variantID :: string
  rt_quantity :: int64
  rt_bundleProductID :: string

definition bundleReserveError :: "string \<Rightarrow> gerror \<Rightarrow> gerror" where
  "bundleReserveError bundleID e =
     (if app_code_of e \<in> {Some Validation, Some NotFound, Some Conflict} then BundleCustomerError e
      else Wrap (''reserve_inventory: bundle '' @ bundleID) e)"

fun leaf_targets :: "string \<Rightarrow> int64 \<Rightarrow> 'w required_leaf list \<Rightarrow> reserve_target list outcome" where
  "leaf_targets bundleID itemQty [] = Ok []"
| "leaf_targets bundleID itemQty (l # ls) =
     (let t = pd_Type (rl_Product l); cq = bc_Quantity (rl_Component l); cid = bc_ComponentProductID (rl_Component l) in
      if t = TypeVirtual \<or> t = TypeDownloadable then leaf_targets bundleID itemQty ls
      else if t = TypeSimple then
        let need = cq * itemQty in
        if itemQty <s 1 \<or> cq <s 1 \<or> go_div need cq \<noteq> itemQty
        then Fail (bundleReserveError bundleID
               (AppErr Validation (''dynamic bundle component '' @ cid @ '' reserve quantity is invalid'')))
        else bindO (leaf_targets bundleID itemQty ls) (\<lambda>ts.
          Ok (\<lparr>rt_variantID = v_ID (rl_Variant l), rt_quantity = need, rt_bundleProductID = bundleID\<rparr> # ts))
      else Fail (bundleReserveError bundleID
             (AppErr Validation (''dynamic bundle component '' @ cid @ '' must be a simple, virtual, or downloadable product''))))"

definition dynamicBundleTargets ::
    "('w, 'd) reserve_step \<Rightarrow> req_ctx \<Rightarrow> string \<Rightarrow> int64 \<Rightarrow> reserve_target list outcome" where
  "dynamicBundleTargets st ctx bundleID itemQty =
     bindO (mapErr (bundleReserveError bundleID)
        (RequiredLeafVariants ctx (Some (rs_products st)) (Some (rs_variants st)) (Some (rs_components st)) bundleID))
       (leaf_targets bundleID itemQty)"

definition reserveTargets ::
    "('w, 'd) reserve_step \<Rightarrow> req_ctx \<Rightarrow> 'w checkout_context \<Rightarrow> cart_item \<Rightarrow> reserve_target list outcome" where
  "reserveTargets st ctx c item =
     bindO (case cartVariantFromMeta c (ci_VariantID item) of
              Some v \<Rightarrow> Ok v
            | None \<Rightarrow>
                bindO (mapErr (Wrap (''reserve_inventory: lookup variant '' @ ci_VariantID item))
                         (of_res (vr_find (rs_variants st) (ci_VariantID item)))) (\<lambda>found.
                case found of
                  None \<Rightarrow> Fail (Err (''reserve_inventory: variant '' @ ci_VariantID item @ '' no longer exists''))
                | Some v \<Rightarrow> Ok v)) (\<lambda>variant.
     bindO (case cartProductFromMeta c (v_ProductID variant) of
              Some p \<Rightarrow> Ok p
            | None \<Rightarrow>
                bindO (mapErr (Wrap (''reserve_inventory: lookup product '' @ v_ProductID variant))
                         (of_res (pq_find (rs_products st) ctx (v_ProductID variant)))) (\<lambda>found.
                case found of
                  None \<Rightarrow> Fail (Err (''reserve_inventory: product '' @ v_ProductID variant @ '' not found''))
                | Some p \<Rightarrow> Ok p)) (\<lambda>product.
     if pd_Type product = TypeBundle \<and> pd_StockMode product = StockModeDynamic
     then dynamicBundleTargets st (linePurchaseContext ctx item) (pd_ID product) (ci_Quantity item)
     else Ok [\<lparr>rt_variantID = ci_VariantID item, rt_quantity = ci_Quantity item, rt_bundleProductID = []\<rparr>]))"

section \<open>Reserving\<close>

definition hold_of :: "reservation \<Rightarrow> string \<Rightarrow> reservation_hold" where
  "hold_of res bundleID = \<lparr>rh_ID = rv_ID res, rh_VariantID = rv_VariantID res, rh_Quantity = rv_Quantity res,
     rh_BundleProductID = bundleID\<rparr>"

text \<open>The targets of one line; the value adds their holds and says which bundle they belong to.\<close>

fun reserve_line ::
    "('w, 'd) reserve_step \<Rightarrow> gotime \<Rightarrow> reserve_target list \<Rightarrow> reservation_hold list \<Rightarrow> string \<Rightarrow>
     (reservation_hold list \<times> string, 'w checkout_context \<times> 'd) act" where
  "reserve_line st expiresAt [] reserved bundle = ret (reserved, bundle)"
| "reserve_line st expiresAt (t # ts) reserved bundle =
     bindW (on_snd (rs_newID st)) (\<lambda>rid.
     bindW (on_snd (rs_now st)) (\<lambda>now.
     case NewReservation now rid (rt_variantID t) (rt_quantity t) expiresAt of
       Panics p \<Rightarrow> lift (Panics p)
     | Fail e \<Rightarrow> bindW (releaseReserved st reserved) (\<lambda>_. raise (Wrap ''reserve_inventory: create reservation'' e))
     | Ok res \<Rightarrow>
         tryW (on_snd (rs_reserve st res))
           (\<lambda>_. bindW (publishCheckoutStockUpdated (Some (rs_variants st)) (rs_bus st) (rv_VariantID res) (- rv_Quantity res)
                   ''checkout.reserve_inventory'') (\<lambda>_.
                reserve_line st expiresAt ts (reserved @ [hold_of res (rt_bundleProductID t)])
                  (if rt_bundleProductID t = [] then bundle else rt_bundleProductID t)))
           (\<lambda>e. bindW (releaseReserved st reserved) (\<lambda>_.
                raise (if rt_bundleProductID t \<noteq> []
                       then bundleReserveError (rt_bundleProductID t) (Wrap (''variant '' @ rt_variantID t) e)
                       else Wrap (''reserve_inventory: variant '' @ rt_variantID t) e)))))"

fun reserve_items ::
    "('w, 'd) reserve_step \<Rightarrow> req_ctx \<Rightarrow> gotime \<Rightarrow> cart_item list \<Rightarrow> reservation_hold list \<Rightarrow>
     (reservation_hold list, 'w checkout_context \<times> 'd) act" where
  "reserve_items st ctx expiresAt [] reserved = ret reserved"
| "reserve_items st ctx expiresAt (i # is) reserved =
     bindW (reads (\<lambda>s. reserveTargets st ctx (fst s) i)) (\<lambda>r.
     case r of
       Panics p \<Rightarrow> lift (Panics p)
     | Fail e \<Rightarrow> bindW (releaseReserved st reserved) (\<lambda>_. raise e)
     | Ok ts \<Rightarrow>
         bindW (reserve_line st expiresAt ts reserved []) (\<lambda>(reserved', bundle).
         bindW (if bundle = [] then ret ()
                else publishCheckoutParentStockUpdated (rs_bus st) bundle ''checkout.reserve_inventory'') (\<lambda>_.
         reserve_items st ctx expiresAt is reserved')))"

definition note_reserved :: "reservation_hold list \<Rightarrow> 'w checkout_context \<Rightarrow> 'w checkout_context" where
  "note_reserved holds c =
     SetMeta ''reserved'' (CBool True) (SetMeta ''reserved_variant_qty'' (CQty (hold_qty holds))
       (SetMeta ''reservation_holds'' (CHolds holds) (SetMeta ''reservations'' (CStrs (map rh_ID holds)) c)))"

definition ReserveInventory_Execute ::
    "('w, 'd) reserve_step \<Rightarrow> req_ctx \<Rightarrow> (unit, 'w checkout_context \<times> 'd) act" where
  "ReserveInventory_Execute st ctx =
     bindW (reads (\<lambda>s. reservedMetaTrue (fst s))) (\<lambda>reserved.
     if reserved then ret ()
     else bindW (releaseStaleHolds st) (\<lambda>_.
     bindW (reads (\<lambda>s. cx_Cart (fst s))) (\<lambda>cart0.
     case cart0 of
       None \<Rightarrow> raise (Err ''reserve_inventory: cart not loaded'')
     | Some k \<Rightarrow>
         bindW (on_snd (rs_now st)) (\<lambda>now.
         bindW (reserve_items st ctx (now + rs_ttl st) (c_Items k) []) (\<lambda>holds.
         modifies (\<lambda>(c, d). (note_reserved holds c, d)))))))"

definition ReserveInventory :: "('w, 'd) reserve_step \<Rightarrow> ('w, 'd) checkout_step" where
  "ReserveInventory st = \<lparr>sp_name = ''reserve_inventory'', sp_run = ReserveInventory_Execute st\<rparr>"

end
