(* ===== verification/Holds.thy ===== *)
theory Holds
  imports CheckoutReserve
begin

text \<open>
  All or nothing: the step \<open>reserve_inventory\<close> holds every target of the cart or gives back what
  it had taken. The contract \<open>hold_store\<close> is what the step needs of the reservation
  repository; it is interpreted on the tables of \<open>Inventory\<close>.
\<close>

section \<open>The contract\<close>

definition stock_is ::
    "('d \<Rightarrow> bool) \<Rightarrow> ('d \<Rightarrow> string \<Rightarrow> (string \<times> int) option) \<Rightarrow> ('d \<Rightarrow> string \<Rightarrow> int) \<Rightarrow>
     (string \<Rightarrow> (string \<times> int) option) \<Rightarrow> (string \<Rightarrow> int) \<Rightarrow> 'd \<Rightarrow> bool" where
  "stock_is good active level A L d \<longleftrightarrow> good d \<and> active d = A \<and> level d = L"

text \<open>Any state: nothing is said of what a panic leaves.\<close>

abbreviation anyhow :: "'s \<Rightarrow> bool" where "anyhow \<equiv> \<lambda>_. True"

text \<open>What a hold was taken for, and the targets of all the lines.\<close>

definition target_of :: "reservation_hold \<Rightarrow> reserve_target" where
  "target_of h = \<lparr>rt_variantID = rh_VariantID h, rt_quantity = rh_Quantity h, rt_bundleProductID = rh_BundleProductID h\<rparr>"

fun cart_targets ::
    "('w, 'd) reserve_step \<Rightarrow> req_ctx \<Rightarrow> 'w checkout_context \<Rightarrow> cart_item list \<Rightarrow> reserve_target list outcome" where
  "cart_targets st ctx c [] = Ok []"
| "cart_targets st ctx c (i # is) =
     bindO (reserveTargets st ctx c i) (\<lambda>ts. bindO (cart_targets st ctx c is) (\<lambda>us. Ok (ts @ us)))"

text \<open>The reservations and levels when the holds \<open>hs\<close> have been taken as well.\<close>

definition taken :: "(string \<Rightarrow> (string \<times> int) option) \<Rightarrow> reservation_hold list \<Rightarrow> string \<Rightarrow> (string \<times> int) option" where
  "taken A hs = A ++ map_of (map (\<lambda>h. (rh_ID h, (rh_VariantID h, sint (rh_Quantity h)))) hs)"

definition left :: "(string \<Rightarrow> int) \<Rightarrow> reservation_hold list \<Rightarrow> string \<Rightarrow> int" where
  "left L hs v = L v - (\<Sum>h\<leftarrow>filter (\<lambda>h. rh_VariantID h = v) hs. sint (rh_Quantity h))"

lemma taken_Nil [simp]: "taken A [] = A"
  by (simp add: taken_def)

lemma left_Nil [simp]: "left L [] = L"
  by (simp add: left_def fun_eq_iff)

locale hold_store =
  fixes st :: "('w, 'd) reserve_step"
    and good :: "'d \<Rightarrow> bool"
    and active :: "'d \<Rightarrow> string \<Rightarrow> (string \<times> int) option"
    and level :: "'d \<Rightarrow> string \<Rightarrow> int"
    and idok :: "string \<Rightarrow> bool"
  assumes reserve_law: "rv_Status res = ReservationActive \<Longrightarrow>
      quad (stock_is good active level A L) (rs_reserve st res)
        (\<lambda>_ d. A (rv_ID res) = None \<and>
           stock_is good active level (A(rv_ID res \<mapsto> (rv_VariantID res, sint (rv_Quantity res))))
             (L(rv_VariantID res := L (rv_VariantID res) - sint (rv_Quantity res))) d)
        (stock_is good active level A L) anyhow"
    and release_law: "quad (stock_is good active level A L) (rs_release st rid)
        (\<lambda>_ d. \<exists>v q. A rid = Some (v, q) \<and> stock_is good active level (A(rid := None)) (L(v := L v + q)) d)
        (stock_is good active level A L) anyhow"
    and newID_law: "quad (stock_is good active level A L) (rs_newID st)
        (\<lambda>rid d. idok rid \<and> stock_is good active level A L d) (\<lambda>_. False) anyhow"
    and now_law: "quad (stock_is good active level A L) (rs_now st) (\<lambda>_. stock_is good active level A L) (\<lambda>_. False) anyhow"
    and bus_law: "rs_bus st = Some b \<Longrightarrow>
        quad (stock_is good active level A L) (b evt) (\<lambda>_. stock_is good active level A L) (stock_is good active level A L) anyhow"
begin

abbreviation world :: "(string \<Rightarrow> (string \<times> int) option) \<Rightarrow> (string \<Rightarrow> int) \<Rightarrow> 'd \<Rightarrow> bool" where
  "world \<equiv> stock_is good active level"

definition own :: "(string \<Rightarrow> (string \<times> int) option) \<Rightarrow> reservation_hold list \<Rightarrow> bool" where
  "own A hs \<longleftrightarrow> distinct (map rh_ID hs) \<and> (\<forall>h \<in> set hs. A (rh_ID h) = None \<and> rh_ID h \<noteq> [] \<and> idok (rh_ID h))"

definition holding :: "'w checkout_context \<Rightarrow> (string \<Rightarrow> (string \<times> int) option) \<Rightarrow> (string \<Rightarrow> int) \<Rightarrow> reservation_hold list \<Rightarrow>
    'w checkout_context \<times> 'd \<Rightarrow> bool" where
  "holding c A L hs s \<longleftrightarrow> fst s = c \<and> world (taken A hs) (left L hs) (snd s)"

lemma map_of_hold: "rh_ID h \<in> rh_ID ` set hs \<longleftrightarrow>
    map_of (map (\<lambda>h. (rh_ID h, (rh_VariantID h, sint (rh_Quantity h)))) hs) (rh_ID h) \<noteq> None"
  by (auto simp: map_of_eq_None_iff image_iff)

lemma own_split: "own A (F @ h # hs) \<Longrightarrow> own A (F @ hs)"
  by (auto simp: own_def)

lemma taken_at: "own A (F @ h # hs) \<Longrightarrow> taken A (F @ h # hs) (rh_ID h) = Some (rh_VariantID h, sint (rh_Quantity h))"
  by (auto simp: own_def taken_def map_add_def split: option.splits dest!: map_of_SomeD)

lemma taken_without:
  assumes "own A (F @ h # hs)"
  shows "(taken A (F @ h # hs))(rh_ID h := None) = taken A (F @ hs)"
proof
  fix k
  have "rh_ID h \<notin> rh_ID ` set F" "rh_ID h \<notin> rh_ID ` set hs" "A (rh_ID h) = None"
    using assms by (auto simp: own_def)
  then have "map_of (map (\<lambda>h. (rh_ID h, (rh_VariantID h, sint (rh_Quantity h)))) F) (rh_ID h) = None"
    "map_of (map (\<lambda>h. (rh_ID h, (rh_VariantID h, sint (rh_Quantity h)))) hs) (rh_ID h) = None" "A (rh_ID h) = None"
    by (auto simp: map_of_eq_None_iff image_iff)
  then show "((taken A (F @ h # hs))(rh_ID h := None)) k = taken A (F @ hs) k"
    by (auto simp: taken_def map_add_def split: option.splits)
qed

lemma left_without: "(left L (F @ h # hs))(rh_VariantID h := left L (F @ h # hs) (rh_VariantID h) + sint (rh_Quantity h)) = left L (F @ hs)"
  by (auto simp: left_def fun_eq_iff)

lemma taken_snoc:
  assumes "rh_ID h \<notin> rh_ID ` set hs"
  shows "(taken A hs)(rh_ID h \<mapsto> (rh_VariantID h, sint (rh_Quantity h))) = taken A (hs @ [h])"
proof
  fix k
  have "map_of (map (\<lambda>h. (rh_ID h, (rh_VariantID h, sint (rh_Quantity h)))) hs) (rh_ID h) = None"
    using assms by (auto simp: map_of_eq_None_iff image_iff)
  then show "((taken A hs)(rh_ID h \<mapsto> (rh_VariantID h, sint (rh_Quantity h)))) k = taken A (hs @ [h]) k"
    by (auto simp: taken_def map_add_def split: option.splits)
qed

lemma left_snoc: "(left L hs)(rh_VariantID h := left L hs (rh_VariantID h) - sint (rh_Quantity h)) = left L (hs @ [h])"
  by (auto simp: left_def fun_eq_iff)

section \<open>Surroundings\<close>

lemma on_snd_quad:
  "quad (world B M) m Q R anyhow \<Longrightarrow>
   quad (\<lambda>s. fst s = c \<and> world B M (snd s)) (on_snd m) (\<lambda>x s. fst s = c \<and> Q x (snd s)) (\<lambda>s. fst s = c \<and> R (snd s)) anyhow"
proof (rule quadI)
  fix s
  assume m: "quad (world B M) m Q R anyhow" and s: "fst s = c \<and> world B M (snd s)"
  then have "ends3 Q R anyhow (m (snd s))" by (auto dest: quadD)
  then show "ends3 (\<lambda>x s. fst s = c \<and> Q x (snd s)) (\<lambda>s. fst s = c \<and> R (snd s)) anyhow (on_snd m s)"
    using s by (cases "m (snd s)" rule: outcome_pair_cases) (auto simp: on_snd_def)
qed

lemma attempt_quad:
  assumes "quad P m (\<lambda>_. P) P anyhow"
  shows "quad P (attempt m) (\<lambda>_. P) R anyhow"
  unfolding attempt_def by (rule quad_tryW [OF assms]) (auto intro: quad_ret)

lemma bus_quad: "rs_bus st = Some b \<Longrightarrow> quad (holding c A L hs) (attempt (on_snd (b evt))) (\<lambda>_. holding c A L hs) R anyhow"
  unfolding holding_def by (rule attempt_quad) (rule on_snd_quad, rule bus_law)

lemma publish_quad:
  "quad (holding c A L hs) (publishCheckoutStockUpdated vs (rs_bus st) v delta src) (\<lambda>_. holding c A L hs) R anyhow"
  unfolding publishCheckoutStockUpdated_def
  by (cases "rs_bus st")
    (auto intro!: quad_ret quad_reads_pure [where v = "cartVariantFromMeta c v"] bus_quad simp: holding_def
      split: option.split)

lemma publish_parent_quad:
  "quad (holding c A L hs) (publishCheckoutParentStockUpdated (rs_bus st) p src) (\<lambda>_. holding c A L hs) R anyhow"
  unfolding publishCheckoutParentStockUpdated_def
  by (cases "rs_bus st") (auto intro!: quad_ret bus_quad)

section \<open>Releasing\<close>

text \<open>A hold that the repository refused to release although it was active.\<close>

definition refused :: "reservation_hold \<Rightarrow> bool" where
  "refused h \<longleftrightarrow> (\<exists>d e. good d \<and> active d (rh_ID h) = Some (rh_VariantID h, sint (rh_Quantity h)) \<and>
     fst (rs_release st (rh_ID h) d) = Fail e)"

lemma release_quad:
  assumes own: "own A (F @ h # hs)"
  shows "quad (holding c A L (F @ h # hs)) (on_snd (rs_release st (rh_ID h)))
    (\<lambda>_. holding c A L (F @ hs)) (\<lambda>s. refused h \<and> holding c A L (F @ h # hs) s) anyhow"
proof -
  let ?W = "world (taken A (F @ h # hs)) (left L (F @ h # hs))"
  have "quad ?W (rs_release st (rh_ID h)) (\<lambda>_. world (taken A (F @ hs)) (left L (F @ hs)))
      (\<lambda>d. ?W d \<and> (\<exists>d0. ?W d0 \<and> (\<exists>e. fst (rs_release st (rh_ID h) d0) = Fail e))) anyhow"
  proof (rule quad_weaken [OF quad_blame [OF release_law]])
    fix u d
    assume "\<exists>v q. taken A (F @ h # hs) (rh_ID h) = Some (v, q) \<and>
      world ((taken A (F @ h # hs))(rh_ID h := None)) ((left L (F @ h # hs))(v := left L (F @ h # hs) v + q)) d"
    then show "world (taken A (F @ hs)) (left L (F @ hs)) d"
      using taken_at [OF own] taken_without [OF own] left_without [of L F h hs] by auto
  qed auto
  then have "quad ?W (rs_release st (rh_ID h)) (\<lambda>_. world (taken A (F @ hs)) (left L (F @ hs))) (\<lambda>d. refused h \<and> ?W d) anyhow"
    by (rule quad_weaken) (use taken_at [OF own] in \<open>auto simp: refused_def stock_is_def\<close>)
  from on_snd_quad [OF this, of c] show ?thesis
    unfolding holding_def by (rule quad_weaken) auto
qed

lemma release_each_quad:
  "own A (F @ hs) \<Longrightarrow>
   quad (holding c A L (F @ hs)) (release_each (rs_release st) vs (rs_bus st) src hs)
     (\<lambda>(failed, parents) s. (subseq failed hs \<and> (\<forall>h \<in> set failed. refused h)) \<and> holding c A L (F @ failed) s) R anyhow"
proof (induction hs arbitrary: F)
  case Nil
  then show ?case by (auto intro: quad_ret)
next
  case (Cons h hs)
  have id: "rh_ID h \<noteq> []" using Cons.prems by (simp add: own_def)
  have released: "quad (holding c A L (F @ hs))
      (bindW (if rh_VariantID h \<noteq> [] \<and> rh_Quantity h \<noteq> 0
              then publishCheckoutStockUpdated vs (rs_bus st) (rh_VariantID h) (rh_Quantity h) src else ret ()) (\<lambda>_.
       bindW (release_each (rs_release st) vs (rs_bus st) src hs) (\<lambda>(failed, parents).
       ret (failed, if rh_BundleProductID h = [] then parents else rh_BundleProductID h # parents))))
      (\<lambda>(failed, parents) s. (subseq failed (h # hs) \<and> (\<forall>h \<in> set failed. refused h)) \<and> holding c A L (F @ failed) s) R anyhow"
  proof (rule quad_bind)
    show "quad (holding c A L (F @ hs))
      (if rh_VariantID h \<noteq> [] \<and> rh_Quantity h \<noteq> 0
       then publishCheckoutStockUpdated vs (rs_bus st) (rh_VariantID h) (rh_Quantity h) src else ret ()) (\<lambda>_. holding c A L (F @ hs)) R anyhow"
      by (simp add: publish_quad quad_ret)
    show "quad (holding c A L (F @ hs)) (bindW (release_each (rs_release st) vs (rs_bus st) src hs) (\<lambda>(failed, parents).
       ret (failed, if rh_BundleProductID h = [] then parents else rh_BundleProductID h # parents)))
      (\<lambda>(failed, parents) s. (subseq failed (h # hs) \<and> (\<forall>h \<in> set failed. refused h)) \<and> holding c A L (F @ failed) s) R anyhow"
      by (rule quad_bind [OF Cons.IH [OF own_split [OF Cons.prems]]]) (auto intro!: quad_ret)
  qed
  have kept: "quad (\<lambda>s. refused h \<and> holding c A L (F @ h # hs) s)
      (bindW (release_each (rs_release st) vs (rs_bus st) src hs) (\<lambda>(failed, parents). ret (h # failed, parents)))
      (\<lambda>(failed, parents) s. (subseq failed (h # hs) \<and> (\<forall>h \<in> set failed. refused h)) \<and> holding c A L (F @ failed) s) R anyhow"
  proof (rule quad_pure)
    assume ref: "refused h"
    have "own A ((F @ [h]) @ hs)" using Cons.prems by simp
    from Cons.IH [OF this]
    show "quad (holding c A L (F @ h # hs))
      (bindW (release_each (rs_release st) vs (rs_bus st) src hs) (\<lambda>(failed, parents). ret (h # failed, parents)))
      (\<lambda>(failed, parents) s. (subseq failed (h # hs) \<and> (\<forall>h \<in> set failed. refused h)) \<and> holding c A L (F @ failed) s) R anyhow"
      by (simp, elim quad_bind) (auto intro!: quad_ret ref)
  qed
  show ?case
    unfolding release_each.simps if_not_P [OF id] by (rule quad_tryW [OF release_quad [OF Cons.prems] released kept])
qed

lemma forW_quad: "(\<And>x. quad P (f x) (\<lambda>_. P) R S) \<Longrightarrow> quad P (forW f xs) (\<lambda>_. P) R S"
  by (induction xs) (auto intro: quad_ret quad_bind)

lemma releaseCheckoutHolds_quad:
  assumes "own A hs"
  shows "quad (holding c A L hs) (releaseCheckoutHolds (Some (rs_release st)) vs (rs_bus st) src hs)
    (\<lambda>failed s. (subseq failed hs \<and> (\<forall>h \<in> set failed. refused h)) \<and> holding c A L failed s) R anyhow"
  unfolding releaseCheckoutHolds_def option.case
proof (rule quad_bind)
  show "quad (holding c A L hs) (release_each (rs_release st) vs (rs_bus st) src hs)
     (\<lambda>(failed, parents) s. (subseq failed hs \<and> (\<forall>h \<in> set failed. refused h)) \<and> holding c A L failed s) R anyhow"
    using release_each_quad [of A "[]" hs c L vs src R] assms by simp
  show "quad (case x of (failed, parents) \<Rightarrow> \<lambda>s. (subseq failed hs \<and> (\<forall>h \<in> set failed. refused h)) \<and> holding c A L failed s)
     (case x of (failed, parents) \<Rightarrow>
        bindW (forW (\<lambda>p. publishCheckoutParentStockUpdated (rs_bus st) p src) (remdups parents)) (\<lambda>_. ret failed))
     (\<lambda>failed s. (subseq failed hs \<and> (\<forall>h \<in> set failed. refused h)) \<and> holding c A L failed s) R anyhow" for x
    by (cases x) (auto intro!: quad_pure quad_bind [OF forW_quad [OF publish_parent_quad]] quad_ret)
qed

text \<open>What remains after a rollback, whatever the context says of it.\<close>

definition rolled_back :: "(string \<Rightarrow> (string \<times> int) option) \<Rightarrow> (string \<Rightarrow> int) \<Rightarrow> 'w checkout_context \<times> 'd \<Rightarrow> bool" where
  "rolled_back A L s \<longleftrightarrow> (\<exists>F. own A F \<and> (\<forall>h \<in> set F. refused h) \<and> world (taken A F) (left L F) (snd s))"

lemma own_subseq:
  assumes "own A hs" "subseq F hs"
  shows "own A F"
proof -
  obtain N where "map rh_ID F = nths (map rh_ID hs) N" using subseq_map [OF assms(2)] by (auto simp: subseq_conv_nths)
  then have "distinct (map rh_ID F)" using assms(1) by (simp add: own_def distinct_nthsI)
  moreover have "set F \<subseteq> set hs" using assms(2) by (auto dest: list_emb_set)
  ultimately show ?thesis using assms(1) by (auto simp: own_def)
qed

lemma releaseReserved_quad:
  assumes "own A hs"
  shows "quad (holding c A L hs) (releaseReserved st hs)
    (\<lambda>failed s. (subseq failed hs \<and> (\<forall>h \<in> set failed. refused h)) \<and> holding (noteReservationRelease failed c) A L failed s) R anyhow"
  unfolding releaseReserved_def note_release_def
  by (rule quad_bind [OF releaseCheckoutHolds_quad [OF assms]], rule quad_pure, rule quad_bind [where Q = "\<lambda>_. holding (noteReservationRelease failed c) A L failed" for failed])
   (auto simp: quad_def modifies_def holding_def ret_def)

lemma rollback_quad:
  assumes "own A hs"
  shows "quad (holding c A L hs) (bindW (releaseReserved st hs) (\<lambda>_. raise e)) Q (rolled_back A L) anyhow"
proof (rule quad_bind [OF releaseReserved_quad [OF assms]], rule quad_raise)
  fix failed s
  assume "(subseq failed hs \<and> (\<forall>h \<in> set failed. refused h)) \<and> holding (noteReservationRelease failed c) A L failed s"
  then show "rolled_back A L s"
    using own_subseq [OF assms] unfolding rolled_back_def holding_def by blast
qed

section \<open>Reserving\<close>

lemma taken_None: "taken A hs k = None \<longleftrightarrow> A k = None \<and> k \<notin> rh_ID ` set hs"
  by (auto simp: taken_def map_of_eq_None_iff image_iff)

lemma reserve_quad:
  assumes own: "own A hs" and res: "rv_Status res = ReservationActive" "idok (rv_ID res)" "rv_ID res \<noteq> []"
  shows "quad (holding c A L hs) (on_snd (rs_reserve st res))
    (\<lambda>_ s. own A (hs @ [hold_of res b]) \<and> holding c A L (hs @ [hold_of res b]) s) (holding c A L hs) anyhow"
proof -
  let ?h = "hold_of res b"
  have h: "rh_ID ?h = rv_ID res" "rh_VariantID ?h = rv_VariantID res" "rh_Quantity ?h = rv_Quantity res"
    by (simp_all add: hold_of_def)
  have "quad (world (taken A hs) (left L hs)) (rs_reserve st res)
      (\<lambda>_ d. own A (hs @ [?h]) \<and> world (taken A (hs @ [?h])) (left L (hs @ [?h])) d) (world (taken A hs) (left L hs)) anyhow"
  proof (rule quad_weaken [OF reserve_law [OF res(1)]])
    fix u d
    assume d: "taken A hs (rv_ID res) = None \<and>
      world ((taken A hs)(rv_ID res \<mapsto> (rv_VariantID res, sint (rv_Quantity res))))
        ((left L hs)(rv_VariantID res := left L hs (rv_VariantID res) - sint (rv_Quantity res))) d"
    then have new: "A (rv_ID res) = None" "rh_ID ?h \<notin> rh_ID ` set hs" by (simp_all add: taken_None h)
    show "own A (hs @ [?h]) \<and> world (taken A (hs @ [?h])) (left L (hs @ [?h])) d"
      using d own new res taken_snoc [OF new(2), of A] left_snoc [of L hs ?h] by (auto simp: h own_def)
  qed auto
  from on_snd_quad [OF this, of c] show ?thesis
    unfolding holding_def by (rule quad_weaken) auto
qed

lemma newID_quad: "quad (holding c A L hs) (on_snd (rs_newID st)) (\<lambda>rid s. idok rid \<and> holding c A L hs s) R anyhow"
  unfolding holding_def by (rule quad_weaken [OF on_snd_quad [OF newID_law]]) auto

lemma now_quad: "quad (holding c A L hs) (on_snd (rs_now st)) (\<lambda>_. holding c A L hs) R anyhow"
  unfolding holding_def by (rule quad_weaken [OF on_snd_quad [OF now_law]]) auto

lemma reserve_line_quad:
  "own A hs \<Longrightarrow>
   quad (holding c A L hs) (reserve_line st ex ts hs b)
     (\<lambda>(hs', b') s. (own A hs' \<and> map target_of hs' = map target_of hs @ ts) \<and> holding c A L hs' s) (rolled_back A L) anyhow"
proof (induction ts arbitrary: hs b)
  case Nil
  then show ?case by (auto intro: quad_ret)
next
  case (Cons t ts)
  let ?goal = "\<lambda>(hs', b') s. (own A hs' \<and> map target_of hs' = map target_of hs @ t # ts) \<and> holding c A L hs' s"
  have taken_one: "quad (holding c A L hs)
      (case NewReservation now rid (rt_variantID t) (rt_quantity t) ex of
         Ok res \<Rightarrow>
           tryW (on_snd (rs_reserve st res))
             (\<lambda>_. bindW (publishCheckoutStockUpdated (Some (rs_variants st)) (rs_bus st) (rv_VariantID res) (- rv_Quantity res)
                     ''checkout.reserve_inventory'') (\<lambda>_.
                  reserve_line st ex ts (hs @ [hold_of res (rt_bundleProductID t)])
                    (if rt_bundleProductID t = [] then b else rt_bundleProductID t)))
             (\<lambda>e. bindW (releaseReserved st hs) (\<lambda>_.
                  raise (if rt_bundleProductID t \<noteq> []
                         then bundleReserveError (rt_bundleProductID t) (Wrap (''variant '' @ rt_variantID t) e)
                         else Wrap (''reserve_inventory: variant '' @ rt_variantID t) e)))
       | Fail e \<Rightarrow> bindW (releaseReserved st hs) (\<lambda>_. raise (Wrap ''reserve_inventory: create reservation'' e))
       | Panics p \<Rightarrow> lift (Panics p)) ?goal (rolled_back A L) anyhow" if id: "idok rid" for rid now
  proof (cases "NewReservation now rid (rt_variantID t) (rt_quantity t) ex")
    case (Ok res)
    then have res: "rv_Status res = ReservationActive" "rv_ID res = rid" "rid \<noteq> []"
      "target_of (hold_of res (rt_bundleProductID t)) = t"
      by (auto simp: NewReservation_def target_of_def hold_of_def split: if_splits)
    let ?h = "hold_of res (rt_bundleProductID t)"
    have "quad (holding c A L (hs @ [?h]))
        (bindW (publishCheckoutStockUpdated (Some (rs_variants st)) (rs_bus st) (rv_VariantID res) (- rv_Quantity res)
           ''checkout.reserve_inventory'') (\<lambda>_.
         reserve_line st ex ts (hs @ [?h]) (if rt_bundleProductID t = [] then b else rt_bundleProductID t)))
        ?goal (rolled_back A L) anyhow" if "own A (hs @ [?h])"
      by (rule quad_bind [OF publish_quad], rule quad_weaken [OF Cons.IH [OF that]]) (auto simp: res)
    then show ?thesis
      unfolding Ok outcome.case
      by (intro quad_tryW [OF reserve_quad [OF Cons.prems], where b1 = "rt_bundleProductID t"])
        (use id res in \<open>auto intro: quad_pure rollback_quad [OF Cons.prems]\<close>)
  qed (auto intro: quad_panic rollback_quad [OF Cons.prems])
  show ?case
    unfolding reserve_line.simps
    by (rule quad_bind [OF newID_quad], rule quad_pure, rule quad_bind [OF now_quad], rule taken_one)
qed

lemma reserve_items_quad:
  "own A hs \<Longrightarrow>
   quad (holding c A L hs) (reserve_items st ctx ex is hs)
     (\<lambda>hs' s. (own A hs' \<and> (\<exists>ts. cart_targets st ctx c is = Ok ts \<and> map target_of hs' = map target_of hs @ ts)) \<and> holding c A L hs' s)
     (rolled_back A L) anyhow"
proof (induction "is" arbitrary: hs)
  case Nil
  then show ?case by (auto intro: quad_ret)
next
  case (Cons i "is")
  let ?goal = "\<lambda>hs' s. (own A hs' \<and> (\<exists>ts. cart_targets st ctx c (i # is) = Ok ts \<and> map target_of hs' = map target_of hs @ ts)) \<and>
    holding c A L hs' s"
  have line: "quad (holding c A L hs)
      (case reserveTargets st ctx c i of
         Ok ts \<Rightarrow> bindW (reserve_line st ex ts hs []) (\<lambda>(hs', b).
           bindW (if b = [] then ret () else publishCheckoutParentStockUpdated (rs_bus st) b ''checkout.reserve_inventory'')
             (\<lambda>_. reserve_items st ctx ex is hs'))
       | Fail e \<Rightarrow> bindW (releaseReserved st hs) (\<lambda>_. raise e)
       | Panics p \<Rightarrow> lift (Panics p)) ?goal (rolled_back A L) anyhow"
  proof (cases "reserveTargets st ctx c i")
    case (Ok ts)
    have rest: "quad (holding c A L hs')
        (bindW (if b = [] then ret () else publishCheckoutParentStockUpdated (rs_bus st) b ''checkout.reserve_inventory'')
           (\<lambda>_. reserve_items st ctx ex is hs')) ?goal (rolled_back A L) anyhow"
      if hs': "own A hs' \<and> map target_of hs' = map target_of hs @ ts" for hs' b
    proof (rule quad_bind)
      show "quad (holding c A L hs')
          (if b = [] then ret () else publishCheckoutParentStockUpdated (rs_bus st) b ''checkout.reserve_inventory'')
          (\<lambda>_. holding c A L hs') (rolled_back A L) anyhow"
        by (auto intro: quad_ret publish_parent_quad)
      show "quad (holding c A L hs') (reserve_items st ctx ex is hs') ?goal (rolled_back A L) anyhow"
        by (rule quad_weaken [OF Cons.IH]) (use hs' Ok in auto)
    qed
    show ?thesis
      unfolding Ok outcome.case
      by (rule quad_bind [OF reserve_line_quad [OF Cons.prems]], rename_tac x, case_tac x)
        (simp only: prod.case, rule quad_pure, rule rest)
  qed (auto intro: quad_panic rollback_quad [OF Cons.prems])
  show ?case
    unfolding reserve_items.simps
    by (rule quad_reads_pure [where v = "reserveTargets st ctx c i"], simp add: holding_def) (rule line)
qed

lemma nothing_held: "holding c A L [] s \<Longrightarrow> rolled_back A L s"
  by (auto simp: rolled_back_def holding_def own_def intro!: exI [of _ "[]"])

text \<open>The whole step, for a context without holds.\<close>

lemma Execute_quad:
  assumes "\<not> reservedMetaTrue c" "reservationHoldsFromMeta c = []"
  shows "quad (\<lambda>s. fst s = c \<and> world A L (snd s)) (ReserveInventory_Execute st ctx)
    (\<lambda>_ s. \<exists>k hs. cx_Cart c = Some k \<and> cart_targets st ctx c (c_Items k) = Ok (map target_of hs) \<and> own A hs \<and>
       fst s = note_reserved hs c \<and> world (taken A hs) (left L hs) (snd s))
    (rolled_back A L) anyhow"
proof -
  have stale: "quad (holding c A L []) (releaseStaleHolds st) (\<lambda>_. holding c A L []) (rolled_back A L) anyhow"
    unfolding releaseStaleHolds_def
    by (rule quad_reads_pure [where v = "[]"]) (auto simp: holding_def assms intro: quad_ret)
  have pre: "(\<lambda>s. fst s = c \<and> world A L (snd s)) = holding c A L []"
    by (simp add: holding_def fun_eq_iff)
  show ?thesis
    unfolding pre ReserveInventory_Execute_def
  proof (rule quad_reads_pure [where v = False], simp add: holding_def assms, unfold if_False,
      rule quad_bind [OF stale], rule quad_reads_pure [where v = "cx_Cart c"], simp add: holding_def)
    show "quad (holding c A L [])
      (case cx_Cart c of
         None \<Rightarrow> raise (Err ''reserve_inventory: cart not loaded'')
       | Some k \<Rightarrow>
           bindW (on_snd (rs_now st)) (\<lambda>now.
           bindW (reserve_items st ctx (now + rs_ttl st) (c_Items k) []) (\<lambda>holds. modifies (\<lambda>(c, d). (note_reserved holds c, d)))))
      (\<lambda>_ s. \<exists>k hs. cx_Cart c = Some k \<and> cart_targets st ctx c (c_Items k) = Ok (map target_of hs) \<and> own A hs \<and>
         fst s = note_reserved hs c \<and> world (taken A hs) (left L hs) (snd s))
      (rolled_back A L) anyhow"
    proof (cases "cx_Cart c")
      case None
      then show ?thesis by (auto intro!: quad_raise nothing_held)
    next
      case (Some k)
      have own: "own A []" by (simp add: own_def)
      show ?thesis
        unfolding Some option.case
        by (rule quad_bind [OF now_quad], rule quad_bind [OF reserve_items_quad [OF own]])
          (auto simp: quad_def modifies_def holding_def)
    qed
  qed
qed

end

section \<open>The tables as the hold store\<close>

text \<open>
  What the database, the clock and the generator of ids answer, by the number of the call: the
  faults of the two statements, the time and the ids. \<open>'r\<close> is the rest of the world.
\<close>

record hold_env =
  he_reserve_faults :: "nat \<Rightarrow> db_faults"
  he_release_faults :: "nat \<Rightarrow> db_faults"
  he_clock :: "nat \<Rightarrow> gotime"
  he_ids :: "nat \<Rightarrow> string"

record stock_world =
  sw_tick :: nat
  sw_stock :: stock_db

definition stock_call :: "(nat \<Rightarrow> stock_db \<Rightarrow> 'a outcome \<times> stock_db) \<Rightarrow> ('a, 'r stock_world_scheme) act" where
  "stock_call f w = (case f (sw_tick w) (sw_stock w) of (r, db) \<Rightarrow> (r, w\<lparr>sw_tick := sw_tick w + 1, sw_stock := db\<rparr>))"

definition tables_step ::
    "hold_env \<Rightarrow> product_repo \<Rightarrow> 'w variant_repo \<Rightarrow> component_repo \<Rightarrow> gotime \<Rightarrow> 'r stock_world_scheme bus option \<Rightarrow>
     ('w, 'r stock_world_scheme) reserve_step" where
  "tables_step env ps vs cs ttl bus =
     \<lparr>rs_reserve = (\<lambda>res. stock_call (\<lambda>n db. Reserve (he_reserve_faults env n) (he_clock env n) db (Some res))),
      rs_release = (\<lambda>rid. stock_call (\<lambda>n db. Repo_Release (he_release_faults env n) (he_clock env n) db rid)),
      rs_products = ps, rs_variants = vs, rs_components = cs, rs_ttl = ttl, rs_bus = bus,
      rs_newID = stock_call (\<lambda>n db. (Ok (he_ids env n), db)),
      rs_now = stock_call (\<lambda>n db. (Ok (he_clock env n), db))\<rparr>"

text \<open>The active reservations and the levels of the tables, and tables on which no release overflows.\<close>

definition active_holds :: "stock_db \<Rightarrow> string \<Rightarrow> (string \<times> int) option" where
  "active_holds db rid = map_option (\<lambda>r. (rr_variant r, rr_quantity r)) (find_active db rid)"

definition stock_level :: "stock_db \<Rightarrow> string \<Rightarrow> int" where
  "stock_level db v = (case sd_stock db v of None \<Rightarrow> 0 | Some (q, _) \<Rightarrow> q)"

definition units_fit :: "units \<Rightarrow> bool" where
  "units_fit a \<longleftrightarrow> (\<forall>v. case a v of (None, x, _) \<Rightarrow> x = 0 | (Some h, x, _) \<Rightarrow> h + x < 2 ^ 31)"

definition stock_fits :: "stock_db \<Rightarrow> bool" where
  "stock_fits db \<longleftrightarrow> stock_ok db \<and> units_fit (units_of db)"

text \<open>Handlers of the bus that leave the stock alone.\<close>

definition stock_neutral :: "'r stock_world_scheme bus \<Rightarrow> bool" where
  "stock_neutral b \<longleftrightarrow> (\<forall>evt w. sw_stock (snd (b evt w)) = sw_stock w)"

lemma find_active_rows:
  assumes "distinct (map rr_id (sd_reservations db))"
  shows "find_active db rid = Some r \<longleftrightarrow> r \<in> set (sd_reservations db) \<and> rr_id r = rid \<and> rr_status r = ReservationActive"
proof
  assume r: "r \<in> set (sd_reservations db) \<and> rr_id r = rid \<and> rr_status r = ReservationActive"
  then obtain r' where r': "find_active db rid = Some r'"
    by (cases "find_active db rid") (auto simp: find_active_def find_None_iff)
  with find_active_Some [OF r'] r assms have "r' = r" by (auto simp: distinct_map dest: inj_onD)
  with r' show "find_active db rid = Some r" by simp
qed (rule find_active_Some)

lemma units_fit_iff:
  "units_fit (units_of db) \<longleftrightarrow> (\<forall>v. sd_stock db v = None \<longrightarrow> held ReservationActive v db = 0) \<and>
     (\<forall>v h t. sd_stock db v = Some (h, t) \<longrightarrow> h + held ReservationActive v db < 2 ^ 31)"
  unfolding units_fit_def units_of_def by (auto split: option.splits)

lemma find_active_new:
  assumes "rr_id r \<notin> rr_id ` set (sd_reservations db)"
  shows "find_active (db\<lparr>sd_reservations := sd_reservations db @ [r]\<rparr>) k =
    (if k = rr_id r \<and> rr_status r = ReservationActive then Some r else find_active db k)"
proof -
  have "List.find (\<lambda>q. rr_id q = k \<and> rr_status q = ReservationActive) (rows @ [r]) =
    (if k = rr_id r \<and> rr_status r = ReservationActive then Some r
     else List.find (\<lambda>q. rr_id q = k \<and> rr_status q = ReservationActive) rows)" if "rr_id r \<notin> rr_id ` set rows" for rows
    using that by (induction rows) auto
  from this [OF assms] show ?thesis by (simp add: find_active_def)
qed

lemma Reserve_tables:
  assumes "Reserve flt now db (Some res) = (Ok u, db')" "stock_fits db"
  shows "stock_fits db' \<and> active_holds db (rv_ID res) = None \<and>
    active_holds db' = (active_holds db)(rv_ID res \<mapsto> (rv_VariantID res, sint (rv_Quantity res))) \<and>
    stock_level db' = (stock_level db)(rv_VariantID res := stock_level db (rv_VariantID res) - sint (rv_Quantity res))"
proof -
  let ?q = "sint (rv_Quantity res)" and ?v = "rv_VariantID res"
  from assms(1) have tx: "reserveTx flt now res db = Ok (u, db')" and active: "rv_Status res = ReservationActive"
    by (auto simp: Reserve_def txn_Ok split: if_splits)
  from reserveTx_shape [OF tx] obtain hq t where hq: "sd_stock db ?v = Some (hq, t)" and
    fresh: "rv_ID res \<notin> rr_id ` set (sd_reservations db)" and
    db': "db' = \<lparr>sd_stock = (sd_stock db)(?v \<mapsto> (hq - ?q, now)),
       sd_reservations = sd_reservations db @ [\<lparr>rr_id = rv_ID res, rr_variant = ?v, rr_quantity = ?q,
         rr_status = rv_Status res, rr_expires = rv_ExpiresAt res, rr_created = rv_CreatedAt res\<rparr>]\<rparr>"
    by metis
  have "stock_ok db'" using reserveTx_Ok [OF tx _ active] assms(2) by (simp add: stock_fits_def)
  moreover have "units_fit (units_of db')"
    using assms(2) hq unfolding stock_fits_def units_fit_iff
    by (auto simp: db' held_def active split: option.splits)
  moreover have "active_holds db (rv_ID res) = None"
    using fresh by (auto simp: active_holds_def find_active_def find_None_iff image_iff)
  moreover have "active_holds db' = (active_holds db)(rv_ID res \<mapsto> (?v, ?q))"
  proof
    fix k
    let ?row = "\<lparr>rr_id = rv_ID res, rr_variant = ?v, rr_quantity = ?q, rr_status = rv_Status res,
      rr_expires = rv_ExpiresAt res, rr_created = rv_CreatedAt res\<rparr>"
    have "find_active db' k = find_active (db\<lparr>sd_reservations := sd_reservations db @ [?row]\<rparr>) k"
      by (simp add: find_active_def db')
    then show "active_holds db' k = ((active_holds db)(rv_ID res \<mapsto> (?v, ?q))) k"
      using find_active_new [of ?row db k] fresh active by (simp add: active_holds_def)
  qed
  moreover have "stock_level db' = (stock_level db)(?v := stock_level db ?v - ?q)"
    using hq by (auto simp: stock_level_def db' fun_eq_iff)
  ultimately show ?thesis by (simp add: stock_fits_def)
qed

lemma set_row_status_level: "stock_level (set_row_status st ids db) = stock_level db"
  by (simp add: stock_level_def set_row_status_def fun_eq_iff)

lemma find_released:
  assumes "st \<noteq> ReservationActive"
  shows "find_active (set_row_status st [rid] db) k = (if k = rid then None else find_active db k)"
proof -
  have "List.find (\<lambda>r. rr_id r = k \<and> rr_status r = ReservationActive)
      (map (\<lambda>r. if rr_id r \<in> set [rid] then r\<lparr>rr_status := st\<rparr> else r) rows) =
    (if k = rid then None else List.find (\<lambda>r. rr_id r = k \<and> rr_status r = ReservationActive) rows)" for rows
    using assms by (induction rows) auto
  from this [of "sd_reservations db"] show ?thesis unfolding find_active_def set_row_status_def by simp
qed

lemma held_at_least:
  assumes "stock_ok db" "r \<in> set (sd_reservations db)" "rr_status r = ReservationActive"
  shows "rr_quantity r \<le> held ReservationActive (rr_variant r) db"
  unfolding held_def
proof (rule member_le_sum_list)
  show "rr_quantity r \<in> set (map rr_quantity (filter (\<lambda>ra. rr_variant ra = rr_variant r \<and> rr_status ra = ReservationActive) (sd_reservations db)))"
    using assms by auto
qed (use assms in \<open>auto simp: stock_ok_def intro: less_imp_le\<close>)

text \<open>A release of an active reservation of tables that fit cannot overflow.\<close>

lemma restore_fits:
  assumes "stock_fits db" "find_active db rid = Some r"
  obtains hq t where "sd_stock db (rr_variant r) = Some (hq, t)" "int4 (hq + rr_quantity r)"
proof -
  from find_active_Some [OF assms(2)] have r: "r \<in> set (sd_reservations db)" "rr_status r = ReservationActive" by auto
  have ok: "stock_ok db" "units_fit (units_of db)" using assms(1) by (auto simp: stock_fits_def)
  have q: "0 < rr_quantity r" "rr_quantity r \<le> held ReservationActive (rr_variant r) db"
    using ok r held_at_least [OF ok(1) r] by (auto simp: stock_ok_def)
  show ?thesis
  proof (cases "sd_stock db (rr_variant r)")
    case None
    then show ?thesis using ok(2) q by (auto simp: units_fit_iff dest!: spec [of _ "rr_variant r"])
  next
    case (Some p)
    then obtain hq t where p: "sd_stock db (rr_variant r) = Some (hq, t)" by (cases p) auto
    then have "0 \<le> hq" "hq + held ReservationActive (rr_variant r) db < 2 ^ 31"
      using ok by (auto simp: stock_ok_def units_fit_iff dest!: spec [of _ "rr_variant r"])
    with q that [OF p] show ?thesis by (simp add: int4_def)
  qed
qed

lemma Release_tables:
  assumes "Repo_Release flt now db rid = (Ok u, db')" "stock_fits db"
  shows "\<exists>v q. active_holds db rid = Some (v, q) \<and> stock_fits db' \<and> active_holds db' = (active_holds db)(rid := None) \<and>
    stock_level db' = (stock_level db)(v := stock_level db v + q)"
proof -
  let ?S = "set_row_status ReservationReleased [rid] db"
  from assms(1) obtain r t where r: "find_active db rid = Some r"
    and res: "restore_stock now (rr_variant r) (rr_quantity r) ?S = Ok (t, db')"
    by (auto simp: Repo_Release_def txn_Ok releaseTx_def split: if_splits option.splits)
  from restore_fits [OF assms(2) r] obtain hq ts where hq: "sd_stock db (rr_variant r) = Some (hq, ts)" by metis
  from find_active_Some [OF r] have mem: "r \<in> set (sd_reservations db)" "rr_status r = ReservationActive" "rr_id r = rid" by auto
  have ok: "stock_ok db" "units_fit (units_of db)" using assms(2) by (auto simp: stock_fits_def)
  have db': "db' = ?S\<lparr>sd_stock := (sd_stock db)(rr_variant r \<mapsto> (hq + rr_quantity r, now))\<rparr>"
    using res hq by (auto simp: restore_stock_def set_row_status_def split: if_splits)
  have "stock_ok db'" using release_one [OF ok(1) mem(1,2), of now t db'] res mem(3) by simp
  moreover have "units_fit (units_of db')"
    using ok(2) hq held_status [OF ok(1) mem(1,2), of ReservationReleased ReservationActive] mem(3)
    unfolding units_fit_iff by (auto simp: db' held_map split: option.splits)
  moreover have "active_holds db' = (active_holds db)(rid := None)"
    using find_released [of ReservationReleased rid db]
    by (auto simp: active_holds_def fun_eq_iff db' find_active_def)
  moreover have "stock_level db' = (stock_level db)(rr_variant r := stock_level db (rr_variant r) + rr_quantity r)"
    using hq by (auto simp: stock_level_def db' fun_eq_iff)
  ultimately show ?thesis using r by (auto simp: active_holds_def stock_fits_def)
qed

lemma Release_returns:
  assumes "stock_fits db" "active_holds db rid \<noteq> None" "uuid_valid rid"
  shows "fst (Repo_Release (\<lambda>_. None) now db rid) = Ok ()"
proof -
  from assms(2) obtain r where r: "find_active db rid = Some r" by (auto simp: active_holds_def)
  from restore_fits [OF assms(1) r] obtain hq t where "sd_stock db (rr_variant r) = Some (hq, t)" "int4 (hq + rr_quantity r)" by metis
  moreover have "rid \<noteq> []" using assms(3) by (auto simp: uuid_valid_def)
  ultimately show ?thesis
    using r assms(3) by (simp add: Repo_Release_def releaseTx_def stmt_none restore_stock_def set_row_status_def)
qed

text \<open>The contract holds of the tables when ids are UUIDs and the handlers leave the stock alone.\<close>

definition sound_env :: "hold_env \<Rightarrow> 'r stock_world_scheme bus option \<Rightarrow> bool" where
  "sound_env env bus \<longleftrightarrow> (\<forall>n. uuid_valid (he_ids env n)) \<and> (\<forall>b. bus = Some b \<longrightarrow> stock_neutral b)"

definition tables_good :: "hold_env \<Rightarrow> 'r stock_world_scheme bus option \<Rightarrow> 'r stock_world_scheme \<Rightarrow> bool" where
  "tables_good env bus w \<longleftrightarrow> sound_env env bus \<and> stock_fits (sw_stock w)"

abbreviation tables_are ::
    "hold_env \<Rightarrow> 'r stock_world_scheme bus option \<Rightarrow> (string \<Rightarrow> (string \<times> int) option) \<Rightarrow> (string \<Rightarrow> int) \<Rightarrow> 'r stock_world_scheme \<Rightarrow> bool" where
  "tables_are env bus \<equiv> stock_is (tables_good env bus) (\<lambda>w. active_holds (sw_stock w)) (\<lambda>w. stock_level (sw_stock w))"

lemma stock_call_quad:
  assumes "\<And>n db u db'. sound_env env bus \<Longrightarrow> stock_fits db \<Longrightarrow> f n db = (Ok u, db') \<Longrightarrow>
      stock_fits db' \<and> Q u (active_holds db) (stock_level db) (active_holds db') (stock_level db')"
    and "\<And>n db e db'. f n db = (Fail e, db') \<Longrightarrow> E \<and> db' = db"
  shows "quad (tables_are env bus A L) (stock_call f)
    (\<lambda>u w. \<exists>A' L'. Q u A L A' L' \<and> tables_are env bus A' L' w) (\<lambda>w. E \<and> tables_are env bus A L w) anyhow"
proof (rule quadI)
  fix w assume w: "tables_are env bus A L w"
  then have fits: "sound_env env bus" "stock_fits (sw_stock w)" by (auto simp: stock_is_def tables_good_def)
  show "ends3 (\<lambda>u w. \<exists>A' L'. Q u A L A' L' \<and> tables_are env bus A' L' w) (\<lambda>w. E \<and> tables_are env bus A L w) anyhow (stock_call f w)"
  proof (cases "f (sw_tick w) (sw_stock w)" rule: outcome_pair_cases)
    case (1 u db')
    from assms(1) [OF fits 1] w fits show ?thesis by (auto simp: stock_call_def 1 stock_is_def tables_good_def)
  next
    case (2 e db')
    from assms(2) [OF 2] w show ?thesis by (auto simp: stock_call_def 2 stock_is_def tables_good_def)
  qed (auto simp: stock_call_def)
qed

lemma Reserve_keeps: "Reserve flt now db r = (Fail e, db') \<Longrightarrow> db' = db"
  by (auto simp: Reserve_def txn_Fail split: option.splits if_splits)

lemma Release_keeps: "Repo_Release flt now db rid = (Fail e, db') \<Longrightarrow> db' = db"
  by (auto simp: Repo_Release_def txn_Fail split: if_splits)

interpretation tables: hold_store
  "tables_step env ps vs cs ttl bus" "tables_good env bus" "\<lambda>w. active_holds (sw_stock w)" "\<lambda>w. stock_level (sw_stock w)" uuid_valid
  for env :: hold_env and ps and vs :: "'w variant_repo" and cs ttl and bus :: "'r stock_world_scheme bus option"
proof unfold_locales
  fix res :: reservation and A L
  assume "rv_Status res = ReservationActive"
  show "quad (tables_are env bus A L) (rs_reserve (tables_step env ps vs cs ttl bus) res)
    (\<lambda>_ w. A (rv_ID res) = None \<and> tables_are env bus (A(rv_ID res \<mapsto> (rv_VariantID res, sint (rv_Quantity res))))
       (L(rv_VariantID res := L (rv_VariantID res) - sint (rv_Quantity res))) w)
    (tables_are env bus A L) anyhow"
    unfolding tables_step_def reserve_step.simps
    by (rule quad_weaken [OF stock_call_quad [where E = True and Q = "\<lambda>_ A L A' L'. A (rv_ID res) = None \<and>
          A' = A(rv_ID res \<mapsto> (rv_VariantID res, sint (rv_Quantity res))) \<and>
          L' = L(rv_VariantID res := L (rv_VariantID res) - sint (rv_Quantity res))"]])
      (auto dest: Reserve_tables Reserve_keeps)
next
  fix rid :: string and A L
  show "quad (tables_are env bus A L) (rs_release (tables_step env ps vs cs ttl bus) rid)
    (\<lambda>_ w. \<exists>v q. A rid = Some (v, q) \<and> tables_are env bus (A(rid := None)) (L(v := L v + q)) w) (tables_are env bus A L) anyhow"
    unfolding tables_step_def reserve_step.simps
    by (rule quad_weaken [OF stock_call_quad [where E = True and Q = "\<lambda>_ A L A' L'. \<exists>v q. A rid = Some (v, q) \<and>
          A' = A(rid := None) \<and> L' = L(v := L v + q)"]])
      (auto dest: Release_tables Release_keeps)
next
  fix A L
  show "quad (tables_are env bus A L) (rs_newID (tables_step env ps vs cs ttl bus))
    (\<lambda>rid w. uuid_valid rid \<and> tables_are env bus A L w) (\<lambda>_. False) anyhow"
    unfolding tables_step_def reserve_step.simps
    by (rule quad_weaken [OF stock_call_quad [where E = False and Q = "\<lambda>rid A L A' L'. uuid_valid rid \<and> A' = A \<and> L' = L"]])
      (auto simp: sound_env_def)
  show "quad (tables_are env bus A L) (rs_now (tables_step env ps vs cs ttl bus)) (\<lambda>_. tables_are env bus A L) (\<lambda>_. False) anyhow"
    unfolding tables_step_def reserve_step.simps
    by (rule quad_weaken [OF stock_call_quad [where E = False and Q = "\<lambda>_ A L A' L'. A' = A \<and> L' = L"]]) auto
next
  fix b :: "'r stock_world_scheme bus" and evt A L
  assume "rs_bus (tables_step env ps vs cs ttl bus) = Some b"
  then have b: "bus = Some b" by (simp add: tables_step_def)
  show "quad (tables_are env bus A L) (b evt) (\<lambda>_. tables_are env bus A L) (tables_are env bus A L) anyhow"
  proof (rule quadI)
    fix w assume w: "tables_are env bus A L w"
    then have "sw_stock (snd (b evt w)) = sw_stock w"
      using b by (auto simp: stock_is_def tables_good_def sound_env_def stock_neutral_def)
    then have "tables_are env bus A L (snd (b evt w))" using w by (simp add: stock_is_def tables_good_def)
    then show "ends3 (\<lambda>_. tables_are env bus A L) (tables_are env bus A L) anyhow (b evt w)"
      by (cases "b evt w" rule: outcome_pair_cases) auto
  qed
qed

section \<open>All or nothing\<close>

abbreviation "tables_own \<equiv> hold_store.own uuid_valid"

abbreviation "tables_refused env ps vs cs ttl bus \<equiv> hold_store.refused (tables_step env ps vs cs ttl bus) (tables_good env bus)
  (\<lambda>w. active_holds (sw_stock w))"

abbreviation "tables_rolled_back env ps vs cs ttl bus \<equiv> hold_store.rolled_back (tables_step env ps vs cs ttl bus)
  (tables_good env bus) (\<lambda>w. active_holds (sw_stock w)) (\<lambda>w. stock_level (sw_stock w)) uuid_valid"

lemma none_refused:
  fixes env :: hold_env
  assumes "\<And>n. he_release_faults env n = (\<lambda>_. None)" "uuid_valid (rh_ID h)"
  shows "\<not> tables_refused env ps vs cs ttl bus h"
proof
  assume "tables_refused env ps vs cs ttl bus h"
  then obtain w e where w: "stock_fits (sw_stock w)" "active_holds (sw_stock w) (rh_ID h) \<noteq> None"
    and e: "fst (rs_release (tables_step env ps vs cs ttl bus) (rh_ID h) w) = Fail e"
    by (auto simp: tables.refused_def tables_good_def)
  then have "fst (Repo_Release (\<lambda>_. None) (he_clock env (sw_tick w)) (sw_stock w) (rh_ID h)) = Fail e"
    by (auto simp: tables_step_def stock_call_def assms(1) split: prod.splits)
  with Release_returns [OF w assms(2)] show False by simp
qed

text \<open>C4: the step \<open>reserve_inventory\<close> on the tables of stock and reservations, whatever fails in
  between (lookups, insufficient stock, reservations the database refuses), as long as the database
  answers the releases of the rollback. When the step returns, every target of every line is held by
  an active reservation of its own, the levels are lower by exactly the held quantities and the
  context lists these holds; when it fails, the active reservations and the stock levels are those
  it found.\<close>

theorem reserve_all_or_nothing:
  fixes env :: hold_env and c :: "'w checkout_context" and w :: "'r stock_world_scheme"
  assumes "\<And>n. he_release_faults env n = (\<lambda>_. None)" "sound_env env bus" "stock_fits (sw_stock w)"
    "\<not> reservedMetaTrue c" "reservationHoldsFromMeta c = []"
  shows "case ReserveInventory_Execute (tables_step env ps vs cs ttl bus) ctx (c, w) of
     (Ok _, (c', w')) \<Rightarrow> \<exists>k hs. cx_Cart c = Some k \<and>
         cart_targets (tables_step env ps vs cs ttl bus) ctx c (c_Items k) = Ok (map target_of hs) \<and>
         distinct (map rh_ID hs) \<and> c' = note_reserved hs c \<and> stock_fits (sw_stock w') \<and>
         active_holds (sw_stock w') = taken (active_holds (sw_stock w)) hs \<and>
         stock_level (sw_stock w') = left (stock_level (sw_stock w)) hs
   | (Fail _, (_, w')) \<Rightarrow> stock_fits (sw_stock w') \<and> active_holds (sw_stock w') = active_holds (sw_stock w) \<and>
         stock_level (sw_stock w') = stock_level (sw_stock w)
   | (Panics _, _) \<Rightarrow> True"
proof -
  let ?A = "active_holds (sw_stock w)" and ?L = "stock_level (sw_stock w)"
  have none: "F = []" if "tables_own ?A F" "\<forall>h \<in> set F. tables_refused env ps vs cs ttl bus h" for F
    using that none_refused [OF assms(1), of _ ps vs cs ttl bus] by (cases F) (auto simp: tables.own_def)
  have q: "quad (\<lambda>s. fst s = c \<and> tables_are env bus ?A ?L (snd s)) (ReserveInventory_Execute (tables_step env ps vs cs ttl bus) ctx)
      (\<lambda>_ s. \<exists>k hs. cx_Cart c = Some k \<and>
        cart_targets (tables_step env ps vs cs ttl bus) ctx c (c_Items k) = Ok (map target_of hs) \<and> tables_own ?A hs \<and>
        fst s = note_reserved hs c \<and> tables_are env bus (taken ?A hs) (left ?L hs) (snd s))
      (tables_rolled_back env ps vs cs ttl bus ?A ?L) anyhow"
    by (rule tables.Execute_quad [OF assms(4,5)])
  have restored: "tables_are env bus ?A ?L (snd s)" if "tables_rolled_back env ps vs cs ttl bus ?A ?L s" for s :: "'w checkout_context \<times> 'r stock_world_scheme"
    using that none unfolding tables.rolled_back_def by fastforce
  have "tables_are env bus ?A ?L w" using assms(2,3) by (simp add: stock_is_def tables_good_def)
  with quadD [OF q, of "(c, w)"]
  have "ends3 (\<lambda>_ s. \<exists>k hs. cx_Cart c = Some k \<and>
        cart_targets (tables_step env ps vs cs ttl bus) ctx c (c_Items k) = Ok (map target_of hs) \<and> tables_own ?A hs \<and>
        fst s = note_reserved hs c \<and> tables_are env bus (taken ?A hs) (left ?L hs) (snd s))
      (tables_rolled_back env ps vs cs ttl bus ?A ?L) anyhow (ReserveInventory_Execute (tables_step env ps vs cs ttl bus) ctx (c, w))"
    by simp
  then show ?thesis
    by (cases "ReserveInventory_Execute (tables_step env ps vs cs ttl bus) ctx (c, w)" rule: outcome_pair_cases)
      (auto simp: tables.own_def stock_is_def tables_good_def dest!: restored)
qed

section \<open>Witness\<close>

text \<open>A cart of two lines of which only the first is in stock.\<close>

definition demo_hold_env :: hold_env where
  "demo_hold_env = \<lparr>he_reserve_faults = (\<lambda>_ _. None), he_release_faults = (\<lambda>_ _. None), he_clock = int,
     he_ids = (\<lambda>n. if n < 3 then ''00000000-0000-4000-8000-000000000001'' else ''00000000-0000-4000-8000-000000000002'')\<rparr>"

definition demo_holds_world :: stock_world where
  "demo_holds_world = \<lparr>sw_tick = 0, sw_stock = \<lparr>sd_stock = [''vx'' \<mapsto> (5, 0), ''vz'' \<mapsto> (1, 0)], sd_reservations = []\<rparr>\<rparr>"

definition demo_hold_step :: "(nat, stock_world) reserve_step" where
  "demo_hold_step = tables_step demo_hold_env (the (us_Products demo_sources)) (the (us_Variants demo_sources))
     (the (us_Components demo_sources)) ReservationTTL None"

definition demo_line :: "string \<Rightarrow> int64 \<Rightarrow> cart_item" where
  "demo_line v q = \<lparr>ci_VariantID = v, ci_Quantity = q, ci_UnitPrice = \<lparr>m_amount = 100, m_currency = ''EUR''\<rparr>, ci_CreatedAt = 0,
     ci_UpdatedAt = 0, ci_AssignmentParentProductID = [], ci_AssignmentParentUnitID = [], ci_AssignmentDeferred = False\<rparr>"

definition demo_hold_context :: "nat checkout_context" where
  "demo_hold_context = (NewContext ''c'' ''u'' ''EUR'')\<lparr>cx_Cart := Some (demo_cart\<lparr>c_Items := [demo_line ''vx'' 3, demo_line ''vz'' 4]\<rparr>)\<rparr>"

lemma demo_ids: "uuid_valid (he_ids demo_hold_env n)"
  by (simp add: demo_hold_env_def) code_simp

lemma demo_holds_fit: "stock_fits (sw_stock demo_holds_world)"
  by (auto simp: stock_fits_def stock_ok_def units_fit_iff demo_holds_world_def held_def int4_def split: if_splits)

lemma demo_fails: "fst (ReserveInventory_Execute demo_hold_step background (demo_hold_context, demo_holds_world)) =
    Fail (Wrap ''reserve_inventory: variant vz'' (AppErr Conflict ''insufficient stock''))"
  by code_simp

theorem reserve_all_or_nothing_witness:
  "fst (ReserveInventory_Execute demo_hold_step background (demo_hold_context, demo_holds_world)) =
     Fail (Wrap ''reserve_inventory: variant vz'' (AppErr Conflict ''insufficient stock'')) \<and>
   stock_level (sw_stock (snd (snd (ReserveInventory_Execute demo_hold_step background (demo_hold_context, demo_holds_world))))) ''vx'' = 5"
proof -
  have "stock_level (sw_stock demo_holds_world) ''vx'' = 5" by (simp add: stock_level_def demo_holds_world_def)
  then show ?thesis
    using reserve_all_or_nothing [of demo_hold_env None demo_holds_world demo_hold_context "the (us_Products demo_sources)"
      "the (us_Variants demo_sources)" "the (us_Components demo_sources)" ReservationTTL background]
      demo_ids demo_holds_fit demo_fails
    by (cases "ReserveInventory_Execute demo_hold_step background (demo_hold_context, demo_holds_world)")
      (simp add: demo_hold_step_def [symmetric] sound_env_def, simp add: demo_hold_env_def demo_hold_context_def
        reservedMetaTrue_def reservationHoldsFromMeta_def meta_true_def NewContext_def split: prod.splits)
qed

end
