(* ===== verification/LeafGates.thy ===== *)
theory LeafGates
  imports UnitPrices
begin

text \<open>
  The gates on the required components of a bundle that the cart and the checkout share
  (\<open>required_leaf.go\<close>, beside \<open>RequiredLeafVariants\<close> of \<open>UnitPrices\<close>): a child that
  needs a parent unit, a downloadable child without files, and the children a purchase assigns.
\<close>

definition DownloadableMissingFileNotPurchasableMessage :: string where
  "DownloadableMissingFileNotPurchasableMessage = ''downloadable product has no attached file and is not purchasable''"

definition DownloadableMissingFileBlocksPurchase :: "product option \<Rightarrow> int64 \<Rightarrow> bool" where
  "DownloadableMissingFileBlocksPurchase p0 fileCount \<longleftrightarrow>
     (case p0 of None \<Rightarrow> False | Some p \<Rightarrow> pd_Type p = TypeDownloadable \<and> fileCount <s 1)"

text \<open>\<open>DownloadableFileCounter\<close>\<close>

type_synonym file_counter = "string \<Rightarrow> gerror + int64"

text \<open>The products of the required components, read whether active or not; \<open>None\<close> when there is none.\<close>

definition required_products ::
    "req_ctx \<Rightarrow> product_repo \<Rightarrow> component_repo \<Rightarrow> string \<Rightarrow> (string list \<times> (string \<Rightarrow> product option)) option outcome" where
  "required_products ctx products components bundleID =
     bindO (mapErr (Wrap (''bundle '' @ bundleID @ '' components'')) (of_res (components bundleID))) (\<lambda>rows.
     let ids = map bc_ComponentProductID (filter bc_Required rows) in
     if ids = [] then Ok None
     else bindO (loadProductsByID (WithIncludeNonActiveProducts ctx) products ids) (\<lambda>byID. Ok (Some (ids, byID))))"

definition RejectRequiredLinkedParentLeaves ::
    "req_ctx \<Rightarrow> product_repo option \<Rightarrow> component_repo option \<Rightarrow> string \<Rightarrow> assignment_context \<Rightarrow> unit outcome" where
  "RejectRequiredLinkedParentLeaves ctx products components bundleID0 assignment =
     (case (products, components) of
        (Some ps, Some cs) \<Rightarrow>
          let bundleID = trim_space bundleID0 in
          if bundleID = [] then Ok ()
          else bindO (required_products ctx ps cs bundleID) (\<lambda>found.
            case found of
              None \<Rightarrow> Ok ()
            | Some (ids, byID) \<Rightarrow>
                check (list_ex (\<lambda>x. LinkedParentBlocksPurchase (map_option pd_RequiresLinkedParent (byID x)) assignment) ids)
                  (AppErr Validation RequiresLinkedParentNotPurchasableMessage))
      | _ \<Rightarrow> Ok ())"

fun check_leaf_files ::
    "file_counter option \<Rightarrow> string \<Rightarrow> (string \<Rightarrow> product option) \<Rightarrow> string list \<Rightarrow> unit outcome" where
  "check_leaf_files files bundleID byID [] = Ok ()"
| "check_leaf_files files bundleID byID (x # xs) =
     (case byID x of
        None \<Rightarrow> check_leaf_files files bundleID byID xs
      | Some p \<Rightarrow>
          if pd_Type p \<noteq> TypeDownloadable then check_leaf_files files bundleID byID xs
          else case files of
            None \<Rightarrow> Fail (AppErr Internal ''downloadable file repository is not configured'')
          | Some count \<Rightarrow>
              bindO (mapErr (Wrap (''bundle '' @ bundleID @ '' component '' @ pd_ID p @ '' downloadable files''))
                       (of_res (count (pd_ID p)))) (\<lambda>n.
              if DownloadableMissingFileBlocksPurchase (Some p) n
              then Fail (AppErr Validation DownloadableMissingFileNotPurchasableMessage)
              else check_leaf_files files bundleID byID xs))"

definition RejectRequiredMissingDownloadableFileLeaves ::
    "req_ctx \<Rightarrow> product_repo option \<Rightarrow> component_repo option \<Rightarrow> file_counter option \<Rightarrow> string \<Rightarrow> unit outcome" where
  "RejectRequiredMissingDownloadableFileLeaves ctx products components files bundleID0 =
     (case (products, components) of
        (Some ps, Some cs) \<Rightarrow>
          let bundleID = trim_space bundleID0 in
          if bundleID = [] then Ok ()
          else bindO (required_products ctx ps cs bundleID) (\<lambda>found.
            case found of None \<Rightarrow> Ok () | Some (ids, byID) \<Rightarrow> check_leaf_files files bundleID byID ids)
      | _ \<Rightarrow> Ok ())"

definition LinkedParentChildProductIDs ::
    "req_ctx \<Rightarrow> product_repo option \<Rightarrow> component_repo option \<Rightarrow> product option \<Rightarrow> string list outcome" where
  "LinkedParentChildProductIDs ctx products components p0 =
     (case p0 of
        None \<Rightarrow> Ok []
      | Some p \<Rightarrow>
          if pd_RequiresLinkedParent p then Ok [pd_ID p]
          else if pd_Type p \<noteq> TypeBundle then Ok []
          else case (products, components) of
            (Some ps, Some cs) \<Rightarrow>
              bindO (required_products ctx ps cs (pd_ID p)) (\<lambda>found.
              case found of
                None \<Rightarrow> Ok []
              | Some (ids, byID) \<Rightarrow>
                  Ok (filter (\<lambda>x. case byID x of None \<Rightarrow> False | Some q \<Rightarrow> pd_RequiresLinkedParent q) ids))
          | _ \<Rightarrow> Ok [])"

end
