(* ===== verification/VisibilityFacts.thy ===== *)
theory VisibilityFacts
  imports Catalog
begin

text \<open>
  The visibility gate on loaded facts (\<open>visibility_facts.go\<close>, \<open>visibility_surface.go\<close>): a
  snapshot resolves to the four axes, a surface reads one of them. A source of facts answers for a
  list of product ids; \<open>None\<close> is a nil source, which turns the gate off.
\<close>

section \<open>Surfaces and snapshots\<close>

datatype visibility_surface = SurfaceCatalog | SurfaceSearch | SurfaceIndividually | SurfacePurchasable | SurfaceOther string

fun AllowedOn :: "visibility \<Rightarrow> visibility_surface \<Rightarrow> bool" where
  "AllowedOn v SurfaceCatalog = vis_InCatalog v"
| "AllowedOn v SurfaceSearch = vis_InSearch v"
| "AllowedOn v SurfaceIndividually = vis_Individually v"
| "AllowedOn v SurfacePurchasable = vis_Purchasable v"
| "AllowedOn v (SurfaceOther _) = False"

record visibility_snapshot =
  vs_Status :: product_status
  vs_Modes :: visibility_axes
  vs_Inputs :: visibility_inputs
  vs_RequiresLinkedParent :: bool

definition Snapshot_Resolve :: "visibility_snapshot \<Rightarrow> bool \<Rightarrow> visibility" where
  "Snapshot_Resolve s requireCategory =
     Axes_Resolve (vs_Modes s) (vs_Status s) ((vs_Inputs s)\<lparr>vi_RequiresLinkedParent := vs_RequiresLinkedParent s\<rparr>) requireCategory"

definition resolveForRequest :: "req_ctx \<Rightarrow> visibility_snapshot \<Rightarrow> bool \<Rightarrow> visibility" where
  "resolveForRequest ctx s requireCategory =
     Snapshot_Resolve (s\<lparr>vs_Inputs := (vs_Inputs s)\<lparr>vi_Assignment := AssignmentContextFrom (Some ctx)\<rparr>\<rparr>) requireCategory"

definition Snapshot_Allows :: "visibility_snapshot \<Rightarrow> visibility_surface \<Rightarrow> assignment_context \<Rightarrow> bool \<Rightarrow> bool" where
  "Snapshot_Allows s surface assignment requireCategory =
     AllowedOn (Snapshot_Resolve (s\<lparr>vs_Inputs := (vs_Inputs s)\<lparr>vi_Assignment := assignment\<rparr>\<rparr>) requireCategory) surface"

text \<open>\<open>VisibilityFactsSource.LoadMany\<close>; a product without a snapshot is not in the map.\<close>

type_synonym facts_source = "string list \<Rightarrow> gerror + (string \<Rightarrow> visibility_snapshot option)"

definition allowed_in ::
    "req_ctx \<Rightarrow> visibility_surface \<Rightarrow> bool \<Rightarrow> (string \<Rightarrow> visibility_snapshot option) \<Rightarrow> string \<Rightarrow> bool" where
  "allowed_in ctx surface requireCategory byID pid =
     (case byID pid of None \<Rightarrow> False | Some s \<Rightarrow> AllowedOn (resolveForRequest ctx s requireCategory) surface)"

definition AllowWithFacts ::
    "req_ctx \<Rightarrow> product option \<Rightarrow> visibility_surface \<Rightarrow> facts_source option \<Rightarrow> bool \<Rightarrow> bool outcome" where
  "AllowWithFacts ctx p0 surface facts0 requireCategory =
     (case p0 of
        None \<Rightarrow> Ok False
      | Some p \<Rightarrow>
          if BypassProductVisibility ctx then Ok True
          else case facts0 of
            None \<Rightarrow> Ok True
          | Some facts \<Rightarrow> bindO (of_res (facts [pd_ID p])) (\<lambda>byID. Ok (allowed_in ctx surface requireCategory byID (pd_ID p))))"

definition FilterIDsWithFacts ::
    "req_ctx \<Rightarrow> string list \<Rightarrow> visibility_surface \<Rightarrow> facts_source option \<Rightarrow> bool \<Rightarrow> string list outcome" where
  "FilterIDsWithFacts ctx ids surface facts0 requireCategory =
     (if ids = [] \<or> BypassProductVisibility ctx then Ok ids
      else case facts0 of
        None \<Rightarrow> Ok ids
      | Some facts \<Rightarrow> bindO (of_res (facts ids)) (\<lambda>byID. Ok (filter (allowed_in ctx surface requireCategory byID) ids)))"

definition FilterWithFacts ::
    "req_ctx \<Rightarrow> product list \<Rightarrow> visibility_surface \<Rightarrow> facts_source option \<Rightarrow> bool \<Rightarrow> product list outcome" where
  "FilterWithFacts ctx products surface facts0 requireCategory =
     (if products = [] \<or> BypassProductVisibility ctx then Ok products
      else case facts0 of
        None \<Rightarrow> Ok products
      | Some facts \<Rightarrow> bindO (of_res (facts (map pd_ID products))) (\<lambda>byID.
          Ok (filter (\<lambda>p. allowed_in ctx surface requireCategory byID (pd_ID p)) products)))"

text \<open>The gate on facts the caller supplies.\<close>

definition AllowProduct :: "req_ctx \<Rightarrow> product option \<Rightarrow> visibility_surface \<Rightarrow> visibility_inputs \<Rightarrow> bool \<Rightarrow> bool" where
  "AllowProduct ctx p0 surface inp requireCategory =
     (case p0 of
        None \<Rightarrow> False
      | Some p \<Rightarrow>
          if BypassProductVisibility ctx then True
          else AllowedOn (Product_Visibility p (inp\<lparr>vi_Assignment := AssignmentContextFrom (Some ctx)\<rparr>) requireCategory) surface)"

definition zero_inputs :: visibility_inputs where
  "zero_inputs = \<lparr>vi_QuantityPositive = False, vi_HasPrice = False, vi_HasStoreAssignment = False, vi_HasCategory = False,
     vi_RequiresLinkedParent = False, vi_MissingDownloadableFile = False, vi_Assignment = assignment_context_zero\<rparr>"

definition FilterProducts ::
    "req_ctx \<Rightarrow> product list \<Rightarrow> visibility_surface \<Rightarrow> (product \<Rightarrow> visibility_inputs) option \<Rightarrow> bool \<Rightarrow> product list" where
  "FilterProducts ctx products surface facts0 requireCategory =
     (if products = [] \<or> BypassProductVisibility ctx then products
      else filter (\<lambda>p. AllowProduct ctx (Some p) surface (case facts0 of None \<Rightarrow> zero_inputs | Some f \<Rightarrow> f p) requireCategory) products)"

section \<open>One page of visible products\<close>

definition MaxListCursorOffset :: int where "MaxListCursorOffset = 100000"
definition visibilityScanHardCap :: int where "visibilityScanHardCap = 10000"
definition visibilityScanMinHeadroom :: int where "visibilityScanMinHeadroom = 2000"
definition visibilityScanMaxBatch :: int where "visibilityScanMaxBatch = 100"

end
