(* ===== verification/CheckoutOrder.thy ===== *)
theory CheckoutOrder
  imports CheckoutReserve LeafGates
begin

text \<open>
  The step \<open>create_order\<close> of the checkout (\<open>create_order_step.go\<close>): the lines of the order
  from the cart and the pricing snapshot, the check against the reserved quantities, store credit, the
  write of the order (with the rows of an assignment in one transaction) and what an error releases.
  The assignment flow is an argument. Logging is left out.
\<close>

section \<open>The step\<close>

definition OrderLinesCouldNotBeCreatedMessage :: string where
  "OrderLinesCouldNotBeCreatedMessage = ''order lines could not be created''"

definition AssignmentConflictMessage :: string where
  "AssignmentConflictMessage = ''the same product cannot be assigned to different parents in one order''"

definition ExplodeOrderLinesRequiresDynamicMessage :: string where
  "ExplodeOrderLinesRequiresDynamicMessage = ''explode order lines is only allowed for a bundle with dynamic pricing and dynamic stock''"

record 'd store_credit_service =
  cr_balance :: "string \<Rightarrow> string \<Rightarrow> (money, 'd) act"
  cr_redeem :: "string \<Rightarrow> string \<Rightarrow> money \<Rightarrow> (unit, 'd) act"
  cr_restore :: "string \<Rightarrow> money \<Rightarrow> string \<Rightarrow> string \<Rightarrow> (unit, 'd) act"

text \<open>\<open>assignmentapp.PurchaseLine\<close> and what the step uses of \<open>assignmentapp.Flow\<close>.\<close>

record purchase_line =
  pl_ChildVariantID :: string
  pl_ChildProductID :: string
  pl_EligibleProductIDs :: "string list"
  pl_Assignment :: assignment_context

record 'd purchase_flow =
  fl_binds :: bool
  fl_record :: "string \<Rightarrow> string \<Rightarrow> purchase_line list \<Rightarrow> (unit, 'd) act"

text \<open>
  A transaction: \<open>tx_rollback before after\<close> is the world \<open>after\<close> without what was written in
  the transaction that began in \<open>before\<close>.
\<close>

record 'd tx_beginner =
  tx_begin :: "(unit, 'd) act"
  tx_commit :: "(unit, 'd) act"
  tx_rollback :: "'d \<Rightarrow> 'd \<Rightarrow> 'd"

text \<open>
  \<open>co_save_bound\<close> is \<open>Save\<close> of the repository bound to a transaction, when it is an
  \<open>orderTxBinder\<close>; \<open>co_upper\<close> and \<open>co_mail\<close> are the case conversion of non-ASCII letters and the
  check of an address.
\<close>

record ('w, 'd) create_order_step =
  co_save :: "order \<Rightarrow> (unit, 'd) act"
  co_save_bound :: "(order \<Rightarrow> (unit, 'd) act) option"
  co_variants :: "'w variant_repo"
  co_products :: product_repo
  co_components :: component_repo
  co_prices :: price_repo
  co_credits :: "'d store_credit_service option"
  co_extensions :: "(string \<Rightarrow> string \<Rightarrow> string \<Rightarrow> string \<Rightarrow> (unit, 'd) act) option"
  co_release :: "(string \<Rightarrow> (unit, 'd) act) option"
  co_assignments :: "'d purchase_flow option"
  co_tx :: "'d tx_beginner option"
  co_bus :: "'d bus option"
  co_newID :: "(string, 'd) act"
  co_now :: "(gotime, 'd) act"
  co_upper :: "string \<Rightarrow> string"
  co_mail :: "string \<Rightarrow> bool"

text \<open>\<open>id.New()\<close>, the clock and the two functions of the environment are last.\<close>

definition NewCreateOrderStep ::
    "((order \<Rightarrow> (unit, 'd) act) \<times> (order \<Rightarrow> (unit, 'd) act) option) option \<Rightarrow> 'w variant_repo option \<Rightarrow>
     'd store_credit_service option \<Rightarrow> (string \<Rightarrow> string \<Rightarrow> string \<Rightarrow> string \<Rightarrow> (unit, 'd) act) option \<Rightarrow> product_repo option \<Rightarrow>
     component_repo option \<Rightarrow> price_repo option \<Rightarrow> (string, 'd) act \<Rightarrow> (gotime, 'd) act \<Rightarrow> (string \<Rightarrow> string) \<Rightarrow> (string \<Rightarrow> bool) \<Rightarrow>
     ('w, 'd) create_order_step outcome" where
  "NewCreateOrderStep orders variants credits extensions products components prices newID now upper mail =
     (case orders of
        None \<Rightarrow> Panics ''checkout: orders must not be nil''
      | Some (save, bound) \<Rightarrow>
          (case variants of
             None \<Rightarrow> Panics ''checkout: variants must not be nil''
           | Some vs \<Rightarrow>
               (case products of
                  None \<Rightarrow> Panics ''checkout: products must not be nil''
                | Some ps \<Rightarrow>
                    (case components of
                       None \<Rightarrow> Panics ''checkout: bundle components must not be nil''
                     | Some cs \<Rightarrow>
                         (case prices of
                            None \<Rightarrow> Panics ''checkout: prices must not be nil''
                          | Some prs \<Rightarrow> Ok
                              \<lparr>co_save = save, co_save_bound = bound, co_variants = vs, co_products = ps, co_components = cs,
                               co_prices = prs, co_credits = credits, co_extensions = extensions, co_release = None,
                               co_assignments = None, co_tx = None, co_bus = None, co_newID = newID, co_now = now,
                               co_upper = upper, co_mail = mail\<rparr>)))))"

definition WithReservations ::
    "(string \<Rightarrow> (unit, 'd) act) option \<Rightarrow> ('w, 'd) create_order_step option \<Rightarrow> ('w, 'd) create_order_step option" where
  "WithReservations release st = map_option (\<lambda>st. st\<lparr>co_release := release\<rparr>) st"

definition Order_WithStockEventPublishing ::
    "'d bus option \<Rightarrow> bool \<Rightarrow> ('w, 'd) create_order_step option \<Rightarrow> ('w, 'd) create_order_step option outcome" where
  "Order_WithStockEventPublishing bus has_log st0 =
     (case st0 of
        None \<Rightarrow> Ok None
      | Some st \<Rightarrow>
          if bus = None then Panics ''checkout: stock event bus must not be nil''
          else if \<not> has_log then Panics ''checkout: logger must not be nil''
          else Ok (Some (st\<lparr>co_bus := bus\<rparr>)))"

definition Order_WithAssignmentFlow ::
    "'d purchase_flow option \<Rightarrow> 'd tx_beginner option \<Rightarrow> ('w, 'd) create_order_step option \<Rightarrow> ('w, 'd) create_order_step option" where
  "Order_WithAssignmentFlow flow tx st = map_option (\<lambda>st. st\<lparr>co_assignments := flow, co_tx := tx\<rparr>) st"

section \<open>Quantities and lines\<close>

definition orderLinesValidation :: "string \<Rightarrow> gerror" where
  "orderLinesValidation detail = AppWrap Validation OrderLinesCouldNotBeCreatedMessage (Err detail)"

definition checkedMulQty :: "int64 \<Rightarrow> int64 \<Rightarrow> int64 outcome" where
  "checkedMulQty a b =
     (if a \<le>s 0 \<or> b \<le>s 0 then Fail (Err ''quantity must be positive'')
      else if go_div MaxInt64 b <s a then Fail (Err ''quantity overflow'')
      else Ok (a * b))"

definition checkedAddQty :: "int64 \<Rightarrow> int64 \<Rightarrow> int64 outcome" where
  "checkedAddQty a b =
     (if a \<le>s 0 \<or> b \<le>s 0 then Fail (Err ''quantity must be positive'')
      else if MaxInt64 - b <s a then Fail (Err ''quantity overflow'')
      else Ok (a + b))"

definition orderLineRestockable :: "product_type \<Rightarrow> bool" where
  "orderLineRestockable t \<longleftrightarrow> t \<noteq> TypeVirtual \<and> t \<noteq> TypeDownloadable"

fun merge_item :: "order_item list \<Rightarrow> order_item \<Rightarrow> order_item list outcome" where
  "merge_item [] i = Ok [i]"
| "merge_item (m # ms) i =
     (if oi_VariantID m = oi_VariantID i then
        if \<not> Equal (oi_UnitPrice m) (oi_UnitPrice i)
        then Fail (orderLinesValidation (''variant '' @ oi_VariantID i @ '' has conflicting unit prices''))
        else if oi_Restockable m \<noteq> oi_Restockable i
        then Fail (orderLinesValidation (''variant '' @ oi_VariantID i @ '' has conflicting restockable flags''))
        else bindO (mapErr (\<lambda>e. orderLinesValidation (''variant '' @ oi_VariantID i @ '': '' @ err_text e))
                      (checkedAddQty (oi_Quantity m) (oi_Quantity i))) (\<lambda>q.
             Ok (m\<lparr>oi_Quantity := q\<rparr> # ms))
      else bindO (merge_item ms i) (\<lambda>ms'. Ok (m # ms')))"

fun merge_items :: "order_item list \<Rightarrow> order_item list \<Rightarrow> order_item list outcome" where
  "merge_items acc [] = Ok acc"
| "merge_items acc (i # is) = bindO (merge_item acc i) (\<lambda>acc'. merge_items acc' is)"

definition mergeOrderItems :: "order_item list list \<Rightarrow> order_item list outcome" where
  "mergeOrderItems groups = merge_items [] (concat groups)"

fun add_included_tax :: "money \<Rightarrow> adjustment list \<Rightarrow> money outcome" where
  "add_included_tax t [] = Ok t"
| "add_included_tax t (a # as) =
     (if adj_Type a \<noteq> AdjustmentTax \<or> \<not> adj_Included a then add_included_tax t as
      else if m_currency (adj_Amount a) \<noteq> m_currency t then Fail (Err ''included tax currency mismatch'')
      else bindO (AddChecked t (adj_Amount a)) (\<lambda>t'. add_included_tax t' as))"

definition explodedCompareTotal :: "pricing_item \<Rightarrow> money outcome" where
  "explodedCompareTotal p = add_included_tax (pi_Total p) (pi_Adjustments p)"

definition pricingStoreID :: "'w checkout_context \<Rightarrow> pricing_context \<Rightarrow> string" where
  "pricingStoreID c pctx =
     (let s = store_id_of (pc_Meta pctx) in
      if s \<noteq> [] then s
      else case cx_Meta c ''store_id'' of
        Some (CStr s') \<Rightarrow> s'
      | Some (CPlain (MStr s')) \<Rightarrow> s'
      | _ \<Rightarrow> [])"

text \<open>The variant and the product of a line: from the context, else from the repository.\<close>

definition order_variant :: "('w, 'd) create_order_step \<Rightarrow> 'w checkout_context \<Rightarrow> string \<Rightarrow> 'w variant option outcome" where
  "order_variant st c vid =
     (case cartVariantFromMeta c vid of
        Some v \<Rightarrow> Ok (Some v)
      | None \<Rightarrow> mapErr (Wrap (''create_order: lookup variant '' @ vid)) (of_res (vr_find (co_variants st) vid)))"

definition order_product :: "('w, 'd) create_order_step \<Rightarrow> req_ctx \<Rightarrow> 'w checkout_context \<Rightarrow> string \<Rightarrow> product option outcome" where
  "order_product st ctx c pid =
     (case cartProductFromMeta c pid of
        Some p \<Rightarrow> Ok (Some p)
      | None \<Rightarrow> mapErr (Wrap (''create_order: lookup product '' @ pid)) (of_res (pq_find (co_products st) ctx pid)))"

definition order_line_product ::
    "('w, 'd) create_order_step \<Rightarrow> req_ctx \<Rightarrow> 'w checkout_context \<Rightarrow> string \<Rightarrow> ('w variant \<times> product) outcome" where
  "order_line_product st ctx c vid =
     bindO (order_variant st c vid) (\<lambda>v0.
     case v0 of
       None \<Rightarrow> Fail (orderLinesValidation (''variant '' @ vid @ '' not found''))
     | Some v \<Rightarrow>
         bindO (order_product st ctx c (v_ProductID v)) (\<lambda>p0.
         case p0 of
           None \<Rightarrow> Fail (orderLinesValidation (''product '' @ v_ProductID v @ '' not found''))
         | Some p \<Rightarrow> Ok (v, p)))"

text \<open>\<open>RequiredLeafVariants\<close> as the step reports its errors.\<close>

definition order_leaves :: "('w, 'd) create_order_step \<Rightarrow> req_ctx \<Rightarrow> string \<Rightarrow> 'w required_leaf list outcome" where
  "order_leaves st ctx bundleID =
     mapErr (\<lambda>e. if app_code_of e \<in> {Some Validation, Some NotFound, Some Conflict} then BundleCustomerError e
                 else Wrap ''create_order'' e)
       (RequiredLeafVariants ctx (Some (co_products st)) (Some (co_variants st)) (Some (co_components st)) bundleID)"

definition item_error :: "string \<Rightarrow> gerror \<Rightarrow> gerror" where
  "item_error vid e = orderLinesValidation (''item '' @ vid @ '': '' @ err_text e)"

text \<open>\<open>order.NewItem\<close> reads the clock.\<close>

definition new_order_item ::
    "('w, 'd) create_order_step \<Rightarrow> string \<Rightarrow> string \<Rightarrow> string \<Rightarrow> int64 \<Rightarrow> money \<Rightarrow> (order_item, 'c \<times> 'd) act" where
  "new_order_item st vid sku name qty price =
     bindW (on_snd (co_now st)) (\<lambda>now. lift (mapErr (item_error vid) (NewOrderItem now vid sku name qty price)))"

fun leaf_order_lines ::
    "('w, 'd) create_order_step \<Rightarrow> string \<Rightarrow> int64 \<Rightarrow> (string \<Rightarrow> price option) \<Rightarrow> 'w required_leaf list \<Rightarrow>
     (order_item list, 'c \<times> 'd) act" where
  "leaf_order_lines st currency itemQty priced [] = ret []"
| "leaf_order_lines st currency itemQty priced (l # ls) =
     (let cid = bc_ComponentProductID (rl_Component l); v = rl_Variant l in
      bindW (lift (mapErr (\<lambda>e. orderLinesValidation (''component '' @ cid @ '' quantity: '' @ err_text e))
                     (checkedMulQty (bc_Quantity (rl_Component l)) itemQty))) (\<lambda>qty.
      case priced (v_ID v) of
        None \<Rightarrow> raise (orderLinesValidation (''component '' @ cid @ '' has no price in '' @ currency))
      | Some p \<Rightarrow>
          if m_currency (pr_Amount p) \<noteq> currency
          then raise (orderLinesValidation (''component '' @ v_ID v @ '' currency mismatch''))
          else bindW (new_order_item st (v_ID v) (v_SKU v) (v_Name v) qty (pr_Amount p)) (\<lambda>item.
               bindW (leaf_order_lines st currency itemQty priced ls) (\<lambda>items.
               ret (item\<lparr>oi_Restockable := orderLineRestockable (pd_Type (rl_Product l))\<rparr> # items)))))"

fun exploded_sum :: "string \<Rightarrow> money \<Rightarrow> order_item list \<Rightarrow> money outcome" where
  "exploded_sum vid acc [] = Ok acc"
| "exploded_sum vid acc (i # is) =
     bindO (mapErr (\<lambda>e. orderLinesValidation (''line total '' @ oi_VariantID i @ '': '' @ err_text e)) (OrderItem_LineTotal i)) (\<lambda>t.
     bindO (mapErr (\<lambda>e. orderLinesValidation (''exploded total '' @ vid @ '': '' @ err_text e)) (AddChecked acc t)) (\<lambda>acc'.
     exploded_sum vid acc' is))"

text \<open>The lines of an exploded row must be worth the row's total.\<close>

definition exploded_lines :: "string \<Rightarrow> string \<Rightarrow> pricing_item \<Rightarrow> order_item list \<Rightarrow> order_item list outcome" where
  "exploded_lines currency vid p leafLines =
     bindO (mergeOrderItems [leafLines]) (\<lambda>merged.
     bindO (mapErr (\<lambda>e. orderLinesValidation (err_text e)) (Zero currency)) (\<lambda>z.
     bindO (exploded_sum vid z merged) (\<lambda>sum.
     bindO (mapErr (\<lambda>e. orderLinesValidation (''exploded total '' @ vid @ '': '' @ err_text e)) (explodedCompareTotal p)) (\<lambda>expected.
     if \<not> Equal sum expected
     then Fail (orderLinesValidation (''exploded total for variant '' @ vid @ '' does not match cart line total''))
     else Ok merged))))"

definition linesForCartItem ::
    "('w, 'd) create_order_step \<Rightarrow> req_ctx \<Rightarrow> cart_item \<Rightarrow> pricing_item \<Rightarrow> string \<Rightarrow>
     (order_item list \<times> bool, 'w checkout_context \<times> 'd) act" where
  "linesForCartItem st ctx i p storeID =
     bindW (reads (\<lambda>s. (order_line_product st ctx (fst s) (ci_VariantID i), cx_Currency (fst s)))) (\<lambda>(found, currency).
     bindW (lift found) (\<lambda>(v, product).
     if pd_Type product \<noteq> TypeBundle \<or> \<not> pd_ExplodeOrderLines product
     then bindW (new_order_item st (ci_VariantID i) (v_SKU v) (v_Name v) (ci_Quantity i) (pi_UnitPrice p)) (\<lambda>item.
          ret ([item\<lparr>oi_Restockable := orderLineRestockable (pd_Type product) \<and>
                 \<not> (pd_Type product = TypeBundle \<and> pd_StockMode product = StockModeDynamic)\<rparr>], False))
     else if pd_PricingMode product \<noteq> PricingModeDynamic \<or> pd_StockMode product \<noteq> StockModeDynamic
     then raise (AppWrap Validation ExplodeOrderLinesRequiresDynamicMessage (Err (''product '' @ pd_ID product)))
     else
       bindW (lift (order_leaves st (linePurchaseContext ctx i) (pd_ID product))) (\<lambda>leaves.
       bindW (lift (mapErr (Wrap ''create_order: component prices'')
                (lookupComponentPrices (co_prices st) (map (\<lambda>l. v_ID (rl_Variant l)) leaves) currency storeID))) (\<lambda>priced.
       bindW (leaf_order_lines st currency (ci_Quantity i) priced leaves) (\<lambda>leafLines.
       bindW (lift (exploded_lines currency (ci_VariantID i) p leafLines)) (\<lambda>merged.
       ret (merged, True)))))))"

section \<open>The reserved quantities\<close>

definition qty_at :: "(string \<times> int64) list \<Rightarrow> string \<Rightarrow> int64" where
  "qty_at m k = (case map_of m k of None \<Rightarrow> 0 | Some q \<Rightarrow> q)"

fun add_all :: "(string \<times> int64) list \<Rightarrow> (string \<times> int64) list \<Rightarrow> (string \<times> int64) list" where
  "add_all m [] = m"
| "add_all m ((k, q) # kqs) = add_all (add_qty m k q) kqs"

definition reservedQtyMatch :: "(string \<times> int64) list \<Rightarrow> (string \<times> int64) list \<Rightarrow> bool" where
  "reservedQtyMatch got want \<longleftrightarrow> length got = length want \<and> list_all (\<lambda>(k, q). qty_at got k = q) want"

fun leaf_qty :: "int64 \<Rightarrow> 'w required_leaf list \<Rightarrow> (string \<times> int64) list \<Rightarrow> (string \<times> int64) list outcome" where
  "leaf_qty itemQty [] m = Ok m"
| "leaf_qty itemQty (l # ls) m =
     (let t = pd_Type (rl_Product l); cid = bc_ComponentProductID (rl_Component l) in
      if t = TypeVirtual \<or> t = TypeDownloadable then leaf_qty itemQty ls m
      else if t = TypeSimple then
        bindO (mapErr (\<lambda>e. orderLinesValidation (''component '' @ cid @ '' quantity: '' @ err_text e))
                 (checkedMulQty (bc_Quantity (rl_Component l)) itemQty)) (\<lambda>need.
        leaf_qty itemQty ls (add_qty m (v_ID (rl_Variant l)) need))
      else Fail (BundleCustomerError
             (AppErr Validation (''dynamic bundle component '' @ cid @ '' must be a simple, virtual, or downloadable product''))))"

definition dynamicBundleReservedQty ::
    "('w, 'd) create_order_step \<Rightarrow> req_ctx \<Rightarrow> string \<Rightarrow> int64 \<Rightarrow> (string \<times> int64) list outcome" where
  "dynamicBundleReservedQty st ctx bundleID itemQty =
     bindO (order_leaves st ctx bundleID) (\<lambda>leaves. leaf_qty itemQty leaves [])"

definition keptReservedQty ::
    "('w, 'd) create_order_step \<Rightarrow> req_ctx \<Rightarrow> 'w checkout_context \<Rightarrow> cart_item \<Rightarrow> (string \<times> int64) list outcome" where
  "keptReservedQty st ctx c i =
     bindO (order_line_product st ctx c (ci_VariantID i)) (\<lambda>(v, product).
     if pd_Type product = TypeBundle \<and> pd_StockMode product = StockModeDynamic
     then dynamicBundleReservedQty st (linePurchaseContext ctx i) (pd_ID product) (ci_Quantity i)
     else Ok [(ci_VariantID i, ci_Quantity i)])"

fun want_kept ::
    "('w, 'd) create_order_step \<Rightarrow> req_ctx \<Rightarrow> 'w checkout_context \<Rightarrow> cart_item list \<Rightarrow> (string \<times> int64) list \<Rightarrow>
     (string \<times> int64) list outcome" where
  "want_kept st ctx c [] want = Ok want"
| "want_kept st ctx c (i # is) want =
     bindO (keptReservedQty st ctx c i) (\<lambda>held. want_kept st ctx c is (add_all want held))"

text \<open>The text of the mismatch is given without the two maps that the code prints in it.\<close>

definition assertExplodedReservations ::
    "('w, 'd) create_order_step \<Rightarrow> req_ctx \<Rightarrow> 'w checkout_context \<Rightarrow> bool \<Rightarrow> (string \<times> int64) list \<Rightarrow> cart_item list \<Rightarrow> unit outcome" where
  "assertExplodedReservations st ctx c anyExploded explodedReserved kept =
     (if \<not> anyExploded then Ok ()
      else case cx_Meta c ''reserved_variant_qty'' of
        None \<Rightarrow> if reservedMetaTrue c then Fail (orderLinesValidation ''reserved variant quantities are missing'') else Ok ()
      | Some (CQty got) \<Rightarrow>
          bindO (want_kept st ctx c kept (add_all [] explodedReserved)) (\<lambda>want.
          if \<not> reservedQtyMatch got want
          then Fail (orderLinesValidation ''reserved quantities do not match the quantities reserve held'')
          else Ok ())
      | Some _ \<Rightarrow> Fail (orderLinesValidation ''reserved variant quantities are missing''))"

section \<open>Assignment lines\<close>

definition leaf_assignments :: "order_item list \<Rightarrow> assignment_context \<Rightarrow> 'w required_leaf list \<Rightarrow> purchase_line list" where
  "leaf_assignments onOrder ac leaves =
     map (\<lambda>l. \<lparr>pl_ChildVariantID = v_ID (rl_Variant l), pl_ChildProductID = pd_ID (rl_Product l), pl_EligibleProductIDs = [],
            pl_Assignment = ac\<rparr>)
       (filter (\<lambda>l. pd_RequiresLinkedParent (rl_Product l) \<and> v_ID (rl_Variant l) \<in> set (map oi_VariantID onOrder)) leaves)"

text \<open>The lines of one cart row; a row whose variant or product is gone has none.\<close>

definition row_assignments ::
    "('w, 'd) create_order_step \<Rightarrow> req_ctx \<Rightarrow> 'w checkout_context \<Rightarrow> order_item list \<Rightarrow> cart_item \<Rightarrow> purchase_line list outcome" where
  "row_assignments st ctx c onOrder i =
     bindO (order_variant st c (ci_VariantID i)) (\<lambda>v0.
     case v0 of
       None \<Rightarrow> Ok []
     | Some v \<Rightarrow>
         bindO (order_product st ctx c (v_ProductID v)) (\<lambda>p0.
         case p0 of
           None \<Rightarrow> Ok []
         | Some p \<Rightarrow>
             let ac = ResolvePurchaseAssignment (Some ctx) (lineAssignment i);
                 line = (\<lambda>eligible. \<lparr>pl_ChildVariantID = ci_VariantID i, pl_ChildProductID = pd_ID p,
                           pl_EligibleProductIDs = eligible, pl_Assignment = ac\<rparr>) in
             if pd_Type p = TypeBundle \<and> pd_ExplodeOrderLines p
             then bindO (RequiredLeafVariants (linePurchaseContext ctx i) (Some (co_products st)) (Some (co_variants st))
                           (Some (co_components st)) (pd_ID p)) (\<lambda>leaves. Ok (leaf_assignments onOrder ac leaves))
             else if ci_VariantID i \<notin> set (map oi_VariantID onOrder) then Ok []
             else if pd_RequiresLinkedParent p then Ok [line []]
             else if pd_Type p \<noteq> TypeBundle then Ok []
             else bindO (LinkedParentChildProductIDs ctx (Some (co_products st)) (Some (co_components st)) (Some p)) (\<lambda>eligible.
                  Ok (if eligible = [] then [] else [line eligible]))))"

fun cart_assignments ::
    "('w, 'd) create_order_step \<Rightarrow> req_ctx \<Rightarrow> 'w checkout_context \<Rightarrow> order_item list \<Rightarrow> cart_item list \<Rightarrow> purchase_line list outcome" where
  "cart_assignments st ctx c onOrder [] = Ok []"
| "cart_assignments st ctx c onOrder (i # is) =
     bindO (row_assignments st ctx c onOrder i) (\<lambda>ls. bindO (cart_assignments st ctx c onOrder is) (\<lambda>ls'. Ok (ls @ ls')))"

definition assignmentLines ::
    "('w, 'd) create_order_step \<Rightarrow> req_ctx \<Rightarrow> 'w checkout_context \<Rightarrow> order \<Rightarrow> purchase_line list outcome" where
  "assignmentLines st ctx c o1 =
     (case cx_Cart c of None \<Rightarrow> Ok [] | Some k \<Rightarrow> cart_assignments st ctx c (o_items o1) (c_Items k))"

definition samePurchaseAssignment :: "assignment_context \<Rightarrow> assignment_context \<Rightarrow> bool" where
  "samePurchaseAssignment a b \<longleftrightarrow> trim_space (ac_ParentProductID a) = trim_space (ac_ParentProductID b) \<and>
     trim_space (ac_ParentUnitID a) = trim_space (ac_ParentUnitID b) \<and> ac_Deferred a = ac_Deferred b"

fun collapse_lines :: "(string \<Rightarrow> purchase_line option) \<Rightarrow> purchase_line list \<Rightarrow> purchase_line list outcome" where
  "collapse_lines seen [] = Ok []"
| "collapse_lines seen (l0 # ls) =
     (let key = trim_space (pl_ChildVariantID l0);
          ac = pl_Assignment l0;
          l = l0\<lparr>pl_Assignment := ac\<lparr>ac_ParentProductID := trim_space (ac_ParentProductID ac),
                 ac_ParentUnitID := trim_space (ac_ParentUnitID ac)\<rparr>\<rparr> in
      if key = [] then Fail (AppErr Validation ''child variant id must not be empty'')
      else case seen key of
        Some e \<Rightarrow>
          if \<not> samePurchaseAssignment (pl_Assignment e) (pl_Assignment l) then Fail (AppErr Validation AssignmentConflictMessage)
          else collapse_lines seen ls
      | None \<Rightarrow> bindO (collapse_lines (seen(key \<mapsto> l)) ls) (\<lambda>out. Ok (l # out)))"

definition collapsePurchaseLines :: "purchase_line list \<Rightarrow> purchase_line list outcome" where
  "collapsePurchaseLines lines = (if length lines < 2 then Ok lines else collapse_lines (\<lambda>_. None) lines)"

section \<open>Store credit\<close>

text \<open>The requested amount, at most the balance and at most the total of the order.\<close>

definition credit_to_apply :: "int64 \<Rightarrow> money \<Rightarrow> money \<Rightarrow> int64" where
  "credit_to_apply requested balance total_amount =
     (let a = (if m_amount balance <s requested then m_amount balance else requested) in
      if m_amount total_amount <s a then m_amount total_amount else a)"

definition applyStoreCredit ::
    "('w, 'd) create_order_step \<Rightarrow> order \<Rightarrow> (order \<times> money option, 'w checkout_context \<times> 'd) act" where
  "applyStoreCredit st o1 =
     bindW (reads fst) (\<lambda>c.
     let requested = in_StoreCreditAmount (cx_Input c); customerID = cx_CustomerID c in
     if requested \<le>s 0 then ret (o1, None)
     else if customerID = [] then raise (AppErr Validation ''store credit requires an authenticated customer'')
     else case co_credits st of
       None \<Rightarrow> raise (AppErr Validation ''store credit is not available'')
     | Some cr \<Rightarrow>
         bindW (wrapW (Wrap ''create_order: store credit balance'') (on_snd (cr_balance cr customerID (cx_Currency c)))) (\<lambda>balance.
         let a = credit_to_apply requested balance (o_TotalAmount o1) in
         if a \<le>s 0 then ret (o1, None)
         else bindW (lift (mapErr (Wrap ''create_order: store credit amount'') (NewMoney a (cx_Currency c)))) (\<lambda>credit.
           bindW (wrapW (Wrap ''create_order: redeem store credit'') (on_snd (cr_redeem cr customerID (o_ID o1) credit))) (\<lambda>_.
           bindW (on_snd (co_now st)) (\<lambda>now.
           case Order_ApplyStoreCredit now o1 credit of
             Ok o2 \<Rightarrow> ret (o2, Some credit)
           | Panics p \<Rightarrow> lift (Panics p)
           | Fail e \<Rightarrow>
               tryW (on_snd (cr_restore cr customerID credit (''create_order rollback: apply failed ('' @ o_ID o1 @ '')'') []))
                 (\<lambda>_. raise (Wrap ''create_order: apply store credit'' e))
                 (\<lambda>re. raise (Around ''create_order: apply store credit: '' e ('' (rollback failed: '' @ err_text re @ '')'')))))))) "

definition rollbackAppliedCredit ::
    "('w, 'd) create_order_step \<Rightarrow> order \<Rightarrow> money option \<Rightarrow> gerror \<Rightarrow> (unit, 'w checkout_context \<times> 'd) act" where
  "rollbackAppliedCredit st o1 applied cause =
     (case (applied, co_credits st) of
        (Some credit, Some cr) \<Rightarrow>
          bindW (reads (\<lambda>s. cx_CustomerID (fst s))) (\<lambda>customerID.
          tryW (on_snd (cr_restore cr customerID credit (''create_order rollback: order save failed ('' @ o_ID o1 @ '')'') []))
            (\<lambda>_. raise cause)
            (\<lambda>re. raise (Around [] cause ('' (store credit rollback failed: '' @ err_text re @ '')''))))
      | _ \<Rightarrow> raise cause)"

section \<open>Writing the order\<close>

text \<open>The deferred \<open>tx.Rollback()\<close>: after an error or a panic, and without effect after a commit.\<close>

definition in_tx :: "'d tx_beginner \<Rightarrow> (unit, 'c \<times> 'd) act \<Rightarrow> (unit, 'c \<times> 'd) act" where
  "in_tx tx body s =
     (case body s of
        (Ok u, s') \<Rightarrow> (Ok u, s')
      | (r, s') \<Rightarrow> (r, (fst s', tx_rollback tx (snd s) (snd s'))))"

definition persistOrder ::
    "('w, 'd) create_order_step \<Rightarrow> req_ctx \<Rightarrow> order \<Rightarrow> money option \<Rightarrow> (unit, 'w checkout_context \<times> 'd) act" where
  "persistOrder st ctx o1 applied =
     bindW (reads (\<lambda>s. bindO (assignmentLines st ctx (fst s) o1) collapsePurchaseLines)) (\<lambda>r.
     let undo = rollbackAppliedCredit st o1 applied in
     case r of
       Panics p \<Rightarrow> lift (Panics p)
     | Fail e \<Rightarrow> undo e
     | Ok lines \<Rightarrow>
         if lines = [] then tryW (on_snd (co_save st o1)) ret (\<lambda>e. undo (Wrap ''create_order: save'' e))
         else case (co_assignments st, co_tx st, co_save_bound st) of
           (Some flow, Some tx, Some save) \<Rightarrow>
             if \<not> fl_binds flow then undo (Err ''create_order: assignment writes require a shared transaction'')
             else bindW (reads (\<lambda>s. cx_CustomerID (fst s))) (\<lambda>customerID.
               tryW (on_snd (tx_begin tx))
                 (\<lambda>_. bindW (in_tx tx
                        (tryW (on_snd (save o1))
                           (\<lambda>_. tryW (on_snd (fl_record flow customerID (o_ID o1) lines)) ret
                                  (\<lambda>e. undo (Wrap ''create_order: assignment'' e)))
                           (\<lambda>e. undo (Wrap ''create_order: save'' e)))) (\<lambda>_.
                      tryW (on_snd (tx_commit tx)) ret (\<lambda>e. undo (Wrap ''create_order: commit'' e))))
                 (\<lambda>e. undo (Wrap ''create_order: begin assignment tx'' e)))
         | _ \<Rightarrow> undo (Err ''create_order: assignment writes require a shared transaction''))"

section \<open>Running the step\<close>

definition price_of_variant :: "pricing_item list \<Rightarrow> string \<Rightarrow> pricing_item option" where
  "price_of_variant items v = List.find (\<lambda>p. pi_VariantID p = v) (rev items)"

text \<open>The groups of lines; whether a row was exploded, what its lines reserved, and the rows that were not.\<close>

fun order_groups ::
    "('w, 'd) create_order_step \<Rightarrow> req_ctx \<Rightarrow> pricing_item list \<Rightarrow> string \<Rightarrow> cart_item list \<Rightarrow>
     (order_item list list \<times> bool \<times> (string \<times> int64) list \<times> cart_item list, 'w checkout_context \<times> 'd) act" where
  "order_groups st ctx priced storeID [] = ret ([], False, [], [])"
| "order_groups st ctx priced storeID (i # is) =
     (case price_of_variant priced (ci_VariantID i) of
        None \<Rightarrow> raise (orderLinesValidation (''no pricing for variant '' @ ci_VariantID i))
      | Some p \<Rightarrow>
          bindW (linesForCartItem st ctx i p storeID) (\<lambda>(lines, exploded).
          bindW (order_groups st ctx priced storeID is) (\<lambda>(groups, anyExploded, reserved, kept).
          ret (lines # groups, exploded \<or> anyExploded,
               (if exploded then map (\<lambda>l. (oi_VariantID l, oi_Quantity l)) (filter oi_Restockable lines) else []) @ reserved,
               (if exploded then kept else i # kept)))))"

definition publishOrderCreated :: "('w, 'd) create_order_step \<Rightarrow> order \<Rightarrow> (unit, 'w checkout_context \<times> 'd) act" where
  "publishOrderCreated st o1 = attempt (on_snd (Publish_Created (co_bus st) ''checkout.create_order'' (Some o1)))"

definition snapshot_extensions ::
    "('w, 'd) create_order_step \<Rightarrow> cart \<Rightarrow> order_item list \<Rightarrow> order \<Rightarrow> (unit, 'w checkout_context \<times> 'd) act" where
  "snapshot_extensions st k items o1 =
     (case co_extensions st of
        None \<Rightarrow> ret ()
      | Some snapshot \<Rightarrow>
          bindW (reads (\<lambda>s. trim_space (cx_CustomerID (fst s)))) (\<lambda>customer.
          let updatedBy = (if customer = [] then ''system'' else customer) in
          forW (\<lambda>i. wrapW (Wrap (''create_order: snapshot extensions for variant '' @ ci_VariantID i))
                  (on_snd (snapshot (c_ID k) (o_ID o1) (ci_VariantID i) updatedBy)))
            (filter (\<lambda>i. ci_VariantID i \<in> set (map oi_VariantID items)) (c_Items k))))"

definition order_created :: "'w checkout_context \<Rightarrow> bool" where
  "order_created c = (case cx_Meta c ''created_order_id'' of Some (CStr s) \<Rightarrow> s \<noteq> [] | _ \<Rightarrow> False)"

definition build_order ::
    "('w, 'd) create_order_step \<Rightarrow> req_ctx \<Rightarrow> cart \<Rightarrow> pricing_context \<Rightarrow> (order, 'w checkout_context \<times> 'd) act" where
  "build_order st ctx k pctx =
     bindW (reads fst) (\<lambda>c.
     bindW (order_groups st ctx (pc_Items pctx) (pricingStoreID c pctx) (c_Items k)) (\<lambda>(groups, anyExploded, reserved, kept).
     bindW (lift (mergeOrderItems groups)) (\<lambda>items.
     bindW (lift (assertExplodedReservations st ctx c anyExploded reserved kept)) (\<lambda>_.
     bindW (on_snd (co_newID st)) (\<lambda>oid.
     bindW (on_snd (co_now st)) (\<lambda>now.
     bindW (lift (mapErr (Wrap ''create_order'')
              (NewOrder (co_upper st) (co_mail st) now oid (cx_CustomerID c) (in_ContactEmail (cx_Input c)) (cx_Currency c) items))) (\<lambda>o1.
     lift (mapErr (Wrap ''create_order: tax snapshot'')
             (SetTaxSnapshot (co_upper st) o1 (ad_Country (in_Address (cx_Input c))) (pc_TaxTotal pctx))))))))))"

definition create_order :: "('w, 'd) create_order_step \<Rightarrow> req_ctx \<Rightarrow> (unit, 'w checkout_context \<times> 'd) act" where
  "create_order st ctx =
     bindW (reads fst) (\<lambda>c.
     if order_created c then ret ()
     else case cx_Cart c of
       None \<Rightarrow> raise (Err ''create_order: cart not loaded'')
     | Some k \<Rightarrow>
         (case cx_Meta c ''pricing'' of
            None \<Rightarrow> raise (Err ''create_order: pricing context not found in meta'')
          | Some (CPricing pctx) \<Rightarrow>
              bindW (build_order st ctx k pctx) (\<lambda>o1.
              bindW (applyStoreCredit st o1) (\<lambda>(o2, applied).
              bindW (persistOrder st ctx o2 applied) (\<lambda>_.
              bindW (modifies (\<lambda>(c, d). (SetMeta ''created_order_id'' (CStr (o_ID o2)) (c\<lparr>cx_Order := Some o2\<rparr>), d))) (\<lambda>_.
              bindW (publishOrderCreated st o2) (\<lambda>_.
              snapshot_extensions st k (o_items o2) o2)))))
          | Some _ \<Rightarrow> raise (Err ''create_order: invalid pricing context type'')))"

text \<open>The holds the deferred function releases; \<open>None\<close> when there is nothing to do.\<close>

definition holds_to_release :: "'w checkout_context \<Rightarrow> reservation_hold list option" where
  "holds_to_release c =
     (if order_created c then None
      else if reservationHoldsFromMeta c \<noteq> [] then Some (reservationHoldsFromMeta c)
      else if \<not> reservedMetaTrue c then None
      else case cx_Meta c ''reservations'' of
        None \<Rightarrow> Some []
      | Some (CStrs ids) \<Rightarrow> Some (map (\<lambda>x. \<lparr>rh_ID = x, rh_VariantID = [], rh_Quantity = 0, rh_BundleProductID = []\<rparr>) ids)
      | Some _ \<Rightarrow> None)"

definition releaseReservations :: "('w, 'd) create_order_step \<Rightarrow> (unit, 'w checkout_context \<times> 'd) act" where
  "releaseReservations st =
     (case co_release st of
        None \<Rightarrow> ret ()
      | Some release \<Rightarrow>
          bindW (reads (\<lambda>s. holds_to_release (fst s))) (\<lambda>holds0.
          case holds0 of
            None \<Rightarrow> ret ()
          | Some holds \<Rightarrow>
              bindW (releaseCheckoutHolds (Some release) (Some (co_variants st)) (co_bus st) ''checkout.create_order'' holds) note_release))"

definition CreateOrder_Execute :: "('w, 'd) create_order_step \<Rightarrow> req_ctx \<Rightarrow> (unit, 'w checkout_context \<times> 'd) act" where
  "CreateOrder_Execute st ctx =
     tryW (create_order st ctx) ret (\<lambda>e. bindW (releaseReservations st) (\<lambda>_. raise e))"

definition CreateOrder :: "('w, 'd) create_order_step \<Rightarrow> ('w, 'd) checkout_step" where
  "CreateOrder st = \<lparr>sp_name = ''create_order'', sp_run = CreateOrder_Execute st\<rparr>"

end
