(* ===== verification/CheckoutFlow.thy ===== *)
theory CheckoutFlow
  imports CheckoutOrder VisibilityFacts Tax
begin

text \<open>
  The other steps of the checkout and its service: \<open>validate_cart\<close>, \<open>recalculate_pricing\<close>,
  \<open>select_shipping\<close>, \<open>initiate_payment\<close>, \<open>StartCheckout\<close> and the order of the core
  steps (\<open>wire_services.go\<close>). Providers, repositories and the assignment flow are arguments. Logging is
  left out.
\<close>

section \<open>Values in the context\<close>

text \<open>A value of \<open>Meta\<close> as the pricing packages see it.\<close>

fun meta_plain :: "'w cmeta \<Rightarrow> meta_val" where
  "meta_plain (CPlain m) = m"
| "meta_plain (CStr s) = MStr s"
| "meta_plain (CBool _) = MOther ''bool''"
| "meta_plain (CStrs _) = MOther ''[]string''"
| "meta_plain (CHolds _) = MOther ''[]checkout.ReservationHold''"
| "meta_plain (CQty _) = MOther ''map[string]int''"
| "meta_plain (CPricing _) = MOther ''*pricing.PricingContext''"
| "meta_plain (CPayment _) = MOther ''*payment.Payment''"
| "meta_plain (CShipment _) = MOther ''*shipping.Shipment''"
| "meta_plain (CVariants _) = MOther ''map[string]*catalog.Variant''"
| "meta_plain (CProducts _) = MOther ''map[string]*catalog.Product''"
| "meta_plain (CAddress _) = MOther ''checkout.Address''"

definition set_meta :: "string \<Rightarrow> 'w cmeta \<Rightarrow> (unit, 'w checkout_context \<times> 'd) act" where
  "set_meta key v = modifies (\<lambda>(c, d). (SetMeta key v c, d))"

section \<open>validate_cart\<close>

text \<open>\<open>vc_check\<close> is \<open>CheckPurchaseAll\<close> of the assignment flow, \<open>vc_requireCategory\<close> the visibility option.\<close>

record 'w validate_step =
  vc_variants :: "'w variant_repo"
  vc_list :: "string \<Rightarrow> gerror + 'w variant list"
  vc_products :: product_repo
  vc_components :: component_repo
  vc_stock :: "string \<Rightarrow> stock_entry outcome"
  vc_facts :: "facts_source option"
  vc_requireCategory :: bool
  vc_files :: "file_counter option"
  vc_check :: "(string \<Rightarrow> string list \<Rightarrow> assignment_context \<Rightarrow> unit outcome) option"

definition NewValidateCartStep ::
    "('w variant_repo \<times> (string \<Rightarrow> gerror + 'w variant list)) option \<Rightarrow> product_repo option \<Rightarrow> component_repo option \<Rightarrow>
     (string \<Rightarrow> stock_entry outcome) option \<Rightarrow> 'w validate_step outcome" where
  "NewValidateCartStep variants products components stock =
     (case variants of
        None \<Rightarrow> Panics ''checkout: variants must not be nil''
      | Some (vs, list) \<Rightarrow>
          (case products of
             None \<Rightarrow> Panics ''checkout: products must not be nil''
           | Some ps \<Rightarrow>
               (case components of
                  None \<Rightarrow> Panics ''checkout: bundle components must not be nil''
                | Some cs \<Rightarrow>
                    (case stock of
                       None \<Rightarrow> Panics ''checkout: stock must not be nil''
                     | Some s \<Rightarrow> Ok \<lparr>vc_variants = vs, vc_list = list, vc_products = ps, vc_components = cs, vc_stock = s,
                         vc_facts = None, vc_requireCategory = False, vc_files = None, vc_check = None\<rparr>))))"

definition WithVisibilityFacts :: "facts_source option \<Rightarrow> bool \<Rightarrow> 'w validate_step \<Rightarrow> 'w validate_step" where
  "WithVisibilityFacts facts opts st = st\<lparr>vc_facts := facts, vc_requireCategory := opts\<rparr>"

definition Validate_WithAssignmentFlow ::
    "(string \<Rightarrow> string list \<Rightarrow> assignment_context \<Rightarrow> unit outcome) option \<Rightarrow> 'w validate_step option \<Rightarrow> 'w validate_step option" where
  "Validate_WithAssignmentFlow flow st = map_option (\<lambda>st. st\<lparr>vc_check := flow\<rparr>) st"

definition WithDownloadableFiles :: "file_counter option \<Rightarrow> 'w validate_step option \<Rightarrow> 'w validate_step option" where
  "WithDownloadableFiles files st = map_option (\<lambda>st. st\<lparr>vc_files := files\<rparr>) st"

definition ensureDownloadableHasFile :: "'w validate_step \<Rightarrow> product option \<Rightarrow> string \<Rightarrow> unit outcome" where
  "ensureDownloadableHasFile st p0 variantID =
     (case p0 of
        None \<Rightarrow> Ok ()
      | Some p \<Rightarrow>
          if pd_Type p \<noteq> TypeDownloadable then Ok ()
          else case vc_files st of
            None \<Rightarrow> Fail (AppErr Internal ''validate_cart: downloadable file repository is not configured'')
          | Some file_count \<Rightarrow>
              bindO (mapErr (Wrap ''validate_cart: count downloadable files'') (of_res (file_count (pd_ID p)))) (\<lambda>n.
              if DownloadableMissingFileBlocksPurchase (Some p) n
              then Fail (AppErr Validation (''validate_cart: product for variant '' @ variantID @ '': '' @
                     DownloadableMissingFileNotPurchasableMessage))
              else Ok ()))"

definition checkAssignmentPurchase ::
    "'w validate_step \<Rightarrow> (string \<Rightarrow> string list \<Rightarrow> assignment_context \<Rightarrow> unit outcome) \<Rightarrow> req_ctx \<Rightarrow> string \<Rightarrow> product \<Rightarrow>
     assignment_context \<Rightarrow> unit outcome" where
  "checkAssignmentPurchase st check_all ctx customerID p assignment =
     bindO (LinkedParentChildProductIDs ctx (Some (vc_products st)) (Some (vc_components st)) (Some p)) (\<lambda>ids.
     check_all customerID (if ids = [] then [pd_ID p] else ids) assignment)"

text \<open>The gates on one line whose variant and product have been read.\<close>

definition validate_line :: "'w validate_step \<Rightarrow> req_ctx \<Rightarrow> string \<Rightarrow> cart_item \<Rightarrow> product option \<Rightarrow> unit outcome" where
  "validate_line st ctx customerID i p0 =
     (case p0 of
        Some p \<Rightarrow>
          let vid = ci_VariantID i; assignment = ResolvePurchaseAssignment (Some ctx) (lineAssignment i) in
          if \<not> ActiveForPurchase p0
          then Fail (AppErr Validation (''validate_cart: product for variant '' @ vid @ '' is not available for purchase''))
          else if LinkedParentBlocksPurchase (Some (pd_RequiresLinkedParent p)) assignment
          then Fail (AppErr Validation (''validate_cart: product for variant '' @ vid @ '': '' @
                 RequiresLinkedParentNotPurchasableMessage))
          else
            bindO (ensureDownloadableHasFile st p0 vid) (\<lambda>_.
            bindO (case vc_check st of
                     None \<Rightarrow> Ok ()
                   | Some check_all \<Rightarrow>
                       if ac_ParentProductID assignment \<noteq> [] \<or> ac_ParentUnitID assignment \<noteq> []
                       then checkAssignmentPurchase st check_all ctx customerID p assignment else Ok ()) (\<lambda>_.
            if pd_Type p \<noteq> TypeBundle then Ok ()
            else bindO (RejectRequiredLinkedParentLeaves ctx (Some (vc_products st)) (Some (vc_components st)) (pd_ID p) assignment)
                   (\<lambda>_. RejectRequiredMissingDownloadableFileLeaves ctx (Some (vc_products st)) (Some (vc_components st))
                     (vc_files st) (pd_ID p))))
      | None \<Rightarrow> Fail (AppErr Validation (''validate_cart: product for variant '' @ ci_VariantID i @ '' is not available for purchase'')))"

text \<open>The first loop: the variants and products of the lines, and the product ids in order.\<close>

fun validate_lines ::
    "'w validate_step \<Rightarrow> req_ctx \<Rightarrow> string \<Rightarrow> cart_item list \<Rightarrow> (string \<Rightarrow> 'w variant option) \<Rightarrow> (string \<Rightarrow> product option) \<Rightarrow> string list \<Rightarrow>
     ((string \<Rightarrow> 'w variant option) \<times> (string \<Rightarrow> product option) \<times> string list) outcome" where
  "validate_lines st ctx customerID [] variants products ids = Ok (variants, products, ids)"
| "validate_lines st ctx customerID (i # is) variants products ids =
     (let vid = ci_VariantID i in
      bindO (mapErr (Wrap (''validate_cart: lookup variant '' @ vid)) (of_res (vr_find (vc_variants st) vid))) (\<lambda>v0.
      case v0 of
        None \<Rightarrow> Fail (Err (''validate_cart: variant '' @ vid @ '' no longer exists''))
      | Some v \<Rightarrow>
          let pid = v_ProductID v in
          bindO (case products pid of
                   Some p \<Rightarrow> Ok (Some p, ids)
                 | None \<Rightarrow> bindO (mapErr (Wrap (''validate_cart: lookup product '' @ pid)) (of_res (pq_find (vc_products st) ctx pid)))
                     (\<lambda>p0. Ok (p0, ids @ [pid]))) (\<lambda>(p0, ids').
          bindO (validate_line st ctx customerID i p0) (\<lambda>_.
          validate_lines st ctx customerID is (variants(vid \<mapsto> v)) (products(pid := p0)) ids'))))"

definition checkPurchasableAxis ::
    "'w validate_step \<Rightarrow> req_ctx \<Rightarrow> cart_item list \<Rightarrow> (string \<Rightarrow> 'w variant option) \<Rightarrow> string list \<Rightarrow> unit outcome" where
  "checkPurchasableAxis st ctx items variants ids =
     (case vc_facts st of
        None \<Rightarrow> Ok ()
      | Some facts \<Rightarrow>
          if BypassProductVisibility ctx then Ok ()
          else
            bindO (mapErr (Wrap ''validate_cart: purchasability'') (of_res (facts ids))) (\<lambda>byID.
            case List.find (\<lambda>i. case byID (v_ProductID (the (variants (ci_VariantID i)))) of
                       None \<Rightarrow> True
                     | Some s \<Rightarrow> \<not> Snapshot_Allows s SurfacePurchasable
                         (ResolvePurchaseAssignment (Some ctx) (lineAssignment i)) (vc_requireCategory st)) items of
              None \<Rightarrow> Ok ()
            | Some i \<Rightarrow> Fail (AppErr Validation
                (''validate_cart: product for variant '' @ ci_VariantID i @ '' is not currently purchasable''))))"

definition Validate_qtySources :: "'w validate_step \<Rightarrow> 'w qty_sources" where
  "Validate_qtySources st = \<lparr>qs_Stock = Some (vc_stock st), qs_Variants = Some (vc_variants st), qs_ListByProductID = vc_list st,
     qs_Products = Some (vc_products st), qs_Components = Some (vc_components st)\<rparr>"

fun reject_quantities :: "'w validate_step \<Rightarrow> req_ctx \<Rightarrow> (string \<Rightarrow> 'w variant option) \<Rightarrow> cart_item list \<Rightarrow> unit outcome" where
  "reject_quantities st ctx variants [] = Ok ()"
| "reject_quantities st ctx variants (i # is) =
     bindO (RejectQtyAboveAvailable (linePurchaseContext ctx i) (Validate_qtySources st)
              (v_ProductID (the (variants (ci_VariantID i)))) (ci_VariantID i) (ci_Quantity i)) (\<lambda>_.
     reject_quantities st ctx variants is)"

text \<open>\<open>CartRequiresPhysicalShipping\<close> with the lookups it tries first; nil repositories are \<open>None\<close>.\<close>

fun cart_types ::
    "product_repo \<Rightarrow> 'w variant_repo \<Rightarrow> req_ctx \<Rightarrow> (string \<Rightarrow> 'w variant option) \<Rightarrow> (string \<Rightarrow> product option) \<Rightarrow> cart_item list \<Rightarrow>
     (string \<Rightarrow> product_type option) \<Rightarrow> product_type list outcome" where
  "cart_types products variants ctx variantOf productOf [] seen = Ok []"
| "cart_types products variants ctx variantOf productOf (i # is) seen =
     bindO (case variantOf (ci_VariantID i) of
              Some v \<Rightarrow> Ok v
            | None \<Rightarrow>
                bindO (mapErr (Wrap (''shipping requirement: lookup variant '' @ ci_VariantID i)) (of_res (vr_find variants (ci_VariantID i))))
                  (\<lambda>v0. case v0 of
                     None \<Rightarrow> Fail (Err (''shipping requirement: variant '' @ ci_VariantID i @ '' no longer exists''))
                   | Some v \<Rightarrow> Ok v)) (\<lambda>v.
     let pid = v_ProductID v in
     bindO (case seen pid of
              Some t \<Rightarrow> Ok t
            | None \<Rightarrow>
                bindO (case productOf pid of
                         Some p \<Rightarrow> Ok (Some p)
                       | None \<Rightarrow> mapErr (Wrap (''shipping requirement: lookup product '' @ pid)) (of_res (pq_find products ctx pid)))
                  (\<lambda>p0. Ok (case p0 of None \<Rightarrow> TypeSimple | Some p \<Rightarrow> pd_Type p))) (\<lambda>t.
     bindO (cart_types products variants ctx variantOf productOf is (seen(pid \<mapsto> t))) (\<lambda>ts. Ok (t # ts))))"

definition CartRequiresPhysicalShipping ::
    "req_ctx \<Rightarrow> cart option \<Rightarrow> product_repo option \<Rightarrow> 'w variant_repo option \<Rightarrow> (string \<Rightarrow> 'w variant option) \<Rightarrow>
     (string \<Rightarrow> product option) \<Rightarrow> bool outcome" where
  "CartRequiresPhysicalShipping ctx c0 products variants variantOf productOf =
     (case c0 of
        None \<Rightarrow> Ok True
      | Some k \<Rightarrow>
          if c_Items k = [] then Ok True
          else case (products, variants) of
            (Some ps, Some vs) \<Rightarrow>
              bindO (cart_types ps vs ctx variantOf productOf (c_Items k) (\<lambda>_. None)) (\<lambda>ts. Ok (AnyRequiresPhysicalShipping ts))
          | _ \<Rightarrow> Ok True)"

definition line_classes :: "(string \<Rightarrow> 'w variant option) \<Rightarrow> (string \<Rightarrow> product option) \<Rightarrow> cart_item list \<Rightarrow> line_tax_class list" where
  "line_classes variants products items =
     map (\<lambda>i. \<lparr>ltc_VariantID = ci_VariantID i,
            ltc_ProductType = pd_Type (the (products (v_ProductID (the (variants (ci_VariantID i))))))\<rparr>) items"

text \<open>\<open>EnsureTaxClasses\<close> reads and writes the key \<open>tax_classes\<close> of \<open>Meta\<close> only.\<close>

definition ensure_tax_classes :: "line_tax_class list \<Rightarrow> (unit, 'w checkout_context \<times> 'd) act" where
  "ensure_tax_classes lines =
     bindW (reads (\<lambda>s. EnsureTaxClasses (Some (\<lambda>k. map_option meta_plain (cx_Meta (fst s) k))) lines)) (\<lambda>r.
     bindW (lift r) (\<lambda>m.
     case m ''tax_classes'' of None \<Rightarrow> ret () | Some v \<Rightarrow> set_meta ''tax_classes'' (CPlain v)))"

definition ValidateCart_Execute :: "'w validate_step \<Rightarrow> req_ctx \<Rightarrow> (unit, 'w checkout_context \<times> 'd) act" where
  "ValidateCart_Execute st ctx =
     bindW (reads fst) (\<lambda>c.
     if meta_true c ''validated'' then ret ()
     else case cx_Cart c of
       None \<Rightarrow> raise (Err ''validate_cart: cart not loaded'')
     | Some k \<Rightarrow>
         bindW (lift (validate_lines st ctx (cx_CustomerID c) (c_Items k) (\<lambda>_. None) (\<lambda>_. None) [])) (\<lambda>(variants, products, ids).
         bindW (lift (checkPurchasableAxis st ctx (c_Items k) variants ids)) (\<lambda>_.
         bindW (lift (reject_quantities st ctx variants (c_Items k))) (\<lambda>_.
         bindW (set_meta ''cart_variants'' (CVariants variants)) (\<lambda>_.
         bindW (set_meta ''cart_products'' (CProducts products)) (\<lambda>_.
         bindW (ensure_tax_classes (line_classes variants products (c_Items k))) (\<lambda>_.
         bindW (lift (mapErr (Wrap ''validate_cart: shipping requirement'')
                  (CartRequiresPhysicalShipping ctx (Some k) (Some (vc_products st)) (Some (vc_variants st)) variants products))) (\<lambda>needs.
         bindW (set_meta ''shipping_required'' (CBool needs)) (\<lambda>_.
         set_meta ''validated'' (CBool True))))))))))"

definition ValidateCart :: "'w validate_step \<Rightarrow> ('w, 'd) checkout_step" where
  "ValidateCart st = \<lparr>sp_name = ''validate_cart'', sp_run = ValidateCart_Execute st\<rparr>"

section \<open>recalculate_pricing\<close>

fun cart_pricing_items :: "cart_item list \<Rightarrow> pricing_item list outcome" where
  "cart_pricing_items [] = Ok []"
| "cart_pricing_items (i # is) =
     bindO (mapErr (Wrap (''recalculate_pricing: item '' @ ci_VariantID i))
              (NewPricingItem (ci_VariantID i) (ci_Quantity i) (ci_UnitPrice i))) (\<lambda>p.
     bindO (cart_pricing_items is) (\<lambda>ps. Ok (p # ps)))"

definition forward_meta :: "'w checkout_context \<Rightarrow> string \<Rightarrow> meta \<Rightarrow> meta" where
  "forward_meta c key m = (case cx_Meta c key of None \<Rightarrow> m | Some v \<Rightarrow> m(key \<mapsto> meta_plain v))"

definition pricing_customer :: "'w checkout_context \<Rightarrow> cart \<Rightarrow> meta \<Rightarrow> meta" where
  "pricing_customer c k m =
     (if cx_CustomerID c \<noteq> [] then m(''customer_id'' \<mapsto> MStr (cx_CustomerID c))
      else if c_CustomerID k \<noteq> [] then m(''customer_id'' \<mapsto> MStr (c_CustomerID k))
      else m)"

text \<open>The pricing context the pipeline starts from.\<close>

definition pricing_start :: "'w checkout_context \<Rightarrow> cart \<Rightarrow> pricing_context outcome" where
  "pricing_start c k =
     bindO (mapErr (Wrap ''recalculate_pricing'') (NewPricingContext (cx_Currency c))) (\<lambda>pctx.
     bindO (cart_pricing_items (c_Items k)) (\<lambda>items.
     Ok (pctx\<lparr>pc_Items := items, pc_Meta := pricing_customer c k
           (fold (forward_meta c) [''tax_country'', ''tax_mode'', ''tax_classes'', ''store_id''] (pc_Meta pctx))\<rparr>)))"

definition RecalculatePricing_Execute ::
    "(req_ctx \<Rightarrow> pricing_step list) \<Rightarrow> req_ctx \<Rightarrow> (unit, 'w checkout_context \<times> 'd) act" where
  "RecalculatePricing_Execute pipeline ctx =
     bindW (reads fst) (\<lambda>c.
     if meta_true c ''priced'' then ret ()
     else case cx_Cart c of
       None \<Rightarrow> raise (Err ''recalculate_pricing: cart not loaded'')
     | Some k \<Rightarrow>
         bindW (lift (pricing_start c k)) (\<lambda>p0.
         bindW (lift (mapErr (Wrap ''recalculate_pricing'') (Pipeline_Execute (pipeline ctx) p0))) (\<lambda>pctx.
         bindW (set_meta ''pricing'' (CPricing pctx)) (\<lambda>_.
         set_meta ''priced'' (CBool True)))))"

definition RecalculatePricing :: "(req_ctx \<Rightarrow> pricing_step list) \<Rightarrow> ('w, 'd) checkout_step" where
  "RecalculatePricing pipeline = \<lparr>sp_name = ''recalculate_pricing'', sp_run = RecalculatePricing_Execute pipeline\<rparr>"

section \<open>select_shipping\<close>

record 'd ship_provider =
  sv_Method :: shipping_method
  sv_CalculateRate :: "string \<Rightarrow> string \<Rightarrow> int64 \<Rightarrow> (shipping_rate, 'd) act"

record 'd select_shipping_step =
  ss_providers :: "'d ship_provider shipping_registry"
  ss_create :: "shipment \<Rightarrow> (unit, 'd) act"
  ss_newID :: "(string, 'd) act"
  ss_now :: "(gotime, 'd) act"

definition NewSelectShippingStep ::
    "'d ship_provider shipping_registry option \<Rightarrow> (shipment \<Rightarrow> (unit, 'd) act) option \<Rightarrow> (string, 'd) act \<Rightarrow> (gotime, 'd) act \<Rightarrow>
     'd select_shipping_step outcome" where
  "NewSelectShippingStep providers shipments newID now =
     (if ShippingRegistry_Len providers = 0 then Panics ''checkout: shipping registry must not be empty''
      else case shipments of
        None \<Rightarrow> Panics ''checkout: shipment repository must not be nil''
      | Some create \<Rightarrow> Ok \<lparr>ss_providers = the providers, ss_create = create, ss_newID = newID, ss_now = now\<rparr>)"

definition shippingRequiredFromMeta :: "'w checkout_context \<Rightarrow> bool outcome" where
  "shippingRequiredFromMeta c =
     (case cx_Meta c ''shipping_required'' of
        None \<Rightarrow> Fail (Err ''select_shipping: shipping requirement not resolved (validate_cart must run first)'')
      | Some (CBool needs) \<Rightarrow> Ok needs
      | Some v \<Rightarrow> Fail (Err ''select_shipping: shipping requirement meta has unexpected type''))"

definition SelectShipping_Execute :: "'d select_shipping_step \<Rightarrow> req_ctx \<Rightarrow> (unit, 'w checkout_context \<times> 'd) act" where
  "SelectShipping_Execute st ctx =
     bindW (reads fst) (\<lambda>c.
     if meta_true c ''shipment_selected'' then ret ()
     else case (cx_Order c, cx_Cart c) of
       (None, _) \<Rightarrow> raise (Err ''select_shipping: order not created yet'')
     | (Some o1, None) \<Rightarrow> raise (Err ''select_shipping: cart not loaded'')
     | (Some o1, Some k) \<Rightarrow>
         bindW (lift (shippingRequiredFromMeta c)) (\<lambda>needs.
         if \<not> needs
         then bindW (set_meta ''shipping_not_required'' (CBool True)) (\<lambda>_. set_meta ''shipment_selected'' (CBool True))
         else
           bindW (lift (mapErr (\<lambda>_. AppErr Validation ''selected shipping method is unavailable'')
                    (ShippingRegistry_Resolve (Some (ss_providers st)) (in_ShippingMethod (cx_Input c))))) (\<lambda>provider.
           bindW (wrapW (Wrap ''select_shipping: calculate rate'')
                    (on_snd (sv_CalculateRate provider (o_ID o1) (cx_Currency c) (TotalQuantity k)))) (\<lambda>rate.
           bindW (on_snd (ss_newID st)) (\<lambda>sid.
           bindW (on_snd (ss_now st)) (\<lambda>now.
           bindW (lift (mapErr (Wrap ''select_shipping: create shipment'')
                    (NewShipment now sid (o_ID o1) (sv_Method provider) (sra_Cost rate)))) (\<lambda>shipment.
           bindW (wrapW (Wrap ''select_shipping: save shipment'') (on_snd (ss_create st shipment))) (\<lambda>_.
           bindW (set_meta ''shipment'' (CShipment shipment)) (\<lambda>_.
           set_meta ''shipment_selected'' (CBool True))))))))))"

definition SelectShipping :: "'d select_shipping_step \<Rightarrow> ('w, 'd) checkout_step" where
  "SelectShipping st = \<lparr>sp_name = ''select_shipping'', sp_run = SelectShipping_Execute st\<rparr>"

section \<open>initiate_payment\<close>

record provider_result =
  pt_ProviderRef :: string
  pt_Success :: bool
  pt_Pending :: bool
  pt_ClientSecret :: string

record 'd pay_provider =
  pp_Method :: payment_method
  pp_Initiate :: "payment \<Rightarrow> (provider_result, 'd) act"

record 'd initiate_payment_step =
  ip_providers :: "'d pay_provider payment_registry"
  ip_create :: "payment \<Rightarrow> (unit, 'd) act"
  ip_update :: "payment \<Rightarrow> gotime \<Rightarrow> (unit, 'd) act"
  ip_revoke :: "(string \<Rightarrow> (unit, 'd) act) option"
  ip_bus :: "'d bus option"
  ip_newID :: "(string, 'd) act"
  ip_now :: "(gotime, 'd) act"

definition NewInitiatePaymentStep ::
    "'d pay_provider payment_registry option \<Rightarrow> ((payment \<Rightarrow> (unit, 'd) act) \<times> (payment \<Rightarrow> gotime \<Rightarrow> (unit, 'd) act)) option \<Rightarrow>
     (string, 'd) act \<Rightarrow> (gotime, 'd) act \<Rightarrow> 'd initiate_payment_step outcome" where
  "NewInitiatePaymentStep providers payments newID now =
     (if PaymentRegistry_Len providers = 0 then Panics ''checkout: payment providers must not be empty''
      else case payments of
        None \<Rightarrow> Panics ''checkout: payment repository must not be nil''
      | Some (create, update) \<Rightarrow> Ok \<lparr>ip_providers = the providers, ip_create = create, ip_update = update, ip_revoke = None,
          ip_bus = None, ip_newID = newID, ip_now = now\<rparr>)"

definition Pay_WithAssignmentFlow ::
    "(string \<Rightarrow> (unit, 'd) act) option \<Rightarrow> 'd initiate_payment_step option \<Rightarrow> 'd initiate_payment_step option" where
  "Pay_WithAssignmentFlow revoke st = map_option (\<lambda>st. st\<lparr>ip_revoke := revoke\<rparr>) st"

definition Pay_WithEventBus :: "'d bus option \<Rightarrow> 'd initiate_payment_step option \<Rightarrow> 'd initiate_payment_step option" where
  "Pay_WithEventBus bus st = map_option (\<lambda>st. st\<lparr>ip_bus := bus\<rparr>) st"

text \<open>An error of the publication is only logged.\<close>

definition publishOrderPaid :: "'d initiate_payment_step \<Rightarrow> (unit, 'w checkout_context \<times> 'd) act" where
  "publishOrderPaid st =
     bindW (reads (\<lambda>s. cx_Order (fst s))) (\<lambda>o0.
     case o0 of
       None \<Rightarrow> ret ()
     | Some o1 \<Rightarrow> attempt (on_snd (Publish_Paid (ip_bus st) ''checkout.initiate_payment'' (o_ID o1)
         (order_status_string (o_status o1)) (order_status_string OrderStatusPaid))))"

definition revokeAssignments :: "'d initiate_payment_step \<Rightarrow> string \<Rightarrow> (unit, 'w checkout_context \<times> 'd) act" where
  "revokeAssignments st orderID = (case ip_revoke st of None \<Rightarrow> ret () | Some revoke \<Rightarrow> on_snd (revoke orderID))"

text \<open>A context that was paid or skipped before publishes again; a pending payment does not.\<close>

definition payment_again :: "'d initiate_payment_step \<Rightarrow> 'w checkout_context \<Rightarrow> (unit, 'w checkout_context \<times> 'd) act" where
  "payment_again st c =
     (if meta_true c ''payment_skipped'' then publishOrderPaid st
      else case cx_Meta c ''payment'' of
        Some (CPayment py) \<Rightarrow> if p_status py = PayCompleted then publishOrderPaid st else ret ()
      | _ \<Rightarrow> ret ())"

text \<open>What the provider answered: pending, approved or declined.\<close>

definition payment_pending ::
    "'d initiate_payment_step \<Rightarrow> payment \<Rightarrow> provider_result \<Rightarrow> (unit, 'w checkout_context \<times> 'd) act" where
  "payment_pending st py r =
     (if pt_ProviderRef r = [] then raise (Err ''initiate_payment: pending result has no provider reference'')
      else bindW (on_snd (ip_now st)) (\<lambda>now.
        let py' = py\<lparr>p_ProviderRef := pt_ProviderRef r, p_UpdatedAt := now\<rparr> in
        bindW (set_meta ''payment'' (CPayment py')) (\<lambda>_.
        bindW (set_meta ''payment_initiated'' (CBool True)) (\<lambda>_.
        bindW (if pt_ClientSecret r = [] then ret () else set_meta ''client_secret'' (CStr (pt_ClientSecret r))) (\<lambda>_.
        wrapW (Wrap ''initiate_payment: update status'') (on_snd (ip_update st py' (p_UpdatedAt py))))))))"

definition payment_settled ::
    "'d initiate_payment_step \<Rightarrow> string \<Rightarrow> payment \<Rightarrow> provider_result \<Rightarrow> (unit, 'w checkout_context \<times> 'd) act" where
  "payment_settled st orderID py r =
     bindW (on_snd (ip_now st)) (\<lambda>now.
     bindW (lift (if pt_Success r then mapErr (Wrap ''initiate_payment: complete'') (Payment_Complete now py (pt_ProviderRef r))
                  else mapErr (Wrap ''initiate_payment: fail'') (Payment_Fail now py))) (\<lambda>py'.
     bindW (set_meta ''payment'' (CPayment py')) (\<lambda>_.
     bindW (set_meta ''payment_initiated'' (CBool True)) (\<lambda>_.
     bindW (wrapW (Wrap ''initiate_payment: update status'') (on_snd (ip_update st py' (p_UpdatedAt py)))) (\<lambda>_.
     if pt_Success r then publishOrderPaid st
     else tryW (revokeAssignments st orderID)
            (\<lambda>_. raise (Err ''initiate_payment: payment declined''))
            (\<lambda>re. raise (Err (''initiate_payment: payment declined (revoke: '' @ err_text re @ '')''))))))))"

definition start_payment ::
    "'d initiate_payment_step \<Rightarrow> order \<Rightarrow> string \<Rightarrow> money \<Rightarrow> (unit, 'w checkout_context \<times> 'd) act" where
  "start_payment st o1 meth payable =
     bindW (lift (mapErr (\<lambda>_. AppErr Validation ''selected payment method is unavailable'')
              (PaymentRegistry_Resolve (Some (ip_providers st)) meth))) (\<lambda>provider.
     bindW (on_snd (ip_newID st)) (\<lambda>pid.
     bindW (on_snd (ip_now st)) (\<lambda>now.
     bindW (lift (mapErr (Wrap ''initiate_payment: create payment'')
              (NewPayment now pid (o_ID o1) (pp_Method provider) payable))) (\<lambda>py.
     bindW (wrapW (Wrap ''initiate_payment: save payment'') (on_snd (ip_create st py))) (\<lambda>_.
     tryW (on_snd (pp_Initiate provider py))
       (\<lambda>r. if pt_Pending r then payment_pending st py r else payment_settled st (o_ID o1) py r)
       (\<lambda>e. tryW (revokeAssignments st (o_ID o1))
              (\<lambda>_. raise (Wrap ''initiate_payment: provider error'' e))
              (\<lambda>re. raise (Around ''initiate_payment: provider error: '' e ('' (revoke: '' @ err_text re @ '')'')))))))))"

definition InitiatePayment_Execute :: "'d initiate_payment_step \<Rightarrow> req_ctx \<Rightarrow> (unit, 'w checkout_context \<times> 'd) act" where
  "InitiatePayment_Execute st ctx =
     bindW (reads fst) (\<lambda>c.
     case cx_Order c of
       None \<Rightarrow> raise (Err ''initiate_payment: order not created yet'')
     | Some o1 \<Rightarrow>
         if meta_true c ''payment_initiated'' then payment_again st c
         else if meta_true c ''payment_skipped''
         then bindW (set_meta ''payment_initiated'' (CBool True)) (\<lambda>_. publishOrderPaid st)
         else
           bindW (lift (mapErr (Wrap ''initiate_payment: payable amount'') (PayableAmount o1))) (\<lambda>payable.
           if m_amount payable = 0
           then bindW (set_meta ''payment_initiated'' (CBool True)) (\<lambda>_.
                bindW (set_meta ''payment_skipped'' (CBool True)) (\<lambda>_. publishOrderPaid st))
           else start_payment st o1 (in_PaymentMethod (cx_Input c)) payable))"

definition InitiatePayment :: "'d initiate_payment_step \<Rightarrow> ('w, 'd) checkout_step" where
  "InitiatePayment st = \<lparr>sp_name = ''initiate_payment'', sp_run = InitiatePayment_Execute st\<rparr>"

section \<open>The service\<close>

text \<open>The core steps in the order of \<open>wire_services.go\<close>.\<close>

definition core_checkout_steps ::
    "'w validate_step \<Rightarrow> (req_ctx \<Rightarrow> pricing_step list) \<Rightarrow> ('w, 'd) reserve_step \<Rightarrow> ('w, 'd) create_order_step \<Rightarrow>
     'd select_shipping_step \<Rightarrow> 'd initiate_payment_step \<Rightarrow> ('w, 'd) checkout_step list" where
  "core_checkout_steps vc pipeline rs co ss ip =
     [ValidateCart vc, RecalculatePricing pipeline, ReserveInventory rs, CreateOrder co, SelectShipping ss, InitiatePayment ip]"

record ('w, 'd) checkout_service =
  cs_find :: "string \<Rightarrow> (cart option, 'd) act"
  cs_workflow :: "('w, 'd) workflow"
  cs_upper :: "string \<Rightarrow> string"
  cs_lower :: "string \<Rightarrow> string"
  cs_mail :: "string \<Rightarrow> bool"

definition NewCheckoutService ::
    "(string \<Rightarrow> (cart option, 'd) act) option \<Rightarrow> ('w, 'd) workflow option \<Rightarrow> bool \<Rightarrow> (string \<Rightarrow> string) \<Rightarrow> (string \<Rightarrow> string) \<Rightarrow>
     (string \<Rightarrow> bool) \<Rightarrow> ('w, 'd) checkout_service outcome" where
  "NewCheckoutService carts workflow has_log upper lower mail =
     (case carts of
        None \<Rightarrow> Panics ''checkout: carts must not be nil''
      | Some f \<Rightarrow>
          (case workflow of
             None \<Rightarrow> Panics ''checkout: workflow must not be nil''
           | Some w \<Rightarrow>
               if \<not> has_log then Panics ''checkout: logger must not be nil''
               else Ok \<lparr>cs_find = f, cs_workflow = w, cs_upper = upper, cs_lower = lower, cs_mail = mail\<rparr>))"

definition check_address :: "address \<Rightarrow> unit outcome" where
  "check_address a =
     (if Address_IsZero a then Fail (AppErr Validation ''address is required'')
      else if ad_FirstName a = [] then Fail (AppErr Validation ''first name is required'')
      else if ad_LastName a = [] then Fail (AppErr Validation ''last name is required'')
      else if ad_Street a = [] then Fail (AppErr Validation ''street is required'')
      else if ad_City a = [] then Fail (AppErr Validation ''city is required'')
      else if ad_Postcode a = [] then Fail (AppErr Validation ''postcode is required'')
      else if ad_Country a = [] then Fail (AppErr Validation ''country is required'')
      else Ok ())"

definition check_email :: "('w, 'd) checkout_service \<Rightarrow> string \<Rightarrow> string \<Rightarrow> unit outcome" where
  "check_email svc customerID email =
     (if customerID = [] \<and> email = [] then Fail (AppErr Validation ''contact email is required for guest checkout'')
      else if email \<noteq> [] \<and> \<not> cs_mail svc email then Fail (AppErr Validation ''contact email is invalid'')
      else Ok ())"

definition normal_input :: "('w, 'd) checkout_service \<Rightarrow> checkout_input \<Rightarrow> checkout_input" where
  "normal_input svc inp = inp\<lparr>in_ContactEmail := go_to_lower (cs_lower svc) (trim_space (in_ContactEmail inp)),
     in_Address := Address_Normalize (in_Address inp)\<rparr>"

text \<open>The context the workflow starts from.\<close>

definition checkout_start ::
    "('w, 'd) checkout_service \<Rightarrow> string option \<Rightarrow> string \<Rightarrow> string \<Rightarrow> checkout_input \<Rightarrow> cart \<Rightarrow> 'w checkout_context outcome" where
  "checkout_start svc store_id cartID customerID inp k =
     (let c0 = (NewContext cartID customerID (c_Currency k))\<lparr>cx_Cart := Some k, cx_Input := inp\<rparr>;
          c1 = SetMeta ''checkout_payment_method'' (CStr (in_PaymentMethod inp))
                (SetMeta ''checkout_shipping_method'' (CStr (in_ShippingMethod inp))
                (SetMeta ''checkout_contact_email'' (CStr (in_ContactEmail inp))
                (SetMeta ''checkout_address'' (CAddress (in_Address inp)) c0))) in
      bindO (mapErr (\<lambda>_. AppErr Validation ''country must be a 2-letter ISO code'')
               (ValidateDestinationCountry (cs_upper svc) (ad_Country (in_Address inp)))) (\<lambda>country.
      let c2 = SetMeta ''tax_mode'' (CStr ''exclusive'') (SetMeta ''tax_country'' (CStr country) c1) in
      Ok (case store_id of None \<Rightarrow> c2 | Some sid \<Rightarrow> SetMeta ''store_id'' (CStr sid) c2)))"

text \<open>The gates of \<open>StartCheckout\<close> up to the workflow.\<close>

definition checkout_prepare ::
    "('w, 'd) checkout_service \<Rightarrow> string option \<Rightarrow> string \<Rightarrow> string \<Rightarrow> checkout_input \<Rightarrow> ('w checkout_context, 'd) act" where
  "checkout_prepare svc store_id cartID customerID input0 =
     (if cartID = [] then raise (AppErr Validation ''cart id must not be empty'')
      else
        let inp = normal_input svc input0 in
        bindW (lift (check_address (in_Address inp))) (\<lambda>_.
        bindW (wrapW (Wrap ''checkout: find cart'') (cs_find svc cartID)) (\<lambda>k0.
        case k0 of
          None \<Rightarrow> raise (AppErr NotFound ''cart not found'')
        | Some k \<Rightarrow>
            if \<not> IsActive k then raise (AppErr Validation ''cart is not active'')
            else if c_CustomerID k \<noteq> customerID then raise (AppErr Forbidden ''cart does not belong to this customer'')
            else bindW (lift (check_email svc customerID (in_ContactEmail inp))) (\<lambda>_.
              if ItemCount k = 0 then raise (AppErr Validation ''cart is empty'')
              else lift (checkout_start svc store_id cartID customerID inp k)))))"

text \<open>The result is the context, which an error of the workflow returns as well, and the error.\<close>

definition StartCheckout ::
    "('w, 'd) checkout_service \<Rightarrow> req_ctx \<Rightarrow> string option \<Rightarrow> string \<Rightarrow> string \<Rightarrow> checkout_input \<Rightarrow> 'd \<Rightarrow>
     ('w checkout_context option \<times> unit outcome) \<times> 'd" where
  "StartCheckout svc ctx store_id cartID customerID input0 d =
     (case checkout_prepare svc store_id cartID customerID input0 d of
        (Fail e, d') \<Rightarrow> ((None, Fail e), d')
      | (Panics p, d') \<Rightarrow> ((None, Panics p), d')
      | (Ok c, d') \<Rightarrow> (case Execute (cs_workflow svc) ctx (c, d') of ((r, metric), (c', d'')) \<Rightarrow> ((Some c', r), d'')))"

end
