(* ===== verification/CheckoutCharge.thy ===== *)
theory CheckoutCharge
  imports CheckoutFlow Holds
begin

text \<open>
  What a checkout charges: the lines of the order against the pricing snapshot, and the payment
  against the order. Shared lemmas on the runs of \<open>create_order\<close> and \<open>initiate_payment\<close>.
\<close>

lemma on_snd_Ok: "on_snd m s = (Ok x, t) \<longleftrightarrow> (\<exists>d. m (snd s) = (Ok x, d) \<and> t = (fst s, d))"
  by (auto simp: on_snd_def split: prod.splits)

lemma tryW_Ok:
  "tryW m f g s = (Ok y, t) \<longleftrightarrow> (\<exists>x s'. m s = (Ok x, s') \<and> f x s' = (Ok y, t)) \<or> (\<exists>e s'. m s = (Fail e, s') \<and> g e s' = (Ok y, t))"
  by (cases "m s" rule: outcome_pair_cases) (auto simp: tryW_def)

section \<open>Merging lines\<close>

lemma checkedAddQty_Ok:
  assumes "checkedAddQty a b = Ok q"
  shows "sint q = sint a + sint b \<and> 0 < sint a \<and> 0 < sint b"
proof -
  have pos: "0 < sint a" "0 < sint b" and le: "\<not> MaxInt64 - b <s a" and q: "q = a + b"
    using assms by (auto simp: checkedAddQty_def i64 split: if_splits)
  have "sint (MaxInt64 - b) = 2 ^ 63 - 1 - sint b"
    using pos(2) sint_lt [of b] by (subst sint_minus_exact) (simp_all add: MaxInt64_def in_int64_def)
  then have "sint a + sint b < 2 ^ 63" using le by (simp add: i64)
  then show ?thesis using pos q by (simp add: sint_plus_exact in_int64_def)
qed

lemma checkedMulQty_Ok: "checkedMulQty a b = Ok q \<Longrightarrow> sint q = sint a * sint b \<and> 0 < sint a \<and> 0 < sint b"
proof -
  assume "checkedMulQty a b = Ok q"
  then have pos: "0 < sint a" "0 < sint b" and le: "sint a \<le> sint (go_div MaxInt64 b)" and q: "q = a * b"
    by (auto simp: checkedMulQty_def i64 not_less split: if_splits)
  have "sint (go_div MaxInt64 b) = (2 ^ 63 - 1) div sint b"
    using pos(2) by (simp add: sint_go_div_pos MaxInt64_def signed_divide_int_def)
  then have "sint a * sint b \<le> (2 ^ 63 - 1) div sint b * sint b"
    using le pos(2) by (simp add: mult_right_mono)
  also have "\<dots> = (2 ^ 63 - 1) - (2 ^ 63 - 1) mod sint b" by (simp only: minus_mod_eq_div_mult)
  finally have "sint a * sint b \<le> 2 ^ 63 - 1" using pos_mod_sign [OF pos(2), of "2 ^ 63 - 1"] by linarith
  moreover have "0 < sint a * sint b" using pos by simp
  ultimately have "in_int64 (sint a * sint b)" unfolding in_int64_def by linarith
  then show ?thesis using pos q by (simp add: sint_times_exact)
qed

lemma merge_item_Ok:
  assumes "merge_item acc i = Ok acc'" "\<forall>x \<in> set acc. order_item_ok x" "order_item_ok i"
  shows "order_items_cents acc' = order_items_cents acc + cents (oi_UnitPrice i) * sint (oi_Quantity i) \<and>
    (\<forall>x \<in> set acc'. order_item_ok x)"
  using assms
proof (induction acc arbitrary: acc')
  case (Cons m ms)
  show ?case
  proof (cases "oi_VariantID m = oi_VariantID i")
    case True
    then obtain q where q: "checkedAddQty (oi_Quantity m) (oi_Quantity i) = Ok q" and acc': "acc' = m\<lparr>oi_Quantity := q\<rparr> # ms"
      and same: "oi_UnitPrice m = oi_UnitPrice i"
      using Cons.prems(1) by (auto split: if_splits)
    then show ?thesis
      using checkedAddQty_Ok [OF q] Cons.prems(2) by (auto simp: order_item_ok_def distrib_left)
  next
    case False
    then obtain ms' where "merge_item ms i = Ok ms'" "acc' = m # ms'" using Cons.prems(1) by auto
    then show ?thesis using Cons.IH [of ms'] Cons.prems(2,3) by auto
  qed
qed auto

lemma merge_items_Ok:
  assumes "merge_items acc is = Ok items" "\<forall>x \<in> set acc. order_item_ok x" "\<forall>x \<in> set is. order_item_ok x"
  shows "order_items_cents items = order_items_cents acc + order_items_cents is \<and> (\<forall>x \<in> set items. order_item_ok x)"
  using assms
proof (induction "is" arbitrary: acc)
  case (Cons i "is")
  then obtain acc' where acc': "merge_item acc i = Ok acc'" "merge_items acc' is = Ok items" by auto
  from merge_item_Ok [OF acc'(1)] Cons.prems(2,3) Cons.IH [OF acc'(2)] show ?case by auto
qed simp

lemma mergeOrderItems_Ok:
  "mergeOrderItems groups = Ok items \<Longrightarrow> \<forall>x \<in> set (concat groups). order_item_ok x \<Longrightarrow>
   order_items_cents items = order_items_cents (concat groups) \<and> (\<forall>x \<in> set items. order_item_ok x)"
  unfolding mergeOrderItems_def by (drule merge_items_Ok) auto

section \<open>The lines of one row\<close>

lemma new_order_item_Ok:
  assumes "new_order_item st vid sku name qty price s = (Ok i, s')"
  shows "fst s' = fst s \<and> order_item_ok i \<and> oi_UnitPrice i = price \<and> oi_Quantity i = qty \<and> oi_VariantID i = vid"
proof -
  from assms obtain now d where "NewOrderItem now vid sku name qty price = Ok i" "s' = (fst s, d)"
    by (auto simp: new_order_item_def act_Ok on_snd_def split: prod.splits)
  then show ?thesis using NewOrderItem_ok [of now vid sku name qty price i]
    by (auto simp: NewOrderItem_def split: if_splits)
qed

lemma leaf_order_lines_Ok:
  "leaf_order_lines st cur q priced leaves s = (Ok is, s') \<Longrightarrow> fst s' = fst s \<and> (\<forall>x \<in> set is. order_item_ok x)"
proof (induction leaves arbitrary: "is" s)
  case (Cons l leaves)
  obtain p where p: "priced (v_ID (rl_Variant l)) = Some p" "m_currency (pr_Amount p) = cur"
    using Cons.prems by (cases "priced (v_ID (rl_Variant l))") (auto simp: Let_def act_Ok split: if_splits)
  then obtain qty s1 item items where
    item: "new_order_item st (v_ID (rl_Variant l)) (v_SKU (rl_Variant l)) (v_Name (rl_Variant l)) qty (pr_Amount p) s = (Ok item, s1)"
    and rest: "leaf_order_lines st cur q priced leaves s1 = (Ok items, s')"
    and "is": "is = item\<lparr>oi_Restockable := orderLineRestockable (pd_Type (rl_Product l))\<rparr> # items"
    using Cons.prems by (auto simp: Let_def act_Ok)
  from new_order_item_Ok [OF item] Cons.IH [OF rest] show ?case by (auto simp: "is" order_item_ok_def)
qed (simp add: ret_Ok)

lemma exploded_sum_Ok:
  "exploded_sum vid acc is = Ok t \<Longrightarrow> \<forall>x \<in> set is. order_item_ok x \<Longrightarrow> cents t = cents acc + order_items_cents is"
proof (induction "is" arbitrary: acc)
  case (Cons i "is")
  then obtain l a where l: "OrderItem_LineTotal i = Ok l" "AddChecked acc l = Ok a" "exploded_sum vid a is = Ok t" by auto
  have "cents l = cents (oi_UnitPrice i) * sint (oi_Quantity i)"
    using l(1) Cons.prems(2) by (auto simp: OrderItem_LineTotal_def order_item_ok_def intro: MulChecked_cents)
  then show ?case using AddChecked_cents [OF l(2)] Cons.IH [OF l(3)] Cons.prems(2) by simp
qed simp

text \<open>The value of a row: its quantity at the snapshot's unit price, or the total its parts must match.\<close>

definition row_value :: "cart_item \<Rightarrow> pricing_item \<Rightarrow> int \<Rightarrow> bool" where
  "row_value i p v \<longleftrightarrow> v = cents (pi_UnitPrice p) * sint (ci_Quantity i) \<or> (\<exists>m. explodedCompareTotal p = Ok m \<and> v = cents m)"

lemma exploded_lines_Ok:
  assumes "exploded_lines cur vid p leafLines = Ok merged" "\<forall>x \<in> set leafLines. order_item_ok x"
  shows "(\<forall>x \<in> set merged. order_item_ok x) \<and> (\<exists>m. explodedCompareTotal p = Ok m \<and> order_items_cents merged = cents m)"
proof -
  from assms(1) obtain z t m where m: "mergeOrderItems [leafLines] = Ok merged" "Zero cur = Ok z"
    "exploded_sum vid z merged = Ok t" "explodedCompareTotal p = Ok m" "t = m"
    by (auto simp: exploded_lines_def split: if_splits)
  from mergeOrderItems_Ok [OF m(1)] assms(2) have ok: "\<forall>x \<in> set merged. order_item_ok x" by simp
  with exploded_sum_Ok [OF m(3) ok] m show ?thesis by (auto simp: Zero_Ok_iff)
qed

lemma linesForCartItem_Ok:
  assumes "linesForCartItem st ctx i p storeID s = (Ok (lines, exploded), s')"
  shows "fst s' = fst s \<and> (\<forall>x \<in> set lines. order_item_ok x) \<and> row_value i p (order_items_cents lines)"
proof -
  from assms obtain v product where vp: "order_line_product st ctx (fst s) (ci_VariantID i) = Ok (v, product)"
    by (auto simp: linesForCartItem_def act_Ok)
  show ?thesis
  proof (cases "pd_Type product \<noteq> TypeBundle \<or> \<not> pd_ExplodeOrderLines product")
    case True
    with assms vp obtain item where item: "new_order_item st (ci_VariantID i) (v_SKU v) (v_Name v) (ci_Quantity i) (pi_UnitPrice p) s = (Ok item, s')"
      and lines: "lines = [item\<lparr>oi_Restockable := orderLineRestockable (pd_Type product) \<and>
        \<not> (pd_Type product = TypeBundle \<and> pd_StockMode product = StockModeDynamic)\<rparr>]"
      unfolding linesForCartItem_def by (auto simp: act_Ok)
    from new_order_item_Ok [OF item] show ?thesis by (auto simp: lines order_item_ok_def row_value_def)
  next
    case False
    have "\<not> (pd_PricingMode product \<noteq> PricingModeDynamic \<or> pd_StockMode product \<noteq> StockModeDynamic)"
      by (rule notI) (use assms vp False in \<open>simp add: linesForCartItem_def act_Ok\<close>)
    then have "\<exists>leaves priced leafLines.
      leaf_order_lines st (cx_Currency (fst s)) (ci_Quantity i) priced leaves s = (Ok leafLines, s') \<and>
      exploded_lines (cx_Currency (fst s)) (ci_VariantID i) p leafLines = Ok lines"
      using assms vp False unfolding linesForCartItem_def by (simp add: act_Ok) blast
    then obtain leaves priced leafLines where
      leaf: "leaf_order_lines st (cx_Currency (fst s)) (ci_Quantity i) priced leaves s = (Ok leafLines, s')" and
      whole: "exploded_lines (cx_Currency (fst s)) (ci_VariantID i) p leafLines = Ok lines"
      by blast
    from leaf_order_lines_Ok [OF leaf] have "fst s' = fst s" "\<forall>x \<in> set leafLines. order_item_ok x" by auto
    with exploded_lines_Ok [OF whole] show ?thesis by (auto simp: row_value_def)
  qed
qed

section \<open>All the rows\<close>

lemma order_groups_Ok:
  "order_groups st ctx priced storeID items s = (Ok (groups, anyExploded, reserved, kept), s') \<Longrightarrow>
   fst s' = fst s \<and> (\<forall>x \<in> set (concat groups). order_item_ok x) \<and>
   list_all2 (\<lambda>i g. \<exists>p. price_of_variant priced (ci_VariantID i) = Some p \<and> row_value i p (order_items_cents g)) items groups"
proof (induction items arbitrary: s groups anyExploded reserved kept)
  case (Cons i items)
  obtain p where p: "price_of_variant priced (ci_VariantID i) = Some p"
    using Cons.prems by (cases "price_of_variant priced (ci_VariantID i)") (auto simp: act_Ok)
  have "\<exists>lines exploded s1 gs any res kp. linesForCartItem st ctx i p storeID s = (Ok (lines, exploded), s1) \<and>
      order_groups st ctx priced storeID items s1 = (Ok (gs, any, res, kp), s') \<and> groups = lines # gs"
    using Cons.prems p by (auto simp: act_Ok)
  then obtain lines exploded s1 gs any res kp where line: "linesForCartItem st ctx i p storeID s = (Ok (lines, exploded), s1)"
    and rest: "order_groups st ctx priced storeID items s1 = (Ok (gs, any, res, kp), s')" and groups: "groups = lines # gs"
    by blast
  from linesForCartItem_Ok [OF line] Cons.IH [OF rest] p show ?case by (auto simp: groups)
qed (auto simp: act_Ok)

text \<open>
  The snapshot of a cart: one item per row, with exact totals and no tax in them. This is what the core
  pipeline gives for the exclusive tax that \<open>StartCheckout\<close> sets.
\<close>

definition snapshot_item :: "cart_item \<Rightarrow> pricing_item \<Rightarrow> bool" where
  "snapshot_item i p \<longleftrightarrow> pi_VariantID p = ci_VariantID i \<and> pi_Quantity p = ci_Quantity i \<and>
     cents (pi_Total p) = cents (pi_UnitPrice p) * sint (pi_Quantity p) \<and>
     (\<forall>a \<in> set (pi_Adjustments p). adj_Type a = AdjustmentTax \<longrightarrow> \<not> adj_Included a)"

definition snapshot_of :: "cart_item list \<Rightarrow> pricing_item list \<Rightarrow> bool" where
  "snapshot_of items ps \<longleftrightarrow> distinct (map pi_VariantID ps) \<and> list_all2 snapshot_item items ps"

lemma no_included_tax:
  "\<forall>a \<in> set as. adj_Type a = AdjustmentTax \<longrightarrow> \<not> adj_Included a \<Longrightarrow> add_included_tax t as = Ok t"
  by (induction as) auto

lemma row_value_snapshot:
  assumes "snapshot_item i p" "row_value i p v"
  shows "v = cents (pi_Total p)"
proof -
  have "explodedCompareTotal p = Ok (pi_Total p)"
    using assms(1) by (simp add: explodedCompareTotal_def snapshot_item_def no_included_tax)
  then show ?thesis using assms by (auto simp: row_value_def snapshot_item_def)
qed

lemma find_distinct:
  assumes "distinct (map f xs)" "x \<in> set xs"
  shows "List.find (\<lambda>y. f y = f x) xs = Some x"
  using assms by (induction xs) auto

lemma price_of_snapshot:
  assumes "distinct (map pi_VariantID ps)" "p \<in> set ps"
  shows "price_of_variant ps (pi_VariantID p) = Some p"
  unfolding price_of_variant_def by (rule find_distinct) (use assms in \<open>simp_all add: rev_map [symmetric]\<close>)

lemma rows_worth:
  assumes "list_all2 snapshot_item items ps" "set ps \<subseteq> set all" "distinct (map pi_VariantID all)"
    "list_all2 (\<lambda>i g. \<exists>p. price_of_variant all (ci_VariantID i) = Some p \<and> row_value i p (order_items_cents g)) items groups"
  shows "order_items_cents (concat groups) = (\<Sum>p\<leftarrow>ps. cents (pi_Total p))"
  using assms
proof (induction arbitrary: groups rule: list_all2_induct)
  case (Cons i items p ps)
  then obtain g gs where groups: "groups = g # gs" and
    g: "\<exists>p. price_of_variant all (ci_VariantID i) = Some p \<and> row_value i p (order_items_cents g)" and
    gs: "list_all2 (\<lambda>i g. \<exists>p. price_of_variant all (ci_VariantID i) = Some p \<and> row_value i p (order_items_cents g)) items gs"
    by (auto simp: list_all2_Cons1)
  have "price_of_variant all (ci_VariantID i) = Some p"
    using price_of_snapshot [of all p] Cons.prems(1,2) Cons.hyps(1) by (simp add: snapshot_item_def)
  with g have "order_items_cents g = cents (pi_Total p)" using row_value_snapshot [OF Cons.hyps(1)] by auto
  then show ?case using Cons.IH [of gs] Cons.prems(1,2) gs by (simp add: groups)
qed simp

section \<open>The order\<close>

lemma NewOrder_Ok:
  assumes "NewOrder uni mail now oid cust email cur items = Ok o1" "\<forall>x \<in> set items. order_item_ok x"
  shows "o_items o1 = items \<and> o_Currency o1 = cur \<and> cents (o_TotalAmount o1) = order_items_cents items \<and>
    m_currency (o_TotalAmount o1) = cur \<and> cents (o_StoreCreditApplied o1) = 0 \<and> m_currency (o_StoreCreditApplied o1) = cur"
proof -
  from assms(1) obtain t z where t: "Order_computeTotal items cur = Ok t" "Zero cur = Ok z"
    and o1: "o_items o1 = items" "o_Currency o1 = cur" "o_TotalAmount o1 = t" "o_StoreCreditApplied o1 = z"
    by (auto simp: NewOrder_def Let_def split: if_splits)
  from order_total_exact [OF t(1) assms(2)] show ?thesis using t(2) o1 by (auto simp: Zero_Ok_iff)
qed

text \<open>No credit, or at most what was asked for and at most the order's total.\<close>

definition credit_within :: "int64 \<Rightarrow> order \<Rightarrow> bool" where
  "credit_within requested o1 \<longleftrightarrow> cents (o_StoreCreditApplied o1) = 0 \<or>
     (0 < cents (o_StoreCreditApplied o1) \<and> cents (o_StoreCreditApplied o1) \<le> sint requested \<and>
      cents (o_StoreCreditApplied o1) \<le> cents (o_TotalAmount o1))"

text \<open>What an order is worth that was built from a snapshot.\<close>

definition order_of_snapshot :: "pricing_context \<Rightarrow> order \<Rightarrow> bool" where
  "order_of_snapshot pctx o1 \<longleftrightarrow> cents (o_TotalAmount o1) = (\<Sum>p\<leftarrow>pc_Items pctx. cents (pi_Total p)) \<and>
     o_TaxAmount o1 = pc_TaxTotal pctx \<and> m_currency (o_TotalAmount o1) = m_currency (pc_TaxTotal pctx) \<and>
     m_currency (o_StoreCreditApplied o1) = m_currency (pc_TaxTotal pctx) \<and> o_Currency o1 = m_currency (pc_TaxTotal pctx)"

lemma build_order_Ok:
  assumes "build_order st ctx k pctx s = (Ok o1, s')" "snapshot_of (c_Items k) (pc_Items pctx)"
  shows "fst s' = fst s \<and> order_of_snapshot pctx o1 \<and> cents (o_StoreCreditApplied o1) = 0"
proof -
  let ?c = "fst s"
  have "\<exists>groups any res kept s1 items oid now d2 o0.
      order_groups st ctx (pc_Items pctx) (pricingStoreID ?c pctx) (c_Items k) s = (Ok (groups, any, res, kept), s1) \<and>
      mergeOrderItems groups = Ok items \<and> s' = (fst s1, d2) \<and>
      NewOrder (co_upper st) (co_mail st) now oid (cx_CustomerID ?c) (in_ContactEmail (cx_Input ?c)) (cx_Currency ?c) items = Ok o0 \<and>
      SetTaxSnapshot (co_upper st) o0 (ad_Country (in_Address (cx_Input ?c))) (pc_TaxTotal pctx) = Ok o1"
    using assms(1) unfolding build_order_def by (simp add: act_Ok on_snd_Ok split_paired_Ex) blast
  then obtain groups any res kept s1 items oid now d2 o0 where
    g: "order_groups st ctx (pc_Items pctx) (pricingStoreID ?c pctx) (c_Items k) s = (Ok (groups, any, res, kept), s1)"
    and items: "mergeOrderItems groups = Ok items" and s': "s' = (fst s1, d2)"
    and o0: "NewOrder (co_upper st) (co_mail st) now oid (cx_CustomerID ?c) (in_ContactEmail (cx_Input ?c)) (cx_Currency ?c) items = Ok o0"
    and o1: "SetTaxSnapshot (co_upper st) o0 (ad_Country (in_Address (cx_Input ?c))) (pc_TaxTotal pctx) = Ok o1"
    by blast
  from order_groups_Ok [OF g] have fst1: "fst s1 = ?c" and ok: "\<forall>x \<in> set (concat groups). order_item_ok x"
    and rows: "list_all2 (\<lambda>i g. \<exists>p. price_of_variant (pc_Items pctx) (ci_VariantID i) = Some p \<and>
      row_value i p (order_items_cents g)) (c_Items k) groups" by auto
  from mergeOrderItems_Ok [OF items ok] have m: "order_items_cents items = order_items_cents (concat groups)"
    "\<forall>x \<in> set items. order_item_ok x" by auto
  have "order_items_cents (concat groups) = (\<Sum>p\<leftarrow>pc_Items pctx. cents (pi_Total p))"
    by (rule rows_worth [OF _ _ _ rows]) (use assms(2) in \<open>auto simp: snapshot_of_def\<close>)
  with NewOrder_Ok [OF o0 m(2)] o1 m(1) fst1 s' show ?thesis
    by (auto simp: SetTaxSnapshot_def order_of_snapshot_def split: if_splits)
qed

lemma credit_to_apply_le: "sint (credit_to_apply requested balance amount) \<le> sint requested"
  by (auto simp: credit_to_apply_def Let_def i64)

lemma applied_Ok:
  "(case r of Ok o2 \<Rightarrow> ret (o2, x) | Fail e \<Rightarrow> tryW (m e) (\<lambda>_. raise (f e)) (\<lambda>e'. raise (g e e')) | Panics p \<Rightarrow> lift (Panics p)) s = (Ok (y, z), t)
   \<longleftrightarrow> r = Ok y \<and> z = x \<and> t = s"
  by (cases r) (auto simp: act_Ok tryW_Ok)

lemma applyStoreCredit_Ok:
  assumes "applyStoreCredit st o1 s = (Ok (o2, applied), s')"
  shows "fst s' = fst s \<and> o_TotalAmount o2 = o_TotalAmount o1 \<and> o_TaxAmount o2 = o_TaxAmount o1 \<and>
    o_Currency o2 = o_Currency o1 \<and>
    (o_StoreCreditApplied o2 = o_StoreCreditApplied o1 \<or>
     m_currency (o_StoreCreditApplied o2) = o_Currency o1 \<and> credit_within (in_StoreCreditAmount (cx_Input (fst s))) o2)"
proof (cases "in_StoreCreditAmount (cx_Input (fst s)) \<le>s 0")
  case True
  then show ?thesis using assms by (auto simp: applyStoreCredit_def act_Ok)
next
  case False
  have "cx_CustomerID (fst s) \<noteq> []"
    by (rule notI) (use assms False in \<open>simp add: applyStoreCredit_def act_Ok\<close>)
  moreover obtain cr where "co_credits st = Some cr"
    using assms False calculation by (cases "co_credits st") (auto simp: applyStoreCredit_def act_Ok)
  ultimately have "(o2 = o1 \<and> fst s' = fst s) \<or>
      (\<exists>now credit. Order_ApplyStoreCredit now o1 credit = Ok o2 \<and> fst s' = fst s \<and> 0 < cents credit \<and>
        cents credit \<le> sint (in_StoreCreditAmount (cx_Input (fst s))))"
    using assms False
    by (auto simp: applyStoreCredit_def Let_def act_Ok on_snd_Ok applied_Ok NewMoney_def i64 split: if_splits)
      (metis credit_to_apply_le not_le money.select_convs(1))
  then show ?thesis by (auto simp: Order_ApplyStoreCredit_def credit_within_def i64 split: if_splits)
qed

section \<open>What the step leaves in the context\<close>

abbreviation untouched :: "'c \<Rightarrow> ('a, 'c \<times> 'd) act \<Rightarrow> bool" where
  "untouched c m \<equiv> keeps (\<lambda>s. fst s = c) m"

lemma untouched_on_snd: "untouched c (on_snd m)"
  by (rule triple_on_snd) simp

lemma keeps_in_tx: "untouched c m \<Longrightarrow> untouched c (in_tx tx m)"
proof (rule tripleI)
  fix s :: "'a \<times> 'b" assume m: "untouched c m" and s: "fst s = c"
  have "fst (snd (m s)) = c" using keepsD [OF m s] .
  then show "ends (\<lambda>_ s. fst s = c) (\<lambda>s. fst s = c) (in_tx tx m s)"
    by (cases "m s" rule: outcome_pair_cases) (auto simp: in_tx_def)
qed

lemma rollback_untouched: "untouched c (rollbackAppliedCredit st o1 applied cause)"
  by (auto simp: rollbackAppliedCredit_def split: option.splits intro!: keeps_intro triple_wrapW triple_attempt triple_forW untouched_on_snd)

lemma persistOrder_untouched: "untouched c (persistOrder st ctx o1 applied)"
  by (auto simp: persistOrder_def Let_def split: option.splits outcome.splits
      intro!: keeps_intro triple_wrapW triple_attempt triple_forW untouched_on_snd keeps_in_tx rollback_untouched)

lemma publishOrderCreated_untouched: "untouched c (publishOrderCreated st o1)"
  by (auto simp: publishOrderCreated_def intro!: keeps_intro triple_wrapW triple_attempt triple_forW untouched_on_snd)

lemma snapshot_extensions_untouched: "untouched c (snapshot_extensions st k items o1)"
  by (auto simp: snapshot_extensions_def Let_def split: option.splits intro!: keeps_intro triple_wrapW triple_attempt triple_forW untouched_on_snd)

lemma untouched_Ok: "untouched c m \<Longrightarrow> m s = (Ok x, t) \<Longrightarrow> fst s = c \<Longrightarrow> fst t = c"
  by (drule keepsD) auto

lemma create_order_Ok:
  assumes run: "create_order st ctx s = (Ok (), t)" and fresh: "\<not> order_created (fst s)"
    and k: "cx_Cart (fst s) = Some k" and p: "cx_Meta (fst s) ''pricing'' = Some (CPricing pctx)"
    and snap: "snapshot_of (c_Items k) (pc_Items pctx)"
  shows "\<exists>o1. fst t = SetMeta ''created_order_id'' (CStr (o_ID o1)) ((fst s)\<lparr>cx_Order := Some o1\<rparr>) \<and> order_of_snapshot pctx o1 \<and>
    credit_within (in_StoreCreditAmount (cx_Input (fst s))) o1"
proof -
  obtain o1 s1 o2 applied s2 s3 s4 where
    built: "build_order st ctx k pctx s = (Ok o1, s1)" and
    credit: "applyStoreCredit st o1 s1 = (Ok (o2, applied), s2)" and
    saved: "persistOrder st ctx o2 applied s2 = (Ok (), s3)" and
    published: "publishOrderCreated st o2 (SetMeta ''created_order_id'' (CStr (o_ID o2)) ((fst s3)\<lparr>cx_Order := Some o2\<rparr>), snd s3) = (Ok (), s4)" and
    extended: "snapshot_extensions st k (o_items o2) o2 s4 = (Ok (), t)"
    using run fresh k p unfolding create_order_def by (auto simp: act_Ok split: prod.splits)
  have a: "fst s1 = fst s" "order_of_snapshot pctx o1" "cents (o_StoreCreditApplied o1) = 0" using build_order_Ok [OF built snap] by auto
  have b: "fst s2 = fst s1" "order_of_snapshot pctx o2" "credit_within (in_StoreCreditAmount (cx_Input (fst s))) o2"
    using applyStoreCredit_Ok [OF credit] a by (auto simp: order_of_snapshot_def credit_within_def)
  have "fst s3 = fst s" using untouched_Ok [OF persistOrder_untouched saved] a b by simp
  moreover have "fst s4 = SetMeta ''created_order_id'' (CStr (o_ID o2)) ((fst s3)\<lparr>cx_Order := Some o2\<rparr>)"
    using untouched_Ok [OF publishOrderCreated_untouched published] by simp
  ultimately have "fst t = SetMeta ''created_order_id'' (CStr (o_ID o2)) ((fst s)\<lparr>cx_Order := Some o2\<rparr>)"
    using untouched_Ok [OF snapshot_extensions_untouched extended] by simp
  then show ?thesis using b(2,3) by blast
qed

lemma CreateOrder_Ok: "CreateOrder_Execute st ctx s = (Ok (), t) \<longleftrightarrow> create_order st ctx s = (Ok (), t)"
  by (auto simp: CreateOrder_Execute_def tryW_Ok act_Ok)

section \<open>Shipping\<close>

lemma set_meta_Ok: "set_meta key v s = (Ok (), t) \<longleftrightarrow> t = (SetMeta key v (fst s), snd s)"
  by (cases s) (auto simp: set_meta_def act_Ok)

text \<open>The step writes keys of its own only.\<close>

definition shipped_context :: "'w checkout_context \<Rightarrow> 'w checkout_context \<Rightarrow> bool" where
  "shipped_context c c' \<longleftrightarrow> cx_Order c' = cx_Order c \<and> cx_Input c' = cx_Input c \<and>
     (\<forall>key. key \<noteq> ''shipment'' \<longrightarrow> key \<noteq> ''shipment_selected'' \<longrightarrow> key \<noteq> ''shipping_not_required'' \<longrightarrow> cx_Meta c' key = cx_Meta c key)"

lemma SelectShipping_Ok:
  assumes "SelectShipping_Execute st ctx s = (Ok (), t)"
  shows "shipped_context (fst s) (fst t)"
proof (cases "meta_true (fst s) ''shipment_selected''")
  case True
  with assms show ?thesis by (auto simp: SelectShipping_Execute_def act_Ok shipped_context_def)
next
  case False
  obtain o1 k where "cx_Order (fst s) = Some o1" "cx_Cart (fst s) = Some k"
    using assms False by (cases "cx_Order (fst s)"; cases "cx_Cart (fst s)") (auto simp: SelectShipping_Execute_def act_Ok)
  moreover obtain needs where "shippingRequiredFromMeta (fst s) = Ok needs"
    using assms False calculation by (auto simp: SelectShipping_Execute_def act_Ok)
  ultimately show ?thesis
    using assms False
    by (cases needs) (auto simp: SelectShipping_Execute_def act_Ok on_snd_Ok set_meta_Ok shipped_context_def SetMeta_def)
qed

section \<open>Payment\<close>

text \<open>The payment that goes with an order: what it is for and where it stands.\<close>

definition pays :: "order \<Rightarrow> money \<Rightarrow> payment \<Rightarrow> bool" where
  "pays o1 m py \<longleftrightarrow> p_OrderID py = o_ID o1 \<and> p_Amount py = m \<and> 0 < cents m \<and> p_status py \<in> {PayCompleted, PayPending}"

lemma publishOrderPaid_untouched: "untouched c (publishOrderPaid st)"
  by (auto simp: publishOrderPaid_def split: option.splits intro!: keeps_intro triple_attempt untouched_on_snd)

text \<open>
  A payment of the amount was saved, the provider of the method was asked for exactly the saved one,
  and what came of it was saved: the order of these calls is the order of the states between them.
\<close>

definition paid_through :: "'d initiate_payment_step \<Rightarrow> string \<Rightarrow> order \<Rightarrow> money \<Rightarrow> payment \<Rightarrow> bool" where
  "paid_through st meth o1 m py \<longleftrightarrow> (\<exists>provider py0 r d0 d1 d2 d3 d4.
     PaymentRegistry_Resolve (Some (ip_providers st)) meth = Ok provider \<and>
     pays o1 m py0 \<and> p_status py0 = PayPending \<and> p_ID py0 = p_ID py \<and> p_Method py0 = pp_Method provider \<and>
     ip_create st py0 d0 = (Ok (), d1) \<and> pp_Initiate provider py0 d1 = (Ok r, d2) \<and>
     pays o1 m py \<and> p_ProviderRef py = pt_ProviderRef r \<and> ip_update st py (p_UpdatedAt py0) d3 = (Ok (), d4))"

lemma paid_throughI:
  assumes "PaymentRegistry_Resolve (Some (ip_providers st)) meth = Ok provider" "pays o1 m py0" "p_status py0 = PayPending"
    "p_ID py0 = p_ID py" "p_Method py0 = pp_Method provider" "ip_create st py0 d0 = (Ok (), d1)" "pp_Initiate provider py0 d1 = (Ok r, d2)"
    "pays o1 m py" "p_ProviderRef py = pt_ProviderRef r" "ip_update st py (p_UpdatedAt py0) d3 = (Ok (), d4)"
  shows "paid_through st meth o1 m py"
  unfolding paid_through_def using assms by blast

lemma start_payment_Ok:
  assumes run: "start_payment st o1 meth m s = (Ok (), t)"
  shows "cx_Order (fst t) = cx_Order (fst s) \<and> (\<exists>py. cx_Meta (fst t) ''payment'' = Some (CPayment py) \<and> paid_through st meth o1 m py)"
proof -
  have "\<exists>provider pid now py r d0 d1 d2. PaymentRegistry_Resolve (Some (ip_providers st)) meth = Ok provider \<and>
      NewPayment now pid (o_ID o1) (pp_Method provider) m = Ok py \<and> ip_create st py d0 = (Ok (), d1) \<and> pp_Initiate provider py d1 = (Ok r, d2) \<and>
      (if pt_Pending r then payment_pending st py r else payment_settled st (o_ID o1) py r) (fst s, d2) = (Ok (), t)"
    using run unfolding start_payment_def by (auto simp: act_Ok on_snd_Ok tryW_Ok split del: if_split) blast
  then obtain provider pid now py r d0 d1 d2 where calls: "PaymentRegistry_Resolve (Some (ip_providers st)) meth = Ok provider"
      "ip_create st py d0 = (Ok (), d1)" "pp_Initiate provider py d1 = (Ok r, d2)"
    and py: "NewPayment now pid (o_ID o1) (pp_Method provider) m = Ok py"
    and rest: "(if pt_Pending r then payment_pending st py r else payment_settled st (o_ID o1) py r) (fst s, d2) = (Ok (), t)"
    by blast
  have new: "p_OrderID py = o_ID o1" "p_Amount py = m" "0 < cents m" "p_status py = PayPending" "p_Method py = pp_Method provider"
    using py by (auto simp: NewPayment_def IsPositive_def i64 split: if_splits)
  then have py0: "pays o1 m py" by (simp add: pays_def)
  note through = paid_throughI [OF calls(1) py0 new(4) _ new(5) calls(2,3)]
  show ?thesis
  proof (cases "pt_Pending r")
    case True
    have "pt_ProviderRef r \<noteq> []" by (rule notI) (use rest True in \<open>simp add: payment_pending_def act_Ok\<close>)
    then obtain now' d3 d4 where up: "ip_update st (py\<lparr>p_ProviderRef := pt_ProviderRef r, p_UpdatedAt := now'\<rparr>) (p_UpdatedAt py) d3 = (Ok (), d4)"
      and t: "cx_Order (fst t) = cx_Order (fst s)"
        "cx_Meta (fst t) ''payment'' = Some (CPayment (py\<lparr>p_ProviderRef := pt_ProviderRef r, p_UpdatedAt := now'\<rparr>))"
      using rest True
      by (cases "pt_ClientSecret r = []") (auto simp: payment_pending_def Let_def act_Ok on_snd_Ok set_meta_Ok SetMeta_def)
    have "paid_through st meth o1 m (py\<lparr>p_ProviderRef := pt_ProviderRef r, p_UpdatedAt := now'\<rparr>)"
      by (rule through [OF _ _ _ up]) (use py0 in \<open>simp_all add: pays_def\<close>)
    with t show ?thesis by blast
  next
    case False
    have ok: "pt_Success r" by (rule ccontr) (use rest False in \<open>auto simp: payment_settled_def act_Ok tryW_Ok\<close>)
    obtain now py' d3 d4 where done': "Payment_Complete now py (pt_ProviderRef r) = Ok py'"
      and up: "ip_update st py' (p_UpdatedAt py) d3 = (Ok (), d4)"
      and pub: "publishOrderPaid st (SetMeta ''payment_initiated'' (CBool True) (SetMeta ''payment'' (CPayment py') (fst s)), d4) = (Ok (), t)"
      using rest False ok by (auto simp: payment_settled_def act_Ok on_snd_Ok set_meta_Ok)
    have "paid_through st meth o1 m py'"
      by (rule through [OF _ _ _ up]) (use done' new in \<open>auto simp: Payment_Complete_def pays_def split: if_splits\<close>)
    with untouched_Ok [OF publishOrderPaid_untouched pub] show ?thesis by (auto simp: SetMeta_def)
  qed
qed

lemma InitiatePayment_Ok:
  assumes run: "InitiatePayment_Execute st ctx s = (Ok (), t)" and o1: "cx_Order (fst s) = Some o1"
    and fresh: "\<not> meta_true (fst s) ''payment_initiated''" "\<not> meta_true (fst s) ''payment_skipped''"
    and due: "PayableAmount o1 = Ok m"
  shows "cx_Order (fst t) = Some o1 \<and>
    (if m_amount m = 0 then cx_Meta (fst t) ''payment_skipped'' = Some (CBool True) \<and> cx_Meta (fst t) ''payment'' = cx_Meta (fst s) ''payment''
     else \<exists>py. cx_Meta (fst t) ''payment'' = Some (CPayment py) \<and> paid_through st (in_PaymentMethod (cx_Input (fst s))) o1 m py)"
proof (cases "m_amount m = 0")
  case True
  let ?c = "SetMeta ''payment_skipped'' (CBool True) (SetMeta ''payment_initiated'' (CBool True) (fst s))"
  have "publishOrderPaid st (?c, snd s) = (Ok (), t)"
    using run o1 fresh due True by (auto simp: InitiatePayment_Execute_def act_Ok set_meta_Ok)
  from untouched_Ok [OF publishOrderPaid_untouched this] True o1 show ?thesis by (simp add: SetMeta_def)
next
  case False
  then have "start_payment st o1 (in_PaymentMethod (cx_Input (fst s))) m s = (Ok (), t)"
    using run o1 fresh due by (auto simp: InitiatePayment_Execute_def act_Ok)
  from start_payment_Ok [OF this] False o1 show ?thesis by simp
qed

section \<open>The charge\<close>

lemma m_amount_cents: "m_amount m = word_of_int (cents m)"
  by simp

text \<open>What the pricing steps asked for, without the discounts and the fees, less the credit that was applied.\<close>

definition charge_of :: "pricing_context \<Rightarrow> order \<Rightarrow> money" where
  "charge_of pctx o1 = \<lparr>m_amount = m_amount (pc_GrandTotal pctx) + m_amount (pc_DiscountsTotal pctx) - m_amount (pc_FeesTotal pctx)
     - m_amount (o_StoreCreditApplied o1), m_currency = pc_Currency pctx\<rparr>"

lemma payable_charge:
  assumes p: "pctx_ok p0" "FinalizeStep_Apply p0 = Ok pctx" and o1: "order_of_snapshot pctx o1"
  shows "PayableAmount o1 = Ok (charge_of pctx o1)"
proof -
  have total: "m_amount (o_TotalAmount o1) = (\<Sum>p\<leftarrow>pc_Items pctx. m_amount (pi_Total p))"
    using o1 by (subst m_amount_cents) (simp add: order_of_snapshot_def word_of_int_sum_list)
  show ?thesis using p(1) p(2) total o1
    by (auto simp: FinalizeStep_Ok PayableAmount_def Add_match Sub_match charge_of_def order_of_snapshot_def)
qed

text \<open>C3: when the three steps from the creation of the order to its payment succeed on a priced cart whose prices
  exclude the tax (one snapshot item per row, with the exact total of the row and no included tax), the order's
  total is the sum of the undiscounted line totals of the pricing snapshot, its tax is the tax of the
  snapshot, the store credit applied is neither above what the customer asked for nor above the total, and
  one pending payment for this order is saved and is then what the provider of the chosen method is asked
  for; its amount, and that of the payment saved after the provider's answer, is exactly the grand total plus
  the discounts and minus the fees of the snapshot, less that credit. So neither a discount nor a fee nor the
  cost of the shipment reaches the charge, against PR-037.md:34 and SHIPPING_DOMAIN.md:247. When that amount
  is zero, payment is skipped and no payment is made.\<close>

theorem charged_amount:
  assumes run: "bindW (CreateOrder_Execute co ctx) (\<lambda>_. bindW (SelectShipping_Execute ss ctx) (\<lambda>_. InitiatePayment_Execute ip ctx)) (c, d)
      = (Ok (), (c', d'))"
    and fresh: "\<not> order_created c" "\<not> meta_true c ''payment_initiated''" "\<not> meta_true c ''payment_skipped''"
    and k: "cx_Cart c = Some k" and priced: "cx_Meta c ''pricing'' = Some (CPricing pctx)"
    and snap: "snapshot_of (c_Items k) (pc_Items pctx)" and final: "pctx_ok p0" "FinalizeStep_Apply p0 = Ok pctx"
  shows "\<exists>o1. cx_Order c' = Some o1 \<and>
    cents (o_TotalAmount o1) = (\<Sum>p\<leftarrow>pc_Items pctx. cents (pi_Total p)) \<and> o_TaxAmount o1 = pc_TaxTotal pctx \<and>
    credit_within (in_StoreCreditAmount (cx_Input c)) o1 \<and>
    (if m_amount (charge_of pctx o1) = 0
     then cx_Meta c' ''payment_skipped'' = Some (CBool True) \<and> cx_Meta c' ''payment'' = cx_Meta c ''payment''
     else \<exists>py. cx_Meta c' ''payment'' = Some (CPayment py) \<and>
       paid_through ip (in_PaymentMethod (cx_Input c)) o1 (charge_of pctx o1) py)"
proof -
  from run obtain s1 s2 where a: "create_order co ctx (c, d) = (Ok (), s1)" and b: "SelectShipping_Execute ss ctx s1 = (Ok (), s2)"
    and e: "InitiatePayment_Execute ip ctx s2 = (Ok (), (c', d'))"
    by (auto simp: bindW_Ok CreateOrder_Ok)
  from create_order_Ok [OF a, of k pctx] fresh(1) k priced snap
  obtain o1 where s1: "fst s1 = SetMeta ''created_order_id'' (CStr (o_ID o1)) (c\<lparr>cx_Order := Some o1\<rparr>)" and o1: "order_of_snapshot pctx o1"
      and within: "credit_within (in_StoreCreditAmount (cx_Input c)) o1"
    by auto
  have s2: "cx_Order (fst s2) = Some o1" "cx_Input (fst s2) = cx_Input c" "cx_Meta (fst s2) ''payment'' = cx_Meta c ''payment''"
    "\<not> meta_true (fst s2) ''payment_initiated''" "\<not> meta_true (fst s2) ''payment_skipped''"
    using SelectShipping_Ok [OF b] s1 fresh by (auto simp: shipped_context_def SetMeta_def meta_true_def)
  from InitiatePayment_Ok [OF e s2(1,4,5) payable_charge [OF final o1]] s2(2,3) o1 within
  show ?thesis by (auto simp: order_of_snapshot_def)
qed

text \<open>Two units at 5 EUR, a discount of 1 EUR and 1.90 EUR of tax.\<close>

definition demo_taxed :: pricing_context where
  "demo_taxed = demo_pctx\<lparr>pc_Adjustments := [\<lparr>adj_Type = AdjustmentTax, adj_Code = ''t'', adj_Description = [],
     adj_Amount = in_cur ''EUR'' 190, adj_Included = False, adj_Meta = (\<lambda>_. None)\<rparr>]\<rparr>"

definition demo_final :: pricing_context where
  "demo_final = (case FinalizeStep_Apply demo_taxed of Ok c \<Rightarrow> c | _ \<Rightarrow> demo_taxed)"

definition demo_create :: "(nat, nat) create_order_step" where
  "demo_create = \<lparr>co_save = (\<lambda>o1. modifies Suc), co_save_bound = None, co_variants = the (us_Variants demo_sources),
     co_products = the (us_Products demo_sources), co_components = the (us_Components demo_sources), co_prices = demo_prices,
     co_credits = None, co_extensions = None, co_release = None, co_assignments = None, co_tx = None, co_bus = None,
     co_newID = ret ''o1'', co_now = ret 9, co_upper = id, co_mail = (\<lambda>_. True)\<rparr>"

definition demo_shipping :: "nat select_shipping_step" where
  "demo_shipping = \<lparr>ss_providers = NewShippingRegistry, ss_create = (\<lambda>_. ret ()), ss_newID = ret ''s1'', ss_now = ret 9\<rparr>"

definition demo_pay :: "nat initiate_payment_step" where
  "demo_pay = \<lparr>ip_providers = \<lparr>pr_providers = [MethodManual \<mapsto> \<lparr>pp_Method = MethodManual,
       pp_Initiate = (\<lambda>py. ret \<lparr>pt_ProviderRef = ''r'', pt_Success = True, pt_Pending = False, pt_ClientSecret = []\<rparr>)\<rparr>],
       pr_order = [MethodManual]\<rparr>,
     ip_create = (\<lambda>_. ret ()), ip_update = (\<lambda>_ _. ret ()), ip_revoke = None, ip_bus = None, ip_newID = ret ''p1'', ip_now = ret 9\<rparr>"

definition demo_checkout_input :: checkout_input where
  "demo_checkout_input = \<lparr>in_Address = zero_address\<lparr>ad_Country := ''DE''\<rparr>, in_ContactEmail = ''a@b.de'', in_ShippingMethod = [],
     in_PaymentMethod = ''manual'', in_StoreCreditAmount = 0\<rparr>"

definition demo_reserved :: "nat checkout_context" where
  "demo_reserved = (NewContext ''k1'' ''c1'' ''EUR'')\<lparr>cx_Cart := Some (demo_cart\<lparr>c_Items := [demo_line ''v1'' 2]\<rparr>),
     cx_Input := demo_checkout_input, cx_Meta := [''pricing'' \<mapsto> CPricing demo_final, ''shipping_required'' \<mapsto> CBool False]\<rparr>"

definition demo_charge :: "unit outcome \<times> nat checkout_context \<times> nat" where
  "demo_charge = bindW (CreateOrder_Execute demo_create background) (\<lambda>_. bindW (SelectShipping_Execute demo_shipping background)
     (\<lambda>_. InitiatePayment_Execute demo_pay background)) (demo_reserved, 0)"

lemma demo_charge_ok: "fst demo_charge = Ok ()"
  by code_simp

lemma demo_taxed_ok: "pctx_ok demo_taxed"
  using demo_pctx_ok by (simp add: demo_taxed_def pctx_ok_def adjs_in_def demo_pctx_def)

lemma demo_final_ok: "FinalizeStep_Apply demo_taxed = Ok demo_final"
  using FinalizeStep_Ok [OF demo_taxed_ok] by (simp add: demo_final_def)

theorem charged_amount_witness:
  "\<exists>o1 py. cx_Order (fst (snd demo_charge)) = Some o1 \<and> cents (o_TotalAmount o1) = 1000 \<and>
     cx_Meta (fst (snd demo_charge)) ''payment'' = Some (CPayment py) \<and> cents (p_Amount py) = 1190 \<and>
     paid_through demo_pay ''manual'' o1 (p_Amount py) py \<and> cents (pc_GrandTotal demo_final) = 1090"
proof -
  obtain c' d' where run: "demo_charge = (Ok (), (c', d'))"
    by (metis demo_charge_ok prod.collapse)
  have items: "pc_Items demo_final = pc_Items demo_pctx" "pc_GrandTotal demo_final = in_cur ''EUR'' 1090"
    "pc_DiscountsTotal demo_final = in_cur ''EUR'' 100" "pc_FeesTotal demo_final = in_cur ''EUR'' 0"
    by (simp_all add: FinalizeStep_Ok [OF demo_taxed_ok, unfolded demo_final_ok outcome.inject]
        demo_taxed_def demo_pctx_def all_adjs_def adj_sum_def)
  have snap: "snapshot_of [demo_line ''v1'' 2] (pc_Items demo_final)"
    by (simp add: items snapshot_of_def snapshot_item_def demo_line_def demo_pctx_def)
  have reserved: "cx_Meta demo_reserved ''payment'' = None" "in_PaymentMethod (cx_Input demo_reserved) = ''manual''"
    by (simp_all add: demo_reserved_def NewContext_def demo_checkout_input_def)
  obtain o1 where o1: "cx_Order c' = Some o1" "cents (o_TotalAmount o1) = 1000" "credit_within 0 o1"
    "if m_amount (charge_of demo_final o1) = 0 then cx_Meta c' ''payment_skipped'' = Some (CBool True) \<and> cx_Meta c' ''payment'' = None
     else \<exists>py. cx_Meta c' ''payment'' = Some (CPayment py) \<and> paid_through demo_pay ''manual'' o1 (charge_of demo_final o1) py"
    using charged_amount [of demo_create background demo_shipping demo_pay demo_reserved 0 c' d' "demo_cart\<lparr>c_Items := [demo_line ''v1'' 2]\<rparr>" demo_final demo_taxed]
        run snap demo_taxed_ok demo_final_ok
    unfolding reserved by (auto simp: demo_charge_def demo_reserved_def order_created_def meta_true_def NewContext_def items demo_pctx_def
        demo_checkout_input_def demo_cart_def)
  have "charge_of demo_final o1 = \<lparr>m_amount = 1190, m_currency = pc_Currency demo_final\<rparr>"
    using o1(3) by (auto simp: charge_of_def items credit_within_def signed_eq_0_iff)
  moreover have "p_Amount py = m" if "paid_through demo_pay ''manual'' o1 m py" for py m
    using that by (auto simp: paid_through_def pays_def)
  ultimately show ?thesis using o1 by (auto simp: run items)
qed

end
