(* ===== verification/Assignments.thy ===== *)
theory Assignments
  imports Effects OrderRepo Inventory "HOL-Library.List_Lexorder" "HOL-Library.Char_ord"
begin

text \<open>
  Product assignments: which purchased unit (a ticket) is bound to which parent unit (a card). The
  aggregate (\<open>domain/assignment\<close>), its table (\<open>postgres/product_assignment_repo.go\<close> with the
  constraints of migrations 099, 102 and 103) and the service (\<open>application/assignment/service.go\<close>).
  A nil assignment is \<open>None\<close>.
\<close>

section \<open>The aggregate\<close>

datatype assignment_status = AsgUnassigned | AsgAssigned | AsgRevoked | AsgOther string

fun assignment_status_string :: "assignment_status \<Rightarrow> string" where
  "assignment_status_string AsgUnassigned = ''unassigned''"
| "assignment_status_string AsgAssigned = ''assigned''"
| "assignment_status_string AsgRevoked = ''revoked''"
| "assignment_status_string (AsgOther s) = s"

definition assignment_status_of_string :: "string \<Rightarrow> assignment_status" where
  "assignment_status_of_string s =
     (if s = ''unassigned'' then AsgUnassigned else if s = ''assigned'' then AsgAssigned
      else if s = ''revoked'' then AsgRevoked else AsgOther s)"

fun AssignmentStatus_IsValid :: "assignment_status \<Rightarrow> bool" where
  "AssignmentStatus_IsValid (AsgOther _) = False"
| "AssignmentStatus_IsValid _ = True"

definition IsCurrent :: "assignment_status \<Rightarrow> bool" where
  "IsCurrent s \<longleftrightarrow> s = AsgUnassigned \<or> s = AsgAssigned"

definition IsTerminal :: "assignment_status \<Rightarrow> bool" where "IsTerminal s \<longleftrightarrow> s = AsgRevoked"

definition MaxForcedReasonLen :: nat where "MaxForcedReasonLen = 500"

definition ForcedReasonTooLongMessage :: string where
  "ForcedReasonTooLongMessage = ''reason must be at most 500 characters''"

record product_assignment =
  pa_ID :: string
  pa_ParentOrderItemID :: string
  pa_ChildOrderItemID :: string
  pa_status :: assignment_status
  pa_storedStatus :: assignment_status
  pa_storedParent :: string
  pa_CreatedAt :: gotime
  pa_RevokedAt :: "gotime option"
  pa_ForcedAt :: "gotime option"
  pa_ForcedReason :: string

definition validateForced :: "product_assignment \<Rightarrow> unit outcome" where
  "validateForced a =
     (let hasAt = pa_ForcedAt a \<noteq> None; hasReason = trim_space (pa_ForcedReason a) \<noteq> [] in
      if pa_ForcedAt a = Some 0 then Fail (Err ''product assignment: forced_at must not be zero'')
      else if hasAt \<noteq> hasReason
        then Fail (Err ''product assignment: forced_at and forced_reason must be set together'')
      else if pa_status a = AsgUnassigned \<and> hasAt
        then Fail (Err ''product assignment: unassigned row cannot record a force override'')
      else Ok ())"

text \<open>The switch of \<open>Validate\<close> on the status.\<close>

fun validate_state :: "assignment_status \<Rightarrow> string \<Rightarrow> string \<Rightarrow> gotime option \<Rightarrow> unit outcome" where
  "validate_state AsgUnassigned parentID childID revoked =
     (if parentID \<noteq> [] then Fail (Err ''product assignment: unassigned parent order item id must be empty'')
      else check (revoked \<noteq> None) (Err ''product assignment: unassigned revoked_at must be empty''))"
| "validate_state AsgAssigned parentID childID revoked =
     (if parentID = [] then Fail (Err ''product assignment: assigned parent order item id must not be empty'')
      else if childID = parentID then Fail (Err ''product assignment: child cannot be assigned to itself'')
      else check (revoked \<noteq> None) (Err ''product assignment: assigned revoked_at must be empty''))"
| "validate_state AsgRevoked parentID childID revoked =
     (if parentID \<noteq> [] \<and> childID = parentID then Fail (Err ''product assignment: child cannot be assigned to itself'')
      else check (revoked = None \<or> revoked = Some 0) (Err ''product assignment: revoked_at must not be zero''))"
| "validate_state (AsgOther s) parentID childID revoked = Ok ()"

definition Assignment_Validate :: "product_assignment option \<Rightarrow> unit outcome" where
  "Assignment_Validate a0 =
     (case a0 of
        None \<Rightarrow> Fail (Err ''product assignment must not be nil'')
      | Some a \<Rightarrow>
          if trim_space (pa_ID a) = [] then Fail (Err ''product assignment: id must not be empty'')
          else if trim_space (pa_ChildOrderItemID a) = []
            then Fail (Err ''product assignment: child order item id must not be empty'')
          else if \<not> AssignmentStatus_IsValid (pa_status a) then Fail (Err ''product assignment: invalid status'')
          else bindO (validate_state (pa_status a) (trim_space (pa_ParentOrderItemID a)) (trim_space (pa_ChildOrderItemID a))
                        (pa_RevokedAt a)) (\<lambda>_. validateForced a))"

definition NewUnassigned :: "gotime \<Rightarrow> string \<Rightarrow> string \<Rightarrow> product_assignment outcome" where
  "NewUnassigned now aid childOrderItemID =
     (let a = \<lparr>pa_ID = trim_space aid, pa_ParentOrderItemID = [], pa_ChildOrderItemID = trim_space childOrderItemID,
               pa_status = AsgUnassigned, pa_storedStatus = AsgUnassigned, pa_storedParent = [], pa_CreatedAt = now,
               pa_RevokedAt = None, pa_ForcedAt = None, pa_ForcedReason = []\<rparr> in
      bindO (Assignment_Validate (Some a)) (\<lambda>_. Ok a))"

definition NewAssigned :: "gotime \<Rightarrow> string \<Rightarrow> string \<Rightarrow> string \<Rightarrow> product_assignment outcome" where
  "NewAssigned now aid parentOrderItemID childOrderItemID =
     (let parent = trim_space parentOrderItemID;
          a = \<lparr>pa_ID = trim_space aid, pa_ParentOrderItemID = parent, pa_ChildOrderItemID = trim_space childOrderItemID,
               pa_status = AsgAssigned, pa_storedStatus = AsgAssigned, pa_storedParent = parent, pa_CreatedAt = now,
               pa_RevokedAt = None, pa_ForcedAt = None, pa_ForcedReason = []\<rparr> in
      bindO (Assignment_Validate (Some a)) (\<lambda>_. Ok a))"

definition Assignment_Status :: "product_assignment option \<Rightarrow> assignment_status" where
  "Assignment_Status a0 = (case a0 of None \<Rightarrow> AsgOther [] | Some a \<Rightarrow> pa_status a)"

definition StoredStatus :: "product_assignment option \<Rightarrow> assignment_status" where
  "StoredStatus a0 = (case a0 of None \<Rightarrow> AsgOther [] | Some a \<Rightarrow> pa_storedStatus a)"

definition Assignment_AcceptStoredStatus :: "product_assignment \<Rightarrow> product_assignment" where
  "Assignment_AcceptStoredStatus a = a\<lparr>pa_storedStatus := pa_status a, pa_storedParent := pa_ParentOrderItemID a\<rparr>"

definition StoredParentOrderItemID :: "product_assignment option \<Rightarrow> string" where
  "StoredParentOrderItemID a0 = (case a0 of None \<Rightarrow> [] | Some a \<Rightarrow> pa_storedParent a)"

definition AssigningParent :: "product_assignment option \<Rightarrow> bool" where
  "AssigningParent a0 \<longleftrightarrow> (case a0 of None \<Rightarrow> False | Some a \<Rightarrow> pa_storedStatus a = AsgUnassigned \<and> pa_status a = AsgAssigned)"

definition ParentChanged :: "product_assignment option \<Rightarrow> bool" where
  "ParentChanged a0 \<longleftrightarrow>
     (case a0 of None \<Rightarrow> False | Some a \<Rightarrow> trim_space (pa_ParentOrderItemID a) \<noteq> trim_space (pa_storedParent a))"

text \<open>\<open>utf8.RuneCountInString\<close>: the width of the rune a text starts with; an invalid byte counts as one.\<close>

definition cont_byte :: "nat \<Rightarrow> nat \<Rightarrow> string \<Rightarrow> nat \<Rightarrow> bool" where
  "cont_byte lo hi s k \<longleftrightarrow> k < length s \<and> lo \<le> byte_val (s ! k) \<and> byte_val (s ! k) \<le> hi"

definition rune_width :: "string \<Rightarrow> nat" where
  "rune_width s =
     (let b = byte_val (hd s); tail = cont_byte 0x80 0xBF s in
      if 0xC2 \<le> b \<and> b \<le> 0xDF \<and> tail 1 then 2
      else if (b = 0xE0 \<and> cont_byte 0xA0 0xBF s 1 \<or> b = 0xED \<and> cont_byte 0x80 0x9F s 1 \<or>
               (0xE1 \<le> b \<and> b \<le> 0xEF \<and> b \<noteq> 0xED \<and> tail 1)) \<and> tail 2 then 3
      else if (b = 0xF0 \<and> cont_byte 0x90 0xBF s 1 \<or> b = 0xF4 \<and> cont_byte 0x80 0x8F s 1 \<or>
               (0xF1 \<le> b \<and> b \<le> 0xF3 \<and> tail 1)) \<and> tail 2 \<and> tail 3 then 4
      else 1)"

lemma rune_width_pos: "0 < rune_width s"
  by (simp add: rune_width_def Let_def)

function rune_count :: "string \<Rightarrow> nat" where
  "rune_count s = (if s = [] then 0 else Suc (rune_count (drop (rune_width s) s)))"
  by pat_completeness auto
termination
  by (relation "measure length") (auto simp: rune_width_pos intro!: diff_less)

declare rune_count.simps [simp del]

definition SetForced :: "string \<Rightarrow> gotime \<Rightarrow> product_assignment option \<Rightarrow> product_assignment outcome" where
  "SetForced reason0 at a0 =
     (case a0 of
        None \<Rightarrow> Fail (Err ''product assignment must not be nil'')
      | Some a \<Rightarrow>
          let reason = trim_space reason0; a' = a\<lparr>pa_ForcedAt := Some at, pa_ForcedReason := reason\<rparr> in
          if reason = [] \<or> IsZeroTime at then Fail (Err ''product assignment: forced reason and time are required'')
          else if MaxForcedReasonLen < rune_count reason then Fail (Err ForcedReasonTooLongMessage)
          else bindO (Assignment_Validate (Some a')) (\<lambda>_. Ok a'))"

definition Forced :: "product_assignment option \<Rightarrow> bool" where
  "Forced a0 \<longleftrightarrow> (case a0 of None \<Rightarrow> False | Some a \<Rightarrow> pa_ForcedAt a \<noteq> None)"

definition Assignment_Assign :: "string \<Rightarrow> product_assignment option \<Rightarrow> product_assignment outcome" where
  "Assignment_Assign parentOrderItemID a0 =
     (case a0 of
        None \<Rightarrow> Fail (Err ''product assignment must not be nil'')
      | Some a \<Rightarrow>
          if pa_status a \<noteq> AsgUnassigned then Fail (Err ''product assignment: can only assign an unassigned record'')
          else
            let a' = a\<lparr>pa_ParentOrderItemID := trim_space parentOrderItemID, pa_status := AsgAssigned\<rparr> in
            bindO (Assignment_Validate (Some a')) (\<lambda>_. Ok a'))"

definition Assignment_Revoke :: "gotime \<Rightarrow> product_assignment option \<Rightarrow> product_assignment outcome" where
  "Assignment_Revoke now a0 =
     (case a0 of
        None \<Rightarrow> Fail (Err ''product assignment must not be nil'')
      | Some a \<Rightarrow>
          if pa_status a \<noteq> AsgAssigned \<and> pa_status a \<noteq> AsgUnassigned
          then Fail (Err ''product assignment: can only revoke an unassigned or assigned record'')
          else
            let a' = a\<lparr>pa_status := AsgRevoked, pa_RevokedAt := Some now\<rparr> in
            bindO (Assignment_Validate (Some a')) (\<lambda>_. Ok a'))"

definition Assignment_SetStatusFromDB :: "string \<Rightarrow> product_assignment option \<Rightarrow> product_assignment outcome" where
  "Assignment_SetStatusFromDB s a0 =
     (case a0 of
        None \<Rightarrow> Fail (Err ''product assignment must not be nil'')
      | Some a \<Rightarrow>
          let st = assignment_status_of_string s in
          if \<not> AssignmentStatus_IsValid st then Fail (ErrWith ''product assignment: invalid status from db: '' [s])
          else Ok (a\<lparr>pa_status := st, pa_storedStatus := st, pa_storedParent := pa_ParentOrderItemID a\<rparr>))"

section \<open>Unit ids\<close>

definition UnitID :: "string \<Rightarrow> string \<Rightarrow> string" where
  "UnitID orderID0 variantID0 =
     (let orderID = trim_space orderID0; variantID = trim_space variantID0 in
      if orderID = [] \<or> variantID = [] then [] else orderID @ ''/'' @ variantID)"

text \<open>\<open>strings.Cut\<close> at the first slash.\<close>

definition SplitUnitID :: "string \<Rightarrow> (string \<times> string) option" where
  "SplitUnitID unitID0 =
     (let unitID = trim_space unitID0; orderID = trim_space (takeWhile (\<lambda>c. c \<noteq> CHR ''/'') unitID);
          rest = dropWhile (\<lambda>c. c \<noteq> CHR ''/'') unitID; variantID = trim_space (drop 1 rest) in
      if unitID = [] \<or> rest = [] \<or> orderID = [] \<or> variantID = [] then None else Some (orderID, variantID))"

text \<open>\<open>id.IsUUID\<close>\<close>

definition IsUUID :: "string \<Rightarrow> bool" where "IsUUID s \<longleftrightarrow> uuid_groups [8, 4, 4, 4, 12] s"

definition CanonicalUnitID :: "string \<Rightarrow> string option" where
  "CanonicalUnitID unitID =
     (case SplitUnitID unitID of
        None \<Rightarrow> None
      | Some (orderID, variantID) \<Rightarrow> if \<not> IsUUID orderID then None else Some (UnitID (map lower_char orderID) variantID))"

section \<open>The table\<close>

text \<open>
  \<open>product_assignments\<close>: \<open>AND\<close>ed here are the constraints of migrations 099
  (state, not-self, child not empty), 102 (forced) and 103 (length of the reason). SQL's
  \<open>btrim\<close> removes spaces only.
\<close>

record assignment_row =
  aw_id :: string
  aw_parent :: "string option"
  aw_child :: string
  aw_status :: string
  aw_created :: gotime
  aw_revoked :: "gotime option"
  aw_forced :: "gotime option"
  aw_reason :: "string option"

definition sql_btrim :: "string \<Rightarrow> string" where
  "sql_btrim s = rev (dropWhile (\<lambda>c. c = CHR '' '') (rev (dropWhile (\<lambda>c. c = CHR '' '') s)))"

definition live_status :: "string \<Rightarrow> bool" where
  "live_status s \<longleftrightarrow> s = ''unassigned'' \<or> s = ''assigned''"

definition state_check :: "assignment_row \<Rightarrow> bool" where
  "state_check r \<longleftrightarrow>
     (aw_status r = ''unassigned'' \<and> aw_parent r = None \<and> aw_revoked r = None) \<or>
     (aw_status r = ''assigned'' \<and> aw_parent r \<noteq> None \<and> sql_btrim (the (aw_parent r)) \<noteq> [] \<and> aw_revoked r = None) \<or>
     (aw_status r = ''revoked'' \<and> aw_revoked r \<noteq> None \<and> (aw_parent r = None \<or> sql_btrim (the (aw_parent r)) \<noteq> []))"

definition forced_check :: "assignment_row \<Rightarrow> bool" where
  "forced_check r \<longleftrightarrow>
     (aw_forced r = None \<and> aw_reason r = None) \<or>
     (aw_forced r \<noteq> None \<and> aw_reason r \<noteq> None \<and> sql_btrim (the (aw_reason r)) \<noteq> [] \<and>
      (aw_status r = ''assigned'' \<or> aw_status r = ''revoked''))"

definition row_checks :: "assignment_row \<Rightarrow> bool" where
  "row_checks r \<longleftrightarrow> state_check r \<and> aw_parent r \<noteq> Some (aw_child r) \<and> sql_btrim (aw_child r) \<noteq> [] \<and>
     forced_check r \<and> (case aw_reason r of None \<Rightarrow> True | Some s \<Rightarrow> rune_count s \<le> 500)"

text \<open>The errors of a statement by what the code tests: the SQL state and the constraint's name.\<close>

datatype pg_error = PgUnique string | PgCheck | PgInvalidText | PgOther gerror

definition productAssignmentsChildCurrentIndex :: string where
  "productAssignmentsChildCurrentIndex = ''product_assignments_child_current''"

definition productAssignmentsPK :: string where "productAssignmentsPK = ''product_assignments_pkey''"

fun mapProductAssignmentExecError :: "pg_error \<Rightarrow> gerror" where
  "mapProductAssignmentExecError (PgUnique name) =
     (if name = productAssignmentsChildCurrentIndex then AppErr Conflict ''child already has an active assignment''
      else if name = productAssignmentsPK then AppErr Conflict ''assignment already exists''
      else AppErr Conflict ''product assignment conflict'')"
| "mapProductAssignmentExecError PgCheck = AppErr Validation ''product assignment constraint violation''"
| "mapProductAssignmentExecError PgInvalidText = AppErr Validation ''invalid assignment id''"
| "mapProductAssignmentExecError (PgOther e) = e"

definition current_elsewhere :: "assignment_row \<Rightarrow> assignment_row list \<Rightarrow> bool" where
  "current_elsewhere r rows \<longleftrightarrow> live_status (aw_status r) \<and>
     list_ex (\<lambda>q. aw_id q \<noteq> aw_id r \<and> live_status (aw_status q) \<and> aw_child q = aw_child r) rows"

definition nullIfEmpty :: "string \<Rightarrow> string option" where
  "nullIfEmpty s = (if s = [] then None else Some s)"

definition asg_row_of :: "string \<Rightarrow> product_assignment \<Rightarrow> assignment_row" where
  "asg_row_of rid a =
     \<lparr>aw_id = rid, aw_parent = nullIfEmpty (pa_ParentOrderItemID a), aw_child = pa_ChildOrderItemID a,
      aw_status = assignment_status_string (pa_status a), aw_created = micro (pa_CreatedAt a),
      aw_revoked = map_option micro (pa_RevokedAt a), aw_forced = map_option micro (pa_ForcedAt a),
      aw_reason = nullIfEmpty (pa_ForcedReason a)\<rparr>"

text \<open>The \<open>INSERT\<close>: the value is read, the checks are made, then the primary key and the partial index.\<close>

definition insert_stmt :: "uuid_parse \<Rightarrow> product_assignment \<Rightarrow> assignment_row list \<Rightarrow> pg_error + nat \<times> assignment_row list" where
  "insert_stmt pu a rows =
     (case pu (pa_ID a) of
        None \<Rightarrow> Inl PgInvalidText
      | Some rid \<Rightarrow>
          let r = asg_row_of rid a in
          if \<not> row_checks r then Inl PgCheck
          else if list_ex (\<lambda>q. aw_id q = rid) rows then Inl (PgUnique productAssignmentsPK)
          else if current_elsewhere r rows then Inl (PgUnique productAssignmentsChildCurrentIndex)
          else Inr (1, rows @ [r]))"

text \<open>The two forms of the \<open>UPDATE\<close>.\<close>

definition sql_coalesce :: "'a option \<Rightarrow> 'a option \<Rightarrow> 'a option" where
  "sql_coalesce x y = (case x of None \<Rightarrow> y | Some _ \<Rightarrow> x)"

definition updated_row :: "product_assignment \<Rightarrow> assignment_row \<Rightarrow> assignment_row" where
  "updated_row a r =
     (let r1 = r\<lparr>aw_status := assignment_status_string (pa_status a),
                 aw_revoked := sql_coalesce (aw_revoked r) (map_option micro (pa_RevokedAt a))\<rparr> in
      if AssigningParent (Some a)
      then r1\<lparr>aw_parent := nullIfEmpty (pa_ParentOrderItemID a), aw_forced := map_option micro (pa_ForcedAt a),
              aw_reason := nullIfEmpty (pa_ForcedReason a)\<rparr>
      else r1)"

definition update_stmt :: "uuid_parse \<Rightarrow> product_assignment \<Rightarrow> assignment_row list \<Rightarrow> pg_error + nat \<times> assignment_row list" where
  "update_stmt pu a rows =
     (case pu (pa_ID a) of
        None \<Rightarrow> Inl PgInvalidText
      | Some rid \<Rightarrow>
          let hit = (\<lambda>r. aw_id r = rid \<and> aw_status r = assignment_status_string (pa_storedStatus a));
              rows' = map (\<lambda>r. if hit r then updated_row a r else r) rows in
          if list_ex (\<lambda>r. hit r \<and> \<not> row_checks (updated_row a r)) rows then Inl PgCheck
          else if list_ex (\<lambda>r. hit r \<and> current_elsewhere (updated_row a r) rows') rows
            then Inl (PgUnique productAssignmentsChildCurrentIndex)
          else Inr (length (filter hit rows), rows'))"

section \<open>The world\<close>

text \<open>
  Requests run side by side: before each step of the one described, statements of the others
  (\<open>ae_others\<close>) may take effect. A statement may fail with an error of the driver.
\<close>

datatype asg_stmt = SInsert product_assignment | SUpdate product_assignment

fun asg_stmt_step :: "uuid_parse \<Rightarrow> asg_stmt \<Rightarrow> assignment_row list \<Rightarrow> (pg_error + nat) \<times> assignment_row list" where
  "asg_stmt_step pu (SInsert a) rows = (case insert_stmt pu a rows of Inl e \<Rightarrow> (Inl e, rows) | Inr (n, rows') \<Rightarrow> (Inr n, rows'))"
| "asg_stmt_step pu (SUpdate a) rows = (case update_stmt pu a rows of Inl e \<Rightarrow> (Inl e, rows) | Inr (n, rows') \<Rightarrow> (Inr n, rows'))"

record asg_env =
  ae_uuid :: uuid_parse
  ae_faults :: "nat \<Rightarrow> db_faults"
  ae_others :: "nat \<Rightarrow> asg_stmt list"
  ae_clock :: "nat \<Rightarrow> gotime"
  ae_ids :: "nat \<Rightarrow> string"

record asg_world =
  ag_tick :: nat
  ag_rows :: "assignment_row list"

definition asg_exec ::
    "asg_env \<Rightarrow> string \<Rightarrow> (assignment_row list \<Rightarrow> pg_error + 'a \<times> assignment_row list) \<Rightarrow>
     (pg_error + 'a, 'r asg_world_scheme) act" where
  "asg_exec env label f w =
     (let n = ag_tick w; rows = run_db (asg_stmt_step (ae_uuid env)) (ae_others env n) (ag_rows w);
          w' = w\<lparr>ag_tick := Suc n, ag_rows := rows\<rparr> in
      case ae_faults env n label of
        Some e \<Rightarrow> (Ok (Inl (PgOther e)), w')
      | None \<Rightarrow> (case f rows of
          Inl e \<Rightarrow> (Ok (Inl e), w')
        | Inr (x, rows') \<Rightarrow> (Ok (Inr x), w'\<lparr>ag_rows := rows'\<rparr>)))"

definition asg_query ::
    "asg_env \<Rightarrow> string \<Rightarrow> (assignment_row list \<Rightarrow> pg_error + 'a) \<Rightarrow> (pg_error + 'a, 'r asg_world_scheme) act" where
  "asg_query env label f = asg_exec env label (\<lambda>rows. case f rows of Inl e \<Rightarrow> Inl e | Inr x \<Rightarrow> Inr (x, rows))"

definition asg_now :: "asg_env \<Rightarrow> (gotime, 'r asg_world_scheme) act" where
  "asg_now env w =
     (Ok (ae_clock env (ag_tick w)),
      w\<lparr>ag_tick := Suc (ag_tick w), ag_rows := run_db (asg_stmt_step (ae_uuid env)) (ae_others env (ag_tick w)) (ag_rows w)\<rparr>)"

definition asg_newID :: "asg_env \<Rightarrow> (string, 'r asg_world_scheme) act" where
  "asg_newID env w =
     (Ok (ae_ids env (ag_tick w)),
      w\<lparr>ag_tick := Suc (ag_tick w), ag_rows := run_db (asg_stmt_step (ae_uuid env)) (ae_others env (ag_tick w)) (ag_rows w)\<rparr>)"

section \<open>The repository\<close>

definition ErrStatusConflict :: gerror where "ErrStatusConflict = Err ''product assignment: status conflict''"

text \<open>A statement whose error goes through \<open>mapProductAssignmentExecError\<close>, and one whose error is wrapped.\<close>

fun mapped_pg :: "(pg_error \<Rightarrow> gerror) \<Rightarrow> pg_error + 'a \<Rightarrow> 'a outcome" where
  "mapped_pg m (Inl e) = Fail (m e)"
| "mapped_pg m (Inr x) = Ok x"

fun pg_driver :: "pg_error \<Rightarrow> gerror" where
  "pg_driver (PgOther e) = e"
| "pg_driver (PgUnique name) = Err (''duplicate key value violates unique constraint '' @ go_quote name)"
| "pg_driver PgCheck = check_violation"
| "pg_driver PgInvalidText = invalid_uuid"

text \<open>The writes give back the aggregate as they leave it.\<close>

definition asValidation :: "gerror \<Rightarrow> gerror" where "asValidation e = AppErr Validation (err_text e)"

definition AsgRepo_Insert :: "asg_env \<Rightarrow> product_assignment option \<Rightarrow> (product_assignment, 'r asg_world_scheme) act" where
  "AsgRepo_Insert env a0 =
     (case a0 of
        None \<Rightarrow> raise (Err ''product_assignment_repo: insert: assignment must not be nil'')
      | Some a \<Rightarrow>
          bindW (wrapW asValidation (lift (Assignment_Validate (Some a)))) (\<lambda>_.
          bindW (asg_exec env ''insert'' (insert_stmt (ae_uuid env) a)) (\<lambda>r.
          bindW (lift (mapped_pg mapProductAssignmentExecError r)) (\<lambda>_.
          ret (Assignment_AcceptStoredStatus a)))))"

definition AsgRepo_Update :: "asg_env \<Rightarrow> product_assignment option \<Rightarrow> (product_assignment, 'r asg_world_scheme) act" where
  "AsgRepo_Update env a0 =
     (case a0 of
        None \<Rightarrow> raise (Err ''product_assignment_repo: update: assignment must not be nil'')
      | Some a \<Rightarrow>
          bindW (wrapW asValidation (lift (Assignment_Validate (Some a)))) (\<lambda>_.
          if \<not> AssigningParent (Some a) \<and> ParentChanged (Some a)
          then raise (AppErr Validation ''product assignment: parent cannot be rewritten'')
          else
            bindW (asg_exec env ''update'' (update_stmt (ae_uuid env) a)) (\<lambda>r.
            bindW (lift (mapped_pg mapProductAssignmentExecError r)) (\<lambda>n.
            if n = 0 then
              bindW (asg_query env ''update status'' (\<lambda>rows.
                       case ae_uuid env (pa_ID a) of
                         None \<Rightarrow> Inl PgInvalidText
                       | Some rid \<Rightarrow> Inr (list_ex (\<lambda>r. aw_id r = rid) rows))) (\<lambda>r.
              bindW (lift (mapped_pg (\<lambda>e. Wrap ''product_assignment_repo: update status'' (pg_driver e)) r)) (\<lambda>found.
              if \<not> found then raise (AppErr NotFound ''product assignment not found'') else raise ErrStatusConflict))
            else ret (Assignment_AcceptStoredStatus a)))))"

definition scanProductAssignment :: "assignment_row \<Rightarrow> product_assignment outcome" where
  "scanProductAssignment r =
     (let a = \<lparr>pa_ID = aw_id r, pa_ParentOrderItemID = (case aw_parent r of None \<Rightarrow> [] | Some p \<Rightarrow> p),
               pa_ChildOrderItemID = aw_child r, pa_status = AsgOther [], pa_storedStatus = AsgOther [], pa_storedParent = [],
               pa_CreatedAt = aw_created r, pa_RevokedAt = aw_revoked r, pa_ForcedAt = aw_forced r,
               pa_ForcedReason = (case aw_reason r of None \<Rightarrow> [] | Some s \<Rightarrow> s)\<rparr> in
      bindO (Assignment_SetStatusFromDB (aw_status r) (Some a)) (\<lambda>a.
      bindO (Assignment_Validate (Some a)) (\<lambda>_. Ok a)))"

definition AsgRepo_FindByID :: "asg_env \<Rightarrow> string \<Rightarrow> (product_assignment option, 'r asg_world_scheme) act" where
  "AsgRepo_FindByID env assignmentID =
     (if assignmentID = [] then raise (Err ''product_assignment_repo: find: empty id'')
      else if \<not> IsUUID assignmentID then raise (AppErr Validation ''invalid assignment id'')
      else
        bindW (asg_query env ''find by id'' (\<lambda>rows.
                 case ae_uuid env assignmentID of
                   None \<Rightarrow> Inl PgInvalidText
                 | Some rid \<Rightarrow> Inr (find (\<lambda>r. aw_id r = rid) rows))) (\<lambda>r.
        bindW (lift (mapped_pg (\<lambda>e. case e of PgOther d \<Rightarrow> Wrap ''product_assignment_repo: find by id'' d
                                     | _ \<Rightarrow> mapProductAssignmentExecError e) r)) (\<lambda>row.
        case row of
          None \<Rightarrow> ret None
        | Some r \<Rightarrow> wrapW (Wrap ''product_assignment_repo: find by id'') (bindW (lift (scanProductAssignment r)) (\<lambda>a. ret (Some a))))))"

definition AsgRepo_FindCurrentByChildID :: "asg_env \<Rightarrow> string \<Rightarrow> (product_assignment option, 'r asg_world_scheme) act" where
  "AsgRepo_FindCurrentByChildID env childID =
     (if childID = [] then raise (Err ''product_assignment_repo: find current: empty child order item id'')
      else wrapW (Wrap ''product_assignment_repo: find current'')
        (bindW (asg_query env ''find current'' (\<lambda>rows. Inr (find (\<lambda>r. aw_child r = childID \<and> live_status (aw_status r)) rows))) (\<lambda>r.
         bindW (lift (mapped_pg pg_driver r)) (\<lambda>row.
         case row of
           None \<Rightarrow> ret None
         | Some r \<Rightarrow> bindW (lift (scanProductAssignment r)) (\<lambda>a. ret (Some a))))))"

text \<open>\<open>ORDER BY created_at DESC, id\<close>\<close>

definition newest_first :: "assignment_row list \<Rightarrow> assignment_row list" where
  "newest_first rows = sort_key (\<lambda>r. - aw_created r) (sort_key aw_id rows)"

fun scan_all :: "assignment_row list \<Rightarrow> product_assignment list outcome" where
  "scan_all [] = Ok []"
| "scan_all (r # rs) = bindO (scanProductAssignment r) (\<lambda>a. bindO (scan_all rs) (\<lambda>as. Ok (a # as)))"

definition AsgRepo_ListByChildID :: "asg_env \<Rightarrow> string \<Rightarrow> (product_assignment list, 'r asg_world_scheme) act" where
  "AsgRepo_ListByChildID env childID =
     (if childID = [] then raise (Err ''product_assignment_repo: list: empty child order item id'')
      else
        bindW (asg_query env ''list'' (\<lambda>rows. Inr (newest_first (filter (\<lambda>r. aw_child r = childID) rows)))) (\<lambda>r.
        bindW (lift (mapped_pg (\<lambda>e. Wrap ''product_assignment_repo: list'' (pg_driver e)) r)) (\<lambda>rows.
        wrapW (Wrap ''product_assignment_repo: list scan'') (lift (scan_all rows)))))"

record parent_page =
  pp_Status :: string
  pp_Limit :: int64
  pp_Offset :: int64

definition AsgRepo_ListByParentID ::
    "asg_env \<Rightarrow> string \<Rightarrow> parent_page \<Rightarrow> (product_assignment list \<times> bool, 'r asg_world_scheme) act" where
  "AsgRepo_ListByParentID env parentID page =
     (if parentID = [] then raise (Err ''product_assignment_repo: list by parent: empty parent order item id'')
      else
        let status = (if pp_Status page = [] then ''assigned'' else pp_Status page);
            limit = (if pp_Limit page \<le>s 0 then 100 else pp_Limit page);
            offset = (if pp_Offset page <s 0 then 0 else pp_Offset page) in
        bindW (asg_query env ''list by parent'' (\<lambda>rows.
                 if limit + 1 <s 0 then Inl (PgOther (Err ''LIMIT must not be negative''))
                 else Inr (take (unat (limit + 1)) (drop (unat offset) (newest_first
                        (filter (\<lambda>r. aw_parent r = Some parentID \<and> (status = ''all'' \<or> aw_status r = status)) rows)))))) (\<lambda>r.
        bindW (lift (mapped_pg (\<lambda>e. Wrap ''product_assignment_repo: list by parent'' (pg_driver e)) r)) (\<lambda>rows.
        bindW (wrapW (Wrap ''product_assignment_repo: list by parent scan'') (lift (scan_all rows))) (\<lambda>out.
        ret (if unat limit < length out then (take (unat limit) out, True) else (out, False))))))"

section \<open>The service\<close>

definition mapWriteError :: "string \<Rightarrow> gerror \<Rightarrow> gerror" where
  "mapWriteError op e =
     (if err_is ErrStatusConflict e then AppErr Conflict ''product assignment status conflict''
      else if app_code_of e = Some Conflict \<or> app_code_of e = Some Validation \<or> app_code_of e = Some NotFound then e
      else Wrap (''assignment: '' @ op) e)"

definition canonicalUnitID :: "string \<Rightarrow> string \<Rightarrow> string \<Rightarrow> string outcome" where
  "canonicalUnitID raw emptyMsg invalidMsg =
     (if trim_space raw = [] then Fail (AppErr Validation emptyMsg)
      else case CanonicalUnitID (trim_space raw) of
             None \<Rightarrow> Fail (AppErr Validation invalidMsg)
           | Some unit \<Rightarrow> Ok unit)"

definition applyForced :: "asg_env \<Rightarrow> product_assignment \<Rightarrow> string \<Rightarrow> (product_assignment, 'r asg_world_scheme) act" where
  "applyForced env a reason =
     (if trim_space reason = [] then ret a
      else bindW (asg_now env) (\<lambda>now. wrapW asValidation (lift (SetForced (trim_space reason) now (Some a)))))"

definition requireNoCurrent :: "asg_env \<Rightarrow> string \<Rightarrow> (unit, 'r asg_world_scheme) act" where
  "requireNoCurrent env childID =
     (if childID = [] then raise (AppErr Validation ''child order item id must not be empty'')
      else bindW (wrapW (Wrap ''assignment: find current'') (AsgRepo_FindCurrentByChildID env childID)) (\<lambda>current.
           lift (check (current \<noteq> None) (AppErr Conflict ''child already has an active assignment''))))"

definition CreateUnassigned :: "asg_env \<Rightarrow> string \<Rightarrow> (product_assignment, 'r asg_world_scheme) act" where
  "CreateUnassigned env childID0 =
     (let childID = trim_space childID0 in
      bindW (requireNoCurrent env childID) (\<lambda>_.
      bindW (asg_newID env) (\<lambda>aid.
      bindW (asg_now env) (\<lambda>now.
      bindW (wrapW asValidation (lift (NewUnassigned now aid childID))) (\<lambda>a.
      wrapW (mapWriteError ''create unassigned'') (AsgRepo_Insert env (Some a)))))))"

definition insertAssigned :: "asg_env \<Rightarrow> string \<Rightarrow> string \<Rightarrow> string \<Rightarrow> (product_assignment, 'r asg_world_scheme) act" where
  "insertAssigned env parentID0 childID0 forcedReason =
     (let parentID = trim_space parentID0; childID = trim_space childID0 in
      bindW (requireNoCurrent env childID) (\<lambda>_.
      bindW (asg_newID env) (\<lambda>aid.
      bindW (asg_now env) (\<lambda>now.
      bindW (wrapW asValidation (lift (NewAssigned now aid parentID childID))) (\<lambda>a.
      bindW (applyForced env a forcedReason) (\<lambda>a.
      wrapW (mapWriteError ''create assigned'') (AsgRepo_Insert env (Some a))))))))"

definition CreateAssigned :: "asg_env \<Rightarrow> string \<Rightarrow> string \<Rightarrow> (product_assignment, 'r asg_world_scheme) act" where
  "CreateAssigned env parentID childID = insertAssigned env parentID childID []"

definition CreateAssignedForced :: "asg_env \<Rightarrow> string \<Rightarrow> string \<Rightarrow> string \<Rightarrow> (product_assignment, 'r asg_world_scheme) act" where
  "CreateAssignedForced env parentID childID reason = insertAssigned env parentID childID reason"

definition Assignment_Get :: "asg_env \<Rightarrow> string \<Rightarrow> (product_assignment, 'r asg_world_scheme) act" where
  "Assignment_Get env aid0 =
     (let aid = trim_space aid0 in
      if aid = [] then raise (AppErr Validation ''product assignment id must not be empty'')
      else if \<not> IsUUID aid then raise (AppErr Validation ''invalid assignment id'')
      else bindW (wrapW (\<lambda>e. if app_code_of e = Some Validation \<or> app_code_of e = Some NotFound then e
                            else Wrap ''assignment: get'' e) (AsgRepo_FindByID env aid)) (\<lambda>a0.
           case a0 of
             None \<Rightarrow> raise (AppErr NotFound ''product assignment not found'')
           | Some a \<Rightarrow> ret a))"

definition assign_unit :: "asg_env \<Rightarrow> string \<Rightarrow> string \<Rightarrow> string \<Rightarrow> (product_assignment, 'r asg_world_scheme) act" where
  "assign_unit env aid parentID forcedReason =
     bindW (Assignment_Get env aid) (\<lambda>a.
     bindW (wrapW asValidation (lift (Assignment_Assign (trim_space parentID) (Some a)))) (\<lambda>a.
     bindW (applyForced env a forcedReason) (\<lambda>a.
     wrapW (mapWriteError ''assign'') (AsgRepo_Update env (Some a)))))"

definition Service_Assign :: "asg_env \<Rightarrow> string \<Rightarrow> string \<Rightarrow> (product_assignment, 'r asg_world_scheme) act" where
  "Service_Assign env aid parentID = assign_unit env aid parentID []"

definition AssignForced :: "asg_env \<Rightarrow> string \<Rightarrow> string \<Rightarrow> string \<Rightarrow> (product_assignment, 'r asg_world_scheme) act" where
  "AssignForced env aid parentID reason = assign_unit env aid parentID reason"

text \<open>The flag says that the row was revoked already and nothing was written.\<close>

definition Service_Revoke :: "asg_env \<Rightarrow> string \<Rightarrow> (product_assignment \<times> bool, 'r asg_world_scheme) act" where
  "Service_Revoke env aid =
     bindW (Assignment_Get env aid) (\<lambda>a.
     if pa_status a = AsgRevoked then ret (a, True)
     else
       bindW (asg_now env) (\<lambda>now.
       bindW (wrapW asValidation (lift (Assignment_Revoke now (Some a)))) (\<lambda>a.
       bindW (wrapW (mapWriteError ''revoke'') (AsgRepo_Update env (Some a))) (\<lambda>a. ret (a, False)))))"

definition CurrentByChild :: "asg_env \<Rightarrow> string \<Rightarrow> (product_assignment option, 'r asg_world_scheme) act" where
  "CurrentByChild env childID =
     bindW (lift (canonicalUnitID childID ''child order item id must not be empty'' ''child order item id is invalid'')) (\<lambda>c.
     wrapW (Wrap ''assignment: current by child'') (AsgRepo_FindCurrentByChildID env c))"

definition ListByChild :: "asg_env \<Rightarrow> string \<Rightarrow> (product_assignment list, 'r asg_world_scheme) act" where
  "ListByChild env childID =
     bindW (lift (canonicalUnitID childID ''child order item id must not be empty'' ''child order item id is invalid'')) (\<lambda>c.
     wrapW (Wrap ''assignment: list by child'') (AsgRepo_ListByChildID env c))"

definition parentListStatus :: "string \<Rightarrow> string outcome" where
  "parentListStatus raw =
     (let s = trim_space raw in
      if s = [] \<or> s = ''assigned'' then Ok ''assigned''
      else if s = ''revoked'' \<or> s = ''all'' then Ok s
      else Fail (AppErr Validation ''status must be assigned, revoked, or all''))"

definition ParentListDefaultLimit :: int64 where "ParentListDefaultLimit = 100"
definition ParentListMaxLimit :: int64 where "ParentListMaxLimit = 100"

definition ListByParent :: "asg_env \<Rightarrow> string \<Rightarrow> parent_page \<Rightarrow> (product_assignment list \<times> bool, 'r asg_world_scheme) act" where
  "ListByParent env parentID q =
     bindW (lift (canonicalUnitID parentID ''parent order item id must not be empty'' ''parent order item id is invalid'')) (\<lambda>p.
     bindW (lift (parentListStatus (pp_Status q))) (\<lambda>status.
     let limit0 = (if pp_Limit q \<le>s 0 then ParentListDefaultLimit else pp_Limit q);
         limit = (if ParentListMaxLimit <s limit0 then ParentListMaxLimit else limit0) in
     if pp_Offset q <s 0 then raise (AppErr Validation ''offset must be a non-negative integer'')
     else wrapW (Wrap ''assignment: list by parent'')
       (AsgRepo_ListByParentID env p \<lparr>pp_Status = status, pp_Limit = limit, pp_Offset = pp_Offset q\<rparr>)))"

end
