(* ===== verification/AssignmentFacts.thy ===== *)
theory AssignmentFacts
  imports Assignments
begin

text \<open>
  What the assignments table holds and how a service call changes it, whatever other requests do
  in between: the rows read back as valid aggregates, the table refines a book in which an
  entry waits, is bound and ends, and a call takes effect by one statement or not at all.
\<close>

section \<open>Rows and statements\<close>

definition on_micro :: "gotime option \<Rightarrow> bool" where
  "on_micro t \<longleftrightarrow> (case t of None \<Rightarrow> True | Some u \<Rightarrow> u \<noteq> 0 \<and> micro u = u)"

definition row_good :: "assignment_row \<Rightarrow> bool" where
  "row_good r \<longleftrightarrow> row_checks r \<and> IsUUID (aw_id r) \<and> trim_space (aw_child r) = aw_child r \<and>
     (case aw_parent r of None \<Rightarrow> True | Some p \<Rightarrow> trim_space p = p \<and> p \<noteq> []) \<and>
     (case aw_reason r of None \<Rightarrow> True | Some s \<Rightarrow> trim_space s \<noteq> []) \<and>
     micro (aw_created r) = aw_created r \<and> on_micro (aw_revoked r) \<and> on_micro (aw_forced r)"

definition table_good :: "assignment_row list \<Rightarrow> bool" where
  "table_good rows \<longleftrightarrow> distinct (map aw_id rows) \<and> (\<forall>r \<in> set rows. row_good r) \<and>
     (\<forall>q \<in> set rows. \<forall>r \<in> set rows.
        live_status (aw_status q) \<longrightarrow> live_status (aw_status r) \<longrightarrow> aw_child q = aw_child r \<longrightarrow> q = r)"

text \<open>The aggregates the service writes. The database reads a UUID as its canonical text.\<close>

definition after_zero :: "gotime option \<Rightarrow> bool" where
  "after_zero t \<longleftrightarrow> (case t of None \<Rightarrow> True | Some u \<Rightarrow> micro u \<noteq> 0)"

definition writable :: "product_assignment \<Rightarrow> bool" where
  "writable a \<longleftrightarrow> Assignment_Validate (Some a) = Ok () \<and>
     trim_space (pa_ChildOrderItemID a) = pa_ChildOrderItemID a \<and>
     trim_space (pa_ParentOrderItemID a) = pa_ParentOrderItemID a \<and> after_zero (pa_RevokedAt a) \<and> after_zero (pa_ForcedAt a)"

fun stmt_good :: "asg_stmt \<Rightarrow> bool" where
  "stmt_good (SInsert a) \<longleftrightarrow> writable a"
| "stmt_good (SUpdate a) \<longleftrightarrow> writable a"

definition uuid_text :: "uuid_parse \<Rightarrow> bool" where
  "uuid_text pu \<longleftrightarrow> (\<forall>s rid. pu s = Some rid \<longrightarrow> IsUUID rid \<and> pu rid = Some rid)"

lemma micro_idem [simp]: "micro (micro t) = micro t"
  by (simp add: micro_def)

lemma sql_btrim_Nil [simp]: "sql_btrim [] = []"
  by (simp add: sql_btrim_def)

lemma nullIfEmpty_simps [simp]:
  "nullIfEmpty s = None \<longleftrightarrow> s = []" "nullIfEmpty s = Some t \<longleftrightarrow> s = t \<and> s \<noteq> []" "s \<noteq> [] \<Longrightarrow> nullIfEmpty s = Some s"
  by (auto simp: nullIfEmpty_def)

lemma status_strings [simp]:
  "assignment_status_of_string (assignment_status_string s) = s \<longleftrightarrow> (\<forall>u. s = AsgOther u \<longrightarrow> u \<notin> {''unassigned'', ''assigned'', ''revoked''})"
  by (cases s) (auto simp: assignment_status_of_string_def)

lemma uuid_trim:
  assumes "IsUUID s"
  shows "trim_space s \<noteq> []"
proof -
  have len: "8 < length s" and hex: "list_all hex_char (take 8 s)"
    using assms by (simp_all add: IsUUID_def)
  then obtain c t where s: "s = c # t" and c: "hex_char c"
    by (cases s) (auto simp: numeral_eq_Suc)
  have "\<forall>p \<in> set space_codes. \<forall>d \<in> set p. \<not> hex_char d"
    by code_simp
  with c have "\<forall>p \<in> set space_codes. c \<notin> set p" by blast
  then show ?thesis unfolding s by (rule trim_space_nonempty)
qed

lemma validate_Ok:
  "Assignment_Validate (Some a) = Ok () \<longleftrightarrow>
     trim_space (pa_ID a) \<noteq> [] \<and> trim_space (pa_ChildOrderItemID a) \<noteq> [] \<and> AssignmentStatus_IsValid (pa_status a) \<and>
     validate_state (pa_status a) (trim_space (pa_ParentOrderItemID a)) (trim_space (pa_ChildOrderItemID a)) (pa_RevokedAt a) = Ok () \<and>
     validateForced a = Ok ()"
  by (simp add: Assignment_Validate_def)

lemma validateForced_Ok:
  "validateForced a = Ok () \<longleftrightarrow> pa_ForcedAt a \<noteq> Some 0 \<and> (pa_ForcedAt a \<noteq> None \<longleftrightarrow> trim_space (pa_ForcedReason a) \<noteq> []) \<and>
     (pa_status a = AsgUnassigned \<longrightarrow> pa_ForcedAt a = None)"
  by (auto simp: validateForced_def Let_def)

lemma state_Ok:
  "validate_state st p c t = Ok () \<longleftrightarrow>
     (st = AsgUnassigned \<and> p = [] \<and> t = None) \<or> (st = AsgAssigned \<and> p \<noteq> [] \<and> c \<noteq> p \<and> t = None) \<or>
     (st = AsgRevoked \<and> (p = [] \<or> c \<noteq> p) \<and> t \<noteq> None \<and> t \<noteq> Some 0) \<or> (\<exists>s. st = AsgOther s)"
  by (cases st) (auto simp: check_def)

lemma on_micro_of: "after_zero t \<Longrightarrow> on_micro (map_option micro t)"
  by (cases t) (auto simp: after_zero_def on_micro_def)

lemma on_micro_sql_coalesce: "on_micro s \<Longrightarrow> on_micro t \<Longrightarrow> on_micro (sql_coalesce s t)"
  by (cases s) (auto simp: sql_coalesce_def)

lemma reason_text:
  assumes "writable a" "forced_check r" "aw_forced r = map_option micro (pa_ForcedAt a)"
    "aw_reason r = nullIfEmpty (pa_ForcedReason a)"
  shows "case aw_reason r of None \<Rightarrow> True | Some s \<Rightarrow> trim_space s \<noteq> []"
  using assms by (auto simp: forced_check_def writable_def validate_Ok validateForced_Ok split: option.splits)

lemma inserted_row_good:
  assumes "writable a" "IsUUID rid" "row_checks (asg_row_of rid a)"
  shows "row_good (asg_row_of rid a)"
  using assms reason_text [of a "asg_row_of rid a"]
  by (auto simp: row_good_def writable_def asg_row_of_def on_micro_of row_checks_def split: option.splits)

lemma updated_row_good:
  assumes "row_good r" "writable a" "row_checks (updated_row a r)"
  shows "row_good (updated_row a r)"
proof (cases "AssigningParent (Some a)")
  case True
  then show ?thesis
    using assms reason_text [of a "updated_row a r"]
    by (auto simp: row_good_def writable_def updated_row_def Let_def on_micro_of on_micro_sql_coalesce row_checks_def split: option.splits)
next
  case False
  then show ?thesis
    using assms by (auto simp: row_good_def writable_def updated_row_def Let_def on_micro_of on_micro_sql_coalesce)
qed

text \<open>An aggregate as a read gives it.\<close>

definition loaded :: "assignment_row \<Rightarrow> product_assignment \<Rightarrow> bool" where
  "loaded r a \<longleftrightarrow> writable a \<and> asg_row_of (aw_id r) a = r \<and> pa_ID a = aw_id r \<and>
     pa_storedStatus a = pa_status a \<and> pa_storedParent a = pa_ParentOrderItemID a"

lemma on_micro_back: "on_micro t \<Longrightarrow> map_option micro t = t \<and> after_zero t"
  by (cases t) (auto simp: on_micro_def after_zero_def)

lemma known_status:
  "row_checks r \<Longrightarrow> aw_status r = assignment_status_string st \<Longrightarrow> st = AsgUnassigned \<or> st = AsgAssigned \<or> st = AsgRevoked \<or>
    (\<exists>s. st = AsgOther s \<and> s \<in> {''unassigned'', ''assigned'', ''revoked''})"
  by (cases st) (auto simp: row_checks_def state_check_def)

lemma scan_good:
  assumes r: "row_good r"
  obtains a where "scanProductAssignment r = Ok a" "loaded r a"
proof -
  let ?st = "assignment_status_of_string (aw_status r)"
  let ?a = "\<lparr>pa_ID = aw_id r, pa_ParentOrderItemID = (case aw_parent r of None \<Rightarrow> [] | Some p \<Rightarrow> p),
               pa_ChildOrderItemID = aw_child r, pa_status = ?st, pa_storedStatus = ?st,
               pa_storedParent = (case aw_parent r of None \<Rightarrow> [] | Some p \<Rightarrow> p),
               pa_CreatedAt = aw_created r, pa_RevokedAt = aw_revoked r, pa_ForcedAt = aw_forced r,
               pa_ForcedReason = (case aw_reason r of None \<Rightarrow> [] | Some s \<Rightarrow> s)\<rparr>"
  have st: "AssignmentStatus_IsValid ?st" "assignment_status_string ?st = aw_status r"
    using r by (auto simp: row_good_def row_checks_def state_check_def assignment_status_of_string_def)
  have child: "aw_child r \<noteq> []"
    using r by (auto simp: row_good_def row_checks_def)
  have forced: "validateForced ?a = Ok ()"
    using r by (auto simp: row_good_def row_checks_def forced_check_def validateForced_Ok on_micro_def
        assignment_status_of_string_def split: option.splits if_splits)
  have state: "validate_state ?st (case aw_parent r of None \<Rightarrow> [] | Some p \<Rightarrow> p) (aw_child r) (aw_revoked r) = Ok ()"
    using r by (auto simp: row_good_def row_checks_def state_check_def state_Ok on_micro_def
        assignment_status_of_string_def split: option.splits if_splits)
  have valid: "Assignment_Validate (Some ?a) = Ok ()"
    using r st child forced state uuid_trim by (auto simp: validate_Ok row_good_def split: option.splits)
  have "scanProductAssignment r = Ok ?a"
    using st valid by (simp add: scanProductAssignment_def Assignment_SetStatusFromDB_def Let_def)
  moreover have "loaded r ?a"
    using r st valid by (auto simp: loaded_def writable_def asg_row_of_def row_good_def row_checks_def forced_check_def nullIfEmpty_def
        on_micro_back split: option.splits)
  ultimately show ?thesis by (rule that)
qed

section \<open>The book\<close>

text \<open>
  What a row stands for: a child unit, when it was entered, and a phase. A book maps the ids of
  the rows to their entries; an entry is never removed.
\<close>

datatype asg_phase =
    Waiting
  | Bound string "(gotime \<times> string) option"
  | Ended "string option" "(gotime \<times> string) option" gotime

type_synonym asg_book = "string \<rightharpoonup> (string \<times> gotime \<times> asg_phase)"

definition force_of :: "assignment_row \<Rightarrow> (gotime \<times> string) option" where
  "force_of r = (case (aw_forced r, aw_reason r) of (Some t, Some s) \<Rightarrow> Some (t, s) | _ \<Rightarrow> None)"

definition phase_of :: "assignment_row \<Rightarrow> asg_phase" where
  "phase_of r =
     (if aw_status r = ''unassigned'' then Waiting
      else if aw_status r = ''assigned'' then Bound (the (aw_parent r)) (force_of r)
      else Ended (aw_parent r) (force_of r) (the (aw_revoked r)))"

definition book_of :: "assignment_row list \<Rightarrow> asg_book" where
  "book_of rows = map_of (map (\<lambda>r. (aw_id r, (aw_child r, aw_created r, phase_of r))) rows)"

fun live_phase :: "asg_phase \<Rightarrow> bool" where
  "live_phase (Ended _ _ _) = False"
| "live_phase _ = True"

inductive phase_step :: "asg_phase \<Rightarrow> asg_phase \<Rightarrow> bool" where
  bind: "phase_step Waiting (Bound p f)"
| release: "phase_step Waiting (Ended None None t)"
| revoke: "phase_step (Bound p f) (Ended (Some p) f t)"

inductive_cases phase_stepE: "phase_step ph ph'"

inductive book_step :: "asg_book \<Rightarrow> asg_book \<Rightarrow> bool" where
  enter: "b rid = None \<Longrightarrow> (live_phase ph \<Longrightarrow> \<forall>i c' t' ph'. b i = Some (c', t', ph') \<longrightarrow> live_phase ph' \<longrightarrow> c' \<noteq> c) \<Longrightarrow>
     book_step b (b(rid \<mapsto> (c, t, ph)))"
| move: "b rid = Some (c, t, ph) \<Longrightarrow> phase_step ph ph' \<Longrightarrow> book_step b (b(rid \<mapsto> (c, t, ph')))"

lemma book_of_Some:
  "distinct (map aw_id rows) \<Longrightarrow>
   book_of rows rid = Some v \<longleftrightarrow> (\<exists>r \<in> set rows. aw_id r = rid \<and> v = (aw_child r, aw_created r, phase_of r))"
  unfolding book_of_def by (subst map_of_eq_Some_iff) (auto simp: comp_def)

lemma book_of_None: "book_of rows rid = None \<longleftrightarrow> rid \<notin> aw_id ` set rows"
  by (auto simp: book_of_def map_of_eq_None_iff image_iff)

lemma live_phase_of: "row_checks r \<Longrightarrow> live_phase (phase_of r) \<longleftrightarrow> live_status (aw_status r)"
  by (auto simp: phase_of_def live_status_def row_checks_def state_check_def)

lemma current_elsewhere_book:
  assumes "table_good rows" "\<not> current_elsewhere r rows" "rid = aw_id r" "live_status (aw_status r)"
    "book_of rows i = Some (c', t', ph')" "live_phase ph'" "i \<noteq> rid"
  shows "c' \<noteq> aw_child r"
proof -
  from assms(1,5) obtain q where q: "q \<in> set rows" "aw_id q = i" "c' = aw_child q" "ph' = phase_of q"
    by (auto simp: table_good_def book_of_Some)
  then have "live_status (aw_status q)"
    using assms(1,6) by (auto simp: table_good_def row_good_def live_phase_of)
  then show ?thesis
    using assms(2-4,7) q by (auto simp: current_elsewhere_def list_ex_iff)
qed

lemma table_good_snoc:
  assumes "table_good rows" "row_good r" "aw_id r \<notin> aw_id ` set rows" "\<not> current_elsewhere r rows"
  shows "table_good (rows @ [r])"
proof -
  have "aw_child q \<noteq> aw_child r" if "q \<in> set rows" "live_status (aw_status q)" "live_status (aw_status r)" for q
  proof -
    have "aw_id q \<noteq> aw_id r" using that(1) assms(3) by (metis imageI)
    then show ?thesis using that assms(4) by (auto simp: current_elsewhere_def list_ex_iff)
  qed
  moreover have "q = r'" if "q \<in> set rows" "r' \<in> set rows" "live_status (aw_status q)" "live_status (aw_status r')"
    "aw_child q = aw_child r'" for q r'
    using that assms(1) by (simp add: table_good_def)
  moreover have "distinct (map aw_id rows)" "\<forall>r \<in> set rows. row_good r"
    using assms(1) by (simp_all add: table_good_def)
  ultimately show ?thesis
    unfolding table_good_def using assms(2,3) by (auto dest: sym)
qed

lemma book_of_snoc:
  assumes "aw_id r \<notin> aw_id ` set rows"
  shows "book_of (rows @ [r]) = (book_of rows)(aw_id r \<mapsto> (aw_child r, aw_created r, phase_of r))"
proof
  fix i
  have "book_of rows (aw_id r) = None" using assms by (simp add: book_of_None)
  then show "book_of (rows @ [r]) i = ((book_of rows)(aw_id r \<mapsto> (aw_child r, aw_created r, phase_of r))) i"
    by (cases "i = aw_id r") (auto simp: book_of_def map_add_def split: option.splits)
qed

lemma insert_step:
  assumes good: "table_good rows" and pu: "uuid_text pu" and a: "writable a"
    and run: "insert_stmt pu a rows = Inr (n, rows')"
  shows "n = 1 \<and> table_good rows' \<and> book_step (book_of rows) (book_of rows')"
proof -
  from run obtain rid where rid: "pu (pa_ID a) = Some rid" and ok: "row_checks (asg_row_of rid a)"
    and new: "rid \<notin> aw_id ` set rows" and alone: "\<not> current_elsewhere (asg_row_of rid a) rows"
    and n: "n = 1" "rows' = rows @ [asg_row_of rid a]"
    by (auto simp: insert_stmt_def Let_def list_ex_iff split: option.splits if_splits)
  let ?r = "asg_row_of rid a"
  have r: "aw_id ?r = rid" by (simp add: asg_row_of_def)
  have rg: "row_good ?r"
    using inserted_row_good [OF a _ ok] pu rid by (auto simp: uuid_text_def)
  have tg: "table_good rows'"
    unfolding n by (rule table_good_snoc [OF good rg]) (use new alone r in auto)
  have "book_of rows' = (book_of rows)(rid \<mapsto> (aw_child ?r, aw_created ?r, phase_of ?r))"
    unfolding n using book_of_snoc [of ?r rows] new r by simp
  moreover have "book_step (book_of rows) \<dots>"
  proof (rule enter)
    show "book_of rows rid = None" using new by (simp add: book_of_None)
    show "\<forall>i c' t' ph'. book_of rows i = Some (c', t', ph') \<longrightarrow> live_phase ph' \<longrightarrow> c' \<noteq> aw_child ?r" if "live_phase (phase_of ?r)"
    proof (intro allI impI)
      fix i c' t' ph' assume b: "book_of rows i = Some (c', t', ph')" "live_phase ph'"
      have "i \<noteq> rid" using b new by (metis book_of_None option.distinct(1))
      then show "c' \<noteq> aw_child ?r"
        using current_elsewhere_book [OF good alone refl _ b] that r rg by (simp add: live_phase_of row_good_def)
    qed
  qed
  ultimately show ?thesis using tg n by simp
qed

lemma phase_update:
  fixes r :: assignment_row
  assumes r: "row_checks r" and st: "aw_status r = assignment_status_string (pa_storedStatus a)"
    and ok: "row_checks (updated_row a r)"
  shows "phase_of (updated_row a r) = phase_of r \<or> phase_step (phase_of r) (phase_of (updated_row a r))"
proof -
  let ?s = "aw_status (updated_row a r)"
  have upd: "AssigningParent (Some a) \<Longrightarrow>  aw_status r = ''unassigned'' \<and> ?s = ''assigned''"
    using st by (auto simp: AssigningParent_def updated_row_def Let_def)
  have keep: "\<not> AssigningParent (Some a) \<Longrightarrow>
      aw_parent (updated_row a r) = aw_parent r \<and> force_of (updated_row a r) = force_of r \<and>
      (aw_revoked r \<noteq> None \<longrightarrow> aw_revoked (updated_row a r) = aw_revoked r)"
    by (auto simp: updated_row_def Let_def force_of_def sql_coalesce_def split: option.splits)
  have now: "?s = ''unassigned'' \<or> ?s = ''assigned'' \<or> ?s = ''revoked''"
    and was: "aw_status r = ''unassigned'' \<or> aw_status r = ''assigned'' \<or> aw_status r = ''revoked''"
    using r ok by (auto simp: row_checks_def state_check_def)
  show ?thesis
  proof (cases "AssigningParent (Some a)")
    case True
    then show ?thesis using upd by (auto simp: phase_of_def intro: phase_step.intros)
  next
    case False
    then have k: "aw_parent (updated_row a r) = aw_parent r" "force_of (updated_row a r) = force_of r"
      "aw_revoked r \<noteq> None \<Longrightarrow> aw_revoked (updated_row a r) = aw_revoked r"
      using keep by auto
    from was show ?thesis
    proof (elim disjE)
      assume w: "aw_status r = ''unassigned''"
      then have "aw_parent r = None" "force_of r = None"
        using r by (auto simp: row_checks_def state_check_def forced_check_def force_of_def)
      then show ?thesis using w now k ok by (auto simp: phase_of_def row_checks_def state_check_def intro: phase_step.intros)
    next
      assume w: "aw_status r = ''assigned''"
      then obtain p where "aw_parent r = Some p"
        using r by (auto simp: row_checks_def state_check_def)
      then show ?thesis using w now k ok by (auto simp: phase_of_def row_checks_def state_check_def intro: phase_step.intros)
    next
      assume w: "aw_status r = ''revoked''"
      then have "aw_revoked r \<noteq> None"
        using r by (auto simp: row_checks_def state_check_def)
      then show ?thesis using w now k ok by (auto simp: phase_of_def row_checks_def state_check_def)
    qed
  qed
qed

lemma updated_row_same [simp]:
  fixes r :: assignment_row
  shows "aw_id (updated_row a r) = aw_id r" "aw_child (updated_row a r) = aw_child r" "aw_created (updated_row a r) = aw_created r"
  by (simp_all add: updated_row_def Let_def)

lemma map_ids: "map aw_id (map (\<lambda>r. if hit r then updated_row a r else r) rows) = map aw_id rows"
  by auto

text \<open>An update that matches changes one row.\<close>

lemma update_hit:
  assumes "distinct (map aw_id rows)" "update_stmt pu a rows = Inr (n, rows')"
  obtains (none) "n = 0" "rows' = rows"
  | (one) r where "r \<in> set rows" "pu (pa_ID a) = Some (aw_id r)" "aw_status r = assignment_status_string (pa_storedStatus a)"
      "n = 1" "row_checks (updated_row a r)" "rows' = map (\<lambda>q. if aw_id q = aw_id r then updated_row a q else q) rows"
      "\<not> current_elsewhere (updated_row a r) rows'"
proof -
  from assms(2) obtain rid where rid: "pu (pa_ID a) = Some rid"
    by (auto simp: update_stmt_def Let_def split: option.splits)
  define hit where "hit r \<longleftrightarrow> aw_id r = rid \<and> aw_status r = assignment_status_string (pa_storedStatus a)" for r :: assignment_row
  have run: "rows' = map (\<lambda>r. if hit r then updated_row a r else r) rows" "n = length (filter hit rows)"
    "\<forall>r \<in> set rows. hit r \<longrightarrow> row_checks (updated_row a r)"
    "\<forall>r \<in> set rows. hit r \<longrightarrow> \<not> current_elsewhere (updated_row a r) (map (\<lambda>r. if hit r then updated_row a r else r) rows)"
    using assms(2) rid by (auto simp: update_stmt_def Let_def hit_def [symmetric] list_ex_iff split: if_splits)
  show ?thesis
  proof (cases "\<exists>r \<in> set rows. hit r")
    case False
    then have "n = 0" "rows' = rows" using run by (auto simp: map_idI filter_empty_conv)
    then show ?thesis by (rule none)
  next
    case True
    then obtain r where r: "r \<in> set rows" "hit r" by auto
    have same: "hit q \<longleftrightarrow> q = r" "aw_id q = aw_id r \<longleftrightarrow> q = r" if "q \<in> set rows" for q
      using that r assms(1) by (auto simp: hit_def distinct_map dest: inj_onD)
    have "filter hit rows = filter (\<lambda>q. q = r) rows" using same by (auto intro: filter_cong)
    moreover have "length (filter (\<lambda>q. q = r) rows) = card {q \<in> set rows. q = r}"
      using assms(1) by (subst distinct_card [symmetric]) (auto simp: distinct_map)
    moreover have "{q \<in> set rows. q = r} = {r}" using r by auto
    ultimately show ?thesis using one [of r] r run rid same by (auto simp: hit_def intro!: map_cong)
  qed
qed

lemma option_eqI: "(\<And>v. x = Some v \<longleftrightarrow> y = Some v) \<Longrightarrow> x = y"
  by (cases x; cases y) auto

lemma book_of_map:
  assumes "distinct (map aw_id rows)" "r \<in> set rows"
  shows "book_of (map (\<lambda>q. if aw_id q = aw_id r then updated_row a q else q) rows) =
    (book_of rows)(aw_id r \<mapsto> (aw_child r, aw_created r, phase_of (updated_row a r)))" (is "book_of ?rows' = _")
proof
  fix i
  have d: "distinct (map aw_id ?rows')" unfolding map_ids by (fact assms(1))
  have only: "q = r" if "q \<in> set rows" "aw_id q = aw_id r" for q
    using that assms by (auto simp: distinct_map dest: inj_onD)
  show "book_of ?rows' i = ((book_of rows)(aw_id r \<mapsto> (aw_child r, aw_created r, phase_of (updated_row a r)))) i"
  proof (cases "i = aw_id r")
    case True
    have "\<exists>q \<in> set ?rows'. aw_id q = i \<and> (aw_child r, aw_created r, phase_of (updated_row a r)) = (aw_child q, aw_created q, phase_of q)"
    proof (rule bexI [of _ "updated_row a r"])
      show "updated_row a r \<in> set ?rows'"
        unfolding set_map by (rule image_eqI [of _ _ r]) (simp_all add: assms(2))
    qed (simp add: True)
    then show ?thesis using True book_of_Some [OF d] by simp
  next
    case False
    have "book_of ?rows' i = Some v \<longleftrightarrow> book_of rows i = Some v" for v
      unfolding book_of_Some [OF d] book_of_Some [OF assms(1)] set_map bex_simps(7)
    proof (rule bex_cong [OF refl])
      fix q
      show "aw_id (if aw_id q = aw_id r then updated_row a q else q) = i \<and>
          v = (aw_child (if aw_id q = aw_id r then updated_row a q else q), aw_created (if aw_id q = aw_id r then updated_row a q else q),
               phase_of (if aw_id q = aw_id r then updated_row a q else q)) \<longleftrightarrow>
        aw_id q = i \<and> v = (aw_child q, aw_created q, phase_of q)"
        using False by (cases "aw_id q = aw_id r") simp_all
    qed
    then have "book_of ?rows' i = book_of rows i"
      by (rule option_eqI)
    then show ?thesis using False by simp
  qed
qed

lemma table_good_map:
  assumes good: "table_good rows" and r: "r \<in> set rows" "row_good (updated_row a r)"
    and alone: "\<not> current_elsewhere (updated_row a r) (map (\<lambda>q. if aw_id q = aw_id r then updated_row a q else q) rows)"
      (is "\<not> current_elsewhere _ ?rows'")
  shows "table_good ?rows'"
proof -
  have d: "distinct (map aw_id rows)" using good by (simp add: table_good_def)
  have only: "q = r" if "q \<in> set rows" "aw_id q = aw_id r" for q
    using that r d by (auto simp: distinct_map dest: inj_onD)
  have rows': "q = updated_row a r \<or> (q \<in> set rows \<and> aw_id q \<noteq> aw_id r)" if "q \<in> set ?rows'" for q
    using that only by auto
  have off: "aw_child q \<noteq> aw_child r"
    if "q \<in> set ?rows'" "aw_id q \<noteq> aw_id r" "live_status (aw_status q)" "live_status (aw_status (updated_row a r))" for q
  proof
    assume "aw_child q = aw_child r"
    then have "current_elsewhere (updated_row a r) ?rows'"
      using that unfolding current_elsewhere_def list_ex_iff updated_row_same by blast
    with alone show False by simp
  qed
  have one: "q = q'" if qs: "q \<in> set ?rows'" "q' \<in> set ?rows'" "live_status (aw_status q)" "live_status (aw_status q')"
    "aw_child q = aw_child q'" for q q'
  proof -
    have "q = q'" if "q \<in> set rows" "q' \<in> set rows"
      using that qs good unfolding table_good_def by blast
    then show ?thesis
      using rows' [OF qs(1)] rows' [OF qs(2)] off [OF qs(1)] off [OF qs(2)] qs(3-5) by auto
  qed
  have "row_good q" if "q \<in> set ?rows'" for q
    using rows' [OF that] r good by (auto simp: table_good_def)
  with d one show ?thesis
    unfolding table_good_def map_ids by blast
qed

lemma update_step:
  assumes good: "table_good rows" and a: "writable a" and run: "update_stmt pu a rows = Inr (n, rows')"
  shows "table_good rows' \<and> (book_of rows' = book_of rows \<or> book_step (book_of rows) (book_of rows'))"
proof -
  have d: "distinct (map aw_id rows)" using good by (simp add: table_good_def)
  from d run show ?thesis
  proof (cases rule: update_hit)
    case none
    then show ?thesis using good by simp
  next
    case (one r)
    have rg: "row_good r" using one(1) good by (simp add: table_good_def)
    have "table_good rows'"
      using table_good_map [OF good one(1) updated_row_good [OF rg a one(5)]] one(6,7) by simp
    moreover have "book_of rows' = (book_of rows)(aw_id r \<mapsto> (aw_child r, aw_created r, phase_of (updated_row a r)))"
      using book_of_map [OF d one(1)] one(6) by simp
    moreover have "book_of rows (aw_id r) = Some (aw_child r, aw_created r, phase_of r)"
      using one(1) book_of_Some [OF d] by auto
    moreover have "phase_of (updated_row a r) = phase_of r \<or> phase_step (phase_of r) (phase_of (updated_row a r))"
      using phase_update [OF _ one(3,5)] rg by (simp add: row_good_def)
    ultimately show ?thesis by (metis book_step.move fun_upd_triv)
  qed
qed

lemma stmt_step_keeps:
  assumes "uuid_text pu" "stmt_good s" "table_good rows"
  shows "table_good (snd (asg_stmt_step pu s rows)) \<and>
    (book_of (snd (asg_stmt_step pu s rows)) = book_of rows \<or> book_step (book_of rows) (book_of (snd (asg_stmt_step pu s rows))))"
  using assms by (cases s) (auto split: sum.splits dest: insert_step update_step)

interpretation asg: db_refinement "asg_stmt_step pu" "\<lambda>s. uuid_text pu \<and> stmt_good s" table_good book_of book_step for pu
  by unfold_locales (use stmt_step_keeps in blast)+

section \<open>Calls among other requests\<close>

definition others :: "asg_env \<Rightarrow> nat \<Rightarrow> nat \<Rightarrow> asg_stmt list" where
  "others env m n = concat (map (ae_others env) [m..<n])"

definition asg_env_sound :: "asg_env \<Rightarrow> bool" where
  "asg_env_sound env \<longleftrightarrow> uuid_text (ae_uuid env) \<and> (\<forall>n. micro (ae_clock env n) \<noteq> 0) \<and> (\<forall>n. \<forall>s \<in> set (ae_others env n). stmt_good s)"

text \<open>The table at the end of a call if the call itself changed nothing.\<close>

definition meanwhile :: "asg_env \<Rightarrow> 'r asg_world_scheme \<Rightarrow> 'r asg_world_scheme \<Rightarrow> assignment_row list" where
  "meanwhile env w w' = run_db (asg_stmt_step (ae_uuid env)) (others env (ag_tick w) (ag_tick w')) (ag_rows w)"

definition reads_only :: "asg_env \<Rightarrow> ('a, 'r asg_world_scheme) act \<Rightarrow> ('a \<Rightarrow> bool) \<Rightarrow> bool" where
  "reads_only env m Q \<longleftrightarrow> (\<forall>w. table_good (ag_rows w) \<longrightarrow>
     ag_tick w \<le> ag_tick (snd (m w)) \<and> ag_rows (snd (m w)) = meanwhile env w (snd (m w)) \<and> (\<forall>x. fst (m w) = Ok x \<longrightarrow> Q x))"

definition wrote :: "asg_env \<Rightarrow> asg_stmt \<Rightarrow> 'r asg_world_scheme \<Rightarrow> 'r asg_world_scheme \<Rightarrow> bool" where
  "wrote env s w w' \<longleftrightarrow> stmt_good s \<and> asg_stmt_step (ae_uuid env) s (meanwhile env w w') = (Inr 1, ag_rows w')"

definition writes_once :: "asg_env \<Rightarrow> ('a, 'r asg_world_scheme) act \<Rightarrow> bool" where
  "writes_once env m \<longleftrightarrow> (\<forall>w. table_good (ag_rows w) \<longrightarrow>
     ag_tick w \<le> ag_tick (snd (m w)) \<and>
     (ag_rows (snd (m w)) = meanwhile env w (snd (m w)) \<or> (isOk (fst (m w)) \<and> (\<exists>s. wrote env s w (snd (m w))))))"

lemma others_empty [simp]: "others env n n = []"
  by (simp add: others_def)

lemma others_split: "m \<le> n \<Longrightarrow> n \<le> k \<Longrightarrow> others env m k = others env m n @ others env n k"
  using upt_add_eq_append [of m n "k - n"] by (simp add: others_def)

lemma others_Suc: "others env n (Suc n) = ae_others env n"
  by (simp add: others_def)

lemma meanwhile_same [simp]: "meanwhile env w w = ag_rows w"
  by (simp add: meanwhile_def)

lemma meanwhile_trans:
  "ag_tick w \<le> ag_tick w1 \<Longrightarrow> ag_rows w1 = meanwhile env w w1 \<Longrightarrow> ag_tick w1 \<le> ag_tick w2 \<Longrightarrow>
   meanwhile env w1 w2 = meanwhile env w w2"
  using others_split [of "ag_tick w" "ag_tick w1" "ag_tick w2" env] by (simp add: meanwhile_def run_db_append)

lemma meanwhile_good:
  assumes "asg_env_sound env" "table_good (ag_rows w)"
  shows "table_good (meanwhile env w w')" "book_step\<^sup>*\<^sup>* (book_of (ag_rows w)) (book_of (meanwhile env w w'))"
proof -
  have good: "\<forall>s \<in> set (others env (ag_tick w) (ag_tick w')). uuid_text (ae_uuid env) \<and> stmt_good s"
    using assms(1) by (auto simp: others_def asg_env_sound_def)
  show "table_good (meanwhile env w w')" "book_step\<^sup>*\<^sup>* (book_of (ag_rows w)) (book_of (meanwhile env w w'))"
    unfolding meanwhile_def by (rule asg.run_inv [OF good assms(2)], rule asg.run_abs [OF good assms(2)])
qed

named_theorems asg_intro \<open>rules for calls that write nothing and calls that write once\<close>

lemma quiet_ret [asg_intro]: "Q x \<Longrightarrow> reads_only env (ret x) Q"
  by (simp add: reads_only_def ret_def)

lemma quiet_raise [asg_intro]: "reads_only env (raise e) Q"
  by (simp add: reads_only_def raise_def)

lemma quiet_lift [asg_intro]: "(\<And>x. r = Ok x \<Longrightarrow> Q x) \<Longrightarrow> reads_only env (lift r) Q"
  by (simp add: reads_only_def lift_def)

lemma quiet_wrapW [asg_intro]: "reads_only env m Q \<Longrightarrow> reads_only env (wrapW f m) Q"
  by (auto simp: reads_only_def wrapW_def split: prod.splits)

lemma quiet_weaken: "reads_only env m Q \<Longrightarrow> (\<And>x. Q x \<Longrightarrow> T x) \<Longrightarrow> reads_only env m T"
  by (auto simp: reads_only_def)

lemma quiet_if [asg_intro]: "(b \<Longrightarrow> reads_only env m Q) \<Longrightarrow> (\<not> b \<Longrightarrow> reads_only env n Q) \<Longrightarrow> reads_only env (if b then m else n) Q"
  by simp

lemma writes_quiet: "reads_only env m Q \<Longrightarrow> writes_once env m"
  by (simp add: reads_only_def writes_once_def)

lemma writes_raise [asg_intro]: "writes_once env (raise e)"
  by (rule writes_quiet [OF quiet_raise])

lemma writes_if [asg_intro]: "(b \<Longrightarrow> writes_once env m) \<Longrightarrow> (\<not> b \<Longrightarrow> writes_once env n) \<Longrightarrow> writes_once env (if b then m else n)"
  by simp

lemma writes_wrapW [asg_intro]: "writes_once env m \<Longrightarrow> writes_once env (wrapW f m)"
  unfolding writes_once_def wrapW_def
  by (auto split: prod.splits) (metis (no_types, lifting) fst_conv isOk.elims(2) mapErr.simps(1) isOk.simps(1) snd_conv)+

text \<open>What follows a call that returned, and a call that did not return.\<close>

lemma bindW_cases:
  obtains (Ok) x w1 where "m w = (Ok x, w1)" "bindW m f w = f x w1"
  | (no) w1 where "snd (m w) = w1" "snd (bindW m f w) = w1" "\<not> isOk (fst (bindW m f w))"
  by (cases "m w" rule: outcome_pair_cases) (auto simp: bindW_def)

lemma quiet_bind [asg_intro]:
  fixes m :: "('a, 'r asg_world_scheme) act"
  assumes env: "asg_env_sound env" and m: "reads_only env m Q" and f: "\<And>x. Q x \<Longrightarrow> reads_only env (f x) T"
  shows "reads_only env (bindW m f) T"
  unfolding reads_only_def
proof (intro allI impI)
  fix w :: "'r asg_world_scheme" assume w: "table_good (ag_rows w)"
  show "ag_tick w \<le> ag_tick (snd (bindW m f w)) \<and> ag_rows (snd (bindW m f w)) = meanwhile env w (snd (bindW m f w)) \<and>
     (\<forall>x. fst (bindW m f w) = Ok x \<longrightarrow> T x)"
  proof (cases rule: bindW_cases [of m w f])
    case (Ok x w1)
    then have m1: "ag_tick w \<le> ag_tick w1" "ag_rows w1 = meanwhile env w w1" "Q x"
      using m w unfolding reads_only_def by (metis fst_conv snd_conv)+
    have "table_good (ag_rows w1)" using meanwhile_good(1) [OF env w] m1(2) by simp
    then have "ag_tick w1 \<le> ag_tick (snd (f x w1)) \<and> ag_rows (snd (f x w1)) = meanwhile env w1 (snd (f x w1)) \<and>
        (\<forall>y. fst (f x w1) = outcome.Ok y \<longrightarrow> T y)"
      using f [OF m1(3)] unfolding reads_only_def by blast
    then show ?thesis using meanwhile_trans [OF m1(1,2)] m1(1) Ok(2) by auto
  next
    case (no w1)
    then show ?thesis using m w unfolding reads_only_def by (metis isOk.simps(1))
  qed
qed

lemma writes_bind [asg_intro]:
  fixes m :: "('a, 'r asg_world_scheme) act"
  assumes env: "asg_env_sound env" and m: "reads_only env m Q" and f: "\<And>x. Q x \<Longrightarrow> writes_once env (f x)"
  shows "writes_once env (bindW m f)"
  unfolding writes_once_def
proof (intro allI impI)
  fix w :: "'r asg_world_scheme" assume w: "table_good (ag_rows w)"
  show "ag_tick w \<le> ag_tick (snd (bindW m f w)) \<and>
     (ag_rows (snd (bindW m f w)) = meanwhile env w (snd (bindW m f w)) \<or>
      (isOk (fst (bindW m f w)) \<and> (\<exists>s. wrote env s w (snd (bindW m f w)))))"
  proof (cases rule: bindW_cases [of m w f])
    case (Ok x w1)
    then have m1: "ag_tick w \<le> ag_tick w1" "ag_rows w1 = meanwhile env w w1" "Q x"
      using m w unfolding reads_only_def by (metis fst_conv snd_conv)+
    have "table_good (ag_rows w1)" using meanwhile_good(1) [OF env w] m1(2) by simp
    then have "ag_tick w1 \<le> ag_tick (snd (f x w1)) \<and>
        (ag_rows (snd (f x w1)) = meanwhile env w1 (snd (f x w1)) \<or> (isOk (fst (f x w1)) \<and> (\<exists>s. wrote env s w1 (snd (f x w1)))))"
      using f [OF m1(3)] unfolding writes_once_def by blast
    then show ?thesis using meanwhile_trans [OF m1(1,2)] m1(1) Ok(2) by (auto simp: wrote_def)
  next
    case (no w1)
    then show ?thesis using m w unfolding reads_only_def by (metis)
  qed
qed

text \<open>A result that is passed on in another form.\<close>

lemma writes_then [asg_intro]:
  assumes "writes_once env m"
  shows "writes_once env (bindW m (\<lambda>x. ret (f x)))"
  using assms unfolding writes_once_def bindW_def ret_def
  by (auto split: prod.splits outcome.splits)

lemma quiet_now: "asg_env_sound env \<Longrightarrow> reads_only env (asg_now env) (\<lambda>t. micro t \<noteq> 0)"
  by (auto simp: reads_only_def asg_now_def meanwhile_def others_Suc asg_env_sound_def)

lemma quiet_newID: "reads_only env (asg_newID env) (\<lambda>_. True)"
  by (simp add: reads_only_def asg_newID_def meanwhile_def others_Suc)

lemma quiet_query:
  fixes f :: "assignment_row list \<Rightarrow> pg_error + 'a"
  assumes env: "asg_env_sound env"
    and Q: "\<And>e. Q (Inl e)" "\<And>rows x. table_good rows \<Longrightarrow> f rows = Inr x \<Longrightarrow> Q (Inr x)"
  shows "reads_only env (asg_query env label f :: (pg_error + 'a, 'r asg_world_scheme) act) Q"
  unfolding reads_only_def
proof (intro allI impI)
  fix w :: "'r asg_world_scheme" assume w: "table_good (ag_rows w)"
  let ?rows = "run_db (asg_stmt_step (ae_uuid env)) (ae_others env (ag_tick w)) (ag_rows w)"
  have "table_good ?rows"
    using meanwhile_good(1) [OF env w, of "w\<lparr>ag_tick := Suc (ag_tick w)\<rparr>"] by (simp add: meanwhile_def others_Suc)
  then show "ag_tick w \<le> ag_tick (snd (asg_query env label f w)) \<and>
      ag_rows (snd (asg_query env label f w)) = meanwhile env w (snd (asg_query env label f w)) \<and>
      (\<forall>x. fst (asg_query env label f w) = Ok x \<longrightarrow> Q x)"
    using Q by (auto simp: asg_query_def asg_exec_def Let_def meanwhile_def others_Suc split: option.splits sum.splits)
qed

lemma found_loaded:
  assumes "table_good rows" "find P rows = Some r"
  obtains a where "scanProductAssignment r = Ok a" "loaded r a"
proof -
  have "r \<in> set rows" using assms(2) by (auto simp: find_Some_iff)
  then have "row_good r" using assms(1) by (simp add: table_good_def)
  then show ?thesis by (rule scan_good) (rule that)
qed

lemma scan_found: "row_good r \<Longrightarrow> scanProductAssignment r = Ok a \<Longrightarrow> loaded r a"
  by (metis outcome.inject(1) scan_good)

lemma mapped_pg_Ok [simp]: "mapped_pg m r = Ok x \<longleftrightarrow> r = Inr x"
  by (cases r) auto

lemma wrapW_lift [simp]: "wrapW g (lift r) = lift (mapErr g r)"
  by (simp add: wrapW_def lift_def fun_eq_iff)

text \<open>Pure steps in between.\<close>

lemma quiet_lift_bind: "(\<And>x. r = Ok x \<Longrightarrow> reads_only env (f x) T) \<Longrightarrow> reads_only env (bindW (lift r) f) T"
  by (cases r) (auto simp: reads_only_def bindW_def lift_def)

lemma writes_lift_bind: "(\<And>x. r = Ok x \<Longrightarrow> writes_once env (f x)) \<Longrightarrow> writes_once env (bindW (lift r) f)"
  by (cases r) (auto simp: writes_once_def bindW_def lift_def)

definition read_back :: "product_assignment option \<Rightarrow> bool" where
  "read_back a0 \<longleftrightarrow> (\<forall>a. a0 = Some a \<longrightarrow> (\<exists>r. loaded r a))"

lemma quiet_scan:
  assumes "\<And>r. row = Some r \<Longrightarrow> row_good r"
  shows "reads_only env (case row of None \<Rightarrow> ret None | Some r \<Rightarrow> bindW (lift (scanProductAssignment r)) (\<lambda>a. ret (Some a))) read_back"
  using assms by (auto simp: read_back_def intro!: quiet_ret quiet_lift_bind exI [of "\<lambda>r. loaded r _"] intro: scan_found split: option.split)

lemma quiet_FindByID:
  assumes env: "asg_env_sound env"
  shows "reads_only env (AsgRepo_FindByID env aid) read_back"
proof -
  have q: "reads_only env (asg_query env ''find by id'' (\<lambda>rows. case ae_uuid env aid of None \<Rightarrow> Inl PgInvalidText
      | Some rid \<Rightarrow> Inr (find (\<lambda>r. aw_id r = rid) rows))) (\<lambda>x. \<forall>r. x = Inr (Some r) \<longrightarrow> row_good r)"
    by (rule quiet_query [OF env]) (auto simp: find_Some_iff table_good_def split: option.splits)
  have scan: "reads_only env (case row of None \<Rightarrow> ret None | Some r \<Rightarrow> wrapW g (bindW (lift (scanProductAssignment r)) (\<lambda>a. ret (Some a)))) read_back"
    if "\<And>r. row = Some r \<Longrightarrow> row_good r" for row and g
    using quiet_scan [of row env] that by (cases row) (auto intro: quiet_wrapW)
  show ?thesis
    unfolding AsgRepo_FindByID_def
    by (intro quiet_if quiet_raise quiet_bind [OF env q] quiet_lift_bind scan) simp
qed

lemma quiet_FindCurrent:
  assumes env: "asg_env_sound env"
  shows "reads_only env (AsgRepo_FindCurrentByChildID env c) read_back"
proof -
  have q: "reads_only env (asg_query env ''find current'' (\<lambda>rows. Inr (find (\<lambda>r. aw_child r = c \<and> live_status (aw_status r)) rows)))
      (\<lambda>x. \<forall>r. x = Inr (Some r) \<longrightarrow> row_good r)"
    by (rule quiet_query [OF env]) (auto simp: find_Some_iff table_good_def)
  show ?thesis
    unfolding AsgRepo_FindCurrentByChildID_def
    by (intro quiet_if quiet_raise quiet_wrapW quiet_bind [OF env q] quiet_lift_bind quiet_scan) simp
qed

lemma quiet_Get:
  assumes env: "asg_env_sound env"
  shows "reads_only env (Assignment_Get env aid) (\<lambda>a. \<exists>r. loaded r a)"
  unfolding Assignment_Get_def Let_def
  by (intro quiet_if quiet_raise quiet_bind [OF env quiet_wrapW [OF quiet_FindByID [OF env]]])
    (auto simp: read_back_def intro: quiet_raise quiet_ret split: option.split)

lemma quiet_requireNoCurrent:
  assumes env: "asg_env_sound env"
  shows "reads_only env (requireNoCurrent env c) (\<lambda>_. c \<noteq> [])"
  unfolding requireNoCurrent_def
  by (intro quiet_if quiet_raise quiet_bind [OF env quiet_wrapW [OF quiet_FindCurrent [OF env]]] quiet_lift)

lemma SetForced_writable:
  assumes "SetForced reason t (Some a) = Ok b" "writable a" "micro t \<noteq> 0"
  shows "writable b"
  using assms by (auto simp: SetForced_def writable_def after_zero_def Let_def split: if_splits)

lemma quiet_applyForced:
  assumes env: "asg_env_sound env" and a: "writable a"
  shows "reads_only env (applyForced env a reason) writable"
  unfolding applyForced_def wrapW_lift
  by (intro quiet_if quiet_ret quiet_bind [OF env quiet_now [OF env]] quiet_lift)
    (use a in \<open>auto dest: SetForced_writable\<close>)

text \<open>The two statements that write.\<close>

lemma exec_cases:
  fixes w :: "'r asg_world_scheme"
  obtains (failed) e w1 where "asg_exec env label f w = (Ok (Inl e), w1)" "ag_tick w1 = Suc (ag_tick w)" "ag_rows w1 = meanwhile env w w1"
  | (ran) x w1 where "asg_exec env label f w = (Ok (Inr x), w1)" "ag_tick w1 = Suc (ag_tick w)"
      "f (meanwhile env w w1) = Inr (x, ag_rows w1)"
proof -
  let ?rows = "run_db (asg_stmt_step (ae_uuid env)) (ae_others env (ag_tick w)) (ag_rows w)"
  have m: "meanwhile env w (w1 :: 'r asg_world_scheme) = ?rows" if "ag_tick w1 = Suc (ag_tick w)" for w1
    using that by (simp add: meanwhile_def others_Suc)
  show ?thesis
  proof (cases "ae_faults env (ag_tick w) label")
    case (Some e)
    show ?thesis
      by (rule failed [of "PgOther e" "w\<lparr>ag_tick := Suc (ag_tick w), ag_rows := ?rows\<rparr>"]) (simp_all add: Some asg_exec_def Let_def m)
  next
    case None
    show ?thesis
    proof (cases "f ?rows")
      case (Inl e)
      show ?thesis
        by (rule failed [of e "w\<lparr>ag_tick := Suc (ag_tick w), ag_rows := ?rows\<rparr>"]) (simp_all add: None Inl asg_exec_def Let_def m)
    next
      case (Inr y)
      then show ?thesis
        by (cases y, intro ran [of "fst y" "w\<lparr>ag_tick := Suc (ag_tick w), ag_rows := snd y\<rparr>"])
          (simp_all add: None asg_exec_def Let_def m)
    qed
  qed
qed

lemma writes_Insert:
  assumes env: "asg_env_sound env" and a: "writable a"
  shows "writes_once env (AsgRepo_Insert env (Some a) :: (product_assignment, 'r asg_world_scheme) act)"
proof -
  have "writes_once env (bindW (asg_exec env ''insert'' (insert_stmt (ae_uuid env) a) :: (pg_error + nat, 'r asg_world_scheme) act) (\<lambda>r.
        bindW (lift (mapped_pg mapProductAssignmentExecError r)) (\<lambda>_. ret (Assignment_AcceptStoredStatus a))))" (is "writes_once env ?m")
    unfolding writes_once_def
  proof (intro allI impI)
    fix w :: "'r asg_world_scheme" assume w: "table_good (ag_rows w)"
    show "ag_tick w \<le> ag_tick (snd (?m w)) \<and> (ag_rows (snd (?m w)) = meanwhile env w (snd (?m w)) \<or>
        (isOk (fst (?m w)) \<and> (\<exists>s. wrote env s w (snd (?m w)))))"
    proof (cases rule: exec_cases [where env = env and label = "''insert''" and f = "insert_stmt (ae_uuid env) a" and w = w])
      case (failed e w1)
      then show ?thesis by (simp add: bindW_def lift_def)
    next
      case (ran x w1)
      have "x = 1"
        using insert_step [OF meanwhile_good(1) [OF env w] _ a ran(3)] env by (simp add: asg_env_sound_def)
      then have "wrote env (SInsert a) w w1" using ran(3) a by (simp add: wrote_def)
      then show ?thesis using ran(1,2) by (auto simp: bindW_def lift_def ret_def)
    qed
  qed
  then show ?thesis
    unfolding AsgRepo_Insert_def option.case wrapW_lift by (intro writes_lift_bind)
qed

lemma writes_Update:
  assumes env: "asg_env_sound env" and a: "writable a"
  shows "writes_once env (AsgRepo_Update env (Some a) :: (product_assignment, 'r asg_world_scheme) act)"
proof -
  let ?found = "asg_query env ''update status'' (\<lambda>rows. case ae_uuid env (pa_ID a) of
                         None \<Rightarrow> Inl PgInvalidText
                       | Some rid \<Rightarrow> Inr (list_ex (\<lambda>r. aw_id r = rid) rows)) :: (pg_error + bool, 'r asg_world_scheme) act"
  let ?none = "bindW ?found (\<lambda>r.
     bindW (lift (mapped_pg (\<lambda>e. Wrap ''product_assignment_repo: update status'' (pg_driver e)) r)) (\<lambda>found.
     if \<not> found then raise (AppErr NotFound ''product assignment not found'') else raise ErrStatusConflict)) :: (product_assignment, 'r asg_world_scheme) act"
  have q: "reads_only env ?found (\<lambda>_. True)"
    by (rule quiet_query [OF env]) simp_all
  have none: "reads_only env ?none (\<lambda>_. False)"
    by (intro quiet_bind [OF env q] quiet_lift_bind quiet_if quiet_raise)
  have "writes_once env (bindW (asg_exec env ''update'' (update_stmt (ae_uuid env) a) :: (pg_error + nat, 'r asg_world_scheme) act) (\<lambda>r.
        bindW (lift (mapped_pg mapProductAssignmentExecError r)) (\<lambda>n. if n = 0 then ?none else ret (Assignment_AcceptStoredStatus a))))"
    (is "writes_once env ?m")
    unfolding writes_once_def
  proof (intro allI impI)
    fix w :: "'r asg_world_scheme" assume w: "table_good (ag_rows w)"
    show "ag_tick w \<le> ag_tick (snd (?m w)) \<and> (ag_rows (snd (?m w)) = meanwhile env w (snd (?m w)) \<or>
        (isOk (fst (?m w)) \<and> (\<exists>s. wrote env s w (snd (?m w)))))"
    proof (cases rule: exec_cases [where env = env and label = "''update''" and f = "update_stmt (ae_uuid env) a" and w = w])
      case (failed e w1)
      then show ?thesis by (simp add: bindW_def [of "asg_exec env ''update'' (update_stmt (ae_uuid env) a)"] bindW_def [of "lift _"] lift_def)
    next
      case (ran x w1)
      have good: "table_good (meanwhile env w w1)" by (rule meanwhile_good(1) [OF env w])
      then have d: "distinct (map aw_id (meanwhile env w w1))" by (simp add: table_good_def)
      have run: "?m w = (if x = 0 then ?none w1 else (Ok (Assignment_AcceptStoredStatus a), w1))"
        by (simp add: bindW_def [of "asg_exec env ''update'' (update_stmt (ae_uuid env) a)"] bindW_def [of "lift _"] ran(1) lift_def ret_def)
      from d ran(3) show ?thesis
      proof (cases rule: update_hit)
        case none
        then have "table_good (ag_rows w1)" using good by simp
        then have "ag_tick w1 \<le> ag_tick (snd (?none w1))" "ag_rows (snd (?none w1)) = meanwhile env w1 (snd (?none w1))"
          using \<open>reads_only env ?none (\<lambda>_. False)\<close> unfolding reads_only_def by blast+
        then show ?thesis
          using none run ran(2) meanwhile_trans [of w w1 env "snd (?none w1)"] by simp
      next
        case (one r)
        then have "wrote env (SUpdate a) w w1" using ran(3) a by (simp add: wrote_def)
        then show ?thesis using run ran(2) one(4) by auto
      qed
    qed
  qed
  then show ?thesis
    unfolding AsgRepo_Update_def option.case wrapW_lift by (intro writes_lift_bind writes_if writes_raise)
qed

section \<open>The calls\<close>

datatype asg_request =
    CCreateUnassigned string
  | CCreateAssigned string string
  | CCreateAssignedForced string string string
  | CAssign string string
  | CAssignForced string string string
  | CRevoke string
  | CGet string
  | CCurrentByChild string
  | CListByChild string
  | CListByParent string parent_page

definition dropped :: "('a, 's) act \<Rightarrow> (unit, 's) act" where "dropped m = bindW m (\<lambda>_. ret ())"

fun asg_call :: "asg_env \<Rightarrow> asg_request \<Rightarrow> (unit, 'r asg_world_scheme) act" where
  "asg_call env (CCreateUnassigned c) = dropped (CreateUnassigned env c)"
| "asg_call env (CCreateAssigned p c) = dropped (CreateAssigned env p c)"
| "asg_call env (CCreateAssignedForced p c reason) = dropped (CreateAssignedForced env p c reason)"
| "asg_call env (CAssign aid p) = dropped (Service_Assign env aid p)"
| "asg_call env (CAssignForced aid p reason) = dropped (AssignForced env aid p reason)"
| "asg_call env (CRevoke aid) = dropped (Service_Revoke env aid)"
| "asg_call env (CGet aid) = dropped (Assignment_Get env aid)"
| "asg_call env (CCurrentByChild c) = dropped (CurrentByChild env c)"
| "asg_call env (CListByChild c) = dropped (ListByChild env c)"
| "asg_call env (CListByParent p q) = dropped (ListByParent env p q)"

definition asg_calls :: "asg_env \<Rightarrow> asg_request list \<Rightarrow> 'r asg_world_scheme \<Rightarrow> 'r asg_world_scheme" where
  "asg_calls env cs w = run_db (asg_call env) cs w"

lemma NewUnassigned_writable: "NewUnassigned now aid c = Ok a \<Longrightarrow> writable a"
  by (auto simp: NewUnassigned_def writable_def after_zero_def Let_def)

lemma NewAssigned_writable: "NewAssigned now aid p c = Ok a \<Longrightarrow> writable a"
  by (auto simp: NewAssigned_def writable_def after_zero_def Let_def)

lemma Assign_writable: "Assignment_Assign p (Some a) = Ok b \<Longrightarrow> writable a \<Longrightarrow> writable b"
  by (auto simp: Assignment_Assign_def writable_def Let_def split: if_splits)

lemma Revoke_writable: "Assignment_Revoke now (Some a) = Ok b \<Longrightarrow> micro now \<noteq> 0 \<Longrightarrow> writable a \<Longrightarrow> writable b"
  by (auto simp: Assignment_Revoke_def writable_def after_zero_def Let_def split: if_splits)

lemma writes_CreateUnassigned:
  assumes env: "asg_env_sound env"
  shows "writes_once env (CreateUnassigned env c)"
  unfolding CreateUnassigned_def Let_def wrapW_lift
  by (intro writes_bind [OF env quiet_requireNoCurrent [OF env]] writes_bind [OF env quiet_newID] writes_bind [OF env quiet_now [OF env]]
      writes_lift_bind writes_wrapW writes_Insert [OF env])
    (auto dest: NewUnassigned_writable)

lemma writes_insertAssigned:
  assumes env: "asg_env_sound env"
  shows "writes_once env (insertAssigned env p c reason)"
  unfolding insertAssigned_def Let_def wrapW_lift
  by (intro writes_bind [OF env quiet_requireNoCurrent [OF env]] writes_bind [OF env quiet_newID] writes_bind [OF env quiet_now [OF env]]
      writes_lift_bind writes_bind [OF env quiet_applyForced [OF env]] writes_wrapW writes_Insert [OF env])
    (auto dest: NewAssigned_writable)

lemma writes_assign:
  assumes env: "asg_env_sound env"
  shows "writes_once env (assign_unit env aid p reason)"
  unfolding assign_unit_def wrapW_lift
  by (intro writes_bind [OF env quiet_Get [OF env]] writes_lift_bind writes_bind [OF env quiet_applyForced [OF env]]
      writes_wrapW writes_Update [OF env])
    (auto simp: loaded_def dest: Assign_writable)

lemma writes_Revoke:
  assumes env: "asg_env_sound env"
  shows "writes_once env (Service_Revoke env aid)"
  unfolding Service_Revoke_def wrapW_lift
  by (intro writes_bind [OF env quiet_Get [OF env]] writes_if writes_quiet [OF quiet_ret] writes_bind [OF env quiet_now [OF env]]
      writes_lift_bind writes_then writes_wrapW writes_Update [OF env])
    (auto simp: loaded_def dest: Revoke_writable)

lemma quiet_list:
  assumes env: "asg_env_sound env"
  shows "reads_only env (bindW (asg_query env label f) (\<lambda>r. bindW (lift (mapped_pg m r)) (\<lambda>rows. wrapW g (lift (scan_all rows))))) (\<lambda>_. True)"
  unfolding wrapW_lift
  by (intro quiet_bind [OF env quiet_query [OF env, where Q = "\<lambda>_. True"]] quiet_lift_bind quiet_lift) simp_all

lemma quiet_ListByParentID:
  assumes env: "asg_env_sound env"
  shows "reads_only env (AsgRepo_ListByParentID env p page) (\<lambda>_. True)"
  unfolding AsgRepo_ListByParentID_def wrapW_lift Let_def
  by (intro quiet_if quiet_raise quiet_bind [OF env quiet_query [OF env, where Q = "\<lambda>_. True"]] quiet_lift_bind quiet_ret) simp_all

lemma quiet_reads:
  assumes env: "asg_env_sound env"
  shows "reads_only env (CurrentByChild env c) (\<lambda>_. True)" "reads_only env (ListByChild env c) (\<lambda>_. True)"
    "reads_only env (ListByParent env p q) (\<lambda>_. True)"
  unfolding CurrentByChild_def ListByChild_def ListByParent_def AsgRepo_ListByChildID_def Let_def
  by (intro quiet_lift_bind quiet_wrapW quiet_weaken [OF quiet_FindCurrent [OF env]] quiet_if quiet_raise quiet_list [OF env]
      quiet_ListByParentID [OF env] TrueI)+

lemma writes_dropped: "writes_once env m \<Longrightarrow> writes_once env (dropped m)"
  unfolding dropped_def by (rule writes_then [of env m "\<lambda>_. ()"])

lemma writes_call:
  assumes env: "asg_env_sound env"
  shows "writes_once env (asg_call env c)"
proof -
  note reads = quiet_reads [OF env, THEN writes_quiet] quiet_Get [OF env, THEN writes_quiet]
  note writes = writes_CreateUnassigned [OF env] writes_insertAssigned [OF env] writes_assign [OF env] writes_Revoke [OF env]
  show ?thesis
    by (cases c; simp only: asg_call.simps CreateAssigned_def CreateAssignedForced_def Service_Assign_def AssignForced_def;
        rule writes_dropped; rule reads writes)
qed

lemma call_keeps:
  assumes env: "asg_env_sound env" and w: "table_good (ag_rows w)"
  shows "table_good (ag_rows (snd (asg_call env c w))) \<and>
    book_step\<^sup>*\<^sup>* (book_of (ag_rows w)) (book_of (ag_rows (snd (asg_call env c w))))"
proof -
  let ?w' = "snd (asg_call env c w)"
  from writes_call [OF env, of c] w
  consider "ag_rows ?w' = meanwhile env w ?w'" | s where "wrote env s w ?w'"
    unfolding writes_once_def by blast
  then show ?thesis
  proof cases
    case 1
    then show ?thesis using meanwhile_good [OF env w] by simp
  next
    case (2 s)
    then have s: "stmt_good s" "snd (asg_stmt_step (ae_uuid env) s (meanwhile env w ?w')) = ag_rows ?w'"
      by (auto simp: wrote_def)
    have "uuid_text (ae_uuid env)" using env by (simp add: asg_env_sound_def)
    from stmt_step_keeps [OF this s(1) meanwhile_good(1) [OF env w], of ?w'] show ?thesis
      using meanwhile_good(2) [OF env w, of ?w'] unfolding s(2) by (auto intro: rtranclp.rtrancl_into_rtrancl)
  qed
qed

interpretation asg_service: db_refinement "asg_call env" "\<lambda>_. asg_env_sound env" "\<lambda>w. table_good (ag_rows w)"
    "\<lambda>w. book_of (ag_rows w)" "book_step\<^sup>*\<^sup>*" for env
  by unfold_locales (use call_keeps in blast)+

lemma calls_table:
  assumes "asg_env_sound env" "table_good (ag_rows w)"
  shows "table_good (ag_rows (asg_calls env cs w))" "book_step\<^sup>*\<^sup>* (book_of (ag_rows w)) (book_of (ag_rows (asg_calls env cs w)))"
proof -
  show "table_good (ag_rows (asg_calls env cs w))"
    unfolding asg_calls_def by (rule asg_service.run_inv) (use assms in auto)
  show "book_step\<^sup>*\<^sup>* (book_of (ag_rows w)) (book_of (ag_rows (asg_calls env cs w)))"
    using asg_service.run_abs [of cs env w] assms by (simp add: asg_calls_def)
qed

lemma table_good_Nil: "table_good []"
  by (simp add: table_good_def)

text \<open>C5: Every row of the assignments table is a well-typed aggregate, after any requests in any
  interleaving: whatever calls of the service ran, with the statements of other requests falling
  between any two of their steps and with statements failing, each row satisfies the CHECK
  constraints, is read back without an error as an aggregate that \<open>Validate\<close> accepts, and that
  aggregate is exactly the row. So no read of the service fails for what is stored.\<close>

theorem assignment_rows_typed:
  assumes "asg_env_sound env" "ag_rows w = []" "r \<in> set (ag_rows (asg_calls env cs w))"
  shows "row_checks r \<and> (\<exists>a. scanProductAssignment r = Ok a \<and> Assignment_Validate (Some a) = Ok () \<and> asg_row_of (aw_id r) a = r)"
proof -
  have "row_good r"
    using calls_table(1) [OF assms(1), of w cs] assms(2,3) by (simp add: table_good_Nil) (simp add: table_good_def)
  moreover obtain a where "scanProductAssignment r = Ok a" "loaded r a"
    using calculation by (rule scan_good)
  ultimately show ?thesis
    by (auto simp: row_good_def loaded_def writable_def)
qed

text \<open>C8: The assignments table refines a book of entries, under any interleaving: from any point of
  any history the table moves on only by adding an entry under a new id, which may be live (waiting or
  bound) only when its child has no other live entry, and by moving an entry from waiting to bound,
  from waiting to ended, or from bound to ended with the same parent and the same force record. No
  other statement takes effect, whatever the requests send.\<close>

theorem assignments_refine_book:
  assumes "asg_env_sound env" "ag_rows w = []"
  shows "book_step\<^sup>*\<^sup>* (book_of (ag_rows (asg_calls env cs w))) (book_of (ag_rows (asg_calls env (cs @ ds) w)))"
proof -
  have "asg_calls env (cs @ ds) w = asg_calls env ds (asg_calls env cs w)"
    by (simp add: asg_calls_def run_db_append)
  then show ?thesis
    using calls_table(2) [OF assms(1) calls_table(1) [OF assms(1)], of w cs ds] assms(2) by (simp add: table_good_Nil)
qed

section \<open>What the book says of a unit\<close>

lemma book_keeps:
  "book_step\<^sup>*\<^sup>* b b' \<Longrightarrow> b rid = Some (c, t, ph) \<Longrightarrow> \<exists>ph'. b' rid = Some (c, t, ph') \<and> phase_step\<^sup>*\<^sup>* ph ph'"
proof (induction rule: rtranclp_induct)
  case (step y z)
  then obtain ph' where ph': "y rid = Some (c, t, ph')" "phase_step\<^sup>*\<^sup>* ph ph'" by auto
  from step(2) show ?case
  proof cases
    case (enter r ph2 c2 t2)
    then show ?thesis using ph' by (cases "rid = r") auto
  next
    case (move r c2 t2 ph2 ph3)
    then show ?thesis using ph' by (cases "rid = r") (auto intro: rtranclp.rtrancl_into_rtrancl)
  qed
qed auto

lemma bound_stays: "phase_step\<^sup>*\<^sup>* ph ph' \<Longrightarrow> ph = Bound p f \<Longrightarrow> ph' = Bound p f \<or> (\<exists>t. ph' = Ended (Some p) f t)"
  by (induction rule: rtranclp_induct) (auto elim: phase_step.cases)

lemma ended_stays: "phase_step\<^sup>*\<^sup>* ph ph' \<Longrightarrow> ph = Ended p f t \<Longrightarrow> ph' = ph"
  by (induction rule: rtranclp_induct) (auto elim: phase_step.cases)

text \<open>C7: A ticket is bound to at most one card at a time and a binding is never rewritten: after any
  requests in any interleaving a live row that is bound is the only live row of its child unit, and
  a row that was bound to a parent is still there later, for the same child and parent and with the
  same creation time, either live or revoked.\<close>

theorem assignment_binding_is_final:
  assumes "asg_env_sound env" "ag_rows w = []" "r \<in> set (ag_rows (asg_calls env cs w))" "aw_parent r = Some p"
    "q \<in> set (ag_rows (asg_calls env cs w))" "live_status (aw_status q)" "live_status (aw_status r)"
  shows "(aw_child q = aw_child r \<longrightarrow> q = r) \<and>
    (\<exists>r' \<in> set (ag_rows (asg_calls env (cs @ ds) w)). aw_id r' = aw_id r \<and> aw_child r' = aw_child r \<and> aw_created r' = aw_created r \<and>
       aw_parent r' = Some p \<and> (aw_status r' = ''assigned'' \<or> aw_status r' = ''revoked''))"
proof -
  have good: "table_good (ag_rows (asg_calls env cs w))" for cs
    using calls_table(1) [OF assms(1), of w cs] assms(2) by (simp add: table_good_Nil)
  let ?b = "\<lambda>cs. book_of (ag_rows (asg_calls env cs w))"
  have rc: "row_checks r" using good [of cs] assms(3) by (auto simp: table_good_def row_good_def)
  have ph: "phase_of r = Bound p (force_of r)"
    using rc assms(4,7) by (auto simp: phase_of_def live_status_def row_checks_def state_check_def)
  have at: "?b cs (aw_id r) = Some (aw_child r, aw_created r, phase_of r)"
    using good [of cs] assms(3) by (auto simp: table_good_def book_of_Some)
  have "asg_calls env (cs @ ds) w = asg_calls env ds (asg_calls env cs w)"
    by (simp add: asg_calls_def run_db_append)
  then have "book_step\<^sup>*\<^sup>* (?b cs) (?b (cs @ ds))"
    using calls_table(2) [OF assms(1) good [of cs], of ds] by simp
  from book_keeps [OF this at] obtain ph' where ph': "?b (cs @ ds) (aw_id r) = Some (aw_child r, aw_created r, ph')"
      "ph' = Bound p (force_of r) \<or> (\<exists>t. ph' = Ended (Some p) (force_of r) t)"
    using bound_stays [OF _ ph] by blast
  then obtain r' where r': "r' \<in> set (ag_rows (asg_calls env (cs @ ds) w))" "aw_id r' = aw_id r"
      "aw_child r' = aw_child r" "aw_created r' = aw_created r" "ph' = phase_of r'"
    using good [of "cs @ ds"] by (auto simp: table_good_def book_of_Some)
  have "row_checks r'" using good [of "cs @ ds"] r'(1) by (auto simp: table_good_def row_good_def)
  then have "aw_parent r' = Some p \<and> (aw_status r' = ''assigned'' \<or> aw_status r' = ''revoked'')"
    using ph'(2) r'(5) by (auto simp: phase_of_def row_checks_def state_check_def split: if_splits)
  moreover have "aw_child q = aw_child r \<longrightarrow> q = r"
    using good [of cs] assms(3,5-7) by (auto simp: table_good_def)
  ultimately show ?thesis using r' by blast
qed

section \<open>Compare and set\<close>

lemma found_id: "find (\<lambda>r. aw_id r = rid) rows = Some r \<Longrightarrow> r \<in> set rows \<and> aw_id r = rid"
  by (auto simp: find_Some_iff)

lemma query_Ok:
  "asg_query env label f w = (Ok (Inr x), w') \<Longrightarrow> f (ag_rows w') = Inr x \<and> ag_tick w' = Suc (ag_tick w)"
  by (auto simp: asg_query_def asg_exec_def Let_def split: option.splits sum.splits)

lemma Get_row:
  assumes "Assignment_Get env aid w = (Ok a, w')"
  obtains r where "r \<in> set (ag_rows w')" "ae_uuid env (trim_space aid) = Some (aw_id r)" "scanProductAssignment r = Ok a"
proof -
  obtain row w1 where q: "asg_query env ''find by id'' (\<lambda>rows. case ae_uuid env (trim_space aid) of None \<Rightarrow> Inl PgInvalidText
      | Some rid \<Rightarrow> Inr (find (\<lambda>r. aw_id r = rid) rows)) w = (Ok (Inr (Some row)), w1)"
    and s: "scanProductAssignment row = Ok a" "w' = w1"
    using assms unfolding Assignment_Get_def Let_def AsgRepo_FindByID_def
    by (auto simp: act_Ok split: if_splits option.splits)
  from query_Ok [OF q] show ?thesis
    using s by (auto split: option.splits dest: found_id intro: that)
qed

lemma applyForced_none [simp]: "applyForced env a [] = ret a"
  by (simp add: applyForced_def)

lemma Update_Ok:
  assumes "AsgRepo_Update env (Some a) w = (Ok b, w')"
  obtains n where "update_stmt (ae_uuid env) a (meanwhile env w w') = Inr (n, ag_rows w')" "n \<noteq> 0" "b = Assignment_AcceptStoredStatus a"
    "Assignment_Validate (Some a) = Ok ()" "ag_tick w \<le> ag_tick w'"
proof -
  obtain n where e: "asg_exec env ''update'' (update_stmt (ae_uuid env) a) w = (Ok (Inr n), w')" and n: "n \<noteq> 0"
    and b: "b = Assignment_AcceptStoredStatus a" and v: "Assignment_Validate (Some a) = Ok ()"
    using assms unfolding AsgRepo_Update_def
    by (auto simp: act_Ok split: if_splits)
  from e show ?thesis
    by (cases rule: exec_cases [where env = env and label = "''update''" and f = "update_stmt (ae_uuid env) a" and w = w])
      (use n b v in \<open>auto intro: that\<close>)
qed

text \<open>C6: \<open>Assign\<close> is a compare-and-set. When it returns an assignment, the other requests had left
  the named row unassigned at the moment of the write, the write turned exactly that row into
  the assigned row of the given parent and touched no other, and reading the row back gives
  the aggregate that was returned. So of two requests that race to bind the same ticket at most
  one succeeds.\<close>

theorem assign_is_compare_and_set:
  assumes env: "asg_env_sound env"
    and start: "ag_rows w0 = []"
    and run: "Service_Assign env aid p (asg_calls env cs w0) = (Ok a, w')"
  shows "\<exists>r r'. r \<in> set (meanwhile env (asg_calls env cs w0) w') \<and> aw_status r = ''unassigned'' \<and>
    ae_uuid env (trim_space aid) = Some (aw_id r) \<and> r' = r\<lparr>aw_status := ''assigned'', aw_parent := Some (trim_space p)\<rparr> \<and>
    ag_rows w' = map (\<lambda>q. if aw_id q = aw_id r then r' else q) (meanwhile env (asg_calls env cs w0) w') \<and>
    scanProductAssignment r' = Ok a"
proof -
  define w where "w = asg_calls env cs w0"
  have w: "table_good (ag_rows w)"
    unfolding w_def by (rule calls_table(1) [OF env]) (simp add: start table_good_Nil)
  obtain a0 a1 w1 where get: "Assignment_Get env aid w = (Ok a0, w1)"
    and asn: "Assignment_Assign (trim_space p) (Some a0) = Ok a1"
    and upd: "AsgRepo_Update env (Some a1) w1 = (Ok a, w')"
    using run unfolding w_def [symmetric] Service_Assign_def assign_unit_def by (auto simp: act_Ok)
  obtain r0 where r0: "r0 \<in> set (ag_rows w1)" "ae_uuid env (trim_space aid) = Some (aw_id r0)" "scanProductAssignment r0 = Ok a0"
    using get by (rule Get_row)
  have t1: "ag_tick w \<le> ag_tick w1" "ag_rows w1 = meanwhile env w w1"
    using quiet_Get [OF env, of aid] w get unfolding reads_only_def by (metis snd_conv)+
  have w1: "table_good (ag_rows w1)" using meanwhile_good(1) [OF env w] t1(2) by simp
  obtain n where st: "update_stmt (ae_uuid env) a1 (meanwhile env w1 w') = Inr (n, ag_rows w')" "n \<noteq> 0" "a = Assignment_AcceptStoredStatus a1"
    "Assignment_Validate (Some a1) = Ok ()" "ag_tick w1 \<le> ag_tick w'"
    using upd by (rule Update_Ok)
  let ?T = "meanwhile env w w'"
  have T: "meanwhile env w1 w' = ?T" by (rule meanwhile_trans [OF t1 st(5)])
  have TG: "table_good ?T" by (rule meanwhile_good(1) [OF env w])
  then have d: "distinct (map aw_id ?T)" by (simp add: table_good_def)
  have a0: "pa_ID a0 = aw_id r0" "pa_status a0 = AsgUnassigned" "pa_storedStatus a0 = pa_status a0" "loaded r0 a0"
    using r0 w1 asn scan_found [of r0 a0] by (auto simp: table_good_def loaded_def Assignment_Assign_def split: if_splits)
  have a1: "a1 = a0\<lparr>pa_ParentOrderItemID := trim_space p, pa_status := AsgAssigned\<rparr>"
    using asn by (auto simp: Assignment_Assign_def Let_def split: if_splits)
  from d st(1)[unfolded T] obtain r where r: "r \<in> set ?T" "ae_uuid env (pa_ID a1) = Some (aw_id r)"
      "aw_status r = assignment_status_string (pa_storedStatus a1)" "row_checks (updated_row a1 r)"
      "ag_rows w' = map (\<lambda>q. if aw_id q = aw_id r then updated_row a1 q else q) ?T"
    using st(2) by (cases rule: update_hit) auto
  have same: "aw_id r = aw_id r0" using r(2) env r0(2) a0(1) a1 by (auto simp: asg_env_sound_def uuid_text_def)
  have books: "book_step\<^sup>*\<^sup>* (book_of (ag_rows w1)) (book_of ?T)"
    using meanwhile_good(2) [OF env w1, of w'] T by simp
  have "book_of (ag_rows w1) (aw_id r0) = Some (aw_child r0, aw_created r0, phase_of r0)"
    using r0(1) w1 by (auto simp: table_good_def book_of_Some)
  moreover have "book_of ?T (aw_id r) = Some (aw_child r, aw_created r, phase_of r)"
    using r(1) book_of_Some [OF d] by auto
  ultimately have keep: "aw_child r = aw_child r0" "aw_created r = aw_created r0"
    using book_keeps [OF books] same by fastforce+
  have rc: "row_checks r" "row_checks r0"
    using r(1) TG r0(1) w1 by (auto simp: table_good_def row_good_def)
  have un: "aw_status r = ''unassigned''" using r(3) a0 a1 by simp
  have row0: "asg_row_of (aw_id r0) a0 = r0" using a0(4) by (simp add: loaded_def)
  have "pa_ForcedAt a0 = None \<and> pa_ForcedReason a0 = [] \<and> pa_RevokedAt a0 = None"
    using rc(2) a0(2) arg_cong [OF row0, of aw_forced] arg_cong [OF row0, of aw_reason] arg_cong [OF row0, of aw_revoked]
      arg_cong [OF row0, of aw_status]
    by (auto simp: asg_row_of_def row_checks_def state_check_def forced_check_def nullIfEmpty_def split: if_splits)
  then have f0: "pa_ForcedAt a0 = None" "pa_ForcedReason a0 = []" "pa_RevokedAt a0 = None" by auto
  have "trim_space p \<noteq> []" using st(4) a1 by (auto simp: validate_Ok)
  then have r': "updated_row a1 r = r\<lparr>aw_status := ''assigned'', aw_parent := Some (trim_space p)\<rparr>"
    using un rc(1) a0 a1 f0
    by (auto simp: updated_row_def Let_def AssigningParent_def sql_coalesce_def row_checks_def state_check_def forced_check_def
        nullIfEmpty_def)
  have sc: "scanProductAssignment (updated_row a1 r) = Ok a"
    using st(3,4) r0(3) keep same un rc a0 a1 f0 \<open>trim_space p \<noteq> []\<close>
    unfolding r'
    by (auto simp: scanProductAssignment_def Assignment_SetStatusFromDB_def Let_def Assignment_AcceptStoredStatus_def assignment_status_of_string_def
        validate_Ok validateForced_Ok row_checks_def state_check_def forced_check_def split: if_splits)
  have "ag_rows w' = map (\<lambda>q. if aw_id q = aw_id r then updated_row a1 r else q) ?T"
    unfolding r(5) using r(1) d by (auto simp: distinct_map dest: inj_onD)
  then show ?thesis
    unfolding w_def [symmetric] using r(1) un r' sc r0(2) same by (intro exI [of _ r] exI [of _ "updated_row a1 r"]) simp
qed

section \<open>An instance\<close>

text \<open>A ticket bought without a card and bound later, while another request releases its own ticket.\<close>

definition ticket_id :: string where "ticket_id = ''00000000-0000-4000-8000-000000000001''"
definition other_id :: string where "other_id = ''00000000-0000-4000-8000-000000000002''"

definition other_ticket :: "assignment_status \<Rightarrow> product_assignment" where
  "other_ticket st = \<lparr>pa_ID = other_id, pa_ParentOrderItemID = [], pa_ChildOrderItemID = ''o2/v'', pa_status = st,
     pa_storedStatus = AsgUnassigned, pa_storedParent = [], pa_CreatedAt = 1000,
     pa_RevokedAt = (if st = AsgRevoked then Some 5000 else None), pa_ForcedAt = None, pa_ForcedReason = []\<rparr>"

definition demo_asg_env :: asg_env where
  "demo_asg_env = \<lparr>ae_uuid = (\<lambda>s. if s = ticket_id \<or> s = other_id then Some s else None), ae_faults = (\<lambda>_ _. None),
     ae_others = (\<lambda>n. if n = 2 then [SInsert (other_ticket AsgUnassigned)] else if n = 5 then [SUpdate (other_ticket AsgRevoked)] else []),
     ae_clock = (\<lambda>n. 1000 * (int n + 1)), ae_ids = (\<lambda>_. ticket_id)\<rparr>"

abbreviation demo_asg_world :: asg_world where "demo_asg_world \<equiv> \<lparr>ag_tick = 0, ag_rows = []\<rparr>"

definition ticket_row :: assignment_row where
  "ticket_row = \<lparr>aw_id = ticket_id, aw_parent = None, aw_child = ''o/v'', aw_status = ''unassigned'', aw_created = 3000,
     aw_revoked = None, aw_forced = None, aw_reason = None\<rparr>"

definition other_row :: assignment_row where
  "other_row = \<lparr>aw_id = other_id, aw_parent = None, aw_child = ''o2/v'', aw_status = ''unassigned'', aw_created = 1000,
     aw_revoked = None, aw_forced = None, aw_reason = None\<rparr>"

lemma demo_bought: "asg_calls demo_asg_env [CCreateUnassigned '' o/v''] demo_asg_world = \<lparr>ag_tick = 4, ag_rows = [other_row, ticket_row]\<rparr>"
  by code_simp

lemma demo_asg_env_sound: "asg_env_sound demo_asg_env"
proof -
  have ids: "IsUUID ticket_id" "IsUUID other_id" by code_simp+
  have "stmt_good (SInsert (other_ticket AsgUnassigned))" "stmt_good (SUpdate (other_ticket AsgRevoked))" by code_simp+
  then show ?thesis
    using ids by (auto simp: asg_env_sound_def demo_asg_env_def uuid_text_def micro_def split: if_splits)
qed

lemma demo_asg_world_rows: "ag_rows demo_asg_world = []"
  by simp

theorem assignment_rows_typed_witness:
  "row_checks ticket_row \<and> (\<exists>a. scanProductAssignment ticket_row = Ok a \<and> Assignment_Validate (Some a) = Ok () \<and>
     asg_row_of (aw_id ticket_row) a = ticket_row)"
  by (rule assignment_rows_typed [OF demo_asg_env_sound demo_asg_world_rows, of ticket_row "[CCreateUnassigned '' o/v'']"])
    (simp add: demo_bought)

definition demo_bound_world :: asg_world where
  "demo_bound_world = \<lparr>ag_tick = 6, ag_rows = [other_row\<lparr>aw_status := ''revoked'', aw_revoked := Some 5000\<rparr>,
     ticket_row\<lparr>aw_status := ''assigned'', aw_parent := Some ''p/q''\<rparr>]\<rparr>"

lemma demo_bound: "asg_calls demo_asg_env [CCreateUnassigned '' o/v'', CAssign ticket_id ''p/q''] demo_asg_world = demo_bound_world"
  by code_simp

theorem assignments_refine_book_witness:
  "book_step\<^sup>*\<^sup>* (book_of [other_row, ticket_row]) (book_of (ag_rows demo_bound_world))"
  using assignments_refine_book [OF demo_asg_env_sound demo_asg_world_rows, of "[CCreateUnassigned '' o/v'']" "[CAssign ticket_id ''p/q'']"]
  by (simp add: demo_bought demo_bound)

lemma demo_revoked: "ag_rows (asg_calls demo_asg_env [CCreateUnassigned '' o/v'', CAssign ticket_id ''p/q'', CRevoke ticket_id] demo_asg_world) =
    [other_row\<lparr>aw_status := ''revoked'', aw_revoked := Some 5000\<rparr>,
     ticket_row\<lparr>aw_status := ''revoked'', aw_parent := Some ''p/q'', aw_revoked := Some 8000\<rparr>]"
  by code_simp

theorem assignment_binding_is_final_witness:
  "\<exists>r'. r' \<in> set (ag_rows (asg_calls demo_asg_env [CCreateUnassigned '' o/v'', CAssign ticket_id ''p/q'', CRevoke ticket_id] demo_asg_world)) \<and>
     aw_id r' = ticket_id \<and> aw_parent r' = Some ''p/q''"
  using assignment_binding_is_final [OF demo_asg_env_sound demo_asg_world_rows,
      of "ticket_row\<lparr>aw_status := ''assigned'', aw_parent := Some ''p/q''\<rparr>" "[CCreateUnassigned '' o/v'', CAssign ticket_id ''p/q'']"
        "''p/q''" "ticket_row\<lparr>aw_status := ''assigned'', aw_parent := Some ''p/q''\<rparr>" "[CRevoke ticket_id]"]
  unfolding demo_bound by (auto simp: demo_bound_world_def live_status_def ticket_row_def)

lemma demo_assign: "Service_Assign demo_asg_env ticket_id ''p/q'' (asg_calls demo_asg_env [CCreateUnassigned '' o/v''] demo_asg_world) =
    (Ok \<lparr>pa_ID = ticket_id, pa_ParentOrderItemID = ''p/q'', pa_ChildOrderItemID = ''o/v'', pa_status = AsgAssigned,
         pa_storedStatus = AsgAssigned, pa_storedParent = ''p/q'', pa_CreatedAt = 3000, pa_RevokedAt = None, pa_ForcedAt = None,
         pa_ForcedReason = []\<rparr>, demo_bound_world)"
  by code_simp

theorem assign_is_compare_and_set_witness:
  "\<exists>r. r \<in> set (meanwhile demo_asg_env (asg_calls demo_asg_env [CCreateUnassigned '' o/v''] demo_asg_world) demo_bound_world) \<and>
     aw_status r = ''unassigned'' \<and> ae_uuid demo_asg_env (trim_space ticket_id) = Some (aw_id r)"
  using assign_is_compare_and_set [OF demo_asg_env_sound demo_asg_world_rows demo_assign] by blast

end
