(* ===== verification/AssignmentFlow.thy ===== *)
theory AssignmentFlow
  imports Assignments LeafGates Orders Payments CheckoutOrder
begin

text \<open>
  The assignment flow (\<open>application/assignment/flow.go\<close>): who may bind which ticket to which
  card. Orders, payments, variants, the eligibility rules, open returns, advisory locks and
  transactions are arguments; the rows are those of \<open>Assignments\<close>. A nil flow is \<open>None\<close>.
\<close>

section \<open>Messages\<close>

definition ParentNotEligibleMessage :: string where
  "ParentNotEligibleMessage = ''linked parent is not eligible for this product''"
definition ParentNotOwnedMessage :: string where
  "ParentNotOwnedMessage = ''linked parent instance is not owned by this customer''"
definition ChildNotOwnedMessage :: string where
  "ChildNotOwnedMessage = ''assignment child instance is not owned by this customer''"
definition ParentUnitSignInMessage :: string where
  "ParentUnitSignInMessage = ''sign in to assign this product to an owned instance''"
definition ParentUnitMismatchMessage :: string where
  "ParentUnitMismatchMessage = ''linked parent product does not match the selected instance''"
definition AlreadyAssignedMessage :: string where
  "AlreadyAssignedMessage = ''child already has an active assignment''"
definition ChildUnitInvalidMessage :: string where
  "ChildUnitInvalidMessage = ''assignment child unit id is invalid''"
definition ParentUnitInvalidMessage :: string where
  "ParentUnitInvalidMessage = ''assignment parent unit id is invalid''"
definition ChildUnitMissingMessage :: string where
  "ChildUnitMissingMessage = ''assignment child unit was not found''"
definition ParentUnitMissingMessage :: string where
  "ParentUnitMissingMessage = ''assignment parent unit was not found''"
definition ChildVariantMissingMessage :: string where
  "ChildVariantMissingMessage = ''assignment child catalog variant was not found''"
definition ParentVariantMissingMessage :: string where
  "ParentVariantMissingMessage = ''assignment parent catalog variant was not found''"
definition ChildProductMissingMessage :: string where
  "ChildProductMissingMessage = ''assignment child product was not found''"
definition ChildNotLinkedMessage :: string where
  "ChildNotLinkedMessage = ''assignment child does not require a linked parent''"
definition ChildOrderNotBindableMessage :: string where
  "ChildOrderNotBindableMessage = ''assignment child order is not bindable without force and a reason''"
definition ParentOrderNotBindableMessage :: string where
  "ParentOrderNotBindableMessage = ''assignment parent order is not bindable without force and a reason''"
definition ForceReasonRequiredMessage :: string where
  "ForceReasonRequiredMessage = ''reason is required when force is true''"
definition ForceNotApplicableMessage :: string where
  "ForceNotApplicableMessage = ''force not applicable''"
definition ParentHasAssignedChildrenMessage :: string where
  "ParentHasAssignedChildrenMessage =
     ''cannot return a parent unit that still has assigned children; revoke or return those children first''"

section \<open>The flow and what it uses\<close>

record 'd open_returns =
  or_assert :: "string \<Rightarrow> (unit, 'd) act"
  or_units :: "string list \<Rightarrow> (string list, 'd) act"

text \<open>An optional batch read is an optional field; a nil map it returns is \<open>None\<close>.\<close>

type_synonym ('a, 'd) lookup = "string \<Rightarrow> ('a option, 'd) act"
type_synonym ('a, 'd) lookup_many = "string list \<Rightarrow> ((string \<Rightarrow> 'a option) option, 'd) act"

text \<open>
  \<open>fw_env\<close> are the statements of the repository and \<open>fw_bound\<close> those of the repository bound
  to a transaction, when it is a \<open>repositoryTxBinder\<close>; \<open>fw_writeTx\<close> says that the flow is bound;
  \<open>fw_lock\<close> is \<open>pg_advisory_xact_lock\<close>.
\<close>

record ('w, 'd) assignment_flow =
  fw_env :: asg_env
  fw_bound :: "asg_env option"
  fw_eligible :: "string \<Rightarrow> string \<Rightarrow> (bool, 'd) act"
  fw_order :: "(order, 'd) lookup"
  fw_orders_of :: "string \<Rightarrow> (order list, 'd) act"
  fw_orders :: "(order, 'd) lookup_many option"
  fw_variant :: "('w variant, 'd) lookup"
  fw_variants :: "('w variant, 'd) lookup_many option"
  fw_payment :: "(payment, 'd) lookup"
  fw_payments :: "(payment, 'd) lookup_many option"
  fw_products :: "product_repo option"
  fw_components :: "component_repo option"
  fw_openReturns :: "'d open_returns option"
  fw_tx :: "'d tx_beginner option"
  fw_writeTx :: bool
  fw_lock :: "string \<Rightarrow> (unit, 'd) act"

text \<open>
  The service and the repository come apart: \<open>assignments\<close> are the statements of the service's
  repository, \<open>repo\<close> is the repository the flow may bind. A nil argument is \<open>None\<close>.
\<close>

definition NewFlow ::
    "asg_env option \<Rightarrow> asg_env option option \<Rightarrow> (string \<Rightarrow> string \<Rightarrow> (bool, 'd) act) option \<Rightarrow>
     ((order, 'd) lookup \<times> (string \<Rightarrow> (order list, 'd) act) \<times> (order, 'd) lookup_many option) option \<Rightarrow>
     (('w variant, 'd) lookup \<times> ('w variant, 'd) lookup_many option) option \<Rightarrow>
     ((payment, 'd) lookup \<times> (payment, 'd) lookup_many option) option \<Rightarrow> (string \<Rightarrow> (unit, 'd) act) \<Rightarrow>
     ('w, 'd) assignment_flow outcome" where
  "NewFlow assignments repo eligibility orders variants payments lock =
     (case assignments of None \<Rightarrow> Panics ''assignment.NewFlow: nil assignments service''
      | Some env \<Rightarrow> case repo of None \<Rightarrow> Panics ''assignment.NewFlow: nil assignments repository''
      | Some bound \<Rightarrow> case eligibility of None \<Rightarrow> Panics ''assignment.NewFlow: nil eligibility''
      | Some eligible \<Rightarrow> case orders of None \<Rightarrow> Panics ''assignment.NewFlow: nil orders''
      | Some (order1, orders_of, order_many) \<Rightarrow> case variants of None \<Rightarrow> Panics ''assignment.NewFlow: nil variants''
      | Some (variant1, variant_many) \<Rightarrow> case payments of None \<Rightarrow> Panics ''assignment.NewFlow: nil payments''
      | Some (payment1, payment_many) \<Rightarrow>
          Ok \<lparr>fw_env = env, fw_bound = bound, fw_eligible = eligible, fw_order = order1, fw_orders_of = orders_of,
              fw_orders = order_many, fw_variant = variant1, fw_variants = variant_many, fw_payment = payment1,
              fw_payments = payment_many, fw_products = None, fw_components = None, fw_openReturns = None, fw_tx = None,
              fw_writeTx = False, fw_lock = lock\<rparr>)"

definition WithLinkedLeaves ::
    "product_repo option \<Rightarrow> component_repo option \<Rightarrow> ('w, 'd) assignment_flow option \<Rightarrow> ('w, 'd) assignment_flow option" where
  "WithLinkedLeaves products components f0 = map_option (\<lambda>f. f\<lparr>fw_products := products, fw_components := components\<rparr>) f0"

definition WithOpenReturnChecker ::
    "'d open_returns option \<Rightarrow> ('w, 'd) assignment_flow option \<Rightarrow> ('w, 'd) assignment_flow option" where
  "WithOpenReturnChecker checker f0 = map_option (\<lambda>f. f\<lparr>fw_openReturns := checker\<rparr>) f0"

definition WithTxStarter ::
    "'d tx_beginner option \<Rightarrow> ('w, 'd) assignment_flow option \<Rightarrow> ('w, 'd) assignment_flow option" where
  "WithTxStarter starter f0 = map_option (\<lambda>f. f\<lparr>fw_tx := starter\<rparr>) f0"

definition Flow_WithTx :: "bool \<Rightarrow> ('w, 'd) assignment_flow option \<Rightarrow> ('w, 'd) assignment_flow option" where
  "Flow_WithTx haveTx f0 =
     (case f0 of
        None \<Rightarrow> None
      | Some f \<Rightarrow>
          if \<not> haveTx then Some f
          else case fw_bound f of
                 None \<Rightarrow> Some f
               | Some bound \<Rightarrow> Some (f\<lparr>fw_env := bound, fw_writeTx := True\<rparr>))"

definition BindsTx :: "('w, 'd) assignment_flow option \<Rightarrow> bool" where
  "BindsTx f0 \<longleftrightarrow> (case f0 of None \<Rightarrow> False | Some f \<Rightarrow> fw_bound f \<noteq> None)"

definition configured :: "('w, 'd) assignment_flow option \<Rightarrow> (('w, 'd) assignment_flow \<Rightarrow> ('a, 'd) act) \<Rightarrow> ('a, 'd) act" where
  "configured f0 k = (case f0 of None \<Rightarrow> raise (Err ''assignment flow: not configured'') | Some f \<Rightarrow> k f)"

section \<open>Units in order\<close>

text \<open>The trimmed, normalised ids, each once, in the order of their first occurrence.\<close>

fun each_once :: "(string \<Rightarrow> string) \<Rightarrow> string list \<Rightarrow> string list \<Rightarrow> string list" where
  "each_once norm seen [] = []"
| "each_once norm seen (x # xs) =
     (let u = trim_space x in
      if u = [] then each_once norm seen xs
      else if norm u \<in> set seen then each_once norm seen xs
      else norm u # each_once norm (norm u # seen) xs)"

definition canonical_or_same :: "string \<Rightarrow> string" where
  "canonical_or_same u = (case CanonicalUnitID u of None \<Rightarrow> u | Some c \<Rightarrow> c)"

definition uniqueNonEmpty :: "string list \<Rightarrow> string list" where
  "uniqueNonEmpty ids = each_once (\<lambda>u. u) [] ids"

definition assignmentUnitLockPrefix :: string where "assignmentUnitLockPrefix = ''assignment:unit:''"

definition lock_keys :: "string list \<Rightarrow> string list" where
  "lock_keys unitIDs = sort (map (\<lambda>u. assignmentUnitLockPrefix @ u) (each_once canonical_or_same [] unitIDs))"

definition LockAssignmentUnits :: "(string \<Rightarrow> (unit, 'd) act) option \<Rightarrow> string list \<Rightarrow> (unit, 'd) act" where
  "LockAssignmentUnits tx unitIDs =
     (case tx of
        None \<Rightarrow> ret ()
      | Some lock \<Rightarrow> forW (\<lambda>key. wrapW (Wrap ''assignment flow: unit lock'') (lock key)) (lock_keys unitIDs))"

definition assertUnitsNotOnOpenReturn :: "('w, 'd) assignment_flow option \<Rightarrow> string list \<Rightarrow> (unit, 'd) act" where
  "assertUnitsNotOnOpenReturn f0 unitIDs =
     (case f0 of
        None \<Rightarrow> ret ()
      | Some f \<Rightarrow>
          case fw_openReturns f of
            None \<Rightarrow> ret ()
          | Some checker \<Rightarrow> forW (or_assert checker) (each_once canonical_or_same [] unitIDs))"

definition unitsOnBlockingReturn :: "('w, 'd) assignment_flow \<Rightarrow> string list \<Rightarrow> (string list, 'd) act" where
  "unitsOnBlockingReturn f unitIDs = (case fw_openReturns f of None \<Rightarrow> ret [] | Some checker \<Rightarrow> or_units checker unitIDs)"

section \<open>Lookups\<close>

fun find_each :: "(string \<Rightarrow> string) \<Rightarrow> ('a, 'd) lookup \<Rightarrow> (gerror \<Rightarrow> bool) \<Rightarrow> string list \<Rightarrow> (string \<Rightarrow> 'a option, 'd) act" where
  "find_each label look skip [] = ret (\<lambda>_. None)"
| "find_each label look skip (x # xs) =
     tryW (look x)
       (\<lambda>found. bindW (find_each label look skip xs) (\<lambda>m. ret (if found = None then m else m(x := found))))
       (\<lambda>e. if skip e then find_each label look skip xs else raise (Wrap (label x) e))"

definition lookupOrders :: "('w, 'd) assignment_flow \<Rightarrow> string list \<Rightarrow> (string \<Rightarrow> order option, 'd) act" where
  "lookupOrders f ids =
     (let unique = uniqueNonEmpty ids; batchIDs = filter IsUUID unique;
          invalid = (\<lambda>e. app_code_of e = Some Validation);
          one_by_one = find_each (\<lambda>_. ''assignment flow: lookup order'') (fw_order f) invalid unique in
      if unique = [] then ret (\<lambda>_. None)
      else case fw_orders f of
             None \<Rightarrow> one_by_one
           | Some batch \<Rightarrow>
               if batchIDs = [] then one_by_one
               else tryW (batch batchIDs)
                 (\<lambda>found. ret (case found of None \<Rightarrow> (\<lambda>_. None) | Some m \<Rightarrow> m))
                 (\<lambda>e. if invalid e then one_by_one else raise (Wrap ''assignment flow: lookup orders'' e)))"

definition lookup_batch ::
    "string \<Rightarrow> ('a, 'd) lookup \<Rightarrow> ('a, 'd) lookup_many option \<Rightarrow> string list \<Rightarrow> (string \<Rightarrow> 'a option, 'd) act" where
  "lookup_batch what look many ids =
     (let unique = uniqueNonEmpty ids in
      if unique = [] then ret (\<lambda>_. None)
      else case many of
             Some batch \<Rightarrow>
               bindW (wrapW (Wrap (''assignment flow: lookup '' @ what @ ''s'')) (batch unique)) (\<lambda>found.
               ret (case found of None \<Rightarrow> (\<lambda>_. None) | Some m \<Rightarrow> m))
           | None \<Rightarrow> find_each (\<lambda>x. ''assignment flow: lookup '' @ what @ '' '' @ x) look (\<lambda>_. False) unique)"

definition lookupPayments :: "('w, 'd) assignment_flow \<Rightarrow> string list \<Rightarrow> (string \<Rightarrow> payment option, 'd) act" where
  "lookupPayments f ids = lookup_batch ''payment'' (fw_payment f) (fw_payments f) ids"

definition lookupVariants :: "('w, 'd) assignment_flow \<Rightarrow> string list \<Rightarrow> (string \<Rightarrow> 'w variant option, 'd) act" where
  "lookupVariants f ids = lookup_batch ''variant'' (fw_variant f) (fw_variants f) ids"

section \<open>Ownership\<close>

definition dead_order :: "order \<Rightarrow> bool" where
  "dead_order o1 \<longleftrightarrow> o_status o1 = OrderStatusCancelled \<or> o_status o1 = OrderStatusFailed"

definition orderOwnedWithPayment :: "order option \<Rightarrow> payment option \<Rightarrow> bool outcome" where
  "orderOwnedWithPayment o0 py =
     (case o0 of
        None \<Rightarrow> Ok False
      | Some o1 \<Rightarrow>
          if dead_order o1 then Ok False
          else case py of
                 Some p \<Rightarrow> Ok (p_status p = PayCompleted)
               | None \<Rightarrow> bindO (mapErr (Wrap ''assignment flow: payable amount'') (PayableAmount o1)) (\<lambda>m. Ok (m_amount m = 0)))"

definition orderUnitOwned :: "('w, 'd) assignment_flow \<Rightarrow> order option \<Rightarrow> (bool, 'd) act" where
  "orderUnitOwned f o0 =
     (case o0 of
        None \<Rightarrow> ret False
      | Some o1 \<Rightarrow>
          if dead_order o1 then ret False
          else bindW (lookupPayments f [o_ID o1]) (\<lambda>byPayment. lift (orderOwnedWithPayment (Some o1) (byPayment (o_ID o1)))))"

record owned_unit =
  ou_OrderID :: string
  ou_VariantID :: string
  ou_ProductID :: string

definition on_order :: "order \<Rightarrow> string \<Rightarrow> bool" where
  "on_order o1 variantID \<longleftrightarrow> list_ex (\<lambda>i. oi_VariantID i = variantID) (o_items o1)"

text \<open>The error of a read: a validation error is the caller's message, any other is wrapped.\<close>

definition or_refuse :: "string \<Rightarrow> string \<Rightarrow> gerror \<Rightarrow> gerror" where
  "or_refuse msg label e = (if app_code_of e = Some Validation then AppErr Validation msg else Wrap label e)"

definition unit_product :: "('w, 'd) assignment_flow \<Rightarrow> string \<Rightarrow> string \<Rightarrow> (string, 'd) act" where
  "unit_product f variantID missing =
     bindW (wrapW (or_refuse missing ''assignment flow: lookup variant'') (fw_variant f variantID)) (\<lambda>v0.
     case v0 of
       None \<Rightarrow> raise (AppErr Validation missing)
     | Some v \<Rightarrow> if trim_space (v_ProductID v) = [] then raise (AppErr Validation missing) else ret (v_ProductID v))"

definition requireOwnedUnit :: "('w, 'd) assignment_flow \<Rightarrow> string \<Rightarrow> string \<Rightarrow> string \<Rightarrow> (owned_unit, 'd) act" where
  "requireOwnedUnit f customerID unitID notOwned =
     (let refuse = raise (AppErr Validation notOwned) in
      case CanonicalUnitID unitID of
        None \<Rightarrow> refuse
      | Some unit \<Rightarrow> case SplitUnitID unit of
          None \<Rightarrow> refuse
        | Some (orderID, variantID) \<Rightarrow>
            if trim_space customerID = [] then raise (AppErr Validation ParentUnitSignInMessage)
            else bindW (wrapW (or_refuse notOwned ''assignment flow: lookup order'') (fw_order f orderID)) (\<lambda>o0.
              case o0 of
                None \<Rightarrow> refuse
              | Some o1 \<Rightarrow>
                  if trim_space (o_CustomerID o1) \<noteq> customerID then refuse
                  else bindW (orderUnitOwned f o0) (\<lambda>owned.
                    if \<not> owned then refuse
                    else if \<not> on_order o1 variantID then refuse
                    else bindW (unit_product f variantID notOwned) (\<lambda>pid.
                      ret \<lparr>ou_OrderID = orderID, ou_VariantID = variantID, ou_ProductID = pid\<rparr>))))"

definition resolveParentProduct :: "('w, 'd) assignment_flow \<Rightarrow> string \<Rightarrow> assignment_context \<Rightarrow> (string, 'd) act" where
  "resolveParentProduct f customerID ac =
     (if ac_ParentUnitID ac = [] then ret (ac_ParentProductID ac)
      else if customerID = [] then raise (AppErr Validation ParentUnitSignInMessage)
      else bindW (requireOwnedUnit f customerID (ac_ParentUnitID ac) ParentNotOwnedMessage) (\<lambda>owned.
        if ac_ParentProductID ac \<noteq> [] \<and> ac_ParentProductID ac \<noteq> ou_ProductID owned
        then raise (AppErr Validation ParentUnitMismatchMessage) else ret (ou_ProductID owned)))"

section \<open>Eligibility\<close>

text \<open>\<open>IsEligible\<close>; a validation error is passed on as it is.\<close>

definition eligible_pair :: "('w, 'd) assignment_flow \<Rightarrow> string \<Rightarrow> string \<Rightarrow> (bool, 'd) act" where
  "eligible_pair f childID parentID =
     wrapW (\<lambda>e. if app_code_of e = Some Validation then e else Wrap ''assignment flow: eligibility'' e) (fw_eligible f childID parentID)"

definition CheckPurchase ::
    "('w, 'd) assignment_flow option \<Rightarrow> string \<Rightarrow> string \<Rightarrow> assignment_context \<Rightarrow> (unit, 'd) act" where
  "CheckPurchase f0 customerID childProductID0 ac0 =
     configured f0 (\<lambda>f.
       let childProductID = trim_space childProductID0;
           ac = ac0\<lparr>ac_ParentProductID := trim_space (ac_ParentProductID ac0), ac_ParentUnitID := trim_space (ac_ParentUnitID ac0)\<rparr> in
       if childProductID = [] then raise (AppErr Validation ''child product id must not be empty'')
       else if ac_ParentProductID ac = [] \<and> ac_ParentUnitID ac = [] then ret ()
       else bindW (resolveParentProduct f (trim_space customerID) ac) (\<lambda>parentProductID.
            bindW (eligible_pair f childProductID parentProductID) (\<lambda>ok.
            if \<not> ok then raise (AppErr Validation ParentNotEligibleMessage)
            else if ac_ParentUnitID ac \<noteq> [] then assertUnitsNotOnOpenReturn f0 [ac_ParentUnitID ac] else ret ())))"

definition CheckPurchaseAll ::
    "('w, 'd) assignment_flow option \<Rightarrow> string \<Rightarrow> string list \<Rightarrow> assignment_context \<Rightarrow> (unit, 'd) act" where
  "CheckPurchaseAll f0 customerID childProductIDs ac =
     forW (\<lambda>x. CheckPurchase f0 customerID x ac) (uniqueNonEmpty childProductIDs)"

definition eligibilityIDs :: "purchase_line \<Rightarrow> string list" where
  "eligibilityIDs line =
     (if pl_EligibleProductIDs line \<noteq> [] then pl_EligibleProductIDs line
      else if trim_space (pl_ChildProductID line) = [] then [] else [pl_ChildProductID line])"

definition childEligibilityIDs :: "('w, 'd) assignment_flow \<Rightarrow> req_ctx \<Rightarrow> string \<Rightarrow> (string list, 'd) act" where
  "childEligibilityIDs f ctx productID0 =
     (let productID = trim_space productID0 in
      if productID = [] then ret []
      else case fw_products f of
             None \<Rightarrow> ret [productID]
           | Some products \<Rightarrow>
               bindW (lift (mapErr (Wrap ''assignment flow: lookup product'') (of_res (pq_find products ctx productID)))) (\<lambda>p0.
               if p0 = None then ret [productID]
               else bindW (lift (LinkedParentChildProductIDs ctx (fw_products f) (fw_components f) p0)) (\<lambda>ids.
                    ret (if ids = [] then [productID] else ids))))"

fun parent_eligible :: "('w, 'd) assignment_flow \<Rightarrow> bool \<Rightarrow> string \<Rightarrow> string list \<Rightarrow> (bool, 'd) act" where
  "parent_eligible f checked parentID [] = ret checked"
| "parent_eligible f checked parentID (x # xs) =
     (if trim_space x = [] then parent_eligible f checked parentID xs
      else bindW (eligible_pair f (trim_space x) parentID) (\<lambda>ok.
           if \<not> ok then ret False else parent_eligible f True parentID xs))"

definition parentEligibleForLeaves :: "('w, 'd) assignment_flow \<Rightarrow> string list \<Rightarrow> string \<Rightarrow> (bool, 'd) act" where
  "parentEligibleForLeaves f leafIDs parentProductID = parent_eligible f False parentProductID leafIDs"

definition requireChildLinkedParent :: "('w, 'd) assignment_flow \<Rightarrow> req_ctx \<Rightarrow> string \<Rightarrow> (unit, 'd) act" where
  "requireChildLinkedParent f ctx productID =
     (case fw_products f of
        None \<Rightarrow> raise (AppErr Validation ChildProductMissingMessage)
      | Some products \<Rightarrow>
          bindW (lift (mapErr (or_refuse ChildProductMissingMessage ''assignment flow: lookup product'')
                   (of_res (pq_find products ctx productID)))) (\<lambda>p0.
          case p0 of
            None \<Rightarrow> raise (AppErr Validation ChildProductMissingMessage)
          | Some p \<Rightarrow>
              if pd_RequiresLinkedParent p then ret ()
              else bindW (lift (LinkedParentChildProductIDs ctx (fw_products f) (fw_components f) p0)) (\<lambda>ids.
                   if ids = [] then raise (AppErr Validation ChildNotLinkedMessage) else ret ())))"

section \<open>Writing under the locks\<close>

text \<open>\<open>tx\<close> is the transaction of the write, if there is one; its locks are released when it ends.\<close>

definition execute_write ::
    "('w, 'd) assignment_flow \<Rightarrow> bool \<Rightarrow> string list \<Rightarrow> (('w, 'd) assignment_flow \<Rightarrow> ('a, 'd) act) \<Rightarrow> ('a, 'd) act" where
  "execute_write bound haveTx unitIDs write =
     bindW (LockAssignmentUnits (if haveTx then Some (fw_lock bound) else None) unitIDs) (\<lambda>_.
     bindW (assertUnitsNotOnOpenReturn (Some bound) unitIDs) (\<lambda>_. write bound))"

text \<open>The deferred \<open>tx.Rollback()\<close>.\<close>

definition with_rollback :: "'d tx_beginner \<Rightarrow> ('a, 'd) act \<Rightarrow> ('a, 'd) act" where
  "with_rollback tx body s =
     (case body s of
        (Ok x, s') \<Rightarrow> (Ok x, s')
      | (r, s') \<Rightarrow> (r, tx_rollback tx s s'))"

definition runAssignedWrite ::
    "('w, 'd) assignment_flow \<Rightarrow> string list \<Rightarrow> (('w, 'd) assignment_flow \<Rightarrow> ('a, 'd) act) \<Rightarrow> ('a, 'd) act" where
  "runAssignedWrite f unitIDs write =
     (if fw_writeTx f then execute_write f True unitIDs write
      else case (fw_tx f, Flow_WithTx True (Some f)) of
        (Some tx, Some bound) \<Rightarrow>
          if BindsTx (Some f)
          then bindW (wrapW (Wrap ''assignment flow: begin tx'') (tx_begin tx)) (\<lambda>_.
               bindW (with_rollback tx (execute_write bound True unitIDs write)) (\<lambda>saved.
               bindW (wrapW (Wrap ''assignment flow: commit'') (tx_commit tx)) (\<lambda>_. ret saved)))
          else bindW (assertUnitsNotOnOpenReturn (Some f) unitIDs) (\<lambda>_. write f)
      | _ \<Rightarrow> bindW (assertUnitsNotOnOpenReturn (Some f) unitIDs) (\<lambda>_. write f))"

text \<open>The bound units of \<open>RecordPurchase\<close>: parent and child, and the children without a parent.\<close>

fun purchase_units ::
    "('w, 'd) assignment_flow \<Rightarrow> string \<Rightarrow> string \<Rightarrow> purchase_line list \<Rightarrow> ((string \<times> string) list \<times> string list, 'd) act" where
  "purchase_units f customerID orderID [] = ret ([], [])"
| "purchase_units f customerID orderID (line # ls) =
     (let childUnit = UnitID orderID (trim_space (pl_ChildVariantID line)) in
      if childUnit = [] then raise (AppErr Validation ''child variant id must not be empty'')
      else bindW (CheckPurchaseAll (Some f) customerID (eligibilityIDs line) (pl_Assignment line)) (\<lambda>_.
        let parentUnit = trim_space (ac_ParentUnitID (pl_Assignment line)) in
        if parentUnit = []
        then bindW (purchase_units f customerID orderID ls) (\<lambda>(assigned, unassigned). ret (assigned, childUnit # unassigned))
        else case CanonicalUnitID parentUnit of
          None \<Rightarrow> raise (AppErr Validation ParentNotOwnedMessage)
        | Some parent \<Rightarrow>
            bindW (assertUnitsNotOnOpenReturn (Some f) [parent, childUnit]) (\<lambda>_.
            bindW (purchase_units f customerID orderID ls) (\<lambda>(assigned, unassigned).
            ret ((parent, childUnit) # assigned, unassigned)))))"

fun assignedPurchaseLockUnitIDs :: "(string \<times> string) list \<Rightarrow> string list" where
  "assignedPurchaseLockUnitIDs [] = []"
| "assignedPurchaseLockUnitIDs ((p, c) # ps) =
     (if p \<noteq> [] then [p] else []) @ (if c \<noteq> [] then [c] else []) @ assignedPurchaseLockUnitIDs ps"

definition write_lines ::
    "(string \<times> string) list \<Rightarrow> string list \<Rightarrow> ('w, 'r asg_world_scheme) assignment_flow \<Rightarrow> (unit, 'r asg_world_scheme) act" where
  "write_lines assigned unassigned bound =
     bindW (forW (\<lambda>(p, c). bindW (CreateAssigned (fw_env bound) p c) (\<lambda>_. ret ())) assigned) (\<lambda>_.
     forW (\<lambda>c. bindW (CreateUnassigned (fw_env bound) c) (\<lambda>_. ret ())) unassigned)"

definition RecordPurchase ::
    "('w, 'r asg_world_scheme) assignment_flow option \<Rightarrow> string \<Rightarrow> string \<Rightarrow> purchase_line list \<Rightarrow> (unit, 'r asg_world_scheme) act" where
  "RecordPurchase f0 customerID orderID0 lines =
     configured f0 (\<lambda>f.
       let orderID = trim_space orderID0 in
       if orderID = [] then raise (AppErr Validation ''order id must not be empty'')
       else bindW (purchase_units f (trim_space customerID) orderID lines) (\<lambda>(assigned, unassigned).
         if assigned = [] then write_lines assigned unassigned f
         else runAssignedWrite f (assignedPurchaseLockUnitIDs assigned) (write_lines assigned unassigned)))"

section \<open>Revoking\<close>

definition RevokeForUnit ::
    "('w, 'r asg_world_scheme) assignment_flow option \<Rightarrow> string \<Rightarrow> string \<Rightarrow> (product_assignment option, 'r asg_world_scheme) act" where
  "RevokeForUnit f0 childUnitID reason =
     configured f0 (\<lambda>f.
       bindW (CurrentByChild (fw_env f) childUnitID) (\<lambda>current.
       case current of
         None \<Rightarrow> ret None
       | Some a \<Rightarrow> bindW (Service_Revoke (fw_env f) (pa_ID a)) (\<lambda>(revoked, _). ret (Some revoked))))"

definition RevokeForOrder ::
    "('w, 'r asg_world_scheme) assignment_flow option \<Rightarrow> string \<Rightarrow> (unit, 'r asg_world_scheme) act" where
  "RevokeForOrder f0 orderID0 =
     configured f0 (\<lambda>f.
       let orderID = trim_space orderID0 in
       if orderID = [] then raise (AppErr Validation ''order id must not be empty'')
       else bindW (wrapW (Wrap ''assignment flow: lookup order'') (fw_order f orderID)) (\<lambda>o0.
         case o0 of
           None \<Rightarrow> ret ()
         | Some o1 \<Rightarrow>
             forW (\<lambda>i. bindW (RevokeForUnit f0 (UnitID orderID (oi_VariantID i)) []) (\<lambda>_. ret ())) (o_items o1)))"

section \<open>Returning a card\<close>

text \<open>The children of a page that are neither skipped nor listed yet, after those listed.\<close>

fun blocking_rows :: "string list \<Rightarrow> string list \<Rightarrow> product_assignment list \<Rightarrow> string list" where
  "blocking_rows skip blocking [] = blocking"
| "blocking_rows skip blocking (r # rs) =
     (let child = canonical_or_same (pa_ChildOrderItemID r) in
      blocking_rows skip (if child \<in> set skip \<or> child \<in> set blocking then blocking else blocking @ [child]) rs)"

text \<open>\<open>None\<close>: there are more pages than \<open>n\<close>.\<close>

fun blocking_pages ::
    "nat \<Rightarrow> asg_env \<Rightarrow> string \<Rightarrow> string list \<Rightarrow> string list \<Rightarrow> int64 \<Rightarrow> (string list option, 'r asg_world_scheme) act" where
  "blocking_pages 0 env parentID skip blocking offset = ret None"
| "blocking_pages (Suc n) env parentID skip blocking offset =
     bindW (ListByParent env parentID \<lparr>pp_Status = ''assigned'', pp_Limit = ParentListMaxLimit, pp_Offset = offset\<rparr>) (\<lambda>(rows, hasMore).
     let blocking' = blocking_rows skip blocking rows in
     if \<not> hasMore \<or> rows = [] then ret (Some blocking')
     else blocking_pages n env parentID skip blocking' (offset + of_nat (length rows)))"

fun join_with :: "string \<Rightarrow> string list \<Rightarrow> string" where
  "join_with sep [] = []"
| "join_with sep [x] = x"
| "join_with sep (x # xs) = x @ sep @ join_with sep xs"

definition skip_units :: "string list \<Rightarrow> string list" where
  "skip_units ids = map canonical_or_same (filter (\<lambda>u. u \<noteq> []) (map trim_space ids))"

definition AssertParentReturnable ::
    "nat \<Rightarrow> ('w, 'r asg_world_scheme) assignment_flow option \<Rightarrow> string \<Rightarrow> string list \<Rightarrow> (unit option, 'r asg_world_scheme) act" where
  "AssertParentReturnable n f0 parentUnitID skipChildUnitIDs =
     configured f0 (\<lambda>f.
       bindW (blocking_pages n (fw_env f) parentUnitID (skip_units skipChildUnitIDs) [] 0) (\<lambda>found.
       case found of
         None \<Rightarrow> ret None
       | Some blocking \<Rightarrow>
           if blocking = [] then ret (Some ())
           else raise (AppErr Validation (ParentHasAssignedChildrenMessage @ '' (required: '' @ join_with '', '' blocking @ '')''))))"

section \<open>Binding\<close>

definition AssignOwned ::
    "('w, 'r asg_world_scheme) assignment_flow option \<Rightarrow> req_ctx \<Rightarrow> string \<Rightarrow> string \<Rightarrow> string \<Rightarrow>
     (product_assignment, 'r asg_world_scheme) act" where
  "AssignOwned f0 ctx customerID0 childUnitID parentUnitID =
     configured f0 (\<lambda>f.
       let customerID = trim_space customerID0 in
       if customerID = [] then raise (AppErr Validation ParentUnitSignInMessage)
       else case CanonicalUnitID childUnitID of
         None \<Rightarrow> raise (AppErr Validation ChildNotOwnedMessage)
       | Some childUnit \<Rightarrow> case CanonicalUnitID parentUnitID of
         None \<Rightarrow> raise (AppErr Validation ParentNotOwnedMessage)
       | Some parentUnit \<Rightarrow>
           bindW (requireOwnedUnit f customerID childUnit ChildNotOwnedMessage) (\<lambda>child.
           bindW (requireOwnedUnit f customerID parentUnit ParentNotOwnedMessage) (\<lambda>_.
           bindW (assertUnitsNotOnOpenReturn f0 [childUnit, parentUnit]) (\<lambda>_.
           bindW (childEligibilityIDs f ctx (ou_ProductID child)) (\<lambda>ids.
           bindW (CheckPurchaseAll f0 customerID ids (assignment_context_zero\<lparr>ac_ParentUnitID := parentUnit\<rparr>)) (\<lambda>_.
           bindW (CurrentByChild (fw_env f) childUnit) (\<lambda>current.
           if Assignment_Status current = AsgAssigned then raise (AppErr Conflict AlreadyAssignedMessage)
           else
             let currentID = (case current of None \<Rightarrow> [] | Some a \<Rightarrow> pa_ID a) in
             runAssignedWrite f [childUnit, parentUnit] (\<lambda>bound.
               if currentID \<noteq> [] then Service_Assign (fw_env bound) currentID parentUnit
               else CreateAssigned (fw_env bound) parentUnit childUnit))))))))"

record admin_assign_request =
  aq_ChildUnitID :: string
  aq_ParentUnitID :: string
  aq_Force :: bool
  aq_Reason :: string

record unit_facts =
  uf_CustomerID :: string
  uf_OrderStatus :: string
  uf_PaymentStatus :: string

record admin_assign_result =
  ar_Assignment :: product_assignment
  ar_Created :: bool
  ar_Reason :: string
  ar_Child :: unit_facts
  ar_Parent :: unit_facts

record order_bind_facts =
  bf_Facts :: unit_facts
  bf_Bindable :: bool

definition resolveAdminUnit :: "('w, 'd) assignment_flow \<Rightarrow> string \<Rightarrow> string \<Rightarrow> string \<Rightarrow> (order \<times> string, 'd) act" where
  "resolveAdminUnit f unitID missingUnit missingVariant =
     (case SplitUnitID unitID of
        None \<Rightarrow> raise (AppErr Validation missingUnit)
      | Some (orderID, variantID) \<Rightarrow>
          bindW (wrapW (or_refuse missingUnit ''assignment flow: lookup order'') (fw_order f orderID)) (\<lambda>o0.
          case o0 of
            None \<Rightarrow> raise (AppErr Validation missingUnit)
          | Some o1 \<Rightarrow>
              if \<not> on_order o1 variantID then raise (AppErr Validation missingUnit)
              else bindW (unit_product f variantID missingVariant) (\<lambda>pid. ret (o1, pid))))"

fun payment_status_string :: "payment_status \<Rightarrow> string" where
  "payment_status_string PayPending = ''pending''"
| "payment_status_string PayCompleted = ''completed''"
| "payment_status_string PayFailed = ''failed''"
| "payment_status_string PayRefunded = ''refunded''"
| "payment_status_string (PayStatusOther s) = s"

definition facts_of :: "order \<Rightarrow> payment option \<Rightarrow> unit_facts" where
  "facts_of o1 py =
     \<lparr>uf_CustomerID = trim_space (o_CustomerID o1), uf_OrderStatus = order_status_string (o_status o1),
      uf_PaymentStatus = (case py of None \<Rightarrow> [] | Some p \<Rightarrow> payment_status_string (p_status p))\<rparr>"

definition unitOrderFacts :: "('w, 'd) assignment_flow \<Rightarrow> order \<Rightarrow> (order_bind_facts, 'd) act" where
  "unitOrderFacts f o1 =
     bindW (lookupPayments f [o_ID o1]) (\<lambda>byPayment.
     bindW (lift (orderOwnedWithPayment (Some o1) (byPayment (o_ID o1)))) (\<lambda>ok.
     ret \<lparr>bf_Facts = facts_of o1 (byPayment (o_ID o1)), bf_Bindable = ok\<rparr>))"

definition refuseUnbindable :: "order_bind_facts \<Rightarrow> bool \<Rightarrow> string \<Rightarrow> unit outcome" where
  "refuseUnbindable facts force msg =
     (if bf_Bindable facts \<or> force then Ok ()
      else Fail (AppErr Validation (msg @ '' (order_status='' @ uf_OrderStatus (bf_Facts facts) @ '', payment_status='' @
             uf_PaymentStatus (bf_Facts facts) @ '')'')))"

text \<open>The write of \<open>AdminAssign\<close>, by what the child's current row is and whether it is forced.\<close>

definition admin_write ::
    "string \<Rightarrow> bool \<Rightarrow> string \<Rightarrow> string \<Rightarrow> string \<Rightarrow> ('w, 'r asg_world_scheme) assignment_flow \<Rightarrow>
     (product_assignment, 'r asg_world_scheme) act" where
  "admin_write currentID needsForce reason childUnit parentUnit bound =
     (if currentID \<noteq> []
      then if needsForce then AssignForced (fw_env bound) currentID parentUnit reason
           else Service_Assign (fw_env bound) currentID parentUnit
      else if needsForce then CreateAssignedForced (fw_env bound) parentUnit childUnit reason
           else CreateAssigned (fw_env bound) parentUnit childUnit)"

definition AdminAssign ::
    "('w, 'r asg_world_scheme) assignment_flow option \<Rightarrow> req_ctx \<Rightarrow> admin_assign_request \<Rightarrow>
     (admin_assign_result, 'r asg_world_scheme) act" where
  "AdminAssign f0 ctx req =
     configured f0 (\<lambda>f.
       let reason = trim_space (aq_Reason req); force = aq_Force req in
       if force \<and> reason = [] then raise (AppErr Validation ForceReasonRequiredMessage)
       else if force \<and> MaxForcedReasonLen < rune_count reason then raise (AppErr Validation ForcedReasonTooLongMessage)
       else case CanonicalUnitID (aq_ChildUnitID req) of
         None \<Rightarrow> raise (AppErr Validation ChildUnitInvalidMessage)
       | Some childUnit \<Rightarrow> case CanonicalUnitID (aq_ParentUnitID req) of
         None \<Rightarrow> raise (AppErr Validation ParentUnitInvalidMessage)
       | Some parentUnit \<Rightarrow>
           bindW (resolveAdminUnit f childUnit ChildUnitMissingMessage ChildVariantMissingMessage) (\<lambda>(childOrder, childProduct).
           bindW (resolveAdminUnit f parentUnit ParentUnitMissingMessage ParentVariantMissingMessage) (\<lambda>(parentOrder, parentProduct).
           bindW (assertUnitsNotOnOpenReturn f0 [childUnit, parentUnit]) (\<lambda>_.
           bindW (unitOrderFacts f childOrder) (\<lambda>childFacts.
           bindW (unitOrderFacts f parentOrder) (\<lambda>parentFacts.
           bindW (lift (refuseUnbindable childFacts force ChildOrderNotBindableMessage)) (\<lambda>_.
           bindW (lift (refuseUnbindable parentFacts force ParentOrderNotBindableMessage)) (\<lambda>_.
           let needsForce = (\<not> bf_Bindable childFacts \<or> \<not> bf_Bindable parentFacts) in
           if force \<and> \<not> needsForce then raise (AppErr Validation ForceNotApplicableMessage)
           else
             bindW (CurrentByChild (fw_env f) childUnit) (\<lambda>current.
             if Assignment_Status current = AsgAssigned then raise (AppErr Conflict AlreadyAssignedMessage)
             else
               bindW (if current = None then requireChildLinkedParent f ctx childProduct else ret ()) (\<lambda>_.
               bindW (childEligibilityIDs f ctx childProduct) (\<lambda>ids0.
               let ids = (if current \<noteq> None \<and> ids0 = [] \<and> trim_space childProduct \<noteq> [] then [childProduct] else ids0) in
               bindW (parentEligibleForLeaves f ids parentProduct) (\<lambda>eligible.
               if \<not> eligible then raise (AppErr Validation ParentNotEligibleMessage)
               else
                 let currentID = (case current of None \<Rightarrow> [] | Some a \<Rightarrow> pa_ID a) in
                 bindW (runAssignedWrite f [childUnit, parentUnit] (admin_write currentID needsForce reason childUnit parentUnit)) (\<lambda>saved.
                 ret \<lparr>ar_Assignment = saved, ar_Created = (currentID = []), ar_Reason = (if needsForce then reason else []),
                      ar_Child = bf_Facts childFacts, ar_Parent = bf_Facts parentFacts\<rparr>)))))))))))))"

section \<open>Reading\<close>

text \<open>The units to report with the order each belongs to, as the loop of \<open>FactsForUnits\<close> pairs them.\<close>

fun unit_orders :: "string list \<Rightarrow> (string \<times> string) list" where
  "unit_orders [] = []"
| "unit_orders (x # xs) =
     (let unit = trim_space x in
      if unit = [] then unit_orders xs
      else case SplitUnitID unit of
        None \<Rightarrow> unit_orders xs
      | Some (orderID, _) \<Rightarrow>
          (case CanonicalUnitID unit of
             None \<Rightarrow> (unit, orderID)
           | Some canon \<Rightarrow> (canon, case SplitUnitID canon of None \<Rightarrow> orderID | Some (oid, _) \<Rightarrow> oid)) # unit_orders xs)"

fun facts_map ::
    "(string \<Rightarrow> order option) \<Rightarrow> (string \<Rightarrow> payment option) \<Rightarrow> (string \<times> string) list \<Rightarrow> (string \<Rightarrow> unit_facts option) \<Rightarrow>
     (string \<Rightarrow> unit_facts option)" where
  "facts_map orders byPayment [] out = out"
| "facts_map orders byPayment ((unit, orderID) # ps) out =
     facts_map orders byPayment ps
       (case orders orderID of None \<Rightarrow> out | Some o1 \<Rightarrow> out(unit \<mapsto> facts_of o1 (byPayment (o_ID o1))))"

definition FactsForUnits ::
    "('w, 'd) assignment_flow option \<Rightarrow> string list \<Rightarrow> (string \<Rightarrow> unit_facts option, 'd) act" where
  "FactsForUnits f0 unitIDs =
     configured f0 (\<lambda>f.
       let pairs = unit_orders unitIDs; orderIDs = rev (remdups (rev (map snd pairs))) in
       bindW (lookupOrders f orderIDs) (\<lambda>orders.
       bindW (lookupPayments f (map (\<lambda>x. o_ID (the (orders x))) (filter (\<lambda>x. orders x \<noteq> None) orderIDs))) (\<lambda>byPayment.
       ret (facts_map orders byPayment pairs (\<lambda>_. None)))))"

definition CurrentOwned ::
    "('w, 'r asg_world_scheme) assignment_flow option \<Rightarrow> string \<Rightarrow> string \<Rightarrow> (product_assignment option, 'r asg_world_scheme) act" where
  "CurrentOwned f0 customerID childUnitID =
     configured f0 (\<lambda>f.
       case CanonicalUnitID childUnitID of
         None \<Rightarrow> raise (AppErr Validation ChildNotOwnedMessage)
       | Some childUnit \<Rightarrow>
           bindW (requireOwnedUnit f (trim_space customerID) childUnit ChildNotOwnedMessage) (\<lambda>_.
           CurrentByChild (fw_env f) childUnit))"

record owned_parent =
  op_UnitID :: string
  op_OrderID :: string
  op_VariantID :: string
  op_ProductID :: string
  op_Name :: string

text \<open>The lines of the orders that are owned.\<close>

fun owned_lines :: "(string \<Rightarrow> payment option) \<Rightarrow> order list \<Rightarrow> (order \<times> order_item) list outcome" where
  "owned_lines byPayment [] = Ok []"
| "owned_lines byPayment (o1 # os) =
     bindO (orderOwnedWithPayment (Some o1) (byPayment (o_ID o1))) (\<lambda>owned.
     bindO (owned_lines byPayment os) (\<lambda>ls. Ok ((if owned then map (\<lambda>i. (o1, i)) (o_items o1) else []) @ ls)))"

text \<open>\<open>cache\<close> holds the products that were asked for.\<close>

fun eligible_parents ::
    "('w, 'd) assignment_flow \<Rightarrow> string list \<Rightarrow> (string \<Rightarrow> 'w variant option) \<Rightarrow> (string \<Rightarrow> bool option) \<Rightarrow>
     (order \<times> order_item) list \<Rightarrow> (owned_parent list, 'd) act" where
  "eligible_parents f leafIDs byVariant cache [] = ret []"
| "eligible_parents f leafIDs byVariant cache ((o1, item) # cs) =
     (case byVariant (oi_VariantID item) of
        None \<Rightarrow> eligible_parents f leafIDs byVariant cache cs
      | Some v \<Rightarrow>
          if trim_space (v_ProductID v) = [] then eligible_parents f leafIDs byVariant cache cs
          else bindW (case cache (v_ProductID v) of Some ok \<Rightarrow> ret ok | None \<Rightarrow> parentEligibleForLeaves f leafIDs (v_ProductID v)) (\<lambda>ok.
               bindW (eligible_parents f leafIDs byVariant (cache(v_ProductID v \<mapsto> ok)) cs) (\<lambda>out.
               ret (if \<not> ok then out
                    else \<lparr>op_UnitID = UnitID (o_ID o1) (oi_VariantID item), op_OrderID = o_ID o1, op_VariantID = oi_VariantID item,
                          op_ProductID = v_ProductID v, op_Name = oi_Name item\<rparr> # out))))"

definition ListOwnedParents ::
    "('w, 'd) assignment_flow option \<Rightarrow> req_ctx \<Rightarrow> string \<Rightarrow> string \<Rightarrow> (owned_parent list, 'd) act" where
  "ListOwnedParents f0 ctx customerID0 childProductID0 =
     configured f0 (\<lambda>f.
       let customerID = trim_space customerID0; childProductID = trim_space childProductID0 in
       if customerID = [] then raise (AppErr Validation ParentUnitSignInMessage)
       else if childProductID = [] then raise (AppErr Validation ''child product id must not be empty'')
       else
         bindW (childEligibilityIDs f ctx childProductID) (\<lambda>leafIDs.
         bindW (wrapW (Wrap ''assignment flow: list orders'') (fw_orders_of f customerID)) (\<lambda>orders.
         let pending = filter (\<lambda>o1. trim_space (o_CustomerID o1) = customerID \<and> \<not> dead_order o1) orders in
         bindW (lookupPayments f (map o_ID pending)) (\<lambda>byPayment.
         bindW (lift (owned_lines byPayment pending)) (\<lambda>candidates.
         bindW (lookupVariants f (map (\<lambda>(_, i). oi_VariantID i) candidates)) (\<lambda>byVariant.
         bindW (eligible_parents f leafIDs byVariant (\<lambda>_. None) candidates) (\<lambda>out.
         bindW (unitsOnBlockingReturn f (map op_UnitID out)) (\<lambda>blocked.
         ret (filter (\<lambda>p. op_UnitID p \<notin> set blocked) out)))))))))"

end
