(* ===== verification/AssignmentLocks.thy ===== *)
theory AssignmentLocks
  imports AssignmentFlow
begin

text \<open>
  The advisory locks of the assignment writes and the returns: transactions that take the locks of
  \<open>LockAssignmentUnits\<close> one after the other and hold them until they end cannot block each other for
  ever. The database locks the 64-bit hash of a key, a function of the model.
\<close>

section \<open>Transactions that take locks\<close>

record locker =
  lk_held :: "string list"
  lk_todo :: "string list"

definition waiting :: "string list \<Rightarrow> locker" where "waiting keys = \<lparr>lk_held = [], lk_todo = keys\<rparr>"

definition over :: "locker \<Rightarrow> bool" where "over p \<longleftrightarrow> lk_held p = [] \<and> lk_todo p = []"

text \<open>
  A transaction takes its next lock when no other holds one of the same hash, and ends when it has
  all. A lock that the transaction itself holds is taken again at once.
\<close>

inductive lock_step :: "(string \<Rightarrow> int64) \<Rightarrow> locker list \<Rightarrow> locker list \<Rightarrow> bool" for hash where
  take_lock: "i < length ps \<Longrightarrow> lk_todo (ps ! i) = k # ks \<Longrightarrow>
    (\<And>j. j < length ps \<Longrightarrow> j \<noteq> i \<Longrightarrow> hash k \<notin> hash ` set (lk_held (ps ! j))) \<Longrightarrow>
    lock_step hash ps (ps[i := \<lparr>lk_held = k # lk_held (ps ! i), lk_todo = ks\<rparr>])"
| commit: "i < length ps \<Longrightarrow> lk_todo (ps ! i) = [] \<Longrightarrow> \<not> over (ps ! i) \<Longrightarrow> lock_step hash ps (ps[i := waiting []])"

text \<open>It may also fail at any time, which releases what it holds.\<close>

inductive lock_move :: "(string \<Rightarrow> int64) \<Rightarrow> locker list \<Rightarrow> locker list \<Rightarrow> bool" for hash where
  step: "lock_step hash ps qs \<Longrightarrow> lock_move hash ps qs"
| rollback: "i < length ps \<Longrightarrow> lock_move hash ps (ps[i := waiting []])"

text \<open>Keys of the set only, in ascending order.\<close>

definition ascending :: "string set \<Rightarrow> locker \<Rightarrow> bool" where
  "ascending K p \<longleftrightarrow> sorted_wrt (<) (lk_todo p) \<and> (\<forall>h \<in> set (lk_held p). \<forall>k \<in> set (lk_todo p). h < k) \<and>
     set (lk_held p) \<union> set (lk_todo p) \<subseteq> K"

lemma ascending_waiting: "ascending K (waiting keys) \<longleftrightarrow> sorted_wrt (<) keys \<and> set keys \<subseteq> K"
  by (auto simp: ascending_def waiting_def)

lemma lock_step_ascending: "lock_step hash ps qs \<Longrightarrow> (\<forall>p \<in> set ps. ascending K p) \<Longrightarrow> (\<forall>q \<in> set qs. ascending K q)"
proof (induction rule: lock_step.induct)
  case (take_lock i ps k ks)
  then have "ascending K (ps ! i)" by simp
  then have "ascending K \<lparr>lk_held = k # lk_held (ps ! i), lk_todo = ks\<rparr>"
    using take_lock(2) by (auto simp: ascending_def)
  then show ?case using take_lock(4) by (auto dest!: set_update_subset_insert [THEN subsetD])
next
  case (commit i ps)
  have "ascending K (waiting [])" by (simp add: ascending_waiting)
  then show ?case using commit(4) by (auto dest!: set_update_subset_insert [THEN subsetD])
qed

lemma lock_moves_ascending: "(lock_move hash)\<^sup>*\<^sup>* ps qs \<Longrightarrow> \<forall>p \<in> set ps. ascending K p \<Longrightarrow> \<forall>q \<in> set qs. ascending K q"
proof (induction rule: rtranclp_induct)
  case (step y z)
  then have y: "\<forall>p \<in> set y. ascending K p" by simp
  from step(2) show ?case
  proof cases
    case step
    then show ?thesis using lock_step_ascending y by blast
  next
    case (rollback i)
    have "ascending K (waiting [])" by (simp add: ascending_waiting)
    then show ?thesis using y rollback by (auto dest!: set_update_subset_insert [THEN subsetD])
  qed
qed

text \<open>
  Of the transactions that wait for a lock, the one that waits for the greatest is not blocked: a
  transaction that held this lock would be waiting for a greater one, or could end.
\<close>

lemma some_step:
  assumes asc: "\<forall>p \<in> set ps. ascending K p" and busy: "\<exists>p \<in> set ps. \<not> over p" and inj: "inj_on hash K"
  shows "\<exists>qs. lock_step hash ps qs"
proof (cases "\<exists>i < length ps. lk_todo (ps ! i) = [] \<and> \<not> over (ps ! i)")
  case True
  then show ?thesis by (blast intro: lock_step.commit)
next
  case False
  let ?W = "{i. i < length ps \<and> lk_todo (ps ! i) \<noteq> []}"
  have W: "finite ?W" "?W \<noteq> {}"
    using busy False by (simp, auto simp: in_set_conv_nth) blast
  define m where "m = Max ((\<lambda>i. hd (lk_todo (ps ! i))) ` ?W)"
  have "m \<in> (\<lambda>i. hd (lk_todo (ps ! i))) ` ?W"
    unfolding m_def by (rule Max_in) (use W in auto)
  then obtain i where i: "i < length ps" "lk_todo (ps ! i) \<noteq> []" "hd (lk_todo (ps ! i)) = m" by auto
  then obtain ks where ks: "lk_todo (ps ! i) = m # ks" by (cases "lk_todo (ps ! i)") auto
  have "ascending K (ps ! i)" using asc i(1) by simp
  then have m: "m \<in> K" using ks by (simp add: ascending_def)
  have free: "hash m \<notin> hash ` set (lk_held (ps ! j))" if j: "j < length ps" for j
  proof
    have aj: "ascending K (ps ! j)" using asc j by simp
    assume "hash m \<in> hash ` set (lk_held (ps ! j))"
    then obtain h where "h \<in> set (lk_held (ps ! j))" "hash h = hash m" by force
    moreover have "h \<in> K" using calculation(1) aj by (auto simp: ascending_def)
    ultimately have held: "m \<in> set (lk_held (ps ! j))" using inj_onD [OF inj _ _ m] by metis
    then have todo: "lk_todo (ps ! j) \<noteq> []" using False j by (auto simp: over_def)
    then have "hd (lk_todo (ps ! j)) \<le> m"
      unfolding m_def by (intro Max_ge) (use W j in auto)
    moreover have "m < hd (lk_todo (ps ! j))"
      using held todo aj by (simp add: ascending_def)
    ultimately show False by simp
  qed
  show ?thesis using lock_step.take_lock [OF i(1) ks] free by blast
qed

definition work :: "locker list \<Rightarrow> nat" where
  "work ps = sum_list (map (\<lambda>p. 2 * length (lk_todo p) + length (lk_held p)) ps)"

lemma sum_list_update_less:
  fixes f :: "'a \<Rightarrow> nat"
  assumes "i < length xs" "f y < f (xs ! i)"
  shows "sum_list (map f (xs[i := y])) < sum_list (map f xs)"
  using assms
proof (induction xs arbitrary: i)
  case (Cons x xs)
  then show ?case by (cases i) auto
qed simp

lemma lock_step_work: "lock_step hash ps qs \<Longrightarrow> work qs < work ps"
proof (induction rule: lock_step.induct)
  case (take_lock i ps k ks)
  then show ?case unfolding work_def by (intro sum_list_update_less) auto
next
  case (commit i ps)
  then show ?case unfolding work_def by (intro sum_list_update_less) (auto simp: over_def waiting_def)
qed

lemma all_end:
  assumes "\<forall>p \<in> set ps. ascending K p" "inj_on hash K"
  shows "\<exists>qs. (lock_step hash)\<^sup>*\<^sup>* ps qs \<and> (\<forall>q \<in> set qs. over q)"
  using assms(1)
proof (induction "work ps" arbitrary: ps rule: less_induct)
  case less
  show ?case
  proof (cases "\<exists>p \<in> set ps. \<not> over p")
    case True
    then obtain qs where qs: "lock_step hash ps qs" using some_step [OF less.prems _ assms(2)] by blast
    from less.hyps [OF lock_step_work [OF qs]] lock_step_ascending [OF qs less.prems]
    obtain rs where "(lock_step hash)\<^sup>*\<^sup>* qs rs" "\<forall>q \<in> set rs. over q" by blast
    then show ?thesis using qs by (meson converse_rtranclp_into_rtranclp)
  qed blast
qed

section \<open>The keys\<close>

lemma each_once_distinct: "distinct (each_once norm seen xs) \<and> set (each_once norm seen xs) \<inter> set seen = {}"
  by (induction norm seen xs rule: each_once.induct) (auto simp: Let_def)

lemma each_once_set: "set (each_once norm seen xs) = {norm (trim_space x) | x. x \<in> set xs \<and> trim_space x \<noteq> []} - set seen"
  by (induction norm seen xs rule: each_once.induct) (auto simp: Let_def)

lemma lock_keys_ascending: "sorted_wrt (<) (lock_keys ids)"
proof -
  have "distinct (map (\<lambda>u. assignmentUnitLockPrefix @ u) (each_once canonical_or_same [] ids))"
    using each_once_distinct [of canonical_or_same "[]" ids] by (simp add: distinct_map inj_on_def)
  then show ?thesis by (simp add: lock_keys_def strict_sorted_iff)
qed

text \<open>The keys that \<open>LockAssignmentUnits\<close> asks the database for, in the order of the statements.\<close>

definition requested_locks :: "string list \<Rightarrow> string list" where
  "requested_locks unitIDs = snd (LockAssignmentUnits (Some (\<lambda>key s. (Ok (), s @ [key]))) unitIDs [])"

lemma requested_keys: "requested_locks unitIDs = lock_keys unitIDs"
proof -
  have "forW (\<lambda>key. wrapW g (\<lambda>s. (Ok (), s @ [key]))) keys s = (Ok (), s @ keys)" for g keys and s :: "string list"
    by (induction keys arbitrary: s) (simp_all add: wrapW_def bindW_def ret_def)
  then show ?thesis by (simp add: requested_locks_def LockAssignmentUnits_def)
qed

text \<open>C14: The assignment locks never deadlock. However many transactions run \<open>LockAssignmentUnits\<close>, each
  over any units in any order and under any spelling of their ids, and however their statements,
  their ends and their failures have interleaved so far, the transactions can all go on to the end:
  there is always one whose next lock is free. This holds as long as no two different units asked
  for have the same 64-bit hash, which is what the database locks.\<close>

theorem unit_locks_never_deadlock:
  assumes "inj_on hash (\<Union>ids \<in> set requests. set (requested_locks ids))"
    and "(lock_move hash)\<^sup>*\<^sup>* (map (\<lambda>ids. waiting (requested_locks ids)) requests) ps"
  shows "\<exists>qs. (lock_step hash)\<^sup>*\<^sup>* ps qs \<and> (\<forall>q \<in> set qs. over q)"
proof -
  let ?K = "\<Union>ids \<in> set requests. set (requested_locks ids)"
  have "\<forall>p \<in> set (map (\<lambda>ids. waiting (requested_locks ids)) requests). ascending ?K p"
    by (auto simp: ascending_waiting requested_keys lock_keys_ascending)
  then have "\<forall>p \<in> set ps. ascending ?K p" by (rule lock_moves_ascending [OF assms(2)])
  then show ?thesis by (rule all_end [OF _ assms(1)])
qed

text \<open>Two transactions that name the same units in opposite order; the first has taken one lock.\<close>

definition crossed_requests :: "string list list" where
  "crossed_requests = [[''p/q'', ''c/d''], ['' c/d'', ''p/q'', ''c/d'']]"

definition some_hash :: "string \<Rightarrow> int64" where "some_hash k = (if k = ''assignment:unit:c/d'' then 7 else 9)"

lemma crossed_keys: "map requested_locks crossed_requests =
    [[''assignment:unit:c/d'', ''assignment:unit:p/q''], [''assignment:unit:c/d'', ''assignment:unit:p/q'']]"
  by code_simp

theorem unit_locks_never_deadlock_witness:
  "\<exists>qs. (lock_step some_hash)\<^sup>*\<^sup>* [\<lparr>lk_held = [''assignment:unit:c/d''], lk_todo = [''assignment:unit:p/q'']\<rparr>,
      waiting [''assignment:unit:c/d'', ''assignment:unit:p/q'']] qs \<and> list_all over qs"
proof -
  let ?ps = "[waiting [''assignment:unit:c/d'', ''assignment:unit:p/q''], waiting [''assignment:unit:c/d'', ''assignment:unit:p/q'']]"
  have start: "map (\<lambda>ids. waiting (requested_locks ids)) crossed_requests = ?ps"
    using crossed_keys by (simp add: crossed_requests_def)
  have "(\<Union>ids \<in> set crossed_requests. set (requested_locks ids)) = \<Union> (set ` set (map requested_locks crossed_requests))"
    by simp
  then have keys: "(\<Union>ids \<in> set crossed_requests. set (requested_locks ids)) = {''assignment:unit:c/d'', ''assignment:unit:p/q''}"
    unfolding crossed_keys by simp
  have inj: "inj_on some_hash (\<Union>ids \<in> set crossed_requests. set (requested_locks ids))"
    unfolding keys by (simp add: inj_on_def some_hash_def)
  have "lock_step some_hash ?ps (?ps[0 := \<lparr>lk_held = ''assignment:unit:c/d'' # lk_held (?ps ! 0), lk_todo = [''assignment:unit:p/q'']\<rparr>])"
    by (rule take_lock) (auto simp: waiting_def nth_Cons split: nat.split)
  then have "(lock_move some_hash)\<^sup>*\<^sup>* (map (\<lambda>ids. waiting (requested_locks ids)) crossed_requests)
      [\<lparr>lk_held = [''assignment:unit:c/d''], lk_todo = [''assignment:unit:p/q'']\<rparr>,
       waiting [''assignment:unit:c/d'', ''assignment:unit:p/q'']]"
    unfolding start by (intro r_into_rtranclp lock_move.step) (simp add: waiting_def)
  from unit_locks_never_deadlock [OF inj this] show ?thesis by (simp add: list_all_iff)
qed

end
