(* ===== verification/AssignmentBinding.thy ===== *)
theory AssignmentBinding
  imports AssignmentFlow AssignmentFacts
begin

text \<open>
  What the flow guarantees: a card is returnable exactly when none of its tickets outside the
  request is still bound to it, whatever the number of pages, and a customer binds only units
  that are theirs, paid for and eligible.
\<close>

section \<open>Canonical units\<close>

definition canonical_uuid :: "string \<Rightarrow> bool" where
  "canonical_uuid s \<longleftrightarrow> IsUUID s \<and> map lower_char s = s"

lemma lower_hex: "hex_char c \<Longrightarrow> hex_char (lower_char c)"
proof -
  assume c: "hex_char c"
  show "hex_char (lower_char c)"
  proof (cases "is_digit_char c")
    case True
    then have "lower_char c = c" by (simp add: is_digit_char_def lower_char_def is_upper_letter_def)
    then show ?thesis using c by simp
  next
    case False
    have "\<forall>d \<in> set ''abcdef''. hex_char d" by code_simp
    moreover have "lower_char c \<in> set ''abcdef''" using c False by (simp only: hex_char_def) blast
    ultimately show ?thesis by blast
  qed
qed

lemma lower_uuid: "uuid_groups ns s \<Longrightarrow> uuid_groups ns (map lower_char s)"
proof (induction ns s rule: uuid_groups.induct)
  case (2 n s)
  then show ?case by (auto simp: list_all_iff lower_hex)
next
  case (3 n m ns s)
  moreover have "lower_char (CHR ''-'') = CHR ''-''" by code_simp
  ultimately show ?case by (auto simp: list_all_iff lower_hex drop_map take_map)
qed simp

lemma lower_idem [simp]: "lower_char (lower_char c) = lower_char c"
proof -
  have "\<not> is_upper_letter (lower_char c)"
    by (cases "is_upper_letter c") (auto simp: lower_char_def is_upper_letter_def byte_val_def)
  then show ?thesis by (simp add: lower_char_def [of "lower_char c"])
qed

lemma canonical_lower: "IsUUID s \<Longrightarrow> canonical_uuid (map lower_char s)"
  using lower_uuid [of "[8, 4, 4, 4, 12]" s] by (simp add: canonical_uuid_def IsUUID_def comp_def)

text \<open>Text without a byte of a space is its own trimmed form.\<close>

definition no_space :: "string \<Rightarrow> bool" where
  "no_space s \<longleftrightarrow> (\<forall>p \<in> set space_codes. \<forall>c \<in> set s. c \<notin> set p)"

lemma space_codes_nonempty: "[] \<notin> set space_codes"
  by (simp add: space_codes_def)

lemma trim_space_plain:
  assumes "no_space s"
  shows "trim_space s = s"
proof -
  have no: "\<not> prefix p t" if "p \<in> set space_codes \<or> rev p \<in> set space_codes" "p \<noteq> []" "set t \<subseteq> set s" for p t
  proof
    assume "prefix p t"
    then have "hd p \<in> set s" "hd p \<in> set p" using that by (auto simp: prefix_def)
    then show False using that(1) assms by (auto simp: no_space_def)
  qed
  have "strip_code space_codes s = None" "strip_code (map rev space_codes) (rev s) = None"
    unfolding strip_code_None_iff using no [of _ s] no [of _ "rev s"] by auto
  then show ?thesis by (simp add: trim_space_def trim_left_def trim_right_def trim_codes_id)
qed

lemma hex_no_space: "hex_char c \<or> c = CHR ''-'' \<Longrightarrow> p \<in> set space_codes \<Longrightarrow> c \<notin> set p"
proof -
  have "\<forall>p \<in> set space_codes. \<forall>d \<in> set p. \<not> hex_char d \<and> d \<noteq> CHR ''-''"
    by code_simp
  then show "hex_char c \<or> c = CHR ''-'' \<Longrightarrow> p \<in> set space_codes \<Longrightarrow> c \<notin> set p" by blast
qed

lemma uuid_chars: "uuid_groups ns s \<Longrightarrow> c \<in> set s \<Longrightarrow> hex_char c \<or> c = CHR ''-''"
proof (induction ns s rule: uuid_groups.induct)
  case (3 n m ns s)
  then have s: "n < length s" "list_all hex_char (take n s)" "s ! n = CHR ''-''" "uuid_groups (m # ns) (drop (Suc n) s)" by auto
  have "s = take n s @ s ! n # drop (Suc n) s" using s(1) by (simp add: id_take_nth_drop)
  then have "c \<in> set (take n s) \<or> c = s ! n \<or> c \<in> set (drop (Suc n) s)" using "3.prems"(2) by (metis Un_iff set_ConsD set_append)
  then show ?case using "3.IH" s by (auto simp: list_all_iff)
qed (auto simp: list_all_iff)

lemma uuid_plain: "IsUUID s \<Longrightarrow> no_space s"
  unfolding IsUUID_def no_space_def using uuid_chars hex_no_space by blast

lemma trimmed_end: "trim_space v = v \<Longrightarrow> strip_code (map rev space_codes) (rev v) = None"
  by (metis rev_rev_ident trim_codes_stop trim_right_def trim_space_def)

lemma trim_unit:
  assumes o1: "no_space o1" "o1 \<noteq> []" and v: "trim_space v = v"
  shows "trim_space (o1 @ CHR ''/'' # v) = o1 @ CHR ''/'' # v"
proof -
  let ?t = "o1 @ CHR ''/'' # v"
  have slash: "\<forall>p \<in> set space_codes. CHR ''/'' \<notin> set p" by code_simp
  have "strip_code space_codes ?t = None"
    unfolding strip_code_None_iff
  proof (intro ballI impI)
    fix p assume p: "p \<in> set space_codes" "p \<noteq> []"
    show "\<not> prefix p ?t"
    proof
      assume "prefix p ?t"
      then have "hd p = hd o1" using p(2) o1(2) by (cases p; cases o1) auto
      then show False using p o1 by (metis hd_in_set no_space_def)
    qed
  qed
  moreover have "strip_code (map rev space_codes) (rev ?t) = None"
    unfolding strip_code_None_iff
  proof (intro ballI impI)
    fix p assume p: "p \<in> set (map rev space_codes)" "p \<noteq> []"
    have "\<not> prefix p (rev v)" using trimmed_end [OF v] p unfolding strip_code_None_iff by blast
    moreover have "CHR ''/'' \<notin> set p" using p(1) slash by auto
    ultimately show "\<not> prefix p (rev ?t)" by (auto simp: prefix_append prefix_Cons append_eq_Cons_conv)
  qed
  ultimately show ?thesis by (simp add: trim_space_def trim_left_def trim_right_def trim_codes_id)
qed

lemma canonical_unit:
  assumes "CanonicalUnitID u = Some c"
  obtains o1 v where "c = o1 @ CHR ''/'' # v" "canonical_uuid o1" "trim_space v = v" "v \<noteq> []"
    "SplitUnitID c = Some (o1, v)" "CanonicalUnitID c = Some c" "trim_space c = c"
proof -
  obtain o0 v where split: "SplitUnitID u = Some (o0, v)" and o0: "IsUUID o0" and c: "c = UnitID (map lower_char o0) v"
    using assms by (auto simp: CanonicalUnitID_def split: option.splits if_splits)
  have v: "v \<noteq> []" "trim_space v = v"
    using split by (auto simp: SplitUnitID_def Let_def split: if_splits)
  define o1 where "o1 = map lower_char o0"
  have o1: "canonical_uuid o1" unfolding o1_def by (rule canonical_lower [OF o0])
  then have plain: "no_space o1" "trim_space o1 = o1" "o1 \<noteq> []"
    using uuid_plain uuid_trim trim_space_plain by (auto simp: canonical_uuid_def)
  have shape: "c = o1 @ CHR ''/'' # v" using c v plain by (simp add: UnitID_def o1_def [symmetric] Let_def)
  have trim: "trim_space c = c" unfolding shape by (rule trim_unit [OF plain(1,3) v(2)])
  have slash: "\<forall>x \<in> set o1. x \<noteq> CHR ''/''"
  proof
    fix x assume "x \<in> set o1"
    then have "hex_char x \<or> x = CHR ''-''" using o1 unfolding canonical_uuid_def IsUUID_def by (blast dest: uuid_chars)
    moreover have "\<not> hex_char (CHR ''/'')" by code_simp
    ultimately show "x \<noteq> CHR ''/''" by auto
  qed
  have parts: "takeWhile (\<lambda>x. x \<noteq> CHR ''/'') c = o1" "dropWhile (\<lambda>x. x \<noteq> CHR ''/'') c = CHR ''/'' # v"
    using slash by (simp_all add: shape takeWhile_append dropWhile_append)
  have sp: "SplitUnitID c = Some (o1, v)"
    unfolding SplitUnitID_def Let_def trim parts using plain v by (simp add: shape)
  have "UnitID (map lower_char o1) v = c"
    using o1 plain v by (simp add: UnitID_def shape canonical_uuid_def Let_def)
  then have "CanonicalUnitID c = Some c"
    using o1 by (simp add: CanonicalUnitID_def sp canonical_uuid_def)
  then show ?thesis using that shape o1 v sp trim by blast
qed

lemma canonical_nonempty: "CanonicalUnitID u = Some c \<Longrightarrow> c \<noteq> []"
  by (erule canonical_unit) simp

section \<open>Walking the pages\<close>

text \<open>No other request and no failing statement.\<close>

definition calm :: "asg_env \<Rightarrow> bool" where
  "calm env \<longleftrightarrow> (\<forall>n. ae_others env n = []) \<and> (\<forall>n label. ae_faults env n label = None)"

lemma blocking_rows_append: "blocking_rows skip b (xs @ ys) = blocking_rows skip (blocking_rows skip b xs) ys"
  by (induction xs arbitrary: b) (auto simp: Let_def)

lemma blocking_rows_set:
  "set (blocking_rows skip b rs) = set b \<union> (canonical_or_same ` pa_ChildOrderItemID ` set rs - set skip)"
  by (induction rs arbitrary: b) (auto simp: Let_def)

lemma blocking_rows_distinct: "distinct b \<Longrightarrow> distinct (blocking_rows skip b rs)"
  by (induction rs arbitrary: b) (auto simp: Let_def)

text \<open>The bound rows of a card, newest first, and what a read makes of them.\<close>

definition bound_rows :: "string \<Rightarrow> assignment_row list \<Rightarrow> assignment_row list" where
  "bound_rows p rows = newest_first (filter (\<lambda>r. aw_parent r = Some p \<and> aw_status r = ''assigned'') rows)"

definition read_row :: "assignment_row \<Rightarrow> product_assignment" where
  "read_row r = (case scanProductAssignment r of Ok a \<Rightarrow> a | _ \<Rightarrow> undefined)"

lemma newest_first_set [simp]: "set (newest_first rows) = set rows" "length (newest_first rows) = length rows"
  by (simp_all add: newest_first_def)

lemma read_row_good:
  assumes "row_good r"
  shows "scanProductAssignment r = Ok (read_row r)" "pa_ChildOrderItemID (read_row r) = aw_child r"
proof -
  obtain a where a: "scanProductAssignment r = Ok a" "loaded r a" using assms by (rule scan_good)
  then show "scanProductAssignment r = Ok (read_row r)" by (simp add: read_row_def)
  have "aw_child (asg_row_of (aw_id r) a) = aw_child r" using a(2) by (simp add: loaded_def)
  then show "pa_ChildOrderItemID (read_row r) = aw_child r" using a(1) by (simp add: read_row_def asg_row_of_def)
qed

lemma scan_all_good: "\<forall>r \<in> set rs. row_good r \<Longrightarrow> scan_all rs = Ok (map read_row rs)"
  by (induction rs) (auto simp: read_row_good)

lemma int64_of_nat_small: "k < 2 ^ 62 \<Longrightarrow> unat (of_nat k :: int64) = k" "k < 2 ^ 62 \<Longrightarrow> \<not> (of_nat k :: int64) <s 0"
proof -
  assume k: "k < 2 ^ 62"
  then show u: "unat (of_nat k :: int64) = k" by (simp add: unat_of_nat)
  have "sint (of_nat k :: int64) = int k"
    using sint_of_int [of "int k"] k by (simp add: in_int64_def)
  then show "\<not> (of_nat k :: int64) <s 0" by (simp add: word_sless_alt)
qed

lemma page_of_parent:
  fixes w :: "'r asg_world_scheme"
  assumes env: "calm env" and w: "table_good (ag_rows w)" and p: "canonicalUnitID parent m1 m2 = Ok p" "p \<noteq> []"
    and m: "m1 = ''parent order item id must not be empty''" "m2 = ''parent order item id is invalid''" and off: "k < 2 ^ 62"
  shows "\<exists>w'. ag_rows w' = ag_rows w \<and>
    ListByParent env parent \<lparr>pp_Status = ''assigned'', pp_Limit = ParentListMaxLimit, pp_Offset = of_nat k\<rparr> w =
      (Ok (map read_row (take 100 (drop k (bound_rows p (ag_rows w)))), 100 + k < length (bound_rows p (ag_rows w))), w')"
proof -
  let ?L = "bound_rows p (ag_rows w)"
  have good: "\<forall>r \<in> set (take 101 (drop k ?L)). row_good r"
    using w by (auto simp: bound_rows_def table_good_def dest!: in_set_takeD in_set_dropD)
  let ?w' = "w\<lparr>ag_tick := Suc (ag_tick w)\<rparr>"
  have lim: "\<not> ParentListMaxLimit \<le>s 0" "\<not> ParentListMaxLimit <s ParentListMaxLimit" "\<not> ParentListMaxLimit + 1 <s 0"
    "unat (ParentListMaxLimit + 1) = 101" "unat ParentListMaxLimit = 100"
    by (simp_all add: ParentListMaxLimit_def word_sle_eq word_sless_alt)
  have st: "parentListStatus ''assigned'' = Ok ''assigned''" by code_simp
  have "ListByParent env parent \<lparr>pp_Status = ''assigned'', pp_Limit = ParentListMaxLimit, pp_Offset = of_nat k\<rparr> w =
     (let out = map read_row (take 101 (drop k ?L)) in
      (Ok (if 100 < length out then (take 100 out, True) else (out, False)), ?w'))"
    using p(1) p(2) env good int64_of_nat_small [OF off]
    by (simp add: m ListByParent_def AsgRepo_ListByParentID_def st lim calm_def asg_query_def asg_exec_def bindW_def lift_def wrapW_def
        ret_def scan_all_good Let_def bound_rows_def)
  also have "\<dots> = (Ok (map read_row (take 100 (drop k ?L)), 100 + k < length ?L), ?w')"
    by (auto simp: Let_def take_map min_def)
  finally show ?thesis by (intro exI [of _ ?w']) simp
qed

lemma all_pages:
  fixes w :: "'r asg_world_scheme"
  assumes env: "calm env" and w: "table_good (ag_rows w)"
    and p: "canonicalUnitID parent ''parent order item id must not be empty'' ''parent order item id is invalid'' = Ok p" "p \<noteq> []"
    and small: "length (bound_rows p (ag_rows w)) < 2 ^ 62"
  shows "k \<le> length (bound_rows p (ag_rows w)) \<Longrightarrow> length (bound_rows p (ag_rows w)) \<le> k + 100 * n \<Longrightarrow> 0 < n \<Longrightarrow>
    fst (blocking_pages n env parent skip b (of_nat k) w) =
      Ok (Some (blocking_rows skip b (map read_row (drop k (bound_rows p (ag_rows w))))))"
  using w small
proof (induction n arbitrary: k b w)
  case (Suc n)
  let ?L = "bound_rows p (ag_rows w)"
  have k: "k < 2 ^ 62" using Suc.prems(1,5) by simp
  obtain w' where w': "ag_rows w' = ag_rows w"
    and page: "ListByParent env parent \<lparr>pp_Status = ''assigned'', pp_Limit = ParentListMaxLimit, pp_Offset = of_nat k\<rparr> w =
      (Ok (map read_row (take 100 (drop k ?L)), 100 + k < length ?L), w')"
    using page_of_parent [OF env Suc.prems(4) p refl refl k] by blast
  show ?case
  proof (cases "100 + k < length ?L")
    case False
    then have "take 100 (drop k ?L) = drop k ?L" by simp
    then show ?thesis using False by (simp add: bindW_def page ret_def Let_def)
  next
    case True
    then have n: "0 < n" "length ?L \<le> k + 100 + 100 * n" using Suc.prems(2) by (cases n; simp)+
    have ahead: "(of_nat k + of_nat (length (map read_row (take 100 (drop k ?L)))) :: int64) = of_nat (k + 100)"
      using True by (simp add: min_def)
    have "blocking_pages (Suc n) env parent skip b (of_nat k) w =
        blocking_pages n env parent skip (blocking_rows skip b (map read_row (take 100 (drop k ?L)))) (of_nat (k + 100)) w'"
      using True by (simp only: blocking_pages.simps bindW_def page prod.case outcome.case ahead Let_def) (auto simp: min_def)
    also have "fst \<dots> = Ok (Some (blocking_rows skip (blocking_rows skip b (map read_row (take 100 (drop k ?L))))
        (map read_row (drop (k + 100) ?L))))"
      using Suc.IH [of "k + 100" w' "blocking_rows skip b (map read_row (take 100 (drop k ?L)))"] True n Suc.prems(4,5) by (simp add: w')
    also have "\<dots> = Ok (Some (blocking_rows skip b (map read_row (drop k ?L))))"
    proof -
      have "drop k ?L = take 100 (drop k ?L) @ drop (k + 100) ?L"
        using append_take_drop_id [of 100 "drop k ?L"] by (simp only: drop_drop add.commute)
      then show ?thesis by (metis blocking_rows_append map_append)
    qed
    finally show ?thesis .
  qed
qed simp

section \<open>Returning a card\<close>

text \<open>C13: A card is returnable exactly when no ticket outside the return is bound to it, however many
  pages of tickets there are. On a table at rest the walk through the pages ends within one page
  more than a hundredth of the rows; it passes if every live assigned child of the card is among
  the skipped units (under any spelling of their ids), and otherwise is refused with a message
  that lists exactly the others, each once.\<close>

theorem card_returnable_exactly:
  assumes "calm (fw_env f)" "asg_env_sound env" "ag_rows w0 = []" "w = asg_calls env cs w0" "length (ag_rows w) < 2 ^ 62"
    and "canonicalUnitID parent ''parent order item id must not be empty'' ''parent order item id is invalid'' = Ok p"
    and "length (ag_rows w) < 100 * n"
  shows "\<exists>kids. distinct kids \<and>
    set kids = {canonical_or_same (aw_child r) | r. r \<in> set (ag_rows w) \<and> aw_parent r = Some p \<and> aw_status r = ''assigned''} -
      set (skip_units skips) \<and>
    fst (AssertParentReturnable n (Some f) parent skips w) =
      (if kids = [] then Ok (Some ())
       else Fail (AppErr Validation (ParentHasAssignedChildrenMessage @ '' (required: '' @ join_with '', '' kids @ '')'')))"
proof -
  let ?L = "bound_rows p (ag_rows w)"
  let ?kids = "blocking_rows (skip_units skips) [] (map read_row ?L)"
  have w: "table_good (ag_rows w)"
    unfolding assms(4) by (rule calls_table(1) [OF assms(2)]) (simp add: assms(3) table_good_Nil)
  have len: "length ?L \<le> length (ag_rows w)" by (simp add: bound_rows_def)
  have p: "p \<noteq> []"
    using assms(6) canonical_nonempty by (auto simp: canonicalUnitID_def split: if_splits option.splits)
  have "fst (blocking_pages n (fw_env f) parent (skip_units skips) [] (of_nat 0) w) = Ok (Some ?kids)"
    using all_pages [OF assms(1) w assms(6) p, of 0 n "skip_units skips" "[]"] len assms(5,7) by simp
  then have run: "fst (AssertParentReturnable n (Some f) parent skips w) =
      (if ?kids = [] then Ok (Some ())
       else Fail (AppErr Validation (ParentHasAssignedChildrenMessage @ '' (required: '' @ join_with '', '' ?kids @ '')'')))"
    by (cases "blocking_pages n (fw_env f) parent (skip_units skips) [] 0 w")
      (auto simp: AssertParentReturnable_def configured_def bindW_def ret_def raise_def)
  have "pa_ChildOrderItemID ` read_row ` set ?L = aw_child ` set ?L"
    unfolding image_image using w by (intro image_cong refl) (auto simp: bound_rows_def table_good_def read_row_good)
  then have "set ?kids = canonical_or_same ` aw_child ` set ?L - set (skip_units skips)"
    by (simp add: blocking_rows_set)
  also have "\<dots> = {canonical_or_same (aw_child r) | r. r \<in> set (ag_rows w) \<and> aw_parent r = Some p \<and> aw_status r = ''assigned''} -
      set (skip_units skips)"
    by (auto simp: bound_rows_def)
  finally show ?thesis
    using run blocking_rows_distinct [of "[]" "skip_units skips" "map read_row ?L"] by (intro exI [of _ ?kids]) simp
qed

section \<open>Around the write\<close>

text \<open>
  PostgreSQL reads a UUID of the standard form in either case and prints every UUID in lower case,
  so that the ids of the table are canonical.
\<close>

definition env_standard :: "asg_env \<Rightarrow> bool" where
  "env_standard env \<longleftrightarrow> asg_env_sound env \<and> (\<forall>s. IsUUID s \<longrightarrow> ae_uuid env s = Some (map lower_char s))"

definition table_fit :: "assignment_row list \<Rightarrow> bool" where
  "table_fit rows \<longleftrightarrow> table_good rows \<and> (\<forall>r \<in> set rows. canonical_uuid (aw_id r))"

lemma standard_sound: "env_standard env \<Longrightarrow> asg_env_sound env"
  by (simp add: env_standard_def)

lemma standard_own: "env_standard env \<Longrightarrow> canonical_uuid s \<Longrightarrow> ae_uuid env s = Some s"
  by (simp add: env_standard_def canonical_uuid_def)

lemma standard_id:
  assumes "env_standard env" "ae_uuid env s = Some rid"
  shows "canonical_uuid rid"
proof -
  have "IsUUID rid" "ae_uuid env rid = Some rid"
    using assms unfolding env_standard_def asg_env_sound_def uuid_text_def by blast+
  then show ?thesis using assms(1) unfolding env_standard_def canonical_uuid_def by (metis option.inject)
qed

lemma stmt_ids:
  assumes "env_standard env" "\<forall>r \<in> set rows. canonical_uuid (aw_id r)" "r \<in> set (snd (asg_stmt_step (ae_uuid env) s rows))"
  shows "canonical_uuid (aw_id r)"
proof (cases s)
  case (SInsert a)
  then show ?thesis
    using assms standard_id [OF assms(1)]
    by (auto simp: insert_stmt_def asg_row_of_def Let_def split: option.splits if_splits sum.splits)
next
  case (SUpdate a)
  then have "aw_id r \<in> aw_id ` set rows"
    using assms(3) by (auto simp: update_stmt_def Let_def split: option.splits if_splits)
  then show ?thesis using assms(2) by auto
qed

lemma run_ids:
  "env_standard env \<Longrightarrow> \<forall>r \<in> set rows. canonical_uuid (aw_id r) \<Longrightarrow>
    \<forall>r \<in> set (run_db (asg_stmt_step (ae_uuid env)) ss rows). canonical_uuid (aw_id r)"
proof (induction ss arbitrary: rows)
  case (Cons s ss)
  then show ?case using stmt_ids [of env rows _ s] by auto
qed simp

lemma meanwhile_fit:
  assumes "env_standard env" "table_fit (ag_rows w)"
  shows "table_fit (meanwhile env w w')" "book_step\<^sup>*\<^sup>* (book_of (ag_rows w)) (book_of (meanwhile env w w'))"
  using assms meanwhile_good [OF standard_sound] run_ids [of env "ag_rows w"]
  by (auto simp: table_fit_def meanwhile_def)

text \<open>An action that leaves the assignments to their owners: it may let other requests' statements happen.\<close>

definition tame :: "('a, 'r asg_world_scheme) act \<Rightarrow> bool" where
  "tame m \<longleftrightarrow> (\<forall>w. table_fit (ag_rows w) \<longrightarrow> table_fit (ag_rows (snd (m w))) \<and>
     book_step\<^sup>*\<^sup>* (book_of (ag_rows w)) (book_of (ag_rows (snd (m w)))))"

named_theorems tame_intro \<open>rules for tame actions\<close>

lemma tame_ret [tame_intro]: "tame (ret x)"
  by (simp add: tame_def ret_def)

lemma tame_raise [tame_intro]: "tame (raise e)"
  by (simp add: tame_def raise_def)

lemma tame_lift [tame_intro]: "tame (lift r)"
  by (simp add: tame_def lift_def)

lemma tame_wrapW [tame_intro]: "tame m \<Longrightarrow> tame (wrapW g m)"
  by (auto simp: tame_def wrapW_def split: prod.splits)

lemma tame_if [tame_intro]: "tame m \<Longrightarrow> tame n \<Longrightarrow> tame (if b then m else n)"
  by simp

lemma tame_bind [tame_intro]:
  fixes m :: "('a, 'r asg_world_scheme) act"
  assumes m: "tame m" and f: "\<And>x. tame (f x)"
  shows "tame (bindW m f)"
  unfolding tame_def
proof (intro allI impI)
  fix w :: "'r asg_world_scheme" assume w: "table_fit (ag_rows w)"
  have m': "table_fit (ag_rows (snd (m w)))" "book_step\<^sup>*\<^sup>* (book_of (ag_rows w)) (book_of (ag_rows (snd (m w))))"
    using m w by (auto simp: tame_def)
  show "table_fit (ag_rows (snd (bindW m f w))) \<and> book_step\<^sup>*\<^sup>* (book_of (ag_rows w)) (book_of (ag_rows (snd (bindW m f w))))"
  proof (cases "m w" rule: outcome_pair_cases)
    case (1 x w1)
    then show ?thesis using m' f [of x] by (auto simp: bindW_def tame_def intro: rtranclp_trans)
  qed (use m' in \<open>auto simp: bindW_def\<close>)
qed

lemma tame_tryW [tame_intro]:
  fixes m :: "('a, 'r asg_world_scheme) act"
  assumes m: "tame m" and f: "\<And>x. tame (f x)" and g: "\<And>e. tame (g e)"
  shows "tame (tryW m f g)"
  unfolding tame_def
proof (intro allI impI)
  fix w :: "'r asg_world_scheme" assume w: "table_fit (ag_rows w)"
  have m': "table_fit (ag_rows (snd (m w)))" "book_step\<^sup>*\<^sup>* (book_of (ag_rows w)) (book_of (ag_rows (snd (m w))))"
    using m w by (auto simp: tame_def)
  show "table_fit (ag_rows (snd (tryW m f g w))) \<and> book_step\<^sup>*\<^sup>* (book_of (ag_rows w)) (book_of (ag_rows (snd (tryW m f g w))))"
  proof (cases "m w" rule: outcome_pair_cases)
    case (1 x w1)
    then show ?thesis using m' f [of x] by (auto simp: tryW_def tame_def intro: rtranclp_trans)
  next
    case (2 e w1)
    then show ?thesis using m' g [of e] by (auto simp: tryW_def tame_def intro: rtranclp_trans)
  qed (use m' in \<open>auto simp: tryW_def\<close>)
qed

lemma tame_forW [tame_intro]: "(\<And>x. tame (f x)) \<Longrightarrow> tame (forW f xs)"
  by (induction xs) (auto intro: tame_intro)

lemma tame_reads_only: "env_standard env \<Longrightarrow> reads_only env m Q \<Longrightarrow> tame m"
  unfolding tame_def reads_only_def using meanwhile_fit by (metis table_fit_def)

lemma tame_entry:
  assumes "tame m" "table_fit (ag_rows w)" "m w = (r, w')" "book_of (ag_rows w) rid = Some (c, t, ph)"
  shows "table_fit (ag_rows w')" "\<exists>ph'. book_of (ag_rows w') rid = Some (c, t, ph')"
  using assms book_keeps unfolding tame_def by (metis snd_conv)+

text \<open>The stores beside the table.\<close>

definition flow_tame :: "('w, 'r asg_world_scheme) assignment_flow \<Rightarrow> bool" where
  "flow_tame f \<longleftrightarrow> env_standard (fw_env f) \<and> (\<forall>b. fw_bound f = Some b \<longrightarrow> env_standard b) \<and>
     (\<forall>x y. tame (fw_eligible f x y)) \<and> (\<forall>x. tame (fw_order f x)) \<and> (\<forall>x. tame (fw_variant f x)) \<and> (\<forall>x. tame (fw_payment f x)) \<and>
     (\<forall>many xs. fw_payments f = Some many \<longrightarrow> tame (many xs)) \<and> (\<forall>c x. fw_openReturns f = Some c \<longrightarrow> tame (or_assert c x)) \<and>
     (\<forall>tx. fw_tx f = Some tx \<longrightarrow> tame (tx_begin tx) \<and> tame (tx_commit tx)) \<and> (\<forall>key. tame (fw_lock f key))"

lemma tame_find_each: "(\<And>x. tame (look x)) \<Longrightarrow> tame (find_each label look skip xs)"
  by (induction xs) (auto intro!: tame_intro)

lemma tame_lookupPayments: "flow_tame f \<Longrightarrow> tame (lookupPayments f ids)"
  unfolding lookupPayments_def lookup_batch_def Let_def flow_tame_def
  by (auto intro!: tame_intro tame_find_each split: option.split)

lemma tame_orderUnitOwned: "flow_tame f \<Longrightarrow> tame (orderUnitOwned f o0)"
  unfolding orderUnitOwned_def by (auto intro!: tame_intro tame_lookupPayments split: option.split)

lemma tame_unit_product: "flow_tame f \<Longrightarrow> tame (unit_product f v m)"
  unfolding unit_product_def flow_tame_def by (auto intro!: tame_intro split: option.split)

lemma tame_requireOwnedUnit: "flow_tame f \<Longrightarrow> tame (requireOwnedUnit f c u m)"
  unfolding requireOwnedUnit_def Let_def
  by (auto intro!: tame_intro tame_orderUnitOwned tame_unit_product split: option.split prod.split) (simp add: flow_tame_def)

lemma tame_assertUnits: "flow_tame f \<Longrightarrow> tame (assertUnitsNotOnOpenReturn (Some f) us)"
  unfolding assertUnitsNotOnOpenReturn_def flow_tame_def by (auto intro!: tame_intro split: option.split)

lemma tame_CheckPurchase: "flow_tame f \<Longrightarrow> tame (CheckPurchase (Some f) c x ac)"
  unfolding CheckPurchase_def configured_def option.case Let_def resolveParentProduct_def eligible_pair_def
  by (auto intro!: tame_intro tame_requireOwnedUnit tame_assertUnits) (simp_all add: flow_tame_def)

lemma tame_childEligibility: "tame (childEligibilityIDs f ctx x)"
  unfolding childEligibilityIDs_def Let_def by (auto intro!: tame_intro split: option.split)

lemma tame_Lock: "flow_tame f \<Longrightarrow> tame (LockAssignmentUnits (if b then Some (fw_lock f) else None) us)"
  unfolding LockAssignmentUnits_def flow_tame_def by (auto intro!: tame_intro)

section \<open>What a customer may bind\<close>

definition answers :: "('a, 's) act \<Rightarrow> 'a \<Rightarrow> bool" where "answers m x \<longleftrightarrow> (\<exists>s s'. m s = (Ok x, s'))"

lemma answersI: "m s = (Ok x, s') \<Longrightarrow> answers m x"
  by (auto simp: answers_def)

text \<open>The order is paid for, or there was nothing to pay.\<close>

definition paid_for :: "('w, 'd) assignment_flow \<Rightarrow> order \<Rightarrow> bool" where
  "paid_for f o1 \<longleftrightarrow> \<not> dead_order o1 \<and> (\<exists>byPayment. answers (lookupPayments f [o_ID o1]) byPayment \<and>
     (case byPayment (o_ID o1) of
        Some p \<Rightarrow> p_status p = PayCompleted
      | None \<Rightarrow> (\<exists>due. PayableAmount o1 = Ok due \<and> m_amount due = 0)))"

text \<open>The unit is a line of such an order of the customer.\<close>

definition owns :: "('w, 'd) assignment_flow \<Rightarrow> string \<Rightarrow> string \<Rightarrow> bool" where
  "owns f customerID unit \<longleftrightarrow> (\<exists>orderID variantID o1. SplitUnitID unit = Some (orderID, variantID) \<and>
     answers (fw_order f orderID) (Some o1) \<and> trim_space (o_CustomerID o1) = customerID \<and> on_order o1 variantID \<and> paid_for f o1)"

lemma owned_Ok:
  assumes "orderUnitOwned f (Some o1) w = (Ok True, w')"
  shows "paid_for f o1"
proof -
  obtain by1 w1 where p: "\<not> dead_order o1" "lookupPayments f [o_ID o1] w = (Ok by1, w1)"
    "orderOwnedWithPayment (Some o1) (by1 (o_ID o1)) = Ok True"
    using assms by (auto simp: orderUnitOwned_def act_Ok split: if_splits)
  then have "case by1 (o_ID o1) of Some p \<Rightarrow> p_status p = PayCompleted | None \<Rightarrow> (\<exists>due. PayableAmount o1 = Ok due \<and> m_amount due = 0)"
    by (auto simp: orderOwnedWithPayment_def split: option.splits)
  then show ?thesis using p(1) answersI [of "lookupPayments f [o_ID o1]" w by1 w1] p(2) by (auto simp: paid_for_def)
qed

lemma requireOwned_Ok:
  assumes run: "requireOwnedUnit f customerID unit msg w = (Ok u, w')" and c: "CanonicalUnitID unit = Some c"
  shows "owns f customerID c \<and> customerID \<noteq> []"
proof -
  obtain orderID variantID where split: "SplitUnitID c = Some (orderID, variantID)"
    using c by (rule canonical_unit)
  obtain o1 w1 w2 w3 where steps: "fw_order f orderID w = (Ok (Some o1), w1)" "trim_space (o_CustomerID o1) = customerID"
    "orderUnitOwned f (Some o1) w2 = (Ok True, w3)" "on_order o1 variantID" "trim_space customerID \<noteq> []"
    using run unfolding requireOwnedUnit_def c option.case split prod.case Let_def
    by (auto simp: act_Ok split: if_splits option.splits)
  then show ?thesis
    using split owned_Ok by (auto simp: owns_def intro!: exI answersI)
qed

text \<open>The product of a unit, by its variant.\<close>

definition product_of_unit :: "('w, 'd) assignment_flow \<Rightarrow> string \<Rightarrow> string \<Rightarrow> bool" where
  "product_of_unit f unit product \<longleftrightarrow> (\<exists>orderID variantID v. SplitUnitID unit = Some (orderID, variantID) \<and>
     answers (fw_variant f variantID) (Some v) \<and> v_ProductID v = product \<and> trim_space product \<noteq> [])"

text \<open>The products of a ticket that need a card: those of its leaves that do, or else the product itself.\<close>

definition ticket_products :: "('w, 'd) assignment_flow \<Rightarrow> req_ctx \<Rightarrow> string \<Rightarrow> string list \<Rightarrow> bool" where
  "ticket_products f ctx product ids \<longleftrightarrow> (\<exists>leaves.
     (fw_products f = None \<and> leaves = [] \<or>
      (\<exists>products p0. fw_products f = Some products \<and> of_res (pq_find products ctx product) = Ok p0 \<and>
         (p0 = None \<and> leaves = [] \<or> LinkedParentChildProductIDs ctx (fw_products f) (fw_components f) p0 = Ok leaves))) \<and>
     ids = (if leaves = [] then [product] else leaves))"

text \<open>A product that may be linked to the product of the parent unit.\<close>

definition eligible_for :: "('w, 'd) assignment_flow \<Rightarrow> string \<Rightarrow> string \<Rightarrow> bool" where
  "eligible_for f x parentUnit \<longleftrightarrow> (\<exists>card. product_of_unit f parentUnit card \<and> answers (fw_eligible f x card) True)"

lemma requireOwned_product:
  assumes run: "requireOwnedUnit f customerID unit msg w = (Ok u, w')" and c: "CanonicalUnitID unit = Some c"
  shows "product_of_unit f c (ou_ProductID u)"
proof -
  obtain orderID variantID where split: "SplitUnitID c = Some (orderID, variantID)"
    using c by (rule canonical_unit)
  obtain pid w1 w2 where "unit_product f variantID msg w1 = (Ok pid, w2)" and u: "ou_ProductID u = pid"
    using run unfolding requireOwnedUnit_def c option.case split prod.case Let_def
    by (auto simp: act_Ok split: if_splits option.splits)
  then obtain v w3 w4 where "fw_variant f variantID w3 = (Ok (Some v), w4)" "v_ProductID v = pid" "trim_space pid \<noteq> []"
    by (auto simp: unit_product_def act_Ok split: if_splits option.splits)
  then show ?thesis unfolding product_of_unit_def u using split by (blast intro: answersI)
qed

lemma childEligibility_Ok:
  assumes "childEligibilityIDs f ctx product w = (Ok ids, w')" "trim_space product \<noteq> []"
  shows "ticket_products f ctx (trim_space product) ids"
  using assms
  by (auto simp: childEligibilityIDs_def ticket_products_def Let_def act_Ok split: option.splits if_splits)

lemma CheckPurchase_Ok:
  assumes run: "CheckPurchase (Some f) customerID x (assignment_context_zero\<lparr>ac_ParentUnitID := u\<rparr>) w = (Ok (), w')"
    and u: "trim_space u = u" "u \<noteq> []" "CanonicalUnitID u = Some u" and c: "trim_space customerID = customerID"
  shows "eligible_for f (trim_space x) u"
proof -
  obtain pu w1 w2 w3 where r: "requireOwnedUnit f customerID u ParentNotOwnedMessage w = (Ok pu, w1)"
      "fw_eligible f (trim_space x) (ou_ProductID pu) w2 = (Ok True, w3)"
    using run u(1,2) c
    by (auto simp: CheckPurchase_def configured_def resolveParentProduct_def eligible_pair_def assignment_context_zero_def Let_def act_Ok
        split: if_splits)
  have "product_of_unit f u (ou_ProductID pu)" by (rule requireOwned_product [OF r(1) u(3)])
  then show ?thesis unfolding eligible_for_def answers_def using r(2) by blast
qed

lemma forW_Ok: "forW f xs w = (Ok u, w') \<Longrightarrow> x \<in> set xs \<Longrightarrow> \<exists>w1 w2. f x w1 = (Ok (), w2)"
  by (induction xs arbitrary: w) (auto simp: act_Ok)

lemma each_once_trimmed: "x \<in> set (each_once (\<lambda>u. u) seen xs) \<Longrightarrow> trim_space x = x"
  by (induction "\<lambda>u :: string. u" seen xs rule: each_once.induct) (auto simp: Let_def split: if_splits)

lemma CheckPurchaseAll_Ok:
  assumes "CheckPurchaseAll (Some f) customerID ids (assignment_context_zero\<lparr>ac_ParentUnitID := u\<rparr>) w = (Ok y, w')"
    and "trim_space u = u" "u \<noteq> []" "CanonicalUnitID u = Some u" "trim_space customerID = customerID" "x \<in> set (uniqueNonEmpty ids)"
  shows "eligible_for f x u"
proof -
  obtain w1 w2 where "CheckPurchase (Some f) customerID x (assignment_context_zero\<lparr>ac_ParentUnitID := u\<rparr>) w1 = (Ok (), w2)"
    using forW_Ok [OF assms(1)[unfolded CheckPurchaseAll_def] assms(6)] by blast
  from CheckPurchase_Ok [OF this assms(2-5)] show ?thesis
    using each_once_trimmed assms(6) by (simp add: uniqueNonEmpty_def)
qed

lemma CurrentByChild_row:
  assumes w: "env_standard env" "table_fit (ag_rows w)" and run: "CurrentByChild env c w = (Ok (Some a), w')" and c: "CanonicalUnitID c = Some c" "trim_space c = c"
  shows "\<exists>r \<in> set (ag_rows w'). aw_child r = c \<and> pa_ID a = aw_id r \<and> canonical_uuid (aw_id r)"
proof -
  have can: "canonicalUnitID c m1 m2 = Ok c" for m1 m2
    using c canonical_nonempty [OF c(1)] by (simp add: canonicalUnitID_def)
  have "table_fit (ag_rows w')"
    using tame_reads_only [OF w(1) quiet_reads(1) [OF standard_sound [OF w(1)]], of c] w(2) run unfolding tame_def by (metis snd_conv)
  moreover obtain row w1 where q: "asg_query env ''find current'' (\<lambda>rows. Inr (find (\<lambda>r. aw_child r = c \<and> live_status (aw_status r)) rows)) w =
      (Ok (Inr (Some row)), w1)" and s: "scanProductAssignment row = Ok a" "w' = w1"
    using run unfolding CurrentByChild_def can AsgRepo_FindCurrentByChildID_def
    by (auto simp: act_Ok split: if_splits option.splits)
  moreover have "row \<in> set (ag_rows w')" "aw_child row = c"
    using query_Ok [OF q] s(2) by (auto simp: find_Some_iff)
  ultimately show ?thesis
    using scan_found [of row a] by (auto simp: table_fit_def table_good_def row_good_def loaded_def)
qed

lemma tame_run:
  assumes "tame m" "table_fit (ag_rows w)" "m w = (r, w')"
  shows "table_fit (ag_rows w')" "book_step\<^sup>*\<^sup>* (book_of (ag_rows w)) (book_of (ag_rows w'))"
  using assms unfolding tame_def by (metis snd_conv)+

text \<open>The state in which a write under the locks runs.\<close>

lemma execute_Ok:
  assumes f: "flow_tame g" and w: "table_fit (ag_rows w)" and run: "execute_write g b us write w = (Ok a, w')"
  obtains w1 where "table_fit (ag_rows w1)" "book_step\<^sup>*\<^sup>* (book_of (ag_rows w)) (book_of (ag_rows w1))" "write g w1 = (Ok a, w')"
proof -
  obtain w1 w2 where steps: "LockAssignmentUnits (if b then Some (fw_lock g) else None) us w = (Ok (), w1)"
    "assertUnitsNotOnOpenReturn (Some g) us w1 = (Ok (), w2)" "write g w2 = (Ok a, w')"
    using run by (auto simp: execute_write_def act_Ok)
  note t1 = tame_run [OF tame_Lock [OF f] w steps(1)]
  note t2 = tame_run [OF tame_assertUnits [OF f] t1(1) steps(2)]
  show ?thesis by (rule that [OF t2(1) rtranclp_trans [OF t1(2) t2(2)] steps(3)])
qed

lemma flow_tame_bound: "flow_tame f \<Longrightarrow> Flow_WithTx True (Some f) = Some g \<Longrightarrow> flow_tame g"
  by (auto simp: Flow_WithTx_def flow_tame_def split: option.splits)

lemma with_rollback_Ok: "with_rollback tx m s = (Ok x, s') \<longleftrightarrow> m s = (Ok x, s')"
  by (auto simp: with_rollback_def split: prod.splits outcome.splits)

lemma runAssignedWrite_Ok:
  fixes f :: "('w, 'r asg_world_scheme) assignment_flow"
  assumes f: "flow_tame f" and w: "table_fit (ag_rows w)" and run: "runAssignedWrite f us write w = (Ok a, w')"
  obtains g w1 w2 where "flow_tame g" "table_fit (ag_rows w1)" "book_step\<^sup>*\<^sup>* (book_of (ag_rows w)) (book_of (ag_rows w1))"
    "write g w1 = (Ok a, w2)"
proof (cases "fw_writeTx f")
  case True
  with run have "execute_write f True us write w = (Ok a, w')" by (simp add: runAssignedWrite_def)
  from execute_Ok [OF f w this] show ?thesis using that f by blast
next
  case plain: False
  show ?thesis
  proof (cases "\<exists>tx g. fw_tx f = Some tx \<and> Flow_WithTx True (Some f) = Some g \<and> BindsTx (Some f)")
    case True
    then obtain tx g where g: "fw_tx f = Some tx" "Flow_WithTx True (Some f) = Some g" "BindsTx (Some f)" by blast
    with run plain obtain w1 w2 where steps: "tx_begin tx w = (Ok (), w1)" "execute_write g True us write w1 = (Ok a, w2)"
      by (auto simp: runAssignedWrite_def act_Ok with_rollback_Ok)
    have fg: "flow_tame g" by (rule flow_tame_bound [OF f g(2)])
    have "tame (tx_begin tx)" using f g(1) by (simp add: flow_tame_def)
    note t1 = tame_run [OF this w steps(1)]
    from fg t1(1) steps(2) obtain w3 where "table_fit (ag_rows w3)"
      "book_step\<^sup>*\<^sup>* (book_of (ag_rows w1)) (book_of (ag_rows w3))" "write g w3 = (Ok a, w2)"
      by (rule execute_Ok)
    then show ?thesis using that [OF fg, of w3 w2] t1(2) by (meson rtranclp_trans)
  next
    case False
    then have "bindW (assertUnitsNotOnOpenReturn (Some f) us) (\<lambda>_. write f) w = (Ok a, w')"
      using run plain by (auto simp: runAssignedWrite_def split: option.splits if_splits)
    then obtain w1 where steps: "assertUnitsNotOnOpenReturn (Some f) us w = (Ok (), w1)" "write f w1 = (Ok a, w')"
      by (auto simp: act_Ok)
    note t1 = tame_run [OF tame_assertUnits [OF f] w steps(1)]
    show ?thesis by (rule that [OF f t1 steps(2)])
  qed
qed

lemma assign_result:
  assumes env: "env_standard env" and w: "table_fit (ag_rows w)" and run: "Service_Assign env aid p w = (Ok a, w')"
    and aid: "canonical_uuid aid" "book_of (ag_rows w) aid = Some (c, t, ph)"
  shows "pa_ChildOrderItemID a = c \<and> pa_ParentOrderItemID a = trim_space p \<and> pa_status a = AsgAssigned"
proof -
  obtain a0 a1 w1 w2 where get: "Assignment_Get env aid w = (Ok a0, w1)"
    and asn: "Assignment_Assign (trim_space p) (Some a0) = Ok a1" and upd: "AsgRepo_Update env (Some a1) w2 = (Ok a, w')"
    using run unfolding Service_Assign_def assign_unit_def by (auto simp: act_Ok)
  note t = tame_run [OF tame_reads_only [OF env quiet_Get [OF standard_sound [OF env]]] w get]
  obtain r where r: "r \<in> set (ag_rows w1)" "ae_uuid env (trim_space aid) = Some (aw_id r)" "scanProductAssignment r = Ok a0"
    using get by (rule Get_row)
  have "trim_space aid = aid" using aid(1) uuid_plain trim_space_plain by (auto simp: canonical_uuid_def)
  then have id: "aw_id r = aid" using r(2) standard_own [OF env aid(1)] by simp
  obtain ph' where "book_of (ag_rows w1) aid = Some (c, t, ph')" using book_keeps [OF t(2) aid(2)] by blast
  then have "aw_child r = c" using r(1) id t(1) book_of_Some [of "ag_rows w1" aid]
    by (metis (no_types, lifting) distinct_map inj_onD prod.inject table_fit_def table_good_def)
  moreover have "pa_ChildOrderItemID a0 = aw_child r"
    using r(3) by (auto simp: scanProductAssignment_def Assignment_SetStatusFromDB_def Let_def split: if_splits)
  moreover have "a = Assignment_AcceptStoredStatus a1" using upd by (rule Update_Ok)
  ultimately show ?thesis
    using asn by (auto simp: Assignment_Assign_def Assignment_AcceptStoredStatus_def Let_def split: if_splits)
qed

lemma create_result:
  assumes "CreateAssigned env p c w = (Ok a, w')"
  shows "pa_ChildOrderItemID a = trim_space c \<and> pa_ParentOrderItemID a = trim_space p \<and> pa_status a = AsgAssigned"
  using assms
  by (auto simp: CreateAssigned_def insertAssigned_def NewAssigned_def AsgRepo_Insert_def Assignment_AcceptStoredStatus_def Let_def act_Ok)

text \<open>C12: A customer binds only what is theirs. Whatever the stores answer and whatever other requests do
  in between, when \<open>AssignOwned\<close> returns an assignment it is live, it binds exactly the named
  ticket to the named card, both units are lines of the customer's own orders that were neither
  cancelled nor failed and were paid for (or had nothing to pay), and each product of the ticket
  that needs a card (the product of its variant, or the leaves of that product that do) was accepted
  for the product of the card's variant. Orders, payments, variants and eligibility are as their
  lookups answer in some state. The statements of other requests are those the service writes, and
  the table the call starts from is one those statements can leave.\<close>

theorem customer_binds_own_units:
  fixes f :: "('w, 'r asg_world_scheme) assignment_flow"
  assumes "flow_tame f" "table_fit (ag_rows w)" "AssignOwned (Some f) ctx customerID childID parentID w = (Ok a, w')"
  shows "\<exists>cu pu product ids. CanonicalUnitID childID = Some cu \<and> CanonicalUnitID parentID = Some pu \<and>
    pa_ChildOrderItemID a = cu \<and> pa_ParentOrderItemID a = pu \<and> pa_status a = AsgAssigned \<and>
    trim_space customerID \<noteq> [] \<and> owns f (trim_space customerID) cu \<and> owns f (trim_space customerID) pu \<and>
    product_of_unit f cu product \<and> ticket_products f ctx (trim_space product) ids \<and>
    (\<forall>x \<in> set (uniqueNonEmpty ids). eligible_for f x pu)"
proof -
  let ?cust = "trim_space customerID"
  have cust: "?cust \<noteq> []" using assms(3) by (auto simp: AssignOwned_def configured_def Let_def act_Ok split: if_splits)
  then obtain cu pu where c: "CanonicalUnitID childID = Some cu" "CanonicalUnitID parentID = Some pu"
    using assms(3) by (auto simp: AssignOwned_def configured_def Let_def act_Ok split: option.splits)
  have own: "CanonicalUnitID cu = Some cu" "trim_space cu = cu" "CanonicalUnitID pu = Some pu" "trim_space pu = pu" "pu \<noteq> []"
    using canonical_unit [OF c(1)] canonical_unit [OF c(2)] canonical_nonempty [OF c(2)] by metis+
  obtain child parent ids cur w1 w2 w3 w4 w5 w6 where steps:
      "requireOwnedUnit f ?cust cu ChildNotOwnedMessage w = (Ok child, w1)"
      "requireOwnedUnit f ?cust pu ParentNotOwnedMessage w1 = (Ok parent, w2)"
      "assertUnitsNotOnOpenReturn (Some f) [cu, pu] w2 = (Ok (), w3)"
      "childEligibilityIDs f ctx (ou_ProductID child) w3 = (Ok ids, w4)"
      "CheckPurchaseAll (Some f) ?cust ids (assignment_context_zero\<lparr>ac_ParentUnitID := pu\<rparr>) w4 = (Ok (), w5)"
      "CurrentByChild (fw_env f) cu w5 = (Ok cur, w6)"
    and last: "runAssignedWrite f [cu, pu] (\<lambda>bound. if (case cur of None \<Rightarrow> [] | Some a \<Rightarrow> pa_ID a) \<noteq> []
          then Service_Assign (fw_env bound) (case cur of None \<Rightarrow> [] | Some a \<Rightarrow> pa_ID a) pu
          else CreateAssigned (fw_env bound) pu cu) w6 = (Ok a, w')"
    using assms(3) cust c
    by (auto simp: AssignOwned_def configured_def Let_def act_Ok split: if_splits)
  have env: "env_standard (fw_env f)" using assms(1) by (simp add: flow_tame_def)
  note t1 = tame_run [OF tame_requireOwnedUnit [OF assms(1)] assms(2) steps(1)]
  note t2 = tame_run [OF tame_requireOwnedUnit [OF assms(1)] t1(1) steps(2)]
  note t3 = tame_run [OF tame_assertUnits [OF assms(1)] t2(1) steps(3)]
  note t4 = tame_run [OF tame_childEligibility t3(1) steps(4)]
  have "tame (CheckPurchaseAll (Some f) ?cust ids (assignment_context_zero\<lparr>ac_ParentUnitID := pu\<rparr>))"
    unfolding CheckPurchaseAll_def by (intro tame_forW tame_CheckPurchase assms(1))
  note t5 = tame_run [OF this t4(1) steps(5)]
  note t6 = tame_run [OF tame_reads_only [OF env quiet_reads(1) [OF standard_sound [OF env]]] t5(1) steps(6)]
  obtain g :: "('w, 'r asg_world_scheme) assignment_flow" and w7 w8 :: "'r asg_world_scheme" where g: "flow_tame g" "table_fit (ag_rows w7)" "book_step\<^sup>*\<^sup>* (book_of (ag_rows w6)) (book_of (ag_rows w7))"
    and wr: "(\<lambda>bound. if (case cur of None \<Rightarrow> [] | Some a \<Rightarrow> pa_ID a) \<noteq> []
          then Service_Assign (fw_env bound) (case cur of None \<Rightarrow> [] | Some a \<Rightarrow> pa_ID a) pu
          else CreateAssigned (fw_env bound) pu cu) g w7 = (Ok a, w8)"
    using assms(1) t6(1) last by (rule runAssignedWrite_Ok)
  have genv: "env_standard (fw_env g)" using g(1) by (simp add: flow_tame_def)
  have "pa_ChildOrderItemID a = cu \<and> pa_ParentOrderItemID a = pu \<and> pa_status a = AsgAssigned"
  proof (cases "(case cur of None \<Rightarrow> [] | Some a \<Rightarrow> pa_ID a) = []")
    case True
    then show ?thesis using create_result [of "fw_env g" pu cu w7 a w8] wr own by simp
  next
    case False
    then obtain a0 where cur: "cur = Some a0" by (cases cur) auto
    then obtain r where r: "r \<in> set (ag_rows w6)" "aw_child r = cu" "pa_ID a0 = aw_id r" "canonical_uuid (aw_id r)"
      using CurrentByChild_row [OF env t5(1) _ own(1,2)] steps(6) by blast
    then have "book_of (ag_rows w6) (aw_id r) = Some (cu, aw_created r, phase_of r)"
      using t6(1) by (auto simp: table_fit_def table_good_def book_of_Some)
    then obtain ph' where "book_of (ag_rows w7) (aw_id r) = Some (cu, aw_created r, ph')"
      using book_keeps [OF g(3)] by blast
    moreover have "Service_Assign (fw_env g) (aw_id r) pu w7 = (Ok a, w8)" using wr False cur r(3) by simp
    ultimately show ?thesis using assign_result [OF genv g(2) _ r(4)] own(4) by metis
  qed
  moreover have "owns f ?cust cu" "owns f ?cust pu"
    using requireOwned_Ok [OF steps(1) own(1)] requireOwned_Ok [OF steps(2) own(3)] by auto
  moreover have prod: "product_of_unit f cu (ou_ProductID child)" by (rule requireOwned_product [OF steps(1) own(1)])
  moreover have "ticket_products f ctx (trim_space (ou_ProductID child)) ids"
    using childEligibility_Ok [OF steps(4)] prod by (auto simp: product_of_unit_def)
  moreover have "\<forall>x \<in> set (uniqueNonEmpty ids). eligible_for f x pu"
    using CheckPurchaseAll_Ok [OF steps(5) own(4,5,3)] by simp
  ultimately show ?thesis using c cust by blast
qed

section \<open>An instance\<close>

text \<open>One paid order with a card and a ticket.\<close>

definition fair_order_id :: string where "fair_order_id = ''00000000-0000-4000-8000-0000000000aa''"

definition fair_order :: order where
  "fair_order =
     (let z = \<lparr>m_amount = 0, m_currency = ''EUR''\<rparr>;
          line = (\<lambda>v. \<lparr>oi_VariantID = v, oi_SKU = v, oi_Name = v, oi_Quantity = 1, oi_UnitPrice = z\<lparr>m_amount := 500\<rparr>,
                       oi_Restockable = False, oi_CreatedAt = 5\<rparr>) in
      \<lparr>o_ID = fair_order_id, o_CustomerID = ''c1'', o_ContactEmail = [], o_status = OrderStatusPaid, o_Currency = ''EUR'',
       o_items = [line ''card'', line ''ticket''], o_TotalAmount = z\<lparr>m_amount := 1000\<rparr>, o_StoreCreditApplied = z,
       o_DestinationCountry = [], o_TaxAmount = z, o_CreatedAt = 5, o_UpdatedAt = 5\<rparr>)"

definition fair_payment :: payment where
  "fair_payment = \<lparr>p_ID = ''p1'', p_OrderID = fair_order_id, p_Method = MethodStripe, p_status = PayCompleted,
     p_Amount = \<lparr>m_amount = 1000, m_currency = ''EUR''\<rparr>, p_ProviderRef = ''x'', p_CreatedAt = 5, p_UpdatedAt = 5\<rparr>"

definition fair_variant :: "string \<Rightarrow> nat variant" where
  "fair_variant v = \<lparr>v_ID = v, v_ProductID = v @ ''-p'', v_SKU = v, v_Name = v, v_Weight = 0, v_Attributes = Map.empty,
     v_CreatedAt = 5, v_UpdatedAt = 5\<rparr>"

definition fair_env :: asg_env where
  "fair_env = demo_asg_env\<lparr>ae_others := (\<lambda>_. []), ae_uuid := (\<lambda>s. if IsUUID s then Some (map lower_char s) else None)\<rparr>"

definition fair_flow :: "(nat, asg_world) assignment_flow" where
  "fair_flow = \<lparr>fw_env = fair_env, fw_bound = Some fair_env, fw_eligible = (\<lambda>c p. ret (c = ''ticket-p'' \<and> p = ''card-p'')),
     fw_order = (\<lambda>x. ret (if x = fair_order_id then Some fair_order else None)), fw_orders_of = (\<lambda>c. ret [fair_order]),
     fw_orders = None, fw_variant = (\<lambda>x. ret (Some (fair_variant x))), fw_variants = None,
     fw_payment = (\<lambda>x. ret (if x = fair_order_id then Some fair_payment else None)), fw_payments = None, fw_products = None,
     fw_components = None, fw_openReturns = None, fw_tx = Some \<lparr>tx_begin = ret (), tx_commit = ret (), tx_rollback = (\<lambda>s _. s)\<rparr>,
     fw_writeTx = False, fw_lock = (\<lambda>_. ret ())\<rparr>"

definition card_unit :: string where "card_unit = UnitID fair_order_id ''card''"
definition ticket_unit :: string where "ticket_unit = UnitID fair_order_id ''ticket''"

lemma fair_env_standard: "env_standard fair_env"
  using demo_asg_env_sound canonical_lower
  by (auto simp: env_standard_def asg_env_sound_def uuid_text_def fair_env_def demo_asg_env_def canonical_uuid_def split: if_splits)

lemma fair_flow_tame: "flow_tame fair_flow"
  by (simp add: flow_tame_def fair_flow_def fair_env_standard tame_ret)

lemma fair_calm: "calm (fw_env fair_flow)"
  by (simp add: calm_def fair_flow_def fair_env_def demo_asg_env_def)

lemma fair_assigned: "fst (AssignOwned (Some fair_flow) background '' c1'' ticket_unit card_unit demo_asg_world) =
    Ok \<lparr>pa_ID = ticket_id, pa_ParentOrderItemID = card_unit, pa_ChildOrderItemID = ticket_unit, pa_status = AsgAssigned,
         pa_storedStatus = AsgAssigned, pa_storedParent = card_unit, pa_CreatedAt = 4000, pa_RevokedAt = None, pa_ForcedAt = None,
         pa_ForcedReason = []\<rparr>"
  by code_simp

theorem customer_binds_own_units_witness:
  "owns fair_flow ''c1'' ticket_unit \<and> owns fair_flow ''c1'' card_unit \<and> eligible_for fair_flow ''ticket-p'' card_unit"
proof -
  have w: "table_fit (ag_rows demo_asg_world)"
    by (simp add: demo_asg_world_rows table_fit_def table_good_Nil)
  have units: "CanonicalUnitID ticket_unit = Some ticket_unit" "CanonicalUnitID card_unit = Some card_unit"
    "SplitUnitID ticket_unit = Some (fair_order_id, ''ticket'')" "trim_space ''ticket-p'' = ''ticket-p''" "trim_space '' c1'' = ''c1''"
    "uniqueNonEmpty [''ticket-p''] = [''ticket-p'']"
    by code_simp+
  obtain a w' where bound: "AssignOwned (Some fair_flow) background '' c1'' ticket_unit card_unit demo_asg_world = (Ok a, w')"
    using fair_assigned by (metis prod.collapse)
  obtain product ids where own: "owns fair_flow ''c1'' ticket_unit" "owns fair_flow ''c1'' card_unit"
      and p: "product_of_unit fair_flow ticket_unit product" "ticket_products fair_flow background (trim_space product) ids"
      and ok: "\<forall>x \<in> set (uniqueNonEmpty ids). eligible_for fair_flow x card_unit"
    using customer_binds_own_units [OF fair_flow_tame w bound] units by auto
  have "product = ''ticket-p''"
    using p(1) units(3) by (auto simp: product_of_unit_def answers_def fair_flow_def fair_variant_def ret_def)
  then have "ids = [''ticket-p'']"
    using p(2) units(4) by (auto simp: ticket_products_def fair_flow_def)
  then show ?thesis using own ok units(6) by simp
qed

definition bound_ticket_row :: assignment_row where
  "bound_ticket_row = \<lparr>aw_id = ticket_id, aw_parent = Some card_unit, aw_child = ticket_unit, aw_status = ''assigned'',
     aw_created = 3000, aw_revoked = None, aw_forced = None, aw_reason = None\<rparr>"

lemma bound_table: "ag_rows (asg_calls fair_env [CCreateAssigned card_unit ticket_unit] demo_asg_world) = [bound_ticket_row]"
  by code_simp

theorem card_returnable_exactly_witness:
  "fst (AssertParentReturnable 1 (Some fair_flow) card_unit [] (asg_calls fair_env [CCreateAssigned card_unit ticket_unit] demo_asg_world)) =
     Fail (AppErr Validation (ParentHasAssignedChildrenMessage @ '' (required: '' @ ticket_unit @ '')''))"
proof -
  let ?w = "asg_calls fair_env [CCreateAssigned card_unit ticket_unit] demo_asg_world"
  have facts: "canonicalUnitID card_unit ''parent order item id must not be empty'' ''parent order item id is invalid'' = Ok card_unit"
      "canonical_or_same ticket_unit = ticket_unit" "skip_units [] = []"
    by code_simp+
  have bound: "{canonical_or_same (aw_child r) | r. r \<in> set (ag_rows ?w) \<and> aw_parent r = Some card_unit \<and> aw_status r = ''assigned''} -
      set (skip_units []) = {ticket_unit}"
    unfolding bound_table facts(3) using facts(2) by (simp add: bound_ticket_row_def)
  have few: "length (ag_rows ?w) < 2 ^ 62" "length (ag_rows ?w) < 100 * 1"
    unfolding bound_table by simp_all
  obtain kids where kids: "distinct kids" "set kids = {ticket_unit}"
      "fst (AssertParentReturnable 1 (Some fair_flow) card_unit [] ?w) =
        (if kids = [] then Ok (Some ())
         else Fail (AppErr Validation (ParentHasAssignedChildrenMessage @ '' (required: '' @ join_with '', '' kids @ '')'')))"
    using card_returnable_exactly [OF fair_calm standard_sound [OF fair_env_standard] demo_asg_world_rows refl few(1) facts(1) few(2), of "[]"]
    unfolding bound by blast
  have "length kids = 1" using distinct_card [OF kids(1)] kids(2) by simp
  then obtain k where "kids = [k]" by (cases kids) auto
  then have "kids = [ticket_unit]" using kids(2) by (simp only: list.set) blast
  then show ?thesis using kids(3) by simp
qed

end
