(* ===== verification/Spec2Isabelle.thy ===== *)
theory Spec2Isabelle
  imports Shop_Prelude Money Lifecycle Registry Cart Orders Payments Shipping Invoices Returns
    Catalog Pricing Tax Promotions UnitPrices StepPositions Database StoreCredit Inventory Jobs Cron
    Effects OrderRepo Checkout Compensation CompensationDb CheckoutRuns
    CheckoutReserve Holds LeafGates VisibilityFacts CheckoutOrder CheckoutFlow CheckoutCharge
    Assignments AssignmentFacts AssignmentFlow AssignmentLocks AssignmentBinding
begin

text \<open>
  A model of the core of the shop (Go, \<open>internal/domain\<close> and \<open>internal/application\<close>),
  with the theorems that make its money, stock and status handling correct.

  \<^bold>\<open>How the code is rendered.\<close> A struct is a record with a prefix on its fields, an enum a
  datatype, \<open>int\<close> and \<open>int64\<close> are 64-bit words read as signed (\<open>sint\<close>; \<open>+\<close>, \<open>-\<close>
  and \<open>*\<close> wrap as in Go, \<open>go_div\<close> is Go's division with its panic left to the caller's
  guard), a string is a list of characters, an instant is an integer. A function that may fail
  returns an \<open>outcome\<close>: \<open>Ok\<close>, \<open>Fail\<close> with an error value, or \<open>Panics\<close>. Methods that
  mutate a receiver return the new value; on \<open>Fail\<close> the old value stands. Repositories,
  event buses, JSON decoders, floating-point comparisons and plugins are arguments. The clock is
  an argument of every operation that reads it. A nil interface is \<open>None\<close>.

  \<^bold>\<open>Theories.\<close>
  \<^item> \<open>Shop_Prelude\<close>: outcomes, errors (\<open>platform/apperror\<close>), strings, signed words, effects
    and the \<open>post\<close> calculus for outcomes that do not panic. \<open>Lifecycle\<close> (locale for status
    machines) and \<open>Registry\<close> (locale for provider registries) are the shared contracts.
  \<^item> \<open>Money\<close>: \<open>domain/shared/money.go\<close>; checked operations are exact or refuse.
  \<^item> \<open>Cart\<close>, \<open>Orders\<close>, \<open>Payments\<close>, \<open>Shipping\<close>, \<open>Invoices\<close>, \<open>Returns\<close>: the aggregates of
    \<open>internal/domain\<close> with every mutating method, and the status services of
    \<open>application/order\<close>, \<open>application/shipping\<close> and \<open>application/invoice\<close>. Their invariants
    are over arbitrary sequences of operations, failed ones included (\<open>run_ops\<close>).
  \<^item> \<open>Catalog\<close>: products and their modes, variants, compositions, visibility, the assignment
    context of a request.
  \<^item> \<open>Pricing\<close>, \<open>UnitPrices\<close>, \<open>Promotions\<close>, \<open>Tax\<close>: the pricing context and pipeline, and its
    five core steps; each step is shown to keep a context in one currency (\<open>currency_safe\<close>),
    the locale \<open>step_contract\<close> lifts that to pipelines.
  \<^item> \<open>StepPositions\<close>: where plugin steps go in the pricing pipeline and in the checkout.
  \<^item> \<open>Database\<close>: what the Postgres adapters share (statements that may fail, transactions,
    histories of operations) and the refinement contract of a table (locale \<open>db_refinement\<close>).
  \<^item> \<open>StoreCredit\<close>: accounts and ledger (\<open>postgres/store_credit_repo.go\<close>,
    \<open>application/storecredit\<close>): the balance is the sum of the ledger, never negative, and an
    idempotency key is credited once.
  \<^item> \<open>Inventory\<close>: stock and reservations (\<open>postgres/reservation_repo.go\<close>, \<open>stock_repo.go\<close>,
    \<open>application/inventory/available_qty.go\<close>): no unit is lost or sold twice, the expiry sweep
    returns, the quantity a bundle can be sold in.
  \<^item> \<open>Jobs\<close>: the job queue (\<open>postgres/job_queue.go\<close>), the worker
    (\<open>domain/jobs/worker.go\<close>) and the admin service: jobs follow their lifecycle, and polling
    brings every job to an end.
  \<^item> \<open>Cron\<close>: cron expressions, their next run, the ticks of the scheduler
    (\<open>infrastructure/cron\<close>) and the registry of tasks (\<open>postgres/scheduler_store.go\<close>): the next
    run is the first matching minute, parsing returns, a disabled task does not fire.
  \<^item> \<open>Effects\<close>: actions that change a state and may fail or panic half-way, and triples about them
    (what holds when an action returns, and what holds of the state it leaves when it does not).
  \<^item> \<open>OrderRepo\<close>: the order tables (\<open>postgres/order_repo.go\<close>): an order is read back as it was
    saved, up to the order of lines created at the same instant, which the SQL leaves open; what
    failing a pending order does; how a later write can undo it.
  \<^item> \<open>Checkout\<close>: the workflow of \<open>application/checkout\<close> (\<open>context.go\<close>, \<open>workflow.go\<close>,
    \<open>payment_failed.go\<close>): the step loop with its events and trace, the compensation of an unpaid
    order, the subscriber to failed payments. A step is an action on the context and the world.
  \<^item> \<open>Compensation\<close>: the contract of the stores that both compensations share (locale
    \<open>unpaid_store\<close>), and what either of them settles under it.
  \<^item> \<open>CompensationDb\<close>: the contract holds of the order tables and the store credit service; whatever
    compensations and events run, the credit of a failed order is given back exactly once.
  \<^item> \<open>CheckoutRuns\<close>: a run's trace against the steps that really ran and the error of the one that
    broke it off; what a failed run leaves behind.
  \<^item> \<open>CheckoutReserve\<close>, \<open>Holds\<close>: the step \<open>reserve_inventory\<close>
    (\<open>reserve_inventory_step.go\<close>) and its contract with the stock (locale \<open>hold_store\<close>, interpreted
    on the reservation and stock tables): it takes every unit of the cart or none.
  \<^item> \<open>LeafGates\<close>: the gates on the required components of a bundle (\<open>required_leaf.go\<close>).
  \<^item> \<open>VisibilityFacts\<close>: the visibility gate of the listings (\<open>visibility_facts.go\<close>,
    \<open>visibility_surface.go\<close>).
  \<^item> \<open>CheckoutOrder\<close>: the step \<open>create_order\<close> (\<open>create_order_step.go\<close>) with the explosion of
    bundles into lines, the check of the reserved quantities, store credit and the transaction.
  \<^item> \<open>CheckoutFlow\<close>: the steps \<open>validate_cart\<close>, \<open>recalculate_pricing\<close>,
    \<open>select_shipping\<close>, \<open>initiate_payment\<close>, their order and \<open>StartCheckout\<close>.
  \<^item> \<open>CheckoutCharge\<close>: what a checkout charges: the order against the pricing snapshot and the
    payment against the order.
  \<^item> \<open>Assignments\<close>, \<open>AssignmentFacts\<close>: product assignments (\<open>domain/assignment\<close>,
    \<open>postgres/product_assignment_repo.go\<close>, \<open>application/assignment/service.go\<close>) with
    the statements of other requests between any two steps: rows are well-typed, the table refines
    a book of bindings, a ticket has at most one live binding, \<open>Assign\<close> is a compare-and-set.
  \<^item> \<open>AssignmentFlow\<close>: who may bind which ticket to which card, and how a purchase, an operator, a
    revocation and a return go through the table (\<open>application/assignment/flow.go\<close>).
  \<^item> \<open>AssignmentLocks\<close>: the advisory locks of those writes are taken in an order that cannot deadlock
    (step relation \<open>lock_move\<close>).
  \<^item> \<open>AssignmentBinding\<close>: a customer binds only what is theirs; a card is returnable exactly when no
    ticket outside the return is bound to it.
  \<^item> This theory: the pricing pipeline as \<open>cmd/api/wire_services.go\<close> wires it.

  \<^bold>\<open>Recursion.\<close> The loops of the modelled code range over finite lists and are structural
  recursion,
  with three exceptions. The batch loop of the expiry sweep and the loop over the values of a cron
  range, whose step may wrap around, are \<open>partial_function\<close>s into an option: the first is proved to
  return for a positive batch size (\<open>sweep_returns\<close>), the second for every specification
  (\<open>NormalizeSpec_sound\<close>). The walk through the pages of \<open>AssertParentReturnable\<close> has a bound on
  its pages, and one page more than a hundredth of the table's rows is proved to be enough
  (\<open>card_returnable_exactly\<close>). The bound of the search for the next run is the code's own constant.

  \<^bold>\<open>Not modelled.\<close> HTTP, mail, templates, configuration, authentication and
  plugin loading are input and output around the modelled code. Goroutines and row locks are
  left out: a database transaction is one step, and operations run one after the other except where
  a theory lets other requests in between; what row locks are for is not shown. Indexes and pages of listings are left out too. A step that fails
  after it has written part of its context is a failed outcome without a context, since every
  caller in the repository discards it.
\<close>

section \<open>The price calculation as it is wired\<close>

text \<open>The core pricing steps in the order of \<open>cmd/api/wire_services.go\<close>, with the rate table calculator,
  which \<open>resolveTaxCalculator\<close> takes unless a plugin brings its own.\<close>

definition core_pricing_steps ::
    "req_ctx \<Rightarrow> 'w price_sources \<Rightarrow> price_cache option \<Rightarrow> promo_env \<Rightarrow> gotime \<Rightarrow> gotime \<Rightarrow> rate_repo \<Rightarrow>
     (int64 \<Rightarrow> string) \<Rightarrow> string \<Rightarrow> pricing_step list" where
  "core_pricing_steps ctx src cache env now1 now2 rates pct defaultClass =
     [BasePriceStep ctx src cache, CatalogPromotionStep env now1, CartPromotionStep env now2,
      TaxStep rates pct defaultClass, FinalizeStep]"

lemma core_names:
  "map st_name (core_pricing_steps ctx src cache env now1 now2 rates pct dc) = pricing_CoreStepCatalog"
  by (simp add: core_pricing_steps_def BasePriceStep_def CatalogPromotionStep_def CartPromotionStep_def
      TaxStep_def FinalizeStep_def pricing_CoreStepCatalog_def)

lemma core_safe:
  assumes "\<forall>prices. us_Prices src = Some prices \<longrightarrow> sane_prices prices" "cache_ok ctx src cache"
    "sane_evaluators (pe_registry env)" "sane_rates rates"
  shows "\<forall>s \<in> set (core_pricing_steps ctx src cache env now1 now2 rates pct dc). currency_safe s"
  using assms
  by (simp add: core_pricing_steps_def BasePriceStep_safe CatalogPromotionStep_safe CartPromotionStep_safe
      TaxStep_safe FinalizeStep_safe)

text \<open>The steps of a plugin registration keep the context in one currency.\<close>

definition safe_plugins :: "pricing_step step_registration list \<Rightarrow> bool" where
  "safe_plugins rs \<longleftrightarrow> (\<forall>r \<in> set rs. \<forall>s. psr_Step r = Some s \<longrightarrow> currency_safe s)"

lemma set_map_filter: "set (List.map_filter f xs) = {y. Some y \<in> f ` set xs}"
  by (induction xs) (auto simp: List.map_filter_def split: option.splits)

lemma steps_at_registered: "s \<in> set (steps_at parse rs m a) \<Longrightarrow> Some s \<in> psr_Step ` set rs"
  unfolding steps_at_def set_map_filter by simp blast

lemma merged_safe:
  assumes "pricing_MergePluginSteps st_name core rs = Ok steps" "distinct (map st_name core)"
    "safe_plugins rs" "\<forall>s \<in> set core. currency_safe s"
  shows "\<forall>s \<in> set steps. currency_safe s"
proof -
  have reg: "currency_safe s" if "s \<in> set (steps_at pricing_ParseStepPosition rs m a)" for s m a
  proof -
    from steps_at_registered [OF that] obtain r where "r \<in> set rs" "psr_Step r = Some s" by (metis imageE)
    then show ?thesis using assms(3) by (simp add: safe_plugins_def)
  qed
  have slot: "currency_safe (case steps_at pricing_ParseStepPosition rs StepPositionReplace (st_name c) of [] \<Rightarrow> c | s # _ \<Rightarrow> s)"
    if "c \<in> set core" for c
    using that assms(4) reg [where m = StepPositionReplace and a = "st_name c"] by (auto split: list.splits)
  show ?thesis
    using assms(1) reg slot unfolding pricing_merge_iff [OF assms(2)] by auto
qed

text \<open>No plugin takes the place of the finalize step or comes after it.\<close>

definition finalize_last :: "pricing_step step_registration list \<Rightarrow> bool" where
  "finalize_last rs \<longleftrightarrow> (\<forall>r \<in> set rs. \<forall>m. pricing_ParseStepPosition (psr_Position r) = Ok (m, ''finalize'') \<longrightarrow>
     m = StepPositionBefore)"

lemma finalize_last_steps_at:
  "finalize_last rs \<Longrightarrow> m \<noteq> StepPositionBefore \<Longrightarrow> steps_at pricing_ParseStepPosition rs m ''finalize'' = []"
  by (induction rs) (auto simp: finalize_last_def)

lemma merged_last:
  assumes "pricing_MergePluginSteps st_name (core @ [FinalizeStep]) rs = Ok steps"
    "distinct (map st_name (core @ [FinalizeStep]))" "finalize_last rs"
  shows "\<exists>front. steps = front @ [FinalizeStep]"
  using assms(1) finalize_last_steps_at [OF assms(3)]
  unfolding pricing_merge_iff [OF assms(2)] by (simp add: FinalizeStep_def)

lemma FinalizeStep_grand:
  assumes "pctx_ok c" "FinalizeStep_Apply c = Ok c'"
  shows "m_currency (pc_GrandTotal c') = pc_Currency c \<and> m_amount (pc_GrandTotal c') =
    word_of_int ((\<Sum>i\<leftarrow>pc_Items c'. cents (pi_Total i)) - adj_cents AdjustmentDiscount (all_adjs c') +
      adj_cents AdjustmentTax (all_adjs c') + adj_cents AdjustmentFee (all_adjs c'))"
  using FinalizeStep_Ok [OF assms(1)] assms(2)
  by (auto simp: all_adjs_def adj_sum_cents word_of_int_sum_list)

section \<open>Properties\<close>

text \<open>C1: the pricing pipeline of the shop, its five core steps with any plugin steps merged in that
  keep the context in one currency, never panics on a context in one currency. When it succeeds
  the context is still in that currency; and unless a plugin replaces the finalize step or comes
  after it, the grand total is then exactly the line totals minus the discounts plus the taxes
  and fees of the final context whenever that number fits in 64 bits.\<close>

theorem pricing_pipeline_sound:
  assumes prices: "\<forall>prices. us_Prices src = Some prices \<longrightarrow> sane_prices prices" and cache: "cache_ok ctx src cache"
    and evaluators: "sane_evaluators (pe_registry env)" and rates: "sane_rates rates"
    and merge: "pricing_MergePluginSteps st_name (core_pricing_steps ctx src cache env now1 now2 rates pct dc) rs = Ok steps"
    and plugins: "safe_plugins rs" and ok: "pctx_ok c"
  shows "(\<forall>p. Pipeline_Execute steps c \<noteq> Panics p) \<and>
    (\<forall>c'. Pipeline_Execute steps c = Ok c' \<longrightarrow> pctx_ok c' \<and> pc_Currency c' = pc_Currency c \<and>
      (let grand = (\<Sum>i\<leftarrow>pc_Items c'. cents (pi_Total i)) - adj_cents AdjustmentDiscount (all_adjs c') +
                   adj_cents AdjustmentTax (all_adjs c') + adj_cents AdjustmentFee (all_adjs c') in
       finalize_last rs \<and> in_int64 grand \<longrightarrow>
         cents (pc_GrandTotal c') = grand \<and> m_currency (pc_GrandTotal c') = pc_Currency c))"
proof -
  let ?core = "core_pricing_steps ctx src cache env now1 now2 rates pct dc"
  have dist: "distinct (map st_name ?core)" by (simp add: core_names pricing_CoreStepCatalog_def)
  have safe: "\<forall>s \<in> set steps. currency_safe s"
    by (rule merged_safe [OF merge dist plugins core_safe [OF prices cache evaluators rates]])
  have inv: "pctx_ok c \<and> pc_Currency c = pc_Currency c" using ok by simp
  have keeps: "pctx_ok c' \<and> pc_Currency c' = pc_Currency c" if "Pipeline_Execute steps c = Ok c'" for c'
    by (rule price_steps.pipeline_keeps [OF safe inv that])
  have grand: "let grand = (\<Sum>i\<leftarrow>pc_Items c'. cents (pi_Total i)) - adj_cents AdjustmentDiscount (all_adjs c') +
                   adj_cents AdjustmentTax (all_adjs c') + adj_cents AdjustmentFee (all_adjs c') in
       finalize_last rs \<and> in_int64 grand \<longrightarrow>
         cents (pc_GrandTotal c') = grand \<and> m_currency (pc_GrandTotal c') = pc_Currency c"
    if run: "Pipeline_Execute steps c = Ok c'" for c'
  proof (unfold Let_def, intro impI, elim conjE)
    assume last: "finalize_last rs"
      and fits: "in_int64 ((\<Sum>i\<leftarrow>pc_Items c'. cents (pi_Total i)) - adj_cents AdjustmentDiscount (all_adjs c') +
        adj_cents AdjustmentTax (all_adjs c') + adj_cents AdjustmentFee (all_adjs c'))"
    obtain core where core: "?core = core @ [FinalizeStep]"
      by (simp add: core_pricing_steps_def)
    obtain front where front: "steps = front @ [FinalizeStep]"
      using merged_last [of core rs steps] merge dist last unfolding core by blast
    with run obtain c1 where c1: "Pipeline_Execute front c = Ok c1" and fin: "FinalizeStep_Apply c1 = Ok c'"
      by (cases "Pipeline_Execute front c")
        (auto simp: Pipeline_Execute_append FinalizeStep_def split: outcome.splits)
    have "pctx_ok c1 \<and> pc_Currency c1 = pc_Currency c"
      by (rule price_steps.pipeline_keeps [OF _ inv c1]) (use safe front in simp)
    then show "cents (pc_GrandTotal c') = (\<Sum>i\<leftarrow>pc_Items c'. cents (pi_Total i)) -
        adj_cents AdjustmentDiscount (all_adjs c') + adj_cents AdjustmentTax (all_adjs c') +
        adj_cents AdjustmentFee (all_adjs c') \<and> m_currency (pc_GrandTotal c') = pc_Currency c"
      using FinalizeStep_grand [OF _ fin] fits by (simp only: sint_of_int)
  qed
  show ?thesis
    using price_steps.pipeline_safe [OF safe inv] keeps grand by blast
qed

definition demo_basket :: pricing_context where
  "demo_basket = demo_pctx\<lparr>pc_Items := [\<lparr>pi_VariantID = ''vx'', pi_Quantity = 3, pi_UnitPrice = in_cur ''EUR'' 0,
     pi_Total = in_cur ''EUR'' 0, pi_Adjustments = []\<rparr>]\<rparr>"

definition demo_core :: "pricing_step list" where
  "demo_core = core_pricing_steps background demo_sources None (demo_env []) 1 2 (\<lambda>_ _ _. Inr None) (\<lambda>_. []) ''standard''"

lemma demo_base:
  "fst (BasePriceStep_Apply False background demo_sources None demo_basket) =
     Ok (demo_basket\<lparr>pc_Items := [\<lparr>pi_VariantID = ''vx'', pi_Quantity = 3, pi_UnitPrice = in_cur ''EUR'' 300,
       pi_Total = in_cur ''EUR'' 900, pi_Adjustments = []\<rparr>]\<rparr>)"
proof -
  have "resolveUnitPriceUncached background demo_sources ''vx'' ''EUR'' [] = Ok (in_cur ''EUR'' 300)"
    by (simp add: resolveUnitPriceUncached_def PurchaseAssignmentForVariant_def background_def demo_sources_def
        demo_variant_def demo_product_def lookupStoredUnitPrice_def demo_prices_def)
  then show ?thesis
    by (simp add: demo_basket_def BasePriceStep_Apply_def ResolveUnitPrice_def store_id_of_def demo_pctx_def
        base_item_def Let_def MulChecked_def i64 go_div_def MaxInt64_def MinInt64_def)
qed

theorem pricing_pipeline_sound_witness:
  "\<exists>c'. Pipeline_Execute demo_core demo_basket = Ok c' \<and> cents (pc_GrandTotal c') = 900"
proof -
  have prices: "\<forall>prices. us_Prices demo_sources = Some prices \<longrightarrow> sane_prices prices"
    by (auto simp: demo_sources_def sane_prices_def demo_prices_def split: if_splits)
  have cache: "cache_ok background demo_sources None" by (simp add: cache_ok_def)
  have ev: "sane_evaluators (pe_registry (demo_env []))" by (simp add: sane_evaluators_def demo_env_def)
  have rates: "sane_rates (\<lambda>_ _ _. Inr None)" by (simp add: sane_rates_def)
  have merge: "pricing_MergePluginSteps st_name demo_core [] = Ok demo_core"
    by (simp add: pricing_MergePluginSteps_def)
  have ok: "pctx_ok demo_basket"
    using demo_pctx_ok by (simp add: demo_basket_def demo_pctx_def pctx_ok_def item_in_def adjs_in_def)
  have "\<exists>c'. Pipeline_Execute demo_core demo_basket = Ok c' \<and>
      pc_Items c' = [\<lparr>pi_VariantID = ''vx'', pi_Quantity = 3, pi_UnitPrice = in_cur ''EUR'' 300,
        pi_Total = in_cur ''EUR'' 900, pi_Adjustments = []\<rparr>] \<and> pc_Adjustments c' = []"
    apply (simp add: demo_core_def core_pricing_steps_def BasePriceStep_def demo_base)
    apply (simp add: CatalogPromotionStep_def CartPromotionStep_def promo_eval)
    apply (simp add: TaxStep_def TaxStep_Apply_def RateTable_Calculate_def demo_basket_def demo_pctx_def)
    apply (simp add: FinalizeStep_def MustZero_valid [OF IsValidCurrency_EUR] itemNetTotal_def FinalizeStep_Apply_def Add_def Sub_def mustMatch_def)
    done
  then obtain c' where c': "Pipeline_Execute demo_core demo_basket = Ok c'"
    and items: "pc_Items c' = [\<lparr>pi_VariantID = ''vx'', pi_Quantity = 3, pi_UnitPrice = in_cur ''EUR'' 300,
        pi_Total = in_cur ''EUR'' 900, pi_Adjustments = []\<rparr>]" "pc_Adjustments c' = []" by blast
  have "safe_plugins []" "finalize_last []" by (simp_all add: safe_plugins_def finalize_last_def)
  note sound = pricing_pipeline_sound [OF prices cache ev rates merge [unfolded demo_core_def] this(1) ok,
      folded demo_core_def, THEN conjunct2, rule_format, OF c', THEN conjunct2, THEN conjunct2]
  have "cents (pc_GrandTotal c') = 900"
    using sound \<open>finalize_last []\<close>
    by (simp add: Let_def items all_adjs_def adj_cents_def in_int64_def)
  with c' show ?thesis by blast
qed

end
